(* ===== verification/Prelude.thy ===== *)
theory Prelude
  imports Main "HOL-Library.Word"
begin

text \<open>
  Shared vocabulary of the development: results of fallible code as sums, Rust's \<open>?\<close>
  operator as \<open>and_then\<close>, the early-returning loop as \<open>try_fold\<close>, machine-integer
  bounds, and the runtime environment (the allocator and the memory layout) that the
  repository depends on but does not define. The lemmas here carry the component proofs.
\<close>

section \<open>Results\<close>

text \<open>\<open>Inl\<close> is \<open>Err\<close>, \<open>Inr\<close> is \<open>Ok\<close>.\<close>

type_synonym ('e, 'a) result = "'e + 'a"

named_theorems result_simps \<open>rewriting of fallible code to its success or failure branches\<close>

definition and_then :: "('e, 'a) result \<Rightarrow> ('a \<Rightarrow> ('e, 'b) result) \<Rightarrow> ('e, 'b) result" where
  "and_then r f = (case r of Inl e \<Rightarrow> Inl e | Inr x \<Rightarrow> f x)"

definition ok_or :: "'e \<Rightarrow> 'a option \<Rightarrow> ('e, 'a) result" where
  "ok_or e x = (case x of None \<Rightarrow> Inl e | Some y \<Rightarrow> Inr y)"

definition map_err :: "('e \<Rightarrow> 'f) \<Rightarrow> ('e, 'a) result \<Rightarrow> ('f, 'a) result" where
  "map_err g r = (case r of Inl e \<Rightarrow> Inl (g e) | Inr x \<Rightarrow> Inr x)"

definition map_ok :: "('a \<Rightarrow> 'b) \<Rightarrow> ('e, 'a) result \<Rightarrow> ('e, 'b) result" where
  "map_ok g r = (case r of Inl e \<Rightarrow> Inl e | Inr x \<Rightarrow> Inr (g x))"

definition is_ok :: "('e, 'a) result \<Rightarrow> bool" where
  "is_ok r = (case r of Inl _ \<Rightarrow> False | Inr _ \<Rightarrow> True)"

text \<open>A guard that returns early with an error.\<close>

definition ensure :: "'e \<Rightarrow> bool \<Rightarrow> ('e, unit) result" where
  "ensure e b = (if b then Inr () else Inl e)"

lemma and_then_Inl [simp]: "and_then (Inl e) f = Inl e"
  by (simp add: and_then_def)

lemma and_then_Inr [simp]: "and_then (Inr x) f = f x"
  by (simp add: and_then_def)

lemma and_then_cong [fundef_cong]:
  "r = r' \<Longrightarrow> (\<And>x. r' = Inr x \<Longrightarrow> f x = g x) \<Longrightarrow> and_then r f = and_then r' g"
  by (simp add: and_then_def split: sum.split)

lemma and_then_eq_Inr [result_simps]:
  "and_then r f = Inr y \<longleftrightarrow> (\<exists>x. r = Inr x \<and> f x = Inr y)"
  by (cases r) auto

lemma and_then_eq_Inl [result_simps]:
  "and_then r f = Inl e \<longleftrightarrow> r = Inl e \<or> (\<exists>x. r = Inr x \<and> f x = Inl e)"
  by (cases r) auto

lemma and_then_assoc: "and_then (and_then r f) g = and_then r (\<lambda>x. and_then (f x) g)"
  by (cases r) auto

lemma and_then_if: "and_then (if b then r else s) f = (if b then and_then r f else and_then s f)"
  by simp

lemma ok_or_simps [simp]: "ok_or e None = Inl e" "ok_or e (Some x) = Inr x"
  by (simp_all add: ok_or_def)

lemma ok_or_eq_Inr [result_simps]: "ok_or e r = Inr x \<longleftrightarrow> r = Some x"
  by (cases r) auto

lemma map_err_simps [simp]: "map_err g (Inl e) = Inl (g e)" "map_err g (Inr x) = Inr x"
  by (simp_all add: map_err_def)

lemma map_err_eq_Inr [result_simps]: "map_err g r = Inr x \<longleftrightarrow> r = Inr x"
  by (cases r) auto

lemma map_ok_simps [simp]: "map_ok g (Inl e) = Inl e" "map_ok g (Inr x) = Inr (g x)"
  by (simp_all add: map_ok_def)

lemma map_ok_and_then: "map_ok g (and_then r f) = and_then r (\<lambda>x. map_ok g (f x))"
  by (cases r) auto

lemma map_ok_eq_Inr [result_simps]: "map_ok g r = Inr y \<longleftrightarrow> (\<exists>x. r = Inr x \<and> y = g x)"
  by (cases r) auto

lemma map_ok_if: "map_ok g (if b then r else s) = (if b then map_ok g r else map_ok g s)"
  by simp

lemma is_ok_simps [simp]: "\<not> is_ok (Inl e)" "is_ok (Inr x)"
  by (simp_all add: is_ok_def)

lemma is_ok_iff: "is_ok r \<longleftrightarrow> (\<exists>x. r = Inr x)"
  by (cases r) auto

lemma ensure_simps [simp]: "ensure e True = Inr ()" "ensure e False = Inl e"
  by (simp_all add: ensure_def)

lemma ensure_eq_Inr [result_simps]: "ensure e b = Inr u \<longleftrightarrow> b"
  by (cases b) auto

lemma and_then_ensure: "and_then (ensure e b) f = (if b then f () else Inl e)"
  by simp

section \<open>Loops with early return\<close>

fun try_fold :: "('s \<Rightarrow> 'x \<Rightarrow> ('e, 's) result) \<Rightarrow> 's \<Rightarrow> 'x list \<Rightarrow> ('e, 's) result" where
  "try_fold f s [] = Inr s"
| "try_fold f s (x # xs) = and_then (f s x) (\<lambda>s'. try_fold f s' xs)"

lemma try_fold_append:
  "try_fold f s (xs @ ys) = and_then (try_fold f s xs) (\<lambda>s'. try_fold f s' ys)"
  by (induction xs arbitrary: s) (simp_all add: and_then_assoc)

text \<open>
  Two loops over the same input whose bodies agree through an abstraction of the state give
  results that agree through it, errors included.
\<close>

lemma try_fold_abs:
  assumes "\<And>s x. I s \<Longrightarrow> x \<in> set xs \<Longrightarrow> g (h s) x = map_ok h (f s x)"
    and "\<And>s x s'. I s \<Longrightarrow> x \<in> set xs \<Longrightarrow> f s x = Inr s' \<Longrightarrow> I s'"
    and "I s"
  shows "try_fold g (h s) xs = map_ok h (try_fold f s xs)"
  using assms
proof (induction xs arbitrary: s)
  case (Cons x xs)
  have gx: "g (h s) x = map_ok h (f s x)"
    using Cons.prems(1,3) by simp
  have IH: "I s' \<Longrightarrow> try_fold g (h s') xs = map_ok h (try_fold f s' xs)" for s'
    using Cons.IH [of s'] Cons.prems(1,2) by (metis list.set_intros(2))
  show ?case
  proof (cases "f s x")
    case (Inr s')
    then have "I s'"
      using Cons.prems(2) [OF Cons.prems(3) _ Inr] by simp
    with Inr gx IH show ?thesis by simp
  qed (simp add: gx)
qed simp

lemma try_fold_invariant:
  assumes "\<And>s x s'. P s \<Longrightarrow> f s x = Inr s' \<Longrightarrow> P s'"
    and "P s" and "try_fold f s xs = Inr t"
  shows "P t"
  using assms(2,3)
  by (induction xs arbitrary: s) (auto simp: result_simps intro: assms(1))

section \<open>Machine integers\<close>

type_synonym u8 = "8 word"
type_synonym u16 = "16 word"
type_synonym u32 = "32 word"
type_synonym u64 = "64 word"
type_synonym byte = u8

text \<open>
  \<open>usize\<close> quantities (lengths, sizes) are \<open>nat\<close>s, with the 64-bit bound written out where
  the code checks it.
\<close>

definition usize_max :: nat where
  "usize_max = 2 ^ 64 - 1"

definition isize_max :: nat where
  "isize_max = 2 ^ 63 - 1"

definition u32_max :: nat where
  "u32_max = 2 ^ 32 - 1"

definition checked_add :: "nat \<Rightarrow> nat \<Rightarrow> nat option" where
  "checked_add a b = (if a + b \<le> usize_max then Some (a + b) else None)"

definition saturating_add :: "nat \<Rightarrow> nat \<Rightarrow> nat" where
  "saturating_add a b = min (a + b) usize_max"

definition saturating_mul :: "nat \<Rightarrow> nat \<Rightarrow> nat" where
  "saturating_mul a b = min (a * b) usize_max"

text \<open>\<open>u32::try_from\<close> on a \<open>usize\<close>.\<close>

definition u32_try_from :: "nat \<Rightarrow> u32 option" where
  "u32_try_from n = (if n \<le> u32_max then Some (of_nat n) else None)"

lemma checked_add_Some [simp]: "checked_add a b = Some c \<longleftrightarrow> c = a + b \<and> a + b \<le> usize_max"
  by (auto simp: checked_add_def)

lemma unat_of_nat_u32: "n \<le> u32_max \<Longrightarrow> unat (of_nat n :: u32) = n"
  by (simp add: u32_max_def unat_of_nat)

lemma u32_try_from_Some: "u32_try_from n = Some w \<longleftrightarrow> n \<le> u32_max \<and> w = of_nat n"
  by (auto simp: u32_try_from_def)

section \<open>The runtime environment\<close>

text \<open>
  The repository reserves all remotely sized memory fallibly (\<open>try_reserve_exact\<close>) and
  turns a refused reservation into an error value. Whether a reservation is granted is up to
  the allocator, and the size of a Rust structure is up to the compiler: both are fields of
  a \<open>runtime\<close> that the definitions take as their first argument.
\<close>

record runtime =
  grants :: "nat \<Rightarrow> bool" \<comment> \<open>does the allocator grant a reservation of that many bytes\<close>
  grows :: "nat \<Rightarrow> bool" \<comment> \<open>does \<open>Vec::try_reserve(1)\<close> succeed on a vector of that length\<close>
  size_of :: "string \<Rightarrow> nat" \<comment> \<open>\<open>size_of::<T>()\<close> of the type of that name\<close>

text \<open>
  A reservation of nothing always succeeds; one above \<open>isize::MAX\<close> bytes is refused by the
  standard library before the allocator sees it.
\<close>

definition try_reserve :: "runtime \<Rightarrow> nat \<Rightarrow> bool" where
  "try_reserve rt n \<longleftrightarrow> n = 0 \<or> (n \<le> isize_max \<and> grants rt n)"

text \<open>
  The allocator never refuses and no structure is larger than a megabyte: the case in which
  only the code's own limits decide.
\<close>

definition ample :: "runtime \<Rightarrow> bool" where
  "ample rt \<longleftrightarrow> (\<forall>n. grants rt n) \<and> (\<forall>n. grows rt n) \<and> (\<forall>t. size_of rt t \<le> 2 ^ 20)"

definition roomy_runtime :: runtime where
  "roomy_runtime = \<lparr>grants = (\<lambda>_. True), grows = (\<lambda>_. True), size_of = (\<lambda>_. 64)\<rparr>"

definition starved_runtime :: runtime where
  "starved_runtime = \<lparr>grants = (\<lambda>_. False), grows = (\<lambda>_. False), size_of = (\<lambda>_. 64)\<rparr>"

lemma ample_roomy [simp]: "ample roomy_runtime"
  by (simp add: ample_def roomy_runtime_def)

lemma grants_roomy [simp]: "grants roomy_runtime n"
  by (simp add: roomy_runtime_def)

lemma grows_roomy [simp]: "grows roomy_runtime n"
  by (simp add: roomy_runtime_def)

lemma ample_size_of: "ample rt \<Longrightarrow> size_of rt t \<le> 2 ^ 20"
  by (simp add: ample_def)

lemma ample_grants: "ample rt \<Longrightarrow> grants rt n" "ample rt \<Longrightarrow> grows rt n"
  by (simp_all add: ample_def)

lemma ample_try_reserve: "ample rt \<Longrightarrow> n \<le> isize_max \<Longrightarrow> try_reserve rt n"
  by (simp add: ample_def try_reserve_def)

section \<open>Lists\<close>

lemma take_prefix_append: "take (length xs) (xs @ ys) = xs"
  by simp

lemma takeWhile_notin: "c \<notin> set xs \<Longrightarrow> takeWhile (\<lambda>x. x \<noteq> c) (xs @ c # ys) = xs"
  by (induction xs) auto

lemma dropWhile_notin: "c \<notin> set xs \<Longrightarrow> dropWhile (\<lambda>x. x \<noteq> c) (xs @ c # ys) = c # ys"
  by (induction xs) auto

lemma length_dropWhile_less: "xs \<noteq> [] \<Longrightarrow> P (hd xs) \<Longrightarrow> length (dropWhile P xs) < length xs"
  by (cases xs) (auto simp: length_dropWhile_le less_Suc_eq_le)

lemma distinct_map_filter_fst: "distinct (map fst xs) \<Longrightarrow> distinct (map fst (filter P xs))"
  by (induction xs) auto

lemma sum_list_map_filter_le:
  "sum_list (map f (filter P xs)) \<le> (sum_list (map f xs) :: nat)"
  by (induction xs) auto

end
