(* ===== verification/Rust_Str.thy ===== *)
theory Rust_Str
  imports Prelude
begin

text \<open>
  What the sources use of Rust's \<open>char\<close> and \<open>str\<close>. A \<open>char\<close> is its code point, a
  \<open>str\<close> the list of its characters; \<open>len\<close> counts UTF-8 bytes as \<open>str::len\<close> does. The
  functions follow the standard library's documented behaviour, in particular
  \<open>str::lines\<close> (which drops a carriage return before a line feed) and \<open>FromStr\<close> of the
  unsigned integers (which accepts a leading plus sign).
\<close>

type_synonym uchar = nat
type_synonym ustr = "uchar list"

named_theorems str_simps \<open>evaluation of string operations on appended pieces\<close>

section \<open>Literals\<close>

abbreviation uc :: "char \<Rightarrow> uchar" where
  "uc c \<equiv> of_char c"

definition lit :: "string \<Rightarrow> ustr" where
  "lit s = map of_char s"

abbreviation (input) LF :: uchar where "LF \<equiv> 10"
abbreviation (input) CR :: uchar where "CR \<equiv> 13"
abbreviation (input) TAB :: uchar where "TAB \<equiv> 9"

lemma lit_inject [simp]: "lit a = lit b \<longleftrightarrow> a = b"
  by (auto simp: lit_def inj_map_eq_map inj_of_char)

lemma lit_Nil [simp]: "lit [] = []"
  by (simp add: lit_def)

lemma lit_eq_Nil [simp]: "lit s = [] \<longleftrightarrow> s = []"
  by (simp add: lit_def)

lemma length_lit [simp]: "length (lit s) = length s"
  by (simp add: lit_def)

lemma set_lit: "set (lit s) = of_char ` set s"
  by (simp add: lit_def)

section \<open>Characters\<close>

definition is_scalar :: "uchar \<Rightarrow> bool" where
  "is_scalar c \<longleftrightarrow> c < 0xD800 \<or> (0xE000 \<le> c \<and> c < 0x110000)"

definition len_utf8 :: "uchar \<Rightarrow> nat" where
  "len_utf8 c = (if c < 0x80 then 1 else if c < 0x800 then 2 else if c < 0x10000 then 3 else 4)"

definition is_control :: "uchar \<Rightarrow> bool" where
  "is_control c \<longleftrightarrow> c < 32 \<or> (127 \<le> c \<and> c \<le> 159)"

definition is_ascii_control :: "uchar \<Rightarrow> bool" where
  "is_ascii_control c \<longleftrightarrow> c < 32 \<or> c = 127"

definition is_whitespace :: "uchar \<Rightarrow> bool" where
  "is_whitespace c \<longleftrightarrow> (9 \<le> c \<and> c \<le> 13) \<or> c = 0x20 \<or> c = 0x85 \<or> c = 0xA0 \<or> c = 0x1680
     \<or> (0x2000 \<le> c \<and> c \<le> 0x200A) \<or> c = 0x2028 \<or> c = 0x2029 \<or> c = 0x202F \<or> c = 0x205F
     \<or> c = 0x3000"

definition is_ascii_digit :: "uchar \<Rightarrow> bool" where
  "is_ascii_digit c \<longleftrightarrow> 48 \<le> c \<and> c \<le> 57"

definition is_ascii_lowercase :: "uchar \<Rightarrow> bool" where
  "is_ascii_lowercase c \<longleftrightarrow> 97 \<le> c \<and> c \<le> 122"

definition is_ascii_uppercase :: "uchar \<Rightarrow> bool" where
  "is_ascii_uppercase c \<longleftrightarrow> 65 \<le> c \<and> c \<le> 90"

definition is_ascii_alphabetic :: "uchar \<Rightarrow> bool" where
  "is_ascii_alphabetic c \<longleftrightarrow> is_ascii_lowercase c \<or> is_ascii_uppercase c"

definition is_ascii_alphanumeric :: "uchar \<Rightarrow> bool" where
  "is_ascii_alphanumeric c \<longleftrightarrow> is_ascii_alphabetic c \<or> is_ascii_digit c"

definition to_ascii_lowercase :: "uchar \<Rightarrow> uchar" where
  "to_ascii_lowercase c = (if is_ascii_uppercase c then c + 32 else c)"

definition is_ascii :: "ustr \<Rightarrow> bool" where
  "is_ascii s \<longleftrightarrow> list_all (\<lambda>c. c < 128) s"

definition eq_ignore_ascii_case :: "ustr \<Rightarrow> ustr \<Rightarrow> bool" where
  "eq_ignore_ascii_case a b \<longleftrightarrow> map to_ascii_lowercase a = map to_ascii_lowercase b"

lemma len_utf8_pos: "0 < len_utf8 c"
  by (simp add: len_utf8_def)

lemma len_utf8_le: "len_utf8 c \<le> 4"
  by (simp add: len_utf8_def)

lemma to_ascii_lowercase_idem [simp]:
  "to_ascii_lowercase (to_ascii_lowercase c) = to_ascii_lowercase c"
  by (auto simp: to_ascii_lowercase_def is_ascii_uppercase_def)

lemma len_utf8_to_ascii_lowercase [simp]: "len_utf8 (to_ascii_lowercase c) = len_utf8 c"
  by (auto simp: to_ascii_lowercase_def is_ascii_uppercase_def len_utf8_def)

section \<open>Lengths\<close>

definition len :: "ustr \<Rightarrow> nat" where
  "len s = sum_list (map len_utf8 s)"

lemma len_Nil [simp]: "len [] = 0"
  by (simp add: len_def)

lemma len_Cons [simp]: "len (c # s) = len_utf8 c + len s"
  by (simp add: len_def)

lemma len_append [simp]: "len (s @ t) = len s + len t"
  by (simp add: len_def)

lemma len_eq_0 [simp]: "len s = 0 \<longleftrightarrow> s = []"
  using len_utf8_pos by (cases s) (auto simp: len_def)

lemma len_ascii: "is_ascii s \<Longrightarrow> len s = length s"
  by (induction s) (auto simp: is_ascii_def len_utf8_def)

lemma length_le_len: "length s \<le> len s"
proof (induction s)
  case (Cons c s)
  then show ?case using len_utf8_pos [of c] by simp
qed simp

lemma len_drop_le: "len (drop n s) \<le> len s"
  by (metis append_take_drop_id le_add2 len_append)

lemma len_take_le: "len (take n s) \<le> len s"
  by (metis append_take_drop_id le_add1 len_append)

lemma len_lit [str_simps]: "list_all (\<lambda>c. of_char c < (128::nat)) s \<Longrightarrow> len (lit s) = length s"
  by (induction s) (auto simp: lit_def len_utf8_def)

section \<open>Searching and splitting\<close>

fun starts_with :: "ustr \<Rightarrow> ustr \<Rightarrow> bool" where
  "starts_with [] s = True"
| "starts_with (p # ps) [] = False"
| "starts_with (p # ps) (c # cs) = (p = c \<and> starts_with ps cs)"

definition strip_prefix :: "ustr \<Rightarrow> ustr \<Rightarrow> ustr option" where
  "strip_prefix p s = (if starts_with p s then Some (drop (length p) s) else None)"

definition ends_with_char :: "uchar \<Rightarrow> ustr \<Rightarrow> bool" where
  "ends_with_char c s \<longleftrightarrow> s \<noteq> [] \<and> last s = c"

definition strip_suffix_char :: "uchar \<Rightarrow> ustr \<Rightarrow> ustr option" where
  "strip_suffix_char c s = (if ends_with_char c s then Some (butlast s) else None)"

text \<open>Position, in characters, of the first character satisfying a predicate.\<close>

fun find_char :: "(uchar \<Rightarrow> bool) \<Rightarrow> ustr \<Rightarrow> nat option" where
  "find_char P [] = None"
| "find_char P (c # cs) = (if P c then Some 0 else map_option Suc (find_char P cs))"

text \<open>Position of the first occurrence of a substring.\<close>

fun find_sub :: "ustr \<Rightarrow> ustr \<Rightarrow> nat option" where
  "find_sub p [] = (if p = [] then Some 0 else None)"
| "find_sub p (c # cs) =
     (if starts_with p (c # cs) then Some 0 else map_option Suc (find_sub p cs))"

definition split_once :: "ustr \<Rightarrow> ustr \<Rightarrow> (ustr \<times> ustr) option" where
  "split_once p s =
     (case find_sub p s of None \<Rightarrow> None | Some i \<Rightarrow> Some (take i s, drop (i + length p) s))"

definition rsplit_once_char :: "uchar \<Rightarrow> ustr \<Rightarrow> (ustr \<times> ustr) option" where
  "rsplit_once_char c s =
     (case find_char (\<lambda>x. x = c) (rev s) of None \<Rightarrow> None
      | Some i \<Rightarrow> Some (take (length s - Suc i) s, drop (length s - i) s))"

text \<open>\<open>str::split\<close> on one character: one piece more than there are separators.\<close>

fun split_char :: "uchar \<Rightarrow> ustr \<Rightarrow> ustr list" where
  "split_char c [] = [[]]"
| "split_char c (x # xs) =
     (if x = c then [] # split_char c xs
      else (case split_char c xs of [] \<Rightarrow> [[x]] | w # ws \<Rightarrow> (x # w) # ws))"

text \<open>\<open>str::splitn\<close>: at most \<open>n\<close> pieces, the last one unsplit.\<close>

fun splitn_char :: "nat \<Rightarrow> uchar \<Rightarrow> ustr \<Rightarrow> ustr list" where
  "splitn_char 0 c s = []"
| "splitn_char (Suc 0) c s = [s]"
| "splitn_char (Suc (Suc n)) c s =
     (case find_char (\<lambda>x. x = c) s of None \<Rightarrow> [s]
      | Some i \<Rightarrow> take i s # splitn_char (Suc n) c (drop (Suc i) s))"

definition strip_cr :: "ustr \<Rightarrow> ustr" where
  "strip_cr l = (case strip_suffix_char CR l of None \<Rightarrow> l | Some l' \<Rightarrow> l')"

function lines :: "ustr \<Rightarrow> ustr list" where
  "lines s =
     (if s = [] then []
      else case dropWhile (\<lambda>c. c \<noteq> LF) s of
             [] \<Rightarrow> [s]
           | _ # rest \<Rightarrow> strip_cr (takeWhile (\<lambda>c. c \<noteq> LF) s) # lines rest)"
  by pat_completeness auto
termination
proof (relation "measure length")
  fix s x rest
  assume "dropWhile (\<lambda>c. c \<noteq> LF) s = (x :: nat) # rest"
  then have "length (x # rest) \<le> length s"
    by (metis length_dropWhile_le)
  then show "(rest, s) \<in> measure length" by simp
qed simp

declare lines.simps [simp del]

definition trim :: "ustr \<Rightarrow> ustr" where
  "trim s = rev (dropWhile is_whitespace (rev (dropWhile is_whitespace s)))"

definition trim_end_matches :: "uchar \<Rightarrow> ustr \<Rightarrow> ustr" where
  "trim_end_matches c s = rev (dropWhile (\<lambda>x. x = c) (rev s))"

section \<open>Decimal numbers\<close>

fun show_nat :: "nat \<Rightarrow> ustr" where
  "show_nat n = (if n < 10 then [48 + n] else show_nat (n div 10) @ [48 + n mod 10])"

declare show_nat.simps [simp del]

definition digits_value :: "ustr \<Rightarrow> nat" where
  "digits_value s = foldl (\<lambda>a c. 10 * a + (c - 48)) 0 s"

text \<open>\<open>FromStr\<close> of the unsigned integer type whose largest value is \<open>m\<close>.\<close>

definition parse_uint :: "nat \<Rightarrow> ustr \<Rightarrow> nat option" where
  "parse_uint m s =
     (let ds = (case s of c # cs \<Rightarrow> if c = uc CHR ''+'' \<and> cs \<noteq> [] then cs else s | [] \<Rightarrow> [])
      in if ds \<noteq> [] \<and> list_all is_ascii_digit ds \<and> digits_value ds \<le> m
         then Some (digits_value ds) else None)"

section \<open>Lemmas\<close>

lemma starts_with_iff: "starts_with p s \<longleftrightarrow> take (length p) s = p"
  by (induction p s rule: starts_with.induct) auto

lemma starts_with_append [simp]: "starts_with p (p @ s)"
  by (simp add: starts_with_iff)

lemma starts_withE:
  assumes "starts_with p s" obtains t where "s = p @ t"
  using assms by (metis append_take_drop_id starts_with_iff)

lemma strip_prefix_append [simp]: "strip_prefix p (p @ s) = Some s"
  by (simp add: strip_prefix_def)

lemma strip_prefix_self [simp]: "strip_prefix p p = Some []"
  using strip_prefix_append [of p "[]"] by simp

lemma strip_prefix_Some: "strip_prefix p s = Some t \<longleftrightarrow> s = p @ t"
  by (metis append_eq_conv_conj option.inject option.simps(3) starts_withE starts_with_append
      strip_prefix_append strip_prefix_def)

lemma find_char_None: "find_char P s = None \<longleftrightarrow> list_all (\<lambda>c. \<not> P c) s"
  by (induction s) auto

lemma find_char_append:
  "list_all (\<lambda>c. \<not> P c) s \<Longrightarrow> P c \<Longrightarrow> find_char P (s @ c # t) = Some (length s)"
  by (induction s) auto

lemma find_char_Some:
  "find_char P s = Some i \<longleftrightarrow> i < length s \<and> P (s ! i) \<and> (\<forall>j < i. \<not> P (s ! j))"
  by (induction s arbitrary: i) (auto simp: nth_Cons less_Suc_eq_0_disj split: nat.splits)

lemma find_char_decomp:
  assumes "find_char P s = Some i"
  shows "s = take i s @ s ! i # drop (Suc i) s" "list_all (\<lambda>c. \<not> P c) (take i s)" "P (s ! i)"
  using assms
  by (auto simp: find_char_Some id_take_nth_drop list_all_iff in_set_conv_nth)

lemma find_sub_Some_take:
  "find_sub p s = Some i \<Longrightarrow> s = take i s @ p @ drop (i + length p) s"
proof (induction p s arbitrary: i rule: find_sub.induct)
  case (2 p c cs)
  then show ?case
    by (auto split: if_splits simp: starts_with_iff)
      (metis append_take_drop_id length_Cons take_Suc_Cons drop_Suc_Cons)
qed (auto split: if_splits)

lemma split_once_Some: "split_once p s = Some (a, b) \<Longrightarrow> s = a @ p @ b"
  by (auto simp: split_once_def find_sub_Some_take split: option.splits)

text \<open>No occurrence of the pattern starts inside the left piece.\<close>

lemma find_sub_append:
  assumes "\<And>k. k < length a \<Longrightarrow> \<not> starts_with p (drop k (a @ p @ b))"
  shows "find_sub p (a @ p @ b) = Some (length a)"
  using assms
proof (induction a)
  case Nil
  have "starts_with p (p @ b)" by simp
  then show ?case by (cases "p @ b") (auto simp del: starts_with_append)
next
  case (Cons c a)
  have "\<not> starts_with p (c # a @ p @ b)"
    using Cons.prems [of 0] by simp
  moreover have "\<not> starts_with p (drop k (a @ p @ b))" if "k < length a" for k
    using Cons.prems [of "Suc k"] that by simp
  ultimately show ?case
    using Cons.IH by simp
qed

lemma split_once_append:
  assumes "\<And>k. k < length a \<Longrightarrow> \<not> starts_with p (drop k (a @ p @ b))"
  shows "split_once p (a @ p @ b) = Some (a, b)"
  using find_sub_append [OF assms] by (simp add: split_once_def)

text \<open>A two-character pattern whose first character is not in the left piece.\<close>

lemma no_start_inside:
  "c \<notin> set a \<Longrightarrow> k < length a \<Longrightarrow> \<not> starts_with (c # p) (drop k (a @ t))"
  by (cases "drop k a") (auto, metis in_set_dropD list.set_intros(1))

lemma split_once_notin:
  assumes "c \<notin> set a"
  shows "split_once (c # p) (a @ (c # p) @ b) = Some (a, b)"
  using no_start_inside [OF assms] by (intro split_once_append)

lemma find_sub_notin:
  assumes "c \<notin> set a"
  shows "find_sub (c # p) (a @ (c # p) @ b) = Some (length a)"
  using no_start_inside [OF assms] by (intro find_sub_append)

lemma rsplit_once_char_None: "rsplit_once_char c s = None \<longleftrightarrow> c \<notin> set s"
  using find_char_None [of "\<lambda>x. x = c" "rev s"]
  by (auto simp: rsplit_once_char_def list_all_iff split: option.splits)

lemma rsplit_once_char_append:
  assumes "c \<notin> set b"
  shows "rsplit_once_char c (a @ c # b) = Some (a, b)"
proof -
  have "find_char (\<lambda>x. x = c) (rev b @ c # rev a) = Some (length b)"
    using find_char_append [of "\<lambda>x. x = c" "rev b" c "rev a"] assms by (auto simp: list_all_iff)
  then show ?thesis
    by (simp add: rsplit_once_char_def)
qed

lemma rsplit_once_char_Some:
  assumes "rsplit_once_char c s = Some (a, b)"
  shows "s = a @ c # b \<and> c \<notin> set b"
proof -
  have "c \<in> set s"
    using assms rsplit_once_char_None [of c s] by (cases "c \<in> set s") auto
  then obtain a' b' where "s = a' @ c # b'" "c \<notin> set b'"
    using split_list_last by metis
  with assms show ?thesis
    by (simp add: rsplit_once_char_append)
qed

lemma split_char_not_Nil [simp]: "split_char c s \<noteq> []"
  by (induction s) (auto split: list.splits)

lemma split_char_notin: "c \<notin> set s \<Longrightarrow> split_char c s = [s]"
  by (induction s) auto

lemma split_char_append:
  "c \<notin> set s \<Longrightarrow> split_char c (s @ c # t) = s # split_char c t"
  by (induction s) (auto split: list.splits)

lemma split_char_pieces: "w \<in> set (split_char c s) \<Longrightarrow> c \<notin> set w"
  by (induction s arbitrary: w) (auto split: if_splits list.splits)

text \<open>Joining with a separator, the inverse of splitting.\<close>

fun join_char :: "uchar \<Rightarrow> ustr list \<Rightarrow> ustr" where
  "join_char c [] = []"
| "join_char c [w] = w"
| "join_char c (w # w' # ws) = w @ c # join_char c (w' # ws)"

lemma join_char_snoc:
  "join_char c (ws @ [w]) = (if ws = [] then w else join_char c ws @ c # w)"
  by (induction c ws rule: join_char.induct) auto

lemma join_split: "join_char c (split_char c s) = s"
proof (induction s)
  case (Cons x s)
  then show ?case
    by (cases "split_char c s"; cases "tl (split_char c s)") auto
qed simp

lemma split_join:
  "ws \<noteq> [] \<Longrightarrow> \<forall>w \<in> set ws. c \<notin> set w \<Longrightarrow> split_char c (join_char c ws) = ws"
  by (induction c ws rule: join_char.induct) (auto simp: split_char_notin split_char_append)

lemma len_join_char:
  "c < 128 \<Longrightarrow> len (join_char c ws) = sum_list (map len ws) + (length ws - 1)"
  by (induction c ws rule: join_char.induct) (auto simp: len_utf8_def)

lemma set_join_char: "set (join_char c ws) \<subseteq> insert c (\<Union> (set ` set ws))"
  by (induction c ws rule: join_char.induct) auto

subsection \<open>Lines\<close>

lemma lines_Nil [simp]: "lines [] = []"
  by (subst lines.simps) simp

lemma lines_append:
  assumes "LF \<notin> set l"
  shows "lines (l @ LF # rest) = strip_cr l # lines rest"
  using takeWhile_notin [OF assms, of rest] dropWhile_notin [OF assms, of rest]
  by (subst lines.simps) simp

lemma lines_unterminated: "LF \<notin> set l \<Longrightarrow> l \<noteq> [] \<Longrightarrow> lines l = [l]"
proof -
  assume "LF \<notin> set l" "l \<noteq> []"
  then have "dropWhile (\<lambda>c. c \<noteq> LF) l = []"
    by (metis (mono_tags) dropWhile_eq_Nil_conv)
  with \<open>l \<noteq> []\<close> show "lines l = [l]"
    by (simp only: lines.simps [of l] list.case if_False)
qed

lemma strip_cr_clean: "CR \<notin> set l \<Longrightarrow> strip_cr l = l"
  by (auto simp: strip_cr_def strip_suffix_char_def ends_with_char_def) (metis last_in_set)

lemma lines_line [str_simps]:
  "LF \<notin> set l \<Longrightarrow> CR \<notin> set l \<Longrightarrow> lines (l @ LF # rest) = l # lines rest"
  by (simp add: lines_append strip_cr_clean)

lemma lines_no_LF: "l \<in> set (lines s) \<Longrightarrow> LF \<notin> set l"
proof (induction s rule: lines.induct)
  case (1 s)
  show ?case
  proof (cases "s = []")
    case False
    show ?thesis
    proof (cases "dropWhile (\<lambda>c. c \<noteq> LF) s")
      case Nil
      then have "LF \<notin> set s"
        by (metis (mono_tags) dropWhile_eq_Nil_conv)
      moreover from this have "lines s = [s]"
        using False by (rule lines_unterminated)
      ultimately show ?thesis using "1.prems" by simp
    next
      case (Cons x rest)
      have sub: "set (strip_cr t) \<subseteq> set t" for t
        by (auto simp: strip_cr_def strip_suffix_char_def split: option.splits if_splits
            dest: in_set_butlastD)
      have "LF \<notin> set (takeWhile (\<lambda>c. c \<noteq> LF) s)"
        by (auto dest: set_takeWhileD)
      moreover have "lines s = strip_cr (takeWhile (\<lambda>c. c \<noteq> LF) s) # lines rest"
        using False Cons by (subst lines.simps) simp
      ultimately show ?thesis
        using "1.prems" "1.IH" [OF False Cons] sub by auto
    qed
  qed (use "1.prems" in simp)
qed

subsection \<open>Decimal numbers\<close>

lemma show_nat_not_Nil [simp]: "show_nat n \<noteq> []"
  by (subst show_nat.simps) simp

lemma show_nat_digits: "list_all is_ascii_digit (show_nat n)"
proof (induction n rule: show_nat.induct)
  case (1 n)
  have "n mod 10 \<le> 9"
    using mod_less_divisor [of 10 n] by linarith
  then have "is_ascii_digit (48 + n mod 10)"
    by (simp add: is_ascii_digit_def)
  moreover have "n < 10 \<Longrightarrow> is_ascii_digit (48 + n)"
    by (simp add: is_ascii_digit_def)
  ultimately show ?case
    using 1 by (subst show_nat.simps) auto
qed

lemma digits_value_append: "digits_value (s @ [c]) = 10 * digits_value s + (c - 48)"
  by (simp add: digits_value_def)

lemma digits_value_show_nat [simp]: "digits_value (show_nat n) = n"
proof (induction n rule: show_nat.induct)
  case (1 n)
  show ?case
  proof (cases "n < 10")
    case True
    then show ?thesis by (subst show_nat.simps) (simp add: digits_value_def)
  next
    case False
    then show ?thesis
      using 1 by (subst show_nat.simps) (simp add: digits_value_append)
  qed
qed

lemma show_nat_inject [simp]: "show_nat m = show_nat n \<longleftrightarrow> m = n"
  by (metis digits_value_show_nat)

lemma show_nat_hd: "show_nat n = c # cs \<Longrightarrow> is_ascii_digit c"
  using show_nat_digits [of n] by simp

lemma parse_uint_show_nat [simp]:
  assumes "n \<le> m" shows "parse_uint m (show_nat n) = Some n"
proof -
  obtain c cs where s: "show_nat n = c # cs"
    by (cases "show_nat n") auto
  have "c \<noteq> 43"
    using show_nat_hd [OF s] by (simp add: is_ascii_digit_def)
  then show ?thesis
    using assms show_nat_digits [of n] digits_value_show_nat [of n]
    by (simp add: parse_uint_def s)
qed

lemma parse_uint_bound: "parse_uint m s = Some n \<Longrightarrow> n \<le> m"
  by (auto simp: parse_uint_def Let_def split: if_splits)

lemma show_nat_ascii: "is_ascii (show_nat n)"
  using show_nat_digits [of n] by (auto simp: is_ascii_def list_all_iff is_ascii_digit_def)

lemma show_nat_no_control: "c \<in> set (show_nat n) \<Longrightarrow> \<not> is_control c"
  using show_nat_digits [of n] by (auto simp: list_all_iff is_ascii_digit_def is_control_def)

lemma show_nat_no_space: "c \<in> set (show_nat n) \<Longrightarrow> 48 \<le> c \<and> c \<le> 57"
  using show_nat_digits [of n] by (auto simp: list_all_iff is_ascii_digit_def)

lemma no_control_no_LF:
  "\<forall>c \<in> set s. \<not> is_control c \<Longrightarrow> LF \<notin> set s"
  "\<forall>c \<in> set s. \<not> is_control c \<Longrightarrow> CR \<notin> set s"
  by (auto simp: is_control_def)

end
