(* ===== verification/Utf8.thy ===== *)
theory Utf8
  imports Rust_Str
begin

text \<open>
  UTF-8 as the standard library encodes and validates it: \<open>utf8\<close> is \<open>str::as_bytes\<close>,
  \<open>from_utf8\<close> is \<open>std::str::from_utf8\<close> with its error (how many bytes were valid, and the
  length of the offending sequence when it is not merely truncated). The two are inverse to
  each other, and the byte length of a string is its \<open>len\<close>.
\<close>

section \<open>Encoding\<close>

definition enc_char :: "uchar \<Rightarrow> nat list" where
  "enc_char c =
     (if c < 0x80 then [c]
      else if c < 0x800 then [0xC0 + c div 64, 0x80 + c mod 64]
      else if c < 0x10000 then [0xE0 + c div 64 div 64, 0x80 + c div 64 mod 64, 0x80 + c mod 64]
      else [0xF0 + c div 64 div 64 div 64, 0x80 + c div 64 div 64 mod 64,
            0x80 + c div 64 mod 64, 0x80 + c mod 64])"

definition enc :: "ustr \<Rightarrow> nat list" where
  "enc s = concat (map enc_char s)"

definition utf8 :: "ustr \<Rightarrow> byte list" where
  "utf8 s = map of_nat (enc s)"

definition valid_str :: "ustr \<Rightarrow> bool" where
  "valid_str s \<longleftrightarrow> list_all is_scalar s"

section \<open>Decoding\<close>

record utf8_error =
  valid_up_to :: nat
  error_len :: "nat option"

definition is_cont :: "nat \<Rightarrow> bool" where
  "is_cont b \<longleftrightarrow> 0x80 \<le> b \<and> b \<le> 0xBF"

definition second_of_3 :: "nat \<Rightarrow> nat \<Rightarrow> bool" where
  "second_of_3 b0 b1 \<longleftrightarrow>
     (b0 = 0xE0 \<and> 0xA0 \<le> b1 \<and> b1 \<le> 0xBF) \<or> (0xE1 \<le> b0 \<and> b0 \<le> 0xEC \<and> is_cont b1)
     \<or> (b0 = 0xED \<and> 0x80 \<le> b1 \<and> b1 \<le> 0x9F) \<or> (0xEE \<le> b0 \<and> b0 \<le> 0xEF \<and> is_cont b1)"

definition second_of_4 :: "nat \<Rightarrow> nat \<Rightarrow> bool" where
  "second_of_4 b0 b1 \<longleftrightarrow>
     (b0 = 0xF0 \<and> 0x90 \<le> b1 \<and> b1 \<le> 0xBF) \<or> (0xF1 \<le> b0 \<and> b0 \<le> 0xF3 \<and> is_cont b1)
     \<or> (b0 = 0xF4 \<and> 0x80 \<le> b1 \<and> b1 \<le> 0x8F)"

text \<open>One character off the front of a byte sequence, or the \<open>error_len\<close> of the failure.\<close>

fun dec_char :: "nat list \<Rightarrow> (nat option, uchar \<times> nat list) result" where
  "dec_char [] = Inl None"
| "dec_char (b0 # r) =
     (if b0 < 0x80 then Inr (b0, r)
      else if 0xC2 \<le> b0 \<and> b0 \<le> 0xDF then
        (case r of [] \<Rightarrow> Inl None
         | b1 # r1 \<Rightarrow> if is_cont b1 then Inr ((b0 - 0xC0) * 64 + (b1 - 0x80), r1) else Inl (Some 1))
      else if 0xE0 \<le> b0 \<and> b0 \<le> 0xEF then
        (case r of [] \<Rightarrow> Inl None
         | b1 # r1 \<Rightarrow>
             if second_of_3 b0 b1 then
               (case r1 of [] \<Rightarrow> Inl None
                | b2 # r2 \<Rightarrow>
                    if is_cont b2
                    then Inr (((b0 - 0xE0) * 64 + (b1 - 0x80)) * 64 + (b2 - 0x80), r2)
                    else Inl (Some 2))
             else Inl (Some 1))
      else if 0xF0 \<le> b0 \<and> b0 \<le> 0xF4 then
        (case r of [] \<Rightarrow> Inl None
         | b1 # r1 \<Rightarrow>
             if second_of_4 b0 b1 then
               (case r1 of [] \<Rightarrow> Inl None
                | b2 # r2 \<Rightarrow>
                    if is_cont b2 then
                      (case r2 of [] \<Rightarrow> Inl None
                       | b3 # r3 \<Rightarrow>
                           if is_cont b3
                           then Inr ((((b0 - 0xF0) * 64 + (b1 - 0x80)) * 64 + (b2 - 0x80)) * 64
                                     + (b3 - 0x80), r3)
                           else Inl (Some 3))
                    else Inl (Some 2))
             else Inl (Some 1))
      else Inl (Some 1))"

lemma dec_char_rest: "dec_char bs = Inr (c, r) \<Longrightarrow> length r < length bs"
  by (cases bs) (auto split: if_splits list.splits)

function dec_at :: "nat \<Rightarrow> nat list \<Rightarrow> (utf8_error, ustr) result" where
  "dec_at i bs =
     (if bs = [] then Inr []
      else case dec_char bs of
             Inl e \<Rightarrow> Inl \<lparr>valid_up_to = i, error_len = e\<rparr>
           | Inr (c, r) \<Rightarrow> map_ok (\<lambda>s. c # s) (dec_at (i + (length bs - length r)) r))"
  by pat_completeness auto
termination
  by (relation "measure (\<lambda>(i, bs). length bs)") (auto dest: dec_char_rest)

declare dec_at.simps [simp del]

definition from_utf8 :: "byte list \<Rightarrow> (utf8_error, ustr) result" where
  "from_utf8 bs = dec_at 0 (map unat bs)"

text \<open>The pieces \<open>Display\<close> of \<open>Utf8Error\<close> writes.\<close>

definition utf8_error_text :: "utf8_error \<Rightarrow> ustr list" where
  "utf8_error_text e =
     (case error_len e of
        Some n \<Rightarrow> [lit ''invalid utf-8 sequence of '', show_nat n, lit '' bytes from index '',
                   show_nat (valid_up_to e)]
      | None \<Rightarrow> [lit ''incomplete utf-8 byte sequence from index '', show_nat (valid_up_to e)])"

section \<open>Inverse laws\<close>

lemma second_of_3_split:
  assumes "a < 16" "b \<le> 63" "32 \<le> a * 64 + b" "a * 64 + b < 0x360 \<or> 0x380 \<le> a * 64 + b"
  shows "second_of_3 (0xE0 + a) (0x80 + b)"
proof -
  consider "a = 0" | "a = 13" | "0 < a" "a < 13" | "13 < a" by linarith
  then show ?thesis
    using assms by cases (auto simp: second_of_3_def is_cont_def)
qed

lemma second_of_4_split:
  assumes "a < 5" "b \<le> 63" "16 \<le> a * 64 + b" "a * 64 + b < 0x110"
  shows "second_of_4 (0xF0 + a) (0x80 + b)"
proof -
  consider "a = 0" | "a = 4" | "0 < a" "a < 4" using assms(1) by linarith
  then show ?thesis
    using assms by cases (auto simp: second_of_4_def is_cont_def)
qed

lemma dec_enc_char:
  assumes "is_scalar c"
  shows "dec_char (enc_char c @ r) = Inr (c, r)"
proof -
  consider "c < 0x80" | "0x80 \<le> c" "c < 0x800" | "0x800 \<le> c" "c < 0x10000"
    | "0x10000 \<le> c" "c < 0x110000"
    using assms unfolding is_scalar_def by linarith
  then show ?thesis
  proof cases
    case 1
    then show ?thesis by (simp add: enc_char_def)
  next
    case 2
    then have "2 \<le> c div 64" "c div 64 < 32" by auto
    with 2 show ?thesis by (simp add: enc_char_def is_cont_def)
  next
    case 3
    define q where "q = c div 64"
    have q: "32 \<le> q" "q < 1024" "q < 0x360 \<or> 0x380 \<le> q"
      using 3 assms unfolding is_scalar_def q_def by auto
    have m: "q div 64 < 16" "q = q div 64 * 64 + q mod 64" "q mod 64 \<le> 63" "c mod 64 \<le> 63"
      "c = q * 64 + c mod 64"
      using q mod_less_divisor [of 64 q] mod_less_divisor [of 64 c] by (auto simp: q_def)
    have s: "second_of_3 (0xE0 + q div 64) (0x80 + q mod 64)"
      using q m by (intro second_of_3_split) auto
    have e: "enc_char c = [0xE0 + q div 64, 0x80 + q mod 64, 0x80 + c mod 64]"
      using 3 by (simp add: enc_char_def q_def)
    from m s show ?thesis
      by (simp add: e is_cont_def)
  next
    case 4
    define p q where "p = c div 64" and "q = p div 64"
    have q: "16 \<le> q" "q < 0x110"
      using 4 by (auto simp: p_def q_def)
    have m: "q div 64 < 5" "q = q div 64 * 64 + q mod 64" "q mod 64 \<le> 63" "c mod 64 \<le> 63"
      "p mod 64 \<le> 63" "p = q * 64 + p mod 64" "c = p * 64 + c mod 64"
      using q mod_less_divisor [of 64 q] mod_less_divisor [of 64 c] mod_less_divisor [of 64 p]
      by (auto simp: q_def) (auto simp: p_def)
    have s: "second_of_4 (0xF0 + q div 64) (0x80 + q mod 64)"
      using q m by (intro second_of_4_split) auto
    have e: "enc_char c = [0xF0 + q div 64, 0x80 + q mod 64, 0x80 + p mod 64, 0x80 + c mod 64]"
      using 4 by (simp add: enc_char_def p_def q_def)
    from m s show ?thesis
      by (simp add: e is_cont_def)
  qed
qed

lemma split_64: "a < 64 \<Longrightarrow> (n * 64 + a) div 64 = n \<and> (n * 64 + a) mod 64 = (a::nat)"
  by simp

lemma scalar_3:
  assumes "32 \<le> n" "n < 1024" "n < 0x360 \<or> 0x380 \<le> n" "d < 64"
  shows "0x800 \<le> n * 64 + d \<and> n * 64 + d < 0x10000 \<and> is_scalar (n * 64 + d)"
  using assms unfolding is_scalar_def by (elim disjE) auto

lemma scalar_4:
  assumes "16 \<le> n" "n < 0x110" "d < 64" "e < 64"
  shows "0x10000 \<le> (n * 64 + d) * 64 + e \<and> is_scalar ((n * 64 + d) * 64 + e)"
  using assms unfolding is_scalar_def by auto

lemma enc_dec_char:
  assumes "dec_char bs = Inr (c, r)"
  shows "bs = enc_char c @ r \<and> is_scalar c"
proof -
  from assms obtain b0 t where bs: "bs = b0 # t" by (cases bs) auto
  consider "b0 < 0x80" | "0xC2 \<le> b0" "b0 \<le> 0xDF" | "0xE0 \<le> b0" "b0 \<le> 0xEF"
    | "0xF0 \<le> b0" "b0 \<le> 0xF4"
    using assms bs by (auto split: if_splits)
  then show ?thesis
  proof cases
    case 1
    then show ?thesis using assms bs by (auto simp: enc_char_def is_scalar_def)
  next
    case 2
    then obtain b1 where t: "t = b1 # r" "is_cont b1" and c: "c = (b0 - 0xC0) * 64 + (b1 - 0x80)"
      using assms bs by (auto split: list.splits if_splits)
    from t c 2 split_64 [of "b1 - 0x80" "b0 - 0xC0"] have
      "c div 64 = b0 - 0xC0" "c mod 64 = b1 - 0x80" "0x80 \<le> c" "c < 0x800"
      by (auto simp: is_cont_def)
    with 2 t bs show ?thesis
      by (auto simp: enc_char_def is_scalar_def is_cont_def)
  next
    case 3
    then obtain b1 b2 where t: "t = b1 # b2 # r" "second_of_3 b0 b1" "is_cont b2"
      and c: "c = ((b0 - 0xE0) * 64 + (b1 - 0x80)) * 64 + (b2 - 0x80)"
      using assms bs by (auto split: list.splits if_splits)
    let ?q = "(b0 - 0xE0) * 64 + (b1 - 0x80)"
    have b1: "is_cont b1" using t(2) by (auto simp: second_of_3_def is_cont_def)
    have q: "32 \<le> ?q" "?q < 1024" "?q < 0x360 \<or> 0x380 \<le> ?q"
      using t(2) 3 unfolding second_of_3_def is_cont_def by linarith+
    from t c split_64 [of "b2 - 0x80" ?q] have d: "c div 64 = ?q" "c mod 64 = b2 - 0x80"
      by (auto simp: is_cont_def)
    have e: "?q div 64 = b0 - 0xE0" "?q mod 64 = b1 - 0x80"
      using split_64 [of "b1 - 0x80" "b0 - 0xE0"] b1 unfolding is_cont_def by linarith+
    have l: "0x800 \<le> c" "c < 0x10000" "is_scalar c"
      using scalar_3 [OF q, of "b2 - 0x80"] t(3) by (auto simp: c is_cont_def)
    from 3 t bs b1 d e l show ?thesis
      by (auto simp: enc_char_def is_cont_def)
  next
    case 4
    then obtain b1 b2 b3 where t: "t = b1 # b2 # b3 # r" "second_of_4 b0 b1" "is_cont b2" "is_cont b3"
      and c: "c = (((b0 - 0xF0) * 64 + (b1 - 0x80)) * 64 + (b2 - 0x80)) * 64 + (b3 - 0x80)"
      using assms bs by (auto split: list.splits if_splits)
    let ?q = "(b0 - 0xF0) * 64 + (b1 - 0x80)"
    let ?p = "?q * 64 + (b2 - 0x80)"
    have b1: "is_cont b1" using t(2) by (auto simp: second_of_4_def is_cont_def)
    have q: "16 \<le> ?q" "?q < 0x110"
      using t(2) 4 unfolding second_of_4_def is_cont_def by linarith+
    from t c split_64 [of "b3 - 0x80" ?p] have d: "c div 64 = ?p" "c mod 64 = b3 - 0x80"
      by (auto simp: is_cont_def)
    have e: "?p div 64 = ?q" "?p mod 64 = b2 - 0x80"
      using split_64 [of "b2 - 0x80" ?q] t unfolding is_cont_def by linarith+
    have f: "?q div 64 = b0 - 0xF0" "?q mod 64 = b1 - 0x80"
      using split_64 [of "b1 - 0x80" "b0 - 0xF0"] b1 unfolding is_cont_def by linarith+
    have "b2 - 0x80 < 64" "b3 - 0x80 < 64"
      using t(3,4) by (auto simp: is_cont_def)
    from scalar_4 [OF q this] have l: "0x10000 \<le> c" "is_scalar c"
      unfolding c by blast+
    from 4 t bs b1 d e f l show ?thesis
      by (auto simp: enc_char_def is_cont_def)
  qed
qed

lemma enc_char_not_Nil [simp]: "enc_char c \<noteq> []"
  by (simp add: enc_char_def)

lemma length_enc_char [simp]: "length (enc_char c) = len_utf8 c"
  by (simp add: enc_char_def len_utf8_def)

lemma enc_simps [simp]: "enc [] = []" "enc (c # s) = enc_char c @ enc s" "enc (s @ t) = enc s @ enc t"
  by (simp_all add: enc_def)

lemma length_enc [simp]: "length (enc s) = len s"
  by (induction s) auto

lemma valid_str_simps [simp]:
  "valid_str []" "valid_str (c # s) \<longleftrightarrow> is_scalar c \<and> valid_str s"
  "valid_str (s @ t) \<longleftrightarrow> valid_str s \<and> valid_str t"
  by (simp_all add: valid_str_def)

lemma dec_at_enc: "valid_str s \<Longrightarrow> dec_at i (enc s) = Inr s"
proof (induction s arbitrary: i)
  case (Cons c s)
  then have "dec_char (enc_char c @ enc s) = Inr (c, enc s)"
    by (intro dec_enc_char) simp
  with Cons show ?case
    by (subst dec_at.simps) simp
qed (simp add: dec_at.simps)

lemma enc_dec_at: "dec_at i bs = Inr s \<Longrightarrow> bs = enc s \<and> valid_str s"
proof (induction i bs arbitrary: s rule: dec_at.induct)
  case (1 i bs)
  show ?case
  proof (cases "bs = []")
    case True
    with "1.prems" show ?thesis by (simp add: dec_at.simps)
  next
    case False
    with "1.prems" obtain c r s' where d: "dec_char bs = Inr (c, r)"
      and s': "dec_at (i + (length bs - length r)) r = Inr s'" "s = c # s'"
      by (subst (asm) dec_at.simps) (auto simp: result_simps split: sum.splits prod.splits)
    from "1.IH" [OF False d refl s'(1)] enc_dec_char [OF d] s'(2) show ?thesis
      by simp
  qed
qed

lemma enc_char_bytes: "is_scalar c \<Longrightarrow> b \<in> set (enc_char c) \<Longrightarrow> b < 256"
  by (auto simp: enc_char_def is_scalar_def split: if_splits)

lemma enc_bytes: "valid_str s \<Longrightarrow> b \<in> set (enc s) \<Longrightarrow> b < 256"
  by (induction s) (auto dest: enc_char_bytes)

lemma unat_utf8: "valid_str s \<Longrightarrow> map unat (utf8 s) = enc s"
  by (auto simp: utf8_def unat_of_nat intro!: map_idI dest: enc_bytes)

lemma from_utf8_utf8 [simp]: "valid_str s \<Longrightarrow> from_utf8 (utf8 s) = Inr s"
  by (simp add: from_utf8_def unat_utf8 dec_at_enc)

lemma from_utf8_Inr: "from_utf8 bs = Inr s \<longleftrightarrow> bs = utf8 s \<and> valid_str s"
proof
  assume "from_utf8 bs = Inr s"
  then have "map unat bs = enc s" "valid_str s"
    using enc_dec_at by (auto simp: from_utf8_def)
  moreover have "map of_nat (map unat bs) = bs"
    by (simp add: o_def)
  ultimately show "bs = utf8 s \<and> valid_str s"
    by (metis utf8_def)
qed auto

lemma length_utf8 [simp]: "length (utf8 s) = len s"
  by (simp add: utf8_def)

lemma utf8_append [simp]: "utf8 (s @ t) = utf8 s @ utf8 t"
  by (simp add: utf8_def)

lemma utf8_Nil [simp]: "utf8 [] = []"
  by (simp add: utf8_def)

lemma utf8_eq_Nil [simp]: "utf8 s = [] \<longleftrightarrow> s = []"
  by (metis len_eq_0 length_0_conv length_utf8)

lemma utf8_inject: "valid_str s \<Longrightarrow> valid_str t \<Longrightarrow> utf8 s = utf8 t \<longleftrightarrow> s = t"
  by (metis from_utf8_utf8 sum.inject(2))

lemma valid_lit: "list_all (\<lambda>c. of_char c < (128::nat)) s \<Longrightarrow> valid_str (lit s)"
  by (induction s) (auto simp: lit_def is_scalar_def)

lemma valid_ascii: "is_ascii s \<Longrightarrow> valid_str s"
  by (induction s) (auto simp: is_ascii_def is_scalar_def)

end
