(* ===== verification/Protocol.thy ===== *)
theory Protocol
  imports Utf8
begin

text \<open>
  \<open>protocol/mod.rs\<close> and the message types of \<open>protocol/frame.rs\<close>: the wire limits, the
  error type with its bounded diagnostics, protocol versions, and capability negotiation.
\<close>

unbundle bit_operations_syntax

section \<open>Limits\<close>

definition DEFAULT_PORT :: u16 where "DEFAULT_PORT = 1985"
definition MAX_FRAME_SIZE :: nat where "MAX_FRAME_SIZE = 16 * 1024 * 1024"
definition MAX_CONTROL_MESSAGE_SIZE :: nat where "MAX_CONTROL_MESSAGE_SIZE = 16 * 1024"
definition MAX_INPUT_MESSAGE_SIZE :: nat where "MAX_INPUT_MESSAGE_SIZE = 64 * 1024"
definition MAX_PAGE_MESSAGE_SIZE :: nat where "MAX_PAGE_MESSAGE_SIZE = 1024 * 1024 + 64 * 1024"
definition MAX_PAGE_PATH_LEN :: nat where "MAX_PAGE_PATH_LEN = 1024"
definition MAX_WASM_MODULE_SIZE :: nat where "MAX_WASM_MODULE_SIZE = 512 * 1024"
definition MAX_LIVE_UPDATE_SIZE :: nat where "MAX_LIVE_UPDATE_SIZE = 1024 * 1024"
definition HEADER_SIZE :: nat where "HEADER_SIZE = 6"
definition MAX_PROTOCOL_DIAGNOSTIC_BYTES :: nat where "MAX_PROTOCOL_DIAGNOSTIC_BYTES = 2048"

lemmas limit_defs = MAX_FRAME_SIZE_def MAX_CONTROL_MESSAGE_SIZE_def MAX_INPUT_MESSAGE_SIZE_def
  MAX_PAGE_MESSAGE_SIZE_def MAX_PAGE_PATH_LEN_def MAX_WASM_MODULE_SIZE_def
  MAX_LIVE_UPDATE_SIZE_def HEADER_SIZE_def MAX_PROTOCOL_DIAGNOSTIC_BYTES_def

definition PROTOCOL_VERSION :: ustr where "PROTOCOL_VERSION = lit ''0.2''"

definition SUPPORTED_CAPABILITIES :: "ustr list" where
  "SUPPORTED_CAPABILITIES =
     [lit ''live-updates'', lit ''sessions'', lit ''wasm-effects'', lit ''page-path'']"

section \<open>Message types and errors\<close>

datatype MessageType =
    Hello | Get | Input | Subscribe | Unsubscribe | Ping | Bye
  | Welcome | Page | Update | Redirect | ErrorMsg | Resource | Pong | ServerBye

text \<open>\<open>Debug\<close> of \<open>MessageType\<close>: the constructor's name.\<close>

fun show_MessageType :: "MessageType \<Rightarrow> ustr" where
  "show_MessageType Hello = lit ''Hello''"
| "show_MessageType Get = lit ''Get''"
| "show_MessageType Input = lit ''Input''"
| "show_MessageType Subscribe = lit ''Subscribe''"
| "show_MessageType Unsubscribe = lit ''Unsubscribe''"
| "show_MessageType Ping = lit ''Ping''"
| "show_MessageType Bye = lit ''Bye''"
| "show_MessageType Welcome = lit ''Welcome''"
| "show_MessageType Page = lit ''Page''"
| "show_MessageType Update = lit ''Update''"
| "show_MessageType Redirect = lit ''Redirect''"
| "show_MessageType ErrorMsg = lit ''Error''"
| "show_MessageType Resource = lit ''Resource''"
| "show_MessageType Pong = lit ''Pong''"
| "show_MessageType ServerBye = lit ''ServerBye''"

text \<open>
  \<open>std::io::Error\<close> is represented by the kinds \<open>From<io::Error>\<close> tells apart.
\<close>

datatype io_kind = UnexpectedEof | TimedOut | WouldBlock | OtherIo

datatype ProtocolError =
    FrameTooLarge nat
  | MessageTooLarge MessageType nat nat
  | WrongDirection MessageType
  | UnknownMessageType u8
  | InvalidMessage ustr
  | Io io_kind
  | Tls ustr
  | InvalidUri ustr
  | ConnectionClosed
  | ResourceExhausted nat
  | Timeout

type_synonym 'a presult = "(ProtocolError, 'a) result"

definition from_io :: "io_kind \<Rightarrow> ProtocolError" where
  "from_io e = (case e of UnexpectedEof \<Rightarrow> ConnectionClosed | TimedOut \<Rightarrow> Timeout
                | WouldBlock \<Rightarrow> Timeout | OtherIo \<Rightarrow> Io OtherIo)"

section \<open>Bounded diagnostics\<close>

text \<open>
  \<open>format_args!\<close> hands the writer one piece of text at a time: the literal parts (never
  empty) and the displayed arguments (possibly empty). The writer keeps at most
  \<open>MAX_PROTOCOL_DIAGNOSTIC_BYTES\<close> bytes.
\<close>

record ProtocolDiagnosticWriter =
  dw_value :: ustr
  dw_requested :: nat
  dw_truncated :: bool

text \<open>The longest prefix of whole characters that fits into \<open>n\<close> bytes.\<close>

fun take_bytes :: "nat \<Rightarrow> ustr \<Rightarrow> ustr" where
  "take_bytes n [] = []"
| "take_bytes n (c # s) = (if len_utf8 c \<le> n then c # take_bytes (n - len_utf8 c) s else [])"

text \<open>A refused reservation is \<open>Inl\<close> of the bytes requested so far.\<close>

definition write_str ::
  "runtime \<Rightarrow> ProtocolDiagnosticWriter \<Rightarrow> ustr \<Rightarrow> (nat, ProtocolDiagnosticWriter) result" where
  "write_str rt w txt =
     (let w = w\<lparr>dw_requested := saturating_add (dw_requested w) (len txt)\<rparr>;
          remaining = MAX_PROTOCOL_DIAGNOSTIC_BYTES - len (dw_value w);
          taken = take_bytes remaining txt
      in if dw_truncated w then Inr w
         else if remaining = 0 then Inr (w\<lparr>dw_truncated := True\<rparr>)
         else if taken = [] then Inr (w\<lparr>dw_truncated := True\<rparr>)
         else if \<not> try_reserve rt (len (dw_value w) + len taken) then Inl (dw_requested w)
         else Inr (w\<lparr>dw_value := dw_value w @ taken,
                     dw_truncated := (len taken < len txt)\<rparr>))"

definition try_protocol_diagnostic :: "runtime \<Rightarrow> ustr list \<Rightarrow> (nat, ustr) result" where
  "try_protocol_diagnostic rt pieces =
     (case try_fold (write_str rt)
             \<lparr>dw_value = [], dw_requested = 0, dw_truncated = False\<rparr> pieces of
        Inl requested \<Rightarrow> Inl (max requested 1)
      | Inr w \<Rightarrow> Inr (dw_value w))"

definition invalid_message :: "runtime \<Rightarrow> ustr list \<Rightarrow> ProtocolError" where
  "invalid_message rt pieces =
     (case try_protocol_diagnostic rt pieces of
        Inr message \<Rightarrow> InvalidMessage message
      | Inl requested \<Rightarrow> ResourceExhausted requested)"

definition invalid_uri :: "runtime \<Rightarrow> ustr list \<Rightarrow> ProtocolError" where
  "invalid_uri rt pieces =
     (case try_protocol_diagnostic rt pieces of
        Inr message \<Rightarrow> InvalidUri message
      | Inl requested \<Rightarrow> ResourceExhausted requested)"

definition tls_error :: "runtime \<Rightarrow> ustr list \<Rightarrow> ProtocolError" where
  "tls_error rt pieces =
     (case try_protocol_diagnostic rt pieces of
        Inr message \<Rightarrow> Tls message
      | Inl requested \<Rightarrow> ResourceExhausted requested)"

section \<open>Versions\<close>

record ProtocolVersion =
  major :: u16
  minor :: u16

definition show_version :: "ProtocolVersion \<Rightarrow> ustr" where
  "show_version v = show_nat (unat (major v)) @ lit ''.'' @ show_nat (unat (minor v))"

definition parse_u16 :: "ustr \<Rightarrow> u16 option" where
  "parse_u16 s = map_option of_nat (parse_uint 65535 s)"

definition ProtocolVersion_parse :: "runtime \<Rightarrow> ustr \<Rightarrow> ProtocolVersion presult" where
  "ProtocolVersion_parse rt value =
     (let bad = invalid_message rt [lit ''invalid protocol version: '', value] in
      and_then (ok_or bad (split_once (lit ''.'') value)) (\<lambda>(maj, min).
      and_then (ok_or bad (parse_u16 maj)) (\<lambda>maj.
      and_then (ok_or bad (parse_u16 min)) (\<lambda>min.
      let version = \<lparr>major = maj, minor = min\<rparr> in
      if show_version version \<noteq> value
      then Inl (invalid_message rt [lit ''non-canonical protocol version: '', value])
      else Inr version))))"

section \<open>Capabilities\<close>

type_synonym NegotiatedCapabilities = u8

definition LIVE_UPDATES :: u8 where "LIVE_UPDATES = push_bit 0 1"
definition SESSIONS :: u8 where "SESSIONS = push_bit 1 1"
definition WASM_EFFECTS :: u8 where "WASM_EFFECTS = push_bit 2 1"
definition PAGE_PATH :: u8 where "PAGE_PATH = push_bit 3 1"

lemmas capability_bits = LIVE_UPDATES_def SESSIONS_def WASM_EFFECTS_def PAGE_PATH_def

definition capability_bit :: "ustr \<Rightarrow> u8" where
  "capability_bit c =
     (if c = lit ''live-updates'' then LIVE_UPDATES
      else if c = lit ''sessions'' then SESSIONS
      else if c = lit ''wasm-effects'' then WASM_EFFECTS
      else if c = lit ''page-path'' then PAGE_PATH
      else 0)"

fun negotiate_from :: "u8 \<Rightarrow> ustr list \<Rightarrow> ustr list \<Rightarrow> u8" where
  "negotiate_from bits [] accepted = bits"
| "negotiate_from bits (c # offered) accepted =
     (if c \<notin> set accepted then negotiate_from bits offered accepted
      else negotiate_from (bits OR capability_bit c) offered accepted)"

definition negotiate :: "ustr list \<Rightarrow> ustr list \<Rightarrow> NegotiatedCapabilities" where
  "negotiate offered accepted = negotiate_from 0 offered accepted"

definition live_updates :: "NegotiatedCapabilities \<Rightarrow> bool" where
  "live_updates c \<longleftrightarrow> c AND LIVE_UPDATES \<noteq> 0"

definition sessions :: "NegotiatedCapabilities \<Rightarrow> bool" where
  "sessions c \<longleftrightarrow> c AND SESSIONS \<noteq> 0"

definition wasm_effects :: "NegotiatedCapabilities \<Rightarrow> bool" where
  "wasm_effects c \<longleftrightarrow> c AND WASM_EFFECTS \<noteq> 0"

definition page_path :: "NegotiatedCapabilities \<Rightarrow> bool" where
  "page_path c \<longleftrightarrow> c AND PAGE_PATH \<noteq> 0"

record NegotiatedProtocol =
  np_version :: ProtocolVersion
  np_capabilities :: NegotiatedCapabilities

section \<open>Diagnostics are bounded prefixes\<close>

lemma take_bytes_prefix: "\<exists>t. s = take_bytes n s @ t"
  by (induction n s rule: take_bytes.induct) auto

lemma len_take_bytes: "len (take_bytes n s) \<le> n"
  by (induction n s rule: take_bytes.induct) auto

lemma take_bytes_all: "len s \<le> n \<Longrightarrow> take_bytes n s = s"
  by (induction n s rule: take_bytes.induct) auto

text \<open>What the writer holds is a prefix, of bounded size, of what it was given.\<close>

definition writer_of :: "ustr \<Rightarrow> ProtocolDiagnosticWriter \<Rightarrow> bool" where
  "writer_of full w \<longleftrightarrow> len (dw_value w) \<le> MAX_PROTOCOL_DIAGNOSTIC_BYTES \<and>
     (\<exists>t. full = dw_value w @ t) \<and> (\<not> dw_truncated w \<longrightarrow> dw_value w = full)"

lemma write_str_writer_of:
  assumes "writer_of full w" and "write_str rt w txt = Inr w'"
  shows "writer_of (full @ txt) w'"
proof -
  define k where "k = take_bytes (MAX_PROTOCOL_DIAGNOSTIC_BYTES - len (dw_value w)) txt"
  obtain t where t: "txt = k @ t"
    using take_bytes_prefix k_def by blast
  have fit: "len k \<le> MAX_PROTOCOL_DIAGNOSTIC_BYTES - len (dw_value w)"
    by (simp add: k_def len_take_bytes)
  have all: "len k < len txt \<or> t = []"
    using t by (cases "t = []") (auto simp: less_le)
  obtain v where v: "full = dw_value w @ v"
    using assms(1) by (auto simp: writer_of_def)
  consider (keep) "dw_value w' = dw_value w" "dw_truncated w'"
    | (more) "dw_value w' = dw_value w @ k" "dw_truncated w' = (len k < len txt)"
      "\<not> dw_truncated w"
    using assms(2) by (auto simp: write_str_def Let_def k_def split: if_splits)
  then show ?thesis
  proof cases
    case keep
    with assms(1) v show ?thesis by (auto simp: writer_of_def)
  next
    case more
    with assms(1) fit all t show ?thesis by (auto simp: writer_of_def)
  qed
qed

lemma try_fold_write_str:
  "try_fold (write_str rt) w pieces = Inr w' \<Longrightarrow> writer_of full w \<Longrightarrow>
   writer_of (full @ concat pieces) w'"
proof (induction pieces arbitrary: w full)
  case (Cons p pieces)
  then obtain w1 where "write_str rt w p = Inr w1" "try_fold (write_str rt) w1 pieces = Inr w'"
    by (auto simp: result_simps)
  with Cons.IH [of w1 "full @ p"] Cons.prems(2) write_str_writer_of show ?case by fastforce
qed simp

lemmas diagnostic_eval = write_str_def Let_def limit_defs lit_def len_utf8_def try_reserve_def
  isize_max_def usize_max_def saturating_add_def

text \<open>
  A diagnostic never holds more than \<open>MAX_PROTOCOL_DIAGNOSTIC_BYTES\<close> bytes, whatever
  remote text is formatted into it, and it is a prefix of the formatted text.
\<close>

theorem diagnostic_bounded:
  assumes "try_protocol_diagnostic rt pieces = Inr m"
  shows "len m \<le> MAX_PROTOCOL_DIAGNOSTIC_BYTES \<and> (\<exists>t. concat pieces = m @ t)"
proof -
  let ?w0 = "\<lparr>dw_value = [], dw_requested = 0, dw_truncated = False\<rparr>"
  have "writer_of [] ?w0" by (simp add: writer_of_def)
  moreover obtain w where "try_fold (write_str rt) ?w0 pieces = Inr w" "m = dw_value w"
    using assms by (auto simp: try_protocol_diagnostic_def split: sum.splits)
  ultimately show ?thesis
    using try_fold_write_str [of rt ?w0 pieces w "[]"] by (auto simp: writer_of_def)
qed

theorem diagnostic_bounded_witness:
  "try_protocol_diagnostic roomy_runtime [lit ''invalid port: '', lit ''x''] = Inr (lit ''invalid port: x'')
   \<and> len (lit ''invalid port: x'') \<le> MAX_PROTOCOL_DIAGNOSTIC_BYTES"
proof -
  have h: "try_protocol_diagnostic roomy_runtime [lit ''invalid port: '', lit ''x'']
      = Inr (lit ''invalid port: x'')"
    by (simp add: try_protocol_diagnostic_def diagnostic_eval)
  from diagnostic_bounded [OF h] h show ?thesis by simp
qed

lemma write_str_fits:
  assumes "ample rt" "\<not> dw_truncated w" "txt \<noteq> []"
    "len (dw_value w) + len txt \<le> MAX_PROTOCOL_DIAGNOSTIC_BYTES"
  shows "\<exists>r. write_str rt w txt = Inr (w\<lparr>dw_requested := r, dw_value := dw_value w @ txt,
           dw_truncated := False\<rparr>)"
proof -
  have "take_bytes (MAX_PROTOCOL_DIAGNOSTIC_BYTES - len (dw_value w)) txt = txt"
    using assms(4) by (intro take_bytes_all) simp
  moreover have "0 < len txt" using assms(3) by (metis len_eq_0 not_gr_zero)
  moreover have "try_reserve rt (len (dw_value w) + len txt)"
    using assms(1,4) by (intro ample_try_reserve) (auto simp: limit_defs isize_max_def)
  ultimately show ?thesis
    using assms by (auto simp: write_str_def Let_def)
qed

lemma try_fold_write_fits:
  assumes "ample rt" "[] \<notin> set pieces" "\<not> dw_truncated w"
    "len (dw_value w) + len (concat pieces) \<le> MAX_PROTOCOL_DIAGNOSTIC_BYTES"
  shows "\<exists>w'. try_fold (write_str rt) w pieces = Inr w' \<and> dw_value w' = dw_value w @ concat pieces
           \<and> \<not> dw_truncated w'"
  using assms(2-)
proof (induction pieces arbitrary: w)
  case (Cons p pieces)
  then obtain r where
    w1: "write_str rt w p = Inr (w\<lparr>dw_requested := r, dw_value := dw_value w @ p, dw_truncated := False\<rparr>)"
    using write_str_fits [OF assms(1), of w p] by auto
  with Cons.IH [of "w\<lparr>dw_requested := r, dw_value := dw_value w @ p, dw_truncated := False\<rparr>"] Cons.prems
  show ?case by simp
qed simp

text \<open>
  A diagnostic built from non-empty pieces that fits the bound is kept in full when the
  allocator grants the memory.
\<close>

theorem diagnostic_complete:
  assumes "ample rt" "[] \<notin> set pieces" "len (concat pieces) \<le> MAX_PROTOCOL_DIAGNOSTIC_BYTES"
  shows "try_protocol_diagnostic rt pieces = Inr (concat pieces)"
  using try_fold_write_fits [OF assms(1,2), of "\<lparr>dw_value = [], dw_requested = 0, dw_truncated = False\<rparr>"]
    assms(3)
  by (auto simp: try_protocol_diagnostic_def)

theorem diagnostic_complete_witness:
  "try_protocol_diagnostic roomy_runtime [lit ''unknown GET field: '', lit ''X'']
   = Inr (lit ''unknown GET field: X'')"
  using diagnostic_complete [OF ample_roomy, of "[lit ''unknown GET field: '', lit ''X'']"]
  by (simp add: limit_defs lit_def len_utf8_def)

text \<open>
  An empty argument truncates the rest of the diagnostic: the writer takes the empty
  piece for one that did not fit, so the text after it is lost although there is room.
\<close>

theorem diagnostic_empty_piece_truncates:
  assumes "ample rt" "a \<noteq> []" "len a \<le> MAX_PROTOCOL_DIAGNOSTIC_BYTES"
  shows "try_protocol_diagnostic rt (a # [] # rest) = Inr a"
proof -
  have stuck: "dw_truncated w \<Longrightarrow>
      \<exists>w'. try_fold (write_str rt) w ps = Inr w' \<and> dw_value w' = dw_value w" for w ps
  proof (induction ps arbitrary: w)
    case (Cons p ps)
    then show ?case
      using Cons.IH [of "w\<lparr>dw_requested := saturating_add (dw_requested w) (len p)\<rparr>"]
      by (simp add: write_str_def Let_def)
  qed simp
  obtain r where "write_str rt \<lparr>dw_value = [], dw_requested = 0, dw_truncated = False\<rparr> a
      = Inr \<lparr>dw_value = a, dw_requested = r, dw_truncated = False\<rparr>"
    using write_str_fits [OF assms(1), of "\<lparr>dw_value = [], dw_requested = 0, dw_truncated = False\<rparr>" a]
      assms(2,3) by auto
  moreover have "write_str rt \<lparr>dw_value = a, dw_requested = r, dw_truncated = False\<rparr> []
      = Inr \<lparr>dw_value = a, dw_requested = saturating_add r 0, dw_truncated = True\<rparr>"
    by (simp add: write_str_def Let_def)
  ultimately show ?thesis
    using stuck [of "\<lparr>dw_value = a, dw_requested = saturating_add r 0, dw_truncated = True\<rparr>" rest]
    by (auto simp: try_protocol_diagnostic_def)
qed

theorem diagnostic_empty_piece_truncates_witness:
  "try_protocol_diagnostic roomy_runtime [lit ''a'', [], lit ''b''] = Inr (lit ''a'')"
  using diagnostic_empty_piece_truncates [OF ample_roomy, of "lit ''a''" "[lit ''b'']"]
  by (simp add: limit_defs lit_def len_utf8_def)

section \<open>Versions have one spelling\<close>

lemma parse_u16_show [simp]: "parse_u16 (show_nat (unat w)) = Some w"
proof -
  have "unat w < 2 ^ LENGTH(16)"
    by (rule unsigned_less)
  then have "unat w \<le> 65535" by simp
  then show ?thesis by (simp add: parse_u16_def)
qed

lemma split_once_version:
  "split_once (lit ''.'') (show_nat a @ lit ''.'' @ show_nat b) = Some (show_nat a, show_nat b)"
proof -
  have "46 \<notin> set (show_nat a)"
    using show_nat_no_space [of 46 a] by auto
  then show ?thesis
    using split_once_notin [of 46 "show_nat a" "[]" "show_nat b"] by (simp add: lit_def)
qed

text \<open>
  A protocol version is accepted exactly when it is the canonical spelling of the
  version it denotes (no leading zeros, no sign, no spaces), so equal versions are equal
  strings.
\<close>

theorem version_parse_iff:
  "ProtocolVersion_parse rt s = Inr v \<longleftrightarrow> s = show_version v"
proof
  assume "s = show_version v"
  then show "ProtocolVersion_parse rt s = Inr v"
    by (simp add: ProtocolVersion_parse_def show_version_def split_once_version Let_def)
qed (auto simp: ProtocolVersion_parse_def Let_def result_simps split: if_splits)

section \<open>Negotiation\<close>

lemma negotiate_from_OR:
  "negotiate_from bits offered accepted = bits OR negotiate_from 0 offered accepted"
proof (induction offered arbitrary: bits)
  case (Cons c offered)
  show ?case
    using Cons.IH [of "bits OR capability_bit c"] Cons.IH [of "capability_bit c"] Cons.IH [of bits]
    by (simp add: or.assoc)
qed simp

lemma bit_negotiate:
  "bit (negotiate offered accepted) n \<longleftrightarrow>
     (\<exists>c \<in> set offered \<inter> set accepted. bit (capability_bit c) n)"
proof (induction offered)
  case (Cons c offered)
  then show ?case
    using negotiate_from_OR [of "capability_bit c" offered accepted]
    by (auto simp: negotiate_def bit_or_iff)
qed (simp add: negotiate_def)

lemma and_bit_nonzero: "(w AND push_bit n 1 \<noteq> (0 :: u8)) \<longleftrightarrow> bit w n"
  by (simp add: push_bit_of_1 and_exp_eq_0_iff_not_bit)

lemma bit_push_bit_1: "bit (push_bit m (1 :: u8)) n \<longleftrightarrow> n = m \<and> n < 8"
  unfolding bit_push_bit_iff bit_1_iff by auto

lemma bit_capability_bit:
  "bit (capability_bit c) n \<longleftrightarrow>
     (c = lit ''live-updates'' \<and> n = 0) \<or> (c = lit ''sessions'' \<and> n = 1)
     \<or> (c = lit ''wasm-effects'' \<and> n = 2) \<or> (c = lit ''page-path'' \<and> n = 3)"
  unfolding capability_bit_def capability_bits
  by (simp only: if_distrib [of "\<lambda>w. bit w n"] bit_push_bit_1) auto

text \<open>
  A capability is enabled exactly when both peers named it, and nothing else enables it:
  unknown names and one-sided offers have no effect.
\<close>

theorem negotiate_sound:
  "(live_updates (negotiate offered accepted) \<longleftrightarrow> lit ''live-updates'' \<in> set offered \<inter> set accepted)
   \<and> (sessions (negotiate offered accepted) \<longleftrightarrow> lit ''sessions'' \<in> set offered \<inter> set accepted)
   \<and> (wasm_effects (negotiate offered accepted) \<longleftrightarrow> lit ''wasm-effects'' \<in> set offered \<inter> set accepted)
   \<and> (page_path (negotiate offered accepted) \<longleftrightarrow> lit ''page-path'' \<in> set offered \<inter> set accepted)"
  unfolding live_updates_def sessions_def wasm_effects_def page_path_def capability_bits
  by (simp only: and_bit_nonzero bit_negotiate bit_capability_bit) auto

end
