(* ===== verification/Rust_Net.thy ===== *)
theory Rust_Net
  imports Rust_Str
begin

text \<open>
  What the sources use of Rust's \<open>std::net\<close>: parsing of IPv4 and IPv6 literals, the
  canonical text of an address, and the loopback test. The parser follows the standard
  library's recursive descent (numbers of bounded length, an IPv4 tail inside an IPv6
  address, one \<open>::\<close>).
\<close>

abbreviation (input) COLON :: uchar where "COLON \<equiv> 58"
abbreviation (input) DOT :: uchar where "DOT \<equiv> 46"

section \<open>Addresses\<close>

text \<open>Four octets, or eight groups of sixteen bits.\<close>

datatype IpAddr = V4 "nat list" | V6 "nat list"

definition to_digit :: "nat \<Rightarrow> uchar \<Rightarrow> nat option" where
  "to_digit radix c =
     (let d = (if is_ascii_digit c then c - 48
               else if is_ascii_lowercase c then c - 87
               else if is_ascii_uppercase c then c - 55 else radix)
      in if d < radix then Some d else None)"

definition is_digit_of :: "nat \<Rightarrow> uchar \<Rightarrow> bool" where
  "is_digit_of radix c \<longleftrightarrow> to_digit radix c \<noteq> None"

definition digits_value_of :: "nat \<Rightarrow> ustr \<Rightarrow> nat" where
  "digits_value_of radix ds = foldl (\<lambda>a c. a * radix + the (to_digit radix c)) 0 ds"

section \<open>The parser\<close>

text \<open>
  A reader returns a value and the rest of the input; a reader that fails consumes nothing.
\<close>

definition read_number :: "nat \<Rightarrow> nat \<Rightarrow> bool \<Rightarrow> nat \<Rightarrow> ustr \<Rightarrow> (nat \<times> ustr) option" where
  "read_number radix max_digits allow_zero_prefix max_value s =
     (let ds = takeWhile (is_digit_of radix) s;
          rest = dropWhile (is_digit_of radix) s;
          value = digits_value_of radix ds
      in if ds = [] \<or> length ds > max_digits \<or> value > max_value then None
         else if \<not> allow_zero_prefix \<and> hd ds = 48 \<and> length ds > 1 then None
         else Some (value, rest))"

definition read_given_char :: "uchar \<Rightarrow> ustr \<Rightarrow> ustr option" where
  "read_given_char c s = (case s of [] \<Rightarrow> None | x # xs \<Rightarrow> if x = c then Some xs else None)"

definition read_separator ::
  "uchar \<Rightarrow> nat \<Rightarrow> (ustr \<Rightarrow> ('a \<times> ustr) option) \<Rightarrow> ustr \<Rightarrow> ('a \<times> ustr) option" where
  "read_separator sep i inner s =
     (if i = 0 then inner s
      else case read_given_char sep s of None \<Rightarrow> None | Some r \<Rightarrow> inner r)"

fun read_octets :: "nat \<Rightarrow> nat \<Rightarrow> ustr \<Rightarrow> (nat list \<times> ustr) option" where
  "read_octets 0 i s = Some ([], s)"
| "read_octets (Suc n) i s =
     (case read_separator DOT i (read_number 10 3 False 255) s of None \<Rightarrow> None
      | Some (o1, r) \<Rightarrow> (case read_octets n (Suc i) r of None \<Rightarrow> None
                         | Some (os, r') \<Rightarrow> Some (o1 # os, r')))"

definition read_ipv4_addr :: "ustr \<Rightarrow> (nat list \<times> ustr) option" where
  "read_ipv4_addr s = read_octets 4 0 s"

text \<open>The groups read, whether they end in an embedded IPv4 address, and the rest.\<close>

fun read_groups :: "nat \<Rightarrow> nat \<Rightarrow> ustr \<Rightarrow> nat list \<times> bool \<times> ustr" where
  "read_groups 0 i s = ([], False, s)"
| "read_groups (Suc n) i s =
     (case (if n > 0 then read_separator COLON i read_ipv4_addr s else None) of
        Some (v4, r) \<Rightarrow> ([v4 ! 0 * 256 + v4 ! 1, v4 ! 2 * 256 + v4 ! 3], True, r)
      | None \<Rightarrow>
          (case read_separator COLON i (read_number 16 4 True 65535) s of
             None \<Rightarrow> ([], False, s)
           | Some (g, r) \<Rightarrow> (case read_groups n (Suc i) r of (gs, b, r') \<Rightarrow> (g # gs, b, r'))))"

definition read_ipv6_addr :: "ustr \<Rightarrow> (nat list \<times> ustr) option" where
  "read_ipv6_addr s =
     (case read_groups 8 0 s of (head, head_ipv4, r) \<Rightarrow>
        if length head = 8 then Some (head, r)
        else if head_ipv4 then None
        else case read_given_char COLON r of None \<Rightarrow> None
             | Some r1 \<Rightarrow> (case read_given_char COLON r1 of None \<Rightarrow> None
               | Some r2 \<Rightarrow> (case read_groups (8 - (length head + 1)) 0 r2 of (tail, _, r3) \<Rightarrow>
                   Some (head @ replicate (8 - length head - length tail) 0 @ tail, r3))))"

text \<open>The readers at numeral counts, for evaluation.\<close>

lemma read_octets_numeral:
  "read_octets (numeral k) i s =
     (case read_separator DOT i (read_number 10 3 False 255) s of None \<Rightarrow> None
      | Some (o1, r) \<Rightarrow> (case read_octets (pred_numeral k) (Suc i) r of None \<Rightarrow> None
                         | Some (os, r') \<Rightarrow> Some (o1 # os, r')))"
  by (simp add: numeral_eq_Suc)

lemma read_groups_numeral:
  "read_groups (numeral k) i s =
     (case (if pred_numeral k > 0 then read_separator COLON i read_ipv4_addr s else None) of
        Some (v4, r) \<Rightarrow> ([v4 ! 0 * 256 + v4 ! 1, v4 ! 2 * 256 + v4 ! 3], True, r)
      | None \<Rightarrow>
          (case read_separator COLON i (read_number 16 4 True 65535) s of
             None \<Rightarrow> ([], False, s)
           | Some (g, r) \<Rightarrow> (case read_groups (pred_numeral k) (Suc i) r of (gs, b, r') \<Rightarrow> (g # gs, b, r'))))"
  by (simp only: numeral_eq_Suc read_groups.simps)

definition parse_ipv6 :: "ustr \<Rightarrow> nat list option" where
  "parse_ipv6 s = (case read_ipv6_addr s of Some (a, []) \<Rightarrow> Some a | _ \<Rightarrow> None)"

definition parse_ip :: "ustr \<Rightarrow> IpAddr option" where
  "parse_ip s =
     (case (case read_ipv4_addr s of Some (a, r) \<Rightarrow> Some (V4 a, r)
            | None \<Rightarrow> (case read_ipv6_addr s of Some (a, r) \<Rightarrow> Some (V6 a, r) | None \<Rightarrow> None)) of
        Some (a, []) \<Rightarrow> Some a
      | _ \<Rightarrow> None)"

lemmas ip_eval = parse_ip_def parse_ipv6_def read_ipv6_addr_def read_ipv4_addr_def
  read_octets_numeral read_groups_numeral read_separator_def read_given_char_def read_number_def
  is_digit_of_def to_digit_def digits_value_of_def

section \<open>Canonical text\<close>

fun show_hex :: "nat \<Rightarrow> ustr" where
  "show_hex n =
     (let digit = (\<lambda>d. if d < 10 then 48 + d else 87 + d)
      in if n < 16 then [digit n] else show_hex (n div 16) @ [digit (n mod 16)])"

declare show_hex.simps [simp del]

definition show_ipv4 :: "nat list \<Rightarrow> ustr" where
  "show_ipv4 os = join_char DOT (map show_nat os)"

text \<open>Start and length of the longest run of zero groups, the first one among equals.\<close>

fun longest_zeros :: "nat \<Rightarrow> nat \<times> nat \<Rightarrow> nat \<times> nat \<Rightarrow> nat list \<Rightarrow> nat \<times> nat" where
  "longest_zeros i longest current [] = longest"
| "longest_zeros i longest current (g # gs) =
     (if g = 0 then
        (let current = (if snd current = 0 then i else fst current, snd current + 1)
         in longest_zeros (Suc i) (if snd current > snd longest then current else longest) current gs)
      else longest_zeros (Suc i) longest (0, 0) gs)"

definition show_groups :: "nat list \<Rightarrow> ustr" where
  "show_groups gs = join_char COLON (map show_hex gs)"

definition show_ipv6 :: "nat list \<Rightarrow> ustr" where
  "show_ipv6 gs =
     (if take 6 gs = [0, 0, 0, 0, 0, 65535]
      then lit ''::ffff:'' @
           show_ipv4 [gs ! 6 div 256, gs ! 6 mod 256, gs ! 7 div 256, gs ! 7 mod 256]
      else case longest_zeros 0 (0, 0) (0, 0) gs of (start, n) \<Rightarrow>
             if n > 1 then show_groups (take start gs) @ lit ''::'' @ show_groups (drop (start + n) gs)
             else show_groups gs)"

fun show_ip :: "IpAddr \<Rightarrow> ustr" where
  "show_ip (V4 os) = show_ipv4 os"
| "show_ip (V6 gs) = show_ipv6 gs"

fun is_loopback :: "IpAddr \<Rightarrow> bool" where
  "is_loopback (V4 os) \<longleftrightarrow> hd os = 127"
| "is_loopback (V6 gs) \<longleftrightarrow> gs = [0, 0, 0, 0, 0, 0, 0, 1]"

section \<open>What an accepted literal looks like\<close>

lemma read_given_char_simps [simp]:
  "read_given_char c [] = None" "read_given_char c (x # r) = (if x = c then Some r else None)"
  by (simp_all add: read_given_char_def)

lemma read_given_char_Some: "read_given_char c s = Some r \<longleftrightarrow> s = c # r"
  by (cases s) auto

text \<open>The alphabet of address literals.\<close>

definition addr_char :: "uchar \<Rightarrow> bool" where
  "addr_char c \<longleftrightarrow> is_ascii_digit c \<or> (97 \<le> c \<and> c \<le> 102) \<or> (65 \<le> c \<and> c \<le> 70)
     \<or> c = 58 \<or> c = 46"

text \<open>A reader consumes a prefix over that alphabet.\<close>

definition consumes :: "(ustr \<Rightarrow> ('a \<times> ustr) option) \<Rightarrow> bool" where
  "consumes p \<longleftrightarrow> (\<forall>s v r. p s = Some (v, r) \<longrightarrow> (\<exists>u. s = u @ r \<and> list_all addr_char u))"

lemma is_digit_addr_char: "radix \<le> 16 \<Longrightarrow> is_digit_of radix c \<Longrightarrow> addr_char c"
  by (auto simp: is_digit_of_def to_digit_def addr_char_def Let_def is_ascii_digit_def
      is_ascii_lowercase_def is_ascii_uppercase_def split: if_splits)

lemma consumes_number: "radix \<le> 16 \<Longrightarrow> consumes (read_number radix k z m)"
  unfolding consumes_def
proof (intro allI impI)
  fix s v r
  assume "radix \<le> 16" "read_number radix k z m s = Some (v, r)"
  then have "r = dropWhile (is_digit_of radix) s"
    by (auto simp: read_number_def Let_def split: if_splits)
  moreover have "list_all addr_char (takeWhile (is_digit_of radix) s)"
    using is_digit_addr_char [OF \<open>radix \<le> 16\<close>] by (auto simp: list_all_iff dest: set_takeWhileD)
  ultimately show "\<exists>u. s = u @ r \<and> list_all addr_char u"
    by (metis takeWhile_dropWhile_id)
qed

lemma consumes_separator:
  assumes "consumes p" "addr_char c" shows "consumes (read_separator c i p)"
  unfolding consumes_def
proof (intro allI impI)
  fix s v r
  assume "read_separator c i p s = Some (v, r)"
  then have "p s = Some (v, r) \<or> (\<exists>t. s = c # t \<and> p t = Some (v, r))"
    by (auto simp: read_separator_def read_given_char_def split: if_splits option.splits list.splits)
  then show "\<exists>u. s = u @ r \<and> list_all addr_char u"
    using assms unfolding consumes_def
    by (metis append_Cons list.pred_inject(2))
qed

lemma addr_char_seps [simp]: "addr_char 58" "addr_char 46"
  by (simp_all add: addr_char_def)

lemma consumesD: "consumes p \<Longrightarrow> p s = Some (v, r) \<Longrightarrow> \<exists>u. s = u @ r \<and> list_all addr_char u"
  unfolding consumes_def by blast

lemma consumes_octets: "consumes (read_octets n i)"
proof (induction n arbitrary: i)
  case (Suc n)
  have sep: "consumes (read_separator 46 i (read_number 10 3 False 255))"
    by (intro consumes_separator consumes_number) simp_all
  show ?case
    unfolding consumes_def
  proof (intro allI impI)
    fix s v r
    assume "read_octets (Suc n) i s = Some (v, r)"
    then obtain a t os where
      "read_separator 46 i (read_number 10 3 False 255) s = Some (a, t)"
      "read_octets n (Suc i) t = Some (os, r)"
      by (auto split: option.splits)
    with consumesD [OF sep] consumesD [OF Suc.IH]
    obtain u u' where "s = u @ t" "t = u' @ r" "list_all addr_char u" "list_all addr_char u'"
      by metis
    then show "\<exists>u. s = u @ r \<and> list_all addr_char u"
      by (intro exI [of _ "u @ u'"]) simp
  qed
qed (simp add: consumes_def)

lemma consumes_ipv4: "consumes read_ipv4_addr"
  using consumes_octets [of 4 0] by (simp add: consumes_def read_ipv4_addr_def)

lemma read_groups_consumes:
  "read_groups n i s = (gs, b, r) \<Longrightarrow> \<exists>u. s = u @ r \<and> list_all addr_char u"
proof (induction n i s arbitrary: gs b r rule: read_groups.induct)
  case (2 n i s)
  let ?v4 = "if n > 0 then read_separator 58 i read_ipv4_addr s else None"
  have c4: "consumes (read_separator 58 i read_ipv4_addr)"
    by (intro consumes_separator consumes_ipv4) simp
  have cn: "consumes (read_separator 58 i (read_number 16 4 True 65535))"
    by (intro consumes_separator consumes_number) simp_all
  show ?case
  proof (cases ?v4)
    case (Some x)
    then obtain v t where "read_separator 58 i read_ipv4_addr s = Some (v, t)" "x = (v, t)"
      by (cases x) (auto split: if_splits)
    moreover from this have "r = t"
      using 2(2) Some by simp
    ultimately show ?thesis
      using consumesD [OF c4] by blast
  next
    case None
    show ?thesis
    proof (cases "read_separator 58 i (read_number 16 4 True 65535) s")
      case (Some x)
      obtain g t where x: "x = (g, t)" by (cases x)
      obtain gs' b' where "read_groups n (Suc i) t = (gs', b', r)"
        using 2(2) None Some x by (auto split: prod.splits)
      with 2(1) [OF None Some x [symmetric]]
      obtain u' where "t = u' @ r" "list_all addr_char u'" by blast
      moreover obtain u where "s = u @ t" "list_all addr_char u"
        using consumesD [OF cn] Some x by blast
      ultimately
      show ?thesis by (intro exI [of _ "u @ u'"]) simp
    qed (use 2(2) None in auto)
  qed
qed simp


lemma read_groups_next:
  "read_groups n (Suc i) s = (gs, b, r) \<Longrightarrow> gs \<noteq> [] \<Longrightarrow> 58 \<in> set s"
  by (cases n) (auto simp: read_separator_def read_given_char_Some split: option.splits if_splits)

lemma read_groups_colon:
  assumes "read_groups n 0 s = (gs, b, r)" "length gs > 2"
  shows "58 \<in> set s"
proof (cases n)
  case (Suc m)
  let ?v4 = "if m > 0 then read_separator 58 0 read_ipv4_addr s else None"
  have n4: "?v4 = None"
    using assms Suc by (auto split: option.splits if_splits)
  then obtain g t where g: "read_number 16 4 True 65535 s = Some (g, t)"
    using assms Suc by (auto simp: read_separator_def split: option.splits if_splits)
  then obtain gs' where "read_groups m (Suc 0) t = (gs', b, r)" "gs = g # gs'"
    using assms Suc n4 by (auto simp: read_separator_def split: option.splits if_splits prod.splits)
  moreover have "set t \<subseteq> set s"
    using consumesD [OF consumes_number g] by auto
  ultimately show ?thesis
    using assms(2) read_groups_next [of m 0 t gs' b r] by (cases "gs' = []") auto
qed (use assms in simp)

lemma parse_ipv6_chars:
  assumes "parse_ipv6 s = Some a"
  shows "list_all addr_char s" "58 \<in> set s"
proof -
  have ok: "read_ipv6_addr s = Some (a, [])"
    using assms by (auto simp: parse_ipv6_def split: option.splits prod.splits list.splits)
  obtain head b r where h: "read_groups 8 0 s = (head, b, r)"
    by (metis prod_cases3)
  then obtain u where u: "s = u @ r" "list_all addr_char u"
    using read_groups_consumes by blast
  have "list_all addr_char r \<and> (58 \<in> set r \<or> length head = 8)"
  proof (cases "length head = 8")
    case True
    with ok h show ?thesis by (simp add: read_ipv6_addr_def)
  next
    case False
    then obtain r2 where r2: "r = 58 # 58 # r2"
      using ok h by (auto simp: read_ipv6_addr_def read_given_char_Some split: if_splits option.splits)
    obtain tl' b' r3 where t: "read_groups (8 - (length head + 1)) 0 r2 = (tl', b', r3)"
      by (metis prod_cases3)
    with ok h False r2 have "r3 = []"
      by (auto simp: read_ipv6_addr_def split: if_splits option.splits)
    with read_groups_consumes [OF t] r2 show ?thesis by simp
  qed
  with u read_groups_colon [OF h] show "list_all addr_char s" "58 \<in> set s"
    by auto
qed

section \<open>Case does not matter\<close>

definition lower :: "ustr \<Rightarrow> ustr" where
  "lower s = map to_ascii_lowercase s"

lemma lower_simps [simp]:
  "lower [] = []" "lower (c # s) = to_ascii_lowercase c # lower s"
  "lower (s @ t) = lower s @ lower t" "lower (lower s) = lower s" "lower s = [] \<longleftrightarrow> s = []"
  "length (lower s) = length s"
  by (simp_all add: lower_def)

lemma len_lower [simp]: "len (lower s) = len s"
  by (induction s) simp_all

lemma to_digit_lower [simp]: "radix \<le> 36 \<Longrightarrow> to_digit radix (to_ascii_lowercase c) = to_digit radix c"
  by (auto simp: to_digit_def to_ascii_lowercase_def is_ascii_digit_def is_ascii_lowercase_def
      is_ascii_uppercase_def Let_def)

lemma to_ascii_lowercase_eq [simp]:
  "\<not> is_ascii_alphabetic d \<Longrightarrow> to_ascii_lowercase c = d \<longleftrightarrow> c = d"
  by (auto simp: to_ascii_lowercase_def is_ascii_alphabetic_def is_ascii_lowercase_def
      is_ascii_uppercase_def)

definition map_rest :: "('a \<times> ustr) option \<Rightarrow> ('a \<times> ustr) option" where
  "map_rest = map_option (\<lambda>(v, r). (v, lower r))"

lemma map_rest_simps [simp]: "map_rest None = None" "map_rest (Some (v, r)) = Some (v, lower r)"
  by (simp_all add: map_rest_def)

lemma digits_value_lower [simp]:
  "radix \<le> 36 \<Longrightarrow> digits_value_of radix (lower ds) = digits_value_of radix ds"
  by (induction ds rule: rev_induct) (simp_all add: digits_value_of_def)

lemma takeWhile_lower:
  "radix \<le> 36 \<Longrightarrow> takeWhile (is_digit_of radix) (lower s) = lower (takeWhile (is_digit_of radix) s)"
  "radix \<le> 36 \<Longrightarrow> dropWhile (is_digit_of radix) (lower s) = lower (dropWhile (is_digit_of radix) s)"
  by (induction s) (simp_all add: is_digit_of_def)

lemma hd_lower_zero: "s \<noteq> [] \<Longrightarrow> hd (lower s) = 48 \<longleftrightarrow> hd s = 48"
  by (cases s) (simp_all add: is_ascii_alphabetic_def is_ascii_lowercase_def is_ascii_uppercase_def)

lemma read_number_lower:
  "radix \<le> 36 \<Longrightarrow> read_number radix k z m (lower s) = map_rest (read_number radix k z m s)"
  by (simp add: read_number_def takeWhile_lower Let_def hd_lower_zero)

lemma read_given_char_lower:
  "\<not> is_ascii_alphabetic c \<Longrightarrow> read_given_char c (lower s) = map_option lower (read_given_char c s)"
  by (cases s) (simp_all add: read_given_char_def)

lemma read_separator_lower:
  assumes "\<not> is_ascii_alphabetic c" "\<And>s. p (lower s) = map_rest (p s)"
  shows "read_separator c i p (lower s) = map_rest (read_separator c i p s)"
proof (cases "i = 0")
  case False
  then show ?thesis
    by (cases s) (simp_all add: read_separator_def assms)
qed (simp add: read_separator_def assms)

lemma sep_not_alpha [simp]: "\<not> is_ascii_alphabetic 58" "\<not> is_ascii_alphabetic 46"
  by (simp_all add: is_ascii_alphabetic_def is_ascii_lowercase_def is_ascii_uppercase_def)

lemma read_octets_lower: "read_octets n i (lower s) = map_rest (read_octets n i s)"
proof (induction n arbitrary: i s)
  case (Suc n)
  have "read_separator 46 i (read_number 10 3 False 255) (lower s)
      = map_rest (read_separator 46 i (read_number 10 3 False 255) s)"
    by (intro read_separator_lower read_number_lower) simp_all
  then show ?case
    by (auto simp: Suc.IH split: option.splits)
qed simp

lemma read_groups_lower:
  "read_groups n i (lower s) = (case read_groups n i s of (gs, b, r) \<Rightarrow> (gs, b, lower r))"
proof (induction n i s rule: read_groups.induct)
  case (2 n i s)
  have s4: "read_separator 58 i read_ipv4_addr (lower s)
      = map_rest (read_separator 58 i read_ipv4_addr s)"
    by (intro read_separator_lower) (simp_all add: read_ipv4_addr_def read_octets_lower)
  have sn: "read_separator 58 i (read_number 16 4 True 65535) (lower s)
      = map_rest (read_separator 58 i (read_number 16 4 True 65535) s)"
    by (intro read_separator_lower read_number_lower) simp_all
  have v4: "(if n > 0 then read_separator 58 i read_ipv4_addr (lower s) else None)
      = map_rest (if n > 0 then read_separator 58 i read_ipv4_addr s else None)"
    by (simp add: s4)
  show ?case
  proof (cases "if n > 0 then read_separator 58 i read_ipv4_addr s else None")
    case None
    with 2 show ?thesis
      unfolding read_groups.simps v4 sn
      by (cases "read_separator 58 i (read_number 16 4 True 65535) s") (auto split: prod.splits)
  next
    case (Some x)
    then show ?thesis
      unfolding read_groups.simps v4 by (cases x) simp
  qed
qed simp

lemma parse_ipv6_lower: "parse_ipv6 (lower s) = parse_ipv6 s"
proof -
  obtain head b r where h: "read_groups 8 0 s = (head, b, r)"
    by (metis prod_cases3)
  have "read_ipv6_addr (lower s) = map_rest (read_ipv6_addr s)"
  proof (cases "\<exists>r2. r = 58 # 58 # r2")
    case True
    then show ?thesis
      by (auto simp: read_ipv6_addr_def read_groups_lower h split: prod.splits)
  next
    case False
    then show ?thesis
      by (cases r; cases "tl r") (auto simp: read_ipv6_addr_def read_groups_lower h)
  qed
  then show ?thesis
    by (auto simp: parse_ipv6_def map_rest_def split: option.splits list.splits)
qed

end
