(* ===== verification/Uri.thy ===== *)
theory Uri
  imports Protocol Rust_Net
begin

text \<open>
  \<open>protocol/uri.rs\<close>: parsing, displaying and resolving \<open>atp://\<close> URIs. The path normaliser
  edits one string in place, as the source does; it is shown to implement a stack of
  segments.
\<close>

section \<open>Definitions\<close>

abbreviation (input) SLASH :: uchar where "SLASH \<equiv> 47"
abbreviation (input) QUERY :: uchar where "QUERY \<equiv> 63"
abbreviation (input) HASH :: uchar where "HASH \<equiv> 35"

definition MAX_URI_LEN :: nat where "MAX_URI_LEN = 2048"

record AtpUri =
  host :: ustr
  port :: u16
  path :: ustr
  query :: "ustr option"

definition foreign_scheme :: "ustr \<Rightarrow> ustr option" where
  "foreign_scheme reference =
     (case find_char (\<lambda>c. c = COLON) reference of None \<Rightarrow> None
      | Some colon \<Rightarrow>
          let scheme = take colon reference in
          if SLASH \<in> set scheme then None
          else (case scheme of [] \<Rightarrow> None
                | first # chars \<Rightarrow>
                    if is_ascii_alphabetic first
                       \<and> list_all (\<lambda>ch. is_ascii_alphanumeric ch \<or> ch \<in> {43, 45, 46}) chars
                    then Some scheme else None))"

text \<open>The copies that report an allocation failure as such.\<close>

definition owned :: "runtime \<Rightarrow> ustr \<Rightarrow> (unit, ustr) result" where
  "owned rt value = (if try_reserve rt (len value) then Inr value else Inl ())"

definition owned_opt :: "runtime \<Rightarrow> ustr option \<Rightarrow> (unit, ustr option) result" where
  "owned_opt rt q = (case q of None \<Rightarrow> Inr None | Some v \<Rightarrow> map_ok Some (owned rt v))"

definition try_path_query :: "runtime \<Rightarrow> AtpUri \<Rightarrow> (unit, ustr \<times> ustr option) result" where
  "try_path_query rt u =
     and_then (owned rt (path u)) (\<lambda>p. map_ok (\<lambda>q. (p, q)) (owned_opt rt (query u)))"

definition uri_try_clone :: "runtime \<Rightarrow> AtpUri \<Rightarrow> (unit, AtpUri) result" where
  "uri_try_clone rt u =
     and_then (owned rt (host u)) (\<lambda>h.
     and_then (owned rt (path u)) (\<lambda>p.
     and_then (owned_opt rt (query u)) (\<lambda>q.
     Inr \<lparr>host = h, port = port u, path = p, query = q\<rparr>)))"

definition try_owned :: "runtime \<Rightarrow> ustr \<Rightarrow> ustr presult" where
  "try_owned rt value =
     (if try_reserve rt (len value) then Inr value else Inl (ResourceExhausted (len value)))"

definition parse_port :: "runtime \<Rightarrow> ustr \<Rightarrow> u16 presult" where
  "parse_port rt value =
     (if value = [] then Inl (InvalidUri (lit ''empty port''))
      else ok_or (invalid_uri rt [lit ''invalid port: '', value]) (parse_u16 value))"

subsection \<open>Path normalisation\<close>

definition rfind_char :: "uchar \<Rightarrow> ustr \<Rightarrow> nat option" where
  "rfind_char c s = map_option (\<lambda>(a, _). length a) (rsplit_once_char c s)"

text \<open>One iteration of the loop over the segments, on the string built so far.\<close>

definition normalize_segment :: "ustr \<Rightarrow> ustr \<Rightarrow> ustr" where
  "normalize_segment normalized segment =
     (if segment = [] \<or> segment = lit ''.'' then normalized
      else if segment = lit ''..'' then
        if len normalized > 1
        then let popped = butlast normalized in
             take (case rfind_char SLASH popped of None \<Rightarrow> 1 | Some i \<Rightarrow> max i 1) popped
        else normalized
      else (if len normalized > 1 \<and> \<not> ends_with_char SLASH normalized
            then normalized @ [SLASH] else normalized) @ segment)"

definition normalize_loop :: "ustr \<Rightarrow> ustr \<Rightarrow> ustr" where
  "normalize_loop first second =
     (let final_part = (if second = [] then first else second);
          trailing_slash = (len final_part > 1 \<and> ends_with_char SLASH final_part);
          normalized = foldl normalize_segment [SLASH]
                         (split_char SLASH first @ split_char SLASH second)
      in if trailing_slash \<and> normalized \<noteq> [SLASH] \<and> \<not> ends_with_char SLASH normalized
         then normalized @ [SLASH] else normalized)"

definition try_normalize_path :: "runtime \<Rightarrow> ustr \<Rightarrow> ustr \<Rightarrow> ustr presult" where
  "try_normalize_path rt first second =
     and_then (ok_or (ResourceExhausted usize_max) (checked_add (len first) (len second))) (\<lambda>n.
     let requested = max n 1 in
     if requested > MAX_URI_LEN
     then Inl (InvalidUri (lit ''resolved URI path exceeds maximum length''))
     else if \<not> try_reserve rt requested then Inl (ResourceExhausted requested)
     else Inr (normalize_loop first second))"

subsection \<open>Parsing\<close>

text \<open>The authority: host and port, with brackets around an IPv6 literal.\<close>

definition parse_authority :: "runtime \<Rightarrow> ustr \<Rightarrow> (ustr \<times> u16) presult" where
  "parse_authority rt host_port =
     (case strip_prefix [91] host_port of
        Some rest \<Rightarrow>
          and_then (ok_or (InvalidUri (lit ''unterminated IPv6 address''))
                      (find_char (\<lambda>c. c = 93) rest)) (\<lambda>e.
          let h = take e rest in
          and_then (ok_or (InvalidUri (lit ''invalid IPv6 address'')) (parse_ipv6 h)) (\<lambda>_.
          let suffix = drop (e + 1) rest in
          if suffix = [] then Inr (h, DEFAULT_PORT)
          else and_then (ok_or (InvalidUri (lit ''invalid IPv6 authority''))
                           (strip_prefix [COLON] suffix)) (\<lambda>value.
               map_ok (\<lambda>p. (h, p)) (parse_port rt value))))
      | None \<Rightarrow>
          (case rsplit_once_char COLON host_port of
             Some (h, port_str) \<Rightarrow>
               if COLON \<in> set h
               then Inl (InvalidUri (lit ''IPv6 addresses must be enclosed in brackets''))
               else map_ok (\<lambda>p. (h, p)) (parse_port rt port_str)
           | None \<Rightarrow> Inr (host_port, DEFAULT_PORT)))"

definition split_path_query :: "runtime \<Rightarrow> ustr \<Rightarrow> (ustr \<times> ustr option) presult" where
  "split_path_query rt path_and_query =
     (case strip_prefix [QUERY] path_and_query of
        Some q \<Rightarrow> map_ok (\<lambda>q. ([SLASH], Some q)) (try_owned rt q)
      | None \<Rightarrow>
          (case find_char (\<lambda>c. c = QUERY) path_and_query of
             Some idx \<Rightarrow> map_ok (\<lambda>q. (take idx path_and_query, Some q))
                              (try_owned rt (drop (idx + 1) path_and_query))
           | None \<Rightarrow> Inr (path_and_query, None)))"

definition drop_empty :: "ustr option \<Rightarrow> ustr option" where
  "drop_empty q = (if q = Some [] then None else q)"

definition AtpUri_parse :: "runtime \<Rightarrow> ustr \<Rightarrow> AtpUri presult" where
  "AtpUri_parse rt s =
     (if len s > MAX_URI_LEN
      then Inl (invalid_uri rt [lit ''URI exceeds maximum length of '', show_nat MAX_URI_LEN])
      else if list_ex is_control s \<or> HASH \<in> set s
      then Inl (InvalidUri (lit ''control characters and fragments are not allowed''))
      else if \<not> starts_with (lit ''atp://'') s
      then Inl (invalid_uri rt [lit ''expected atp:// scheme, got: '',
                  (case split_once (lit ''://'') s of Some (a, _) \<Rightarrow> a | None \<Rightarrow> s)])
      else let after_scheme = drop 6 s in
        if after_scheme = [] then Inl (InvalidUri (lit ''missing host''))
        else
          let authority_end = (case find_char (\<lambda>c. c = SLASH \<or> c = QUERY) after_scheme of
                                 Some i \<Rightarrow> i | None \<Rightarrow> length after_scheme);
              host_port = take authority_end after_scheme;
              path_and_query = (if authority_end = length after_scheme then [SLASH]
                                else drop authority_end after_scheme)
          in
          and_then (split_path_query rt path_and_query) (\<lambda>(p, q).
          let q = drop_empty q in
          if host_port = [] then Inl (InvalidUri (lit ''missing host''))
          else if list_ex (\<lambda>c. is_control c \<or> is_whitespace c) host_port
                  \<or> list_ex (\<lambda>c. c \<in> {64, HASH, QUERY}) host_port
          then Inl (InvalidUri (lit ''invalid host''))
          else
            and_then (parse_authority rt host_port) (\<lambda>(h, pt).
            if h = [] then Inl (InvalidUri (lit ''missing host''))
            else if \<not> is_ascii h
            then Inl (InvalidUri (lit ''host must be an ASCII DNS name or IP literal''))
            else if \<not> try_reserve rt (len h) then Inl (ResourceExhausted (len h))
            else
              and_then (try_normalize_path rt p []) (\<lambda>np.
              Inr \<lparr>host = lower h, port = pt, path = np, query = q\<rparr>))))"

text \<open>The query string is split off a reference the same way, before its path is looked at.\<close>

definition split_reference :: "runtime \<Rightarrow> ustr \<Rightarrow> (ustr \<times> ustr option) presult" where
  "split_reference rt relative =
     (case find_char (\<lambda>c. c = QUERY) relative of
        Some idx \<Rightarrow> map_ok (\<lambda>q. (take idx relative, Some q))
                         (try_owned rt (drop (idx + 1) relative))
      | None \<Rightarrow> Inr (relative, None))"

definition resolve :: "runtime \<Rightarrow> AtpUri \<Rightarrow> ustr \<Rightarrow> AtpUri presult" where
  "resolve rt u relative =
     (if len relative > MAX_URI_LEN
      then Inl (invalid_uri rt [lit ''URI exceeds maximum length of '', show_nat MAX_URI_LEN])
      else if list_ex is_control relative \<or> HASH \<in> set relative
      then Inl (InvalidUri (lit ''control characters and fragments are not allowed''))
      else if starts_with (lit ''atp://'') relative then AtpUri_parse rt relative
      else case foreign_scheme relative of
        Some scheme \<Rightarrow> Inl (invalid_uri rt [lit ''unsupported protocol: '', scheme])
      | None \<Rightarrow>
          and_then (split_reference rt relative) (\<lambda>(rel_path, q).
          let q = drop_empty q in
          if starts_with [SLASH] rel_path then
            and_then (try_owned rt (host u)) (\<lambda>h.
            and_then (try_normalize_path rt rel_path []) (\<lambda>p.
            Inr \<lparr>host = h, port = port u, path = p, query = q\<rparr>))
          else if rel_path = [] then
            and_then (try_owned rt (host u)) (\<lambda>h.
            and_then (try_owned rt (path u)) (\<lambda>p.
            Inr \<lparr>host = h, port = port u, path = p, query = q\<rparr>))
          else
            let base_dir = (case rfind_char SLASH (path u) of
                              Some i \<Rightarrow> take (i + 1) (path u) | None \<Rightarrow> [SLASH]) in
            and_then (try_owned rt (host u)) (\<lambda>h.
            and_then (try_normalize_path rt base_dir rel_path) (\<lambda>p.
            Inr \<lparr>host = h, port = port u, path = p, query = q\<rparr>))))"

definition uri_display :: "AtpUri \<Rightarrow> ustr" where
  "uri_display u =
     (if COLON \<in> set (host u) then lit ''atp://['' @ host u @ lit '']''
      else lit ''atp://'' @ host u) @
     (if port u = DEFAULT_PORT then path u
      else [COLON] @ show_nat (unat (port u)) @ path u) @
     (case query u of None \<Rightarrow> [] | Some q \<Rightarrow> QUERY # q)"

section \<open>The normaliser is a stack of segments\<close>

text \<open>The specification: what the string in the loop stands for.\<close>

definition stack_segment :: "ustr list \<Rightarrow> ustr \<Rightarrow> ustr list" where
  "stack_segment st seg =
     (if seg = [] \<or> seg = lit ''.'' then st
      else if seg = lit ''..'' then butlast st else st @ [seg])"

definition render :: "ustr list \<Rightarrow> ustr" where
  "render st = SLASH # join_char SLASH st"

definition valid_seg :: "ustr \<Rightarrow> bool" where
  "valid_seg w \<longleftrightarrow> w \<noteq> [] \<and> w \<noteq> lit ''.'' \<and> w \<noteq> lit ''..'' \<and> SLASH \<notin> set w"

lemma join_char_last:
  assumes "ws \<noteq> []" "last ws \<noteq> []" shows "last (join_char c ws) = last (last ws)" "join_char c ws \<noteq> []"
proof -
  obtain vs w where "ws = vs @ [w]" using assms(1) by (metis append_butlast_last_id)
  with assms(2) show "last (join_char c ws) = last (last ws)" "join_char c ws \<noteq> []"
    by (auto simp: join_char_snoc)
qed

lemma rfind_char_append: "c \<notin> set b \<Longrightarrow> rfind_char c (a @ c # b) = Some (length a)"
  by (simp add: rfind_char_def rsplit_once_char_append)

lemma render_ends:
  assumes "list_all valid_seg st"
  shows "ends_with_char SLASH (render st) \<longleftrightarrow> st = []" "len (render st) > 1 \<longleftrightarrow> st \<noteq> []"
    "render st = [SLASH] \<longleftrightarrow> st = []"
proof -
  have "st \<noteq> [] \<Longrightarrow> last st \<noteq> [] \<and> SLASH \<notin> set (last st)"
    using assms by (auto simp: list_all_iff valid_seg_def)
  then have "st \<noteq> [] \<Longrightarrow> last (join_char SLASH st) \<noteq> SLASH \<and> join_char SLASH st \<noteq> []"
    using join_char_last [of st SLASH] by (metis last_in_set)
  then show "ends_with_char SLASH (render st) \<longleftrightarrow> st = []" "len (render st) > 1 \<longleftrightarrow> st \<noteq> []"
    "render st = [SLASH] \<longleftrightarrow> st = []"
    using len_eq_0 [of "join_char SLASH st"]
    by (auto simp: render_def ends_with_char_def len_utf8_def simp del: len_eq_0)
qed

lemma valid_stack_segment:
  "list_all valid_seg st \<Longrightarrow> SLASH \<notin> set seg \<Longrightarrow> list_all valid_seg (stack_segment st seg)"
  by (auto simp: stack_segment_def valid_seg_def list_all_iff dest: in_set_butlastD)

lemma normalize_segment_pop:
  assumes "list_all valid_seg (st @ [w])"
  shows "normalize_segment (render (st @ [w])) (lit ''..'') = render st"
proof -
  have w: "w \<noteq> []" "SLASH \<notin> set (butlast w)"
    using assms by (auto simp: valid_seg_def dest: in_set_butlastD)
  have gt: "len (render (st @ [w])) > 1"
    using render_ends(2) [OF assms] by simp
  have "normalize_segment (render (st @ [w])) (lit ''..'') =
      take (case rfind_char SLASH (butlast (render (st @ [w]))) of None \<Rightarrow> 1 | Some i \<Rightarrow> max i 1)
        (butlast (render (st @ [w])))"
    using gt by (simp add: normalize_segment_def Let_def)
  also have "\<dots> = render st"
  proof (cases "st = []")
    case True
    then have "butlast (render (st @ [w])) = SLASH # butlast w"
      using w(1) by (simp add: render_def)
    with True show ?thesis
      using rfind_char_append [OF w(2), of "[]"] by (simp add: render_def)
  next
    case False
    then have "butlast (render (st @ [w])) = render st @ SLASH # butlast w"
      using w(1) by (simp add: render_def join_char_snoc butlast_append)
    then show ?thesis
      using rfind_char_append [OF w(2), of "render st"] by (simp add: render_def)
  qed
  finally show ?thesis .
qed

lemma normalize_segment_render:
  assumes "list_all valid_seg st"
  shows "normalize_segment (render st) seg = render (stack_segment st seg)"
proof (cases "seg = lit ''..''")
  case True
  show ?thesis
  proof (cases st rule: rev_cases)
    case Nil
    then show ?thesis
      by (simp add: normalize_segment_def stack_segment_def render_def len_utf8_def)
  next
    case (snoc vs w)
    with normalize_segment_pop [of vs w] assms True show ?thesis
      by (simp add: stack_segment_def)
  qed
next
  case False
  then show ?thesis
    using render_ends [OF assms]
    by (auto simp: normalize_segment_def stack_segment_def render_def join_char_snoc)
qed

lemma foldl_normalize_segment:
  "list_all valid_seg st \<Longrightarrow> \<forall>w \<in> set segs. SLASH \<notin> set w \<Longrightarrow>
   foldl normalize_segment (render st) segs = render (foldl stack_segment st segs)
   \<and> list_all valid_seg (foldl stack_segment st segs)"
  by (induction segs arbitrary: st)
    (simp_all add: normalize_segment_render valid_stack_segment)

definition normal_form :: "ustr \<Rightarrow> ustr \<Rightarrow> ustr" where
  "normal_form first second =
     (let st = foldl stack_segment [] (split_char SLASH first @ split_char SLASH second);
          final_part = (if second = [] then first else second)
      in render st @ (if len final_part > 1 \<and> ends_with_char SLASH final_part \<and> st \<noteq> []
                      then [SLASH] else []))"

lemma stack_of_path:
  "list_all valid_seg (foldl stack_segment [] (split_char SLASH a @ split_char SLASH b))
   \<and> foldl normalize_segment [SLASH] (split_char SLASH a @ split_char SLASH b) =
     render (foldl stack_segment [] (split_char SLASH a @ split_char SLASH b))"
  using foldl_normalize_segment [of "[]" "split_char SLASH a @ split_char SLASH b"]
    split_char_pieces [of _ SLASH]
  by (auto simp: render_def)

lemma normalize_loop_eq: "normalize_loop a b = normal_form a b"
proof -
  define st where "st = foldl stack_segment [] (split_char SLASH a @ split_char SLASH b)"
  have v: "list_all valid_seg st"
    and f: "foldl normalize_segment [SLASH] (split_char SLASH a @ split_char SLASH b) = render st"
    using stack_of_path [of a b] by (simp_all add: st_def)
  show ?thesis
    unfolding normalize_loop_def normal_form_def f st_def [symmetric] Let_def
    using render_ends [OF v] by simp
qed

lemma normalize_path_Inr:
  "try_normalize_path rt a b = Inr p \<longleftrightarrow>
     len a + len b \<le> MAX_URI_LEN \<and> try_reserve rt (max (len a + len b) 1) \<and> p = normal_form a b"
  by (auto simp: try_normalize_path_def Let_def checked_add_def MAX_URI_LEN_def usize_max_def
      normalize_loop_eq split: if_splits)

text \<open>
  C29: the in-place path normaliser implements the stack of segments: an empty segment or
  \<open>.\<close> is dropped, \<open>..\<close> pops (and stops at the root), anything else is pushed, and a final
  slash of the reference is kept; it fails only for an over-long path or a refused
  allocation, with the error that says so.
\<close>

theorem normalize_path_refines_stack:
  "try_normalize_path rt first second =
     (if usize_max < len first + len second then Inl (ResourceExhausted usize_max)
      else if MAX_URI_LEN < max (len first + len second) 1
      then Inl (InvalidUri (lit ''resolved URI path exceeds maximum length''))
      else if \<not> try_reserve rt (max (len first + len second) 1)
      then Inl (ResourceExhausted (max (len first + len second) 1))
      else Inr (normal_form first second))"
  by (simp add: try_normalize_path_def Let_def checked_add_def normalize_loop_eq)

subsection \<open>Clean paths\<close>

definition clean_path :: "ustr \<Rightarrow> bool" where
  "clean_path p =
     (case p of [] \<Rightarrow> False
      | c # r \<Rightarrow> c = SLASH \<and>
          (r = [] \<or>
           (let ws = split_char SLASH r in
            list_all valid_seg (butlast ws) \<and>
            (valid_seg (last ws) \<or> (last ws = [] \<and> butlast ws \<noteq> [])))))"

lemma split_segments:
  assumes "list_all valid_seg st" "st \<noteq> []"
  shows "split_char SLASH (join_char SLASH st @ (if t then [SLASH] else [])) =
    st @ (if t then [[]] else [])"
proof -
  have free: "\<forall>w \<in> set st. SLASH \<notin> set w"
    using assms(1) by (simp add: list_all_iff valid_seg_def)
  show ?thesis
  proof (cases t)
    case True
    have "split_char SLASH (join_char SLASH (st @ [[]])) = st @ [[]]"
      using free by (intro split_join) auto
    with True assms(2) show ?thesis by (simp add: join_char_snoc)
  next
    case False
    with split_join [OF assms(2) free] show ?thesis by simp
  qed
qed

lemma clean_render:
  assumes "list_all valid_seg st" "t \<longrightarrow> st \<noteq> []"
  shows "clean_path (render st @ (if t then [SLASH] else []))"
proof (cases "st = []")
  case False
  have "list_all valid_seg (butlast st)" "valid_seg (last st)"
    using assms False by (auto simp: list_all_iff dest: in_set_butlastD)
  then show ?thesis
    using assms False by (simp add: clean_path_def render_def split_segments)
qed (use assms in \<open>simp add: clean_path_def render_def\<close>)

lemma clean_pathE:
  assumes "clean_path p"
  obtains st t where "p = render st @ (if t then [SLASH] else [])" "list_all valid_seg st"
    "t \<longrightarrow> st \<noteq> []"
proof -
  obtain r where p: "p = SLASH # r"
    using assms by (auto simp: clean_path_def split: list.splits)
  show thesis
  proof (cases "r = []")
    case True
    with p that [of "[]" False] show ?thesis by (simp add: render_def)
  next
    case False
    define ws where "ws = split_char SLASH r"
    have c: "list_all valid_seg (butlast ws)" "valid_seg (last ws) \<or> (last ws = [] \<and> butlast ws \<noteq> [])"
      using assms p False by (auto simp: clean_path_def ws_def Let_def)
    have w: "ws = butlast ws @ [last ws]" "r = join_char SLASH ws"
      by (simp_all add: ws_def join_split)
    show ?thesis
    proof (cases "valid_seg (last ws)")
      case True
      moreover from this c w(1) have "list_all valid_seg ws"
        by (metis list_all_append list.pred_inject)
      ultimately show ?thesis
        using that [of ws False] p w(2) by (simp add: render_def)
    next
      case last: False
      with c(2) have "last ws = []" "butlast ws \<noteq> []" by auto
      then have "r = join_char SLASH (butlast ws) @ [SLASH]"
        using w join_char_snoc [of SLASH "butlast ws" "last ws"] by simp
      with that [of "butlast ws" True] p c(1) \<open>butlast ws \<noteq> []\<close> show ?thesis
        by (simp add: render_def)
    qed
  qed
qed

lemma clean_normal_form: "clean_path (normal_form a b)"
  using clean_render stack_of_path [of a b]
  by (simp add: normal_form_def Let_def del: foldl_append)

lemma foldl_stack_valid: "list_all valid_seg ws \<Longrightarrow> foldl stack_segment st ws = st @ ws"
  by (induction ws arbitrary: st) (auto simp: stack_segment_def valid_seg_def)

lemma split_render:
  assumes "list_all valid_seg st" "t \<longrightarrow> st \<noteq> []"
  shows "foldl stack_segment [] (split_char SLASH (render st @ (if t then [SLASH] else []))) = st"
proof (cases "st = []")
  case False
  then have "split_char SLASH (render st @ (if t then [SLASH] else [])) =
      [] # st @ (if t then [[]] else [])"
    using split_segments [OF assms(1)] by (simp add: render_def)
  then show ?thesis
    using foldl_stack_valid [OF assms(1)] by (simp add: stack_segment_def)
qed (use assms in \<open>simp add: render_def stack_segment_def\<close>)

lemma normal_form_clean:
  assumes "clean_path p" shows "normal_form p [] = p"
proof -
  obtain st t where p: "p = render st @ (if t then [SLASH] else [])" "list_all valid_seg st"
      "t \<longrightarrow> st \<noteq> []"
    using clean_pathE [OF assms] by blast
  have fold: "foldl stack_segment [] (split_char SLASH p @ split_char SLASH []) = st"
    using split_render [OF p(2,3)] by (simp add: p(1) stack_segment_def)
  have ends: "len p > 1 \<and> ends_with_char SLASH p \<and> st \<noteq> [] \<longleftrightarrow> t"
    using render_ends [OF p(2)] p(3) by (auto simp: p(1) ends_with_char_def)
  show ?thesis
    unfolding normal_form_def fold Let_def using ends by (simp add: p(1))
qed

lemma normalize_clean:
  "try_normalize_path rt a b = Inr p \<Longrightarrow> clean_path p"
  by (simp add: normalize_path_Inr clean_normal_form)

end
