(* ===== verification/Uri_Laws.thy ===== *)
theory Uri_Laws
  imports Uri
begin

text \<open>
  What holds of every URI the program builds: parsing and resolving give well-formed URIs,
  a well-formed URI survives being printed and parsed again, and a relative reference never
  leaves the authority it was found on.
\<close>

section \<open>Well-formed URIs\<close>

definition uri_text :: "ustr \<Rightarrow> bool" where
  "uri_text s \<longleftrightarrow> list_all (\<lambda>c. \<not> is_control c \<and> c \<noteq> HASH) s"

definition host_char :: "uchar \<Rightarrow> bool" where
  "host_char c \<longleftrightarrow> c < 128 \<and> \<not> is_control c \<and> \<not> is_whitespace c \<and> c \<notin> {64, HASH, QUERY, SLASH}"

definition wf_host :: "ustr \<Rightarrow> bool" where
  "wf_host h \<longleftrightarrow> h \<noteq> [] \<and> list_all host_char h \<and> lower h = h \<and>
     (if COLON \<in> set h then parse_ipv6 h \<noteq> None else hd h \<noteq> 91)"

definition wf_uri :: "AtpUri \<Rightarrow> bool" where
  "wf_uri u \<longleftrightarrow> wf_host (host u) \<and> clean_path (path u) \<and> uri_text (path u) \<and> QUERY \<notin> set (path u)
     \<and> (case query u of None \<Rightarrow> True | Some q \<Rightarrow> q \<noteq> [] \<and> uri_text q)"

lemma addr_char_host: "addr_char c \<Longrightarrow> host_char c"
  by (auto simp: addr_char_def host_char_def is_control_def is_whitespace_def is_ascii_digit_def)

lemma host_char_lower: "host_char c \<Longrightarrow> host_char (to_ascii_lowercase c)"
  by (auto simp: host_char_def is_control_def is_whitespace_def to_ascii_lowercase_def
      is_ascii_uppercase_def)

lemma hosts_lower: "list_all host_char h \<Longrightarrow> list_all host_char (lower h)"
  by (induction h) (simp_all add: host_char_lower)

lemma COLON_lower: "COLON \<in> set (lower h) \<longleftrightarrow> COLON \<in> set h"
  by (induction h) auto

subsection \<open>Characters of a normalised path\<close>

lemma set_stack: "\<Union> (set ` set (foldl stack_segment st ws)) \<subseteq> \<Union> (set ` set st) \<union> \<Union> (set ` set ws)"
proof (induction ws arbitrary: st)
  case (Cons w ws)
  have "\<Union> (set ` set (stack_segment st w)) \<subseteq> \<Union> (set ` set st) \<union> set w"
    by (auto simp: stack_segment_def dest: in_set_butlastD)
  with Cons.IH [of "stack_segment st w"] show ?case by auto
qed simp

lemma set_split_char: "\<Union> (set ` set (split_char c s)) \<subseteq> set s"
proof (induction s)
  case (Cons x s)
  then show ?case by (cases "split_char c s") auto
qed simp

lemma set_normal_form: "set (normal_form a b) \<subseteq> insert SLASH (set a \<union> set b)"
proof -
  define st where "st = foldl stack_segment [] (split_char SLASH a @ split_char SLASH b)"
  have "\<Union> (set ` set st) \<subseteq> set a \<union> set b"
    using set_stack [of "[]" "split_char SLASH a @ split_char SLASH b"]
      set_split_char [of SLASH a] set_split_char [of SLASH b]
    unfolding st_def [symmetric] by (simp add: UN_Un) blast
  moreover have "set (render st) \<subseteq> insert SLASH (\<Union> (set ` set st))"
    using set_join_char [of SLASH st] by (auto simp: render_def)
  ultimately have "set (render st) \<subseteq> insert SLASH (set a \<union> set b)"
    by blast
  then show ?thesis
    unfolding normal_form_def st_def [symmetric] by (auto simp: Let_def)
qed

lemma normalized_text:
  assumes "try_normalize_path rt a b = Inr p" "uri_text a" "uri_text b"
    "QUERY \<notin> set a" "QUERY \<notin> set b"
  shows "clean_path p \<and> uri_text p \<and> QUERY \<notin> set p"
proof -
  have "set p \<subseteq> insert SLASH (set a \<union> set b)"
    using assms(1) set_normal_form by (simp add: normalize_path_Inr)
  with assms show ?thesis
    using normalize_clean by (auto simp: uri_text_def list_all_iff is_control_def)
qed

subsection \<open>Parsing gives well-formed URIs\<close>

lemma parse_port_Inr: "parse_port rt v = Inr p \<Longrightarrow> parse_u16 v = Some p"
  by (auto simp: parse_port_def result_simps split: if_splits)

lemma authority_wf:
  assumes "parse_authority rt a = Inr (h, p)" "list_all host_char' a" "h \<noteq> []" "is_ascii h"
    "host_char' = (\<lambda>c. \<not> is_control c \<and> \<not> is_whitespace c \<and> c \<notin> {64, HASH, QUERY, SLASH})"
  shows "wf_host (lower h)"
proof (cases "strip_prefix [91] a")
  case (Some rest)
  then obtain g where g: "parse_ipv6 h = Some g"
    using assms(1) by (auto simp: parse_authority_def result_simps Let_def split: if_splits)
  then have "list_all host_char h" "58 \<in> set h"
    using parse_ipv6_chars addr_char_host by (auto simp: list_all_iff)
  with g assms(3) show ?thesis
    by (simp add: wf_host_def COLON_lower parse_ipv6_lower hosts_lower)
next
  case None
  have sub: "\<exists>t. a = h @ t \<and> COLON \<notin> set h"
  proof (cases "rsplit_once_char COLON a")
    case None'': None
    moreover have "COLON \<notin> set a"
      using None'' by (simp add: rsplit_once_char_None)
    ultimately show ?thesis
      using assms(1) None by (simp add: parse_authority_def)
  next
    case (Some x)
    then show ?thesis
      using assms(1) None rsplit_once_char_Some [of COLON a]
      by (cases x) (auto simp: parse_authority_def result_simps split: if_splits)
  qed
  then obtain t where t: "a = h @ t" by blast
  have "host_char c" if "c \<in> set h" for c
    using assms(2,4) that unfolding assms(5) t by (simp add: list_all_iff host_char_def is_ascii_def)
  then have "list_all host_char h"
    by (simp add: list_all_iff)
  moreover have "hd (lower h) \<noteq> 91"
    using None sub assms(3)
    by (cases h) (auto simp: strip_prefix_def is_ascii_alphabetic_def is_ascii_lowercase_def
        is_ascii_uppercase_def split: if_splits)
  ultimately show ?thesis
    using sub assms(3)
    by (simp add: wf_host_def COLON_lower hosts_lower)
qed

lemma split_path_query_parts:
  assumes "split_path_query rt pq = Inr (p, q)"
  shows "QUERY \<notin> set p \<and> set p \<subseteq> insert SLASH (set pq) \<and> (\<forall>v. q = Some v \<longrightarrow> set v \<subseteq> set pq)"
proof (cases "strip_prefix [QUERY] pq")
  case (Some r)
  with assms show ?thesis
    by (auto simp: split_path_query_def try_owned_def strip_prefix_Some split: if_splits)
next
  case None
  show ?thesis
  proof (cases "find_char (\<lambda>c. c = QUERY) pq")
    case (Some i)
    with find_char_decomp [OF Some] assms None show ?thesis
      by (auto simp: split_path_query_def try_owned_def list_all_iff dest: in_set_takeD in_set_dropD
          split: if_splits)
  next
    case None'': None
    with assms None show ?thesis
      by (auto simp: split_path_query_def find_char_None list_all_iff)
  qed
qed

lemma AtpUri_parse_Inr:
  assumes "AtpUri_parse rt s = Inr u"
  obtains a pq p q h where
    "len s \<le> MAX_URI_LEN" "uri_text s" "s = lit ''atp://'' @ a @ (if pq = [] then [] else pq)"
    "list_all (\<lambda>c. \<not> is_control c \<and> \<not> is_whitespace c \<and> c \<notin> {64, HASH, QUERY, SLASH}) a"
    "split_path_query rt (if pq = [] then [SLASH] else pq) = Inr (p, q)"
    "parse_authority rt a = Inr (h, port u)" "h \<noteq> []" "is_ascii h" "host u = lower h"
    "try_normalize_path rt p [] = Inr (path u)" "query u = drop_empty q"
proof -
  define r where "r = drop 6 s"
  define e where "e = (case find_char (\<lambda>c. c = SLASH \<or> c = QUERY) r of
      Some i \<Rightarrow> i | None \<Rightarrow> length r)"
  have base: "len s \<le> MAX_URI_LEN" "uri_text s" "starts_with (lit ''atp://'') s" "r \<noteq> []"
    using assms
    by (auto simp: AtpUri_parse_def uri_text_def list_ex_iff list_all_iff r_def Let_def split: if_splits)
  have s: "s = lit ''atp://'' @ take e r @ drop e r"
    using base(3) by (auto simp: r_def elim!: starts_withE)
  have le: "e \<le> length r"
    by (auto simp: e_def find_char_Some split: option.splits)
  have no_sep: "list_all (\<lambda>c. c \<noteq> SLASH \<and> c \<noteq> QUERY) (take e r)"
    using find_char_decomp(2) [of "\<lambda>c. c = SLASH \<or> c = QUERY" r e]
      find_char_None [of "\<lambda>c. c = SLASH \<or> c = QUERY" r]
    by (auto simp: e_def split: option.splits)
  have rest: "and_then (split_path_query rt (if e = length r then [SLASH] else drop e r)) (\<lambda>(p, q).
          if take e r = [] then Inl (InvalidUri (lit ''missing host''))
          else if list_ex (\<lambda>c. is_control c \<or> is_whitespace c) (take e r)
                  \<or> list_ex (\<lambda>c. c \<in> {64, HASH, QUERY}) (take e r)
          then Inl (InvalidUri (lit ''invalid host''))
          else
            and_then (parse_authority rt (take e r)) (\<lambda>(h, pt).
            if h = [] then Inl (InvalidUri (lit ''missing host''))
            else if \<not> is_ascii h
            then Inl (InvalidUri (lit ''host must be an ASCII DNS name or IP literal''))
            else if \<not> try_reserve rt (len h) then Inl (ResourceExhausted (len h))
            else
              and_then (try_normalize_path rt p []) (\<lambda>np.
              Inr \<lparr>host = lower h, port = pt, path = np, query = drop_empty q\<rparr>))) = Inr u"
    using assms base
    by (simp add: AtpUri_parse_def r_def [symmetric] e_def [symmetric] Let_def uri_text_def
        list_ex_iff list_all_iff split: if_splits)
  have pq: "(if e = length r then [SLASH] else drop e r) =
      (if drop e r = [] then [SLASH] else drop e r)"
    using le by auto
  from rest [unfolded pq] no_sep s show thesis
    by (auto simp: result_simps list_ex_iff list_all_iff split: if_splits
        intro!: that [of "take e r" "drop e r"] base)
qed

lemma parse_wf:
  assumes "AtpUri_parse rt s = Inr u"
  shows "wf_uri u"
  using assms
proof (rule AtpUri_parse_Inr)
  fix a pq p q h
  assume a: "uri_text s" "s = lit ''atp://'' @ a @ (if pq = [] then [] else pq)"
    "list_all (\<lambda>c. \<not> is_control c \<and> \<not> is_whitespace c \<and> c \<notin> {64, HASH, QUERY, SLASH}) a"
    "split_path_query rt (if pq = [] then [SLASH] else pq) = Inr (p, q)"
    "parse_authority rt a = Inr (h, port u)" "h \<noteq> []" "is_ascii h" "host u = lower h"
    "try_normalize_path rt p [] = Inr (path u)" "query u = drop_empty q"
  have "uri_text (if pq = [] then [SLASH] else pq)"
    using a(1,2) by (auto simp: uri_text_def is_control_def)
  with split_path_query_parts [OF a(4)]
  have p: "uri_text p" "QUERY \<notin> set p" "\<forall>v. q = Some v \<longrightarrow> uri_text v"
    by (auto simp: uri_text_def list_all_iff is_control_def)
  have "clean_path (path u) \<and> uri_text (path u) \<and> QUERY \<notin> set (path u)"
    using normalized_text [OF a(9) p(1) _ p(2)] by (simp add: uri_text_def)
  moreover have "wf_host (host u)"
    using authority_wf [OF a(5,3,6,7) refl] a(8) by simp
  ultimately show "wf_uri u"
    using p(3) a(10) by (auto simp: wf_uri_def drop_empty_def split: option.splits if_splits)
qed

section \<open>Printing and parsing again\<close>

definition authority :: "AtpUri \<Rightarrow> ustr" where
  "authority u = (if COLON \<in> set (host u) then 91 # host u @ [93] else host u) @
     (if port u = DEFAULT_PORT then [] else COLON # show_nat (unat (port u)))"

definition query_text :: "AtpUri \<Rightarrow> ustr" where
  "query_text u = (case query u of None \<Rightarrow> [] | Some q \<Rightarrow> QUERY # q)"

lemma uri_display_eq: "uri_display u = lit ''atp://'' @ authority u @ path u @ query_text u"
  by (simp add: uri_display_def authority_def query_text_def lit_def)

lemma authority_chars:
  assumes "wf_host (host u)" "c \<in> set (authority u)"
  shows "\<not> is_control c" "\<not> is_whitespace c" "c \<notin> {64, HASH, QUERY, SLASH}"
proof -
  have "host_char c"
    using assms show_nat_no_space [of c "unat (port u)"]
    by (auto simp: authority_def wf_host_def list_all_iff split: if_splits)
      (auto simp: host_char_def is_control_def is_whitespace_def)
  then show "\<not> is_control c" "\<not> is_whitespace c" "c \<notin> {64, HASH, QUERY, SLASH}"
    by (auto simp: host_char_def)
qed

lemma parse_port_show [simp]: "parse_port rt (show_nat (unat p)) = Inr p"
  by (simp add: parse_port_def)

lemma parse_authority_display:
  assumes "wf_host (host u)"
  shows "parse_authority rt (authority u) = Inr (host u, port u)"
proof (cases "COLON \<in> set (host u)")
  case True
  let ?p = "if port u = DEFAULT_PORT then [] else COLON # show_nat (unat (port u))"
  obtain g where g: "parse_ipv6 (host u) = Some g"
    using assms True by (auto simp: wf_host_def)
  then have "list_all (\<lambda>c. c \<noteq> 93) (host u)"
    using parse_ipv6_chars(1) [OF g] by (auto simp: list_all_iff addr_char_def is_ascii_digit_def)
  then have "find_char (\<lambda>c. c = 93) (host u @ 93 # ?p) = Some (length (host u))"
    by (intro find_char_append) simp_all
  moreover have "strip_prefix [91] (authority u) = Some (host u @ 93 # ?p)"
    using True by (simp add: authority_def strip_prefix_def)
  ultimately show ?thesis
    using g by (simp add: parse_authority_def strip_prefix_def)
next
  case False
  have "strip_prefix [91] (authority u) = None"
    using assms False by (cases "host u") (auto simp: wf_host_def authority_def strip_prefix_def)
  moreover have "COLON \<notin> set (show_nat (unat (port u)))"
    using show_nat_no_space by fastforce
  then have "rsplit_once_char COLON (authority u) =
      (if port u = DEFAULT_PORT then None else Some (host u, show_nat (unat (port u))))"
    using False by (simp add: authority_def rsplit_once_char_append rsplit_once_char_None)
  ultimately show ?thesis
    using False by (simp add: parse_authority_def authority_def)
qed

lemma split_path_query_display:
  assumes "ample rt" "QUERY \<notin> set (path u)" "clean_path (path u)" "len (query_text u) \<le> MAX_URI_LEN"
  shows "split_path_query rt (path u @ query_text u) = Inr (path u, query u)"
proof -
  obtain r where p: "path u = SLASH # r"
    using assms(3) by (auto simp: clean_path_def split: list.splits)
  have "strip_prefix [QUERY] (path u @ query_text u) = None"
    by (simp add: p strip_prefix_def)
  moreover have "query u = Some q \<Longrightarrow>
      find_char (\<lambda>c. c = QUERY) (path u @ QUERY # q) = Some (length (path u))" for q
    using assms(2) by (intro find_char_append) (auto simp: list_all_iff)
  moreover have "query u = None \<Longrightarrow> find_char (\<lambda>c. c = QUERY) (path u) = None"
    using assms(2) by (auto simp: find_char_None list_all_iff)
  moreover have "query u = Some q \<Longrightarrow> try_reserve rt (len q)" for q
    using assms(1,4) by (intro ample_try_reserve)
      (auto simp: query_text_def MAX_URI_LEN_def isize_max_def)
  ultimately show ?thesis
    by (cases "query u") (auto simp: split_path_query_def query_text_def try_owned_def)
qed

lemma parse_display:
  assumes "wf_uri u" "len (uri_display u) \<le> MAX_URI_LEN" "ample rt"
  shows "AtpUri_parse rt (uri_display u) = Inr u"
proof -
  have w: "wf_host (host u)" "clean_path (path u)" "uri_text (path u)" "QUERY \<notin> set (path u)"
    "\<And>q. query u = Some q \<Longrightarrow> q \<noteq> [] \<and> uri_text q"
    using assms(1) by (auto simp: wf_uri_def)
  obtain r where p: "path u = SLASH # r"
    using w(2) by (auto simp: clean_path_def split: list.splits)
  have bounds: "len (host u) \<le> MAX_URI_LEN" "len (path u) \<le> MAX_URI_LEN"
      "len (query_text u) \<le> MAX_URI_LEN"
    using assms(2) by (auto simp: uri_display_eq authority_def split: if_splits)
  have "uri_text (query_text u)"
    using w(5) by (cases "query u") (auto simp: query_text_def uri_text_def is_control_def)
  then have plain: "\<not> list_ex is_control (uri_display u)" "HASH \<notin> set (uri_display u)"
    using authority_chars [OF w(1)] w(3)
    by (auto simp: uri_display_eq uri_text_def list_ex_iff list_all_iff lit_def is_control_def)
  have find: "find_char (\<lambda>c. c = SLASH \<or> c = QUERY) (authority u @ path u @ query_text u)
      = Some (length (authority u))"
    using authority_chars(3) [OF w(1)] unfolding p append_Cons
    by (intro find_char_append) (auto simp: list_all_iff)
  have auth: "authority u \<noteq> []" "\<not> list_ex (\<lambda>c. is_control c \<or> is_whitespace c) (authority u)"
      "\<not> list_ex (\<lambda>c. c \<in> {64, HASH, QUERY}) (authority u)"
    using authority_chars [OF w(1)] w(1)
    by (auto simp: list_ex_iff authority_def wf_host_def)
  have spq: "split_path_query rt (path u @ query_text u) = Inr (path u, query u)"
    by (rule split_path_query_display [OF assms(3) w(4,2) bounds(3)])
  have pa: "parse_authority rt (authority u) = Inr (host u, port u)"
    by (rule parse_authority_display [OF w(1)])
  have host: "host u \<noteq> []" "is_ascii (host u)" "lower (host u) = host u"
    using w(1) by (auto simp: wf_host_def is_ascii_def list_all_iff host_char_def)
  have "len (host u) \<le> isize_max"
    using bounds(1) by (simp add: MAX_URI_LEN_def isize_max_def)
  then have reserve: "try_reserve rt (len (host u))"
    by (rule ample_try_reserve [OF assms(3)])
  have "max (len (path u)) 1 \<le> isize_max"
    using bounds(2) by (simp add: MAX_URI_LEN_def isize_max_def)
  then have norm: "try_normalize_path rt (path u) [] = Inr (path u)"
    using w(2) bounds(2) assms(3)
    by (simp add: normalize_path_Inr normal_form_clean ample_try_reserve)
  have q: "drop_empty (query u) = query u"
    using w(5) by (auto simp: drop_empty_def)
  have d6: "drop 6 (uri_display u) = authority u @ path u @ query_text u"
    by (simp add: uri_display_eq lit_def)
  have "starts_with (lit ''atp://'') (uri_display u)"
    by (simp add: uri_display_eq)
  moreover have "path u \<noteq> []"
    by (simp add: p)
  ultimately show ?thesis
    using assms(2) plain auth spq pa host reserve norm q
    unfolding AtpUri_parse_def Let_def d6 find by simp
qed

section \<open>Resolving references\<close>

definition directory :: "ustr \<Rightarrow> ustr" where
  "directory p = (case rfind_char SLASH p of Some i \<Rightarrow> take (i + 1) p | None \<Rightarrow> [SLASH])"

definition resolved_path :: "ustr \<Rightarrow> ustr \<Rightarrow> ustr" where
  "resolved_path base rel =
     (if starts_with [SLASH] rel then normal_form rel []
      else if rel = [] then base else normal_form (directory base) rel)"

lemma take_find_char:
  "find_char P s = Some i \<Longrightarrow> take i s = takeWhile (\<lambda>c. \<not> P c) s \<and> drop (Suc i) s = tl (dropWhile (\<lambda>c. \<not> P c) s)"
  by (induction s arbitrary: i) (auto split: if_splits)

lemma takeWhile_find_None: "find_char P s = None \<Longrightarrow> takeWhile (\<lambda>c. \<not> P c) s = s"
  by (induction s) (auto split: if_splits)

lemma split_reference_Inr:
  assumes "split_reference rt r = Inr (p, q)"
  shows "p = takeWhile (\<lambda>c. c \<noteq> QUERY) r"
    "q = (if QUERY \<in> set r then Some (tl (dropWhile (\<lambda>c. c \<noteq> QUERY) r)) else None)"
proof -
  have "p = takeWhile (\<lambda>c. c \<noteq> QUERY) r \<and>
    q = (if QUERY \<in> set r then Some (tl (dropWhile (\<lambda>c. c \<noteq> QUERY) r)) else None)"
  proof (cases "find_char (\<lambda>c. c = QUERY) r")
    case None
    then have no: "QUERY \<notin> set r"
      by (auto simp: find_char_None list_all_iff)
    then have "takeWhile (\<lambda>c. c \<noteq> QUERY) r = r"
      by auto
    moreover have "p = r" "q = None"
      using None assms by (simp_all add: split_reference_def)
    ultimately show ?thesis
      using no by metis
  next
    case (Some i)
    moreover from this have "QUERY \<in> set r"
      using find_char_None [of "\<lambda>c. c = QUERY" r] by (auto simp: list_all_iff)
    ultimately show ?thesis
      using assms take_find_char [OF Some]
      by (simp add: split_reference_def try_owned_def split: if_splits)
  qed
  then show "p = takeWhile (\<lambda>c. c \<noteq> QUERY) r"
    "q = (if QUERY \<in> set r then Some (tl (dropWhile (\<lambda>c. c \<noteq> QUERY) r)) else None)"
    by simp_all
qed

lemma resolve_relative:
  assumes "resolve rt u r = Inr v" "\<not> starts_with (lit ''atp://'') r"
  shows "uri_text r" "foreign_scheme r = None" "host v = host u" "port v = port u"
    "path v = resolved_path (path u) (takeWhile (\<lambda>c. c \<noteq> QUERY) r)"
    "query v = (if QUERY \<in> set r then drop_empty (Some (tl (dropWhile (\<lambda>c. c \<noteq> QUERY) r))) else None)"
proof -
  show "uri_text r" "foreign_scheme r = None"
    using assms
    by (auto simp: resolve_def uri_text_def list_ex_iff list_all_iff split: if_splits option.splits)
  obtain p q where pq: "split_reference rt r = Inr (p, q)"
    using assms by (auto simp: resolve_def result_simps split: if_splits option.splits)
  have "host v = host u \<and> port v = port u \<and> path v = resolved_path (path u) p \<and> query v = drop_empty q"
    using assms
    by (auto simp: resolve_def pq result_simps try_owned_def normalize_path_Inr resolved_path_def
        Let_def directory_def [symmetric] split: if_splits option.splits)
  then show "host v = host u" "port v = port u"
    "path v = resolved_path (path u) (takeWhile (\<lambda>c. c \<noteq> QUERY) r)"
    "query v = (if QUERY \<in> set r then drop_empty (Some (tl (dropWhile (\<lambda>c. c \<noteq> QUERY) r))) else None)"
    using split_reference_Inr [OF pq] by (simp_all add: drop_empty_def)
qed

lemma set_directory: "set (directory p) \<subseteq> insert SLASH (set p)"
  by (auto simp: directory_def split: option.splits dest: in_set_takeD)

lemma resolve_wf:
  assumes "wf_uri u" "resolve rt u r = Inr v"
  shows "wf_uri v"
proof (cases "starts_with (lit ''atp://'') r")
  case True
  with assms(2) have "AtpUri_parse rt r = Inr v"
    by (auto simp: resolve_def split: if_splits)
  then show ?thesis by (rule parse_wf)
next
  case False
  note rel = resolve_relative [OF assms(2) False]
  let ?r = "takeWhile (\<lambda>c. c \<noteq> QUERY) r"
  have w: "uri_text (path u)" "QUERY \<notin> set (path u)" "clean_path (path u)"
    using assms(1) by (auto simp: wf_uri_def)
  have r: "uri_text ?r" "QUERY \<notin> set ?r"
    using rel(1) by (auto simp: uri_text_def list_all_iff dest: set_takeWhileD)
  have "set (path v) \<subseteq> insert SLASH (set (path u) \<union> set ?r)"
    using set_normal_form [of ?r "[]"] set_normal_form [of "directory (path u)" ?r] set_directory
    unfolding rel(5) resolved_path_def by auto
  then have "uri_text (path v)" "QUERY \<notin> set (path v)"
    using w r by (auto simp: uri_text_def list_all_iff is_control_def)
  moreover have "clean_path (path v)"
    using w(3) clean_normal_form by (simp add: rel(5) resolved_path_def)
  moreover have "set (tl (dropWhile (\<lambda>c. c \<noteq> QUERY) r)) \<subseteq> set r"
    by (metis drop_Suc dropWhile_eq_drop set_drop_subset tl_drop)
  then have "query v = Some q \<Longrightarrow> q \<noteq> [] \<and> uri_text q" for q
    using rel(1) by (auto simp: rel(6) drop_empty_def uri_text_def list_all_iff split: if_splits)
  ultimately show ?thesis
    using assms(1) rel(3) by (auto simp: wf_uri_def split: option.splits)
qed

subsection \<open>A sample\<close>

definition sample_text :: ustr where
  "sample_text = lit ''atp://EX.org:7/a/./b/../c/?q=1''"

definition sample_uri :: AtpUri where
  "sample_uri = \<lparr>host = lit ''ex.org'', port = 7, path = lit ''/a/c/'', query = Some (lit ''q=1'')\<rparr>"

lemmas uri_eval = AtpUri_parse_def resolve_def split_reference_def foreign_scheme_def
  split_path_query_def parse_authority_def
  parse_port_def parse_u16_def parse_uint_def drop_empty_def try_owned_def try_normalize_path_def
  normalize_loop_def normalize_segment_def lit_def strip_prefix_def rsplit_once_char_def Let_def
  MAX_URI_LEN_def usize_max_def isize_max_def try_reserve_def checked_add_def len_utf8_def
  is_control_def is_whitespace_def is_ascii_def is_ascii_digit_def is_ascii_alphabetic_def
  is_ascii_alphanumeric_def is_ascii_lowercase_def is_ascii_uppercase_def to_ascii_lowercase_def
  digits_value_def lower_def rfind_char_def ends_with_char_def DEFAULT_PORT_def

lemma sample_parse: "AtpUri_parse roomy_runtime sample_text = Inr sample_uri"
  by (simp add: sample_text_def sample_uri_def uri_eval)

subsection \<open>The URIs the program builds\<close>

text \<open>Every URI comes from parsing text, or from resolving a reference on one built before.\<close>

inductive built :: "runtime \<Rightarrow> AtpUri \<Rightarrow> bool" for rt where
  built_parse: "AtpUri_parse rt s = Inr u \<Longrightarrow> built rt u"
| built_resolve: "built rt u \<Longrightarrow> resolve rt u r = Inr v \<Longrightarrow> built rt v"

lemma built_wf: "built rt u \<Longrightarrow> wf_uri u"
  by (induction rule: built.induct) (simp_all add: parse_wf resolve_wf)

text \<open>
  C28: every URI the program builds, by parsing or by resolving references any number of
  times, has a canonical host, a path that starts at the root and holds no empty, \<open>.\<close> or
  \<open>..\<close> segment, and no control character or fragment anywhere.
\<close>

theorem built_uris_well_formed:
  assumes "built rt u"
  shows "wf_uri u"
  using built_wf [OF assms] .

theorem built_uris_well_formed_witness:
  "built roomy_runtime sample_uri \<and> wf_uri sample_uri"
  using built_uris_well_formed [OF built_parse [OF sample_parse]] built_parse [OF sample_parse]
  by simp

text \<open>
  C27: printing a URI the program built by parsing or resolving and parsing the text again gives
  the same URI, when the printed text is within the length limit of 2048 bytes and memory is
  available.
\<close>

theorem uri_roundtrip:
  assumes "built rt u" "len (uri_display u) \<le> MAX_URI_LEN" "ample rt"
  shows "AtpUri_parse rt (uri_display u) = Inr u"
  using parse_display [OF built_wf [OF assms(1)] assms(2,3)] .

theorem uri_roundtrip_witness:
  "uri_display sample_uri = lit ''atp://ex.org:7/a/c/?q=1''
   \<and> AtpUri_parse roomy_runtime (uri_display sample_uri) = Inr sample_uri"
proof -
  have d: "uri_display sample_uri = lit ''atp://ex.org:7/a/c/?q=1''"
    by (simp add: uri_display_def sample_uri_def lit_def DEFAULT_PORT_def show_nat.simps)
  moreover have "len (uri_display sample_uri) \<le> MAX_URI_LEN"
    by (simp add: d lit_def len_utf8_def MAX_URI_LEN_def)
  ultimately show ?thesis
    using uri_roundtrip [OF built_parse [OF sample_parse] _ ample_roomy] by simp
qed

text \<open>
  A reference that is not itself an \<open>atp://\<close> URI resolves only if it names no other
  scheme, keeps host and port, and gets the path of the stack-machine specification: a
  rooted path alone, an empty one keeps the base path, any other is taken relative to the
  base directory.
\<close>

theorem resolve_same_authority:
  assumes "resolve rt u r = Inr v" "\<not> starts_with (lit ''atp://'') r"
  shows "foreign_scheme r = None \<and> host v = host u \<and> port v = port u
    \<and> path v = resolved_path (path u) (takeWhile (\<lambda>c. c \<noteq> QUERY) r)"
  using resolve_relative [OF assms] by simp

theorem resolve_same_authority_witness:
  "host sample_uri = lit ''ex.org'' \<and>
   resolve roomy_runtime sample_uri (lit ''../x'') =
     Inr \<lparr>host = host sample_uri, port = 7, path = lit ''/a/x'', query = None\<rparr>
   \<and> resolved_path (path sample_uri) (lit ''../x'') = lit ''/a/x''"
proof -
  let ?v = "\<lparr>host = host sample_uri, port = 7, path = lit ''/a/x'', query = None\<rparr>"
  have r: "resolve roomy_runtime sample_uri (lit ''../x'') = Inr ?v"
    by (simp add: sample_uri_def uri_eval)
  have n: "\<not> starts_with (lit ''atp://'') (lit ''../x'')"
    by (simp add: lit_def)
  have t: "takeWhile (\<lambda>c. c \<noteq> QUERY) (lit ''../x'') = lit ''../x''"
    by (simp add: lit_def)
  show ?thesis
    using resolve_same_authority [OF r n, unfolded t] r by (simp add: sample_uri_def)
qed

end
