(* ===== verification/Origin.thy ===== *)
theory Origin
  imports Uri_Laws
begin

text \<open>
  \<open>protocol/origin.rs\<close>: the identity under which security-sensitive state is kept. An origin
  is a canonical host, a port and the security of the transport it was reached over; its
  storage key is a string, compared byte by byte without building it.
\<close>

section \<open>Definitions\<close>

datatype TransportSecurity = VerifiedTls | PinnedTls | InsecureTls | PlaintextLoopback

record Origin =
  o_host :: ustr
  o_port :: u16
  o_security :: TransportSecurity

text \<open>
  The \<open>idna\<close> crate is not part of the repository: its two entry points are parameters. The
  first reports whether it returned its input unchanged and borrowed.
\<close>

datatype cow = Borrowed ustr | Owned ustr

record idna =
  domain_to_ascii_cow :: "ustr \<Rightarrow> cow option"
  domain_to_ascii :: "ustr \<Rightarrow> ustr option"

fun security_label_of :: "TransportSecurity \<Rightarrow> ustr" where
  "security_label_of VerifiedTls = lit ''verified-tls''"
| "security_label_of PinnedTls = lit ''pinned-tls''"
| "security_label_of InsecureTls = lit ''insecure-tls''"
| "security_label_of PlaintextLoopback = lit ''plaintext-loopback''"

definition security_label :: "Origin \<Rightarrow> ustr" where
  "security_label o1 = security_label_of (o_security o1)"

definition storage_key_display :: "Origin \<Rightarrow> ustr" where
  "storage_key_display o1 =
     security_label o1 @ lit ''|'' @ o_host o1 @ lit '':'' @ show_nat (unat (o_port o1))"

definition storage_key :: "runtime \<Rightarrow> Origin \<Rightarrow> ustr presult" where
  "storage_key rt o1 =
     (let requested = saturating_add (saturating_add (saturating_add (saturating_add
                        (len (security_label o1)) 1) (len (o_host o1))) 1) 5
      in if try_reserve rt requested then Inr (storage_key_display o1)
         else Inl (ResourceExhausted requested))"

text \<open>
  The digits are written into a five-byte buffer from its end. \<open>None\<close> is the arithmetic
  overflow panic of \<open>start -= 1\<close> at zero; a write outside the buffer has no effect, as with
  \<open>get_mut\<close>.
\<close>

function write_decimal_loop :: "nat \<Rightarrow> nat \<Rightarrow> byte list \<Rightarrow> (nat \<times> byte list) option" where
  "write_decimal_loop value start digits =
     (if start = 0 then None
      else let start = start - 1;
               digits = digits[start := of_nat (48 + value mod 10)];
               value = value div 10
           in if value = 0 then Some (start, digits) else write_decimal_loop value start digits)"
  by pat_completeness auto
termination
  by (relation "measure (\<lambda>(value, _). value)") auto

declare write_decimal_loop.simps [simp del]

definition write_decimal_u16 :: "u16 \<Rightarrow> byte list \<Rightarrow> (nat \<times> byte list) option" where
  "write_decimal_u16 value digits = write_decimal_loop (unat value) (length digits) digits"

text \<open>The bytes of the storage key as the comparisons chain them.\<close>

definition key_bytes :: "Origin \<Rightarrow> byte list option" where
  "key_bytes o1 =
     map_option (\<lambda>(start, digits).
       utf8 (security_label o1) @ [124] @ utf8 (o_host o1) @ [58] @ drop start digits)
     (write_decimal_u16 (o_port o1) (replicate 5 0))"

definition matches_storage_key :: "Origin \<Rightarrow> ustr \<Rightarrow> bool option" where
  "matches_storage_key o1 key = map_option (\<lambda>bytes. bytes = utf8 key) (key_bytes o1)"

datatype ordering = Less | Equal | Greater

fun cmp_bytes :: "byte list \<Rightarrow> byte list \<Rightarrow> ordering" where
  "cmp_bytes [] [] = Equal"
| "cmp_bytes [] (_ # _) = Less"
| "cmp_bytes (_ # _) [] = Greater"
| "cmp_bytes (x # xs) (y # ys) = (if x < y then Less else if y < x then Greater else cmp_bytes xs ys)"

definition cmp_storage_key :: "Origin \<Rightarrow> Origin \<Rightarrow> ordering option" where
  "cmp_storage_key o1 o2 =
     (case (key_bytes o1, key_bytes o2) of (Some a, Some b) \<Rightarrow> Some (cmp_bytes a b) | _ \<Rightarrow> None)"

subsection \<open>Canonical hosts\<close>

definition unbracket :: "ustr \<Rightarrow> ustr" where
  "unbracket h = (case strip_prefix [91] h of None \<Rightarrow> h
     | Some v \<Rightarrow> (case strip_suffix_char 93 v of None \<Rightarrow> h | Some w \<Rightarrow> w))"

definition try_canonical_host :: "runtime \<Rightarrow> idna \<Rightarrow> ustr \<Rightarrow> ustr presult" where
  "try_canonical_host rt idna h =
     (let unbracketed = unbracket h in
      if \<not> is_ascii unbracketed \<or> len unbracketed > MAX_URI_LEN
      then Inl (InvalidUri (lit ''origin host must be a bounded ASCII name or IP literal''))
      else case parse_ip unbracketed of
        Some address \<Rightarrow>
          if try_reserve rt 64 then Inr (show_ip address) else Inl (ResourceExhausted 64)
      | None \<Rightarrow>
          let dns = trim_end_matches DOT unbracketed in
          if dns = [] then Inl (InvalidUri (lit ''missing DNS name''))
          else if \<not> try_reserve rt (len dns) then Inl (ResourceExhausted (len dns))
          else let canonical = lower dns in
            (case domain_to_ascii_cow idna canonical of
               Some (Borrowed validated) \<Rightarrow>
                 if validated = canonical then Inr canonical
                 else Inl (InvalidUri (lit ''invalid IDNA DNS name''))
             | _ \<Rightarrow> Inl (InvalidUri (lit ''invalid IDNA DNS name''))))"

definition canonical_host :: "idna \<Rightarrow> ustr \<Rightarrow> ustr presult" where
  "canonical_host idna h =
     (let unbracketed = unbracket h in
      case parse_ip unbracketed of
        Some address \<Rightarrow> Inr (show_ip address)
      | None \<Rightarrow>
          let dns = trim_end_matches DOT unbracketed in
          if dns = [] then Inl (InvalidUri (lit ''missing DNS name''))
          else ok_or (InvalidUri (lit ''invalid IDNA DNS name''))
                 (map_option lower (domain_to_ascii idna dns)))"

definition is_loopback_host :: "ustr \<Rightarrow> bool" where
  "is_loopback_host h \<longleftrightarrow> eq_ignore_ascii_case h (lit ''localhost'')
     \<or> (case parse_ip h of None \<Rightarrow> False | Some address \<Rightarrow> is_loopback address)"

definition from_canonical_host :: "AtpUri \<Rightarrow> TransportSecurity \<Rightarrow> ustr \<Rightarrow> Origin presult" where
  "from_canonical_host u security h =
     (if security = PlaintextLoopback \<and> \<not> is_loopback_host h
      then Inl (InvalidUri (lit ''plaintext ATP is restricted to loopback hosts''))
      else Inr \<lparr>o_host = h, o_port = port u, o_security = security\<rparr>)"

definition from_uri :: "runtime \<Rightarrow> idna \<Rightarrow> AtpUri \<Rightarrow> TransportSecurity \<Rightarrow> Origin presult" where
  "from_uri rt idna u security =
     and_then (if is_ascii (host u) then try_canonical_host rt idna (host u)
               else canonical_host idna (host u))
       (from_canonical_host u security)"

definition try_from_uri :: "runtime \<Rightarrow> idna \<Rightarrow> AtpUri \<Rightarrow> TransportSecurity \<Rightarrow> Origin presult" where
  "try_from_uri rt idna u security =
     and_then (try_canonical_host rt idna (host u)) (from_canonical_host u security)"

definition origin_try_clone :: "runtime \<Rightarrow> Origin \<Rightarrow> (unit, Origin) result" where
  "origin_try_clone rt o1 =
     (if try_reserve rt (len (o_host o1)) then Inr o1 else Inl ())"

section \<open>Writing the port\<close>

lemma write_decimal_loop:
  assumes "length (show_nat v) \<le> start" "start \<le> length ds"
  shows "\<exists>ds'. write_decimal_loop v start ds = Some (start - length (show_nat v), ds')
    \<and> length ds' = length ds
    \<and> drop (start - length (show_nat v)) ds' = map of_nat (show_nat v) @ drop start ds"
  using assms
proof (induction v start ds rule: write_decimal_loop.induct)
  case (1 v start ds)
  let ?d = "of_nat (48 + v mod 10) :: byte"
  let ?ds = "ds[start - 1 := ?d]"
  have pos: "start \<noteq> 0"
    using "1.prems"(1) by (cases "show_nat v") auto
  have drop1: "drop (start - 1) ?ds = ?d # drop start ds"
    using pos "1.prems"(2) Cons_nth_drop_Suc [of "start - 1" ds, symmetric]
    by (simp add: drop_update_swap)
  show ?case
  proof (cases "v div 10 = 0")
    case True
    then have "show_nat v = [48 + v mod 10]"
      by (subst show_nat.simps) auto
    with True pos drop1 show ?thesis
      by (subst write_decimal_loop.simps) (simp add: Let_def)
  next
    case False
    then have s: "show_nat v = show_nat (v div 10) @ [48 + v mod 10]"
      by (subst show_nat.simps) auto
    have "\<exists>ds'. write_decimal_loop (v div 10) (start - 1) ?ds
          = Some (start - 1 - length (show_nat (v div 10)), ds')
        \<and> length ds' = length ?ds
        \<and> drop (start - 1 - length (show_nat (v div 10))) ds'
          = map of_nat (show_nat (v div 10)) @ drop (start - 1) ?ds"
      using "1.prems" s False by (intro "1.IH" [OF pos refl refl refl]) auto
    with False pos drop1 s show ?thesis
      by (subst write_decimal_loop.simps) (simp add: Let_def)
  qed
qed

lemma length_show_nat: "n < 10 ^ k \<Longrightarrow> 0 < k \<Longrightarrow> length (show_nat n) \<le> k"
proof (induction k arbitrary: n)
  case (Suc k)
  show ?case
  proof (cases "n < 10")
    case True
    then show ?thesis by (subst show_nat.simps) simp
  next
    case False
    with Suc.prems have "0 < k" by (cases k) auto
    with Suc False show ?thesis by (subst show_nat.simps) auto
  qed
qed simp

lemma enc_ascii: "is_ascii s \<Longrightarrow> enc s = s"
  by (induction s) (simp_all add: is_ascii_def enc_char_def)

lemma utf8_ascii: "is_ascii s \<Longrightarrow> utf8 s = map of_nat s"
  by (simp add: utf8_def enc_ascii)

lemma write_decimal_u16_digits:
  "\<exists>start ds. write_decimal_u16 v (replicate 5 0) = Some (start, ds)
     \<and> drop start ds = utf8 (show_nat (unat v))"
proof -
  have "unat v < 2 ^ LENGTH(16)"
    by (rule unsigned_less)
  then have "length (show_nat (unat v)) \<le> 5"
    by (intro length_show_nat) simp_all
  then show ?thesis
    using write_decimal_loop [of "unat v" 5 "replicate 5 0"]
    by (auto simp: write_decimal_u16_def utf8_ascii show_nat_ascii)
qed

lemma key_bytes_eq: "key_bytes o1 = Some (utf8 (storage_key_display o1))"
proof -
  have "utf8 (lit ''|'') = [124]" "utf8 (lit '':'') = [58]"
    by (simp_all add: utf8_ascii is_ascii_def lit_def)
  then show ?thesis
    using write_decimal_u16_digits [of "o_port o1"]
    by (auto simp: key_bytes_def storage_key_display_def)
qed

section \<open>Storage keys identify origins\<close>

lemma security_label_of_inject [simp]: "security_label_of a = security_label_of b \<longleftrightarrow> a = b"
  by (cases a; cases b) simp_all

lemma label_no_bar: "124 \<notin> set (security_label_of a)"
  by (cases a) (simp_all add: lit_def)

lemma split_at_unique:
  assumes "c \<notin> set a" "c \<notin> set a'"
  shows "a @ c # b = a' @ c # b' \<longleftrightarrow> a = a' \<and> b = b'"
  using takeWhile_notin [OF assms(1), of b] takeWhile_notin [OF assms(2), of b'] by auto

lemma rsplit_at_unique:
  fixes c :: uchar
  assumes "c \<notin> set b" "c \<notin> set b'"
  shows "a @ c # b = a' @ c # b' \<longleftrightarrow> a = a' \<and> b = b'"
proof
  assume eq: "a @ c # b = a' @ c # b'"
  show "a = a' \<and> b = b'"
    using rsplit_once_char_append [OF assms(1), of a, unfolded eq]
      rsplit_once_char_append [OF assms(2), of a'] by simp
qed simp

lemma storage_key_display_inject [simp]: "storage_key_display a = storage_key_display b \<longleftrightarrow> a = b"
proof
  assume eq: "storage_key_display a = storage_key_display b"
  have nc: "58 \<notin> set (show_nat n)" for n
    using show_nat_no_space [of 58 n] by auto
  have "security_label a = security_label b \<and>
      o_host a @ 58 # show_nat (unat (o_port a)) = o_host b @ 58 # show_nat (unat (o_port b))"
    using eq label_no_bar split_at_unique [of 124 "security_label a" "security_label b"]
    by (simp add: storage_key_display_def security_label_def lit_def)
  then show "a = b"
    using rsplit_at_unique [OF nc nc]
    by (cases a; cases b) (simp add: security_label_def word_unat_eq_iff)
qed simp

definition wf_origin :: "Origin \<Rightarrow> bool" where
  "wf_origin o1 \<longleftrightarrow> valid_str (o_host o1)"

lemma valid_label: "valid_str (security_label_of a)"
  by (cases a) (simp_all add: lit_def is_scalar_def)

lemma valid_key: "wf_origin o1 \<Longrightarrow> valid_str (storage_key_display o1)"
  using valid_label valid_ascii [OF show_nat_ascii]
  by (simp add: wf_origin_def storage_key_display_def security_label_def)
    (simp add: lit_def is_scalar_def)

lemma cmp_bytes_Equal: "cmp_bytes a b = Equal \<longleftrightarrow> a = b"
  by (induction a b rule: cmp_bytes.induct) auto

fun flip_ordering :: "ordering \<Rightarrow> ordering" where
  "flip_ordering Less = Greater"
| "flip_ordering Equal = Equal"
| "flip_ordering Greater = Less"

lemma cmp_bytes_flip: "cmp_bytes b a = flip_ordering (cmp_bytes a b)"
  by (induction a b rule: cmp_bytes.induct) auto

lemma cmp_bytes_trans: "cmp_bytes a b = Less \<Longrightarrow> cmp_bytes b c = Less \<Longrightarrow> cmp_bytes a c = Less"
proof (induction a b arbitrary: c rule: cmp_bytes.induct)
  case (2 y ys)
  then show ?case by (cases c) simp_all
next
  case (4 x xs y ys)
  then show ?case by (cases c) (auto split: if_splits)
qed simp_all

text \<open>
  C30: the storage key identifies the origin: two origins have the same key only if host,
  port and transport security are all equal, so state stored under one security level is
  never found under another.
\<close>

theorem storage_key_identifies_origin:
  assumes "storage_key rt a = Inr k" "storage_key rt b = Inr k"
  shows "a = b"
proof -
  have "storage_key_display a = storage_key_display b"
    using assms by (auto simp: storage_key_def Let_def split: if_splits)
  then show ?thesis by (rule storage_key_display_inject [THEN iffD1])
qed

definition sample_origin :: Origin where
  "sample_origin = \<lparr>o_host = lit ''ex.org'', o_port = 7, o_security = PinnedTls\<rparr>"

theorem storage_key_identifies_origin_witness:
  "storage_key roomy_runtime sample_origin = Inr (lit ''pinned-tls|ex.org:7'')
   \<and> sample_origin = sample_origin"
proof -
  have k: "storage_key roomy_runtime sample_origin = Inr (lit ''pinned-tls|ex.org:7'')"
    by (simp add: storage_key_def storage_key_display_def security_label_def sample_origin_def
        lit_def show_nat.simps try_reserve_def saturating_add_def usize_max_def isize_max_def
        len_utf8_def Let_def)
  with storage_key_identifies_origin [OF k k] show ?thesis by simp
qed

text \<open>
  The two allocation-free comparisons agree with comparing the formatted keys: the
  digit buffer never overflows, a key matches exactly when it is the formatted one, and the
  order is that of the key bytes, equal only for equal origins.
\<close>

theorem key_comparisons_exact:
  assumes "wf_origin a" "wf_origin b" "valid_str key"
  shows "matches_storage_key a key = Some (key = storage_key_display a)
    \<and> cmp_storage_key a b = Some (cmp_bytes (utf8 (storage_key_display a)) (utf8 (storage_key_display b)))
    \<and> (cmp_storage_key a b = Some Equal \<longleftrightarrow> a = b)
    \<and> cmp_storage_key b a = map_option flip_ordering (cmp_storage_key a b)"
  using assms utf8_inject [OF valid_key [OF assms(1)] assms(3)]
    utf8_inject [OF valid_key [OF assms(1)] valid_key [OF assms(2)]]
    cmp_bytes_flip [of "utf8 (storage_key_display b)" "utf8 (storage_key_display a)"]
  by (auto simp: matches_storage_key_def cmp_storage_key_def key_bytes_eq cmp_bytes_Equal)

theorem key_comparisons_exact_witness:
  "matches_storage_key sample_origin (lit ''pinned-tls|ex.org:7'') = Some True
   \<and> cmp_storage_key sample_origin sample_origin = Some Equal"
proof -
  have w: "wf_origin sample_origin" "valid_str (lit ''pinned-tls|ex.org:7'')"
    by (simp_all add: wf_origin_def sample_origin_def is_scalar_def lit_def)
  have "lit ''pinned-tls|ex.org:7'' = storage_key_display sample_origin"
    by (simp add: storage_key_display_def security_label_def sample_origin_def lit_def
        show_nat.simps)
  with key_comparisons_exact [OF w(1,1,2)] show ?thesis by metis
qed

section \<open>Where origins come from\<close>

lemma from_canonical_host_Inr:
  "from_canonical_host u sec h = Inr o1 \<longleftrightarrow>
     (sec = PlaintextLoopback \<longrightarrow> is_loopback_host h)
     \<and> o1 = \<lparr>o_host = h, o_port = port u, o_security = sec\<rparr>"
  by (auto simp: from_canonical_host_def)

lemma trim_end_last:
  assumes "trim_end_matches c s \<noteq> []"
  shows "last (trim_end_matches c s) \<noteq> c"
proof -
  have "dropWhile (\<lambda>x. x = c) (rev s) \<noteq> []"
    using assms by (simp add: trim_end_matches_def)
  from hd_dropWhile [OF this] assms show ?thesis
    by (simp add: trim_end_matches_def last_rev)
qed

lemma last_lower: "s \<noteq> [] \<Longrightarrow> last (lower s) = to_ascii_lowercase (last s)"
  by (induction s) auto

lemma try_canonical_host_Inr:
  assumes "try_canonical_host rt idna h = Inr c"
  shows "(\<exists>address. parse_ip (unbracket h) = Some address \<and> c = show_ip address)
    \<or> (c \<noteq> [] \<and> lower c = c \<and> last c \<noteq> DOT \<and> domain_to_ascii_cow idna c = Some (Borrowed c))"
proof (cases "parse_ip (unbracket h)")
  case None
  then have "trim_end_matches DOT (unbracket h) \<noteq> []"
      "c = lower (trim_end_matches DOT (unbracket h))"
      "domain_to_ascii_cow idna c = Some (Borrowed c)"
    using assms
    by (auto simp: try_canonical_host_def Let_def split: if_splits option.splits cow.splits)
  then show ?thesis
    using trim_end_last [of DOT "unbracket h"] by (simp add: last_lower)
qed (use assms in \<open>auto simp: try_canonical_host_def Let_def split: if_splits\<close>)

text \<open>
  An origin derived from a URI carries the URI's port and exactly the security level
  of its transport; its host is the canonical text of an IP literal or a lower-case DNS
  name without a trailing dot that IDNA leaves unchanged; and the plaintext level exists
  only for loopback hosts.
\<close>

theorem origin_of_uri:
  assumes "try_from_uri rt idna u security = Inr o1"
  shows "o_port o1 = port u \<and> o_security o1 = security
    \<and> (security = PlaintextLoopback \<longrightarrow> is_loopback_host (o_host o1))
    \<and> ((\<exists>address. parse_ip (unbracket (host u)) = Some address \<and> o_host o1 = show_ip address)
       \<or> (lower (o_host o1) = o_host o1 \<and> last (o_host o1) \<noteq> DOT
          \<and> domain_to_ascii_cow idna (o_host o1) = Some (Borrowed (o_host o1))))"
proof -
  obtain c where c: "try_canonical_host rt idna (host u) = Inr c"
      "from_canonical_host u security c = Inr o1"
    using assms by (auto simp: try_from_uri_def result_simps)
  with try_canonical_host_Inr [OF c(1)] show ?thesis
    by (auto simp: from_canonical_host_Inr)
qed

text \<open>An IDNA mapping that leaves ASCII names as they are.\<close>

definition plain_idna :: idna where
  "plain_idna = \<lparr>domain_to_ascii_cow = (\<lambda>s. Some (Borrowed s)), domain_to_ascii = Some\<rparr>"

theorem origin_of_uri_witness:
  "try_from_uri roomy_runtime plain_idna sample_uri PinnedTls = Inr sample_origin
   \<and> o_port sample_origin = port sample_uri \<and> o_security sample_origin = PinnedTls"
proof -
  have "try_from_uri roomy_runtime plain_idna sample_uri PinnedTls = Inr sample_origin"
    by (simp add: try_from_uri_def try_canonical_host_def sample_uri_def sample_origin_def
        unbracket_def plain_idna_def trim_end_matches_def from_canonical_host_def ip_eval uri_eval)
  with origin_of_uri [OF this] show ?thesis by simp
qed

end
