(* ===== verification/Session.thy ===== *)
theory Session
  imports Origin
begin

text \<open>
  \<open>session.rs\<close>: path-scoped session tokens. A directive is parsed from and printed to a
  metadata line; the store keeps at most \<open>MAX_SESSIONS_PER_SITE\<close> tokens per origin and
  \<open>MAX_TOTAL_SESSIONS\<close> in all, and finds the most specific live token for a path. The clock
  is an argument.
\<close>

section \<open>Limits and data\<close>

definition MAX_SESSIONS_PER_SITE :: nat where "MAX_SESSIONS_PER_SITE = 8"
definition MAX_TOTAL_SESSIONS :: nat where "MAX_TOTAL_SESSIONS = 256"
definition MAX_TOKEN_LEN :: nat where "MAX_TOKEN_LEN = 4096"
definition MAX_SCOPE_LEN :: nat where "MAX_SCOPE_LEN = 1024"

record SessionToken =
  tok_token :: ustr
  tok_scope :: ustr
  tok_expires :: "u64 option"

datatype SessionDirective =
    SetSession (d_token: ustr) (d_scope: ustr) (d_expires: "u64 option")
  | ClearSession (d_scope: ustr)

record SiteSessionStore =
  tokens :: "SessionToken list"

record SessionStore =
  sites :: "(Origin \<times> SiteSessionStore) list"

section \<open>Directives\<close>

definition valid_scope :: "ustr \<Rightarrow> bool" where
  "valid_scope scope \<longleftrightarrow> scope \<noteq> [] \<and> len scope \<le> MAX_SCOPE_LEN \<and> starts_with [SLASH] scope
     \<and> \<not> list_ex is_control scope \<and> \<not> list_ex (\<lambda>c. c \<in> {QUERY, HASH}) scope
     \<and> \<not> list_ex (\<lambda>segment. segment = lit ''.'' \<or> segment = lit ''..'') (split_char SLASH scope)"

fun decimal_len :: "nat \<Rightarrow> nat" where
  "decimal_len value = (if value \<ge> 10 then Suc (decimal_len (value div 10)) else 1)"

declare decimal_len.simps [simp del]

definition try_reserve_directive :: "runtime \<Rightarrow> nat \<Rightarrow> unit presult" where
  "try_reserve_directive rt requested = ensure (ResourceExhausted requested) (try_reserve rt requested)"

definition try_copy_string :: "runtime \<Rightarrow> ustr \<Rightarrow> ustr presult" where
  "try_copy_string rt value = map_ok (\<lambda>_. value) (try_reserve_directive rt (len value))"

definition directive_serialize :: "runtime \<Rightarrow> SessionDirective \<Rightarrow> ustr presult" where
  "directive_serialize rt d =
     (case d of
        SetSession token scope expires \<Rightarrow>
          if token = [] \<or> len token > MAX_TOKEN_LEN \<or> \<not> valid_scope scope
          then Inl (InvalidMessage (lit ''invalid session directive''))
          else
            let requested = 15 + len token + len scope +
                  (case expires of None \<Rightarrow> 0 | Some value \<Rightarrow> 1 + decimal_len (unat value))
            in and_then (try_reserve_directive rt requested) (\<lambda>_.
               Inr (lit ''Set-Session: '' @ token @ lit '' '' @ scope @
                    (case expires of None \<Rightarrow> [] | Some value \<Rightarrow> lit '' '' @ show_nat (unat value)) @
                    [LF]))
      | ClearSession scope \<Rightarrow>
          if \<not> valid_scope scope then Inl (InvalidMessage (lit ''invalid session directive''))
          else and_then (try_reserve_directive rt (16 + len scope)) (\<lambda>_.
               Inr (lit ''Clear-Session: '' @ scope @ [LF])))"

definition parse_u64 :: "ustr \<Rightarrow> u64 option" where
  "parse_u64 s = map_option of_nat (parse_uint (2 ^ 64 - 1) s)"

definition parse_set :: "runtime \<Rightarrow> ustr \<Rightarrow> SessionDirective option presult" where
  "parse_set rt value =
     (case splitn_char 3 32 value of
        [] \<Rightarrow> Inr None
      | token # parts \<Rightarrow>
          let scope = (case parts of [] \<Rightarrow> lit ''/'' | s # _ \<Rightarrow> s);
              expires = (case parts of _ # e # _ \<Rightarrow> parse_u64 e | _ \<Rightarrow> None)
          in if token = [] \<or> len token > MAX_TOKEN_LEN \<or> \<not> valid_scope scope then Inr None
             else and_then (try_copy_string rt token) (\<lambda>token.
                  and_then (try_copy_string rt scope) (\<lambda>scope.
                  Inr (Some (SetSession token scope expires)))))"

definition parse_clear :: "runtime \<Rightarrow> ustr \<Rightarrow> SessionDirective option presult" where
  "parse_clear rt value =
     (let scope = trim value in
      if \<not> valid_scope scope then Inr None
      else map_ok (\<lambda>scope. Some (ClearSession scope)) (try_copy_string rt scope))"

section \<open>One site\<close>

definition scope_matches :: "ustr \<Rightarrow> ustr \<Rightarrow> bool" where
  "scope_matches scope p \<longleftrightarrow>
     (if scope = lit ''/'' \<or> p = scope then True
      else case strip_prefix scope p of None \<Rightarrow> False
           | Some rest \<Rightarrow> ends_with_char SLASH scope \<or> starts_with [SLASH] rest)"

text \<open>\<open>Iterator::max_by_key\<close>: the last of the elements with the largest key.\<close>

fun max_by_key :: "('a \<Rightarrow> nat) \<Rightarrow> 'a list \<Rightarrow> 'a option" where
  "max_by_key k [] = None"
| "max_by_key k (x # xs) =
     (case max_by_key k xs of None \<Rightarrow> Some x | Some y \<Rightarrow> if k x > k y then Some x else Some y)"

definition unexpired :: "u64 \<Rightarrow> SessionToken \<Rightarrow> bool" where
  "unexpired now t \<longleftrightarrow> (case tok_expires t of None \<Rightarrow> True | Some expires \<Rightarrow> expires > now)"

definition site_find_token :: "u64 \<Rightarrow> SiteSessionStore \<Rightarrow> ustr \<Rightarrow> SessionToken option" where
  "site_find_token now site p =
     max_by_key (\<lambda>t. len (tok_scope t))
       (filter (unexpired now) (filter (\<lambda>t. scope_matches (tok_scope t) p) (tokens site)))"

text \<open>Replace the first element that satisfies a predicate (\<open>iter_mut().find\<close>).\<close>

fun update_first :: "('a \<Rightarrow> bool) \<Rightarrow> ('a \<Rightarrow> 'a) \<Rightarrow> 'a list \<Rightarrow> 'a list" where
  "update_first P f [] = []"
| "update_first P f (x # xs) = (if P x then f x # xs else x # update_first P f xs)"

definition try_set_token :: "runtime \<Rightarrow> SiteSessionStore \<Rightarrow> SessionToken \<Rightarrow> SiteSessionStore option" where
  "try_set_token rt site token =
     (if list_ex (\<lambda>e. tok_scope e = tok_scope token) (tokens site)
      then Some (site\<lparr>tokens := update_first (\<lambda>e. tok_scope e = tok_scope token) (\<lambda>_. token) (tokens site)\<rparr>)
      else if length (tokens site) \<ge> MAX_SESSIONS_PER_SITE
      then Some (site\<lparr>tokens := tl (tokens site) @ [token]\<rparr>)
      else if grows rt (length (tokens site)) then Some (site\<lparr>tokens := tokens site @ [token]\<rparr>)
      else None)"

definition set_token :: "runtime \<Rightarrow> SiteSessionStore \<Rightarrow> SessionToken \<Rightarrow> bool \<times> SiteSessionStore" where
  "set_token rt site token =
     (case try_set_token rt site token of None \<Rightarrow> (False, site) | Some site' \<Rightarrow> (True, site'))"

definition clear_scope :: "SiteSessionStore \<Rightarrow> ustr \<Rightarrow> SiteSessionStore" where
  "clear_scope site scope = site\<lparr>tokens := filter (\<lambda>t. tok_scope t \<noteq> scope) (tokens site)\<rparr>"

definition site_clear_all :: "SiteSessionStore \<Rightarrow> SiteSessionStore" where
  "site_clear_all site = site\<lparr>tokens := []\<rparr>"

definition site_is_empty :: "SiteSessionStore \<Rightarrow> bool" where
  "site_is_empty site \<longleftrightarrow> tokens site = []"

definition try_clone_token :: "runtime \<Rightarrow> ustr \<Rightarrow> ustr \<Rightarrow> u64 option \<Rightarrow> SessionToken option" where
  "try_clone_token rt token scope expires =
     (if \<not> try_reserve rt (len token) then None
      else if \<not> try_reserve rt (len scope) then None
      else Some \<lparr>tok_token = token, tok_scope = scope, tok_expires = expires\<rparr>)"

fun clone_tokens :: "runtime \<Rightarrow> SessionToken list \<Rightarrow> SessionToken list option" where
  "clone_tokens rt [] = Some []"
| "clone_tokens rt (t # ts) =
     (case try_clone_token rt (tok_token t) (tok_scope t) (tok_expires t) of None \<Rightarrow> None
      | Some c \<Rightarrow> map_option (Cons c) (clone_tokens rt ts))"

definition site_try_clone :: "runtime \<Rightarrow> SiteSessionStore \<Rightarrow> SiteSessionStore option" where
  "site_try_clone rt site =
     (if \<not> try_reserve rt (length (tokens site) * size_of rt ''SessionToken'') then None
      else map_option (\<lambda>ts. \<lparr>tokens = ts\<rparr>) (clone_tokens rt (tokens site)))"

section \<open>All sites\<close>

definition new_store :: SessionStore where
  "new_store = \<lparr>sites = []\<rparr>"

definition find_site :: "SessionStore \<Rightarrow> Origin \<Rightarrow> SiteSessionStore option" where
  "find_site st origin = map_option snd (List.find (\<lambda>(candidate, _). candidate = origin) (sites st))"

definition find_token :: "u64 \<Rightarrow> SessionStore \<Rightarrow> Origin \<Rightarrow> ustr \<Rightarrow> SessionToken option" where
  "find_token now st origin p =
     (case find_site st origin of None \<Rightarrow> None | Some site \<Rightarrow> site_find_token now site p)"

definition total_count :: "SessionStore \<Rightarrow> nat" where
  "total_count st = sum_list (map (\<lambda>(_, site). length (tokens site)) (sites st))"

text \<open>The result of the call, and the store after it.\<close>

definition apply_directive ::
  "runtime \<Rightarrow> SessionStore \<Rightarrow> Origin \<Rightarrow> SessionDirective \<Rightarrow> bool \<times> SessionStore" where
  "apply_directive rt st origin directive =
     (case directive of
        SetSession token scope expires \<Rightarrow>
          let existing = find_site st origin;
              is_replacement = (case existing of None \<Rightarrow> False
                 | Some site \<Rightarrow> list_ex (\<lambda>e. tok_scope e = scope) (tokens site));
              evicts_at_site_bound = (case existing of None \<Rightarrow> False
                 | Some site \<Rightarrow> length (tokens site) \<ge> MAX_SESSIONS_PER_SITE)
          in
          if \<not> is_replacement \<and> \<not> evicts_at_site_bound \<and> total_count st \<ge> MAX_TOTAL_SESSIONS
          then (False, st)
          else (case try_clone_token rt token scope expires of
             None \<Rightarrow> (False, st)
           | Some candidate \<Rightarrow>
               (case existing of
                  Some site \<Rightarrow>
                    (case try_set_token rt site candidate of
                       None \<Rightarrow> (False, st)
                     | Some site' \<Rightarrow>
                         (True, st\<lparr>sites := update_first (\<lambda>(c, _). c = origin)
                                              (\<lambda>(c, _). (c, site')) (sites st)\<rparr>))
                | None \<Rightarrow>
                    if \<not> is_ok (origin_try_clone rt origin) then (False, st)
                    else (case try_set_token rt \<lparr>tokens = []\<rparr> candidate of
                       None \<Rightarrow> (False, st)
                     | Some site' \<Rightarrow>
                         if \<not> grows rt (length (sites st)) then (False, st)
                         else (True, st\<lparr>sites := sites st @ [(origin, site')]\<rparr>))))
      | ClearSession scope \<Rightarrow>
          let cleared = update_first (\<lambda>(c, _). c = origin)
                          (\<lambda>(c, site). (c, clear_scope site scope)) (sites st)
          in (True, st\<lparr>sites := filter (\<lambda>(c, site). c \<noteq> origin \<or> \<not> site_is_empty site) cleared\<rparr>))"

definition clear_origin :: "SessionStore \<Rightarrow> Origin \<Rightarrow> SessionStore" where
  "clear_origin st origin = st\<lparr>sites := filter (\<lambda>(c, _). c \<noteq> origin) (sites st)\<rparr>"

definition clear_storage_key :: "SessionStore \<Rightarrow> ustr \<Rightarrow> SessionStore" where
  "clear_storage_key st key =
     st\<lparr>sites := filter (\<lambda>(c, _). matches_storage_key c key \<noteq> Some True) (sites st)\<rparr>"

definition store_clear_all :: "SessionStore \<Rightarrow> SessionStore" where
  "store_clear_all st = st\<lparr>sites := []\<rparr>"

fun clone_sites ::
  "runtime \<Rightarrow> (Origin \<times> SiteSessionStore) list \<Rightarrow> (Origin \<times> SiteSessionStore) list option" where
  "clone_sites rt [] = Some []"
| "clone_sites rt ((origin, site) # rest) =
     (case origin_try_clone rt origin of Inl _ \<Rightarrow> None
      | Inr o' \<Rightarrow> (case site_try_clone rt site of None \<Rightarrow> None
        | Some site' \<Rightarrow> map_option (Cons (o', site')) (clone_sites rt rest)))"

definition store_try_clone :: "runtime \<Rightarrow> SessionStore \<Rightarrow> SessionStore option" where
  "store_try_clone rt st =
     (if \<not> try_reserve rt (length (sites st) * size_of rt ''(Origin, SiteSessionStore)'') then None
      else map_option (\<lambda>ss. \<lparr>sites = ss\<rparr>) (clone_sites rt (sites st)))"

end
