(* ===== verification/Session_Laws.thy ===== *)
theory Session_Laws
  imports Session
begin

text \<open>
  The session store seen from outside: the tokens it holds for each origin. Every operation
  refines a step on that view; the laws that security rests on (isolation of origins,
  provenance of tokens, clearing) are stated once in a locale and proved for whole runs.
\<close>

section \<open>The view of the store\<close>

definition site_tokens :: "SessionStore \<Rightarrow> Origin \<Rightarrow> SessionToken list" where
  "site_tokens st origin = (case find_site st origin of None \<Rightarrow> [] | Some site \<Rightarrow> tokens site)"

definition good_site :: "SiteSessionStore \<Rightarrow> bool" where
  "good_site site \<longleftrightarrow> tokens site \<noteq> [] \<and> length (tokens site) \<le> MAX_SESSIONS_PER_SITE
     \<and> distinct (map tok_scope (tokens site))"

definition store_inv :: "SessionStore \<Rightarrow> bool" where
  "store_inv st \<longleftrightarrow> distinct (map fst (sites st)) \<and> list_all (\<lambda>(_, site). good_site site) (sites st)
     \<and> total_count st \<le> MAX_TOTAL_SESSIONS"

text \<open>What a directive does to the tokens of its origin: the specification.\<close>

definition put_token :: "SessionToken \<Rightarrow> SessionToken list \<Rightarrow> SessionToken list" where
  "put_token t ts =
     (if \<exists>e \<in> set ts. tok_scope e = tok_scope t
      then map (\<lambda>e. if tok_scope e = tok_scope t then t else e) ts
      else if length ts \<ge> MAX_SESSIONS_PER_SITE then tl ts @ [t] else ts @ [t])"

fun after :: "SessionDirective \<Rightarrow> SessionToken list \<Rightarrow> SessionToken list" where
  "after (SetSession token scope expires) ts =
     put_token \<lparr>tok_token = token, tok_scope = scope, tok_expires = expires\<rparr> ts"
| "after (ClearSession scope) ts = filter (\<lambda>t. tok_scope t \<noteq> scope) ts"

subsection \<open>Lists of sites\<close>

lemma find_update_first:
  "List.find (\<lambda>(c, _). c = o') (update_first (\<lambda>(c, _). c = o1) (\<lambda>(c, s). (c, f s)) xs) =
     (if o' = o1 then map_option (\<lambda>(c, s). (c, f s)) (List.find (\<lambda>(c, _). c = o1) xs)
      else List.find (\<lambda>(c, _). c = o') xs)"
  by (induction xs) auto

lemma map_fst_update_first:
  "map fst (update_first (\<lambda>(c, _). c = o1) (\<lambda>(c, s). (c, f s)) xs) = map fst xs"
  by (induction xs) auto

lemma find_None_fst: "List.find (\<lambda>(c, _). c = o1) xs = None \<longleftrightarrow> o1 \<notin> fst ` set xs"
  by (induction xs) auto

lemma find_Some_distinct:
  "distinct (map fst xs) \<Longrightarrow> List.find (\<lambda>(c, _). c = o1) xs = Some p \<longleftrightarrow> p \<in> set xs \<and> fst p = o1"
proof (induction xs)
  case (Cons a xs)
  have "p \<in> set xs \<Longrightarrow> fst p \<noteq> fst a"
    using Cons.prems by (metis distinct.simps(2) image_eqI list.simps(9) list.set_map)
  with Cons show ?case by (cases a) auto
qed simp

lemma find_filter_distinct:
  assumes "distinct (map fst xs)"
  shows "List.find (\<lambda>(c, _). c = o1) (filter P xs) =
    (case List.find (\<lambda>(c, _). c = o1) xs of None \<Rightarrow> None | Some p \<Rightarrow> if P p then Some p else None)"
  using assms
proof (induction xs)
  case (Cons a xs)
  have "fst a \<notin> fst ` set (filter P xs)"
    using Cons.prems by auto
  then have "List.find (\<lambda>(c, _). c = fst a) (filter P xs) = None"
    by (simp only: find_None_fst not_False_eq_True)
  with Cons show ?case by (cases a) auto
qed simp

lemma find_site_Some:
  "distinct (map fst (sites st)) \<Longrightarrow> find_site st o1 = Some site \<longleftrightarrow> (o1, site) \<in> set (sites st)"
  using find_Some_distinct [of "sites st" o1] by (force simp: find_site_def)

lemma find_site_None: "find_site st o1 = None \<longleftrightarrow> o1 \<notin> fst ` set (sites st)"
  by (simp add: find_site_def find_None_fst)

lemma find_site_good:
  "store_inv st \<Longrightarrow> find_site st o1 = Some site \<Longrightarrow> good_site site"
  using find_site_Some [of st o1 site] by (auto simp: store_inv_def list_all_iff)

lemma update_first_map:
  "distinct (map tok_scope ts) \<Longrightarrow>
   update_first (\<lambda>e. tok_scope e = s) (\<lambda>_. t) ts = map (\<lambda>e. if tok_scope e = s then t else e) ts"
proof (induction ts)
  case (Cons e ts)
  have "tok_scope e = s \<Longrightarrow> map (\<lambda>e. if tok_scope e = s then t else e) ts = ts"
    using Cons.prems by (auto intro!: map_idI simp: image_iff)
  with Cons show ?case by simp
qed simp

lemma try_set_token_put:
  assumes "try_set_token rt site t = Some site'" "distinct (map tok_scope (tokens site))"
  shows "tokens site' = put_token t (tokens site)"
  using assms by (auto simp: try_set_token_def put_token_def update_first_map list_ex_iff split: if_splits)

lemma set_tl: "e \<in> set (tl xs) \<Longrightarrow> e \<in> set xs"
  by (cases xs) auto

lemma put_token_scopes:
  assumes "distinct (map tok_scope ts)"
  shows "distinct (map tok_scope (put_token t ts))" "t \<in> set (put_token t ts)"
    "e \<in> set (put_token t ts) \<Longrightarrow> e = t \<or> e \<in> set ts" "put_token t ts \<noteq> []"
proof -
  have scopes: "map tok_scope (map (\<lambda>e. if tok_scope e = tok_scope t then t else e) ts) = map tok_scope ts"
    by simp
  show "distinct (map tok_scope (put_token t ts))"
  proof (cases "\<exists>e \<in> set ts. tok_scope e = tok_scope t")
    case True
    with assms show ?thesis by (simp add: put_token_def scopes del: map_map)
  next
    case False
    then have "tok_scope t \<notin> tok_scope ` set ts" "tok_scope t \<notin> tok_scope ` set (tl ts)"
      using set_tl by fastforce+
    moreover have "distinct (map tok_scope (tl ts))"
      using assms by (simp add: map_tl distinct_tl)
    ultimately show ?thesis
      using False assms by (auto simp: put_token_def)
  qed
  show "t \<in> set (put_token t ts)" "put_token t ts \<noteq> []"
    by (auto simp: put_token_def image_iff)
  show "e \<in> set (put_token t ts) \<Longrightarrow> e = t \<or> e \<in> set ts"
    by (auto simp: put_token_def split: if_splits dest: set_tl)
qed

lemma length_put_token:
  "length (put_token t ts) =
     (if (\<exists>e \<in> set ts. tok_scope e = tok_scope t) \<or> MAX_SESSIONS_PER_SITE \<le> length ts
      then length ts else Suc (length ts))"
  by (auto simp: put_token_def MAX_SESSIONS_PER_SITE_def)

subsection \<open>Every directive refines its step on the view\<close>

lemma find_append:
  "List.find P (xs @ ys) = (case List.find P xs of None \<Rightarrow> List.find P ys | Some x \<Rightarrow> Some x)"
  by (induction xs) auto

lemma site_tokens_update:
  "site_tokens (st\<lparr>sites := update_first (\<lambda>(c, _). c = o1) (\<lambda>(c, s). (c, f s)) (sites st)\<rparr>) =
     (site_tokens st)(o1 := case find_site st o1 of None \<Rightarrow> [] | Some site \<Rightarrow> tokens (f site))"
  by (rule ext) (auto simp: site_tokens_def find_site_def find_update_first split: option.splits)

lemma site_tokens_append:
  "find_site st o1 = None \<Longrightarrow>
   site_tokens (st\<lparr>sites := sites st @ [(o1, site)]\<rparr>) = (site_tokens st)(o1 := tokens site)"
  by (rule ext) (auto simp: site_tokens_def find_site_def find_append split: option.splits)

lemma apply_set_cases:
  assumes "apply_directive rt st o1 (SetSession token scope expires) = (True, st')"
  obtains (old) site site' where "find_site st o1 = Some site"
      "try_set_token rt site \<lparr>tok_token = token, tok_scope = scope, tok_expires = expires\<rparr> = Some site'"
      "st' = st\<lparr>sites := update_first (\<lambda>(c, _). c = o1) (\<lambda>(c, _). (c, site')) (sites st)\<rparr>"
      "total_count st < MAX_TOTAL_SESSIONS \<or> (\<exists>e \<in> set (tokens site). tok_scope e = scope)
        \<or> MAX_SESSIONS_PER_SITE \<le> length (tokens site)"
    | (new) site' where "find_site st o1 = None"
      "try_set_token rt \<lparr>tokens = []\<rparr> \<lparr>tok_token = token, tok_scope = scope, tok_expires = expires\<rparr> = Some site'"
      "st' = st\<lparr>sites := sites st @ [(o1, site')]\<rparr>" "total_count st < MAX_TOTAL_SESSIONS"
  using assms
  by (auto simp: apply_directive_def Let_def try_clone_token_def list_ex_iff
      split: if_splits option.splits)

lemma apply_rejected: "apply_directive rt st o1 d = (False, st') \<Longrightarrow> st' = st"
  by (cases d) (auto simp: apply_directive_def Let_def split: if_splits option.splits)

lemma apply_refines:
  assumes "store_inv st" "apply_directive rt st o1 d = (True, st')"
  shows "site_tokens st' = (site_tokens st)(o1 := after d (site_tokens st o1))"
proof (cases d)
  case (SetSession token scope expires)
  from assms(2) [unfolded SetSession] show ?thesis
  proof (cases rule: apply_set_cases)
    case (old site site')
    then have "tokens site' = put_token \<lparr>tok_token = token, tok_scope = scope, tok_expires = expires\<rparr> (tokens site)"
      using try_set_token_put find_site_good [OF assms(1)] by (auto simp: good_site_def)
    with old(1,3) SetSession site_tokens_update [where st = st and ?o1.0 = o1 and f = "\<lambda>_. site'"] show ?thesis
      by (simp add: site_tokens_def [of st o1])
  next
    case (new site')
    then have "tokens site' = put_token \<lparr>tok_token = token, tok_scope = scope, tok_expires = expires\<rparr> []"
      using try_set_token_put by fastforce
    with new SetSession show ?thesis
      by (simp add: site_tokens_append) (simp add: site_tokens_def)
  qed
next
  case (ClearSession scope)
  let ?up = "update_first (\<lambda>(c, _). c = o1) (\<lambda>(c, site). (c, clear_scope site scope)) (sites st)"
  have d: "distinct (map fst ?up)"
    using assms(1) by (simp add: store_inv_def map_fst_update_first)
  have st': "sites st' = filter (\<lambda>(c, site). c \<noteq> o1 \<or> \<not> site_is_empty site) ?up"
    using assms(2) by (auto simp: apply_directive_def ClearSession Let_def)
  have "site_tokens st' o' = ((site_tokens st)(o1 := after d (site_tokens st o1))) o'" for o'
    unfolding site_tokens_def find_site_def st' find_filter_distinct [OF d] find_update_first
    by (auto simp: ClearSession clear_scope_def site_is_empty_def split: option.splits)
  then show ?thesis by blast
qed

subsection \<open>The invariant\<close>

lemma total_update_first:
  assumes "distinct (map fst xs)" "(o1, site) \<in> set xs"
  shows "sum_list (map (\<lambda>(_, s). length (tokens s))
      (update_first (\<lambda>(c, _). c = o1) (\<lambda>(c, _). (c, site')) xs)) + length (tokens site) =
    sum_list (map (\<lambda>(_, s). length (tokens s)) xs) + length (tokens site')"
  using assms
proof (induction xs)
  case (Cons a xs)
  show ?case
  proof (cases "fst a = o1")
    case True
    with Cons.prems have "a = (o1, site)"
      by (auto simp: image_iff)
    then show ?thesis by simp
  next
    case False
    with Cons show ?thesis by (cases a) auto
  qed
qed simp

lemma set_update_first:
  "p \<in> set (update_first P f xs) \<Longrightarrow> p \<in> set xs \<or> (\<exists>x \<in> set xs. P x \<and> p = f x)"
  by (induction xs) (auto split: if_splits)

lemma try_set_token_good:
  assumes "try_set_token rt site t = Some site'" "good_site site \<or> tokens site = []"
  shows "good_site site'"
proof -
  have "tokens site' = put_token t (tokens site)" "distinct (map tok_scope (tokens site))"
    "length (tokens site) \<le> MAX_SESSIONS_PER_SITE"
    using assms try_set_token_put [OF assms(1)] by (auto simp: good_site_def)
  then show ?thesis
    using put_token_scopes(1,4) [of "tokens site" t] length_put_token [of t "tokens site"]
    by (auto simp: good_site_def split: if_splits)
qed

lemma store_inv_new: "store_inv new_store"
  by (simp add: store_inv_def new_store_def total_count_def)

lemma apply_inv:
  assumes "store_inv st" "apply_directive rt st o1 d = (b, st')"
  shows "store_inv st'"
proof (cases b)
  case False
  with assms apply_rejected show ?thesis by metis
next
  case True
  then have ok: "apply_directive rt st o1 d = (True, st')"
    using assms(2) by simp
  have inv: "distinct (map fst (sites st))" "list_all (\<lambda>(_, site). good_site site) (sites st)"
    "total_count st \<le> MAX_TOTAL_SESSIONS"
    using assms(1) by (auto simp: store_inv_def)
  show ?thesis
  proof (cases d)
    case (SetSession token scope expires)
    from ok [unfolded SetSession] show ?thesis
    proof (cases rule: apply_set_cases)
      case (old site site')
      let ?up = "update_first (\<lambda>(c, _). c = o1) (\<lambda>(c, _). (c, site')) (sites st)"
      have mem: "(o1, site) \<in> set (sites st)"
        using old(1) find_site_Some [OF inv(1)] by simp
      have good: "good_site site" "good_site site'"
        using find_site_good [OF assms(1) old(1)] try_set_token_good [OF old(2)] by auto
      have "tokens site' = put_token \<lparr>tok_token = token, tok_scope = scope, tok_expires = expires\<rparr> (tokens site)"
        using try_set_token_put [OF old(2)] good(1) by (simp add: good_site_def)
      then have len: "length (tokens site') \<le> Suc (length (tokens site))"
        "total_count st < MAX_TOTAL_SESSIONS \<or> length (tokens site') = length (tokens site)"
        using old(4) by (auto simp: length_put_token)
      have "total_count st' + length (tokens site) = total_count st + length (tokens site')"
        using total_update_first [OF inv(1) mem, of site'] by (simp add: old(3) total_count_def)
      then have "total_count st' \<le> MAX_TOTAL_SESSIONS"
        using len inv(3) by auto
      moreover have "list_all (\<lambda>(_, site). good_site site) ?up"
        using inv(2) good(2) by (fastforce simp: list_all_iff dest!: set_update_first)
      moreover have "distinct (map fst ?up)"
        using inv(1) map_fst_update_first [of o1 "\<lambda>_. site'" "sites st"] by simp
      ultimately show ?thesis
        by (simp add: store_inv_def old(3))
    next
      case (new site')
      have "good_site site'"
        using try_set_token_good [OF new(2)] by simp
      moreover have "length (tokens site') = 1"
        using try_set_token_put [OF new(2)] by (simp add: put_token_def MAX_SESSIONS_PER_SITE_def)
      ultimately show ?thesis
        using inv new(1,4)
        by (simp add: store_inv_def new(3) total_count_def find_site_None)
    qed
  next
    case (ClearSession scope)
    let ?up = "update_first (\<lambda>(c, _). c = o1) (\<lambda>(c, site). (c, clear_scope site scope)) (sites st)"
    let ?kept = "filter (\<lambda>(c, site). c \<noteq> o1 \<or> \<not> site_is_empty site) ?up"
    have st': "sites st' = ?kept"
      using ok by (auto simp: apply_directive_def ClearSession Let_def)
    have le: "sum_list (map (\<lambda>(_, s). length (tokens s)) (update_first (\<lambda>(c, _). c = o1)
        (\<lambda>(c, site). (c, clear_scope site scope)) xs)) \<le>
        sum_list (map (\<lambda>(_, s). length (tokens s)) xs)" for xs
      by (induction xs) (auto simp: clear_scope_def)
    have "total_count st' \<le> MAX_TOTAL_SESSIONS"
      using inv(3) le [of "sites st"]
        sum_list_map_filter_le [of "\<lambda>(_, s). length (tokens s)" _ ?up]
      unfolding total_count_def st' by (meson order_trans)
    moreover have "distinct (map fst ?kept)"
      using inv(1) map_fst_update_first [of o1 "\<lambda>site. clear_scope site scope" "sites st"]
      by (intro distinct_map_filter_fst) simp
    moreover have "list_all (\<lambda>(_, site). good_site site) ?kept"
    proof -
      have "good_site (clear_scope site scope)"
        if "(c, site) \<in> set (sites st)" "\<not> site_is_empty (clear_scope site scope)" for c site
        using that inv(2)
        by (fastforce simp: list_all_iff good_site_def clear_scope_def site_is_empty_def
            distinct_map_filter intro: order_trans [OF length_filter_le])
      then show ?thesis
        using inv(2) by (fastforce simp: list_all_iff dest!: set_update_first)
    qed
    ultimately show ?thesis
      by (simp add: store_inv_def st')
  qed
qed

section \<open>Runs\<close>

text \<open>Everything that changes the store: directives from servers, and the local user's clearing.\<close>

datatype session_event =
    Directive Origin SessionDirective
  | ClearOrigin Origin
  | ClearKey ustr
  | ClearAll

fun session_step :: "runtime \<Rightarrow> SessionStore \<Rightarrow> session_event \<Rightarrow> SessionStore" where
  "session_step rt st (Directive o1 d) = snd (apply_directive rt st o1 d)"
| "session_step rt st (ClearOrigin o1) = clear_origin st o1"
| "session_step rt st (ClearKey k) = clear_storage_key st k"
| "session_step rt st ClearAll = store_clear_all st"

definition session_run :: "runtime \<Rightarrow> SessionStore \<Rightarrow> session_event list \<Rightarrow> SessionStore" where
  "session_run rt st es = foldl (session_step rt) st es"

text \<open>
  The contract of a store of tokens kept per owner: steps keep the invariant, a token for an
  owner comes only from an event that issues it to that owner, a revoking event leaves no
  token of the revoked scope, and events of other owners leave the tokens alone.
\<close>

locale token_store =
  fixes step :: "'st \<Rightarrow> 'e \<Rightarrow> 'st"
    and view :: "'st \<Rightarrow> 'own \<Rightarrow> 't list"
    and inv :: "'st \<Rightarrow> bool"
    and issues :: "'e \<Rightarrow> 'own \<Rightarrow> 't \<Rightarrow> bool"
    and touches :: "'e \<Rightarrow> 'own \<Rightarrow> bool"
    and scope_of :: "'t \<Rightarrow> 'sc"
    and revokes :: "'e \<Rightarrow> 'own \<Rightarrow> 'sc \<Rightarrow> bool"
  assumes inv_step: "inv st \<Longrightarrow> inv (step st e)"
    and provenance: "inv st \<Longrightarrow> t \<in> set (view (step st e) own) \<Longrightarrow> t \<in> set (view st own) \<or> issues e own t"
    and revoked: "inv st \<Longrightarrow> revokes e own sc \<Longrightarrow> t \<in> set (view (step st e) own) \<Longrightarrow> scope_of t \<noteq> sc"
    and isolated: "inv st \<Longrightarrow> \<not> touches e own \<Longrightarrow> view (step st e) own = view st own"
begin

lemma run_inv: "inv st \<Longrightarrow> inv (foldl step st es)"
  by (induction es arbitrary: st) (simp_all add: inv_step)

lemma run_provenance:
  "inv st \<Longrightarrow> t \<in> set (view (foldl step st es) own) \<Longrightarrow>
   t \<in> set (view st own) \<or> (\<exists>e \<in> set es. issues e own t)"
proof (induction es arbitrary: st)
  case (Cons e es)
  then have "t \<in> set (view (step st e) own) \<or> (\<exists>e \<in> set es. issues e own t)"
    by (simp add: inv_step)
  with Cons.prems(1) provenance show ?case by fastforce
qed simp

lemma run_isolated:
  "inv st \<Longrightarrow> \<forall>e \<in> set es. \<not> touches e own \<Longrightarrow> view (foldl step st es) own = view st own"
  by (induction es arbitrary: st) (simp_all add: inv_step isolated)

lemma run_revoked:
  assumes "inv st" "revokes e own sc" "\<forall>e' \<in> set es. \<forall>t. issues e' own t \<longrightarrow> scope_of t \<noteq> sc"
    "t \<in> set (view (foldl step (step st e) es) own)"
  shows "scope_of t \<noteq> sc"
  using run_provenance [OF inv_step [OF assms(1)] assms(4)] revoked [OF assms(1,2)] assms(3) by blast

end

subsection \<open>The session store keeps the contract\<close>

fun issues_token :: "session_event \<Rightarrow> Origin \<Rightarrow> SessionToken \<Rightarrow> bool" where
  "issues_token (Directive o1 (SetSession token scope expires)) own t \<longleftrightarrow>
     o1 = own \<and> t = \<lparr>tok_token = token, tok_scope = scope, tok_expires = expires\<rparr>"
| "issues_token _ own t \<longleftrightarrow> False"

fun touches_origin :: "session_event \<Rightarrow> Origin \<Rightarrow> bool" where
  "touches_origin (Directive o1 d) own \<longleftrightarrow> o1 = own"
| "touches_origin (ClearOrigin o1) own \<longleftrightarrow> o1 = own"
| "touches_origin (ClearKey k) own \<longleftrightarrow> matches_storage_key own k = Some True"
| "touches_origin ClearAll own \<longleftrightarrow> True"

fun revokes_scope :: "session_event \<Rightarrow> Origin \<Rightarrow> ustr \<Rightarrow> bool" where
  "revokes_scope (Directive o1 (ClearSession scope)) own sc \<longleftrightarrow> o1 = own \<and> scope = sc"
| "revokes_scope (Directive o1 (SetSession _ _ _)) own sc \<longleftrightarrow> False"
| "revokes_scope (ClearOrigin o1) own sc \<longleftrightarrow> o1 = own"
| "revokes_scope (ClearKey k) own sc \<longleftrightarrow> matches_storage_key own k = Some True"
| "revokes_scope ClearAll own sc \<longleftrightarrow> True"

lemma store_inv_filter:
  assumes "store_inv st" shows "store_inv (st\<lparr>sites := filter P (sites st)\<rparr>)"
  using assms sum_list_map_filter_le [of "\<lambda>(_, s). length (tokens s)" P "sites st"]
    distinct_map_filter_fst [of "sites st" P]
  by (auto simp: store_inv_def total_count_def list_all_iff)

lemma site_tokens_filter:
  assumes "store_inv st"
  shows "site_tokens (st\<lparr>sites := filter (\<lambda>(c, _). keep c) (sites st)\<rparr>) own =
    (if keep own then site_tokens st own else [])"
proof -
  have d: "distinct (map fst (sites st))"
    using assms by (simp add: store_inv_def)
  have "find (\<lambda>(c, _). c = own) (sites st) = Some p \<Longrightarrow> fst p = own" for p
    using find_Some_distinct [OF d] by auto
  then show ?thesis
    by (auto simp: site_tokens_def find_site_def find_filter_distinct [OF d] split: option.splits)
qed

lemma session_step_inv: "store_inv st \<Longrightarrow> store_inv (session_step rt st e)"
proof (cases e)
  case (Directive o1 d)
  assume "store_inv st"
  with Directive apply_inv [of st rt o1 d] show ?thesis
    by (cases "apply_directive rt st o1 d") auto
qed (auto simp: clear_origin_def clear_storage_key_def store_clear_all_def store_inv_filter,
     simp add: store_inv_def total_count_def)

lemma session_step_view:
  assumes "store_inv st"
  shows "site_tokens (session_step rt st e) own =
    (case e of
       Directive o1 d \<Rightarrow> if o1 = own \<and> fst (apply_directive rt st o1 d) then after d (site_tokens st own)
                         else site_tokens st own
     | _ \<Rightarrow> if touches_origin e own then [] else site_tokens st own)"
proof (cases e)
  case (Directive o1 d)
  obtain b st' where r: "apply_directive rt st o1 d = (b, st')"
    by fastforce
  show ?thesis
  proof (cases b)
    case True
    with r Directive apply_refines [OF assms, of rt o1 d st'] show ?thesis by auto
  next
    case False
    with r Directive apply_rejected [of rt st o1 d st'] show ?thesis by auto
  qed
next
  case ClearAll
  then show ?thesis
    by (simp add: store_clear_all_def site_tokens_def find_site_def)
qed (simp_all add: clear_origin_def clear_storage_key_def
       site_tokens_filter [OF assms, where keep = "\<lambda>c. c \<noteq> _"]
       site_tokens_filter [OF assms, where keep = "\<lambda>c. matches_storage_key c _ \<noteq> Some True"])

lemma site_tokens_distinct: "store_inv st \<Longrightarrow> distinct (map tok_scope (site_tokens st o1))"
  using find_site_good [of st o1] by (auto simp: site_tokens_def good_site_def split: option.splits)

lemma after_provenance:
  assumes "distinct (map tok_scope ts)" "t \<in> set (after d ts)"
  shows "t \<in> set ts \<or> issues_token (Directive o1 d) o1 t"
  using assms put_token_scopes(3) [OF assms(1)] by (cases d) auto

interpretation site_store: token_store "session_step rt" site_tokens store_inv issues_token
  touches_origin tok_scope revokes_scope for rt
proof
  fix st e own t sc
  assume inv: "store_inv st"
  show "store_inv (session_step rt st e)"
    using inv by (rule session_step_inv)
  show "t \<in> set (site_tokens (session_step rt st e) own) \<Longrightarrow>
      t \<in> set (site_tokens st own) \<or> issues_token e own t"
    using after_provenance [OF site_tokens_distinct [OF inv]]
    unfolding session_step_view [OF inv] by (cases e) (auto split: if_splits)
  show "revokes_scope e own sc \<Longrightarrow> t \<in> set (site_tokens (session_step rt st e) own) \<Longrightarrow>
      tok_scope t \<noteq> sc"
  proof (cases e)
    case (Directive o1 d)
    assume "revokes_scope e own sc" "t \<in> set (site_tokens (session_step rt st e) own)"
    with Directive show ?thesis
      unfolding session_step_view [OF inv]
      by (cases d) (auto simp: apply_directive_def Let_def split: if_splits)
  qed (unfold session_step_view [OF inv], auto)
  show "\<not> touches_origin e own \<Longrightarrow> site_tokens (session_step rt st e) own = site_tokens st own"
    unfolding session_step_view [OF inv] by (cases e) auto
qed

section \<open>Finding tokens\<close>

lemma max_by_key_Some:
  "max_by_key k xs = Some x \<Longrightarrow> x \<in> set xs \<and> (\<forall>y \<in> set xs. k y \<le> k x)"
proof (induction xs arbitrary: x)
  case (Cons a xs)
  show ?case
  proof (cases "max_by_key k xs")
    case None
    with Cons.prems show ?thesis by (cases xs) (auto split: option.splits if_splits)
  next
    case (Some y)
    with Cons show ?thesis by (fastforce split: if_splits)
  qed
qed simp

lemma max_by_key_None: "max_by_key k xs = None \<longleftrightarrow> xs = []"
  by (cases xs) (auto split: option.splits if_splits)

lemma find_token_view:
  "find_token now st o1 p = max_by_key (\<lambda>t. len (tok_scope t))
     (filter (unexpired now) (filter (\<lambda>t. scope_matches (tok_scope t) p) (site_tokens st o1)))"
  by (auto simp: find_token_def site_tokens_def site_find_token_def split: option.splits)

definition usable :: "u64 \<Rightarrow> ustr \<Rightarrow> SessionToken \<Rightarrow> bool" where
  "usable now p t \<longleftrightarrow> scope_matches (tok_scope t) p \<and> unexpired now t"

lemma find_token_Some:
  assumes "find_token now st o1 p = Some t"
  shows "t \<in> set (site_tokens st o1)" "usable now p t"
    "\<And>t'. t' \<in> set (site_tokens st o1) \<Longrightarrow> usable now p t' \<Longrightarrow> len (tok_scope t') \<le> len (tok_scope t)"
  using max_by_key_Some [OF assms [unfolded find_token_view]] by (auto simp: usable_def)

subsection \<open>Scopes match whole segments\<close>

lemma split_char_prefix:
  "split_char c (s @ c # t) = split_char c s @ split_char c t"
  by (induction s) (auto split: list.splits)

lemma join_char_append:
  "a \<noteq> [] \<Longrightarrow> b \<noteq> [] \<Longrightarrow> join_char c (a @ b) = join_char c a @ c # join_char c b"
proof (induction c a rule: join_char.induct)
  case (2 c w)
  then show ?case by (cases b) auto
qed auto

lemma extends_by_segments:
  "(\<exists>rest. rest \<noteq> [] \<and> split_char c p = split_char c s @ rest) \<longleftrightarrow> (\<exists>r. p = s @ c # r)"
proof
  assume "\<exists>rest. rest \<noteq> [] \<and> split_char c p = split_char c s @ rest"
  then obtain rest where "rest \<noteq> []" "split_char c p = split_char c s @ rest" by blast
  then show "\<exists>r. p = s @ c # r"
    using join_char_append [of "split_char c s" rest c] join_split [of c p] join_split [of c s]
    by (metis split_char_not_Nil)
next
  assume "\<exists>r. p = s @ c # r"
  then show "\<exists>rest. rest \<noteq> [] \<and> split_char c p = split_char c s @ rest"
    by (metis split_char_not_Nil split_char_prefix)
qed

lemma scope_matches_segments:
  assumes "scope \<noteq> lit ''/''"
  shows "scope_matches scope p \<longleftrightarrow>
    (if ends_with_char SLASH scope
     then \<exists>rest. rest \<noteq> [] \<and> split_char SLASH p = butlast (split_char SLASH scope) @ rest
     else \<exists>rest. split_char SLASH p = split_char SLASH scope @ rest)"
proof (cases "ends_with_char SLASH scope")
  case True
  then obtain s where s: "scope = s @ [SLASH]"
    by (metis append_butlast_last_id ends_with_char_def)
  have b: "butlast (split_char SLASH scope) = split_char SLASH s"
    by (simp add: s split_char_prefix)
  have "scope_matches scope p \<longleftrightarrow> (\<exists>r. p = scope @ r)"
  proof (cases "strip_prefix scope p")
    case None
    moreover from this have "p \<noteq> scope @ r" for r
      using strip_prefix_Some [of scope p r] by simp
    moreover from this [of "[]"] have "p \<noteq> scope" by simp
    ultimately show ?thesis
      using assms by (simp add: scope_matches_def)
  next
    case (Some rest)
    moreover from this have "p = scope @ rest"
      by (simp add: strip_prefix_Some)
    ultimately show ?thesis
      using assms True by (simp add: scope_matches_def)
  qed
  also have "\<dots> \<longleftrightarrow> (\<exists>r. p = s @ SLASH # r)"
    by (simp add: s)
  finally show ?thesis
    using True b extends_by_segments [of SLASH p s] by simp
next
  case False
  have "scope_matches scope p \<longleftrightarrow> p = scope \<or> (\<exists>r. p = scope @ SLASH # r)"
  proof (cases "strip_prefix scope p")
    case None
    with assms strip_prefix_Some [of scope p] show ?thesis
      by (auto simp: scope_matches_def)
  next
    case (Some rest)
    then have "p = scope @ rest"
      by (simp add: strip_prefix_Some)
    with assms False Some show ?thesis
      by (cases rest) (auto simp: scope_matches_def)
  qed
  moreover have "(\<exists>rest. split_char SLASH p = split_char SLASH scope @ rest) \<longleftrightarrow>
      p = scope \<or> (\<exists>rest. rest \<noteq> [] \<and> split_char SLASH p = split_char SLASH scope @ rest)"
    by (metis append.right_neutral join_split)
  ultimately show ?thesis
    using False extends_by_segments [of SLASH p scope] by simp
qed

section \<open>The properties\<close>

definition sample_store :: SessionStore where
  "sample_store = \<lparr>sites = [(sample_origin,
     \<lparr>tokens = [\<lparr>tok_token = lit ''t1'', tok_scope = lit ''/'', tok_expires = None\<rparr>,
                \<lparr>tok_token = lit ''t2'', tok_scope = lit ''/admin'', tok_expires = Some 9\<rparr>]\<rparr>)]\<rparr>"

definition sample_events :: "session_event list" where
  "sample_events = [Directive sample_origin (SetSession (lit ''t1'') (lit ''/'') None),
     Directive sample_origin (SetSession (lit ''t2'') (lit ''/admin'') (Some 9))]"

lemmas session_eval = session_run_def apply_directive_def find_site_def total_count_def
  try_clone_token_def try_set_token_def origin_try_clone_def new_store_def find_token_def
  site_find_token_def unexpired_def scope_matches_def MAX_TOTAL_SESSIONS_def
  MAX_SESSIONS_PER_SITE_def try_reserve_def isize_max_def lit_def len_utf8_def strip_prefix_def
  ends_with_char_def

lemma sample_run: "session_run roomy_runtime new_store sample_events = sample_store"
  by (simp add: sample_events_def sample_store_def sample_origin_def session_eval)

lemma sample_find:
  "find_token 5 sample_store sample_origin (lit ''/admin/x'') =
     Some \<lparr>tok_token = lit ''t2'', tok_scope = lit ''/admin'', tok_expires = Some 9\<rparr>"
  by (simp add: sample_store_def sample_origin_def session_eval)

text \<open>
  C25: a token sent to an origin was issued by that origin: whatever directives any servers
  sent, in any order, and whatever the user cleared, a token found for an origin and path
  was set by a directive of that very origin (host, port and transport security), its scope
  covers the path, and it has not expired.
\<close>

theorem token_provenance:
  assumes "find_token now (session_run rt new_store es) o1 p = Some t"
  shows "Directive o1 (SetSession (tok_token t) (tok_scope t) (tok_expires t)) \<in> set es
    \<and> scope_matches (tok_scope t) p \<and> unexpired now t"
proof -
  have "t \<in> set (site_tokens (foldl (session_step rt) new_store es) o1)" "usable now p t"
    using find_token_Some [OF assms] by (simp_all add: session_run_def)
  moreover have "site_tokens new_store o1 = []"
    by (simp add: new_store_def site_tokens_def find_site_def)
  ultimately obtain e where "e \<in> set es" "issues_token e o1 t" "usable now p t"
    using site_store.run_provenance [OF store_inv_new, of t rt es o1] by auto
  then show ?thesis
    by (cases "(e, o1, t)" rule: issues_token.cases) (auto simp: usable_def)
qed

theorem token_provenance_witness:
  "find_token 5 (session_run roomy_runtime new_store sample_events) sample_origin (lit ''/admin/x'')
     = Some \<lparr>tok_token = lit ''t2'', tok_scope = lit ''/admin'', tok_expires = Some 9\<rparr>
   \<and> Directive sample_origin (SetSession (lit ''t2'') (lit ''/admin'') (Some 9)) \<in> set sample_events"
  using token_provenance [OF sample_find [folded sample_run]] sample_find by (simp add: sample_run)

text \<open>
  C26: the store stays within its bounds in every run: at most eight tokens per origin with
  distinct scopes, at most 256 in all, one bucket per origin and no empty bucket.
\<close>

theorem session_store_bounded:
  "store_inv (session_run rt new_store es)"
  using site_store.run_inv [OF store_inv_new] by (simp add: session_run_def)

text \<open>
  A directive is applied atomically. If it is accepted, the tokens of its origin change
  as the specification says (replace the token of the same scope, else append, dropping the
  oldest at the site bound; or remove the cleared scope) and no other origin's tokens
  change; if it is rejected, the store is unchanged. With memory available only a new token
  at the global bound is rejected.
\<close>

theorem directive_atomic:
  assumes "store_inv st" "apply_directive rt st o1 d = (accepted, st')"
  shows "(if accepted then site_tokens st' = (site_tokens st)(o1 := after d (site_tokens st o1))
          else st' = st)
    \<and> (ample rt \<and> len (o_host o1) \<le> isize_max \<and> total_count st < MAX_TOTAL_SESSIONS
       \<and> (\<forall>token scope expires. d = SetSession token scope expires \<longrightarrow>
             len token \<le> isize_max \<and> len scope \<le> isize_max) \<longrightarrow> accepted)"
proof -
  have "if accepted then site_tokens st' = (site_tokens st)(o1 := after d (site_tokens st o1)) else st' = st"
    using apply_refines [OF assms(1)] apply_rejected assms(2) by (cases accepted) auto
  moreover have "accepted" if "ample rt" "len (o_host o1) \<le> isize_max" "total_count st < MAX_TOTAL_SESSIONS"
    "\<And>token scope expires. d = SetSession token scope expires \<Longrightarrow> len token \<le> isize_max \<and> len scope \<le> isize_max"
    using assms(2) that ample_try_reserve [OF that(1)] ample_grants(2) [OF that(1)]
    by (cases d) (auto simp: apply_directive_def Let_def try_clone_token_def try_set_token_def
        origin_try_clone_def split: option.splits if_splits)
  ultimately show ?thesis by blast
qed

theorem directive_atomic_witness:
  "\<exists>st'. apply_directive roomy_runtime sample_store sample_origin (ClearSession (lit ''/'')) = (True, st')
   \<and> site_tokens st' sample_origin =
       [\<lparr>tok_token = lit ''t2'', tok_scope = lit ''/admin'', tok_expires = Some 9\<rparr>]"
proof -
  let ?d = "ClearSession (lit ''/'')"
  have "store_inv sample_store"
    using site_store.run_inv [OF store_inv_new, of roomy_runtime sample_events] sample_run
    by (simp add: session_run_def)
  moreover obtain st' where r: "apply_directive roomy_runtime sample_store sample_origin ?d = (True, st')"
    by (simp add: apply_directive_def Let_def)
  ultimately have "site_tokens st' = (site_tokens sample_store)(sample_origin := after ?d (site_tokens sample_store sample_origin))"
    using directive_atomic [of sample_store roomy_runtime sample_origin ?d True st'] by simp
  moreover have "site_tokens sample_store sample_origin =
      [\<lparr>tok_token = lit ''t1'', tok_scope = lit ''/'', tok_expires = None\<rparr>,
       \<lparr>tok_token = lit ''t2'', tok_scope = lit ''/admin'', tok_expires = Some 9\<rparr>]"
    by (simp add: sample_store_def site_tokens_def find_site_def)
  ultimately show ?thesis
    using r by simp
qed

text \<open>
  The token found is the most specific usable one, and one is found whenever a usable
  one is stored.
\<close>

theorem find_token_most_specific:
  "(case find_token now st o1 p of
      None \<Rightarrow> \<not> (\<exists>t \<in> set (site_tokens st o1). usable now p t)
    | Some t \<Rightarrow> t \<in> set (site_tokens st o1) \<and> usable now p t
        \<and> list_all (\<lambda>t'. if usable now p t' then len (tok_scope t') \<le> len (tok_scope t) else True)
            (site_tokens st o1))"
proof (cases "find_token now st o1 p")
  case None
  then show ?thesis
    by (auto simp: find_token_view max_by_key_None filter_empty_conv usable_def)
next
  case (Some t)
  from find_token_Some [OF Some] Some show ?thesis
    by (auto simp: list_all_iff)
qed

text \<open>
  A scope covers a path only by whole segments: \<open>/admin\<close> covers \<open>/admin\<close> and
  \<open>/admin/x\<close> but never \<open>/administrator\<close>; a scope that ends in a slash covers what lies
  below it; \<open>/\<close> covers everything.
\<close>

theorem scope_matches_whole_segments:
  "scope_matches scope p \<longleftrightarrow>
    scope = lit ''/'' \<or>
    (if ends_with_char SLASH scope
     then \<exists>rest. rest \<noteq> [] \<and> split_char SLASH p = butlast (split_char SLASH scope) @ rest
     else \<exists>rest. split_char SLASH p = split_char SLASH scope @ rest)"
  using scope_matches_segments [of scope p]
  by (cases "scope = lit ''/''") (auto simp: scope_matches_def)

text \<open>
  Logging out works: after an accepted clearing of a scope (by the server, or of the
  whole origin by the user), no token of that scope is found for the origin until its own
  server sets one again, whatever all other servers send.
\<close>

theorem cleared_scope_stays_cleared:
  assumes "revokes_scope e o1 scope"
    "\<forall>e' \<in> set es'. \<forall>token expires. e' \<noteq> Directive o1 (SetSession token scope expires)"
    "find_token now (session_run rt new_store (es @ e # es')) o1 p = Some t"
  shows "tok_scope t \<noteq> scope"
proof -
  let ?st = "foldl (session_step rt) new_store es"
  have "\<forall>e' \<in> set es'. \<forall>t. issues_token e' o1 t \<longrightarrow> tok_scope t \<noteq> scope"
    using assms(2) by (auto elim!: issues_token.elims)
  moreover have "t \<in> set (site_tokens (foldl (session_step rt) (session_step rt ?st e) es') o1)"
    using find_token_Some(1) [OF assms(3)] by (simp add: session_run_def)
  ultimately show ?thesis
    using site_store.run_revoked [OF site_store.run_inv [OF store_inv_new] assms(1)] by blast
qed

theorem cleared_scope_stays_cleared_witness:
  "find_token 5 (session_run roomy_runtime new_store
      (sample_events @ Directive sample_origin (ClearSession (lit ''/admin'')) # [])) sample_origin
      (lit ''/admin/x'') =
     Some \<lparr>tok_token = lit ''t1'', tok_scope = lit ''/'', tok_expires = None\<rparr>
   \<and> lit ''/'' \<noteq> lit ''/admin''"
proof -
  let ?t = "\<lparr>tok_token = lit ''t1'', tok_scope = lit ''/'', tok_expires = None\<rparr>"
  have f: "find_token 5 (session_run roomy_runtime new_store
      (sample_events @ Directive sample_origin (ClearSession (lit ''/admin'')) # [])) sample_origin
      (lit ''/admin/x'') = Some ?t"
    by (simp add: sample_events_def sample_origin_def session_eval clear_scope_def site_is_empty_def)
  have "revokes_scope (Directive sample_origin (ClearSession (lit ''/admin''))) sample_origin (lit ''/admin'')"
    by simp
  from cleared_scope_stays_cleared [OF this _ f] f show ?thesis by simp
qed

end
