(* ===== verification/Message.thy ===== *)
theory Message
  imports Session_Laws
begin

text \<open>
  \<open>protocol/message.rs\<close>, the line-structured control messages: HELLO, WELCOME, GET, INPUT,
  SUBSCRIBE, REDIRECT and ERROR. Each has an owning parser, a serializer that computes the
  size of its output before it allocates, and an allocation-free validator that reads the
  same grammar on the framing path.
\<close>

section \<open>Sizes and strings\<close>

definition checked_add_size :: "nat \<Rightarrow> nat \<Rightarrow> nat presult" where
  "checked_add_size sz extra = ok_or (ResourceExhausted usize_max) (checked_add sz extra)"

definition enforce_message_limit :: "MessageType \<Rightarrow> nat \<Rightarrow> nat \<Rightarrow> unit presult" where
  "enforce_message_limit t requested limit =
     (if requested > limit
      then Inl (MessageTooLarge t (if requested \<le> u32_max then requested else u32_max) limit)
      else Inr ())"

definition try_string_with_capacity :: "runtime \<Rightarrow> nat \<Rightarrow> unit presult" where
  "try_string_with_capacity rt requested =
     ensure (ResourceExhausted requested) (try_reserve rt requested)"

definition try_owned_string :: "runtime \<Rightarrow> ustr \<Rightarrow> ustr presult" where
  "try_owned_string rt value = map_ok (\<lambda>_. value) (try_string_with_capacity rt (len value))"

definition checked_string_lengths :: "nat \<Rightarrow> ustr list \<Rightarrow> nat presult" where
  "checked_string_lengths sz values = try_fold (\<lambda>sz value. checked_add_size sz (len value)) sz values"

text \<open>Whether the index was new, and the array afterwards.\<close>

definition mark_seen :: "bool list \<Rightarrow> nat \<Rightarrow> bool \<times> bool list" where
  "mark_seen seen index =
     (if index < length seen then if seen ! index then (False, seen) else (True, seen[index := True])
      else (False, seen))"

section \<open>Fields\<close>

definition parse_control_field :: "runtime \<Rightarrow> ustr \<Rightarrow> (ustr \<times> ustr) presult" where
  "parse_control_field rt line =
     (if line = [] \<or> list_ex is_control line
      then Inl (InvalidMessage (lit ''empty or control-containing metadata field''))
      else and_then (ok_or (invalid_message rt [lit ''malformed field: '', line])
                       (split_once (lit '': '') line)) (\<lambda>(key, value).
           if key = [] \<or> value = [] then Inl (invalid_message rt [lit ''malformed field: '', line])
           else Inr (key, value)))"

definition validate_primary_value :: "runtime \<Rightarrow> ustr \<Rightarrow> ustr \<Rightarrow> unit presult" where
  "validate_primary_value rt label value =
     (if value = [] \<or> list_ex is_control value
      then Inl (invalid_message rt [label, lit '' is empty or contains controls''])
      else Inr ())"

definition bad_capability :: "ustr \<Rightarrow> bool" where
  "bad_capability capability \<longleftrightarrow> capability = [] \<or>
     \<not> list_all (\<lambda>byte. is_ascii_lowercase byte \<or> byte = uc CHR ''-'') capability"

abbreviation (input) invalid_list :: ProtocolError where
  "invalid_list \<equiv> InvalidMessage (lit ''invalid capability list'')"

definition push_capability :: "runtime \<Rightarrow> ustr list \<Rightarrow> ustr \<Rightarrow> ustr list presult" where
  "push_capability rt capabilities capability =
     (if bad_capability capability then Inl invalid_list
      else map_ok (\<lambda>c. capabilities @ [c]) (try_owned_string rt capability))"

definition parse_capabilities :: "runtime \<Rightarrow> ustr \<Rightarrow> ustr list presult" where
  "parse_capabilities rt value =
     (let count = length (split_char (uc CHR '','') value) in
      if count > 32 then Inl invalid_list
      else if \<not> try_reserve rt (count * size_of rt ''String'')
      then Inl (ResourceExhausted (saturating_mul count (size_of rt ''String'')))
      else try_fold (push_capability rt) [] (split_char (uc CHR '','') value))"

definition validate_capabilities :: "ustr list \<Rightarrow> unit presult" where
  "validate_capabilities capabilities =
     (if length capabilities > 32 \<or> list_ex bad_capability capabilities then Inl invalid_list else Inr ())"

definition validate_capability_list :: "ustr \<Rightarrow> unit presult" where
  "validate_capability_list value =
     (if length (split_char (uc CHR '','') value) > 32
         \<or> list_ex bad_capability (split_char (uc CHR '','') value)
      then Inl invalid_list else Inr ())"

section \<open>Serialisation\<close>

text \<open>Every serializer ends the same way: the limit, one reservation, the text.\<close>

definition emit :: "runtime \<Rightarrow> MessageType \<Rightarrow> nat \<Rightarrow> ustr \<Rightarrow> nat \<Rightarrow> ustr presult" where
  "emit rt t limit text requested =
     and_then (enforce_message_limit t requested limit) (\<lambda>_.
     and_then (try_string_with_capacity rt requested) (\<lambda>_. Inr text))"

text \<open>The size and the text of an optional field.\<close>

definition add_field :: "nat \<Rightarrow> ustr \<times> ustr option \<Rightarrow> nat presult" where
  "add_field requested field =
     (case field of (prefix, value) \<Rightarrow>
        (case value of None \<Rightarrow> Inr requested
         | Some value \<Rightarrow>
             and_then (checked_add_size requested (len prefix)) (\<lambda>requested.
             and_then (checked_add_size requested (len value)) (\<lambda>requested.
             checked_add_size requested 1))))"

definition put_field :: "ustr \<Rightarrow> ustr option \<Rightarrow> ustr" where
  "put_field prefix value = (case value of None \<Rightarrow> [] | Some value \<Rightarrow> prefix @ value @ [LF])"

definition add_capabilities :: "nat \<Rightarrow> ustr list \<Rightarrow> nat presult" where
  "add_capabilities requested capabilities =
     (if capabilities \<noteq> []
      then and_then (checked_add_size requested (len (lit ''Capabilities: '') + 1)) (\<lambda>requested.
           and_then (checked_string_lengths requested capabilities) (\<lambda>requested.
           checked_add_size requested (length capabilities - 1)))
      else Inr requested)"

definition put_capabilities :: "ustr list \<Rightarrow> ustr" where
  "put_capabilities capabilities =
     (if capabilities \<noteq> []
      then lit ''Capabilities: '' @ join_char (uc CHR '','') capabilities @ [LF] else [])"

section \<open>HELLO\<close>

record HelloMessage =
  hello_version :: ustr
  hello_terminal_size :: "ustr option"
  hello_color_support :: "ustr option"
  hello_client :: "ustr option"
  hello_capabilities :: "ustr list"

text \<open>The message so far and the four seen flags.\<close>

type_synonym hello_state = "HelloMessage \<times> bool \<times> bool \<times> bool \<times> bool"

definition hello_field :: "runtime \<Rightarrow> hello_state \<Rightarrow> ustr \<Rightarrow> hello_state presult" where
  "hello_field rt st line =
     (case st of (msg, seen_ts, seen_cs, seen_cl, seen_cp) \<Rightarrow>
        and_then (parse_control_field rt line) (\<lambda>(key, value).
        if key = lit ''Terminal-Size'' \<and> \<not> seen_ts then
          map_ok (\<lambda>v. (msg\<lparr>hello_terminal_size := Some v\<rparr>, True, seen_cs, seen_cl, seen_cp))
            (try_owned_string rt value)
        else if key = lit ''Color-Support'' \<and> \<not> seen_cs then
          map_ok (\<lambda>v. (msg\<lparr>hello_color_support := Some v\<rparr>, seen_ts, True, seen_cl, seen_cp))
            (try_owned_string rt value)
        else if key = lit ''Client'' \<and> \<not> seen_cl then
          map_ok (\<lambda>v. (msg\<lparr>hello_client := Some v\<rparr>, seen_ts, seen_cs, True, seen_cp))
            (try_owned_string rt value)
        else if key = lit ''Capabilities'' \<and> \<not> seen_cp then
          map_ok (\<lambda>v. (msg\<lparr>hello_capabilities := v\<rparr>, seen_ts, seen_cs, seen_cl, True))
            (parse_capabilities rt value)
        else if key \<in> {lit ''Terminal-Size'', lit ''Color-Support'', lit ''Client'', lit ''Capabilities''}
        then Inl (invalid_message rt [lit ''duplicate HELLO field: '', key])
        else Inl (invalid_message rt [lit ''unknown HELLO field: '', key])))"

definition Hello_parse :: "runtime \<Rightarrow> ustr \<Rightarrow> HelloMessage presult" where
  "Hello_parse rt body =
     and_then (enforce_message_limit Hello (len body) MAX_CONTROL_MESSAGE_SIZE) (\<lambda>_.
     (case lines body of
        [] \<Rightarrow> Inl (InvalidMessage (lit ''empty HELLO body''))
      | first # rest \<Rightarrow>
          (case strip_prefix (lit ''HELLO/'') first of
             None \<Rightarrow> Inl (invalid_message rt [lit ''expected HELLO/, got: '', first])
           | Some stripped \<Rightarrow>
               and_then (try_owned_string rt stripped) (\<lambda>version.
               map_ok fst (try_fold (hello_field rt)
                 (\<lparr>hello_version = version, hello_terminal_size = None, hello_color_support = None,
                   hello_client = None, hello_capabilities = []\<rparr>, False, False, False, False) rest)))))"

definition Hello_serialize :: "runtime \<Rightarrow> HelloMessage \<Rightarrow> ustr presult" where
  "Hello_serialize rt m =
     and_then (validate_capabilities (hello_capabilities m)) (\<lambda>_.
     and_then (checked_add_size (len (lit ''HELLO/'') + 1) (len (hello_version m))) (\<lambda>requested.
     and_then (try_fold add_field requested
        [(lit ''Terminal-Size: '', hello_terminal_size m),
         (lit ''Color-Support: '', hello_color_support m),
         (lit ''Client: '', hello_client m)]) (\<lambda>requested.
     and_then (add_capabilities requested (hello_capabilities m)) (\<lambda>requested.
     emit rt Hello MAX_CONTROL_MESSAGE_SIZE
       (lit ''HELLO/'' @ hello_version m @ [LF] @
        put_field (lit ''Terminal-Size: '') (hello_terminal_size m) @
        put_field (lit ''Color-Support: '') (hello_color_support m) @
        put_field (lit ''Client: '') (hello_client m) @
        put_capabilities (hello_capabilities m)) requested))))"

definition validate_hello_line :: "runtime \<Rightarrow> bool list \<Rightarrow> ustr \<Rightarrow> bool list presult" where
  "validate_hello_line rt seen line =
     and_then (parse_control_field rt line) (\<lambda>(key, value).
     and_then (if key = lit ''Terminal-Size'' then Inr 0
               else if key = lit ''Color-Support'' then Inr 1
               else if key = lit ''Client'' then Inr 2
               else if key = lit ''Capabilities'' then Inr 3
               else Inl (invalid_message rt [lit ''unknown HELLO field: '', key])) (\<lambda>index.
     case mark_seen seen index of (new, seen) \<Rightarrow>
       if \<not> new then Inl (invalid_message rt [lit ''duplicate HELLO field: '', key])
       else if key = lit ''Capabilities'' then map_ok (\<lambda>_. seen) (validate_capability_list value)
       else Inr seen))"

definition validate_hello_body :: "runtime \<Rightarrow> ustr \<Rightarrow> unit presult" where
  "validate_hello_body rt body =
     and_then (enforce_message_limit Hello (len body) MAX_CONTROL_MESSAGE_SIZE) (\<lambda>_.
     (case lines body of
        [] \<Rightarrow> Inl (InvalidMessage (lit ''empty HELLO body''))
      | first # rest \<Rightarrow>
          if \<not> starts_with (lit ''HELLO/'') first
          then Inl (invalid_message rt [lit ''expected HELLO/, got: '', first])
          else map_ok (\<lambda>_. ()) (try_fold (validate_hello_line rt) [False, False, False, False] rest)))"

section \<open>WELCOME\<close>

record WelcomeMessage =
  welcome_version :: ustr
  welcome_server :: "ustr option"
  welcome_site_name :: "ustr option"
  welcome_capabilities :: "ustr list"

type_synonym welcome_state = "WelcomeMessage \<times> bool \<times> bool \<times> bool"

definition welcome_field :: "runtime \<Rightarrow> welcome_state \<Rightarrow> ustr \<Rightarrow> welcome_state presult" where
  "welcome_field rt st line =
     (case st of (msg, seen_sv, seen_sn, seen_cp) \<Rightarrow>
        and_then (parse_control_field rt line) (\<lambda>(key, value).
        if key = lit ''Server'' \<and> \<not> seen_sv then
          map_ok (\<lambda>v. (msg\<lparr>welcome_server := Some v\<rparr>, True, seen_sn, seen_cp)) (try_owned_string rt value)
        else if key = lit ''Site-Name'' \<and> \<not> seen_sn then
          map_ok (\<lambda>v. (msg\<lparr>welcome_site_name := Some v\<rparr>, seen_sv, True, seen_cp)) (try_owned_string rt value)
        else if key = lit ''Capabilities'' \<and> \<not> seen_cp then
          map_ok (\<lambda>v. (msg\<lparr>welcome_capabilities := v\<rparr>, seen_sv, seen_sn, True)) (parse_capabilities rt value)
        else if key \<in> {lit ''Server'', lit ''Site-Name'', lit ''Capabilities''}
        then Inl (invalid_message rt [lit ''duplicate WELCOME field: '', key])
        else Inl (invalid_message rt [lit ''unknown WELCOME field: '', key])))"

definition Welcome_parse :: "runtime \<Rightarrow> ustr \<Rightarrow> WelcomeMessage presult" where
  "Welcome_parse rt body =
     and_then (enforce_message_limit Welcome (len body) MAX_CONTROL_MESSAGE_SIZE) (\<lambda>_.
     (case lines body of
        [] \<Rightarrow> Inl (InvalidMessage (lit ''empty WELCOME body''))
      | first # rest \<Rightarrow>
          (case strip_prefix (lit ''WELCOME/'') first of
             None \<Rightarrow> Inl (invalid_message rt [lit ''expected WELCOME/, got: '', first])
           | Some stripped \<Rightarrow>
               and_then (try_owned_string rt stripped) (\<lambda>version.
               map_ok fst (try_fold (welcome_field rt)
                 (\<lparr>welcome_version = version, welcome_server = None, welcome_site_name = None,
                   welcome_capabilities = []\<rparr>, False, False, False) rest)))))"

definition Welcome_serialize :: "runtime \<Rightarrow> WelcomeMessage \<Rightarrow> ustr presult" where
  "Welcome_serialize rt m =
     and_then (validate_capabilities (welcome_capabilities m)) (\<lambda>_.
     and_then (checked_add_size (len (lit ''WELCOME/'') + 1) (len (welcome_version m))) (\<lambda>requested.
     and_then (try_fold add_field requested
        [(lit ''Server: '', welcome_server m), (lit ''Site-Name: '', welcome_site_name m)]) (\<lambda>requested.
     and_then (add_capabilities requested (welcome_capabilities m)) (\<lambda>requested.
     emit rt Welcome MAX_CONTROL_MESSAGE_SIZE
       (lit ''WELCOME/'' @ welcome_version m @ [LF] @
        put_field (lit ''Server: '') (welcome_server m) @
        put_field (lit ''Site-Name: '') (welcome_site_name m) @
        put_capabilities (welcome_capabilities m)) requested))))"

definition validate_welcome_line :: "runtime \<Rightarrow> bool list \<Rightarrow> ustr \<Rightarrow> bool list presult" where
  "validate_welcome_line rt seen line =
     and_then (parse_control_field rt line) (\<lambda>(key, value).
     and_then (if key = lit ''Server'' then Inr 0
               else if key = lit ''Site-Name'' then Inr 1
               else if key = lit ''Capabilities'' then Inr 2
               else Inl (invalid_message rt [lit ''unknown WELCOME field: '', key])) (\<lambda>index.
     case mark_seen seen index of (new, seen) \<Rightarrow>
       if \<not> new then Inl (invalid_message rt [lit ''duplicate WELCOME field: '', key])
       else if key = lit ''Capabilities'' then map_ok (\<lambda>_. seen) (validate_capability_list value)
       else Inr seen))"

definition validate_welcome_body :: "runtime \<Rightarrow> ustr \<Rightarrow> unit presult" where
  "validate_welcome_body rt body =
     and_then (enforce_message_limit Welcome (len body) MAX_CONTROL_MESSAGE_SIZE) (\<lambda>_.
     (case lines body of
        [] \<Rightarrow> Inl (InvalidMessage (lit ''empty WELCOME body''))
      | first # rest \<Rightarrow>
          if \<not> starts_with (lit ''WELCOME/'') first
          then Inl (invalid_message rt [lit ''expected WELCOME/, got: '', first])
          else map_ok (\<lambda>_. ()) (try_fold (validate_welcome_line rt) [False, False, False] rest)))"

section \<open>GET\<close>

record GetMessage =
  get_path :: ustr
  get_query :: "ustr option"
  get_referrer :: "ustr option"
  get_session :: "ustr option"

type_synonym get_state = "GetMessage \<times> bool \<times> bool \<times> bool"

definition get_field :: "runtime \<Rightarrow> get_state \<Rightarrow> ustr \<Rightarrow> get_state presult" where
  "get_field rt st line =
     (case st of (msg, seen_query, seen_referrer, seen_session) \<Rightarrow>
        and_then (parse_control_field rt line) (\<lambda>(key, value).
        if key = lit ''Query'' \<and> \<not> seen_query then
          map_ok (\<lambda>v. (msg\<lparr>get_query := Some v\<rparr>, True, seen_referrer, seen_session)) (try_owned_string rt value)
        else if key = lit ''Referrer'' \<and> \<not> seen_referrer then
          map_ok (\<lambda>v. (msg\<lparr>get_referrer := Some v\<rparr>, seen_query, True, seen_session)) (try_owned_string rt value)
        else if key = lit ''Session'' \<and> \<not> seen_session then
          map_ok (\<lambda>v. (msg\<lparr>get_session := Some v\<rparr>, seen_query, seen_referrer, True)) (try_owned_string rt value)
        else if key \<in> {lit ''Query'', lit ''Referrer'', lit ''Session''}
        then Inl (invalid_message rt [lit ''duplicate GET field: '', key])
        else Inl (invalid_message rt [lit ''unknown GET field: '', key])))"

definition Get_parse :: "runtime \<Rightarrow> ustr \<Rightarrow> GetMessage presult" where
  "Get_parse rt body =
     and_then (enforce_message_limit Get (len body) MAX_CONTROL_MESSAGE_SIZE) (\<lambda>_.
     (case lines body of
        [] \<Rightarrow> Inl (InvalidMessage (lit ''empty GET body''))
      | first # rest \<Rightarrow>
          (case strip_prefix (lit ''GET '') first of
             None \<Rightarrow> Inl (invalid_message rt [lit ''expected GET path, got: '', first])
           | Some stripped \<Rightarrow>
               and_then (try_owned_string rt stripped) (\<lambda>p.
               and_then (validate_primary_value rt (lit ''GET path'') p) (\<lambda>_.
               map_ok fst (try_fold (get_field rt)
                 (\<lparr>get_path = p, get_query = None, get_referrer = None, get_session = None\<rparr>,
                  False, False, False) rest))))))"

definition add_get_field :: "nat \<Rightarrow> ustr \<times> ustr option \<Rightarrow> nat presult" where
  "add_get_field requested field =
     (case field of (prefix, value) \<Rightarrow>
        (case value of None \<Rightarrow> Inr requested
         | Some value \<Rightarrow>
             and_then (checked_add_size requested (len prefix)) (\<lambda>requested.
             checked_add_size requested (len value + 1))))"

definition Get_serialize :: "runtime \<Rightarrow> GetMessage \<Rightarrow> ustr presult" where
  "Get_serialize rt m =
     and_then (checked_add_size (len (lit ''GET '') + 1) (len (get_path m))) (\<lambda>requested.
     and_then (try_fold add_get_field requested
        [(lit ''Query: '', get_query m), (lit ''Referrer: '', get_referrer m),
         (lit ''Session: '', get_session m)]) (\<lambda>requested.
     emit rt Get MAX_CONTROL_MESSAGE_SIZE
       (lit ''GET '' @ get_path m @ [LF] @
        put_field (lit ''Query: '') (get_query m) @
        put_field (lit ''Referrer: '') (get_referrer m) @
        put_field (lit ''Session: '') (get_session m)) requested))"

definition validate_get_line :: "runtime \<Rightarrow> bool list \<Rightarrow> ustr \<Rightarrow> bool list presult" where
  "validate_get_line rt seen line =
     and_then (parse_control_field rt line) (\<lambda>(key, _).
     and_then (if key = lit ''Query'' then Inr 0
               else if key = lit ''Referrer'' then Inr 1
               else if key = lit ''Session'' then Inr 2
               else Inl (invalid_message rt [lit ''unknown GET field: '', key])) (\<lambda>index.
     case mark_seen seen index of (new, seen) \<Rightarrow>
       if \<not> new then Inl (invalid_message rt [lit ''duplicate GET field: '', key]) else Inr seen))"

definition validate_get_body :: "runtime \<Rightarrow> ustr \<Rightarrow> bool presult" where
  "validate_get_body rt body =
     and_then (enforce_message_limit Get (len body) MAX_CONTROL_MESSAGE_SIZE) (\<lambda>_.
     (case lines body of
        [] \<Rightarrow> Inl (InvalidMessage (lit ''empty GET body''))
      | first # rest \<Rightarrow>
          (case strip_prefix (lit ''GET '') first of
             None \<Rightarrow> Inl (invalid_message rt [lit ''expected GET path, got: '', first])
           | Some p \<Rightarrow>
               and_then (validate_primary_value rt (lit ''GET path'') p) (\<lambda>_.
               map_ok (\<lambda>seen. seen ! 2) (try_fold (validate_get_line rt) [False, False, False] rest)))))"

section \<open>INPUT\<close>

record InputMessage =
  input_path :: ustr
  input_form_data :: ustr
  input_session :: "ustr option"

type_synonym input_state = "InputMessage \<times> bool \<times> bool"

definition input_field :: "runtime \<Rightarrow> input_state \<Rightarrow> ustr \<Rightarrow> input_state presult" where
  "input_field rt st line =
     (case st of (msg, seen_form, seen_session) \<Rightarrow>
        and_then (parse_control_field rt line) (\<lambda>(key, value).
        if key = lit ''Form'' \<and> \<not> seen_form then
          map_ok (\<lambda>v. (msg\<lparr>input_form_data := v\<rparr>, True, seen_session)) (try_owned_string rt value)
        else if key = lit ''Session'' \<and> \<not> seen_session then
          map_ok (\<lambda>v. (msg\<lparr>input_session := Some v\<rparr>, seen_form, True)) (try_owned_string rt value)
        else if key \<in> {lit ''Form'', lit ''Session''}
        then Inl (invalid_message rt [lit ''duplicate INPUT field: '', key])
        else Inl (invalid_message rt [lit ''unknown INPUT field: '', key])))"

definition Input_parse :: "runtime \<Rightarrow> ustr \<Rightarrow> InputMessage presult" where
  "Input_parse rt body =
     and_then (enforce_message_limit Input (len body) MAX_INPUT_MESSAGE_SIZE) (\<lambda>_.
     (case lines body of
        [] \<Rightarrow> Inl (InvalidMessage (lit ''empty INPUT body''))
      | first # rest \<Rightarrow>
          (case strip_prefix (lit ''INPUT '') first of
             None \<Rightarrow> Inl (invalid_message rt [lit ''expected INPUT path, got: '', first])
           | Some stripped \<Rightarrow>
               and_then (try_owned_string rt stripped) (\<lambda>p.
               and_then (validate_primary_value rt (lit ''INPUT path'') p) (\<lambda>_.
               map_ok fst (try_fold (input_field rt)
                 (\<lparr>input_path = p, input_form_data = [], input_session = None\<rparr>, False, False) rest))))))"

definition Input_serialize :: "runtime \<Rightarrow> InputMessage \<Rightarrow> ustr presult" where
  "Input_serialize rt m =
     and_then (checked_add_size (len (lit ''INPUT '') + 1) (len (input_path m))) (\<lambda>requested.
     and_then (if input_form_data m \<noteq> []
               then and_then (checked_add_size requested (len (lit ''Form: '') + 1)) (\<lambda>requested.
                    checked_add_size requested (len (input_form_data m)))
               else Inr requested) (\<lambda>requested.
     and_then (case input_session m of None \<Rightarrow> Inr requested
               | Some session \<Rightarrow>
                   and_then (checked_add_size requested (len (lit ''Session: '') + 1)) (\<lambda>requested.
                   checked_add_size requested (len session))) (\<lambda>requested.
     emit rt Input MAX_INPUT_MESSAGE_SIZE
       (lit ''INPUT '' @ input_path m @ [LF] @
        (if input_form_data m \<noteq> [] then lit ''Form: '' @ input_form_data m @ [LF] else []) @
        put_field (lit ''Session: '') (input_session m)) requested)))"

definition validate_input_line :: "runtime \<Rightarrow> bool list \<Rightarrow> ustr \<Rightarrow> bool list presult" where
  "validate_input_line rt seen line =
     and_then (parse_control_field rt line) (\<lambda>(key, _).
     and_then (if key = lit ''Form'' then Inr 0
               else if key = lit ''Session'' then Inr 1
               else Inl (invalid_message rt [lit ''unknown INPUT field: '', key])) (\<lambda>index.
     case mark_seen seen index of (new, seen) \<Rightarrow>
       if \<not> new then Inl (invalid_message rt [lit ''duplicate INPUT field: '', key]) else Inr seen))"

definition validate_input_body :: "runtime \<Rightarrow> ustr \<Rightarrow> bool presult" where
  "validate_input_body rt body =
     and_then (enforce_message_limit Input (len body) MAX_INPUT_MESSAGE_SIZE) (\<lambda>_.
     (case lines body of
        [] \<Rightarrow> Inl (InvalidMessage (lit ''empty INPUT body''))
      | first # rest \<Rightarrow>
          (case strip_prefix (lit ''INPUT '') first of
             None \<Rightarrow> Inl (invalid_message rt [lit ''expected INPUT path, got: '', first])
           | Some p \<Rightarrow>
               and_then (validate_primary_value rt (lit ''INPUT path'') p) (\<lambda>_.
               map_ok (\<lambda>seen. seen ! 1) (try_fold (validate_input_line rt) [False, False] rest)))))"

section \<open>SUBSCRIBE\<close>

datatype SubscribeMode = Replace | Delta

record SubscribeMessage =
  sub_path :: ustr
  sub_region :: ustr
  sub_mode :: SubscribeMode
  sub_session :: "ustr option"

type_synonym subscribe_state = "SubscribeMessage \<times> bool \<times> bool \<times> bool"

definition subscribe_field :: "runtime \<Rightarrow> subscribe_state \<Rightarrow> ustr \<Rightarrow> subscribe_state presult" where
  "subscribe_field rt st line =
     (case st of (msg, seen_region, seen_mode, seen_session) \<Rightarrow>
        and_then (parse_control_field rt line) (\<lambda>(key, value).
        if key = lit ''Region'' \<and> \<not> seen_region then
          map_ok (\<lambda>v. (msg\<lparr>sub_region := v\<rparr>, True, seen_mode, seen_session)) (try_owned_string rt value)
        else if key = lit ''Mode'' \<and> \<not> seen_mode \<and> value = lit ''delta'' then
          Inr (msg\<lparr>sub_mode := Delta\<rparr>, seen_region, True, seen_session)
        else if key = lit ''Mode'' \<and> \<not> seen_mode \<and> value = lit ''replace'' then
          Inr (msg\<lparr>sub_mode := Replace\<rparr>, seen_region, True, seen_session)
        else if key = lit ''Session'' \<and> \<not> seen_session then
          map_ok (\<lambda>v. (msg\<lparr>sub_session := Some v\<rparr>, seen_region, seen_mode, True)) (try_owned_string rt value)
        else if key \<in> {lit ''Region'', lit ''Session''}
        then Inl (invalid_message rt [lit ''duplicate SUBSCRIBE field: '', key])
        else if key = lit ''Mode'' then
          if seen_mode then Inl (InvalidMessage (lit ''duplicate SUBSCRIBE field: Mode''))
          else Inl (invalid_message rt [lit ''unknown subscription mode: '', value])
        else Inl (invalid_message rt [lit ''unknown SUBSCRIBE field: '', key])))"

definition Subscribe_parse :: "runtime \<Rightarrow> ustr \<Rightarrow> SubscribeMessage presult" where
  "Subscribe_parse rt body =
     and_then (enforce_message_limit Subscribe (len body) MAX_CONTROL_MESSAGE_SIZE) (\<lambda>_.
     (case lines body of
        [] \<Rightarrow> Inl (InvalidMessage (lit ''empty SUBSCRIBE body''))
      | first # rest \<Rightarrow>
          (case strip_prefix (lit ''SUBSCRIBE '') first of
             None \<Rightarrow> Inl (invalid_message rt [lit ''expected SUBSCRIBE path, got: '', first])
           | Some stripped \<Rightarrow>
               and_then (try_owned_string rt stripped) (\<lambda>p.
               and_then (validate_primary_value rt (lit ''SUBSCRIBE path'') p) (\<lambda>_.
               map_ok fst (try_fold (subscribe_field rt)
                 (\<lparr>sub_path = p, sub_region = [], sub_mode = Replace, sub_session = None\<rparr>,
                  False, False, False) rest))))))"

text \<open>
  The size is computed through \<open>Option\<close>: a region whose own size overflows would be left
  out of the sum, as in the source.
\<close>

definition subscribe_size :: "ustr \<Rightarrow> ustr \<Rightarrow> SubscribeMode \<Rightarrow> ustr option \<Rightarrow> nat option" where
  "subscribe_size p region mode session =
     Option.bind (checked_add (len (lit ''SUBSCRIBE '') + 1) (len p)) (\<lambda>sz.
     Option.bind (case (if region \<noteq> [] then checked_add (len (lit ''Region: '') + 1) (len region) else None) of
                    None \<Rightarrow> Some sz | Some extra \<Rightarrow> checked_add sz extra) (\<lambda>sz.
     Option.bind (if mode = Delta then checked_add sz (len (lit ''Mode: delta'') + 1) else Some sz) (\<lambda>sz.
     (case session of None \<Rightarrow> Some sz
      | Some value \<Rightarrow> Option.bind (checked_add sz (len (lit ''Session: '') + 1)) (\<lambda>sz.
                       checked_add sz (len value))))))"

definition Subscribe_serialize_parts ::
  "runtime \<Rightarrow> ustr \<Rightarrow> ustr \<Rightarrow> SubscribeMode \<Rightarrow> ustr option \<Rightarrow> ustr presult" where
  "Subscribe_serialize_parts rt p region mode session =
     and_then (ok_or (ResourceExhausted usize_max) (subscribe_size p region mode session)) (\<lambda>requested.
     if requested > MAX_CONTROL_MESSAGE_SIZE
     then Inl (MessageTooLarge Subscribe (requested mod 2 ^ 32) MAX_CONTROL_MESSAGE_SIZE)
     else and_then (try_string_with_capacity rt requested) (\<lambda>_.
       Inr (lit ''SUBSCRIBE '' @ p @ [LF] @
            (if region \<noteq> [] then lit ''Region: '' @ region @ [LF] else []) @
            (if mode = Delta then lit ''Mode: delta'' @ [LF] else []) @
            put_field (lit ''Session: '') session)))"

definition Subscribe_serialize :: "runtime \<Rightarrow> SubscribeMessage \<Rightarrow> ustr presult" where
  "Subscribe_serialize rt m =
     Subscribe_serialize_parts rt (sub_path m) (sub_region m) (sub_mode m) (sub_session m)"

definition validate_subscribe_line :: "runtime \<Rightarrow> bool list \<Rightarrow> ustr \<Rightarrow> bool list presult" where
  "validate_subscribe_line rt seen line =
     and_then (parse_control_field rt line) (\<lambda>(key, value).
     and_then (if key = lit ''Region'' then Inr 0
               else if key = lit ''Mode'' then Inr 1
               else if key = lit ''Session'' then Inr 2
               else Inl (invalid_message rt [lit ''unknown SUBSCRIBE field: '', key])) (\<lambda>index.
     case mark_seen seen index of (new, seen) \<Rightarrow>
       if \<not> new then Inl (invalid_message rt [lit ''duplicate SUBSCRIBE field: '', key])
       else if key = lit ''Mode'' \<and> value \<notin> {lit ''delta'', lit ''replace''}
       then Inl (invalid_message rt [lit ''unknown subscription mode: '', value])
       else Inr seen))"

definition validate_subscribe_body :: "runtime \<Rightarrow> ustr \<Rightarrow> bool presult" where
  "validate_subscribe_body rt body =
     and_then (enforce_message_limit Subscribe (len body) MAX_CONTROL_MESSAGE_SIZE) (\<lambda>_.
     (case lines body of
        [] \<Rightarrow> Inl (InvalidMessage (lit ''empty SUBSCRIBE body''))
      | first # rest \<Rightarrow>
          (case strip_prefix (lit ''SUBSCRIBE '') first of
             None \<Rightarrow> Inl (invalid_message rt [lit ''expected SUBSCRIBE path, got: '', first])
           | Some p \<Rightarrow>
               and_then (validate_primary_value rt (lit ''SUBSCRIBE path'') p) (\<lambda>_.
               map_ok (\<lambda>seen. seen ! 2) (try_fold (validate_subscribe_line rt) [False, False, False] rest)))))"

section \<open>REDIRECT\<close>

record RedirectMessage =
  redirect_code :: u16
  redirect_target :: ustr

definition parse_redirect_code :: "runtime \<Rightarrow> ustr \<Rightarrow> u16 presult" where
  "parse_redirect_code rt code =
     (if code = lit ''301'' then Inr 301
      else if code = lit ''302'' then Inr 302
      else Inl (invalid_message rt [lit ''invalid redirect code: '', code]))"

definition Redirect_parse :: "runtime \<Rightarrow> ustr \<Rightarrow> RedirectMessage presult" where
  "Redirect_parse rt body =
     and_then (enforce_message_limit Redirect (len body) MAX_CONTROL_MESSAGE_SIZE) (\<lambda>_.
     (case lines body of
        [] \<Rightarrow> Inl (InvalidMessage (lit ''empty REDIRECT body''))
      | first # _ \<Rightarrow>
          (case strip_prefix (lit ''REDIRECT '') first of
             None \<Rightarrow> Inl (invalid_message rt [lit ''expected REDIRECT, got: '', first])
           | Some rest \<Rightarrow>
               and_then (ok_or (InvalidMessage (lit ''REDIRECT missing target''))
                           (split_once (lit '' '') rest)) (\<lambda>(code_str, target).
               and_then (parse_redirect_code rt code_str) (\<lambda>code.
               and_then (validate_primary_value rt (lit ''REDIRECT target'') target) (\<lambda>_.
               if length (lines body) \<noteq> 1
               then Inl (InvalidMessage (lit ''REDIRECT must not contain metadata''))
               else map_ok (\<lambda>t. \<lparr>redirect_code = code, redirect_target = t\<rparr>)
                      (try_owned_string rt target)))))))"

definition Redirect_serialize :: "runtime \<Rightarrow> RedirectMessage \<Rightarrow> ustr presult" where
  "Redirect_serialize rt m =
     and_then (checked_add_size (len (lit ''REDIRECT  '') + 1 + decimal_len (unat (redirect_code m)))
                 (len (redirect_target m))) (\<lambda>requested.
     emit rt Redirect MAX_CONTROL_MESSAGE_SIZE
       (lit ''REDIRECT '' @ show_nat (unat (redirect_code m)) @ lit '' '' @ redirect_target m @ [LF])
       requested)"

definition validate_redirect_body :: "runtime \<Rightarrow> ustr \<Rightarrow> unit presult" where
  "validate_redirect_body rt body =
     and_then (enforce_message_limit Redirect (len body) MAX_CONTROL_MESSAGE_SIZE) (\<lambda>_.
     (case lines body of
        [] \<Rightarrow> Inl (InvalidMessage (lit ''empty REDIRECT body''))
      | first # _ \<Rightarrow>
          (case strip_prefix (lit ''REDIRECT '') first of
             None \<Rightarrow> Inl (invalid_message rt [lit ''expected REDIRECT, got: '', first])
           | Some rest \<Rightarrow>
               and_then (ok_or (InvalidMessage (lit ''REDIRECT missing target''))
                           (split_once (lit '' '') rest)) (\<lambda>(code, target).
               and_then (parse_redirect_code rt code) (\<lambda>_.
               and_then (validate_primary_value rt (lit ''REDIRECT target'') target) (\<lambda>_.
               and_then (AtpUri_parse rt target) (\<lambda>_.
               if length (lines body) \<noteq> 1
               then Inl (InvalidMessage (lit ''REDIRECT must not contain metadata''))
               else Inr ())))))))"

section \<open>ERROR\<close>

record ErrorMessage =
  error_code :: u16
  error_message :: "ustr option"

definition parse_error_code :: "runtime \<Rightarrow> ustr \<Rightarrow> u16 presult" where
  "parse_error_code rt code =
     (if len code \<noteq> 3 \<or> \<not> list_all is_ascii_digit code
      then Inl (invalid_message rt [lit ''invalid error code: '', code])
      else ok_or (invalid_message rt [lit ''invalid error code: '', code]) (parse_u16 code))"

definition error_field :: "runtime \<Rightarrow> ustr option \<times> bool \<Rightarrow> ustr \<Rightarrow> (ustr option \<times> bool) presult" where
  "error_field rt st line =
     (case st of (message, seen_message) \<Rightarrow>
        and_then (parse_control_field rt line) (\<lambda>(key, value).
        if key \<noteq> lit ''Message'' then Inl (invalid_message rt [lit ''unknown ERROR field: '', key])
        else if seen_message then Inl (InvalidMessage (lit ''duplicate ERROR field: Message''))
        else map_ok (\<lambda>v. (Some v, True)) (try_owned_string rt value)))"

definition Error_parse :: "runtime \<Rightarrow> ustr \<Rightarrow> ErrorMessage presult" where
  "Error_parse rt body =
     and_then (enforce_message_limit ErrorMsg (len body) MAX_CONTROL_MESSAGE_SIZE) (\<lambda>_.
     (case lines body of
        [] \<Rightarrow> Inl (InvalidMessage (lit ''empty ERROR body''))
      | first # rest \<Rightarrow>
          (case strip_prefix (lit ''ERROR '') first of
             None \<Rightarrow> Inl (invalid_message rt [lit ''expected ERROR code, got: '', first])
           | Some stripped \<Rightarrow>
               and_then (parse_error_code rt stripped) (\<lambda>code.
               map_ok (\<lambda>st. \<lparr>error_code = code, error_message = fst st\<rparr>)
                 (try_fold (error_field rt) (None, False) rest)))))"

definition Error_serialize :: "runtime \<Rightarrow> ErrorMessage \<Rightarrow> ustr presult" where
  "Error_serialize rt m =
     (let requested = len (lit ''ERROR '') + 1 + decimal_len (unat (error_code m)) in
      and_then (case error_message m of None \<Rightarrow> Inr requested
                | Some message \<Rightarrow>
                    and_then (checked_add_size requested (len (lit ''Message: '') + 1)) (\<lambda>requested.
                    checked_add_size requested (len message))) (\<lambda>requested.
      emit rt ErrorMsg MAX_CONTROL_MESSAGE_SIZE
        (lit ''ERROR '' @ show_nat (unat (error_code m)) @ [LF] @
         put_field (lit ''Message: '') (error_message m)) requested))"

definition validate_error_line :: "runtime \<Rightarrow> bool \<Rightarrow> ustr \<Rightarrow> bool presult" where
  "validate_error_line rt seen_message line =
     and_then (parse_control_field rt line) (\<lambda>(key, _).
     if key \<noteq> lit ''Message'' then Inl (invalid_message rt [lit ''unknown ERROR field: '', key])
     else if seen_message then Inl (InvalidMessage (lit ''duplicate ERROR field: Message''))
     else Inr True)"

definition validate_error_body :: "runtime \<Rightarrow> ustr \<Rightarrow> unit presult" where
  "validate_error_body rt body =
     and_then (enforce_message_limit ErrorMsg (len body) MAX_CONTROL_MESSAGE_SIZE) (\<lambda>_.
     (case lines body of
        [] \<Rightarrow> Inl (InvalidMessage (lit ''empty ERROR body''))
      | first # rest \<Rightarrow>
          (case strip_prefix (lit ''ERROR '') first of
             None \<Rightarrow> Inl (invalid_message rt [lit ''expected ERROR code, got: '', first])
           | Some code \<Rightarrow>
               and_then (parse_error_code rt code) (\<lambda>_.
               map_ok (\<lambda>_. ()) (try_fold (validate_error_line rt) False rest)))))"

end
