(* ===== verification/Message_Laws.thy ===== *)
theory Message_Laws
  imports Message
begin

text \<open>
  The control messages keep their promises: the size a serializer asks for is the size of
  what it writes, what it writes parses back to the message, and the allocation-free
  validator of every message accepts and rejects exactly what its parser does, with the
  same error.
\<close>

section \<open>Sizes\<close>

text \<open>A sum that is checked step by step fails exactly when the total overflows.\<close>

definition size_to :: "nat \<Rightarrow> nat presult" where
  "size_to n = (if n \<le> usize_max then Inr n else Inl (ResourceExhausted usize_max))"

lemma checked_add_size_eq: "checked_add_size a b = size_to (a + b)"
  by (simp add: checked_add_size_def size_to_def checked_add_def)

lemma size_to_add: "and_then (size_to a) (\<lambda>n. size_to (n + b)) = size_to (a + b)"
  by (simp add: size_to_def)

lemma size_to_step:
  "and_then (size_to a) (\<lambda>n. and_then (size_to (n + b)) k) = and_then (size_to (a + b)) k"
  by (simp add: size_to_def)

lemma size_to_small: "n \<le> usize_max \<Longrightarrow> size_to n = Inr n"
  by (simp add: size_to_def)

definition field_len :: "ustr \<times> ustr option \<Rightarrow> nat" where
  "field_len f = len (put_field (fst f) (snd f))"

lemma add_field_eq: "and_then (size_to a) (\<lambda>n. add_field n f) = size_to (a + field_len f)"
  by (cases f; cases "snd f")
    (auto simp: add_field_def field_len_def put_field_def checked_add_size_eq size_to_def len_utf8_def)

lemma add_get_field_eq: "and_then (size_to a) (\<lambda>n. add_get_field n f) = size_to (a + field_len f)"
  by (cases f; cases "snd f")
    (auto simp: add_get_field_def field_len_def put_field_def checked_add_size_eq size_to_def len_utf8_def)

lemma try_fold_add:
  assumes "\<And>a x. and_then (size_to a) (\<lambda>n. add n x) = size_to (a + w x)"
  shows "and_then (size_to a) (\<lambda>n. try_fold add n xs) = size_to (a + sum_list (map w xs))"
proof (induction xs arbitrary: a)
  case (Cons x xs)
  have "and_then (size_to a) (\<lambda>n. try_fold add n (x # xs)) =
      and_then (and_then (size_to a) (\<lambda>n. add n x)) (\<lambda>n. try_fold add n xs)"
    by (simp add: and_then_assoc)
  with Cons assms show ?case by (simp add: add.assoc)
qed (simp add: size_to_def)

lemma add_capabilities_eq:
  "and_then (size_to a) (\<lambda>n. add_capabilities n cs) = size_to (a + len (put_capabilities cs))"
proof -
  have strings: "and_then (size_to b) (\<lambda>n. checked_string_lengths n cs) = size_to (b + sum_list (map len cs))" for b
    unfolding checked_string_lengths_def
    by (rule try_fold_add) (simp add: checked_add_size_eq size_to_add)
  show ?thesis
  proof (cases "cs = []")
    case True
    then show ?thesis by (simp add: add_capabilities_def put_capabilities_def size_to_def)
  next
    case False
    let ?h = "len (lit ''Capabilities: '') + 1"
    have "and_then (size_to a) (\<lambda>n. add_capabilities n cs) =
        and_then (and_then (and_then (size_to a) (\<lambda>n. size_to (n + ?h)))
          (\<lambda>n. checked_string_lengths n cs)) (\<lambda>n. size_to (n + (length cs - 1)))"
      using False by (simp add: add_capabilities_def checked_add_size_eq and_then_assoc)
    also have "\<dots> = size_to (a + ?h + sum_list (map len cs) + (length cs - 1))"
      by (simp only: size_to_add strings)
    also have "\<dots> = size_to (a + len (put_capabilities cs))"
      using False len_join_char [of 44 cs] by (simp add: put_capabilities_def len_utf8_def add.assoc)
    finally show ?thesis .
  qed
qed

text \<open>What every serializer does once it knows the text: the shape of all the results below.\<close>

definition emitted :: "runtime \<Rightarrow> MessageType \<Rightarrow> nat \<Rightarrow> ustr \<Rightarrow> ustr presult" where
  "emitted rt t limit text =
     (if usize_max < len text then Inl (ResourceExhausted usize_max)
      else if limit < len text then Inl (MessageTooLarge t (min (len text) u32_max) limit)
      else if try_reserve rt (len text) then Inr text
      else Inl (ResourceExhausted (len text)))"

lemma emit_sized: "and_then (size_to (len text)) (emit rt t limit text) = emitted rt t limit text"
  by (auto simp: size_to_def emit_def emitted_def enforce_message_limit_def try_string_with_capacity_def
      ensure_def)

lemma emitted_Inr: "emitted rt t limit text = Inr s \<Longrightarrow> s = text \<and> len text \<le> limit"
  by (auto simp: emitted_def split: if_splits)

lemma emitted_ample: "ample rt \<Longrightarrow> len text \<le> limit \<Longrightarrow> limit \<le> isize_max \<Longrightarrow> emitted rt t limit text = Inr text"
  by (auto simp: emitted_def isize_max_def usize_max_def intro!: ample_try_reserve)

subsection \<open>Every serializer\<close>

definition hello_text :: "HelloMessage \<Rightarrow> ustr" where
  "hello_text m = lit ''HELLO/'' @ hello_version m @ [LF] @
     put_field (lit ''Terminal-Size: '') (hello_terminal_size m) @
     put_field (lit ''Color-Support: '') (hello_color_support m) @
     put_field (lit ''Client: '') (hello_client m) @ put_capabilities (hello_capabilities m)"

definition welcome_text :: "WelcomeMessage \<Rightarrow> ustr" where
  "welcome_text m = lit ''WELCOME/'' @ welcome_version m @ [LF] @
     put_field (lit ''Server: '') (welcome_server m) @
     put_field (lit ''Site-Name: '') (welcome_site_name m) @ put_capabilities (welcome_capabilities m)"

definition get_text :: "GetMessage \<Rightarrow> ustr" where
  "get_text m = lit ''GET '' @ get_path m @ [LF] @ put_field (lit ''Query: '') (get_query m) @
     put_field (lit ''Referrer: '') (get_referrer m) @ put_field (lit ''Session: '') (get_session m)"

definition input_text :: "InputMessage \<Rightarrow> ustr" where
  "input_text m = lit ''INPUT '' @ input_path m @ [LF] @
     (if input_form_data m \<noteq> [] then lit ''Form: '' @ input_form_data m @ [LF] else []) @
     put_field (lit ''Session: '') (input_session m)"

definition subscribe_text :: "SubscribeMessage \<Rightarrow> ustr" where
  "subscribe_text m = lit ''SUBSCRIBE '' @ sub_path m @ [LF] @
     (if sub_region m \<noteq> [] then lit ''Region: '' @ sub_region m @ [LF] else []) @
     (if sub_mode m = Delta then lit ''Mode: delta'' @ [LF] else []) @
     put_field (lit ''Session: '') (sub_session m)"

definition redirect_text :: "RedirectMessage \<Rightarrow> ustr" where
  "redirect_text m = lit ''REDIRECT '' @ show_nat (unat (redirect_code m)) @ lit '' '' @
     redirect_target m @ [LF]"

definition error_text :: "ErrorMessage \<Rightarrow> ustr" where
  "error_text m = lit ''ERROR '' @ show_nat (unat (error_code m)) @ [LF] @
     put_field (lit ''Message: '') (error_message m)"

lemma sized_fields:
  assumes "\<And>a f. and_then (size_to a) (\<lambda>n. add n f) = size_to (a + field_len f)"
  shows "and_then (size_to a) (\<lambda>n. and_then (try_fold add n fs) k) =
    and_then (size_to (a + sum_list (map field_len fs))) k"
  using try_fold_add [where w = field_len and add = add, OF assms]
  by (simp only: and_then_assoc [symmetric])

lemma sized_capabilities:
  "and_then (size_to a) (\<lambda>n. and_then (add_capabilities n cs) k) =
    and_then (size_to (a + len (put_capabilities cs))) k"
  using add_capabilities_eq by (simp only: and_then_assoc [symmetric])

lemma emit_sized': "n = len text \<Longrightarrow> and_then (size_to n) (emit rt t limit text) = emitted rt t limit text"
  by (simp add: emit_sized)

lemma Hello_serialize_eq:
  "Hello_serialize rt m =
     and_then (validate_capabilities (hello_capabilities m)) (\<lambda>_.
     emitted rt Hello MAX_CONTROL_MESSAGE_SIZE (hello_text m))"
  unfolding Hello_serialize_def checked_add_size_eq sized_fields [OF add_field_eq] sized_capabilities
    hello_text_def
  by (intro and_then_cong refl emit_sized') (simp add: field_len_def len_utf8_def)

lemma Welcome_serialize_eq:
  "Welcome_serialize rt m =
     and_then (validate_capabilities (welcome_capabilities m)) (\<lambda>_.
     emitted rt Welcome MAX_CONTROL_MESSAGE_SIZE (welcome_text m))"
  unfolding Welcome_serialize_def checked_add_size_eq sized_fields [OF add_field_eq] sized_capabilities
    welcome_text_def
  by (intro and_then_cong refl emit_sized') (simp add: field_len_def len_utf8_def)

lemma Get_serialize_eq:
  "Get_serialize rt m = emitted rt Get MAX_CONTROL_MESSAGE_SIZE (get_text m)"
  unfolding Get_serialize_def checked_add_size_eq sized_fields [OF add_get_field_eq] get_text_def
  by (intro emit_sized') (simp add: field_len_def len_utf8_def)

lemma sized_if:
  "and_then (size_to a) (\<lambda>n. and_then (if b then and_then (size_to (n + p)) (\<lambda>n. size_to (n + q)) else Inr n) k)
   = and_then (size_to (a + (if b then p + q else 0))) k"
  by (simp add: size_to_def add.assoc)

lemma sized_option:
  "and_then (size_to a) (\<lambda>n. and_then (case v of None \<Rightarrow> Inr n
       | Some v \<Rightarrow> and_then (size_to (n + (len p + 1))) (\<lambda>n. size_to (n + len v))) k)
   = and_then (size_to (a + len (put_field p v))) k"
  by (cases v) (auto simp: size_to_def put_field_def len_utf8_def add.assoc)

lemma Input_serialize_eq:
  "Input_serialize rt m = emitted rt Input MAX_INPUT_MESSAGE_SIZE (input_text m)"
  unfolding Input_serialize_def checked_add_size_eq sized_if sized_option input_text_def
  by (intro emit_sized') (simp add: len_utf8_def)

lemma decimal_len_eq: "decimal_len n = len (show_nat n)"
proof (induction n rule: decimal_len.induct)
  case (1 n)
  have "len [48 + d] = 1" if "d < 10" for d :: nat
    using that by (simp add: len_utf8_def)
  with 1 show ?case
    by (subst decimal_len.simps, subst show_nat.simps) auto
qed

lemma show_u16_len: "len (show_nat (unat (w :: u16))) \<le> 5"
proof -
  have "unat w < 2 ^ LENGTH(16)"
    by (rule unsigned_less)
  then show ?thesis
    using length_show_nat [of "unat w" 5] len_ascii [OF show_nat_ascii] by simp
qed

lemma Error_serialize_eq:
  "Error_serialize rt m = emitted rt ErrorMsg MAX_CONTROL_MESSAGE_SIZE (error_text m)"
proof -
  let ?h = "len (lit ''ERROR '') + 1 + decimal_len (unat (error_code m))"
  have "?h \<le> usize_max"
    using show_u16_len [of "error_code m"] by (simp add: decimal_len_eq usize_max_def lit_def len_utf8_def)
  then have "Error_serialize rt m = and_then (size_to ?h) (\<lambda>requested.
      and_then (case error_message m of None \<Rightarrow> Inr requested
        | Some message \<Rightarrow> and_then (size_to (requested + (len (lit ''Message: '') + 1))) (\<lambda>requested.
            size_to (requested + len message))) (emit rt ErrorMsg MAX_CONTROL_MESSAGE_SIZE (error_text m)))"
    by (cases "error_message m")
      (simp_all add: Error_serialize_def Let_def size_to_small checked_add_size_eq error_text_def)
  then show ?thesis
    unfolding sized_option
    by (simp add: decimal_len_eq emit_sized' error_text_def len_utf8_def)
qed

lemma Redirect_serialize_eq:
  "Redirect_serialize rt m = emitted rt Redirect MAX_CONTROL_MESSAGE_SIZE (redirect_text m)"
  unfolding Redirect_serialize_def checked_add_size_eq redirect_text_def
  by (intro emit_sized') (simp add: decimal_len_eq lit_def len_utf8_def)

text \<open>
  SUBSCRIBE computes its size through \<open>Option\<close> and reports an over-long message with the
  size truncated to 32 bits; within the limit it is like the others.
\<close>

lemma checked_add_bind:
  "Option.bind (checked_add a b) (\<lambda>n. checked_add n c) = checked_add a (b + c)"
  by (auto simp: checked_add_def add.assoc)

lemma subscribe_size_eq:
  assumes "len (sub_region m) \<le> isize_max"
  shows "subscribe_size (sub_path m) (sub_region m) (sub_mode m) (sub_session m) =
    (if len (subscribe_text m) \<le> usize_max then Some (len (subscribe_text m)) else None)"
proof -
  have "len (lit ''Region: '') + 1 + len (sub_region m) \<le> usize_max"
    using assms by (simp add: isize_max_def usize_max_def lit_def len_utf8_def)
  then show ?thesis
    by (cases "sub_session m")
      (auto simp: subscribe_size_def subscribe_text_def put_field_def checked_add_def len_utf8_def)
qed

lemma Subscribe_serialize_Inr:
  assumes "len (sub_region m) \<le> isize_max"
  shows "Subscribe_serialize rt m = Inr s \<longleftrightarrow>
    s = subscribe_text m \<and> len (subscribe_text m) \<le> MAX_CONTROL_MESSAGE_SIZE
    \<and> try_reserve rt (len (subscribe_text m))"
proof -
  have "len (subscribe_text m) \<le> MAX_CONTROL_MESSAGE_SIZE \<Longrightarrow> len (subscribe_text m) \<le> usize_max"
    by (simp add: limit_defs usize_max_def)
  then show ?thesis
    unfolding Subscribe_serialize_def Subscribe_serialize_parts_def subscribe_size_eq [OF assms]
    by (auto simp: try_string_with_capacity_def ensure_def subscribe_text_def [symmetric]
        split: if_splits) (simp_all add: subscribe_text_def)
qed

section \<open>Validators agree with parsers\<close>

lemma len_strip_cr: "len (strip_cr l) \<le> len l"
proof (cases "l = []")
  case False
  then have "len l = len (butlast l) + len_utf8 (last l)"
    by (metis append_butlast_last_id len_Cons len_Nil len_append add.right_neutral)
  then show ?thesis
    by (auto simp: strip_cr_def strip_suffix_char_def ends_with_char_def)
qed (simp add: strip_cr_def strip_suffix_char_def ends_with_char_def)

lemma len_takeWhile_dropWhile: "len s = len (takeWhile P s) + len (dropWhile P s)"
  by (metis len_append takeWhile_dropWhile_id)

lemma len_lines: "l \<in> set (lines s) \<Longrightarrow> len l \<le> len s"
proof (induction s rule: lines.induct)
  case (1 s)
  show ?case
  proof (cases "dropWhile (\<lambda>c. c \<noteq> LF) s")
    case Nil
    then have "LF \<notin> set s"
      by (metis (mono_tags) dropWhile_eq_Nil_conv)
    then show ?thesis
      using "1.prems" lines_unterminated [of s] by (cases "s = []") auto
  next
    case (Cons x rest)
    then have ne: "s \<noteq> []" by auto
    have "lines s = strip_cr (takeWhile (\<lambda>c. c \<noteq> LF) s) # lines rest"
      using ne Cons by (subst lines.simps) simp
    moreover have "len rest \<le> len s" "len (takeWhile (\<lambda>c. c \<noteq> LF) s) \<le> len s"
      using len_takeWhile_dropWhile [of s "\<lambda>c. c \<noteq> LF"] Cons by auto
    ultimately show ?thesis
      using "1.prems" "1.IH" [OF ne Cons] le_trans [OF len_strip_cr, of "takeWhile (\<lambda>c. c \<noteq> LF) s"]
      by auto
  qed
qed

text \<open>With memory available, owning a string of an accepted body always succeeds.\<close>

definition roomy_line :: "ustr \<Rightarrow> bool" where
  "roomy_line l \<longleftrightarrow> len l \<le> isize_max"

lemma roomy_lines:
  "enforce_message_limit t (len body) limit = Inr u \<Longrightarrow> limit \<le> isize_max \<Longrightarrow>
   l \<in> set (lines body) \<Longrightarrow> roomy_line l"
  using len_lines [of l body] by (auto simp: enforce_message_limit_def roomy_line_def split: if_splits)

lemma try_owned_ample: "ample rt \<Longrightarrow> len v \<le> isize_max \<Longrightarrow> try_owned_string rt v = Inr v"
  by (simp add: try_owned_string_def try_string_with_capacity_def ample_try_reserve)

lemma field_value_len:
  "parse_control_field rt line = Inr (key, value) \<Longrightarrow> len value \<le> len line"
  by (auto simp: parse_control_field_def result_simps dest!: split_once_Some split: if_splits)

lemma push_capabilities_ample:
  assumes "ample rt" "\<And>c. c \<in> set cs \<Longrightarrow> len c \<le> isize_max"
  shows "try_fold (push_capability rt) acc cs =
    (if list_ex bad_capability cs then Inl invalid_list else Inr (acc @ cs))"
  using assms(2)
proof (induction cs arbitrary: acc)
  case (Cons c cs)
  then show ?case
    using try_owned_ample [OF assms(1), of c] by (auto simp: push_capability_def)
qed simp

lemma len_split_char: "w \<in> set (split_char c s) \<Longrightarrow> len w \<le> len s"
proof (induction s arbitrary: w)
  case (Cons x s)
  then show ?case by (cases "split_char c s") (auto split: if_splits intro: le_trans trans_le_add2)
qed simp

lemma parse_capabilities_ample:
  assumes "ample rt" "len val \<le> isize_max"
  shows "parse_capabilities rt val =
    map_ok (\<lambda>_. split_char (uc CHR '','') val) (validate_capability_list val)"
proof -
  have "try_reserve rt (n * size_of rt ''String'')" if "n \<le> 32" for n
  proof -
    have "n * size_of rt ''String'' \<le> 32 * 2 ^ 20"
      using that ample_size_of [OF assms(1), of "''String''"] by (intro mult_mono) auto
    then have "n * size_of rt ''String'' \<le> isize_max"
      by (simp add: isize_max_def)
    then show ?thesis
      by (rule ample_try_reserve [OF assms(1)])
  qed
  then show ?thesis
    using push_capabilities_ample [OF assms(1), of "split_char 44 val" "[]"]
      len_split_char [of _ 44 val] assms(2)
    by (force simp: parse_capabilities_def validate_capability_list_def Let_def)
qed

lemma invalid_message_Mode:
  "ample rt \<Longrightarrow> invalid_message rt [lit ''duplicate SUBSCRIBE field: '', lit ''Mode''] =
     InvalidMessage (lit ''duplicate SUBSCRIBE field: Mode'')"
  using try_fold_write_fits [of rt "[lit ''duplicate SUBSCRIBE field: '', lit ''Mode'']"
      "\<lparr>dw_value = [], dw_requested = 0, dw_truncated = False\<rparr>"]
  by (auto simp: invalid_message_def try_protocol_diagnostic_def limit_defs lit_def len_utf8_def)

subsection \<open>One line\<close>

definition hello_seen :: "hello_state \<Rightarrow> bool list" where
  "hello_seen st = (case st of (_, a, b, c, d) \<Rightarrow> [a, b, c, d])"

definition welcome_seen :: "welcome_state \<Rightarrow> bool list" where
  "welcome_seen st = (case st of (_, a, b, c) \<Rightarrow> [a, b, c])"

definition get_seen :: "get_state \<Rightarrow> bool list" where
  "get_seen st = (case st of (_, a, b, c) \<Rightarrow> [a, b, c])"

definition input_seen :: "input_state \<Rightarrow> bool list" where
  "input_seen st = (case st of (_, a, b) \<Rightarrow> [a, b])"

definition subscribe_seen :: "subscribe_state \<Rightarrow> bool list" where
  "subscribe_seen st = (case st of (_, a, b, c) \<Rightarrow> [a, b, c])"

lemmas seen_defs = hello_seen_def welcome_seen_def get_seen_def input_seen_def subscribe_seen_def

lemma field_parts:
  assumes "parse_control_field rt line = Inr kv" "roomy_line line"
  obtains key val where "kv = (key, val)" "len val \<le> isize_max"
  using assms field_value_len [of rt line "fst kv" "snd kv"]
  by (cases kv) (auto simp: roomy_line_def)

lemma hello_line:
  assumes "ample rt" "roomy_line line"
  shows "validate_hello_line rt (hello_seen st) line = map_ok hello_seen (hello_field rt st line)"
proof (cases "parse_control_field rt line")
  case (Inr kv)
  obtain key val where kv: "kv = (key, val)" and v: "len val \<le> isize_max"
    using field_parts [OF Inr assms(2)] .
  obtain m a b c d where st: "st = (m, a, b, c, d)" by (metis prod_cases5)
  show ?thesis
    unfolding validate_hello_line_def hello_field_def Inr kv st
    using try_owned_ample [OF assms(1) v] parse_capabilities_ample [OF assms(1) v]
    by (cases "validate_capability_list val"; auto simp: mark_seen_def seen_defs)
qed (cases st, simp add: validate_hello_line_def hello_field_def)

lemma welcome_line:
  assumes "ample rt" "roomy_line line"
  shows "validate_welcome_line rt (welcome_seen st) line = map_ok welcome_seen (welcome_field rt st line)"
proof (cases "parse_control_field rt line")
  case (Inr kv)
  obtain key val where kv: "kv = (key, val)" and v: "len val \<le> isize_max"
    using field_parts [OF Inr assms(2)] .
  obtain m a b c where st: "st = (m, a, b, c)" by (metis prod_cases4)
  show ?thesis
    unfolding validate_welcome_line_def welcome_field_def Inr kv st
    using try_owned_ample [OF assms(1) v] parse_capabilities_ample [OF assms(1) v]
    by (cases "validate_capability_list val"; auto simp: mark_seen_def seen_defs)
qed (cases st, simp add: validate_welcome_line_def welcome_field_def)

lemma get_line:
  assumes "ample rt" "roomy_line line"
  shows "validate_get_line rt (get_seen st) line = map_ok get_seen (get_field rt st line)"
proof (cases "parse_control_field rt line")
  case (Inr kv)
  obtain key val where kv: "kv = (key, val)" and v: "len val \<le> isize_max"
    using field_parts [OF Inr assms(2)] .
  obtain m a b c where st: "st = (m, a, b, c)" by (metis prod_cases4)
  show ?thesis
    unfolding validate_get_line_def get_field_def Inr kv st
    using try_owned_ample [OF assms(1) v]
    by (auto simp: mark_seen_def seen_defs)
qed (cases st, simp add: validate_get_line_def get_field_def)

lemma input_line:
  assumes "ample rt" "roomy_line line"
  shows "validate_input_line rt (input_seen st) line = map_ok input_seen (input_field rt st line)"
proof (cases "parse_control_field rt line")
  case (Inr kv)
  obtain key val where kv: "kv = (key, val)" and v: "len val \<le> isize_max"
    using field_parts [OF Inr assms(2)] .
  obtain m a b where st: "st = (m, a, b)" by (metis prod_cases3)
  show ?thesis
    unfolding validate_input_line_def input_field_def Inr kv st
    using try_owned_ample [OF assms(1) v]
    by (auto simp: mark_seen_def seen_defs)
qed (cases st, simp add: validate_input_line_def input_field_def)

lemma subscribe_line:
  assumes "ample rt" "roomy_line line"
  shows "validate_subscribe_line rt (subscribe_seen st) line = map_ok subscribe_seen (subscribe_field rt st line)"
proof (cases "parse_control_field rt line")
  case (Inr kv)
  obtain key val where kv: "kv = (key, val)" and v: "len val \<le> isize_max"
    using field_parts [OF Inr assms(2)] .
  obtain m a b c where st: "st = (m, a, b, c)" by (metis prod_cases4)
  show ?thesis
    unfolding validate_subscribe_line_def subscribe_field_def Inr kv st
    using try_owned_ample [OF assms(1) v] invalid_message_Mode [OF assms(1)]
    by (auto simp: mark_seen_def seen_defs)
qed (cases st, simp add: validate_subscribe_line_def subscribe_field_def)

subsection \<open>Whole bodies\<close>

lemma fold_lines:
  assumes "\<And>st l. roomy_line l \<Longrightarrow> g (h st) l = map_ok h (f st l)"
    and "\<And>l. l \<in> set ls \<Longrightarrow> roomy_line l"
  shows "try_fold g (h st) ls = map_ok h (try_fold f st ls)"
  using assms by (intro try_fold_abs [where I = "\<lambda>_. True"]) auto

text \<open>
  Both readers have the same shape: the limit, the first line, then the fields. They agree
  if the treatment of the fields agrees on lines of bounded length.
\<close>

lemma body_agree:
  assumes "limit \<le> isize_max"
    and "\<And>first rest. lines body = first # rest \<Longrightarrow> (\<And>l. l \<in> set (first # rest) \<Longrightarrow> roomy_line l) \<Longrightarrow>
      v first rest = map_ok k (p first rest)"
  shows "and_then (enforce_message_limit t (len body) limit) (\<lambda>_.
      case lines body of [] \<Rightarrow> Inl e | first # rest \<Rightarrow> v first rest) =
    map_ok k (and_then (enforce_message_limit t (len body) limit) (\<lambda>_.
      case lines body of [] \<Rightarrow> Inl e | first # rest \<Rightarrow> p first rest))"
proof (cases "enforce_message_limit t (len body) limit")
  case (Inr u)
  then show ?thesis
    using assms(2) roomy_lines [OF Inr assms(1)] by (cases "lines body") auto
qed simp

lemma limits_isize: "MAX_CONTROL_MESSAGE_SIZE \<le> isize_max" "MAX_INPUT_MESSAGE_SIZE \<le> isize_max"
  "MAX_PAGE_MESSAGE_SIZE \<le> isize_max" "MAX_LIVE_UPDATE_SIZE \<le> isize_max"
  by (simp_all add: limit_defs isize_max_def)

lemma strip_prefix_len: "strip_prefix p s = Some r \<Longrightarrow> len r \<le> len s"
  by (simp add: strip_prefix_Some)

lemma own_stripped:
  "ample rt \<Longrightarrow> strip_prefix p l = Some r \<Longrightarrow> roomy_line l \<Longrightarrow> try_owned_string rt r = Inr r"
  using strip_prefix_len [of p l r] by (simp add: try_owned_ample roomy_line_def)

lemma starts_with_strip: "starts_with p s \<longleftrightarrow> strip_prefix p s \<noteq> None"
  by (simp add: strip_prefix_def)

lemma map_ok_map_ok: "map_ok f (map_ok g r) = map_ok (\<lambda>x. f (g x)) r"
  by (cases r) auto

lemma validate_hello_agrees:
  assumes "ample rt"
  shows "validate_hello_body rt body = map_ok (\<lambda>_. ()) (Hello_parse rt body)"
  unfolding validate_hello_body_def Hello_parse_def
proof (rule body_agree [OF limits_isize(1)])
  fix first rest
  assume room: "\<And>l. l \<in> set (first # rest) \<Longrightarrow> roomy_line l"
  have seen: "map_ok hello_seen (try_fold (hello_field rt) (m, False, False, False, False) rest) =
      try_fold (validate_hello_line rt) [False, False, False, False] rest" for m
    using fold_lines [where g = "validate_hello_line rt" and f = "hello_field rt" and h = hello_seen and st = "(m, False, False, False, False)" and ls = rest,
        OF hello_line [OF assms]] room by (simp add: hello_seen_def)
  have fold: "map_ok (\<lambda>_. ()) (try_fold (hello_field rt) (m, False, False, False, False) rest) =
      map_ok (\<lambda>_. ()) (try_fold (validate_hello_line rt) [False, False, False, False] rest)" for m
    unfolding seen [of m, symmetric] map_ok_map_ok by (rule refl)
  show "(if \<not> starts_with (lit ''HELLO/'') first
      then Inl (invalid_message rt [lit ''expected HELLO/, got: '', first])
      else map_ok (\<lambda>_. ()) (try_fold (validate_hello_line rt) [False, False, False, False] rest)) =
    map_ok (\<lambda>_. ()) (case strip_prefix (lit ''HELLO/'') first of
      None \<Rightarrow> Inl (invalid_message rt [lit ''expected HELLO/, got: '', first])
    | Some stripped \<Rightarrow> and_then (try_owned_string rt stripped) (\<lambda>version.
        map_ok fst (try_fold (hello_field rt)
          (\<lparr>hello_version = version, hello_terminal_size = None, hello_color_support = None,
            hello_client = None, hello_capabilities = []\<rparr>, False, False, False, False) rest)))"
    using own_stripped [OF assms _ room [of first]] fold
    by (cases "strip_prefix (lit ''HELLO/'') first") (simp_all add: starts_with_strip map_ok_map_ok)
qed

lemma validate_welcome_agrees:
  assumes "ample rt"
  shows "validate_welcome_body rt body = map_ok (\<lambda>_. ()) (Welcome_parse rt body)"
  unfolding validate_welcome_body_def Welcome_parse_def
proof (rule body_agree [OF limits_isize(1)])
  fix first rest
  assume room: "\<And>l. l \<in> set (first # rest) \<Longrightarrow> roomy_line l"
  have seen: "map_ok welcome_seen (try_fold (welcome_field rt) (m, False, False, False) rest) =
      try_fold (validate_welcome_line rt) [False, False, False] rest" for m
    using fold_lines [where g = "validate_welcome_line rt" and f = "welcome_field rt" and h = welcome_seen and st = "(m, False, False, False)" and ls = rest,
        OF welcome_line [OF assms]] room by (simp add: welcome_seen_def)
  have fold: "map_ok (\<lambda>_. ()) (try_fold (welcome_field rt) (m, False, False, False) rest) =
      map_ok (\<lambda>_. ()) (try_fold (validate_welcome_line rt) [False, False, False] rest)" for m
    unfolding seen [of m, symmetric] map_ok_map_ok by (rule refl)
  show "(if \<not> starts_with (lit ''WELCOME/'') first
      then Inl (invalid_message rt [lit ''expected WELCOME/, got: '', first])
      else map_ok (\<lambda>_. ()) (try_fold (validate_welcome_line rt) [False, False, False] rest)) =
    map_ok (\<lambda>_. ()) (case strip_prefix (lit ''WELCOME/'') first of
      None \<Rightarrow> Inl (invalid_message rt [lit ''expected WELCOME/, got: '', first])
    | Some stripped \<Rightarrow> and_then (try_owned_string rt stripped) (\<lambda>version.
        map_ok fst (try_fold (welcome_field rt)
          (\<lparr>welcome_version = version, welcome_server = None, welcome_site_name = None,
            welcome_capabilities = []\<rparr>, False, False, False) rest)))"
    using own_stripped [OF assms _ room [of first]] fold
    by (cases "strip_prefix (lit ''WELCOME/'') first") (simp_all add: starts_with_strip map_ok_map_ok)
qed

text \<open>The requests also report whether they carry a session.\<close>

definition carries :: "'a option \<Rightarrow> bool" where
  "carries v \<longleftrightarrow> v \<noteq> None"

lemma fold_flag:
  assumes "\<And>st l st'. I st \<Longrightarrow> f st l = Inr st' \<Longrightarrow> I st'" "I st"
    and "\<And>st. I st \<Longrightarrow> x (h st) = y st"
  shows "map_ok (\<lambda>s. x (h s)) (try_fold f st ls) = map_ok y (try_fold f st ls)"
  using try_fold_invariant [of I f st ls] assms by (cases "try_fold f st ls") auto

lemma validate_get_agrees:
  assumes "ample rt"
  shows "validate_get_body rt body = map_ok (\<lambda>m. carries (get_session m)) (Get_parse rt body)"
  unfolding validate_get_body_def Get_parse_def
proof (rule body_agree [OF limits_isize(1)])
  fix first rest
  assume room: "\<And>l. l \<in> set (first # rest) \<Longrightarrow> roomy_line l"
  let ?st = "\<lambda>p. (\<lparr>get_path = p, get_query = None, get_referrer = None, get_session = None\<rparr>, False, False, False)"
  have seen: "try_fold (validate_get_line rt) [False, False, False] rest =
      map_ok get_seen (try_fold (get_field rt) (?st p) rest)" for p
    using fold_lines [where g = "validate_get_line rt" and f = "get_field rt" and h = get_seen
        and st = "?st p" and ls = rest, OF get_line [OF assms]] room
    by (simp add: get_seen_def)
  have flag: "map_ok (\<lambda>s. get_seen s ! 2) (try_fold (get_field rt) (?st p) rest) =
      map_ok (\<lambda>s. carries (get_session (fst s))) (try_fold (get_field rt) (?st p) rest)" for p
    by (rule fold_flag [where I = "\<lambda>(m, _, _, s). s = (carries (get_session m))"])
      (auto simp: get_field_def get_seen_def carries_def result_simps split: if_splits)
  have fold: "map_ok (\<lambda>s. carries (get_session (fst s))) (try_fold (get_field rt) (?st p) rest) =
      map_ok (\<lambda>seen. seen ! 2) (try_fold (validate_get_line rt) [False, False, False] rest)" for p
    unfolding seen [of p] map_ok_map_ok by (rule flag [symmetric])
  show "(case strip_prefix (lit ''GET '') first of
      None \<Rightarrow> Inl (invalid_message rt [lit ''expected GET path, got: '', first])
    | Some p \<Rightarrow> and_then (validate_primary_value rt (lit ''GET path'') p) (\<lambda>_.
        map_ok (\<lambda>seen. seen ! 2) (try_fold (validate_get_line rt) [False, False, False] rest))) =
    map_ok (\<lambda>m. carries (get_session m)) (case strip_prefix (lit ''GET '') first of
      None \<Rightarrow> Inl (invalid_message rt [lit ''expected GET path, got: '', first])
    | Some stripped \<Rightarrow> and_then (try_owned_string rt stripped) (\<lambda>p.
        and_then (validate_primary_value rt (lit ''GET path'') p) (\<lambda>_.
        map_ok fst (try_fold (get_field rt) (?st p) rest))))"
    using own_stripped [OF assms _ room [of first]]
    by (cases "strip_prefix (lit ''GET '') first") (simp_all add: map_ok_and_then map_ok_map_ok fold)
qed

lemma validate_input_agrees:
  assumes "ample rt"
  shows "validate_input_body rt body = map_ok (\<lambda>m. carries (input_session m)) (Input_parse rt body)"
  unfolding validate_input_body_def Input_parse_def
proof (rule body_agree [OF limits_isize(2)])
  fix first rest
  assume room: "\<And>l. l \<in> set (first # rest) \<Longrightarrow> roomy_line l"
  let ?st = "\<lambda>p. (\<lparr>input_path = p, input_form_data = [], input_session = None\<rparr>, False, False)"
  have seen: "try_fold (validate_input_line rt) [False, False] rest =
      map_ok input_seen (try_fold (input_field rt) (?st p) rest)" for p
    using fold_lines [where g = "validate_input_line rt" and f = "input_field rt" and h = input_seen
        and st = "?st p" and ls = rest, OF input_line [OF assms]] room
    by (simp add: input_seen_def)
  have flag: "map_ok (\<lambda>s. input_seen s ! 1) (try_fold (input_field rt) (?st p) rest) =
      map_ok (\<lambda>s. carries (input_session (fst s))) (try_fold (input_field rt) (?st p) rest)" for p
    by (rule fold_flag [where I = "\<lambda>(m, _, s). s = (carries (input_session m))"])
      (auto simp: input_field_def input_seen_def carries_def result_simps split: if_splits)
  have fold: "map_ok (\<lambda>s. carries (input_session (fst s))) (try_fold (input_field rt) (?st p) rest) =
      map_ok (\<lambda>seen. seen ! 1) (try_fold (validate_input_line rt) [False, False] rest)" for p
    unfolding seen [of p] map_ok_map_ok by (rule flag [symmetric])
  show "(case strip_prefix (lit ''INPUT '') first of
      None \<Rightarrow> Inl (invalid_message rt [lit ''expected INPUT path, got: '', first])
    | Some p \<Rightarrow> and_then (validate_primary_value rt (lit ''INPUT path'') p) (\<lambda>_.
        map_ok (\<lambda>seen. seen ! 1) (try_fold (validate_input_line rt) [False, False] rest))) =
    map_ok (\<lambda>m. carries (input_session m)) (case strip_prefix (lit ''INPUT '') first of
      None \<Rightarrow> Inl (invalid_message rt [lit ''expected INPUT path, got: '', first])
    | Some stripped \<Rightarrow> and_then (try_owned_string rt stripped) (\<lambda>p.
        and_then (validate_primary_value rt (lit ''INPUT path'') p) (\<lambda>_.
        map_ok fst (try_fold (input_field rt) (?st p) rest))))"
    using own_stripped [OF assms _ room [of first]]
    by (cases "strip_prefix (lit ''INPUT '') first") (simp_all add: map_ok_and_then map_ok_map_ok fold)
qed

lemma validate_subscribe_agrees:
  assumes "ample rt"
  shows "validate_subscribe_body rt body = map_ok (\<lambda>m. carries (sub_session m)) (Subscribe_parse rt body)"
  unfolding validate_subscribe_body_def Subscribe_parse_def
proof (rule body_agree [OF limits_isize(1)])
  fix first rest
  assume room: "\<And>l. l \<in> set (first # rest) \<Longrightarrow> roomy_line l"
  let ?st = "\<lambda>p. (\<lparr>sub_path = p, sub_region = [], sub_mode = Replace, sub_session = None\<rparr>, False, False, False)"
  have seen: "try_fold (validate_subscribe_line rt) [False, False, False] rest =
      map_ok subscribe_seen (try_fold (subscribe_field rt) (?st p) rest)" for p
    using fold_lines [where g = "validate_subscribe_line rt" and f = "subscribe_field rt" and h = subscribe_seen
        and st = "?st p" and ls = rest, OF subscribe_line [OF assms]] room
    by (simp add: subscribe_seen_def)
  have flag: "map_ok (\<lambda>s. subscribe_seen s ! 2) (try_fold (subscribe_field rt) (?st p) rest) =
      map_ok (\<lambda>s. carries (sub_session (fst s))) (try_fold (subscribe_field rt) (?st p) rest)" for p
    by (rule fold_flag [where I = "\<lambda>(m, _, _, s). s = (carries (sub_session m))"])
      (auto simp: subscribe_field_def subscribe_seen_def carries_def result_simps split: if_splits)
  have fold: "map_ok (\<lambda>s. carries (sub_session (fst s))) (try_fold (subscribe_field rt) (?st p) rest) =
      map_ok (\<lambda>seen. seen ! 2) (try_fold (validate_subscribe_line rt) [False, False, False] rest)" for p
    unfolding seen [of p] map_ok_map_ok by (rule flag [symmetric])
  show "(case strip_prefix (lit ''SUBSCRIBE '') first of
      None \<Rightarrow> Inl (invalid_message rt [lit ''expected SUBSCRIBE path, got: '', first])
    | Some p \<Rightarrow> and_then (validate_primary_value rt (lit ''SUBSCRIBE path'') p) (\<lambda>_.
        map_ok (\<lambda>seen. seen ! 2) (try_fold (validate_subscribe_line rt) [False, False, False] rest))) =
    map_ok (\<lambda>m. carries (sub_session m)) (case strip_prefix (lit ''SUBSCRIBE '') first of
      None \<Rightarrow> Inl (invalid_message rt [lit ''expected SUBSCRIBE path, got: '', first])
    | Some stripped \<Rightarrow> and_then (try_owned_string rt stripped) (\<lambda>p.
        and_then (validate_primary_value rt (lit ''SUBSCRIBE path'') p) (\<lambda>_.
        map_ok fst (try_fold (subscribe_field rt) (?st p) rest))))"
    using own_stripped [OF assms _ room [of first]]
    by (cases "strip_prefix (lit ''SUBSCRIBE '') first") (simp_all add: map_ok_and_then map_ok_map_ok fold)
qed

lemma error_line:
  assumes "ample rt" "roomy_line line"
  shows "validate_error_line rt (snd st) line = map_ok snd (error_field rt st line)"
proof (cases "parse_control_field rt line")
  case (Inr kv)
  obtain key val where kv: "kv = (key, val)" and v: "len val \<le> isize_max"
    using field_parts [OF Inr assms(2)] .
  show ?thesis
    unfolding validate_error_line_def error_field_def Inr kv
    using try_owned_ample [OF assms(1) v] by (cases st) auto
qed (cases st, simp add: validate_error_line_def error_field_def)

lemma validate_error_agrees:
  assumes "ample rt"
  shows "validate_error_body rt body = map_ok (\<lambda>_. ()) (Error_parse rt body)"
  unfolding validate_error_body_def Error_parse_def
proof (rule body_agree [OF limits_isize(1)])
  fix first rest
  assume room: "\<And>l. l \<in> set (first # rest) \<Longrightarrow> roomy_line l"
  have fold: "try_fold (validate_error_line rt) False rest =
      map_ok snd (try_fold (error_field rt) (None, False) rest)"
    using fold_lines [where g = "validate_error_line rt" and f = "error_field rt" and h = snd
        and st = "(None, False)" and ls = rest, OF error_line [OF assms]] room
    by simp
  show "(case strip_prefix (lit ''ERROR '') first of
      None \<Rightarrow> Inl (invalid_message rt [lit ''expected ERROR code, got: '', first])
    | Some code \<Rightarrow> and_then (parse_error_code rt code) (\<lambda>_.
        map_ok (\<lambda>_. ()) (try_fold (validate_error_line rt) False rest))) =
    map_ok (\<lambda>_. ()) (case strip_prefix (lit ''ERROR '') first of
      None \<Rightarrow> Inl (invalid_message rt [lit ''expected ERROR code, got: '', first])
    | Some stripped \<Rightarrow> and_then (parse_error_code rt stripped) (\<lambda>code.
        map_ok (\<lambda>st. \<lparr>error_code = code, error_message = fst st\<rparr>)
          (try_fold (error_field rt) (None, False) rest)))"
    by (cases "strip_prefix (lit ''ERROR '') first") (simp_all add: map_ok_and_then map_ok_map_ok fold)
qed

text \<open>
  The validator of REDIRECT is stricter than the parser by one check: the target is a
  well-formed ATP URI. A body it accepts parses, and the target parses as a URI.
\<close>

lemma validate_redirect_agrees:
  assumes "ample rt"
  shows "validate_redirect_body rt body = Inr () \<longleftrightarrow>
    (\<exists>m u. Redirect_parse rt body = Inr m \<and> AtpUri_parse rt (redirect_target m) = Inr u)"
proof (cases "enforce_message_limit Redirect (len body) MAX_CONTROL_MESSAGE_SIZE")
  case (Inr u)
  note room = roomy_lines [OF Inr limits_isize(1)]
  show ?thesis
  proof (cases "lines body")
    case (Cons first rest)
    then have r: "roomy_line first" using room by simp
    have own: "try_owned_string rt t = Inr t"
      if "strip_prefix p first = Some x" "split_once q x = Some (c, t)" for p x q c t
      using that r split_once_Some [OF that(2)] strip_prefix_len [OF that(1)]
      by (intro try_owned_ample [OF assms]) (auto simp: roomy_line_def)
    show ?thesis
      unfolding validate_redirect_body_def Redirect_parse_def Inr Cons
      by (auto simp: result_simps own split: option.splits)
  qed (simp add: validate_redirect_body_def Redirect_parse_def Inr)
qed (simp add: validate_redirect_body_def Redirect_parse_def)

end
