(* ===== verification/Message_Codec.thy ===== *)
theory Message_Codec
  imports Message_Laws
begin

text \<open>
  Serializers and parsers of the control messages as codecs: one contract, stated as a
  locale and shown for all seven messages, gives the round trip, the size bound and the
  injectivity of the encoding.
\<close>

section \<open>The contract of a codec\<close>

text \<open>
  \<open>wf\<close> are the messages whose fields the wire format can carry, \<open>body_of\<close> is what a message is
  written as, \<open>ok\<close> says when the environment lets both directions work.
\<close>

locale codec =
  fixes serialize :: "'r \<Rightarrow> 'm \<Rightarrow> ustr presult"
    and parse :: "'r \<Rightarrow> ustr \<Rightarrow> 'm presult"
    and wf :: "'m \<Rightarrow> bool"
    and body_of :: "'m \<Rightarrow> ustr"
    and limit :: nat
    and ok :: "'r \<Rightarrow> bool"
  assumes writes_text: "wf m \<Longrightarrow> serialize rt m = Inr s \<Longrightarrow> s = body_of m \<and> len (body_of m) \<le> limit"
    and writes_all: "ok rt \<Longrightarrow> wf m \<Longrightarrow> len (body_of m) \<le> limit \<Longrightarrow> serialize rt m = Inr (body_of m)"
    and reads_text: "ok rt \<Longrightarrow> wf m \<Longrightarrow> len (body_of m) \<le> limit \<Longrightarrow> parse rt (body_of m) = Inr m"
begin

lemma roundtrip:
  assumes "ok rt" "wf m" "serialize rt m = Inr s"
  shows "parse rt s = Inr m \<and> len s \<le> limit"
  using writes_text [OF assms(2,3)] reads_text [OF assms(1,2)] by simp

lemma serialize_iff:
  assumes "ok rt" "wf m"
  shows "(\<exists>s. serialize rt m = Inr s) \<longleftrightarrow> len (body_of m) \<le> limit"
  using writes_text [OF assms(2)] writes_all [OF assms] by blast

lemma serialize_inject:
  assumes "ok rt" "wf m" "wf m'" "serialize rt m = Inr s" "serialize rt m' = Inr s"
  shows "m = m'"
  using roundtrip [OF assms(1,2,4)] roundtrip [OF assms(1,3,5)] by simp

end

section \<open>Lines and fields of a written message\<close>

definition clean :: "ustr \<Rightarrow> bool" where
  "clean s \<longleftrightarrow> \<not> list_ex is_control s"

definition value_ok :: "ustr \<Rightarrow> bool" where
  "value_ok v \<longleftrightarrow> v \<noteq> [] \<and> clean v"

definition opt_ok :: "ustr option \<Rightarrow> bool" where
  "opt_ok v \<longleftrightarrow> (case v of None \<Rightarrow> True | Some x \<Rightarrow> value_ok x)"

definition field_lines :: "ustr \<Rightarrow> ustr option \<Rightarrow> ustr list" where
  "field_lines prefix v = (case v of None \<Rightarrow> [] | Some x \<Rightarrow> [prefix @ x])"

lemma field_lines_simps [simp]: "field_lines p None = []" "field_lines p (Some x) = [p @ x]"
  by (simp_all add: field_lines_def)

lemma opt_ok_simps [simp]: "opt_ok None" "opt_ok (Some x) \<longleftrightarrow> value_ok x"
  by (simp_all add: opt_ok_def)

lemma clean_append [simp]: "clean (s @ t) \<longleftrightarrow> clean s \<and> clean t"
  by (simp add: clean_def)

lemma clean_lit: "list_all (\<lambda>c. 32 \<le> (of_char c :: nat) \<and> (of_char c :: nat) < 127) s \<Longrightarrow> clean (lit s)"
  by (auto simp: clean_def lit_def list_ex_iff list_all_iff is_control_def)

lemma clean_show_nat [simp]: "clean (show_nat n)"
  using show_nat_no_control by (auto simp: clean_def list_ex_iff)

lemma lines_clean: "clean l \<Longrightarrow> lines (l @ LF # rest) = l # lines rest"
  by (intro lines_line) (auto simp: clean_def list_ex_iff is_control_def)

lemma lines_put_field:
  "opt_ok v \<Longrightarrow> clean p \<Longrightarrow> lines (put_field p v @ rest) = field_lines p v @ lines rest"
  by (cases v) (auto simp: put_field_def value_ok_def lines_clean [of "p @ x" for x, simplified])

definition key_ok :: "string \<Rightarrow> bool" where
  "key_ok k \<longleftrightarrow> k \<noteq> [] \<and>
     list_all (\<lambda>c. 32 \<le> (of_char c :: nat) \<and> (of_char c :: nat) < 127 \<and> (of_char c :: nat) \<noteq> 58) k"

lemma lit_append: "lit (a @ b) = lit a @ lit b"
  by (simp add: lit_def)

lemma field_lit:
  assumes "key_ok k" "value_ok v"
  shows "parse_control_field rt (lit (k @ '': '') @ v) = Inr (lit k, v)"
proof -
  have no: "58 \<notin> set (lit k)"
    using assms(1) by (auto simp: key_ok_def list_all_iff set_lit)
  have colon: "lit '': '' = [58, 32]"
    by (simp add: lit_def)
  have "split_once (lit '': '') (lit k @ lit '': '' @ v) = Some (lit k, v)"
    unfolding colon by (rule split_once_notin [OF no])
  moreover have "clean (lit k)" "clean (lit '': '')"
    using assms(1) by (auto simp: key_ok_def list_all_iff intro!: clean_lit)
  ultimately show ?thesis
    using assms by (auto simp: parse_control_field_def lit_append key_ok_def value_ok_def clean_def
        list_ex_append)
qed

subsection \<open>Capabilities\<close>

lemma good_capability:
  "\<not> bad_capability c \<Longrightarrow> c \<noteq> [] \<and> clean c \<and> 44 \<notin> set c"
  by (auto simp: bad_capability_def clean_def list_ex_iff list_all_iff is_ascii_lowercase_def is_control_def)

lemma join_capabilities:
  assumes "validate_capabilities cs = Inr ()" "cs \<noteq> []"
  shows "value_ok (join_char 44 cs)" "split_char 44 (join_char 44 cs) = cs"
proof -
  have good: "\<forall>c \<in> set cs. \<not> bad_capability c"
    using assms(1) by (auto simp: validate_capabilities_def list_ex_iff split: if_splits)
  show "split_char 44 (join_char 44 cs) = cs"
    using good good_capability assms(2) by (intro split_join) auto
  have "clean (join_char 44 cs)"
    using good good_capability set_join_char [of 44 cs]
    by (fastforce simp: clean_def list_ex_iff is_control_def)
  moreover have "join_char 44 cs \<noteq> []"
    using assms(2) good good_capability by (cases cs; cases "tl cs") auto
  ultimately show "value_ok (join_char 44 cs)"
    by (simp add: value_ok_def)
qed

lemma parse_joined:
  assumes "ample rt" "validate_capabilities cs = Inr ()" "cs \<noteq> []" "len (join_char 44 cs) \<le> isize_max"
  shows "parse_capabilities rt (join_char 44 cs) = Inr cs"
  using parse_capabilities_ample [OF assms(1,4)] join_capabilities(2) [OF assms(2,3)] assms(2)
  by (simp add: validate_capability_list_def validate_capabilities_def split: if_splits)

definition capability_lines :: "ustr list \<Rightarrow> ustr list" where
  "capability_lines cs = (if cs = [] then [] else [lit ''Capabilities: '' @ join_char 44 cs])"

lemma lines_put_capabilities:
  assumes "validate_capabilities cs = Inr ()"
  shows "lines (put_capabilities cs) = capability_lines cs"
proof (cases "cs = []")
  case False
  have "clean (lit ''Capabilities: '' @ join_char 44 cs)"
    using join_capabilities(1) [OF assms False] by (simp add: value_ok_def clean_lit)
  with False show ?thesis
    using lines_clean [of "lit ''Capabilities: '' @ join_char 44 cs" "[]"]
    by (simp add: put_capabilities_def capability_lines_def)
qed (simp add: put_capabilities_def capability_lines_def)

section \<open>The seven messages\<close>

definition hello_wf :: "HelloMessage \<Rightarrow> bool" where
  "hello_wf m \<longleftrightarrow> clean (hello_version m) \<and> opt_ok (hello_terminal_size m)
     \<and> opt_ok (hello_color_support m) \<and> opt_ok (hello_client m)
     \<and> validate_capabilities (hello_capabilities m) = Inr ()"

definition welcome_wf :: "WelcomeMessage \<Rightarrow> bool" where
  "welcome_wf m \<longleftrightarrow> clean (welcome_version m) \<and> opt_ok (welcome_server m)
     \<and> opt_ok (welcome_site_name m) \<and> validate_capabilities (welcome_capabilities m) = Inr ()"

definition get_wf :: "GetMessage \<Rightarrow> bool" where
  "get_wf m \<longleftrightarrow> value_ok (get_path m) \<and> opt_ok (get_query m) \<and> opt_ok (get_referrer m)
     \<and> opt_ok (get_session m)"

definition input_wf :: "InputMessage \<Rightarrow> bool" where
  "input_wf m \<longleftrightarrow> value_ok (input_path m) \<and> clean (input_form_data m) \<and> opt_ok (input_session m)"

definition subscribe_wf :: "SubscribeMessage \<Rightarrow> bool" where
  "subscribe_wf m \<longleftrightarrow> value_ok (sub_path m) \<and> clean (sub_region m) \<and> len (sub_region m) \<le> isize_max
     \<and> opt_ok (sub_session m)"

definition redirect_wf :: "RedirectMessage \<Rightarrow> bool" where
  "redirect_wf m \<longleftrightarrow> redirect_code m \<in> {301, 302} \<and> value_ok (redirect_target m)"

definition error_wf :: "ErrorMessage \<Rightarrow> bool" where
  "error_wf m \<longleftrightarrow> 100 \<le> error_code m \<and> error_code m \<le> 999 \<and> opt_ok (error_message m)"

lemma enforce_ok: "n \<le> limit \<Longrightarrow> enforce_message_limit t n limit = Inr ()"
  by (simp add: enforce_message_limit_def)

lemma primary_ok: "value_ok v \<Longrightarrow> validate_primary_value rt label v = Inr ()"
  by (simp add: validate_primary_value_def value_ok_def clean_def)

lemma fits_own:
  "ample rt \<Longrightarrow> len v \<le> n \<Longrightarrow> n \<le> isize_max \<Longrightarrow> try_owned_string rt v = Inr v"
  by (simp add: try_owned_ample)

text \<open>The fields of the seven messages, read back.\<close>

lemmas read_fields =
  field_lit [of "''Terminal-Size''", simplified key_ok_def, simplified]
  field_lit [of "''Color-Support''", simplified key_ok_def, simplified]
  field_lit [of "''Client''", simplified key_ok_def, simplified]
  field_lit [of "''Capabilities''", simplified key_ok_def, simplified]
  field_lit [of "''Server''", simplified key_ok_def, simplified]
  field_lit [of "''Site-Name''", simplified key_ok_def, simplified]
  field_lit [of "''Query''", simplified key_ok_def, simplified]
  field_lit [of "''Referrer''", simplified key_ok_def, simplified]
  field_lit [of "''Session''", simplified key_ok_def, simplified]
  field_lit [of "''Form''", simplified key_ok_def, simplified]
  field_lit [of "''Region''", simplified key_ok_def, simplified]
  field_lit [of "''Mode''", simplified key_ok_def, simplified]
  field_lit [of "''Message''", simplified key_ok_def, simplified]

lemma get_reads:
  assumes "ample rt" "get_wf m" "len (get_text m) \<le> MAX_CONTROL_MESSAGE_SIZE"
  shows "Get_parse rt (get_text m) = Inr m"
proof -
  have w: "value_ok (get_path m)" "opt_ok (get_query m)" "opt_ok (get_referrer m)" "opt_ok (get_session m)"
    using assms(2) by (auto simp: get_wf_def)
  have own: "len v \<le> MAX_CONTROL_MESSAGE_SIZE \<Longrightarrow> try_owned_string rt v = Inr v" for v
    using fits_own [OF assms(1) _ limits_isize(1)] .
  have "clean (lit ''GET '' @ get_path m)"
    using w(1) by (simp add: value_ok_def clean_lit)
  then have "lines (get_text m) = (lit ''GET '' @ get_path m) # field_lines (lit ''Query: '') (get_query m) @
      field_lines (lit ''Referrer: '') (get_referrer m) @ field_lines (lit ''Session: '') (get_session m)"
    using lines_clean [of "lit ''GET '' @ get_path m"] w
      lines_put_field [of "get_session m" "lit ''Session: ''" "[]"]
    by (simp add: get_text_def lines_put_field clean_lit)
  moreover have "try_owned_string rt (get_path m) = Inr (get_path m)"
    "\<And>v. get_query m = Some v \<Longrightarrow> try_owned_string rt v = Inr v"
    "\<And>v. get_referrer m = Some v \<Longrightarrow> try_owned_string rt v = Inr v"
    "\<And>v. get_session m = Some v \<Longrightarrow> try_owned_string rt v = Inr v"
    using assms(3) by (auto simp: get_text_def put_field_def intro!: own)
  ultimately show ?thesis
    using w unfolding Get_parse_def enforce_ok [OF assms(3)]
    by (cases m; cases "get_query m"; cases "get_referrer m"; cases "get_session m")
      (simp_all add: primary_ok get_field_def read_fields)
qed

lemma lines_if_field:
  "clean v \<Longrightarrow> clean p \<Longrightarrow>
   lines ((if v \<noteq> [] then p @ v @ [LF] else []) @ rest) = (if v \<noteq> [] then [p @ v] else []) @ lines rest"
  using lines_clean [of "p @ v" rest] by simp

lemma input_reads:
  assumes "ample rt" "input_wf m" "len (input_text m) \<le> MAX_INPUT_MESSAGE_SIZE"
  shows "Input_parse rt (input_text m) = Inr m"
proof -
  have w: "value_ok (input_path m)" "clean (input_form_data m)" "opt_ok (input_session m)"
    using assms(2) by (auto simp: input_wf_def)
  have own: "len v \<le> MAX_INPUT_MESSAGE_SIZE \<Longrightarrow> try_owned_string rt v = Inr v" for v
    using fits_own [OF assms(1) _ limits_isize(2)] .
  have "clean (lit ''INPUT '' @ input_path m)"
    using w(1) by (simp add: value_ok_def clean_lit)
  then have "lines (input_text m) = (lit ''INPUT '' @ input_path m) #
      (if input_form_data m \<noteq> [] then [lit ''Form: '' @ input_form_data m] else []) @
      field_lines (lit ''Session: '') (input_session m)"
    using lines_clean [of "lit ''INPUT '' @ input_path m"] w
      lines_if_field [OF w(2), of "lit ''Form: ''"]
      lines_put_field [of "input_session m" "lit ''Session: ''" "[]"]
    by (simp add: input_text_def clean_lit)
  moreover have "try_owned_string rt (input_path m) = Inr (input_path m)"
    "try_owned_string rt (input_form_data m) = Inr (input_form_data m)"
    "\<And>v. input_session m = Some v \<Longrightarrow> try_owned_string rt v = Inr v"
    using assms(3) by (auto simp: input_text_def put_field_def intro!: own split: if_splits)
  ultimately show ?thesis
    using w unfolding Input_parse_def enforce_ok [OF assms(3)]
    by (cases m; cases "input_form_data m = []"; cases "input_session m")
      (simp_all add: primary_ok input_field_def read_fields value_ok_def)
qed

lemma subscribe_reads:
  assumes "ample rt" "subscribe_wf m" "len (subscribe_text m) \<le> MAX_CONTROL_MESSAGE_SIZE"
  shows "Subscribe_parse rt (subscribe_text m) = Inr m"
proof -
  have w: "value_ok (sub_path m)" "clean (sub_region m)" "opt_ok (sub_session m)"
    using assms(2) by (auto simp: subscribe_wf_def)
  have own: "len v \<le> MAX_CONTROL_MESSAGE_SIZE \<Longrightarrow> try_owned_string rt v = Inr v" for v
    using fits_own [OF assms(1) _ limits_isize(1)] .
  have "clean (lit ''SUBSCRIBE '' @ sub_path m)"
    using w(1) by (simp add: value_ok_def clean_lit)
  then have "lines (subscribe_text m) = (lit ''SUBSCRIBE '' @ sub_path m) #
      (if sub_region m \<noteq> [] then [lit ''Region: '' @ sub_region m] else []) @
      (if sub_mode m = Delta then [lit ''Mode: '' @ lit ''delta''] else []) @
      field_lines (lit ''Session: '') (sub_session m)"
    using lines_clean [of "lit ''SUBSCRIBE '' @ sub_path m"] w
      lines_if_field [OF w(2), of "lit ''Region: ''"]
      lines_clean [of "lit ''Mode: delta''"]
      lines_put_field [of "sub_session m" "lit ''Session: ''" "[]"]
    by (simp add: subscribe_text_def clean_lit) (simp add: lit_def)
  moreover have "try_owned_string rt (sub_path m) = Inr (sub_path m)"
    "try_owned_string rt (sub_region m) = Inr (sub_region m)"
    "\<And>v. sub_session m = Some v \<Longrightarrow> try_owned_string rt v = Inr v"
    using assms(3) by (auto simp: subscribe_text_def put_field_def intro!: own split: if_splits)
  moreover have "value_ok (lit ''delta'')"
    by (simp add: value_ok_def clean_lit)
  ultimately show ?thesis
    using w unfolding Subscribe_parse_def enforce_ok [OF assms(3)]
    by (cases m; cases "sub_region m = []"; cases "sub_mode m"; cases "sub_session m")
      (simp_all add: primary_ok subscribe_field_def read_fields value_ok_def)
qed

lemma hello_reads:
  assumes "ample rt" "hello_wf m" "len (hello_text m) \<le> MAX_CONTROL_MESSAGE_SIZE"
  shows "Hello_parse rt (hello_text m) = Inr m"
proof -
  have w: "clean (hello_version m)" "opt_ok (hello_terminal_size m)" "opt_ok (hello_color_support m)"
      "opt_ok (hello_client m)" "validate_capabilities (hello_capabilities m) = Inr ()"
    using assms(2) by (auto simp: hello_wf_def)
  have own: "len v \<le> MAX_CONTROL_MESSAGE_SIZE \<Longrightarrow> try_owned_string rt v = Inr v" for v
    using fits_own [OF assms(1) _ limits_isize(1)] .
  have "clean (lit ''HELLO/'' @ hello_version m)"
    using w(1) by (simp add: clean_lit)
  then have "lines (hello_text m) = (lit ''HELLO/'' @ hello_version m) #
      field_lines (lit ''Terminal-Size: '') (hello_terminal_size m) @
      field_lines (lit ''Color-Support: '') (hello_color_support m) @
      field_lines (lit ''Client: '') (hello_client m) @ capability_lines (hello_capabilities m)"
    using lines_clean [of "lit ''HELLO/'' @ hello_version m"] w
    by (simp add: hello_text_def lines_put_field clean_lit lines_put_capabilities)
  moreover have "try_owned_string rt (hello_version m) = Inr (hello_version m)"
    "\<And>v. hello_terminal_size m = Some v \<Longrightarrow> try_owned_string rt v = Inr v"
    "\<And>v. hello_color_support m = Some v \<Longrightarrow> try_owned_string rt v = Inr v"
    "\<And>v. hello_client m = Some v \<Longrightarrow> try_owned_string rt v = Inr v"
    using assms(3) by (auto simp: hello_text_def put_field_def intro!: own)
  moreover have "hello_capabilities m \<noteq> [] \<Longrightarrow>
      parse_capabilities rt (join_char 44 (hello_capabilities m)) = Inr (hello_capabilities m)"
    using assms(3) limits_isize(1)
    by (intro parse_joined [OF assms(1) w(5)]) (auto simp: hello_text_def put_capabilities_def)
  moreover have "hello_capabilities m \<noteq> [] \<Longrightarrow> value_ok (join_char 44 (hello_capabilities m))"
    by (rule join_capabilities(1) [OF w(5)])
  ultimately show ?thesis
    using w(2-4) unfolding Hello_parse_def enforce_ok [OF assms(3)]
    by (cases m; cases "hello_terminal_size m"; cases "hello_color_support m"; cases "hello_client m";
        cases "hello_capabilities m = []")
      (simp_all add: hello_field_def read_fields capability_lines_def)
qed

lemma welcome_reads:
  assumes "ample rt" "welcome_wf m" "len (welcome_text m) \<le> MAX_CONTROL_MESSAGE_SIZE"
  shows "Welcome_parse rt (welcome_text m) = Inr m"
proof -
  have w: "clean (welcome_version m)" "opt_ok (welcome_server m)" "opt_ok (welcome_site_name m)"
      "validate_capabilities (welcome_capabilities m) = Inr ()"
    using assms(2) by (auto simp: welcome_wf_def)
  have own: "len v \<le> MAX_CONTROL_MESSAGE_SIZE \<Longrightarrow> try_owned_string rt v = Inr v" for v
    using fits_own [OF assms(1) _ limits_isize(1)] .
  have "clean (lit ''WELCOME/'' @ welcome_version m)"
    using w(1) by (simp add: clean_lit)
  then have "lines (welcome_text m) = (lit ''WELCOME/'' @ welcome_version m) #
      field_lines (lit ''Server: '') (welcome_server m) @
      field_lines (lit ''Site-Name: '') (welcome_site_name m) @ capability_lines (welcome_capabilities m)"
    using lines_clean [of "lit ''WELCOME/'' @ welcome_version m"] w
    by (simp add: welcome_text_def lines_put_field clean_lit lines_put_capabilities)
  moreover have "try_owned_string rt (welcome_version m) = Inr (welcome_version m)"
    "\<And>v. welcome_server m = Some v \<Longrightarrow> try_owned_string rt v = Inr v"
    "\<And>v. welcome_site_name m = Some v \<Longrightarrow> try_owned_string rt v = Inr v"
    using assms(3) by (auto simp: welcome_text_def put_field_def intro!: own)
  moreover have "welcome_capabilities m \<noteq> [] \<Longrightarrow>
      parse_capabilities rt (join_char 44 (welcome_capabilities m)) = Inr (welcome_capabilities m)"
    using assms(3) limits_isize(1)
    by (intro parse_joined [OF assms(1) w(4)]) (auto simp: welcome_text_def put_capabilities_def)
  moreover have "welcome_capabilities m \<noteq> [] \<Longrightarrow> value_ok (join_char 44 (welcome_capabilities m))"
    by (rule join_capabilities(1) [OF w(4)])
  ultimately show ?thesis
    using w(2,3) unfolding Welcome_parse_def enforce_ok [OF assms(3)]
    by (cases m; cases "welcome_server m"; cases "welcome_site_name m"; cases "welcome_capabilities m = []")
      (simp_all add: welcome_field_def read_fields capability_lines_def)
qed

lemma redirect_reads:
  assumes "ample rt" "redirect_wf m" "len (redirect_text m) \<le> MAX_CONTROL_MESSAGE_SIZE"
  shows "Redirect_parse rt (redirect_text m) = Inr m"
proof -
  let ?n = "show_nat (unat (redirect_code m))" and ?t = "redirect_target m"
  have w: "value_ok ?t" "redirect_code m = 301 \<or> redirect_code m = 302"
    using assms(2) by (auto simp: redirect_wf_def)
  have own: "try_owned_string rt ?t = Inr ?t"
    using assms(3) fits_own [OF assms(1) _ limits_isize(1)] by (simp add: redirect_text_def)
  have line: "lines (redirect_text m) = [lit ''REDIRECT '' @ ?n @ lit '' '' @ ?t]"
    using lines_clean [of "lit ''REDIRECT '' @ ?n @ lit '' '' @ ?t" "[]"] w(1)
    by (simp add: redirect_text_def value_ok_def clean_lit)
  have space: "lit '' '' = [32]"
    by (simp add: lit_def)
  have "32 \<notin> set ?n"
    using show_nat_no_space [of 32] by auto
  then have split: "split_once (lit '' '') (?n @ lit '' '' @ ?t) = Some (?n, ?t)"
    unfolding space by (rule split_once_notin)
  have code: "parse_redirect_code rt ?n = Inr (redirect_code m)"
    using w(2) by (auto simp: parse_redirect_code_def lit_def show_nat.simps)
  show ?thesis
    unfolding Redirect_parse_def enforce_ok [OF assms(3)] line
    by (simp add: split code primary_ok [OF w(1)] own)
qed

lemma length_show_3:
  assumes "100 \<le> n" "n \<le> 999" shows "length (show_nat n) = 3"
proof -
  have "\<not> n < 10" "\<not> n div 10 < 10" "n div 10 div 10 < 10"
    using assms by linarith+
  then show ?thesis
    using show_nat.simps [of n] show_nat.simps [of "n div 10"] show_nat.simps [of "n div 10 div 10"]
    by simp
qed

lemma error_reads:
  assumes "ample rt" "error_wf m" "len (error_text m) \<le> MAX_CONTROL_MESSAGE_SIZE"
  shows "Error_parse rt (error_text m) = Inr m"
proof -
  let ?n = "show_nat (unat (error_code m))"
  have "100 \<le> unat (error_code m)" "unat (error_code m) \<le> 999"
    using assms(2) by (simp_all add: error_wf_def word_le_nat_alt)
  then have "len ?n = 3"
    using length_show_3 len_ascii [OF show_nat_ascii] by simp
  then have code: "parse_error_code rt ?n = Inr (error_code m)"
    using show_nat_digits [of "unat (error_code m)"] by (simp add: parse_error_code_def)
  have own: "\<And>v. error_message m = Some v \<Longrightarrow> try_owned_string rt v = Inr v"
    using assms(3) by (intro fits_own [OF assms(1) _ limits_isize(1)]) (auto simp: error_text_def put_field_def)
  have w: "opt_ok (error_message m)"
    using assms(2) by (simp add: error_wf_def)
  have line: "lines (error_text m) = (lit ''ERROR '' @ ?n) # field_lines (lit ''Message: '') (error_message m)"
    using lines_clean [of "lit ''ERROR '' @ ?n"] lines_put_field [of "error_message m" "lit ''Message: ''" "[]"] w
    by (simp add: error_text_def clean_lit)
  show ?thesis
    unfolding Error_parse_def enforce_ok [OF assms(3)] line
    using own w code
    by (cases m; cases "error_message m") (simp_all add: error_field_def read_fields)
qed

section \<open>Seven codecs\<close>

interpretation hello_codec: codec Hello_serialize Hello_parse hello_wf hello_text MAX_CONTROL_MESSAGE_SIZE ample
  by unfold_locales
    (auto simp: Hello_serialize_eq hello_wf_def result_simps emitted_ample limits_isize
      intro!: hello_reads dest: emitted_Inr)

interpretation welcome_codec: codec Welcome_serialize Welcome_parse welcome_wf welcome_text
    MAX_CONTROL_MESSAGE_SIZE ample
  by unfold_locales
    (auto simp: Welcome_serialize_eq welcome_wf_def result_simps emitted_ample limits_isize
      intro!: welcome_reads dest: emitted_Inr)

interpretation get_codec: codec Get_serialize Get_parse get_wf get_text MAX_CONTROL_MESSAGE_SIZE ample
  by unfold_locales
    (auto simp: Get_serialize_eq emitted_ample limits_isize intro!: get_reads dest: emitted_Inr)

interpretation input_codec: codec Input_serialize Input_parse input_wf input_text MAX_INPUT_MESSAGE_SIZE ample
  by unfold_locales
    (auto simp: Input_serialize_eq emitted_ample limits_isize intro!: input_reads dest: emitted_Inr)

interpretation redirect_codec: codec Redirect_serialize Redirect_parse redirect_wf redirect_text
    MAX_CONTROL_MESSAGE_SIZE ample
  by unfold_locales
    (auto simp: Redirect_serialize_eq emitted_ample limits_isize intro!: redirect_reads dest: emitted_Inr)

interpretation err_codec: codec Error_serialize Error_parse error_wf error_text MAX_CONTROL_MESSAGE_SIZE ample
  by unfold_locales
    (auto simp: Error_serialize_eq emitted_ample limits_isize intro!: error_reads dest: emitted_Inr)

interpretation subscribe_codec: codec Subscribe_serialize Subscribe_parse subscribe_wf subscribe_text
    MAX_CONTROL_MESSAGE_SIZE ample
proof
  fix rt m s
  assume w: "subscribe_wf m"
  then have r: "len (sub_region m) \<le> isize_max"
    by (simp add: subscribe_wf_def)
  show "Subscribe_serialize rt m = Inr s \<Longrightarrow>
      s = subscribe_text m \<and> len (subscribe_text m) \<le> MAX_CONTROL_MESSAGE_SIZE"
    by (simp add: Subscribe_serialize_Inr [OF r])
  assume a: "ample rt" and n: "len (subscribe_text m) \<le> MAX_CONTROL_MESSAGE_SIZE"
  then show "Subscribe_serialize rt m = Inr (subscribe_text m)"
    using ample_try_reserve [OF a order_trans [OF n limits_isize(1)]]
    by (simp add: Subscribe_serialize_Inr [OF r])
  show "Subscribe_parse rt (subscribe_text m) = Inr m"
    by (rule subscribe_reads [OF a w n])
qed

section \<open>All control messages\<close>

datatype ControlMessage =
    HelloMsg HelloMessage | WelcomeMsg WelcomeMessage | GetMsg GetMessage | InputMsg InputMessage
  | SubscribeMsg SubscribeMessage | RedirectMsg RedirectMessage | ErrMsg ErrorMessage

fun control_type :: "ControlMessage \<Rightarrow> MessageType" where
  "control_type (HelloMsg _) = Hello"
| "control_type (WelcomeMsg _) = Welcome"
| "control_type (GetMsg _) = Get"
| "control_type (InputMsg _) = Input"
| "control_type (SubscribeMsg _) = Subscribe"
| "control_type (RedirectMsg _) = Redirect"
| "control_type (ErrMsg _) = ErrorMsg"

fun control_wf :: "ControlMessage \<Rightarrow> bool" where
  "control_wf (HelloMsg m) = hello_wf m"
| "control_wf (WelcomeMsg m) = welcome_wf m"
| "control_wf (GetMsg m) = get_wf m"
| "control_wf (InputMsg m) = input_wf m"
| "control_wf (SubscribeMsg m) = subscribe_wf m"
| "control_wf (RedirectMsg m) = redirect_wf m"
| "control_wf (ErrMsg m) = error_wf m"

fun control_serialize :: "runtime \<Rightarrow> ControlMessage \<Rightarrow> ustr presult" where
  "control_serialize rt (HelloMsg m) = Hello_serialize rt m"
| "control_serialize rt (WelcomeMsg m) = Welcome_serialize rt m"
| "control_serialize rt (GetMsg m) = Get_serialize rt m"
| "control_serialize rt (InputMsg m) = Input_serialize rt m"
| "control_serialize rt (SubscribeMsg m) = Subscribe_serialize rt m"
| "control_serialize rt (RedirectMsg m) = Redirect_serialize rt m"
| "control_serialize rt (ErrMsg m) = Error_serialize rt m"

text \<open>The parser of a message type; the other types have no control body.\<close>

fun control_parse :: "runtime \<Rightarrow> MessageType \<Rightarrow> ustr \<Rightarrow> ControlMessage presult option" where
  "control_parse rt Hello body = Some (map_ok HelloMsg (Hello_parse rt body))"
| "control_parse rt Welcome body = Some (map_ok WelcomeMsg (Welcome_parse rt body))"
| "control_parse rt Get body = Some (map_ok GetMsg (Get_parse rt body))"
| "control_parse rt Input body = Some (map_ok InputMsg (Input_parse rt body))"
| "control_parse rt Subscribe body = Some (map_ok SubscribeMsg (Subscribe_parse rt body))"
| "control_parse rt Redirect body = Some (map_ok RedirectMsg (Redirect_parse rt body))"
| "control_parse rt ErrorMsg body = Some (map_ok ErrMsg (Error_parse rt body))"
| "control_parse rt _ body = None"

fun control_limit :: "MessageType \<Rightarrow> nat" where
  "control_limit Input = MAX_INPUT_MESSAGE_SIZE"
| "control_limit _ = MAX_CONTROL_MESSAGE_SIZE"

text \<open>
  C4: every control message survives the wire: what the serializer writes is within the
  limit of its type and parses back to exactly the message, for all seven message types,
  whenever memory is available and the fields are ones the line format can carry: no control
  characters, a non-empty path or target, no optional value that is present but empty,
  capabilities the parser takes, a redirect code of 301 or 302, an error code of three digits, and
  a region name no longer than a string can be.
\<close>

theorem control_roundtrip:
  assumes "ample rt" "control_wf c" "control_serialize rt c = Inr s"
  shows "control_parse rt (control_type c) s = Some (Inr c) \<and> len s \<le> control_limit (control_type c)"
  using assms
  by (cases c)
    (auto dest: hello_codec.roundtrip welcome_codec.roundtrip get_codec.roundtrip input_codec.roundtrip
      subscribe_codec.roundtrip redirect_codec.roundtrip err_codec.roundtrip)

definition sample_get :: ControlMessage where
  "sample_get = GetMsg \<lparr>get_path = lit ''/a'', get_query = Some (lit ''q: 1''), get_referrer = None,
     get_session = None\<rparr>"

theorem control_roundtrip_witness:
  "\<exists>s. control_serialize roomy_runtime sample_get = Inr s
     \<and> control_parse roomy_runtime Get s = Some (Inr sample_get)"
proof -
  have w: "control_wf sample_get"
    by (simp add: sample_get_def get_wf_def value_ok_def clean_lit)
  obtain s where s: "control_serialize roomy_runtime sample_get = Inr s"
    by (simp add: sample_get_def Get_serialize_eq emitted_def get_text_def put_field_def lit_def
        len_utf8_def usize_max_def isize_max_def limit_defs try_reserve_def)
  with control_roundtrip [OF ample_roomy w s] show ?thesis
    by (auto simp: sample_get_def)
qed

text \<open>
  C24: the allocation-free validators on the framing path read the same language as the
  owning parsers: with memory available, each returns the same error as its parser, or
  accepts when it accepts and reports a session exactly when the message carries one.
  REDIRECT alone is stricter: it accepts when the parser does and the target is an ATP URI.
\<close>

theorem validators_agree_with_parsers:
  assumes "ample rt"
  shows "validate_hello_body rt body = map_ok (\<lambda>_. ()) (Hello_parse rt body)
    \<and> validate_welcome_body rt body = map_ok (\<lambda>_. ()) (Welcome_parse rt body)
    \<and> validate_get_body rt body = map_ok (\<lambda>m. carries (get_session m)) (Get_parse rt body)
    \<and> validate_input_body rt body = map_ok (\<lambda>m. carries (input_session m)) (Input_parse rt body)
    \<and> validate_subscribe_body rt body = map_ok (\<lambda>m. carries (sub_session m)) (Subscribe_parse rt body)
    \<and> validate_error_body rt body = map_ok (\<lambda>_. ()) (Error_parse rt body)
    \<and> (validate_redirect_body rt body = Inr () \<longleftrightarrow>
        (\<exists>m u. Redirect_parse rt body = Inr m \<and> AtpUri_parse rt (redirect_target m) = Inr u))"
  using validate_hello_agrees [OF assms] validate_welcome_agrees [OF assms] validate_get_agrees [OF assms]
    validate_input_agrees [OF assms] validate_subscribe_agrees [OF assms] validate_error_agrees [OF assms]
    validate_redirect_agrees [OF assms]
  by simp

theorem validators_agree_with_parsers_witness:
  "validate_get_body roomy_runtime (lit ''GET /'' @ [LF]) = Inr False
   \<and> map_ok (\<lambda>m. carries (get_session m)) (Get_parse roomy_runtime (lit ''GET /'' @ [LF])) = Inr False"
proof -
  have l: "lines (lit ''GET /'' @ [LF]) = [lit ''GET /'']"
    using lines_clean [of "lit ''GET /''" "[]"] by (simp add: clean_lit)
  have "validate_get_body roomy_runtime (lit ''GET /'' @ [LF]) = Inr False"
    unfolding validate_get_body_def l
    by (simp add: enforce_message_limit_def limit_defs lit_def len_utf8_def strip_prefix_def
        validate_primary_value_def is_control_def)
  with validators_agree_with_parsers [OF ample_roomy, of "lit ''GET /'' @ [LF]"] show ?thesis
    by simp
qed

end
