(* ===== verification/Page.thy ===== *)
theory Page
  imports Message_Codec
begin

text \<open>
  \<open>protocol/message.rs\<close>, the content messages: PAGE with its metadata block of path and
  session directives, UPDATE, and the check of a complete frame body that every transport
  makes before dispatching a frame.
\<close>

section \<open>Session directives on the wire\<close>

text \<open>The copies of the scope check and the directive parser that this module has.\<close>

definition valid_session_scope :: "ustr \<Rightarrow> bool" where
  "valid_session_scope scope \<longleftrightarrow> scope \<noteq> [] \<and> len scope \<le> MAX_SCOPE_LEN \<and> starts_with [SLASH] scope
     \<and> \<not> list_ex is_control scope \<and> \<not> list_ex (\<lambda>c. c \<in> {QUERY, HASH}) scope
     \<and> \<not> list_ex (\<lambda>segment. segment = lit ''.'' \<or> segment = lit ''..'') (split_char SLASH scope)"

definition try_parse_session_directive :: "runtime \<Rightarrow> ustr \<Rightarrow> ustr \<Rightarrow> SessionDirective option presult" where
  "try_parse_session_directive rt key v =
     (if key = lit ''Set-Session'' then
        (case splitn_char 3 32 v of
           [] \<Rightarrow> Inr None
         | token # parts \<Rightarrow>
             let scope = (case parts of [] \<Rightarrow> lit ''/'' | s # _ \<Rightarrow> s);
                 expires = (case parts of _ # e # _ \<Rightarrow> parse_u64 e | _ \<Rightarrow> None)
             in if token = [] \<or> len token > MAX_TOKEN_LEN \<or> \<not> valid_session_scope scope then Inr None
                else and_then (try_owned_string rt token) (\<lambda>token.
                     and_then (try_owned_string rt scope) (\<lambda>scope.
                     Inr (Some (SetSession token scope expires)))))
      else if key = lit ''Clear-Session'' then
        (let scope = trim v in
         if \<not> valid_session_scope scope then Inr None
         else map_ok (\<lambda>scope. Some (ClearSession scope)) (try_owned_string rt scope))
      else Inr None)"

text \<open>
  The digits of a \<open>u64\<close> through a twenty-byte buffer. The loop never underflows the buffer
  (\<open>push_decimal_eq\<close> below), so the \<open>None\<close> branch is not taken.
\<close>

definition push_decimal :: "byte list \<Rightarrow> u64 \<Rightarrow> byte list" where
  "push_decimal bytes v =
     (case write_decimal_loop (unat v) 20 (replicate 20 0) of
        Some (start, digits) \<Rightarrow> bytes @ drop start digits | None \<Rightarrow> bytes)"

section \<open>PAGE\<close>

record PageFlags =
  cacheable :: bool
  has_live_regions :: bool
  has_path :: bool
  has_session :: bool

definition page_from_bits :: "u8 \<Rightarrow> PageFlags" where
  "page_from_bits flags =
     \<lparr>cacheable = (flags AND 0x01 \<noteq> 0), has_live_regions = (flags AND 0x02 \<noteq> 0),
      has_path = (flags AND 0x04 \<noteq> 0), has_session = (flags AND 0x08 \<noteq> 0)\<rparr>"

definition page_to_bits :: "PageFlags \<Rightarrow> u8" where
  "page_to_bits f =
     (let bits = 0;
          bits = (if cacheable f then bits OR 0x01 else bits);
          bits = (if has_live_regions f then bits OR 0x02 else bits);
          bits = (if has_path f then bits OR 0x04 else bits);
          bits = (if has_session f then bits OR 0x08 else bits)
      in bits)"

record PageMessage =
  page_content :: ustr
  page_flags :: PageFlags
  page_path_field :: "ustr option"
  session_directives :: "SessionDirective list"

definition valid_page_path :: "ustr \<Rightarrow> bool" where
  "valid_page_path v \<longleftrightarrow> starts_with [SLASH] v \<and> \<not> starts_with [SLASH, SLASH] v
     \<and> HASH \<notin> set v \<and> \<not> list_ex is_control v"

definition directive_size :: "SessionDirective \<Rightarrow> nat presult" where
  "directive_size d =
     (case d of
        SetSession token scope expires \<Rightarrow>
          and_then (checked_add_size 15 (len token)) (\<lambda>n.
          and_then (checked_add_size n (len scope)) (\<lambda>n.
          (case expires of None \<Rightarrow> Inr n
           | Some e \<Rightarrow> checked_add_size n (1 + decimal_len (unat e)))))
      | ClearSession scope \<Rightarrow> checked_add_size 16 (len scope))"

definition add_directive :: "nat \<Rightarrow> SessionDirective \<Rightarrow> nat presult" where
  "add_directive requested d = and_then (directive_size d) (\<lambda>n. checked_add_size requested n)"

definition push_directive :: "byte list \<Rightarrow> SessionDirective \<Rightarrow> byte list" where
  "push_directive body d =
     (case d of
        SetSession token scope expires \<Rightarrow>
          (let body = body @ utf8 (lit ''Set-Session: '') @ utf8 token @ [32] @ utf8 scope in
           (case expires of None \<Rightarrow> body | Some e \<Rightarrow> push_decimal (body @ [32]) e) @ [10])
      | ClearSession scope \<Rightarrow> body @ utf8 (lit ''Clear-Session: '') @ utf8 scope @ [10])"

definition page_encode_body :: "runtime \<Rightarrow> PageMessage \<Rightarrow> (byte list \<times> u8) presult" where
  "page_encode_body rt m =
     (let flags = page_flags m in
      if session_directives m = [] \<and> page_path_field m = None then
        (let flags = flags\<lparr>has_session := False, has_path := False\<rparr>;
             n = len (page_content m) in
         and_then (enforce_message_limit Page n MAX_PAGE_MESSAGE_SIZE) (\<lambda>_.
         if \<not> try_reserve rt n then Inl (ResourceExhausted n)
         else Inr (utf8 (page_content m), page_to_bits flags)))
      else
        (let flags = flags\<lparr>has_session := (session_directives m \<noteq> []),
                           has_path := (page_path_field m \<noteq> None)\<rparr> in
         and_then (checked_add_size 1 (len (page_content m))) (\<lambda>requested.
         and_then (case page_path_field m of None \<Rightarrow> Inr requested
                   | Some p \<Rightarrow>
                       if len p > MAX_PAGE_PATH_LEN \<or> \<not> valid_page_path p
                       then Inl (InvalidMessage
                              (lit ''PAGE Path is oversized or not an absolute same-origin path''))
                       else and_then (checked_add_size requested (len (lit ''Path: '') + 1)) (\<lambda>n.
                            checked_add_size n (len p))) (\<lambda>requested.
         and_then (try_fold add_directive requested (session_directives m)) (\<lambda>requested.
         and_then (enforce_message_limit Page requested MAX_PAGE_MESSAGE_SIZE) (\<lambda>_.
         if \<not> try_reserve rt requested then Inl (ResourceExhausted requested)
         else
           let body = (case page_path_field m of None \<Rightarrow> []
                       | Some p \<Rightarrow> utf8 (lit ''Path: '') @ utf8 p @ [10]);
               body = foldl push_directive body (session_directives m)
           in Inr (body @ [10] @ utf8 (page_content m), page_to_bits flags)))))))"

text \<open>The path and the directives collected so far.\<close>

type_synonym page_state = "ustr option \<times> SessionDirective list"

definition page_field :: "runtime \<Rightarrow> PageFlags \<Rightarrow> page_state \<Rightarrow> ustr \<Rightarrow> page_state presult" where
  "page_field rt flags st line =
     (case st of (p, directives) \<Rightarrow>
        and_then (parse_control_field rt line) (\<lambda>(key, v).
        if key = lit ''Path'' then
          if p \<noteq> None then Inl (InvalidMessage (lit ''duplicate PAGE Path field''))
          else if \<not> has_path flags then Inl (InvalidMessage (lit ''PAGE Path without the path flag''))
          else if len v > MAX_PAGE_PATH_LEN then Inl (InvalidMessage (lit ''PAGE Path too long''))
          else if \<not> valid_page_path v
          then Inl (InvalidMessage (lit ''PAGE Path must be an absolute same-origin path''))
          else map_ok (\<lambda>v. (Some v, directives)) (try_owned_string rt v)
        else if key \<notin> {lit ''Set-Session'', lit ''Clear-Session''}
        then Inl (invalid_message rt [lit ''unknown PAGE metadata field: '', key])
        else and_then (try_parse_session_directive rt key v) (\<lambda>directive.
             (case directive of
                Some d \<Rightarrow> Inr (p, directives @ [d])
              | None \<Rightarrow> Inl (invalid_message rt [lit ''invalid PAGE metadata field: '', key])))))"

definition page_decode_body :: "runtime \<Rightarrow> byte list \<Rightarrow> u8 \<Rightarrow> PageMessage presult" where
  "page_decode_body rt body flags_byte =
     and_then (enforce_message_limit Page (length body) MAX_PAGE_MESSAGE_SIZE) (\<lambda>_.
     let flags = page_from_bits flags_byte in
     and_then (map_err (\<lambda>e. invalid_message rt (lit ''invalid UTF-8: '' # utf8_error_text e))
                 (from_utf8 body)) (\<lambda>body_str.
     if \<not> has_session flags \<and> \<not> has_path flags then
       map_ok (\<lambda>c. \<lparr>page_content = c, page_flags = flags, page_path_field = None, session_directives = []\<rparr>)
         (try_owned_string rt body_str)
     else
       (case find_sub [10, 10] body_str of
          None \<Rightarrow> Inl (InvalidMessage (lit ''PAGE metadata flag requires metadata separator''))
        | Some pos \<Rightarrow>
            let metadata = take pos body_str;
                content = drop (pos + 2) body_str;
                directive_count = length (lines metadata) in
            if \<not> try_reserve rt (directive_count * size_of rt ''SessionDirective'')
            then Inl (ResourceExhausted (saturating_mul directive_count (size_of rt ''SessionDirective'')))
            else and_then (try_fold (page_field rt flags) (None, []) (lines metadata)) (\<lambda>(p, directives).
              if has_path flags \<and> p = None
              then Inl (InvalidMessage (lit ''PAGE path flag without a Path field''))
              else if has_session flags \<and> directives = []
              then Inl (InvalidMessage (lit ''PAGE session flag without a session directive''))
              else map_ok (\<lambda>c. \<lparr>page_content = c, page_flags = flags, page_path_field = p,
                                session_directives = directives\<rparr>)
                     (try_owned_string rt content)))))"

text \<open>The allocation-free reader: whether a path and a directive were seen.\<close>

definition validate_page_line :: "runtime \<Rightarrow> PageFlags \<Rightarrow> bool \<times> bool \<Rightarrow> ustr \<Rightarrow> (bool \<times> bool) presult" where
  "validate_page_line rt flags st line =
     (case st of (saw_path, saw_directive) \<Rightarrow>
        and_then (parse_control_field rt line) (\<lambda>(key, v).
        and_then
          (if key = lit ''Path'' then
             if saw_path then Inl (InvalidMessage (lit ''duplicate PAGE Path field''))
             else if \<not> has_path flags then Inl (InvalidMessage (lit ''PAGE Path without the path flag''))
             else if len v > MAX_PAGE_PATH_LEN then Inl (InvalidMessage (lit ''PAGE Path too long''))
             else if \<not> valid_page_path v
             then Inl (InvalidMessage (lit ''PAGE Path must be an absolute same-origin path''))
             else Inr (True, True, saw_directive)
           else if key = lit ''Set-Session'' then
             (let parts = splitn_char 3 32 v;
                  token = (case parts of [] \<Rightarrow> [] | t # _ \<Rightarrow> t);
                  scope = (case parts of _ # s # _ \<Rightarrow> s | _ \<Rightarrow> lit ''/'')
              in Inr (token \<noteq> [] \<and> len token \<le> MAX_TOKEN_LEN \<and> valid_session_scope scope, saw_path, True))
           else if key = lit ''Clear-Session'' then
             Inr (valid_session_scope (trim v), saw_path, True)
           else Inl (invalid_message rt [lit ''unknown PAGE metadata field: '', key])) (\<lambda>(valid, st).
        if \<not> valid then Inl (invalid_message rt [lit ''invalid PAGE metadata field: '', key]) else Inr st)))"

definition validate_page_body :: "runtime \<Rightarrow> ustr \<Rightarrow> PageFlags \<Rightarrow> unit presult" where
  "validate_page_body rt body flags =
     and_then (enforce_message_limit Page (len body) MAX_PAGE_MESSAGE_SIZE) (\<lambda>_.
     if \<not> has_session flags \<and> \<not> has_path flags then Inr ()
     else (case split_once [10, 10] body of
         None \<Rightarrow> Inl (InvalidMessage (lit ''PAGE metadata flag requires metadata separator''))
       | Some (metadata, _) \<Rightarrow>
           and_then (try_fold (validate_page_line rt flags) (False, False) (lines metadata))
             (\<lambda>(saw_path, saw_directive).
           if has_path flags \<and> \<not> saw_path
           then Inl (InvalidMessage (lit ''PAGE path flag without a Path field''))
           else if has_session flags \<and> \<not> saw_directive
           then Inl (InvalidMessage (lit ''PAGE session flag without a session directive''))
           else Inr ())))"

section \<open>UPDATE\<close>

record UpdateFlags =
  delta_flag :: bool

definition update_from_bits :: "u8 \<Rightarrow> UpdateFlags" where
  "update_from_bits flags = \<lparr>delta_flag = (flags AND 0x01 \<noteq> 0)\<rparr>"

definition update_to_bits :: "UpdateFlags \<Rightarrow> u8" where
  "update_to_bits f = (if delta_flag f then 0 OR 0x01 else 0)"

record UpdateMessage =
  upd_region :: ustr
  upd_content :: ustr
  upd_flags :: UpdateFlags

definition first_line_end :: "ustr \<Rightarrow> nat" where
  "first_line_end body = (case find_char (\<lambda>c. c = LF) body of Some i \<Rightarrow> i | None \<Rightarrow> length body)"

definition update_validate_serialized :: "runtime \<Rightarrow> ustr \<Rightarrow> unit presult" where
  "update_validate_serialized rt body =
     (let e = first_line_end body in
      (case strip_prefix (lit ''UPDATE '') (take e body) of
         None \<Rightarrow> Inl (InvalidMessage (lit ''UPDATE body has an invalid first line''))
       | Some region \<Rightarrow>
           and_then (validate_primary_value rt (lit ''UPDATE region-id'') region) (\<lambda>_.
           if \<not> starts_with [10, 10] (drop e body)
           then Inl (InvalidMessage (lit ''UPDATE body is missing its content separator''))
           else Inr ())))"

definition Update_parse :: "runtime \<Rightarrow> ustr \<Rightarrow> UpdateMessage presult" where
  "Update_parse rt body =
     and_then (enforce_message_limit Update (len body) MAX_LIVE_UPDATE_SIZE) (\<lambda>_.
     and_then (update_validate_serialized rt body) (\<lambda>_.
     let first = take (first_line_end body) body in
     (case strip_prefix (lit ''UPDATE '') first of
        None \<Rightarrow> Inl (invalid_message rt [lit ''expected UPDATE, got: '', first])
      | Some stripped \<Rightarrow>
          and_then (try_owned_string rt stripped) (\<lambda>region.
          and_then (case find_sub [10, 10] body of
                      Some pos \<Rightarrow> try_owned_string rt (drop (pos + 2) body)
                    | None \<Rightarrow> Inr []) (\<lambda>content.
          Inr \<lparr>upd_region = region, upd_content = content, upd_flags = \<lparr>delta_flag = False\<rparr>\<rparr>)))))"

definition update_with_flags :: "UpdateMessage \<Rightarrow> u8 \<Rightarrow> UpdateMessage" where
  "update_with_flags m flags_byte = m\<lparr>upd_flags := update_from_bits flags_byte\<rparr>"

definition parts_body_len :: "ustr \<Rightarrow> nat \<Rightarrow> nat presult" where
  "parts_body_len region content_len =
     ok_or (ResourceExhausted usize_max)
       (Option.bind (checked_add 9 (len region)) (\<lambda>sz. checked_add sz content_len))"

definition validate_update_parts :: "runtime \<Rightarrow> ustr \<Rightarrow> nat \<Rightarrow> unit presult" where
  "validate_update_parts rt region content_len =
     and_then (validate_primary_value rt (lit ''UPDATE region-id'') region) (\<lambda>_.
     and_then (parts_body_len region content_len) (\<lambda>requested.
     enforce_message_limit Update requested MAX_LIVE_UPDATE_SIZE))"

definition Update_serialize_parts :: "runtime \<Rightarrow> ustr \<Rightarrow> ustr \<Rightarrow> ustr presult" where
  "Update_serialize_parts rt region content =
     and_then (validate_primary_value rt (lit ''UPDATE region-id'') region) (\<lambda>_.
     and_then (ok_or (ResourceExhausted usize_max)
        (Option.bind (checked_add 9 (len region)) (\<lambda>sz. checked_add sz (len content)))) (\<lambda>requested.
     and_then (enforce_message_limit Update requested MAX_LIVE_UPDATE_SIZE) (\<lambda>_.
     and_then (try_string_with_capacity rt requested) (\<lambda>_.
     Inr (lit ''UPDATE '' @ region @ [10, 10] @ content)))))"

definition Update_serialize :: "runtime \<Rightarrow> UpdateMessage \<Rightarrow> ustr presult" where
  "Update_serialize rt m = Update_serialize_parts rt (upd_region m) (upd_content m)"

section \<open>Complete frame bodies\<close>

text \<open>\<open>{:04X}\<close> of a code point below 128.\<close>

definition hex_digit_upper :: "nat \<Rightarrow> uchar" where
  "hex_digit_upper d = (if d < 10 then 48 + d else 55 + d)"

definition hex4 :: "uchar \<Rightarrow> ustr" where
  "hex4 c = map (\<lambda>k. hex_digit_upper (c div 16 ^ k mod 16)) [3, 2, 1, 0]"

definition validate_control_framing :: "runtime \<Rightarrow> MessageType \<Rightarrow> ustr \<Rightarrow> unit presult" where
  "validate_control_framing rt message body =
     (case find_char (\<lambda>ch. ch \<noteq> LF \<and> is_ascii_control ch) body of
        Some i \<Rightarrow> Inl (invalid_message rt
          [show_MessageType message, lit '' body contains control character U+'', hex4 (body ! i)])
      | None \<Rightarrow>
          if body \<noteq> [] \<and> \<not> ends_with_char LF body
          then Inl (invalid_message rt [show_MessageType message, lit '' body does not end in LF''])
          else Inr ())"

definition is_control_message :: "MessageType \<Rightarrow> bool" where
  "is_control_message t \<longleftrightarrow> t \<in> {Hello, Welcome, Get, Input, Subscribe, Redirect, ErrorMsg}"

text \<open>The metadata is whether the body carries a session.\<close>

definition validate_frame_body :: "runtime \<Rightarrow> MessageType \<Rightarrow> byte list \<Rightarrow> u8 \<Rightarrow> bool presult" where
  "validate_frame_body rt message body flags =
     (if message = Resource then Inr False
      else
        and_then (map_err (\<lambda>_. invalid_message rt [show_MessageType message, lit '' is not UTF-8''])
                    (from_utf8 body)) (\<lambda>txt.
        and_then (if is_control_message message then validate_control_framing rt message txt
                  else Inr ()) (\<lambda>_.
        (case message of
           Hello \<Rightarrow> map_ok (\<lambda>_. False) (validate_hello_body rt txt)
         | Get \<Rightarrow> validate_get_body rt txt
         | Input \<Rightarrow> validate_input_body rt txt
         | Subscribe \<Rightarrow> validate_subscribe_body rt txt
         | Welcome \<Rightarrow> map_ok (\<lambda>_. False) (validate_welcome_body rt txt)
         | Page \<Rightarrow>
             let pf = page_from_bits flags in
             map_ok (\<lambda>_. has_session pf) (validate_page_body rt txt pf)
         | Update \<Rightarrow>
             and_then (enforce_message_limit Update (len txt) MAX_LIVE_UPDATE_SIZE) (\<lambda>_.
             map_ok (\<lambda>_. False) (update_validate_serialized rt txt))
         | Redirect \<Rightarrow> map_ok (\<lambda>_. False) (validate_redirect_body rt txt)
         | ErrorMsg \<Rightarrow> map_ok (\<lambda>_. False) (validate_error_body rt txt)
         | Resource \<Rightarrow> Inr False
         | _ \<Rightarrow>
             if body \<noteq> []
             then Inl (invalid_message rt [show_MessageType message, lit '' must have an empty body''])
             else Inr False))))"

end
