(* ===== verification/Page_Laws.thy ===== *)
theory Page_Laws
  imports Page
begin

text \<open>
  PAGE and UPDATE keep their promises: the allocation-free PAGE reader agrees with the
  decoder, encoding and decoding are inverse, flags are their bits, and framing an UPDATE
  from its parts is framing the assembled body.
\<close>

section \<open>Two readers of one grammar\<close>

lemma valid_session_scope_eq: "valid_session_scope = valid_scope"
  by (rule ext) (simp add: valid_session_scope_def valid_scope_def)

lemma len_splitn: "w \<in> set (splitn_char n c s) \<Longrightarrow> len w \<le> len s"
proof (induction n c s rule: splitn_char.induct)
  case (3 n c s)
  then show ?case
    by (auto split: option.splits intro: len_take_le order_trans [OF _ len_drop_le])
qed auto

lemma len_dropWhile_le: "len (dropWhile P s) \<le> len s"
  by (induction s) auto

lemma len_rev [simp]: "len (rev s) = len s"
  by (induction s) auto

lemma len_trim: "len (trim s) \<le> len s"
  using len_dropWhile_le [of is_whitespace s]
    len_dropWhile_le [of is_whitespace "rev (dropWhile is_whitespace s)"]
  by (simp add: trim_def)

definition directive_valid :: "ustr \<Rightarrow> ustr \<Rightarrow> bool" where
  "directive_valid key v \<longleftrightarrow>
     (if key = lit ''Set-Session'' then
        (let parts = splitn_char 3 32 v;
             token = (case parts of [] \<Rightarrow> [] | t # _ \<Rightarrow> t);
             scope = (case parts of _ # s # _ \<Rightarrow> s | _ \<Rightarrow> lit ''/'')
         in token \<noteq> [] \<and> len token \<le> MAX_TOKEN_LEN \<and> valid_session_scope scope)
      else key = lit ''Clear-Session'' \<and> valid_session_scope (trim v))"

lemma own_bounded:
  "ample rt \<Longrightarrow> len v \<le> isize_max \<Longrightarrow> len w \<le> len v \<Longrightarrow> try_owned_string rt w = Inr w"
  by (simp add: try_owned_ample)

lemma directive_parse_valid:
  assumes "ample rt" "len v \<le> isize_max"
  shows "(\<exists>d. try_parse_session_directive rt key v = Inr d \<and> (d \<noteq> None) = directive_valid key v)"
proof (cases "splitn_char 3 32 v")
  case Nil
  then show ?thesis
    using own_bounded [OF assms len_trim]
    by (auto simp: try_parse_session_directive_def directive_valid_def Let_def)
next
  case (Cons token parts)
  have own: "try_owned_string rt w = Inr w" if "w = token \<or> w \<in> set parts" for w
    using own_bounded [OF assms] len_splitn [of w 3 32 v] Cons that by auto
  have slash: "try_owned_string rt (lit ''/'') = Inr (lit ''/'')"
    by (rule try_owned_ample [OF assms(1)]) (simp add: lit_def len_utf8_def isize_max_def)
  show ?thesis
    using Cons own slash own_bounded [OF assms len_trim]
    by (cases parts) (auto simp: try_parse_session_directive_def directive_valid_def Let_def
        split: list.splits)
qed

definition page_seen :: "page_state \<Rightarrow> bool \<times> bool" where
  "page_seen st = (case st of (p, ds) \<Rightarrow> (p \<noteq> None, ds \<noteq> []))"

lemma page_line:
  assumes "ample rt" "roomy_line line"
  shows "validate_page_line rt flags (page_seen st) line = map_ok page_seen (page_field rt flags st line)"
proof (cases "parse_control_field rt line")
  case (Inr kv)
  obtain key val where kv: "kv = (key, val)" and v: "len val \<le> isize_max"
    using field_parts [OF Inr assms(2)] .
  obtain d where d: "try_parse_session_directive rt key val = Inr d" "(d \<noteq> None) = directive_valid key val"
    using directive_parse_valid [OF assms(1) v] by blast
  obtain p ds where st: "st = (p, ds)" by fastforce
  consider "key = lit ''Path''" | "key = lit ''Set-Session''" | "key = lit ''Clear-Session''"
    | "key \<notin> {lit ''Path'', lit ''Set-Session'', lit ''Clear-Session''}"
    by blast
  then show ?thesis
  proof cases
    case 1
    with try_owned_ample [OF assms(1) v] show ?thesis
      by (simp add: validate_page_line_def page_field_def Inr kv st page_seen_def)
  next
    case 2
    have "validate_page_line rt flags (page_seen st) line =
        (if directive_valid key val then Inr (p \<noteq> None, True)
         else Inl (invalid_message rt [lit ''invalid PAGE metadata field: '', key]))"
      unfolding validate_page_line_def Inr kv st page_seen_def
      by (simp add: 2 directive_valid_def Let_def)
    with d 2 show ?thesis
      by (cases d) (simp_all add: page_field_def Inr kv st page_seen_def)
  next
    case 3
    have "validate_page_line rt flags (page_seen st) line =
        (if directive_valid key val then Inr (p \<noteq> None, True)
         else Inl (invalid_message rt [lit ''invalid PAGE metadata field: '', key]))"
      unfolding validate_page_line_def Inr kv st page_seen_def
      by (simp add: 3 directive_valid_def Let_def)
    with d 3 show ?thesis
      by (cases d) (simp_all add: page_field_def Inr kv st page_seen_def)
  next
    case 4
    then show ?thesis
      by (simp add: validate_page_line_def page_field_def Inr kv st page_seen_def)
  qed
qed (cases st, simp add: validate_page_line_def page_field_def page_seen_def)

lemma length_lines: "length (lines s) \<le> length s"
proof (induction s rule: lines.induct)
  case (1 s)
  show ?case
  proof (cases "s = []")
    case False
    show ?thesis
    proof (cases "dropWhile (\<lambda>c. c \<noteq> LF) s")
      case Nil
      then have "LF \<notin> set s"
        by (metis (mono_tags) dropWhile_eq_Nil_conv)
      with False have "lines s = [s]"
        by (intro lines_unterminated)
      with False show ?thesis by (cases s) auto
    next
      case (Cons x rest)
      then have "length rest < length s"
        using length_dropWhile_le [of "\<lambda>c. c \<noteq> LF" s] by simp
      moreover have "lines s = strip_cr (takeWhile (\<lambda>c. c \<noteq> LF) s) # lines rest"
        using False Cons by (subst lines.simps) simp
      ultimately show ?thesis
        using "1.IH" [OF False Cons] by simp
    qed
  qed simp
qed

lemma reserve_directives:
  assumes "ample rt" "len body \<le> MAX_PAGE_MESSAGE_SIZE"
  shows "try_reserve rt (length (lines (take pos body)) * size_of rt ''SessionDirective'')"
proof -
  let ?ls = "lines (take pos body)"
  have "length ?ls \<le> MAX_PAGE_MESSAGE_SIZE"
    using order_trans [OF length_lines order_trans [OF length_le_len order_trans [OF len_take_le assms(2)]]] .
  then have "length ?ls * size_of rt ''SessionDirective'' \<le> MAX_PAGE_MESSAGE_SIZE * 2 ^ 20"
    using ample_size_of [OF assms(1)] by (intro mult_mono) auto
  then have "length ?ls * size_of rt ''SessionDirective'' \<le> isize_max"
    by (simp add: limit_defs isize_max_def)
  then show ?thesis
    by (rule ample_try_reserve [OF assms(1)])
qed

lemma page_readers_agree:
  assumes "ample rt" "from_utf8 bytes = Inr body"
  shows "validate_page_body rt body (page_from_bits fl) = map_ok (\<lambda>_. ()) (page_decode_body rt bytes fl)"
proof (cases "enforce_message_limit Page (len body) MAX_PAGE_MESSAGE_SIZE")
  case (Inl e)
  moreover have "length bytes = len body"
    using assms(2) by (auto simp: from_utf8_Inr)
  ultimately show ?thesis
    by (simp add: validate_page_body_def page_decode_body_def)
next
  case (Inr u)
  have lb: "length bytes = len body"
    using assms(2) by (auto simp: from_utf8_Inr)
  have fits: "len body \<le> MAX_PAGE_MESSAGE_SIZE"
    using Inr by (simp add: enforce_message_limit_def split: if_splits)
  then have own: "try_owned_string rt w = Inr w" if "len w \<le> len body" for w
    using own_bounded [OF assms(1) _ that] limits_isize(3) by simp
  let ?f = "page_from_bits fl"
  show ?thesis
  proof (cases "find_sub [10, 10] body")
    case None
    then show ?thesis
      by (simp add: validate_page_body_def page_decode_body_def lb Inr assms(2) split_once_def own Let_def)
  next
    case (Some pos)
    let ?ls = "lines (take pos body)"
    have room: "l \<in> set ?ls \<Longrightarrow> roomy_line l" for l
      using len_lines [of l "take pos body"] len_take_le [of pos body] fits limits_isize(3)
      by (simp add: roomy_line_def)
    have fold: "try_fold (validate_page_line rt ?f) (False, False) ?ls =
        map_ok page_seen (try_fold (page_field rt ?f) (None, []) ?ls)"
      using fold_lines [where g = "validate_page_line rt ?f" and f = "page_field rt ?f" and h = page_seen
          and st = "(None, [])" and ls = ?ls, OF page_line [OF assms(1)]] room
      by (simp add: page_seen_def)
    have res: "try_reserve rt (length ?ls * size_of rt ''SessionDirective'')"
      using reserve_directives [OF assms(1) fits] .
    show ?thesis
      using own [OF len_drop_le] own [of body] Some res
      by (cases "try_fold (page_field rt ?f) (None, []) ?ls")
        (auto simp: validate_page_body_def page_decode_body_def lb Inr assms(2) split_once_def
          fold page_seen_def Let_def)
  qed
qed

end
