(* ===== verification/Page_Codec.thy ===== *)
theory Page_Codec
  imports Page_Laws
begin

text \<open>
  Encoding and decoding of PAGE and UPDATE bodies are inverse, and the size a PAGE or an
  UPDATE asks for is the size of what it writes.
\<close>

section \<open>Flags\<close>

lemma page_bits_roundtrip: "page_from_bits (page_to_bits f) = f"
  by (cases f) (simp add: page_from_bits_def page_to_bits_def Let_def)

lemma update_bits_roundtrip: "update_from_bits (update_to_bits f) = f"
  by (cases f) (simp add: update_from_bits_def update_to_bits_def)

section \<open>What a PAGE is written as\<close>

fun directive_line :: "SessionDirective \<Rightarrow> ustr" where
  "directive_line (SetSession token scope expires) =
     lit ''Set-Session: '' @ token @ [32] @ scope @
     (case expires of None \<Rightarrow> [] | Some e \<Rightarrow> 32 # show_nat (unat e))"
| "directive_line (ClearSession scope) = lit ''Clear-Session: '' @ scope"

definition meta_lines :: "PageMessage \<Rightarrow> ustr list" where
  "meta_lines m = (case page_path_field m of None \<Rightarrow> [] | Some p \<Rightarrow> [lit ''Path: '' @ p])
     @ map directive_line (session_directives m)"

definition page_text :: "PageMessage \<Rightarrow> ustr" where
  "page_text m = (if meta_lines m = [] then page_content m
     else concat (map (\<lambda>l. l @ [LF]) (meta_lines m)) @ [LF] @ page_content m)"

definition wire_flags :: "PageMessage \<Rightarrow> PageFlags" where
  "wire_flags m = (page_flags m)\<lparr>has_session := (session_directives m \<noteq> []),
     has_path := (page_path_field m \<noteq> None)\<rparr>"

lemma utf8_byte: "c < 128 \<Longrightarrow> utf8 [c] = [of_nat c]"
  by (simp add: utf8_ascii is_ascii_def)

lemma utf8_byte_Cons: "c < 128 \<Longrightarrow> utf8 (c # s) = of_nat c # utf8 s"
  using utf8_append [of "[c]" s] utf8_byte [of c] by simp

lemma push_decimal_eq: "push_decimal bytes v = bytes @ utf8 (show_nat (unat v))"
proof -
  have "unat v < 2 ^ LENGTH(64)"
    by (rule unsigned_less)
  then have "length (show_nat (unat v)) \<le> 20"
    by (intro length_show_nat) simp_all
  then show ?thesis
    using write_decimal_loop [of "unat v" 20 "replicate 20 0"]
    by (auto simp: push_decimal_def utf8_ascii show_nat_ascii)
qed

lemma push_directive_eq: "push_directive body d = body @ utf8 (directive_line d @ [LF])"
  by (cases d)
    (auto simp: push_directive_def push_decimal_eq Let_def utf8_byte_Cons split: option.splits)

lemma foldl_push_directive:
  "foldl push_directive body ds = body @ utf8 (concat (map (\<lambda>l. l @ [LF]) (map directive_line ds)))"
  by (induction ds arbitrary: body) (simp_all add: push_directive_eq utf8_byte_Cons)

lemma add_directive_eq:
  "and_then (size_to a) (\<lambda>n. add_directive n d) = size_to (a + len (directive_line d @ [LF]))"
proof (cases d)
  case (SetSession token scope expires)
  then show ?thesis
    by (cases expires)
      (auto simp: add_directive_def directive_size_def checked_add_size_eq size_to_def decimal_len_eq
        lit_def len_utf8_def)
next
  case (ClearSession scope)
  then show ?thesis
    by (auto simp: add_directive_def directive_size_def checked_add_size_eq size_to_def lit_def len_utf8_def)
qed

lemma fold_directives:
  "and_then (size_to a) (\<lambda>n. and_then (try_fold add_directive n ds) k) =
   and_then (size_to (a + len (concat (map (\<lambda>l. l @ [LF]) (map directive_line ds))))) k"
proof -
  have "sum_list (map (\<lambda>d. len (directive_line d @ [LF])) ds) =
      len (concat (map (\<lambda>l. l @ [LF]) (map directive_line ds)))"
    by (induction ds) simp_all
  with try_fold_add [where add = add_directive and w = "\<lambda>d. len (directive_line d @ [LF])",
      OF add_directive_eq, of a ds]
  show ?thesis
    by (simp only: and_then_assoc [symmetric])
qed

lemma meta_lines_Nil: "meta_lines m = [] \<longleftrightarrow> session_directives m = [] \<and> page_path_field m = None"
  by (auto simp: meta_lines_def split: option.splits)

definition path_fits :: "PageMessage \<Rightarrow> bool" where
  "path_fits m \<longleftrightarrow> (case page_path_field m of None \<Rightarrow> True
     | Some p \<Rightarrow> valid_page_path p \<and> len p \<le> MAX_PAGE_PATH_LEN)"

lemma encode_path_fits: "page_encode_body rt m = Inr (bytes, fl) \<Longrightarrow> path_fits m"
  by (auto simp: page_encode_body_def path_fits_def Let_def result_simps split: if_splits option.splits)

lemma encode_eq:
  assumes "path_fits m" "meta_lines m \<noteq> []"
  shows "page_encode_body rt m = and_then (size_to (len (page_text m))) (\<lambda>requested.
    and_then (enforce_message_limit Page requested MAX_PAGE_MESSAGE_SIZE) (\<lambda>_.
    if \<not> try_reserve rt requested then Inl (ResourceExhausted requested)
    else Inr (utf8 (page_text m), page_to_bits (wire_flags m))))"
proof -
  let ?ds = "concat (map (\<lambda>l. l @ [LF]) (map directive_line (session_directives m)))"
  let ?k = "\<lambda>requested. and_then (enforce_message_limit Page requested MAX_PAGE_MESSAGE_SIZE) (\<lambda>_.
      if \<not> try_reserve rt requested then Inl (ResourceExhausted requested)
      else Inr (foldl push_directive (case page_path_field m of None \<Rightarrow> []
          | Some p \<Rightarrow> utf8 (lit ''Path: '') @ utf8 p @ [10]) (session_directives m)
          @ [10] @ utf8 (page_content m), page_to_bits (wire_flags m)))"
  have ne: "\<not> (session_directives m = [] \<and> page_path_field m = None)"
    using assms(2) by (simp add: meta_lines_Nil)
  have sz: "len (page_text m) = 1 + len (page_content m) +
      (case page_path_field m of None \<Rightarrow> 0 | Some p \<Rightarrow> len (lit ''Path: '') + 1 + len p) + len ?ds"
    using assms(2) by (simp add: page_text_def meta_lines_def len_utf8_def split: option.splits)
  have "page_encode_body rt m = and_then (size_to (len (page_text m))) ?k"
  proof (cases "page_path_field m")
    case None
    have "page_encode_body rt m = and_then (size_to (1 + len (page_content m))) (\<lambda>requested.
        and_then (try_fold add_directive requested (session_directives m)) ?k)"
      unfolding page_encode_body_def Let_def wire_flags_def checked_add_size_eq
      using ne None by simp
    then show ?thesis
      unfolding fold_directives sz None by simp
  next
    case (Some p)
    then have "\<not> (len p > MAX_PAGE_PATH_LEN \<or> \<not> valid_page_path p)"
      using assms(1) by (simp add: path_fits_def)
    then have "page_encode_body rt m = and_then (size_to (1 + len (page_content m))) (\<lambda>requested.
        and_then (size_to (requested + (len (lit ''Path: '') + 1))) (\<lambda>n.
        and_then (size_to (n + len p)) (\<lambda>requested.
        and_then (try_fold add_directive requested (session_directives m)) ?k)))"
      unfolding page_encode_body_def Let_def wire_flags_def checked_add_size_eq
      using ne Some by (simp add: and_then_assoc)
    then show ?thesis
      by (simp only: size_to_step fold_directives sz Some option.case add.assoc)
  qed
  moreover have "foldl push_directive (case page_path_field m of None \<Rightarrow> []
          | Some p \<Rightarrow> utf8 (lit ''Path: '') @ utf8 p @ [10]) (session_directives m)
          @ [10] @ utf8 (page_content m) = utf8 (page_text m)"
    using assms(2)
    by (auto simp: page_text_def meta_lines_def foldl_push_directive utf8_byte_Cons split: option.splits)
  ultimately show ?thesis by (simp only:)
qed

lemma encode_no_metadata:
  "meta_lines m = [] \<Longrightarrow> page_encode_body rt m =
    and_then (enforce_message_limit Page (len (page_text m)) MAX_PAGE_MESSAGE_SIZE) (\<lambda>_.
    if \<not> try_reserve rt (len (page_text m)) then Inl (ResourceExhausted (len (page_text m)))
    else Inr (utf8 (page_text m), page_to_bits (wire_flags m)))"
  by (simp add: page_encode_body_def page_text_def wire_flags_def Let_def meta_lines_Nil)

lemma encode_written:
  assumes "page_encode_body rt m = Inr (bytes, fl)"
  shows "bytes = utf8 (page_text m)" "fl = page_to_bits (wire_flags m)"
    "len (page_text m) \<le> MAX_PAGE_MESSAGE_SIZE"
  using assms encode_eq [OF encode_path_fits [OF assms], of rt] encode_no_metadata [of m rt]
  by (cases "meta_lines m = []"; auto simp: result_simps size_to_def enforce_message_limit_def split: if_splits)+

lemma encode_succeeds:
  assumes "ample rt" "path_fits m" "len (page_text m) \<le> MAX_PAGE_MESSAGE_SIZE"
  shows "page_encode_body rt m = Inr (utf8 (page_text m), page_to_bits (wire_flags m))"
proof -
  have "len (page_text m) \<le> usize_max" "try_reserve rt (len (page_text m))"
    using assms(3) limits_isize(3) by (auto intro!: ample_try_reserve [OF assms(1)] simp: isize_max_def usize_max_def)
  then show ?thesis
    using assms encode_eq [of m rt] encode_no_metadata [of m rt]
    by (cases "meta_lines m = []") (simp_all add: size_to_small enforce_message_limit_def)
qed

section \<open>Reading a PAGE back\<close>

lemma find_sub_skip:
  "c \<notin> set w \<Longrightarrow> find_sub (c # p) (w @ rest) = map_option (\<lambda>i. length w + i) (find_sub (c # p) rest)"
  by (induction w; cases "find_sub (c # p) rest") auto

lemma find_blank_line:
  assumes "ls \<noteq> []" "\<forall>l \<in> set ls. l \<noteq> [] \<and> LF \<notin> set l"
  shows "find_sub [10, 10] (join_char LF ls @ [10, 10] @ rest) = Some (length (join_char LF ls))"
  using assms
proof (induction "LF::nat" ls rule: join_char.induct)
  case (2 w)
  then show ?case by (simp add: find_sub_skip)
next
  case (3 w w' ws)
  then have "w' \<noteq> []" "LF \<notin> set w'" by auto
  then have "join_char LF (w' # ws) \<noteq> [] \<and> hd (join_char LF (w' # ws)) \<noteq> LF"
    by (cases w'; cases ws) auto
  then have "\<not> starts_with [10] (join_char LF (w' # ws) @ [10, 10] @ rest)"
    by (cases "join_char LF (w' # ws)") auto
  with 3 show ?case by (simp add: find_sub_skip)
qed simp

lemma lines_join:
  "\<forall>l \<in> set ls. l \<noteq> [] \<and> LF \<notin> set l \<and> CR \<notin> set l \<Longrightarrow> lines (join_char LF ls) = ls"
  by (induction "LF::nat" ls rule: join_char.induct) (auto simp: lines_unterminated lines_line)

lemma concat_terminated: "ls \<noteq> [] \<Longrightarrow> concat (map (\<lambda>l. l @ [LF]) ls) = join_char LF ls @ [LF]"
  by (induction "LF::nat" ls rule: join_char.induct) auto

text \<open>
  The directives whose written line reads back: tokens and scopes without the space that
  separates them.
\<close>

fun directive_ok :: "SessionDirective \<Rightarrow> bool" where
  "directive_ok (SetSession token scope expires) \<longleftrightarrow>
     value_ok token \<and> len token \<le> MAX_TOKEN_LEN \<and> 32 \<notin> set token \<and> valid_str token \<and>
     valid_scope scope \<and> 32 \<notin> set scope \<and> valid_str scope"
| "directive_ok (ClearSession scope) \<longleftrightarrow> valid_scope scope \<and> trim scope = scope \<and> valid_str scope"

definition page_ok :: "PageMessage \<Rightarrow> bool" where
  "page_ok m \<longleftrightarrow> valid_str (page_content m) \<and> list_all directive_ok (session_directives m) \<and>
     (case page_path_field m of None \<Rightarrow> True | Some p \<Rightarrow> valid_str p)"

lemma valid_scope_clean: "valid_scope s \<Longrightarrow> value_ok s"
  by (simp add: valid_scope_def value_ok_def clean_def)

lemma valid_page_path_clean: "valid_page_path s \<Longrightarrow> value_ok s"
  by (cases s) (auto simp: valid_page_path_def value_ok_def clean_def)

lemma parse_u64_show: "parse_u64 (show_nat (unat (e :: u64))) = Some e"
proof -
  have "unat e < 2 ^ LENGTH(64)"
    by (rule unsigned_less)
  then have "unat e \<le> 2 ^ 64 - 1" by simp
  then show ?thesis
    by (simp add: parse_u64_def)
qed

lemma splitn_skip:
  "c \<notin> set w \<Longrightarrow> splitn_char (Suc (Suc n)) c (w @ c # rest) = w # splitn_char (Suc n) c rest"
proof -
  assume "c \<notin> set w"
  then have "find_char (\<lambda>x. x = c) (w @ c # rest) = Some (length w)"
    by (intro find_char_append) (auto simp: list_all_iff)
  then show ?thesis by simp
qed

lemma splitn_whole: "c \<notin> set w \<Longrightarrow> splitn_char (Suc n) c w = [w]"
  using find_char_None [of "\<lambda>x. x = c" w] by (cases n) (auto simp: list_all_iff)

lemma field_of_directive:
  assumes "directive_ok d"
  shows "\<exists>key v. parse_control_field rt (directive_line d) = Inr (key, v)
    \<and> key \<in> {lit ''Set-Session'', lit ''Clear-Session''}
    \<and> (ample rt \<longrightarrow> try_parse_session_directive rt key v = Inr (Some d))"
proof (cases d)
  case (SetSession token scope expires)
  let ?v = "token @ [32] @ scope @ (case expires of None \<Rightarrow> [] | Some e \<Rightarrow> 32 # show_nat (unat e))"
  have wf: "value_ok token" "len token \<le> MAX_TOKEN_LEN" "32 \<notin> set token" "valid_scope scope" "32 \<notin> set scope"
    using assms SetSession by auto
  have sp: "clean (32 # s) = clean s" for s
    by (simp add: clean_def is_control_def)
  have "value_ok ?v"
    using wf(1) valid_scope_clean [OF wf(4)]
    by (cases expires) (auto simp: value_ok_def sp)
  then have "parse_control_field rt (directive_line d) = Inr (lit ''Set-Session'', ?v)"
    using field_lit [of "''Set-Session''" ?v rt] SetSession by (simp add: key_ok_def)
  moreover have "splitn_char 3 32 ?v = token # scope # (case expires of None \<Rightarrow> [] | Some e \<Rightarrow> [show_nat (unat e)])"
    using wf by (auto simp: numeral_3_eq_3 splitn_skip splitn_whole simp del: splitn_char.simps(3) split: option.splits)
  then have "try_parse_session_directive rt (lit ''Set-Session'') ?v = Inr (Some d)" if "ample rt"
    using wf that SetSession
    by (auto simp: try_parse_session_directive_def valid_session_scope_eq try_owned_ample value_ok_def
        parse_u64_show valid_scope_def limit_defs isize_max_def MAX_TOKEN_LEN_def MAX_SCOPE_LEN_def split: option.splits)
  ultimately show ?thesis by blast
next
  case (ClearSession scope)
  then have wf: "valid_scope scope" "trim scope = scope"
    using assms by auto
  have "parse_control_field rt (directive_line d) = Inr (lit ''Clear-Session'', scope)"
    using field_lit [of "''Clear-Session''" scope rt] valid_scope_clean [OF wf(1)] ClearSession
    by (simp add: key_ok_def)
  moreover have "try_parse_session_directive rt (lit ''Clear-Session'') scope = Inr (Some d)" if "ample rt"
    using wf that ClearSession
    by (auto simp: try_parse_session_directive_def valid_session_scope_eq try_owned_ample
        valid_scope_def isize_max_def MAX_SCOPE_LEN_def)
  ultimately show ?thesis by blast
qed

lemma page_field_directive:
  assumes "ample rt" "directive_ok d"
  shows "page_field rt fl (p, ds) (directive_line d) = Inr (p, ds @ [d])"
  using field_of_directive [OF assms(2), of rt] assms(1) by (auto simp: page_field_def)

lemma page_fold_directives:
  "ample rt \<Longrightarrow> list_all directive_ok ds \<Longrightarrow>
   try_fold (page_field rt fl) (p, acc) (map directive_line ds) = Inr (p, acc @ ds)"
  by (induction ds arbitrary: acc) (simp_all add: page_field_directive)

lemma page_field_path:
  assumes "ample rt" "valid_page_path p" "len p \<le> MAX_PAGE_PATH_LEN" "has_path fl"
  shows "page_field rt fl (None, ds) (lit ''Path: '' @ p) = Inr (Some p, ds)"
proof -
  have "parse_control_field rt (lit ''Path: '' @ p) = Inr (lit ''Path'', p)"
    using field_lit [of "''Path''" p rt] valid_page_path_clean [OF assms(2)] by (simp add: key_ok_def)
  moreover have "try_owned_string rt p = Inr p"
    using assms by (intro try_owned_ample) (auto simp: limit_defs isize_max_def)
  ultimately show ?thesis
    using assms by (simp add: page_field_def)
qed

lemma directive_line_ok:
  assumes "directive_ok d"
  shows "directive_line d \<noteq> [] \<and> clean (directive_line d) \<and> valid_str (directive_line d)"
proof -
  obtain key v where "parse_control_field roomy_runtime (directive_line d) = Inr (key, v)"
    using field_of_directive [OF assms] by blast
  then have "directive_line d \<noteq> [] \<and> clean (directive_line d)"
    by (auto simp: parse_control_field_def clean_def split: if_splits)
  moreover have "valid_str (lit ''Set-Session: '')" "valid_str (lit ''Clear-Session: '')" "is_scalar 32"
    by (simp_all add: lit_def is_scalar_def)
  moreover have "valid_str (show_nat n)" for n
    using show_nat_no_space [of _ n] by (fastforce simp: valid_str_def list_all_iff is_scalar_def)
  ultimately show ?thesis
    using assms by (cases d) (auto split: option.splits)
qed

lemma meta_lines_ok:
  assumes "page_ok m" "path_fits m" "l \<in> set (meta_lines m)"
  shows "l \<noteq> [] \<and> clean l \<and> valid_str l"
proof -
  have "clean (lit ''Path: '')" "valid_str (lit ''Path: '')"
    by (simp_all add: clean_def lit_def is_control_def is_scalar_def)
  then show ?thesis
    using assms directive_line_ok valid_page_path_clean
    by (auto simp: meta_lines_def page_ok_def path_fits_def list_all_iff value_ok_def split: option.splits)
qed

lemma fold_meta_lines:
  assumes "ample rt" "page_ok m" "path_fits m" "has_path f \<longleftrightarrow> page_path_field m \<noteq> None"
  shows "try_fold (page_field rt f) (None, []) (meta_lines m) = Inr (page_path_field m, session_directives m)"
  using assms page_field_path [OF assms(1), of _ f]
  by (cases "page_path_field m")
    (auto simp: meta_lines_def page_fold_directives page_ok_def path_fits_def)

lemma page_flags_update:
  "m\<lparr>page_flags := fl\<rparr> = \<lparr>page_content = page_content m, page_flags = fl,
     page_path_field = page_path_field m, session_directives = session_directives m\<rparr>"
  by (cases m) simp

text \<open>
  What decoding returns for a written body, for every flags byte that announces the path and
  at least some of what the metadata block holds.
\<close>

lemma page_decode_text:
  assumes "ample rt" "page_ok m" "path_fits m" "len (page_text m) \<le> MAX_PAGE_MESSAGE_SIZE"
    and fl: "page_from_bits fl = f"
    and path: "has_path f \<longleftrightarrow> page_path_field m \<noteq> None"
    and session: "has_session f \<Longrightarrow> session_directives m \<noteq> []"
    and some: "meta_lines m \<noteq> [] \<Longrightarrow> has_session f \<or> has_path f"
  shows "page_decode_body rt (utf8 (page_text m)) fl = Inr (m\<lparr>page_flags := f\<rparr>)"
proof -
  note line = meta_lines_ok [OF assms(2,3)]
  have small: "enforce_message_limit Page (length (utf8 (page_text m))) MAX_PAGE_MESSAGE_SIZE = Inr ()"
    using assms(4) by (simp add: enforce_message_limit_def)
  have own: "try_owned_string rt w = Inr w" if "len w \<le> len (page_text m)" for w
    using that assms(4) limits_isize(3) by (intro try_owned_ample [OF assms(1)]) simp
  have "valid_str s" if "\<forall>l \<in> set ls. valid_str l" "s = concat (map (\<lambda>l. l @ [LF]) ls)" for s ls
    using that by (induction ls arbitrary: s) (auto simp: is_scalar_def)
  then have dec: "from_utf8 (utf8 (page_text m)) = Inr (page_text m)"
    using line assms(2) by (auto simp: page_text_def page_ok_def is_scalar_def)
  show ?thesis
  proof (cases "meta_lines m = []")
    case True
    then have "session_directives m = []" "page_path_field m = None" "page_text m = page_content m"
      by (simp_all add: meta_lines_Nil page_text_def)
    with own [of "page_content m"] small path session dec show ?thesis
      by (auto simp: page_decode_body_def fl page_flags_update Let_def)
  next
    case False
    let ?A = "join_char LF (meta_lines m)"
    have body: "page_text m = ?A @ [10, 10] @ page_content m"
      using False by (simp add: page_text_def concat_terminated)
    have noLF: "\<forall>l \<in> set (meta_lines m). l \<noteq> [] \<and> LF \<notin> set l \<and> CR \<notin> set l"
      using line by (fastforce simp: clean_def list_ex_iff is_control_def)
    then have pos: "find_sub [10, 10] (page_text m) = Some (length ?A)"
      unfolding body using False by (intro find_blank_line) auto
    have ls: "lines ?A = meta_lines m"
      using lines_join [OF noLF] .
    have res: "try_reserve rt (length (meta_lines m) * size_of rt ''SessionDirective'')"
      using reserve_directives [OF assms(1,4), of "length ?A"] by (simp add: body ls)
    have flags: "\<not> (\<not> has_session f \<and> \<not> has_path f)" "\<not> (has_path f \<and> page_path_field m = None)"
      "\<not> (has_session f \<and> session_directives m = [])"
      using some [OF False] path session by auto
    have "try_owned_string rt (page_content m) = Inr (page_content m)"
      by (rule own) (simp add: body)
    moreover have "take (length ?A) (page_text m) = ?A" "drop (length ?A + 2) (page_text m) = page_content m"
      by (simp_all add: body)
    ultimately show ?thesis
      using small fold_meta_lines [OF assms(1-3) path] res
      by (simp only: page_decode_body_def dec fl Let_def pos ls flags and_then_Inr map_err_simps if_False
          option.case not_True_eq_False prod.case page_flags_update map_ok_simps)
  qed
qed

definition sample_page :: PageMessage where
  "sample_page = \<lparr>page_content = lit ''hi'',
     page_flags = \<lparr>cacheable = True, has_live_regions = False, has_path = False, has_session = False\<rparr>,
     page_path_field = Some (lit ''/a''),
     session_directives = [SetSession (lit ''t1'') (lit ''/'') (Some 7), ClearSession (lit ''/b'')]\<rparr>"

lemmas page_eval = sample_page_def page_ok_def path_fits_def valid_page_path_def value_ok_def clean_def
  valid_scope_def lit_def is_control_def is_scalar_def valid_str_def limit_defs MAX_TOKEN_LEN_def
  MAX_SCOPE_LEN_def len_utf8_def is_whitespace_def trim_def wire_flags_def page_text_def meta_lines_def
  show_nat.simps

lemma sample_page_ok: "page_ok sample_page" "path_fits sample_page"
  "len (page_text sample_page) \<le> MAX_PAGE_MESSAGE_SIZE"
  by (simp_all add: page_eval)

text \<open>
  C5: A PAGE whose texts are well formed, whose path is an acceptable one and whose body is
  within the limit is encoded, and decoding the body with the flags byte that was written
  returns the same page, its two metadata flags set to what the page really carries.
\<close>

theorem page_roundtrip:
  assumes "ample rt" "page_ok m" "path_fits m" "len (page_text m) \<le> MAX_PAGE_MESSAGE_SIZE"
  shows "\<exists>bytes fl. page_encode_body rt m = Inr (bytes, fl)
    \<and> page_decode_body rt bytes fl = Inr (m\<lparr>page_flags := wire_flags m\<rparr>)"
proof -
  have "page_decode_body rt (utf8 (page_text m)) (page_to_bits (wire_flags m)) = Inr (m\<lparr>page_flags := wire_flags m\<rparr>)"
    by (rule page_decode_text [OF assms page_bits_roundtrip]) (auto simp: wire_flags_def meta_lines_Nil)
  then show ?thesis
    using encode_succeeds [OF assms(1,3,4)] by blast
qed

theorem page_roundtrip_witness:
  "\<exists>bytes fl. page_encode_body roomy_runtime sample_page = Inr (bytes, fl)
    \<and> page_decode_body roomy_runtime bytes fl =
      Inr (sample_page\<lparr>page_flags := \<lparr>cacheable = True, has_live_regions = False, has_path = True, has_session = True\<rparr>\<rparr>)"
proof -
  have "wire_flags sample_page =
      \<lparr>cacheable = True, has_live_regions = False, has_path = True, has_session = True\<rparr>"
    by (simp add: wire_flags_def sample_page_def)
  with page_roundtrip [OF ample_roomy sample_page_ok] show ?thesis
    by simp
qed

text \<open>
  The allocation-free check of a PAGE body and the decoder that builds the page accept
  the same bodies and report the same error, whatever the body and the flags byte, when the
  allocator grants what is asked.
\<close>

theorem page_validator_agrees:
  assumes "ample rt" "from_utf8 bytes = Inr body"
  shows "validate_page_body rt body (page_from_bits fl) = map_ok (\<lambda>_. ()) (page_decode_body rt bytes fl)"
  by (rule page_readers_agree [OF assms])

theorem page_validator_agrees_witness:
  "validate_page_body roomy_runtime (lit ''x'') (page_from_bits 0) =
     map_ok (\<lambda>_. ()) (page_decode_body roomy_runtime [120] 0)"
  by (rule page_validator_agrees) (simp_all add: from_utf8_Inr lit_def utf8_byte is_scalar_def)

section \<open>UPDATE\<close>

definition update_text :: "UpdateMessage \<Rightarrow> ustr" where
  "update_text m = lit ''UPDATE '' @ upd_region m @ [10, 10] @ upd_content m"

lemma len_update_prefix: "len (lit ''UPDATE '') = 7"
  by (simp add: lit_def len_utf8_def)

lemma len_update_text: "len (update_text m) = 9 + len (upd_region m) + len (upd_content m)"
  by (simp add: update_text_def len_update_prefix len_utf8_def)

lemma update_text_fold: "lit ''UPDATE '' @ upd_region m @ 10 # 10 # upd_content m = update_text m"
  by (simp add: update_text_def)

text \<open>The frame writer that avoids assembling the body checks what the assembling one checks.\<close>

lemma update_parts_eq:
  "Update_serialize rt m =
     and_then (validate_update_parts rt (upd_region m) (len (upd_content m))) (\<lambda>_.
     and_then (try_string_with_capacity rt (len (update_text m))) (\<lambda>_. Inr (update_text m)))"
  by (cases "validate_primary_value rt (lit ''UPDATE region-id'') (upd_region m)")
    (auto simp: Update_serialize_def Update_serialize_parts_def validate_update_parts_def parts_body_len_def
      len_update_text checked_add_def update_text_fold enforce_message_limit_def)

lemma update_serialize_written:
  assumes "Update_serialize rt m = Inr s"
  shows "s = update_text m" "len s \<le> MAX_LIVE_UPDATE_SIZE" "value_ok (upd_region m)"
  using assms
  by (auto simp: update_parts_eq validate_update_parts_def parts_body_len_def validate_primary_value_def
      result_simps len_update_text checked_add_def enforce_message_limit_def value_ok_def clean_def split: if_splits)

lemma update_line:
  assumes "value_ok (upd_region m)"
  shows "first_line_end (update_text m) = 7 + length (upd_region m)"
    "find_sub [10, 10] (update_text m) = Some (7 + length (upd_region m))"
proof -
  let ?a = "lit ''UPDATE '' @ upd_region m"
  have no: "LF \<notin> set ?a"
    using assms by (auto simp: lit_def value_ok_def clean_def list_ex_iff is_control_def)
  have "find_char (\<lambda>c. c = LF) (?a @ LF # LF # upd_content m) = Some (length ?a)"
    by (rule find_char_append) (use no in \<open>auto simp: list_all_iff\<close>)
  then show "first_line_end (update_text m) = 7 + length (upd_region m)"
    by (simp add: first_line_end_def update_text_def)
  show "find_sub [10, 10] (update_text m) = Some (7 + length (upd_region m))"
    using find_sub_notin [OF no, of "[LF]" "upd_content m"] by (simp add: update_text_def)
qed

lemma update_parse_text:
  assumes "ample rt" "value_ok (upd_region m)" "len (update_text m) \<le> MAX_LIVE_UPDATE_SIZE"
  shows "Update_parse rt (update_text m) = Inr (m\<lparr>upd_flags := \<lparr>delta_flag = False\<rparr>\<rparr>)"
proof -
  let ?n = "7 + length (upd_region m)"
  have t: "take ?n (update_text m) = lit ''UPDATE '' @ upd_region m" "drop ?n (update_text m) = [10, 10] @ upd_content m"
    "drop (?n + 2) (update_text m) = upd_content m"
    by (simp_all add: update_text_def)
  have own: "try_owned_string rt w = Inr w" if "len w \<le> len (update_text m)" for w
    using that assms(3) by (intro try_owned_ample [OF assms(1)]) (simp add: limit_defs isize_max_def)
  have "try_owned_string rt (upd_region m) = Inr (upd_region m)" "try_owned_string rt (upd_content m) = Inr (upd_content m)"
    by (auto intro!: own simp: len_update_text)
  moreover have "validate_primary_value rt (lit ''UPDATE region-id'') (upd_region m) = Inr ()"
    using assms(2) by (simp add: validate_primary_value_def value_ok_def clean_def)
  moreover have "strip_prefix (lit ''UPDATE '') (lit ''UPDATE '' @ upd_region m) = Some (upd_region m)"
    by simp
  ultimately show ?thesis
    using assms(3) t update_line [OF assms(2)]
    by (cases m) (simp add: Update_parse_def update_validate_serialized_def enforce_message_limit_def Let_def)
qed

text \<open>
  An UPDATE that is serialized parses back to the same region and content, and the flags
  byte written beside it restores its flags. The writer that streams the parts without
  assembling the body accepts it too, and announces exactly the number of bytes of the
  assembled body.
\<close>

theorem update_roundtrip:
  assumes "ample rt" "Update_serialize rt m = Inr s"
  shows "map_ok (\<lambda>u. update_with_flags u (update_to_bits (upd_flags m))) (Update_parse rt s) = Inr m
    \<and> validate_update_parts rt (upd_region m) (len (upd_content m)) = Inr ()
    \<and> parts_body_len (upd_region m) (len (upd_content m)) = Inr (length (utf8 s))"
proof (intro conjI)
  note w = update_serialize_written [OF assms(2)]
  show "map_ok (\<lambda>u. update_with_flags u (update_to_bits (upd_flags m))) (Update_parse rt s) = Inr m"
    using update_parse_text [OF assms(1) w(3)] w(1,2)
    by (simp add: update_with_flags_def update_bits_roundtrip)
  show "validate_update_parts rt (upd_region m) (len (upd_content m)) = Inr ()"
    using assms(2) by (auto simp: update_parts_eq result_simps)
  show "parts_body_len (upd_region m) (len (upd_content m)) = Inr (length (utf8 s))"
    using w(1,2) by (simp add: parts_body_len_def checked_add_def len_update_text limit_defs usize_max_def)
qed

theorem update_roundtrip_witness:
  "\<exists>s. Update_serialize roomy_runtime \<lparr>upd_region = lit ''r'', upd_content = lit ''x'', upd_flags = \<lparr>delta_flag = True\<rparr>\<rparr> = Inr s
    \<and> map_ok (\<lambda>u. update_with_flags u 1) (Update_parse roomy_runtime s) =
      Inr \<lparr>upd_region = lit ''r'', upd_content = lit ''x'', upd_flags = \<lparr>delta_flag = True\<rparr>\<rparr>
    \<and> length (utf8 s) = 11"
proof -
  let ?m = "\<lparr>upd_region = lit ''r'', upd_content = lit ''x'', upd_flags = \<lparr>delta_flag = True\<rparr>\<rparr>"
  have s: "Update_serialize roomy_runtime ?m = Inr (update_text ?m)"
    by (simp add: update_parts_eq validate_update_parts_def validate_primary_value_def parts_body_len_def
        len_update_text lit_def is_control_def len_utf8_def checked_add_def usize_max_def
        enforce_message_limit_def limit_defs try_string_with_capacity_def try_reserve_def isize_max_def)
  show ?thesis
    using update_roundtrip [OF ample_roomy s] s
    by (simp add: update_to_bits_def len_update_text lit_def len_utf8_def)
qed

section \<open>A session the flags do not announce\<close>

text \<open>
  The metadata block is read whenever either flag is set, and a session directive in it
  needs no session flag: a PAGE carrying only the path flag may set a session token, decoding
  returns the directive, and the check of the frame reports a body without a session, which
  is what the capability gate looks at. A Path field without its flag, by contrast, is refused.
\<close>

theorem session_directive_without_flag:
  "\<exists>bytes. validate_frame_body roomy_runtime Page bytes 0x04 = Inr False
     \<and> (\<exists>m. page_decode_body roomy_runtime bytes 0x04 = Inr m
          \<and> session_directives m = [SetSession (lit ''t1'') (lit ''/'') (Some 7), ClearSession (lit ''/b'')])"
proof -
  let ?b = "utf8 (page_text sample_page)"
  let ?f = "\<lparr>cacheable = False, has_live_regions = False, has_path = True, has_session = False\<rparr>"
  have f: "page_from_bits 0x04 = ?f"
    by (simp add: page_from_bits_def)
  have d: "page_decode_body roomy_runtime ?b 0x04 = Inr (sample_page\<lparr>page_flags := ?f\<rparr>)"
    by (rule page_decode_text [OF ample_roomy sample_page_ok f]) (simp_all add: sample_page_def)
  then obtain body where u: "from_utf8 ?b = Inr body"
    by (cases "from_utf8 ?b") (auto simp: page_decode_body_def Let_def result_simps)
  have "validate_page_body roomy_runtime body ?f = Inr ()"
    using page_readers_agree [OF ample_roomy u, where fl = "0x04"] d by (simp add: f)
  with u have "validate_frame_body roomy_runtime Page ?b 0x04 = Inr False"
    by (simp add: validate_frame_body_def is_control_message_def f Let_def)
  with d show ?thesis
    by (intro exI [of _ ?b]) (simp add: sample_page_def)
qed

end
