(* ===== verification/Frame.thy ===== *)
theory Frame
  imports Protocol
begin

text \<open>
  \<open>protocol/frame.rs\<close>: the wire format of a frame, a big-endian 32-bit total length, the
  message type, the flags and the body.
\<close>

section \<open>Message type codes\<close>

fun to_u8 :: "MessageType \<Rightarrow> u8" where
  "to_u8 Hello = 0x01"
| "to_u8 Get = 0x02"
| "to_u8 Input = 0x03"
| "to_u8 Subscribe = 0x04"
| "to_u8 Unsubscribe = 0x05"
| "to_u8 Ping = 0x06"
| "to_u8 Bye = 0x0F"
| "to_u8 Welcome = 0x81"
| "to_u8 Page = 0x82"
| "to_u8 Update = 0x83"
| "to_u8 Redirect = 0x84"
| "to_u8 ErrorMsg = 0x85"
| "to_u8 Resource = 0x86"
| "to_u8 Pong = 0x87"
| "to_u8 ServerBye = 0x8F"

definition from_u8 :: "u8 \<Rightarrow> MessageType presult" where
  "from_u8 code =
     (if code = 0x01 then Inr Hello
      else if code = 0x02 then Inr Get
      else if code = 0x03 then Inr Input
      else if code = 0x04 then Inr Subscribe
      else if code = 0x05 then Inr Unsubscribe
      else if code = 0x06 then Inr Ping
      else if code = 0x0F then Inr Bye
      else if code = 0x81 then Inr Welcome
      else if code = 0x82 then Inr Page
      else if code = 0x83 then Inr Update
      else if code = 0x84 then Inr Redirect
      else if code = 0x85 then Inr ErrorMsg
      else if code = 0x86 then Inr Resource
      else if code = 0x87 then Inr Pong
      else if code = 0x8F then Inr ServerBye
      else Inl (UnknownMessageType code))"

section \<open>Frames\<close>

record RawFrame =
  msg_type :: MessageType
  flags :: u8
  body :: "byte list"

definition allocate_frame_body :: "runtime \<Rightarrow> nat \<Rightarrow> byte list presult" where
  "allocate_frame_body rt body_len =
     (if try_reserve rt body_len then Inr (replicate body_len 0)
      else Inl (ResourceExhausted body_len))"

definition to_be_bytes :: "u32 \<Rightarrow> byte list" where
  "to_be_bytes w = [ucast (drop_bit 24 w), ucast (drop_bit 16 w), ucast (drop_bit 8 w), ucast w]"

definition from_be_bytes :: "byte \<Rightarrow> byte \<Rightarrow> byte \<Rightarrow> byte \<Rightarrow> u32" where
  "from_be_bytes a b c d =
     push_bit 24 (ucast a) OR push_bit 16 (ucast b) OR push_bit 8 (ucast c) OR ucast d"

definition checked_add_u32 :: "u32 \<Rightarrow> u32 \<Rightarrow> u32 option" where
  "checked_add_u32 a b = (if unat a + unat b \<le> u32_max then Some (a + b) else None)"

definition encode_frame :: "runtime \<Rightarrow> RawFrame \<Rightarrow> byte list presult" where
  "encode_frame rt frame =
     and_then (ok_or (FrameTooLarge u32_max) (u32_try_from (length (body frame)))) (\<lambda>body_len.
     and_then (ok_or (FrameTooLarge u32_max) (checked_add_u32 (of_nat HEADER_SIZE) body_len)) (\<lambda>total_len.
     if unat total_len > MAX_FRAME_SIZE then Inl (FrameTooLarge (unat total_len))
     else let requested = unat total_len in
       if \<not> try_reserve rt requested then Inl (ResourceExhausted requested)
       else Inr (to_be_bytes total_len @ [to_u8 (msg_type frame)] @ [flags frame] @ body frame)))"

text \<open>The argument is a fixed array of \<open>HEADER_SIZE\<close> bytes.\<close>

type_synonym header = "byte \<times> byte \<times> byte \<times> byte \<times> byte \<times> byte"

fun decode_header :: "runtime \<Rightarrow> header \<Rightarrow> (u32 \<times> MessageType \<times> u8) presult" where
  "decode_header rt (h0, h1, h2, h3, h4, h5) =
     (let total_len = from_be_bytes h0 h1 h2 h3 in
      if unat total_len > MAX_FRAME_SIZE then Inl (FrameTooLarge (unat total_len))
      else if total_len < of_nat HEADER_SIZE then
        Inl (invalid_message rt [lit ''frame length '', show_nat (unat total_len),
                                 lit '' is smaller than header size''])
      else and_then (from_u8 h4) (\<lambda>mt.
        Inr (total_len - of_nat HEADER_SIZE, mt, h5)))"

fun header_bytes :: "header \<Rightarrow> byte list" where
  "header_bytes (h0, h1, h2, h3, h4, h5) = [h0, h1, h2, h3, h4, h5]"

section \<open>Lemmas\<close>

lemma from_u8_to_u8 [simp]: "from_u8 (to_u8 mt) = Inr mt"
  by (cases mt) (simp_all add: from_u8_def)

lemma from_u8_Inr: "from_u8 code = Inr mt \<longleftrightarrow> code = to_u8 mt"
proof
  assume "from_u8 code = Inr mt"
  then show "code = to_u8 mt" by (auto simp: from_u8_def split: if_splits)
qed simp

lemma from_be_to_be:
  "from_be_bytes (ucast (drop_bit 24 w)) (ucast (drop_bit 16 w)) (ucast (drop_bit 8 w)) (ucast w) = w"
  unfolding from_be_bytes_def
proof (rule bit_word_eqI)
  fix n assume "n < LENGTH(32)"
  then consider "n < 8" | "8 \<le> n" "n < 16" | "16 \<le> n" "n < 24" | "24 \<le> n" "n < 32"
    by fastforce
  then show "bit (push_bit 24 (ucast (ucast (drop_bit 24 w) :: 8 word)) OR
      push_bit 16 (ucast (ucast (drop_bit 16 w) :: 8 word)) OR
      push_bit 8 (ucast (ucast (drop_bit 8 w) :: 8 word)) OR
      ucast (ucast w :: 8 word) :: 32 word) n = bit w n"
    by cases (auto simp: bit_simps)
qed

lemma to_be_from_be: "to_be_bytes (from_be_bytes a b c d) = [a, b, c, d]"
proof -
  have "ucast (drop_bit 24 (from_be_bytes a b c d)) = a"
    unfolding from_be_bytes_def by (rule bit_word_eqI) (auto simp: bit_simps dest: bit_imp_le_length)
  moreover have "ucast (drop_bit 16 (from_be_bytes a b c d)) = b"
    unfolding from_be_bytes_def by (rule bit_word_eqI) (auto simp: bit_simps dest: bit_imp_le_length)
  moreover have "ucast (drop_bit 8 (from_be_bytes a b c d)) = c"
    unfolding from_be_bytes_def by (rule bit_word_eqI) (auto simp: bit_simps dest: bit_imp_le_length)
  moreover have "ucast (from_be_bytes a b c d) = d"
    unfolding from_be_bytes_def by (rule bit_word_eqI) (auto simp: bit_simps dest: bit_imp_le_length)
  ultimately show ?thesis by (simp add: to_be_bytes_def)
qed

lemma unat_total:
  assumes "n + HEADER_SIZE \<le> u32_max"
  shows "unat (of_nat HEADER_SIZE + of_nat n :: u32) = HEADER_SIZE + n"
proof -
  have "of_nat HEADER_SIZE + of_nat n = (of_nat (HEADER_SIZE + n) :: u32)" by simp
  then show ?thesis using assms by (simp only: unat_of_nat_u32 add.commute)
qed

text \<open>The frames \<open>encode_frame\<close> accepts, and what it writes.\<close>

definition frame_header :: "RawFrame \<Rightarrow> header" where
  "frame_header f =
     (let t = of_nat (HEADER_SIZE + length (body f)) :: u32 in
      (ucast (drop_bit 24 t), ucast (drop_bit 16 t), ucast (drop_bit 8 t), ucast t,
       to_u8 (msg_type f), flags f))"

lemma encode_frame_Inr:
  "encode_frame rt f = Inr bs \<longleftrightarrow>
     HEADER_SIZE + length (body f) \<le> MAX_FRAME_SIZE
     \<and> try_reserve rt (HEADER_SIZE + length (body f))
     \<and> bs = header_bytes (frame_header f) @ body f"
proof (cases "HEADER_SIZE + length (body f) \<le> u32_max")
  case True
  then have "length (body f) \<le> u32_max" by simp
  with True unat_total [of "length (body f)"] show ?thesis
    by (auto simp: encode_frame_def u32_try_from_def checked_add_u32_def unat_of_nat_u32 Let_def
        frame_header_def to_be_bytes_def HEADER_SIZE_def)
next
  case False
  then have "\<not> HEADER_SIZE + length (body f) \<le> MAX_FRAME_SIZE"
    by (simp add: u32_max_def MAX_FRAME_SIZE_def)
  moreover have "encode_frame rt f = Inl (FrameTooLarge u32_max)"
    using False unat_of_nat_u32 [of "length (body f)"]
    by (auto simp: encode_frame_def u32_try_from_def checked_add_u32_def HEADER_SIZE_def u32_max_def)
  ultimately show ?thesis by simp
qed

lemma decode_frame_header:
  assumes "HEADER_SIZE + length (body f) \<le> MAX_FRAME_SIZE"
  shows "decode_header rt (frame_header f) = Inr (of_nat (length (body f)), msg_type f, flags f)"
proof -
  define t where "t = (of_nat (HEADER_SIZE + length (body f)) :: u32)"
  have t: "unat t = HEADER_SIZE + length (body f)"
    using assms unfolding t_def by (intro unat_of_nat_u32) (simp add: limit_defs u32_max_def)
  moreover have "\<not> t < of_nat HEADER_SIZE"
    using t by (simp add: word_less_nat_alt HEADER_SIZE_def)
  moreover have "t - of_nat HEADER_SIZE = of_nat (length (body f))"
    by (simp add: t_def)
  moreover have "frame_header f = (ucast (drop_bit 24 t), ucast (drop_bit 16 t),
      ucast (drop_bit 8 t), ucast t, to_u8 (msg_type f), flags f)"
    by (simp only: frame_header_def Let_def t_def)
  ultimately show ?thesis
    using assms by (simp add: from_be_to_be)
qed

lemma decode_header_bound:
  assumes "decode_header rt h = Inr (n, mt, fl)"
  shows "HEADER_SIZE + unat n \<le> MAX_FRAME_SIZE"
proof -
  obtain h0 h1 h2 h3 h4 h5 where h: "h = (h0, h1, h2, h3, h4, h5)" by (cases h)
  define t where "t = from_be_bytes h0 h1 h2 h3"
  have t: "unat t \<le> MAX_FRAME_SIZE" "of_nat HEADER_SIZE \<le> t" "n = t - of_nat HEADER_SIZE"
    using assms by (auto simp: h Let_def t_def [symmetric] result_simps split: if_splits)
  then have "unat n = unat t - HEADER_SIZE"
    by (simp add: unat_sub HEADER_SIZE_def)
  moreover have "HEADER_SIZE \<le> unat t"
    using t(2) by (simp add: word_le_nat_alt HEADER_SIZE_def)
  ultimately show ?thesis using t(1) by simp
qed

lemma decode_header_canonical:
  assumes "decode_header rt h = Inr (n, mt, fl)"
    and "length bs = unat n"
  shows "h = frame_header \<lparr>msg_type = mt, flags = fl, body = bs\<rparr>
         \<and> HEADER_SIZE + length bs \<le> MAX_FRAME_SIZE"
proof -
  obtain h0 h1 h2 h3 h4 h5 where h: "h = (h0, h1, h2, h3, h4, h5)" by (cases h)
  define t where "t = from_be_bytes h0 h1 h2 h3"
  have "n = t - of_nat HEADER_SIZE" "h4 = to_u8 mt" "h5 = fl"
    using assms(1) by (auto simp: h Let_def t_def [symmetric] result_simps from_u8_Inr split: if_splits)
  moreover from this have "of_nat (HEADER_SIZE + length bs) = t"
    using assms(2) by simp
  moreover have "[ucast (drop_bit 24 t), ucast (drop_bit 16 t), ucast (drop_bit 8 t), ucast t]
      = [h0, h1, h2, h3]"
    using to_be_from_be [of h0 h1 h2 h3] by (simp add: t_def to_be_bytes_def)
  ultimately show ?thesis
    using decode_header_bound [OF assms(1)] assms(2) by (simp add: frame_header_def Let_def h)
qed

section \<open>Properties\<close>

text \<open>
  A frame within the size limit is encoded, and decoding the first six bytes of the
  encoding gives back the body length, the message type and the flags, with the body
  following unchanged.
\<close>

theorem frame_roundtrip:
  assumes "HEADER_SIZE + length (body f) \<le> MAX_FRAME_SIZE"
    and "try_reserve rt (HEADER_SIZE + length (body f))"
  shows "\<exists>h. encode_frame rt f = Inr (header_bytes h @ body f)
           \<and> decode_header rt h = Inr (of_nat (length (body f)), msg_type f, flags f)"
  using assms by (intro exI [of _ "frame_header f"]) (simp add: encode_frame_Inr decode_frame_header)

theorem frame_roundtrip_witness:
  "\<exists>h. encode_frame roomy_runtime \<lparr>msg_type = Page, flags = 3, body = [104, 105]\<rparr>
       = Inr (header_bytes h @ [104, 105])
     \<and> decode_header roomy_runtime h = Inr (2, Page, 3)"
  using frame_roundtrip [of "\<lparr>msg_type = Page, flags = 3, body = [104, 105]\<rparr>" roomy_runtime]
  by (simp add: limit_defs try_reserve_def isize_max_def)

text \<open>
  A header is accepted only in canonical form: what \<open>decode_header\<close> accepts is exactly
  the header \<open>encode_frame\<close> writes for a frame of the decoded type, flags and body length, so
  no two headers mean the same frame, and the announced body is within the frame limit.
\<close>

theorem header_canonical:
  assumes "decode_header rt h = Inr (n, mt, fl)"
    and "length bs = unat n"
  shows "h = frame_header \<lparr>msg_type = mt, flags = fl, body = bs\<rparr>
         \<and> HEADER_SIZE + length bs \<le> MAX_FRAME_SIZE"
  by (rule decode_header_canonical [OF assms])

theorem header_canonical_witness:
  "decode_header roomy_runtime (0, 0, 0, 7, 0x82, 3) = Inr (1, Page, 3)
   \<and> (0, 0, 0, 7, 0x82, 3) = frame_header \<lparr>msg_type = Page, flags = 3, body = [65]\<rparr>"
proof -
  have h: "decode_header roomy_runtime (0, 0, 0, 7, 0x82, 3) = Inr (1, Page, 3)"
    by (simp add: from_be_bytes_def limit_defs from_u8_def)
  from header_canonical [OF h, of "[65]"] h show ?thesis by simp
qed

end
