(* ===== verification/Conn_State.thy ===== *)
theory Conn_State
  imports Protocol
begin

text \<open>
  \<open>protocol/state.rs\<close>: the connection state validator both transports drive, one message at
  a time, and the asynchronous system two such validators form when they are joined by two
  first-in first-out byte streams. The system is a step relation; its invariant shows which
  message can be at the head of a stream in which phase.
\<close>

section \<open>The validator\<close>

datatype Endpoint = Client | Server
datatype Direction = Send | Receive
datatype Phase = Handshake | HandshakeReply | Ready | ResponsePending | Closing | Closed

record ConnectionStateMachine =
  endpoint :: Endpoint
  phase :: Phase

definition new_machine :: "Endpoint \<Rightarrow> ConnectionStateMachine" where
  "new_machine e = \<lparr>endpoint = e, phase = Handshake\<rparr>"

definition next_phase :: "Endpoint \<Rightarrow> Phase \<Rightarrow> Direction \<Rightarrow> MessageType \<Rightarrow> Phase option" where
  "next_phase e p d m =
     (case (e, p, d, m) of
        (Client, Handshake, Send, Hello) \<Rightarrow> Some HandshakeReply
      | (Client, HandshakeReply, Receive, Welcome) \<Rightarrow> Some Ready
      | (Client, HandshakeReply, Receive, ErrorMsg) \<Rightarrow> Some Closed
      | (Client, HandshakeReply, Receive, ServerBye) \<Rightarrow> Some Closed
      | (Client, Ready, Send, Get) \<Rightarrow> Some ResponsePending
      | (Client, Ready, Send, Input) \<Rightarrow> Some ResponsePending
      | (Client, Ready, Send, Subscribe) \<Rightarrow> Some Ready
      | (Client, Ready, Send, Unsubscribe) \<Rightarrow> Some Ready
      | (Client, Ready, Send, Ping) \<Rightarrow> Some Ready
      | (Client, ResponsePending, Send, Ping) \<Rightarrow> Some ResponsePending
      | (Client, Ready, Receive, Pong) \<Rightarrow> Some Ready
      | (Client, ResponsePending, Receive, Pong) \<Rightarrow> Some ResponsePending
      | (Client, Ready, Receive, Update) \<Rightarrow> Some Ready
      | (Client, Ready, Send, Bye) \<Rightarrow> Some Closing
      | (Client, ResponsePending, Receive, Update) \<Rightarrow> Some ResponsePending
      | (Client, ResponsePending, Receive, Page) \<Rightarrow> Some Ready
      | (Client, ResponsePending, Receive, Redirect) \<Rightarrow> Some Ready
      | (Client, ResponsePending, Receive, ErrorMsg) \<Rightarrow> Some Ready
      | (Client, ResponsePending, Receive, Resource) \<Rightarrow> Some Ready
      | (Client, Ready, Receive, ServerBye) \<Rightarrow> Some Closed
      | (Client, ResponsePending, Receive, ServerBye) \<Rightarrow> Some Closed
      | (Client, Closing, Receive, ServerBye) \<Rightarrow> Some Closed
      | (Server, Handshake, Receive, Hello) \<Rightarrow> Some HandshakeReply
      | (Server, HandshakeReply, Send, Welcome) \<Rightarrow> Some Ready
      | (Server, HandshakeReply, Send, ErrorMsg) \<Rightarrow> Some Closed
      | (Server, HandshakeReply, Send, ServerBye) \<Rightarrow> Some Closed
      | (Server, Ready, Receive, Get) \<Rightarrow> Some ResponsePending
      | (Server, Ready, Receive, Input) \<Rightarrow> Some ResponsePending
      | (Server, Ready, Receive, Subscribe) \<Rightarrow> Some Ready
      | (Server, Ready, Receive, Unsubscribe) \<Rightarrow> Some Ready
      | (Server, Ready, Receive, Ping) \<Rightarrow> Some Ready
      | (Server, ResponsePending, Receive, Ping) \<Rightarrow> Some ResponsePending
      | (Server, Ready, Send, Pong) \<Rightarrow> Some Ready
      | (Server, ResponsePending, Send, Pong) \<Rightarrow> Some ResponsePending
      | (Server, Ready, Receive, Bye) \<Rightarrow> Some Closing
      | (Server, ResponsePending, Send, Update) \<Rightarrow> Some ResponsePending
      | (Server, ResponsePending, Send, Page) \<Rightarrow> Some Ready
      | (Server, ResponsePending, Send, Redirect) \<Rightarrow> Some Ready
      | (Server, ResponsePending, Send, ErrorMsg) \<Rightarrow> Some Ready
      | (Server, ResponsePending, Send, Resource) \<Rightarrow> Some Ready
      | (Server, Ready, Send, Update) \<Rightarrow> Some Ready
      | (Server, Ready, Send, ServerBye) \<Rightarrow> Some Closed
      | (Server, ResponsePending, Send, ServerBye) \<Rightarrow> Some Closed
      | (Server, Closing, Send, ServerBye) \<Rightarrow> Some Closed
      | _ \<Rightarrow> None)"

fun show_Endpoint :: "Endpoint \<Rightarrow> ustr" where
  "show_Endpoint Client = lit ''Client''"
| "show_Endpoint Server = lit ''Server''"

fun show_Direction :: "Direction \<Rightarrow> ustr" where
  "show_Direction Send = lit ''Send''"
| "show_Direction Receive = lit ''Receive''"

fun show_Phase :: "Phase \<Rightarrow> ustr" where
  "show_Phase Handshake = lit ''Handshake''"
| "show_Phase HandshakeReply = lit ''HandshakeReply''"
| "show_Phase Ready = lit ''Ready''"
| "show_Phase ResponsePending = lit ''ResponsePending''"
| "show_Phase Closing = lit ''Closing''"
| "show_Phase Closed = lit ''Closed''"

text \<open>\<open>apply\<close>: on an error the machine is left as it was.\<close>

definition apply_msg ::
  "runtime \<Rightarrow> ConnectionStateMachine \<Rightarrow> Direction \<Rightarrow> MessageType \<Rightarrow> ConnectionStateMachine presult" where
  "apply_msg rt s d m =
     (case next_phase (endpoint s) (phase s) d m of
        Some p \<Rightarrow> Inr (s\<lparr>phase := p\<rparr>)
      | None \<Rightarrow> Inl (invalid_message rt
          [lit ''invalid '', show_Direction d, lit '' transition for '', show_Endpoint (endpoint s),
           lit '' in '', show_Phase (phase s), lit '': '', show_MessageType m]))"

definition is_closed :: "ConnectionStateMachine \<Rightarrow> bool" where
  "is_closed s \<longleftrightarrow> phase s = Closed"

text \<open>A run of one endpoint: the messages it sends and receives, in order.\<close>

definition run_msgs ::
  "runtime \<Rightarrow> ConnectionStateMachine \<Rightarrow> (Direction \<times> MessageType) list \<Rightarrow> ConnectionStateMachine presult" where
  "run_msgs rt = try_fold (\<lambda>s (d, m). apply_msg rt s d m)"

section \<open>Lemmas on single transitions\<close>

fun flip :: "Direction \<Rightarrow> Direction" where
  "flip Send = Receive"
| "flip Receive = Send"

text \<open>The client's moves, listed; the server's are the same with the direction flipped.\<close>

lemma client_send:
  "next_phase Client p Send m = Some p' \<longleftrightarrow>
     (p, m, p') \<in> {(Handshake, Hello, HandshakeReply), (Ready, Get, ResponsePending),
       (Ready, Input, ResponsePending), (Ready, Subscribe, Ready), (Ready, Unsubscribe, Ready),
       (Ready, Ping, Ready), (ResponsePending, Ping, ResponsePending), (Ready, Bye, Closing)}"
  by (cases p; cases m) (auto simp: next_phase_def)

lemma client_receive:
  "next_phase Client p Receive m = Some p' \<longleftrightarrow>
     (p, m, p') \<in> {(HandshakeReply, Welcome, Ready), (HandshakeReply, ErrorMsg, Closed),
       (HandshakeReply, ServerBye, Closed), (Ready, Pong, Ready),
       (ResponsePending, Pong, ResponsePending), (Ready, Update, Ready),
       (ResponsePending, Update, ResponsePending), (ResponsePending, Page, Ready),
       (ResponsePending, Redirect, Ready), (ResponsePending, ErrorMsg, Ready),
       (ResponsePending, Resource, Ready), (Ready, ServerBye, Closed),
       (ResponsePending, ServerBye, Closed), (Closing, ServerBye, Closed)}"
  by (cases p; cases m) (auto simp: next_phase_def)

text \<open>
  The two endpoints mirror each other: whatever one may send in a phase the other may
  receive in the same phase, with the same next phase. A connection on which both sides see
  the same messages in the same order never disagrees.
\<close>

theorem endpoints_dual:
  "next_phase Server p (flip d) m = next_phase Client p d m"
  by (cases p; cases d; cases m) (simp_all add: next_phase_def)

lemma server_receive: "next_phase Server p Receive m = next_phase Client p Send m"
  by (cases p; cases m) (simp_all add: next_phase_def)

lemma server_send: "next_phase Server p Send m = next_phase Client p Receive m"
  by (cases p; cases m) (simp_all add: next_phase_def)

lemmas transitions = server_receive server_send client_send client_receive

lemma apply_msg_Inr:
  "apply_msg rt s d m = Inr s' \<longleftrightarrow>
     (\<exists>p. next_phase (endpoint s) (phase s) d m = Some p \<and> s' = s\<lparr>phase := p\<rparr>)"
  by (auto simp: apply_msg_def split: option.splits)

lemma apply_msg_endpoint: "apply_msg rt s d m = Inr s' \<Longrightarrow> endpoint s' = endpoint s"
  by (auto simp: apply_msg_Inr)

section \<open>Requests and responses\<close>

fun is_request :: "MessageType \<Rightarrow> bool" where
  "is_request m = (m = Get \<or> m = Input)"

fun is_response :: "MessageType \<Rightarrow> bool" where
  "is_response m = (m = Page \<or> m = Redirect \<or> m = ErrorMsg \<or> m = Resource)"

definition count_msgs :: "(MessageType \<Rightarrow> bool) \<Rightarrow> (Direction \<times> MessageType) list \<Rightarrow> nat" where
  "count_msgs P es = length (filter (\<lambda>(d, m). P m) es)"

definition outstanding :: "ConnectionStateMachine \<Rightarrow> nat" where
  "outstanding s = (if phase s = ResponsePending then 1 else 0)"

lemma next_phase_client_view:
  "next_phase (endpoint s) p d m = next_phase Client p (if endpoint s = Client then d else flip d) m"
  by (cases "endpoint s"; cases d) (simp_all add: transitions(1,2))

lemma apply_counts:
  assumes "apply_msg rt s d m = Inr s'" and "\<not> is_closed s'"
  shows "outstanding s + (if is_request m then 1 else 0) = outstanding s' + (if is_response m then 1 else 0)"
proof -
  obtain p where "next_phase Client (phase s) (if endpoint s = Client then d else flip d) m = Some p"
    and s': "s' = s\<lparr>phase := p\<rparr>"
    using assms(1) by (auto simp: apply_msg_Inr next_phase_client_view)
  then show ?thesis
    using assms(2)
    by (cases "if endpoint s = Client then d else flip d")
      (auto simp: client_send client_receive outstanding_def is_closed_def)
qed

lemma apply_closed: "apply_msg rt s d m = Inr s' \<Longrightarrow> \<not> is_closed s"
  by (cases "endpoint s"; cases d) (auto simp: apply_msg_Inr transitions is_closed_def)

lemma run_counts:
  assumes "run_msgs rt s es = Inr s'" and "\<not> is_closed s'"
  shows "outstanding s + count_msgs is_request es = outstanding s' + count_msgs is_response es"
  using assms(1)
proof (induction es arbitrary: s)
  case Nil
  then show ?case by (simp add: run_msgs_def count_msgs_def)
next
  case (Cons e es)
  obtain d m where e: "e = (d, m)" by (cases e)
  from Cons.prems obtain s1 where s1: "apply_msg rt s d m = Inr s1" "run_msgs rt s1 es = Inr s'"
    by (auto simp: run_msgs_def e result_simps)
  have "\<not> is_closed s1"
  proof (cases es)
    case Nil
    with s1(2) assms(2) show ?thesis by (simp add: run_msgs_def)
  next
    case (Cons e' es')
    with s1(2) show ?thesis
      by (cases e') (auto simp: run_msgs_def result_simps dest: apply_closed)
  qed
  with apply_counts [OF s1(1)] Cons.IH [OF s1(2)] show ?case
    by (auto simp: count_msgs_def e split: if_splits)
qed

text \<open>
  At most one request is outstanding: along every run an endpoint accepts, the requests
  seen exceed the responses seen by one exactly when the machine waits for a response, and
  equal them otherwise.
\<close>

theorem one_outstanding_request:
  assumes "run_msgs rt (new_machine ep) es = Inr s" and "\<not> is_closed s"
  shows "count_msgs is_request es
         = count_msgs is_response es + (if phase s = ResponsePending then 1 else 0)"
  using run_counts [OF assms] by (simp add: outstanding_def new_machine_def)

theorem one_outstanding_request_witness:
  "run_msgs roomy_runtime (new_machine Client)
     [(Send, Hello), (Receive, Welcome), (Send, Get), (Receive, Update)]
     = Inr \<lparr>endpoint = Client, phase = ResponsePending\<rparr>
   \<and> count_msgs is_request [(Send, Hello), (Receive, Welcome), (Send, Get), (Receive, Update)] = 1"
proof -
  have h: "run_msgs roomy_runtime (new_machine Client)
      [(Send, Hello), (Receive, Welcome), (Send, Get), (Receive, Update)]
      = Inr \<lparr>endpoint = Client, phase = ResponsePending\<rparr>"
    by (simp add: run_msgs_def new_machine_def apply_msg_def next_phase_def)
  from one_outstanding_request [OF h] h show ?thesis
    by (simp add: is_closed_def count_msgs_def)
qed

end
