(* ===== verification/Conn_System.thy ===== *)
theory Conn_System
  imports Conn_State
begin

text \<open>
  A client and a server validator joined by two first-in first-out streams. A step is one
  endpoint sending a message its validator allows, or taking the message at the head of its
  stream when its validator allows it. A message at the head that the validator refuses is a
  protocol error: the transport poisons the connection.
\<close>

record system =
  cli :: ConnectionStateMachine
  srv :: ConnectionStateMachine
  c2s :: "MessageType list"
  s2c :: "MessageType list"

definition init_system :: system where
  "init_system = \<lparr>cli = new_machine Client, srv = new_machine Server, c2s = [], s2c = []\<rparr>"

inductive sys_step :: "runtime \<Rightarrow> system \<Rightarrow> system \<Rightarrow> bool" for rt where
  client_sends: "apply_msg rt (cli n) Send m = Inr c \<Longrightarrow>
     sys_step rt n (n\<lparr>cli := c, c2s := c2s n @ [m]\<rparr>)"
| server_sends: "apply_msg rt (srv n) Send m = Inr s \<Longrightarrow>
     sys_step rt n (n\<lparr>srv := s, s2c := s2c n @ [m]\<rparr>)"
| server_takes: "c2s n = m # r \<Longrightarrow> apply_msg rt (srv n) Receive m = Inr s \<Longrightarrow>
     sys_step rt n (n\<lparr>srv := s, c2s := r\<rparr>)"
| client_takes: "s2c n = m # r \<Longrightarrow> apply_msg rt (cli n) Receive m = Inr c \<Longrightarrow>
     sys_step rt n (n\<lparr>cli := c, s2c := r\<rparr>)"

inductive sys_reachable :: "runtime \<Rightarrow> system \<Rightarrow> bool" for rt where
  start: "sys_reachable rt init_system"
| step: "sys_reachable rt n \<Longrightarrow> sys_step rt n n' \<Longrightarrow> sys_reachable rt n'"

section \<open>The invariant\<close>

fun is_chat :: "MessageType \<Rightarrow> bool" where
  "is_chat m = (m = Subscribe \<or> m = Unsubscribe \<or> m = Ping)"

fun is_push :: "MessageType \<Rightarrow> bool" where
  "is_push m = (m = Update \<or> m = Pong)"

text \<open>
  Which phases the two validators can be in together, and what the streams then hold:
  \<open>inv_phases C S L R\<close> for client phase \<open>C\<close>, server phase \<open>S\<close>, client-to-server stream \<open>L\<close> and
  server-to-client stream \<open>R\<close>.
\<close>

inductive inv_phases :: "Phase \<Rightarrow> Phase \<Rightarrow> MessageType list \<Rightarrow> MessageType list \<Rightarrow> bool" where
  fresh: "inv_phases Handshake Handshake [] []"
| hello_sent: "inv_phases HandshakeReply Handshake [Hello] []"
| hello_seen: "inv_phases HandshakeReply HandshakeReply [] []"
| refused: "m = ErrorMsg \<or> m = ServerBye \<Longrightarrow> inv_phases HandshakeReply Closed [] [m]"
| welcomed: "list_all is_push R \<Longrightarrow> inv_phases HandshakeReply Ready [] (Welcome # R)"
| welcomed_closed: "list_all is_push R \<Longrightarrow>
    inv_phases HandshakeReply Closed [] (Welcome # R @ [ServerBye])"
| idle: "list_all is_chat L \<Longrightarrow> list_all is_push R \<Longrightarrow> inv_phases Ready Ready L R"
| asked: "list_all is_chat L \<Longrightarrow> is_request q \<Longrightarrow> list_all (\<lambda>m. m = Ping) P \<Longrightarrow> list_all is_push R \<Longrightarrow>
    inv_phases ResponsePending Ready (L @ q # P) R"
| serving: "list_all (\<lambda>m. m = Ping) P \<Longrightarrow> list_all is_push R \<Longrightarrow>
    inv_phases ResponsePending ResponsePending P R"
| answered: "list_all (\<lambda>m. m = Ping) P \<Longrightarrow> list_all is_push U \<Longrightarrow> is_response a \<Longrightarrow> list_all is_push V \<Longrightarrow>
    inv_phases ResponsePending Ready P (U @ a # V)"
| idle_closed: "list_all is_push R \<Longrightarrow> inv_phases Ready Closed L (R @ [ServerBye])"
| waiting_closed: "list_all is_push R \<Longrightarrow> inv_phases ResponsePending Closed L (R @ [ServerBye])"
| answered_closed: "list_all is_push U \<Longrightarrow> is_response a \<Longrightarrow> list_all is_push V \<Longrightarrow>
    inv_phases ResponsePending Closed L (U @ a # V @ [ServerBye])"
| bye_sent: "list_all is_chat L \<Longrightarrow> ServerBye \<notin> set R \<Longrightarrow> inv_phases Closing Ready (L @ [Bye]) R"
| bye_seen: "ServerBye \<notin> set R \<Longrightarrow> inv_phases Closing Closing [] R"
| bye_closed: "inv_phases Closing Closed L R"
| both_closed: "inv_phases Closed Closed L R"

definition sys_inv :: "system \<Rightarrow> bool" where
  "sys_inv n \<longleftrightarrow> endpoint (cli n) = Client \<and> endpoint (srv n) = Server
     \<and> inv_phases (phase (cli n)) (phase (srv n)) (c2s n) (s2c n)"

lemma inv_client_sends:
  "inv_phases C S L R \<Longrightarrow> next_phase Client C Send m = Some C' \<Longrightarrow> inv_phases C' S (L @ [m]) R"
proof (induction rule: inv_phases.induct)
  case fresh
  then show ?case by (auto simp: client_send intro: inv_phases.intros)
next
  case (idle L R)
  then show ?case
    using asked [of L m "[]" R] bye_sent [of L R] inv_phases.idle [of "L @ [m]" R]
    by (auto simp: client_send list_all_iff)
next
  case (asked L q P R)
  then show ?case
    using inv_phases.asked [of L q "P @ [m]" R] by (auto simp: client_send)
next
  case (serving P R)
  then show ?case
    using inv_phases.serving [of "P @ [m]" R] by (auto simp: client_send)
next
  case (answered P U a V)
  then show ?case
    using inv_phases.answered [of "P @ [m]" U a V] by (auto simp: client_send)
qed (auto simp: client_send intro: inv_phases.intros)

lemma inv_server_sends:
  "inv_phases C S L R \<Longrightarrow> next_phase Server S Send m = Some S' \<Longrightarrow> inv_phases C S' L (R @ [m])"
proof (induction rule: inv_phases.induct)
  case hello_seen
  then show ?case
    using welcomed [of "[]"] by (auto simp: transitions intro: inv_phases.refused)
next
  case (welcomed R)
  then show ?case
    using inv_phases.welcomed [of "R @ [m]"] welcomed_closed [of R] by (auto simp: transitions)
next
  case (idle L R)
  then show ?case
    using inv_phases.idle [of L "R @ [m]"] idle_closed [of R L] by (auto simp: transitions)
next
  case (asked L q P R)
  then show ?case
    using inv_phases.asked [of L q P "R @ [m]"] waiting_closed [of R "L @ q # P"]
    by (auto simp: transitions)
next
  case (serving P R)
  then show ?case
    using inv_phases.serving [of P "R @ [m]"] answered [of P R m "[]"] waiting_closed [of R P]
    by (auto simp: transitions)
next
  case (answered P U a V)
  then show ?case
    using inv_phases.answered [of P U a "V @ [m]"] answered_closed [of U a V P]
    by (auto simp: transitions)
qed (auto simp: transitions intro: inv_phases.intros)

lemma inv_server_takes:
  "inv_phases C S (m # L) R \<Longrightarrow> next_phase Server S Receive m = Some S' \<Longrightarrow> inv_phases C S' L R"
proof (induction C S "m # L" R rule: inv_phases.induct)
  case (asked A q P R)
  then show ?case
    using inv_phases.asked [of "tl A" q P R] serving [of P R]
    by (cases A) (auto simp: transitions)
next
  case (bye_sent A R)
  then show ?case
    using inv_phases.bye_sent [of "tl A" R] by (cases A) (auto simp: transitions intro: bye_seen)
qed (auto simp: transitions intro: inv_phases.intros)

lemma inv_client_takes:
  "inv_phases C S L (m # R) \<Longrightarrow> next_phase Client C Receive m = Some C' \<Longrightarrow> inv_phases C' S L R"
proof (induction C S L "m # R" rule: inv_phases.induct)
  case (answered P U a V)
  then show ?case
    using inv_phases.answered [of P "tl U" a V] idle [of P V]
    by (cases U) (auto simp: client_receive list_all_iff)
next
  case (answered_closed U a V L)
  then show ?case
    using inv_phases.answered_closed [of "tl U" a V L] idle_closed [of V L]
    by (cases U) (auto simp: client_receive)
next
  case (idle_closed U L)
  then show ?case
    using inv_phases.idle_closed [of "tl U" L] by (cases U) (auto simp: client_receive intro: both_closed)
next
  case (waiting_closed U L)
  then show ?case
    using inv_phases.waiting_closed [of "tl U" L] by (cases U) (auto simp: client_receive intro: both_closed)
qed (auto simp: client_receive intro: inv_phases.intros)

inductive_cases sys_stepE: "sys_step rt n n'"

lemma sys_step_inv:
  assumes "sys_step rt n n'" and "sys_inv n"
  shows "sys_inv n'"
  using assms
  by (cases rule: sys_step.cases)
    (auto simp: sys_inv_def apply_msg_Inr intro: inv_client_sends inv_server_sends
      inv_server_takes inv_client_takes)

lemma sys_reachable_inv: "sys_reachable rt n \<Longrightarrow> sys_inv n"
proof (induction rule: sys_reachable.induct)
  case start
  show ?case by (simp add: sys_inv_def init_system_def new_machine_def fresh)
qed (rule sys_step_inv)

section \<open>What the streams can hold\<close>

lemma inv_server_accepts:
  "inv_phases C S (m # L) R \<Longrightarrow> S \<noteq> Closed \<Longrightarrow> next_phase Server S Receive m \<noteq> None"
proof (induction C S "m # L" R rule: inv_phases.induct)
  case (asked A q P R)
  then show ?case by (cases A) (auto simp: next_phase_def)
next
  case (bye_sent A R)
  then show ?case by (cases A) (auto simp: next_phase_def)
qed (auto simp: next_phase_def)

lemma inv_client_accepts:
  "inv_phases C S L (m # R) \<Longrightarrow> C \<noteq> Closing \<Longrightarrow> C \<noteq> Closed \<Longrightarrow> next_phase Client C Receive m \<noteq> None"
proof (induction C S L "m # R" rule: inv_phases.induct)
  case (answered P U a V)
  then show ?case by (cases U) (auto simp: next_phase_def)
next
  case (answered_closed U a V L)
  then show ?case by (cases U) (auto simp: next_phase_def)
next
  case (idle_closed U L)
  then show ?case by (cases U) (auto simp: next_phase_def)
next
  case (waiting_closed U L)
  then show ?case by (cases U) (auto simp: next_phase_def)
qed (auto simp: next_phase_def)

lemma apply_msg_ok: "(\<exists>s'. apply_msg rt s d m = Inr s') \<longleftrightarrow> next_phase (endpoint s) (phase s) d m \<noteq> None"
  by (auto simp: apply_msg_Inr)

text \<open>
  C9: however the two sides' messages interleave in flight, the server never meets a message
  its validator refuses until it has closed the connection itself, and the client never meets
  one until it has said BYE or has closed: between conforming peers no delivery is a protocol
  error before shutdown starts.
\<close>

theorem no_protocol_error_before_shutdown:
  assumes "sys_reachable rt n"
  shows "(\<forall>m L. c2s n = m # L \<longrightarrow> \<not> is_closed (srv n) \<longrightarrow>
            (\<exists>s. apply_msg rt (srv n) Receive m = Inr s))
         \<and> (\<forall>m R. s2c n = m # R \<longrightarrow> phase (cli n) \<notin> {Closing, Closed} \<longrightarrow>
            (\<exists>c. apply_msg rt (cli n) Receive m = Inr c))"
proof (intro conjI allI impI)
  have i: "sys_inv n" using sys_reachable_inv [OF assms] .
  show "\<exists>s. apply_msg rt (srv n) Receive m = Inr s" if "c2s n = m # L" "\<not> is_closed (srv n)" for m L
    using i inv_server_accepts [of "phase (cli n)" "phase (srv n)" m L "s2c n"] that
    by (auto simp: apply_msg_ok sys_inv_def is_closed_def)
  show "\<exists>c. apply_msg rt (cli n) Receive m = Inr c"
    if "s2c n = m # R" "phase (cli n) \<notin> {Closing, Closed}" for m R
    using i inv_client_accepts [of "phase (cli n)" "phase (srv n)" "c2s n" m R] that
    by (auto simp: apply_msg_ok sys_inv_def)
qed

text \<open>A run used by the witnesses: both sides greet, then the server pushes an update.\<close>

definition mk_system :: "Phase \<Rightarrow> Phase \<Rightarrow> MessageType list \<Rightarrow> MessageType list \<Rightarrow> system" where
  "mk_system C S L R = \<lparr>cli = \<lparr>endpoint = Client, phase = C\<rparr>, srv = \<lparr>endpoint = Server, phase = S\<rparr>,
     c2s = L, s2c = R\<rparr>"

lemma reach_client_sends:
  "sys_reachable rt (mk_system C S L R) \<Longrightarrow> next_phase Client C Send m = Some C' \<Longrightarrow> L' = L @ [m] \<Longrightarrow>
   sys_reachable rt (mk_system C' S L' R)"
  using sys_reachable.step [OF _ client_sends [of rt "mk_system C S L R" m "\<lparr>endpoint = Client, phase = C'\<rparr>"]]
  by (simp add: mk_system_def apply_msg_Inr)

lemma reach_server_sends:
  "sys_reachable rt (mk_system C S L R) \<Longrightarrow> next_phase Server S Send m = Some S' \<Longrightarrow> R' = R @ [m] \<Longrightarrow>
   sys_reachable rt (mk_system C S' L R')"
  using sys_reachable.step [OF _ server_sends [of rt "mk_system C S L R" m "\<lparr>endpoint = Server, phase = S'\<rparr>"]]
  by (simp add: mk_system_def apply_msg_Inr)

lemma reach_server_takes:
  "sys_reachable rt (mk_system C S (m # L) R) \<Longrightarrow> next_phase Server S Receive m = Some S' \<Longrightarrow>
   sys_reachable rt (mk_system C S' L R)"
  using sys_reachable.step [OF _ server_takes [of "mk_system C S (m # L) R" m L rt "\<lparr>endpoint = Server, phase = S'\<rparr>"]]
  by (simp add: mk_system_def apply_msg_Inr)

lemma reach_client_takes:
  "sys_reachable rt (mk_system C S L (m # R)) \<Longrightarrow> next_phase Client C Receive m = Some C' \<Longrightarrow>
   sys_reachable rt (mk_system C' S L R)"
  using sys_reachable.step [OF _ client_takes [of "mk_system C S L (m # R)" m R rt "\<lparr>endpoint = Client, phase = C'\<rparr>"]]
  by (simp add: mk_system_def apply_msg_Inr)

lemma reach_update_in_flight: "sys_reachable rt (mk_system Ready Ready [] [Update])"
proof -
  have "sys_reachable rt (mk_system Handshake Handshake [] [])"
    using sys_reachable.start [of rt] by (simp add: init_system_def mk_system_def new_machine_def)
  from reach_client_sends [OF this, of Hello HandshakeReply "[Hello]"]
  have "sys_reachable rt (mk_system HandshakeReply Handshake [Hello] [])" by (simp add: next_phase_def)
  from reach_server_takes [OF this, of HandshakeReply]
  have "sys_reachable rt (mk_system HandshakeReply HandshakeReply [] [])" by (simp add: next_phase_def)
  from reach_server_sends [OF this, of Welcome Ready "[Welcome]"]
  have "sys_reachable rt (mk_system HandshakeReply Ready [] [Welcome])" by (simp add: next_phase_def)
  from reach_server_sends [OF this, of Update Ready "[Welcome, Update]"]
  have "sys_reachable rt (mk_system HandshakeReply Ready [] [Welcome, Update])" by (simp add: next_phase_def)
  from reach_client_takes [OF this, of Ready] show ?thesis by (simp add: next_phase_def)
qed

theorem no_protocol_error_before_shutdown_witness:
  "sys_reachable roomy_runtime (mk_system Ready Ready [] [Update])
   \<and> (\<exists>c. apply_msg roomy_runtime \<lparr>endpoint = Client, phase = Ready\<rparr> Receive Update = Inr c)"
  using reach_update_in_flight [of roomy_runtime]
    no_protocol_error_before_shutdown [OF reach_update_in_flight [of roomy_runtime]]
  by (simp add: mk_system_def)

text \<open>
  The guarantee stops at shutdown: an UPDATE in flight when the client says BYE reaches a
  client that is closing, whose validator refuses it, so a graceful disconnect can end in a
  protocol error.
\<close>

theorem closing_client_refuses_update_in_flight:
  "\<exists>n e. sys_reachable rt n \<and> phase (cli n) = Closing \<and> s2c n = [Update]
     \<and> apply_msg rt (cli n) Receive Update = Inl e"
proof -
  have "sys_reachable rt (mk_system Closing Ready [Bye] [Update])"
    using reach_client_sends [OF reach_update_in_flight, of Bye Closing "[Bye]"]
    by (simp add: next_phase_def)
  then show ?thesis
    by (intro exI [of _ "mk_system Closing Ready [Bye] [Update]"])
      (auto simp: mk_system_def apply_msg_def next_phase_def)
qed

end
