(* ===== verification/Transport.thy ===== *)
theory Transport
  imports Page_Codec Frame Conn_System
begin

text \<open>
  The framed connections of the two crates: \<open>dustnet-client/src/transport.rs\<close>
  (\<open>AtpConnection\<close>) and \<open>dustnet-server/src/transport.rs\<close> (\<open>AtpServerStream\<close>). Every frame,
  in either direction, passes the same checks in the same order: length and direction, flags,
  body, negotiation, capabilities, connection state. The first error poisons the connection.

  Below the framing stands the TCP or TLS stream, of which the code uses \<open>read_exact\<close> and
  \<open>write_all\<close> only. A stream is modelled by the bytes the peer will deliver and the error that
  comes after them, and by the bytes written so far, how many more will be accepted, and the
  error that comes then; \<open>write_all\<close> may therefore fail after a part of its argument, as the
  real one may.
\<close>

section \<open>Streams\<close>

record stream =
  rx :: "byte list"
  rx_end :: io_kind
  tx :: "byte list"
  tx_room :: nat
  tx_end :: io_kind

definition read_exact :: "nat \<Rightarrow> stream \<Rightarrow> byte list presult \<times> stream" where
  "read_exact n s =
     (if n \<le> length (rx s) then (Inr (take n (rx s)), s\<lparr>rx := drop n (rx s)\<rparr>)
      else (Inl (from_io (rx_end s)), s\<lparr>rx := []\<rparr>))"

definition write_all :: "byte list \<Rightarrow> stream \<Rightarrow> unit presult \<times> stream" where
  "write_all bs s =
     (if length bs \<le> tx_room s then (Inr (), s\<lparr>tx := tx s @ bs, tx_room := tx_room s - length bs\<rparr>)
      else (Inl (from_io (tx_end s)), s\<lparr>tx := tx s @ take (tx_room s) bs, tx_room := 0\<rparr>))"

section \<open>Connections\<close>

text \<open>The two structures have the same fields.\<close>

record Connection =
  transport :: stream
  cstate :: ConnectionStateMachine
  offered_capabilities :: "ustr list"
  offered_version :: "ProtocolVersion option"
  negotiated :: "NegotiatedProtocol option"
  poisoned :: bool

type_synonym AtpConnection = Connection
type_synonym AtpServerStream = Connection

definition new_connection :: "Endpoint \<Rightarrow> stream \<Rightarrow> Connection" where
  "new_connection e s =
     \<lparr>transport = s, cstate = new_machine e, offered_capabilities = [], offered_version = None,
      negotiated = None, poisoned = False\<rparr>"

definition connect_plain :: "stream \<Rightarrow> AtpConnection" where
  "connect_plain s = new_connection Client s"

definition handshake_plain :: "stream \<Rightarrow> AtpServerStream" where
  "handshake_plain s = new_connection Server s"

text \<open>Fallible actions that change a connection; an error keeps the changes made before it.\<close>

type_synonym 'a action = "Connection \<Rightarrow> 'a presult \<times> Connection"

definition lift :: "'a presult \<Rightarrow> 'a action" where
  "lift r c = (r, c)"

definition bind_action :: "'a action \<Rightarrow> ('a \<Rightarrow> 'b action) \<Rightarrow> 'b action" where
  "bind_action m f c = (case m c of (Inl e, c') \<Rightarrow> (Inl e, c') | (Inr x, c') \<Rightarrow> f x c')"

definition on_stream :: "(stream \<Rightarrow> 'a presult \<times> stream) \<Rightarrow> 'a action" where
  "on_stream io c = (case io (transport c) of (r, s) \<Rightarrow> (r, c\<lparr>transport := s\<rparr>))"

definition update_conn :: "(Connection \<Rightarrow> Connection) \<Rightarrow> unit action" where
  "update_conn f c = (Inr (), f c)"

definition guarded :: "'a action \<Rightarrow> 'a action" where
  "guarded act c =
     (if poisoned c then (Inl ConnectionClosed, c)
      else case act c of (r, c') \<Rightarrow> (r, if is_ok r then c' else c'\<lparr>poisoned := True\<rparr>))"

definition apply_state :: "runtime \<Rightarrow> Direction \<Rightarrow> MessageType \<Rightarrow> unit action" where
  "apply_state rt d t c =
     (case apply_msg rt (cstate c) d t of Inl e \<Rightarrow> (Inl e, c) | Inr s \<Rightarrow> (Inr (), c\<lparr>cstate := s\<rparr>))"

section \<open>The checks of a frame, client crate\<close>

datatype InboundPeer = ClientPeer | ServerPeer

definition inbound_body_limit :: "InboundPeer \<Rightarrow> MessageType \<Rightarrow> nat presult" where
  "inbound_body_limit peer t =
     (case (peer, t) of
        (ClientPeer, Hello) \<Rightarrow> Inr MAX_CONTROL_MESSAGE_SIZE
      | (ClientPeer, Get) \<Rightarrow> Inr MAX_CONTROL_MESSAGE_SIZE
      | (ClientPeer, Subscribe) \<Rightarrow> Inr MAX_CONTROL_MESSAGE_SIZE
      | (ClientPeer, Unsubscribe) \<Rightarrow> Inr MAX_CONTROL_MESSAGE_SIZE
      | (ClientPeer, Ping) \<Rightarrow> Inr MAX_CONTROL_MESSAGE_SIZE
      | (ClientPeer, Bye) \<Rightarrow> Inr MAX_CONTROL_MESSAGE_SIZE
      | (ClientPeer, Input) \<Rightarrow> Inr MAX_INPUT_MESSAGE_SIZE
      | (ServerPeer, Welcome) \<Rightarrow> Inr MAX_CONTROL_MESSAGE_SIZE
      | (ServerPeer, Redirect) \<Rightarrow> Inr MAX_CONTROL_MESSAGE_SIZE
      | (ServerPeer, ErrorMsg) \<Rightarrow> Inr MAX_CONTROL_MESSAGE_SIZE
      | (ServerPeer, Pong) \<Rightarrow> Inr MAX_CONTROL_MESSAGE_SIZE
      | (ServerPeer, ServerBye) \<Rightarrow> Inr MAX_CONTROL_MESSAGE_SIZE
      | (ServerPeer, Page) \<Rightarrow> Inr MAX_PAGE_MESSAGE_SIZE
      | (ServerPeer, Update) \<Rightarrow> Inr MAX_LIVE_UPDATE_SIZE
      | (ServerPeer, Resource) \<Rightarrow> Inr MAX_WASM_MODULE_SIZE
      | _ \<Rightarrow> Inl (WrongDirection t))"

definition validate_inbound_body_len :: "runtime \<Rightarrow> InboundPeer \<Rightarrow> MessageType \<Rightarrow> u32 \<Rightarrow> unit presult" where
  "validate_inbound_body_len rt peer t body_len =
     and_then (inbound_body_limit peer t) (\<lambda>mx.
     if t \<in> {Unsubscribe, Ping, Pong, Bye, ServerBye} \<and> body_len \<noteq> 0
     then Inl (invalid_message rt [show_MessageType t, lit '' must have an empty body''])
     else if unat body_len > mx then Inl (MessageTooLarge t (unat body_len) mx)
     else Inr ())"

text \<open>\<open>{:02x}\<close> of a byte.\<close>

definition hex_digit_lower :: "nat \<Rightarrow> uchar" where
  "hex_digit_lower d = (if d < 10 then 48 + d else 87 + d)"

definition hex2 :: "u8 \<Rightarrow> ustr" where
  "hex2 b = [hex_digit_lower (unat b div 16), hex_digit_lower (unat b mod 16)]"

definition validate_inbound_flags :: "runtime \<Rightarrow> MessageType \<Rightarrow> u8 \<Rightarrow> unit presult" where
  "validate_inbound_flags rt t fl =
     (let allowed = (case t of Page \<Rightarrow> 0x0f | Update \<Rightarrow> 0x01 | _ \<Rightarrow> 0) in
      if fl AND NOT allowed \<noteq> 0
      then Inl (invalid_message rt [lit ''unsupported flags 0x'', hex2 fl, lit '' for '', show_MessageType t])
      else Inr ())"

definition validate_capability ::
  "runtime \<Rightarrow> NegotiatedProtocol option \<Rightarrow> MessageType \<Rightarrow> u8 \<Rightarrow> bool \<Rightarrow> unit presult" where
  "validate_capability rt neg t fl carries_session =
     (if t = Hello \<or> t = Welcome then Inr ()
      else and_then (ok_or (InvalidMessage (lit ''application frame before negotiation'')) neg) (\<lambda>n.
        let caps = np_capabilities n;
            allowed = (case t of
                Subscribe \<Rightarrow> live_updates caps
              | Unsubscribe \<Rightarrow> live_updates caps
              | Update \<Rightarrow> live_updates caps
              | Resource \<Rightarrow> wasm_effects caps
              | Page \<Rightarrow>
                  (let page = page_from_bits fl in
                   (\<not> has_live_regions page \<or> live_updates caps)
                   \<and> (\<not> has_session page \<or> sessions caps)
                   \<and> (\<not> has_path page \<or> page_path caps))
              | _ \<Rightarrow> True) \<and> (\<not> carries_session \<or> sessions caps)
        in if allowed then Inr ()
           else Inl (invalid_message rt
                  [show_MessageType t, lit '' requires a capability not negotiated by both peers''])))"

section \<open>HELLO and WELCOME\<close>

text \<open>What is kept of a HELLO, by the client that sends it and by the server that receives it.\<close>

definition record_hello :: "runtime \<Rightarrow> byte list \<Rightarrow> unit action" where
  "record_hello rt bs =
     bind_action (lift (map_err (\<lambda>_. InvalidMessage (lit ''HELLO is not UTF-8'')) (from_utf8 bs))) (\<lambda>txt.
     bind_action (lift (Hello_parse rt txt)) (\<lambda>hello.
     bind_action (lift (ProtocolVersion_parse rt (hello_version hello))) (\<lambda>version.
     update_conn (\<lambda>c. c\<lparr>offered_version := Some version,
                        offered_capabilities := hello_capabilities hello\<rparr>))))"

text \<open>The negotiation, by the server that sends the WELCOME and by the client that receives it.\<close>

definition accept_welcome :: "runtime \<Rightarrow> byte list \<Rightarrow> unit action" where
  "accept_welcome rt bs =
     bind_action (lift (map_err (\<lambda>_. InvalidMessage (lit ''WELCOME is not UTF-8'')) (from_utf8 bs))) (\<lambda>txt.
     bind_action (lift (Welcome_parse rt txt)) (\<lambda>welcome.
     bind_action (lift (ProtocolVersion_parse rt (welcome_version welcome))) (\<lambda>version c.
     if offered_version c \<noteq> Some version
        \<or> list_ex (\<lambda>capability. capability \<notin> set (offered_capabilities c)) (welcome_capabilities welcome)
     then (Inl (InvalidMessage (lit ''WELCOME is incompatible with HELLO'')), c)
     else (Inr (), c\<lparr>negotiated := Some \<lparr>np_version = version,
             np_capabilities = negotiate (offered_capabilities c) (welcome_capabilities welcome)\<rparr>\<rparr>))))"

section \<open>The client connection\<close>

definition client_try_send_frame :: "runtime \<Rightarrow> RawFrame \<Rightarrow> unit action" where
  "client_try_send_frame rt frame =
     bind_action (lift (ok_or (FrameTooLarge u32_max) (u32_try_from (length (body frame))))) (\<lambda>body_len.
     bind_action (lift (validate_inbound_body_len rt ClientPeer (msg_type frame) body_len)) (\<lambda>_.
     bind_action (lift (validate_inbound_flags rt (msg_type frame) (flags frame))) (\<lambda>_.
     bind_action (lift (validate_frame_body rt (msg_type frame) (body frame) (flags frame))) (\<lambda>session.
     bind_action (if msg_type frame = Hello then record_hello rt (body frame) else lift (Inr ())) (\<lambda>_.
     bind_action (\<lambda>c. (validate_capability rt (negotiated c) (msg_type frame) (flags frame) session, c)) (\<lambda>_.
     bind_action (apply_state rt Send (msg_type frame)) (\<lambda>_.
     bind_action (lift (encode_frame rt frame)) (\<lambda>bytes.
     on_stream (write_all bytes)))))))))"

definition client_send_frame :: "runtime \<Rightarrow> RawFrame \<Rightarrow> unit action" where
  "client_send_frame rt frame = guarded (client_try_send_frame rt frame)"

text \<open>The header is a fixed array; \<open>read_exact\<close> returns no other length.\<close>

definition decode_header_bytes :: "runtime \<Rightarrow> byte list \<Rightarrow> (u32 \<times> MessageType \<times> u8) presult" where
  "decode_header_bytes rt h =
     (case h of [h0, h1, h2, h3, h4, h5] \<Rightarrow> decode_header rt (h0, h1, h2, h3, h4, h5)
      | _ \<Rightarrow> Inl ConnectionClosed)"

definition read_body :: "runtime \<Rightarrow> u32 \<Rightarrow> byte list action" where
  "read_body rt body_len =
     bind_action (lift (allocate_frame_body rt (unat body_len))) (\<lambda>buffer.
     if body_len > 0 then on_stream (read_exact (unat body_len)) else lift (Inr buffer))"

definition client_try_recv_frame :: "runtime \<Rightarrow> RawFrame action" where
  "client_try_recv_frame rt =
     bind_action (on_stream (read_exact HEADER_SIZE)) (\<lambda>header.
     bind_action (lift (decode_header_bytes rt header)) (\<lambda>(body_len, t, fl).
     bind_action (lift (validate_inbound_body_len rt ServerPeer t body_len)) (\<lambda>_.
     bind_action (lift (validate_inbound_flags rt t fl)) (\<lambda>_.
     bind_action (read_body rt body_len) (\<lambda>bytes.
     bind_action (lift (validate_frame_body rt t bytes fl)) (\<lambda>session.
     bind_action (if t = Welcome then accept_welcome rt bytes else lift (Inr ())) (\<lambda>_.
     bind_action (\<lambda>c. (validate_capability rt (negotiated c) t fl session, c)) (\<lambda>_.
     bind_action (apply_state rt Receive t) (\<lambda>_.
     lift (Inr \<lparr>msg_type = t, flags = fl, body = bytes\<rparr>))))))))))"

definition client_recv_frame :: "runtime \<Rightarrow> RawFrame action" where
  "client_recv_frame rt = guarded (client_try_recv_frame rt)"

section \<open>The checks of a frame, server crate\<close>

text \<open>The server crate has its own copies of the checks.\<close>

definition srv_inbound_body_limit :: "InboundPeer \<Rightarrow> MessageType \<Rightarrow> nat presult" where
  "srv_inbound_body_limit peer t =
     (if peer = ClientPeer \<and> t \<in> {Hello, Get, Subscribe, Unsubscribe, Ping, Bye} then Inr MAX_CONTROL_MESSAGE_SIZE
      else if peer = ClientPeer \<and> t = Input then Inr MAX_INPUT_MESSAGE_SIZE
      else if peer = ServerPeer \<and> t \<in> {Welcome, Redirect, ErrorMsg, Pong, ServerBye} then Inr MAX_CONTROL_MESSAGE_SIZE
      else if peer = ServerPeer \<and> t = Page then Inr MAX_PAGE_MESSAGE_SIZE
      else if peer = ServerPeer \<and> t = Update then Inr MAX_LIVE_UPDATE_SIZE
      else if peer = ServerPeer \<and> t = Resource then Inr MAX_WASM_MODULE_SIZE
      else Inl (WrongDirection t))"

definition srv_validate_inbound_body_len :: "runtime \<Rightarrow> InboundPeer \<Rightarrow> MessageType \<Rightarrow> u32 \<Rightarrow> unit presult" where
  "srv_validate_inbound_body_len rt peer t body_len =
     and_then (srv_inbound_body_limit peer t) (\<lambda>mx.
     if t \<in> {Unsubscribe, Ping, Pong, Bye, ServerBye} \<and> body_len \<noteq> 0
     then Inl (invalid_message rt [show_MessageType t, lit '' must have an empty body''])
     else if unat body_len > mx then Inl (MessageTooLarge t (unat body_len) mx)
     else Inr ())"

definition srv_validate_inbound_flags :: "runtime \<Rightarrow> MessageType \<Rightarrow> u8 \<Rightarrow> unit presult" where
  "srv_validate_inbound_flags rt t fl =
     (let allowed = (if t = Page then 0x0f else if t = Update then 0x01 else 0) in
      if fl AND NOT allowed \<noteq> 0
      then Inl (invalid_message rt [lit ''unsupported flags 0x'', hex2 fl, lit '' for '', show_MessageType t])
      else Inr ())"

definition srv_validate_capability ::
  "runtime \<Rightarrow> NegotiatedProtocol option \<Rightarrow> MessageType \<Rightarrow> u8 \<Rightarrow> bool \<Rightarrow> unit presult" where
  "srv_validate_capability rt neg t fl carries_session =
     (if t \<in> {Hello, Welcome} then Inr ()
      else and_then (ok_or (InvalidMessage (lit ''application frame before negotiation'')) neg) (\<lambda>n.
        let caps = np_capabilities n;
            page = page_from_bits fl;
            allowed =
              (if t \<in> {Subscribe, Unsubscribe, Update} then live_updates caps
               else if t = Resource then wasm_effects caps
               else if t = Page then
                 (\<not> has_live_regions page \<or> live_updates caps)
                 \<and> (\<not> has_session page \<or> sessions caps)
                 \<and> (\<not> has_path page \<or> page_path caps)
               else True) \<and> (\<not> carries_session \<or> sessions caps)
        in if allowed then Inr ()
           else Inl (invalid_message rt
                  [show_MessageType t, lit '' requires a capability not negotiated by both peers''])))"

section \<open>The server stream\<close>

definition supports_page_path :: "AtpServerStream \<Rightarrow> bool" where
  "supports_page_path c = (case negotiated c of None \<Rightarrow> False | Some n \<Rightarrow> page_path (np_capabilities n))"

definition server_try_send_update_parts :: "runtime \<Rightarrow> ustr \<Rightarrow> ustr \<Rightarrow> bool \<Rightarrow> unit action" where
  "server_try_send_update_parts rt region content delta =
     (let fl = update_to_bits \<lparr>delta_flag = delta\<rparr> in
      bind_action (lift (parts_body_len region (len content))) (\<lambda>body_len.
      bind_action (lift (ok_or (FrameTooLarge u32_max) (u32_try_from body_len))) (\<lambda>body_len_u32.
      bind_action (lift (srv_validate_inbound_body_len rt ServerPeer Update body_len_u32)) (\<lambda>_.
      bind_action (lift (srv_validate_inbound_flags rt Update fl)) (\<lambda>_.
      bind_action (lift (validate_update_parts rt region (len content))) (\<lambda>_.
      bind_action (\<lambda>c. (srv_validate_capability rt (negotiated c) Update fl False, c)) (\<lambda>_.
      bind_action (apply_state rt Send Update) (\<lambda>_.
      bind_action (lift (ok_or (FrameTooLarge u32_max) (checked_add_u32 (of_nat HEADER_SIZE) body_len_u32))) (\<lambda>total_len.
      bind_action (lift (if unat total_len > MAX_FRAME_SIZE then Inl (FrameTooLarge (unat total_len)) else Inr ())) (\<lambda>_.
      let pre = to_be_bytes total_len @ [to_u8 Update, fl] @ utf8 (lit ''UPDATE '') in
      bind_action (on_stream (write_all pre)) (\<lambda>_.
      bind_action (on_stream (write_all (utf8 region))) (\<lambda>_.
      bind_action (on_stream (write_all [10, 10])) (\<lambda>_.
      on_stream (write_all (utf8 content)))))))))))))))"

definition server_send_update_parts :: "runtime \<Rightarrow> ustr \<Rightarrow> ustr \<Rightarrow> bool \<Rightarrow> unit action" where
  "server_send_update_parts rt region content delta =
     guarded (server_try_send_update_parts rt region content delta)"

definition server_try_send_frame :: "runtime \<Rightarrow> RawFrame \<Rightarrow> unit action" where
  "server_try_send_frame rt frame =
     bind_action (lift (ok_or (FrameTooLarge u32_max) (u32_try_from (length (body frame))))) (\<lambda>body_len.
     bind_action (lift (srv_validate_inbound_body_len rt ServerPeer (msg_type frame) body_len)) (\<lambda>_.
     bind_action (lift (srv_validate_inbound_flags rt (msg_type frame) (flags frame))) (\<lambda>_.
     bind_action (lift (validate_frame_body rt (msg_type frame) (body frame) (flags frame))) (\<lambda>session.
     bind_action (if msg_type frame = Welcome then accept_welcome rt (body frame) else lift (Inr ())) (\<lambda>_.
     bind_action (\<lambda>c. (srv_validate_capability rt (negotiated c) (msg_type frame) (flags frame) session, c)) (\<lambda>_.
     bind_action (apply_state rt Send (msg_type frame)) (\<lambda>_.
     bind_action (lift (encode_frame rt frame)) (\<lambda>bytes.
     on_stream (write_all bytes)))))))))"

definition server_send_frame :: "runtime \<Rightarrow> RawFrame \<Rightarrow> unit action" where
  "server_send_frame rt frame = guarded (server_try_send_frame rt frame)"

definition server_try_recv_frame :: "runtime \<Rightarrow> RawFrame action" where
  "server_try_recv_frame rt =
     bind_action (on_stream (read_exact HEADER_SIZE)) (\<lambda>header.
     bind_action (lift (decode_header_bytes rt header)) (\<lambda>(body_len, t, fl).
     bind_action (lift (srv_validate_inbound_body_len rt ClientPeer t body_len)) (\<lambda>_.
     bind_action (lift (srv_validate_inbound_flags rt t fl)) (\<lambda>_.
     bind_action (read_body rt body_len) (\<lambda>bytes.
     bind_action (lift (validate_frame_body rt t bytes fl)) (\<lambda>session.
     bind_action (if t = Hello then record_hello rt bytes else lift (Inr ())) (\<lambda>_.
     bind_action (\<lambda>c. (srv_validate_capability rt (negotiated c) t fl session, c)) (\<lambda>_.
     bind_action (apply_state rt Receive t) (\<lambda>_.
     lift (Inr \<lparr>msg_type = t, flags = fl, body = bytes\<rparr>))))))))))"

definition server_recv_frame :: "runtime \<Rightarrow> RawFrame action" where
  "server_recv_frame rt = guarded (server_try_recv_frame rt)"

section \<open>Addresses\<close>

definition try_format_host_port :: "runtime \<Rightarrow> ustr \<Rightarrow> u16 \<Rightarrow> ustr presult" where
  "try_format_host_port rt h p =
     (let brackets = (if 58 \<in> set h \<and> \<not> starts_with [91] h then 1 else 0) * 2 in
      and_then (ok_or (ResourceExhausted usize_max)
        (Option.bind (checked_add (len h) brackets) (\<lambda>n. checked_add n (1 + 5)))) (\<lambda>requested.
      if \<not> try_reserve rt requested then Inl (ResourceExhausted requested)
      else Inr ((if brackets \<noteq> 0 then [91] @ h @ [93] else h) @ [58] @ show_nat (unat p))))"

definition format_host_port :: "ustr \<Rightarrow> u16 \<Rightarrow> ustr" where
  "format_host_port h p =
     (if 58 \<in> set h \<and> \<not> starts_with [91] h
      then lit ''['' @ h @ lit '']:'' @ show_nat (unat p)
      else h @ lit '':'' @ show_nat (unat p))"

text \<open>\<open>ServerName::try_from\<close> of the TLS library is the parameter \<open>server_name\<close>.\<close>

definition try_server_name :: "runtime \<Rightarrow> (ustr \<Rightarrow> 'n option) \<Rightarrow> ustr \<Rightarrow> 'n presult" where
  "try_server_name rt server_name h =
     (if \<not> try_reserve rt (len h) then Inl (ResourceExhausted (len h))
      else case server_name h of
        Some n \<Rightarrow> Inr n
      | None \<Rightarrow>
          let message = lit ''invalid server name'' in
          if \<not> try_reserve rt (len message) then Inl (ResourceExhausted (len message))
          else Inl (Tls message))"

end
