(* ===== verification/Transport_Laws.thy ===== *)
theory Transport_Laws
  imports Transport
begin

text \<open>
  Properties of one connection: what a successful send or receive implies, what it does to
  the stream, that the two crates' copies of the checks are the same, that an error poisons
  the connection for good, and that no application frame passes without its capability.
\<close>

section \<open>Actions\<close>

lemma lift_bind [simp]: "bind_action (lift (Inr x)) f = f x" "bind_action (lift (Inl e)) f = lift (Inl e)"
  by (auto simp: bind_action_def lift_def)

lemma lift_apply [simp]: "lift r c = (r, c)"
  by (simp add: lift_def)

lemma bind_Inr:
  "bind_action m f c = (Inr y, c') \<longleftrightarrow> (\<exists>x c1. m c = (Inr x, c1) \<and> f x c1 = (Inr y, c'))"
  by (auto simp: bind_action_def split: prod.splits sum.splits)

lemma bind_check:
  "bind_action (\<lambda>c. (g c, c)) f c = (Inr y, c') \<longleftrightarrow> (\<exists>x. g c = Inr x \<and> f x c = (Inr y, c'))"
  by (auto simp: bind_Inr)

lemma bind_lift:
  "bind_action (lift r) f c = (Inr y, c') \<longleftrightarrow> (\<exists>x. r = Inr x \<and> f x c = (Inr y, c'))"
  by (auto simp: bind_Inr)

lemma guarded_Inr:
  "guarded act c = (Inr y, c') \<longleftrightarrow> \<not> poisoned c \<and> act c = (Inr y, c')"
  by (auto simp: guarded_def split: prod.splits)

lemma apply_state_Inr:
  "apply_state rt d t c = (Inr y, c') \<longleftrightarrow>
     (\<exists>p. next_phase (endpoint (cstate c)) (phase (cstate c)) d t = Some p \<and> c' = c\<lparr>cstate := (cstate c)\<lparr>phase := p\<rparr>\<rparr>)"
  by (auto simp: apply_state_def apply_msg_def split: option.splits)

lemma write_stream_Inr:
  "on_stream (write_all bs) c = (Inr y, c') \<longleftrightarrow> length bs \<le> tx_room (transport c)
     \<and> c' = c\<lparr>transport := (transport c)\<lparr>tx := tx (transport c) @ bs, tx_room := tx_room (transport c) - length bs\<rparr>\<rparr>"
  by (auto simp: on_stream_def write_all_def split: prod.splits if_splits)

section \<open>The copies agree\<close>

lemma srv_limit_eq: "srv_inbound_body_limit = inbound_body_limit"
proof (intro ext)
  show "srv_inbound_body_limit peer t = inbound_body_limit peer t" for peer t
    by (cases peer; cases t) (simp_all add: srv_inbound_body_limit_def inbound_body_limit_def)
qed

lemma srv_body_len_eq: "srv_validate_inbound_body_len = validate_inbound_body_len"
  by (intro ext) (simp add: srv_validate_inbound_body_len_def validate_inbound_body_len_def srv_limit_eq)

lemma srv_flags_eq: "srv_validate_inbound_flags = validate_inbound_flags"
proof (intro ext)
  show "srv_validate_inbound_flags rt t fl = validate_inbound_flags rt t fl" for rt t fl
    by (cases t) (simp_all add: srv_validate_inbound_flags_def validate_inbound_flags_def)
qed

lemma srv_capability_eq: "srv_validate_capability = validate_capability"
proof (intro ext)
  show "srv_validate_capability rt n t fl s = validate_capability rt n t fl s" for rt n t fl s
    by (cases t) (simp_all add: srv_validate_capability_def validate_capability_def Let_def)
qed

lemmas server_checks = srv_body_len_eq srv_flags_eq srv_capability_eq

section \<open>One sender and one receiver\<close>

text \<open>
  The two senders differ in the peer the limits are taken for and in the message that has an
  effect of its own; so do the two receivers.
\<close>

definition send_via ::
  "runtime \<Rightarrow> InboundPeer \<Rightarrow> MessageType \<Rightarrow> (byte list \<Rightarrow> unit action) \<Rightarrow> RawFrame \<Rightarrow> unit action" where
  "send_via rt peer t0 hook frame =
     bind_action (lift (ok_or (FrameTooLarge u32_max) (u32_try_from (length (body frame))))) (\<lambda>body_len.
     bind_action (lift (validate_inbound_body_len rt peer (msg_type frame) body_len)) (\<lambda>_.
     bind_action (lift (validate_inbound_flags rt (msg_type frame) (flags frame))) (\<lambda>_.
     bind_action (lift (validate_frame_body rt (msg_type frame) (body frame) (flags frame))) (\<lambda>session.
     bind_action (if msg_type frame = t0 then hook (body frame) else lift (Inr ())) (\<lambda>_.
     bind_action (\<lambda>c. (validate_capability rt (negotiated c) (msg_type frame) (flags frame) session, c)) (\<lambda>_.
     bind_action (apply_state rt Send (msg_type frame)) (\<lambda>_.
     bind_action (lift (encode_frame rt frame)) (\<lambda>bytes.
     on_stream (write_all bytes)))))))))"

definition recv_via ::
  "runtime \<Rightarrow> InboundPeer \<Rightarrow> MessageType \<Rightarrow> (byte list \<Rightarrow> unit action) \<Rightarrow> RawFrame action" where
  "recv_via rt peer t0 hook =
     bind_action (on_stream (read_exact HEADER_SIZE)) (\<lambda>header.
     bind_action (lift (decode_header_bytes rt header)) (\<lambda>(body_len, t, fl).
     bind_action (lift (validate_inbound_body_len rt peer t body_len)) (\<lambda>_.
     bind_action (lift (validate_inbound_flags rt t fl)) (\<lambda>_.
     bind_action (read_body rt body_len) (\<lambda>bytes.
     bind_action (lift (validate_frame_body rt t bytes fl)) (\<lambda>session.
     bind_action (if t = t0 then hook bytes else lift (Inr ())) (\<lambda>_.
     bind_action (\<lambda>c. (validate_capability rt (negotiated c) t fl session, c)) (\<lambda>_.
     bind_action (apply_state rt Receive t) (\<lambda>_.
     lift (Inr \<lparr>msg_type = t, flags = fl, body = bytes\<rparr>))))))))))"

lemma client_via:
  "client_try_send_frame rt f = send_via rt ClientPeer Hello (record_hello rt) f"
  "client_try_recv_frame rt = recv_via rt ServerPeer Welcome (accept_welcome rt)"
  by (simp_all add: client_try_send_frame_def send_via_def client_try_recv_frame_def recv_via_def)

lemma server_via:
  "server_try_send_frame rt f = send_via rt ServerPeer Welcome (accept_welcome rt) f"
  "server_try_recv_frame rt = recv_via rt ClientPeer Hello (record_hello rt)"
  by (simp_all add: server_try_send_frame_def send_via_def server_try_recv_frame_def recv_via_def server_checks)

text \<open>The checks of a frame that do not depend on the connection.\<close>

definition frame_ok :: "runtime \<Rightarrow> InboundPeer \<Rightarrow> RawFrame \<Rightarrow> bool \<Rightarrow> bool" where
  "frame_ok rt peer f session \<longleftrightarrow>
     HEADER_SIZE + length (body f) \<le> MAX_FRAME_SIZE
     \<and> validate_inbound_body_len rt peer (msg_type f) (of_nat (length (body f))) = Inr ()
     \<and> validate_inbound_flags rt (msg_type f) (flags f) = Inr ()
     \<and> validate_frame_body rt (msg_type f) (body f) (flags f) = Inr session"

definition frame_bytes :: "RawFrame \<Rightarrow> byte list" where
  "frame_bytes f = header_bytes (frame_header f) @ body f"

lemma length_frame_header [simp]: "length (header_bytes (frame_header f)) = HEADER_SIZE"
  by (simp add: frame_header_def Let_def HEADER_SIZE_def)

definition sent :: "byte list \<Rightarrow> Phase \<Rightarrow> Connection \<Rightarrow> Connection" where
  "sent bs p c = c\<lparr>cstate := (cstate c)\<lparr>phase := p\<rparr>,
     transport := (transport c)\<lparr>tx := tx (transport c) @ bs, tx_room := tx_room (transport c) - length bs\<rparr>\<rparr>"

definition hooked :: "bool \<Rightarrow> unit action \<Rightarrow> Connection \<Rightarrow> Connection \<Rightarrow> bool" where
  "hooked special hook c c1 \<longleftrightarrow> (if special then hook c = (Inr (), c1) else c1 = c)"

lemma hooked_bind:
  "bind_action (if b then h else lift (Inr ())) k c = (Inr y, c') \<longleftrightarrow> (\<exists>c1. hooked b h c c1 \<and> k () c1 = (Inr y, c'))"
  by (auto simp: hooked_def bind_Inr)

text \<open>
  The two hooks. They look only at what is known of the peer and change only that; whether
  they succeed does not depend on the stream or the state machine.
\<close>

definition same_peer_view :: "Connection \<Rightarrow> Connection \<Rightarrow> bool" where
  "same_peer_view c d \<longleftrightarrow> offered_capabilities c = offered_capabilities d
     \<and> offered_version c = offered_version d \<and> negotiated c = negotiated d"

definition same_link :: "Connection \<Rightarrow> Connection \<Rightarrow> bool" where
  "same_link c d \<longleftrightarrow> transport c = transport d \<and> cstate c = cstate d \<and> poisoned c = poisoned d"

text \<open>What the code relies on of a hook, whichever of the two it is.\<close>

locale peer_hook =
  fixes hook :: "byte list \<Rightarrow> unit action"
  assumes keeps_link: "hook bs c = (Inr (), c1) \<Longrightarrow> same_link c c1"
    and same_view: "hook bs c = (Inr (), c1) \<Longrightarrow> same_peer_view c d \<Longrightarrow>
      \<exists>d1. hook bs d = (Inr (), d1) \<and> same_peer_view c1 d1"
begin

lemma hooked_link: "hooked b (hook bs) c c1 \<Longrightarrow> same_link c c1"
  using keeps_link by (auto simp: hooked_def same_link_def split: if_splits)

lemma send_success:
  "send_via rt peer t0 hook f c = (Inr (), c') \<longleftrightarrow>
     (\<exists>session c1 p. frame_ok rt peer f session \<and> try_reserve rt (length (frame_bytes f))
       \<and> hooked (msg_type f = t0) (hook (body f)) c c1
       \<and> validate_capability rt (negotiated c1) (msg_type f) (flags f) session = Inr ()
       \<and> next_phase (endpoint (cstate c)) (phase (cstate c)) Send (msg_type f) = Some p
       \<and> length (frame_bytes f) \<le> tx_room (transport c) \<and> c' = sent (frame_bytes f) p c1)"
    (is "_ = (\<exists>session c1 p. ?P session c1 p)")
proof
  assume "send_via rt peer t0 hook f c = (Inr (), c')"
  then obtain session c1 p where h: "hooked (msg_type f = t0) (hook (body f)) c c1"
    and "frame_ok rt peer f session \<and> try_reserve rt (length (frame_bytes f))
       \<and> validate_capability rt (negotiated c1) (msg_type f) (flags f) session = Inr ()
       \<and> next_phase (endpoint (cstate c1)) (phase (cstate c1)) Send (msg_type f) = Some p
       \<and> length (frame_bytes f) \<le> tx_room (transport c1) \<and> c' = sent (frame_bytes f) p c1"
    unfolding send_via_def bind_lift bind_check hooked_bind encode_frame_Inr ok_or_eq_Inr u32_try_from_Some
    by (auto simp: bind_Inr apply_state_Inr write_stream_Inr encode_frame_Inr frame_ok_def frame_bytes_def
        length_frame_header sent_def)
  with hooked_link [OF h] show "\<exists>session c1 p. ?P session c1 p"
    unfolding same_link_def by metis
next
  assume "\<exists>session c1 p. ?P session c1 p"
  then obtain session c1 p where P: "?P session c1 p" by blast
  then have l: "same_link c c1"
    using hooked_link by blast
  have "length (body f) \<le> u32_max"
    using P by (auto simp: frame_ok_def MAX_FRAME_SIZE_def u32_max_def)
  then have "u32_try_from (length (body f)) = Some (of_nat (length (body f)))"
    by (simp add: u32_try_from_Some)
  with P l show "send_via rt peer t0 hook f c = (Inr (), c')"
    unfolding send_via_def bind_lift bind_check hooked_bind encode_frame_Inr ok_or_eq_Inr
    by (fastforce simp: bind_Inr apply_state_Inr write_stream_Inr encode_frame_Inr frame_ok_def frame_bytes_def
        length_frame_header sent_def same_link_def)
qed

end

section \<open>Receiving\<close>

lemma read_body_Inr:
  "read_body rt n c = (Inr bytes, c') \<longleftrightarrow> try_reserve rt (unat n) \<and> unat n \<le> length (rx (transport c))
     \<and> bytes = take (unat n) (rx (transport c))
     \<and> c' = c\<lparr>transport := (transport c)\<lparr>rx := drop (unat n) (rx (transport c))\<rparr>\<rparr>"
proof (cases "n = 0")
  case True
  then show ?thesis
    by (auto simp: read_body_def allocate_frame_body_def bind_lift)
next
  case False
  then have "n > 0" by (simp add: word_neq_0_conv)
  then show ?thesis
    by (auto simp: read_body_def allocate_frame_body_def bind_lift on_stream_def read_exact_def
        split: if_splits)
qed

lemma read_header_Inr:
  "on_stream (read_exact HEADER_SIZE) c = (Inr h, c') \<longleftrightarrow>
     (\<exists>rest. rx (transport c) = h @ rest \<and> length h = HEADER_SIZE \<and> c' = c\<lparr>transport := (transport c)\<lparr>rx := rest\<rparr>\<rparr>)"
proof
  assume "on_stream (read_exact HEADER_SIZE) c = (Inr h, c')"
  then show "\<exists>rest. rx (transport c) = h @ rest \<and> length h = HEADER_SIZE \<and> c' = c\<lparr>transport := (transport c)\<lparr>rx := rest\<rparr>\<rparr>"
    by (intro exI [of _ "drop HEADER_SIZE (rx (transport c))"])
      (auto simp: on_stream_def read_exact_def split: if_splits)
qed (auto simp: on_stream_def read_exact_def)

lemma header_list: "length h = HEADER_SIZE \<Longrightarrow> \<exists>t. h = header_bytes t \<and> decode_header_bytes rt h = decode_header rt t"
  by (auto simp: HEADER_SIZE_def decode_header_bytes_def numeral_eq_Suc length_Suc_conv)

lemma decode_header_bytes_frame: "decode_header_bytes rt (header_bytes (frame_header f)) = decode_header rt (frame_header f)"
  by (simp add: frame_header_def Let_def decode_header_bytes_def)

definition rest_rx :: "byte list \<Rightarrow> Connection \<Rightarrow> Connection" where
  "rest_rx rest c = c\<lparr>transport := (transport c)\<lparr>rx := rest\<rparr>\<rparr>"

lemma recv_prefix:
  "bind_action (on_stream (read_exact HEADER_SIZE)) (\<lambda>header.
     bind_action (lift (decode_header_bytes rt header)) (\<lambda>(body_len, t, fl).
     bind_action (lift (validate_inbound_body_len rt peer t body_len)) (\<lambda>_.
     bind_action (lift (validate_inbound_flags rt t fl)) (\<lambda>_.
     bind_action (read_body rt body_len) (\<lambda>bytes.
     bind_action (lift (validate_frame_body rt t bytes fl)) (\<lambda>session.
     k \<lparr>msg_type = t, flags = fl, body = bytes\<rparr> session)))))) c = (Inr y, c') \<longleftrightarrow>
   (\<exists>f session rest. rx (transport c) = frame_bytes f @ rest \<and> frame_ok rt peer f session
      \<and> try_reserve rt (length (body f)) \<and> k f session (rest_rx rest c) = (Inr y, c'))"
  (is "?l = (\<exists>f session rest. ?r f session rest)")
proof
  assume ?l
  then obtain h rest n t fl bytes c1 session where
    h: "rx (transport c) = h @ rest" "length h = HEADER_SIZE" "decode_header_bytes rt h = Inr (n, t, fl)"
    and v: "validate_inbound_body_len rt peer t n = Inr ()" "validate_inbound_flags rt t fl = Inr ()"
    and b: "read_body rt n (rest_rx rest c) = (Inr bytes, c1)"
    and s: "validate_frame_body rt t bytes fl = Inr session"
    and k: "k \<lparr>msg_type = t, flags = fl, body = bytes\<rparr> session c1 = (Inr y, c')"
    by (auto simp: bind_Inr bind_lift read_header_Inr rest_rx_def split: prod.splits)
  let ?f = "\<lparr>msg_type = t, flags = fl, body = bytes\<rparr>"
  from b have n: "try_reserve rt (unat n)" "length bytes = unat n" "rest = bytes @ drop (unat n) rest"
    "c1 = rest_rx (drop (unat n) rest) c"
    by (auto simp: read_body_Inr rest_rx_def)
  obtain u where u: "h = header_bytes u" "decode_header rt u = Inr (n, t, fl)"
    using header_list [OF h(2), of rt] h(3) by auto
  have "u = frame_header ?f" "HEADER_SIZE + length bytes \<le> MAX_FRAME_SIZE"
    using decode_header_canonical [OF u(2) n(2)] by simp_all
  moreover have "of_nat (length bytes) = n"
    by (simp add: n(2))
  ultimately have "?r ?f session (drop (unat n) rest)"
    using h(1) u(1) n v s k by (simp add: frame_bytes_def frame_ok_def)
  then show "\<exists>f session rest. ?r f session rest" by blast
next
  assume "\<exists>f session rest. ?r f session rest"
  then obtain f session rest where r: "?r f session rest" by blast
  then have ok: "HEADER_SIZE + length (body f) \<le> MAX_FRAME_SIZE"
    by (simp add: frame_ok_def)
  have n: "unat (of_nat (length (body f)) :: u32) = length (body f)"
    using ok by (intro unat_of_nat_u32) (simp add: MAX_FRAME_SIZE_def u32_max_def)
  have "read_body rt (of_nat (length (body f))) (rest_rx (body f @ rest) c) = (Inr (body f), rest_rx rest c)"
    using r by (simp add: read_body_Inr n rest_rx_def)
  moreover have "on_stream (read_exact HEADER_SIZE) c =
      (Inr (header_bytes (frame_header f)), rest_rx (body f @ rest) c)"
    using r by (simp add: read_header_Inr rest_rx_def frame_bytes_def)
  ultimately show ?l
    using r decode_frame_header [OF ok, of rt]
    by (cases f) (simp add: bind_Inr bind_lift decode_header_bytes_frame frame_ok_def)
qed

lemma recv_success:
  "recv_via rt peer t0 hook c = (Inr f, c') \<longleftrightarrow>
     (\<exists>session rest c1 p. rx (transport c) = frame_bytes f @ rest \<and> frame_ok rt peer f session
       \<and> try_reserve rt (length (body f))
       \<and> hooked (msg_type f = t0) (hook (body f)) (rest_rx rest c) c1
       \<and> validate_capability rt (negotiated c1) (msg_type f) (flags f) session = Inr ()
       \<and> next_phase (endpoint (cstate c1)) (phase (cstate c1)) Receive (msg_type f) = Some p
       \<and> c' = c1\<lparr>cstate := (cstate c1)\<lparr>phase := p\<rparr>\<rparr>)"
proof -
  have "recv_via rt peer t0 hook c = (Inr f, c') \<longleftrightarrow>
    (\<exists>g session rest. rx (transport c) = frame_bytes g @ rest \<and> frame_ok rt peer g session
      \<and> try_reserve rt (length (body g))
      \<and> bind_action (if msg_type g = t0 then hook (body g) else lift (Inr ())) (\<lambda>_.
        bind_action (\<lambda>c. (validate_capability rt (negotiated c) (msg_type g) (flags g) session, c)) (\<lambda>_.
        bind_action (apply_state rt Receive (msg_type g)) (\<lambda>_. lift (Inr g)))) (rest_rx rest c) = (Inr f, c'))"
    unfolding recv_via_def
    using recv_prefix [where k = "\<lambda>g session.
        bind_action (if msg_type g = t0 then hook (body g) else lift (Inr ())) (\<lambda>_.
        bind_action (\<lambda>c. (validate_capability rt (negotiated c) (msg_type g) (flags g) session, c)) (\<lambda>_.
        bind_action (apply_state rt Receive (msg_type g)) (\<lambda>_. lift (Inr g))))", of rt peer c f c']
    by (simp only: RawFrame.simps)
  also have "\<dots> \<longleftrightarrow> (\<exists>session rest c1 p. rx (transport c) = frame_bytes f @ rest \<and> frame_ok rt peer f session
       \<and> try_reserve rt (length (body f))
       \<and> hooked (msg_type f = t0) (hook (body f)) (rest_rx rest c) c1
       \<and> validate_capability rt (negotiated c1) (msg_type f) (flags f) session = Inr ()
       \<and> next_phase (endpoint (cstate c1)) (phase (cstate c1)) Receive (msg_type f) = Some p
       \<and> c' = c1\<lparr>cstate := (cstate c1)\<lparr>phase := p\<rparr>\<rparr>)"
    unfolding hooked_bind unfolding bind_check unfolding bind_Inr apply_state_Inr by (auto; blast)
  finally show ?thesis .
qed

section \<open>The two hooks\<close>

lemma record_hello_Inr:
  "record_hello rt bs c = (Inr (), c1) \<longleftrightarrow>
     (\<exists>txt hello v. from_utf8 bs = Inr txt \<and> Hello_parse rt txt = Inr hello
        \<and> ProtocolVersion_parse rt (hello_version hello) = Inr v
        \<and> c1 = c\<lparr>offered_version := Some v, offered_capabilities := hello_capabilities hello\<rparr>)"
  by (auto simp: record_hello_def bind_lift map_err_eq_Inr update_conn_def)

lemma accept_welcome_Inr:
  "accept_welcome rt bs c = (Inr (), c1) \<longleftrightarrow>
     (\<exists>txt welcome v. from_utf8 bs = Inr txt \<and> Welcome_parse rt txt = Inr welcome
        \<and> ProtocolVersion_parse rt (welcome_version welcome) = Inr v \<and> offered_version c = Some v
        \<and> set (welcome_capabilities welcome) \<subseteq> set (offered_capabilities c)
        \<and> c1 = c\<lparr>negotiated := Some \<lparr>np_version = v,
              np_capabilities = negotiate (offered_capabilities c) (welcome_capabilities welcome)\<rparr>\<rparr>)"
  by (auto simp: accept_welcome_def bind_lift map_err_eq_Inr list_ex_iff subset_iff)

interpretation hello_hook: peer_hook "record_hello rt" for rt
  by unfold_locales (auto simp: record_hello_Inr same_link_def same_peer_view_def)

interpretation welcome_hook: peer_hook "accept_welcome rt" for rt
proof unfold_locales
  fix bs c c1 d
  assume "accept_welcome rt bs c = (Inr (), c1)" "same_peer_view c d"
  then show "\<exists>d1. accept_welcome rt bs d = (Inr (), d1) \<and> same_peer_view c1 d1"
    by (fastforce simp: accept_welcome_Inr same_peer_view_def)
qed (auto simp: accept_welcome_Inr same_link_def)


section \<open>An error is final\<close>

definition discard :: "'a action \<Rightarrow> unit action" where
  "discard act c = (case act c of (r, c') \<Rightarrow> (map_ok (\<lambda>_. ()) r, c'))"

text \<open>The operations that the two connection types offer.\<close>

inductive connection_op :: "runtime \<Rightarrow> unit action \<Rightarrow> bool" for rt where
  "connection_op rt (client_send_frame rt f)"
| "connection_op rt (discard (client_recv_frame rt))"
| "connection_op rt (server_send_frame rt f)"
| "connection_op rt (server_send_update_parts rt region content delta)"
| "connection_op rt (discard (server_recv_frame rt))"

fun run_ops :: "unit action list \<Rightarrow> Connection \<Rightarrow> unit presult list \<times> Connection" where
  "run_ops [] c = ([], c)"
| "run_ops (act # acts) c =
     (case act c of (r, c1) \<Rightarrow> case run_ops acts c1 of (rs, c2) \<Rightarrow> (r # rs, c2))"

lemma guarded_poisoned: "poisoned c \<Longrightarrow> guarded act c = (Inl ConnectionClosed, c)"
  by (simp add: guarded_def)

lemma guarded_Inl: "guarded act c = (Inl e, c') \<Longrightarrow> poisoned c'"
  by (auto simp: guarded_def split: if_splits prod.splits)

lemma discard_guarded: "\<exists>act'. discard (guarded act) = guarded act'"
proof (intro exI ext)
  show "discard (guarded act) c = guarded (discard act) c" for c
    by (auto simp: discard_def guarded_def map_ok_def split: prod.splits sum.splits)
qed

lemma connection_op_guarded: "connection_op rt act \<Longrightarrow> \<exists>act'. act = guarded act'"
  by (induction rule: connection_op.induct)
    (auto simp: client_send_frame_def client_recv_frame_def server_send_frame_def
      server_send_update_parts_def server_recv_frame_def intro: discard_guarded)

lemma run_poisoned:
  "poisoned c \<Longrightarrow> \<forall>act \<in> set acts. connection_op rt act \<Longrightarrow>
   run_ops acts c = (replicate (length acts) (Inl ConnectionClosed), c)"
  by (induction acts) (auto simp: guarded_poisoned dest!: connection_op_guarded)

text \<open>
  C23: an error is final. Once any operation of a connection, at either end, has failed, every
  later operation fails with \<open>ConnectionClosed\<close> and leaves the connection untouched: nothing
  more is read from or written to its stream, so a peer never sees bytes after a broken frame.
\<close>

theorem poisoned_for_good:
  assumes "connection_op rt act" "act c = (Inl e, c')" "\<forall>a \<in> set acts. connection_op rt a"
  shows "run_ops acts c' = (replicate (length acts) (Inl ConnectionClosed), c')"
  using assms connection_op_guarded guarded_Inl run_poisoned by metis

definition quiet_stream :: "byte list \<Rightarrow> stream" where
  "quiet_stream bs = \<lparr>rx = bs, rx_end = UnexpectedEof, tx = [], tx_room = 1000, tx_end = OtherIo\<rparr>"

theorem poisoned_for_good_witness:
  "\<exists>c'. discard (server_recv_frame roomy_runtime) (handshake_plain (quiet_stream [])) = (Inl ConnectionClosed, c')
    \<and> run_ops [discard (server_recv_frame roomy_runtime)] c' = ([Inl ConnectionClosed], c')"
proof -
  let ?r = "discard (server_recv_frame roomy_runtime)" and ?c = "handshake_plain (quiet_stream [])"
  have op: "connection_op roomy_runtime ?r"
    by (rule connection_op.intros)
  have e: "?r ?c = (Inl ConnectionClosed, ?c\<lparr>poisoned := True\<rparr>)"
    by (simp add: discard_def server_recv_frame_def guarded_def server_try_recv_frame_def bind_action_def
        on_stream_def read_exact_def handshake_plain_def new_connection_def quiet_stream_def from_io_def HEADER_SIZE_def)
  show ?thesis
    using e poisoned_for_good [OF op e, of "[?r]"] op by simp
qed

section \<open>What is received\<close>

lemma frame_ok_limit:
  assumes "frame_ok rt peer f session"
  shows "\<exists>mx. inbound_body_limit peer (msg_type f) = Inr mx \<and> length (body f) \<le> mx"
proof -
  have "unat (of_nat (length (body f)) :: u32) = length (body f)"
    using assms by (intro unat_of_nat_u32) (auto simp: frame_ok_def MAX_FRAME_SIZE_def u32_max_def)
  then show ?thesis
    using assms by (auto simp: frame_ok_def validate_inbound_body_len_def result_simps split: if_splits)
qed

text \<open>
  The frame is the one at the head of the stream, is consumed exactly, and has passed every
  check that needs no connection.
\<close>

definition received_intact :: "runtime \<Rightarrow> InboundPeer \<Rightarrow> RawFrame \<Rightarrow> Connection \<Rightarrow> Connection \<Rightarrow> bool" where
  "received_intact rt peer f c c' \<longleftrightarrow>
     rx (transport c) = frame_bytes f @ rx (transport c') \<and> tx (transport c') = tx (transport c)
     \<and> (\<exists>mx. inbound_body_limit peer (msg_type f) = Inr mx \<and> length (body f) \<le> mx)
     \<and> validate_inbound_flags rt (msg_type f) (flags f) = Inr ()
     \<and> (\<exists>session. validate_frame_body rt (msg_type f) (body f) (flags f) = Inr session)"

context peer_hook
begin

lemma recv_intact:
  assumes "recv_via rt peer t0 hook c = (Inr f, c')"
  shows "received_intact rt peer f c c'"
proof -
  obtain session rest c1 p where r: "rx (transport c) = frame_bytes f @ rest" "frame_ok rt peer f session"
    "hooked (msg_type f = t0) (hook (body f)) (rest_rx rest c) c1" "c' = c1\<lparr>cstate := (cstate c1)\<lparr>phase := p\<rparr>\<rparr>"
    using assms by (auto simp: recv_success)
  have "transport c1 = transport (rest_rx rest c)"
    using hooked_link [OF r(3)] by (simp add: same_link_def)
  then show ?thesis
    using r frame_ok_limit [OF r(2)] by (auto simp: received_intact_def rest_rx_def frame_ok_def)
qed

end

text \<open>
  C21: a frame an endpoint receives is exactly the canonical encoding at the head of its
  stream, no more and no less is consumed and nothing is written; its type is one the peer may
  send, its body is within the limit of that type, its flags are defined ones, and its body
  passed the check of its type.
\<close>

theorem received_frame_checked:
  "(server_recv_frame rt c = (Inr f, c') \<longrightarrow> received_intact rt ClientPeer f c c')
   \<and> (client_recv_frame rt c = (Inr f, c') \<longrightarrow> received_intact rt ServerPeer f c c')"
  using hello_hook.recv_intact welcome_hook.recv_intact
  by (auto simp: server_recv_frame_def client_recv_frame_def guarded_Inr server_via client_via)

text \<open>A server connection after the handshake, with every capability.\<close>

definition ready_server :: "byte list \<Rightarrow> AtpServerStream" where
  "ready_server bs = (handshake_plain (quiet_stream bs))\<lparr>cstate := \<lparr>endpoint = Server, phase = Ready\<rparr>,
     negotiated := Some \<lparr>np_version = \<lparr>major = 1, minor = 0\<rparr>, np_capabilities = 15\<rparr>\<rparr>"

definition ping_frame :: RawFrame where
  "ping_frame = \<lparr>msg_type = Ping, flags = 0, body = []\<rparr>"

lemma ping_received:
  "\<exists>c'. server_recv_frame roomy_runtime (ready_server (frame_bytes ping_frame)) = (Inr ping_frame, c')"
proof -
  have "frame_ok roomy_runtime ClientPeer ping_frame False"
    by (simp add: frame_ok_def ping_frame_def validate_inbound_body_len_def inbound_body_limit_def limit_defs
        validate_inbound_flags_def validate_frame_body_def is_control_message_def from_utf8_utf8 [of "[]", simplified])
  then show ?thesis
    unfolding server_recv_frame_def guarded_Inr server_via recv_success
    by (auto simp: ready_server_def handshake_plain_def new_connection_def quiet_stream_def ping_frame_def
        hooked_def rest_rx_def validate_capability_def next_phase_def try_reserve_def intro!: exI [of _ False])
qed

theorem received_frame_checked_witness:
  "\<exists>c'. server_recv_frame roomy_runtime (ready_server (frame_bytes ping_frame)) = (Inr ping_frame, c')
    \<and> received_intact roomy_runtime ClientPeer ping_frame (ready_server (frame_bytes ping_frame)) c'"
  using ping_received received_frame_checked by blast

section \<open>Updates streamed in parts\<close>

lemma update_frame_ok:
  assumes "ample rt" "validate_update_parts rt region (len content) = Inr ()" "valid_str region" "valid_str content"
    and "parts_body_len region (len content) = Inr n"
  shows "frame_ok rt ServerPeer \<lparr>msg_type = Update, flags = update_to_bits fl,
      body = utf8 (lit ''UPDATE '' @ region @ [10, 10] @ content)\<rparr> False \<and> n = 9 + len region + len content"
proof -
  let ?m = "\<lparr>upd_region = region, upd_content = content, upd_flags = fl\<rparr>"
  let ?t = "update_text ?m"
  have t: "lit ''UPDATE '' @ region @ [10, 10] @ content = ?t"
    by (simp add: update_text_def)
  have v: "value_ok region" "len ?t \<le> MAX_LIVE_UPDATE_SIZE" and n: "n = 9 + len region + len content"
    using assms(2,5)
    by (auto simp: validate_update_parts_def validate_primary_value_def parts_body_len_def result_simps
        checked_add_def enforce_message_limit_def value_ok_def clean_def len_update_text split: if_splits)
  have u: "valid_str ?t"
    using assms(3,4) by (simp add: update_text_def lit_def is_scalar_def)
  have "Update_parse rt ?t = Inr (?m\<lparr>upd_flags := \<lparr>delta_flag = False\<rparr>\<rparr>)"
    using update_parse_text [of rt ?m] assms(1) v by simp
  then have "update_validate_serialized rt ?t = Inr ()"
    by (auto simp: Update_parse_def result_simps)
  then have "validate_frame_body rt Update (utf8 ?t) fb = Inr False" for fb
    using u v(2) by (simp add: validate_frame_body_def is_control_message_def enforce_message_limit_def)
  moreover have "unat (of_nat (len ?t) :: u32) = len ?t"
    using v(2) by (intro unat_of_nat_u32) (simp add: limit_defs u32_max_def)
  moreover have "update_to_bits fl AND NOT 1 = 0"
    by (simp add: update_to_bits_def)
  ultimately show ?thesis
    using v(2) unfolding t
    by (simp add: frame_ok_def validate_inbound_body_len_def inbound_body_limit_def n
        validate_inbound_flags_def limit_defs)
qed

lemma write_twice:
  "bind_action (on_stream (write_all a)) (\<lambda>_. on_stream (write_all b)) c = (Inr (), c') \<longleftrightarrow>
   on_stream (write_all (a @ b)) c = (Inr (), c')"
  by (auto simp: bind_Inr write_stream_Inr)

lemma write_then:
  "bind_action (on_stream (write_all a)) (\<lambda>_. k) c = (Inr (), c') \<Longrightarrow>
   (\<And>d. k d = (Inr (), c') \<Longrightarrow> on_stream (write_all b) d = (Inr (), c')) \<Longrightarrow>
   on_stream (write_all (a @ b)) c = (Inr (), c')"
  unfolding write_twice [symmetric] by (auto simp: bind_Inr)

definition update_frame :: "ustr \<Rightarrow> ustr \<Rightarrow> bool \<Rightarrow> RawFrame" where
  "update_frame region content delta =
     \<lparr>msg_type = Update, flags = update_to_bits \<lparr>delta_flag = delta\<rparr>,
      body = utf8 (lit ''UPDATE '' @ region @ [10, 10] @ content)\<rparr>"

lemma frame_header_bytes:
  "header_bytes (frame_header f) = to_be_bytes (of_nat (HEADER_SIZE + length (body f))) @ [to_u8 (msg_type f), flags f]"
  by (simp add: frame_header_def to_be_bytes_def Let_def)

lemma update_frame_bytes:
  assumes "n = 9 + len region + len content"
  shows "frame_bytes (update_frame region content delta) =
    (to_be_bytes (of_nat HEADER_SIZE + of_nat n) @ [to_u8 Update, update_to_bits \<lparr>delta_flag = delta\<rparr>] @ utf8 (lit ''UPDATE ''))
    @ utf8 region @ [10, 10] @ utf8 content"
proof -
  have "length (body (update_frame region content delta)) = n"
    using assms by (simp add: update_frame_def len_update_prefix len_utf8_def)
  moreover have "utf8 (10 # 10 # content) = 10 # 10 # utf8 content"
    by (simp add: utf8_byte_Cons)
  ultimately show ?thesis
    by (simp add: frame_bytes_def frame_header_bytes) (simp add: update_frame_def)
qed

lemma update_parts_written:
  assumes "server_try_send_update_parts rt region content delta c = (Inr (), c')"
  shows "\<exists>n p. parts_body_len region (len content) = Inr n \<and> validate_update_parts rt region (len content) = Inr ()
    \<and> validate_capability rt (negotiated c) Update (update_to_bits \<lparr>delta_flag = delta\<rparr>) False = Inr ()
    \<and> next_phase (endpoint (cstate c)) (phase (cstate c)) Send Update = Some p
    \<and> length (frame_bytes (update_frame region content delta)) \<le> tx_room (transport c)
    \<and> c' = sent (frame_bytes (update_frame region content delta)) p c"
proof -
  let ?f = "update_frame region content delta"
  obtain n p where
    n: "parts_body_len region (len content) = Inr n" "validate_update_parts rt region (len content) = Inr ()"
    and cap: "validate_capability rt (negotiated c) Update (update_to_bits \<lparr>delta_flag = delta\<rparr>) False = Inr ()"
    and ph: "next_phase (endpoint (cstate c)) (phase (cstate c)) Send Update = Some p"
    and w: "bind_action (on_stream (write_all (to_be_bytes (of_nat HEADER_SIZE + of_nat n) @
          [to_u8 Update, update_to_bits \<lparr>delta_flag = delta\<rparr>] @ utf8 (lit ''UPDATE '')))) (\<lambda>_.
        bind_action (on_stream (write_all (utf8 region))) (\<lambda>_.
        bind_action (on_stream (write_all [10, 10])) (\<lambda>_.
        on_stream (write_all (utf8 content)))))
      (c\<lparr>cstate := (cstate c)\<lparr>phase := p\<rparr>\<rparr>) = (Inr (), c')"
    using assms unfolding server_try_send_update_parts_def Let_def bind_lift bind_check server_checks
    by (fastforce simp: bind_Inr [of "apply_state rt Send Update"] apply_state_Inr bind_lift ok_or_eq_Inr
        u32_try_from_Some checked_add_u32_def split: if_splits)
  have "n = 9 + len region + len content"
    using n(1) by (auto simp: parts_body_len_def result_simps checked_add_def split: if_splits)
  then have "on_stream (write_all (frame_bytes ?f)) (c\<lparr>cstate := (cstate c)\<lparr>phase := p\<rparr>\<rparr>) = (Inr (), c')"
    unfolding update_frame_bytes [OF \<open>n = 9 + len region + len content\<close>]
    using w by (intro write_then [OF w]) (erule write_then, simp only: write_twice)
  then have "length (frame_bytes ?f) \<le> tx_room (transport c) \<and> c' = sent (frame_bytes ?f) p c"
    by (simp add: write_stream_Inr sent_def)
  with n cap ph show ?thesis by blast
qed

lemma update_parts_sent:
  assumes "ample rt" "valid_str region" "valid_str content"
    and "server_try_send_update_parts rt region content delta c = (Inr (), c')"
  shows "server_try_send_frame rt (update_frame region content delta) c = (Inr (), c')"
proof -
  let ?f = "update_frame region content delta"
  obtain n p where
    n: "parts_body_len region (len content) = Inr n" "validate_update_parts rt region (len content) = Inr ()"
    and sent: "validate_capability rt (negotiated c) Update (update_to_bits \<lparr>delta_flag = delta\<rparr>) False = Inr ()"
      "next_phase (endpoint (cstate c)) (phase (cstate c)) Send Update = Some p"
      "length (frame_bytes ?f) \<le> tx_room (transport c)" "c' = sent (frame_bytes ?f) p c"
    using update_parts_written [OF assms(4)] by blast
  note ok = update_frame_ok [OF assms(1) n(2) assms(2,3) n(1), where fl = "\<lparr>delta_flag = delta\<rparr>"]
  have "try_reserve rt (length (frame_bytes ?f))"
    using ok by (intro ample_try_reserve [OF assms(1)])
      (simp add: frame_ok_def update_frame_def frame_bytes_def limit_defs isize_max_def)
  then show ?thesis
    using ok sent unfolding server_via welcome_hook.send_success
    by (intro exI [of _ False] exI [of _ c] exI [of _ p]) (simp add: update_frame_def hooked_def)
qed

text \<open>
  C22: streaming an UPDATE in parts admits nothing the ordinary path would refuse, and puts
  the same bytes on the wire: whenever \<open>send_update_parts\<close> succeeds, \<open>send_frame\<close> of the
  assembled UPDATE succeeds on the same connection and leaves it in the same state, stream
  included.
\<close>

theorem update_parts_equivalent:
  assumes "ample rt" "valid_str region" "valid_str content"
    and "server_send_update_parts rt region content delta c = (Inr (), c')"
  shows "server_send_frame rt (update_frame region content delta) c = (Inr (), c')"
  using assms update_parts_sent [OF assms(1-3)]
  by (simp add: server_send_update_parts_def server_send_frame_def guarded_Inr)

theorem update_parts_equivalent_witness:
  "\<exists>c'. server_send_update_parts roomy_runtime (lit ''r'') (lit ''x'') True (ready_server []) = (Inr (), c')
    \<and> server_send_frame roomy_runtime (update_frame (lit ''r'') (lit ''x'') True) (ready_server []) = (Inr (), c')"
proof -
  let ?u = "server_send_update_parts roomy_runtime (lit ''r'') (lit ''x'') True (ready_server [])"
  have n: "parts_body_len (lit ''r'') (len (lit ''x'')) = Inr 11"
    "validate_update_parts roomy_runtime (lit ''r'') (len (lit ''x'')) = Inr ()"
    by (simp_all add: parts_body_len_def validate_update_parts_def validate_primary_value_def lit_def len_utf8_def
        checked_add_def usize_max_def is_control_def enforce_message_limit_def limit_defs)
  have c: "srv_validate_capability rt (Some \<lparr>np_version = v, np_capabilities = 15\<rparr>) Update fl False = Inr ()" for rt v fl
    by (simp add: srv_validate_capability_def live_updates_def LIVE_UPDATES_def)
  have l: "length (utf8 (lit ''UPDATE '')) = 7" "length (utf8 (lit ''r'')) = 1" "length (utf8 (lit ''x'')) = 1"
    by (simp_all add: lit_def len_utf8_def)
  obtain c' where "?u = (Inr (), c')"
    by (simp add: server_send_update_parts_def server_try_send_update_parts_def guarded_def n bind_action_def
        ready_server_def handshake_plain_def new_connection_def quiet_stream_def u32_try_from_def u32_max_def
        srv_validate_inbound_body_len_def srv_inbound_body_limit_def limit_defs srv_validate_inbound_flags_def
        update_to_bits_def c apply_state_def apply_msg_def next_phase_def checked_add_u32_def on_stream_def
        write_all_def to_be_bytes_def l Let_def del: length_utf8)
  then show ?thesis
    using update_parts_equivalent [of roomy_runtime "lit ''r''" "lit ''x''" True "ready_server []" c']
    by (simp add: lit_def is_scalar_def)
qed

section \<open>Capabilities\<close>

lemma bind_lift_fails:
  "(\<And>x. r = Inr x \<Longrightarrow> \<exists>e. f x c = (Inl e, c)) \<Longrightarrow> \<exists>e. bind_action (lift r) f c = (Inl e, c)"
  by (cases r) auto

text \<open>
  Before negotiation nothing but HELLO and WELCOME passes. In particular a server that
  has read a HELLO cannot send the ERROR its state machine allows at that point: every ERROR
  frame is refused before anything is written, and the connection is poisoned.
\<close>

theorem no_error_before_negotiation:
  assumes "negotiated c = None" "\<not> poisoned c" "msg_type f = ErrorMsg"
  shows "\<exists>e. server_send_frame rt f c = (Inl e, c\<lparr>poisoned := True\<rparr>)"
proof -
  have "\<exists>e. server_try_send_frame rt f c = (Inl e, c)"
    unfolding server_try_send_frame_def
    by (intro bind_lift_fails) (simp add: assms bind_action_def srv_validate_capability_def)
  then show ?thesis
    using assms(2) by (auto simp: server_send_frame_def guarded_def)
qed

theorem no_error_before_negotiation_witness:
  "\<exists>e. server_send_frame roomy_runtime \<lparr>msg_type = ErrorMsg, flags = 0, body = utf8 (lit ''ERROR 505'' @ [10])\<rparr>
      ((handshake_plain (quiet_stream []))\<lparr>cstate := \<lparr>endpoint = Server, phase = HandshakeReply\<rparr>\<rparr>) =
    (Inl e, (handshake_plain (quiet_stream []))\<lparr>cstate := \<lparr>endpoint = Server, phase = HandshakeReply\<rparr>, poisoned := True\<rparr>)
    \<and> next_phase Server HandshakeReply Send ErrorMsg = Some Closed"
  using no_error_before_negotiation [of
      "(handshake_plain (quiet_stream []))\<lparr>cstate := \<lparr>endpoint = Server, phase = HandshakeReply\<rparr>\<rparr>"
      "\<lparr>msg_type = ErrorMsg, flags = 0, body = utf8 (lit ''ERROR 505'' @ [10])\<rparr>" roomy_runtime]
  by (auto simp: handshake_plain_def new_connection_def next_phase_def)

end
