(* ===== verification/Frame_Bodies.thy ===== *)
theory Frame_Bodies
  imports Page_Codec
begin

text \<open>
  What the serializers write passes the check every transport makes of a frame body: the
  lines are terminated, hold no stray control characters, and the validators accept them.
\<close>

section \<open>Terminated lines\<close>

definition framed :: "ustr \<Rightarrow> bool" where
  "framed s \<longleftrightarrow> s \<noteq> [] \<and> last s = LF \<and> (\<forall>c \<in> set s. c = LF \<or> \<not> is_control c)"

definition framed_tail :: "ustr \<Rightarrow> bool" where
  "framed_tail s \<longleftrightarrow> s = [] \<or> framed s"

lemma framed_append [intro]: "framed s \<Longrightarrow> framed_tail t \<Longrightarrow> framed (s @ t)"
  by (auto simp: framed_def framed_tail_def)

lemma framed_tail_append [intro]: "framed_tail s \<Longrightarrow> framed_tail t \<Longrightarrow> framed_tail (s @ t)"
  by (auto simp: framed_tail_def framed_def)

lemma framed_line [intro]: "clean l \<Longrightarrow> framed (l @ [LF])"
  by (auto simp: framed_def clean_def list_ex_iff)

lemma framed_tail_Nil [intro, simp]: "framed_tail []"
  by (simp add: framed_tail_def)

lemma framed_tail_line: "clean l \<Longrightarrow> framed_tail (l @ [LF])"
  using framed_line by (simp add: framed_tail_def)

lemma framed_field: "opt_ok v \<Longrightarrow> clean p \<Longrightarrow> framed_tail (put_field p v)"
  using framed_tail_line [of "p @ x" for x] by (cases v) (auto simp: put_field_def value_ok_def)

lemma framed_capabilities:
  assumes "validate_capabilities cs = Inr ()"
  shows "framed_tail (put_capabilities cs)"
proof (cases "cs = []")
  case False
  then have "clean (lit ''Capabilities: '' @ join_char 44 cs)"
    using join_capabilities(1) [OF assms False] by (simp add: value_ok_def clean_lit)
  then show ?thesis
    using framed_tail_line [of "lit ''Capabilities: '' @ join_char 44 cs"] False by (simp add: put_capabilities_def)
qed (simp add: put_capabilities_def)

lemma framing_ok: "framed s \<Longrightarrow> validate_control_framing rt t s = Inr ()"
proof -
  assume f: "framed s"
  then have "find_char (\<lambda>ch. ch \<noteq> LF \<and> is_ascii_control ch) s = None"
    by (auto simp: find_char_None framed_def list_all_iff is_control_def is_ascii_control_def)
  with f show ?thesis
    by (auto simp: validate_control_framing_def framed_def ends_with_char_def)
qed

section \<open>Control bodies\<close>

fun control_text :: "ControlMessage \<Rightarrow> ustr" where
  "control_text (HelloMsg m) = hello_text m"
| "control_text (WelcomeMsg m) = welcome_text m"
| "control_text (GetMsg m) = get_text m"
| "control_text (InputMsg m) = input_text m"
| "control_text (SubscribeMsg m) = subscribe_text m"
| "control_text (RedirectMsg m) = redirect_text m"
| "control_text (ErrMsg m) = error_text m"

fun control_session :: "ControlMessage \<Rightarrow> bool" where
  "control_session (GetMsg m) = carries (get_session m)"
| "control_session (InputMsg m) = carries (input_session m)"
| "control_session (SubscribeMsg m) = carries (sub_session m)"
| "control_session _ = False"

text \<open>The target of a REDIRECT has to be a URI for the frame to pass.\<close>

fun redirects_to_uri :: "runtime \<Rightarrow> ControlMessage \<Rightarrow> bool" where
  "redirects_to_uri rt (RedirectMsg m) = is_ok (AtpUri_parse rt (redirect_target m))"
| "redirects_to_uri rt _ = True"

lemma control_written:
  "control_wf c \<Longrightarrow> control_serialize rt c = Inr s \<Longrightarrow> s = control_text c"
  using hello_codec.writes_text welcome_codec.writes_text get_codec.writes_text input_codec.writes_text
    subscribe_codec.writes_text redirect_codec.writes_text err_codec.writes_text
  by (cases c) auto

lemma framed_lines:
  "clean l \<Longrightarrow> framed_tail t \<Longrightarrow> framed (l @ LF # t)"
  using framed_append [OF framed_line, of l t] by simp

lemma control_framed:
  assumes "control_wf c"
  shows "framed (control_text c)"
proof (cases c)
  case (HelloMsg m)
  then show ?thesis
    using assms framed_lines [of "lit ''HELLO/'' @ hello_version m"]
    by (simp add: hello_wf_def hello_text_def clean_lit framed_tail_append framed_field framed_capabilities)
next
  case (WelcomeMsg m)
  then show ?thesis
    using assms framed_lines [of "lit ''WELCOME/'' @ welcome_version m"]
    by (simp add: welcome_wf_def welcome_text_def clean_lit framed_tail_append framed_field framed_capabilities)
next
  case (GetMsg m)
  then show ?thesis
    using assms framed_lines [of "lit ''GET '' @ get_path m"]
    by (simp add: get_wf_def get_text_def value_ok_def clean_lit framed_tail_append framed_field)
next
  case (InputMsg m)
  then show ?thesis
    using assms framed_lines [of "lit ''INPUT '' @ input_path m"] framed_tail_line [of "lit ''Form: '' @ input_form_data m"]
    by (simp add: input_wf_def input_text_def value_ok_def clean_lit framed_tail_append framed_field)
next
  case (SubscribeMsg m)
  then show ?thesis
    using assms framed_lines [of "lit ''SUBSCRIBE '' @ sub_path m"] framed_tail_line [of "lit ''Region: '' @ sub_region m"]
      framed_tail_line [of "lit ''Mode: delta''"]
    by (simp add: subscribe_wf_def subscribe_text_def value_ok_def clean_lit framed_tail_append framed_field)
next
  case (RedirectMsg m)
  then show ?thesis
    using assms framed_line [of "lit ''REDIRECT '' @ show_nat (unat (redirect_code m)) @ lit '' '' @ redirect_target m"]
    by (simp add: redirect_wf_def redirect_text_def value_ok_def clean_lit)
next
  case (ErrMsg m)
  then show ?thesis
    using assms framed_lines [of "lit ''ERROR '' @ show_nat (unat (error_code m))"]
    by (simp add: error_wf_def error_text_def clean_lit framed_field)
qed

lemma control_body_accepted:
  assumes "ample rt" "control_wf c" "control_serialize rt c = Inr s" "valid_str s" "redirects_to_uri rt c"
  shows "validate_frame_body rt (control_type c) (utf8 s) fl = Inr (control_session c)"
proof -
  have "validate_control_framing rt (control_type c) s = Inr ()"
    using framing_ok [OF control_framed [OF assms(2)]] control_written [OF assms(2,3)] by simp
  then show ?thesis
    using assms hello_codec.roundtrip [OF assms(1)] welcome_codec.roundtrip [OF assms(1)] get_codec.roundtrip [OF assms(1)]
      input_codec.roundtrip [OF assms(1)] subscribe_codec.roundtrip [OF assms(1)] redirect_codec.roundtrip [OF assms(1)]
      err_codec.roundtrip [OF assms(1)]
    by (cases c) (auto simp: validate_frame_body_def is_control_message_def validate_hello_agrees validate_welcome_agrees
        validate_get_agrees validate_input_agrees validate_subscribe_agrees validate_error_agrees is_ok_iff
        validate_redirect_agrees [OF assms(1), of s, THEN iffD2])
qed

text \<open>
  What a serializer writes, every transport accepts: the body of a well-formed control
  message passes the frame check of its type, which reports a session exactly when the message
  carries one. A REDIRECT has to name an ATP URI.
\<close>

theorem control_frame_accepted:
  assumes "ample rt" "control_wf c" "control_serialize rt c = Inr s" "valid_str s" "redirects_to_uri rt c"
  shows "validate_frame_body rt (control_type c) (utf8 s) fl = Inr (control_session c)"
  by (rule control_body_accepted [OF assms])

theorem control_frame_accepted_witness:
  "\<exists>s. control_serialize roomy_runtime sample_get = Inr s
    \<and> validate_frame_body roomy_runtime Get (utf8 s) 0 = Inr False"
proof -
  have w: "control_wf sample_get" "redirects_to_uri roomy_runtime sample_get"
    by (simp_all add: sample_get_def get_wf_def value_ok_def clean_lit)
  obtain s where s: "control_serialize roomy_runtime sample_get = Inr s"
    by (simp add: sample_get_def Get_serialize_eq emitted_def get_text_def put_field_def lit_def
        len_utf8_def usize_max_def isize_max_def limit_defs try_reserve_def)
  have "valid_str s"
    using control_written [OF w(1) s] by (simp add: sample_get_def get_text_def put_field_def lit_def is_scalar_def)
  from control_frame_accepted [OF ample_roomy w(1) s this w(2), where fl = 0] s show ?thesis
    by (simp add: sample_get_def carries_def)
qed

end
