(* ===== verification/Wire_System.thy ===== *)
theory Wire_System
  imports Transport_Laws Frame_Bodies
begin

text \<open>
  The two connections joined: what one end writes is what the other end reads. The bytes in
  flight, the negotiation and the state machines of both crates are composed here, and the
  composition is shown to refine the system of message types of \<open>Conn_System\<close>.
\<close>

section \<open>What one operation does\<close>

definition offers :: "Connection \<Rightarrow> ProtocolVersion option \<times> ustr list" where
  "offers c = (offered_version c, offered_capabilities c)"

definition passes :: "runtime \<Rightarrow> InboundPeer \<Rightarrow> NegotiatedProtocol option \<Rightarrow> RawFrame \<Rightarrow> bool" where
  "passes rt peer neg f \<longleftrightarrow> (\<exists>session. frame_ok rt peer f session
     \<and> validate_capability rt neg (msg_type f) (flags f) session = Inr ())"

lemma passes_negotiated: "passes rt peer neg f \<Longrightarrow> msg_type f \<notin> {Hello, Welcome} \<Longrightarrow> neg \<noteq> None"
  by (cases neg) (auto simp: passes_def validate_capability_def)

definition hello_means :: "runtime \<Rightarrow> RawFrame \<Rightarrow> ProtocolVersion option \<times> ustr list \<Rightarrow> bool" where
  "hello_means rt f os \<longleftrightarrow>
     (\<forall>d. \<exists>d1. record_hello rt (body f) d = (Inr (), d1) \<and> same_link d d1 \<and> offers d1 = os \<and> negotiated d1 = negotiated d)"

definition welcome_means ::
  "runtime \<Rightarrow> RawFrame \<Rightarrow> ProtocolVersion option \<times> ustr list \<Rightarrow> NegotiatedProtocol option \<Rightarrow> bool" where
  "welcome_means rt f os n \<longleftrightarrow> n \<noteq> None \<and>
     (\<forall>d. offers d = os \<longrightarrow>
       (\<exists>d1. accept_welcome rt (body f) d = (Inr (), d1) \<and> same_link d d1 \<and> offers d1 = os \<and> negotiated d1 = n))"

lemma record_hello_means:
  "record_hello rt (body f) c = (Inr (), c1) \<Longrightarrow> hello_means rt f (offers c1)"
  by (auto simp: record_hello_Inr hello_means_def offers_def same_link_def)

lemma accept_welcome_means:
  "accept_welcome rt (body f) c = (Inr (), c1) \<Longrightarrow> offers c1 = offers c \<and> welcome_means rt f (offers c) (negotiated c1)"
  by (fastforce simp: accept_welcome_Inr welcome_means_def offers_def same_link_def)

definition moved :: "Direction \<Rightarrow> MessageType \<Rightarrow> Connection \<Rightarrow> Connection \<Rightarrow> bool" where
  "moved d t c c' \<longleftrightarrow> \<not> poisoned c \<and> \<not> poisoned c' \<and> endpoint (cstate c') = endpoint (cstate c)
     \<and> next_phase (endpoint (cstate c)) (phase (cstate c)) d t = Some (phase (cstate c'))"

lemma moved_apply: "moved d t c c' \<Longrightarrow> apply_msg rt (cstate c) d t = Inr (cstate c')"
  by (cases "cstate c"; cases "cstate c'") (simp add: moved_def apply_msg_def)

definition wrote :: "byte list \<Rightarrow> Connection \<Rightarrow> Connection \<Rightarrow> bool" where
  "wrote bs c c' \<longleftrightarrow> tx (transport c') = tx (transport c) @ bs \<and> rx (transport c') = rx (transport c)"

lemma client_sends:
  assumes "client_send_frame rt f c = (Inr (), c')"
  shows "moved Send (msg_type f) c c'" "wrote (frame_bytes f) c c'" "passes rt ClientPeer (negotiated c') f"
    "negotiated c' = negotiated c" "msg_type f = Hello \<Longrightarrow> hello_means rt f (offers c')"
    "msg_type f \<noteq> Hello \<Longrightarrow> offers c' = offers c"
proof -
  obtain session c1 p where s: "frame_ok rt ClientPeer f session"
    "hooked (msg_type f = Hello) (record_hello rt (body f)) c c1" "\<not> poisoned c"
    "validate_capability rt (negotiated c1) (msg_type f) (flags f) session = Inr ()"
    "next_phase (endpoint (cstate c)) (phase (cstate c)) Send (msg_type f) = Some p"
    "c' = sent (frame_bytes f) p c1"
    using assms by (auto simp: client_send_frame_def guarded_Inr client_via hello_hook.send_success)
  have l: "same_link c c1"
    using hello_hook.hooked_link [OF s(2)] .
  have n: "negotiated c1 = negotiated c"
    using s(2) by (auto simp: hooked_def record_hello_Inr split: if_splits)
  show "moved Send (msg_type f) c c'" "wrote (frame_bytes f) c c'"
    using l s by (simp_all add: moved_def wrote_def sent_def same_link_def)
  show "passes rt ClientPeer (negotiated c') f" "negotiated c' = negotiated c"
    using s n by (auto simp: passes_def sent_def)
  show "hello_means rt f (offers c')" if "msg_type f = Hello"
    using s(2,6) record_hello_means [of rt f c c1] that by (simp add: hooked_def sent_def offers_def)
  show "offers c' = offers c" if "msg_type f \<noteq> Hello"
    using s(2,6) that by (simp add: hooked_def sent_def offers_def)
qed

lemma server_sends:
  assumes "server_send_frame rt f c = (Inr (), c')"
  shows "moved Send (msg_type f) c c'" "wrote (frame_bytes f) c c'" "passes rt ServerPeer (negotiated c') f"
    "offers c' = offers c" "msg_type f = Welcome \<Longrightarrow> welcome_means rt f (offers c) (negotiated c')"
    "msg_type f \<noteq> Welcome \<Longrightarrow> negotiated c' = negotiated c"
proof -
  obtain session c1 p where s: "frame_ok rt ServerPeer f session"
    "hooked (msg_type f = Welcome) (accept_welcome rt (body f)) c c1" "\<not> poisoned c"
    "validate_capability rt (negotiated c1) (msg_type f) (flags f) session = Inr ()"
    "next_phase (endpoint (cstate c)) (phase (cstate c)) Send (msg_type f) = Some p"
    "c' = sent (frame_bytes f) p c1"
    using assms by (auto simp: server_send_frame_def guarded_Inr server_via welcome_hook.send_success)
  have l: "same_link c c1"
    using welcome_hook.hooked_link [OF s(2)] .
  have o: "offers c1 = offers c"
    using s(2) accept_welcome_means [of rt f c c1] by (auto simp: hooked_def split: if_splits)
  show "moved Send (msg_type f) c c'" "wrote (frame_bytes f) c c'"
    using l s by (simp_all add: moved_def wrote_def sent_def same_link_def)
  show "passes rt ServerPeer (negotiated c') f" "offers c' = offers c"
    using s o by (auto simp: passes_def sent_def offers_def)
  show "welcome_means rt f (offers c) (negotiated c')" if "msg_type f = Welcome"
    using s(2,6) accept_welcome_means [of rt f c c1] that by (simp add: hooked_def sent_def)
  show "negotiated c' = negotiated c" if "msg_type f \<noteq> Welcome"
    using s(2,6) that by (simp add: hooked_def sent_def)
qed

definition consumed :: "RawFrame \<Rightarrow> Connection \<Rightarrow> Connection \<Rightarrow> bool" where
  "consumed f c c' \<longleftrightarrow> rx (transport c) = frame_bytes f @ rx (transport c') \<and> tx (transport c') = tx (transport c)
     \<and> tx_room (transport c') = tx_room (transport c)"

lemma server_receives:
  assumes "server_recv_frame rt c = (Inr f, c')"
  shows "moved Receive (msg_type f) c c'" "consumed f c c'" "passes rt ClientPeer (negotiated c') f"
    "negotiated c' = negotiated c"
    "msg_type f = Hello \<Longrightarrow> hello_means rt f os \<Longrightarrow> offers c' = os" "msg_type f \<noteq> Hello \<Longrightarrow> offers c' = offers c"
proof -
  obtain session rest c1 p where s: "rx (transport c) = frame_bytes f @ rest" "frame_ok rt ClientPeer f session"
    "hooked (msg_type f = Hello) (record_hello rt (body f)) (rest_rx rest c) c1" "\<not> poisoned c"
    "validate_capability rt (negotiated c1) (msg_type f) (flags f) session = Inr ()"
    "next_phase (endpoint (cstate c1)) (phase (cstate c1)) Receive (msg_type f) = Some p"
    "c' = c1\<lparr>cstate := (cstate c1)\<lparr>phase := p\<rparr>\<rparr>"
    using assms by (auto simp: server_recv_frame_def guarded_Inr server_via recv_success)
  have l: "same_link (rest_rx rest c) c1"
    using hello_hook.hooked_link [OF s(3)] .
  have n: "negotiated c1 = negotiated c"
    using s(3) by (auto simp: hooked_def record_hello_Inr rest_rx_def split: if_splits)
  have t: "transport c1 = (transport c)\<lparr>rx := rest\<rparr>" "cstate c1 = cstate c" "poisoned c1 = poisoned c"
    using l by (simp_all add: same_link_def rest_rx_def)
  show "moved Receive (msg_type f) c c'" "consumed f c c'"
    using s t by (simp_all add: moved_def consumed_def)
  show "passes rt ClientPeer (negotiated c') f" "negotiated c' = negotiated c"
    using s n by (auto simp: passes_def)
  show "offers c' = os" if "msg_type f = Hello" "hello_means rt f os"
    using s(3,7) that(1) that(2) [unfolded hello_means_def, rule_format, of "rest_rx rest c"]
    by (auto simp: hooked_def offers_def)
  show "offers c' = offers c" if "msg_type f \<noteq> Hello"
    using s(3,7) that by (simp add: hooked_def offers_def rest_rx_def)
qed

lemma client_receives:
  assumes "client_recv_frame rt c = (Inr f, c')"
  shows "moved Receive (msg_type f) c c'" "consumed f c c'" "passes rt ServerPeer (negotiated c') f"
    "offers c' = offers c"
    "msg_type f = Welcome \<Longrightarrow> welcome_means rt f (offers c) n \<Longrightarrow> negotiated c' = n"
    "msg_type f \<noteq> Welcome \<Longrightarrow> negotiated c' = negotiated c"
proof -
  obtain session rest c1 p where s: "rx (transport c) = frame_bytes f @ rest" "frame_ok rt ServerPeer f session"
    "hooked (msg_type f = Welcome) (accept_welcome rt (body f)) (rest_rx rest c) c1" "\<not> poisoned c"
    "validate_capability rt (negotiated c1) (msg_type f) (flags f) session = Inr ()"
    "next_phase (endpoint (cstate c1)) (phase (cstate c1)) Receive (msg_type f) = Some p"
    "c' = c1\<lparr>cstate := (cstate c1)\<lparr>phase := p\<rparr>\<rparr>"
    using assms by (auto simp: client_recv_frame_def guarded_Inr client_via recv_success)
  have l: "same_link (rest_rx rest c) c1"
    using welcome_hook.hooked_link [OF s(3)] .
  have r: "offers (rest_rx rest c) = offers c" "negotiated (rest_rx rest c) = negotiated c"
    by (simp_all add: offers_def rest_rx_def)
  have o: "offers c1 = offers c"
    using s(3) accept_welcome_means [of rt f "rest_rx rest c" c1] r by (auto simp: hooked_def split: if_splits)
  have t: "transport c1 = (transport c)\<lparr>rx := rest\<rparr>" "cstate c1 = cstate c" "poisoned c1 = poisoned c"
    using l by (simp_all add: same_link_def rest_rx_def)
  show "moved Receive (msg_type f) c c'" "consumed f c c'"
    using s t by (simp_all add: moved_def consumed_def)
  show "passes rt ServerPeer (negotiated c') f" "offers c' = offers c"
    using s o by (auto simp: passes_def offers_def)
  show "negotiated c' = n" if "msg_type f = Welcome" "welcome_means rt f (offers c) n"
    using s(3,7) that r by (fastforce simp: hooked_def welcome_means_def)
  show "negotiated c' = negotiated c" if "msg_type f \<noteq> Welcome"
    using s(3,7) that r by (simp add: hooked_def)
qed

section \<open>The joined system\<close>

record wire =
  cl :: AtpConnection
  sv :: AtpServerStream
  cl_sent :: "RawFrame list"
  sv_got :: "RawFrame list"
  sv_sent :: "RawFrame list"
  cl_got :: "RawFrame list"

definition wire_start :: "stream \<Rightarrow> stream \<Rightarrow> wire" where
  "wire_start s1 s2 = \<lparr>cl = connect_plain (s1\<lparr>rx := []\<rparr>), sv = handshake_plain (s2\<lparr>rx := []\<rparr>),
     cl_sent = [], sv_got = [], sv_sent = [], cl_got = []\<rparr>"

text \<open>The bytes an operation wrote reach the other end's stream.\<close>

definition new_bytes :: "Connection \<Rightarrow> Connection \<Rightarrow> byte list" where
  "new_bytes c c' = drop (length (tx (transport c))) (tx (transport c'))"

definition deliver :: "byte list \<Rightarrow> Connection \<Rightarrow> Connection" where
  "deliver bs c = c\<lparr>transport := (transport c)\<lparr>rx := rx (transport c) @ bs\<rparr>\<rparr>"

inductive wire_step :: "runtime \<Rightarrow> wire \<Rightarrow> wire \<Rightarrow> bool" for rt where
  cl_sends: "client_send_frame rt f (cl w) = (Inr (), c) \<Longrightarrow>
     wire_step rt w (w\<lparr>cl := c, sv := deliver (new_bytes (cl w) c) (sv w), cl_sent := cl_sent w @ [f]\<rparr>)"
| sv_sends: "server_send_frame rt f (sv w) = (Inr (), s) \<Longrightarrow>
     wire_step rt w (w\<lparr>sv := s, cl := deliver (new_bytes (sv w) s) (cl w), sv_sent := sv_sent w @ [f]\<rparr>)"
| sv_streams: "server_send_update_parts rt region content delta (sv w) = (Inr (), s) \<Longrightarrow>
     valid_str region \<Longrightarrow> valid_str content \<Longrightarrow>
     wire_step rt w (w\<lparr>sv := s, cl := deliver (new_bytes (sv w) s) (cl w),
       sv_sent := sv_sent w @ [update_frame region content delta]\<rparr>)"
| sv_receives: "server_recv_frame rt (sv w) = (Inr f, s) \<Longrightarrow>
     wire_step rt w (w\<lparr>sv := s, sv_got := sv_got w @ [f]\<rparr>)"
| cl_receives: "client_recv_frame rt (cl w) = (Inr f, c) \<Longrightarrow>
     wire_step rt w (w\<lparr>cl := c, cl_got := cl_got w @ [f]\<rparr>)"

inductive wire_reachable :: "runtime \<Rightarrow> wire \<Rightarrow> bool" for rt where
  start: "wire_reachable rt (wire_start s1 s2)"
| step: "wire_reachable rt w \<Longrightarrow> wire_step rt w w' \<Longrightarrow> wire_reachable rt w'"

section \<open>The invariant\<close>

abbreviation cl_phase :: "wire \<Rightarrow> Phase" where "cl_phase w \<equiv> phase (cstate (cl w))"
abbreviation sv_phase :: "wire \<Rightarrow> Phase" where "sv_phase w \<equiv> phase (cstate (sv w))"

text \<open>The frames in flight are what the streams hold, and the messages of the abstract system.\<close>

definition in_flight :: "wire \<Rightarrow> RawFrame list \<Rightarrow> RawFrame list \<Rightarrow> bool" where
  "in_flight w FL FR \<longleftrightarrow> cl_sent w = sv_got w @ FL \<and> sv_sent w = cl_got w @ FR
     \<and> rx (transport (sv w)) = concat (map frame_bytes FL) \<and> rx (transport (cl w)) = concat (map frame_bytes FR)"

definition abs_system :: "wire \<Rightarrow> RawFrame list \<Rightarrow> RawFrame list \<Rightarrow> system" where
  "abs_system w FL FR = \<lparr>cli = cstate (cl w), srv = cstate (sv w), c2s = map msg_type FL, s2c = map msg_type FR\<rparr>"

abbreviation early :: "Phase set" where "early \<equiv> {Handshake, HandshakeReply}"

text \<open>What the two ends know of each other, in each phase.\<close>

definition views :: "runtime \<Rightarrow> wire \<Rightarrow> RawFrame list \<Rightarrow> RawFrame list \<Rightarrow> bool" where
  "views rt w FL FR \<longleftrightarrow>
     (if sv_phase w = Handshake then (\<forall>f \<in> set FL. hello_means rt f (offers (cl w)))
      else offers (sv w) = offers (cl w))
     \<and> (sv_phase w \<in> early \<longleftrightarrow> negotiated (sv w) = None)
     \<and> (cl_phase w \<in> early \<longrightarrow> negotiated (cl w) = None)
     \<and> (cl_phase w \<notin> early \<longrightarrow> negotiated (cl w) = negotiated (sv w) \<and> sv_phase w \<notin> early)
     \<and> (cl_phase w = HandshakeReply \<and> sv_phase w \<notin> early \<longrightarrow>
          (\<exists>f R. FR = f # R \<and> msg_type f = Welcome \<and> welcome_means rt f (offers (cl w)) (negotiated (sv w))))"

definition wire_inv :: "runtime \<Rightarrow> wire \<Rightarrow> RawFrame list \<Rightarrow> RawFrame list \<Rightarrow> bool" where
  "wire_inv rt w FL FR \<longleftrightarrow> in_flight w FL FR \<and> sys_reachable rt (abs_system w FL FR)
     \<and> \<not> poisoned (cl w) \<and> \<not> poisoned (sv w)
     \<and> (\<forall>f \<in> set FL. passes rt ClientPeer (negotiated (cl w)) f)
     \<and> (\<forall>f \<in> set FR. passes rt ServerPeer (negotiated (sv w)) f)
     \<and> views rt w FL FR"

lemma wire_inv_start: "wire_inv rt (wire_start s1 s2) [] []"
proof -
  have "abs_system (wire_start s1 s2) [] [] = init_system"
    by (simp add: abs_system_def wire_start_def init_system_def connect_plain_def handshake_plain_def new_connection_def)
  then show ?thesis
    using sys_reachable.start
    by (simp add: wire_inv_def in_flight_def views_def wire_start_def connect_plain_def handshake_plain_def
        new_connection_def new_machine_def)
qed

lemma wire_phases:
  assumes "wire_inv rt w FL FR"
  shows "inv_phases (cl_phase w) (sv_phase w) (map msg_type FL) (map msg_type FR)"
    "endpoint (cstate (cl w)) = Client" "endpoint (cstate (sv w)) = Server"
proof -
  have "sys_inv (abs_system w FL FR)"
    using assms sys_reachable_inv by (auto simp: wire_inv_def)
  then show "inv_phases (cl_phase w) (sv_phase w) (map msg_type FL) (map msg_type FR)"
    "endpoint (cstate (cl w)) = Client" "endpoint (cstate (sv w)) = Server"
    by (simp_all add: sys_inv_def abs_system_def)
qed

lemma early_phases:
  assumes "inv_phases C S L R"
  shows "C = Handshake \<Longrightarrow> S = Handshake \<and> L = [] \<and> R = []"
    "S = Handshake \<Longrightarrow> C \<in> early \<and> (\<forall>m \<in> set L. m = Hello) \<and> R = []"
    "S = HandshakeReply \<Longrightarrow> C = HandshakeReply \<and> L = [] \<and> R = []"
    "C = HandshakeReply \<Longrightarrow> S \<notin> early \<Longrightarrow> L = []"
  using assms by (auto elim: inv_phases.cases)

lemma deliver_simps [simp]:
  "rx (transport (deliver bs c)) = rx (transport c) @ bs" "tx (transport (deliver bs c)) = tx (transport c)"
  "cstate (deliver bs c) = cstate c" "offers (deliver bs c) = offers c"
  "negotiated (deliver bs c) = negotiated c" "poisoned (deliver bs c) = poisoned c"
  by (simp_all add: deliver_def offers_def)

lemma new_bytes_wrote: "wrote bs c c' \<Longrightarrow> new_bytes c c' = bs"
  by (simp add: wrote_def new_bytes_def)

lemma inv_client_send:
  assumes inv: "wire_inv rt w FL FR" and op: "client_send_frame rt f (cl w) = (Inr (), c)"
  shows "wire_inv rt (w\<lparr>cl := c, sv := deliver (new_bytes (cl w) c) (sv w), cl_sent := cl_sent w @ [f]\<rparr>) (FL @ [f]) FR"
    (is "wire_inv rt ?w' _ _")
proof -
  note s = client_sends [OF op] and ph = wire_phases [OF inv]
  have mv: "next_phase Client (cl_phase w) Send (msg_type f) = Some (phase (cstate c))"
    "\<not> poisoned c" "endpoint (cstate c) = Client"
    using s(1) ph(2) by (simp_all add: moved_def)
  have "sys_step rt (abs_system w FL FR) (abs_system ?w' (FL @ [f]) FR)"
    using sys_step.client_sends [of rt "abs_system w FL FR" "msg_type f" "cstate c"] moved_apply [OF s(1)]
    by (simp add: abs_system_def)
  then have sys: "sys_reachable rt (abs_system ?w' (FL @ [f]) FR)"
    using inv sys_reachable.step by (auto simp: wire_inv_def)
  have fl: "in_flight ?w' (FL @ [f]) FR"
    using inv s(2) new_bytes_wrote [OF s(2)] by (simp add: wire_inv_def in_flight_def wrote_def)
  have "views rt ?w' (FL @ [f]) FR"
  proof (cases "msg_type f = Hello")
    case True
    then have "cl_phase w = Handshake" "phase (cstate c) = HandshakeReply"
      using mv(1) by (auto simp: client_send)
    moreover from this have "sv_phase w = Handshake" "FL = []"
      using early_phases(1) [OF ph(1)] by auto
    ultimately show ?thesis
      using inv s(4,5) True by (simp add: wire_inv_def views_def)
  next
    case False
    then have "cl_phase w \<notin> early" "phase (cstate c) \<notin> early"
      using mv(1) by (auto simp: client_send)
    then show ?thesis
      using inv s(4) s(6) [OF False] by (auto simp: wire_inv_def views_def)
  qed
  then show ?thesis
    using inv sys fl mv(2) s(3,4) by (simp add: wire_inv_def)
qed

lemma inv_server_send:
  assumes inv: "wire_inv rt w FL FR" and op: "server_send_frame rt f (sv w) = (Inr (), s)"
  shows "wire_inv rt (w\<lparr>sv := s, cl := deliver (new_bytes (sv w) s) (cl w), sv_sent := sv_sent w @ [f]\<rparr>) FL (FR @ [f])"
    (is "wire_inv rt ?w' _ _")
proof -
  note o = server_sends [OF op] and ph = wire_phases [OF inv]
  have mv: "next_phase Server (sv_phase w) Send (msg_type f) = Some (phase (cstate s))"
    "\<not> poisoned s" "endpoint (cstate s) = Server"
    using o(1) ph(3) by (simp_all add: moved_def)
  have "sys_step rt (abs_system w FL FR) (abs_system ?w' FL (FR @ [f]))"
    using sys_step.server_sends [of rt "abs_system w FL FR" "msg_type f" "cstate s"] moved_apply [OF o(1)]
    by (simp add: abs_system_def)
  then have sys: "sys_reachable rt (abs_system ?w' FL (FR @ [f]))"
    using inv sys_reachable.step by (auto simp: wire_inv_def)
  have fl: "in_flight ?w' FL (FR @ [f])"
    using inv o(2) new_bytes_wrote [OF o(2)] by (simp add: wire_inv_def in_flight_def wrote_def)
  have "views rt ?w' FL (FR @ [f]) \<and> (\<forall>g \<in> set (FR @ [f]). passes rt ServerPeer (negotiated s) g)"
  proof (cases "msg_type f = Welcome")
    case True
    then have S: "sv_phase w = HandshakeReply" "phase (cstate s) = Ready"
      using mv(1) by (auto simp: transitions)
    moreover from this have "cl_phase w = HandshakeReply" "FR = []"
      using early_phases(3) [OF ph(1)] by auto
    ultimately show ?thesis
      using inv o(3,4) o(5) [OF True] True by (simp add: wire_inv_def views_def) (simp add: welcome_means_def)
  next
    case False
    have "sv_phase w \<notin> early"
    proof
      assume "sv_phase w \<in> early"
      then have "negotiated s = None"
        using inv o(6) [OF False] by (simp add: wire_inv_def views_def)
      then have "msg_type f = Hello"
        using passes_negotiated [OF o(3)] False by auto
      then show False
        using mv(1) by (cases "sv_phase w") (simp_all add: next_phase_def)
    qed
    moreover from this have "phase (cstate s) \<notin> early"
      using mv(1) by (auto simp: transitions)
    ultimately show ?thesis
      using inv o(3,4) o(6) [OF False] by (auto simp: wire_inv_def views_def)
  qed
  then show ?thesis
    using inv sys fl mv(2) by (simp add: wire_inv_def)
qed

lemma frame_bytes_prefix:
  assumes "frame_bytes f @ a = frame_bytes g @ b"
    and "HEADER_SIZE + length (body f) \<le> MAX_FRAME_SIZE" "HEADER_SIZE + length (body g) \<le> MAX_FRAME_SIZE"
  shows "f = g \<and> a = b"
proof -
  have h: "header_bytes (frame_header f) = header_bytes (frame_header g)" "body f @ a = body g @ b"
    using assms(1) by (simp_all add: frame_bytes_def append_eq_append_conv)
  have "frame_header f = frame_header g"
    using h(1) by (cases "frame_header f"; cases "frame_header g") simp
  then have "Inr (of_nat (length (body f)) :: u32, msg_type f, flags f) =
      (Inr (of_nat (length (body g)), msg_type g, flags g) :: (u32 \<times> MessageType \<times> u8) presult)"
    using decode_frame_header [OF assms(2), of roomy_runtime] decode_frame_header [OF assms(3), of roomy_runtime] by simp
  then have e: "(of_nat (length (body f)) :: u32) = of_nat (length (body g))" "msg_type f = msg_type g" "flags f = flags g"
    by simp_all
  have "unat (of_nat (length (body x)) :: u32) = length (body x)" if "HEADER_SIZE + length (body x) \<le> MAX_FRAME_SIZE" for x
    using that by (intro unat_of_nat_u32) (simp add: MAX_FRAME_SIZE_def u32_max_def)
  then have "length (body f) = length (body g)"
    using assms(2,3) e(1) by metis
  then show ?thesis
    using h(2) e by (cases f; cases g) simp
qed

text \<open>What is received is the first frame in flight.\<close>

lemma head_frame:
  assumes "rx (transport c) = concat (map frame_bytes F)" "\<forall>g \<in> set F. passes rt peer n g"
    and "consumed f c c'" "passes rt peer m f"
  shows "\<exists>F'. F = f # F' \<and> rx (transport c') = concat (map frame_bytes F')"
proof (cases F)
  case Nil
  then have "frame_bytes f = []"
    using assms(1,3) by (simp add: consumed_def)
  then have "length (frame_bytes f) = 0" by simp
  then show ?thesis
    by (simp add: frame_bytes_def HEADER_SIZE_def)
next
  case (Cons g F')
  then have "frame_bytes g @ concat (map frame_bytes F') = frame_bytes f @ rx (transport c')"
    using assms(1,3) by (simp add: consumed_def)
  then have "g = f \<and> concat (map frame_bytes F') = rx (transport c')"
    using assms(2,4) Cons by (intro frame_bytes_prefix) (auto simp: passes_def frame_ok_def)
  with Cons show ?thesis by simp
qed

lemma inv_server_recv:
  assumes inv: "wire_inv rt w FL FR" and op: "server_recv_frame rt (sv w) = (Inr f, s)"
  shows "\<exists>FL'. FL = f # FL' \<and> wire_inv rt (w\<lparr>sv := s, sv_got := sv_got w @ [f]\<rparr>) FL' FR"
    (is "\<exists>FL'. _ \<and> wire_inv rt ?w' _ _")
proof -
  note o = server_receives [OF op] and ph = wire_phases [OF inv]
  obtain FL' where FL: "FL = f # FL'" "rx (transport s) = concat (map frame_bytes FL')"
    using head_frame [OF _ _ o(2,3), of FL "negotiated (cl w)"] inv by (auto simp: wire_inv_def in_flight_def)
  have mv: "next_phase Server (sv_phase w) Receive (msg_type f) = Some (phase (cstate s))"
    "\<not> poisoned s" "endpoint (cstate s) = Server"
    using o(1) ph(3) by (simp_all add: moved_def)
  have "sys_step rt (abs_system w FL FR) (abs_system ?w' FL' FR)"
    using sys_step.server_takes [of "abs_system w FL FR" "msg_type f" "map msg_type FL'" rt "cstate s"]
      moved_apply [OF o(1)] FL(1)
    by (simp add: abs_system_def)
  then have sys: "sys_reachable rt (abs_system ?w' FL' FR)"
    using inv sys_reachable.step by (auto simp: wire_inv_def)
  have fl: "in_flight ?w' FL' FR"
    using inv FL by (simp add: wire_inv_def in_flight_def)
  have "views rt ?w' FL' FR"
  proof (cases "msg_type f = Hello")
    case True
    then have S: "sv_phase w = Handshake" "phase (cstate s) = HandshakeReply"
      using mv(1) by (auto simp: transitions)
    moreover from this have "cl_phase w \<in> early"
      using early_phases(2) [OF ph(1)] by auto
    moreover have "offers s = offers (cl w)"
      using o(5) [OF True] inv S FL(1) by (simp add: wire_inv_def views_def)
    ultimately show ?thesis
      using inv o(4) by (auto simp: wire_inv_def views_def)
  next
    case False
    then have "sv_phase w \<notin> early" "phase (cstate s) \<notin> early"
      using mv(1) by (auto simp: transitions)
    then show ?thesis
      using inv o(4) o(6) [OF False] by (simp add: wire_inv_def views_def)
  qed
  then show ?thesis
    using inv sys fl mv(2) o(4) FL(1) by (simp add: wire_inv_def)
qed

lemma inv_client_recv:
  assumes inv: "wire_inv rt w FL FR" and op: "client_recv_frame rt (cl w) = (Inr f, c)"
  shows "\<exists>FR'. FR = f # FR' \<and> wire_inv rt (w\<lparr>cl := c, cl_got := cl_got w @ [f]\<rparr>) FL FR'"
    (is "\<exists>FR'. _ \<and> wire_inv rt ?w' _ _")
proof -
  note o = client_receives [OF op] and ph = wire_phases [OF inv]
  obtain FR' where FR: "FR = f # FR'" "rx (transport c) = concat (map frame_bytes FR')"
    using head_frame [OF _ _ o(2,3), of FR "negotiated (sv w)"] inv by (auto simp: wire_inv_def in_flight_def)
  have mv: "next_phase Client (cl_phase w) Receive (msg_type f) = Some (phase (cstate c))"
    "\<not> poisoned c" "endpoint (cstate c) = Client"
    using o(1) ph(2) by (simp_all add: moved_def)
  have "sys_step rt (abs_system w FL FR) (abs_system ?w' FL FR')"
    using sys_step.client_takes [of "abs_system w FL FR" "msg_type f" "map msg_type FR'" rt "cstate c"]
      moved_apply [OF o(1)] FR(1)
    by (simp add: abs_system_def)
  then have sys: "sys_reachable rt (abs_system ?w' FL FR')"
    using inv sys_reachable.step by (auto simp: wire_inv_def)
  have fl: "in_flight ?w' FL FR'"
    using inv FR by (simp add: wire_inv_def in_flight_def)
  have "views rt ?w' FL FR' \<and> (\<forall>g \<in> set FL. passes rt ClientPeer (negotiated c) g)"
  proof (cases "msg_type f = Welcome")
    case True
    then have C: "cl_phase w = HandshakeReply" "phase (cstate c) = Ready"
      using mv(1) by (auto simp: client_receive)
    moreover have S: "sv_phase w \<notin> early"
      using early_phases(2,3) [OF ph(1)] FR(1) by auto
    moreover have "FL = []"
      using early_phases(4) [OF ph(1) C(1) S] by simp
    moreover have "negotiated c = negotiated (sv w)"
      using inv C S FR(1) o(5) [OF True] by (auto simp: wire_inv_def views_def)
    ultimately show ?thesis
      using inv o(4) by (auto simp: wire_inv_def views_def)
  next
    case False
    have "sv_phase w \<notin> early"
      using early_phases(2,3) [OF ph(1)] FR(1) by auto
    then have "cl_phase w \<noteq> HandshakeReply"
      using inv False FR(1) by (auto simp: wire_inv_def views_def)
    then have "cl_phase w \<notin> early" "phase (cstate c) \<notin> early"
      using mv(1) by (auto simp: client_receive)
    then show ?thesis
      using inv o(4) o(6) [OF False] by (auto simp: wire_inv_def views_def)
  qed
  then show ?thesis
    using inv sys fl mv(2) FR(1) by (simp add: wire_inv_def)
qed

lemma wire_step_inv:
  assumes "ample rt" "wire_inv rt w FL FR" "wire_step rt w w'"
  shows "\<exists>FL' FR'. wire_inv rt w' FL' FR'"
  using assms(3)
proof (cases rule: wire_step.cases)
  case (sv_streams region content delta s)
  then have "server_send_frame rt (update_frame region content delta) (sv w) = (Inr (), s)"
    using update_parts_sent [OF assms(1)]
    by (simp add: server_send_update_parts_def server_send_frame_def guarded_Inr)
  with sv_streams show ?thesis
    using inv_server_send [OF assms(2)] by blast
next
  case (sv_receives f s)
  then show ?thesis
    using inv_server_recv [OF assms(2) sv_receives(2)] by auto
next
  case (cl_receives f c)
  then show ?thesis
    using inv_client_recv [OF assms(2) cl_receives(2)] by auto
qed (use inv_client_send [OF assms(2)] inv_server_send [OF assms(2)] in blast)+

lemma wire_reachable_inv:
  assumes "ample rt" "wire_reachable rt w"
  shows "\<exists>FL FR. wire_inv rt w FL FR"
  using assms(2)
proof (induction rule: wire_reachable.induct)
  case (start s1 s2)
  show ?case using wire_inv_start by blast
next
  case (step w w')
  then show ?case using wire_step_inv [OF assms(1)] by blast
qed

section \<open>The next frame is received\<close>

lemma view_of_request:
  assumes "wire_inv rt w FL FR" "f \<in> set FL" "msg_type f \<noteq> Hello"
  shows "negotiated (sv w) = negotiated (cl w)"
proof -
  have "msg_type f \<noteq> Welcome"
    using assms(1,2)
    by (auto simp: wire_inv_def passes_def frame_ok_def validate_inbound_body_len_def inbound_body_limit_def)
  then have "negotiated (cl w) \<noteq> None"
    using assms passes_negotiated by (fastforce simp: wire_inv_def)
  then show ?thesis
    using assms(1) by (auto simp: wire_inv_def views_def split: if_splits)
qed

lemma server_takes_next:
  assumes "ample rt" and inv: "wire_inv rt w (f # L) FR" and alive: "sv_phase w \<noteq> Closed"
  shows "\<exists>s. server_recv_frame rt (sv w) = (Inr f, s)"
proof -
  note ph = wire_phases [OF inv]
  obtain p where p: "next_phase Server (sv_phase w) Receive (msg_type f) = Some p"
    using inv_server_accepts [of "cl_phase w" "sv_phase w" "msg_type f"] ph(1) alive by auto
  obtain session where ok: "frame_ok rt ClientPeer f session"
    and cap: "validate_capability rt (negotiated (cl w)) (msg_type f) (flags f) session = Inr ()"
    using inv by (auto simp: wire_inv_def passes_def)
  let ?rest = "concat (map frame_bytes L)"
  let ?d = "rest_rx ?rest (sv w)"
  have "\<exists>c1. hooked (msg_type f = Hello) (record_hello rt (body f)) ?d c1 \<and> same_link ?d c1
      \<and> validate_capability rt (negotiated c1) (msg_type f) (flags f) session = Inr ()"
  proof (cases "msg_type f = Hello")
    case True
    then have "sv_phase w = Handshake"
      using p by (auto simp: transitions)
    then have "hello_means rt f (offers (cl w))"
      using inv by (simp add: wire_inv_def views_def)
    then show ?thesis
      using True by (auto simp: hello_means_def hooked_def validate_capability_def)
  next
    case False
    then show ?thesis
      using view_of_request [OF inv, of f] cap by (simp add: hooked_def same_link_def rest_rx_def)
  qed
  then obtain c1 where c1: "hooked (msg_type f = Hello) (record_hello rt (body f)) ?d c1" "same_link ?d c1"
    "validate_capability rt (negotiated c1) (msg_type f) (flags f) session = Inr ()" by blast
  have "next_phase (endpoint (cstate c1)) (phase (cstate c1)) Receive (msg_type f) = Some p"
    using c1(2) p ph(3) by (simp add: same_link_def rest_rx_def)
  moreover have "rx (transport (sv w)) = frame_bytes f @ ?rest" "\<not> poisoned (sv w)"
    using inv by (simp_all add: wire_inv_def in_flight_def)
  moreover have "try_reserve rt (length (body f))"
    using ok by (intro ample_try_reserve [OF assms(1)]) (simp add: frame_ok_def MAX_FRAME_SIZE_def isize_max_def)
  ultimately show ?thesis
    unfolding server_recv_frame_def guarded_Inr server_via recv_success using ok c1 by blast
qed

lemma client_takes_next:
  assumes "ample rt" and inv: "wire_inv rt w FL (f # R)" and alive: "cl_phase w \<notin> {Closing, Closed}"
  shows "\<exists>c. client_recv_frame rt (cl w) = (Inr f, c)"
proof -
  note ph = wire_phases [OF inv]
  obtain p where p: "next_phase Client (cl_phase w) Receive (msg_type f) = Some p"
    using inv_client_accepts [of "cl_phase w" "sv_phase w" "map msg_type FL" "msg_type f"] ph(1) alive by auto
  obtain session where ok: "frame_ok rt ServerPeer f session"
    and cap: "validate_capability rt (negotiated (sv w)) (msg_type f) (flags f) session = Inr ()"
    using inv by (auto simp: wire_inv_def passes_def)
  let ?rest = "concat (map frame_bytes R)"
  let ?d = "rest_rx ?rest (cl w)"
  have S: "sv_phase w \<notin> early"
    using early_phases(2,3) [OF ph(1)] by auto
  have "\<exists>c1. hooked (msg_type f = Welcome) (accept_welcome rt (body f)) ?d c1 \<and> same_link ?d c1
      \<and> validate_capability rt (negotiated c1) (msg_type f) (flags f) session = Inr ()"
  proof (cases "msg_type f = Welcome")
    case True
    then have "cl_phase w = HandshakeReply"
      using p by (auto simp: client_receive)
    then have "welcome_means rt f (offers (cl w)) (negotiated (sv w))"
      using inv S by (auto simp: wire_inv_def views_def)
    moreover have "offers ?d = offers (cl w)"
      by (simp add: offers_def rest_rx_def)
    ultimately show ?thesis
      using True by (auto simp: welcome_means_def hooked_def validate_capability_def)
  next
    case False
    then have "cl_phase w \<noteq> HandshakeReply"
      using inv S by (auto simp: wire_inv_def views_def)
    then have "cl_phase w \<notin> early"
      using p by (auto simp: client_receive)
    then have "negotiated (cl w) = negotiated (sv w)"
      using inv by (simp add: wire_inv_def views_def)
    then show ?thesis
      using False cap by (simp add: hooked_def same_link_def rest_rx_def)
  qed
  then obtain c1 where c1: "hooked (msg_type f = Welcome) (accept_welcome rt (body f)) ?d c1" "same_link ?d c1"
    "validate_capability rt (negotiated c1) (msg_type f) (flags f) session = Inr ()" by blast
  have "next_phase (endpoint (cstate c1)) (phase (cstate c1)) Receive (msg_type f) = Some p"
    using c1(2) p ph(2) by (simp add: same_link_def rest_rx_def)
  moreover have "rx (transport (cl w)) = frame_bytes f @ ?rest" "\<not> poisoned (cl w)"
    using inv by (simp_all add: wire_inv_def in_flight_def)
  moreover have "try_reserve rt (length (body f))"
    using ok by (intro ample_try_reserve [OF assms(1)]) (simp add: frame_ok_def MAX_FRAME_SIZE_def isize_max_def)
  ultimately show ?thesis
    unfolding client_recv_frame_def guarded_Inr client_via recv_success using ok c1 by blast
qed

section \<open>Properties\<close>

text \<open>
  C1: the two connections implement the system of message types. However sends and receives
  interleave, each end has received exactly a prefix of what the other sent, frame for frame
  and unchanged; the rest is in flight and is precisely what the byte streams hold; and phases
  and frames in flight form a reachable state of the abstract system.
\<close>

theorem wire_refines_system:
  assumes "ample rt" "wire_reachable rt w"
  shows "\<exists>FL FR. cl_sent w = sv_got w @ FL \<and> sv_sent w = cl_got w @ FR
    \<and> rx (transport (sv w)) = concat (map frame_bytes FL) \<and> rx (transport (cl w)) = concat (map frame_bytes FR)
    \<and> sys_reachable rt (abs_system w FL FR)"
  using wire_reachable_inv [OF assms] by (auto simp: wire_inv_def in_flight_def)

text \<open>
  C3: whatever a conforming peer sent is received: as long as the server has not closed the
  connection, and the client has not said BYE or closed, receiving returns the next frame that
  is in flight and never fails, not for its length, flags, body, capability or state, and not
  for lack of negotiation.
\<close>

theorem next_frame_received:
  assumes "ample rt" "wire_reachable rt w"
  shows "(\<forall>f L. cl_sent w = sv_got w @ f # L \<longrightarrow> \<not> is_closed (cstate (sv w)) \<longrightarrow>
            (\<exists>s. server_recv_frame rt (sv w) = (Inr f, s)))
       \<and> (\<forall>f R. sv_sent w = cl_got w @ f # R \<longrightarrow> cl_phase w \<notin> {Closing, Closed} \<longrightarrow>
            (\<exists>c. client_recv_frame rt (cl w) = (Inr f, c)))"
proof -
  obtain FL FR where i: "wire_inv rt w FL FR"
    using wire_reachable_inv [OF assms] by blast
  then have "cl_sent w = sv_got w @ FL" "sv_sent w = cl_got w @ FR"
    by (simp_all add: wire_inv_def in_flight_def)
  then show ?thesis
    using i server_takes_next [OF assms(1), of w] client_takes_next [OF assms(1), of w]
    by (auto simp: is_closed_def)
qed

text \<open>
  C8: the two ends never disagree about what was negotiated: once the client has a negotiated
  version and capability set, the server has the same, and both remember the same offer. A frame
  other than HELLO in flight from the client means that the client, its sender, has finished
  negotiation (and so has the server); any frame in flight from the server means that the server,
  its sender, has.
\<close>

theorem negotiation_agrees:
  assumes "ample rt" "wire_reachable rt w"
  shows "(negotiated (cl w) \<noteq> None \<longrightarrow>
            negotiated (sv w) = negotiated (cl w) \<and> offers (sv w) = offers (cl w))
       \<and> (\<forall>f L. cl_sent w = sv_got w @ L \<longrightarrow> f \<in> set L \<longrightarrow> msg_type f \<noteq> Hello \<longrightarrow> negotiated (cl w) \<noteq> None)
       \<and> (\<forall>f R. sv_sent w = cl_got w @ R \<longrightarrow> f \<in> set R \<longrightarrow> negotiated (sv w) \<noteq> None)"
proof -
  obtain FL FR where i: "wire_inv rt w FL FR"
    using wire_reachable_inv [OF assms] by blast
  note ph = wire_phases [OF i]
  have "negotiated (sv w) = negotiated (cl w) \<and> offers (sv w) = offers (cl w)" if "negotiated (cl w) \<noteq> None"
    using i that by (auto simp: wire_inv_def views_def split: if_splits)
  moreover have "negotiated (cl w) \<noteq> None" if "f \<in> set FL" "msg_type f \<noteq> Hello" for f
  proof -
    have "msg_type f \<noteq> Welcome"
      using i that(1)
      by (auto simp: wire_inv_def passes_def frame_ok_def validate_inbound_body_len_def inbound_body_limit_def)
    then show ?thesis
      using that passes_negotiated i by (fastforce simp: wire_inv_def)
  qed
  moreover have "negotiated (sv w) \<noteq> None" if "f \<in> set FR" for f
  proof -
    have "sv_phase w \<notin> early"
      using early_phases(2,3) [OF ph(1)] that by auto
    then show ?thesis
      using i by (simp add: wire_inv_def views_def)
  qed
  moreover have "cl_sent w = sv_got w @ FL" "sv_sent w = cl_got w @ FR"
    using i by (simp_all add: wire_inv_def in_flight_def)
  ultimately show ?thesis
    by auto
qed

section \<open>The handshake\<close>

lemma control_frame_ok:
  assumes "ample rt" "control_wf c" "control_serialize rt c = Inr s" "valid_str s" "redirects_to_uri rt c"
    and "inbound_body_limit peer (control_type c) = Inr mx"
  shows "frame_ok rt peer \<lparr>msg_type = control_type c, flags = 0, body = utf8 s\<rparr> (control_session c)
    \<and> len s \<le> MAX_INPUT_MESSAGE_SIZE"
proof -
  have l: "len s \<le> control_limit (control_type c)"
    using assms(2,3) hello_codec.roundtrip [OF assms(1)] welcome_codec.roundtrip [OF assms(1)] get_codec.roundtrip [OF assms(1)]
      input_codec.roundtrip [OF assms(1)] subscribe_codec.roundtrip [OF assms(1)] redirect_codec.roundtrip [OF assms(1)]
      err_codec.roundtrip [OF assms(1)]
    by (cases c) auto
  moreover have mx: "mx = control_limit (control_type c)"
    using assms(6) by (cases c; cases peer) (simp_all add: inbound_body_limit_def)
  moreover have "control_limit t \<le> MAX_INPUT_MESSAGE_SIZE" for t
    by (cases t) (simp_all add: limit_defs)
  ultimately have s: "len s \<le> MAX_INPUT_MESSAGE_SIZE" "len s \<le> mx"
    using order_trans by blast+
  have "unat (of_nat (len s) :: u32) = len s"
    using s(1) by (intro unat_of_nat_u32) (simp add: limit_defs u32_max_def)
  moreover have "HEADER_SIZE + len s \<le> MAX_FRAME_SIZE"
    using s(1) by (simp add: limit_defs)
  moreover have "control_type c \<notin> {Unsubscribe, Ping, Pong, Bye, ServerBye}"
    by (cases c) simp_all
  moreover have "validate_inbound_flags rt t 0 = Inr ()" for t
    by (cases t) (simp_all add: validate_inbound_flags_def)
  ultimately show ?thesis
    using control_body_accepted [OF assms(1-5)] s assms(6) by (auto simp: frame_ok_def validate_inbound_body_len_def)
qed

text \<open>A HELLO and a WELCOME that answers it.\<close>

definition handshake_pair :: "runtime \<Rightarrow> HelloMessage \<Rightarrow> WelcomeMessage \<Rightarrow> ustr \<Rightarrow> ustr \<Rightarrow> ProtocolVersion \<Rightarrow> bool" where
  "handshake_pair rt h g hs gs v \<longleftrightarrow>
     hello_wf h \<and> Hello_serialize rt h = Inr hs \<and> valid_str hs
     \<and> welcome_wf g \<and> Welcome_serialize rt g = Inr gs \<and> valid_str gs
     \<and> ProtocolVersion_parse rt (hello_version h) = Inr v \<and> welcome_version g = hello_version h
     \<and> set (welcome_capabilities g) \<subseteq> set (hello_capabilities h)"

definition hello_frame :: "ustr \<Rightarrow> RawFrame" where
  "hello_frame hs = \<lparr>msg_type = Hello, flags = 0, body = utf8 hs\<rparr>"

definition welcome_frame :: "ustr \<Rightarrow> RawFrame" where
  "welcome_frame gs = \<lparr>msg_type = Welcome, flags = 0, body = utf8 gs\<rparr>"

lemma hello_can_be_sent:
  assumes "ample rt" "handshake_pair rt h g hs gs v" "HEADER_SIZE + len hs \<le> tx_room (transport c)"
    and "\<not> poisoned c" "cstate c = \<lparr>endpoint = Client, phase = Handshake\<rparr>"
  shows "\<exists>c'. client_send_frame rt (hello_frame hs) c = (Inr (), c')
    \<and> offers c' = (Some v, hello_capabilities h) \<and> phase (cstate c') = HandshakeReply"
proof -
  have p: "hello_wf h" "Hello_serialize rt h = Inr hs" "valid_str hs" "ProtocolVersion_parse rt (hello_version h) = Inr v"
    using assms(2) by (simp_all add: handshake_pair_def)
  have ok: "frame_ok rt ClientPeer (hello_frame hs) False" "len hs \<le> MAX_INPUT_MESSAGE_SIZE"
    using control_frame_ok [OF assms(1), of "HelloMsg h" hs ClientPeer] p
    by (simp_all add: hello_frame_def inbound_body_limit_def)
  let ?c1 = "c\<lparr>offered_version := Some v, offered_capabilities := hello_capabilities h\<rparr>"
  have "record_hello rt (utf8 hs) c = (Inr (), ?c1)"
    unfolding record_hello_Inr using p hello_codec.roundtrip [OF assms(1) p(1,2)] by auto
  moreover have "try_reserve rt (length (frame_bytes (hello_frame hs)))"
    using ok(2) by (intro ample_try_reserve [OF assms(1)]) (simp add: frame_bytes_def hello_frame_def limit_defs isize_max_def)
  ultimately have "client_send_frame rt (hello_frame hs) c = (Inr (), sent (frame_bytes (hello_frame hs)) HandshakeReply ?c1)"
    unfolding client_send_frame_def guarded_Inr client_via hello_hook.send_success
    using ok assms(3-5)
    by (intro conjI exI [of _ False] exI [of _ ?c1] exI [of _ HandshakeReply])
      (simp_all add: hooked_def hello_frame_def validate_capability_def next_phase_def frame_bytes_def)
  then show ?thesis
    by (simp add: sent_def offers_def)
qed

lemma welcome_can_be_sent:
  assumes "ample rt" "handshake_pair rt h g hs gs v" "HEADER_SIZE + len gs \<le> tx_room (transport c)"
    and "\<not> poisoned c" "cstate c = \<lparr>endpoint = Server, phase = HandshakeReply\<rparr>" "offers c = (Some v, hello_capabilities h)"
  shows "\<exists>c'. server_send_frame rt (welcome_frame gs) c = (Inr (), c')
    \<and> negotiated c' = Some \<lparr>np_version = v, np_capabilities = negotiate (hello_capabilities h) (welcome_capabilities g)\<rparr>"
proof -
  have p: "welcome_wf g" "Welcome_serialize rt g = Inr gs" "valid_str gs" "ProtocolVersion_parse rt (welcome_version g) = Inr v"
    "set (welcome_capabilities g) \<subseteq> set (hello_capabilities h)"
    using assms(2) by (simp_all add: handshake_pair_def)
  have ok: "frame_ok rt ServerPeer (welcome_frame gs) False" "len gs \<le> MAX_INPUT_MESSAGE_SIZE"
    using control_frame_ok [OF assms(1), of "WelcomeMsg g" gs ServerPeer] p
    by (simp_all add: welcome_frame_def inbound_body_limit_def)
  let ?n = "\<lparr>np_version = v, np_capabilities = negotiate (hello_capabilities h) (welcome_capabilities g)\<rparr>"
  let ?c1 = "c\<lparr>negotiated := Some ?n\<rparr>"
  have "accept_welcome rt (utf8 gs) c = (Inr (), ?c1)"
    unfolding accept_welcome_Inr using p welcome_codec.roundtrip [OF assms(1) p(1,2)] assms(6) by (auto simp: offers_def)
  moreover have "try_reserve rt (length (frame_bytes (welcome_frame gs)))"
    using ok(2) by (intro ample_try_reserve [OF assms(1)]) (simp add: frame_bytes_def welcome_frame_def limit_defs isize_max_def)
  ultimately have "server_send_frame rt (welcome_frame gs) c = (Inr (), sent (frame_bytes (welcome_frame gs)) Ready ?c1)"
    unfolding server_send_frame_def guarded_Inr server_via welcome_hook.send_success
    using ok assms(3-5)
    by (intro conjI exI [of _ False] exI [of _ ?c1] exI [of _ Ready])
      (simp_all add: hooked_def welcome_frame_def validate_capability_def next_phase_def frame_bytes_def)
  then show ?thesis
    by (simp add: sent_def)
qed

lemma handshake_run:
  assumes "ample rt" "handshake_pair rt h g hs gs v"
    and "HEADER_SIZE + len hs \<le> tx_room s1" "HEADER_SIZE + len gs \<le> tx_room s2"
  shows "\<exists>c s s' c'. client_send_frame rt (hello_frame hs) (connect_plain (s1\<lparr>rx := []\<rparr>)) = (Inr (), c)
    \<and> server_recv_frame rt (handshake_plain (s2\<lparr>rx := frame_bytes (hello_frame hs)\<rparr>)) = (Inr (hello_frame hs), s)
    \<and> server_send_frame rt (welcome_frame gs) s = (Inr (), s')
    \<and> client_recv_frame rt (deliver (frame_bytes (welcome_frame gs)) c) = (Inr (welcome_frame gs), c')
    \<and> cstate c' = \<lparr>endpoint = Client, phase = Ready\<rparr> \<and> cstate s' = \<lparr>endpoint = Server, phase = Ready\<rparr>
    \<and> negotiated s' = Some \<lparr>np_version = v, np_capabilities = negotiate (hello_capabilities h) (welcome_capabilities g)\<rparr>
    \<and> negotiated c' = negotiated s'"
    and "\<exists>w. wire_reachable rt w \<and> cl_sent w = [hello_frame hs] \<and> sv_got w = [] \<and> sv_phase w = Handshake"
    and "\<exists>w. wire_reachable rt w \<and> negotiated (cl w) = Some \<lparr>np_version = v, np_capabilities = negotiate (hello_capabilities h) (welcome_capabilities g)\<rparr>"
proof -
  let ?hf = "hello_frame hs" and ?gf = "welcome_frame gs"
  let ?w0 = "wire_start s1 s2"
  have t: "msg_type ?hf = Hello" "msg_type ?gf = Welcome"
    by (simp_all add: hello_frame_def welcome_frame_def)
  have start: "cl ?w0 = connect_plain (s1\<lparr>rx := []\<rparr>)" "sv ?w0 = handshake_plain (s2\<lparr>rx := []\<rparr>)"
    by (simp_all add: wire_start_def)
  obtain c where c: "client_send_frame rt ?hf (cl ?w0) = (Inr (), c)" "offers c = (Some v, hello_capabilities h)"
    "phase (cstate c) = HandshakeReply"
    using hello_can_be_sent [OF assms(1,2), of "cl ?w0"] assms(3)
    by (auto simp: start connect_plain_def new_connection_def new_machine_def)
  let ?w1 = "?w0\<lparr>cl := c, sv := deliver (new_bytes (cl ?w0) c) (sv ?w0), cl_sent := cl_sent ?w0 @ [?hf]\<rparr>"
  have i1: "wire_inv rt ?w1 [?hf] []"
    using inv_client_send [OF wire_inv_start c(1)] by simp
  have b1: "sv ?w1 = handshake_plain (s2\<lparr>rx := frame_bytes ?hf\<rparr>)"
    using new_bytes_wrote [OF client_sends(2) [OF c(1)]] by (simp add: start deliver_def handshake_plain_def new_connection_def)
  have "sv_phase ?w1 \<noteq> Closed"
    by (simp add: b1 handshake_plain_def new_connection_def new_machine_def)
  then obtain s where s: "server_recv_frame rt (sv ?w1) = (Inr ?hf, s)"
    using server_takes_next [OF assms(1) i1] by blast
  let ?w2 = "?w1\<lparr>sv := s, sv_got := sv_got ?w1 @ [?hf]\<rparr>"
  have i2: "wire_inv rt ?w2 [] []"
    using inv_server_recv [OF i1 s] by auto
  have s2: "phase (cstate s) = HandshakeReply" "endpoint (cstate s) = Server" "\<not> poisoned s"
    "tx_room (transport s) = tx_room s2" "offers s = (Some v, hello_capabilities h)"
    using server_receives(1,2) [OF s] i2 c(2) wire_phases(3) [OF i2]
    by (auto simp: moved_def b1 handshake_plain_def new_connection_def new_machine_def consumed_def t next_phase_def
        wire_inv_def views_def)
  then obtain s' where s': "server_send_frame rt ?gf s = (Inr (), s')"
    "negotiated s' = Some \<lparr>np_version = v, np_capabilities = negotiate (hello_capabilities h) (welcome_capabilities g)\<rparr>"
    using welcome_can_be_sent [OF assms(1,2), of s] assms(4) by (cases "cstate s") auto
  let ?w3 = "?w2\<lparr>sv := s', cl := deliver (new_bytes (sv ?w2) s') (cl ?w2), sv_sent := sv_sent ?w2 @ [?gf]\<rparr>"
  have i3: "wire_inv rt ?w3 [] [?gf]"
    using inv_server_send [OF i2, of ?gf s'] s'(1) by simp
  have b3: "cl ?w3 = deliver (frame_bytes ?gf) c"
    using new_bytes_wrote [OF server_sends(2) [OF s'(1)]] by simp
  obtain c' where c': "client_recv_frame rt (cl ?w3) = (Inr ?gf, c')"
    using client_takes_next [OF assms(1) i3] c(3) by (auto simp: b3)
  have i4: "wire_inv rt (?w3\<lparr>cl := c', cl_got := cl_got ?w3 @ [?gf]\<rparr>) [] []"
    using inv_client_recv [OF i3 c'] by auto
  have p: "cstate c' = \<lparr>endpoint = Client, phase = Ready\<rparr>" "cstate s' = \<lparr>endpoint = Server, phase = Ready\<rparr>"
    using client_receives(1) [OF c'] server_sends(1) [OF s'(1)] wire_phases(2,3) [OF i4] c(3) s2(1,2)
    by (cases "cstate c'"; cases "cstate s'"; auto simp: moved_def b3 t next_phase_def)+
  then have "negotiated c' = negotiated s'"
    using i4 by (simp add: wire_inv_def views_def)
  then show "\<exists>c s s' c'. client_send_frame rt (hello_frame hs) (connect_plain (s1\<lparr>rx := []\<rparr>)) = (Inr (), c)
    \<and> server_recv_frame rt (handshake_plain (s2\<lparr>rx := frame_bytes (hello_frame hs)\<rparr>)) = (Inr (hello_frame hs), s)
    \<and> server_send_frame rt (welcome_frame gs) s = (Inr (), s')
    \<and> client_recv_frame rt (deliver (frame_bytes (welcome_frame gs)) c) = (Inr (welcome_frame gs), c')
    \<and> cstate c' = \<lparr>endpoint = Client, phase = Ready\<rparr> \<and> cstate s' = \<lparr>endpoint = Server, phase = Ready\<rparr>
    \<and> negotiated s' = Some \<lparr>np_version = v, np_capabilities = negotiate (hello_capabilities h) (welcome_capabilities g)\<rparr>
    \<and> negotiated c' = negotiated s'"
    using c(1) [unfolded start(1)] s [unfolded b1] s' c' [unfolded b3] p by blast
  have r1: "wire_reachable rt ?w1"
    using wire_reachable.step [OF wire_reachable.start wire_step.cl_sends [OF c(1)]] .
  moreover have "cl_sent ?w1 = [?hf] \<and> sv_got ?w1 = [] \<and> sv_phase ?w1 = Handshake"
    unfolding b1 by (simp add: wire_start_def handshake_plain_def new_connection_def new_machine_def)
  ultimately show "\<exists>w. wire_reachable rt w \<and> cl_sent w = [?hf] \<and> sv_got w = [] \<and> sv_phase w = Handshake"
    by blast
  have "wire_reachable rt ?w2"
    using wire_reachable.step [OF r1 wire_step.sv_receives [OF s]] .
  moreover have "wire_step rt ?w2 ?w3"
    using wire_step.sv_sends [of rt ?gf ?w2 s'] s'(1) by simp
  ultimately have "wire_reachable rt ?w3"
    by (rule wire_reachable.step)
  from wire_reachable.step [OF this wire_step.cl_receives [OF c']]
  show "\<exists>w. wire_reachable rt w \<and> negotiated (cl w) = Some \<lparr>np_version = v, np_capabilities = negotiate (hello_capabilities h) (welcome_capabilities g)\<rparr>"
    using \<open>negotiated c' = negotiated s'\<close> s'(2) by (intro exI conjI) (assumption, simp)
qed

text \<open>
  C7: the handshake completes. From two fresh connections joined by streams with room for the
  two frames, the client can send any well-formed HELLO of a canonical version, the server
  receives it, can send any WELCOME of the same version whose capabilities were offered, and
  the client receives it; then both ends are ready and hold the same negotiated protocol, whose
  capabilities are those named by both.
\<close>

theorem handshake_completes:
  assumes "ample rt" "handshake_pair rt h g hs gs v"
    and "HEADER_SIZE + len hs \<le> tx_room s1" "HEADER_SIZE + len gs \<le> tx_room s2"
  shows "\<exists>c s s' c'. client_send_frame rt (hello_frame hs) (connect_plain (s1\<lparr>rx := []\<rparr>)) = (Inr (), c)
    \<and> server_recv_frame rt (handshake_plain (s2\<lparr>rx := frame_bytes (hello_frame hs)\<rparr>)) = (Inr (hello_frame hs), s)
    \<and> server_send_frame rt (welcome_frame gs) s = (Inr (), s')
    \<and> client_recv_frame rt (deliver (frame_bytes (welcome_frame gs)) c) = (Inr (welcome_frame gs), c')
    \<and> cstate c' = \<lparr>endpoint = Client, phase = Ready\<rparr> \<and> cstate s' = \<lparr>endpoint = Server, phase = Ready\<rparr>
    \<and> negotiated s' = Some \<lparr>np_version = v, np_capabilities = negotiate (hello_capabilities h) (welcome_capabilities g)\<rparr>
    \<and> negotiated c' = negotiated s'"
  by (rule handshake_run(1) [OF assms])

definition sample_hello :: HelloMessage where
  "sample_hello = \<lparr>hello_version = lit ''1.0'', hello_terminal_size = None, hello_color_support = None,
     hello_client = None, hello_capabilities = [lit ''sessions'', lit ''page-path'']\<rparr>"

definition sample_welcome :: WelcomeMessage where
  "sample_welcome = \<lparr>welcome_version = lit ''1.0'', welcome_server = None, welcome_site_name = None,
     welcome_capabilities = [lit ''sessions'']\<rparr>"

lemma sample_pair:
  "handshake_pair roomy_runtime sample_hello sample_welcome (hello_text sample_hello) (welcome_text sample_welcome)
     \<lparr>major = 1, minor = 0\<rparr>"
  "len (hello_text sample_hello) \<le> 100" "len (welcome_text sample_welcome) \<le> 100"
proof -
  note texts = hello_text_def welcome_text_def sample_hello_def sample_welcome_def put_field_def
    put_capabilities_def lit_def
  show l: "len (hello_text sample_hello) \<le> 100" "len (welcome_text sample_welcome) \<le> 100"
    by (simp_all add: texts len_utf8_def)
  have "hello_wf sample_hello" "welcome_wf sample_welcome"
    by (simp_all add: hello_wf_def welcome_wf_def sample_hello_def sample_welcome_def
        validate_capabilities_def bad_capability_def lit_def is_ascii_lowercase_def clean_def is_control_def)
  moreover have "valid_str (hello_text sample_hello)" "valid_str (welcome_text sample_welcome)"
    by (simp_all add: texts is_scalar_def)
  moreover have "Hello_serialize roomy_runtime sample_hello = Inr (hello_text sample_hello)"
    "Welcome_serialize roomy_runtime sample_welcome = Inr (welcome_text sample_welcome)"
    using l calculation(1,2) hello_codec.writes_all [OF ample_roomy, of sample_hello]
      welcome_codec.writes_all [OF ample_roomy, of sample_welcome]
    by (simp_all add: limit_defs)
  moreover have "ProtocolVersion_parse roomy_runtime (lit ''1.0'') = Inr \<lparr>major = 1, minor = 0\<rparr>"
    by (simp add: ProtocolVersion_parse_def split_once_def lit_def parse_u16_def parse_uint_def
        is_ascii_digit_def digits_value_def show_version_def show_nat.simps)
  ultimately show "handshake_pair roomy_runtime sample_hello sample_welcome (hello_text sample_hello)
      (welcome_text sample_welcome) \<lparr>major = 1, minor = 0\<rparr>"
    by (simp add: handshake_pair_def sample_hello_def sample_welcome_def)
qed

theorem handshake_completes_witness:
  "\<exists>c s. client_send_frame roomy_runtime (hello_frame (hello_text sample_hello))
        (connect_plain (quiet_stream [])) = (Inr (), c)
    \<and> server_recv_frame roomy_runtime (handshake_plain (quiet_stream (frame_bytes (hello_frame (hello_text sample_hello))))) =
        (Inr (hello_frame (hello_text sample_hello)), s)"
  using handshake_completes [OF ample_roomy sample_pair(1), of "quiet_stream []" "quiet_stream []"] sample_pair(2,3)
  by (auto simp: quiet_stream_def HEADER_SIZE_def)

lemmas sample_run = handshake_run [OF ample_roomy sample_pair(1), of "quiet_stream []" "quiet_stream []"]

lemma sample_room:
  "HEADER_SIZE + len (hello_text sample_hello) \<le> tx_room (quiet_stream [])"
  "HEADER_SIZE + len (welcome_text sample_welcome) \<le> tx_room (quiet_stream [])"
  using sample_pair(2,3) by (simp_all add: quiet_stream_def HEADER_SIZE_def)

theorem wire_refines_system_witness:
  "\<exists>w FL FR. wire_reachable roomy_runtime w \<and> cl_sent w = [hello_frame (hello_text sample_hello)]
    \<and> cl_sent w = sv_got w @ FL \<and> rx (transport (sv w)) = concat (map frame_bytes FL)
    \<and> sys_reachable roomy_runtime (abs_system w FL FR)"
  using sample_run(2) [OF sample_room] wire_refines_system [OF ample_roomy] by blast

theorem next_frame_received_witness:
  "\<exists>w s. wire_reachable roomy_runtime w
    \<and> server_recv_frame roomy_runtime (sv w) = (Inr (hello_frame (hello_text sample_hello)), s)"
proof -
  obtain w where "wire_reachable roomy_runtime w" "cl_sent w = sv_got w @ [hello_frame (hello_text sample_hello)]"
    "\<not> is_closed (cstate (sv w))"
    using sample_run(2) [OF sample_room] by (auto simp: is_closed_def)
  then show ?thesis
    using next_frame_received [OF ample_roomy, of w] by blast
qed

theorem negotiation_agrees_witness:
  "\<exists>w. wire_reachable roomy_runtime w \<and> negotiated (cl w) \<noteq> None \<and> negotiated (sv w) = negotiated (cl w)"
proof -
  obtain w where "wire_reachable roomy_runtime w" "negotiated (cl w) \<noteq> None"
    using sample_run(3) [OF sample_room] by auto
  then show ?thesis
    using negotiation_agrees [OF ample_roomy, of w] by blast
qed

end
