(* ===== verification/Status_Address.thy ===== *)
theory Status_Address
  imports Session_Laws
begin

text \<open>
  The address the status bar shows for the focused link: \<open>resolve_proposed_address\<close> of
  \<open>compositor/terminal/rendering.rs\<close>, which reads the current URI as text and has its own path
  normaliser, and how far what it shows is what following the link requests. An error is a refused
  allocation or a failed write.
\<close>

section \<open>Definitions\<close>

text \<open>\<open>try_format\<close> writes the pieces one after the other, each with its own reservation.\<close>

fun try_format_from :: "runtime \<Rightarrow> ustr \<Rightarrow> ustr list \<Rightarrow> (unit, ustr) result" where
  "try_format_from rt out [] = Inr out"
| "try_format_from rt out (piece # pieces) =
     (if piece = [] \<or> try_reserve rt (len out + len piece) then try_format_from rt (out @ piece) pieces else Inl ())"

definition try_format :: "runtime \<Rightarrow> ustr list \<Rightarrow> (unit, ustr) result" where
  "try_format rt pieces = try_format_from rt [] pieces"

definition try_copy :: "runtime \<Rightarrow> ustr \<Rightarrow> (unit, ustr) result" where
  "try_copy rt s = try_format rt [s]"

definition shown_segment :: "ustr \<Rightarrow> ustr \<Rightarrow> ustr" where
  "shown_segment normalized segment =
     (if segment = [] \<or> segment = lit ''.'' then normalized
      else if segment = lit ''..'' then
        if len normalized > 1
        then let popped = butlast normalized
             in take (case rfind_char SLASH popped of None \<Rightarrow> 1 | Some i \<Rightarrow> i + 1) popped
        else normalized
      else (if len normalized > 1 \<and> \<not> ends_with_char SLASH normalized
            then normalized @ [SLASH] else normalized) @ segment)"

definition shown_path :: "ustr \<Rightarrow> ustr" where
  "shown_path p =
     (let trailing_slash = (len p > 1 \<and> ends_with_char SLASH p);
          normalized = foldl shown_segment [SLASH] (split_char SLASH p)
      in if trailing_slash \<and> normalized \<noteq> [SLASH] \<and> \<not> ends_with_char SLASH normalized
         then normalized @ [SLASH] else normalized)"

definition status_normalize_path :: "runtime \<Rightarrow> ustr \<Rightarrow> (unit, ustr) result" where
  "status_normalize_path rt p = (if try_reserve rt (len p + 1) then Inr (shown_path p) else Inl ())"

text \<open>The host, the port and whether the host is in brackets; \<open>None\<close> for text that is no authority.\<close>

definition status_port :: "ustr \<Rightarrow> u16 option" where
  "status_port suffix =
     (if suffix = [] then Some DEFAULT_PORT else Option.bind (strip_prefix [COLON] suffix) parse_u16)"

definition status_authority :: "ustr \<Rightarrow> (ustr \<times> u16 \<times> bool) option" where
  "status_authority host_port =
     (case strip_prefix [91] host_port of
        Some rest \<Rightarrow>
          (case find_char (\<lambda>c. c = 93) rest of
             None \<Rightarrow> None
           | Some e \<Rightarrow>
               if parse_ipv6 (take e rest) = None then None
               else map_option (\<lambda>p. (take e rest, p, True)) (status_port (drop (e + 1) rest)))
      | None \<Rightarrow>
          (case rsplit_once_char COLON host_port of
             Some (h, p) \<Rightarrow>
               if COLON \<in> set h \<or> h = [] then None else map_option (\<lambda>p. (h, p, False)) (parse_u16 p)
           | None \<Rightarrow> Some (host_port, DEFAULT_PORT, False)))"

definition status_path_query :: "ustr \<Rightarrow> ustr \<times> ustr option" where
  "status_path_query path_and_query =
     (case strip_prefix [QUERY] path_and_query of
        Some q \<Rightarrow> ([SLASH], Some q)
      | None \<Rightarrow>
          (case find_char (\<lambda>c. c = QUERY) path_and_query of
             Some i \<Rightarrow> (take i path_and_query, Some (drop (i + 1) path_and_query))
           | None \<Rightarrow> (path_and_query, None)))"

definition push_query :: "runtime \<Rightarrow> ustr option \<Rightarrow> ustr \<Rightarrow> (unit, ustr) result" where
  "push_query rt q address =
     (case drop_empty q of
        None \<Rightarrow> Inr address
      | Some q \<Rightarrow> if try_reserve rt (len address + (len q + 1)) then Inr (address @ QUERY # q) else Inl ())"

definition try_canonical_absolute_address :: "runtime \<Rightarrow> ustr \<Rightarrow> (unit, ustr option) result" where
  "try_canonical_absolute_address rt s =
     (if len s > MAX_URI_LEN \<or> list_ex is_control s \<or> HASH \<in> set s then Inr None
      else case strip_prefix (lit ''atp://'') s of
        None \<Rightarrow> Inr None
      | Some after_scheme \<Rightarrow>
          let authority_end = (case find_char (\<lambda>c. c = SLASH \<or> c = QUERY) after_scheme of
                Some i \<Rightarrow> i | None \<Rightarrow> length after_scheme);
              host_port = take authority_end after_scheme
          in if host_port = [] \<or> list_ex (\<lambda>c. is_control c \<or> is_whitespace c) host_port \<or>
                list_ex (\<lambda>c. c \<in> {64, HASH, QUERY}) host_port then Inr None
             else case status_path_query (if authority_end = length after_scheme then [SLASH]
                                          else drop authority_end after_scheme) of
               (p, q) \<Rightarrow>
                 (case status_authority host_port of
                    None \<Rightarrow> Inr None
                  | Some (h, pt, ipv6) \<Rightarrow>
                      if h = [] \<or> \<not> is_ascii h then Inr None
                      else and_then (try_copy rt h) (\<lambda>h. let h = lower h in
                           and_then (status_normalize_path rt p) (\<lambda>p.
                           and_then (if ipv6 then try_format rt [lit ''atp://['', h, lit '']'']
                                     else try_format rt [lit ''atp://'', h]) (\<lambda>address.
                           and_then
                             (if pt \<noteq> DEFAULT_PORT
                              then if try_reserve rt (len address + (6 + len p))
                                   then Inr (address @ COLON # show_nat (unat pt) @ p) else Inl ()
                              else if p = [] \<or> try_reserve rt (len address + len p) then Inr (address @ p) else Inl ())
                             (\<lambda>address. map_ok Some (push_query rt q address)))))))"

definition resolve_proposed_address :: "runtime \<Rightarrow> ustr \<Rightarrow> ustr \<Rightarrow> (unit, ustr) result" where
  "resolve_proposed_address rt current_uri href =
     (if starts_with (lit ''atp://'') href then
        and_then (try_canonical_absolute_address rt href) (\<lambda>address.
          case address of Some address \<Rightarrow> Inr address | None \<Rightarrow> try_copy rt href)
      else if len href > MAX_URI_LEN \<or> list_ex is_control href \<or> HASH \<in> set href then try_copy rt href
      else case strip_prefix (lit ''atp://'') current_uri of
        None \<Rightarrow> try_copy rt href
      | Some after_scheme \<Rightarrow>
          let authority_end = (case find_char (\<lambda>c. c = SLASH \<or> c = QUERY) after_scheme of
                Some i \<Rightarrow> i | None \<Rightarrow> length after_scheme);
              base_authority = take (6 + authority_end) current_uri;
              base_path_and_query = drop authority_end after_scheme;
              base_path = (case find_char (\<lambda>c. c = QUERY) base_path_and_query of
                  None \<Rightarrow> if base_path_and_query = [] then [SLASH] else base_path_and_query
                | Some i \<Rightarrow> if take i base_path_and_query = [] then [SLASH] else take i base_path_and_query);
              (href_path, q) = (case find_char (\<lambda>c. c = QUERY) href of
                  Some i \<Rightarrow> (take i href, Some (drop (i + 1) href)) | None \<Rightarrow> (href, None))
          in and_then
               (if starts_with [SLASH] href_path then status_normalize_path rt href_path
                else if href_path = [] then try_copy rt base_path
                else let dir = (case rfind_char SLASH base_path of None \<Rightarrow> [SLASH] | Some i \<Rightarrow> take (i + 1) base_path)
                     in and_then (try_format rt [dir, href_path]) (status_normalize_path rt))
               (\<lambda>p. case drop_empty q of
                  Some q \<Rightarrow> try_format rt [base_authority, p, [QUERY], q]
                | None \<Rightarrow> try_format rt [base_authority, p]))"

section \<open>The normaliser\<close>

text \<open>
  What the string built stands for: the stack of the other normaliser, with a slash that a popped
  segment may leave behind.
\<close>

definition stands_for :: "ustr list \<Rightarrow> ustr \<Rightarrow> bool" where
  "stands_for st s \<longleftrightarrow> s = render st \<or> (st \<noteq> [] \<and> s = render st @ [SLASH])"

lemma render_snoc: "st \<noteq> [] \<Longrightarrow> render (st @ [w]) = render st @ SLASH # w"
  by (simp add: render_def join_char_snoc)

lemma take_rfind: "SLASH \<notin> set w \<Longrightarrow>
    take (case rfind_char SLASH (s @ SLASH # w) of None \<Rightarrow> 1 | Some i \<Rightarrow> i + 1) (s @ SLASH # w) = s @ [SLASH]"
  by (simp add: rfind_char_append)

lemma pop_stands_for:
  assumes "list_all valid_seg (st @ [w])" "stands_for (st @ [w]) s"
  shows "stands_for st (shown_segment s (lit ''..''))"
proof -
  have w: "w \<noteq> []" "SLASH \<notin> set w" "SLASH \<notin> set (butlast w)"
    using assms(1) by (auto simp: valid_seg_def dest: in_set_butlastD)
  have gt: "len (render (st @ [w])) > 1"
    using render_ends(2)[OF assms(1)] by simp
  obtain v where v: "butlast s = (if st = [] then [] else render st) @ SLASH # v" "SLASH \<notin> set v" "len s > 1"
  proof (cases "s = render (st @ [w])")
    case True
    then have "butlast s = (if st = [] then [] else render st) @ SLASH # butlast w"
      using w(1) by (simp add: render_snoc butlast_append) (simp add: render_def)
    with w gt True show ?thesis by (intro that[of "butlast w"]) auto
  next
    case False
    then have s: "s = render (st @ [w]) @ [SLASH]"
      using assms(2) by (simp add: stands_for_def)
    have "butlast s = render (st @ [w])"
      unfolding s by (rule butlast_snoc)
    moreover have "render (st @ [w]) = (if st = [] then [] else render st) @ SLASH # w"
      by (simp add: render_snoc) (simp add: render_def)
    ultimately have "butlast s = (if st = [] then [] else render st) @ SLASH # w"
      by simp
    moreover have "len s > 1"
      using gt s by simp
    ultimately show ?thesis
      using w(2) by (intro that)
  qed
  have "shown_segment s (lit ''..'') = (if st = [] then [] else render st) @ [SLASH]"
    using v(3) take_rfind[OF v(2), of "if st = [] then [] else render st"] by (simp add: shown_segment_def Let_def v(1))
  then show ?thesis
    by (auto simp: stands_for_def render_def)
qed

lemma segment_stands_for:
  assumes "list_all valid_seg st" "stands_for st s"
  shows "stands_for (stack_segment st seg) (shown_segment s seg)"
proof (cases "seg = lit ''..''")
  case True
  show ?thesis
  proof (cases st rule: rev_cases)
    case Nil
    with assms(2) True show ?thesis
      by (simp add: stands_for_def shown_segment_def stack_segment_def render_def len_utf8_def)
  next
    case (snoc vs w)
    with pop_stands_for[of vs w s] assms True show ?thesis
      by (simp add: stack_segment_def)
  qed
next
  case False
  then show ?thesis
    using assms(2) render_ends[OF assms(1)]
    by (auto simp: stands_for_def shown_segment_def stack_segment_def render_def join_char_snoc ends_with_char_def)
qed

lemma segments_stand_for:
  "list_all valid_seg st \<Longrightarrow> stands_for st s \<Longrightarrow> \<forall>w \<in> set segs. SLASH \<notin> set w \<Longrightarrow>
   stands_for (foldl stack_segment st segs) (foldl shown_segment s segs)"
  by (induction segs arbitrary: st s) (simp_all add: segment_stands_for valid_stack_segment)

text \<open>Without a \<open>..\<close> the two normalisers do the same.\<close>

lemma foldl_shown_segment:
  "list_all (\<lambda>w. w \<noteq> lit ''..'') segs \<Longrightarrow> foldl shown_segment s segs = foldl normalize_segment s segs"
  by (induction segs arbitrary: s) (simp_all add: shown_segment_def normalize_segment_def)

definition slashless :: "ustr \<Rightarrow> ustr" where
  "slashless p = (if len p > 1 \<and> ends_with_char SLASH p then butlast p else p)"

lemma slashless_render:
  assumes "list_all valid_seg st"
  shows "slashless (render st) = render st" "st \<noteq> [] \<Longrightarrow> slashless (render st @ [SLASH]) = render st"
  using render_ends[OF assms] len_eq_0[of "render st"] by (auto simp: slashless_def ends_with_char_def len_utf8_def render_def)

lemma shown_path_slashless: "slashless (shown_path p) = slashless (normal_form p [])"
proof -
  let ?st = "foldl stack_segment [] (split_char SLASH p)"
  let ?s = "foldl shown_segment [SLASH] (split_char SLASH p)"
  have valid: "list_all valid_seg ?st" and stands: "stands_for ?st ?s"
    using stack_of_path[of p "[]"] split_char_pieces[of _ SLASH]
      segments_stand_for[of "[]" "[SLASH]" "split_char SLASH p"]
    by (auto simp: stands_for_def render_def stack_segment_def)
  have "normal_form p [] = render ?st \<or> (?st \<noteq> [] \<and> normal_form p [] = render ?st @ [SLASH])"
    by (auto simp: normal_form_def stack_segment_def Let_def)
  moreover have "shown_path p = render ?st \<or> (?st \<noteq> [] \<and> shown_path p = render ?st @ [SLASH])"
    using stands render_ends[OF valid]
    by (auto simp: shown_path_def Let_def stands_for_def ends_with_char_def)
  ultimately show ?thesis
    using slashless_render[OF valid] by auto
qed

lemma shown_path_same:
  assumes "list_all (\<lambda>w. w \<noteq> lit ''..'') (split_char SLASH p)"
  shows "shown_path p = normal_form p []"
  using normalize_loop_eq[of p "[]"] foldl_shown_segment[of "split_char SLASH p" "[SLASH]"] assms
  by (simp add: shown_path_def normalize_loop_def normalize_segment_def)

section \<open>The address shown is the address requested\<close>

text \<open>Two texts of a URI that differ at most in the final slash of the path.\<close>

definition shows_uri :: "bool \<Rightarrow> ustr \<Rightarrow> AtpUri \<Rightarrow> bool" where
  "shows_uri exact a v \<longleftrightarrow>
     (\<exists>p. a = lit ''atp://'' @ authority v @ p @ query_text v \<and> slashless p = slashless (path v) \<and>
          (exact \<longrightarrow> p = path v))"

definition dotless :: "ustr \<Rightarrow> bool" where
  "dotless p \<longleftrightarrow> list_all (\<lambda>w. w \<noteq> lit ''..'') (split_char SLASH p)"

lemma try_format_Inr: "try_format rt ps = Inr a \<Longrightarrow> a = concat ps"
proof -
  have "try_format_from rt out ps = Inr a \<Longrightarrow> a = out @ concat ps" for out
    by (induction ps arbitrary: out) (fastforce split: if_splits)+
  then show "try_format rt ps = Inr a \<Longrightarrow> a = concat ps"
    by (fastforce simp: try_format_def)
qed

lemma try_copy_Inr: "try_copy rt s = Inr a \<Longrightarrow> a = s"
  by (auto simp: try_copy_def dest: try_format_Inr)

lemma status_authority_parse:
  assumes "parse_authority rt a = Inr (h, p)" "h \<noteq> []"
  shows "status_authority a = Some (h, p, COLON \<in> set h)"
proof (cases "strip_prefix [91] a")
  case (Some rest)
  with assms parse_ipv6_chars(2)[of h] show ?thesis
    by (auto simp: parse_authority_def status_authority_def status_port_def parse_port_def result_simps Let_def
        split: if_splits)
next
  case None
  show ?thesis
  proof (cases "rsplit_once_char COLON a")
    case None'': None
    then have "COLON \<notin> set a"
      by (simp add: rsplit_once_char_None)
    with None None'' assms show ?thesis
      by (auto simp: parse_authority_def status_authority_def)
  next
    case (Some x)
    with None assms show ?thesis
      by (cases x) (auto simp: parse_authority_def status_authority_def parse_port_def result_simps split: if_splits)
  qed
qed

lemma status_path_query_split: "split_path_query rt pq = Inr r \<Longrightarrow> status_path_query pq = r"
  by (auto simp: split_path_query_def status_path_query_def try_owned_def split: option.splits if_splits)

lemma push_query_Inr:
  "push_query rt q a = Inr b \<Longrightarrow> query v = drop_empty q \<Longrightarrow> b = a @ query_text v"
  by (auto simp: push_query_def query_text_def split: option.splits if_splits)

lemma status_normalize_Inr:
  "status_normalize_path rt p = Inr p' \<Longrightarrow> p' = shown_path p"
  by (auto simp: status_normalize_path_def split: if_splits)

lemma shows_normalized:
  assumes "path v = normal_form p []"
  shows "shows_uri (dotless p) (lit ''atp://'' @ authority v @ shown_path p @ query_text v) v"
  using assms shown_path_slashless[of p] shown_path_same[of p] by (auto simp: shows_uri_def dotless_def)

text \<open>The path part of a reference, after the authority when it has one.\<close>

definition reference_path :: "ustr \<Rightarrow> ustr" where
  "reference_path s =
     takeWhile (\<lambda>c. c \<noteq> QUERY)
       (if starts_with (lit ''atp://'') s then dropWhile (\<lambda>c. c \<noteq> SLASH \<and> c \<noteq> QUERY) (drop 6 s) else s)"

lemma find_char_parts:
  "take (case find_char P s of Some i \<Rightarrow> i | None \<Rightarrow> length s) s = takeWhile (\<lambda>c. \<not> P c) s"
  "drop (case find_char P s of Some i \<Rightarrow> i | None \<Rightarrow> length s) s = dropWhile (\<lambda>c. \<not> P c) s"
  by (induction s) (auto split: option.splits)

lemma status_path:
  assumes "status_path_query (if pq = [] then [SLASH] else pq) = (p, q)"
  shows "dotless p = dotless (takeWhile (\<lambda>c. c \<noteq> QUERY) pq)"
proof -
  have root: "dotless [SLASH]" "dotless []"
    by (simp_all add: dotless_def lit_def)
  show ?thesis
  proof (cases pq)
    case Nil
    with assms root show ?thesis
      by (auto simp: status_path_query_def strip_prefix_def)
  next
    case (Cons c cs)
    show ?thesis
    proof (cases "c = QUERY")
      case True
      with Cons assms root show ?thesis
        by (auto simp: status_path_query_def strip_prefix_def)
    next
      case False
      then have "strip_prefix [QUERY] pq = None"
        using Cons by (simp add: strip_prefix_def)
      with Cons assms have "p = (case find_char (\<lambda>c. c = QUERY) pq of Some i \<Rightarrow> take i pq | None \<Rightarrow> pq)"
        by (auto simp: status_path_query_def split: option.splits)
      then have "p = take (case find_char (\<lambda>c. c = QUERY) pq of Some i \<Rightarrow> i | None \<Rightarrow> length pq) pq"
        by (simp split: option.splits)
      then show ?thesis
        by (simp add: find_char_parts)
    qed
  qed
qed

lemma absolute_address:
  assumes parse: "AtpUri_parse rt s = Inr v" and canonical: "try_canonical_absolute_address rt s = Inr x"
  shows "\<exists>a. x = Some a \<and> shows_uri (dotless (reference_path s)) a v"
proof -
  define r where "r = drop 6 s"
  define e where "e = (case find_char (\<lambda>c. c = SLASH \<or> c = QUERY) r of Some i \<Rightarrow> i | None \<Rightarrow> length r)"
  define pq where "pq = (if e = length r then [SLASH] else drop e r)"
  have base: "len s \<le> MAX_URI_LEN" "\<not> list_ex is_control s" "HASH \<notin> set s" "starts_with (lit ''atp://'') s" "r \<noteq> []"
    using parse by (auto simp: AtpUri_parse_def Let_def r_def split: if_splits)
  obtain p q h where u: "split_path_query rt pq = Inr (p, q)" "parse_authority rt (take e r) = Inr (h, port v)"
    "h \<noteq> []" "is_ascii h" "host v = lower h" "path v = normal_form p []" "query v = drop_empty q"
    "take e r \<noteq> []" "\<not> list_ex (\<lambda>c. is_control c \<or> is_whitespace c) (take e r)"
    "\<not> list_ex (\<lambda>c. c \<in> {64, HASH, QUERY}) (take e r)"
    using parse base
    unfolding AtpUri_parse_def Let_def r_def[symmetric] e_def[symmetric] pq_def[symmetric]
    by (auto simp: result_simps normalize_path_Inr split: if_splits)
  have strip: "strip_prefix (lit ''atp://'') s = Some r"
    using base(4) by (simp add: strip_prefix_def r_def lit_def eval_nat_numeral)
  note status = status_authority_parse[OF u(2,3)] status_path_query_split[OF u(1)]
  have auth: "authority v = (if COLON \<in> set h then 91 # lower h @ [93] else lower h) @
      (if port v = DEFAULT_PORT then [] else COLON # show_nat (unat (port v)))"
    by (simp add: authority_def u(5) COLON_lower)
  let ?port = "if port v = DEFAULT_PORT then [] else COLON # show_nat (unat (port v))"
  let ?six = "COLON \<in> set h"
  have "and_then (try_copy rt h) (\<lambda>h. let h = lower h in
       and_then (status_normalize_path rt p) (\<lambda>p.
       and_then (if ?six then try_format rt [lit ''atp://['', h, lit '']''] else try_format rt [lit ''atp://'', h]) (\<lambda>address.
       and_then
         (if port v \<noteq> DEFAULT_PORT
          then if try_reserve rt (len address + (6 + len p)) then Inr (address @ COLON # show_nat (unat (port v)) @ p) else Inl ()
          else if p = [] \<or> try_reserve rt (len address + len p) then Inr (address @ p) else Inl ())
         (\<lambda>address. map_ok Some (push_query rt q address))))) = Inr x"
    using canonical base(1-3) u(3,4,8-10)
    unfolding try_canonical_absolute_address_def strip option.case Let_def e_def[symmetric] pq_def[symmetric] status
    by simp
  then obtain h' p' address address' y where c: "try_copy rt h = Inr h'" "status_normalize_path rt p = Inr p'"
    "(if ?six then try_format rt [lit ''atp://['', lower h', lit '']''] else try_format rt [lit ''atp://'', lower h']) = Inr address"
    "(if port v \<noteq> DEFAULT_PORT
      then if try_reserve rt (len address + (6 + len p')) then Inr (address @ COLON # show_nat (unat (port v)) @ p') else Inl ()
      else if p' = [] \<or> try_reserve rt (len address + len p') then Inr (address @ p') else Inl ()) = Inr address'"
    "push_query rt q address' = Inr y" "x = Some y"
    unfolding and_then_eq_Inr map_ok_eq_Inr Let_def by blast
  have "address' = address @ ?port @ shown_path p"
    using c(4) status_normalize_Inr [OF c(2)] by (simp split: if_splits)
  then have y: "push_query rt q (address @ ?port @ shown_path p) = Inr y" "x = Some y"
    "(if ?six then try_format rt [lit ''atp://['', lower h, lit '']''] else try_format rt [lit ''atp://'', lower h]) = Inr address"
    using c(3,5,6) try_copy_Inr [OF c(1)] by (simp_all split: if_splits)
  have "address @ ?port = lit ''atp://'' @ authority v"
    using y(3) by (auto simp: auth lit_def split: if_splits dest!: try_format_Inr)
  then have "address @ ?port @ shown_path p = lit ''atp://'' @ authority v @ shown_path p"
    by (metis append.assoc)
  then have "\<exists>a. x = Some (a @ query_text v) \<and> a = lit ''atp://'' @ authority v @ shown_path p"
    using push_query_Inr [OF y(1) u(7)] y(2) by simp
  moreover have "shows_uri (dotless p) (lit ''atp://'' @ authority v @ shown_path p @ query_text v) v"
    using shows_normalized[of v p] u(6) by blast
  moreover have "dotless p = dotless (reference_path s)"
  proof -
    have "dropWhile (\<lambda>c. c \<noteq> SLASH \<and> c \<noteq> QUERY) r = drop e r"
      unfolding e_def find_char_parts by simp
    moreover have "pq = (if drop e r = [] then [SLASH] else drop e r)"
      by (auto simp: pq_def e_def find_char_Some split: option.splits)
    ultimately show ?thesis
      using status_path[of "drop e r" p q] status(2) base(4) by (simp add: reference_path_def r_def[symmetric])
  qed
  ultimately show ?thesis
    by auto
qed

lemma normal_form_join:
  assumes "\<not> starts_with [SLASH] r" "r \<noteq> []"
  shows "normal_form ((d @ [SLASH]) @ r) [] = normal_form (d @ [SLASH]) r"
proof -
  have "len ((d @ [SLASH]) @ r) > 1 \<and> ends_with_char SLASH ((d @ [SLASH]) @ r) \<longleftrightarrow> len r > 1 \<and> ends_with_char SLASH r"
    using assms by (cases r) (auto simp: ends_with_char_def len_utf8_def neq0_conv[symmetric] simp del: neq0_conv)
  then show ?thesis
    using assms(2) by (auto simp: normal_form_def split_char_prefix Let_def stack_segment_def)
qed

lemma directory_slash: "\<exists>d. directory p = d @ [SLASH]"
proof (cases "rsplit_once_char SLASH p")
  case None
  then show ?thesis
    by (simp add: directory_def rfind_char_def)
next
  case (Some x)
  then show ?thesis
    using rsplit_once_char_Some[of SLASH p "fst x" "snd x"]
    by (auto simp: directory_def rfind_char_def split: prod.splits)
qed

lemma dotless_join: "dotless ((d @ [SLASH]) @ r) \<longleftrightarrow> dotless d \<and> dotless r"
  by (simp add: dotless_def split_char_prefix)

lemma clean_dotless: "clean_path p \<Longrightarrow> dotless p"
proof -
  assume clean: "clean_path p"
  then obtain r where p: "p = SLASH # r"
    by (auto simp: clean_path_def split: list.splits)
  have "list_all (\<lambda>w. w \<noteq> lit ''..'') (split_char SLASH r)"
  proof (cases "r = []")
    case False
    define ws where "ws = split_char SLASH r"
    have "list_all valid_seg (butlast ws)" "valid_seg (last ws) \<or> last ws = []"
      using clean p False by (auto simp: clean_path_def ws_def Let_def)
    then have "valid_seg w \<or> w = []" if "w \<in> set (butlast ws) \<or> w = last ws" for w
      using that by (auto simp: list_all_iff)
    moreover have "\<not> valid_seg (lit ''..'')" "lit ''..'' \<noteq> []"
      by (simp_all add: valid_seg_def lit_def)
    ultimately have "w \<noteq> lit ''..''" if "w \<in> set (butlast ws) \<or> w = last ws" for w
      using that by metis
    then have "list_all (\<lambda>w. w \<noteq> lit ''..'') (butlast ws @ [last ws])"
      unfolding list_all_iff by simp
    then show ?thesis
      by (simp add: ws_def)
  qed (simp add: lit_def)
  then show ?thesis
    by (simp add: p dotless_def lit_def)
qed

lemma directory_dotless:
  assumes "clean_path p" "directory p = d @ [SLASH]"
  shows "dotless ((d @ [SLASH]) @ r) = dotless r"
proof -
  obtain r' where "p = SLASH # r'"
    using assms(1) by (auto simp: clean_path_def split: list.splits)
  then obtain a w where aw: "rsplit_once_char SLASH p = Some (a, w)"
    using rsplit_once_char_None[of SLASH p] by (cases "rsplit_once_char SLASH p") auto
  then have p: "p = (a @ [SLASH]) @ w"
    using rsplit_once_char_Some[OF aw] by simp
  then have "d = a"
    using assms(2) aw by (simp add: directory_def rfind_char_def)
  then show ?thesis
    using clean_dotless[OF assms(1)] unfolding p dotless_join by simp
qed

lemma relative_address:
  assumes u: "wf_uri u" and rel: "\<not> starts_with (lit ''atp://'') s" and v: "resolve rt u s = Inr v"
    and shown: "resolve_proposed_address rt (uri_display u) s = Inr a"
  shows "shows_uri (dotless (reference_path s)) a v"
proof -
  note v = resolve_relative[OF v rel] and base = v
  let ?r = "takeWhile (\<lambda>c. c \<noteq> QUERY) s"
  have s: "len s \<le> MAX_URI_LEN" "\<not> list_ex is_control s" "HASH \<notin> set s"
    using base rel by (auto simp: resolve_def split: if_splits)
  obtain p where p: "path u = SLASH # p" "QUERY \<notin> set (path u)"
    using u by (auto simp: wf_uri_def clean_path_def split: list.splits)
  have strip: "strip_prefix (lit ''atp://'') (uri_display u) = Some (authority u @ path u @ query_text u)"
    by (simp add: uri_display_eq strip_prefix_def lit_def)
  show ?thesis
  proof -
    have sep: "list_all (\<lambda>c. \<not> (c = SLASH \<or> c = QUERY)) (authority u)"
      using authority_chars[of u] u by (auto simp: wf_uri_def list_all_iff)
    let ?rest = "authority u @ path u @ query_text u"
    define e where "e = (case find_char (\<lambda>c. c = SLASH \<or> c = QUERY) ?rest of Some i \<Rightarrow> i | None \<Rightarrow> length ?rest)"
    have parts: "take e ?rest = authority u" "drop e ?rest = path u @ query_text u"
      using sep unfolding e_def find_char_parts by (simp_all add: list_all_iff takeWhile_append2 dropWhile_append2 p)
    have base_authority: "take (6 + e) (uri_display u) = lit ''atp://'' @ authority u"
      using parts(1) by (simp add: uri_display_eq lit_def eval_nat_numeral del: take_append)
    have base_path: "(case find_char (\<lambda>c. c = QUERY) (path u @ query_text u) of
        None \<Rightarrow> if path u @ query_text u = [] then [SLASH] else path u @ query_text u
      | Some i \<Rightarrow> if take i (path u @ query_text u) = [] then [SLASH] else take i (path u @ query_text u)) = path u"
    proof (cases "query u")
      case None
      moreover have "find_char (\<lambda>c. c = QUERY) (path u) = None"
        using p by (auto simp: list_all_iff find_char_None)
      ultimately show ?thesis
        using p by (simp add: query_text_def)
    next
      case (Some q)
      have "find_char (\<lambda>c. c = QUERY) (path u @ QUERY # q) = Some (length (path u))"
        using p by (intro find_char_append) (auto simp: list_all_iff)
      with Some p show ?thesis
        by (simp add: query_text_def)
    qed
    obtain q where q: "(case find_char (\<lambda>c. c = QUERY) s of
        Some i \<Rightarrow> (take i s, Some (drop (i + 1) s)) | None \<Rightarrow> (s, None)) = (?r, q)" "drop_empty q = query v"
    proof (cases "find_char (\<lambda>c. c = QUERY) s")
      case None
      then have "QUERY \<notin> set s"
        by (auto simp: find_char_None list_all_iff)
      moreover have all: "?r = s"
        using takeWhile_find_None[OF None] by simp
      ultimately show ?thesis
        using None v(6) by (intro that[of None]) (simp_all add: drop_empty_def all)
    next
      case (Some i)
      then have "QUERY \<in> set s"
        using find_char_None[of "\<lambda>c. c = QUERY" s] by (auto simp: list_all_iff)
      with Some v(6) take_find_char[OF Some] show ?thesis
        by (intro that[of "Some (drop (i + 1) s)"]) simp_all
    qed
    have step: "and_then
        (if starts_with [SLASH] ?r then status_normalize_path rt ?r
         else if ?r = [] then try_copy rt (path u)
         else and_then (try_format rt [directory (path u), ?r]) (status_normalize_path rt))
        (\<lambda>p. case query v of
           Some q \<Rightarrow> try_format rt [lit ''atp://'' @ authority u, p, [QUERY], q]
         | None \<Rightarrow> try_format rt [lit ''atp://'' @ authority u, p]) = Inr a"
      using shown rel s
      unfolding resolve_proposed_address_def strip option.case Let_def e_def[symmetric] parts base_authority base_path
        q(1) prod.case q(2) directory_def
      by (simp add: list_ex_iff)
    have auth: "authority v = authority u"
      by (simp add: authority_def v(3,4))
    obtain p where p: "(if starts_with [SLASH] ?r then status_normalize_path rt ?r
         else if ?r = [] then try_copy rt (path u)
         else and_then (try_format rt [directory (path u), ?r]) (status_normalize_path rt)) = Inr p"
      "(case query v of
           Some q \<Rightarrow> try_format rt [lit ''atp://'' @ authority u, p, [QUERY], q]
         | None \<Rightarrow> try_format rt [lit ''atp://'' @ authority u, p]) = Inr a"
      using step unfolding and_then_eq_Inr by blast
    have a: "a = lit ''atp://'' @ authority v @ p @ query_text v"
      using p(2) by (cases "query v") (auto simp: query_text_def auth dest: try_format_Inr)
    consider "starts_with [SLASH] ?r" "p = shown_path ?r" "path v = normal_form ?r []"
      | "p = path v" | "\<not> starts_with [SLASH] ?r" "?r \<noteq> []" "p = shown_path (directory (path u) @ ?r)"
        "path v = normal_form (directory (path u)) ?r"
      using p(1) v(5)
      by (auto simp: resolved_path_def result_simps dest!: status_normalize_Inr try_copy_Inr try_format_Inr split: if_splits)
    then show ?thesis
    proof cases
      case 1
      with shows_normalized[of v ?r] rel show ?thesis
        by (simp add: a reference_path_def)
    next
      case 2
      then show ?thesis
        by (auto simp: a shows_uri_def)
    next
      case 3
      obtain d where d: "directory (path u) = d @ [SLASH]"
        using directory_slash by blast
      have n: "path v = normal_form (directory (path u) @ ?r) []"
        using normal_form_join[of ?r d] 3 by (simp add: d)
      have "dotless (directory (path u) @ ?r) = dotless ?r"
        using directory_dotless[OF _ d] u by (simp add: d wf_uri_def)
      with shows_normalized[OF n] rel 3 show ?thesis
        by (simp add: a reference_path_def)
    qed
  qed
qed

text \<open>
  The address the status bar shows for the focused link is the one following it requests: the
  same host, port and query, and the same path up to a final slash; without a \<open>..\<close> in the reference,
  the very text the URI displays as.
\<close>

theorem status_shows_request:
  assumes "wf_uri u" "resolve rt u href = Inr v" "resolve_proposed_address rt (uri_display u) href = Inr a"
  shows "shows_uri (dotless (reference_path href)) a v"
proof (cases "starts_with (lit ''atp://'') href")
  case True
  then have parse: "AtpUri_parse rt href = Inr v"
    using assms(2) by (simp add: resolve_def split: if_splits)
  obtain x where x: "try_canonical_absolute_address rt href = Inr x"
    "(case x of Some address \<Rightarrow> Inr address | None \<Rightarrow> try_copy rt href) = Inr a"
    using assms(3) True by (auto simp: resolve_proposed_address_def result_simps)
  from absolute_address[OF parse x(1)] x(2) show ?thesis
    by auto
next
  case False
  then show ?thesis
    using relative_address[OF assms(1) False assms(2,3)] by simp
qed

end
