(* ===== verification/Escape.thy ===== *)
theory Escape
  imports Utf8
begin

text \<open>
  \<open>scanner/escape.rs\<close>: the filter between remote text and the terminal. A byte position in
  the input stands for the text that is left there, so every function here takes and returns
  suffixes of the input.
\<close>

section \<open>Skipping escape sequences\<close>

definition csi_final :: "uchar \<Rightarrow> bool" where
  "csi_final ch \<longleftrightarrow> 0x40 \<le> ch \<and> ch \<le> 0x7E"

text \<open>The loop over the parameters of a control sequence: its final character is consumed.\<close>

fun skip_csi :: "ustr \<Rightarrow> ustr" where
  "skip_csi [] = []"
| "skip_csi (ch # rest) = (if csi_final ch then rest else skip_csi rest)"

fun skip_until_st_or_bel :: "ustr \<Rightarrow> ustr" where
  "skip_until_st_or_bel [] = []"
| "skip_until_st_or_bel (ch # rest) =
     (if ch = 0x07 then rest
      else if ch = 0x9C then rest
      else (case rest of
              c2 # after \<Rightarrow> if ch = 0x1B \<and> c2 = 0x5C then after else skip_until_st_or_bel rest
            | [] \<Rightarrow> skip_until_st_or_bel rest))"

declare skip_until_st_or_bel.simps(2) [simp del]

definition skip_escape_sequence :: "ustr \<Rightarrow> ustr" where
  "skip_escape_sequence input =
     (case input of
        [] \<Rightarrow> []
      | introducer # rest \<Rightarrow>
          if introducer = uc (CHR ''['') then skip_csi rest
          else if introducer = uc (CHR '']'') then skip_until_st_or_bel rest
          else if introducer = uc (CHR ''P'') then skip_until_st_or_bel rest
          else if introducer = uc (CHR ''^'') then skip_until_st_or_bel rest
          else if introducer = uc (CHR ''_'') then skip_until_st_or_bel rest
          else rest)"

definition skip_c1_sequence :: "ustr \<Rightarrow> uchar \<Rightarrow> ustr" where
  "skip_c1_sequence input introducer =
     (if introducer = 0x9B then skip_csi input
      else if introducer \<in> {0x90, 0x9D, 0x9E, 0x9F} then skip_until_st_or_bel input
      else input)"

section \<open>Characters that deceive the reader\<close>

definition is_deceptive_format :: "uchar \<Rightarrow> bool" where
  "is_deceptive_format ch \<longleftrightarrow>
     ch = 0x061C \<or> ch = 0x200E \<or> ch = 0x200F \<or> (0x202A \<le> ch \<and> ch \<le> 0x202E)
     \<or> (0x2066 \<le> ch \<and> ch \<le> 0x2069) \<or> ch = 0x200B \<or> (0x2060 \<le> ch \<and> ch \<le> 0x2064)
     \<or> (0xFFF9 \<le> ch \<and> ch \<le> 0xFFFB) \<or> ch = 0xFEFF"

section \<open>The filter\<close>

text \<open>
  The destination is any \<open>fmt::Write\<close>: writing one character may fail, and the filter then
  stops. A writer returns whether it succeeded and its new state.
\<close>

type_synonym 'o writer = "uchar \<Rightarrow> 'o \<Rightarrow> bool \<times> 'o"

lemma length_skip_csi: "length (skip_csi s) \<le> length s"
  by (induction s) auto

lemma length_skip_st: "length (skip_until_st_or_bel s) \<le> length s"
proof (induction s rule: skip_until_st_or_bel.induct)
  case (2 ch rest)
  then show ?case
    by (subst skip_until_st_or_bel.simps) (auto split: list.splits)
qed simp

lemma length_skip_escape: "length (skip_escape_sequence s) \<le> length s"
proof -
  have "length (skip_csi r) \<le> Suc (length r)" "length (skip_until_st_or_bel r) \<le> Suc (length r)" for r
    using length_skip_csi [of r] length_skip_st [of r] by simp_all
  then show ?thesis
    by (auto simp: skip_escape_sequence_def split: list.splits)
qed

lemma length_skip_c1: "length (skip_c1_sequence s c) \<le> length s"
  by (simp add: skip_c1_sequence_def length_skip_csi length_skip_st)

definition is_c0_stripped :: "uchar \<Rightarrow> bool" where
  "is_c0_stripped ch \<longleftrightarrow> ch \<le> 0x08 \<or> (0x0B \<le> ch \<and> ch \<le> 0x0C) \<or> (0x0E \<le> ch \<and> ch \<le> 0x1A)
     \<or> (0x1C \<le> ch \<and> ch \<le> 0x1F)"

function sanitize_into :: "'o writer \<Rightarrow> ustr \<Rightarrow> 'o \<Rightarrow> bool \<times> 'o" where
  "sanitize_into w [] out = (True, out)"
| "sanitize_into w (ch # rest) out =
     (if ch = TAB \<or> ch = LF then
        (case w ch out of (True, out) \<Rightarrow> sanitize_into w rest out | (False, out) \<Rightarrow> (False, out))
      else if ch = CR then
        (if (case rest of [] \<Rightarrow> False | c2 # _ \<Rightarrow> c2 = LF) then sanitize_into w rest out
         else (case w LF out of (True, out) \<Rightarrow> sanitize_into w rest out | (False, out) \<Rightarrow> (False, out)))
      else if ch = 0x1B then sanitize_into w (skip_escape_sequence rest) out
      else if 0x80 \<le> ch \<and> ch \<le> 0x9F then
        (if ch \<in> {0x90, 0x9B, 0x9D, 0x9E, 0x9F} then sanitize_into w (skip_c1_sequence rest ch) out
         else sanitize_into w rest out)
      else if ch = 0x7F then sanitize_into w rest out
      else if is_c0_stripped ch then sanitize_into w rest out
      else if is_deceptive_format ch then sanitize_into w rest out
      else (case w ch out of (True, out) \<Rightarrow> sanitize_into w rest out | (False, out) \<Rightarrow> (False, out)))"
  by pat_completeness auto
termination
  by (relation "measure (\<lambda>(w, s, out). length s)") (simp_all add: le_imp_less_Suc length_skip_escape length_skip_c1)

text \<open>\<open>String\<close> as a writer never fails.\<close>

definition string_writer :: "ustr writer" where
  "string_writer c out = (True, out @ [c])"

definition sanitize :: "ustr \<Rightarrow> ustr" where
  "sanitize input = snd (sanitize_into string_writer input [])"

section \<open>What passes\<close>

text \<open>The characters a terminal may be given.\<close>

definition safe_char :: "uchar \<Rightarrow> bool" where
  "safe_char c \<longleftrightarrow> c = TAB \<or> c = LF \<or> (32 \<le> c \<and> \<not> is_control c \<and> \<not> is_deceptive_format c)"

definition write_seq :: "'o writer \<Rightarrow> ustr \<Rightarrow> 'o \<Rightarrow> bool \<times> 'o" where
  "write_seq w s out = foldl (\<lambda>(ok, out) c. if ok then w c out else (False, out)) (True, out) s"

lemma write_seq_Nil [simp]: "write_seq w [] out = (True, out)"
  by (simp add: write_seq_def)

lemma foldl_failed: "foldl (\<lambda>(ok, out) c. if ok then w c out else (False, out)) (False, out) s = (False, out)"
  by (induction s) auto

lemma write_seq_Cons:
  "write_seq w (c # s) out = (case w c out of (True, out) \<Rightarrow> write_seq w s out | (False, out) \<Rightarrow> (False, out))"
  by (auto simp: write_seq_def foldl_failed split: prod.splits bool.splits)

text \<open>The characters the filter writes, as a function of the input alone.\<close>

function filtered :: "ustr \<Rightarrow> ustr" where
  "filtered [] = []"
| "filtered (ch # rest) =
     (if ch = CR then (if (case rest of [] \<Rightarrow> False | c2 # _ \<Rightarrow> c2 = LF) then filtered rest else LF # filtered rest)
      else if ch = 0x1B then filtered (skip_escape_sequence rest)
      else if ch \<in> {0x90, 0x9B, 0x9D, 0x9E, 0x9F} then filtered (skip_c1_sequence rest ch)
      else if safe_char ch then ch # filtered rest
      else filtered rest)"
  by pat_completeness auto
termination
  by (relation "measure length") (simp_all add: le_imp_less_Suc length_skip_escape length_skip_c1)

lemma control_cases:
  "ch < 32 \<Longrightarrow> ch = TAB \<or> ch = LF \<or> ch = CR \<or> ch = 0x1B \<or> is_c0_stripped ch"
  "127 \<le> ch \<Longrightarrow> ch = 0x7F \<or> 0x80 \<le> ch"
  unfolding is_c0_stripped_def by presburger+

lemma sanitize_into_eq: "sanitize_into w s out = write_seq w (filtered s) out"
proof (induction s arbitrary: out rule: length_induct)
  case (1 s)
  show ?case
  proof (cases s)
    case (Cons ch rest)
    have r: "sanitize_into w rest out = write_seq w (filtered rest) out" for out
      using 1 Cons by simp
    have e: "sanitize_into w (skip_escape_sequence rest) out = write_seq w (filtered (skip_escape_sequence rest)) out"
      and c: "sanitize_into w (skip_c1_sequence rest ch) out = write_seq w (filtered (skip_c1_sequence rest ch)) out"
      using 1 Cons by (simp_all add: le_imp_less_Suc length_skip_escape length_skip_c1)
    have w: "(case w c out of (True, out) \<Rightarrow> sanitize_into w rest out | (False, out) \<Rightarrow> (False, out)) =
        write_seq w (c # filtered rest) out" for c
      by (simp only: write_seq_Cons r)
    consider (plain) "ch = TAB \<or> ch = LF" | (cr) "ch = CR" | (esc) "ch = 0x1B"
      | (c1) "0x80 \<le> ch \<and> ch \<le> 0x9F" | (del) "ch = 0x7F" | (c0) "is_c0_stripped ch"
      | (dec) "is_deceptive_format ch" | (print) "32 \<le> ch \<and> \<not> is_control ch \<and> \<not> is_deceptive_format ch"
      using control_cases [of ch] by (cases "ch < 32") (auto simp: is_control_def)
    then have "sanitize_into w (ch # rest) out = write_seq w (filtered (ch # rest)) out"
    proof cases
      case plain
      then have "filtered (ch # rest) = ch # filtered rest"
        by (auto simp: safe_char_def)
      then show ?thesis using plain w by (simp only: sanitize_into.simps simp_thms if_True)
    next
      case cr
      then show ?thesis using w [of LF] r by simp
    next
      case esc
      then show ?thesis using e by simp
    next
      case c1
      then have "\<not> safe_char ch" "ch \<noteq> TAB" "ch \<noteq> LF" "ch \<noteq> CR" "ch \<noteq> 0x1B"
        by (auto simp: safe_char_def is_control_def)
      then show ?thesis using c1 c r by simp
    next
      case del
      then have "\<not> safe_char ch" by (simp add: safe_char_def is_control_def)
      then show ?thesis using del r by simp
    next
      case c0
      then have "\<not> safe_char ch" "ch \<noteq> TAB" "ch \<noteq> LF" "ch \<noteq> CR" "ch \<noteq> 0x1B" "ch < 32"
        by (auto simp: safe_char_def is_control_def is_c0_stripped_def)
      then show ?thesis using c0 r by simp
    next
      case dec
      then have "\<not> safe_char ch" "160 < ch"
        by (auto simp: safe_char_def is_deceptive_format_def)
      then show ?thesis using dec r by simp
    next
      case print
      then have "filtered (ch # rest) = ch # filtered rest" "\<not> is_c0_stripped ch" "ch \<noteq> TAB" "ch \<noteq> LF"
        "ch \<noteq> CR" "ch \<noteq> 0x1B" "\<not> (0x80 \<le> ch \<and> ch \<le> 0x9F)" "ch \<noteq> 0x7F"
        by (auto simp: is_c0_stripped_def safe_char_def is_control_def)
      then show ?thesis using print w by (simp only: sanitize_into.simps simp_thms if_False)
    qed
    then show ?thesis by (simp only: Cons)
  qed simp
qed

lemma write_string: "write_seq string_writer s out = (True, out @ s)"
  by (induction s arbitrary: out) (auto simp: write_seq_Cons string_writer_def)

lemma sanitize_eq: "sanitize s = filtered s"
  by (simp add: sanitize_def sanitize_into_eq write_string)

lemma filtered_safe: "c \<in> set (filtered s) \<Longrightarrow> safe_char c"
  by (induction s rule: filtered.induct) (auto simp: safe_char_def split: if_splits)

lemma safe_not_special:
  assumes "safe_char c"
  shows "c \<noteq> CR" "c \<noteq> 0x1B" "c \<notin> {0x90, 0x9B, 0x9D, 0x9E, 0x9F}"
  using assms by (auto simp: safe_char_def is_control_def)

lemma filtered_identity: "list_all safe_char s \<Longrightarrow> filtered s = s"
  by (induction s) (use safe_not_special in auto)

lemma len_skip_csi: "len (skip_csi s) \<le> len s"
  by (induction s) auto

lemma len_skip_st: "len (skip_until_st_or_bel s) \<le> len s"
proof (induction s rule: skip_until_st_or_bel.induct)
  case (2 ch rest)
  then show ?case
    by (subst skip_until_st_or_bel.simps) (auto split: list.splits)
qed simp

lemma len_filtered: "len (filtered s) \<le> len s"
proof (induction s rule: filtered.induct)
  case (2 ch rest)
  have e: "len (skip_escape_sequence rest) \<le> len rest"
    using len_skip_csi len_skip_st by (auto simp: skip_escape_sequence_def trans_le_add2 split: list.splits)
  have c: "len (skip_c1_sequence rest ch) \<le> len rest"
    by (simp add: skip_c1_sequence_def len_skip_csi len_skip_st)
  have "len_utf8 LF = 1" "1 \<le> len_utf8 ch"
    using len_utf8_pos [of ch] by (simp_all add: len_utf8_def)
  then show ?case
    using 2 e c by (auto simp: trans_le_add2 intro: order_trans)
qed simp

text \<open>
  C20: the filter is a filter. Whatever the input, what is written holds only tabs, line feeds
  and printable characters: no escape, no C0 or C1 control, no character that reorders or
  hides text; it is never longer than the input; text that is already safe is unchanged, so
  filtering twice is filtering once; and a destination that can refuse a character receives
  the same characters, up to the one it refuses.
\<close>

theorem sanitize_filters:
  "list_all safe_char (sanitize s) \<and> len (sanitize s) \<le> len s
   \<and> (list_all safe_char s \<longrightarrow> sanitize s = s) \<and> sanitize (sanitize s) = sanitize s
   \<and> sanitize_into w s out = write_seq w (sanitize s) out"
proof -
  have safe: "list_all safe_char (filtered s)"
    using filtered_safe by (auto simp: list_all_iff)
  then show ?thesis
    using filtered_identity [of s] filtered_identity [OF safe] len_filtered
    by (simp add: sanitize_eq sanitize_into_eq)
qed

theorem sanitize_filters_witness:
  "list_all safe_char (lit ''ab'') \<and> sanitize (lit ''ab'') = lit ''ab''"
proof -
  have "list_all safe_char (lit ''ab'')"
    by (simp add: lit_def safe_char_def is_control_def is_deceptive_format_def)
  with sanitize_filters [of "lit ''ab''" string_writer "[]"] show ?thesis by simp
qed

end
