(* ===== verification/Scanner.thy ===== *)
theory Scanner
  imports Escape
begin

text \<open>
  \<open>scanner/mod.rs\<close>: the tokenizer of AML documents. The scanner is the vector of the
  sanitized characters, the position and the number of tokens produced so far; its loops are
  functions of the characters that remain. An error ends the scan, so it carries no scanner.
\<close>

section \<open>Tokens and errors\<close>

datatype AttributeValue = AString ustr | AIdent ustr | AFlag

record Attribute =
  attr_name :: ustr
  attr_value :: AttributeValue

datatype Token =
    OpenTag ustr "Attribute list" bool
  | CloseTag ustr
  | TextToken ustr
  | Eof

datatype ScanError =
    InputTooLarge nat nat
  | InvalidUtf8
  | TooManyTokens nat
  | UnterminatedTag nat
  | UnterminatedString nat
  | InvalidTagName nat
  | AttributeValueTooLong nat
  | TextTooLong nat
  | ScanExhausted nat

type_synonym 'a sresult = "(ScanError, 'a) result"

definition MAX_INPUT_SIZE :: nat where "MAX_INPUT_SIZE = 1024 * 1024"
definition MAX_TOKEN_COUNT :: nat where "MAX_TOKEN_COUNT = 50000"
definition MAX_ATTRIBUTE_VALUE_CHARS :: nat where "MAX_ATTRIBUTE_VALUE_CHARS = 4096"
definition MAX_TEXT_TOKEN_SIZE :: nat where "MAX_TEXT_TOKEN_SIZE = 64 * 1024"

lemmas scan_limits = MAX_INPUT_SIZE_def MAX_TOKEN_COUNT_def MAX_ATTRIBUTE_VALUE_CHARS_def MAX_TEXT_TOKEN_SIZE_def

section \<open>Allocation\<close>

definition try_string :: "runtime \<Rightarrow> nat \<Rightarrow> unit sresult" where
  "try_string rt requested = (if try_reserve rt requested then Inr () else Inl (ScanExhausted requested))"

definition checked_mul :: "nat \<Rightarrow> nat \<Rightarrow> nat option" where
  "checked_mul a b = (if a * b \<le> usize_max then Some (a * b) else None)"

text \<open>The first argument is the length the vector has, the third names its element type.\<close>

definition try_reserve_vec :: "runtime \<Rightarrow> nat \<Rightarrow> nat \<Rightarrow> string \<Rightarrow> unit sresult" where
  "try_reserve_vec rt n additional ty =
     and_then (ok_or (ScanExhausted usize_max)
       (Option.bind (checked_add n additional) (\<lambda>capacity. checked_mul capacity (size_of rt ty)))) (\<lambda>requested.
     if try_reserve rt requested then Inr () else Inl (ScanExhausted requested))"

section \<open>The scanner\<close>

record Scanner =
  sc_chars :: ustr
  sc_pos :: nat
  sc_count :: nat

definition remaining :: "Scanner \<Rightarrow> ustr" where
  "remaining s = drop (sc_pos s) (sc_chars s)"

definition current_char :: "Scanner \<Rightarrow> uchar option" where
  "current_char s = (if sc_pos s < length (sc_chars s) then Some (sc_chars s ! sc_pos s) else None)"

definition peek_ahead :: "Scanner \<Rightarrow> nat \<Rightarrow> uchar option" where
  "peek_ahead s n = (if sc_pos s + n < length (sc_chars s) then Some (sc_chars s ! (sc_pos s + n)) else None)"

definition adv :: "nat \<Rightarrow> Scanner \<Rightarrow> Scanner" where
  "adv n s = s\<lparr>sc_pos := sc_pos s + n\<rparr>"

abbreviation (input) LBR :: uchar where "LBR \<equiv> 91"
abbreviation (input) RBR :: uchar where "RBR \<equiv> 93"
abbreviation (input) SLASHC :: uchar where "SLASHC \<equiv> 47"
abbreviation (input) QUOTE :: uchar where "QUOTE \<equiv> 34"
abbreviation (input) BACKSLASH :: uchar where "BACKSLASH \<equiv> 92"

definition Scanner_new :: "runtime \<Rightarrow> byte list \<Rightarrow> Scanner sresult" where
  "Scanner_new rt input =
     (if length input > MAX_INPUT_SIZE then Inl (InputTooLarge (length input) MAX_INPUT_SIZE)
      else and_then (map_err (\<lambda>_. InvalidUtf8) (from_utf8 input)) (\<lambda>input_str.
           and_then (try_string rt (length input)) (\<lambda>_.
           let sanitized = snd (sanitize_into string_writer input_str []) in
           and_then (try_reserve_vec rt 0 (length sanitized) ''char'') (\<lambda>_.
           Inr \<lparr>sc_chars = sanitized, sc_pos = 0, sc_count = 0\<rparr>))))"

definition skip_whitespace :: "Scanner \<Rightarrow> Scanner" where
  "skip_whitespace s = adv (length (takeWhile is_whitespace (remaining s))) s"

definition name_char :: "uchar \<Rightarrow> bool" where
  "name_char ch \<longleftrightarrow> is_ascii_alphanumeric ch \<or> ch = uc (CHR ''-'') \<or> ch = uc (CHR ''_'')"

definition scan_tag_name :: "runtime \<Rightarrow> Scanner \<Rightarrow> (ustr \<times> Scanner) sresult" where
  "scan_tag_name rt s =
     (let run = takeWhile name_char (remaining s) in
      and_then (try_string rt (length run)) (\<lambda>_.
      Inr (map to_ascii_lowercase run, adv (length run) s)))"

definition scan_attribute_name :: "runtime \<Rightarrow> Scanner \<Rightarrow> (ustr \<times> Scanner) sresult" where
  "scan_attribute_name rt s =
     (let run = takeWhile name_char (remaining s) in
      and_then (try_string rt (length run)) (\<lambda>_.
      Inr (map to_ascii_lowercase run, adv (length run) s)))"

section \<open>Text\<close>

fun starts :: "uchar \<Rightarrow> ustr \<Rightarrow> bool" where
  "starts c [] = False"
| "starts c (x # xs) = (x = c)"

text \<open>The first loop measures the text, the second collects it and counts the characters consumed.\<close>

function text_size :: "nat \<Rightarrow> ustr \<Rightarrow> nat sresult" where
  "text_size requested [] = Inr requested"
| "text_size requested (ch # rest) =
     (if ch = LBR \<and> \<not> starts LBR rest then Inr requested
      else and_then (ok_or (ScanExhausted usize_max) (checked_add requested (len_utf8 ch))) (\<lambda>requested.
           if requested > MAX_TEXT_TOKEN_SIZE then Inl (TextTooLong MAX_TEXT_TOKEN_SIZE)
           else text_size requested (if ch \<in> {LBR, RBR} \<and> starts ch rest then drop 1 rest else rest)))"
  by pat_completeness auto
termination
  by (relation "measure (\<lambda>(n, s). length s)") auto

function text_loop :: "ustr \<Rightarrow> ustr \<times> nat" where
  "text_loop [] = ([], 0)"
| "text_loop (ch # rest) =
     (if ch = LBR then
        (if starts LBR rest then (let (t, n) = text_loop (drop 1 rest) in (LBR # t, n + 2)) else ([], 0))
      else if ch = RBR then
        (if starts RBR rest then (let (t, n) = text_loop (drop 1 rest) in (RBR # t, n + 2))
         else (let (t, n) = text_loop rest in (RBR # t, n + 1)))
      else (let (t, n) = text_loop rest in (ch # t, n + 1)))"
  by pat_completeness auto
termination
  by (relation "measure length") auto

definition scan_text :: "runtime \<Rightarrow> Scanner \<Rightarrow> (Token \<times> Scanner) sresult" where
  "scan_text rt s =
     and_then (text_size 0 (remaining s)) (\<lambda>requested.
     and_then (try_string rt requested) (\<lambda>_.
     let (t, n) = text_loop (remaining s) in Inr (TextToken t, adv n s)))"

section \<open>Attribute values\<close>

text \<open>The characters after the opening quote: the first loop checks and measures, the second decodes.\<close>

fun quoted_size :: "nat \<Rightarrow> nat \<Rightarrow> nat \<Rightarrow> ustr \<Rightarrow> nat sresult" where
  "quoted_size start requested chars [] = Inl (UnterminatedString start)"
| "quoted_size start requested chars (ch # rest) =
     (if ch = QUOTE then Inr requested
      else if ch = BACKSLASH then
        (case rest of
           [] \<Rightarrow> Inl (UnterminatedString start)
         | escaped # rest \<Rightarrow>
             let output_bytes = (if escaped \<in> {QUOTE, BACKSLASH, uc (CHR ''n''), uc (CHR ''t'')} then 1
                                 else 1 + len_utf8 escaped) in
             and_then (ok_or (ScanExhausted usize_max) (checked_add requested output_bytes)) (\<lambda>requested.
             and_then (ok_or (ScanExhausted usize_max) (checked_add chars (if output_bytes = 1 then 1 else 2))) (\<lambda>chars.
             if chars > MAX_ATTRIBUTE_VALUE_CHARS then Inl (AttributeValueTooLong MAX_ATTRIBUTE_VALUE_CHARS)
             else quoted_size start requested chars rest)))
      else and_then (ok_or (ScanExhausted usize_max) (checked_add requested (len_utf8 ch))) (\<lambda>requested.
           and_then (ok_or (ScanExhausted usize_max) (checked_add chars 1)) (\<lambda>chars.
           if chars > MAX_ATTRIBUTE_VALUE_CHARS then Inl (AttributeValueTooLong MAX_ATTRIBUTE_VALUE_CHARS)
           else quoted_size start requested chars rest)))"

definition unescape :: "uchar \<Rightarrow> ustr" where
  "unescape ch = (if ch = QUOTE then [QUOTE] else if ch = BACKSLASH then [BACKSLASH]
     else if ch = uc (CHR ''n'') then [LF] else if ch = uc (CHR ''t'') then [TAB] else [BACKSLASH, ch])"

text \<open>The value and the number of characters consumed, the closing quote included.\<close>

fun quoted_loop :: "ustr \<Rightarrow> (ustr \<times> nat) option" where
  "quoted_loop [] = None"
| "quoted_loop (ch # rest) =
     (if ch = QUOTE then Some ([], 1)
      else if ch = BACKSLASH then
        (case rest of
           [] \<Rightarrow> None
         | c # rest \<Rightarrow> map_option (\<lambda>(v, n). (unescape c @ v, n + 2)) (quoted_loop rest))
      else map_option (\<lambda>(v, n). (ch # v, n + 1)) (quoted_loop rest))"

definition scan_quoted_string :: "runtime \<Rightarrow> Scanner \<Rightarrow> (ustr \<times> Scanner) sresult" where
  "scan_quoted_string rt s =
     (let string_start = sc_pos s in
      and_then (quoted_size string_start 0 0 (drop 1 (remaining s))) (\<lambda>requested.
      and_then (try_string rt requested) (\<lambda>_.
      let s = adv 1 s in
      (case quoted_loop (remaining s) of
         None \<Rightarrow> Inl (UnterminatedString string_start)
       | Some (v, n) \<Rightarrow> Inr (v, adv n s)))))"

definition ends_unquoted :: "uchar \<Rightarrow> bool" where
  "ends_unquoted ch \<longleftrightarrow> is_whitespace ch \<or> ch = RBR \<or> ch = SLASHC"

fun unquoted_size :: "nat \<Rightarrow> nat \<Rightarrow> ustr \<Rightarrow> nat sresult" where
  "unquoted_size requested chars [] = Inr requested"
| "unquoted_size requested chars (ch # rest) =
     (if ends_unquoted ch then Inr requested
      else and_then (ok_or (ScanExhausted usize_max) (checked_add requested (len_utf8 ch))) (\<lambda>requested.
           let chars = chars + 1 in
           if chars > MAX_ATTRIBUTE_VALUE_CHARS then Inl (AttributeValueTooLong MAX_ATTRIBUTE_VALUE_CHARS)
           else unquoted_size requested chars rest))"

definition scan_unquoted_value :: "runtime \<Rightarrow> Scanner \<Rightarrow> (ustr \<times> Scanner) sresult" where
  "scan_unquoted_value rt s =
     and_then (unquoted_size 0 0 (remaining s)) (\<lambda>requested.
     and_then (try_string rt requested) (\<lambda>_.
     let v = takeWhile (\<lambda>ch. \<not> ends_unquoted ch) (remaining s) in Inr (v, adv (length v) s)))"

definition scan_attribute_value :: "runtime \<Rightarrow> Scanner \<Rightarrow> (AttributeValue \<times> Scanner) sresult" where
  "scan_attribute_value rt s =
     and_then (if current_char s = Some QUOTE
               then map_ok (\<lambda>(v, s). (AString v, s)) (scan_quoted_string rt s)
               else map_ok (\<lambda>(v, s). (AIdent v, s)) (scan_unquoted_value rt s)) (\<lambda>(v, s).
     let n = (case v of AString t \<Rightarrow> length t | AIdent t \<Rightarrow> length t | AFlag \<Rightarrow> 0) in
     if n > MAX_ATTRIBUTE_VALUE_CHARS then Inl (AttributeValueTooLong MAX_ATTRIBUTE_VALUE_CHARS)
     else Inr (v, s))"

definition scan_attribute :: "runtime \<Rightarrow> Scanner \<Rightarrow> (Attribute option \<times> Scanner) sresult" where
  "scan_attribute rt s =
     and_then (scan_attribute_name rt s) (\<lambda>(name, s).
     if name = [] then Inr (None, adv 1 s)
     else if current_char s = Some (uc (CHR ''='')) then
       and_then (scan_attribute_value rt (adv 1 s)) (\<lambda>(v, s).
       Inr (Some \<lparr>attr_name = name, attr_value = v\<rparr>, s))
     else Inr (Some \<lparr>attr_name = name, attr_value = AFlag\<rparr>, s))"

section \<open>Progress\<close>

text \<open>What a successful scanning step does to the scanner: only the position moves, and forward.\<close>

definition moves :: "Scanner \<Rightarrow> Scanner \<Rightarrow> bool" where
  "moves s s' \<longleftrightarrow> (\<exists>n. s' = adv n s)"

lemma adv_sel [simp]:
  "sc_chars (adv n s) = sc_chars s" "sc_pos (adv n s) = sc_pos s + n" "sc_count (adv n s) = sc_count s"
  by (simp_all add: adv_def)

lemma adv_adv [simp]: "adv m (adv n s) = adv (n + m) s"
  by (simp add: adv_def add.assoc)

lemma adv_0 [simp]: "adv 0 s = s"
  by (simp add: adv_def)

lemma remaining_adv [simp]: "remaining (adv n s) = drop n (remaining s)"
  by (simp add: remaining_def add.commute)

lemma moves_adv [simp]: "moves s (adv n s)"
  by (auto simp: moves_def)

lemma moves_refl [simp]: "moves s s"
  using moves_adv [of s 0] by simp

lemma moves_trans: "moves s t \<Longrightarrow> moves t u \<Longrightarrow> moves s u"
  by (auto simp: moves_def)

lemma moves_adv_left: "moves (adv n s) u \<Longrightarrow> moves s u"
  using moves_trans moves_adv by blast

lemma moves_sel:
  assumes "moves s s'"
  shows "sc_chars s' = sc_chars s" "sc_pos s \<le> sc_pos s'" "sc_count s' = sc_count s"
  using assms by (auto simp: moves_def)

lemma scan_attribute_value_moves:
  assumes "scan_attribute_value rt s = Inr (v, s')"
  shows "moves s s'"
  using assms
  by (auto simp: scan_attribute_value_def scan_quoted_string_def scan_unquoted_value_def Let_def result_simps
      split: if_splits option.splits prod.splits)

lemma scan_attribute_progress:
  assumes "scan_attribute rt s = Inr (a, s')"
  shows "moves s s' \<and> sc_pos s < sc_pos s'"
proof -
  let ?run = "takeWhile name_char (remaining s)"
  consider (none) "?run = []" "s' = adv 1 s"
    | (val) "?run \<noteq> []" "moves (adv (Suc (length ?run)) s) s'"
    | (flag) "?run \<noteq> []" "s' = adv (length ?run) s"
    using assms scan_attribute_value_moves
    by (fastforce simp: scan_attribute_def scan_attribute_name_def Let_def result_simps split: if_splits)
  then show ?thesis
  proof cases
    case val
    then have "sc_pos s < sc_pos s'"
      using moves_sel(2) by fastforce
    with val show ?thesis
      using moves_adv_left by blast
  qed simp_all
qed

section \<open>Tags\<close>

text \<open>The loop over the attributes of an opening tag.\<close>

function scan_attrs ::
  "runtime \<Rightarrow> nat \<Rightarrow> Attribute list \<Rightarrow> Scanner \<Rightarrow> (Attribute list \<times> bool \<times> Scanner) sresult" where
  "scan_attrs rt tag_start attributes s0 =
     (let s = skip_whitespace s0 in
      case current_char s of
        None \<Rightarrow> Inl (UnterminatedTag tag_start)
      | Some ch \<Rightarrow>
          if ch = RBR then Inr (attributes, False, adv 1 s)
          else if ch = SLASHC \<and> peek_ahead s 1 = Some RBR then Inr (attributes, True, adv 2 s)
          else and_then (try_reserve_vec rt (length attributes) 1 ''Attribute'') (\<lambda>_.
               and_then (scan_attribute rt s) (\<lambda>r.
               scan_attrs rt tag_start
                 (case fst r of Some attr \<Rightarrow> attributes @ [attr] | None \<Rightarrow> attributes) (snd r))))"
  by pat_completeness auto
termination
proof (relation "measure (\<lambda>(rt, t, as, s). length (sc_chars s) - sc_pos s)", goal_cases)
  case (2 rt t as s0 s ch u r)
  then have "sc_pos s < length (sc_chars s)" "moves s (snd r)" "sc_pos s < sc_pos (snd r)" "moves s0 s"
    using scan_attribute_progress [of rt s "fst r" "snd r"]
    by (auto simp: current_char_def skip_whitespace_def split: if_splits)
  then show ?case
    using moves_sel [of s "snd r"] moves_sel [of s0 s] by simp
qed simp

declare scan_attrs.simps [simp del]

definition scan_open_tag :: "runtime \<Rightarrow> nat \<Rightarrow> Scanner \<Rightarrow> (Token \<times> Scanner) sresult" where
  "scan_open_tag rt tag_start s =
     and_then (scan_tag_name rt (skip_whitespace s)) (\<lambda>(name, s).
     if name = [] then Inl (InvalidTagName tag_start)
     else and_then (scan_attrs rt tag_start [] s) (\<lambda>(attributes, self_closing, s).
          Inr (OpenTag name attributes self_closing, s)))"

definition scan_close_tag :: "runtime \<Rightarrow> nat \<Rightarrow> Scanner \<Rightarrow> (Token \<times> Scanner) sresult" where
  "scan_close_tag rt tag_start s =
     and_then (scan_tag_name rt (skip_whitespace s)) (\<lambda>(name, s).
     if name = [] then Inl (InvalidTagName tag_start)
     else let s = skip_whitespace s in
          if current_char s \<noteq> Some RBR then Inl (UnterminatedTag tag_start)
          else Inr (CloseTag name, adv 1 s))"

definition scan_tag_or_escape :: "runtime \<Rightarrow> Scanner \<Rightarrow> (Token \<times> Scanner) sresult" where
  "scan_tag_or_escape rt s =
     (let tag_start = sc_pos s in
      if peek_ahead s 1 = Some LBR then
        and_then (try_string rt 1) (\<lambda>_. Inr (TextToken [LBR], adv 2 s))
      else let s = adv 1 s in
        if current_char s = Some SLASHC then scan_close_tag rt tag_start (adv 1 s)
        else scan_open_tag rt tag_start s)"

section \<open>The token stream\<close>

definition next_token :: "runtime \<Rightarrow> Scanner \<Rightarrow> (Token \<times> Scanner) sresult" where
  "next_token rt s =
     (if sc_pos s \<ge> length (sc_chars s) then Inr (Eof, s)
      else let s = s\<lparr>sc_count := sc_count s + 1\<rparr> in
        if sc_count s > MAX_TOKEN_COUNT then Inl (TooManyTokens MAX_TOKEN_COUNT)
        else if current_char s = Some LBR then
          (if peek_ahead s 1 = Some LBR then scan_text rt s else scan_tag_or_escape rt s)
        else scan_text rt s)"

lemma scan_attrs_progress:
  "scan_attrs rt t as s = Inr (attrs, sc, s') \<Longrightarrow> moves s s' \<and> sc_pos s < sc_pos s'"
proof (induction rt t as s rule: scan_attrs.induct)
  case (1 rt t as s0)
  let ?s = "skip_whitespace s0"
  have m0: "moves s0 ?s"
    by (simp add: skip_whitespace_def)
  consider (one) "s' = adv 1 ?s" | (two) "s' = adv 2 ?s"
    | (more) ch r where "current_char ?s = Some ch" "ch \<noteq> RBR" "\<not> (ch = SLASHC \<and> peek_ahead ?s 1 = Some RBR)"
        "try_reserve_vec rt (length as) 1 ''Attribute'' = Inr ()" "scan_attribute rt ?s = Inr r"
        "scan_attrs rt t (case fst r of Some attr \<Rightarrow> as @ [attr] | None \<Rightarrow> as) (snd r) = Inr (attrs, sc, s')"
    using 1(2) by (subst (asm) scan_attrs.simps)
      (auto simp: Let_def result_simps split: option.splits if_splits)
  then show ?case
  proof cases
    case more
    have "moves (snd r) s'" "sc_pos (snd r) < sc_pos s'"
      using 1(1) [OF refl more(1,2,3,4,5,6)] by blast+
    moreover have "moves ?s (snd r)" "sc_pos ?s < sc_pos (snd r)"
      using more(5) scan_attribute_progress [of rt ?s "fst r" "snd r"] by auto
    ultimately show ?thesis
      using m0 moves_trans moves_sel(2) [OF m0] by (meson less_trans order_le_less_trans)
  next
    case one then show ?thesis using m0 moves_trans moves_sel(2) [OF m0] by fastforce
  next
    case two then show ?thesis using m0 moves_trans moves_sel(2) [OF m0] by fastforce
  qed
qed

lemma scan_tag_or_escape_progress:
  assumes "scan_tag_or_escape rt s = Inr (tok, s')"
  shows "moves s s' \<and> sc_pos s < sc_pos s' \<and> tok \<noteq> Eof"
  using assms
  by (fastforce simp: scan_tag_or_escape_def scan_close_tag_def scan_open_tag_def scan_tag_name_def skip_whitespace_def
      Let_def result_simps split: if_splits dest!: scan_attrs_progress dest: moves_adv_left moves_sel(2))

definition at_text :: "Scanner \<Rightarrow> bool" where
  "at_text s \<longleftrightarrow> sc_pos s < length (sc_chars s)
     \<and> (current_char s = Some LBR \<longrightarrow> peek_ahead s 1 = Some LBR)"

lemma current_char_remaining: "current_char s = (case remaining s of [] \<Rightarrow> None | c # _ \<Rightarrow> Some c)"
  by (cases "sc_pos s < length (sc_chars s)")
    (simp_all add: current_char_def remaining_def Cons_nth_drop_Suc [symmetric])

lemma peek_ahead_remaining: "peek_ahead s n = current_char (adv n s)"
  by (simp add: peek_ahead_def current_char_def)

lemma starts_iff: "starts c s \<longleftrightarrow> (\<exists>t. s = c # t)"
  by (cases s) auto

lemma scan_text_progress:
  assumes "scan_text rt s = Inr (tok, s')" "at_text s"
  shows "moves s s' \<and> sc_pos s < sc_pos s' \<and> tok \<noteq> Eof"
proof -
  obtain c rest where r: "remaining s = c # rest"
    using assms(2) by (cases "remaining s") (auto simp: at_text_def remaining_def)
  have "c = LBR \<Longrightarrow> starts LBR rest"
    using assms(2) by (auto simp: at_text_def peek_ahead_remaining current_char_remaining r starts_iff split: list.splits)
  then have "0 < snd (text_loop (remaining s))"
    by (auto simp: r split: prod.splits)
  with assms(1) show ?thesis
    by (auto simp: scan_text_def result_simps split: prod.splits)
qed

lemma next_token_progress:
  assumes "next_token rt s = Inr (tok, s')" "tok \<noteq> Eof"
  shows "sc_chars s' = sc_chars s \<and> sc_pos s < sc_pos s' \<and> sc_pos s < length (sc_chars s)
    \<and> sc_count s' = sc_count s + 1 \<and> sc_count s' \<le> MAX_TOKEN_COUNT"
proof -
  let ?s = "s\<lparr>sc_count := sc_count s + 1\<rparr>"
  have p: "sc_pos s < length (sc_chars s)" and l: "sc_count s + 1 \<le> MAX_TOKEN_COUNT"
    using assms by (auto simp: next_token_def Let_def split: if_splits)
  consider "at_text ?s" "scan_text rt ?s = Inr (tok, s')" | "scan_tag_or_escape rt ?s = Inr (tok, s')"
    using assms p l by (auto simp: next_token_def at_text_def Let_def split: if_splits)
  then have "moves ?s s' \<and> sc_pos ?s < sc_pos s'"
    using scan_text_progress scan_tag_or_escape_progress by cases blast+
  with p l show ?thesis
    using moves_sel [of ?s s'] by simp
qed

function scan_tokens :: "runtime \<Rightarrow> Token list \<Rightarrow> Scanner \<Rightarrow> (Token list \<times> Scanner) sresult" where
  "scan_tokens rt tokens s =
     and_then (try_reserve_vec rt (length tokens) 1 ''Token'') (\<lambda>_.
     and_then (next_token rt s) (\<lambda>r.
     if fst r = Eof then Inr (tokens @ [fst r], snd r)
     else scan_tokens rt (tokens @ [fst r]) (snd r)))"
  by pat_completeness auto
termination
proof (relation "measure (\<lambda>(rt, ts, s). length (sc_chars s) - sc_pos s)", goal_cases)
  case (2 rt ts s u r)
  then show ?case
    using next_token_progress [of rt s "fst r" "snd r"] by (simp add: diff_less_mono2)
qed simp

declare scan_tokens.simps [simp del]

definition scan_all :: "runtime \<Rightarrow> Scanner \<Rightarrow> (Token list \<times> Scanner) sresult" where
  "scan_all rt s = scan_tokens rt [] s"

text \<open>Scanning a document, as the callers do.\<close>

definition scan :: "runtime \<Rightarrow> byte list \<Rightarrow> Token list sresult" where
  "scan rt input = and_then (Scanner_new rt input) (\<lambda>s. map_ok fst (scan_all rt s))"

end
