(* ===== verification/Serialize.thy ===== *)
theory Serialize
  imports Scanner
begin

text \<open>
  \<open>serialize.rs\<close>: a token stream back to AML text, and the round trip with the scanner. The
  scanner cannot tell adjacent pieces of text apart, drops empty ones, and reads every value it
  is given in quotes as a string, so what comes back is the \<open>normal\<close> form of the tokens.
\<close>

section \<open>The serializer\<close>

datatype SerializeError = TagName ustr | AttributeName ustr

definition name_body :: "uchar \<Rightarrow> bool" where
  "name_body ch \<longleftrightarrow> is_ascii_lowercase ch \<or> is_ascii_digit ch \<or> ch = uc (CHR ''-'') \<or> ch = uc (CHR ''_'')"

definition is_valid_name :: "ustr \<Rightarrow> bool" where
  "is_valid_name name \<longleftrightarrow> name \<noteq> [] \<and> list_all name_body name"

definition escape_text :: "uchar \<Rightarrow> ustr" where
  "escape_text ch = (if ch = LBR then [LBR, LBR] else if ch = RBR then [RBR, RBR] else [ch])"

definition push_text :: "ustr \<Rightarrow> ustr \<Rightarrow> ustr" where
  "push_text t out = out @ concat (map escape_text t)"

definition escape_value :: "uchar \<Rightarrow> ustr" where
  "escape_value ch =
     (if ch = BACKSLASH then [BACKSLASH, BACKSLASH]
      else if ch = QUOTE then [BACKSLASH, QUOTE]
      else if ch = LF then [BACKSLASH, uc (CHR ''n'')]
      else if ch = TAB then [BACKSLASH, uc (CHR ''t'')]
      else [ch])"

definition push_attr_value :: "ustr \<Rightarrow> ustr \<Rightarrow> ustr" where
  "push_attr_value v out = out @ concat (map escape_value v)"

definition push_attribute :: "ustr \<Rightarrow> Attribute \<Rightarrow> (SerializeError, ustr) result" where
  "push_attribute out attr =
     (if \<not> is_valid_name (attr_name attr) then Inl (AttributeName (attr_name attr))
      else let out = out @ [32] @ attr_name attr in
        Inr (case attr_value attr of
            AFlag \<Rightarrow> out
          | AString v \<Rightarrow> push_attr_value v (out @ [uc (CHR ''=''), QUOTE]) @ [QUOTE]
          | AIdent v \<Rightarrow> push_attr_value v (out @ [uc (CHR ''=''), QUOTE]) @ [QUOTE]))"

definition push_token :: "ustr \<Rightarrow> Token \<Rightarrow> (SerializeError, ustr) result" where
  "push_token out token =
     (case token of
        TextToken t \<Rightarrow> Inr (push_text t out)
      | OpenTag name attributes self_closing \<Rightarrow>
          if \<not> is_valid_name name then Inl (TagName name)
          else and_then (try_fold push_attribute (out @ [LBR] @ name) attributes) (\<lambda>out.
               Inr (if self_closing then out @ [32, SLASHC, RBR] else out @ [RBR]))
      | CloseTag name \<Rightarrow>
          if \<not> is_valid_name name then Inl (TagName name)
          else Inr (out @ [LBR, SLASHC] @ name @ [RBR])
      | Eof \<Rightarrow> Inr out)"

definition to_aml :: "Token list \<Rightarrow> (SerializeError, ustr) result" where
  "to_aml tokens = try_fold push_token [] tokens"

section \<open>The text of a token\<close>

definition value_text :: "ustr \<Rightarrow> ustr" where
  "value_text v = [uc (CHR ''=''), QUOTE] @ concat (map escape_value v) @ [QUOTE]"

definition attr_tail :: "Attribute \<Rightarrow> ustr" where
  "attr_tail a = (case attr_value a of AFlag \<Rightarrow> [] | AString v \<Rightarrow> value_text v | AIdent v \<Rightarrow> value_text v)"

definition attr_text :: "Attribute \<Rightarrow> ustr" where
  "attr_text a = [32] @ attr_name a @ attr_tail a"

definition tag_end :: "bool \<Rightarrow> ustr" where
  "tag_end self_closing = (if self_closing then [32, SLASHC, RBR] else [RBR])"

fun token_text :: "Token \<Rightarrow> ustr" where
  "token_text (TextToken t) = concat (map escape_text t)"
| "token_text (OpenTag n as sc) = [LBR] @ n @ concat (map attr_text as) @ tag_end sc"
| "token_text (CloseTag n) = [LBR, SLASHC] @ n @ [RBR]"
| "token_text Eof = []"

definition names_ok :: "Attribute list \<Rightarrow> bool" where
  "names_ok as \<longleftrightarrow> list_all (\<lambda>a. is_valid_name (attr_name a)) as"

fun token_named :: "Token \<Rightarrow> bool" where
  "token_named (OpenTag n as sc) \<longleftrightarrow> is_valid_name n \<and> names_ok as"
| "token_named (CloseTag n) \<longleftrightarrow> is_valid_name n"
| "token_named _ \<longleftrightarrow> True"

definition aml :: "Token list \<Rightarrow> ustr" where
  "aml ts = concat (map token_text ts)"

lemma aml_simps [simp]: "aml [] = []" "aml (t # ts) = token_text t @ aml ts"
  by (simp_all add: aml_def)

lemma push_attribute_eq:
  "push_attribute out a = (if is_valid_name (attr_name a) then Inr (out @ attr_text a) else Inl (AttributeName (attr_name a)))"
  by (auto simp: push_attribute_def attr_text_def attr_tail_def value_text_def push_attr_value_def split: AttributeValue.splits)

lemma push_attributes:
  "try_fold push_attribute out as = Inr r \<longleftrightarrow> names_ok as \<and> r = out @ concat (map attr_text as)"
  by (induction as arbitrary: out) (auto simp: push_attribute_eq names_ok_def)

lemma push_token_Inr: "push_token out t = Inr r \<longleftrightarrow> token_named t \<and> r = out @ token_text t"
  by (cases t) (auto simp: push_token_def push_text_def tag_end_def push_attributes result_simps)

text \<open>Serialization succeeds exactly when every name is one the scanner reads back.\<close>

lemma to_aml_Inr: "to_aml ts = Inr out \<longleftrightarrow> list_all token_named ts \<and> out = aml ts"
proof -
  have "try_fold push_token acc ts = Inr out \<longleftrightarrow> list_all token_named ts \<and> out = acc @ aml ts" for acc
    by (induction ts arbitrary: acc) (auto simp: push_token_Inr result_simps)
  then show ?thesis by (simp add: to_aml_def)
qed

section \<open>Normal forms\<close>

definition normal_value :: "AttributeValue \<Rightarrow> AttributeValue" where
  "normal_value v = (case v of AIdent s \<Rightarrow> AString s | _ \<Rightarrow> v)"

definition normal_attr :: "Attribute \<Rightarrow> Attribute" where
  "normal_attr a = a\<lparr>attr_value := normal_value (attr_value a)\<rparr>"

definition join_text :: "ustr \<Rightarrow> Token list \<Rightarrow> Token list" where
  "join_text t ts =
     (if t = [] then ts
      else case ts of TextToken u # us \<Rightarrow> TextToken (t @ u) # us | _ \<Rightarrow> TextToken t # ts)"

fun normal :: "Token list \<Rightarrow> Token list" where
  "normal [] = []"
| "normal (TextToken t # ts) = join_text t (normal ts)"
| "normal (OpenTag n as sc # ts) = OpenTag n (map normal_attr as) sc # normal ts"
| "normal (CloseTag n # ts) = CloseTag n # normal ts"
| "normal (Eof # ts) = normal ts"

text \<open>The limits of the scanner, on tokens in normal form.\<close>

definition value_fits :: "AttributeValue \<Rightarrow> bool" where
  "value_fits v = (case v of AString s \<Rightarrow> length s \<le> MAX_ATTRIBUTE_VALUE_CHARS
     | AIdent s \<Rightarrow> length s \<le> MAX_ATTRIBUTE_VALUE_CHARS | AFlag \<Rightarrow> True)"

fun token_fits :: "Token \<Rightarrow> bool" where
  "token_fits (OpenTag n as sc) \<longleftrightarrow> list_all (\<lambda>a. value_fits (attr_value a)) as"
| "token_fits (TextToken t) \<longleftrightarrow> len t \<le> MAX_TEXT_TOKEN_SIZE"
| "token_fits _ \<longleftrightarrow> True"

text \<open>The streams the scanner can produce: no empty text, no two texts in a row, no marker inside.\<close>

fun canonical :: "Token list \<Rightarrow> bool" where
  "canonical [] \<longleftrightarrow> True"
| "canonical (t # ts) \<longleftrightarrow> canonical ts \<and> t \<noteq> Eof
     \<and> (case t of TextToken u \<Rightarrow> u \<noteq> [] \<and> (case ts of TextToken _ # _ \<Rightarrow> False | _ \<Rightarrow> True) | _ \<Rightarrow> True)"

lemma canonical_join: "canonical ts \<Longrightarrow> canonical (join_text t ts)"
  by (cases ts; cases "hd ts") (auto simp: join_text_def)

lemma canonical_normal: "canonical (normal ts)"
  by (induction ts rule: normal.induct) (simp_all add: canonical_join)

lemma aml_join: "aml (join_text t ts) = concat (map escape_text t) @ aml ts"
  by (cases ts; cases "hd ts") (auto simp: join_text_def)

lemma attr_text_normal [simp]: "attr_text (normal_attr a) = attr_text a"
  by (simp add: attr_text_def attr_tail_def normal_attr_def normal_value_def split: AttributeValue.split)

lemma aml_normal: "aml (normal ts) = aml ts"
  by (induction ts rule: normal.induct) (simp_all add: aml_join comp_def)

section \<open>Reading it back\<close>

lemma ample_try_string: "ample rt \<Longrightarrow> n \<le> 2 ^ 40 \<Longrightarrow> try_string rt n = Inr ()"
  by (simp add: try_string_def ample_try_reserve isize_max_def)

lemma ample_reserve_vec:
  assumes "ample rt" "n + k \<le> 2 ^ 40"
  shows "try_reserve_vec rt n k ty = Inr ()"
proof -
  have "(n + k) * size_of rt ty \<le> 2 ^ 40 * 2 ^ 20"
    using assms by (intro mult_le_mono ample_size_of)
  then show ?thesis
    using assms by (simp add: try_reserve_vec_def checked_add_def checked_mul_def usize_max_def isize_max_def ample_try_reserve)
qed

definition tag_or_end :: "ustr \<Rightarrow> bool" where
  "tag_or_end rest \<longleftrightarrow> rest = [] \<or> (\<exists>r. rest = LBR # r \<and> \<not> starts LBR r)"

lemma text_loop_escape:
  "tag_or_end rest \<Longrightarrow> text_loop (concat (map escape_text t) @ rest) = (t, length (concat (map escape_text t)))"
  by (induction t) (auto simp: tag_or_end_def escape_text_def)

lemma text_size_escape:
  "tag_or_end rest \<Longrightarrow> n + len t \<le> MAX_TEXT_TOKEN_SIZE \<Longrightarrow>
   text_size n (concat (map escape_text t) @ rest) = Inr (n + len t)"
proof (induction t arbitrary: n)
  case (Cons c t)
  then show ?case
    by (auto simp: escape_text_def checked_add_def scan_limits usize_max_def add.assoc)
qed (auto simp: tag_or_end_def)

lemma len_le_4: "len v \<le> 4 * length v"
proof (induction v)
  case (Cons c v)
  then show ?case using len_utf8_le [of c] by simp
qed simp

lemma quoted_size_escape:
  "req + len v \<le> 2 ^ 40 \<Longrightarrow> chars + length v \<le> MAX_ATTRIBUTE_VALUE_CHARS \<Longrightarrow>
   quoted_size start req chars (concat (map escape_value v) @ QUOTE # rest) = Inr (req + len v)"
proof (induction v arbitrary: req chars)
  case (Cons c v)
  then show ?case
    by (auto simp: escape_value_def checked_add_def scan_limits usize_max_def add.assoc len_utf8_def)
qed simp

lemma quoted_loop_escape:
  "quoted_loop (concat (map escape_value v) @ QUOTE # rest) = Some (v, length (concat (map escape_value v)) + 1)"
  by (induction v) (auto simp: escape_value_def unescape_def)

lemma scan_value_escape:
  assumes "ample rt" "remaining s = QUOTE # concat (map escape_value v) @ QUOTE # rest"
    and "length v \<le> MAX_ATTRIBUTE_VALUE_CHARS"
  shows "scan_attribute_value rt s = Inr (AString v, adv (length (concat (map escape_value v)) + 2) s)"
proof -
  have "len v \<le> 2 ^ 40"
    using len_le_4 [of v] assms(3) by (simp add: scan_limits)
  then show ?thesis
    using assms
    by (simp add: scan_attribute_value_def scan_quoted_string_def current_char_remaining quoted_size_escape
        quoted_loop_escape ample_try_string Let_def map_ok_def)
qed

lemma name_body_char:
  assumes "name_body c"
  shows "name_char c" "to_ascii_lowercase c = c" "\<not> is_whitespace c" "c \<noteq> RBR" "c \<noteq> SLASHC" "c \<noteq> LBR" "safe_char c"
  using assms
  by (auto simp: name_body_def name_char_def is_ascii_alphanumeric_def is_ascii_alphabetic_def to_ascii_lowercase_def
      is_ascii_lowercase_def is_ascii_uppercase_def is_ascii_digit_def is_whitespace_def safe_char_def is_control_def
      is_deceptive_format_def)

lemma valid_name_run:
  assumes "is_valid_name n" "rest = [] \<or> \<not> name_char (hd rest)"
  shows "takeWhile name_char (n @ rest) = n" "map to_ascii_lowercase n = n"
proof -
  have "\<And>c. c \<in> set n \<Longrightarrow> name_char c \<and> to_ascii_lowercase c = c"
    using assms(1) name_body_char by (auto simp: is_valid_name_def list_all_iff)
  then show "takeWhile name_char (n @ rest) = n" "map to_ascii_lowercase n = n"
    using assms(2) by (auto simp: takeWhile_append2 map_idI) (cases rest; simp)
qed

lemma valid_name_first:
  assumes "is_valid_name n"
  obtains c m where "n = c # m" "name_body c"
  using assms by (cases n) (auto simp: is_valid_name_def)

lemma scan_attribute_text:
  assumes "ample rt" "remaining s = attr_name a @ attr_tail a @ c # rest"
    and "c = 32 \<or> c = RBR" "is_valid_name (attr_name a)" "value_fits (attr_value a)" "length (remaining s) \<le> 2 ^ 40"
  shows "scan_attribute rt s = Inr (Some (normal_attr a), adv (length (attr_text a) - 1) s)"
proof -
  have c: "\<not> name_char c" "c \<noteq> uc (CHR ''='')" "\<not> name_char (uc (CHR ''=''))"
    using assms(3) by (auto simp: name_char_def is_ascii_alphanumeric_def is_ascii_alphabetic_def
        is_ascii_lowercase_def is_ascii_uppercase_def is_ascii_digit_def)
  have "takeWhile name_char (remaining s) = attr_name a" "map to_ascii_lowercase (attr_name a) = attr_name a"
    unfolding assms(2) using c valid_name_run [OF assms(4), of "attr_tail a @ c # rest"]
    by (auto simp: attr_tail_def value_text_def split: AttributeValue.splits)
  moreover have "length (attr_name a) \<le> 2 ^ 40" "attr_name a \<noteq> []"
    using assms(2,4,6) by (simp_all add: is_valid_name_def)
  ultimately show ?thesis
    using assms(1,2,5) c
    by (cases a; cases "attr_value a")
      (simp_all add: attr_tail_def scan_attribute_def scan_attribute_name_def ample_try_string current_char_remaining value_text_def
        attr_text_def normal_attr_def normal_value_def value_fits_def Let_def
        scan_value_escape [of rt _ _ "c # rest"])
qed

lemma skip_space:
  assumes "remaining s = 32 # c # rest" "\<not> is_whitespace c"
  shows "skip_whitespace s = adv 1 s"
  using assms by (simp add: skip_whitespace_def is_whitespace_def)

lemma skip_nothing:
  assumes "remaining s = c # rest" "\<not> is_whitespace c"
  shows "skip_whitespace s = s"
  using assms by (simp add: skip_whitespace_def)

lemma white_free: "\<not> is_whitespace RBR" "\<not> is_whitespace SLASHC"
  by (simp_all add: is_whitespace_def)

lemma scan_attrs_end:
  assumes "remaining s = tag_end sc @ rest"
  shows "scan_attrs rt t acc s = Inr (acc, sc, adv (length (tag_end sc)) s)"
proof (cases sc)
  case True
  then have "skip_whitespace s = adv 1 s"
    using assms skip_space [of s SLASHC] white_free by (simp add: tag_end_def)
  with True assms show ?thesis
    by (subst scan_attrs.simps) (simp add: tag_end_def current_char_remaining peek_ahead_remaining)
next
  case False
  then have "skip_whitespace s = s"
    using assms skip_nothing [of s RBR] white_free by (simp add: tag_end_def)
  with False assms show ?thesis
    by (subst scan_attrs.simps) (simp add: tag_end_def current_char_remaining)
qed

definition after_attr :: "Attribute list \<Rightarrow> bool \<Rightarrow> ustr \<Rightarrow> ustr" where
  "after_attr as sc rest = concat (map attr_text as) @ tag_end sc @ rest"

lemma after_attr_first: "\<exists>c r. after_attr as sc rest = c # r \<and> (c = 32 \<or> c = RBR)"
  by (cases as) (auto simp: after_attr_def attr_text_def tag_end_def)

lemma scan_attrs_text:
  assumes "ample rt" "names_ok as" "list_all (\<lambda>a. value_fits (attr_value a)) as"
    and "remaining s = after_attr as sc rest" "length acc + length (remaining s) \<le> 2 ^ 39"
  shows "scan_attrs rt t acc s =
    Inr (acc @ map normal_attr as, sc, adv (length (concat (map attr_text as) @ tag_end sc)) s)"
  using assms
proof (induction as arbitrary: acc s)
  case Nil
  then show ?case
    using scan_attrs_end by (simp add: after_attr_def)
next
  case (Cons a as)
  let ?s = "adv 1 s"
  have v: "is_valid_name (attr_name a)" "names_ok as"
    using Cons.prems(2) by (simp_all add: names_ok_def)
  obtain c r where r: "after_attr as sc rest = c # r" "c = 32 \<or> c = RBR"
    using after_attr_first by blast
  have rem: "remaining s = 32 # attr_name a @ attr_tail a @ c # r"
    using Cons.prems(4) r(1) by (simp add: after_attr_def attr_text_def)
  obtain d m where d: "attr_name a = d # m" "name_body d"
    using valid_name_first [OF v(1)] .
  have skip: "skip_whitespace s = ?s" and cur: "current_char ?s = Some d"
    using rem d name_body_char(3) skip_space [of s d] by (simp_all add: current_char_remaining)
  have attr: "scan_attribute rt ?s = Inr (Some (normal_attr a), adv (length (attr_text a)) s)"
    using scan_attribute_text [OF Cons.prems(1) _ r(2) v(1), of ?s r] rem Cons.prems(3,5)
    by (simp add: attr_text_def)
  have len: "length (remaining (adv (length (attr_text a)) s)) < length (remaining s)"
    using rem by (simp add: attr_text_def)
  have "scan_attrs rt t acc s = scan_attrs rt t (acc @ [normal_attr a]) (adv (length (attr_text a)) s)"
    using cur attr d name_body_char(4,5) Cons.prems(1,5)
    by (subst scan_attrs.simps) (simp add: skip ample_reserve_vec)
  also have "\<dots> = Inr (acc @ map normal_attr (a # as), sc, adv (length (concat (map attr_text (a # as)) @ tag_end sc)) s)"
  proof -
    have "remaining (adv (length (attr_text a)) s) = after_attr as sc rest"
      using rem r(1) by (simp add: attr_text_def)
    moreover have "length (acc @ [normal_attr a]) + length (remaining (adv (length (attr_text a)) s)) \<le> 2 ^ 39"
      using len Cons.prems(5) unfolding length_append by (simp del: remaining_adv)
    ultimately show ?thesis
      using Cons.IH [of "adv (length (attr_text a)) s" "acc @ [normal_attr a]"] Cons.prems(1,3) v(2)
      by (simp add: add.assoc)
  qed
  finally show ?case .
qed

lemma next_token_cases:
  assumes "remaining s = c # rest" "sc_count s < MAX_TOKEN_COUNT"
  shows "next_token rt s =
    (if c = LBR \<and> \<not> starts LBR rest then scan_tag_or_escape rt (s\<lparr>sc_count := sc_count s + 1\<rparr>)
     else scan_text rt (s\<lparr>sc_count := sc_count s + 1\<rparr>))"
proof -
  have "sc_pos s < length (sc_chars s)"
    using assms(1) by (auto simp: remaining_def not_le intro: ccontr)
  moreover have "remaining (s\<lparr>sc_count := n\<rparr>) = c # rest" for n
    using assms(1) by (simp add: remaining_def)
  ultimately show ?thesis
    using assms(2)
    by (cases rest) (auto simp: next_token_def Let_def current_char_remaining peek_ahead_remaining)
qed

text \<open>One token: the scanner, standing at its text, returns it and stands after it.\<close>

definition reads :: "runtime \<Rightarrow> Scanner \<Rightarrow> Token \<Rightarrow> bool" where
  "reads rt s tok \<longleftrightarrow>
     next_token rt s = Inr (tok, adv (length (token_text tok)) (s\<lparr>sc_count := sc_count s + 1\<rparr>))"

lemma remaining_count [simp]: "remaining (s\<lparr>sc_count := n\<rparr>) = remaining s"
  by (simp add: remaining_def)

lemma reads_text:
  assumes "ample rt" "remaining s = token_text (TextToken t) @ rest" "sc_count s < MAX_TOKEN_COUNT"
    and "t \<noteq> []" "tag_or_end rest" "len t \<le> MAX_TEXT_TOKEN_SIZE"
  shows "reads rt s (TextToken t)"
proof -
  obtain c u where cu: "t = c # u" using assms(4) by (cases t) auto
  have "\<exists>d r. remaining s = d # r \<and> (d = LBR \<longrightarrow> starts LBR r)"
    using assms(2) by (auto simp: cu escape_text_def)
  moreover have "len t \<le> 2 ^ 40"
    using assms(6) by (simp add: scan_limits)
  ultimately show ?thesis
    using assms next_token_cases [OF _ assms(3)] text_size_escape [OF assms(5), of 0 t] text_loop_escape [OF assms(5), of t]
    by (auto simp: reads_def scan_text_def ample_try_string)
qed

lemma reads_close:
  assumes "ample rt" "remaining s = token_text (CloseTag n) @ rest" "sc_count s < MAX_TOKEN_COUNT"
    and "is_valid_name n" "length (remaining s) \<le> 2 ^ 39"
  shows "reads rt s (CloseTag n)"
proof -
  obtain d m where d: "n = d # m" "name_body d" using valid_name_first [OF assms(4)] .
  have run: "takeWhile name_char (n @ RBR # rest) = n" "map to_ascii_lowercase n = n"
    using valid_name_run [OF assms(4), of "RBR # rest"]
    by (simp_all add: name_char_def is_ascii_alphanumeric_def is_ascii_alphabetic_def
        is_ascii_lowercase_def is_ascii_uppercase_def is_ascii_digit_def)
  have "skip_whitespace u = u" if "remaining u = n @ RBR # rest" for u
    using that d name_body_char(3) skip_nothing by auto
  moreover have "skip_whitespace u = u" if "remaining u = RBR # rest" for u
    using that white_free skip_nothing by auto
  ultimately show ?thesis
    using assms d(1) run next_token_cases [of s LBR] 
    by (simp add: reads_def scan_tag_or_escape_def scan_close_tag_def scan_tag_name_def peek_ahead_remaining
        current_char_remaining ample_try_string Let_def)
qed

lemma reads_open:
  assumes "ample rt" "remaining s = token_text (OpenTag n as sc) @ rest" "sc_count s < MAX_TOKEN_COUNT"
    and "is_valid_name n" "names_ok as" "list_all (\<lambda>a. value_fits (attr_value a)) as"
    and "length (remaining s) \<le> 2 ^ 39" "map normal_attr as = as"
  shows "reads rt s (OpenTag n as sc)"
proof -
  obtain d m where d: "n = d # m" "name_body d" using valid_name_first [OF assms(4)] .
  obtain c r where c: "after_attr as sc rest = c # r" "c = 32 \<or> c = RBR"
    using after_attr_first by blast
  have rem: "remaining s = LBR # n @ after_attr as sc rest"
    using assms(2) by (simp add: after_attr_def)
  have run: "takeWhile name_char (n @ after_attr as sc rest) = n" "map to_ascii_lowercase n = n"
    using c valid_name_run [OF assms(4), of "c # r"]
    by (auto simp: name_char_def is_ascii_alphanumeric_def is_ascii_alphabetic_def
        is_ascii_lowercase_def is_ascii_uppercase_def is_ascii_digit_def)
  let ?t = "s\<lparr>sc_count := sc_count s + 1\<rparr>"
  have skip: "skip_whitespace (adv 1 ?t) = adv 1 ?t"
    using rem d name_body_char(3) skip_nothing [of "adv 1 ?t" d] by simp
  have name: "scan_tag_name rt (adv 1 ?t) = Inr (n, adv (Suc (length n)) ?t)"
    using run rem assms(1,7) by (simp add: scan_tag_name_def ample_try_string)
  have attrs: "scan_attrs rt (sc_pos s) [] (adv (Suc (length n)) ?t) =
      Inr (as, sc, adv (length (token_text (OpenTag n as sc))) ?t)"
    using scan_attrs_text [OF assms(1,5,6), of "adv (Suc (length n)) ?t" sc rest "[]"] rem assms(7,8) by simp
  have "next_token rt s = scan_tag_or_escape rt ?t"
    using next_token_cases [of s LBR "n @ after_attr as sc rest"] rem assms(3) d name_body_char(6) by auto
  also have "\<dots> = scan_open_tag rt (sc_pos s) (adv 1 ?t)"
    using rem d name_body_char(5,6)
    by (simp add: scan_tag_or_escape_def peek_ahead_remaining current_char_remaining Let_def)
  also have "\<dots> = Inr (OpenTag n as sc, adv (length (token_text (OpenTag n as sc))) ?t)"
  proof -
    have "n \<noteq> []" using d(1) by simp
    then show ?thesis by (simp only: scan_open_tag_def skip name attrs and_then_Inr prod.case if_False)
  qed
  finally show ?thesis
    by (simp add: reads_def)
qed

fun in_normal_form :: "Token \<Rightarrow> bool" where
  "in_normal_form (OpenTag n as sc) \<longleftrightarrow> map normal_attr as = as"
| "in_normal_form _ \<longleftrightarrow> True"

lemma token_text_tag:
  assumes "token_named t" "\<nexists>u. t = TextToken u" "t \<noteq> Eof"
  shows "\<exists>r. token_text t = LBR # r \<and> r \<noteq> [] \<and> \<not> starts LBR (r @ x)"
proof (cases t)
  case (OpenTag n as sc)
  then obtain d m where "n = d # m" "name_body d"
    using assms(1) valid_name_first by (metis token_named.simps(1))
  with OpenTag show ?thesis using name_body_char(6) by auto
qed (use assms in auto)

lemma aml_tag_or_end:
  assumes "canonical (TextToken t # ts)" "list_all token_named ts"
  shows "tag_or_end (aml ts)"
proof (cases ts)
  case (Cons u us)
  with assms have "token_named u" "\<nexists>v. u = TextToken v" "u \<noteq> Eof"
    by (auto split: Token.splits)
  from token_text_tag [OF this, of "aml us"] show ?thesis
    by (auto simp: tag_or_end_def Cons)
qed (simp add: tag_or_end_def)

lemma scan_tokens_text:
  assumes "ample rt" "canonical ts" "list_all token_named ts" "list_all token_fits ts" "list_all in_normal_form ts"
    and "remaining s = aml ts" "sc_count s + length ts \<le> MAX_TOKEN_COUNT" "length (aml ts) \<le> 2 ^ 39"
    and "length acc + length ts < 2 ^ 40" "sc_pos s + length (aml ts) = length (sc_chars s)"
  shows "map_ok fst (scan_tokens rt acc s) = Inr (acc @ ts @ [Eof])"
  using assms
proof (induction ts arbitrary: acc s)
  case Nil
  then have "next_token rt s = Inr (Eof, s)"
    by (simp add: next_token_def)
  with Nil show ?case
    by (subst scan_tokens.simps) (simp add: ample_reserve_vec map_ok_def)
next
  case (Cons t ts)
  let ?s = "adv (length (token_text t)) (s\<lparr>sc_count := sc_count s + 1\<rparr>)"
  have "reads rt s t"
  proof (cases t)
    case (TextToken u)
    then show ?thesis
      using Cons.prems aml_tag_or_end [of u ts] by (simp only: TextToken) (rule reads_text [of rt s u "aml ts"]; simp)
  next
    case (OpenTag n as sc)
    then show ?thesis
      using Cons.prems by (simp only: OpenTag) (rule reads_open [of rt s n as sc "aml ts"]; simp)
  next
    case (CloseTag n)
    then show ?thesis
      using Cons.prems by (simp only: CloseTag) (rule reads_close [of rt s n "aml ts"]; simp)
  qed (use Cons.prems in simp)
  moreover have "t \<noteq> Eof" using Cons.prems(2) by simp
  ultimately have "scan_tokens rt acc s = scan_tokens rt (acc @ [t]) ?s"
    using Cons.prems(1,9) by (subst scan_tokens.simps) (simp add: reads_def ample_reserve_vec)
  then show ?case
    using Cons.IH [of ?s "acc @ [t]"] Cons.prems by simp
qed

section \<open>The round trip\<close>

text \<open>The characters a scanner passes on unchanged.\<close>

definition printable :: "uchar \<Rightarrow> bool" where
  "printable c \<longleftrightarrow> is_scalar c \<and> safe_char c"

definition value_printable :: "AttributeValue \<Rightarrow> bool" where
  "value_printable v = (case v of AString s \<Rightarrow> list_all printable s | AIdent s \<Rightarrow> list_all printable s | AFlag \<Rightarrow> True)"

fun token_printable :: "Token \<Rightarrow> bool" where
  "token_printable (OpenTag n as sc) \<longleftrightarrow> list_all (\<lambda>a. value_printable (attr_value a)) as"
| "token_printable (TextToken t) \<longleftrightarrow> list_all printable t"
| "token_printable _ \<longleftrightarrow> True"

lemma printable_ascii: "32 \<le> c \<Longrightarrow> c < 127 \<Longrightarrow> printable c"
  by (simp add: printable_def is_scalar_def safe_char_def is_control_def is_deceptive_format_def)

lemma printable_name: "is_valid_name n \<Longrightarrow> list_all printable n"
  by (auto simp: is_valid_name_def list_all_iff name_body_def is_ascii_lowercase_def is_ascii_digit_def intro!: printable_ascii)

lemma printable_escapes:
  "list_all printable t \<Longrightarrow> list_all printable (concat (map escape_text t))"
  "list_all printable t \<Longrightarrow> list_all printable (concat (map escape_value t))"
  by (induction t) (auto simp: escape_text_def escape_value_def printable_ascii)

lemma printable_attr:
  "is_valid_name (attr_name a) \<Longrightarrow> value_printable (attr_value a) \<Longrightarrow> list_all printable (attr_text a)"
  by (auto simp: attr_text_def attr_tail_def value_text_def value_printable_def printable_ascii printable_name
      printable_escapes split: AttributeValue.splits)

lemma printable_token:
  assumes "token_named t" "token_printable t"
  shows "list_all printable (token_text t)"
proof (cases t)
  case (OpenTag n as sc)
  have "list_all printable (concat (map attr_text as))"
    using assms OpenTag printable_attr by (auto simp: names_ok_def list_all_iff)
  then show ?thesis
    using assms OpenTag by (auto simp: printable_ascii printable_name tag_end_def)
qed (use assms in \<open>auto simp: printable_ascii printable_name printable_escapes\<close>)

lemma printable_aml:
  "list_all token_named ts \<Longrightarrow> list_all token_printable ts \<Longrightarrow> list_all printable (aml ts)"
  by (induction ts) (auto simp: printable_token)

lemma named_normal: "list_all token_named ts \<Longrightarrow> list_all token_named (normal ts)"
proof (induction ts rule: normal.induct)
  case (2 t ts)
  then show ?case by (cases "normal ts"; cases "hd (normal ts)") (auto simp: join_text_def)
qed (auto simp: names_ok_def list_all_iff normal_attr_def)

lemma normal_attr_idem [simp]: "normal_attr (normal_attr a) = normal_attr a"
  by (simp add: normal_attr_def normal_value_def split: AttributeValue.split)

lemma in_normal_form_normal: "list_all in_normal_form (normal ts)"
proof (induction ts rule: normal.induct)
  case (2 t ts)
  then show ?case by (cases "normal ts"; cases "hd (normal ts)") (auto simp: join_text_def)
qed auto

lemma Scanner_new_printable:
  assumes "ample rt" "list_all printable out" "len out \<le> MAX_INPUT_SIZE"
  shows "Scanner_new rt (utf8 out) = Inr \<lparr>sc_chars = out, sc_pos = 0, sc_count = 0\<rparr>"
proof -
  have v: "valid_str out" and p: "list_all safe_char out"
    using assms(2) by (auto simp: valid_str_def printable_def list_all_iff)
  then have "snd (sanitize_into string_writer out []) = out"
    by (simp add: sanitize_into_eq write_string filtered_identity)
  then show ?thesis
    using assms v length_le_len [of out]
    by (simp add: Scanner_new_def ample_try_string ample_reserve_vec scan_limits Let_def)
qed

lemma scan_aml:
  assumes "ample rt" "list_all token_named ts" "list_all token_printable ts" "list_all token_fits (normal ts)"
    and "length (normal ts) \<le> MAX_TOKEN_COUNT" "len (aml ts) \<le> MAX_INPUT_SIZE"
  shows "scan rt (utf8 (aml ts)) = Inr (normal ts @ [Eof])"
proof -
  let ?s = "\<lparr>sc_chars = aml ts, sc_pos = 0, sc_count = 0\<rparr>"
  have "map_ok fst (scan_tokens rt [] ?s) = Inr ([] @ normal ts @ [Eof])"
    using assms length_le_len [of "aml ts"]
    by (intro scan_tokens_text)
      (simp_all add: canonical_normal named_normal in_normal_form_normal aml_normal remaining_def scan_limits)
  then show ?thesis
    using Scanner_new_printable [OF assms(1) printable_aml [OF assms(2,3)] assms(6)]
    by (simp add: scan_def scan_all_def)
qed

text \<open>
  C6: scanning what the serializer wrote gives the tokens back. For every token stream of
  printable characters that it serializes, within the limits of the scanner, the scan of the
  result is the stream itself up to what the scanner cannot express: adjacent texts are
  joined, empty ones and end markers dropped, and identifier values become strings. Whatever
  text or value a token carries, brackets, quotes and backslashes included, it never turns
  into markup.
\<close>

theorem scan_of_to_aml:
  assumes "ample rt" "to_aml ts = Inr out" "list_all token_printable ts" "list_all token_fits (normal ts)"
    and "length (normal ts) \<le> MAX_TOKEN_COUNT" "len out \<le> MAX_INPUT_SIZE"
  shows "scan rt (utf8 out) = Inr (normal ts @ [Eof])"
  using assms scan_aml by (simp add: to_aml_Inr)

definition hostile_tokens :: "Token list" where
  "hostile_tokens =
     [OpenTag (lit ''link'') [\<lparr>attr_name = lit ''href'', attr_value = AIdent (lit ''x'' @ [QUOTE, RBR])\<rparr>] True,
      TextToken (lit ''[form]''), TextToken [], TextToken (lit ''a''), Eof, CloseTag (lit ''b'')]"

lemma hostile_normal:
  "normal hostile_tokens =
     [OpenTag (lit ''link'') [\<lparr>attr_name = lit ''href'', attr_value = AString (lit ''x'' @ [QUOTE, RBR])\<rparr>] True,
      TextToken (lit ''[form]a''), CloseTag (lit ''b'')]"
  by (simp add: hostile_tokens_def join_text_def normal_attr_def normal_value_def lit_def)

lemma hostile_facts:
  "list_all token_named hostile_tokens" "list_all token_printable hostile_tokens"
  "list_all token_fits (normal hostile_tokens)" "length (normal hostile_tokens) \<le> MAX_TOKEN_COUNT"
  "len (aml hostile_tokens) \<le> MAX_INPUT_SIZE"
proof -
  show "list_all token_named hostile_tokens"
    by (simp add: hostile_tokens_def names_ok_def is_valid_name_def name_body_def is_ascii_lowercase_def is_ascii_digit_def lit_def)
  show "list_all token_printable hostile_tokens"
    by (simp add: hostile_tokens_def value_printable_def lit_def printable_ascii)
  show "list_all token_fits (normal hostile_tokens)"
    by (simp add: hostile_normal value_fits_def scan_limits lit_def len_utf8_def)
  show "length (normal hostile_tokens) \<le> MAX_TOKEN_COUNT"
    by (simp add: hostile_normal scan_limits)
  show "len (aml hostile_tokens) \<le> MAX_INPUT_SIZE"
    by (simp add: hostile_tokens_def attr_text_def attr_tail_def value_text_def tag_end_def escape_text_def escape_value_def
        scan_limits lit_def len_utf8_def)
qed

theorem scan_of_to_aml_witness:
  "\<exists>out. to_aml hostile_tokens = Inr out \<and> scan roomy_runtime (utf8 out) = Inr (normal hostile_tokens @ [Eof])"
proof -
  have "to_aml hostile_tokens = Inr (aml hostile_tokens)"
    by (simp add: to_aml_Inr hostile_facts)
  with scan_of_to_aml [OF ample_roomy this hostile_facts(2-5)] show ?thesis by blast
qed

section \<open>Control characters\<close>

text \<open>
  The serializer escapes for the scanner, but the scanner filters first. A control character in
  a text can make the filter eat one bracket of an escaped pair.
\<close>

definition bracket_free :: "ustr \<Rightarrow> bool" where
  "bracket_free s \<longleftrightarrow> LBR \<notin> set s \<and> RBR \<notin> set s"

definition value_bracket_free :: "AttributeValue \<Rightarrow> bool" where
  "value_bracket_free v = (case v of AString s \<Rightarrow> bracket_free s | AIdent s \<Rightarrow> bracket_free s | AFlag \<Rightarrow> True)"

text \<open>
  The tags a text can smuggle in: a valid name, and attributes with valid names whose values are
  strings or flags, are printable, fit the limits of the scanner and hold no bracket.
\<close>

fun smuggled_tag :: "Token \<Rightarrow> bool" where
  "smuggled_tag (OpenTag n as sc) \<longleftrightarrow> is_valid_name n \<and> names_ok as \<and> map normal_attr as = as
     \<and> list_all (\<lambda>a. value_fits (attr_value a) \<and> value_printable (attr_value a) \<and> value_bracket_free (attr_value a)) as"
| "smuggled_tag _ \<longleftrightarrow> False"

lemma bracket_free_simps [simp]:
  "bracket_free []" "bracket_free (c # s) \<longleftrightarrow> c \<noteq> LBR \<and> c \<noteq> RBR \<and> bracket_free s"
  "bracket_free (s @ t) \<longleftrightarrow> bracket_free s \<and> bracket_free t"
  by (auto simp: bracket_free_def)

lemma bracket_free_escape: "bracket_free s \<Longrightarrow> concat (map escape_text s) = s"
  by (induction s) (auto simp: escape_text_def)

lemma bracket_free_value: "bracket_free s \<Longrightarrow> bracket_free (concat (map escape_value s))"
  by (induction s) (auto simp: escape_value_def)

lemma bracket_free_name: "is_valid_name n \<Longrightarrow> bracket_free n"
  using name_body_char(4,6) by (auto simp: is_valid_name_def bracket_free_def list_all_iff)

lemma bracket_free_attr:
  "is_valid_name (attr_name a) \<Longrightarrow> value_bracket_free (attr_value a) \<Longrightarrow> bracket_free (attr_text a)"
  by (auto simp: attr_text_def attr_tail_def value_text_def value_bracket_free_def bracket_free_name bracket_free_value
      split: AttributeValue.splits)

lemma smuggled_text:
  assumes "smuggled_tag tok"
  obtains mid where "token_text tok = LBR # mid @ [RBR]" "bracket_free mid" "list_all printable (token_text tok)"
proof -
  obtain n as sc where tok: "tok = OpenTag n as sc" using assms by (cases tok) auto
  let ?mid = "n @ concat (map attr_text as) @ (if sc then [32, SLASHC] else [])"
  have "bracket_free (concat (map attr_text as))"
    using assms tok bracket_free_attr by (induction as arbitrary: tok) (auto simp: names_ok_def normal_attr_def)
  then have "bracket_free ?mid"
    using assms tok bracket_free_name by simp
  moreover have "list_all printable (token_text tok)"
    using assms tok by (intro printable_token) (auto simp: list_all_iff)
  ultimately show thesis
    using that [of ?mid] tok by (cases sc) (simp_all add: tag_end_def)
qed

lemma scan_stray_bracket:
  assumes "ample rt" "remaining s = [RBR]" "sc_count s < MAX_TOKEN_COUNT" "sc_pos s + 1 = length (sc_chars s)"
    and "length acc \<le> 2 ^ 39"
  shows "map_ok fst (scan_tokens rt acc s) = Inr (acc @ [TextToken [RBR], Eof])"
proof -
  let ?s = "adv 1 (s\<lparr>sc_count := sc_count s + 1\<rparr>)"
  have "next_token rt s = Inr (TextToken [RBR], ?s)"
    using assms(1-3) next_token_cases [of s RBR "[]" rt]
    by (simp add: scan_text_def checked_add_def len_utf8_def scan_limits usize_max_def ample_try_string)
  moreover have "next_token rt ?s = Inr (Eof, ?s)"
    using assms(4) by (simp add: next_token_def)
  ultimately show ?thesis
    using assms(1,5)
    by (subst scan_tokens.simps, simp add: ample_reserve_vec) (subst scan_tokens.simps, simp add: ample_reserve_vec map_ok_def)
qed


definition login_form :: Token where
  "login_form = OpenTag (lit ''form'') [\<lparr>attr_name = lit ''action'', attr_value = AString (lit ''/login'')\<rparr>] False"


end
