(* ===== verification/Scanner_Laws.thy ===== *)
theory Scanner_Laws
  imports Serialize
begin

text \<open>
  What the scanner hands to the parser, whatever bytes it was given: a bounded stream of
  bounded tokens that hold printable characters only, in the canonical form that the
  serializer writes and the scanner reads back.
\<close>

section \<open>Characters\<close>

lemma set_skip_csi: "set (skip_csi s) \<subseteq> set s"
  by (induction s) auto

lemma set_skip_st: "set (skip_until_st_or_bel s) \<subseteq> set s"
proof (induction s rule: skip_until_st_or_bel.induct)
  case (2 ch rest)
  then show ?case
    by (subst skip_until_st_or_bel.simps) (auto split: list.splits)
qed simp

lemma set_filtered: "set (filtered s) \<subseteq> insert LF (set s)"
proof (induction s rule: filtered.induct)
  case (2 ch rest)
  have "set (skip_escape_sequence rest) \<subseteq> set rest"
    using set_skip_csi set_skip_st by (cases rest) (auto simp: skip_escape_sequence_def subset_insertI2)
  moreover have "set (skip_c1_sequence rest ch) \<subseteq> set rest"
    using set_skip_csi set_skip_st by (auto simp: skip_c1_sequence_def)
  ultimately show ?case using 2 by auto (blast+)
qed simp

lemma Scanner_new_Inr:
  assumes "Scanner_new rt input = Inr s"
  shows "list_all printable (sc_chars s) \<and> sc_pos s = 0 \<and> sc_count s = 0"
proof -
  obtain str where str: "from_utf8 input = Inr str" "s = \<lparr>sc_chars = filtered str, sc_pos = 0, sc_count = 0\<rparr>"
    using assms by (auto simp: Scanner_new_def Let_def sanitize_into_eq write_string result_simps map_err_def
        split: if_splits sum.splits)
  then have "\<And>c. c \<in> set (filtered str) \<Longrightarrow> is_scalar c"
    using set_filtered [of str] by (auto simp: from_utf8_Inr valid_str_def list_all_iff is_scalar_def)
  with str(2) show ?thesis
    using filtered_safe by (auto simp: list_all_iff printable_def)
qed

lemma printable_remaining: "list_all printable (sc_chars s) \<Longrightarrow> list_all printable (remaining s)"
  by (auto simp: remaining_def list_all_iff dest: in_set_dropD)

lemma printable_moves: "moves s s' \<Longrightarrow> list_all printable (sc_chars s') = list_all printable (sc_chars s)"
  by (simp add: moves_sel)

section \<open>Names and values\<close>

lemma name_char_lower: "name_char c \<Longrightarrow> name_body (to_ascii_lowercase c)"
  by (auto simp: name_char_def name_body_def is_ascii_alphanumeric_def is_ascii_alphabetic_def to_ascii_lowercase_def
      is_ascii_lowercase_def is_ascii_uppercase_def is_ascii_digit_def)

lemma scanned_name:
  "map to_ascii_lowercase (takeWhile name_char s) \<noteq> [] \<Longrightarrow>
   is_valid_name (map to_ascii_lowercase (takeWhile name_char s))"
  by (auto simp: is_valid_name_def list_all_iff dest: set_takeWhileD intro: name_char_lower)

lemma printable_unescape: "printable c \<Longrightarrow> list_all printable (unescape c)"
  by (simp add: unescape_def printable_ascii) (simp add: printable_def safe_char_def is_scalar_def)

lemma printable_quoted:
  "quoted_loop s = Some (v, n) \<Longrightarrow> list_all printable s \<Longrightarrow> list_all printable v"
proof (induction s arbitrary: v n rule: length_induct)
  case (1 s)
  have IH: "quoted_loop t = Some (w, m) \<Longrightarrow> list_all printable t \<Longrightarrow> length t < length s \<Longrightarrow> list_all printable w" for t w m
    using 1(1) by blast
  obtain ch rest where s: "s = ch # rest" using 1(2) by (cases s) auto
  consider "ch = QUOTE" | c r where "ch = BACKSLASH" "rest = c # r" | "ch \<noteq> QUOTE" "ch \<noteq> BACKSLASH"
    using 1(2) s by (cases rest) (auto split: if_splits)
  then show ?case
    using 1(2,3) s IH printable_unescape by cases auto
qed

definition attr_ok :: "Attribute \<Rightarrow> bool" where
  "attr_ok a \<longleftrightarrow> is_valid_name (attr_name a) \<and> value_fits (attr_value a) \<and> value_printable (attr_value a)"

lemma scanned_value:
  assumes "scan_attribute_value rt s = Inr (v, s')" "list_all printable (sc_chars s)"
  shows "value_fits v \<and> value_printable v"
proof -
  have p: "list_all printable (remaining u)" if "sc_chars u = sc_chars s" for u
    using that assms(2) printable_remaining by metis
  have q: "list_all printable w" if "scan_quoted_string rt s = Inr (w, u)" for w u
    using that p [of "adv 1 s"] printable_quoted
    by (fastforce simp: scan_quoted_string_def result_simps Let_def split: option.splits)
  have n: "list_all printable w" if "scan_unquoted_value rt s = Inr (w, u)" for w u
    using that p [of s] by (auto simp: scan_unquoted_value_def result_simps Let_def list_all_iff dest: set_takeWhileD)
  show ?thesis
    using assms(1) q n
    by (auto simp: scan_attribute_value_def value_fits_def value_printable_def Let_def result_simps split: if_splits)
qed

lemma scanned_attribute:
  assumes "scan_attribute rt s = Inr (Some a, s')" "list_all printable (sc_chars s)"
  shows "attr_ok a"
  using assms scanned_name scanned_value
  by (fastforce simp: scan_attribute_def scan_attribute_name_def attr_ok_def value_fits_def value_printable_def Let_def
      result_simps split: if_splits)

lemma scanned_attrs:
  "scan_attrs rt t acc s = Inr (as, sc, s') \<Longrightarrow> list_all printable (sc_chars s) \<Longrightarrow> list_all attr_ok acc \<Longrightarrow> list_all attr_ok as"
proof (induction rt t acc s rule: scan_attrs.induct)
  case (1 rt t acc s0)
  let ?s = "skip_whitespace s0"
  have p: "list_all printable (sc_chars ?s)"
    using 1(3) by (simp add: skip_whitespace_def)
  consider (stop) "as = acc"
    | (more) ch r where "current_char ?s = Some ch" "ch \<noteq> RBR" "\<not> (ch = SLASHC \<and> peek_ahead ?s 1 = Some RBR)"
        "try_reserve_vec rt (length acc) 1 ''Attribute'' = Inr ()" "scan_attribute rt ?s = Inr r"
        "scan_attrs rt t (case fst r of Some attr \<Rightarrow> acc @ [attr] | None \<Rightarrow> acc) (snd r) = Inr (as, sc, s')"
    using 1(2) by (subst (asm) scan_attrs.simps)
      (auto simp: Let_def result_simps split: option.splits if_splits)
  then show ?case
  proof cases
    case more
    have "list_all printable (sc_chars (snd r))"
      using p more(5) scan_attribute_progress [of rt ?s "fst r" "snd r"] printable_moves [of ?s "snd r"] by simp
    moreover have "list_all attr_ok (case fst r of Some attr \<Rightarrow> acc @ [attr] | None \<Rightarrow> acc)"
      using 1(4) p more(5) scanned_attribute [of rt ?s _ "snd r"] by (cases r) (auto split: option.splits)
    ultimately show ?thesis
      using 1(1) [OF refl more(1,2,3,4,5,6)] by blast
  qed (use 1(4) in simp)
qed

section \<open>Text\<close>

definition text_step :: "uchar \<Rightarrow> ustr \<Rightarrow> nat" where
  "text_step ch rest = (if ch \<in> {LBR, RBR} \<and> starts ch rest then 2 else 1)"

lemma text_loop_step:
  "\<not> (ch = LBR \<and> \<not> starts LBR rest) \<Longrightarrow> text_loop (drop (text_step ch rest) (ch # rest)) = (t, n) \<Longrightarrow>
   text_loop (ch # rest) = (ch # t, n + text_step ch rest)"
  by (auto simp: text_step_def)

lemma text_size_step:
  assumes "text_size q (ch # rest) = Inr m" "\<not> (ch = LBR \<and> \<not> starts LBR rest)"
  shows "q + len_utf8 ch \<le> MAX_TEXT_TOKEN_SIZE"
    "text_size (q + len_utf8 ch) (drop (text_step ch rest) (ch # rest)) = Inr m"
  using assms by (auto simp: text_step_def result_simps ok_or_def split: if_splits option.splits)

lemma text_loop_spec:
  "text_loop s = (t, n) \<Longrightarrow> text_size q s = Inr m \<Longrightarrow> q \<le> MAX_TEXT_TOKEN_SIZE \<Longrightarrow>
   set t \<subseteq> set s \<and> tag_or_end (drop n s) \<and> q + len t \<le> MAX_TEXT_TOKEN_SIZE"
proof (induction s arbitrary: t n q rule: length_induct)
  case (1 s)
  show ?case
  proof (cases "tag_or_end s")
    case True
    then have "t = [] \<and> n = 0" using 1(2) by (auto simp: tag_or_end_def)
    with True 1(4) show ?thesis by simp
  next
    case False
    then obtain ch rest where s: "s = ch # rest" and tag: "\<not> (ch = LBR \<and> \<not> starts LBR rest)"
      by (cases s) (auto simp: tag_or_end_def)
    let ?r = "drop (text_step ch rest) s"
    obtain t' n' where l: "text_loop ?r = (t', n')" by (cases "text_loop ?r")
    have tn: "t = ch # t'" "n = n' + text_step ch rest"
      using 1(2) text_loop_step [OF tag] l s by auto
    have "length ?r < length s" by (simp add: s text_step_def)
    then have "set t' \<subseteq> set ?r \<and> tag_or_end (drop n' ?r) \<and> q + len_utf8 ch + len t' \<le> MAX_TEXT_TOKEN_SIZE"
      using 1(1,3) l text_size_step [OF _ tag] s by blast
    then show ?thesis
      using tn s set_drop_subset [of "text_step ch rest" s] by (auto simp: add.assoc)
  qed
qed

lemma scanned_text:
  assumes "scan_text rt s = Inr (tok, s')" "at_text s" "list_all printable (sc_chars s)"
  shows "\<exists>t. tok = TextToken t \<and> t \<noteq> [] \<and> len t \<le> MAX_TEXT_TOKEN_SIZE \<and> list_all printable t
    \<and> tag_or_end (remaining s')"
proof -
  obtain t n m where t: "text_loop (remaining s) = (t, n)" "text_size 0 (remaining s) = Inr m"
    "tok = TextToken t" "s' = adv n s"
    using assms(1) by (auto simp: scan_text_def result_simps split: prod.splits)
  have "set t \<subseteq> set (remaining s) \<and> tag_or_end (drop n (remaining s)) \<and> 0 + len t \<le> MAX_TEXT_TOKEN_SIZE"
    by (rule text_loop_spec [OF t(1,2)]) simp
  moreover have "t \<noteq> []"
  proof -
    obtain c rest where r: "remaining s = c # rest"
      using assms(2) by (cases "remaining s") (auto simp: at_text_def remaining_def)
    have "\<not> (c = LBR \<and> \<not> starts LBR rest)"
      using assms(2) by (auto simp: at_text_def peek_ahead_remaining current_char_remaining r starts_iff split: list.splits)
    then show ?thesis
      using t(1) r text_loop_step by (metis list.distinct(1) prod.inject surj_pair)
  qed
  ultimately show ?thesis
    using t(3,4) printable_remaining [OF assms(3)] by (auto simp: list_all_iff)
qed

section \<open>Token streams\<close>

definition token_ok :: "Token \<Rightarrow> bool" where
  "token_ok t \<longleftrightarrow> token_named t \<and> token_printable t \<and> token_fits t"

lemma scanned_tag:
  assumes "scan_tag_or_escape rt s = Inr (tok, s')" "\<not> starts LBR (tl (remaining s))" "list_all printable (sc_chars s)"
  shows "token_ok tok \<and> (\<nexists>t. tok = TextToken t)"
proof -
  have "peek_ahead s 1 \<noteq> Some LBR"
    using assms(2) by (cases "remaining s"; cases "tl (remaining s)")
      (auto simp: peek_ahead_remaining current_char_remaining)
  then show ?thesis
    using assms(1,3) scanned_name
    by (fastforce simp: scan_tag_or_escape_def scan_close_tag_def scan_open_tag_def scan_tag_name_def skip_whitespace_def
      Let_def result_simps token_ok_def names_ok_def attr_ok_def list_all_iff split: if_splits dest!: scanned_attrs)
qed

lemma remaining_nonempty: "remaining s = c # rest \<Longrightarrow> sc_pos s < length (sc_chars s)"
  by (auto simp: remaining_def not_le intro: ccontr)

lemma scanned_token:
  assumes "next_token rt s = Inr (tok, s')" "tok \<noteq> Eof" "list_all printable (sc_chars s)"
  shows "token_ok tok \<and> (case tok of TextToken t \<Rightarrow> t \<noteq> [] \<and> tag_or_end (remaining s') | _ \<Rightarrow> True)
    \<and> (tag_or_end (remaining s) \<longrightarrow> (\<nexists>t. tok = TextToken t))"
proof -
  let ?s = "s\<lparr>sc_count := sc_count s + 1\<rparr>"
  obtain c rest where r: "remaining s = c # rest" and l: "sc_count s < MAX_TOKEN_COUNT"
    using assms(1,2) by (cases "remaining s") (auto simp: next_token_def remaining_def Let_def split: if_splits)
  show ?thesis
  proof (cases "c = LBR \<and> \<not> starts LBR rest")
    case True
    then show ?thesis
      using assms next_token_cases [OF r l, of rt] scanned_tag [of rt ?s tok s'] r by (auto split: Token.splits)
  next
    case False
    then have "at_text ?s"
      using r remaining_nonempty [OF r]
      by (auto simp: at_text_def peek_ahead_remaining current_char_remaining starts_iff)
    then show ?thesis
      using False assms next_token_cases [OF r l, of rt] scanned_text [of rt ?s tok s'] r
      by (auto simp: token_ok_def tag_or_end_def)
  qed
qed

definition starts_with_text :: "Token list \<Rightarrow> bool" where
  "starts_with_text ts \<longleftrightarrow> (\<exists>t us. ts = TextToken t # us)"

lemma canonical_Cons:
  "canonical (t # ts) \<longleftrightarrow> canonical ts \<and> t \<noteq> Eof
     \<and> (case t of TextToken u \<Rightarrow> u \<noteq> [] \<and> \<not> starts_with_text ts | _ \<Rightarrow> True)"
  by (auto simp: starts_with_text_def split: Token.splits list.splits)

lemma scanned_tokens:
  "scan_tokens rt acc s = Inr (ts, s') \<Longrightarrow> list_all printable (sc_chars s) \<Longrightarrow> sc_count s \<le> MAX_TOKEN_COUNT \<Longrightarrow>
   \<exists>us. ts = acc @ us @ [Eof] \<and> canonical us \<and> list_all token_ok us \<and> sc_count s + length us \<le> MAX_TOKEN_COUNT
     \<and> (tag_or_end (remaining s) \<longrightarrow> \<not> starts_with_text us)"
proof (induction rt acc s rule: scan_tokens.induct)
  case (1 rt acc s)
  obtain r where r: "try_reserve_vec rt (length acc) 1 ''Token'' = Inr ()" "next_token rt s = Inr r"
    "(if fst r = Eof then Inr (acc @ [fst r], snd r) else scan_tokens rt (acc @ [fst r]) (snd r)) = Inr (ts, s')"
    using 1(2) by (subst (asm) scan_tokens.simps) (auto simp: result_simps)
  show ?case
  proof (cases "fst r = Eof")
    case True
    then have "ts = acc @ [] @ [Eof]" "canonical []" "list_all token_ok []" "\<not> starts_with_text []"
      using r(3) by (auto simp: starts_with_text_def)
    then show ?thesis using 1(4) by (metis add_0_right list.size(3))
  next
    case False
    note tok = scanned_token [of rt s "fst r" "snd r", simplified, OF r(2) False 1(3)]
    note prog = next_token_progress [of rt s "fst r" "snd r", simplified, OF r(2) False]
    obtain us where us: "ts = (acc @ [fst r]) @ us @ [Eof]" "canonical us" "list_all token_ok us"
      "sc_count (snd r) + length us \<le> MAX_TOKEN_COUNT" "tag_or_end (remaining (snd r)) \<longrightarrow> \<not> starts_with_text us"
      using 1(1) [OF r(1,2) False] r(3) False prog 1(3) by auto
    have "canonical (fst r # us)"
      using us(2,5) tok False by (auto simp: canonical_Cons simp del: canonical.simps split: Token.splits)
    then show ?thesis
      using us tok prog by (intro exI [of _ "fst r # us"]) (auto simp: starts_with_text_def)
  qed
qed

text \<open>
  C19: whatever bytes it is given, the scanner either reports an error or returns at most
  50,000 tokens and one end marker, the last. Tag and attribute names are non-empty and hold
  lower-case letters, digits, hyphens and underscores only, attribute values are at most 4,096
  characters and texts between 1 and 65,536 bytes, no text or value holds a control or
  deceptive character, and no two texts are adjacent.
\<close>

theorem tokens_bounded:
  assumes "scan rt input = Inr ts"
  shows "\<exists>us. ts = us @ [Eof] \<and> length us \<le> MAX_TOKEN_COUNT \<and> canonical us
    \<and> list_all token_named us \<and> list_all token_fits us \<and> list_all token_printable us"
proof -
  obtain s s' where s: "Scanner_new rt input = Inr s" "scan_tokens rt [] s = Inr (ts, s')"
    using assms by (auto simp: scan_def scan_all_def result_simps)
  then show ?thesis
    using scanned_tokens [OF s(2)] Scanner_new_Inr [OF s(1)] by (auto simp: token_ok_def list_all_iff)
qed

theorem tokens_bounded_witness:
  "\<exists>us. normal hostile_tokens @ [Eof] = us @ [Eof] \<and> length us \<le> MAX_TOKEN_COUNT \<and> canonical us
    \<and> list_all token_named us \<and> list_all token_fits us \<and> list_all token_printable us"
proof -
  have "scan roomy_runtime (utf8 (aml hostile_tokens)) = Inr (normal hostile_tokens @ [Eof])"
    by (rule scan_aml)
      (simp_all add: hostile_facts)
  then show ?thesis by (rule tokens_bounded)
qed

section \<open>Writing a scanned document\<close>

definition normal_token :: "Token \<Rightarrow> Token" where
  "normal_token t = (case t of OpenTag n as sc \<Rightarrow> OpenTag n (map normal_attr as) sc | _ \<Rightarrow> t)"

lemma normal_canonical: "canonical us \<Longrightarrow> normal us = map normal_token us"
proof (induction us)
  case (Cons t us)
  then show ?case
    by (cases t; cases us; cases "hd us") (auto simp: normal_token_def join_text_def)
qed simp

lemma fits_normal_token [simp]: "token_fits (normal_token t) = token_fits t"
  by (cases t)
    (auto simp: normal_token_def normal_attr_def normal_value_def value_fits_def list_all_iff split: AttributeValue.splits)

text \<open>
  A scanned document survives being written and read again: its tokens always serialize,
  and, within the size limit, scanning the result gives the same tokens, with identifier values
  read as strings.
\<close>

theorem rescan_stable:
  assumes "ample rt" "scan rt input = Inr ts"
  shows "\<exists>out. to_aml ts = Inr out
    \<and> (len out \<le> MAX_INPUT_SIZE \<longrightarrow> scan rt (utf8 out) = Inr (map normal_token ts))"
proof -
  obtain s s' where s: "Scanner_new rt input = Inr s" "scan_tokens rt [] s = Inr (ts, s')"
    using assms(2) by (auto simp: scan_def scan_all_def result_simps)
  obtain us where us: "ts = us @ [Eof]" "canonical us" "list_all token_ok us" "length us \<le> MAX_TOKEN_COUNT"
    using scanned_tokens [OF s(2)] Scanner_new_Inr [OF s(1)] by auto
  then have ok: "list_all token_named us" "list_all token_printable us" "list_all token_fits us"
    by (auto simp: token_ok_def list_all_iff)
  have "to_aml ts = Inr (aml us)"
    using ok(1) us(1) by (simp add: to_aml_Inr aml_def)
  moreover have "scan rt (utf8 (aml us)) = Inr (map normal_token ts)" if "len (aml us) \<le> MAX_INPUT_SIZE"
    using scan_aml [OF assms(1) ok(1,2) _ _ that] ok(3) us
    by (simp add: normal_canonical list.pred_map comp_def normal_token_def [of Eof])
  ultimately show ?thesis by blast
qed

theorem rescan_stable_witness:
  "\<exists>out. to_aml (normal hostile_tokens @ [Eof]) = Inr out
    \<and> (len out \<le> MAX_INPUT_SIZE \<longrightarrow>
       scan roomy_runtime (utf8 out) = Inr (map normal_token (normal hostile_tokens @ [Eof])))"
proof -
  have "scan roomy_runtime (utf8 (aml hostile_tokens)) = Inr (normal hostile_tokens @ [Eof])"
    by (rule scan_aml) (simp_all add: hostile_facts)
  then show ?thesis by (rule rescan_stable [OF ample_roomy])
qed

end
