(* ===== verification/Include.thy ===== *)
theory Include
  imports Scanner_Laws Protocol
begin

text \<open>
  \<open>dustnet-server/src/include.rs\<close>: replacing the \<open>[include]\<close> placeholders of a page by the
  tokens of a resolver. The resolver is the site's own code, a trait object in the source and
  a parameter here. It may return any tokens.
\<close>

section \<open>Resolution\<close>

record IncludeRequest =
  ir_path :: ustr
  ir_query :: "ustr option"
  ir_identity :: "ustr option"

type_synonym IncludeResolver = "ustr \<Rightarrow> IncludeRequest \<Rightarrow> Token list option"

definition INCLUDE_TAG :: ustr where "INCLUDE_TAG = lit ''include''"
definition NAME_ATTR :: ustr where "NAME_ATTR = lit ''name''"

definition include_name :: "Attribute list \<Rightarrow> ustr option" where
  "include_name attributes =
     (case find (\<lambda>a. attr_name a = NAME_ATTR) attributes of
        None \<Rightarrow> None
      | Some a \<Rightarrow>
          let name = (case attr_value a of AString v \<Rightarrow> v | AIdent v \<Rightarrow> v | AFlag \<Rightarrow> []) in
          if name \<noteq> [] then Some name else None)"

definition is_include :: "Token \<Rightarrow> bool" where
  "is_include token =
     (case token of OpenTag name _ _ \<Rightarrow> name = INCLUDE_TAG | CloseTag name \<Rightarrow> name = INCLUDE_TAG | _ \<Rightarrow> False)"

definition show_SerializeError :: "SerializeError \<Rightarrow> ustr" where
  "show_SerializeError e =
     (case e of
        TagName name \<Rightarrow> lit ''tag name `'' @ name @ lit ''` is not a valid AML name''
      | AttributeName name \<Rightarrow> lit ''attribute name `'' @ name @ lit ''` is not a valid AML name'')"

definition resolve_token ::
  "IncludeResolver \<Rightarrow> IncludeRequest \<Rightarrow> Token list \<Rightarrow> Token \<Rightarrow> Token list presult" where
  "resolve_token resolver request resolved token =
     (case token of
        OpenTag name attributes _ \<Rightarrow>
          if name = INCLUDE_TAG then
            (case include_name attributes of
               None \<Rightarrow> Inr resolved
             | Some incl \<Rightarrow>
                 (case resolver incl request of
                    None \<Rightarrow> Inr resolved
                  | Some generated \<Rightarrow>
                      if list_ex is_include generated
                      then Inl (InvalidMessage (lit ''resolver returned an [include]; resolution is a single pass''))
                      else Inr (resolved @ generated)))
          else Inr (resolved @ [token])
      | CloseTag name \<Rightarrow> if name = INCLUDE_TAG then Inr resolved else Inr (resolved @ [token])
      | _ \<Rightarrow> Inr (resolved @ [token]))"

definition resolve_page :: "runtime \<Rightarrow> ustr \<Rightarrow> IncludeResolver \<Rightarrow> IncludeRequest \<Rightarrow> ustr presult" where
  "resolve_page rt content resolver request =
     (if find_sub (lit ''[include'') content = None then Inr content
      else
        and_then (map_err (\<lambda>_. InvalidMessage (lit ''page is not scannable AML'')) (Scanner_new rt (utf8 content))) (\<lambda>scanner.
        and_then (map_err (\<lambda>_. InvalidMessage (lit ''page is not scannable AML'')) (scan_all rt scanner)) (\<lambda>(tokens, _).
        and_then (try_fold (resolve_token resolver request) [] tokens) (\<lambda>resolved.
        map_err (\<lambda>e. InvalidMessage (lit ''generated AML: '' @ show_SerializeError e)) (to_aml resolved)))))"

section \<open>Specification\<close>

text \<open>What stands for a token of the page after resolution.\<close>

definition spliced :: "IncludeResolver \<Rightarrow> IncludeRequest \<Rightarrow> Token \<Rightarrow> Token list" where
  "spliced resolver request token =
     (if \<not> is_include token then [token]
      else case token of
        OpenTag _ attributes _ \<Rightarrow>
          (case Option.bind (include_name attributes) (\<lambda>n. resolver n request) of None \<Rightarrow> [] | Some ts \<Rightarrow> ts)
      | _ \<Rightarrow> [])"

definition well_behaved :: "IncludeResolver \<Rightarrow> IncludeRequest \<Rightarrow> bool" where
  "well_behaved resolver request \<longleftrightarrow>
     (\<forall>n ts. resolver n request = Some ts \<longrightarrow> list_all token_printable ts)"

lemma resolve_token_Inr:
  "resolve_token resolver request acc t = Inr r \<longleftrightarrow>
     r = acc @ spliced resolver request t \<and> \<not> list_ex is_include (spliced resolver request t)"
  by (cases t) (auto simp: resolve_token_def spliced_def is_include_def split: option.splits)

lemma resolve_tokens_Inr:
  "try_fold (resolve_token resolver request) acc ts = Inr r \<longleftrightarrow>
     r = acc @ concat (map (spliced resolver request) ts)
     \<and> \<not> list_ex is_include (concat (map (spliced resolver request) ts))"
  by (induction ts arbitrary: acc) (auto simp: resolve_token_Inr result_simps)

lemma resolve_page_Inr:
  assumes "find_sub (lit ''[include'') content \<noteq> None"
  shows "resolve_page rt content resolver request = Inr out \<longleftrightarrow>
    (\<exists>ts. scan rt (utf8 content) = Inr ts \<and> to_aml (concat (map (spliced resolver request) ts)) = Inr out
       \<and> \<not> list_ex is_include (concat (map (spliced resolver request) ts)))"
  using assms
  by (auto simp: resolve_page_def result_simps scan_def resolve_tokens_Inr split: prod.splits)

lemma spliced_printable:
  assumes "well_behaved resolver request" "list_all token_printable ts"
  shows "list_all token_printable (concat (map (spliced resolver request) ts))"
  using assms
  by (fastforce simp: spliced_def well_behaved_def list_all_iff bind_eq_Some_conv dest!: sym [of "Some _"]
      split: option.splits Token.splits if_splits)

lemma is_include_normal: "list_ex is_include (normal ts) = list_ex is_include ts"
proof (induction ts rule: normal.induct)
  case (2 t ts)
  then show ?case by (cases "normal ts"; cases "hd (normal ts)") (auto simp: join_text_def is_include_def)
qed (auto simp: is_include_def)

section \<open>Properties\<close>

text \<open>
  What a client reads of a resolved page is the authored page with every placeholder
  replaced by exactly the tokens its resolver returned, and dropped when no resolver claims it:
  no placeholder is left, and generated text or values, whatever they hold, add no markup. The
  resolver has to return printable tokens, and the result to stay within the limits of the
  scanner.
\<close>

theorem page_resolved:
  assumes "ample rt" "scan rt (utf8 content) = Inr ts" "find_sub (lit ''[include'') content \<noteq> None"
    and "resolve_page rt content resolver request = Inr out" "well_behaved resolver request"
    and "page = concat (map (spliced resolver request) ts)"
    and "list_all token_fits (normal page)" "length (normal page) \<le> MAX_TOKEN_COUNT" "len out \<le> MAX_INPUT_SIZE"
  shows "scan rt (utf8 out) = Inr (normal page @ [Eof]) \<and> \<not> list_ex is_include (normal page)"
proof -
  have r: "to_aml page = Inr out" "\<not> list_ex is_include page"
    using resolve_page_Inr [OF assms(3)] assms(2,4,6) by auto
  have "list_all token_printable ts"
  proof -
    obtain s s' where s: "Scanner_new rt (utf8 content) = Inr s" "scan_tokens rt [] s = Inr (ts, s')"
      using assms(2) by (auto simp: scan_def scan_all_def result_simps)
    then show ?thesis
      using scanned_tokens [OF s(2)] Scanner_new_Inr [OF s(1)] by (auto simp: token_ok_def list_all_iff)
  qed
  then have "list_all token_printable page"
    using spliced_printable [OF assms(5)] assms(6) by simp
  then show ?thesis
    using scan_aml [OF assms(1), of page] r assms(7-9) by (simp add: to_aml_Inr is_include_normal)
qed

definition sample_page :: "Token list" where
  "sample_page = [OpenTag INCLUDE_TAG [\<lparr>attr_name = NAME_ATTR, attr_value = AString (lit ''links'')\<rparr>] True]"

definition sample_resolver :: IncludeResolver where
  "sample_resolver name request = (if name = lit ''links'' then Some [TextToken (lit ''[form]'')] else None)"

lemmas sample_defs = sample_page_def sample_resolver_def INCLUDE_TAG_def NAME_ATTR_def lit_def attr_text_def attr_tail_def
  value_text_def tag_end_def escape_value_def escape_text_def names_ok_def is_valid_name_def name_body_def
  is_ascii_lowercase_def is_ascii_digit_def normal_attr_def normal_value_def value_fits_def value_printable_def
  scan_limits printable_ascii len_utf8_def join_text_def

lemma sample_scan: "scan roomy_runtime (utf8 (aml sample_page)) = Inr (sample_page @ [Eof])"
proof -
  have "scan roomy_runtime (utf8 (aml sample_page)) = Inr (normal sample_page @ [Eof])"
    by (rule scan_aml) (simp_all add: sample_defs)
  then show ?thesis by (simp add: sample_defs)
qed

definition sample_request :: IncludeRequest where
  "sample_request = \<lparr>ir_path = lit ''/'', ir_query = None, ir_identity = None\<rparr>"

theorem page_resolved_witness:
  "scan roomy_runtime (utf8 (aml [TextToken (lit ''[form]'')])) = Inr ([TextToken (lit ''[form]'')] @ [Eof])
   \<and> \<not> list_ex is_include [TextToken (lit ''[form]'')]"
proof -
  let ?page = "concat (map (spliced sample_resolver sample_request) (sample_page @ [Eof]))"
  have page: "?page = [TextToken (lit ''[form]''), Eof]"
    by (simp add: spliced_def is_include_def sample_page_def include_name_def sample_resolver_def)
  have f: "find_sub (lit ''[include'') (aml sample_page) \<noteq> None"
    by (simp add: sample_defs)
  have r: "resolve_page roomy_runtime (aml sample_page) sample_resolver sample_request = Inr (aml [TextToken (lit ''[form]'')])"
    unfolding resolve_page_Inr [OF f]
  proof (rule exI [of _ "sample_page @ [Eof]"], intro conjI)
    show "to_aml (concat (map (spliced sample_resolver sample_request) (sample_page @ [Eof]))) = Inr (aml [TextToken (lit ''[form]'')])"
      unfolding page by (simp add: to_aml_Inr)
    show "\<not> list_ex is_include (concat (map (spliced sample_resolver sample_request) (sample_page @ [Eof])))"
      unfolding page by (simp add: is_include_def)
  qed (rule sample_scan)
  have w: "well_behaved sample_resolver sample_request"
    by (simp add: well_behaved_def sample_resolver_def lit_def printable_ascii)
  have n: "normal [TextToken (lit ''[form]''), Eof] = [TextToken (lit ''[form]'')]"
    by (simp add: join_text_def)
  show ?thesis
    using page_resolved [OF ample_roomy sample_scan f r w page [symmetric]]
    by (simp add: n) (simp add: sample_defs)
qed

lemmas reader = lit_def Let_def NAME_ATTR_def INCLUDE_TAG_def is_whitespace_def name_char_def is_ascii_alphanumeric_def
  is_ascii_alphabetic_def is_ascii_lowercase_def is_ascii_uppercase_def is_ascii_digit_def to_ascii_lowercase_def
  ends_unquoted_def checked_add_def usize_max_def len_utf8_def scan_limits map_ok_def

text \<open>
  A placeholder spelled with a capital letter is never resolved. Names are case-insensitive
  to the scanner, which reads \<open>[Include name=x /]\<close> as an \<open>include\<close> tag, but a page is only
  scanned when it holds the literal characters \<open>[include\<close>; this one is returned as it is, whatever
  the resolver.
\<close>

theorem capital_include_unresolved:
  "resolve_page rt (lit ''[Include name=x /]'') resolver request = Inr (lit ''[Include name=x /]'')
   \<and> scan roomy_runtime (utf8 (lit ''[Include name=x /]'')) =
       Inr [OpenTag INCLUDE_TAG [\<lparr>attr_name = NAME_ATTR, attr_value = AIdent (lit ''x'')\<rparr>] True, Eof]"
proof -
  have "find_sub (lit ''[include'') (lit ''[Include name=x /]'') = None"
    by (simp add: lit_def)
  then have a: "resolve_page rt (lit ''[Include name=x /]'') resolver request = Inr (lit ''[Include name=x /]'')"
    by (simp add: resolve_page_def)
  let ?s = "\<lparr>sc_chars = lit ''[Include name=x /]'', sc_pos = 0, sc_count = 0\<rparr>"
  have new: "Scanner_new roomy_runtime (utf8 (lit ''[Include name=x /]'')) = Inr ?s"
    by (rule Scanner_new_printable) (simp_all add: lit_def printable_ascii scan_limits len_utf8_def)
  let ?t = "?s\<lparr>sc_count := 1\<rparr>"
  let ?as = "[\<lparr>attr_name = NAME_ATTR, attr_value = AIdent (lit ''x'')\<rparr>]"
  have fin: "scan_attrs roomy_runtime 0 ?as (adv 15 ?t) = Inr (?as, True, adv 18 ?t)"
    using scan_attrs_end [of "adv 15 ?t" True "[]"] by (simp add: remaining_def lit_def tag_end_def)
  have attr: "scan_attribute roomy_runtime (adv 9 ?t) = Inr (Some (hd ?as), adv 15 ?t)"
    by (simp add: scan_attribute_def scan_attribute_name_def scan_attribute_value_def scan_unquoted_value_def
        current_char_remaining remaining_def ample_try_string reader)
  have "scan_attrs roomy_runtime 0 [] (adv 8 ?t) = scan_attrs roomy_runtime 0 ?as (adv 15 ?t)"
    by (subst scan_attrs.simps)
      (use attr in \<open>simp add: skip_whitespace_def current_char_remaining remaining_def ample_reserve_vec reader\<close>)
  moreover have "scan_tag_name roomy_runtime (adv 1 ?t) = Inr (INCLUDE_TAG, adv 8 ?t)"
  proof -
    have "adv 8 ?t = adv (Suc (length (lit ''include''))) ?t" by simp
    then show ?thesis
      by (simp only:) (simp add: scan_tag_name_def remaining_def ample_try_string reader)
  qed
  moreover have "skip_whitespace (adv 1 ?t) = adv 1 ?t" "INCLUDE_TAG \<noteq> []"
    by (simp_all add: skip_whitespace_def remaining_def reader)
  ultimately have "scan_open_tag roomy_runtime 0 (adv 1 ?t) = Inr (OpenTag INCLUDE_TAG ?as True, adv 18 ?t)"
    unfolding scan_open_tag_def by (simp only: fin and_then_Inr prod.case if_False)
  then have n: "next_token roomy_runtime ?s = Inr (OpenTag INCLUDE_TAG ?as True, adv 18 ?t)"
    using next_token_cases [of ?s LBR "lit ''Include name=x /]''" roomy_runtime]
    by (simp add: remaining_def scan_limits scan_tag_or_escape_def peek_ahead_remaining current_char_remaining reader)
  have "scan_tokens roomy_runtime [OpenTag INCLUDE_TAG ?as True] (adv 18 ?t) = Inr ([OpenTag INCLUDE_TAG ?as True, Eof], adv 18 ?t)"
    by (subst scan_tokens.simps) (simp add: next_token_def ample_reserve_vec)
  with n have "scan_tokens roomy_runtime [] ?s = Inr ([OpenTag INCLUDE_TAG ?as True, Eof], adv 18 ?t)"
    by (subst scan_tokens.simps) (simp add: ample_reserve_vec)
  with a new show ?thesis
    by (simp add: scan_def scan_all_def)
qed

end
