(* ===== verification/Forms.thy ===== *)
theory Forms
  imports Utf8
begin

text \<open>
  Form submissions, both ends: \<open>url_encode_form\<close> of the client's terminal runner and
  \<open>dustnet-server/src/input.rs\<close>, which decodes what it produced.
\<close>

section \<open>The client's encoder\<close>

definition url_unreserved :: "uchar \<Rightarrow> bool" where
  "url_unreserved ch \<longleftrightarrow> is_ascii_alphanumeric ch \<or> ch \<in> {uc (CHR ''-''), uc (CHR ''_''), uc (CHR ''.''), uc (CHR ''~'')}"

definition HEX :: "nat \<Rightarrow> uchar" where
  "HEX d = (if d < 10 then 48 + d else 55 + d)"

definition percent :: "nat \<Rightarrow> ustr" where
  "percent b = [uc (CHR ''%''), HEX (b div 16), HEX (b mod 16)]"

definition url_encode_char :: "uchar \<Rightarrow> ustr" where
  "url_encode_char ch =
     (if url_unreserved ch then [ch]
      else if ch = 32 then [uc (CHR ''+'')]
      else concat (map percent (enc_char ch)))"

text \<open>The error is \<open>TryReserveError\<close>, of which nothing is read.\<close>

definition url_encode :: "runtime \<Rightarrow> ustr \<Rightarrow> (unit, ustr) result" where
  "url_encode rt s =
     (if \<not> try_reserve rt (saturating_mul (len s) 3) then Inl ()
      else Inr (concat (map url_encode_char s)))"

definition push_form_value :: "runtime \<Rightarrow> ustr \<Rightarrow> nat \<times> ustr \<times> ustr \<Rightarrow> (unit, ustr) result" where
  "push_form_value rt encoded = (\<lambda>(index, key, val).
     and_then (url_encode rt key) (\<lambda>key.
     and_then (url_encode rt val) (\<lambda>val.
     if \<not> try_reserve rt ((if index \<noteq> 0 then 1 else 0) + len key + 1 + len val) then Inl ()
     else Inr (encoded @ (if index \<noteq> 0 then [uc (CHR ''&'')] else []) @ key @ [uc (CHR ''='')] @ val))))"

definition url_encode_form :: "runtime \<Rightarrow> (ustr \<times> ustr) list \<Rightarrow> (unit, ustr) result" where
  "url_encode_form rt values = try_fold (push_form_value rt) [] (enumerate 0 values)"

section \<open>The server's decoder\<close>

definition MAX_FIELDS :: nat where "MAX_FIELDS = 64"
definition MAX_REASON :: nat where "MAX_REASON = 200"

text \<open>
  \<open>u8::from_str_radix\<close> on the two bytes after a percent sign: two hexadecimal digits, or a
  plus sign and one.
\<close>

definition hex_value :: "byte \<Rightarrow> nat option" where
  "hex_value b =
     (let n = unat b in
      if 48 \<le> n \<and> n \<le> 57 then Some (n - 48)
      else if 65 \<le> n \<and> n \<le> 70 then Some (n - 55)
      else if 97 \<le> n \<and> n \<le> 102 then Some (n - 87) else None)"

definition radix16_pair :: "byte \<Rightarrow> byte \<Rightarrow> byte option" where
  "radix16_pair p1 p2 =
     (case hex_value p2 of
        None \<Rightarrow> None
      | Some lo \<Rightarrow>
          if p1 = 43 then Some (of_nat lo)
          else map_option (\<lambda>hi. of_nat (16 * hi + lo)) (hex_value p1))"

fun decode_bytes :: "byte list \<Rightarrow> byte list" where
  "decode_bytes [] = []"
| "decode_bytes (b # rest) =
     (if b = 43 then 32 # decode_bytes rest
      else if b = 37 then
        (case rest of
           p1 # p2 # after \<Rightarrow>
             (case radix16_pair p1 p2 of
                Some decoded \<Rightarrow> decoded # decode_bytes after
              | None \<Rightarrow> 37 # decode_bytes rest)
         | _ \<Rightarrow> 37 # decode_bytes rest)
      else b # decode_bytes rest)"

declare decode_bytes.simps(2) [simp del]

text \<open>
  \<open>String::from_utf8_lossy\<close>: every maximal invalid sequence becomes U+FFFD.
\<close>

lemma dec_char_error: "dec_char bs = Inl (Some n) \<Longrightarrow> 0 < n"
  by (cases bs) (auto split: if_splits list.splits)

function lossy :: "nat list \<Rightarrow> ustr" where
  "lossy bs =
     (if bs = [] then []
      else case dec_char bs of
             Inr r \<Rightarrow> fst r # lossy (snd r)
           | Inl None \<Rightarrow> [0xFFFD]
           | Inl (Some n) \<Rightarrow> 0xFFFD # lossy (drop n bs))"
  by pat_completeness auto
termination
proof (relation "measure length", goal_cases)
  case (2 bs e n)
  then show ?case using dec_char_error [of bs n] by auto
next
  case (3 bs r)
  then show ?case using dec_char_rest [of bs "fst r" "snd r"] by simp
qed simp

declare lossy.simps [simp del]

definition from_utf8_lossy :: "byte list \<Rightarrow> ustr" where
  "from_utf8_lossy bs = lossy (map unat bs)"

definition decode :: "ustr \<Rightarrow> ustr" where
  "decode s = from_utf8_lossy (decode_bytes (utf8 s))"

type_synonym FormFields = "(ustr \<times> ustr) list"

definition push_pair :: "FormFields \<Rightarrow> ustr \<Rightarrow> FormFields" where
  "push_pair ff pair =
     (if pair = [] \<or> length ff \<ge> MAX_FIELDS then ff
      else let (name, val) = (case split_once [uc (CHR ''='')] pair of Some r \<Rightarrow> r | None \<Rightarrow> (pair, [])) in
           ff @ [(decode name, decode val)])"

definition FormFields_parse :: "ustr \<Rightarrow> FormFields" where
  "FormFields_parse encoded = foldl push_pair [] (split_char (uc (CHR ''&'')) encoded)"

definition form_get :: "FormFields \<Rightarrow> ustr \<Rightarrow> ustr option" where
  "form_get ff name = map_option snd (find (\<lambda>(field, _). field = name) ff)"

definition form_all :: "FormFields \<Rightarrow> ustr \<Rightarrow> ustr list" where
  "form_all ff name = map snd (filter (\<lambda>(field, _). field = name) ff)"

definition short_reason :: "ustr \<Rightarrow> ustr" where
  "short_reason reason =
     (if length reason \<le> MAX_REASON then reason else take (MAX_REASON - 1) reason @ [0x2026])"

definition split_query :: "ustr \<Rightarrow> ustr \<times> ustr option" where
  "split_query action =
     (case split_once [uc (CHR ''?'')] action of
        Some (path, query) \<Rightarrow> if query \<noteq> [] then (path, Some query) else (path, None)
      | None \<Rightarrow> (action, None))"

section \<open>The round trip\<close>

lemma lossy_enc: "valid_str s \<Longrightarrow> lossy (enc s) = s"
proof (induction s)
  case Nil
  then show ?case by (simp add: enc_def lossy.simps)
next
  case (Cons c s)
  then have "dec_char (enc_char c @ enc s) = Inr (c, enc s)"
    by (intro dec_enc_char) simp
  moreover have "enc_char c \<noteq> []" "enc (c # s) = enc_char c @ enc s"
    by (simp_all add: enc_char_def enc_def)
  ultimately show ?case
    using Cons by (subst lossy.simps) simp
qed

lemma from_utf8_lossy_utf8: "valid_str s \<Longrightarrow> from_utf8_lossy (utf8 s) = s"
  by (simp add: from_utf8_lossy_def unat_utf8 lossy_enc)

lemma hex_value_HEX: "d < 16 \<Longrightarrow> hex_value (of_nat (HEX d)) = Some d"
  by (auto simp: hex_value_def HEX_def unat_of_nat)

lemma decode_plain: "b \<noteq> 43 \<Longrightarrow> b \<noteq> 37 \<Longrightarrow> decode_bytes (b # rest) = b # decode_bytes rest"
  by (simp add: decode_bytes.simps)

lemma HEX_bounds: "d < 16 \<Longrightarrow> 48 \<le> HEX d \<and> HEX d < 71"
  by (simp add: HEX_def)

lemma decode_percent:
  assumes "b < 256"
  shows "decode_bytes (map of_nat (enc (percent b)) @ rest) = of_nat b # decode_bytes rest"
proof -
  have d: "b div 16 < 16" "b mod 16 < 16" using assms by simp_all
  have "enc (percent b) = [37, HEX (b div 16), HEX (b mod 16)]"
    using HEX_bounds [OF d(1)] HEX_bounds [OF d(2)] by (simp add: percent_def enc_def enc_char_def)
  moreover have "(of_nat (HEX (b div 16)) :: byte) \<noteq> 43"
    using HEX_bounds [OF d(1)] by (auto simp: word_eq_iff_unsigned unat_of_nat dest!: arg_cong [where f = unat])
  moreover have "16 * of_nat (b div 16) + of_nat (b mod 16) = (of_nat b :: byte)"
    by (metis mult_div_mod_eq of_nat_add of_nat_mult of_nat_numeral)
  ultimately show ?thesis
    by (simp add: decode_bytes.simps radix16_pair_def hex_value_HEX d)
qed

lemma decode_url_char:
  assumes "is_scalar c"
  shows "decode_bytes (map of_nat (enc (url_encode_char c)) @ rest) = map of_nat (enc_char c) @ decode_bytes rest"
proof -
  have p: "decode_bytes (map of_nat (enc (concat (map percent bs))) @ rest) = map of_nat bs @ decode_bytes rest"
    if "\<forall>b \<in> set bs. b < 256" for bs
    using that
  proof (induction bs)
    case (Cons b bs)
    then show ?case
      using decode_percent [of b "map of_nat (enc (concat (map percent bs))) @ rest"] by (simp add: enc_def)
  qed (simp add: enc_def)
  consider "url_unreserved c" | "c = 32" | "\<not> url_unreserved c" "c \<noteq> 32" by blast
  then show ?thesis
  proof cases
    case 1
    then have "c < 128" "c \<noteq> 43" "c \<noteq> 37"
      by (auto simp: url_unreserved_def is_ascii_alphanumeric_def is_ascii_alphabetic_def is_ascii_lowercase_def
          is_ascii_uppercase_def is_ascii_digit_def)
    then have "(of_nat c :: byte) \<noteq> 43 \<and> (of_nat c :: byte) \<noteq> 37"
      by (auto simp: unat_of_nat dest!: arg_cong [where f = unat])
    with 1 \<open>c < 128\<close> show ?thesis
      by (simp add: url_encode_char_def enc_def enc_char_def decode_plain)
  next
    case 2
    then show ?thesis
      by (simp add: url_encode_char_def url_unreserved_def is_ascii_alphanumeric_def is_ascii_alphabetic_def
          is_ascii_lowercase_def is_ascii_uppercase_def is_ascii_digit_def enc_def enc_char_def decode_bytes.simps)
  next
    case 3
    have "\<forall>b \<in> set (enc_char c). b < 256"
      using enc_bytes [of "[c]"] assms by (simp add: enc_def)
    with 3 p [of "enc_char c"] show ?thesis
      by (simp add: url_encode_char_def)
  qed
qed

lemma decode_url_encode:
  assumes "valid_str s"
  shows "decode (concat (map url_encode_char s)) = s"
proof -
  have "decode_bytes (utf8 (concat (map url_encode_char s))) = utf8 s"
    using assms
  proof (induction s)
    case (Cons c s)
    then show ?case
      using decode_url_char [of c "utf8 (concat (map url_encode_char s))"] by (simp add: utf8_def enc_def)
  qed (simp add: utf8_def enc_def)
  then show ?thesis
    using assms by (simp add: decode_def from_utf8_lossy_utf8)
qed

text \<open>What the encoder writes holds neither of the two separators.\<close>

lemma url_encode_char_safe: "c \<in> set (url_encode_char ch) \<Longrightarrow> c \<noteq> 38 \<and> c \<noteq> 61"
proof -
  have h: "HEX d \<noteq> 38" "HEX d \<noteq> 61" for d
    by (simp_all add: HEX_def)
  then have "c \<in> set (percent b) \<Longrightarrow> c \<noteq> 38 \<and> c \<noteq> 61" for b
    by (auto simp: percent_def dest: sym)
  moreover have "url_unreserved ch \<Longrightarrow> ch \<noteq> 38 \<and> ch \<noteq> 61"
    by (auto simp: url_unreserved_def is_ascii_alphanumeric_def is_ascii_alphabetic_def is_ascii_lowercase_def
        is_ascii_uppercase_def is_ascii_digit_def)
  moreover assume "c \<in> set (url_encode_char ch)"
  ultimately show ?thesis
    by (auto simp: url_encode_char_def split: if_splits)
qed

definition field_text :: "ustr \<times> ustr \<Rightarrow> ustr" where
  "field_text = (\<lambda>(k, v). concat (map url_encode_char k) @ [61] @ concat (map url_encode_char v))"

lemma url_encode_Inr: "url_encode rt s = Inr r \<Longrightarrow> r = concat (map url_encode_char s)"
  by (auto simp: url_encode_def split: if_splits)

lemma encode_fields:
  assumes "try_fold (push_form_value rt) (join_char 38 ws) (enumerate (length ws) fs) = Inr r"
  shows "r = join_char 38 (ws @ map field_text fs)"
  using assms
proof (induction fs arbitrary: ws)
  case (Cons f fs)
  obtain k v where f: "f = (k, v)" by (cases f)
  have "push_form_value rt (join_char 38 ws) (length ws, k, v) = Inr (join_char 38 (ws @ [field_text f]))"
    using Cons.prems f join_char_snoc [of 38 ws "field_text f"]
    by (auto simp: push_form_value_def field_text_def result_simps split: if_splits dest!: url_encode_Inr)
  then show ?case
    using Cons.prems Cons.IH [of "ws @ [field_text f]"] f by simp
qed simp

lemma field_text_free: "38 \<notin> set (field_text f)"
  using url_encode_char_safe by (fastforce simp: field_text_def split: prod.splits)

lemma push_field:
  assumes "length ff < MAX_FIELDS" "valid_str k" "valid_str v"
  shows "push_pair ff (field_text (k, v)) = ff @ [(k, v)]"
proof -
  have "61 \<notin> set (concat (map url_encode_char k))"
    using url_encode_char_safe by fastforce
  then have "split_once [61] (field_text (k, v)) = Some (concat (map url_encode_char k), concat (map url_encode_char v))"
    using split_once_notin [of 61 "concat (map url_encode_char k)" "[]"] by (simp add: field_text_def)
  then show ?thesis
    using assms by (simp add: push_pair_def decode_url_encode field_text_def)
qed

lemma push_fields:
  assumes "length ff + length fs \<le> MAX_FIELDS" "\<forall>(k, v) \<in> set fs. valid_str k \<and> valid_str v"
  shows "foldl push_pair ff (map field_text fs) = ff @ fs"
  using assms by (induction fs arbitrary: ff) (auto simp: push_field)

text \<open>
  C32: what a person typed is what the handler gets. The fields of a form that the client
  encodes, at most 64 of them, are exactly the fields the server decodes: same names, same
  values, same order, repetitions kept, whatever characters they hold.
\<close>

theorem form_roundtrip:
  assumes "url_encode_form rt fs = Inr encoded" "length fs \<le> MAX_FIELDS"
    and "\<forall>(k, v) \<in> set fs. valid_str k \<and> valid_str v"
  shows "FormFields_parse encoded = fs"
proof -
  have e: "encoded = join_char 38 (map field_text fs)"
    using encode_fields [of rt "[]" fs encoded] assms(1) by (simp add: url_encode_form_def)
  show ?thesis
  proof (cases "fs = []")
    case True
    then show ?thesis using e by (simp add: FormFields_parse_def push_pair_def)
  next
    case False
    then have "split_char 38 encoded = map field_text fs"
      unfolding e using field_text_free by (intro split_join) auto
    then show ?thesis
      using push_fields [of "[]" fs] assms(2,3) by (simp add: FormFields_parse_def)
  qed
qed

theorem form_roundtrip_witness:
  "\<exists>encoded. url_encode_form roomy_runtime [(lit ''a b'', [0xE9, 38]), (lit ''a b'', [])] = Inr encoded
     \<and> FormFields_parse encoded = [(lit ''a b'', [0xE9, 38]), (lit ''a b'', [])]"
proof -
  let ?fs = "[(lit ''a b'', [0xE9, 38]), (lit ''a b'', [])]"
  have "\<exists>encoded. url_encode_form roomy_runtime ?fs = Inr encoded"
    by (simp add: url_encode_form_def push_form_value_def url_encode_def url_encode_char_def url_unreserved_def percent_def
        HEX_def enc_char_def is_ascii_alphanumeric_def is_ascii_alphabetic_def is_ascii_lowercase_def
        is_ascii_uppercase_def is_ascii_digit_def try_reserve_def saturating_mul_def isize_max_def usize_max_def
        len_utf8_def lit_def)
  then obtain encoded where e: "url_encode_form roomy_runtime ?fs = Inr encoded" ..
  then have "FormFields_parse encoded = ?fs"
    by (rule form_roundtrip) (simp_all add: MAX_FIELDS_def lit_def is_scalar_def)
  with e show ?thesis by blast
qed

text \<open>The decoder takes a plus sign and one digit for an escape: \<open>%+F\<close> is the byte 15.\<close>

lemma signed_escape_decoded: "decode (lit ''%+F'') = [15]"
proof -
  have "utf8 (lit ''%+F'') = [37, 43, 70]"
    by (simp add: utf8_def enc_def enc_char_def lit_def)
  moreover have "decode_bytes [37, 43, 70] = [15]"
    by (simp add: decode_bytes.simps radix16_pair_def hex_value_def)
  moreover have "lossy [15] = [15]"
    by (subst lossy.simps) (simp add: lossy.simps)
  ultimately show ?thesis
    by (simp add: decode_def from_utf8_lossy_def)
qed

end
