(* ===== verification/Site.thy ===== *)
theory Site
  imports Frame
begin

text \<open>
  The files of a site (\<open>dustnet-server/src/lib.rs\<close>): from the path of a request to a file below
  the site root, and from an open file to its bytes.

  The file system is not under the control of the server. It is a parameter: what
  \<open>canonicalize\<close>, \<open>open\<close> and \<open>metadata\<close> answer for a path. Paths are absolute, so a path is
  the list of its normal components; \<open>canonicalize\<close> returns no others. An open file is a
  sequence of reads, each of which delivers some bytes or fails.
\<close>

section \<open>Paths\<close>

type_synonym path = "ustr list"

datatype Component = RootDir | CurDir | ParentDir | Normal ustr

text \<open>
  \<open>Path::components\<close>: repeated separators and inner dots are skipped, a leading dot is a
  component of its own.
\<close>

definition component :: "ustr \<Rightarrow> Component" where
  "component w = (if w = lit ''..'' then ParentDir else Normal w)"

definition components :: "ustr \<Rightarrow> Component list" where
  "components s =
     (if starts_with (lit ''/'') s then [RootDir]
      else if hd (split_char 47 s) = lit ''.'' then [CurDir] else [])
     @ map component (filter (\<lambda>w. w \<noteq> [] \<and> w \<noteq> lit ''.'') (split_char 47 s))"

text \<open>\<open>Path::extension\<close> and \<open>PathBuf::set_extension\<close>; a name that only starts with a dot has none.\<close>

definition split_at_dot :: "ustr \<Rightarrow> ustr \<times> ustr option" where
  "split_at_dot name =
     (case rsplit_once_char 46 name of
        None \<Rightarrow> (name, None)
      | Some (before, after) \<Rightarrow> if before = [] then (name, None) else (before, Some after))"

definition extension :: "path \<Rightarrow> ustr option" where
  "extension p = (if p = [] then None else snd (split_at_dot (last p)))"

definition set_extension :: "path \<Rightarrow> ustr \<Rightarrow> path" where
  "set_extension p ext =
     (if p = [] then p else butlast p @ [fst (split_at_dot (last p)) @ lit ''.'' @ ext])"

definition path_starts_with :: "path \<Rightarrow> path \<Rightarrow> bool" where
  "path_starts_with p root \<longleftrightarrow> take (length root) p = root"

definition push_component :: "path \<Rightarrow> Component \<Rightarrow> path presult" where
  "push_component result c =
     (case c of
        Normal part \<Rightarrow> Inr (result @ [part])
      | CurDir \<Rightarrow> Inr result
      | _ \<Rightarrow> Inl (InvalidMessage (lit ''invalid static path'')))"

definition resolve_path_lexical :: "path \<Rightarrow> ustr \<Rightarrow> path presult" where
  "resolve_path_lexical root request =
     (let relative = dropWhile (\<lambda>c. c = 47) request in
      and_then (try_fold push_component root (components relative)) (\<lambda>result.
      let result = (if ends_with_char 47 request \<or> relative = [] then result @ [lit ''index.aml''] else result)
      in Inr (if extension result = None then set_extension result (lit ''aml'') else result)))"

section \<open>The file system\<close>

type_synonym reads = "(io_kind, byte list) result list"

record site_file =
  f_metadata :: "(bool \<times> nat) option" \<comment> \<open>is it a regular file, and its length\<close>
  f_reads :: reads

record file_system =
  canonicalize :: "path \<Rightarrow> path option"
  open_file :: "path \<Rightarrow> site_file option"
  path_metadata :: "path \<Rightarrow> (io_kind, bool) result" \<comment> \<open>is it a regular file\<close>

definition resolve_path :: "file_system \<Rightarrow> path \<Rightarrow> ustr \<Rightarrow> path presult" where
  "resolve_path fs root request =
     and_then (resolve_path_lexical root request) (\<lambda>candidate.
     case canonicalize fs candidate of
       None \<Rightarrow> Inr candidate
     | Some canonical \<Rightarrow>
         if \<not> path_starts_with canonical root
         then Inl (InvalidMessage (lit ''static path escapes the configured site root''))
         else Inr canonical)"

text \<open>One \<open>read\<close> into a buffer of \<open>n\<close> bytes; no bytes mean the end of the file.\<close>

fun read_file :: "nat \<Rightarrow> reads \<Rightarrow> byte list presult \<times> reads" where
  "read_file n [] = (Inr [], [])"
| "read_file n (Inl k # rs) = (Inl (from_io k), rs)"
| "read_file n (Inr bs # rs) =
     (if length bs \<le> n then (Inr bs, rs) else (Inr (take n bs), Inr (drop n bs) # rs))"

text \<open>The reading loop; \<open>acc\<close> is the filled part of the buffer of \<open>requested\<close> bytes.\<close>

function read_loop :: "nat \<Rightarrow> byte list \<Rightarrow> reads \<Rightarrow> byte list presult" where
  "read_loop requested acc rs =
     (if requested \<le> length acc then Inr acc
      else case read_file (requested - length acc) rs of
        (Inl e, _) \<Rightarrow> Inl e
      | (Inr bs, rs') \<Rightarrow> if bs = [] then Inr acc else read_loop requested (acc @ bs) rs')"
  by pat_completeness auto
termination
  by (relation "measure (\<lambda>(requested, acc, _). requested - length acc)") (auto intro: diff_less_mono2)

declare read_loop.simps [simp del]

definition read_static_body :: "runtime \<Rightarrow> site_file \<Rightarrow> nat \<Rightarrow> byte list presult" where
  "read_static_body rt file expected_len =
     and_then (ok_or (ResourceExhausted usize_max) (checked_add expected_len 1)) (\<lambda>requested.
     and_then (allocate_frame_body rt requested) (\<lambda>_.
     and_then (read_loop requested [] (f_reads file)) (\<lambda>filled.
     if length filled > expected_len
     then Inl (InvalidMessage (lit ''static file changed while it was being read''))
     else Inr filled)))"

section \<open>Laws\<close>

text \<open>What a sequence of reads holds: up to the first empty read, or up to an error.\<close>

fun contents :: "reads \<Rightarrow> byte list" where
  "contents [] = []"
| "contents (Inl k # rs) = []"
| "contents (Inr bs # rs) = (if bs = [] then [] else bs @ contents rs)"

fun intact :: "reads \<Rightarrow> bool" where
  "intact [] = True"
| "intact (Inl k # rs) = False"
| "intact (Inr bs # rs) = (bs = [] \<or> intact rs)"

lemma read_file_contents:
  "intact rs \<Longrightarrow> 0 < n \<Longrightarrow> \<exists>bs rs'. read_file n rs = (Inr bs, rs') \<and> contents rs = bs @ contents rs' \<and> intact rs'
     \<and> length bs \<le> n \<and> (bs = [] \<longrightarrow> contents rs = []) \<or> (\<exists>rs'. read_file n rs = (Inr [], rs') \<and> contents rs = [])"
  by (cases "(n, rs)" rule: read_file.cases) (auto simp: not_le)

lemma read_loop_contents:
  assumes "intact rs" "length acc \<le> requested"
  shows "read_loop requested acc rs = Inr (take requested (acc @ contents rs))"
  using assms
proof (induction requested acc rs rule: read_loop.induct)
  case (1 requested acc rs)
  show ?case
  proof (cases "requested \<le> length acc")
    case False
    then have n: "0 < requested - length acc" by simp
    from read_file_contents [OF "1.prems"(1) n] consider
      (some) bs rs' where "read_file (requested - length acc) rs = (Inr bs, rs')" "contents rs = bs @ contents rs'"
        "intact rs'" "length bs \<le> requested - length acc" "bs \<noteq> []"
    | (none) rs' where "read_file (requested - length acc) rs = (Inr [], rs')" "contents rs = []"
      by blast
    then show ?thesis
    proof cases
      case some
      with "1.IH" [OF False some(1) [symmetric] refl some(5)] False show ?thesis
        by (subst read_loop.simps) simp
    next
      case none
      with False show ?thesis by (subst read_loop.simps) simp
    qed
  qed (use "1.prems" in \<open>simp add: read_loop.simps\<close>)
qed

lemma read_loop_error:
  assumes "\<not> intact rs" "length acc + length (contents rs) < requested"
  shows "\<exists>e. read_loop requested acc rs = Inl e"
  using assms
proof (induction rs arbitrary: acc rule: contents.induct)
  case (3 bs rs)
  then show ?case by (subst read_loop.simps) auto
qed (subst read_loop.simps; simp)+

end
