(* ===== verification/Live.thy ===== *)
theory Live
  imports Transport_Laws
begin

text \<open>
  Live regions of the server (\<open>dustnet-server/src/lib.rs\<close>): the budget that all subscriptions
  draw on, and the sending of updates to one subscriber. A generation is one version of a
  watched file; it is shared by reference, so two generations are the same when they have the
  same identity. The watch channel of a subscription holds the latest generation.
\<close>

section \<open>The subscription budget\<close>

record SubscriptionBudget =
  used :: nat
  budget_limit :: nat

definition new_budget :: "nat \<Rightarrow> SubscriptionBudget" where
  "new_budget limit = \<lparr>used = 0, budget_limit = limit\<rparr>"

text \<open>A lease is the number of bytes it holds.\<close>

definition reserve :: "SubscriptionBudget \<Rightarrow> nat \<Rightarrow> (SubscriptionBudget \<times> nat) presult" where
  "reserve b requested =
     and_then (ok_or (ResourceExhausted requested) (checked_add (used b) requested)) (\<lambda>next.
     if next > budget_limit b then Inl (ResourceExhausted requested)
     else Inr (b\<lparr>used := next\<rparr>, requested))"

definition try_resize :: "SubscriptionBudget \<Rightarrow> nat \<Rightarrow> nat \<Rightarrow> (SubscriptionBudget \<times> nat) presult" where
  "try_resize b amount requested =
     (let without_self = used b - amount in
      and_then (ok_or (ResourceExhausted requested) (checked_add without_self requested)) (\<lambda>next.
      if next > budget_limit b then Inl (ResourceExhausted requested)
      else Inr (b\<lparr>used := next\<rparr>, requested)))"

definition ensure_at_least :: "SubscriptionBudget \<Rightarrow> nat \<Rightarrow> nat \<Rightarrow> (SubscriptionBudget \<times> nat) presult" where
  "ensure_at_least b amount requested =
     (if requested > amount then try_resize b amount requested else Inr (b, amount))"

text \<open>
  The subtractions of \<open>shrink_to\<close> are plain: below zero they would panic or wrap, so the
  model refuses. Callers never ask for more than the lease holds.
\<close>

definition shrink_to :: "SubscriptionBudget \<Rightarrow> nat \<Rightarrow> nat \<Rightarrow> (SubscriptionBudget \<times> nat) option" where
  "shrink_to b amount requested =
     (if requested \<le> amount \<and> amount - requested \<le> used b
      then Some (b\<lparr>used := used b - (amount - requested)\<rparr>, requested) else None)"

definition drop_lease :: "SubscriptionBudget \<Rightarrow> nat \<Rightarrow> SubscriptionBudget" where
  "drop_lease b amount = b\<lparr>used := used b - amount\<rparr>"

text \<open>The budget with the leases it has given out; each operation holds the lock, so they interleave whole.\<close>

inductive budget_step :: "SubscriptionBudget \<times> nat list \<Rightarrow> SubscriptionBudget \<times> nat list \<Rightarrow> bool" where
  reserved: "reserve b n = Inr (b', a) \<Longrightarrow> budget_step (b, ls) (b', ls @ [a])"
| resized: "i < length ls \<Longrightarrow> try_resize b (ls ! i) n = Inr (b', a) \<Longrightarrow> budget_step (b, ls) (b', ls[i := a])"
| ensured: "i < length ls \<Longrightarrow> ensure_at_least b (ls ! i) n = Inr (b', a) \<Longrightarrow> budget_step (b, ls) (b', ls[i := a])"
| shrunk: "i < length ls \<Longrightarrow> shrink_to b (ls ! i) n = Some (b', a) \<Longrightarrow> budget_step (b, ls) (b', ls[i := a])"
| dropped: "i < length ls \<Longrightarrow> budget_step (b, ls) (drop_lease b (ls ! i), take i ls @ drop (Suc i) ls)"

inductive budget_reachable :: "nat \<Rightarrow> SubscriptionBudget \<times> nat list \<Rightarrow> bool" for lim where
  start: "budget_reachable lim (new_budget lim, [])"
| step: "budget_reachable lim s \<Longrightarrow> budget_step s s' \<Longrightarrow> budget_reachable lim s'"

inductive_cases budget_stepE: "budget_step (b, ls) s'"

definition budget_inv :: "nat \<Rightarrow> SubscriptionBudget \<times> nat list \<Rightarrow> bool" where
  "budget_inv lim = (\<lambda>(b, ls). budget_limit b = lim \<and> used b = sum_list ls \<and> used b \<le> lim)"

lemma sum_list_remove: "i < length ls \<Longrightarrow> sum_list (take i ls @ drop (Suc i) ls) = sum_list ls - (ls ! i :: nat)"
  using id_take_nth_drop [of i ls] by (metis add_diff_cancel_left' append.assoc add.left_commute sum_list.append sum_list.Cons)

lemma budget_inv_step:
  assumes "budget_step s s'" "budget_inv lim s"
  shows "budget_inv lim s'"
  using assms
proof (induction rule: budget_step.induct)
  case (reserved b n b' a ls)
  then show ?case by (auto simp: budget_inv_def reserve_def result_simps split: if_splits)
next
  case (resized i ls b n b' a)
  moreover from this have "ls ! i \<le> sum_list ls" by (simp add: elem_le_sum_list)
  ultimately show ?case
    by (auto simp: budget_inv_def try_resize_def sum_list_update result_simps Let_def split: if_splits)
next
  case (ensured i ls b n b' a)
  moreover from this have "ls ! i \<le> sum_list ls" by (simp add: elem_le_sum_list)
  ultimately show ?case
    by (auto simp: budget_inv_def ensure_at_least_def try_resize_def sum_list_update result_simps Let_def split: if_splits)
next
  case (shrunk i ls b n b' a)
  then have "ls ! i \<le> sum_list ls" by (simp add: elem_le_sum_list)
  with shrunk show ?case
    by (auto simp: budget_inv_def shrink_to_def sum_list_update split: if_splits)
next
  case (dropped i ls b)
  then show ?case by (auto simp: budget_inv_def drop_lease_def sum_list_remove simp del: sum_list.append)
qed

text \<open>
  C37: the budget is exact. Whatever reservations, resizes, shrinkings and releases interleave,
  the bytes in use are the sum of the leases that are out, and never exceed the limit; no
  shrinking of a lease can underflow, and when every lease is gone the whole budget is free.
\<close>

theorem budget_exact:
  assumes "budget_reachable lim (b, ls)"
  shows "used b = sum_list ls \<and> used b \<le> lim
    \<and> (\<forall>i < length ls. \<forall>n \<le> ls ! i. shrink_to b (ls ! i) n \<noteq> None)"
proof -
  have "budget_inv lim s" if "budget_reachable lim s" for s
    using that
  proof induction
    case start
    then show ?case by (simp add: budget_inv_def new_budget_def)
  next
    case (step s s')
    then show ?case by (blast intro: budget_inv_step)
  qed
  then have "budget_inv lim (b, ls)" using assms .
  moreover have "ls ! i \<le> sum_list ls" if "i < length ls" for i
    using that by (simp add: elem_le_sum_list)
  ultimately show ?thesis
    by (fastforce simp: budget_inv_def shrink_to_def)
qed

theorem budget_exact_witness:
  "budget_reachable 10 (\<lparr>used = 4, budget_limit = 10\<rparr>, [4])
   \<and> shrink_to \<lparr>used = 4, budget_limit = 10\<rparr> 4 1 \<noteq> None"
proof -
  have "reserve (new_budget 10) 4 = Inr (\<lparr>used = 4, budget_limit = 10\<rparr>, 4)"
    by (simp add: reserve_def new_budget_def checked_add_def usize_max_def)
  then have r: "budget_reachable 10 (\<lparr>used = 4, budget_limit = 10\<rparr>, [4])"
    using budget_reachable.step [OF budget_reachable.start budget_step.reserved] by fastforce
  with budget_exact [OF r] show ?thesis by auto
qed

section \<open>Subscriptions\<close>

record LiveGeneration =
  gen_id :: nat
  gen_text :: ustr

record StaticSubscription =
  sub_of_region :: ustr
  sub_in_mode :: SubscribeMode
  baseline :: LiveGeneration
  updates :: LiveGeneration
  metadata_lease :: nat

text \<open>What goes on the wire for the next generation, and whether it is a suffix.\<close>

definition wire_content :: "StaticSubscription \<Rightarrow> LiveGeneration \<Rightarrow> ustr \<times> bool" where
  "wire_content sub next =
     (if sub_in_mode sub = Delta then
        (case strip_prefix (gen_text (baseline sub)) (gen_text next) of
           Some suffix \<Rightarrow> (suffix, True)
         | None \<Rightarrow> (gen_text next, False))
      else (gen_text next, False))"

definition flush_subscription :: "runtime \<Rightarrow> StaticSubscription \<Rightarrow> StaticSubscription action" where
  "flush_subscription rt sub =
     (let next = updates sub in
      if gen_id next = gen_id (baseline sub) then lift (Inr sub)
      else let (content, delta) = wire_content sub next in
        if \<not> is_ok (validate_update_parts rt (sub_of_region sub) (len content))
        then lift (Inr (sub\<lparr>baseline := next\<rparr>))
        else bind_action (server_send_update_parts rt (sub_of_region sub) content delta) (\<lambda>_.
             lift (Inr (sub\<lparr>baseline := next\<rparr>))))"

fun flush_subscriptions :: "runtime \<Rightarrow> StaticSubscription list \<Rightarrow> StaticSubscription list action" where
  "flush_subscriptions rt [] = lift (Inr [])"
| "flush_subscriptions rt (sub # subs) =
     bind_action (flush_subscription rt sub) (\<lambda>sub.
     bind_action (flush_subscriptions rt subs) (\<lambda>subs. lift (Inr (sub # subs))))"

section \<open>What is sent\<close>

text \<open>What a flush wrote for a region: nothing, or one UPDATE with this content and this delta flag.\<close>

definition sends :: "ustr \<Rightarrow> byte list \<Rightarrow> (ustr \<times> bool) option \<Rightarrow> bool" where
  "sends region bytes u \<longleftrightarrow>
     (case u of
        None \<Rightarrow> bytes = []
      | Some (content, delta) \<Rightarrow> valid_str content \<and> bytes = frame_bytes (update_frame region content delta))"

text \<open>The contents sent since the last one that was complete, in order.\<close>

definition pieces_after :: "(ustr \<times> bool) option \<Rightarrow> ustr list \<Rightarrow> ustr list" where
  "pieces_after u ps = (case u of None \<Rightarrow> ps | Some (content, delta) \<Rightarrow> (if delta then ps else []) @ [content])"

lemma update_sent:
  assumes "ample rt" "valid_str region" "valid_str content"
    and "server_send_update_parts rt region content delta c = (Inr (), c')"
  shows "tx (transport c') = tx (transport c) @ frame_bytes (update_frame region content delta)"
    "validate_update_parts rt region (len content) = Inr ()"
proof -
  have t: "server_try_send_update_parts rt region content delta c = (Inr (), c')"
    using assms(4) by (simp add: server_send_update_parts_def guarded_Inr)
  from update_parts_sent [OF assms(1-3) t] obtain c1 p where
    "hooked (msg_type (update_frame region content delta) = Welcome) (accept_welcome rt (body (update_frame region content delta))) c c1"
    "c' = sent (frame_bytes (update_frame region content delta)) p c1"
    unfolding server_via welcome_hook.send_success by blast
  then show "tx (transport c') = tx (transport c) @ frame_bytes (update_frame region content delta)"
    by (simp add: hooked_def update_frame_def sent_def)
  show "validate_update_parts rt region (len content) = Inr ()"
    using t unfolding server_try_send_update_parts_def Let_def bind_lift bind_check by auto
qed

lemma update_frame_bytes_flat:
  "frame_bytes (update_frame region content delta) =
    to_be_bytes (of_nat HEADER_SIZE + of_nat (9 + len region + len content)) @ to_u8 Update
    # update_to_bits \<lparr>delta_flag = delta\<rparr> # utf8 (lit ''UPDATE '') @ utf8 region @ [10, 10] @ utf8 content"
  using update_frame_bytes [OF refl, of region content delta] by simp

lemma update_frame_inj:
  assumes "frame_bytes (update_frame region content delta) = frame_bytes (update_frame region content' delta')"
    and "valid_str content" "valid_str content'"
  shows "content' = content \<and> delta' = delta"
proof -
  have l: "length (to_be_bytes w) = 4" for w
    by (simp add: to_be_bytes_def Let_def)
  have "update_to_bits \<lparr>delta_flag = delta\<rparr> = update_to_bits \<lparr>delta_flag = delta'\<rparr> \<and> utf8 content = utf8 content'"
    using assms(1) unfolding update_frame_bytes_flat by (simp add: append_eq_append_conv l)
  then show ?thesis
    using assms(2,3) utf8_inject by (auto simp: update_to_bits_def split: if_splits)
qed

lemma frame_bytes_nonempty [simp]: "frame_bytes f \<noteq> []" "[] \<noteq> frame_bytes f"
  by (simp_all add: frame_bytes_def frame_header_bytes)

lemma sends_unique: "sends region bytes u \<Longrightarrow> sends region bytes u' \<Longrightarrow> u' = u"
  by (auto simp: sends_def split: option.splits dest!: update_frame_inj)

text \<open>An UPDATE that fits goes out on a ready connection that negotiated live updates and has room.\<close>

lemma update_can_be_sent:
  assumes v: "validate_update_parts rt region (len content) = Inr ()"
    and c: "cstate c = \<lparr>endpoint = Server, phase = Ready\<rparr>" "\<not> poisoned c" "negotiated c = Some neg"
      "live_updates (np_capabilities neg)"
    and room: "HEADER_SIZE + 9 + len region + len content \<le> tx_room (transport c)"
  shows "\<exists>c'. server_send_update_parts rt region content delta c = (Inr (), c')"
proof -
  obtain n where k: "n = 9 + len region + len content" "n \<le> MAX_LIVE_UPDATE_SIZE"
    using v by (auto simp: validate_update_parts_def parts_body_len_def checked_add_def enforce_message_limit_def result_simps
        split: if_splits)
  then have n: "parts_body_len region (len content) = Inr n"
    by (simp add: parts_body_len_def checked_add_def usize_max_def limit_defs)
  obtain w :: u32 where w: "u32_try_from n = Some w" "unat w = n"
    using k(2) unat_of_nat_u32 [of n] by (auto simp: u32_try_from_def limit_defs u32_max_def)
  have "w = of_nat n"
    using w(1) by (simp add: u32_try_from_Some)
  then have s: "unat (6 + w) = n + 6"
    using k(2) unat_of_nat_u32 [of "n + 6"] by (simp add: limit_defs u32_max_def add.commute)
  have "unat (of_nat HEADER_SIZE :: u32) = 6"
    by (simp add: HEADER_SIZE_def)
  then obtain w6 :: u32 where w6: "checked_add_u32 (of_nat HEADER_SIZE) w = Some w6" "unat w6 = n + 6"
    using k(2) w(2) s by (simp add: checked_add_u32_def limit_defs u32_max_def)
  have l: "len (lit ''UPDATE '') = 7" "length (to_be_bytes w6) = 4"
    by (simp_all add: lit_def len_utf8_def to_be_bytes_def)
  have d: "srv_validate_inbound_flags rt Update (update_to_bits \<lparr>delta_flag = delta\<rparr>) = Inr ()"
    by (simp add: srv_validate_inbound_flags_def update_to_bits_def)
  have "\<not> MAX_FRAME_SIZE < n + 6" "srv_validate_inbound_body_len rt ServerPeer Update w = Inr ()"
    using k(2) w(2) by (simp_all add: srv_validate_inbound_body_len_def srv_inbound_body_limit_def limit_defs)
  moreover have "15 + len region + len content \<le> tx_room (transport c)"
    using room by (simp add: HEADER_SIZE_def)
  ultimately show ?thesis
    using c w6(2)
    by (simp add: server_send_update_parts_def server_try_send_update_parts_def guarded_def n v w(1) w6(1) d bind_action_def
        srv_validate_capability_def apply_state_def apply_msg_def next_phase_def on_stream_def write_all_def l Let_def) arith
qed

definition fits :: "ustr \<Rightarrow> LiveGeneration \<Rightarrow> bool" where
  "fits region g \<longleftrightarrow> 9 + len region + len (gen_text g) \<le> MAX_LIVE_UPDATE_SIZE"

lemma parts_ok:
  "validate_primary_value rt (lit ''UPDATE region-id'') region = Inr () \<Longrightarrow> 9 + len region + n \<le> MAX_LIVE_UPDATE_SIZE \<Longrightarrow>
   validate_update_parts rt region n = Inr ()"
  by (simp add: validate_update_parts_def parts_body_len_def checked_add_def enforce_message_limit_def limit_defs usize_max_def)

lemma parts_fit:
  "validate_update_parts rt region n = Inr () \<Longrightarrow>
   validate_primary_value rt (lit ''UPDATE region-id'') region = Inr () \<and> 9 + len region + n \<le> MAX_LIVE_UPDATE_SIZE"
  by (auto simp: validate_update_parts_def parts_body_len_def checked_add_def enforce_message_limit_def result_simps
      split: if_splits)

lemma wire_content_cases:
  obtains "wire_content sub g = (gen_text g, False)"
    | t where "wire_content sub g = (t, True)" "gen_text g = gen_text (baseline sub) @ t"
  by (cases "sub_in_mode sub = Delta"; cases "strip_prefix (gen_text (baseline sub)) (gen_text g)")
    (auto simp: wire_content_def strip_prefix_Some)

text \<open>What holds of a subscription and of the contents that were sent for it.\<close>

definition sub_inv :: "runtime \<Rightarrow> StaticSubscription \<Rightarrow> ustr list \<Rightarrow> bool" where
  "sub_inv rt sub ps \<longleftrightarrow>
     valid_str (sub_of_region sub)
     \<and> validate_primary_value rt (lit ''UPDATE region-id'') (sub_of_region sub) = Inr ()
     \<and> valid_str (gen_text (updates sub)) \<and> fits (sub_of_region sub) (updates sub)
     \<and> (gen_id (updates sub) = gen_id (baseline sub) \<longrightarrow> updates sub = baseline sub)
     \<and> concat ps = gen_text (baseline sub)"

text \<open>A flush: nothing when the latest generation is the baseline, otherwise one update that completes it.\<close>

lemma flush_sends:
  assumes "ample rt" "sub_inv rt sub ps" "flush_subscription rt sub c = (Inr sub', c')"
  shows "\<exists>u bytes. tx (transport c') = tx (transport c) @ bytes \<and> sends (sub_of_region sub) bytes u
    \<and> sub' = sub\<lparr>baseline := updates sub\<rparr> \<and> concat (pieces_after u ps) = gen_text (updates sub)"
proof -
  have i: "valid_str (sub_of_region sub)"
    "validate_primary_value rt (lit ''UPDATE region-id'') (sub_of_region sub) = Inr ()"
    "valid_str (gen_text (updates sub))" "fits (sub_of_region sub) (updates sub)" "concat ps = gen_text (baseline sub)"
    "gen_id (updates sub) = gen_id (baseline sub) \<longrightarrow> updates sub = baseline sub"
    using assms(2) by (simp_all add: sub_inv_def)
  show ?thesis
  proof (cases "gen_id (updates sub) = gen_id (baseline sub)")
    case True
    with assms(3) i(5,6) have "tx (transport c') = tx (transport c) @ [] \<and> sends (sub_of_region sub) [] None
        \<and> sub' = sub\<lparr>baseline := updates sub\<rparr> \<and> concat (pieces_after None ps) = gen_text (updates sub)"
      by (auto simp: flush_subscription_def Let_def lift_def sends_def pieces_after_def)
    then show ?thesis by blast
  next
    case False
    obtain content delta where w: "wire_content sub (updates sub) = (content, delta)" by fastforce
    have content: "valid_str content \<and> len content \<le> len (gen_text (updates sub))
        \<and> concat (pieces_after (Some (content, delta)) ps) = gen_text (updates sub)"
      using w i(3,5) by (cases rule: wire_content_cases [of sub "updates sub"]) (auto simp: pieces_after_def)
    then have "validate_update_parts rt (sub_of_region sub) (len content) = Inr ()"
      using i(2,4) by (intro parts_ok) (auto simp: fits_def)
    then have "server_send_update_parts rt (sub_of_region sub) content delta c = (Inr (), c')"
      "sub' = sub\<lparr>baseline := updates sub\<rparr>"
      using assms(3) False w by (auto simp: flush_subscription_def bind_Inr lift_def is_ok_def)
    then show ?thesis
      using update_sent(1) [OF assms(1) i(1)] content
      by (intro exI [of _ "Some (content, delta)"]) (auto simp: sends_def)
  qed
qed

lemma flush_inv:
  assumes "ample rt" "sub_inv rt sub ps" "flush_subscription rt sub c = (Inr sub', c')"
    and "tx (transport c') = tx (transport c) @ bytes" "sends (sub_of_region sub) bytes u"
  shows "sub' = sub\<lparr>baseline := updates sub\<rparr>" "sub_inv rt sub' (pieces_after u ps)"
proof -
  obtain u' bytes' where u': "tx (transport c') = tx (transport c) @ bytes'" "sends (sub_of_region sub) bytes' u'"
    "sub' = sub\<lparr>baseline := updates sub\<rparr>" "concat (pieces_after u' ps) = gen_text (updates sub)"
    using flush_sends [OF assms(1-3)] by blast
  with assms(4,5) have "u = u'"
    using sends_unique by (metis same_append_eq)
  with u'(3,4) assms(2) show "sub' = sub\<lparr>baseline := updates sub\<rparr>" "sub_inv rt sub' (pieces_after u ps)"
    by (simp_all add: sub_inv_def)
qed

text \<open>The largest text the registry publishes for any region.\<close>

definition max_shared_content_len :: nat where
  "max_shared_content_len = MAX_LIVE_UPDATE_SIZE - 9"

text \<open>
  C39: a generation too large for its region puts a delta subscriber out of step for good. Take a
  subscription in delta mode whose contents so far add up to its baseline, a generation that
  extends the baseline by a suffix too long for an update of the region, and a next one that
  extends that generation by a short one; both are within the registry's own limit. The flush that
  meets the first sends nothing but advances the baseline, so the flush of the second sends the
  last suffix alone, marked as a delta. What was sent for the region no longer adds up to the
  generation that is now the baseline, and the subscriber is not told.
\<close>

theorem skipped_generation_lost:
  assumes "ample rt" "valid_str region" "valid_str x" "y \<noteq> []" "concat ps = gen_text g0"
    and "gen_text g1 = gen_text g0 @ y" "gen_text g2 = gen_text g1 @ x" "len (gen_text g2) \<le> max_shared_content_len"
    and "gen_id g1 \<noteq> gen_id g0" "gen_id g2 \<noteq> gen_id g1"
    and "MAX_LIVE_UPDATE_SIZE < 9 + len region + len y"
    and "server_send_update_parts rt region x True c = (Inr (), c')"
  shows "flush_subscription rt \<lparr>sub_of_region = region, sub_in_mode = Delta, baseline = g0, updates = g1, metadata_lease = n\<rparr> c =
      (Inr \<lparr>sub_of_region = region, sub_in_mode = Delta, baseline = g1, updates = g1, metadata_lease = n\<rparr>, c)
    \<and> flush_subscription rt \<lparr>sub_of_region = region, sub_in_mode = Delta, baseline = g1, updates = g2, metadata_lease = n\<rparr> c =
      (Inr \<lparr>sub_of_region = region, sub_in_mode = Delta, baseline = g2, updates = g2, metadata_lease = n\<rparr>, c')
    \<and> tx (transport c') = tx (transport c) @ frame_bytes (update_frame region x True)
    \<and> concat (pieces_after (Some (x, True)) ps) \<noteq> gen_text g2"
proof -
  have "\<not> is_ok (validate_update_parts rt region (len y))"
    using parts_fit [of rt region "len y"] assms(11) by (auto simp: is_ok_def split: sum.splits)
  moreover have "validate_update_parts rt region (len x) = Inr ()"
    and t: "tx (transport c') = tx (transport c) @ frame_bytes (update_frame region x True)"
    using update_sent [OF assms(1-3) assms(12)] by simp_all
  moreover have "strip_prefix (gen_text g0 @ y) (gen_text g0 @ y @ x) = Some x"
    by (simp add: strip_prefix_Some)
  ultimately show ?thesis
    using assms(4-7,9,10,12) t
    by (simp add: flush_subscription_def wire_content_def lift_def bind_action_def is_ok_def pieces_after_def)
qed

lemma update_on_ready:
  "\<exists>c'. server_send_update_parts roomy_runtime (lit ''rs'') (lit ''x'') delta (ready_server []) = (Inr (), c')"
proof -
  have "validate_update_parts roomy_runtime (lit ''rs'') (len (lit ''x'')) = Inr ()"
    by (simp add: parts_body_len_def validate_update_parts_def validate_primary_value_def lit_def len_utf8_def
        checked_add_def usize_max_def is_control_def enforce_message_limit_def limit_defs)
  then show ?thesis
    by (rule update_can_be_sent [where neg = "\<lparr>np_version = \<lparr>major = 1, minor = 0\<rparr>, np_capabilities = 15\<rparr>"])
      (simp_all add: ready_server_def handshake_plain_def new_connection_def quiet_stream_def
        live_updates_def LIVE_UPDATES_def HEADER_SIZE_def lit_def len_utf8_def)
qed

theorem skipped_generation_lost_witness:
  "\<exists>y (c' :: Connection). concat (pieces_after (Some (lit ''x'', True)) [[]]) \<noteq> y @ lit ''x''
    \<and> len (y @ lit ''x'') \<le> max_shared_content_len
    \<and> tx (transport c') = tx (transport (ready_server [])) @ frame_bytes (update_frame (lit ''rs'') (lit ''x'') True)"
proof -
  obtain y :: ustr where y: "len y = MAX_LIVE_UPDATE_SIZE - 10"
  proof
    show "len (replicate (MAX_LIVE_UPDATE_SIZE - 10) 120) = MAX_LIVE_UPDATE_SIZE - 10"
      by (simp add: len_def sum_list_replicate len_utf8_def del: replicate.simps)
  qed
  have x: "len (lit ''x'') = 1" "len (lit ''rs'') = 2" "valid_str (lit ''x'')" "valid_str (lit ''rs'')"
    by (simp_all add: lit_def len_utf8_def is_scalar_def)
  have m: "10 < MAX_LIVE_UPDATE_SIZE" "Suc (MAX_LIVE_UPDATE_SIZE - 10) \<le> MAX_LIVE_UPDATE_SIZE - 9"
    by (simp_all add: limit_defs)
  obtain c' where c': "server_send_update_parts roomy_runtime (lit ''rs'') (lit ''x'') True (ready_server []) = (Inr (), c')"
    using update_on_ready by blast
  have "y \<noteq> []" using y m by auto
  then have "concat (pieces_after (Some (lit ''x'', True)) [[]]) \<noteq> y @ lit ''x''
    \<and> tx (transport c') = tx (transport (ready_server [])) @ frame_bytes (update_frame (lit ''rs'') (lit ''x'') True)"
    using skipped_generation_lost [OF ample_roomy x(4,3), of y "[[]]" "\<lparr>gen_id = 0, gen_text = []\<rparr>"
        "\<lparr>gen_id = 1, gen_text = y\<rparr>" "\<lparr>gen_id = 2, gen_text = y @ lit ''x''\<rparr>" "ready_server []" c'] c' x y m
    by (simp add: max_shared_content_len_def)
  moreover have "len (y @ lit ''x'') \<le> max_shared_content_len"
    using x y m by (simp add: max_shared_content_len_def)
  ultimately show ?thesis by blast
qed

end
