(* ===== verification/Server.thy ===== *)
theory Server
  imports Wire_System Site Live Include Forms Rust_Net
begin

text \<open>
  The request handling of the server (\<open>dustnet-server/src/lib.rs\<close>, \<open>session.rs\<close> and the
  types of \<open>input.rs\<close>): one connection from its HELLO to its end.

  The site's own code is a parameter: the include resolver, the input handler and the session
  resolver. What they remember is the site state \<open>'s\<close>. Writing under a deadline
  (\<open>send_with_timeout\<close>) is writing: a deadline that passes is a stream that takes no more bytes.
\<close>

section \<open>Sessions and submissions\<close>

type_synonym SessionChange = "SessionDirective list"

definition change_none :: SessionChange where
  "change_none = []"

definition change_set :: "ustr \<Rightarrow> ustr \<Rightarrow> u64 \<Rightarrow> SessionChange" where
  "change_set token scope expires = [SetSession token scope (Some expires)]"

definition change_clear :: "ustr \<Rightarrow> SessionChange" where
  "change_clear scope = [ClearSession scope]"

fun change_token :: "SessionChange \<Rightarrow> ustr option" where
  "change_token [] = None"
| "change_token (SetSession token _ _ # _) = Some token"
| "change_token (ClearSession _ # ds) = change_token ds"

definition clears :: "SessionChange \<Rightarrow> bool" where
  "clears change = list_ex (\<lambda>d. case d of ClearSession _ \<Rightarrow> True | SetSession _ _ _ \<Rightarrow> False) change"

record 's SessionResolver =
  identity :: "'s \<Rightarrow> ustr \<Rightarrow> ustr option"
  revoke :: "'s \<Rightarrow> ustr \<Rightarrow> 's"

record InputRequest =
  req_path :: ustr
  req_query :: "ustr option"
  req_fields :: FormFields
  req_identity :: "ustr option"
  req_peer :: IpAddr

datatype InputOutcome = Render ustr "ustr option" SessionChange | Rejected ustr

definition outcome_render :: "ustr \<Rightarrow> InputOutcome" where
  "outcome_render p = Render p None change_none"

definition outcome_render_query :: "ustr \<Rightarrow> ustr \<Rightarrow> InputOutcome" where
  "outcome_render_query p q = Render p (Some q) change_none"

definition with_session :: "InputOutcome \<Rightarrow> SessionChange \<Rightarrow> InputOutcome" where
  "with_session outcome change =
     (case outcome of Render p q _ \<Rightarrow> Render p q change | Rejected reason \<Rightarrow> Rejected reason)"

record 's ConnectionContext =
  ctx_root :: path
  ctx_resolver :: "('s \<Rightarrow> IncludeResolver) option"
  ctx_input_handler :: "('s \<Rightarrow> InputRequest \<Rightarrow> InputOutcome \<times> 's) option"
  ctx_session_resolver :: "'s SessionResolver option"
  ctx_peer :: IpAddr

definition resolve_identity :: "'s SessionResolver option \<Rightarrow> 's \<Rightarrow> ustr option \<Rightarrow> ustr option" where
  "resolve_identity resolver st token =
     Option.bind resolver (\<lambda>r. Option.bind token (\<lambda>t. identity r st t))"

section \<open>Answers\<close>

definition send_error :: "runtime \<Rightarrow> u16 \<Rightarrow> ustr \<Rightarrow> unit action" where
  "send_error rt code message =
     bind_action (lift (Error_serialize rt \<lparr>error_code = code, error_message = Some message\<rparr>)) (\<lambda>txt.
     server_send_frame rt \<lparr>msg_type = ErrorMsg, flags = 0, body = utf8 txt\<rparr>)"

text \<open>The part of \<open>serve_path\<close> that reads no file: from the text of the file to the PAGE.\<close>

definition resolve_content ::
  "runtime \<Rightarrow> IncludeResolver option \<Rightarrow> IncludeRequest \<Rightarrow> ustr \<Rightarrow> ustr presult" where
  "resolve_content rt resolver request content =
     (case resolver of None \<Rightarrow> Inr content | Some r \<Rightarrow> resolve_page rt content r request)"

definition page_of ::
  "bool \<Rightarrow> ustr \<Rightarrow> ustr option \<Rightarrow> SessionDirective list \<Rightarrow> ustr \<Rightarrow> PageMessage" where
  "page_of announce request_path qry directives content =
     \<lparr>page_content = content,
      page_flags = \<lparr>cacheable = True, has_live_regions = find_sub (lit ''[live'') content \<noteq> None,
        has_path = False, has_session = False\<rparr>,
      page_path_field =
        (if announce then
           Some (case qry of Some q \<Rightarrow> request_path @ lit ''?'' @ q | None \<Rightarrow> request_path)
         else None),
      session_directives = directives\<rparr>"

definition serve_content ::
  "runtime \<Rightarrow> IncludeResolver option \<Rightarrow> ustr \<Rightarrow> ustr option \<Rightarrow> ustr option \<Rightarrow> SessionDirective list \<Rightarrow> bool \<Rightarrow>
   ustr \<Rightarrow> unit action" where
  "serve_content rt resolver request_path qry who directives announce_location content =
     bind_action (lift (resolve_content rt resolver
         \<lparr>ir_path = request_path, ir_query = qry, ir_identity = who\<rparr> content)) (\<lambda>resolved.
     if resolver \<noteq> None \<and> len resolved > MAX_PAGE_MESSAGE_SIZE
     then send_error rt 500 (lit ''resolved page too large'')
     else (\<lambda>c.
       bind_action (lift (page_encode_body rt
           (page_of (announce_location \<and> supports_page_path c) request_path qry directives resolved))) (\<lambda>(bytes, fl).
       server_send_frame rt \<lparr>msg_type = Page, flags = fl, body = bytes\<rparr>) c))"

definition is_wasm :: "path \<Rightarrow> bool" where
  "is_wasm p \<longleftrightarrow> extension p = Some (lit ''wasm'')"

definition size_limit :: "path \<Rightarrow> nat" where
  "size_limit p = (if is_wasm p then MAX_WASM_MODULE_SIZE else MAX_PAGE_MESSAGE_SIZE)"

definition serve_path ::
  "runtime \<Rightarrow> file_system \<Rightarrow> path \<Rightarrow> IncludeResolver option \<Rightarrow> ustr \<Rightarrow> ustr option \<Rightarrow> ustr option \<Rightarrow>
   SessionDirective list \<Rightarrow> bool \<Rightarrow> unit action" where
  "serve_path rt fs root resolver request_path qry who directives announce_location =
     bind_action (lift (resolve_path fs root request_path)) (\<lambda>p.
     case open_file fs p of
       None \<Rightarrow> send_error rt 404 (lit ''not found'')
     | Some file \<Rightarrow>
         (case f_metadata file of
            Some (True, n) \<Rightarrow>
              if n \<le> size_limit p then
                bind_action (lift (read_static_body rt file n)) (\<lambda>bytes.
                if is_wasm p then server_send_frame rt \<lparr>msg_type = Resource, flags = 0, body = bytes\<rparr>
                else
                  bind_action (lift (map_err (\<lambda>_. InvalidMessage (lit ''AML file is not UTF-8'')) (from_utf8 bytes))) (\<lambda>content.
                  serve_content rt resolver request_path qry who directives announce_location content))
              else send_error rt 404 (lit ''not found'')
          | _ \<Rightarrow> send_error rt 404 (lit ''not found'')))"

definition serve_get ::
  "runtime \<Rightarrow> file_system \<Rightarrow> 's ConnectionContext \<Rightarrow> 's \<Rightarrow> RawFrame \<Rightarrow> unit action" where
  "serve_get rt fs site st frame =
     bind_action (lift (map_err (\<lambda>_. InvalidMessage (lit ''GET is not UTF-8'')) (from_utf8 (body frame)))) (\<lambda>txt.
     bind_action (lift (Get_parse rt txt)) (\<lambda>get.
     serve_path rt fs (ctx_root site) (map_option (\<lambda>r. r st) (ctx_resolver site)) (get_path get) (get_query get)
       (resolve_identity (ctx_session_resolver site) st (get_session get)) [] False))"

text \<open>A submission: the site state after it, and the answer.\<close>

definition accept_submission ::
  "runtime \<Rightarrow> file_system \<Rightarrow> 's ConnectionContext \<Rightarrow> InputMessage \<Rightarrow> ustr option \<Rightarrow>
   InputOutcome \<times> 's \<Rightarrow> 's \<times> unit action" where
  "accept_submission rt fs site inp who outcome_st =
     (case outcome_st of
        (Render p qry session, st) \<Rightarrow>
          let st = (case (ctx_session_resolver site, input_session inp) of
                (Some resolver, Some token) \<Rightarrow> if clears session then revoke resolver st token else st
              | _ \<Rightarrow> st);
            who = (case (ctx_session_resolver site, change_token session) of
                (Some resolver, Some granted) \<Rightarrow> identity resolver st granted
              | _ \<Rightarrow> who)
          in (st, serve_path rt fs (ctx_root site) (map_option (\<lambda>r. r st) (ctx_resolver site)) p qry who session True)
      | (Rejected reason, st) \<Rightarrow> (st, send_error rt 400 (short_reason reason)))"

definition request_of :: "'s ConnectionContext \<Rightarrow> 's \<Rightarrow> InputMessage \<Rightarrow> InputRequest" where
  "request_of site st inp =
     (case split_query (input_path inp) of (p, qry) \<Rightarrow>
        \<lparr>req_path = p, req_query = qry, req_fields = FormFields_parse (input_form_data inp),
         req_identity = resolve_identity (ctx_session_resolver site) st (input_session inp),
         req_peer = ctx_peer site\<rparr>)"

definition serve_input ::
  "runtime \<Rightarrow> file_system \<Rightarrow> 's ConnectionContext \<Rightarrow> 's \<Rightarrow> RawFrame \<Rightarrow> 's \<times> unit action" where
  "serve_input rt fs site st frame =
     (case ctx_input_handler site of
        None \<Rightarrow> (st, send_error rt 405 (lit ''server accepts no form submissions''))
      | Some handler \<Rightarrow>
          (case and_then (map_err (\<lambda>_. InvalidMessage (lit ''INPUT is not UTF-8'')) (from_utf8 (body frame))) (Input_parse rt) of
             Inl e \<Rightarrow> (st, lift (Inl e))
           | Inr inp \<Rightarrow>
               let request = request_of site st inp
               in accept_submission rt fs site inp (req_identity request) (handler st request)))"

section \<open>Subscribing\<close>

definition MAX_SUBSCRIPTIONS_PER_CONNECTION :: nat where "MAX_SUBSCRIPTIONS_PER_CONNECTION = 16"

text \<open>
  What a connection needs of the world: the file system, the registry of watched files, and
  the capacity that \<open>try_reserve_exact\<close> really gives. The subscription budget is shared: the
  registry charges its entries and the texts it reads to it, and so do other connections. A number
  says how much of it is held elsewhere than in the metadata leases of this connection.
  \<open>w_attach\<close> is the registry's answer with what is held elsewhere after it, for the registry
  reserves for its entry and for the text while the connection waits; \<open>w_release\<close> is what is held
  elsewhere once this connection has let go of some generations, for the last one to hold a
  generation returns the bytes of its text.
\<close>

record AttachedWatch =
  aw_current :: LiveGeneration
  aw_updates :: LiveGeneration

record world =
  w_files :: file_system
  w_attach :: "path \<Rightarrow> nat \<Rightarrow> AttachedWatch presult \<times> nat"
  w_release :: "LiveGeneration list \<Rightarrow> nat \<Rightarrow> nat"
  w_capacity :: "nat \<Rightarrow> nat"

text \<open>The length of the text of an absolute path.\<close>

definition path_len :: "path \<Rightarrow> nat" where
  "path_len p = (if p = [] then 1 else sum_list (map (\<lambda>w. 1 + len w) p))"

text \<open>\<open>try_owned_subscription_path\<close> and \<open>try_owned_subscription_string\<close>, by the length of what is copied.\<close>

definition try_owned_subscription :: "runtime \<Rightarrow> nat \<Rightarrow> unit presult" where
  "try_owned_subscription rt requested = (if try_reserve rt requested then Inr () else Inl (ResourceExhausted requested))"

definition parse_subscribe :: "runtime \<Rightarrow> RawFrame \<Rightarrow> SubscribeMessage presult" where
  "parse_subscribe rt frame =
     and_then (map_err (\<lambda>_. InvalidMessage (lit ''SUBSCRIBE is not UTF-8'')) (from_utf8 (body frame))) (Subscribe_parse rt)"

text \<open>A lease whose owner fails is dropped with it.\<close>

definition dropping :: "nat \<Rightarrow> SubscriptionBudget \<Rightarrow> 'a presult \<Rightarrow> 'a presult \<times> SubscriptionBudget" where
  "dropping lease b r = (r, if is_ok r then b else drop_lease b lease)"

text \<open>What is held elsewhere moves, and the budget with it.\<close>

definition move_elsewhere :: "nat \<Rightarrow> nat \<Rightarrow> SubscriptionBudget \<Rightarrow> SubscriptionBudget" where
  "move_elsewhere old new b = b\<lparr>used := used b - old + new\<rparr>"

text \<open>
  Everything a subscription needs before its first UPDATE, once the lease is settled, and what is
  held elsewhere afterwards.
\<close>

definition open_subscription ::
  "runtime \<Rightarrow> world \<Rightarrow> SubscribeMessage \<Rightarrow> path \<Rightarrow> nat \<Rightarrow> nat \<Rightarrow> StaticSubscription presult \<times> nat" where
  "open_subscription rt w sub p lease elsewhere =
     (case and_then (map_err from_io (path_metadata (w_files w) p)) (\<lambda>is_file.
           and_then (ensure (InvalidMessage (lit ''invalid live update file'')) is_file) (\<lambda>_.
           try_owned_subscription rt (path_len p))) of
        Inl e \<Rightarrow> (Inl e, elsewhere)
      | Inr _ \<Rightarrow>
          (case w_attach w p elsewhere of
             (attached, elsewhere) \<Rightarrow>
               (and_then attached (\<lambda>attached.
                and_then (validate_update_parts rt (sub_region sub) (len (gen_text (aw_current attached)))) (\<lambda>_.
                Inr \<lparr>sub_of_region = sub_region sub, sub_in_mode = sub_mode sub, baseline = aw_current attached,
                     updates = aw_updates attached, metadata_lease = lease\<rparr>)), elsewhere)))"

definition retained_metadata :: "runtime \<Rightarrow> world \<Rightarrow> ustr \<Rightarrow> path \<Rightarrow> nat presult" where
  "retained_metadata rt w region p =
     and_then (try_owned_subscription rt (path_len p)) (\<lambda>_.
     and_then (try_owned_subscription rt (len region)) (\<lambda>_.
     ok_or (ResourceExhausted usize_max) (checked_add (w_capacity w (path_len p)) (w_capacity w (len region)))))"

definition prepare_subscription ::
  "runtime \<Rightarrow> world \<Rightarrow> path \<Rightarrow> RawFrame \<Rightarrow> SubscriptionBudget \<times> nat \<Rightarrow>
   StaticSubscription presult \<times> SubscriptionBudget \<times> nat" where
  "prepare_subscription rt w root frame shared =
     (case shared of (b, elsewhere) \<Rightarrow>
      case and_then (parse_subscribe rt frame) (\<lambda>sub.
           and_then (resolve_path (w_files w) root (sub_path sub)) (\<lambda>p.
           and_then (ok_or (ResourceExhausted usize_max) (checked_add (path_len p) (len (sub_region sub)))) (\<lambda>n.
           and_then (reserve b n) (\<lambda>(b, lease). Inr (sub, p, b, lease))))) of
        Inl e \<Rightarrow> (Inl e, b, elsewhere)
      | Inr (sub, p, b, lease) \<Rightarrow>
          (case and_then (retained_metadata rt w (sub_region sub) p) (try_resize b lease) of
             Inl e \<Rightarrow> (Inl e, drop_lease b lease, elsewhere)
           | Inr (b, lease) \<Rightarrow>
               (case open_subscription rt w sub p lease elsewhere of
                  (r, elsewhere') \<Rightarrow>
                    (case dropping lease (move_elsewhere elsewhere elsewhere' b) r of (r, b) \<Rightarrow> (r, b, elsewhere')))))"

definition serve_subscription ::
  "runtime \<Rightarrow> world \<Rightarrow> path \<Rightarrow> RawFrame \<Rightarrow> SubscriptionBudget \<times> nat \<Rightarrow> Connection \<Rightarrow>
   (StaticSubscription presult \<times> SubscriptionBudget \<times> nat) \<times> Connection" where
  "serve_subscription rt w root frame shared c =
     (case prepare_subscription rt w root frame shared of
        (Inl e, shared) \<Rightarrow> ((Inl e, shared), c)
      | (Inr candidate, b, elsewhere) \<Rightarrow>
          (case server_send_update_parts rt (sub_of_region candidate) (gen_text (baseline candidate)) False c of
             (r, c) \<Rightarrow>
               (case dropping (metadata_lease candidate) b (map_ok (\<lambda>_. candidate) r) of
                  (r, b) \<Rightarrow> ((r, b, elsewhere), c))))"

section \<open>A connection\<close>

text \<open>The handshake; \<open>False\<close> when the connection ends after it.\<close>

definition try_subscription_storage :: "runtime \<Rightarrow> StaticSubscription list presult" where
  "try_subscription_storage rt =
     and_then (ok_or (ResourceExhausted usize_max)
       (checked_mul MAX_SUBSCRIPTIONS_PER_CONNECTION (size_of rt ''StaticSubscription''))) (\<lambda>requested.
     if try_reserve rt requested then Inr [] else Inl (ResourceExhausted requested))"

definition server_welcome :: "ustr list \<Rightarrow> WelcomeMessage" where
  "server_welcome offered =
     \<lparr>welcome_version = PROTOCOL_VERSION, welcome_server = Some (lit ''dustnetd/0.4.0''), welcome_site_name = None,
      welcome_capabilities = filter (\<lambda>capability. capability \<in> set SUPPORTED_CAPABILITIES) offered\<rparr>"

definition serve_handshake :: "runtime \<Rightarrow> bool action" where
  "serve_handshake rt =
     bind_action (lift (try_subscription_storage rt)) (\<lambda>_.
     bind_action (server_recv_frame rt) (\<lambda>hello_frame.
     if msg_type hello_frame \<noteq> Hello then lift (Inl (InvalidMessage (lit ''HELLO required'')))
     else
       bind_action (lift (map_err (\<lambda>_. InvalidMessage (lit ''HELLO is not UTF-8'')) (from_utf8 (body hello_frame)))) (\<lambda>txt.
       bind_action (lift (Hello_parse rt txt)) (\<lambda>hello.
       if hello_version hello \<noteq> PROTOCOL_VERSION
       then bind_action (send_error rt 505 (lit ''unsupported ATP version'')) (\<lambda>_. lift (Inr False))
       else
         bind_action (lift (Welcome_serialize rt (server_welcome (hello_capabilities hello)))) (\<lambda>txt.
         bind_action (server_send_frame rt \<lparr>msg_type = Welcome, flags = 0, body = utf8 txt\<rparr>) (\<lambda>_.
         lift (Inr True)))))))"

text \<open>
  The loop of \<open>serve_connection\<close> waits for one of four events. The receive that was waiting
  when another event came is dropped with the bytes it had read; the event says how many.
  The registry publishes generations on the channels of the subscriptions, and the registry and
  other connections use the budget.
\<close>

datatype event =
    FrameReceived
  | Woken nat
  | IdleExpired
  | ShutdownChanged nat bool
  | Published nat LiveGeneration
  | BudgetMoved nat

record 's serving =
  sv_stream :: AtpServerStream
  sv_subs :: "StaticSubscription list"
  sv_budget :: SubscriptionBudget
  sv_elsewhere :: nat
  sv_site :: 's

datatype 's verdict = Continue "'s serving" | Finish "unit presult" "'s serving"

definition drop_leases :: "StaticSubscription list \<Rightarrow> SubscriptionBudget \<Rightarrow> SubscriptionBudget" where
  "drop_leases subs b = foldl (\<lambda>b sub. drop_lease b (metadata_lease sub)) b subs"

text \<open>The connection lets go of generations its subscriptions held.\<close>

definition let_go :: "world \<Rightarrow> LiveGeneration list \<Rightarrow> 's serving \<Rightarrow> 's serving" where
  "let_go w gs s =
     (let elsewhere = w_release w gs (sv_elsewhere s)
      in s\<lparr>sv_budget := move_elsewhere (sv_elsewhere s) elsewhere (sv_budget s), sv_elsewhere := elsewhere\<rparr>)"

definition drop_subscriptions :: "world \<Rightarrow> 's serving \<Rightarrow> 's serving" where
  "drop_subscriptions w s =
     let_go w (map baseline (sv_subs s)) (s\<lparr>sv_subs := [], sv_budget := drop_leases (sv_subs s) (sv_budget s)\<rparr>)"

text \<open>Leaving the loop drops the subscriptions.\<close>

definition leave :: "world \<Rightarrow> unit presult \<Rightarrow> 's serving \<Rightarrow> 's verdict" where
  "leave w r s = Finish r (drop_subscriptions w s)"

definition proceed :: "world \<Rightarrow> unit action \<Rightarrow> 's serving \<Rightarrow> 's verdict" where
  "proceed w act s =
     (case act (sv_stream s) of
        (Inl e, c) \<Rightarrow> leave w (Inl e) (s\<lparr>sv_stream := c\<rparr>)
      | (Inr _, c) \<Rightarrow> Continue (s\<lparr>sv_stream := c\<rparr>))"

definition serve_frame ::
  "runtime \<Rightarrow> world \<Rightarrow> 's ConnectionContext \<Rightarrow> RawFrame \<Rightarrow> 's serving \<Rightarrow> 's verdict" where
  "serve_frame rt w site frame s =
     (case msg_type frame of
        Get \<Rightarrow> proceed w (serve_get rt (w_files w) site (sv_site s) frame) s
      | Input \<Rightarrow>
          (case serve_input rt (w_files w) site (sv_site s) frame of
             (st, act) \<Rightarrow> proceed w act (s\<lparr>sv_site := st\<rparr>))
      | Subscribe \<Rightarrow>
          if length (sv_subs s) \<ge> MAX_SUBSCRIPTIONS_PER_CONNECTION
          then leave w (Inl (InvalidMessage (lit ''subscription limit reached''))) s
          else
            (case serve_subscription rt w (ctx_root site) frame (sv_budget s, sv_elsewhere s) (sv_stream s) of
               ((Inl e, b, n), c) \<Rightarrow> leave w (Inl e) (s\<lparr>sv_stream := c, sv_budget := b, sv_elsewhere := n\<rparr>)
             | ((Inr sub, b, n), c) \<Rightarrow>
                 Continue (s\<lparr>sv_stream := c, sv_budget := b, sv_elsewhere := n, sv_subs := sv_subs s @ [sub]\<rparr>))
      | Unsubscribe \<Rightarrow> Continue (drop_subscriptions w s)
      | Ping \<Rightarrow> proceed w (server_send_frame rt \<lparr>msg_type = Pong, flags = 0, body = []\<rparr>) s
      | Bye \<Rightarrow>
          (case server_send_frame rt \<lparr>msg_type = ServerBye, flags = 0, body = []\<rparr> (sv_stream s) of
             (r, c) \<Rightarrow> leave w r (s\<lparr>sv_stream := c\<rparr>))
      | _ \<Rightarrow> leave w (Inl (InvalidMessage (lit ''unexpected client message''))) s)"

definition drop_pending :: "nat \<Rightarrow> Connection \<Rightarrow> Connection" where
  "drop_pending n c = c\<lparr>transport := (transport c)\<lparr>rx := drop n (rx (transport c))\<rparr>\<rparr>"

definition serve_event ::
  "runtime \<Rightarrow> world \<Rightarrow> 's ConnectionContext \<Rightarrow> event \<Rightarrow> 's serving \<Rightarrow> 's verdict" where
  "serve_event rt w site ev s =
     (case ev of
        FrameReceived \<Rightarrow>
          (case server_recv_frame rt (sv_stream s) of
             (Inl e, c) \<Rightarrow> leave w (Inl e) (s\<lparr>sv_stream := c\<rparr>)
           | (Inr frame, c) \<Rightarrow> serve_frame rt w site frame (s\<lparr>sv_stream := c\<rparr>))
      | Woken n \<Rightarrow>
          if sv_subs s = [] then Continue s
          else
            (case flush_subscriptions rt (sv_subs s) (drop_pending n (sv_stream s)) of
               (Inl e, c) \<Rightarrow> leave w (Inl e) (s\<lparr>sv_stream := c\<rparr>)
             | (Inr subs, c) \<Rightarrow>
                 Continue (let_go w (map baseline (sv_subs s)) (s\<lparr>sv_stream := c, sv_subs := subs\<rparr>)))
      | IdleExpired \<Rightarrow> leave w (Inl Timeout) s
      | ShutdownChanged n stop \<Rightarrow>
          if stop then
            leave w (Inr ()) (s\<lparr>sv_stream := snd (server_send_frame rt \<lparr>msg_type = ServerBye, flags = 0, body = []\<rparr>
              (drop_pending n (sv_stream s)))\<rparr>)
          else Continue (s\<lparr>sv_stream := drop_pending n (sv_stream s)\<rparr>)
      | Published i g \<Rightarrow>
          Continue (if i < length (sv_subs s) then s\<lparr>sv_subs := (sv_subs s)[i := (sv_subs s ! i)\<lparr>updates := g\<rparr>]\<rparr> else s)
      | BudgetMoved elsewhere \<Rightarrow>
          Continue (s\<lparr>sv_budget := move_elsewhere (sv_elsewhere s) elsewhere (sv_budget s), sv_elsewhere := elsewhere\<rparr>))"

fun serve_loop ::
  "runtime \<Rightarrow> world \<Rightarrow> 's ConnectionContext \<Rightarrow> event list \<Rightarrow> 's serving \<Rightarrow> 's verdict" where
  "serve_loop rt w site [] s = Continue s"
| "serve_loop rt w site (ev # evs) s =
     (case serve_event rt w site ev s of
        Continue s' \<Rightarrow> serve_loop rt w site evs s'
      | Finish r s' \<Rightarrow> Finish r s')"

definition serve_connection ::
  "runtime \<Rightarrow> world \<Rightarrow> 's ConnectionContext \<Rightarrow> event list \<Rightarrow> AtpServerStream \<Rightarrow> SubscriptionBudget \<Rightarrow> 's \<Rightarrow> 's verdict" where
  "serve_connection rt w site evs c b st =
     (let start = (\<lambda>c. \<lparr>sv_stream = c, sv_subs = [], sv_budget = b, sv_elsewhere = used b, sv_site = st\<rparr>) in
      case serve_handshake rt c of
        (Inl e, c) \<Rightarrow> Finish (Inl e) (start c)
      | (Inr False, c) \<Rightarrow> Finish (Inr ()) (start c)
      | (Inr True, c) \<Rightarrow> serve_loop rt w site evs (start c))"

end
