(* ===== verification/Server_Laws.thy ===== *)
theory Server_Laws
  imports Server
begin

text \<open>
  Properties of the server: files below the root only, one answer to each request, in order,
  an exact account of the subscription budget, and what goes wrong when a receive is dropped.
\<close>

section \<open>What an answer is\<close>

definition refusal :: "runtime \<Rightarrow> RawFrame \<Rightarrow> bool" where
  "refusal rt f \<longleftrightarrow> (\<exists>code message txt. Error_serialize rt \<lparr>error_code = code, error_message = Some message\<rparr> = Inr txt
     \<and> f = \<lparr>msg_type = ErrorMsg, flags = 0, body = utf8 txt\<rparr>)"

lemma send_error_Inr:
  "send_error rt code message c = (Inr (), c') \<Longrightarrow> \<exists>f. refusal rt f \<and> server_send_frame rt f c = (Inr (), c')"
  by (auto simp: send_error_def bind_lift refusal_def)

text \<open>The PAGE a text becomes, and the frame a file below the root becomes.\<close>

definition page_frame ::
  "runtime \<Rightarrow> IncludeResolver option \<Rightarrow> ustr \<Rightarrow> ustr option \<Rightarrow> ustr option \<Rightarrow> SessionDirective list \<Rightarrow> bool \<Rightarrow>
   ustr \<Rightarrow> RawFrame \<Rightarrow> bool" where
  "page_frame rt resolver request_path qry who directives announced content f \<longleftrightarrow>
     (\<exists>resolved bytes fl.
        resolve_content rt resolver \<lparr>ir_path = request_path, ir_query = qry, ir_identity = who\<rparr> content = Inr resolved
        \<and> page_encode_body rt (page_of announced request_path qry directives resolved) = Inr (bytes, fl)
        \<and> f = \<lparr>msg_type = Page, flags = fl, body = bytes\<rparr>)"

lemma serve_content_Inr:
  assumes "serve_content rt resolver request_path qry who directives loc content c = (Inr (), c')"
  shows "\<exists>f. server_send_frame rt f c = (Inr (), c')
    \<and> (refusal rt f \<or> page_frame rt resolver request_path qry who directives (loc \<and> supports_page_path c) content f)"
  using assms unfolding serve_content_def page_frame_def
  by (auto simp: bind_lift split: if_splits dest!: send_error_Inr)

text \<open>The answer that the open file \<open>sf\<close> at the path \<open>p\<close> becomes.\<close>

definition file_answer ::
  "runtime \<Rightarrow> IncludeResolver option \<Rightarrow> ustr \<Rightarrow> ustr option \<Rightarrow> ustr option \<Rightarrow> SessionDirective list \<Rightarrow> bool \<Rightarrow>
   path \<Rightarrow> site_file \<Rightarrow> RawFrame \<Rightarrow> bool" where
  "file_answer rt resolver request_path qry who directives announced p sf f \<longleftrightarrow>
     (\<exists>n bytes. f_metadata sf = Some (True, n) \<and> n \<le> size_limit p \<and> read_static_body rt sf n = Inr bytes
        \<and> (if is_wasm p then f = \<lparr>msg_type = Resource, flags = 0, body = bytes\<rparr>
           else \<exists>content. from_utf8 bytes = Inr content
             \<and> page_frame rt resolver request_path qry who directives announced content f))"

lemma serve_path_Inr:
  assumes "serve_path rt fs root resolver request_path qry who directives loc c = (Inr (), c')"
  shows "\<exists>f p. server_send_frame rt f c = (Inr (), c') \<and> resolve_path fs root request_path = Inr p
    \<and> (refusal rt f \<or> (\<exists>sf. open_file fs p = Some sf
         \<and> file_answer rt resolver request_path qry who directives (loc \<and> supports_page_path c) p sf f))"
proof -
  obtain p where p: "resolve_path fs root request_path = Inr p"
    using assms by (auto simp: serve_path_def bind_lift)
  show ?thesis
  proof (cases "\<exists>sf n. open_file fs p = Some sf \<and> f_metadata sf = Some (True, n) \<and> n \<le> size_limit p")
    case False
    then have "send_error rt 404 (lit ''not found'') c = (Inr (), c')"
      using assms p
      by (auto simp: serve_path_def bind_lift split: option.splits prod.splits bool.splits if_splits)
    with p show ?thesis by (blast dest: send_error_Inr)
  next
    case True
    then obtain sf n where o: "open_file fs p = Some sf" "f_metadata sf = Some (True, n)" "n \<le> size_limit p"
      by blast
    then obtain bytes where r: "read_static_body rt sf n = Inr bytes"
      "(if is_wasm p then server_send_frame rt \<lparr>msg_type = Resource, flags = 0, body = bytes\<rparr>
        else bind_action (lift (map_err (\<lambda>_. InvalidMessage (lit ''AML file is not UTF-8'')) (from_utf8 bytes))) (\<lambda>content.
          serve_content rt resolver request_path qry who directives loc content)) c = (Inr (), c')"
      using assms p by (auto simp: serve_path_def bind_lift)
    show ?thesis
    proof (cases "is_wasm p")
      case True
      with r o p show ?thesis by (auto simp: file_answer_def)
    next
      case False
      with r(2) obtain content where t: "from_utf8 bytes = Inr content"
        "serve_content rt resolver request_path qry who directives loc content c = (Inr (), c')"
        by (auto simp: bind_lift result_simps)
      show ?thesis
        using serve_content_Inr [OF t(2)] t(1) r(1) o p False unfolding file_answer_def by metis
    qed
  qed
qed

lemma answer_types:
  "refusal rt f \<Longrightarrow> msg_type f = ErrorMsg"
  "file_answer rt resolver request_path qry who directives announced p sf f \<Longrightarrow> msg_type f \<in> {Page, Resource}"
  by (auto simp: refusal_def file_answer_def page_frame_def split: if_splits)

text \<open>Below the root by its text: the root and at least one name after it, none of them a parent.\<close>

definition plain_name :: "ustr \<Rightarrow> bool" where
  "plain_name w \<longleftrightarrow> w \<noteq> [] \<and> w \<noteq> lit ''.'' \<and> w \<noteq> lit ''..'' \<and> 47 \<notin> set w"

definition lexically_below :: "path \<Rightarrow> path \<Rightarrow> bool" where
  "lexically_below root p \<longleftrightarrow> (\<exists>ws. p = root @ ws \<and> ws \<noteq> [] \<and> list_all plain_name ws)"

lemma push_components_plain:
  "try_fold push_component acc cs = Inr q \<Longrightarrow> \<forall>w. Normal w \<in> set cs \<longrightarrow> plain_name w \<Longrightarrow>
   \<exists>ws. q = acc @ ws \<and> list_all plain_name ws"
proof (induction cs arbitrary: acc)
  case (Cons c cs)
  obtain acc' where acc': "push_component acc c = Inr acc'" "try_fold push_component acc' cs = Inr q"
    using Cons.prems(1) by (auto simp: and_then_eq_Inr)
  obtain ws where ws: "q = acc' @ ws" "list_all plain_name ws"
    using Cons.IH [OF acc'(2)] Cons.prems(2) by auto
  show ?case
  proof (cases c)
    case (Normal w)
    then show ?thesis
      using acc'(1) ws Cons.prems(2) by (intro exI [of _ "w # ws"]) (simp add: push_component_def)
  qed (use acc'(1) ws in \<open>auto simp: push_component_def\<close>)
qed simp

lemma components_plain: "Normal w \<in> set (components s) \<Longrightarrow> plain_name w"
  using split_char_pieces [of w 47 s] by (auto simp: components_def component_def plain_name_def split: if_splits)

lemma plain_extension:
  assumes "plain_name w"
  shows "plain_name (fst (split_at_dot w) @ lit ''.'' @ lit ''aml'')"
proof -
  have "set (fst (split_at_dot w)) \<subseteq> set w"
    using rsplit_once_char_Some [of 46 w] by (auto simp: split_at_dot_def split: option.splits)
  moreover have "lit ''.'' @ lit ''aml'' = [46, 97, 109, 108]" "lit ''.'' = [46]" "lit ''..'' = [46, 46]"
    by (simp_all add: lit_def)
  ultimately show ?thesis
    using assms by (cases "fst (split_at_dot w)") (auto simp: plain_name_def)
qed

text \<open>
  A candidate is below the root by its text, but for a request like \<open>.\<close>, whose candidate is the root
  itself with the extension added.
\<close>

lemma resolve_path_lexical_below:
  assumes "resolve_path_lexical root request = Inr candidate"
  shows "lexically_below root candidate \<or> candidate = root \<or> candidate = set_extension root (lit ''aml'')"
proof -
  let ?index = "lit ''index.aml''"
  obtain ws0 where q: "try_fold push_component root (components (dropWhile (\<lambda>c. c = 47) request)) = Inr (root @ ws0)"
    "list_all plain_name ws0"
    using assms push_components_plain components_plain
    by (auto simp: resolve_path_lexical_def result_simps Let_def) metis
  define ws where "ws = (if ends_with_char 47 request \<or> dropWhile (\<lambda>c. c = 47) request = [] then ws0 @ [?index] else ws0)"
  have c: "candidate = (if extension (root @ ws) = None then set_extension (root @ ws) (lit ''aml'') else root @ ws)"
    using assms q(1) by (auto simp: resolve_path_lexical_def Let_def ws_def)
  have "plain_name ?index"
    by (simp add: plain_name_def lit_def)
  then have ws: "list_all plain_name ws"
    using q(2) by (simp add: ws_def)
  show ?thesis
  proof (cases "ws = []")
    case False
    then have "set_extension (root @ ws) (lit ''aml'') = root @ butlast ws @ [fst (split_at_dot (last ws)) @ lit ''.'' @ lit ''aml'']"
      by (simp add: set_extension_def butlast_append)
    moreover have "list_all plain_name (butlast ws)" "plain_name (last ws)"
      using ws False by (auto simp: list_all_iff dest: in_set_butlastD)
    ultimately show ?thesis
      using c ws False plain_extension [of "last ws"] by (auto simp: lexically_below_def)
  qed (use c in auto)
qed

text \<open>The request \<open>/.\<close> names a file beside the site root; only \<open>canonicalize\<close> stands in the way.\<close>

lemma dot_request_leaves_root:
  "resolve_path_lexical [lit ''srv'', lit ''site''] (lit ''/.'') = Inr [lit ''srv'', lit ''site.aml'']"
  by (simp add: resolve_path_lexical_def components_def component_def push_component_def extension_def
      set_extension_def split_at_dot_def rsplit_once_char_def ends_with_char_def lit_def)

text \<open>
  C10: nothing outside the site is served. When a request is answered, exactly one frame is
  sent, and it is either an ERROR or made of a regular file within the size limit of its kind: a
  WASM module as it is, any other file as the page its includes resolve to. That file is the one at
  the canonical path of the candidate the request names, which lies below the site root; or, when
  the candidate cannot be canonicalized, at the candidate itself, which lies below the root by its
  text and holds no parent component, or is the root with or without the extension added (a request
  like \<open>.\<close>). The path of the request, what the file system answers and the include
  resolver are arbitrary.
\<close>

theorem only_site_files_served:
  assumes "serve_path rt fs root resolver request_path qry who directives loc c = (Inr (), c')"
  shows "\<exists>f. server_send_frame rt f c = (Inr (), c')
    \<and> (refusal rt f
       \<or> (\<exists>candidate p sf. resolve_path_lexical root request_path = Inr candidate
            \<and> (case canonicalize fs candidate of
                 Some q \<Rightarrow> p = q \<and> path_starts_with p root
               | None \<Rightarrow> p = candidate
                   \<and> (lexically_below root p \<or> p = root \<or> p = set_extension root (lit ''aml'')))
            \<and> open_file fs p = Some sf
            \<and> file_answer rt resolver request_path qry who directives (loc \<and> supports_page_path c) p sf f))"
proof -
  obtain f p where f: "server_send_frame rt f c = (Inr (), c')" "resolve_path fs root request_path = Inr p"
    "refusal rt f \<or> (\<exists>sf. open_file fs p = Some sf
       \<and> file_answer rt resolver request_path qry who directives (loc \<and> supports_page_path c) p sf f)"
    using serve_path_Inr [OF assms] by blast
  obtain candidate where c: "resolve_path_lexical root request_path = Inr candidate"
    using f(2) by (auto simp: resolve_path_def result_simps)
  have "case canonicalize fs candidate of
      Some q \<Rightarrow> p = q \<and> path_starts_with p root
    | None \<Rightarrow> p = candidate \<and> (lexically_below root p \<or> p = root \<or> p = set_extension root (lit ''aml''))"
    using f(2) resolve_path_lexical_below [OF c]
    by (auto simp: resolve_path_def c split: option.splits if_splits)
  with f c show ?thesis by blast
qed

section \<open>Frames sent by one step\<close>

definition ready :: "Connection \<Rightarrow> bool" where
  "ready c \<longleftrightarrow> cstate c = \<lparr>endpoint = Server, phase = Ready\<rparr> \<and> \<not> poisoned c \<and> negotiated c \<noteq> None"

text \<open>A ready connection that has sent \<open>outs\<close> and is ready again.\<close>

definition emits :: "RawFrame list \<Rightarrow> Connection \<Rightarrow> Connection \<Rightarrow> bool" where
  "emits outs c c' \<longleftrightarrow> ready c' \<and> negotiated c' = negotiated c \<and> rx (transport c') = rx (transport c)
     \<and> tx (transport c') = tx (transport c) @ concat (map frame_bytes outs)"

lemma emits_Nil: "ready c \<Longrightarrow> emits [] c c"
  by (simp add: emits_def)

lemma emits_append: "emits a c c1 \<Longrightarrow> emits b c1 c2 \<Longrightarrow> emits (a @ b) c c2"
  by (simp add: emits_def)

lemma ready_moved:
  assumes "moved d t c c'" "endpoint (cstate c) = Server" "negotiated c' \<noteq> None"
    and "next_phase Server (phase (cstate c)) d t = Some Ready"
  shows "ready c'"
  using assms by (cases "cstate c'") (simp add: moved_def ready_def)

lemma answer_emits:
  assumes "server_send_frame rt f c = (Inr (), c')" "msg_type f \<in> {Page, Resource, ErrorMsg}"
    and "cstate c = \<lparr>endpoint = Server, phase = ResponsePending\<rparr>" "negotiated c \<noteq> None"
  shows "emits [f] c c'"
  using server_sends [OF assms(1)] assms(2-4)
  by (auto simp: emits_def wrote_def next_phase_def intro!: ready_moved)

lemma pong_emits:
  assumes "server_send_frame rt f c = (Inr (), c')" "msg_type f = Pong" "ready c"
  shows "emits [f] c c'"
  using server_sends [OF assms(1)] assms(2,3)
  by (auto simp: emits_def wrote_def next_phase_def ready_def [of c] intro!: ready_moved)

lemma update_emits:
  assumes "server_send_update_parts rt region content delta c = (Inr (), c')" "ready c"
  shows "emits [update_frame region content delta] c c'"
proof -
  have "\<not> poisoned c" "server_try_send_update_parts rt region content delta c = (Inr (), c')"
    using assms(1) by (simp_all add: server_send_update_parts_def guarded_Inr)
  then show ?thesis
    using update_parts_written [of rt region content delta c c'] assms(2)
    by (auto simp: emits_def sent_def ready_def next_phase_def)
qed

lemma flush_emits:
  assumes "flush_subscriptions rt subs c = (Inr subs', c')" "ready c"
  shows "\<exists>outs. emits outs c c' \<and> (\<forall>f \<in> set outs. msg_type f = Update)
    \<and> map metadata_lease subs' = map metadata_lease subs"
  using assms
proof (induction subs arbitrary: subs' c)
  case Nil
  then show ?case by (intro exI [of _ "[]"]) (simp add: emits_Nil)
next
  case (Cons sub subs)
  then obtain sub1 c1 subs1 where s: "flush_subscription rt sub c = (Inr sub1, c1)"
    "flush_subscriptions rt subs c1 = (Inr subs1, c')" "subs' = sub1 # subs1"
    by (auto simp: bind_Inr)
  have "\<exists>outs. emits outs c c1 \<and> (\<forall>f \<in> set outs. msg_type f = Update) \<and> metadata_lease sub1 = metadata_lease sub"
    using s(1) Cons.prems(2) update_emits [OF _ Cons.prems(2)]
    by (fastforce simp: flush_subscription_def Let_def bind_Inr update_frame_def intro: emits_Nil
        split: if_splits prod.splits)
  then obtain o1 where o1: "emits o1 c c1" "\<forall>f \<in> set o1. msg_type f = Update" "metadata_lease sub1 = metadata_lease sub"
    by blast
  then have "ready c1" by (simp add: emits_def)
  from Cons.IH [OF s(2) this] obtain o2 where "emits o2 c1 c'" "\<forall>f \<in> set o2. msg_type f = Update"
    "map metadata_lease subs1 = map metadata_lease subs" by blast
  with o1 s(3) show ?case
    by (intro exI [of _ "o1 @ o2"]) (auto intro: emits_append)
qed

lemma serve_path_emits:
  assumes "serve_path rt fs root resolver request_path qry who directives loc c = (Inr (), c')"
    and "cstate c = \<lparr>endpoint = Server, phase = ResponsePending\<rparr>" "negotiated c \<noteq> None"
  shows "\<exists>f. emits [f] c c' \<and> msg_type f \<in> {Page, Resource, ErrorMsg}"
  using serve_path_Inr [OF assms(1)] answer_emits [OF _ _ assms(2,3)] answer_types by blast

lemma send_error_emits:
  assumes "send_error rt code message c = (Inr (), c')"
    and "cstate c = \<lparr>endpoint = Server, phase = ResponsePending\<rparr>" "negotiated c \<noteq> None"
  shows "\<exists>f. emits [f] c c' \<and> msg_type f \<in> {Page, Resource, ErrorMsg}"
  using send_error_Inr [OF assms(1)] answer_emits [OF _ _ assms(2,3)] answer_types(1) by blast

lemma serve_get_emits:
  assumes "serve_get rt fs site st frame c = (Inr (), c')"
    and "cstate c = \<lparr>endpoint = Server, phase = ResponsePending\<rparr>" "negotiated c \<noteq> None"
  shows "\<exists>f. emits [f] c c' \<and> msg_type f \<in> {Page, Resource, ErrorMsg}"
  using assms(1) serve_path_emits [OF _ assms(2,3)] by (auto simp: serve_get_def bind_lift)

lemma serve_input_emits:
  assumes "serve_input rt fs site st frame = (st', act)" "act c = (Inr (), c')"
    and "cstate c = \<lparr>endpoint = Server, phase = ResponsePending\<rparr>" "negotiated c \<noteq> None"
  shows "\<exists>f. emits [f] c c' \<and> msg_type f \<in> {Page, Resource, ErrorMsg}"
  using assms(1,2) serve_path_emits [OF _ assms(3,4)] send_error_emits [OF _ assms(3,4)]
  by (auto simp: serve_input_def accept_submission_def Let_def lift_def
      split: option.splits sum.splits prod.splits InputOutcome.splits)

section \<open>The budget of a connection\<close>

lemma used_drop_lease [simp]: "used (drop_lease b n) = used b - n"
  by (simp add: drop_lease_def)

lemma reserve_Inr: "reserve b n = Inr (b', lease) \<Longrightarrow> used b' = used b + n \<and> lease = n"
  by (auto simp: reserve_def result_simps checked_add_def split: if_splits)

lemma resize_Inr: "try_resize b lease n = Inr (b', lease') \<Longrightarrow> used b' = used b - lease + n \<and> lease' = n"
  by (auto simp: try_resize_def result_simps checked_add_def Let_def split: if_splits)

lemma used_move_elsewhere [simp]: "used (move_elsewhere old new b) = used b - old + new"
  by (simp add: move_elsewhere_def)

lemma open_lease: "open_subscription rt w sub p lease n = (Inr s, n') \<Longrightarrow> metadata_lease s = lease"
  by (auto simp: open_subscription_def result_simps split: sum.splits prod.splits)

lemma prepare_budget:
  assumes "prepare_subscription rt w root frame (b, n) = (r, b', n')" "used b = own + n"
  shows "case r of Inl _ \<Rightarrow> used b' = own + n' | Inr sub \<Rightarrow> used b' = own + metadata_lease sub + n'"
proof -
  let ?q = "and_then (parse_subscribe rt frame) (\<lambda>sub.
           and_then (resolve_path (w_files w) root (sub_path sub)) (\<lambda>p.
           and_then (ok_or (ResourceExhausted usize_max) (checked_add (path_len p) (len (sub_region sub)))) (\<lambda>n.
           and_then (reserve b n) (\<lambda>(b, lease). Inr (sub, p, b, lease)))))"
  show ?thesis
  proof (cases ?q)
    case (Inl e)
    with assms show ?thesis by (auto simp: prepare_subscription_def)
  next
    case (Inr t)
    then obtain sub p b1 lease where t: "t = (sub, p, b1, lease)" "used b1 = used b + lease"
      by (auto simp: result_simps dest!: reserve_Inr)
    show ?thesis
    proof (cases "and_then (retained_metadata rt w (sub_region sub) p) (try_resize b1 lease)")
      case (Inl e)
      with assms t \<open>?q = Inr t\<close> show ?thesis by (auto simp: prepare_subscription_def)
    next
      case (Inr u)
      then obtain b2 lease2 where u: "u = (b2, lease2)" "used b2 = used b + lease2"
        using t(2) by (cases u) (auto simp: result_simps dest!: resize_Inr)
      obtain q n2 where o: "open_subscription rt w sub p lease2 n = (q, n2)"
        by fastforce
      with assms t u \<open>?q = Inr t\<close> Inr
      have "r = q" "n' = n2" "b' = (if is_ok q then move_elsewhere n n2 b2 else drop_lease (move_elsewhere n n2 b2) lease2)"
        by (auto simp: prepare_subscription_def dropping_def)
      with u(2) assms(2) open_lease [of rt w sub p lease2 n _ n2] o show ?thesis
        by (cases q) auto
    qed
  qed
qed

lemma subscription_served:
  assumes "serve_subscription rt w root frame (b, n) c = ((Inr sub, b', n'), c')" "ready c" "used b = own + n"
  shows "used b' = own + metadata_lease sub + n'"
    "emits [update_frame (sub_of_region sub) (gen_text (baseline sub)) False] c c'"
proof -
  have p: "prepare_subscription rt w root frame (b, n) = (Inr sub, b', n')"
    "server_send_update_parts rt (sub_of_region sub) (gen_text (baseline sub)) False c = (Inr (), c')"
    using assms(1)
    by (auto simp: serve_subscription_def dropping_def map_ok_eq_Inr split: prod.splits sum.splits)
  from prepare_budget [OF p(1) assms(3)] show "used b' = own + metadata_lease sub + n'" by simp
  show "emits [update_frame (sub_of_region sub) (gen_text (baseline sub)) False] c c'"
    using update_emits [OF p(2) assms(2)] .
qed

lemma subscription_refused:
  assumes "serve_subscription rt w root frame (b, n) c = ((Inl e, b', n'), c')" "used b = own + n"
  shows "used b' = own + n'"
proof (cases "prepare_subscription rt w root frame (b, n)")
  case (fields r b1 n1)
  with assms prepare_budget [OF fields assms(2)] show ?thesis
    by (cases r) (auto simp: serve_subscription_def dropping_def map_ok_def split: prod.splits sum.splits)
qed

definition leases :: "StaticSubscription list \<Rightarrow> nat" where
  "leases subs = sum_list (map metadata_lease subs)"

lemma used_drop_leases: "used (drop_leases subs b) = used b - leases subs"
  unfolding drop_leases_def leases_def by (induction subs arbitrary: b) simp_all

text \<open>The account of a connection: the budget in use is its own leases and what is held elsewhere.\<close>

definition accounted :: "'s serving \<Rightarrow> bool" where
  "accounted s \<longleftrightarrow> used (sv_budget s) = leases (sv_subs s) + sv_elsewhere s"

lemma let_go_fields [simp]:
  "sv_subs (let_go w gs s) = sv_subs s" "sv_stream (let_go w gs s) = sv_stream s" "sv_site (let_go w gs s) = sv_site s"
  by (simp_all add: let_go_def Let_def)

lemma let_go_accounted: "accounted s \<Longrightarrow> accounted (let_go w gs s)"
  by (simp add: accounted_def let_go_def Let_def)

lemma drop_subscriptions_fields [simp]:
  "sv_subs (drop_subscriptions w s) = []" "sv_stream (drop_subscriptions w s) = sv_stream s"
  by (simp_all add: drop_subscriptions_def)

lemma drop_subscriptions_accounted: "accounted s \<Longrightarrow> accounted (drop_subscriptions w s)"
  unfolding drop_subscriptions_def
  by (intro let_go_accounted) (simp add: accounted_def used_drop_leases, simp add: leases_def)

lemma leave_budget: "leave w r s = Finish r' s' \<Longrightarrow> accounted s \<Longrightarrow> accounted s' \<and> sv_subs s' = []"
  using drop_subscriptions_accounted by (auto simp: leave_def)

section \<open>The conversation\<close>

definition serving_ok :: "'s serving \<Rightarrow> bool" where
  "serving_ok s \<longleftrightarrow> ready (sv_stream s) \<and> length (sv_subs s) \<le> MAX_SUBSCRIPTIONS_PER_CONNECTION \<and> accounted s"

definition replies :: "MessageType \<Rightarrow> MessageType \<Rightarrow> bool" where
  "replies q a \<longleftrightarrow> q \<in> {Get, Input} \<and> a \<in> {Page, Resource, ErrorMsg} \<or> q = Ping \<and> a = Pong"

text \<open>
  The frames received and the frames sent: every request and every PING has its own answer,
  in order, every SUBSCRIBE its first UPDATE, and nothing else is sent but UPDATEs.
\<close>

definition conversation :: "RawFrame list \<Rightarrow> RawFrame list \<Rightarrow> bool" where
  "conversation ins outs \<longleftrightarrow>
     list_all2 replies (filter (\<lambda>t. t \<notin> {Subscribe, Unsubscribe}) (map msg_type ins))
       (filter (\<lambda>t. t \<noteq> Update) (map msg_type outs))
     \<and> length (filter (\<lambda>f. msg_type f = Subscribe) ins) \<le> length (filter (\<lambda>f. msg_type f = Update) outs)"

lemma conversation_append:
  "conversation a b \<Longrightarrow> conversation a' b' \<Longrightarrow> conversation (a @ a') (b @ b')"
  by (auto simp: conversation_def list_all2_appendI)

lemma conversation_pushes: "\<forall>f \<in> set outs. msg_type f = Update \<Longrightarrow> conversation [] outs"
  by (simp add: conversation_def filter_empty_conv)

definition talked :: "RawFrame list \<Rightarrow> RawFrame list \<Rightarrow> Connection \<Rightarrow> Connection \<Rightarrow> bool" where
  "talked ins outs c c' \<longleftrightarrow> conversation ins outs \<and> rx (transport c) = concat (map frame_bytes ins) @ rx (transport c')
     \<and> tx (transport c') = tx (transport c) @ concat (map frame_bytes outs) \<and> negotiated c' = negotiated c"

lemma talked_trans: "talked a b c c1 \<Longrightarrow> talked a' b' c1 c2 \<Longrightarrow> talked (a @ a') (b @ b') c c2"
  by (simp add: talked_def conversation_append)

lemma talked_emits: "emits outs c c' \<Longrightarrow> \<forall>f \<in> set outs. msg_type f = Update \<Longrightarrow> talked [] outs c c'"
  by (simp add: talked_def emits_def conversation_pushes)

lemma talked_exchange:
  assumes "consumed f c c1" "negotiated c1 = negotiated c" "emits outs c1 c'" "conversation [f] outs"
  shows "talked [f] outs c c'"
  using assms by (simp add: talked_def consumed_def emits_def)

lemma proceed_Continue:
  "proceed w act s = Continue s' \<longleftrightarrow> (\<exists>c. act (sv_stream s) = (Inr (), c) \<and> s' = s\<lparr>sv_stream := c\<rparr>)"
proof (cases "act (sv_stream s)")
  case (Pair r c)
  then show ?thesis
    by (cases r) (auto simp: proceed_def leave_def)
qed

text \<open>The state of a ready server after a frame has been taken from its stream.\<close>

lemma after_receive:
  assumes "server_recv_frame rt c = (Inr f, c1)" "ready c"
  shows "negotiated c1 \<noteq> None" "negotiated c1 = negotiated c" "consumed f c c1"
    "msg_type f \<in> {Get, Input} \<Longrightarrow> cstate c1 = \<lparr>endpoint = Server, phase = ResponsePending\<rparr>"
    "msg_type f \<in> {Subscribe, Unsubscribe, Ping} \<Longrightarrow> ready c1"
    "msg_type f \<in> {Get, Input, Subscribe, Unsubscribe, Ping, Bye}"
proof -
  note r = server_receives(1,2,4) [OF assms(1)]
  show n: "negotiated c1 = negotiated c" "negotiated c1 \<noteq> None" "consumed f c c1"
    using r assms(2) by (simp_all add: ready_def)
  have p: "next_phase Server Ready Receive (msg_type f) = Some (phase (cstate c1))" "endpoint (cstate c1) = Server"
    "\<not> poisoned c1"
    using r(1) assms(2) by (simp_all add: moved_def ready_def)
  from p show "msg_type f \<in> {Get, Input} \<Longrightarrow> cstate c1 = \<lparr>endpoint = Server, phase = ResponsePending\<rparr>"
    by (cases "cstate c1") (auto simp: next_phase_def)
  from p n show "msg_type f \<in> {Subscribe, Unsubscribe, Ping} \<Longrightarrow> ready c1"
    by (cases "cstate c1") (auto simp: next_phase_def ready_def)
  from p(1) show "msg_type f \<in> {Get, Input, Subscribe, Unsubscribe, Ping, Bye}"
    by (cases "msg_type f") (simp_all add: next_phase_def)
qed

definition kept :: "RawFrame \<Rightarrow> 's serving \<Rightarrow> 's serving \<Rightarrow> bool" where
  "kept f s s' \<longleftrightarrow> serving_ok s' \<and> (\<exists>outs. talked [f] outs (sv_stream s) (sv_stream s'))"

lemma answered_kept:
  assumes "serving_ok s" "server_recv_frame rt (sv_stream s) = (Inr f, c1)" "emits [a] c1 c'"
    and "replies (msg_type f) (msg_type a)"
  shows "kept f s (s\<lparr>sv_site := st, sv_stream := c'\<rparr>)"
proof -
  have "ready (sv_stream s)" using assms(1) by (simp add: serving_ok_def)
  note r = after_receive(2,3) [OF assms(2) this]
  have "conversation [f] [a]"
    using assms(4) by (auto simp: conversation_def replies_def)
  then have "talked [f] [a] (sv_stream s) c'"
    using r assms(3) by (intro talked_exchange)
  then show ?thesis
    using assms(1,3) by (auto simp: kept_def serving_ok_def emits_def accounted_def)
qed

lemma frame_step:
  assumes "serving_ok s" "server_recv_frame rt (sv_stream s) = (Inr f, c1)"
    and "serve_frame rt w site f (s\<lparr>sv_stream := c1\<rparr>) = Continue s'"
  shows "kept f s s'"
proof -
  have ready: "ready (sv_stream s)" using assms(1) by (simp add: serving_ok_def)
  note r = after_receive [OF assms(2) ready]
  note answered = answered_kept [OF assms(1,2)]
  consider (get) "msg_type f = Get" | (inp) "msg_type f = Input" | (ping) "msg_type f = Ping"
    | (bye) "msg_type f = Bye" | (sub) "msg_type f = Subscribe" | (unsub) "msg_type f = Unsubscribe"
    using r(6) by auto
  then show ?thesis
  proof cases
    case get
    then obtain c' where c: "serve_get rt (w_files w) site (sv_site s) f c1 = (Inr (), c')" "s' = s\<lparr>sv_stream := c'\<rparr>"
      using assms(3) by (auto simp: serve_frame_def proceed_Continue)
    obtain a where "emits [a] c1 c'" "msg_type a \<in> {Page, Resource, ErrorMsg}"
      using serve_get_emits [OF c(1) r(4) r(1)] get by auto
    then show ?thesis
      using answered [of a c' "sv_site s"] get c(2) by (simp add: replies_def)
  next
    case inp
    obtain st act where i: "serve_input rt (w_files w) site (sv_site s) f = (st, act)" by fastforce
    then obtain c' where c: "act c1 = (Inr (), c')" "s' = s\<lparr>sv_site := st, sv_stream := c'\<rparr>"
      using assms(3) inp by (auto simp: serve_frame_def proceed_Continue)
    obtain a where "emits [a] c1 c'" "msg_type a \<in> {Page, Resource, ErrorMsg}"
      using serve_input_emits [OF i c(1) r(4) r(1)] inp by auto
    then show ?thesis
      using answered [of a c' st] inp c(2) by (simp add: replies_def)
  next
    case ping
    let ?a = "\<lparr>msg_type = Pong, flags = 0, body = []\<rparr>"
    obtain c' where c: "server_send_frame rt ?a c1 = (Inr (), c')" "s' = s\<lparr>sv_stream := c'\<rparr>"
      using assms(3) ping by (auto simp: serve_frame_def proceed_Continue)
    show ?thesis
      using answered [OF pong_emits [OF c(1)], of "sv_site s"] r(5) ping c(2) by (simp add: replies_def)
  next
    case bye
    with assms(3) show ?thesis
      by (auto simp: serve_frame_def leave_def split: prod.splits)
  next
    case sub
    then obtain s1 b1 n1 c' where c:
      "serve_subscription rt w (ctx_root site) f (sv_budget s, sv_elsewhere s) c1 = ((Inr s1, b1, n1), c')"
      "s' = s\<lparr>sv_stream := c', sv_budget := b1, sv_elsewhere := n1, sv_subs := sv_subs s @ [s1]\<rparr>"
      "length (sv_subs s) < MAX_SUBSCRIPTIONS_PER_CONNECTION"
      using assms(3)
      by (auto simp: serve_frame_def leave_def split: prod.splits sum.splits if_splits)
    have "ready c1" using r(5) sub by simp
    note e = subscription_served [OF c(1) this, of "leases (sv_subs s)"]
    have own: "used (sv_budget s) = leases (sv_subs s) + sv_elsewhere s"
      using assms(1) by (simp add: serving_ok_def accounted_def)
    have "conversation [f] [update_frame (sub_of_region s1) (gen_text (baseline s1)) False]"
      using sub by (simp add: conversation_def update_frame_def)
    from talked_exchange [OF r(3,2) e(2) [OF own] this] show ?thesis
      using assms(1) c(2,3) e(1) [OF own] e(2) [OF own]
      by (auto simp: kept_def serving_ok_def accounted_def leases_def emits_def)
  next
    case unsub
    then have s': "s' = drop_subscriptions w (s\<lparr>sv_stream := c1\<rparr>)"
      using assms(3) by (simp add: serve_frame_def)
    have "ready c1" using r(5) unsub by simp
    have "conversation [f] []"
      using unsub by (simp add: conversation_def)
    from talked_exchange [OF r(3,2) emits_Nil [OF \<open>ready c1\<close>] this] show ?thesis
      using \<open>ready c1\<close> assms(1) drop_subscriptions_accounted [of "s\<lparr>sv_stream := c1\<rparr>" w]
      by (auto simp: s' kept_def serving_ok_def accounted_def [of "s\<lparr>sv_stream := c1\<rparr>"] accounted_def [of s])
  qed
qed

text \<open>The bytes a dropped receive had read.\<close>

fun pending :: "event \<Rightarrow> nat" where
  "pending (Woken n) = n"
| "pending (ShutdownChanged n _) = n"
| "pending _ = 0"

lemma drop_pending_0 [simp]: "drop_pending 0 c = c"
  by (simp add: drop_pending_def)

lemma leases_update: "leases (subs[i := (subs ! i)\<lparr>updates := g\<rparr>]) = leases subs" if "i < length subs"
  using that unfolding leases_def map_update
  by (metis (no_types, lifting) StaticSubscription.select_convs(5) StaticSubscription.surjective
      StaticSubscription.update_convs(4) list_update_id map_update nth_map)

lemma ready_drop_pending: "ready c \<Longrightarrow> ready (drop_pending n c)"
  by (simp add: ready_def drop_pending_def)

text \<open>
  What was taken from the stream: whole frames, and bytes that a dropped receive had read and lost.
\<close>

type_synonym taken = "byte list + RawFrame"

fun taken_bytes :: "taken list \<Rightarrow> byte list" where
  "taken_bytes [] = []"
| "taken_bytes (Inl lost # xs) = lost @ taken_bytes xs"
| "taken_bytes (Inr f # xs) = frame_bytes f @ taken_bytes xs"

fun whole_frames :: "taken list \<Rightarrow> RawFrame list" where
  "whole_frames [] = []"
| "whole_frames (Inl lost # xs) = whole_frames xs"
| "whole_frames (Inr f # xs) = f # whole_frames xs"

fun lost_bytes :: "taken list \<Rightarrow> nat" where
  "lost_bytes [] = 0"
| "lost_bytes (Inl lost # xs) = length lost + lost_bytes xs"
| "lost_bytes (Inr f # xs) = lost_bytes xs"

lemma taken_append [simp]:
  "taken_bytes (xs @ ys) = taken_bytes xs @ taken_bytes ys" "whole_frames (xs @ ys) = whole_frames xs @ whole_frames ys"
  "lost_bytes (xs @ ys) = lost_bytes xs + lost_bytes ys"
  by (induction xs rule: lost_bytes.induct) simp_all

lemma taken_frames [simp]:
  "taken_bytes (map Inr fs) = concat (map frame_bytes fs)" "whole_frames (map Inr fs) = fs" "lost_bytes (map Inr fs) = 0"
  by (induction fs) simp_all

definition took :: "taken list \<Rightarrow> RawFrame list \<Rightarrow> Connection \<Rightarrow> Connection \<Rightarrow> bool" where
  "took xs outs c c' \<longleftrightarrow> conversation (whole_frames xs) outs \<and> rx (transport c) = taken_bytes xs @ rx (transport c')
     \<and> tx (transport c') = tx (transport c) @ concat (map frame_bytes outs)"

lemma took_trans: "took xs outs c c1 \<Longrightarrow> took xs' outs' c1 c2 \<Longrightarrow> took (xs @ xs') (outs @ outs') c c2"
  by (simp add: took_def conversation_append)

lemma took_nothing: "took [] [] c c"
  by (simp add: took_def conversation_def)

lemma took_lost: "took [Inl (take n (rx (transport c)))] [] c (drop_pending n c)"
  by (simp add: took_def conversation_def drop_pending_def)

lemma talked_took: "talked ins outs c c' \<Longrightarrow> took (map Inr ins) outs c c'"
  by (simp add: talked_def took_def)

lemma event_step:
  assumes "serving_ok s" "serve_event rt w site ev s = Continue s'"
  shows "serving_ok s' \<and> (\<exists>xs outs. took xs outs (sv_stream s) (sv_stream s') \<and> lost_bytes xs \<le> pending ev)"
proof -
  have ready: "ready (sv_stream s)" using assms(1) by (simp add: serving_ok_def)
  let ?lost = "[Inl (take (pending ev) (rx (transport (sv_stream s))))]" and ?c = "drop_pending (pending ev) (sv_stream s)"
  note none = took_nothing [of "sv_stream s"]
  show ?thesis
  proof (cases ev)
    case FrameReceived
    then obtain f c1 where "server_recv_frame rt (sv_stream s) = (Inr f, c1)"
      "serve_frame rt w site f (s\<lparr>sv_stream := c1\<rparr>) = Continue s'"
      using assms(2) by (auto simp: serve_event_def leave_def split: prod.splits sum.splits)
    from frame_step [OF assms(1) this] obtain outs where "serving_ok s'" "talked [f] outs (sv_stream s) (sv_stream s')"
      by (auto simp: kept_def)
    with talked_took show ?thesis by fastforce
  next
    case (Woken n)
    show ?thesis
    proof (cases "sv_subs s = []")
      case True
      with Woken assms none show ?thesis by (fastforce simp: serve_event_def)
    next
      case False
      then obtain subs c where c: "flush_subscriptions rt (sv_subs s) ?c = (Inr subs, c)"
        "s' = let_go w (map baseline (sv_subs s)) (s\<lparr>sv_stream := c, sv_subs := subs\<rparr>)"
        using Woken assms(2) by (auto simp: serve_event_def leave_def split: prod.splits sum.splits)
      from flush_emits [OF c(1) ready_drop_pending [OF ready]] obtain outs where o: "emits outs ?c c"
        "\<forall>f \<in> set outs. msg_type f = Update" "map metadata_lease subs = map metadata_lease (sv_subs s)" by blast
      then have "leases subs = leases (sv_subs s)" "length subs = length (sv_subs s)"
        by (auto simp: leases_def dest: map_eq_imp_length_eq)
      then have "accounted (s\<lparr>sv_stream := c, sv_subs := subs\<rparr>)"
        using assms(1) by (simp add: serving_ok_def accounted_def)
      then have "serving_ok s'"
        using let_go_accounted o(1) assms(1) \<open>length subs = _\<close> by (simp add: serving_ok_def emits_def c(2))
      moreover have "took (?lost @ map Inr []) ([] @ outs) (sv_stream s) (sv_stream s')"
        using took_trans [OF took_lost talked_took [OF talked_emits [OF o(1,2)]]] c(2) by simp
      moreover have "lost_bytes (?lost @ map Inr []) \<le> pending ev"
        by simp
      ultimately show ?thesis by blast
    qed
  next
    case IdleExpired
    with assms(2) show ?thesis by (simp add: serve_event_def leave_def)
  next
    case (ShutdownChanged n stop)
    then have "s' = s\<lparr>sv_stream := ?c\<rparr>"
      using assms(2) by (simp add: serve_event_def leave_def split: if_splits)
    moreover from this have "serving_ok s'"
      using assms(1) ready_drop_pending [OF ready] by (simp add: serving_ok_def accounted_def)
    moreover have "lost_bytes ?lost \<le> pending ev"
      by simp
    ultimately show ?thesis
      using took_lost by fastforce
  next
    case (Published i g)
    then have "sv_stream s' = sv_stream s" "serving_ok s'"
      using assms leases_update [of i "sv_subs s" g]
      by (auto simp: serve_event_def serving_ok_def accounted_def)
    with none show ?thesis by fastforce
  next
    case (BudgetMoved n)
    then have "sv_stream s' = sv_stream s" "serving_ok s'"
      using assms by (auto simp: serve_event_def serving_ok_def accounted_def)
    with none show ?thesis by fastforce
  qed
qed

lemma loop_steps:
  assumes "serving_ok s" "serve_loop rt w site evs s = Continue s'"
  shows "serving_ok s' \<and> (\<exists>xs outs. took xs outs (sv_stream s) (sv_stream s')
    \<and> lost_bytes xs \<le> sum_list (map pending evs))"
  using assms
proof (induction evs arbitrary: s)
  case Nil
  then show ?case
    using took_nothing [of "sv_stream s"] by fastforce
next
  case (Cons ev evs)
  then obtain s1 where s1: "serve_event rt w site ev s = Continue s1" "serve_loop rt w site evs s1 = Continue s'"
    by (auto split: verdict.splits)
  obtain xs outs where e: "serving_ok s1" "took xs outs (sv_stream s) (sv_stream s1)" "lost_bytes xs \<le> pending ev"
    using event_step [OF Cons.prems(1) s1(1)] by blast
  obtain ys outs' where "serving_ok s'" "took ys outs' (sv_stream s1) (sv_stream s')"
    "lost_bytes ys \<le> sum_list (map pending evs)"
    using Cons.IH [OF e(1) s1(2)] by blast
  with e took_trans [OF e(2)] show ?case
    by (intro conjI exI [of _ "xs @ ys"] exI [of _ "outs @ outs'"]) auto
qed

lemma event_finish:
  assumes "serving_ok s" "serve_event rt w site ev s = Finish r s'"
  shows "accounted s' \<and> sv_subs s' = []"
proof -
  have own: "accounted (s\<lparr>sv_stream := c\<rparr>)" "accounted (s\<lparr>sv_site := st, sv_stream := c\<rparr>)"
    "accounted (s\<lparr>sv_stream := c, sv_site := st\<rparr>)" for c st
    using assms(1) by (simp_all add: serving_ok_def accounted_def)
  then have "accounted s"
    using own(1) [of "sv_stream s"] by simp
  have left: "accounted s' \<and> sv_subs s' = []" if "leave w q s1 = Finish r s'" "accounted s1" for q s1
    using leave_budget [OF that] .
  have proceeded: "accounted s' \<and> sv_subs s' = []" if "proceed w act s1 = Finish r s'" "accounted s1" for act s1
  proof (cases "act (sv_stream s1)")
    case (Pair q c)
    with that left [of q "s1\<lparr>sv_stream := c\<rparr>"] show ?thesis
      by (cases q) (simp_all add: proceed_def accounted_def [of "s1\<lparr>sv_stream := c\<rparr>"] accounted_def [of s1])
  qed
  have framed: "accounted s' \<and> sv_subs s' = []"
    if f: "serve_frame rt w site f (s\<lparr>sv_stream := c\<rparr>) = Finish r s'" for f c
  proof (cases "msg_type f = Subscribe \<and> length (sv_subs s) < MAX_SUBSCRIPTIONS_PER_CONNECTION")
    case True
    then obtain e b1 n1 c1 where refused:
      "serve_subscription rt w (ctx_root site) f (sv_budget s, sv_elsewhere s) c = ((Inl e, b1, n1), c1)"
      "leave w (Inl e) (s\<lparr>sv_stream := c1, sv_budget := b1, sv_elsewhere := n1\<rparr>) = Finish r s'"
      using f by (auto simp: serve_frame_def split: prod.splits sum.splits)
    with subscription_refused [OF refused(1), of "leases (sv_subs s)"] \<open>accounted s\<close> show ?thesis
      by (intro left [OF refused(2)]) (simp add: accounted_def)
  next
    case False
    show ?thesis
      using f False left proceeded own
      by (cases "msg_type f") (fastforce simp: serve_frame_def split: prod.splits if_splits)+
  qed
  show ?thesis
    using assms(2) left framed own \<open>accounted s\<close>
    by (cases ev) (fastforce simp: serve_event_def split: prod.splits sum.splits if_splits)+
qed

lemma loop_finish:
  assumes "serving_ok s" "serve_loop rt w site evs s = Finish r s'"
  shows "accounted s' \<and> sv_subs s' = []"
  using assms
proof (induction evs arbitrary: s)
  case (Cons ev evs)
  show ?case
  proof (cases "serve_event rt w site ev s")
    case (Continue s1)
    with Cons.IH [of s1] Cons.prems event_step [OF Cons.prems(1) Continue] show ?thesis by simp
  next
    case (Finish r1 s1)
    with event_finish [OF Cons.prems(1) Finish] Cons.prems(2) show ?thesis by simp
  qed
qed simp

section \<open>From the first byte\<close>

lemma handshake_ready:
  assumes "serve_handshake rt (handshake_plain str) = (Inr True, c)"
  shows "ready c \<and> (\<exists>h g. msg_type h = Hello \<and> msg_type g = Welcome \<and> rx str = frame_bytes h @ rx (transport c)
    \<and> tx (transport c) = tx str @ frame_bytes g)"
proof -
  obtain h c1 wt where r: "server_recv_frame rt (handshake_plain str) = (Inr h, c1)" "msg_type h = Hello"
    "server_send_frame rt \<lparr>msg_type = Welcome, flags = 0, body = utf8 wt\<rparr> c1 = (Inr (), c)"
    using assms by (auto simp: serve_handshake_def bind_Inr bind_lift split: if_splits)
  let ?g = "\<lparr>msg_type = Welcome, flags = 0, body = utf8 wt\<rparr>"
  note a = server_receives(1,2) [OF r(1)] and b = server_sends [OF r(3)]
  have p: "phase (cstate c1) = HandshakeReply" "endpoint (cstate c1) = Server"
    using a(1) r(2) by (simp_all add: moved_def handshake_plain_def new_connection_def new_machine_def next_phase_def)
  have "negotiated c \<noteq> None"
    using b(5) by (auto simp: welcome_means_def)
  then have "ready c"
    using b(1) p by (intro ready_moved [of Send Welcome c1 c]) (simp_all add: next_phase_def)
  moreover have "rx str = frame_bytes h @ rx (transport c) \<and> tx (transport c) = tx str @ frame_bytes ?g"
    using a(2) b(2) by (simp add: consumed_def wrote_def handshake_plain_def new_connection_def)
  ultimately show ?thesis
    using r(2) by (intro conjI exI [of _ h] exI [of _ ?g]) auto
qed

text \<open>
  C2: a server connection answers every request it receives, in order, and only once. Whatever the
  client sends, whatever the site and its files answer, and however wakes, published generations
  and other connections interleave: while the connection runs, what it has taken from the stream is
  a HELLO, whole frames, and bytes that a receive had read when another event made the loop drop it,
  at most as many as the events of the run say; what it has written is a WELCOME and a sequence of
  frames. Each whole GET and INPUT has been answered by one PAGE, RESOURCE or ERROR and each PING
  by one PONG, in the order they came, there are at least as many UPDATEs as SUBSCRIBEs, and nothing
  else was sent. The connection is ready for the next request, holds at most 16 subscriptions, and
  the budget in use is its own leases and what is held elsewhere.
\<close>

theorem every_request_answered:
  assumes "serve_connection rt w site evs (handshake_plain str) b st = Continue s"
  shows "serving_ok s \<and> (\<exists>hello welc xs outs. msg_type hello = Hello \<and> msg_type welc = Welcome
    \<and> conversation (whole_frames xs) outs \<and> lost_bytes xs \<le> sum_list (map pending evs)
    \<and> rx str = frame_bytes hello @ taken_bytes xs @ rx (transport (sv_stream s))
    \<and> tx (transport (sv_stream s)) = tx str @ concat (map frame_bytes (welc # outs)))"
proof -
  let ?start = "\<lambda>c. \<lparr>sv_stream = c, sv_subs = [], sv_budget = b, sv_elsewhere = used b, sv_site = st\<rparr>"
  obtain c where c: "serve_handshake rt (handshake_plain str) = (Inr True, c)"
    "serve_loop rt w site evs (?start c) = Continue s"
    using assms by (auto simp: serve_connection_def split: prod.splits sum.splits bool.splits)
  note h = handshake_ready [OF c(1)]
  then have "serving_ok (?start c)"
    by (simp add: serving_ok_def accounted_def leases_def)
  from loop_steps [OF this c(2)] obtain xs outs where
    "serving_ok s" "took xs outs c (sv_stream s)" "lost_bytes xs \<le> sum_list (map pending evs)" by auto
  with h show ?thesis
    by (fastforce simp: took_def)
qed

text \<open>
  C33: a connection keeps none of the subscription budget. However it ends, with an error or
  without, whatever it subscribed to and whichever subscription failed half way, it holds no
  subscription any more, and the budget in use is exactly what is then held elsewhere: by the
  registry of watched files, which charges its entries and texts to the same budget while a
  subscription attaches, and by other connections.
\<close>

theorem connection_returns_budget:
  assumes "serve_connection rt w site evs (handshake_plain str) b st = Finish r s"
  shows "used (sv_budget s) = sv_elsewhere s \<and> sv_subs s = []"
proof (cases "serve_handshake rt (handshake_plain str)")
  case (Pair q c)
  show ?thesis
  proof (cases "q = Inr True")
    case True
    let ?s = "\<lparr>sv_stream = c, sv_subs = [], sv_budget = b, sv_elsewhere = used b, sv_site = st\<rparr>"
    have "ready c"
      using handshake_ready [of rt str c] Pair True by simp
    then have "serving_ok ?s"
      by (simp add: serving_ok_def accounted_def leases_def)
    moreover have "serve_loop rt w site evs ?s = Finish r s"
      using assms Pair True by (simp add: serve_connection_def)
    ultimately show ?thesis
      using loop_finish [of ?s rt w site evs r s] by (simp add: accounted_def leases_def)
  next
    case False
    then show ?thesis
      using assms Pair by (auto simp: serve_connection_def split: sum.splits bool.splits)
  qed
qed

end
