(* ===== verification/Server_Runs.thy ===== *)
theory Server_Runs
  imports Server_Laws
begin

text \<open>
  Runs of the server that succeed: the handshake with any well-formed HELLO of its version and
  the serving of a page; and the runs in which the code does not do what it means to.
\<close>

section \<open>The handshake is served\<close>

lemma hello_received:
  assumes "ample rt" "hello_wf h" "Hello_serialize rt h = Inr hs" "valid_str hs"
    and "ProtocolVersion_parse rt (hello_version h) = Inr v"
    and "rx str = frame_bytes (hello_frame hs) @ tl_bytes"
  shows "server_recv_frame rt (handshake_plain str) = (Inr (hello_frame hs),
    (handshake_plain (str\<lparr>rx := tl_bytes\<rparr>))\<lparr>cstate := \<lparr>endpoint = Server, phase = HandshakeReply\<rparr>,
       offered_version := Some v, offered_capabilities := hello_capabilities h\<rparr>)" (is "_ = (_, ?c)")
proof -
  have ok: "frame_ok rt ClientPeer (hello_frame hs) False" "len hs \<le> MAX_INPUT_MESSAGE_SIZE"
    using control_frame_ok [OF assms(1), of "HelloMsg h" hs ClientPeer] assms(2-4)
    by (simp_all add: hello_frame_def inbound_body_limit_def)
  have "try_reserve rt (length (body (hello_frame hs)))"
    using ok(2) by (intro ample_try_reserve [OF assms(1)]) (simp add: hello_frame_def limit_defs isize_max_def)
  moreover have "record_hello rt (utf8 hs) (rest_rx tl_bytes (handshake_plain str)) =
      (Inr (), ?c\<lparr>cstate := new_machine Server\<rparr>)"
    unfolding record_hello_Inr using assms(4,5) hello_codec.roundtrip [OF assms(1-3)]
    by (auto simp: rest_rx_def handshake_plain_def new_connection_def)
  ultimately show ?thesis
    unfolding server_recv_frame_def guarded_Inr server_via recv_success
    using ok(1) assms(6)
    by (intro conjI exI [of _ False] exI [of _ tl_bytes] exI [of _ "?c\<lparr>cstate := new_machine Server\<rparr>"] exI [of _ HandshakeReply])
      (simp_all add: hooked_def hello_frame_def validate_capability_def next_phase_def handshake_plain_def
        new_connection_def new_machine_def)
qed

text \<open>The WELCOME of the server is well formed and short.\<close>

lemma supported_names: "capability \<in> set SUPPORTED_CAPABILITIES \<Longrightarrow> len capability \<le> 12 \<and> valid_str capability"
  by (auto simp: SUPPORTED_CAPABILITIES_def lit_def len_utf8_def is_scalar_def)

lemma join_supported:
  assumes "set cs \<subseteq> set SUPPORTED_CAPABILITIES"
  shows "len (join_char 44 cs) \<le> 13 * length cs" "valid_str (join_char 44 cs)"
proof -
  have "sum_list (map len cs) \<le> 12 * length cs"
    using assms supported_names by (induction cs) fastforce+
  then show "len (join_char 44 cs) \<le> 13 * length cs"
    by (simp add: len_join_char)
  show "valid_str (join_char 44 cs)"
    using assms supported_names by (induction "44 :: nat" cs rule: join_char.induct) (auto simp: is_scalar_def)
qed

lemma server_welcome_ok:
  assumes "ample rt" "validate_capabilities offered = Inr ()"
  shows "welcome_wf (server_welcome offered)"
    "Welcome_serialize rt (server_welcome offered) = Inr (welcome_text (server_welcome offered))"
    "valid_str (welcome_text (server_welcome offered))" "len (welcome_text (server_welcome offered)) \<le> 500"
proof -
  let ?cs = "filter (\<lambda>capability. capability \<in> set SUPPORTED_CAPABILITIES) offered"
  have v: "length offered \<le> 32" "\<not> list_ex bad_capability offered"
    using assms(2) by (auto simp: validate_capabilities_def split: if_splits)
  then have "length ?cs \<le> 32"
    using length_filter_le le_trans by blast
  then have j: "len (join_char 44 ?cs) \<le> 13 * 32" "valid_str (join_char 44 ?cs)"
    using join_supported [of ?cs] by (auto simp: subset_iff)
  show wf: "welcome_wf (server_welcome offered)"
    using v \<open>length ?cs \<le> 32\<close>
    by (auto simp: welcome_wf_def server_welcome_def validate_capabilities_def list_ex_iff PROTOCOL_VERSION_def
        lit_def clean_def is_control_def value_ok_def)
  show l: "len (welcome_text (server_welcome offered)) \<le> 500"
    using j(1) by (auto simp: welcome_text_def server_welcome_def put_field_def put_capabilities_def PROTOCOL_VERSION_def
        lit_def len_utf8_def)
  show "valid_str (welcome_text (server_welcome offered))"
    using j(2) by (auto simp: welcome_text_def server_welcome_def put_field_def put_capabilities_def PROTOCOL_VERSION_def
        lit_def is_scalar_def)
  show "Welcome_serialize rt (server_welcome offered) = Inr (welcome_text (server_welcome offered))"
    using welcome_codec.writes_all [OF assms(1) wf] l by (simp add: limit_defs)
qed

lemma version_0_2: "ProtocolVersion_parse rt PROTOCOL_VERSION = Inr \<lparr>major = 0, minor = 2\<rparr>"
  by (simp add: PROTOCOL_VERSION_def ProtocolVersion_parse_def split_once_def lit_def parse_u16_def parse_uint_def
      is_ascii_digit_def digits_value_def show_version_def show_nat.simps)

lemma storage_available: "ample rt \<Longrightarrow> try_subscription_storage rt = Inr []"
  using ample_size_of [of rt "''StaticSubscription''"]
  by (simp add: try_subscription_storage_def checked_mul_def MAX_SUBSCRIPTIONS_PER_CONNECTION_def usize_max_def
      ample_try_reserve isize_max_def)

lemma send_room:
  assumes "server_send_frame rt f c = (Inr (), c')"
  shows "tx_room (transport c') = tx_room (transport c) - length (frame_bytes f)"
proof -
  obtain c1 p where "hooked (msg_type f = Welcome) (accept_welcome rt (body f)) c c1" "c' = sent (frame_bytes f) p c1"
    using assms by (auto simp: server_send_frame_def guarded_Inr server_via welcome_hook.send_success)
  with welcome_hook.hooked_link [OF this(1)] show ?thesis
    by (simp add: same_link_def sent_def)
qed

lemma server_handshake:
  assumes "ample rt" "hello_wf h" "hello_version h = PROTOCOL_VERSION" "Hello_serialize rt h = Inr hs" "valid_str hs"
    and "rx str = frame_bytes (hello_frame hs) @ following" "HEADER_SIZE + 500 \<le> tx_room str"
  shows "\<exists>c. serve_handshake rt (handshake_plain str) = (Inr True, c) \<and> ready c \<and> rx (transport c) = following
    \<and> tx (transport c) = tx str @ frame_bytes (welcome_frame (welcome_text (server_welcome (hello_capabilities h))))
    \<and> tx_room str - (HEADER_SIZE + 500) \<le> tx_room (transport c)
    \<and> negotiated c = Some \<lparr>np_version = \<lparr>major = 0, minor = 2\<rparr>,
        np_capabilities = negotiate (hello_capabilities h)
          (filter (\<lambda>capability. capability \<in> set SUPPORTED_CAPABILITIES) (hello_capabilities h))\<rparr>"
proof -
  let ?g = "server_welcome (hello_capabilities h)" and ?v = "\<lparr>major = 0, minor = 2\<rparr> :: ProtocolVersion"
  let ?gs = "welcome_text ?g"
  let ?c = "(handshake_plain (str\<lparr>rx := following\<rparr>))\<lparr>cstate := \<lparr>endpoint = Server, phase = HandshakeReply\<rparr>,
       offered_version := Some ?v, offered_capabilities := hello_capabilities h\<rparr>"
  have v: "ProtocolVersion_parse rt (hello_version h) = Inr ?v"
    by (simp add: assms(3) version_0_2)
  have r: "server_recv_frame rt (handshake_plain str) = (Inr (hello_frame hs), ?c)"
    using hello_received [OF assms(1,2,4,5) v assms(6)] .
  note g = server_welcome_ok [OF assms(1), of "hello_capabilities h"]
  have caps: "validate_capabilities (hello_capabilities h) = Inr ()"
    using assms(2) by (simp add: hello_wf_def)
  have "handshake_pair rt h ?g hs ?gs ?v"
    using assms(2-5) g(1-3) [OF caps] v by (auto simp: handshake_pair_def server_welcome_def)
  from welcome_can_be_sent [OF assms(1) this, of ?c] g(4) [OF caps] assms(7)
  obtain c' where c': "server_send_frame rt (welcome_frame ?gs) ?c = (Inr (), c')"
    "negotiated c' = Some \<lparr>np_version = ?v, np_capabilities = negotiate (hello_capabilities h) (welcome_capabilities ?g)\<rparr>"
    by (auto simp: offers_def handshake_plain_def new_connection_def)
  have "Hello_parse rt hs = Inr h"
    using hello_codec.roundtrip [OF assms(1,2,4)] by simp
  then have run: "serve_handshake rt (handshake_plain str) = (Inr True, c')"
    using r c'(1) assms(3,5) g(2) [OF caps] storage_available [OF assms(1)]
    by (simp add: serve_handshake_def bind_action_def hello_frame_def welcome_frame_def)
  then have "ready c'"
    using handshake_ready [OF run] by simp
  moreover have "rx (transport c') = following \<and> tx (transport c') = tx str @ frame_bytes (welcome_frame ?gs)"
    using server_sends(2) [OF c'(1)] by (simp add: wrote_def handshake_plain_def new_connection_def)
  moreover have "tx_room str - (HEADER_SIZE + 500) \<le> tx_room (transport c')"
    using send_room [OF c'(1)] g(4) [OF caps]
    by (simp add: frame_bytes_def welcome_frame_def handshake_plain_def new_connection_def)
  ultimately show ?thesis
    using run c'(2) by (auto simp: server_welcome_def)
qed

text \<open>
  C34: the server completes the handshake with every client of its version. Given the bytes of
  any well-formed HELLO of version 0.2, whatever follows them, and room for the WELCOME, the
  handshake ends ready, leaves what follows unread, has written one WELCOME, and has negotiated
  version 0.2 with exactly the capabilities that the client named and the server supports.
\<close>

theorem handshake_served:
  assumes "ample rt" "hello_wf h" "hello_version h = PROTOCOL_VERSION" "Hello_serialize rt h = Inr hs" "valid_str hs"
    and "rx str = frame_bytes (hello_frame hs) @ following" "HEADER_SIZE + 500 \<le> tx_room str"
  shows "\<exists>c. serve_handshake rt (handshake_plain str) = (Inr True, c) \<and> ready c \<and> rx (transport c) = following
    \<and> tx (transport c) = tx str @ frame_bytes (welcome_frame (welcome_text (server_welcome (hello_capabilities h))))
    \<and> negotiated c = Some \<lparr>np_version = \<lparr>major = 0, minor = 2\<rparr>,
        np_capabilities = negotiate (hello_capabilities h)
          (filter (\<lambda>capability. capability \<in> set SUPPORTED_CAPABILITIES) (hello_capabilities h))\<rparr>"
  using server_handshake [OF assms] by blast

section \<open>A PING is answered\<close>

lemma empty_frame_ok:
  "frame_ok rt ClientPeer ping_frame False"
  "frame_ok rt ServerPeer \<lparr>msg_type = Pong, flags = 0, body = []\<rparr> False"
  by (simp_all add: frame_ok_def ping_frame_def validate_inbound_body_len_def inbound_body_limit_def limit_defs
      validate_inbound_flags_def validate_frame_body_def is_control_message_def from_utf8_utf8 [of "[]", simplified])

lemma ping_answered:
  assumes "ample rt" "ready (sv_stream s)" "rx (transport (sv_stream s)) = frame_bytes ping_frame @ following"
    and "HEADER_SIZE \<le> tx_room (transport (sv_stream s))"
  shows "serve_event rt w site FrameReceived s = Continue (s\<lparr>sv_stream :=
    sent (frame_bytes \<lparr>msg_type = Pong, flags = 0, body = []\<rparr>) Ready (rest_rx following (sv_stream s))\<rparr>)"
proof -
  let ?c = "sv_stream s" and ?pong = "\<lparr>msg_type = Pong, flags = 0, body = []\<rparr>"
  let ?c1 = "rest_rx following ?c"
  have n: "validate_capability rt (negotiated ?c) t 0 False = Inr ()" if "t \<in> {Ping, Pong}" for t
    using assms(2) that by (auto simp: ready_def validate_capability_def)
  have "server_recv_frame rt ?c = (Inr ping_frame, ?c1)"
    unfolding server_recv_frame_def guarded_Inr server_via recv_success
    using assms(2,3) empty_frame_ok(1) n [of Ping]
    by (intro conjI exI [of _ False] exI [of _ following] exI [of _ ?c1] exI [of _ Ready])
      (simp_all add: ready_def hooked_def ping_frame_def rest_rx_def next_phase_def try_reserve_def)
  moreover have "server_send_frame rt ?pong ?c1 = (Inr (), sent (frame_bytes ?pong) Ready ?c1)"
    unfolding server_send_frame_def guarded_Inr server_via welcome_hook.send_success
    using assms(2,4) empty_frame_ok(2) n [of Pong]
    by (intro conjI exI [of _ False] exI [of _ ?c1] exI [of _ Ready])
      (simp_all add: ready_def hooked_def rest_rx_def next_phase_def frame_bytes_def ample_try_reserve [OF assms(1)]
        isize_max_def HEADER_SIZE_def)
  ultimately show ?thesis
    by (simp add: serve_event_def serve_frame_def proceed_def ping_frame_def)
qed

section \<open>A page is served\<close>

text \<open>The request path leads to a regular file with this text, however its reads are cut.\<close>

definition site_page :: "file_system \<Rightarrow> path \<Rightarrow> ustr \<Rightarrow> ustr \<Rightarrow> bool" where
  "site_page fs root request_path content \<longleftrightarrow>
     (\<exists>p sf n. resolve_path fs root request_path = Inr p \<and> open_file fs p = Some sf \<and> f_metadata sf = Some (True, n)
        \<and> \<not> is_wasm p \<and> intact (f_reads sf) \<and> contents (f_reads sf) = utf8 content \<and> valid_str content
        \<and> len content \<le> n \<and> n \<le> MAX_PAGE_MESSAGE_SIZE)"

lemma read_static_body_whole:
  assumes "ample rt" "intact (f_reads sf)" "length (contents (f_reads sf)) \<le> n" "n \<le> MAX_PAGE_MESSAGE_SIZE"
  shows "read_static_body rt sf n = Inr (contents (f_reads sf))"
proof -
  have "checked_add n 1 = Some (n + 1)" "allocate_frame_body rt (n + 1) = Inr (replicate (n + 1) 0)"
    using assms(1,4) by (simp_all add: checked_add_def usize_max_def limit_defs allocate_frame_body_def
        ample_try_reserve isize_max_def)
  moreover have "read_loop (n + 1) [] (f_reads sf) = Inr (contents (f_reads sf))"
    using read_loop_contents [OF assms(2), of "[]" "n + 1"] assms(3) by simp
  ultimately show ?thesis
    using assms(3) by (simp add: read_static_body_def checked_add_def)
qed

lemma plain_page:
  assumes "ample rt" "valid_str content" "len content \<le> MAX_PAGE_MESSAGE_SIZE"
  shows "\<exists>fl. page_encode_body rt (page_of False request_path qry [] content) = Inr (utf8 content, fl)
    \<and> page_from_bits fl = page_flags (page_of False request_path qry [] content)
    \<and> fl AND NOT 0x0f = 0
    \<and> page_decode_body rt (utf8 content) fl = Inr (page_of False request_path qry [] content)
    \<and> frame_ok rt ServerPeer \<lparr>msg_type = Page, flags = fl, body = utf8 content\<rparr> False"
proof -
  let ?m = "page_of False request_path qry [] content"
  let ?fl = "page_to_bits (page_flags ?m)"
  have l: "enforce_message_limit Page (len content) MAX_PAGE_MESSAGE_SIZE = Inr ()" "try_reserve rt (len content)"
    using assms(1,3) by (simp_all add: enforce_message_limit_def ample_try_reserve limit_defs isize_max_def)
  have f: "page_from_bits ?fl = page_flags ?m"
    by (rule page_bits_roundtrip)
  then have b: "\<not> has_session (page_from_bits ?fl)" "\<not> has_path (page_from_bits ?fl)"
    by (simp_all add: page_of_def)
  have e: "page_encode_body rt ?m = Inr (utf8 content, ?fl)"
    using l by (simp add: page_encode_body_def page_of_def)
  have d: "page_decode_body rt (utf8 content) ?fl = Inr ?m"
    using assms b l f try_owned_ample [OF assms(1), of content]
    by (simp add: page_decode_body_def page_of_def limit_defs isize_max_def)
  have n: "?fl AND NOT 0x0f = 0"
    by (simp add: page_to_bits_def page_of_def Let_def)
  have "unat (of_nat (len content) :: u32) = len content"
    using assms(3) by (intro unat_of_nat_u32) (simp add: limit_defs u32_max_def)
  then have "frame_ok rt ServerPeer \<lparr>msg_type = Page, flags = ?fl, body = utf8 content\<rparr> False"
    using assms(2,3) n b l
    by (simp add: frame_ok_def validate_inbound_body_len_def inbound_body_limit_def limit_defs
        validate_inbound_flags_def validate_frame_body_def is_control_message_def validate_page_body_def Let_def)
  with e f n d show ?thesis by blast
qed

lemma page_sent:
  assumes "ample rt" "valid_str content" "len content \<le> MAX_PAGE_MESSAGE_SIZE"
    and c: "cstate c = \<lparr>endpoint = Server, phase = ResponsePending\<rparr>" "\<not> poisoned c" "negotiated c = Some neg"
    and live: "find_sub (lit ''[live'') content \<noteq> None \<longrightarrow> live_updates (np_capabilities neg)"
    and room: "HEADER_SIZE + len content \<le> tx_room (transport c)"
  shows "\<exists>fl c'. serve_content rt None request_path qry who [] False content c = (Inr (), c')
    \<and> tx (transport c') = tx (transport c) @ frame_bytes \<lparr>msg_type = Page, flags = fl, body = utf8 content\<rparr>
    \<and> page_decode_body rt (utf8 content) fl = Inr (page_of False request_path qry [] content)"
proof -
  obtain fl where fl: "page_encode_body rt (page_of False request_path qry [] content) = Inr (utf8 content, fl)"
    "page_from_bits fl = page_flags (page_of False request_path qry [] content)"
    "page_decode_body rt (utf8 content) fl = Inr (page_of False request_path qry [] content)"
    "frame_ok rt ServerPeer \<lparr>msg_type = Page, flags = fl, body = utf8 content\<rparr> False"
    using plain_page [OF assms(1-3)] by blast
  let ?f = "\<lparr>msg_type = Page, flags = fl, body = utf8 content\<rparr>"
  have "validate_capability rt (negotiated c) Page fl False = Inr ()"
    using c(3) live fl(2) by (simp add: validate_capability_def Let_def page_of_def)
  moreover have "try_reserve rt (length (frame_bytes ?f))"
    using assms(3) by (intro ample_try_reserve [OF assms(1)]) (simp add: frame_bytes_def limit_defs isize_max_def)
  ultimately have "server_send_frame rt ?f c = (Inr (), sent (frame_bytes ?f) Ready c)"
    unfolding server_send_frame_def guarded_Inr server_via welcome_hook.send_success
    using fl(4) c room
    by (intro conjI exI [of _ False] exI [of _ c] exI [of _ Ready])
      (simp_all add: hooked_def next_phase_def frame_bytes_def)
  then have "serve_content rt None request_path qry who [] False content c = (Inr (), sent (frame_bytes ?f) Ready c)"
    using fl(1) by (simp add: serve_content_def resolve_content_def)
  then show ?thesis
    using fl(3) by (auto simp: sent_def)
qed


section \<open>What goes wrong\<close>

text \<open>
  C35: a wake can lose a frame. The loop drops the receive that waits when a file changes,
  and with it the bytes it has read. Take a ready connection with one subscription whose file has
  nothing new, and a PING that is all its stream holds. If the PING arrives before the wake, a
  PONG is written and the connection goes on; if the wake comes when some of the bytes of its
  header are read but not all, what is left is too short for a header, no PONG is written and the
  connection ends with an error, although the client did nothing wrong.
\<close>

theorem wake_loses_frame:
  assumes "ample rt" "ready (sv_stream s)" "rx (transport (sv_stream s)) = frame_bytes ping_frame"
    and "HEADER_SIZE \<le> tx_room (transport (sv_stream s))"
    and "sv_subs s = [sub]" "updates sub = baseline sub" "0 < n" "n < HEADER_SIZE"
  shows "(\<exists>s'. serve_loop rt w site [FrameReceived, Woken 0] s = Continue s'
      \<and> tx (transport (sv_stream s')) =
          tx (transport (sv_stream s)) @ frame_bytes \<lparr>msg_type = Pong, flags = 0, body = []\<rparr>)
    \<and> (\<exists>e s'. serve_loop rt w site [Woken n, FrameReceived] s = Finish (Inl e) s'
      \<and> tx (transport (sv_stream s')) = tx (transport (sv_stream s)))"
proof
  have f: "flush_subscription rt sub c = (Inr sub, c)" for c
    using assms(6) by (simp add: flush_subscription_def)
  show "\<exists>s'. serve_loop rt w site [FrameReceived, Woken 0] s = Continue s'
      \<and> tx (transport (sv_stream s')) =
          tx (transport (sv_stream s)) @ frame_bytes \<lparr>msg_type = Pong, flags = 0, body = []\<rparr>"
    using ping_answered [OF assms(1,2), of "[]" w site] assms(3,4)
    by (simp add: serve_event_def [of rt w site "Woken 0"] assms(5) bind_action_def f drop_pending_def sent_def rest_rx_def)
  have "length (drop n (frame_bytes ping_frame)) < HEADER_SIZE"
    using assms(7,8) by (simp add: frame_bytes_def ping_frame_def HEADER_SIZE_def)
  moreover have "\<not> poisoned (sv_stream s)"
    using assms(2) by (simp add: ready_def)
  ultimately obtain e c where "server_recv_frame rt (drop_pending n (sv_stream s)) = (Inl e, c)"
    "tx (transport c) = tx (transport (sv_stream s))"
    using assms(3)
    by (simp add: server_recv_frame_def guarded_def server_try_recv_frame_def drop_pending_def bind_action_def
        on_stream_def read_exact_def)
  then show "\<exists>e s'. serve_loop rt w site [Woken n, FrameReceived] s = Finish (Inl e) s'
      \<and> tx (transport (sv_stream s')) = tx (transport (sv_stream s))"
    by (simp add: serve_event_def assms(5) bind_action_def f leave_def)
qed

text \<open>
  C36: after a logout the page is still rendered for the person who left. A submission that
  clears the session revokes the presented token first, so a GET with it would be anonymous; but
  the answer to the submission itself is rendered for the identity the token had before.
\<close>

theorem logout_rendered_for_old_identity:
  assumes "ctx_input_handler site = Some handler" "from_utf8 (body f) = Inr submission" "Input_parse rt submission = Inr inp"
    and "ctx_session_resolver site = Some r" "input_session inp = Some t" "identity r st t = Some who"
    and "handler st (request_of site st inp) = (Render p q (change_clear scope), st1)"
    and "identity r (revoke r st1 t) t = None"
  shows "serve_input rt fs site st f =
      (revoke r st1 t, serve_path rt fs (ctx_root site) (map_option (\<lambda>res. res (revoke r st1 t)) (ctx_resolver site))
         p q (Some who) (change_clear scope) True)
    \<and> resolve_identity (ctx_session_resolver site) (revoke r st1 t) (Some t) = None"
  using assms
  by (simp add: serve_input_def accept_submission_def change_clear_def clears_def request_of_def resolve_identity_def Let_def
      split: prod.splits)

text \<open>
  A client without live updates cannot read a page that mentions one. The flag of the PAGE
  is computed from the text alone, and a PAGE with that flag is refused by the server's own
  transport: no answer is sent and the connection is over.
\<close>

theorem live_page_not_sent:
  assumes "negotiated c = Some neg" "\<not> live_updates (np_capabilities neg)" "find_sub (lit ''[live'') content \<noteq> None"
  shows "\<exists>e c'. serve_content rt None request_path qry who directives loc content c = (Inl e, c')"
proof (rule ccontr)
  assume "\<nexists>e c'. serve_content rt None request_path qry who directives loc content c = (Inl e, c')"
  then obtain c' where "serve_content rt None request_path qry who directives loc content c = (Inr (), c')"
    by (cases "serve_content rt None request_path qry who directives loc content c"; cases "fst (serve_content
        rt None request_path qry who directives loc content c)") auto
  then obtain bytes fl where e: "page_encode_body rt (page_of (loc \<and> supports_page_path c) request_path qry directives content)
      = Inr (bytes, fl)" (is "page_encode_body rt ?m = _")
    and sent: "server_send_frame rt \<lparr>msg_type = Page, flags = fl, body = bytes\<rparr> c = (Inr (), c')"
    by (auto simp: serve_content_def resolve_content_def bind_lift)
  have "page_from_bits fl = wire_flags ?m"
    using encode_written(2) [OF e] page_bits_roundtrip by simp
  then have "has_live_regions (page_from_bits fl)"
    using assms(3) by (simp add: wire_flags_def page_of_def)
  then show False
    using server_sends(3,6) [OF sent] assms(1,2) by (auto simp: passes_def validate_capability_def Let_def split: if_splits)
qed

end
