(* ===== verification/Server_Demo.thy ===== *)
theory Server_Demo
  imports Server_Runs
begin

text \<open>Concrete runs of the server: the properties of \<open>Server_Laws\<close> and \<open>Server_Runs\<close> at work.\<close>

section \<open>A site of one page\<close>

definition demo_root :: path where "demo_root = [lit ''site'']"

definition demo_index :: path where "demo_index = [lit ''site'', lit ''index.aml'']"

definition demo_files :: file_system where
  "demo_files =
     \<lparr>canonicalize = (\<lambda>p. if p = demo_index then Some p else None),
      open_file = (\<lambda>p. if p = demo_index
        then Some \<lparr>f_metadata = Some (True, 5), f_reads = [Inr (utf8 (lit ''he'')), Inr (utf8 (lit ''llo''))]\<rparr> else None),
      path_metadata = (\<lambda>_. Inr True)\<rparr>"

text \<open>The registry answers every subscription with an empty text and keeps 7 bytes for its entry.\<close>

definition demo_world :: world where
  "demo_world =
     \<lparr>w_files = demo_files,
      w_attach = (\<lambda>_ held. (Inr \<lparr>aw_current = \<lparr>gen_id = 1, gen_text = []\<rparr>, aw_updates = \<lparr>gen_id = 1, gen_text = []\<rparr>\<rparr>, held + 7)),
      w_release = (\<lambda>_ held. held), w_capacity = (\<lambda>n. n)\<rparr>"

text \<open>A site where everyone is Ann until the token is revoked, and every submission logs out.\<close>

definition demo_resolver :: "bool SessionResolver" where
  "demo_resolver = \<lparr>identity = (\<lambda>st _. if st then None else Some (lit ''ann'')), revoke = (\<lambda>_ _. True)\<rparr>"

definition demo_site :: "bool ConnectionContext" where
  "demo_site = \<lparr>ctx_root = demo_root, ctx_resolver = None,
     ctx_input_handler = Some (\<lambda>st _. (Render (lit ''/'') None (change_clear (lit ''/'')), st)),
     ctx_session_resolver = Some demo_resolver, ctx_peer = V4 [127, 0, 0, 1]\<rparr>"

lemma demo_path: "resolve_path demo_files demo_root (lit ''/'') = Inr demo_index"
  by (simp add: resolve_path_def resolve_path_lexical_def components_def demo_root_def demo_files_def demo_index_def
      ends_with_char_def extension_def split_at_dot_def rsplit_once_char_def path_starts_with_def lit_def)

lemma demo_page: "site_page demo_files demo_root (lit ''/'') (lit ''hello'')"
proof -
  let ?sf = "\<lparr>f_metadata = Some (True, 5), f_reads = [Inr (utf8 (lit ''he'')), Inr (utf8 (lit ''llo''))]\<rparr>"
  have "\<not> is_wasm demo_index"
    by (simp add: is_wasm_def demo_index_def extension_def split_at_dot_def rsplit_once_char_def lit_def)
  moreover have "contents (f_reads ?sf) = utf8 (lit ''hello'')"
    by (simp add: lit_def flip: utf8_append)
  ultimately show ?thesis
    unfolding site_page_def using demo_path
    by (intro exI [of _ demo_index] exI [of _ ?sf] exI [of _ 5])
      (simp add: demo_files_def len_lit is_scalar_def limit_defs lit_def len_utf8_def)
qed

lemma ready_ready_server: "ready (ready_server bs)"
  by (simp add: ready_def ready_server_def handshake_plain_def new_connection_def)

definition demo_get :: GetMessage where
  "demo_get = \<lparr>get_path = lit ''/'', get_query = None, get_referrer = None, get_session = None\<rparr>"

definition get_frame :: "GetMessage \<Rightarrow> RawFrame" where
  "get_frame g = \<lparr>msg_type = Get, flags = 0, body = utf8 (get_text g)\<rparr>"

lemma demo_get_text:
  "Get_serialize roomy_runtime demo_get = Inr (get_text demo_get)"
  "Get_parse roomy_runtime (get_text demo_get) = Inr demo_get" "valid_str (get_text demo_get)"
proof -
  have wf: "get_wf demo_get"
    by (simp add: get_wf_def demo_get_def value_ok_def clean_def lit_def is_control_def)
  have l: "len (get_text demo_get) \<le> MAX_CONTROL_MESSAGE_SIZE"
    by (simp add: get_text_def demo_get_def put_field_def lit_def len_utf8_def limit_defs)
  show "Get_serialize roomy_runtime demo_get = Inr (get_text demo_get)"
    using get_codec.writes_all [OF ample_roomy wf l] .
  show "Get_parse roomy_runtime (get_text demo_get) = Inr demo_get"
    using get_codec.reads_text [OF ample_roomy wf l] .
  show "valid_str (get_text demo_get)"
    by (simp add: get_text_def demo_get_def put_field_def lit_def is_scalar_def)
qed

lemma get_received:
  assumes "ample rt" "get_wf g" "get_session g = None" "Get_serialize rt g = Inr (get_text g)" "valid_str (get_text g)"
    and "ready c" "rx (transport c) = frame_bytes (get_frame g) @ following"
  shows "server_recv_frame rt c =
    (Inr (get_frame g), (rest_rx following c)\<lparr>cstate := \<lparr>endpoint = Server, phase = ResponsePending\<rparr>\<rparr>)"
proof -
  have ok: "frame_ok rt ClientPeer (get_frame g) False" "len (get_text g) \<le> MAX_INPUT_MESSAGE_SIZE"
    using control_frame_ok [OF assms(1), of "GetMsg g" "get_text g" ClientPeer] assms(2-5)
    by (simp_all add: get_frame_def inbound_body_limit_def carries_def)
  have "try_reserve rt (length (body (get_frame g)))"
    using ok(2) by (intro ample_try_reserve [OF assms(1)]) (simp add: get_frame_def limit_defs isize_max_def)
  then show ?thesis
    unfolding server_recv_frame_def guarded_Inr server_via recv_success
    using ok(1) assms(6,7)
    by (intro conjI exI [of _ False] exI [of _ following] exI [of _ "rest_rx following c"] exI [of _ ResponsePending])
      (auto simp: hooked_def get_frame_def validate_capability_def next_phase_def ready_def rest_rx_def)
qed

definition demo_serving :: "byte list \<Rightarrow> bool serving" where
  "demo_serving bs = \<lparr>sv_stream = ready_server bs, sv_subs = [], sv_budget = new_budget 0, sv_elsewhere = 0, sv_site = False\<rparr>"

lemma demo_get_received:
  "server_recv_frame roomy_runtime (ready_server (frame_bytes (get_frame demo_get))) = (Inr (get_frame demo_get),
     (ready_server [])\<lparr>cstate := \<lparr>endpoint = Server, phase = ResponsePending\<rparr>\<rparr>)"
proof -
  have "get_wf demo_get" "get_session demo_get = None"
    by (simp_all add: get_wf_def demo_get_def value_ok_def clean_def lit_def is_control_def)
  from get_received [OF ample_roomy this demo_get_text(1,3) ready_ready_server, where following = "[]"]
  show ?thesis
    by (simp add: ready_server_def quiet_stream_def handshake_plain_def new_connection_def rest_rx_def)
qed


theorem only_site_files_served_witness:
  "\<exists>c c' f. serve_path roomy_runtime demo_files demo_root None (lit ''/'') None None [] False c = (Inr (), c')
    \<and> server_send_frame roomy_runtime f c = (Inr (), c')
    \<and> (refusal roomy_runtime f
       \<or> (\<exists>candidate p sf. resolve_path_lexical demo_root (lit ''/'') = Inr candidate
            \<and> (case canonicalize demo_files candidate of
                 Some q \<Rightarrow> p = q \<and> path_starts_with p demo_root
               | None \<Rightarrow> p = candidate
                   \<and> (lexically_below demo_root p \<or> p = demo_root \<or> p = set_extension demo_root (lit ''aml'')))
            \<and> open_file demo_files p = Some sf
            \<and> file_answer roomy_runtime None (lit ''/'') None None [] False p sf f))"
proof -
  let ?c = "(ready_server [])\<lparr>cstate := \<lparr>endpoint = Server, phase = ResponsePending\<rparr>\<rparr>"
  obtain p sf n where sp: "resolve_path demo_files demo_root (lit ''/'') = Inr p" "open_file demo_files p = Some sf"
    "f_metadata sf = Some (True, n)" "\<not> is_wasm p" "intact (f_reads sf)" "contents (f_reads sf) = utf8 (lit ''hello'')"
    "valid_str (lit ''hello'')" "len (lit ''hello'') \<le> n" "n \<le> MAX_PAGE_MESSAGE_SIZE"
    using demo_page by (auto simp: site_page_def)
  have "\<exists>c'. serve_content roomy_runtime None (lit ''/'') None None [] False (lit ''hello'') ?c = (Inr (), c')"
    using page_sent [OF ample_roomy sp(7), of ?c "\<lparr>np_version = \<lparr>major = 1, minor = 0\<rparr>, np_capabilities = 15\<rparr>"]
    by (fastforce simp: ready_server_def handshake_plain_def new_connection_def quiet_stream_def HEADER_SIZE_def
        lit_def len_utf8_def limit_defs)
  moreover have "read_static_body roomy_runtime sf n = Inr (utf8 (lit ''hello''))"
    using read_static_body_whole [OF ample_roomy sp(5)] sp(6,8,9) by simp
  ultimately obtain c' where "serve_path roomy_runtime demo_files demo_root None (lit ''/'') None None [] False ?c = (Inr (), c')"
    using sp by (auto simp: serve_path_def size_limit_def)
  then show ?thesis
    using only_site_files_served [of roomy_runtime demo_files demo_root None "lit ''/''" None None "[]" False ?c c',
        unfolded simp_thms] by blast
qed

section \<open>A whole connection\<close>

definition demo_hello :: HelloMessage where
  "demo_hello = \<lparr>hello_version = PROTOCOL_VERSION, hello_terminal_size = None, hello_color_support = None,
     hello_client = None, hello_capabilities = [lit ''live-updates'']\<rparr>"

lemma demo_hello_ok:
  "hello_wf demo_hello" "Hello_serialize roomy_runtime demo_hello = Inr (hello_text demo_hello)"
  "valid_str (hello_text demo_hello)"
proof -
  show wf: "hello_wf demo_hello"
    by (simp add: hello_wf_def demo_hello_def PROTOCOL_VERSION_def
        validate_capabilities_def bad_capability_def lit_def is_ascii_lowercase_def clean_def is_control_def)
  have "len (hello_text demo_hello) \<le> MAX_CONTROL_MESSAGE_SIZE"
    by (simp add: hello_text_def demo_hello_def PROTOCOL_VERSION_def put_field_def put_capabilities_def lit_def
        len_utf8_def limit_defs)
  with wf show "Hello_serialize roomy_runtime demo_hello = Inr (hello_text demo_hello)"
    by (rule hello_codec.writes_all [OF ample_roomy])
  show "valid_str (hello_text demo_hello)"
    by (simp add: hello_text_def demo_hello_def PROTOCOL_VERSION_def put_field_def put_capabilities_def lit_def is_scalar_def)
qed

definition demo_stream :: stream where
  "demo_stream = quiet_stream (frame_bytes (hello_frame (hello_text demo_hello)) @ frame_bytes ping_frame)"

lemma demo_handshake:
  "\<exists>c. serve_handshake roomy_runtime (handshake_plain demo_stream) = (Inr True, c) \<and> ready c
     \<and> rx (transport c) = frame_bytes ping_frame \<and> HEADER_SIZE \<le> tx_room (transport c)"
proof -
  have v: "ProtocolVersion_parse roomy_runtime (hello_version demo_hello) = Inr \<lparr>major = 0, minor = 2\<rparr>"
    by (simp add: demo_hello_def version_0_2)
  obtain c where c: "serve_handshake roomy_runtime (handshake_plain demo_stream) = (Inr True, c)" "ready c"
    "rx (transport c) = frame_bytes ping_frame" "tx_room demo_stream - (HEADER_SIZE + 500) \<le> tx_room (transport c)"
    using server_handshake [OF ample_roomy demo_hello_ok(1) _ demo_hello_ok(2,3), of demo_stream "frame_bytes ping_frame"]
    by (auto simp: demo_hello_def demo_stream_def quiet_stream_def HEADER_SIZE_def)
  moreover have "HEADER_SIZE \<le> tx_room (transport c)"
    using c(4) by (simp add: demo_stream_def quiet_stream_def HEADER_SIZE_def)
  ultimately show ?thesis by blast
qed

theorem handshake_served_witness:
  "\<exists>c. serve_handshake roomy_runtime (handshake_plain demo_stream) = (Inr True, c) \<and> ready c
     \<and> rx (transport c) = frame_bytes ping_frame"
  using handshake_served [OF ample_roomy demo_hello_ok(1) _ demo_hello_ok(2,3), of demo_stream "frame_bytes ping_frame"]
  by (auto simp: demo_hello_def demo_stream_def quiet_stream_def HEADER_SIZE_def)

theorem every_request_answered_witness:
  "\<exists>s. serve_connection roomy_runtime demo_world demo_site [FrameReceived, Woken 0] (handshake_plain demo_stream)
      (new_budget 0) False = Continue s
    \<and> serving_ok s \<and> (\<exists>hello welc xs outs. msg_type hello = Hello \<and> msg_type welc = Welcome
      \<and> conversation (whole_frames xs) outs \<and> lost_bytes xs \<le> 0
      \<and> rx demo_stream = frame_bytes hello @ taken_bytes xs @ rx (transport (sv_stream s))
      \<and> tx (transport (sv_stream s)) = tx demo_stream @ concat (map frame_bytes (welc # outs)))"
proof -
  obtain c where c: "serve_handshake roomy_runtime (handshake_plain demo_stream) = (Inr True, c)" "ready c"
    "rx (transport c) = frame_bytes ping_frame" "HEADER_SIZE \<le> tx_room (transport c)"
    using demo_handshake by blast
  let ?s = "\<lparr>sv_stream = c, sv_subs = [], sv_budget = new_budget 0, sv_elsewhere = 0, sv_site = False\<rparr>"
  obtain c' where "serve_event roomy_runtime demo_world demo_site FrameReceived ?s = Continue (?s\<lparr>sv_stream := c'\<rparr>)"
    using ping_answered [OF ample_roomy, of ?s "[]"] c(2-4) by simp
  then have run: "serve_connection roomy_runtime demo_world demo_site [FrameReceived, Woken 0] (handshake_plain demo_stream)
      (new_budget 0) False = Continue (?s\<lparr>sv_stream := c'\<rparr>)"
    using c(1) by (simp add: serve_connection_def new_budget_def) (simp add: serve_event_def)
  from every_request_answered [OF run] run show ?thesis by auto
qed

subsection \<open>A connection with a subscription\<close>

definition demo_subscribe :: SubscribeMessage where
  "demo_subscribe = \<lparr>sub_path = lit ''/'', sub_region = lit ''r'', sub_mode = Delta, sub_session = None\<rparr>"

definition subscribe_frame :: RawFrame where
  "subscribe_frame = \<lparr>msg_type = Subscribe, flags = 0, body = utf8 (subscribe_text demo_subscribe)\<rparr>"

definition subscribing :: stream where
  "subscribing = quiet_stream (frame_bytes (hello_frame (hello_text demo_hello)) @ frame_bytes subscribe_frame)"

lemma demo_subscribe_ok:
  "subscribe_wf demo_subscribe" "Subscribe_serialize roomy_runtime demo_subscribe = Inr (subscribe_text demo_subscribe)"
  "Subscribe_parse roomy_runtime (subscribe_text demo_subscribe) = Inr demo_subscribe" "valid_str (subscribe_text demo_subscribe)"
proof -
  show wf: "subscribe_wf demo_subscribe"
    by (simp add: subscribe_wf_def demo_subscribe_def value_ok_def clean_def lit_def is_control_def isize_max_def len_utf8_def)
  have l: "len (subscribe_text demo_subscribe) \<le> MAX_CONTROL_MESSAGE_SIZE"
    by (simp add: subscribe_text_def demo_subscribe_def put_field_def lit_def len_utf8_def limit_defs)
  show "Subscribe_serialize roomy_runtime demo_subscribe = Inr (subscribe_text demo_subscribe)"
    using subscribe_codec.writes_all [OF ample_roomy wf l] .
  show "Subscribe_parse roomy_runtime (subscribe_text demo_subscribe) = Inr demo_subscribe"
    using subscribe_codec.reads_text [OF ample_roomy wf l] .
  show "valid_str (subscribe_text demo_subscribe)"
    by (simp add: subscribe_text_def demo_subscribe_def put_field_def lit_def is_scalar_def)
qed

lemma subscribe_received:
  assumes "ready c" "rx (transport c) = frame_bytes subscribe_frame" "negotiated c = Some neg" "live_updates (np_capabilities neg)"
  shows "server_recv_frame roomy_runtime c = (Inr subscribe_frame, rest_rx [] c)"
proof -
  have ok: "frame_ok roomy_runtime ClientPeer subscribe_frame False" "len (subscribe_text demo_subscribe) \<le> MAX_INPUT_MESSAGE_SIZE"
    using control_frame_ok [OF ample_roomy, of "SubscribeMsg demo_subscribe" "subscribe_text demo_subscribe" ClientPeer] demo_subscribe_ok
    by (simp_all add: subscribe_frame_def inbound_body_limit_def carries_def demo_subscribe_def)
  have "try_reserve roomy_runtime (length (body subscribe_frame))"
    using ok(2) by (intro ample_try_reserve [OF ample_roomy]) (simp add: subscribe_frame_def limit_defs isize_max_def)
  then show ?thesis
    unfolding server_recv_frame_def guarded_Inr server_via recv_success
    using ok(1) assms
    by (intro conjI exI [of _ False] exI [of _ "[]"] exI [of _ "rest_rx [] c"] exI [of _ Ready])
      (auto simp: hooked_def subscribe_frame_def validate_capability_def next_phase_def ready_def rest_rx_def)
qed

definition demo_held :: StaticSubscription where
  "demo_held = \<lparr>sub_of_region = lit ''r'', sub_in_mode = Delta, baseline = \<lparr>gen_id = 1, gen_text = []\<rparr>,
     updates = \<lparr>gen_id = 1, gen_text = []\<rparr>, metadata_lease = 16\<rparr>"

lemma demo_prepared:
  "prepare_subscription roomy_runtime demo_world demo_root subscribe_frame (new_budget 100, 0) =
     (Inr demo_held, \<lparr>used = 23, budget_limit = 100\<rparr>, 7)"
proof -
  have p: "path_len demo_index = 15"
    by (simp add: path_len_def demo_index_def lit_def len_utf8_def)
  have m: "parse_subscribe roomy_runtime subscribe_frame = Inr demo_subscribe"
    using demo_subscribe_ok(3,4) by (simp add: parse_subscribe_def subscribe_frame_def)
  have "validate_update_parts roomy_runtime (lit ''r'') 0 = Inr ()"
    by (simp add: validate_update_parts_def parts_body_len_def checked_add_def enforce_message_limit_def limit_defs
        usize_max_def lit_def len_utf8_def validate_primary_value_def is_control_def)
  moreover have "try_owned_subscription roomy_runtime n = Inr ()" if "n \<le> 100" for n
    using that by (simp add: try_owned_subscription_def ample_try_reserve [OF ample_roomy] isize_max_def)
  ultimately show ?thesis
    using demo_path
    by (simp add: prepare_subscription_def m p demo_subscribe_def demo_world_def retained_metadata_def reserve_def try_resize_def
        checked_add_def usize_max_def new_budget_def open_subscription_def dropping_def demo_held_def move_elsewhere_def
        len_lit lit_def len_utf8_def)
      (simp add: demo_files_def ensure_def)
qed

lemma demo_subscribed:
  assumes "ready c" "rx (transport c) = frame_bytes subscribe_frame" "negotiated c = Some neg"
    and "live_updates (np_capabilities neg)" "100 \<le> tx_room (transport c)"
  shows "\<exists>c'. serve_event roomy_runtime demo_world demo_site FrameReceived
      \<lparr>sv_stream = c, sv_subs = [], sv_budget = new_budget 100, sv_elsewhere = 0, sv_site = False\<rparr> =
    Continue \<lparr>sv_stream = c', sv_subs = [demo_held], sv_budget = \<lparr>used = 23, budget_limit = 100\<rparr>, sv_elsewhere = 7,
      sv_site = False\<rparr>"
proof -
  have "validate_update_parts roomy_runtime (lit ''r'') (len []) = Inr ()"
    by (simp add: validate_update_parts_def parts_body_len_def checked_add_def enforce_message_limit_def limit_defs
        usize_max_def lit_def len_utf8_def validate_primary_value_def is_control_def)
  then obtain c' where "server_send_update_parts roomy_runtime (lit ''r'') [] False (rest_rx [] c) = (Inr (), c')"
    using update_can_be_sent [of roomy_runtime "lit ''r''" "[]" "rest_rx [] c" neg False] assms
    by (auto simp: ready_def rest_rx_def HEADER_SIZE_def lit_def len_utf8_def)
  then have "serve_subscription roomy_runtime demo_world demo_root subscribe_frame (new_budget 100, 0) (rest_rx [] c) =
      ((Inr demo_held, \<lparr>used = 23, budget_limit = 100\<rparr>, 7), c')"
    by (simp add: serve_subscription_def demo_prepared dropping_def map_ok_def) (simp add: demo_held_def dropping_def map_ok_def)
  then show ?thesis
    using subscribe_received [OF assms(1-4)]
    by (simp add: serve_event_def serve_frame_def demo_site_def MAX_SUBSCRIPTIONS_PER_CONNECTION_def)
      (simp add: subscribe_frame_def)
qed

theorem connection_returns_budget_witness:
  "\<exists>s1 s2. serve_connection roomy_runtime demo_world demo_site [FrameReceived] (handshake_plain subscribing)
      (new_budget 100) False = Continue s1
    \<and> sv_subs s1 = [demo_held] \<and> used (sv_budget s1) = 23 \<and> sv_elsewhere s1 = 7
    \<and> serve_connection roomy_runtime demo_world demo_site [FrameReceived, IdleExpired] (handshake_plain subscribing)
      (new_budget 100) False = Finish (Inl Timeout) s2
    \<and> used (sv_budget s2) = 7 \<and> sv_elsewhere s2 = 7 \<and> sv_subs s2 = []"
proof -
  let ?caps = "negotiate [lit ''live-updates'']
      (filter (\<lambda>capability. capability \<in> set SUPPORTED_CAPABILITIES) [lit ''live-updates''])"
  obtain c where c: "serve_handshake roomy_runtime (handshake_plain subscribing) = (Inr True, c)" "ready c"
    "rx (transport c) = frame_bytes subscribe_frame" "tx_room subscribing - (HEADER_SIZE + 500) \<le> tx_room (transport c)"
    "negotiated c = Some \<lparr>np_version = \<lparr>major = 0, minor = 2\<rparr>, np_capabilities = ?caps\<rparr>"
    using server_handshake [OF ample_roomy demo_hello_ok(1) _ demo_hello_ok(2,3), of subscribing "frame_bytes subscribe_frame"]
    by (auto simp: demo_hello_def subscribing_def quiet_stream_def HEADER_SIZE_def)
  have "live_updates ?caps"
    by (simp add: negotiate_def SUPPORTED_CAPABILITIES_def live_updates_def LIVE_UPDATES_def lit_def capability_bit_def)
  moreover have "100 \<le> tx_room (transport c)"
    using c(4) by (simp add: subscribing_def quiet_stream_def HEADER_SIZE_def)
  ultimately obtain c' where e: "serve_event roomy_runtime demo_world demo_site FrameReceived
      \<lparr>sv_stream = c, sv_subs = [], sv_budget = new_budget 100, sv_elsewhere = 0, sv_site = False\<rparr> =
    Continue \<lparr>sv_stream = c', sv_subs = [demo_held], sv_budget = \<lparr>used = 23, budget_limit = 100\<rparr>, sv_elsewhere = 7,
      sv_site = False\<rparr>" (is "_ = Continue ?s1")
    using demo_subscribed [OF c(2,3,5)] by auto
  then have run: "serve_connection roomy_runtime demo_world demo_site [FrameReceived] (handshake_plain subscribing)
      (new_budget 100) False = Continue ?s1"
    "serve_connection roomy_runtime demo_world demo_site [FrameReceived, IdleExpired] (handshake_plain subscribing)
      (new_budget 100) False = Finish (Inl Timeout) (drop_subscriptions demo_world ?s1)"
    using c(1) by (simp_all add: serve_connection_def new_budget_def)
      (simp add: serve_event_def leave_def)
  have "sv_elsewhere (drop_subscriptions demo_world ?s1) = 7"
    by (simp add: drop_subscriptions_def let_go_def demo_world_def Let_def)
  with connection_returns_budget [OF run(2)] run show ?thesis by auto
qed

section \<open>What goes wrong, concretely\<close>

definition demo_subscription :: StaticSubscription where
  "demo_subscription = \<lparr>sub_of_region = lit ''r'', sub_in_mode = Delta, baseline = \<lparr>gen_id = 1, gen_text = []\<rparr>,
     updates = \<lparr>gen_id = 1, gen_text = []\<rparr>, metadata_lease = 0\<rparr>"

theorem wake_loses_frame_witness:
  "(\<exists>s'. serve_loop roomy_runtime demo_world demo_site [FrameReceived, Woken 0]
      ((demo_serving (frame_bytes ping_frame))\<lparr>sv_subs := [demo_subscription]\<rparr>) = Continue s'
      \<and> tx (transport (sv_stream s')) = frame_bytes \<lparr>msg_type = Pong, flags = 0, body = []\<rparr>)
    \<and> (\<exists>e s'. serve_loop roomy_runtime demo_world demo_site [Woken 3, FrameReceived]
      ((demo_serving (frame_bytes ping_frame))\<lparr>sv_subs := [demo_subscription]\<rparr>) = Finish (Inl e) s'
      \<and> tx (transport (sv_stream s')) = [])"
  using wake_loses_frame [OF ample_roomy, of "(demo_serving (frame_bytes ping_frame))\<lparr>sv_subs := [demo_subscription]\<rparr>"
      demo_subscription 3 demo_world demo_site]
  by (simp add: demo_serving_def ready_def demo_subscription_def HEADER_SIZE_def ready_server_def
      handshake_plain_def new_connection_def quiet_stream_def)

definition demo_input :: InputMessage where
  "demo_input = \<lparr>input_path = lit ''/logout'', input_form_data = [], input_session = Some (lit ''tok'')\<rparr>"

lemma demo_input_text: "Input_parse roomy_runtime (input_text demo_input) = Inr demo_input" "valid_str (input_text demo_input)"
proof -
  have wf: "input_wf demo_input"
    by (simp add: input_wf_def demo_input_def value_ok_def clean_def lit_def is_control_def)
  have "len (input_text demo_input) \<le> MAX_INPUT_MESSAGE_SIZE"
    by (simp add: input_text_def demo_input_def put_field_def lit_def len_utf8_def limit_defs)
  with wf show "Input_parse roomy_runtime (input_text demo_input) = Inr demo_input"
    by (rule input_codec.reads_text [OF ample_roomy])
  show "valid_str (input_text demo_input)"
    by (simp add: input_text_def demo_input_def put_field_def lit_def is_scalar_def)
qed

theorem logout_rendered_for_old_identity_witness:
  "serve_input roomy_runtime demo_files demo_site False \<lparr>msg_type = Input, flags = 0, body = utf8 (input_text demo_input)\<rparr> =
      (True, serve_path roomy_runtime demo_files demo_root None (lit ''/'') None (Some (lit ''ann'')) (change_clear (lit ''/'')) True)
    \<and> resolve_identity (Some demo_resolver) True (Some (lit ''tok'')) = None"
  using logout_rendered_for_old_identity [where site = demo_site and st = False and rt = roomy_runtime and
      f = "\<lparr>msg_type = Input, flags = 0, body = utf8 (input_text demo_input)\<rparr>" and inp = demo_input and fs = demo_files and
      t = "lit ''tok''" and r = demo_resolver and ?st1.0 = False and submission = "input_text demo_input"]
    demo_input_text
  by (simp add: demo_site_def demo_resolver_def demo_input_def)

theorem live_page_not_sent_witness:
  "\<exists>e c'. serve_content roomy_runtime None (lit ''/'') None None [] False (lit ''[[live'')
      ((ready_server [])\<lparr>negotiated := Some \<lparr>np_version = \<lparr>major = 0, minor = 2\<rparr>, np_capabilities = 0\<rparr>\<rparr>) = (Inl e, c')"
  by (rule live_page_not_sent [where neg = "\<lparr>np_version = \<lparr>major = 0, minor = 2\<rparr>, np_capabilities = 0\<rparr>"])
    (simp_all add: live_updates_def lit_def)

end
