(* ===== verification/Color.thy ===== *)
theory Color
  imports Rust_Net
begin

text \<open>
  \<open>color/mod.rs\<close> and \<open>color/palette.rs\<close>: the colours of AML, their parser, and their
  reduction to what a terminal can show.
\<close>

section \<open>Colours\<close>

datatype NamedColor =
    Black | Red | Green | Yellow | Blue | Magenta | Cyan | White
  | BrightBlack | BrightRed | BrightGreen | BrightYellow
  | BrightBlue | BrightMagenta | BrightCyan | BrightWhite

datatype Color = NamedC NamedColor | PaletteC u8 | RgbC u8 u8 u8

datatype ColorSupport = NoColor | Basic | Palette256 | Truecolor

datatype ResolvedColor = RNamed NamedColor | RPalette u8 | RRgb u8 u8 u8

fun fg_sgr :: "NamedColor \<Rightarrow> u8" where
  "fg_sgr Black = 30"
| "fg_sgr Red = 31"
| "fg_sgr Green = 32"
| "fg_sgr Yellow = 33"
| "fg_sgr Blue = 34"
| "fg_sgr Magenta = 35"
| "fg_sgr Cyan = 36"
| "fg_sgr White = 37"
| "fg_sgr BrightBlack = 90"
| "fg_sgr BrightRed = 91"
| "fg_sgr BrightGreen = 92"
| "fg_sgr BrightYellow = 93"
| "fg_sgr BrightBlue = 94"
| "fg_sgr BrightMagenta = 95"
| "fg_sgr BrightCyan = 96"
| "fg_sgr BrightWhite = 97"

definition bg_sgr :: "NamedColor \<Rightarrow> u8" where
  "bg_sgr c = fg_sgr c + 10"

fun to_rgb :: "NamedColor \<Rightarrow> u8 \<times> u8 \<times> u8" where
  "to_rgb Black = (0, 0, 0)"
| "to_rgb Red = (170, 0, 0)"
| "to_rgb Green = (0, 170, 0)"
| "to_rgb Yellow = (170, 170, 0)"
| "to_rgb Blue = (0, 0, 170)"
| "to_rgb Magenta = (170, 0, 170)"
| "to_rgb Cyan = (0, 170, 170)"
| "to_rgb White = (170, 170, 170)"
| "to_rgb BrightBlack = (85, 85, 85)"
| "to_rgb BrightRed = (255, 85, 85)"
| "to_rgb BrightGreen = (85, 255, 85)"
| "to_rgb BrightYellow = (255, 255, 85)"
| "to_rgb BrightBlue = (85, 85, 255)"
| "to_rgb BrightMagenta = (255, 85, 255)"
| "to_rgb BrightCyan = (85, 255, 255)"
| "to_rgb BrightWhite = (255, 255, 255)"

definition ALL_NAMED :: "NamedColor list" where
  "ALL_NAMED =
     [Black, Red, Green, Yellow, Blue, Magenta, Cyan, White,
      BrightBlack, BrightRed, BrightGreen, BrightYellow,
      BrightBlue, BrightMagenta, BrightCyan, BrightWhite]"

section \<open>The palette\<close>

definition cube_level :: "u8 \<Rightarrow> u8" where
  "cube_level c = (if c = 0 then 0 else 55 + 40 * c)"

definition STANDARD_COLORS :: "(u8 \<times> u8 \<times> u8) list" where
  "STANDARD_COLORS =
     [(0, 0, 0), (170, 0, 0), (0, 170, 0), (170, 170, 0),
      (0, 0, 170), (170, 0, 170), (0, 170, 170), (170, 170, 170),
      (85, 85, 85), (255, 85, 85), (85, 255, 85), (255, 255, 85),
      (85, 85, 255), (255, 85, 255), (85, 255, 255), (255, 255, 255)]"

definition palette_to_rgb :: "u8 \<Rightarrow> u8 \<times> u8 \<times> u8" where
  "palette_to_rgb idx =
     (if idx \<le> 15 then STANDARD_COLORS ! unat idx
      else if idx \<le> 231 then
        let idx = idx - 16; b = idx mod 6; g = (idx div 6) mod 6; r = idx div 36
        in (cube_level r, cube_level g, cube_level b)
      else let v = 8 + 10 * (idx - 232) in (v, v, v))"

text \<open>The arithmetic is on \<open>i32\<close>, whose range it does not leave.\<close>

definition color_distance :: "u8 \<times> u8 \<times> u8 \<Rightarrow> u8 \<times> u8 \<times> u8 \<Rightarrow> nat" where
  "color_distance = (\<lambda>(r1, g1, b1) (r2, g2, b2).
     let rmean = (uint r1 + uint r2) div 2;
         dr = uint r1 - uint r2;
         dg = uint g1 - uint g2;
         db = uint b1 - uint b2;
         wr = 2 + rmean div 256;
         wg = 4;
         wb = 2 + (255 - rmean) div 256
     in nat (wr * dr * dr + wg * dg * dg + wb * db * db))"

text \<open>The loop both searches run: the first candidate at the least distance, stopping at zero.\<close>

fun nearest :: "('a \<Rightarrow> nat) \<Rightarrow> 'a \<Rightarrow> nat \<Rightarrow> 'a list \<Rightarrow> 'a" where
  "nearest dist best best_dist [] = best"
| "nearest dist best best_dist (x # xs) =
     (if dist x < best_dist then
        if dist x = 0 then x else nearest dist x (dist x) xs
      else nearest dist best best_dist xs)"

definition rgb_to_palette :: "u8 \<times> u8 \<times> u8 \<Rightarrow> u8" where
  "rgb_to_palette rgb =
     nearest (\<lambda>idx. color_distance rgb (palette_to_rgb idx)) 0 u32_max (map of_nat [0..<256])"

definition rgb_to_named :: "u8 \<times> u8 \<times> u8 \<Rightarrow> NamedColor" where
  "rgb_to_named rgb = nearest (\<lambda>named. color_distance rgb (to_rgb named)) Black u32_max ALL_NAMED"

definition resolved_rgb :: "u8 \<times> u8 \<times> u8 \<Rightarrow> ResolvedColor" where
  "resolved_rgb = (\<lambda>(r, g, b). RRgb r g b)"

fun resolve :: "Color \<Rightarrow> ColorSupport \<Rightarrow> ResolvedColor option" where
  "resolve c NoColor = None"
| "resolve c Truecolor = Some (case c of
     NamedC n \<Rightarrow> resolved_rgb (to_rgb n)
   | PaletteC idx \<Rightarrow> resolved_rgb (palette_to_rgb idx)
   | RgbC r g b \<Rightarrow> RRgb r g b)"
| "resolve c Palette256 = Some (case c of
     NamedC n \<Rightarrow> RNamed n
   | PaletteC idx \<Rightarrow> RPalette idx
   | RgbC r g b \<Rightarrow> RPalette (rgb_to_palette (r, g, b)))"
| "resolve c Basic = Some (case c of
     NamedC n \<Rightarrow> RNamed n
   | PaletteC idx \<Rightarrow> RNamed (rgb_to_named (palette_to_rgb idx))
   | RgbC r g b \<Rightarrow> RNamed (rgb_to_named (r, g, b)))"

section \<open>Parsing\<close>

datatype ColorParseError = InvalidHex | InvalidPalette | PaletteOutOfRange nat | UnknownColor

text \<open>\<open>u8::from_str_radix\<close> on two characters: two digits, or a plus sign and one digit.\<close>

definition hex_pair :: "uchar \<Rightarrow> uchar \<Rightarrow> u8 option" where
  "hex_pair c1 c2 =
     (case to_digit 16 c2 of
        None \<Rightarrow> None
      | Some lo \<Rightarrow>
          if c1 = uc CHR ''+'' then Some (of_nat lo)
          else map_option (\<lambda>hi. of_nat (16 * hi + lo)) (to_digit 16 c1))"

definition parse_hex_color :: "ustr \<Rightarrow> (ColorParseError, Color) result" where
  "parse_hex_color hex =
     (if len hex \<noteq> 6 \<or> \<not> is_ascii hex then Inl InvalidHex
      else case hex of
        [r1, r2, g1, g2, b1, b2] \<Rightarrow>
          and_then (ok_or InvalidHex (hex_pair r1 r2)) (\<lambda>r.
          and_then (ok_or InvalidHex (hex_pair g1 g2)) (\<lambda>g.
          and_then (ok_or InvalidHex (hex_pair b1 b2)) (\<lambda>b.
          Inr (RgbC r g b))))
      | _ \<Rightarrow> Inl InvalidHex)"

definition parse_palette_color :: "ustr \<Rightarrow> (ColorParseError, Color) result" where
  "parse_palette_color inner =
     and_then (ok_or InvalidPalette (parse_uint 65535 (trim inner))) (\<lambda>idx.
     if idx > 255 then Inl (PaletteOutOfRange idx) else Inr (PaletteC (of_nat idx)))"

definition NAMED_COLORS :: "(string \<times> NamedColor) list" where
  "NAMED_COLORS =
     [(''black'', Black), (''red'', Red), (''green'', Green), (''yellow'', Yellow),
      (''blue'', Blue), (''magenta'', Magenta), (''cyan'', Cyan), (''white'', White),
      (''bright-black'', BrightBlack), (''brightblack'', BrightBlack),
      (''bright-red'', BrightRed), (''brightred'', BrightRed),
      (''bright-green'', BrightGreen), (''brightgreen'', BrightGreen),
      (''bright-yellow'', BrightYellow), (''brightyellow'', BrightYellow),
      (''bright-blue'', BrightBlue), (''brightblue'', BrightBlue),
      (''bright-magenta'', BrightMagenta), (''brightmagenta'', BrightMagenta),
      (''bright-cyan'', BrightCyan), (''brightcyan'', BrightCyan),
      (''bright-white'', BrightWhite), (''brightwhite'', BrightWhite)]"

definition parse_named_color :: "ustr \<Rightarrow> (ColorParseError, Color) result" where
  "parse_named_color name =
     (case find (\<lambda>(candidate, color). eq_ignore_ascii_case name (lit candidate)) NAMED_COLORS of
        None \<Rightarrow> Inl UnknownColor
      | Some (candidate, color) \<Rightarrow> Inr (NamedC color))"

text \<open>
  The prefix is compared in bytes; a text whose first six bytes are \<open>color(\<close> in any case has
  these as its first six characters.
\<close>

definition parse_color :: "ustr \<Rightarrow> (ColorParseError, Color) result" where
  "parse_color s =
     (let s = trim s
      in case strip_prefix (lit ''#'') s of
           Some hex \<Rightarrow> parse_hex_color hex
         | None \<Rightarrow>
             if eq_ignore_ascii_case (take 6 s) (lit ''color('') \<and> ends_with_char (uc CHR '')'') s
             then parse_palette_color (butlast (drop 6 s))
             else parse_named_color s)"

definition show_ColorParseError :: "ColorParseError \<Rightarrow> ustr list" where
  "show_ColorParseError e = (case e of
       InvalidHex \<Rightarrow> [lit ''invalid hex color'']
     | InvalidPalette \<Rightarrow> [lit ''invalid palette index'']
     | PaletteOutOfRange n \<Rightarrow> [lit ''palette index '', show_nat n, lit '' out of range (0'' @ [8211] @ lit ''255)'']
     | UnknownColor \<Rightarrow> [lit ''unknown color name''])"

section \<open>The nearest colour\<close>

lemma nearest_least:
  "(nearest dist best bd xs = best \<and> (\<forall>x \<in> set xs. bd \<le> dist x)) \<or>
   (nearest dist best bd xs \<in> set xs \<and> dist (nearest dist best bd xs) < bd \<and>
    (\<forall>x \<in> set xs. dist (nearest dist best bd xs) \<le> dist x))"
  by (induction dist best bd xs rule: nearest.induct) (auto intro: order.strict_trans)

lemma nearest_among:
  assumes "\<And>x. dist x < bd" and "x \<in> set xs"
  shows "nearest dist best bd xs \<in> set xs" "dist (nearest dist best bd xs) \<le> dist x"
  using nearest_least [of dist best bd xs] assms by (meson leD)+

lemma uint_u8: "0 \<le> uint (w :: u8)" "uint (w :: u8) \<le> 255"
  using uint_lt2p [of w] by (simp_all flip: zle_diff1_eq)

text \<open>Both quotients by 256 are of numbers below 256, so the weights never change.\<close>

lemma color_distance_weights:
  "color_distance (r1, g1, b1) (r2, g2, b2) =
   nat (2 * (uint r1 - uint r2)\<^sup>2 + 4 * (uint g1 - uint g2)\<^sup>2 + 2 * (uint b1 - uint b2)\<^sup>2)"
proof -
  have m: "0 \<le> (uint r1 + uint r2) div 2" "(uint r1 + uint r2) div 2 \<le> 255"
    using uint_u8 [of r1] uint_u8 [of r2] by linarith+
  then have q: "(uint r1 + uint r2) div 2 div 256 = 0" "(255 - (uint r1 + uint r2) div 2) div 256 = 0"
    by (intro div_pos_pos_trivial; linarith)+
  show ?thesis
    by (simp add: color_distance_def Let_def q power2_eq_square mult.assoc del: div_mult2_eq)
qed

lemma color_distance_0: "color_distance p q = 0 \<longleftrightarrow> p = q"
proof (cases p; cases q)
  fix r1 g1 b1 r2 g2 b2
  assume pq: "p = (r1, g1, b1)" "q = (r2, g2, b2)"
  have "color_distance p q = 0 \<longleftrightarrow>
        2 * (uint r1 - uint r2)\<^sup>2 + 4 * (uint g1 - uint g2)\<^sup>2 + 2 * (uint b1 - uint b2)\<^sup>2 \<le> 0"
    by (simp add: pq color_distance_weights)
  also have "\<dots> \<longleftrightarrow> (uint r1 - uint r2)\<^sup>2 = 0 \<and> (uint g1 - uint g2)\<^sup>2 = 0 \<and> (uint b1 - uint b2)\<^sup>2 = 0"
    using zero_le_power2 [of "uint r1 - uint r2"] zero_le_power2 [of "uint g1 - uint g2"]
      zero_le_power2 [of "uint b1 - uint b2"] by linarith
  also have "\<dots> \<longleftrightarrow> p = q"
    by (simp add: pq word_uint_eq_iff)
  finally show ?thesis .
qed

lemma square_u8: "(uint (v :: u8) - uint (w :: u8))\<^sup>2 \<le> 255\<^sup>2"
  using uint_u8 [of v] uint_u8 [of w] by (intro power2_le_iff_abs_le [THEN iffD2]) linarith+

lemma color_distance_bound: "color_distance p q < u32_max"
proof (cases p; cases q)
  fix r1 g1 b1 r2 g2 b2
  assume "p = (r1, g1, b1)" "q = (r2, g2, b2)"
  then show ?thesis
    using square_u8 [of r1 r2] square_u8 [of g1 g2] square_u8 [of b1 b2]
    by (simp add: color_distance_weights u32_max_def)
qed

lemma of_nat_range_u8: "(w :: u8) \<in> set (map of_nat [0..<256])"
  using unsigned_less [of w] by (auto simp: image_iff intro!: bexI [of _ "unat w"])

lemma all_named: "n \<in> set ALL_NAMED"
  by (cases n) (simp_all add: ALL_NAMED_def)

lemma rgb_to_palette_least:
  "color_distance rgb (palette_to_rgb (rgb_to_palette rgb)) \<le> color_distance rgb (palette_to_rgb idx)"
  unfolding rgb_to_palette_def
  by (rule nearest_among(2) [where dist = "\<lambda>idx. color_distance rgb (palette_to_rgb idx)"])
    (rule color_distance_bound of_nat_range_u8)+

lemma rgb_to_named_least:
  "color_distance rgb (to_rgb (rgb_to_named rgb)) \<le> color_distance rgb (to_rgb n)"
  unfolding rgb_to_named_def
  by (rule nearest_among(2) [where dist = "\<lambda>n. color_distance rgb (to_rgb n)"])
    (rule color_distance_bound all_named)+

lemma palette_roundtrip: "palette_to_rgb (rgb_to_palette (palette_to_rgb idx)) = palette_to_rgb idx"
  using rgb_to_palette_least [of "palette_to_rgb idx" idx] color_distance_0
  by (metis le_zero_eq)

lemma to_rgb_inject: "to_rgb m = to_rgb n \<longleftrightarrow> m = n"
  by (cases m; cases n) simp_all

lemma named_roundtrip: "rgb_to_named (to_rgb n) = n"
  using rgb_to_named_least [of "to_rgb n" n] color_distance_0 to_rgb_inject
  by (metis le_zero_eq)

text \<open>
  C40: an RGB colour is shown as the palette entry, or the standard colour, at the least
  distance from it; and what a colour is reduced to keeps the terminal's own colours: a palette
  entry taken to RGB and back shows the same RGB, a standard colour taken to RGB and back is
  itself.
\<close>

theorem resolve_nearest:
  "(\<exists>p. resolve (RgbC r g b) Palette256 = Some (RPalette p) \<and>
      (\<forall>idx. color_distance (r, g, b) (palette_to_rgb p) \<le> color_distance (r, g, b) (palette_to_rgb idx))) \<and>
   (\<exists>n. resolve (RgbC r g b) Basic = Some (RNamed n) \<and>
      (\<forall>m. color_distance (r, g, b) (to_rgb n) \<le> color_distance (r, g, b) (to_rgb m))) \<and>
   palette_to_rgb (rgb_to_palette (palette_to_rgb idx)) = palette_to_rgb idx \<and>
   rgb_to_named (to_rgb n) = n"
  by (simp add: rgb_to_palette_least rgb_to_named_least palette_roundtrip named_roundtrip)

section \<open>What the parser accepts\<close>

text \<open>A sign is taken for a hexadecimal digit.\<close>

lemma signed_hex_accepted: "parse_color (lit ''#+1+2+3'') = Inr (RgbC 1 2 3)"
  by (simp add: parse_color_def trim_def is_whitespace_def lit_def strip_prefix_def parse_hex_color_def
      len_def len_utf8_def is_ascii_def hex_pair_def to_digit_def is_ascii_digit_def
      is_ascii_lowercase_def is_ascii_uppercase_def Let_def)

end
