(* ===== verification/Rust_Float.thy ===== *)
theory Rust_Float
  imports Rust_Str
begin

text \<open>
  The floating point the AML parser uses: \<open>FromStr\<close> of \<open>f64\<close> and \<open>f32\<close>, multiplication of
  two \<open>f64\<close>, and the saturating conversion \<open>as u32\<close>. A finite float is a sign, a significand
  and an exponent of two; a decimal or a product is an exact fraction that \<open>round_float\<close>
  rounds to the nearest float, ties to the even significand.
\<close>

datatype float_value = NaN | Infinity bool | Finite bool nat int

record float_format =
  precision :: nat \<comment> \<open>bits of the significand\<close>
  min_exponent :: int \<comment> \<open>exponent of the least positive float\<close>
  max_exponent :: int \<comment> \<open>largest exponent of a full significand\<close>

definition f64 :: float_format where
  "f64 = \<lparr>precision = 53, min_exponent = -1074, max_exponent = 971\<rparr>"

definition f32 :: float_format where
  "f32 = \<lparr>precision = 24, min_exponent = -149, max_exponent = 104\<rparr>"

text \<open>The number of binary digits.\<close>

fun bit_length :: "nat \<Rightarrow> nat" where
  "bit_length n = (if n = 0 then 0 else Suc (bit_length (n div 2)))"

declare bit_length.simps [simp del]

definition half_even :: "nat \<Rightarrow> nat \<Rightarrow> nat" where
  "half_even n d =
     (let q = n div d; r = 2 * (n mod d)
      in if r > d \<or> (r = d \<and> odd q) then q + 1 else q)"

text \<open>The fraction \<open>n / (d * 2 ^ e)\<close> as numerator and denominator.\<close>

definition scaled :: "nat \<Rightarrow> nat \<Rightarrow> int \<Rightarrow> nat \<times> nat" where
  "scaled n d e = (if e \<ge> 0 then (n, d * 2 ^ nat e) else (n * 2 ^ nat (- e), d))"

definition round_float :: "float_format \<Rightarrow> bool \<Rightarrow> nat \<Rightarrow> nat \<Rightarrow> float_value" where
  "round_float fmt neg n d =
     (if n = 0 then Finite neg 0 (min_exponent fmt)
      else let e0 = int (bit_length n) - int (bit_length d) - int (precision fmt);
               (n0, d0) = scaled n d e0;
               e1 = (if n0 \<ge> d0 * 2 ^ precision fmt then e0 + 1 else e0);
               e = max e1 (min_exponent fmt);
               (n', d') = scaled n d e;
               m = half_even n' d';
               (m', e') = (if m = 2 ^ precision fmt then (2 ^ (precision fmt - 1), e + 1) else (m, e))
           in if e' > max_exponent fmt then Infinity neg else Finite neg m' e')"

section \<open>Parsing\<close>

text \<open>
  The grammar of \<open>core::num::dec2flt\<close>: an optional sign, then \<open>inf\<close>, \<open>infinity\<close> or \<open>nan\<close> in
  any case, or digits with an optional point (at least one digit in all) and an optional
  exponent with at least one digit.
\<close>

definition split_sign :: "ustr \<Rightarrow> bool \<times> ustr" where
  "split_sign s = (case s of
       c # cs \<Rightarrow> if c = uc CHR ''-'' then (True, cs) else if c = uc CHR ''+'' then (False, cs) else (False, s)
     | [] \<Rightarrow> (False, []))"

definition digits_of :: "ustr \<Rightarrow> ustr" where
  "digits_of s = takeWhile is_ascii_digit s"

definition after_digits :: "ustr \<Rightarrow> ustr" where
  "after_digits s = dropWhile is_ascii_digit s"

definition parse_exponent :: "ustr \<Rightarrow> int option" where
  "parse_exponent s = (case s of
       [] \<Rightarrow> Some 0
     | c # cs \<Rightarrow>
         if to_ascii_lowercase c = uc CHR ''e'' then
           let (neg, ds) = split_sign cs
           in if ds \<noteq> [] \<and> list_all is_ascii_digit ds
              then Some (if neg then - int (digits_value ds) else int (digits_value ds)) else None
         else None)"

definition parse_decimal :: "ustr \<Rightarrow> (nat \<times> int) option" where
  "parse_decimal s =
     (let whole = digits_of s;
          rest = after_digits s;
          (frac, rest') = (case rest of
              c # cs \<Rightarrow> if c = uc CHR ''.'' then (digits_of cs, after_digits cs) else ([], rest)
            | [] \<Rightarrow> ([], []))
      in if whole = [] \<and> frac = [] then None
         else map_option (\<lambda>e. (digits_value (whole @ frac), e - int (length frac))) (parse_exponent rest'))"

definition parse_float :: "float_format \<Rightarrow> ustr \<Rightarrow> float_value option" where
  "parse_float fmt s =
     (let (neg, body) = split_sign s
      in if eq_ignore_ascii_case body (lit ''inf'') \<or> eq_ignore_ascii_case body (lit ''infinity'')
         then Some (Infinity neg)
         else if eq_ignore_ascii_case body (lit ''nan'') then Some NaN
         else map_option (\<lambda>(n, e).
                if e \<ge> 0 then round_float fmt neg (n * 10 ^ nat e) 1
                else round_float fmt neg n (10 ^ nat (- e))) (parse_decimal body))"

section \<open>Arithmetic\<close>

definition mul_nat :: "float_format \<Rightarrow> float_value \<Rightarrow> nat \<Rightarrow> float_value" where
  "mul_nat fmt x k = (case x of
       NaN \<Rightarrow> NaN
     | Infinity neg \<Rightarrow> if k = 0 then NaN else Infinity neg
     | Finite neg m e \<Rightarrow>
         if e \<ge> 0 then round_float fmt neg (m * k * 2 ^ nat e) 1
         else round_float fmt neg (m * k) (2 ^ nat (- e)))"

text \<open>\<open>as u32\<close>: truncation towards zero, saturating, and zero for NaN.\<close>

definition as_u32 :: "float_value \<Rightarrow> nat" where
  "as_u32 x = (case x of
       NaN \<Rightarrow> 0
     | Infinity neg \<Rightarrow> if neg then 0 else u32_max
     | Finite neg m e \<Rightarrow>
         if neg then 0
         else min u32_max (if e \<ge> 0 then m * 2 ^ nat e else m div 2 ^ nat (- e)))"

lemma as_u32_bound: "as_u32 x \<le> u32_max"
  by (auto simp: as_u32_def split: float_value.split)

end
