(* ===== verification/Ast.thy ===== *)
theory Ast
  imports Color Rust_Float
begin

text \<open>
  \<open>parser/ast.rs\<close>: the document tree and the parsers of attribute values. A struct with a
  \<open>children\<close> field is a record of its other fields; the children are an argument of the
  element's constructor, after the record. Record fields are prefixed by their struct, and the
  unsigned fields are naturals: they hold only numbers parsed within their type.
\<close>

section \<open>Enumerations\<close>

datatype Dimension = Fixed nat | Fill | Fit

datatype BorderStyle = BorderNone | BorderSingle | BorderDouble | BorderRounded | BorderHeavy
  | BorderAscii

datatype Alignment = AlignLeft | AlignCenter | AlignRight

datatype VerticalAlignment = AlignTop | AlignMiddle | AlignBottom

datatype StickyPosition = StickyTop | StickyBottom

datatype HrStyle = HrSingle | HrDouble | HrHeavy | HrDash | HrDot | HrAscii

datatype ListStyle = ListBullet | ListNumber | ListDash | ListArrow | ListNone

datatype ButtonAction = Submit | Navigate | ToggleButton | SetButton

datatype ArtEncoding = EncUtf8 | EncCp437 | EncPetscii

datatype LoopBehavior = LoopNone | LoopInfinite | LoopCount nat | LoopBounce

datatype Easing = Linear | EaseIn | EaseOut | EaseInOut | EaseStep

datatype TextEffect = Typewriter | Reveal | Scramble | FadeIn | Glitch

datatype Direction = DirLeft | DirRight | DirUp | DirDown

datatype LiveScroll = ScrollTail | ScrollManual | ScrollNone | ScrollPrepend

datatype TransitionKind = Cut | Fade | SlideLeft | SlideRight | SlideUp | SlideDown | DrawDown
  | DrawRight | DrawLeft | DrawOut | Dissolve

datatype EventKind = FocusEvent | BlurEvent | StateChangeEvent | PageLoadEvent
  | ScrollIntoViewEvent | AnimationEndEvent | SelectEvent

datatype ActionKind = AnimateAction | SetAction | ToggleAction | StopAction

datatype PageMode = DocumentMode | ScreenMode "nat option" "nat option"

section \<open>Elements\<close>

record TriggerRef =
  ref_panel_id :: ustr
  ref_state_name :: ustr

record TriggerAttrs =
  trigger_focus :: "TriggerRef option"
  trigger_blur :: "TriggerRef option"
  trigger_hover :: "TriggerRef option"
  trigger_unhover :: "TriggerRef option"

definition no_triggers :: TriggerAttrs where
  "no_triggers = \<lparr>trigger_focus = None, trigger_blur = None, trigger_hover = None, trigger_unhover = None\<rparr>"

record BoxElement =
  box_x :: "nat option"
  box_y :: "nat option"
  box_w :: Dimension
  box_h :: Dimension
  box_border :: BorderStyle
  box_fg :: "Color option"
  box_bg :: "Color option"
  box_padding :: nat
  box_title :: "ustr option"
  box_join_top :: "nat option"
  box_join_bottom :: "nat option"
  box_join_left :: "nat option"
  box_join_right :: "nat option"
  box_align :: Alignment
  box_sticky :: "StickyPosition option"

record RowElement =
  row_gap :: nat
  row_align :: VerticalAlignment

record ColElement =
  col_w :: Dimension
  col_align :: Alignment

record HrElement =
  hr_style :: HrStyle
  hr_fg :: "Color option"

record SpacerElement =
  spacer_lines :: nat

record ContainerElement =
  container_sticky :: "StickyPosition option"

record NavElement =
  nav_sticky :: "StickyPosition option"

record TextElement =
  text_content :: ustr
  text_fg :: "Color option"
  text_bg :: "Color option"
  text_bold :: bool
  text_italic :: bool
  text_underline :: bool
  text_strikethrough :: bool
  text_dim :: bool
  text_blink :: bool
  text_align :: Alignment

record PreRun =
  run_text :: ustr
  run_fg :: "Color option"
  run_bg :: "Color option"
  run_bold :: bool
  run_italic :: bool
  run_underline :: bool
  run_strikethrough :: bool
  run_dim :: bool
  run_blink :: bool

record PreElement =
  pre_runs :: "PreRun list"
  pre_fg :: "Color option"
  pre_bg :: "Color option"
  pre_align :: Alignment

record HeadingElement =
  heading_level :: nat
  heading_fg :: "Color option"
  heading_content :: ustr

record ListElement =
  list_style :: ListStyle
  list_bullet_char :: "uchar option"

record LinkElement =
  link_id :: "ustr option"
  link_href :: ustr
  link_key :: "uchar option"
  link_prefetch :: bool
  link_transition :: "TransitionKind option"
  link_transition_duration_ms :: nat
  link_defer_animation :: "ustr option"
  link_triggers :: TriggerAttrs

record InputElement =
  input_id :: "ustr option"
  input_name :: ustr
  input_maxlen :: nat
  input_placeholder :: "ustr option"
  input_multiline :: bool
  input_rows :: nat
  input_password :: bool
  input_value :: "ustr option"
  input_triggers :: TriggerAttrs

record SelectElement =
  select_name :: ustr
  select_label :: "ustr option"

record OptionElement =
  option_value :: ustr
  option_selected :: bool
  option_label :: ustr

record ButtonElement =
  button_action :: ButtonAction
  button_target :: "ustr option"
  button_href :: "ustr option"
  button_key :: "uchar option"
  button_label :: ustr
  button_states :: "ustr list option"
  button_to :: "ustr option"
  button_transition :: "TransitionKind option"
  button_transition_duration_ms :: nat
  button_triggers :: TriggerAttrs

record FormElement =
  form_action :: ustr

record PanelElement =
  panel_id :: ustr
  panel_initial_state :: ustr

record StateElement =
  state_name :: ustr
  state_transition :: "ustr option"
  state_duration_ms :: nat
  state_x :: "nat option"
  state_y :: "nat option"
  state_w :: "Dimension option"
  state_h :: "Dimension option"

record DetailsElement =
  details_summary :: ustr
  details_open :: bool

record OnElement =
  on_event :: EventKind
  on_source :: "ustr option"
  on_action :: ActionKind
  on_target :: ustr
  on_to :: "ustr option"
  on_delay_ms :: nat

record ArtElement =
  art_width :: "nat option"
  art_height :: "nat option"
  art_encoding :: ArtEncoding
  art_src :: "ustr option"
  art_alt :: "ustr option"
  art_content :: ustr

record TableElement =
  table_border :: BorderStyle

record CellElement =
  cell_fg :: "Color option"
  cell_bg :: "Color option"
  cell_align :: Alignment

record AnimateElement =
  animate_id :: ustr
  animate_fps :: nat
  animate_loop_behavior :: LoopBehavior
  animate_autoplay :: bool
  animate_delay_ms :: nat
  animate_after :: "ustr option"
  animate_x :: "nat option"
  animate_y :: "nat option"
  animate_w :: "nat option"
  animate_h :: "nat option"
  animate_src :: "ustr option"
  animate_background :: bool

record ElementDefElement =
  element_def_id :: ustr
  element_def_x :: "nat option"
  element_def_y :: "nat option"
  element_def_fg :: "Color option"
  element_def_content :: ustr

record Keyframe =
  keyframe_t_percent :: float_value
  keyframe_x :: "nat option"
  keyframe_y :: "nat option"
  keyframe_fg :: "Color option"
  keyframe_bg :: "Color option"

record TweenElement =
  tween_target :: ustr
  tween_duration_ms :: nat
  tween_loop_behavior :: LoopBehavior
  tween_easing :: Easing
  tween_delay_ms :: nat
  tween_keyframes :: "Keyframe list"

record TextAnimateElement =
  text_animate_effect :: TextEffect
  text_animate_speed_ms :: nat
  text_animate_direction :: "Direction option"
  text_animate_content :: ustr

record IncludeElement =
  include_name :: ustr

record LiveElement =
  live_id :: ustr
  live_endpoint :: ustr
  live_height :: Dimension
  live_scroll :: LiveScroll
  live_buffer :: nat
  live_delta :: bool

datatype Element =
    BoxE BoxElement "Element list"
  | RowE RowElement "Element list"
  | ColE ColElement "Element list"
  | HrE HrElement
  | SpacerE SpacerElement
  | HeaderE ContainerElement "Element list"
  | BodyE ContainerElement "Element list"
  | FooterE ContainerElement "Element list"
  | NavE NavElement "Element list"
  | TextE TextElement "Element list"
  | PreE PreElement
  | HeadingE HeadingElement "Element list"
  | ListE ListElement "Element list"
  | ItemE "Element list"
  | LinkE LinkElement "Element list"
  | InputE InputElement
  | SelectE SelectElement "Element list"
  | OptionE OptionElement
  | ButtonE ButtonElement
  | FormE FormElement "Element list"
  | ArtE ArtElement
  | TableE TableElement "Element list"
  | TheadE ContainerElement "Element list"
  | TbodyE ContainerElement "Element list"
  | TrE "Element list"
  | ThE CellElement "Element list"
  | TdE CellElement "Element list"
  | AnimateE AnimateElement "Element list"
  | FrameE "Element list"
  | ElementDefE ElementDefElement
  | TweenE TweenElement
  | TextAnimateE TextAnimateElement
  | LiveE LiveElement "Element list"
  | PanelE PanelElement "Element list"
  | StateE StateElement "Element list"
  | DetailsE DetailsElement (summary_children: "Element list") "Element list"
  | PaginationE ContainerElement "Element list"
  | OnE OnElement
  | IncludeE IncludeElement

text \<open>The page's \<open>meta\<close> and \<open>style\<close> fields, which the parser leaves empty, are left out.\<close>

record Page =
  page_mode :: PageMode
  page_title :: "ustr option"
  page_transition :: "TransitionKind option"
  page_transition_duration_ms :: nat
  page_children :: "Element list"

definition children :: "Element \<Rightarrow> Element list" where
  "children e = (case e of
       BoxE _ es \<Rightarrow> es
     | RowE _ es \<Rightarrow> es
     | ColE _ es \<Rightarrow> es
     | HeaderE _ es \<Rightarrow> es
     | BodyE _ es \<Rightarrow> es
     | FooterE _ es \<Rightarrow> es
     | TheadE _ es \<Rightarrow> es
     | TbodyE _ es \<Rightarrow> es
     | PaginationE _ es \<Rightarrow> es
     | NavE _ es \<Rightarrow> es
     | TextE _ es \<Rightarrow> es
     | HeadingE _ es \<Rightarrow> es
     | ListE _ es \<Rightarrow> es
     | ItemE es \<Rightarrow> es
     | LinkE _ es \<Rightarrow> es
     | SelectE _ es \<Rightarrow> es
     | FormE _ es \<Rightarrow> es
     | TableE _ es \<Rightarrow> es
     | TrE es \<Rightarrow> es
     | ThE _ es \<Rightarrow> es
     | TdE _ es \<Rightarrow> es
     | AnimateE _ es \<Rightarrow> es
     | FrameE es \<Rightarrow> es
     | LiveE _ es \<Rightarrow> es
     | PanelE _ es \<Rightarrow> es
     | StateE _ es \<Rightarrow> es
     | DetailsE _ _ es \<Rightarrow> es
     | _ \<Rightarrow> [])"

section \<open>Values\<close>

definition MAX_LAYOUT_COLUMNS :: nat where "MAX_LAYOUT_COLUMNS = 512"
definition MAX_LAYOUT_ROWS :: nat where "MAX_LAYOUT_ROWS = 4096"
definition MAX_ELEMENT_DIMENSION :: nat where "MAX_ELEMENT_DIMENSION = 2048"

lemmas layout_limits = MAX_LAYOUT_COLUMNS_def MAX_LAYOUT_ROWS_def MAX_ELEMENT_DIMENSION_def

definition u16_max :: nat where "u16_max = 65535"

definition parse_value_error :: "runtime \<Rightarrow> ustr list \<Rightarrow> ustr" where
  "parse_value_error rt parts =
     (if len (concat parts) \<le> usize_max \<and> try_reserve rt (len (concat parts)) then concat parts else [])"

definition parse_ascii_lower_value_error :: "runtime \<Rightarrow> ustr \<Rightarrow> ustr \<Rightarrow> ustr" where
  "parse_ascii_lower_value_error rt prefix s =
     (if len prefix + len s \<le> usize_max \<and> try_reserve rt (len prefix + len s)
      then prefix @ map to_ascii_lowercase s else [])"

text \<open>A chain of comparisons with keywords, in the order of the rows.\<close>

fun keyword :: "(string \<times> 'a) list \<Rightarrow> ustr \<Rightarrow> 'a option" where
  "keyword [] s = None"
| "keyword ((k, v) # rows) s = (if eq_ignore_ascii_case s (lit k) then Some v else keyword rows s)"

definition parse_keyword :: "runtime \<Rightarrow> string \<Rightarrow> (string \<times> 'a) list \<Rightarrow> ustr \<Rightarrow> (ustr, 'a) result" where
  "parse_keyword rt what rows s =
     (case keyword rows s of
        Some v \<Rightarrow> Inr v
      | None \<Rightarrow> Inl (parse_value_error rt [lit what, s]))"

definition parse_dimension :: "runtime \<Rightarrow> ustr \<Rightarrow> (ustr, Dimension) result" where
  "parse_dimension rt s =
     (if eq_ignore_ascii_case s (lit ''fill'') then Inr Fill
      else if eq_ignore_ascii_case s (lit ''fit'') then Inr Fit
      else and_then (ok_or (parse_value_error rt [lit ''invalid dimension: '', s]) (parse_uint u16_max s)) (\<lambda>n.
        if n > MAX_ELEMENT_DIMENSION
        then Inl (parse_value_error rt [lit ''dimension exceeds maximum of 2048: '', s])
        else Inr (Fixed n)))"

definition parse_border_style :: "runtime \<Rightarrow> ustr \<Rightarrow> (ustr, BorderStyle) result" where
  "parse_border_style rt = parse_keyword rt ''unknown border style: ''
     [(''none'', BorderNone), (''single'', BorderSingle), (''double'', BorderDouble)
      , (''rounded'', BorderRounded), (''heavy'', BorderHeavy), (''ascii'', BorderAscii)]"

definition parse_alignment :: "runtime \<Rightarrow> ustr \<Rightarrow> (ustr, Alignment) result" where
  "parse_alignment rt = parse_keyword rt ''unknown alignment: ''
     [(''left'', AlignLeft), (''center'', AlignCenter), (''right'', AlignRight)]"

definition parse_vertical_alignment :: "runtime \<Rightarrow> ustr \<Rightarrow> (ustr, VerticalAlignment) result" where
  "parse_vertical_alignment rt = parse_keyword rt ''unknown vertical alignment: ''
     [(''top'', AlignTop), (''middle'', AlignMiddle), (''bottom'', AlignBottom)]"

definition parse_sticky :: "runtime \<Rightarrow> ustr \<Rightarrow> (ustr, StickyPosition) result" where
  "parse_sticky rt = parse_keyword rt ''unknown sticky position: ''
     [(''top'', StickyTop), (''bottom'', StickyBottom)]"

definition parse_hr_style :: "runtime \<Rightarrow> ustr \<Rightarrow> (ustr, HrStyle) result" where
  "parse_hr_style rt = parse_keyword rt ''unknown hr style: ''
     [(''single'', HrSingle), (''double'', HrDouble), (''heavy'', HrHeavy), (''dash'', HrDash)
      , (''dot'', HrDot), (''ascii'', HrAscii)]"

definition parse_list_style :: "runtime \<Rightarrow> ustr \<Rightarrow> (ustr, ListStyle) result" where
  "parse_list_style rt = parse_keyword rt ''unknown list style: ''
     [(''bullet'', ListBullet), (''number'', ListNumber), (''dash'', ListDash)
      , (''arrow'', ListArrow), (''none'', ListNone)]"

definition parse_button_action :: "runtime \<Rightarrow> ustr \<Rightarrow> (ustr, ButtonAction) result" where
  "parse_button_action rt = parse_keyword rt ''unknown button action: ''
     [(''submit'', Submit), (''navigate'', Navigate), (''toggle'', ToggleButton)
      , (''set'', SetButton)]"

definition parse_art_encoding :: "runtime \<Rightarrow> ustr \<Rightarrow> (ustr, ArtEncoding) result" where
  "parse_art_encoding rt = parse_keyword rt ''unknown encoding: ''
     [(''utf8'', EncUtf8), (''utf-8'', EncUtf8), (''cp437'', EncCp437)
      , (''petscii'', EncPetscii)]"

definition parse_loop :: "runtime \<Rightarrow> ustr \<Rightarrow> (ustr, LoopBehavior) result" where
  "parse_loop rt s =
     (case keyword [(''false'', LoopNone), (''no'', LoopNone), (''none'', LoopNone),
        (''true'', LoopInfinite), (''yes'', LoopInfinite), (''bounce'', LoopBounce)] s of
        Some v \<Rightarrow> Inr v
      | None \<Rightarrow>
          and_then (ok_or (parse_value_error rt [lit ''invalid loop value: '', s]) (parse_uint u32_max s)) (\<lambda>n.
          Inr (LoopCount n)))"

definition parse_easing :: "runtime \<Rightarrow> ustr \<Rightarrow> (ustr, Easing) result" where
  "parse_easing rt = parse_keyword rt ''unknown easing: ''
     [(''linear'', Linear), (''ease-in'', EaseIn), (''easein'', EaseIn), (''ease-out'', EaseOut)
      , (''easeout'', EaseOut), (''ease-in-out'', EaseInOut), (''easeinout'', EaseInOut)
      , (''step'', EaseStep)]"

definition parse_text_effect :: "runtime \<Rightarrow> ustr \<Rightarrow> (ustr, TextEffect) result" where
  "parse_text_effect rt = parse_keyword rt ''unknown text effect: ''
     [(''typewriter'', Typewriter), (''reveal'', Reveal), (''scramble'', Scramble)
      , (''fade-in'', FadeIn), (''fadein'', FadeIn), (''glitch'', Glitch)]"

definition parse_live_scroll :: "runtime \<Rightarrow> ustr \<Rightarrow> (ustr, LiveScroll) result" where
  "parse_live_scroll rt = parse_keyword rt ''unknown scroll mode: ''
     [(''tail'', ScrollTail), (''manual'', ScrollManual), (''none'', ScrollNone)
      , (''prepend'', ScrollPrepend)]"

text \<open>
  The suffixes are compared as bytes: a byte equal to \<open>m\<close> or \<open>s\<close> is that character, so the
  comparison is of the last two characters.
\<close>

definition parse_duration_ms :: "runtime \<Rightarrow> ustr \<Rightarrow> (ustr, nat) result" where
  "parse_duration_ms rt s0 =
     (let s = trim s0;
          err = parse_ascii_lower_value_error rt (lit ''invalid duration: '') s
      in if length s \<ge> 2 \<and> eq_ignore_ascii_case (drop (length s - 2) s) (lit ''ms'')
         then ok_or err (parse_uint u32_max (trim (take (length s - 2) s)))
         else if s \<noteq> [] \<and> eq_ignore_ascii_case [last s] (lit ''s'')
         then and_then (ok_or err (parse_float f64 (trim (butlast s)))) (\<lambda>secs.
              Inr (as_u32 (mul_nat f64 secs 1000)))
         else ok_or err (parse_uint u32_max s))"

definition parse_direction :: "runtime \<Rightarrow> ustr \<Rightarrow> (ustr, Direction) result" where
  "parse_direction rt = parse_keyword rt ''unknown direction: ''
     [(''left'', DirLeft), (''right'', DirRight), (''up'', DirUp), (''down'', DirDown)]"

definition parse_transition_kind :: "ustr \<Rightarrow> TransitionKind option" where
  "parse_transition_kind = keyword
     [(''cut'', Cut), (''fade'', Fade),
      (''slide-left'', SlideLeft), (''slideleft'', SlideLeft),
      (''slide-right'', SlideRight), (''slideright'', SlideRight),
      (''slide-up'', SlideUp), (''slideup'', SlideUp),
      (''slide-down'', SlideDown), (''slidedown'', SlideDown),
      (''draw-down'', DrawDown), (''drawdown'', DrawDown),
      (''draw-left'', DrawLeft), (''drawleft'', DrawLeft),
      (''draw-right'', DrawRight), (''drawright'', DrawRight),
      (''draw-out'', DrawOut), (''drawout'', DrawOut),
      (''dissolve'', Dissolve)]"

definition parse_event_kind :: "runtime \<Rightarrow> ustr \<Rightarrow> (ustr, EventKind) result" where
  "parse_event_kind rt = parse_keyword rt ''unknown event kind: ''
     [(''focus'', FocusEvent), (''blur'', BlurEvent), (''state-change'', StateChangeEvent)
      , (''statechange'', StateChangeEvent), (''page-load'', PageLoadEvent)
      , (''pageload'', PageLoadEvent), (''scroll-into-view'', ScrollIntoViewEvent)
      , (''scrollintoview'', ScrollIntoViewEvent), (''animation-end'', AnimationEndEvent)
      , (''animationend'', AnimationEndEvent), (''select'', SelectEvent)]"

definition parse_action_kind :: "runtime \<Rightarrow> ustr \<Rightarrow> (ustr, ActionKind) result" where
  "parse_action_kind rt = parse_keyword rt ''unknown action kind: ''
     [(''animate'', AnimateAction), (''set'', SetAction), (''toggle'', ToggleAction)
      , (''stop'', StopAction)]"

section \<open>Laws\<close>

lemma parse_dimension_bounded:
  "parse_dimension rt s = Inr (Fixed n) \<Longrightarrow> n \<le> MAX_ELEMENT_DIMENSION"
  by (auto simp: parse_dimension_def result_simps split: if_splits)

lemma parse_uint_bounded: "parse_uint m s = Some n \<Longrightarrow> n \<le> m"
  by (auto simp: parse_uint_def Let_def split: if_splits)

text \<open>
  Seconds are multiplied as a binary float and truncated: \<open>1.001s\<close> is one millisecond short,
  and a spelling of infinity is the longest duration there is.
\<close>

lemmas duration_eval = parse_duration_ms_def trim_def is_whitespace_def parse_float_def split_sign_def
  parse_decimal_def digits_of_def after_digits_def parse_exponent_def eq_ignore_ascii_case_def
  to_ascii_lowercase_def lit_def is_ascii_digit_def is_ascii_uppercase_def digits_value_def
  round_float_def bit_length.simps f64_def scaled_def half_even_def mul_nat_def as_u32_def
  u32_max_def Let_def parse_uint_def

lemma duration_truncated: "parse_duration_ms rt (lit ''1.001s'') = Inr 1000"
  by (simp add: duration_eval)

lemma duration_seconds: "parse_duration_ms rt (lit ''1.5s'') = Inr 1500"
  by (simp add: duration_eval)

lemma duration_infinite: "parse_duration_ms rt (lit ''infs'') = Inr u32_max"
  by (simp add: duration_eval)

end
