(* ===== verification/Report.thy ===== *)
theory Report
  imports Scanner "HOL-Library.State_Monad"
begin

text \<open>
  The diagnostics of the AML front end (\<open>parser/mod.rs\<close>, lines 32 to 246) and its fallible
  allocation. Components, parser and validator all write to a vector of diagnostics and a flag
  that says whether an allocation was refused; that pair is the record \<open>Report\<close>, which the
  parser extends by its own fields. Code that writes to it is a computation of the state monad.
\<close>

section \<open>Diagnostics\<close>

datatype DiagnosticLevel = ErrorLevel | WarningLevel

record Diagnostic =
  diag_level :: DiagnosticLevel
  diag_code :: string
  diag_message :: ustr

record Report =
  diagnostics :: "Diagnostic list"
  allocation_failed :: bool

definition empty_report :: Report where
  "empty_report = \<lparr>diagnostics = [], allocation_failed = False\<rparr>"

definition has_errors :: "Diagnostic list \<Rightarrow> bool" where
  "has_errors ds \<longleftrightarrow> list_ex (\<lambda>d. diag_level d = ErrorLevel) ds"

type_synonym ('z, 'a) reporting = "('z Report_scheme, 'a) state"
type_synonym 'a reporter = "(Report, 'a) state"

text \<open>A loop over a list whose body threads an accumulator.\<close>

fun foreach :: "('a \<Rightarrow> 'x \<Rightarrow> ('s, 'a) state) \<Rightarrow> 'a \<Rightarrow> 'x list \<Rightarrow> ('s, 'a) state" where
  "foreach f a [] = State_Monad.return a"
| "foreach f a (x # xs) = do { a' \<leftarrow> f a x; foreach f a' xs }"

section \<open>Fallible allocation\<close>

definition mark_allocation_failure :: "unit \<Rightarrow> ('z, unit) reporting" where
  "mark_allocation_failure u = State_Monad.update (\<lambda>st. st\<lparr>allocation_failed := True\<rparr>)"

definition try_copy_string :: "runtime \<Rightarrow> ustr \<Rightarrow> ('z, ustr) reporting" where
  "try_copy_string rt s =
     (if try_reserve rt (len s) then State_Monad.return s
      else do { mark_allocation_failure (); State_Monad.return [] })"

definition try_push :: "runtime \<Rightarrow> 'a list \<Rightarrow> 'a \<Rightarrow> ('z, 'a list) reporting" where
  "try_push rt xs x =
     (if grows rt (length xs) then State_Monad.return (xs @ [x])
      else do { mark_allocation_failure (); State_Monad.return xs })"

text \<open>\<open>try_reserve\<close> of room for further elements, which asks for nothing when there are none.\<close>

definition reserves :: "runtime \<Rightarrow> string \<Rightarrow> nat \<Rightarrow> nat \<Rightarrow> bool" where
  "reserves rt ty n k \<longleftrightarrow> k = 0 \<or> try_reserve rt ((n + k) * size_of rt ty)"

definition try_clone_attribute :: "runtime \<Rightarrow> Attribute \<Rightarrow> ('z, Attribute) reporting" where
  "try_clone_attribute rt a = do {
     name \<leftarrow> try_copy_string rt (attr_name a);
     val \<leftarrow> (case attr_value a of
         AString s \<Rightarrow> do { s \<leftarrow> try_copy_string rt s; State_Monad.return (AString s) }
       | AIdent s \<Rightarrow> do { s \<leftarrow> try_copy_string rt s; State_Monad.return (AIdent s) }
       | AFlag \<Rightarrow> State_Monad.return AFlag);
     State_Monad.return \<lparr>attr_name = name, attr_value = val\<rparr>
   }"

definition try_clone_token :: "runtime \<Rightarrow> Token \<Rightarrow> ('z, Token) reporting" where
  "try_clone_token rt t = (case t of
       OpenTag name attributes self_closing \<Rightarrow> do {
         cloned \<leftarrow> (if try_reserve rt (length attributes * size_of rt ''Attribute'')
                    then State_Monad.traverse_list (try_clone_attribute rt) attributes
                    else do { mark_allocation_failure (); State_Monad.return [] });
         name \<leftarrow> try_copy_string rt name;
         State_Monad.return (OpenTag name cloned self_closing)
       }
     | CloseTag name \<Rightarrow> do { name \<leftarrow> try_copy_string rt name; State_Monad.return (CloseTag name) }
     | TextToken s \<Rightarrow> do { s \<leftarrow> try_copy_string rt s; State_Monad.return (TextToken s) }
     | Eof \<Rightarrow> State_Monad.return Eof)"

text \<open>
  \<open>FallibleString\<close>: the pieces of a format string are appended one after the other, each after
  a reservation.
\<close>

fun write_pieces :: "runtime \<Rightarrow> ustr \<Rightarrow> ustr list \<Rightarrow> ustr option" where
  "write_pieces rt acc [] = Some acc"
| "write_pieces rt acc (p # ps) =
     (if try_reserve rt (len acc + len p) then write_pieces rt (acc @ p) ps else None)"

definition try_diagnostic ::
  "runtime \<Rightarrow> DiagnosticLevel \<Rightarrow> string \<Rightarrow> ustr list \<Rightarrow> ('z, unit) reporting" where
  "try_diagnostic rt level code args =
     (case write_pieces rt [] args of
        None \<Rightarrow> mark_allocation_failure ()
      | Some message \<Rightarrow> do {
          st \<leftarrow> State_Monad.get;
          ds \<leftarrow> try_push rt (diagnostics st) \<lparr>diag_level = level, diag_code = code, diag_message = message\<rparr>;
          State_Monad.update (\<lambda>st. st\<lparr>diagnostics := ds\<rparr>)
        })"

definition error_fmt :: "runtime \<Rightarrow> string \<Rightarrow> ustr list \<Rightarrow> ('z, unit) reporting" where
  "error_fmt rt = try_diagnostic rt ErrorLevel"

definition warning_fmt :: "runtime \<Rightarrow> string \<Rightarrow> ustr list \<Rightarrow> ('z, unit) reporting" where
  "warning_fmt rt = try_diagnostic rt WarningLevel"

definition error_msg :: "runtime \<Rightarrow> string \<Rightarrow> string \<Rightarrow> ('z, unit) reporting" where
  "error_msg rt code message = error_fmt rt code [lit message]"

definition warning_msg :: "runtime \<Rightarrow> string \<Rightarrow> string \<Rightarrow> ('z, unit) reporting" where
  "warning_msg rt code message = warning_fmt rt code [lit message]"

definition report_if :: "bool \<Rightarrow> runtime \<Rightarrow> string \<Rightarrow> ustr list \<Rightarrow> ('z, unit) reporting" where
  "report_if b rt code args = (if b then error_fmt rt code args else State_Monad.return ())"

section \<open>Attribute values\<close>

definition attr_str_value :: "AttributeValue \<Rightarrow> ustr" where
  "attr_str_value v = (case v of AString s \<Rightarrow> s | AIdent s \<Rightarrow> s | AFlag \<Rightarrow> [])"

abbreviation attr_val :: "Attribute \<Rightarrow> ustr" where
  "attr_val a \<equiv> attr_str_value (attr_value a)"

section \<open>Runs without errors\<close>

text \<open>
  A run is clean when no allocation was refused and no error reported. As no code takes back a
  diagnostic or the flag (\<open>faults_stay\<close>), whatever a clean run went through was clean too, and
  \<open>yields m P\<close> says what a clean run of \<open>m\<close> gives.
\<close>

definition clean_report :: "'z Report_scheme \<Rightarrow> bool" where
  "clean_report r \<longleftrightarrow> \<not> allocation_failed r \<and> \<not> has_errors (diagnostics r)"

definition yields :: "('z, 'a) reporting \<Rightarrow> ('a \<Rightarrow> bool) \<Rightarrow> bool" where
  "yields m P \<longleftrightarrow> (\<forall>p x q. run_state m p = (x, q) \<longrightarrow> clean_report q \<longrightarrow> P x)"

abbreviation faults_stay :: "('z, 'a) reporting \<Rightarrow> bool" where
  "faults_stay m \<equiv> state_io_rel (\<lambda>p q. clean_report q \<longrightarrow> clean_report p) m"

named_theorems yield_intros \<open>what runs without errors give\<close>
named_theorems fault_intros \<open>closure of fault-keeping code under the monad\<close>

lemma run_bindE:
  assumes "run_state (State_Monad.bind m f) p = (y, q)"
  obtains x r where "run_state m p = (x, r)" "run_state (f x) r = (y, q)"
  using assms by (auto split: prod.splits)

lemma state_io_rel_bind:
  assumes "\<And>p q r. R p q \<Longrightarrow> R q r \<Longrightarrow> R p r" "state_io_rel R m" "\<And>x. state_io_rel R (f x)"
  shows "state_io_rel R (State_Monad.bind m f)"
  using assms by (simp add: state_io_rel_def split: prod.split) (metis snd_conv)

lemma faults_bind [fault_intros]: "faults_stay m \<Longrightarrow> (\<And>x. faults_stay (f x)) \<Longrightarrow> faults_stay (State_Monad.bind m f)"
  by (rule state_io_rel_bind) auto

lemma faults_return [fault_intros]: "faults_stay (State_Monad.return x)"
  by (simp add: state_io_rel_def)

lemma faults_if [fault_intros]: "(b \<Longrightarrow> faults_stay m) \<Longrightarrow> (\<not> b \<Longrightarrow> faults_stay n) \<Longrightarrow> faults_stay (if b then m else n)"
  by simp

lemma faults_mark [fault_intros]: "faults_stay (mark_allocation_failure u)"
  by (simp add: state_io_rel_def mark_allocation_failure_def State_Monad.update_def clean_report_def)

lemma faults_copy_string [fault_intros]: "faults_stay (try_copy_string rt s)"
  unfolding try_copy_string_def by (intro fault_intros)

lemma faults_push [fault_intros]: "faults_stay (try_push rt xs x)"
  unfolding try_push_def by (intro fault_intros)

lemma faults_diagnostic [fault_intros]: "faults_stay (try_diagnostic rt level code args)"
  by (auto simp: try_diagnostic_def state_io_rel_def clean_report_def has_errors_def mark_allocation_failure_def
      State_Monad.update_def try_push_def split: option.split)

lemma faults_error_fmt [fault_intros]: "faults_stay (error_fmt rt code args)"
  by (simp add: error_fmt_def faults_diagnostic)

lemma faults_warning_fmt [fault_intros]: "faults_stay (warning_fmt rt code args)"
  by (simp add: warning_fmt_def faults_diagnostic)

lemma faults_report_if [fault_intros]: "faults_stay (report_if b rt code args)"
  by (simp add: report_if_def faults_error_fmt faults_return)

lemma faults_foreach [fault_intros]: "(\<And>a x. faults_stay (f a x)) \<Longrightarrow> faults_stay (foreach f a xs)"
  by (induction xs arbitrary: a) (auto intro: faults_bind faults_return)

lemma yields_return [yield_intros]: "P x \<Longrightarrow> yields (State_Monad.return x) P"
  by (simp add: yields_def)

lemma yields_then:
  assumes "yields m A" "\<And>x. A x \<Longrightarrow> yields (f x) P" "\<And>x. faults_stay (f x)"
  shows "yields (State_Monad.bind m f) P"
  unfolding yields_def
proof (intro allI impI)
  fix p y q
  assume "run_state (State_Monad.bind m f) p = (y, q)" and q: "clean_report q"
  then obtain x r where 1: "run_state m p = (x, r)" and 2: "run_state (f x) r = (y, q)"
    by (metis run_bindE)
  have "clean_report r"
    using 2 q assms(3) [of x] unfolding state_io_rel_def by (metis snd_conv)
  with 1 assms(1) have "A x"
    by (auto simp: yields_def)
  with 2 q assms(2) show "P y"
    by (auto simp: yields_def)
qed

lemma yields_last: "(\<And>x. yields (f x) P) \<Longrightarrow> yields (State_Monad.bind m f) P"
  unfolding yields_def by (metis run_bindE)

lemma yields_mono: "yields m A \<Longrightarrow> (\<And>x. A x \<Longrightarrow> P x) \<Longrightarrow> yields m P"
  by (auto simp: yields_def)

lemma yields_if [yield_intros]: "(b \<Longrightarrow> yields m P) \<Longrightarrow> (\<not> b \<Longrightarrow> yields n P) \<Longrightarrow> yields (if b then m else n) P"
  by simp

lemma yields_error: "yields (error_fmt rt code args) (\<lambda>_. False)"
  by (auto simp: yields_def error_fmt_def try_diagnostic_def try_push_def mark_allocation_failure_def
      State_Monad.update_def clean_report_def has_errors_def split: option.splits if_splits)

lemma yields_error_msg: "yields (error_msg rt code s) (\<lambda>_. False)"
  by (simp add: error_msg_def yields_error)

lemma yields_report_if: "yields (report_if b rt code args) (\<lambda>_. \<not> b)"
  using yields_error [of rt code args] by (auto simp: report_if_def yields_def)

lemma yields_mark: "yields (mark_allocation_failure u) (\<lambda>_. False)"
  by (simp add: yields_def mark_allocation_failure_def State_Monad.update_def clean_report_def)

lemma yields_copy: "yields (try_copy_string rt s) (\<lambda>t. t = s)"
  by (auto simp: yields_def try_copy_string_def mark_allocation_failure_def State_Monad.update_def clean_report_def)

lemma yields_push: "yields (try_push rt xs x) (\<lambda>ys. ys = xs @ [x])"
  by (auto simp: yields_def try_push_def mark_allocation_failure_def State_Monad.update_def clean_report_def)

lemma yields_fail: "yields m (\<lambda>_. False) \<Longrightarrow> (\<And>x. faults_stay (f x)) \<Longrightarrow> yields (State_Monad.bind m f) P"
  by (rule yields_then [of m "\<lambda>_. False"]) auto

lemma yields_never: "yields m (\<lambda>_. False) \<Longrightarrow> yields m P"
  by (auto simp: yields_def)

lemma yields_const: "P \<Longrightarrow> yields m (\<lambda>_. P)"
  by (simp add: yields_def)

lemma yields_both: "yields m P \<Longrightarrow> yields m Q \<Longrightarrow> yields m (\<lambda>x. P x \<and> Q x)"
  by (auto simp: yields_def)

text \<open>A loop whose steps, when nothing fails, are those of a pure fold.\<close>

lemma yields_fold:
  assumes "\<And>a x. yields (f a x) (\<lambda>b. b = g a x)" "\<And>a x. faults_stay (f a x)"
  shows "yields (foreach f a xs) (\<lambda>b. b = foldl g a xs)"
proof (induction xs arbitrary: a)
  case (Cons x xs)
  then show ?case
    by (auto intro!: yields_then [OF assms(1)] faults_foreach assms(2))
qed (simp add: yields_return)

lemma yields_all:
  assumes "\<And>x. yields (f () x) (\<lambda>_. P x)" "\<And>a x. faults_stay (f a x)"
  shows "yields (foreach f () xs) (\<lambda>_. list_all P xs)"
proof (induction xs)
  case (Cons x xs)
  then show ?case
    by (auto intro!: yields_then [OF assms(1)] faults_foreach assms(2))
qed (simp add: yields_return)

lemma yields_invariant:
  assumes "\<And>a x. x \<in> set xs \<Longrightarrow> I a \<Longrightarrow> yields (f a x) I" "\<And>a x. faults_stay (f a x)" "I a"
  shows "yields (foreach f a xs) I"
  using assms(1,3)
proof (induction xs arbitrary: a)
  case (Cons x xs)
  show ?case
    by (auto intro!: yields_then [of _ I] faults_foreach assms(2) Cons)
qed (simp add: yields_return)

lemma faults_traverse [fault_intros]: "(\<And>x. faults_stay (f x)) \<Longrightarrow> faults_stay (State_Monad.traverse_list f xs)"
  by (induction xs) (auto intro: faults_bind faults_return)

lemma yields_traverse:
  assumes "\<And>x. yields (f x) (\<lambda>y. y = x)" "\<And>x. faults_stay (f x)"
  shows "yields (State_Monad.traverse_list f xs) (\<lambda>ys. ys = xs)"
proof (induction xs)
  case (Cons x xs)
  then show ?case
    by (auto intro!: yields_then [OF assms(1)] yields_then [OF Cons] yields_return fault_intros assms(2))
qed (simp add: yields_return)

lemma faults_clone_attribute [fault_intros]: "faults_stay (try_clone_attribute rt a)"
  by (auto simp: try_clone_attribute_def intro!: fault_intros split: AttributeValue.split)

lemma faults_clone_token [fault_intros]: "faults_stay (try_clone_token rt t)"
  by (auto simp: try_clone_token_def intro!: fault_intros split: Token.split)

lemma yields_clone_attribute: "yields (try_clone_attribute rt a) (\<lambda>b. b = a)"
  by (cases "attr_value a") (auto simp: try_clone_attribute_def
      intro!: yields_then [OF yields_copy] yields_return fault_intros)

lemma yields_clone_token: "yields (try_clone_token rt t) (\<lambda>u. u = t)"
proof -
  have attrs: "yields (if b then State_Monad.traverse_list (try_clone_attribute rt) as
      else do { mark_allocation_failure (); State_Monad.return [] }) (\<lambda>bs. bs = as)" for b as
    by (auto intro!: yields_traverse yields_clone_attribute yields_fail [OF yields_mark] fault_intros)
  show ?thesis
    unfolding try_clone_token_def
    by (cases t) (auto simp del: State_Monad.bind_assoc
        intro!: yields_then [OF attrs] yields_then [OF yields_copy] yields_return fault_intros split del: if_split)
qed

end
