(* ===== verification/Parser.thy ===== *)
theory Parser
  imports Ast Report
begin

text \<open>
  \<open>parser/mod.rs\<close>: the parser of AML documents. Its state is the report of diagnostics extended
  by the tokens, the position, the number of elements and the nesting depth; a method is a
  computation of the state monad over it. The methods that call \<open>parse_children\<close> take it as the
  argument \<open>kids\<close>; the recursion is closed at the end by \<open>children_at\<close>, which needs no more
  levels than the nesting limit allows.
\<close>

section \<open>The parser's state\<close>

definition MAX_DEPTH :: nat where "MAX_DEPTH = 32"
definition MAX_ELEMENTS :: nat where "MAX_ELEMENTS = 10000"

record Parser = Report +
  p_tokens :: "Token list"
  p_pos :: nat
  element_count :: nat
  p_depth :: nat

type_synonym 'a parser = "(Parser, 'a) state"
type_synonym kids = "ustr \<Rightarrow> Element list parser"

definition Parser_new :: "Token list \<Rightarrow> Parser" where
  "Parser_new tokens =
     \<lparr>diagnostics = [], allocation_failed = False, p_tokens = tokens, p_pos = 0, element_count = 0, p_depth = 0\<rparr>"

definition current :: "Parser \<Rightarrow> Token" where
  "current p = (if p_pos p < length (p_tokens p) then p_tokens p ! p_pos p else Eof)"

definition left :: "Parser \<Rightarrow> nat" where
  "left p = length (p_tokens p) - p_pos p"

definition advance :: "unit parser" where
  "advance = State_Monad.update (\<lambda>p.
     if p_pos p < length (p_tokens p) then p\<lparr>p_pos := p_pos p + 1\<rparr> else p)"

definition current_owned :: "runtime \<Rightarrow> Token parser" where
  "current_owned rt = do { p \<leftarrow> State_Monad.get; try_clone_token rt (current p) }"

definition check_element_limit :: "runtime \<Rightarrow> bool parser" where
  "check_element_limit rt = do {
     State_Monad.update (\<lambda>p. p\<lparr>element_count := element_count p + 1\<rparr>);
     p \<leftarrow> State_Monad.get;
     if element_count p > MAX_ELEMENTS then do {
       error_fmt rt ''E010'' [lit ''maximum element count exceeded ('', show_nat MAX_ELEMENTS, lit '')''];
       State_Monad.return False
     } else State_Monad.return True
   }"

definition check_depth_limit :: "runtime \<Rightarrow> bool parser" where
  "check_depth_limit rt = do {
     p \<leftarrow> State_Monad.get;
     if p_depth p > MAX_DEPTH then do {
       error_fmt rt ''E009'' [lit ''maximum nesting depth exceeded ('', show_nat MAX_DEPTH, lit '')''];
       State_Monad.return False
     } else State_Monad.return True
   }"

definition change_depth :: "(nat \<Rightarrow> nat) \<Rightarrow> unit parser" where
  "change_depth f = State_Monad.update (\<lambda>p. p\<lparr>p_depth := f (p_depth p)\<rparr>)"

section \<open>Attributes\<close>

definition parse_u16_attr :: "AttributeValue \<Rightarrow> nat option" where
  "parse_u16_attr v =
     (case parse_uint u16_max (attr_str_value v) of
        Some n \<Rightarrow> if n \<le> MAX_ELEMENT_DIMENSION then Some n else None
      | None \<Rightarrow> None)"

definition parse_color_attr :: "runtime \<Rightarrow> AttributeValue \<Rightarrow> ustr \<Rightarrow> Color option parser" where
  "parse_color_attr rt v element_name =
     (case parse_color (attr_str_value v) of
        Inr c \<Rightarrow> State_Monad.return (Some c)
      | Inl e \<Rightarrow> do {
          warning_fmt rt ''E011'' ([lit ''invalid color \"'', attr_str_value v, lit ''\" on ['', element_name, lit '']: '']
            @ show_ColorParseError e);
          State_Monad.return None
        })"

definition transition_attr :: "runtime \<Rightarrow> string \<Rightarrow> ustr \<Rightarrow> TransitionKind option parser" where
  "transition_attr rt element s =
     (let kind = parse_transition_kind s
      in if kind = None \<and> trim s \<noteq> [] then do {
           warning_fmt rt ''W008'' [lit ''unknown transition \"'', s, lit ''\" on ['', lit element,
             lit '']; this build will cut instead of animating''];
           State_Monad.return kind
         } else State_Monad.return kind)"

definition unknown_attribute :: "runtime \<Rightarrow> string \<Rightarrow> Attribute \<Rightarrow> unit parser" where
  "unknown_attribute rt element a =
     warning_fmt rt ''W002'' [lit ''unknown attribute \"'', attr_name a, lit (''\" on ['' @ element @ '']'')]"

definition parse_trigger_ref :: "runtime \<Rightarrow> ustr \<Rightarrow> TriggerRef option parser" where
  "parse_trigger_ref rt s =
     (case split_once (lit '':'') s of
        None \<Rightarrow> State_Monad.return None
      | Some (panel, st) \<Rightarrow>
          if trim panel = [] \<or> trim st = [] then State_Monad.return None
          else do {
            panel \<leftarrow> try_copy_string rt (trim panel);
            st \<leftarrow> try_copy_string rt (trim st);
            State_Monad.return (Some \<lparr>ref_panel_id = panel, ref_state_name = st\<rparr>)
          })"

definition trigger_attr :: "runtime \<Rightarrow> TriggerAttrs \<Rightarrow> Attribute \<Rightarrow> TriggerAttrs parser" where
  "trigger_attr rt t a =
     (let invalid = (\<lambda>what. do { warning_msg rt ''E011'' (''invalid '' @ what @ '' value''); State_Monad.return t })
      in if attr_name a = lit ''trigger-focus'' then do {
           r \<leftarrow> parse_trigger_ref rt (attr_val a);
           if r \<noteq> None then State_Monad.return (t\<lparr>trigger_focus := r\<rparr>) else invalid ''trigger-focus''
         } else if attr_name a = lit ''trigger-blur'' then do {
           r \<leftarrow> parse_trigger_ref rt (attr_val a);
           if r \<noteq> None then State_Monad.return (t\<lparr>trigger_blur := r\<rparr>) else invalid ''trigger-blur''
         } else if attr_name a = lit ''trigger-hover'' then do {
           r \<leftarrow> parse_trigger_ref rt (attr_val a);
           if r \<noteq> None then State_Monad.return (t\<lparr>trigger_hover := r\<rparr>) else invalid ''trigger-hover''
         } else if attr_name a = lit ''trigger-unhover'' then do {
           r \<leftarrow> parse_trigger_ref rt (attr_val a);
           if r \<noteq> None then State_Monad.return (t\<lparr>trigger_unhover := r\<rparr>) else invalid ''trigger-unhover''
         } else State_Monad.return t)"

definition parse_triggers :: "runtime \<Rightarrow> Attribute list \<Rightarrow> TriggerAttrs parser" where
  "parse_triggers rt attrs = foreach (trigger_attr rt) no_triggers attrs"

definition is_trigger_name :: "ustr \<Rightarrow> bool" where
  "is_trigger_name n \<longleftrightarrow>
     n \<in> {lit ''trigger-focus'', lit ''trigger-blur'', lit ''trigger-hover'', lit ''trigger-unhover''}"

text \<open>\<open>if let Ok(d) = \<dots>\<close>: the parsed value, or what was there.\<close>

definition ok_else :: "('e, 'a) result \<Rightarrow> 'a \<Rightarrow> 'a" where
  "ok_else r d = (case r of Inr x \<Rightarrow> x | Inl _ \<Rightarrow> d)"

definition trim_owned_string :: "ustr \<Rightarrow> ustr" where
  "trim_owned_string s = dropWhile is_whitespace (rev (dropWhile is_whitespace (rev s)))"

definition with_children :: "kids \<Rightarrow> string \<Rightarrow> bool \<Rightarrow> Element list parser" where
  "with_children kids tag self_closing =
     (if self_closing then State_Monad.return [] else kids (lit tag))"

section \<open>How the state changes\<close>

text \<open>
  No method goes back in the tokens or withdraws a diagnostic, and each restores the depth it
  found; \<open>quiet\<close> methods only report.
\<close>

definition evolves :: "Parser \<Rightarrow> Parser \<Rightarrow> bool" where
  "evolves p q \<longleftrightarrow>
     p_tokens q = p_tokens p \<and> p_pos p \<le> p_pos q \<and>
     (p_pos p \<le> length (p_tokens p) \<longrightarrow> p_pos q \<le> length (p_tokens p)) \<and> p_depth q = p_depth p \<and>
     element_count p \<le> element_count q \<and> (\<exists>ds. diagnostics q = diagnostics p @ ds) \<and>
     (allocation_failed p \<longrightarrow> allocation_failed q)"

definition reports :: "Parser \<Rightarrow> Parser \<Rightarrow> bool" where
  "reports p q \<longleftrightarrow> evolves p q \<and> p_pos q = p_pos p \<and> element_count q = element_count p"

abbreviation evolving :: "'a parser \<Rightarrow> bool" where
  "evolving m \<equiv> state_io_rel evolves m"

abbreviation quiet :: "'a parser \<Rightarrow> bool" where
  "quiet m \<equiv> state_io_rel reports m"

named_theorems evolve_intros \<open>closure of evolving and quiet methods under the monad\<close>

lemma evolves_refl [simp]: "evolves p p"
  by (simp add: evolves_def)

lemma evolves_trans: "evolves p q \<Longrightarrow> evolves q r \<Longrightarrow> evolves p r"
  by (auto simp: evolves_def)

lemma reports_refl [simp]: "reports p p"
  by (simp add: reports_def)

lemma reports_trans: "reports p q \<Longrightarrow> reports q r \<Longrightarrow> reports p r"
  by (auto simp: reports_def intro: evolves_trans)

lemma quiet_bind [evolve_intros]: "quiet m \<Longrightarrow> (\<And>x. quiet (f x)) \<Longrightarrow> quiet (State_Monad.bind m f)"
  by (rule state_io_rel_bind [OF reports_trans])

lemma evolving_bind [evolve_intros]:
  "evolving m \<Longrightarrow> (\<And>x. evolving (f x)) \<Longrightarrow> evolving (State_Monad.bind m f)"
  by (rule state_io_rel_bind [OF evolves_trans])

lemma quiet_evolving: "quiet m \<Longrightarrow> evolving m"
  by (simp add: state_io_rel_def reports_def)

lemma quiet_return [evolve_intros]: "quiet (State_Monad.return x)"
  by (simp add: state_io_rel_def)

lemma evolving_return [evolve_intros]: "evolving (State_Monad.return x)"
  by (simp add: state_io_rel_def)

lemma quiet_get [evolve_intros]: "quiet State_Monad.get"
  by (simp add: state_io_rel_def)

lemma evolving_get [evolve_intros]: "evolving State_Monad.get"
  by (simp add: state_io_rel_def)

lemma io_if [evolve_intros]:
  "(b \<Longrightarrow> state_io_rel R m) \<Longrightarrow> (\<not> b \<Longrightarrow> state_io_rel R n) \<Longrightarrow> state_io_rel R (if b then m else n)"
  by simp

lemma io_option [evolve_intros]:
  "(x = None \<Longrightarrow> state_io_rel R m) \<Longrightarrow> (\<And>y. x = Some y \<Longrightarrow> state_io_rel R (f y)) \<Longrightarrow>
   state_io_rel R (case x of None \<Rightarrow> m | Some y \<Rightarrow> f y)"
  by (cases x) simp_all

lemma io_sum [evolve_intros]:
  "(\<And>e. x = Inl e \<Longrightarrow> state_io_rel R (f e)) \<Longrightarrow> (\<And>y. x = Inr y \<Longrightarrow> state_io_rel R (g y)) \<Longrightarrow>
   state_io_rel R (case x of Inl e \<Rightarrow> f e | Inr y \<Rightarrow> g y)"
  by (cases x) simp_all

lemma io_prod [evolve_intros]:
  "(\<And>y z. x = (y, z) \<Longrightarrow> state_io_rel R (f y z)) \<Longrightarrow> state_io_rel R (case x of (y, z) \<Rightarrow> f y z)"
  by (cases x) simp

lemma io_list [evolve_intros]:
  "(x = [] \<Longrightarrow> state_io_rel R m) \<Longrightarrow> (\<And>y ys. x = y # ys \<Longrightarrow> state_io_rel R (f y ys)) \<Longrightarrow>
   state_io_rel R (case x of [] \<Rightarrow> m | y # ys \<Rightarrow> f y ys)"
  by (cases x) simp_all

lemma io_Let [evolve_intros]: "state_io_rel R (f x) \<Longrightarrow> state_io_rel R (let y = x in f y)"
  by simp

lemma io_attribute_value [evolve_intros]:
  "(\<And>s. state_io_rel R (f s)) \<Longrightarrow> (\<And>s. state_io_rel R (g s)) \<Longrightarrow> state_io_rel R h \<Longrightarrow>
   state_io_rel R (case v of AString s \<Rightarrow> f s | AIdent s \<Rightarrow> g s | AFlag \<Rightarrow> h)"
  by (cases v) simp_all

lemma io_token [evolve_intros]:
  "(\<And>n as sc. t = OpenTag n as sc \<Longrightarrow> state_io_rel R (f n as sc)) \<Longrightarrow>
   (\<And>n. t = CloseTag n \<Longrightarrow> state_io_rel R (g n)) \<Longrightarrow> (\<And>s. t = TextToken s \<Longrightarrow> state_io_rel R (h s)) \<Longrightarrow>
   (t = Eof \<Longrightarrow> state_io_rel R m) \<Longrightarrow>
   state_io_rel R (case t of OpenTag n as sc \<Rightarrow> f n as sc | CloseTag n \<Rightarrow> g n | TextToken s \<Rightarrow> h s | Eof \<Rightarrow> m)"
  by (cases t) simp_all

lemma quiet_foreach [evolve_intros]: "(\<And>a x. quiet (f a x)) \<Longrightarrow> quiet (foreach f a xs)"
  by (induction xs arbitrary: a) (auto intro: quiet_bind quiet_return)

lemma evolving_foreach [evolve_intros]: "(\<And>a x. evolving (f a x)) \<Longrightarrow> evolving (foreach f a xs)"
  by (induction xs arbitrary: a) (auto intro: evolving_bind evolving_return)

lemma quiet_traverse [evolve_intros]: "(\<And>x. quiet (f x)) \<Longrightarrow> quiet (State_Monad.traverse_list f xs)"
  by (induction xs) (auto intro: quiet_bind quiet_return)

section \<open>Quiet methods\<close>

lemma quiet_mark [evolve_intros]: "quiet (mark_allocation_failure u)"
  by (simp add: state_io_rel_def mark_allocation_failure_def reports_def evolves_def State_Monad.update_def)

lemma quiet_copy_string [evolve_intros]: "quiet (try_copy_string rt s)"
  by (auto simp: try_copy_string_def intro!: evolve_intros)

lemma quiet_push [evolve_intros]: "quiet (try_push rt xs x)"
  by (auto simp: try_push_def intro!: evolve_intros)

lemma quiet_clone_attribute [evolve_intros]: "quiet (try_clone_attribute rt a)"
  by (auto simp: try_clone_attribute_def intro!: evolve_intros)

lemma quiet_clone_token [evolve_intros]: "quiet (try_clone_token rt t)"
  by (auto simp: try_clone_token_def intro!: evolve_intros)

lemma quiet_current_owned [evolve_intros]: "quiet (current_owned rt)"
  by (auto simp: current_owned_def intro!: evolve_intros)

lemma quiet_diagnostic [evolve_intros]: "quiet (try_diagnostic rt level code args)"
  by (auto simp: try_diagnostic_def state_io_rel_def reports_def evolves_def mark_allocation_failure_def
      State_Monad.update_def try_push_def split: option.split)

lemma quiet_error_fmt [evolve_intros]: "quiet (error_fmt rt code args)"
  by (simp add: error_fmt_def quiet_diagnostic)

lemma quiet_warning_fmt [evolve_intros]: "quiet (warning_fmt rt code args)"
  by (simp add: warning_fmt_def quiet_diagnostic)

lemma quiet_error [evolve_intros]: "quiet (error_msg rt code s)"
  by (simp add: error_msg_def quiet_error_fmt)

lemma quiet_warning [evolve_intros]: "quiet (warning_msg rt code s)"
  by (simp add: warning_msg_def quiet_warning_fmt)

lemma quiet_color_attr [evolve_intros]: "quiet (parse_color_attr rt v el)"
  by (auto simp: parse_color_attr_def intro!: evolve_intros)

lemma quiet_transition_attr [evolve_intros]: "quiet (transition_attr rt el s)"
  by (auto simp: transition_attr_def intro!: evolve_intros)

lemma quiet_unknown_attribute [evolve_intros]: "quiet (unknown_attribute rt el a)"
  by (simp add: unknown_attribute_def quiet_warning_fmt)

lemma quiet_trigger_ref [evolve_intros]: "quiet (parse_trigger_ref rt s)"
  by (auto simp: parse_trigger_ref_def intro!: evolve_intros)

lemma quiet_triggers [evolve_intros]: "quiet (parse_triggers rt attrs)"
  by (auto simp: parse_triggers_def trigger_attr_def intro!: evolve_intros)

lemma evolving_advance [evolve_intros]: "evolving advance"
  by (auto simp: advance_def state_io_rel_def evolves_def State_Monad.update_def)

lemma evolving_element_limit [evolve_intros]: "evolving (check_element_limit rt)"
proof -
  have "evolving (State_Monad.update (\<lambda>p. p\<lparr>element_count := element_count p + 1\<rparr>))"
    by (simp add: state_io_rel_def evolves_def State_Monad.update_def)
  then show ?thesis
    unfolding check_element_limit_def by (intro evolve_intros quiet_evolving [OF quiet_error_fmt])
qed

lemma quiet_depth_limit [evolve_intros]: "quiet (check_depth_limit rt)"
  by (auto simp: check_depth_limit_def intro!: evolve_intros)

section \<open>Loops over the tokens\<close>

text \<open>
  \<open>loop { match self.current_owned() { \<dots> } }\<close>: the body gets the accumulator and the token and
  says whether to go on. A turn that goes on has always read a token (\<open>loop_tokens_unfold\<close>); the
  test that it has is there to make the function total for any body.
\<close>

type_synonym 'a turn = "'a \<Rightarrow> Token \<Rightarrow> ('a \<times> bool) parser"

function token_loop :: "runtime \<Rightarrow> 'a turn \<Rightarrow> 'a \<Rightarrow> Parser \<Rightarrow> 'a \<times> Parser" where
  "token_loop rt body a p =
     (case run_state (do { t \<leftarrow> current_owned rt; body a t }) p of
        ((a', go), q) \<Rightarrow> if go \<and> left q < left p then token_loop rt body a' q else (a', q))"
  by pat_completeness auto
termination
  by (relation "measure (\<lambda>(rt, body, a, p). left p)") auto

declare token_loop.simps [simp del]

definition loop_tokens :: "runtime \<Rightarrow> 'a turn \<Rightarrow> 'a \<Rightarrow> 'a parser" where
  "loop_tokens rt body a = State (token_loop rt body a)"

definition go_on :: "'a \<Rightarrow> ('a \<times> bool) parser" where
  "go_on a = State_Monad.return (a, True)"

definition break :: "'a \<Rightarrow> ('a \<times> bool) parser" where
  "break a = State_Monad.return (a, False)"

definition skip_turn :: "ustr \<Rightarrow> nat turn" where
  "skip_turn tag depth t = (case t of
       Eof \<Rightarrow> break depth
     | OpenTag name _ self_closing \<Rightarrow> do {
         advance;
         go_on (if \<not> self_closing \<and> name = tag then depth + 1 else depth)
       }
     | CloseTag name \<Rightarrow>
         if name = tag then do {
           advance;
           if depth - 1 = 0 then break (depth - 1) else go_on (depth - 1)
         } else do { advance; go_on depth }
     | TextToken _ \<Rightarrow> do { advance; go_on depth })"

definition skip_until_close :: "runtime \<Rightarrow> ustr \<Rightarrow> unit parser" where
  "skip_until_close rt tag = do { loop_tokens rt (skip_turn tag) 1; State_Monad.return () }"

definition skip_text_turn :: "unit turn" where
  "skip_text_turn u t = (case t of
       TextToken s \<Rightarrow> if trim s = [] then do { advance; go_on () } else break ()
     | _ \<Rightarrow> break ())"

definition skip_text :: "runtime \<Rightarrow> unit parser" where
  "skip_text rt = loop_tokens rt skip_text_turn ()"

definition text_turn :: "runtime \<Rightarrow> ustr \<Rightarrow> ustr turn" where
  "text_turn rt until_close content t = (case t of
       Eof \<Rightarrow> break content
     | CloseTag name \<Rightarrow> if name = until_close then do { advance; break content } else do { advance; go_on content }
     | TextToken s \<Rightarrow> do { advance; go_on (content @ s) }
     | OpenTag name _ self_closing \<Rightarrow> do {
         advance;
         if \<not> self_closing then do { skip_until_close rt name; go_on content } else go_on content
       })"

definition collect_text_content :: "runtime \<Rightarrow> string \<Rightarrow> ustr parser" where
  "collect_text_content rt until_close = loop_tokens rt (text_turn rt (lit until_close)) []"

definition same_style :: "PreRun \<Rightarrow> PreRun \<Rightarrow> bool" where
  "same_style a b \<longleftrightarrow>
     run_fg a = run_fg b \<and> run_bg a = run_bg b \<and> run_bold a = run_bold b \<and> run_italic a = run_italic b \<and>
     run_underline a = run_underline b \<and> run_strikethrough a = run_strikethrough b \<and>
     run_dim a = run_dim b \<and> run_blink a = run_blink b"

definition default_run :: PreRun where
  "default_run = \<lparr>run_text = [], run_fg = None, run_bg = None, run_bold = False, run_italic = False,
     run_underline = False, run_strikethrough = False, run_dim = False, run_blink = False\<rparr>"

text \<open>The stack is a list with its top first; the runs are in source order.\<close>

definition top_style :: "PreRun list \<Rightarrow> PreRun" where
  "top_style stack = (case stack of style # _ \<Rightarrow> style | [] \<Rightarrow> default_run)"

definition push_run :: "PreRun list \<Rightarrow> PreRun \<Rightarrow> ustr \<Rightarrow> PreRun list" where
  "push_run runs style s =
     (if runs \<noteq> [] \<and> same_style (last runs) style
      then butlast runs @ [(last runs)\<lparr>run_text := run_text (last runs) @ s\<rparr>]
      else runs @ [style\<lparr>run_text := run_text style @ s\<rparr>])"

definition run_attr :: "runtime \<Rightarrow> ustr \<Rightarrow> PreRun \<Rightarrow> Attribute \<Rightarrow> PreRun parser" where
  "run_attr rt until_close style a =
     (if attr_name a = lit ''fg'' then do {
        c \<leftarrow> parse_color_attr rt (attr_value a) (lit ''text''); State_Monad.return (style\<lparr>run_fg := c\<rparr>) }
      else if attr_name a = lit ''bg'' then do {
        c \<leftarrow> parse_color_attr rt (attr_value a) (lit ''text''); State_Monad.return (style\<lparr>run_bg := c\<rparr>) }
      else if attr_name a = lit ''bold'' then State_Monad.return (style\<lparr>run_bold := True\<rparr>)
      else if attr_name a = lit ''italic'' then State_Monad.return (style\<lparr>run_italic := True\<rparr>)
      else if attr_name a = lit ''underline'' then State_Monad.return (style\<lparr>run_underline := True\<rparr>)
      else if attr_name a = lit ''strikethrough'' then State_Monad.return (style\<lparr>run_strikethrough := True\<rparr>)
      else if attr_name a = lit ''dim'' then State_Monad.return (style\<lparr>run_dim := True\<rparr>)
      else if attr_name a = lit ''blink'' then State_Monad.return (style\<lparr>run_blink := True\<rparr>)
      else do {
        warning_fmt rt ''W002'' [lit ''unknown attribute \"'', attr_name a, lit ''\" on [text] inside ['', until_close, lit '']''];
        State_Monad.return style
      })"

definition styled_turn :: "runtime \<Rightarrow> ustr \<Rightarrow> (PreRun list \<times> PreRun list) turn" where
  "styled_turn rt until_close acc t = (case acc of (runs, stack) \<Rightarrow> case t of
       Eof \<Rightarrow> break acc
     | CloseTag name \<Rightarrow>
         if name = until_close \<and> stack = [] then do { advance; break acc }
         else do { advance; go_on (runs, tl stack) }
     | TextToken s \<Rightarrow> do { advance; go_on (push_run runs (top_style stack) s, stack) }
     | OpenTag name attributes self_closing \<Rightarrow>
         if name \<noteq> lit ''text'' then do {
           error_fmt rt ''E020'' [lit ''['', name, lit ''] is not allowed inside ['', until_close,
             lit '']; only [text] may nest''];
           advance;
           if \<not> self_closing then do { skip_until_close rt name; go_on acc } else go_on acc
         } else do {
           style \<leftarrow> foreach (run_attr rt until_close) ((top_style stack)\<lparr>run_text := []\<rparr>) attributes;
           advance;
           go_on (runs, if self_closing then stack else style # stack)
         })"

definition collect_styled_runs :: "runtime \<Rightarrow> string \<Rightarrow> PreRun list parser" where
  "collect_styled_runs rt until_close = do {
     (runs, stack) \<leftarrow> loop_tokens rt (styled_turn rt (lit until_close)) ([], []);
     State_Monad.return runs
   }"

text \<open>\<open>str::split_whitespace\<close>.\<close>

function split_whitespace :: "ustr \<Rightarrow> ustr list" where
  "split_whitespace s =
     (let s' = dropWhile is_whitespace s
      in if s' = [] then []
         else takeWhile (\<lambda>c. \<not> is_whitespace c) s' # split_whitespace (dropWhile (\<lambda>c. \<not> is_whitespace c) s'))"
  by pat_completeness auto
termination
proof (relation "measure length")
  fix s s' :: ustr
  assume s': "s' = dropWhile is_whitespace s" "s' \<noteq> []"
  then have "\<not> is_whitespace (hd s')"
    using hd_dropWhile by blast
  then have "length (dropWhile (\<lambda>c. \<not> is_whitespace c) s') < length s'"
    using s'(2) by (intro length_dropWhile_less) auto
  also have "\<dots> \<le> length s"
    by (simp add: s'(1) length_dropWhile_le)
  finally show "(dropWhile (\<lambda>c. \<not> is_whitespace c) s', s) \<in> measure length"
    by simp
qed simp

declare split_whitespace.simps [simp del]

definition keyframe_part :: "Keyframe \<Rightarrow> ustr \<Rightarrow> Keyframe" where
  "keyframe_part k part =
     (case split_once (lit ''='') part of
        None \<Rightarrow> k
      | Some (key, val) \<Rightarrow>
          if key = lit ''x'' then k\<lparr>keyframe_x := parse_uint u16_max val\<rparr>
          else if key = lit ''y'' then k\<lparr>keyframe_y := parse_uint u16_max val\<rparr>
          else if key = lit ''fg'' then k\<lparr>keyframe_fg := (case parse_color val of Inr c \<Rightarrow> Some c | Inl _ \<Rightarrow> None)\<rparr>
          else if key = lit ''bg'' then k\<lparr>keyframe_bg := (case parse_color val of Inr c \<Rightarrow> Some c | Inl _ \<Rightarrow> None)\<rparr>
          else k)"

definition keyframe_time :: "float_value \<Rightarrow> Attribute \<Rightarrow> float_value" where
  "keyframe_time t a =
     (if attr_name a = lit ''t'' then
        case parse_float f32 (trim_end_matches (uc CHR ''%'') (attr_val a)) of
          Some x \<Rightarrow> x
        | None \<Rightarrow> Finite False 0 (min_exponent f32)
      else t)"

definition parse_keyframe :: "runtime \<Rightarrow> Attribute list \<Rightarrow> bool \<Rightarrow> Keyframe option parser" where
  "parse_keyframe rt attrs self_closing = do {
     content \<leftarrow> (if self_closing then State_Monad.return [] else collect_text_content rt ''at'');
     State_Monad.return (Some (foldl keyframe_part
       \<lparr>keyframe_t_percent = foldl keyframe_time (Finite False 0 (min_exponent f32)) attrs,
        keyframe_x = None, keyframe_y = None, keyframe_fg = None, keyframe_bg = None\<rparr>
       (split_whitespace content)))
   }"

definition tween_turn :: "runtime \<Rightarrow> Keyframe list turn" where
  "tween_turn rt keyframes t = (case t of
       Eof \<Rightarrow> break keyframes
     | CloseTag name \<Rightarrow>
         if name = lit ''tween'' then do { advance; break keyframes } else do { advance; go_on keyframes }
     | TextToken _ \<Rightarrow> do { advance; go_on keyframes }
     | OpenTag name attributes self_closing \<Rightarrow> do {
         advance;
         if name = lit ''at'' then do {
           kf \<leftarrow> parse_keyframe rt attributes self_closing;
           case kf of
             Some kf \<Rightarrow> do { keyframes \<leftarrow> try_push rt keyframes kf; go_on keyframes }
           | None \<Rightarrow> go_on keyframes
         } else if \<not> self_closing then do { skip_until_close rt name; go_on keyframes }
         else go_on keyframes
       })"

end
