(* ===== verification/Parser_Elements.thy ===== *)
theory Parser_Elements
  imports Parser
begin

text \<open>
  The element parsers of \<open>parser/mod.rs\<close> (lines 548 to 2395), in its order: each reads its
  attributes, reports what it does not understand, and takes its children from \<open>kids\<close>, or its
  text from the collectors. Then \<open>parse_children\<close>, \<open>parse_page\<close> and \<open>parse_document\<close>.
\<close>

section \<open>Layout\<close>

definition box_default :: BoxElement where
  "box_default = \<lparr>box_x = None, box_y = None, box_w = Fill, box_h = Fit, box_border = BorderSingle,
     box_fg = None, box_bg = None, box_padding = 1, box_title = None, box_join_top = None,
     box_join_bottom = None, box_join_left = None, box_join_right = None, box_align = AlignLeft,
     box_sticky = None\<rparr>"

definition box_attr :: "runtime \<Rightarrow> BoxElement \<Rightarrow> Attribute \<Rightarrow> BoxElement parser" where
  "box_attr rt e a =
     (let n = attr_name a; v = attr_value a; s = attr_val a
      in if n = lit ''x'' then State_Monad.return (e\<lparr>box_x := parse_u16_attr v\<rparr>)
      else if n = lit ''y'' then State_Monad.return (e\<lparr>box_y := parse_u16_attr v\<rparr>)
      else if n = lit ''w'' then (case parse_dimension rt s of
          Inr d \<Rightarrow> State_Monad.return (e\<lparr>box_w := d\<rparr>)
        | Inl _ \<Rightarrow> do { warning_msg rt ''W002'' ''invalid width value on [box]''; State_Monad.return e })
      else if n = lit ''h'' then (case parse_dimension rt s of
          Inr d \<Rightarrow> State_Monad.return (e\<lparr>box_h := d\<rparr>)
        | Inl _ \<Rightarrow> do { warning_msg rt ''W002'' ''invalid height value on [box]''; State_Monad.return e })
      else if n = lit ''border'' then (case parse_border_style rt s of
          Inr b \<Rightarrow> State_Monad.return (e\<lparr>box_border := b\<rparr>)
        | Inl _ \<Rightarrow> do { warning_msg rt ''W002'' ''invalid border style on [box]''; State_Monad.return e })
      else if n = lit ''fg'' then do {
        c \<leftarrow> parse_color_attr rt v (lit ''box''); State_Monad.return (e\<lparr>box_fg := c\<rparr>) }
      else if n = lit ''bg'' then do {
        c \<leftarrow> parse_color_attr rt v (lit ''box''); State_Monad.return (e\<lparr>box_bg := c\<rparr>) }
      else if n = lit ''padding'' then
        State_Monad.return (e\<lparr>box_padding := (case parse_u16_attr v of Some k \<Rightarrow> k | None \<Rightarrow> 1)\<rparr>)
      else if n = lit ''title'' then do {
        t \<leftarrow> try_copy_string rt s; State_Monad.return (e\<lparr>box_title := Some t\<rparr>) }
      else if n = lit ''join-top'' then State_Monad.return (e\<lparr>box_join_top := parse_u16_attr v\<rparr>)
      else if n = lit ''join-bottom'' then State_Monad.return (e\<lparr>box_join_bottom := parse_u16_attr v\<rparr>)
      else if n = lit ''join-left'' then State_Monad.return (e\<lparr>box_join_left := parse_u16_attr v\<rparr>)
      else if n = lit ''join-right'' then State_Monad.return (e\<lparr>box_join_right := parse_u16_attr v\<rparr>)
      else if n = lit ''align'' then
        State_Monad.return (e\<lparr>box_align := ok_else (parse_alignment rt s) (box_align e)\<rparr>)
      else if n = lit ''sticky'' then
        State_Monad.return (e\<lparr>box_sticky := ok_else (map_ok Some (parse_sticky rt s)) (box_sticky e)\<rparr>)
      else do { unknown_attribute rt ''box'' a; State_Monad.return e })"

definition parse_box :: "runtime \<Rightarrow> kids \<Rightarrow> Attribute list \<Rightarrow> bool \<Rightarrow> Element parser" where
  "parse_box rt kids attrs self_closing = do {
     e \<leftarrow> foreach (box_attr rt) box_default attrs;
     cs \<leftarrow> with_children kids ''box'' self_closing;
     State_Monad.return (BoxE e cs)
   }"

definition row_attr :: "runtime \<Rightarrow> RowElement \<Rightarrow> Attribute \<Rightarrow> RowElement parser" where
  "row_attr rt e a =
     (if attr_name a = lit ''gap'' then
        State_Monad.return (e\<lparr>row_gap := (case parse_u16_attr (attr_value a) of Some k \<Rightarrow> k | None \<Rightarrow> 1)\<rparr>)
      else if attr_name a = lit ''align'' then
        State_Monad.return (e\<lparr>row_align := ok_else (parse_vertical_alignment rt (attr_val a)) (row_align e)\<rparr>)
      else do { unknown_attribute rt ''row'' a; State_Monad.return e })"

definition parse_row :: "runtime \<Rightarrow> kids \<Rightarrow> Attribute list \<Rightarrow> bool \<Rightarrow> Element parser" where
  "parse_row rt kids attrs self_closing = do {
     e \<leftarrow> foreach (row_attr rt) \<lparr>row_gap = 1, row_align = AlignTop\<rparr> attrs;
     cs \<leftarrow> with_children kids ''row'' self_closing;
     State_Monad.return (RowE e cs)
   }"

definition col_attr :: "runtime \<Rightarrow> ColElement \<Rightarrow> Attribute \<Rightarrow> ColElement parser" where
  "col_attr rt e a =
     (if attr_name a = lit ''w'' then
        State_Monad.return (e\<lparr>col_w := ok_else (parse_dimension rt (attr_val a)) (col_w e)\<rparr>)
      else if attr_name a = lit ''align'' then
        State_Monad.return (e\<lparr>col_align := ok_else (parse_alignment rt (attr_val a)) (col_align e)\<rparr>)
      else do { unknown_attribute rt ''col'' a; State_Monad.return e })"

definition parse_col :: "runtime \<Rightarrow> kids \<Rightarrow> Attribute list \<Rightarrow> bool \<Rightarrow> Element parser" where
  "parse_col rt kids attrs self_closing = do {
     e \<leftarrow> foreach (col_attr rt) \<lparr>col_w = Fill, col_align = AlignLeft\<rparr> attrs;
     cs \<leftarrow> with_children kids ''col'' self_closing;
     State_Monad.return (ColE e cs)
   }"

definition hr_attr :: "runtime \<Rightarrow> HrElement \<Rightarrow> Attribute \<Rightarrow> HrElement parser" where
  "hr_attr rt e a =
     (if attr_name a = lit ''style'' then
        State_Monad.return (e\<lparr>hr_style := ok_else (parse_hr_style rt (attr_val a)) (hr_style e)\<rparr>)
      else if attr_name a = lit ''fg'' then do {
        c \<leftarrow> parse_color_attr rt (attr_value a) (lit ''hr''); State_Monad.return (e\<lparr>hr_fg := c\<rparr>) }
      else do { unknown_attribute rt ''hr'' a; State_Monad.return e })"

definition parse_hr :: "runtime \<Rightarrow> Attribute list \<Rightarrow> Element parser" where
  "parse_hr rt attrs = do {
     e \<leftarrow> foreach (hr_attr rt) \<lparr>hr_style = HrSingle, hr_fg = None\<rparr> attrs;
     State_Monad.return (HrE e)
   }"

definition spacer_attr :: "runtime \<Rightarrow> SpacerElement \<Rightarrow> Attribute \<Rightarrow> SpacerElement parser" where
  "spacer_attr rt e a =
     (if attr_name a = lit ''lines'' then
        (case parse_u16_attr (attr_value a) of
           Some k \<Rightarrow>
             if k \<le> MAX_ELEMENT_DIMENSION then State_Monad.return (e\<lparr>spacer_lines := k\<rparr>)
             else do {
               warning_fmt rt ''W002'' [lit ''spacer lines must be at most '', show_nat MAX_ELEMENT_DIMENSION];
               State_Monad.return e }
         | None \<Rightarrow> do {
             warning_fmt rt ''W002'' [lit ''spacer lines must be at most '', show_nat MAX_ELEMENT_DIMENSION];
             State_Monad.return e })
      else do { unknown_attribute rt ''spacer'' a; State_Monad.return e })"

definition parse_spacer :: "runtime \<Rightarrow> Attribute list \<Rightarrow> Element parser" where
  "parse_spacer rt attrs = do {
     e \<leftarrow> foreach (spacer_attr rt) \<lparr>spacer_lines = 1\<rparr> attrs;
     State_Monad.return (SpacerE e)
   }"

definition sticky_attr :: "runtime \<Rightarrow> StickyPosition option \<Rightarrow> Attribute \<Rightarrow> StickyPosition option" where
  "sticky_attr rt sticky a =
     (if attr_name a = lit ''sticky'' then ok_else (map_ok Some (parse_sticky rt (attr_val a))) sticky else sticky)"

definition container_of :: "ustr \<Rightarrow> ContainerElement \<Rightarrow> Element list \<Rightarrow> Element" where
  "container_of name e cs =
     (if name = lit ''header'' then HeaderE e cs
      else if name = lit ''body'' then BodyE e cs
      else if name = lit ''footer'' then FooterE e cs
      else if name = lit ''thead'' then TheadE e cs
      else if name = lit ''tbody'' then TbodyE e cs
      else if name = lit ''pagination'' then PaginationE e cs
      else BodyE e cs)"

definition parse_container :: "runtime \<Rightarrow> kids \<Rightarrow> ustr \<Rightarrow> Attribute list \<Rightarrow> bool \<Rightarrow> Element parser" where
  "parse_container rt kids name attrs self_closing = do {
     cs \<leftarrow> (if self_closing then State_Monad.return [] else kids name);
     State_Monad.return (container_of name \<lparr>container_sticky = foldl (sticky_attr rt) None attrs\<rparr> cs)
   }"

definition parse_nav :: "runtime \<Rightarrow> kids \<Rightarrow> Attribute list \<Rightarrow> bool \<Rightarrow> Element parser" where
  "parse_nav rt kids attrs self_closing = do {
     cs \<leftarrow> with_children kids ''nav'' self_closing;
     State_Monad.return (NavE \<lparr>nav_sticky = foldl (sticky_attr rt) None attrs\<rparr> cs)
   }"

section \<open>Text\<close>

definition plain_text :: "ustr \<Rightarrow> TextElement" where
  "plain_text s = \<lparr>text_content = s, text_fg = None, text_bg = None, text_bold = False, text_italic = False,
     text_underline = False, text_strikethrough = False, text_dim = False, text_blink = False,
     text_align = AlignLeft\<rparr>"

definition text_attr :: "runtime \<Rightarrow> TextElement \<Rightarrow> Attribute \<Rightarrow> TextElement parser" where
  "text_attr rt e a =
     (let n = attr_name a
      in if n = lit ''fg'' then do {
        c \<leftarrow> parse_color_attr rt (attr_value a) (lit ''text''); State_Monad.return (e\<lparr>text_fg := c\<rparr>) }
      else if n = lit ''bg'' then do {
        c \<leftarrow> parse_color_attr rt (attr_value a) (lit ''text''); State_Monad.return (e\<lparr>text_bg := c\<rparr>) }
      else if n = lit ''bold'' then State_Monad.return (e\<lparr>text_bold := True\<rparr>)
      else if n = lit ''italic'' then State_Monad.return (e\<lparr>text_italic := True\<rparr>)
      else if n = lit ''underline'' then State_Monad.return (e\<lparr>text_underline := True\<rparr>)
      else if n = lit ''strikethrough'' then State_Monad.return (e\<lparr>text_strikethrough := True\<rparr>)
      else if n = lit ''dim'' then State_Monad.return (e\<lparr>text_dim := True\<rparr>)
      else if n = lit ''blink'' then State_Monad.return (e\<lparr>text_blink := True\<rparr>)
      else if n = lit ''align'' then
        State_Monad.return (e\<lparr>text_align := ok_else (parse_alignment rt (attr_val a)) (text_align e)\<rparr>)
      else do { unknown_attribute rt ''text'' a; State_Monad.return e })"

text \<open>An element that is a text with no children.\<close>

definition plain_child :: "Element \<Rightarrow> TextElement option" where
  "plain_child e = (case e of TextE t ts \<Rightarrow> if ts = [] then Some t else None | _ \<Rightarrow> None)"

text \<open>A sole plain text child is absorbed into the element's own content.\<close>

definition text_with :: "TextElement \<Rightarrow> Element list \<Rightarrow> Element" where
  "text_with e cs =
     (if length cs = 1 then
        case plain_child (hd cs) of
          Some t \<Rightarrow> TextE (e\<lparr>text_content := text_content t\<rparr>) []
        | None \<Rightarrow> TextE e cs
      else TextE e cs)"

definition parse_text :: "runtime \<Rightarrow> kids \<Rightarrow> Attribute list \<Rightarrow> bool \<Rightarrow> Element parser" where
  "parse_text rt kids attrs self_closing = do {
     e \<leftarrow> foreach (text_attr rt) (plain_text []) attrs;
     if self_closing then State_Monad.return (TextE e [])
     else do { cs \<leftarrow> kids (lit ''text''); State_Monad.return (text_with e cs) }
   }"

definition pre_attr :: "runtime \<Rightarrow> PreElement \<Rightarrow> Attribute \<Rightarrow> PreElement parser" where
  "pre_attr rt e a =
     (if attr_name a = lit ''fg'' then do {
        c \<leftarrow> parse_color_attr rt (attr_value a) (lit ''pre''); State_Monad.return (e\<lparr>pre_fg := c\<rparr>) }
      else if attr_name a = lit ''bg'' then do {
        c \<leftarrow> parse_color_attr rt (attr_value a) (lit ''pre''); State_Monad.return (e\<lparr>pre_bg := c\<rparr>) }
      else if attr_name a = lit ''align'' then
        State_Monad.return (e\<lparr>pre_align := ok_else (parse_alignment rt (attr_val a)) (pre_align e)\<rparr>)
      else do { unknown_attribute rt ''pre'' a; State_Monad.return e })"

definition parse_pre :: "runtime \<Rightarrow> Attribute list \<Rightarrow> bool \<Rightarrow> Element parser" where
  "parse_pre rt attrs self_closing = do {
     e \<leftarrow> foreach (pre_attr rt) \<lparr>pre_runs = [], pre_fg = None, pre_bg = None, pre_align = AlignLeft\<rparr> attrs;
     runs \<leftarrow> (if self_closing then State_Monad.return [] else collect_styled_runs rt ''pre'');
     State_Monad.return (PreE (e\<lparr>pre_runs := runs\<rparr>))
   }"

definition heading_attr :: "runtime \<Rightarrow> HeadingElement \<Rightarrow> Attribute \<Rightarrow> HeadingElement parser" where
  "heading_attr rt e a =
     (if attr_name a = lit ''level'' then
        State_Monad.return (e\<lparr>heading_level :=
          min 6 (max 1 (case parse_uint 255 (attr_val a) of Some k \<Rightarrow> k | None \<Rightarrow> 1))\<rparr>)
      else if attr_name a = lit ''fg'' then do {
        c \<leftarrow> parse_color_attr rt (attr_value a) (lit ''heading''); State_Monad.return (e\<lparr>heading_fg := c\<rparr>) }
      else do { unknown_attribute rt ''heading'' a; State_Monad.return e })"

definition heading_child :: "runtime \<Rightarrow> ustr \<times> Element list \<Rightarrow> Element \<Rightarrow> (ustr \<times> Element list) parser" where
  "heading_child rt acc child =
     (case acc of (content, cs) \<Rightarrow>
        if content = [] \<and> plain_child child \<noteq> None
        then State_Monad.return (text_content (the (plain_child child)), cs)
        else do { cs \<leftarrow> try_push rt cs child; State_Monad.return (content, cs) })"

definition parse_heading :: "runtime \<Rightarrow> kids \<Rightarrow> Attribute list \<Rightarrow> bool \<Rightarrow> Element parser" where
  "parse_heading rt kids attrs self_closing = do {
     e \<leftarrow> foreach (heading_attr rt) \<lparr>heading_level = 1, heading_fg = None, heading_content = []\<rparr> attrs;
     all \<leftarrow> with_children kids ''heading'' self_closing;
     (content, cs) \<leftarrow> foreach (heading_child rt) ([], []) all;
     State_Monad.return (HeadingE (e\<lparr>heading_content := content\<rparr>) cs)
   }"

definition first_char :: "ustr \<Rightarrow> uchar option" where
  "first_char s = (case s of c # _ \<Rightarrow> Some c | [] \<Rightarrow> None)"

definition list_attr :: "runtime \<Rightarrow> ListElement \<Rightarrow> Attribute \<Rightarrow> ListElement parser" where
  "list_attr rt e a =
     (if attr_name a = lit ''style'' then
        State_Monad.return (e\<lparr>list_style := ok_else (parse_list_style rt (attr_val a)) (list_style e)\<rparr>)
      else if attr_name a = lit ''bullet-char'' then
        State_Monad.return (e\<lparr>list_bullet_char := first_char (attr_val a)\<rparr>)
      else do { unknown_attribute rt ''list'' a; State_Monad.return e })"

definition parse_list :: "runtime \<Rightarrow> kids \<Rightarrow> Attribute list \<Rightarrow> bool \<Rightarrow> Element parser" where
  "parse_list rt kids attrs self_closing = do {
     e \<leftarrow> foreach (list_attr rt) \<lparr>list_style = ListBullet, list_bullet_char = None\<rparr> attrs;
     cs \<leftarrow> with_children kids ''list'' self_closing;
     State_Monad.return (ListE e cs)
   }"

definition parse_item :: "kids \<Rightarrow> bool \<Rightarrow> Element parser" where
  "parse_item kids self_closing = do {
     cs \<leftarrow> with_children kids ''item'' self_closing;
     State_Monad.return (ItemE cs)
   }"

section \<open>Interaction\<close>

definition link_attr :: "runtime \<Rightarrow> LinkElement \<Rightarrow> Attribute \<Rightarrow> LinkElement parser" where
  "link_attr rt e a =
     (let n = attr_name a; s = attr_val a
      in if n = lit ''id'' then do { t \<leftarrow> try_copy_string rt s; State_Monad.return (e\<lparr>link_id := Some t\<rparr>) }
      else if n = lit ''href'' then do { t \<leftarrow> try_copy_string rt s; State_Monad.return (e\<lparr>link_href := t\<rparr>) }
      else if n = lit ''transition'' then do {
        t \<leftarrow> transition_attr rt ''link'' s; State_Monad.return (e\<lparr>link_transition := t\<rparr>) }
      else if n = lit ''duration'' then
        State_Monad.return (e\<lparr>link_transition_duration_ms :=
          ok_else (parse_duration_ms rt s) (link_transition_duration_ms e)\<rparr>)
      else if n = lit ''key'' then State_Monad.return (e\<lparr>link_key := first_char s\<rparr>)
      else if n = lit ''prefetch'' then State_Monad.return (e\<lparr>link_prefetch := True\<rparr>)
      else if n = lit ''defer'' then do {
        t \<leftarrow> try_copy_string rt s; State_Monad.return (e\<lparr>link_defer_animation := Some t\<rparr>) }
      else if is_trigger_name n then State_Monad.return e
      else do { unknown_attribute rt ''link'' a; State_Monad.return e })"

definition link_default :: LinkElement where
  "link_default = \<lparr>link_id = None, link_href = [], link_key = None, link_prefetch = False,
     link_transition = None, link_transition_duration_ms = 300, link_defer_animation = None,
     link_triggers = no_triggers\<rparr>"

definition require :: "runtime \<Rightarrow> string \<Rightarrow> bool \<Rightarrow> string \<Rightarrow> unit parser" where
  "require rt code ok message = (if ok then State_Monad.return () else error_msg rt code message)"

definition parse_link :: "runtime \<Rightarrow> kids \<Rightarrow> Attribute list \<Rightarrow> bool \<Rightarrow> Element parser" where
  "parse_link rt kids attrs self_closing = do {
     e \<leftarrow> foreach (link_attr rt) link_default attrs;
     triggers \<leftarrow> parse_triggers rt attrs;
     require rt ''E011'' (link_href e \<noteq> []) ''link element requires href attribute'';
     cs \<leftarrow> with_children kids ''link'' self_closing;
     State_Monad.return (LinkE (e\<lparr>link_triggers := triggers\<rparr>) cs)
   }"

definition input_attr :: "runtime \<Rightarrow> InputElement \<Rightarrow> Attribute \<Rightarrow> InputElement parser" where
  "input_attr rt e a =
     (let n = attr_name a; s = attr_val a
      in if n = lit ''id'' then do { t \<leftarrow> try_copy_string rt s; State_Monad.return (e\<lparr>input_id := Some t\<rparr>) }
      else if n = lit ''name'' then do { t \<leftarrow> try_copy_string rt s; State_Monad.return (e\<lparr>input_name := t\<rparr>) }
      else if n = lit ''maxlen'' then
        State_Monad.return (e\<lparr>input_maxlen := (case parse_uint u32_max s of Some k \<Rightarrow> k | None \<Rightarrow> 1024)\<rparr>)
      else if n = lit ''placeholder'' then do {
        t \<leftarrow> try_copy_string rt s; State_Monad.return (e\<lparr>input_placeholder := Some t\<rparr>) }
      else if n = lit ''multiline'' then State_Monad.return (e\<lparr>input_multiline := True\<rparr>)
      else if n = lit ''rows'' then
        State_Monad.return (e\<lparr>input_rows := (case parse_u16_attr (attr_value a) of
          Some k \<Rightarrow> if k \<le> MAX_ELEMENT_DIMENSION then k else 1 | None \<Rightarrow> 1)\<rparr>)
      else if n = lit ''password'' then State_Monad.return (e\<lparr>input_password := True\<rparr>)
      else if n = lit ''value'' then do {
        t \<leftarrow> try_copy_string rt s; State_Monad.return (e\<lparr>input_value := Some t\<rparr>) }
      else if is_trigger_name n then State_Monad.return e
      else do { unknown_attribute rt ''input'' a; State_Monad.return e })"

definition input_default :: InputElement where
  "input_default = \<lparr>input_id = None, input_name = [], input_maxlen = 1024, input_placeholder = None,
     input_multiline = False, input_rows = 1, input_password = False, input_value = None,
     input_triggers = no_triggers\<rparr>"

definition parse_input :: "runtime \<Rightarrow> Attribute list \<Rightarrow> Element parser" where
  "parse_input rt attrs = do {
     e \<leftarrow> foreach (input_attr rt) input_default attrs;
     triggers \<leftarrow> parse_triggers rt attrs;
     require rt ''E011'' (input_name e \<noteq> []) ''input element requires name attribute'';
     State_Monad.return (InputE (e\<lparr>input_triggers := triggers\<rparr>))
   }"

definition select_attr :: "runtime \<Rightarrow> SelectElement \<Rightarrow> Attribute \<Rightarrow> SelectElement parser" where
  "select_attr rt e a =
     (if attr_name a = lit ''name'' then do {
        t \<leftarrow> try_copy_string rt (attr_val a); State_Monad.return (e\<lparr>select_name := t\<rparr>) }
      else if attr_name a = lit ''label'' then do {
        t \<leftarrow> try_copy_string rt (attr_val a); State_Monad.return (e\<lparr>select_label := Some t\<rparr>) }
      else State_Monad.return e)"

definition is_option :: "Element \<Rightarrow> bool" where
  "is_option e = (case e of OptionE _ \<Rightarrow> True | _ \<Rightarrow> False)"

definition is_selected :: "Element \<Rightarrow> bool" where
  "is_selected e = (case e of OptionE opt \<Rightarrow> option_selected opt | _ \<Rightarrow> False)"

definition parse_select :: "runtime \<Rightarrow> kids \<Rightarrow> Attribute list \<Rightarrow> bool \<Rightarrow> Element parser" where
  "parse_select rt kids attrs self_closing = do {
     e \<leftarrow> foreach (select_attr rt) \<lparr>select_name = [], select_label = None\<rparr> attrs;
     require rt ''E011'' (select_name e \<noteq> []) ''select element requires name attribute'';
     cs \<leftarrow> with_children kids ''select'' self_closing;
     require rt ''E011'' (length (filter is_option cs) \<noteq> 0) ''select element requires at least one option'';
     require rt ''E011'' (length (filter is_selected cs) \<le> 1) ''select element may have at most one selected option'';
     State_Monad.return (SelectE e cs)
   }"

definition option_attr :: "runtime \<Rightarrow> OptionElement \<Rightarrow> Attribute \<Rightarrow> OptionElement parser" where
  "option_attr rt e a =
     (if attr_name a = lit ''value'' then do {
        t \<leftarrow> try_copy_string rt (attr_val a); State_Monad.return (e\<lparr>option_value := t\<rparr>) }
      else if attr_name a = lit ''selected'' then State_Monad.return (e\<lparr>option_selected := True\<rparr>)
      else State_Monad.return e)"

definition parse_option :: "runtime \<Rightarrow> Attribute list \<Rightarrow> bool \<Rightarrow> Element parser" where
  "parse_option rt attrs self_closing = do {
     e \<leftarrow> foreach (option_attr rt) \<lparr>option_value = [], option_selected = False, option_label = []\<rparr> attrs;
     label \<leftarrow> (if self_closing then try_copy_string rt (option_value e)
               else do { t \<leftarrow> collect_text_content rt ''option''; State_Monad.return (trim_owned_string t) });
     State_Monad.return (OptionE (e\<lparr>option_label := label\<rparr>))
   }"

definition push_state :: "runtime \<Rightarrow> ustr list \<Rightarrow> ustr \<Rightarrow> ustr list parser" where
  "push_state rt xs s = do { s \<leftarrow> try_copy_string rt s; try_push rt xs s }"

definition button_attr :: "runtime \<Rightarrow> ButtonElement \<Rightarrow> Attribute \<Rightarrow> ButtonElement parser" where
  "button_attr rt e a =
     (let n = attr_name a; s = attr_val a
      in if n = lit ''action'' then
        State_Monad.return (e\<lparr>button_action := ok_else (parse_button_action rt s) (button_action e)\<rparr>)
      else if n = lit ''target'' then do {
        t \<leftarrow> try_copy_string rt s; State_Monad.return (e\<lparr>button_target := Some t\<rparr>) }
      else if n = lit ''href'' then do {
        t \<leftarrow> try_copy_string rt s; State_Monad.return (e\<lparr>button_href := Some t\<rparr>) }
      else if n = lit ''key'' then State_Monad.return (e\<lparr>button_key := first_char s\<rparr>)
      else if n = lit ''states'' then do {
        xs \<leftarrow> foreach (push_state rt) [] (filter (\<lambda>x. x \<noteq> []) (map trim (split_char (uc CHR '','') s)));
        State_Monad.return (e\<lparr>button_states := Some xs\<rparr>) }
      else if n = lit ''to'' then do {
        t \<leftarrow> try_copy_string rt s; State_Monad.return (e\<lparr>button_to := Some t\<rparr>) }
      else if n = lit ''transition'' then do {
        t \<leftarrow> transition_attr rt ''state'' s; State_Monad.return (e\<lparr>button_transition := t\<rparr>) }
      else if n = lit ''duration'' then
        State_Monad.return (e\<lparr>button_transition_duration_ms :=
          ok_else (parse_duration_ms rt s) (button_transition_duration_ms e)\<rparr>)
      else State_Monad.return e)"

definition button_default :: ButtonElement where
  "button_default = \<lparr>button_action = Submit, button_target = None, button_href = None, button_key = None,
     button_label = [], button_states = None, button_to = None, button_transition = None,
     button_transition_duration_ms = 300, button_triggers = no_triggers\<rparr>"

definition parse_button :: "runtime \<Rightarrow> Attribute list \<Rightarrow> bool \<Rightarrow> Element parser" where
  "parse_button rt attrs self_closing = do {
     e \<leftarrow> foreach (button_attr rt) button_default attrs;
     triggers \<leftarrow> parse_triggers rt attrs;
     (if button_action e = ToggleButton then
        case button_states e of
          Some xs \<Rightarrow> require rt ''E023'' (length xs \<ge> 2) ''toggle requires at least 2 states''
        | None \<Rightarrow> error_msg rt ''E023'' ''toggle requires states attribute''
      else State_Monad.return ());
     require rt ''E011'' (\<not> (button_action e = SetButton \<and> button_to e = None))
       ''button with action=set requires to attribute'';
     label \<leftarrow> (if self_closing then State_Monad.return []
               else do { t \<leftarrow> collect_text_content rt ''button''; State_Monad.return (trim_owned_string t) });
     State_Monad.return (ButtonE (e\<lparr>button_label := label, button_triggers := triggers\<rparr>))
   }"

definition form_attr :: "runtime \<Rightarrow> FormElement \<Rightarrow> Attribute \<Rightarrow> FormElement parser" where
  "form_attr rt e a =
     (if attr_name a = lit ''action'' then do {
        t \<leftarrow> try_copy_string rt (attr_val a); State_Monad.return (e\<lparr>form_action := t\<rparr>) }
      else State_Monad.return e)"

definition parse_form :: "runtime \<Rightarrow> kids \<Rightarrow> Attribute list \<Rightarrow> bool \<Rightarrow> Element parser" where
  "parse_form rt kids attrs self_closing = do {
     e \<leftarrow> foreach (form_attr rt) \<lparr>form_action = []\<rparr> attrs;
     cs \<leftarrow> with_children kids ''form'' self_closing;
     require rt ''E011'' (form_action e \<noteq> []) ''form element requires action attribute'';
     State_Monad.return (FormE e cs)
   }"

section \<open>Media\<close>

definition art_attr :: "runtime \<Rightarrow> ArtElement \<Rightarrow> Attribute \<Rightarrow> ArtElement parser" where
  "art_attr rt e a =
     (let n = attr_name a; s = attr_val a
      in if n = lit ''width'' then State_Monad.return (e\<lparr>art_width := parse_u16_attr (attr_value a)\<rparr>)
      else if n = lit ''height'' then State_Monad.return (e\<lparr>art_height := parse_u16_attr (attr_value a)\<rparr>)
      else if n = lit ''encoding'' then
        State_Monad.return (e\<lparr>art_encoding := ok_else (parse_art_encoding rt s) (art_encoding e)\<rparr>)
      else if n = lit ''src'' then do { t \<leftarrow> try_copy_string rt s; State_Monad.return (e\<lparr>art_src := Some t\<rparr>) }
      else if n = lit ''alt'' then do { t \<leftarrow> try_copy_string rt s; State_Monad.return (e\<lparr>art_alt := Some t\<rparr>) }
      else State_Monad.return e)"

definition parse_art :: "runtime \<Rightarrow> Attribute list \<Rightarrow> bool \<Rightarrow> Element parser" where
  "parse_art rt attrs self_closing = do {
     e \<leftarrow> foreach (art_attr rt)
       \<lparr>art_width = None, art_height = None, art_encoding = EncUtf8, art_src = None, art_alt = None, art_content = []\<rparr> attrs;
     content \<leftarrow> (if self_closing then State_Monad.return [] else collect_text_content rt ''art'');
     State_Monad.return (ArtE (e\<lparr>art_content := content\<rparr>))
   }"

definition border_attr :: "runtime \<Rightarrow> BorderStyle \<Rightarrow> Attribute \<Rightarrow> BorderStyle" where
  "border_attr rt border a =
     (if attr_name a = lit ''border'' then ok_else (parse_border_style rt (attr_val a)) border else border)"

definition parse_table :: "runtime \<Rightarrow> kids \<Rightarrow> Attribute list \<Rightarrow> bool \<Rightarrow> Element parser" where
  "parse_table rt kids attrs self_closing = do {
     cs \<leftarrow> with_children kids ''table'' self_closing;
     State_Monad.return (TableE \<lparr>table_border = foldl (border_attr rt) BorderSingle attrs\<rparr> cs)
   }"

definition parse_tr :: "kids \<Rightarrow> bool \<Rightarrow> Element parser" where
  "parse_tr kids self_closing = do {
     cs \<leftarrow> with_children kids ''tr'' self_closing;
     State_Monad.return (TrE cs)
   }"

definition cell_attr :: "runtime \<Rightarrow> ustr \<Rightarrow> CellElement \<Rightarrow> Attribute \<Rightarrow> CellElement parser" where
  "cell_attr rt name e a =
     (if attr_name a = lit ''fg'' then do {
        c \<leftarrow> parse_color_attr rt (attr_value a) name; State_Monad.return (e\<lparr>cell_fg := c\<rparr>) }
      else if attr_name a = lit ''bg'' then do {
        c \<leftarrow> parse_color_attr rt (attr_value a) name; State_Monad.return (e\<lparr>cell_bg := c\<rparr>) }
      else if attr_name a = lit ''align'' then
        State_Monad.return (e\<lparr>cell_align := ok_else (parse_alignment rt (attr_val a)) (cell_align e)\<rparr>)
      else State_Monad.return e)"

definition parse_cell :: "runtime \<Rightarrow> kids \<Rightarrow> ustr \<Rightarrow> Attribute list \<Rightarrow> bool \<Rightarrow> Element parser" where
  "parse_cell rt kids name attrs self_closing = do {
     e \<leftarrow> foreach (cell_attr rt name) \<lparr>cell_fg = None, cell_bg = None, cell_align = AlignLeft\<rparr> attrs;
     cs \<leftarrow> (if self_closing then State_Monad.return [] else kids name);
     State_Monad.return (if name = lit ''th'' then ThE e cs else TdE e cs)
   }"

section \<open>Animation\<close>

definition animate_default :: AnimateElement where
  "animate_default = \<lparr>animate_id = [], animate_fps = 10, animate_loop_behavior = LoopNone, animate_autoplay = True,
     animate_delay_ms = 0, animate_after = None, animate_x = None, animate_y = None, animate_w = None,
     animate_h = None, animate_src = None, animate_background = False\<rparr>"

definition animate_attr :: "runtime \<Rightarrow> AnimateElement \<Rightarrow> Attribute \<Rightarrow> AnimateElement parser" where
  "animate_attr rt e a =
     (let n = attr_name a; v = attr_value a; s = attr_val a
      in if n = lit ''id'' then do { t \<leftarrow> try_copy_string rt s; State_Monad.return (e\<lparr>animate_id := t\<rparr>) }
      else if n = lit ''fps'' then
        State_Monad.return (e\<lparr>animate_fps := min 30 (max 1 (case parse_uint 255 s of Some k \<Rightarrow> k | None \<Rightarrow> 10))\<rparr>)
      else if n = lit ''loop'' then
        State_Monad.return (e\<lparr>animate_loop_behavior := ok_else (parse_loop rt s) (animate_loop_behavior e)\<rparr>)
      else if n = lit ''autoplay'' then State_Monad.return (e\<lparr>animate_autoplay := s \<noteq> lit ''false''\<rparr>)
      else if n = lit ''delay'' then
        State_Monad.return (e\<lparr>animate_delay_ms := ok_else (parse_duration_ms rt s) (animate_delay_ms e)\<rparr>)
      else if n = lit ''after'' then do {
        t \<leftarrow> try_copy_string rt s; State_Monad.return (e\<lparr>animate_after := Some t\<rparr>) }
      else if n = lit ''x'' then State_Monad.return (e\<lparr>animate_x := parse_u16_attr v\<rparr>)
      else if n = lit ''y'' then State_Monad.return (e\<lparr>animate_y := parse_u16_attr v\<rparr>)
      else if n = lit ''w'' then State_Monad.return (e\<lparr>animate_w := parse_u16_attr v\<rparr>)
      else if n = lit ''h'' then State_Monad.return (e\<lparr>animate_h := parse_u16_attr v\<rparr>)
      else if n = lit ''src'' then do {
        t \<leftarrow> try_copy_string rt s; State_Monad.return (e\<lparr>animate_src := Some t\<rparr>) }
      else if n = lit ''background'' then State_Monad.return (e\<lparr>animate_background := s \<noteq> lit ''false''\<rparr>)
      else State_Monad.return e)"

definition parse_animate :: "runtime \<Rightarrow> kids \<Rightarrow> Attribute list \<Rightarrow> bool \<Rightarrow> Element parser" where
  "parse_animate rt kids attrs self_closing = do {
     e \<leftarrow> foreach (animate_attr rt) animate_default attrs;
     cs \<leftarrow> with_children kids ''animate'' self_closing;
     State_Monad.return (AnimateE e cs)
   }"

definition parse_frame :: "kids \<Rightarrow> bool \<Rightarrow> Element parser" where
  "parse_frame kids self_closing = do {
     cs \<leftarrow> with_children kids ''frame'' self_closing;
     State_Monad.return (FrameE cs)
   }"

definition element_def_attr :: "runtime \<Rightarrow> ElementDefElement \<Rightarrow> Attribute \<Rightarrow> ElementDefElement parser" where
  "element_def_attr rt e a =
     (if attr_name a = lit ''id'' then do {
        t \<leftarrow> try_copy_string rt (attr_val a); State_Monad.return (e\<lparr>element_def_id := t\<rparr>) }
      else if attr_name a = lit ''x'' then State_Monad.return (e\<lparr>element_def_x := parse_u16_attr (attr_value a)\<rparr>)
      else if attr_name a = lit ''y'' then State_Monad.return (e\<lparr>element_def_y := parse_u16_attr (attr_value a)\<rparr>)
      else if attr_name a = lit ''fg'' then do {
        c \<leftarrow> parse_color_attr rt (attr_value a) (lit ''element''); State_Monad.return (e\<lparr>element_def_fg := c\<rparr>) }
      else State_Monad.return e)"

definition parse_element_def :: "runtime \<Rightarrow> Attribute list \<Rightarrow> bool \<Rightarrow> Element parser" where
  "parse_element_def rt attrs self_closing = do {
     e \<leftarrow> foreach (element_def_attr rt)
       \<lparr>element_def_id = [], element_def_x = None, element_def_y = None, element_def_fg = None,
        element_def_content = []\<rparr> attrs;
     content \<leftarrow> (if self_closing then State_Monad.return [] else collect_text_content rt ''element'');
     State_Monad.return (ElementDefE (e\<lparr>element_def_content := content\<rparr>))
   }"

definition tween_attr :: "runtime \<Rightarrow> TweenElement \<Rightarrow> Attribute \<Rightarrow> TweenElement parser" where
  "tween_attr rt e a =
     (let n = attr_name a; s = attr_val a
      in if n = lit ''target'' then do { t \<leftarrow> try_copy_string rt s; State_Monad.return (e\<lparr>tween_target := t\<rparr>) }
      else if n = lit ''duration'' then
        State_Monad.return (e\<lparr>tween_duration_ms := ok_else (parse_duration_ms rt s) (tween_duration_ms e)\<rparr>)
      else if n = lit ''loop'' then
        State_Monad.return (e\<lparr>tween_loop_behavior := ok_else (parse_loop rt s) (tween_loop_behavior e)\<rparr>)
      else if n = lit ''easing'' then
        State_Monad.return (e\<lparr>tween_easing := ok_else (parse_easing rt s) (tween_easing e)\<rparr>)
      else if n = lit ''delay'' then
        State_Monad.return (e\<lparr>tween_delay_ms := ok_else (parse_duration_ms rt s) (tween_delay_ms e)\<rparr>)
      else State_Monad.return e)"

definition parse_tween :: "runtime \<Rightarrow> Attribute list \<Rightarrow> bool \<Rightarrow> Element parser" where
  "parse_tween rt attrs self_closing = do {
     e \<leftarrow> foreach (tween_attr rt)
       \<lparr>tween_target = [], tween_duration_ms = 1000, tween_loop_behavior = LoopNone, tween_easing = Linear,
        tween_delay_ms = 0, tween_keyframes = []\<rparr> attrs;
     require rt ''E014'' (tween_target e \<noteq> []) ''tween requires target attribute'';
     keyframes \<leftarrow> (if self_closing then State_Monad.return [] else loop_tokens rt (tween_turn rt) []);
     State_Monad.return (TweenE (e\<lparr>tween_keyframes := keyframes\<rparr>))
   }"

definition text_animate_attr :: "runtime \<Rightarrow> TextAnimateElement \<Rightarrow> Attribute \<Rightarrow> TextAnimateElement parser" where
  "text_animate_attr rt e a =
     (let n = attr_name a; s = attr_val a
      in if n = lit ''effect'' then
        State_Monad.return (e\<lparr>text_animate_effect := ok_else (parse_text_effect rt s) (text_animate_effect e)\<rparr>)
      else if n = lit ''speed'' then
        State_Monad.return (e\<lparr>text_animate_speed_ms := ok_else (parse_duration_ms rt s) (text_animate_speed_ms e)\<rparr>)
      else if n = lit ''direction'' then
        State_Monad.return (e\<lparr>text_animate_direction :=
          ok_else (map_ok Some (parse_direction rt s)) (text_animate_direction e)\<rparr>)
      else State_Monad.return e)"

definition parse_text_animate :: "runtime \<Rightarrow> Attribute list \<Rightarrow> bool \<Rightarrow> Element parser" where
  "parse_text_animate rt attrs self_closing = do {
     e \<leftarrow> foreach (text_animate_attr rt)
       \<lparr>text_animate_effect = Typewriter, text_animate_speed_ms = 50, text_animate_direction = None,
        text_animate_content = []\<rparr> attrs;
     content \<leftarrow> (if self_closing then State_Monad.return []
                 else do { t \<leftarrow> collect_text_content rt ''text-animate''; State_Monad.return (trim_owned_string t) });
     State_Monad.return (TextAnimateE (e\<lparr>text_animate_content := content\<rparr>))
   }"

section \<open>Live content, placeholders, panels\<close>

definition include_attr :: "runtime \<Rightarrow> IncludeElement \<Rightarrow> Attribute \<Rightarrow> IncludeElement parser" where
  "include_attr rt e a =
     (if attr_name a = lit ''name'' then do {
        t \<leftarrow> try_copy_string rt (attr_val a); State_Monad.return (e\<lparr>include_name := t\<rparr>) }
      else State_Monad.return e)"

definition parse_include :: "runtime \<Rightarrow> Attribute list \<Rightarrow> Element parser" where
  "parse_include rt attrs = do {
     e \<leftarrow> foreach (include_attr rt) \<lparr>include_name = []\<rparr> attrs;
     require rt ''E011'' (include_name e \<noteq> []) ''include element requires name attribute'';
     State_Monad.return (IncludeE e)
   }"

definition live_attr :: "runtime \<Rightarrow> LiveElement \<Rightarrow> Attribute \<Rightarrow> LiveElement parser" where
  "live_attr rt e a =
     (let n = attr_name a; s = attr_val a
      in if n = lit ''id'' then do { t \<leftarrow> try_copy_string rt s; State_Monad.return (e\<lparr>live_id := t\<rparr>) }
      else if n = lit ''endpoint'' then do { t \<leftarrow> try_copy_string rt s; State_Monad.return (e\<lparr>live_endpoint := t\<rparr>) }
      else if n = lit ''height'' then
        State_Monad.return (e\<lparr>live_height := ok_else (parse_dimension rt s) (live_height e)\<rparr>)
      else if n = lit ''scroll'' then
        State_Monad.return (e\<lparr>live_scroll := ok_else (parse_live_scroll rt s) (live_scroll e)\<rparr>)
      else if n = lit ''buffer'' then
        State_Monad.return (e\<lparr>live_buffer := (case parse_uint u32_max s of Some k \<Rightarrow> k | None \<Rightarrow> 100)\<rparr>)
      else if n = lit ''delta'' then State_Monad.return (e\<lparr>live_delta := s \<noteq> lit ''false''\<rparr>)
      else State_Monad.return e)"

definition parse_live :: "runtime \<Rightarrow> kids \<Rightarrow> Attribute list \<Rightarrow> bool \<Rightarrow> Element parser" where
  "parse_live rt kids attrs self_closing = do {
     e \<leftarrow> foreach (live_attr rt)
       \<lparr>live_id = [], live_endpoint = [], live_height = Fill, live_scroll = ScrollTail, live_buffer = 100,
        live_delta = False\<rparr> attrs;
     require rt ''E011'' (live_id e \<noteq> []) ''live element requires id attribute'';
     require rt ''E011'' (live_endpoint e \<noteq> []) ''live element requires endpoint attribute'';
     cs \<leftarrow> with_children kids ''live'' self_closing;
     State_Monad.return (LiveE e cs)
   }"

definition panel_attr :: "runtime \<Rightarrow> PanelElement \<Rightarrow> Attribute \<Rightarrow> PanelElement parser" where
  "panel_attr rt e a =
     (if attr_name a = lit ''id'' then do {
        t \<leftarrow> try_copy_string rt (attr_val a); State_Monad.return (e\<lparr>panel_id := t\<rparr>) }
      else if attr_name a = lit ''state'' then do {
        t \<leftarrow> try_copy_string rt (attr_val a); State_Monad.return (e\<lparr>panel_initial_state := t\<rparr>) }
      else State_Monad.return e)"

definition state_of :: "Element \<Rightarrow> StateElement option" where
  "state_of e = (case e of StateE s _ \<Rightarrow> Some s | _ \<Rightarrow> None)"

definition names_state :: "ustr \<Rightarrow> Element \<Rightarrow> bool" where
  "names_state name e = (case state_of e of Some s \<Rightarrow> state_name s = name | None \<Rightarrow> False)"

definition check_state_name :: "runtime \<Rightarrow> ustr \<Rightarrow> Element list \<Rightarrow> unit \<Rightarrow> nat \<Rightarrow> unit parser" where
  "check_state_name rt panel cs u index =
     (case state_of (cs ! index) of
        Some s \<Rightarrow>
          if list_ex (names_state (state_name s)) (take index cs)
          then error_fmt rt ''E024'' [lit ''duplicate state name \"'', state_name s, lit ''\" in panel \"'', panel, lit ''\"'']
          else State_Monad.return ()
      | None \<Rightarrow> State_Monad.return ())"

definition check_states :: "runtime \<Rightarrow> PanelElement \<Rightarrow> Element list \<Rightarrow> bool \<Rightarrow> unit parser" where
  "check_states rt e cs self_closing = do {
     (if filter (\<lambda>c. state_of c \<noteq> None) cs = [] \<and> \<not> self_closing
      then error_fmt rt ''E025'' [lit ''panel \"'', panel_id e, lit ''\" has no [state] children'']
      else State_Monad.return ());
     foreach (check_state_name rt (panel_id e) cs) () [0..<length cs];
     (if panel_initial_state e \<noteq> [] \<and> filter (\<lambda>c. state_of c \<noteq> None) cs \<noteq> [] \<and>
         \<not> list_ex (names_state (panel_initial_state e)) cs
      then error_fmt rt ''E026'' [lit ''initial state \"'', panel_initial_state e, lit ''\" not found in panel \"'',
             panel_id e, lit ''\"'']
      else State_Monad.return ())
   }"

definition parse_panel :: "runtime \<Rightarrow> kids \<Rightarrow> Attribute list \<Rightarrow> bool \<Rightarrow> Element parser" where
  "parse_panel rt kids attrs self_closing = do {
     e \<leftarrow> foreach (panel_attr rt) \<lparr>panel_id = [], panel_initial_state = []\<rparr> attrs;
     require rt ''E011'' (panel_id e \<noteq> []) ''panel requires id attribute'';
     require rt ''E026'' (panel_initial_state e \<noteq> []) ''panel requires state attribute (initial state name)'';
     cs \<leftarrow> with_children kids ''panel'' self_closing;
     check_states rt e cs self_closing;
     State_Monad.return (PanelE e cs)
   }"

definition state_attr :: "runtime \<Rightarrow> StateElement \<Rightarrow> Attribute \<Rightarrow> StateElement parser" where
  "state_attr rt e a =
     (let n = attr_name a; v = attr_value a; s = attr_val a
      in if n = lit ''name'' then do { t \<leftarrow> try_copy_string rt s; State_Monad.return (e\<lparr>state_name := t\<rparr>) }
      else if n = lit ''transition'' then do {
        transition_attr rt ''state'' s;
        t \<leftarrow> try_copy_string rt s;
        State_Monad.return (e\<lparr>state_transition := Some t\<rparr>) }
      else if n = lit ''duration'' then
        State_Monad.return (e\<lparr>state_duration_ms := ok_else (parse_duration_ms rt s) (state_duration_ms e)\<rparr>)
      else if n = lit ''x'' then State_Monad.return (e\<lparr>state_x := parse_u16_attr v\<rparr>)
      else if n = lit ''y'' then State_Monad.return (e\<lparr>state_y := parse_u16_attr v\<rparr>)
      else if n = lit ''w'' then State_Monad.return (e\<lparr>state_w := Some (ok_else (parse_dimension rt s) Fill)\<rparr>)
      else if n = lit ''h'' then State_Monad.return (e\<lparr>state_h := Some (ok_else (parse_dimension rt s) Fit)\<rparr>)
      else State_Monad.return e)"

definition parse_state :: "runtime \<Rightarrow> kids \<Rightarrow> Attribute list \<Rightarrow> bool \<Rightarrow> Element parser" where
  "parse_state rt kids attrs self_closing = do {
     e \<leftarrow> foreach (state_attr rt)
       \<lparr>state_name = [], state_transition = None, state_duration_ms = 200, state_x = None, state_y = None,
        state_w = None, state_h = None\<rparr> attrs;
     require rt ''E011'' (state_name e \<noteq> []) ''state requires name attribute'';
     cs \<leftarrow> with_children kids ''state'' self_closing;
     State_Monad.return (StateE e cs)
   }"

section \<open>Event bindings, details\<close>

record on_fields =
  of_event :: "EventKind option"
  of_source :: "ustr option"
  of_action :: "ActionKind option"
  of_target :: ustr
  of_to :: "ustr option"
  of_delay_ms :: nat

definition on_attr :: "runtime \<Rightarrow> on_fields \<Rightarrow> Attribute \<Rightarrow> on_fields parser" where
  "on_attr rt e a =
     (let n = attr_name a; s = attr_val a
      in if n = lit ''event'' then (case parse_event_kind rt s of
          Inr k \<Rightarrow> State_Monad.return (e\<lparr>of_event := Some k\<rparr>)
        | Inl m \<Rightarrow> do { error_fmt rt ''E041'' [lit ''invalid event kind: '', m]; State_Monad.return e })
      else if n = lit ''source'' then do { t \<leftarrow> try_copy_string rt s; State_Monad.return (e\<lparr>of_source := Some t\<rparr>) }
      else if n = lit ''do'' then (case parse_action_kind rt s of
          Inr k \<Rightarrow> State_Monad.return (e\<lparr>of_action := Some k\<rparr>)
        | Inl m \<Rightarrow> do { error_fmt rt ''E042'' [lit ''invalid action kind: '', m]; State_Monad.return e })
      else if n = lit ''target'' then do { t \<leftarrow> try_copy_string rt s; State_Monad.return (e\<lparr>of_target := t\<rparr>) }
      else if n = lit ''to'' then do { t \<leftarrow> try_copy_string rt s; State_Monad.return (e\<lparr>of_to := Some t\<rparr>) }
      else if n = lit ''delay'' then
        State_Monad.return (e\<lparr>of_delay_ms := ok_else (parse_duration_ms rt s) (of_delay_ms e)\<rparr>)
      else do { unknown_attribute rt ''on'' a; State_Monad.return e })"

definition parse_on :: "runtime \<Rightarrow> Attribute list \<Rightarrow> Element parser" where
  "parse_on rt attrs = do {
     e \<leftarrow> foreach (on_attr rt)
       \<lparr>of_event = None, of_source = None, of_action = None, of_target = [], of_to = None, of_delay_ms = 0\<rparr> attrs;
     require rt ''E041'' (of_event e \<noteq> None) ''[on] requires event attribute'';
     require rt ''E042'' (of_action e \<noteq> None) ''[on] requires do attribute'';
     require rt ''E011'' (of_target e \<noteq> []) ''[on] requires target attribute'';
     require rt ''E043'' (\<not> (of_event e = Some AnimationEndEvent \<and> of_source e = None))
       ''[on] with event=animation-end requires source attribute'';
     State_Monad.return (OnE
       \<lparr>on_event = (case of_event e of Some k \<Rightarrow> k | None \<Rightarrow> PageLoadEvent), on_source = of_source e,
        on_action = (case of_action e of Some k \<Rightarrow> k | None \<Rightarrow> AnimateAction), on_target = of_target e,
        on_to = of_to e, on_delay_ms = of_delay_ms e\<rparr>)
   }"

definition details_attr :: "runtime \<Rightarrow> DetailsElement \<Rightarrow> Attribute \<Rightarrow> DetailsElement parser" where
  "details_attr rt e a =
     (if attr_name a = lit ''summary'' then do {
        t \<leftarrow> try_copy_string rt (attr_val a); State_Monad.return (e\<lparr>details_summary := t\<rparr>) }
      else if attr_name a = lit ''open'' then State_Monad.return (e\<lparr>details_open := True\<rparr>)
      else do { unknown_attribute rt ''details'' a; State_Monad.return e })"

definition is_text :: "Element \<Rightarrow> bool" where
  "is_text e = (case e of TextE _ _ \<Rightarrow> True | _ \<Rightarrow> False)"

text \<open>The summary, its inline children, and the children of the body, from the first child.\<close>

definition split_first ::
  "runtime \<Rightarrow> ustr \<Rightarrow> Element list \<Rightarrow> (ustr \<times> Element list \<times> Element list) parser" where
  "split_first rt summary all = (case all of
       [] \<Rightarrow> State_Monad.return (summary, [], [])
     | first # _ \<Rightarrow>
         if summary = [] \<and> is_text first then
           (case plain_child first of
              Some t \<Rightarrow> State_Monad.return (text_content t, [], [])
            | None \<Rightarrow> do { sc \<leftarrow> try_push rt [] first; State_Monad.return (summary, sc, []) })
         else do { bc \<leftarrow> try_push rt [] first; State_Monad.return (summary, [], bc) })"

definition parse_details :: "runtime \<Rightarrow> kids \<Rightarrow> Attribute list \<Rightarrow> bool \<Rightarrow> Element parser" where
  "parse_details rt kids attrs self_closing = do {
     e \<leftarrow> foreach (details_attr rt) \<lparr>details_summary = [], details_open = False\<rparr> attrs;
     all \<leftarrow> with_children kids ''details'' self_closing;
     (summary, sc, bc) \<leftarrow> split_first rt (details_summary e) all;
     bc \<leftarrow> foreach (try_push rt) bc (tl all);
     require rt ''E011'' (\<not> (summary = [] \<and> sc = [])) ''details element requires summary attribute or text content'';
     State_Monad.return (DetailsE (e\<lparr>details_summary := summary\<rparr>) sc bc)
   }"

section \<open>Dispatch\<close>

definition inside :: "runtime \<Rightarrow> string \<Rightarrow> bool \<Rightarrow> string \<Rightarrow> Element parser \<Rightarrow> Element option parser" where
  "inside rt code ok message m = do {
     require rt code ok message;
     e \<leftarrow> m;
     State_Monad.return (Some e)
   }"

definition some_element :: "Element parser \<Rightarrow> Element option parser" where
  "some_element m = do { e \<leftarrow> m; State_Monad.return (Some e) }"

definition no_sticky :: ContainerElement where
  "no_sticky = \<lparr>container_sticky = None\<rparr>"

text \<open>What an unknown element stands for: its children, in a body when there are several.\<close>

definition pass_through :: "Element list \<Rightarrow> Element option" where
  "pass_through cs = (case cs of [] \<Rightarrow> None | [e] \<Rightarrow> Some e | _ \<Rightarrow> Some (BodyE no_sticky cs))"

definition match_element ::
  "runtime \<Rightarrow> kids \<Rightarrow> ustr \<Rightarrow> Attribute list \<Rightarrow> bool \<Rightarrow> ustr \<Rightarrow> Element option parser" where
  "match_element rt kids name attrs self_closing parent_tag =
     (if name = lit ''box'' then some_element (parse_box rt kids attrs self_closing)
      else if name = lit ''row'' then some_element (parse_row rt kids attrs self_closing)
      else if name = lit ''col'' then
        inside rt ''E002'' (parent_tag = lit ''row'') ''[col] must be inside [row]''
          (parse_col rt kids attrs self_closing)
      else if name = lit ''hr'' \<or> name = lit ''divider'' then some_element (parse_hr rt attrs)
      else if name = lit ''spacer'' then some_element (parse_spacer rt attrs)
      else if name = lit ''header'' \<or> name = lit ''body'' \<or> name = lit ''footer'' then
        some_element (parse_container rt kids name attrs self_closing)
      else if name = lit ''nav'' then some_element (parse_nav rt kids attrs self_closing)
      else if name = lit ''text'' then some_element (parse_text rt kids attrs self_closing)
      else if name = lit ''pre'' then some_element (parse_pre rt attrs self_closing)
      else if name = lit ''heading'' then some_element (parse_heading rt kids attrs self_closing)
      else if name = lit ''list'' then some_element (parse_list rt kids attrs self_closing)
      else if name = lit ''item'' then
        inside rt ''E003'' (parent_tag = lit ''list'') ''[item] must be inside [list]'' (parse_item kids self_closing)
      else if name = lit ''link'' then some_element (parse_link rt kids attrs self_closing)
      else if name = lit ''input'' then some_element (parse_input rt attrs)
      else if name = lit ''select'' then some_element (parse_select rt kids attrs self_closing)
      else if name = lit ''option'' then
        inside rt ''E004'' (parent_tag = lit ''select'') ''[option] must be inside [select]''
          (parse_option rt attrs self_closing)
      else if name = lit ''button'' then some_element (parse_button rt attrs self_closing)
      else if name = lit ''form'' then some_element (parse_form rt kids attrs self_closing)
      else if name = lit ''art'' then some_element (parse_art rt attrs self_closing)
      else if name = lit ''table'' then some_element (parse_table rt kids attrs self_closing)
      else if name = lit ''thead'' \<or> name = lit ''tbody'' then
        some_element (parse_container rt kids name attrs self_closing)
      else if name = lit ''tr'' then
        inside rt ''E005'' (parent_tag \<in> {lit ''thead'', lit ''tbody'', lit ''table''})
          ''[tr] must be inside table structure'' (parse_tr kids self_closing)
      else if name = lit ''td'' \<or> name = lit ''th'' then do {
        (if parent_tag = lit ''tr'' then State_Monad.return ()
         else error_fmt rt ''E006'' [lit ''['', name, lit ''] must be inside [tr]'']);
        some_element (parse_cell rt kids name attrs self_closing) }
      else if name = lit ''animate'' then some_element (parse_animate rt kids attrs self_closing)
      else if name = lit ''frame'' then
        inside rt ''E007'' (parent_tag = lit ''animate'') ''[frame] must be inside [animate]''
          (parse_frame kids self_closing)
      else if name = lit ''element'' then some_element (parse_element_def rt attrs self_closing)
      else if name = lit ''tween'' then some_element (parse_tween rt attrs self_closing)
      else if name = lit ''text-animate'' then some_element (parse_text_animate rt attrs self_closing)
      else if name = lit ''at'' then do {
        require rt ''E008'' (parent_tag = lit ''tween'') ''[at] must be inside [tween]'';
        (if self_closing then State_Monad.return () else skip_until_close rt (lit ''at''));
        State_Monad.return None }
      else if name = lit ''live'' then some_element (parse_live rt kids attrs self_closing)
      else if name = lit ''include'' then some_element (parse_include rt attrs)
      else if name = lit ''panel'' then some_element (parse_panel rt kids attrs self_closing)
      else if name = lit ''state'' then
        inside rt ''E025'' (parent_tag = lit ''panel'') ''[state] must be inside [panel]''
          (parse_state rt kids attrs self_closing)
      else if name = lit ''details'' then some_element (parse_details rt kids attrs self_closing)
      else if name = lit ''meta'' \<or> name = lit ''style'' then State_Monad.return None
      else if name = lit ''on'' then do {
        (if self_closing then State_Monad.return ()
         else do { warning_msg rt ''W005'' ''[on] should be self-closing''; skip_until_close rt (lit ''on'') });
        some_element (parse_on rt attrs) }
      else if name = lit ''pagination'' then
        some_element (parse_container rt kids (lit ''pagination'') attrs self_closing)
      else do {
        warning_fmt rt ''W001'' [lit ''unknown element ['', name, lit ''], ignored''];
        if self_closing then State_Monad.return None
        else do { cs \<leftarrow> kids name; State_Monad.return (pass_through cs) }
      })"

definition parse_element ::
  "runtime \<Rightarrow> kids \<Rightarrow> ustr \<Rightarrow> Attribute list \<Rightarrow> bool \<Rightarrow> ustr \<Rightarrow> Element option parser" where
  "parse_element rt kids name attrs self_closing parent_tag = do {
     change_depth Suc;
     ok \<leftarrow> check_depth_limit rt;
     if \<not> ok then do {
       change_depth (\<lambda>d. d - 1);
       (if self_closing then State_Monad.return () else skip_until_close rt name);
       State_Monad.return None
     } else do {
       e \<leftarrow> match_element rt kids name attrs self_closing parent_tag;
       change_depth (\<lambda>d. d - 1);
       State_Monad.return e
     }
   }"

section \<open>Children\<close>

definition keeps_text :: "ustr \<Rightarrow> ustr \<Rightarrow> bool" where
  "keeps_text parent_tag s =
     (if parent_tag \<in> {lit ''text'', lit ''heading'', lit ''link'', lit ''item''} then s \<noteq> [] else trim s \<noteq> [])"

definition children_turn :: "runtime \<Rightarrow> kids \<Rightarrow> ustr \<Rightarrow> Element list turn" where
  "children_turn rt kids parent_tag cs t = (case t of
       Eof \<Rightarrow> do {
         (if parent_tag \<noteq> lit ''page'' then warning_fmt rt ''W003'' [lit ''missing closing tag [/'', parent_tag, lit '']'']
          else State_Monad.return ());
         break cs }
     | CloseTag name \<Rightarrow>
         if name = parent_tag then do { advance; break cs }
         else do {
           warning_fmt rt ''W004'' [lit ''unexpected [/'', name, lit ''], expected [/'', parent_tag, lit '']''];
           advance;
           go_on cs }
     | TextToken s \<Rightarrow> do {
         advance;
         if keeps_text parent_tag s then do { cs \<leftarrow> try_push rt cs (TextE (plain_text s) []); go_on cs }
         else go_on cs }
     | OpenTag name attributes self_closing \<Rightarrow> do {
         advance;
         ok \<leftarrow> check_element_limit rt;
         if \<not> ok then break cs
         else do {
           e \<leftarrow> parse_element rt kids name attributes self_closing parent_tag;
           case e of
             Some e \<Rightarrow> do { cs \<leftarrow> try_push rt cs e; go_on cs }
           | None \<Rightarrow> go_on cs
         } })"

definition children_loop :: "runtime \<Rightarrow> kids \<Rightarrow> kids" where
  "children_loop rt kids parent_tag = loop_tokens rt (children_turn rt kids parent_tag) []"

text \<open>The children as far as the given number of nested calls of \<open>parse_children\<close> goes.\<close>

primrec children_at :: "runtime \<Rightarrow> nat \<Rightarrow> kids" where
  "children_at rt 0 = (\<lambda>parent_tag. State_Monad.return [])"
| "children_at rt (Suc k) = children_loop rt (children_at rt k)"

definition parse_children :: "runtime \<Rightarrow> kids" where
  "parse_children rt = children_at rt (MAX_DEPTH + 1)"

section \<open>Documents\<close>

record page_fields =
  pf_mode :: PageMode
  pf_title :: "ustr option"
  pf_cols :: "nat option"
  pf_rows :: "nat option"
  pf_transition :: "TransitionKind option"
  pf_duration :: nat

definition bounded_u16 :: "nat \<Rightarrow> ustr \<Rightarrow> nat option" where
  "bounded_u16 m s = (case parse_uint u16_max s of Some k \<Rightarrow> if k \<le> m then Some k else None | None \<Rightarrow> None)"

definition page_attr :: "runtime \<Rightarrow> page_fields \<Rightarrow> Attribute \<Rightarrow> page_fields parser" where
  "page_attr rt e a =
     (let n = attr_name a; s = attr_val a
      in if n = lit ''mode'' then
        if eq_ignore_ascii_case s (lit ''document'') then State_Monad.return (e\<lparr>pf_mode := DocumentMode\<rparr>)
        else if \<not> eq_ignore_ascii_case s (lit ''screen'') then do {
          warning_fmt rt ''W002'' [lit ''unknown page mode: '', s, lit '', defaulting to document''];
          State_Monad.return e }
        else State_Monad.return e
      else if n = lit ''title'' then do { t \<leftarrow> try_copy_string rt s; State_Monad.return (e\<lparr>pf_title := Some t\<rparr>) }
      else if n = lit ''cols'' then do {
        (if bounded_u16 MAX_LAYOUT_COLUMNS s = None
         then warning_fmt rt ''W002'' [lit ''screen columns must be at most '', show_nat MAX_LAYOUT_COLUMNS]
         else State_Monad.return ());
        State_Monad.return (e\<lparr>pf_cols := bounded_u16 MAX_LAYOUT_COLUMNS s\<rparr>) }
      else if n = lit ''rows'' then do {
        (if bounded_u16 MAX_LAYOUT_ROWS s = None
         then warning_fmt rt ''W002'' [lit ''screen rows must be at most '', show_nat MAX_LAYOUT_ROWS]
         else State_Monad.return ());
        State_Monad.return (e\<lparr>pf_rows := bounded_u16 MAX_LAYOUT_ROWS s\<rparr>) }
      else if n = lit ''transition'' then do {
        t \<leftarrow> transition_attr rt ''page'' s; State_Monad.return (e\<lparr>pf_transition := t\<rparr>) }
      else if n = lit ''duration'' then
        State_Monad.return (e\<lparr>pf_duration := ok_else (parse_duration_ms rt s) (pf_duration e)\<rparr>)
      else if n = lit ''scroll'' \<or> n = lit ''paginated'' then State_Monad.return e
      else do {
        warning_fmt rt ''W002'' [lit ''unknown attribute \"'', n, lit ''\" on [page]''];
        State_Monad.return e })"

definition screen_mode :: "Attribute list \<Rightarrow> bool" where
  "screen_mode attrs = (case find (\<lambda>a. attr_name a = lit ''mode'') attrs of
       Some a \<Rightarrow> eq_ignore_ascii_case (attr_val a) (lit ''screen'')
     | None \<Rightarrow> False)"

definition parse_page :: "runtime \<Rightarrow> kids \<Rightarrow> Attribute list \<Rightarrow> Page parser" where
  "parse_page rt kids attrs = do {
     e \<leftarrow> foreach (page_attr rt)
       \<lparr>pf_mode = DocumentMode, pf_title = None, pf_cols = None, pf_rows = None, pf_transition = None,
        pf_duration = 300\<rparr> attrs;
     cs \<leftarrow> kids (lit ''page'');
     State_Monad.return
       \<lparr>page_mode = (if screen_mode attrs then ScreenMode (pf_cols e) (pf_rows e) else pf_mode e),
        page_title = pf_title e, page_transition = pf_transition e,
        page_transition_duration_ms = pf_duration e, page_children = cs\<rparr>
   }"

record ParseResult =
  pr_document :: "Page option"
  pr_diagnostics :: "Diagnostic list"
  resource_exhausted :: bool

definition match_root :: "runtime \<Rightarrow> kids \<Rightarrow> Token \<Rightarrow> Page option parser" where
  "match_root rt kids t = (case t of
       OpenTag name attributes self_closing \<Rightarrow>
         if name = lit ''page'' then do {
           advance;
           if self_closing then do {
             error_msg rt ''E001'' ''page element cannot be self-closing'';
             State_Monad.return None
           } else do { page \<leftarrow> parse_page rt kids attributes; State_Monad.return (Some page) }
         } else do {
           error_msg rt ''E001'' ''document must have [page] as root element'';
           State_Monad.return None }
     | Eof \<Rightarrow> do {
         error_fmt rt ''E001'' [lit ''empty document '' @ [8212] @ lit '' expected [page] as root element''];
         State_Monad.return None }
     | _ \<Rightarrow> do {
         error_msg rt ''E001'' ''document must have [page] as root element'';
         State_Monad.return None })"

definition parse_root :: "runtime \<Rightarrow> kids \<Rightarrow> Page option parser" where
  "parse_root rt kids = do {
     skip_text rt;
     t \<leftarrow> current_owned rt;
     match_root rt kids t
   }"

definition check_trailing :: "runtime \<Rightarrow> unit parser" where
  "check_trailing rt = do {
     skip_text rt;
     t \<leftarrow> current_owned rt;
     if t \<noteq> Eof
     then error_fmt rt ''E001''
       [lit ''content after [/page] '' @ [8212] @ lit '' a document has exactly one [page] root'']
     else State_Monad.return ()
   }"

definition publish :: "Page option \<Rightarrow> Parser \<Rightarrow> ParseResult" where
  "publish document p =
     \<lparr>pr_document = (if allocation_failed p then None else document),
      pr_diagnostics = diagnostics p, resource_exhausted = allocation_failed p\<rparr>"

definition parse_document :: "runtime \<Rightarrow> ParseResult parser" where
  "parse_document rt = do {
     document \<leftarrow> parse_root rt (parse_children rt);
     (if document \<noteq> None then check_trailing rt else State_Monad.return ());
     p \<leftarrow> State_Monad.get;
     State_Monad.return (publish document p)
   }"

end
