(* ===== verification/Parser_Laws.thy ===== *)
theory Parser_Laws
  imports Parser_Elements
begin

text \<open>
  How the AML parser runs: every method only reads on, adds diagnostics and restores the nesting
  depth; the loops need no test beside their own conditions; and \<open>parse_children\<close> satisfies the
  recursive equation of the source, so that the levels of \<open>children_at\<close> never run out.
\<close>

section \<open>Loops\<close>

definition turn :: "runtime \<Rightarrow> 'a turn \<Rightarrow> 'a \<Rightarrow> ('a \<times> bool) parser" where
  "turn rt body a = do { t \<leftarrow> current_owned rt; body a t }"

lemma run_state_loop:
  "run_state (loop_tokens rt body a) p =
   (case run_state (turn rt body a) p of
      ((a', go), q) \<Rightarrow> if go \<and> left q < left p then run_state (loop_tokens rt body a') q else (a', q))"
  unfolding loop_tokens_def turn_def
  by (simp add: token_loop.simps [of rt body a p] split: prod.split)

lemma loop_invariant:
  assumes "\<And>a p a' go q. I a p \<Longrightarrow> run_state (turn rt body a) p = ((a', go), q) \<Longrightarrow> I a' q"
    and "I a p" and "run_state (loop_tokens rt body a) p = (b, r)"
  shows "I b r"
  using assms(2,3)
proof (induction "left p" arbitrary: a p rule: less_induct)
  case less
  obtain a' go q where t: "run_state (turn rt body a) p = ((a', go), q)"
    by (metis surj_pair)
  with assms(1) less.prems(1) have I: "I a' q"
    by blast
  show ?case
  proof (cases "go \<and> left q < left p")
    case True
    with t less.prems(2) have "run_state (loop_tokens rt body a') q = (b, r)"
      by (simp add: run_state_loop [of rt body a p])
    with True less.hyps [OF _ I] show ?thesis by blast
  next
    case False
    with t less.prems(2) have "b = a'" "r = q"
      by (auto simp: run_state_loop [of rt body a p])
    with I show ?thesis by simp
  qed
qed

lemma evolving_loop [evolve_intros]:
  assumes "\<And>a t. evolving (body a t)"
  shows "evolving (loop_tokens rt body a)"
proof
  fix b p r
  assume *: "run_state (loop_tokens rt body a) p = (b, r)"
  have e: "evolving (turn rt body a)" for a
    unfolding turn_def by (intro evolve_intros quiet_evolving [OF quiet_current_owned] assms)
  show "evolves p r"
    by (rule loop_invariant [where I = "\<lambda>_ q. evolves p q", OF _ _ *])
      (use e in \<open>auto dest: state_io_relD intro: evolves_trans\<close>)
qed

text \<open>
  A body that goes on only after a token, and then has read one, makes the test of progress
  redundant: the loop is the recursion the source writes.
\<close>

definition advancing :: "'a turn \<Rightarrow> bool" where
  "advancing body \<longleftrightarrow>
     (\<forall>a t p a' q. run_state (body a t) p = ((a', True), q) \<longrightarrow>
        t \<noteq> Eof \<and> (p_pos p < length (p_tokens p) \<longrightarrow> left q < left p))"

lemma current_owned_run:
  assumes "run_state (current_owned rt) p = (t, q)"
  shows "left q = left p" "p_pos q = p_pos p" "p_tokens q = p_tokens p" "t \<noteq> Eof \<Longrightarrow> p_pos p < length (p_tokens p)"
proof -
  have "reports p q"
    using assms quiet_current_owned [of rt] by blast
  then show "left q = left p" "p_pos q = p_pos p" "p_tokens q = p_tokens p"
    by (simp_all add: reports_def evolves_def left_def)
  show "p_pos p < length (p_tokens p)" if "t \<noteq> Eof"
    using assms that by (auto simp: current_owned_def current_def try_clone_token_def split: if_splits)
qed

lemma loop_tokens_unfold:
  assumes "advancing body"
  shows "loop_tokens rt body a =
    do { (a', go) \<leftarrow> turn rt body a; if go then loop_tokens rt body a' else State_Monad.return a' }"
proof (rule state_ext)
  fix p
  obtain t p' where t: "run_state (current_owned rt) p = (t, p')"
    by (metis surj_pair)
  obtain a' go q where b: "run_state (body a t) p' = ((a', go), q)"
    by (metis surj_pair)
  have "left q < left p" if go
    using assms b that current_owned_run [OF t] unfolding advancing_def by metis
  then show "run_state (loop_tokens rt body a) p =
      run_state (do { (a', go) \<leftarrow> turn rt body a; if go then loop_tokens rt body a' else State_Monad.return a' }) p"
    using t b by (auto simp: run_state_loop [of rt body a p] turn_def)
qed

text \<open>Bodies that go on only after \<open>advance\<close>.\<close>

definition turns :: "('a \<times> bool) parser \<Rightarrow> bool" where
  "turns m \<longleftrightarrow> (\<forall>p a q. run_state m p = ((a, True), q) \<longrightarrow> p_pos p < length (p_tokens p) \<longrightarrow> left q < left p)"

named_theorems turn_intros \<open>bodies of loops that read a token before they go on\<close>

lemma turns_break [turn_intros]: "turns (break a)"
  by (simp add: turns_def break_def)

lemma turns_advance [turn_intros]:
  assumes "\<And>x. evolving (f x)" shows "turns (State_Monad.bind advance f)"
proof -
  have "left q < left p"
    if "run_state (f ()) (p\<lparr>p_pos := Suc (p_pos p)\<rparr>) = (r, q)" "p_pos p < length (p_tokens p)" for p q r
  proof -
    have "evolves (p\<lparr>p_pos := Suc (p_pos p)\<rparr>) q"
      using assms that(1) by blast
    then show ?thesis
      using that(2) by (auto simp: evolves_def left_def)
  qed
  then show ?thesis
    by (auto simp: turns_def advance_def State_Monad.update_def)
qed

lemma turns_quiet [turn_intros]:
  assumes "quiet m" "\<And>x. turns (f x)" shows "turns (State_Monad.bind m f)"
  unfolding turns_def
proof (intro allI impI)
  fix p a q
  assume r: "run_state (State_Monad.bind m f) p = ((a, True), q)" and l: "p_pos p < length (p_tokens p)"
  obtain x p' where m: "run_state m p = (x, p')"
    by (metis surj_pair)
  with assms(1) have "reports p p'"
    by blast
  then have "left p' = left p" "p_pos p' < length (p_tokens p')"
    using l by (simp_all add: reports_def evolves_def left_def)
  moreover have "run_state (f x) p' = ((a, True), q)"
    using m r by simp
  ultimately show "left q < left p"
    using assms(2) [of x] unfolding turns_def by metis
qed

lemma turns_if [turn_intros]: "(b \<Longrightarrow> turns m) \<Longrightarrow> (\<not> b \<Longrightarrow> turns n) \<Longrightarrow> turns (if b then m else n)"
  by simp

lemma turns_prod [turn_intros]: "(\<And>y z. x = (y, z) \<Longrightarrow> turns (f y z)) \<Longrightarrow> turns (case x of (y, z) \<Rightarrow> f y z)"
  by (cases x) simp

lemma turns_token [turn_intros]:
  "(\<And>n as sc. t = OpenTag n as sc \<Longrightarrow> turns (f n as sc)) \<Longrightarrow>
   (\<And>n. t = CloseTag n \<Longrightarrow> turns (g n)) \<Longrightarrow> (\<And>s. t = TextToken s \<Longrightarrow> turns (h s)) \<Longrightarrow>
   (t = Eof \<Longrightarrow> turns m) \<Longrightarrow>
   turns (case t of OpenTag n as sc \<Rightarrow> f n as sc | CloseTag n \<Rightarrow> g n | TextToken s \<Rightarrow> h s | Eof \<Rightarrow> m)"
  by (cases t) simp_all

lemma advancingI:
  assumes "\<And>a t. turns (body a t)" "\<And>a p. snd (fst (run_state (body a Eof) p)) = False"
  shows "advancing body"
  using assms unfolding advancing_def turns_def by (metis fst_conv snd_conv)

section \<open>Every method evolves\<close>

lemma evolving_go_on [evolve_intros]: "evolving (go_on a)"
  by (simp add: go_on_def evolving_return)

lemma evolving_break [evolve_intros]: "evolving (break a)"
  by (simp add: break_def evolving_return)

lemmas quiet_primitives =
  quiet_copy_string quiet_push quiet_current_owned quiet_error_fmt quiet_warning_fmt quiet_error
  quiet_warning quiet_color_attr quiet_transition_attr quiet_unknown_attribute quiet_triggers
  quiet_depth_limit quiet_mark

lemmas evolving_primitives [evolve_intros] = quiet_primitives [THEN quiet_evolving]

lemma evolving_skip [evolve_intros]: "evolving (skip_until_close rt tag)"
  unfolding skip_until_close_def skip_turn_def by (intro evolve_intros)

lemma evolving_skip_text [evolve_intros]: "evolving (skip_text rt)"
  unfolding skip_text_def skip_text_turn_def by (intro evolve_intros)

lemma evolving_text_content [evolve_intros]: "evolving (collect_text_content rt tag)"
  unfolding collect_text_content_def text_turn_def by (intro evolve_intros)

lemma quiet_run_attr [evolve_intros]: "quiet (run_attr rt tag style a)"
  unfolding run_attr_def by (intro evolve_intros)

lemma evolving_styled_runs [evolve_intros]: "evolving (collect_styled_runs rt tag)"
  unfolding collect_styled_runs_def styled_turn_def
  by (intro evolve_intros quiet_evolving [OF quiet_run_attr])

lemma evolving_keyframe [evolve_intros]: "evolving (parse_keyframe rt attrs sc)"
  unfolding parse_keyframe_def by (intro evolve_intros)

lemma evolving_tween_turn [evolve_intros]: "evolving (tween_turn rt kfs t)"
  unfolding tween_turn_def by (intro evolve_intros)

text \<open>The loops of the leaves advance.\<close>

lemma advancing_skip: "advancing (skip_turn tag)"
  by (rule advancingI; (unfold skip_turn_def)?; (intro turn_intros evolve_intros)?; simp add: break_def)

lemma advancing_skip_text: "advancing skip_text_turn"
  by (rule advancingI; (unfold skip_text_turn_def)?; (intro turn_intros evolve_intros)?; simp add: break_def)

lemma advancing_text: "advancing (text_turn rt tag)"
  by (rule advancingI; (unfold text_turn_def)?; (intro turn_intros evolve_intros)?; simp add: break_def)

lemma advancing_styled: "advancing (styled_turn rt tag)"
  by (rule advancingI; (unfold styled_turn_def)?; (intro turn_intros evolve_intros)?; simp add: break_def split: prod.split)

lemma advancing_tween: "advancing (tween_turn rt)"
  by (rule advancingI; (unfold tween_turn_def)?; (intro turn_intros evolve_intros)?; simp add: break_def)

section \<open>Element parsers evolve\<close>

text \<open>The attribute readers report and nothing else.\<close>

lemma quiet_attrs [evolve_intros]:
  "quiet (box_attr rt e1 a)" "quiet (row_attr rt e2 a)" "quiet (col_attr rt e3 a)" "quiet (hr_attr rt e4 a)"
  "quiet (spacer_attr rt e5 a)" "quiet (text_attr rt e6 a)" "quiet (pre_attr rt e7 a)" "quiet (heading_attr rt e8 a)"
  "quiet (list_attr rt e9 a)" "quiet (link_attr rt e10 a)" "quiet (input_attr rt e11 a)" "quiet (select_attr rt e12 a)"
  "quiet (option_attr rt e13 a)" "quiet (form_attr rt e15 a)" "quiet (art_attr rt e16 a)"
  "quiet (cell_attr rt name e17 a)" "quiet (animate_attr rt e18 a)" "quiet (element_def_attr rt e19 a)"
  "quiet (tween_attr rt e20 a)" "quiet (text_animate_attr rt e21 a)" "quiet (include_attr rt e22 a)"
  "quiet (live_attr rt e23 a)" "quiet (panel_attr rt e24 a)" "quiet (state_attr rt e25 a)"
  "quiet (on_attr rt e26 a)" "quiet (details_attr rt e27 a)" "quiet (page_attr rt e28 a)"
  unfolding box_attr_def row_attr_def col_attr_def hr_attr_def spacer_attr_def text_attr_def pre_attr_def
    heading_attr_def list_attr_def link_attr_def input_attr_def select_attr_def option_attr_def form_attr_def
    art_attr_def cell_attr_def animate_attr_def element_def_attr_def tween_attr_def text_animate_attr_def
    include_attr_def live_attr_def panel_attr_def state_attr_def on_attr_def details_attr_def page_attr_def
  by (intro evolve_intros)+

lemma quiet_push_state [evolve_intros]: "quiet (push_state rt xs s)"
  unfolding push_state_def by (intro evolve_intros)

lemma quiet_button_attr [evolve_intros]: "quiet (button_attr rt e a)"
  unfolding button_attr_def by (intro evolve_intros)

lemma quiet_heading_child [evolve_intros]: "quiet (heading_child rt acc c)"
  unfolding heading_child_def by (intro evolve_intros)

lemma quiet_require [evolve_intros]: "quiet (require rt code ok s)"
  unfolding require_def by (intro evolve_intros)

lemma quiet_check_states [evolve_intros]: "quiet (check_states rt e cs sc)"
  unfolding check_states_def check_state_name_def by (intro evolve_intros)

lemma quiet_split_first [evolve_intros]: "quiet (split_first rt s all)"
  unfolding split_first_def by (intro evolve_intros)

lemmas evolving_readers [evolve_intros] =
  quiet_attrs [THEN quiet_evolving] quiet_button_attr [THEN quiet_evolving]
  quiet_heading_child [THEN quiet_evolving] quiet_require [THEN quiet_evolving]
  quiet_check_states [THEN quiet_evolving] quiet_split_first [THEN quiet_evolving]

text \<open>With children that evolve, so do the element parsers.\<close>

lemma evolving_leaves [evolve_intros]:
  "evolving (parse_hr rt attrs)" "evolving (parse_spacer rt attrs)" "evolving (parse_pre rt attrs sc)"
  "evolving (parse_input rt attrs)" "evolving (parse_option rt attrs sc)" "evolving (parse_button rt attrs sc)"
  "evolving (parse_art rt attrs sc)" "evolving (parse_element_def rt attrs sc)" "evolving (parse_tween rt attrs sc)"
  "evolving (parse_text_animate rt attrs sc)" "evolving (parse_include rt attrs)" "evolving (parse_on rt attrs)"
  unfolding parse_hr_def parse_spacer_def parse_pre_def parse_input_def parse_option_def parse_button_def
    parse_art_def parse_element_def_def parse_tween_def parse_text_animate_def parse_include_def parse_on_def
  by (intro evolve_intros)+

lemma evolving_with_children:
  assumes "\<And>tag. evolving (kids tag)" shows "evolving (with_children kids tag sc)"
  unfolding with_children_def by (intro evolve_intros assms)

lemmas node_defs = parse_box_def parse_row_def parse_col_def parse_container_def parse_nav_def parse_text_def
  parse_heading_def parse_list_def parse_item_def parse_link_def parse_select_def parse_form_def
  parse_table_def parse_tr_def parse_cell_def parse_animate_def parse_frame_def parse_live_def
  parse_panel_def parse_state_def parse_details_def

lemma evolving_nodes:
  assumes kids: "\<And>tag. evolving (kids tag)"
  shows "evolving (parse_box rt kids attrs sc)" "evolving (parse_row rt kids attrs sc)"
    "evolving (parse_col rt kids attrs sc)" "evolving (parse_container rt kids name attrs sc)"
    "evolving (parse_nav rt kids attrs sc)" "evolving (parse_text rt kids attrs sc)" "evolving (parse_heading rt kids attrs sc)"
    "evolving (parse_list rt kids attrs sc)" "evolving (parse_item kids sc)" "evolving (parse_link rt kids attrs sc)"
    "evolving (parse_select rt kids attrs sc)" "evolving (parse_form rt kids attrs sc)" "evolving (parse_table rt kids attrs sc)"
    "evolving (parse_tr kids sc)" "evolving (parse_cell rt kids name attrs sc)" "evolving (parse_animate rt kids attrs sc)"
    "evolving (parse_frame kids sc)" "evolving (parse_live rt kids attrs sc)" "evolving (parse_panel rt kids attrs sc)"
    "evolving (parse_state rt kids attrs sc)" "evolving (parse_details rt kids attrs sc)"
  unfolding node_defs by (intro evolve_intros evolving_with_children kids)+

lemma evolving_elements:
  assumes kids: "\<And>tag. evolving (kids tag)"
  shows "evolving (match_element rt kids name attrs sc parent)"
  unfolding match_element_def some_element_def inside_def
  by (intro evolve_intros evolving_nodes kids)

lemma run_change_depth [simp]: "run_state (change_depth f) p = ((), p\<lparr>p_depth := f (p_depth p)\<rparr>)"
  by (simp add: change_depth_def State_Monad.update_def)

lemma evolves_nested:
  assumes "evolves (p\<lparr>p_depth := d\<rparr>) q"
  shows "evolves p (q\<lparr>p_depth := p_depth p\<rparr>)" "p_depth q = d"
  using assms by (auto simp: evolves_def)

lemma check_depth_limit_run:
  "run_state (check_depth_limit rt) p = (ok, q) \<Longrightarrow> ok \<longleftrightarrow> p_depth p \<le> MAX_DEPTH"
  by (auto simp: check_depth_limit_def split: if_splits prod.splits)

lemma parse_element_run:
  assumes "run_state (parse_element rt kids name attrs sc parent) p = (e, r)"
  obtains q where "run_state (check_depth_limit rt) (p\<lparr>p_depth := Suc (p_depth p)\<rparr>) = (False, q)"
      "p_depth p \<ge> MAX_DEPTH" "e = None" "q\<lparr>p_depth := p_depth p\<rparr> = r \<or>
       run_state (skip_until_close rt name) (q\<lparr>p_depth := p_depth p\<rparr>) = ((), r)"
  | q r' where "run_state (check_depth_limit rt) (p\<lparr>p_depth := Suc (p_depth p)\<rparr>) = (True, q)"
      "p_depth p < MAX_DEPTH" "run_state (match_element rt kids name attrs sc parent) q = (e, r')"
      "r = r'\<lparr>p_depth := p_depth r' - 1\<rparr>"
proof -
  obtain ok q where c: "run_state (check_depth_limit rt) (p\<lparr>p_depth := Suc (p_depth p)\<rparr>) = (ok, q)"
    by (metis surj_pair)
  have q: "reports (p\<lparr>p_depth := Suc (p_depth p)\<rparr>) q"
    using c quiet_depth_limit [of rt] by blast
  then have d: "p_depth q = Suc (p_depth p)"
    by (simp add: reports_def evolves_def)
  show thesis
  proof (cases ok)
    case False
    with c have "p_depth p \<ge> MAX_DEPTH"
      using check_depth_limit_run [OF c] by simp
    with False c d assms that(1) show thesis
      by (auto simp: parse_element_def split: if_splits prod.splits)
  next
    case True
    then have "p_depth p < MAX_DEPTH"
      using check_depth_limit_run [OF c] by simp
    with True c assms that(2) show thesis
      by (auto simp: parse_element_def split: prod.splits)
  qed
qed

lemma evolving_parse_element:
  assumes "\<And>tag. evolving (kids tag)"
  shows "evolving (parse_element rt kids name attrs sc parent)"
proof
  fix e p r
  assume "run_state (parse_element rt kids name attrs sc parent) p = (e, r)"
  then show "evolves p r"
  proof (cases rule: parse_element_run)
    case (1 q)
    have "reports (p\<lparr>p_depth := Suc (p_depth p)\<rparr>) q"
      using 1(1) quiet_depth_limit [of rt] by blast
    then have "evolves p (q\<lparr>p_depth := p_depth p\<rparr>)"
      using evolves_nested by (auto simp: reports_def)
    then show ?thesis
      using 1(4) evolving_skip [of rt name] by (auto dest!: state_io_relD intro: evolves_trans)
  next
    case (2 q r')
    have "reports (p\<lparr>p_depth := Suc (p_depth p)\<rparr>) q"
      using 2(1) quiet_depth_limit [of rt] by blast
    moreover have "evolves q r'"
      using 2(3) evolving_elements [of kids, OF assms] by blast
    ultimately have *: "evolves (p\<lparr>p_depth := Suc (p_depth p)\<rparr>) r'"
      by (auto simp: reports_def intro: evolves_trans)
    then show ?thesis
      using evolves_nested [OF *] 2(4) by simp
  qed
qed

lemma evolving_children_turn:
  assumes "\<And>tag. evolving (kids tag)"
  shows "evolving (children_turn rt kids parent cs t)"
  unfolding children_turn_def by (intro evolve_intros evolving_parse_element assms)

lemma advancing_children:
  assumes "\<And>tag. evolving (kids tag)"
  shows "advancing (children_turn rt kids parent)"
  by (rule advancingI; (unfold children_turn_def)?;
      (intro turn_intros evolve_intros evolving_parse_element assms)?; simp add: break_def split: prod.split)

lemma evolving_children_at: "evolving (children_at rt k tag)"
proof (induction k arbitrary: tag)
  case (Suc k)
  then show ?case
    by (auto simp: children_loop_def intro!: evolving_loop evolving_children_turn)
qed (simp add: evolving_return)

lemma evolving_parse_children [evolve_intros]: "evolving (parse_children rt tag)"
  by (simp add: parse_children_def evolving_children_at del: children_at.simps)

section \<open>The recursion of the source\<close>

text \<open>
  Two computations agree at a nesting depth when they do the same in every state of that depth.
  Element parsers agree when their children do.
\<close>

definition agree :: "nat \<Rightarrow> 'a parser \<Rightarrow> 'a parser \<Rightarrow> bool" where
  "agree d m n \<longleftrightarrow> (\<forall>p. p_depth p = d \<longrightarrow> run_state m p = run_state n p)"

named_theorems agree_intros \<open>computations that agree because their parts do\<close>

lemma agree_refl [agree_intros]: "agree d m m"
  by (simp add: agree_def)

lemma agree_bind [agree_intros]:
  assumes "agree d m n" "evolving m" "\<And>x. agree d (f x) (g x)"
  shows "agree d (State_Monad.bind m f) (State_Monad.bind n g)"
  unfolding agree_def
proof (intro allI impI)
  fix p :: Parser
  assume d: "p_depth p = d"
  obtain x q where r: "run_state m p = (x, q)"
    by (metis surj_pair)
  with assms(2) have "evolves p q"
    by blast
  with d have "p_depth q = d"
    by (simp add: evolves_def)
  with r d assms(1,3) show "run_state (State_Monad.bind m f) p = run_state (State_Monad.bind n g) p"
    by (simp add: agree_def)
qed

lemma agree_if [agree_intros]:
  "(b \<Longrightarrow> agree d m n) \<Longrightarrow> (\<not> b \<Longrightarrow> agree d m' n') \<Longrightarrow> agree d (if b then m else m') (if b then n else n')"
  by simp

lemma agree_option [agree_intros]:
  "agree d m n \<Longrightarrow> (\<And>y. agree d (f y) (g y)) \<Longrightarrow>
   agree d (case x of None \<Rightarrow> m | Some y \<Rightarrow> f y) (case x of None \<Rightarrow> n | Some y \<Rightarrow> g y)"
  by (cases x) simp_all

lemma agree_prod [agree_intros]:
  "(\<And>y z. agree d (f y z) (g y z)) \<Longrightarrow> agree d (case x of (y, z) \<Rightarrow> f y z) (case x of (y, z) \<Rightarrow> g y z)"
  by (cases x) simp

lemma agree_token [agree_intros]:
  "(\<And>n as sc. agree d (f n as sc) (f' n as sc)) \<Longrightarrow> (\<And>n. agree d (g n) (g' n)) \<Longrightarrow>
   (\<And>s. agree d (h s) (h' s)) \<Longrightarrow> agree d m m' \<Longrightarrow>
   agree d (case t of OpenTag n as sc \<Rightarrow> f n as sc | CloseTag n \<Rightarrow> g n | TextToken s \<Rightarrow> h s | Eof \<Rightarrow> m)
     (case t of OpenTag n as sc \<Rightarrow> f' n as sc | CloseTag n \<Rightarrow> g' n | TextToken s \<Rightarrow> h' s | Eof \<Rightarrow> m')"
  by (cases t) simp_all

lemma agree_elements:
  assumes kids [evolve_intros]: "\<And>tag. evolving (kids tag)"
    and [agree_intros]: "\<And>tag. agree d (kids tag) (kids' tag)"
  shows "agree d (match_element rt kids name attrs sc parent) (match_element rt kids' name attrs sc parent)"
proof -
  have [agree_intros]: "agree d (with_children kids tag sc) (with_children kids' tag sc)"
    and [evolve_intros]: "evolving (with_children kids tag sc)" for tag sc
    unfolding with_children_def by (intro agree_intros evolve_intros)+
  have [agree_intros]: "agree d (parse_box rt kids attrs sc) (parse_box rt kids' attrs sc)"
    "agree d (parse_row rt kids attrs sc) (parse_row rt kids' attrs sc)"
    "agree d (parse_col rt kids attrs sc) (parse_col rt kids' attrs sc)"
    "agree d (parse_container rt kids name attrs sc) (parse_container rt kids' name attrs sc)"
    "agree d (parse_nav rt kids attrs sc) (parse_nav rt kids' attrs sc)"
    "agree d (parse_text rt kids attrs sc) (parse_text rt kids' attrs sc)"
    "agree d (parse_heading rt kids attrs sc) (parse_heading rt kids' attrs sc)"
    "agree d (parse_list rt kids attrs sc) (parse_list rt kids' attrs sc)"
    "agree d (parse_item kids sc) (parse_item kids' sc)"
    "agree d (parse_link rt kids attrs sc) (parse_link rt kids' attrs sc)"
    "agree d (parse_select rt kids attrs sc) (parse_select rt kids' attrs sc)"
    "agree d (parse_form rt kids attrs sc) (parse_form rt kids' attrs sc)"
    "agree d (parse_table rt kids attrs sc) (parse_table rt kids' attrs sc)"
    "agree d (parse_tr kids sc) (parse_tr kids' sc)"
    "agree d (parse_cell rt kids name attrs sc) (parse_cell rt kids' name attrs sc)"
    "agree d (parse_animate rt kids attrs sc) (parse_animate rt kids' attrs sc)"
    "agree d (parse_frame kids sc) (parse_frame kids' sc)"
    "agree d (parse_live rt kids attrs sc) (parse_live rt kids' attrs sc)"
    "agree d (parse_panel rt kids attrs sc) (parse_panel rt kids' attrs sc)"
    "agree d (parse_state rt kids attrs sc) (parse_state rt kids' attrs sc)"
    "agree d (parse_details rt kids attrs sc) (parse_details rt kids' attrs sc)" for name attrs sc
    unfolding node_defs by (intro agree_intros evolve_intros)+
  show ?thesis
    unfolding match_element_def some_element_def inside_def
    by (intro agree_intros evolve_intros evolving_nodes kids)
qed

lemma agree_parse_element:
  assumes "\<And>tag. evolving (kids tag)" "\<And>tag. evolving (kids' tag)"
    and "d < MAX_DEPTH \<Longrightarrow> (\<And>tag. agree (Suc d) (kids tag) (kids' tag))"
  shows "agree d (parse_element rt kids name attrs sc parent) (parse_element rt kids' name attrs sc parent)"
  unfolding agree_def
proof (intro allI impI)
  fix p :: Parser
  assume d: "p_depth p = d"
  obtain ok q where c: "run_state (check_depth_limit rt) (p\<lparr>p_depth := Suc d\<rparr>) = (ok, q)"
    by (metis surj_pair)
  have "reports (p\<lparr>p_depth := Suc d\<rparr>) q"
    using c quiet_depth_limit [of rt] by blast
  then have q: "p_depth q = Suc d"
    by (simp add: reports_def evolves_def)
  have "run_state (match_element rt kids name attrs sc parent) q = run_state (match_element rt kids' name attrs sc parent) q"
    if ok
  proof -
    have "d < MAX_DEPTH"
      using check_depth_limit_run [OF c] that by simp
    then show ?thesis
      using agree_elements [of kids "Suc d" kids'] assms q unfolding agree_def by blast
  qed
  then show "run_state (parse_element rt kids name attrs sc parent) p =
      run_state (parse_element rt kids' name attrs sc parent) p"
    using c d by (simp add: parse_element_def split: prod.split)
qed

lemma agree_turn:
  assumes "\<And>tag. evolving (kids tag)" "\<And>tag. evolving (kids' tag)"
    and "d < MAX_DEPTH \<Longrightarrow> (\<And>tag. agree (Suc d) (kids tag) (kids' tag))"
  shows "agree d (turn rt (children_turn rt kids parent) cs) (turn rt (children_turn rt kids' parent) cs)"
  unfolding turn_def children_turn_def
  by (intro agree_intros evolve_intros agree_parse_element evolving_parse_element assms)

lemma agree_loop:
  assumes "\<And>a. agree d (turn rt body a) (turn rt body' a)" "\<And>a t. evolving (body a t)"
  shows "agree d (loop_tokens rt body a) (loop_tokens rt body' a)"
proof -
  have e: "evolving (turn rt body a)" for a
    unfolding turn_def by (intro evolve_intros assms)
  have "p_depth p = d \<Longrightarrow> run_state (loop_tokens rt body a) p = run_state (loop_tokens rt body' a) p" for p
  proof (induction "left p" arbitrary: a p rule: less_induct)
    case less
    obtain a' go q where t: "run_state (turn rt body a) p = ((a', go), q)"
      by (metis surj_pair)
    then have t': "run_state (turn rt body' a) p = ((a', go), q)"
      using assms(1) less.prems by (simp add: agree_def)
    have "evolves p q"
      using t e by blast
    then have "p_depth q = d"
      using less.prems by (simp add: evolves_def)
    then show ?case
      using t t' less.hyps [of q a']
      by (simp add: run_state_loop [of rt body a p] run_state_loop [of rt body' a p])
  qed
  then show ?thesis
    by (simp add: agree_def)
qed

lemma agree_children_at:
  assumes "d + n > MAX_DEPTH" "d + m > MAX_DEPTH" "n > 0" "m > 0"
  shows "agree d (children_at rt n tag) (children_at rt m tag)"
  using assms
proof (induction "Suc MAX_DEPTH - d" arbitrary: d n m tag rule: less_induct)
  case less
  obtain n' m' where nm: "n = Suc n'" "m = Suc m'"
    using less.prems by (metis gr0_implies_Suc)
  have "agree (Suc d) (children_at rt n' tag) (children_at rt m' tag)" if "d < MAX_DEPTH" for tag
    using less.hyps [of "Suc d" n' m'] less.prems nm that by (simp del: children_at.simps)
  then show ?case
    unfolding nm by (auto simp: children_loop_def
        intro!: agree_loop agree_turn evolving_children_at evolving_children_turn)
qed

text \<open>
  C15: parsing always returns, with the recursion of the source. \<open>parse_children\<close> is its loop over
  tokens with \<open>parse_children\<close> itself for the children of every element, and the loop is the plain
  recursion over turns, with no limit on their number; no call goes back in the tokens, and the
  element parsers restore the depth.
\<close>

theorem parse_children_recursion:
  "parse_children rt = children_loop rt (parse_children rt) \<and>
   loop_tokens rt (children_turn rt (parse_children rt) tag) cs =
     do { t \<leftarrow> current_owned rt;
          (cs', go) \<leftarrow> children_turn rt (parse_children rt) tag cs t;
          if go then loop_tokens rt (children_turn rt (parse_children rt) tag) cs'
          else State_Monad.return cs' } \<and>
   evolves p (snd (run_state (parse_children rt tag) p)) \<and>
   evolves p (snd (run_state (parse_element rt (parse_children rt) name attrs sc tag) p))"
proof -
  have "run_state (parse_children rt tag) p = run_state (children_loop rt (parse_children rt) tag) p" for tag p
  proof -
    have "agree (p_depth p) (children_at rt (MAX_DEPTH + 1) tag) (children_at rt (Suc (MAX_DEPTH + 1)) tag)"
      by (rule agree_children_at) simp_all
    then show ?thesis
      by (simp add: parse_children_def agree_def del: children_at.simps(1))
  qed
  then have "parse_children rt = children_loop rt (parse_children rt)"
    by (intro ext state_ext) 
  moreover have "evolves p (snd (run_state (parse_children rt tag) p))"
    using evolving_parse_children by (simp add: state_io_rel_def)
  moreover have "evolves p (snd (run_state (parse_element rt (parse_children rt) name attrs sc tag) p))"
    using evolving_parse_element [OF evolving_parse_children] by (simp add: state_io_rel_def)
  ultimately show ?thesis
    using loop_tokens_unfold [OF advancing_children [OF evolving_parse_children]] by (simp add: turn_def)
qed

end
