(* ===== verification/Parser_Bounds.thy ===== *)
theory Parser_Bounds
  imports Parser_Laws "HOL-Library.Multiset"
begin

text \<open>
  How large a parsed document is: how deep it nests, how many elements it has, how many of them
  came from tags. An element parser calls \<open>parse_children\<close> at most once and keeps some of the
  children it gets; that shape, proved once for every parser, carries the three bounds.
\<close>

section \<open>The shape of an element parser\<close>

definition parts :: "Element \<Rightarrow> Element list" where
  "parts e = children e @ (case e of DetailsE _ sc _ \<Rightarrow> sc | _ \<Rightarrow> [])"

abbreviation some_of :: "'a list \<Rightarrow> 'a list \<Rightarrow> bool" where
  "some_of xs ys \<equiv> mset xs \<subseteq># mset ys"

definition gives :: "'a parser \<Rightarrow> ('a \<Rightarrow> bool) \<Rightarrow> bool" where
  "gives m P \<longleftrightarrow> (\<forall>p x q. run_state m p = (x, q) \<longrightarrow> P x)"

definition wraps :: "Element list \<Rightarrow> Element parser \<Rightarrow> bool" where
  "wraps cs m \<longleftrightarrow> (\<forall>p e q. run_state m p = (e, q) \<longrightarrow> reports p q \<and> some_of (parts e) cs)"

inductive shaped :: "kids \<Rightarrow> Parser \<Rightarrow> Element \<Rightarrow> Parser \<Rightarrow> bool" for kids where
  leaf: "evolves p q \<Longrightarrow> parts e = [] \<Longrightarrow> shaped kids p e q"
| node: "reports p p' \<Longrightarrow> run_state (kids tag) p' = (cs, q') \<Longrightarrow> reports q' q \<Longrightarrow> some_of (parts e) cs \<Longrightarrow>
    shaped kids p e q"

definition shape :: "kids \<Rightarrow> Element parser \<Rightarrow> bool" where
  "shape kids m \<longleftrightarrow> (\<forall>p e q. run_state m p = (e, q) \<longrightarrow> shaped kids p e q)"

named_theorems shape_intros \<open>the shape of element parsers\<close>

lemma gives_return [shape_intros]: "P x \<Longrightarrow> gives (State_Monad.return x) P"
  by (simp add: gives_def)

lemma gives_bind [shape_intros]:
  "gives m Q \<Longrightarrow> (\<And>x. Q x \<Longrightarrow> gives (f x) P) \<Longrightarrow> gives (State_Monad.bind m f) P"
  unfolding gives_def by (metis run_bindE)

lemma gives_last: "(\<And>x. gives (f x) P) \<Longrightarrow> gives (State_Monad.bind m f) P"
  unfolding gives_def by (metis run_bindE)

lemma gives_if: "(b \<Longrightarrow> gives m P) \<Longrightarrow> (\<not> b \<Longrightarrow> gives n P) \<Longrightarrow> gives (if b then m else n) P"
  by simp

lemma gives_option:
  "(x = None \<Longrightarrow> gives m P) \<Longrightarrow> (\<And>y. x = Some y \<Longrightarrow> gives (f y) P) \<Longrightarrow>
   gives (case x of None \<Rightarrow> m | Some y \<Rightarrow> f y) P"
  by (cases x) simp_all

lemma wraps_return [shape_intros]: "some_of (parts e) cs \<Longrightarrow> wraps cs (State_Monad.return e)"
  by (simp add: wraps_def)

lemma wraps_bind_gives:
  assumes "quiet m" "gives m P" "\<And>x. P x \<Longrightarrow> wraps cs (f x)"
  shows "wraps cs (State_Monad.bind m f)"
  unfolding wraps_def
proof (intro allI impI)
  fix p e q
  assume "run_state (State_Monad.bind m f) p = (e, q)"
  then obtain x r where 1: "run_state m p = (x, r)" and 2: "run_state (f x) r = (e, q)"
    by (rule run_bindE)
  have "reports p r" "P x"
    using 1 assms(1,2) by (auto simp: gives_def)
  with 2 assms(3) show "reports p q \<and> some_of (parts e) cs"
    unfolding wraps_def by (meson reports_trans)
qed

lemma wraps_bind [shape_intros]:
  assumes "quiet m" "\<And>x. wraps cs (f x)" shows "wraps cs (State_Monad.bind m f)"
  using wraps_bind_gives [of m "\<lambda>_. True"] assms by (simp add: gives_def)

lemma wraps_prod [shape_intros]: "(\<And>y z. wraps cs (f y z)) \<Longrightarrow> wraps cs (case x of (y, z) \<Rightarrow> f y z)"
  by (cases x) simp

lemma shape_kids [shape_intros]:
  "(\<And>cs. wraps cs (f cs)) \<Longrightarrow> shape kids (State_Monad.bind (kids tag) f)"
  unfolding shape_def wraps_def by (metis run_bindE reports_refl shaped.node)

lemma shape_childless:
  assumes "wraps [] m" shows "shape kids m"
  using assms by (auto simp: shape_def wraps_def reports_def intro: shaped.leaf)

lemma shape_bind [shape_intros]:
  assumes "quiet m" "\<And>x. shape kids (f x)" shows "shape kids (State_Monad.bind m f)"
  unfolding shape_def
proof (intro allI impI)
  fix p e q
  assume "run_state (State_Monad.bind m f) p = (e, q)"
  then obtain x r where 1: "run_state m p = (x, r)" and 2: "run_state (f x) r = (e, q)"
    by (rule run_bindE)
  have "reports p r"
    using 1 assms(1) by blast
  moreover have "shaped kids r e q"
    using 2 assms(2) by (auto simp: shape_def)
  ultimately show "shaped kids p e q"
    by (auto elim!: shaped.cases simp: reports_def
        intro: shaped.leaf shaped.node [OF reports_trans] evolves_trans)
qed

lemma shape_if [shape_intros]:
  "(b \<Longrightarrow> shape kids m) \<Longrightarrow> (\<not> b \<Longrightarrow> shape kids n) \<Longrightarrow> shape kids (if b then m else n)"
  by simp

lemma shape_with_children [shape_intros]:
  assumes "\<And>cs. wraps cs (f cs)"
  shows "shape kids (State_Monad.bind (with_children kids tag sc) f)"
  unfolding with_children_def by (cases sc) (simp_all add: shape_childless shape_kids assms)

lemma shape_if_children [shape_intros]:
  assumes "\<And>cs. wraps cs (f cs)"
  shows "shape kids (State_Monad.bind (if sc then State_Monad.return [] else kids tag) f)"
  by (cases sc) (simp_all add: shape_childless shape_kids assms)

lemma shape_leaf:
  assumes "evolving m" "gives m (\<lambda>e. parts e = [])"
  shows "shape kids m"
  using assms by (auto simp: shape_def gives_def intro!: shaped.leaf)

lemma parts_simps [simp]:
  "parts (BoxE r1 cs) = cs" "parts (RowE r2 cs) = cs" "parts (ColE r3 cs) = cs" "parts (HrE r4) = []"
  "parts (SpacerE r5) = []" "parts (HeaderE r6 cs) = cs" "parts (BodyE r6 cs) = cs" "parts (FooterE r6 cs) = cs"
  "parts (NavE r7 cs) = cs" "parts (TextE r8 cs) = cs" "parts (PreE r9) = []" "parts (HeadingE r10 cs) = cs"
  "parts (ListE r11 cs) = cs" "parts (ItemE cs) = cs" "parts (LinkE r12 cs) = cs" "parts (InputE r13) = []"
  "parts (SelectE r14 cs) = cs" "parts (OptionE r15) = []" "parts (ButtonE r16) = []" "parts (FormE r17 cs) = cs"
  "parts (ArtE r18) = []" "parts (TableE r19 cs) = cs" "parts (TheadE r6 cs) = cs" "parts (TbodyE r6 cs) = cs"
  "parts (TrE cs) = cs" "parts (ThE r20 cs) = cs" "parts (TdE r20 cs) = cs" "parts (AnimateE r21 cs) = cs"
  "parts (FrameE cs) = cs" "parts (ElementDefE r22) = []" "parts (TweenE r23) = []" "parts (TextAnimateE r24) = []"
  "parts (LiveE r25 cs) = cs" "parts (PanelE r26 cs) = cs" "parts (StateE r27 cs) = cs"
  "parts (DetailsE r28 sc cs) = cs @ sc" "parts (PaginationE r6 cs) = cs" "parts (OnE r29) = []"
  "parts (IncludeE r30) = []"
  by (simp_all add: parts_def children_def)

lemma parts_size: "c \<in> set (parts e) \<Longrightarrow> size c < size e"
  by (cases e) (auto simp: less_Suc_eq_le size_list_estimation' intro: trans_le_add1 trans_le_add2)

lemma text_with_parts: "some_of (parts (text_with e cs)) cs"
  by (simp add: text_with_def split: option.split)

lemma container_of_parts [simp]: "parts (container_of name e cs) = cs"
  by (simp add: container_of_def)

lemma gives_push: "gives (try_push rt xs x) (\<lambda>ys. some_of ys (xs @ [x]))"
  by (auto simp: gives_def try_push_def mark_allocation_failure_def State_Monad.update_def split: if_splits)

lemma foreach_some_of:
  assumes "\<And>a x. gives (f a x) (\<lambda>a'. mset (g a') \<subseteq># add_mset x (mset (g a)))"
  shows "gives (foreach f a xs) (\<lambda>a'. mset (g a') \<subseteq># mset (g a) + mset xs)"
proof (induction xs arbitrary: a)
  case (Cons x xs)
  show ?case
    unfolding foreach.simps
  proof (rule gives_bind [OF assms])
    fix a'
    assume "mset (g a') \<subseteq># add_mset x (mset (g a))"
    then have "M \<subseteq># mset (g a') + mset xs \<Longrightarrow> M \<subseteq># mset (g a) + mset (x # xs)" for M
      by (auto intro: subset_mset.trans subset_mset.add_right_mono)
    then show "gives (foreach f a' xs) (\<lambda>a'. mset (g a') \<subseteq># mset (g a) + mset (x # xs))"
      using Cons.IH [of a'] by (auto simp: gives_def)
  qed
qed (simp add: gives_return)

lemma gives_heading_child:
  "gives (heading_child rt acc c) (\<lambda>acc'. mset (snd acc') \<subseteq># add_mset c (mset (snd acc)))"
  by (cases acc) (auto simp: heading_child_def intro!: gives_if gives_return gives_bind [OF gives_push])

lemma gives_split_first:
  "gives (split_first rt s all) (\<lambda>(_, sc, bc). some_of (bc @ sc) (take 1 all))"
  by (cases all)
    (auto simp: split_first_def intro!: gives_if gives_option gives_return gives_bind [OF gives_push])

lemma gives_push_all: "gives (foreach (try_push rt) xs ys) (\<lambda>zs. some_of zs (xs @ ys))"
proof -
  have "gives (try_push rt a x) (\<lambda>a'. mset (id a') \<subseteq># add_mset x (mset (id a)))" for a and x :: 'a
    using gives_push [of rt a x] by simp
  from foreach_some_of [of "try_push rt" id, OF this] show ?thesis
    by simp
qed

lemma take_1_tl: "mset (take 1 xs) + mset (tl xs) = mset xs"
  by (cases xs) simp_all

lemma wraps_details:
  "wraps all (do {
     (summary, sc, bc) \<leftarrow> split_first rt s all;
     bc \<leftarrow> foreach (try_push rt) bc (tl all);
     require rt ''E011'' (\<not> (summary = [] \<and> sc = [])) ''details element requires summary attribute or text content'';
     State_Monad.return (DetailsE (e\<lparr>details_summary := summary\<rparr>) sc bc)
   })"
proof (rule wraps_bind_gives [OF quiet_split_first gives_split_first], clarify)
  fix summary sc bc
  assume 1: "some_of (bc @ sc) (take 1 all)"
  have "some_of (zs @ sc) all" if "some_of zs (bc @ tl all)" for zs
  proof -
    have "mset (zs @ sc) \<subseteq># mset (bc @ sc) + mset (tl all)"
      using that by (simp add: ac_simps)
    also have "\<dots> \<subseteq># mset (take 1 all) + mset (tl all)"
      using 1 by simp
    finally show ?thesis
      by (simp only: take_1_tl)
  qed
  then show "wraps all (do { bc \<leftarrow> foreach (try_push rt) bc (tl all);
     require rt ''E011'' (\<not> (summary = [] \<and> sc = [])) ''details element requires summary attribute or text content'';
     State_Monad.return (DetailsE (e\<lparr>details_summary := summary\<rparr>) sc bc) })"
    by (intro wraps_bind_gives [OF _ gives_push_all] wraps_bind wraps_return evolve_intros) simp
qed

lemma wraps_heading:
  "wraps all (do {
     (content, cs) \<leftarrow> foreach (heading_child rt) ([], []) all;
     State_Monad.return (HeadingE (e\<lparr>heading_content := content\<rparr>) cs)
   })"
  by (rule wraps_bind_gives [OF quiet_foreach [OF quiet_heading_child]
        foreach_some_of [of "heading_child rt" snd, OF gives_heading_child]])
    (auto intro!: wraps_return)

lemma leaves_give:
  "gives (parse_hr rt attrs) (\<lambda>e. parts e = [])" "gives (parse_spacer rt attrs) (\<lambda>e. parts e = [])"
  "gives (parse_pre rt attrs sc) (\<lambda>e. parts e = [])" "gives (parse_input rt attrs) (\<lambda>e. parts e = [])"
  "gives (parse_option rt attrs sc) (\<lambda>e. parts e = [])" "gives (parse_button rt attrs sc) (\<lambda>e. parts e = [])"
  "gives (parse_art rt attrs sc) (\<lambda>e. parts e = [])" "gives (parse_element_def rt attrs sc) (\<lambda>e. parts e = [])"
  "gives (parse_tween rt attrs sc) (\<lambda>e. parts e = [])" "gives (parse_text_animate rt attrs sc) (\<lambda>e. parts e = [])"
  "gives (parse_include rt attrs) (\<lambda>e. parts e = [])" "gives (parse_on rt attrs) (\<lambda>e. parts e = [])"
  unfolding parse_hr_def parse_spacer_def parse_pre_def parse_input_def parse_option_def parse_button_def
    parse_art_def parse_element_def_def parse_tween_def parse_text_animate_def parse_include_def parse_on_def
  by (intro gives_last gives_return; simp)+

lemmas shape_leaves [shape_intros] = shape_leaf [OF evolving_leaves(1) leaves_give(1)]
  shape_leaf [OF evolving_leaves(2) leaves_give(2)] shape_leaf [OF evolving_leaves(3) leaves_give(3)]
  shape_leaf [OF evolving_leaves(4) leaves_give(4)] shape_leaf [OF evolving_leaves(5) leaves_give(5)]
  shape_leaf [OF evolving_leaves(6) leaves_give(6)] shape_leaf [OF evolving_leaves(7) leaves_give(7)]
  shape_leaf [OF evolving_leaves(8) leaves_give(8)] shape_leaf [OF evolving_leaves(9) leaves_give(9)]
  shape_leaf [OF evolving_leaves(10) leaves_give(10)] shape_leaf [OF evolving_leaves(11) leaves_give(11)]

lemma shape_nodes [shape_intros]:
  "shape kids (parse_box rt kids attrs sc)" "shape kids (parse_row rt kids attrs sc)"
  "shape kids (parse_col rt kids attrs sc)" "shape kids (parse_container rt kids name attrs sc)"
  "shape kids (parse_nav rt kids attrs sc)" "shape kids (parse_text rt kids attrs sc)"
  "shape kids (parse_heading rt kids attrs sc)" "shape kids (parse_list rt kids attrs sc)" "shape kids (parse_item kids sc)"
  "shape kids (parse_link rt kids attrs sc)" "shape kids (parse_select rt kids attrs sc)" "shape kids (parse_form rt kids attrs sc)"
  "shape kids (parse_table rt kids attrs sc)" "shape kids (parse_tr kids sc)" "shape kids (parse_cell rt kids name attrs sc)"
  "shape kids (parse_animate rt kids attrs sc)" "shape kids (parse_frame kids sc)" "shape kids (parse_live rt kids attrs sc)"
  "shape kids (parse_panel rt kids attrs sc)" "shape kids (parse_state rt kids attrs sc)"
  "shape kids (parse_details rt kids attrs sc)"
  unfolding node_defs
  by (intro shape_intros evolve_intros wraps_details wraps_heading;
      simp add: text_with_parts shape_childless wraps_return)+

text \<open>The dispatcher gives nothing, an element of that shape, or what an unknown tag contains.\<close>

inductive found :: "kids \<Rightarrow> Parser \<Rightarrow> Element option \<Rightarrow> Parser \<Rightarrow> bool" for kids where
  nothing: "evolves p q \<Longrightarrow> found kids p None q"
| element: "shaped kids p e q \<Longrightarrow> found kids p (Some e) q"
| passed: "reports p p' \<Longrightarrow> run_state (kids tag) p' = (cs, q) \<Longrightarrow> found kids p (pass_through cs) q"

definition finds :: "kids \<Rightarrow> Element option parser \<Rightarrow> bool" where
  "finds kids m \<longleftrightarrow> (\<forall>p x q. run_state m p = (x, q) \<longrightarrow> found kids p x q)"

lemma finds_element [shape_intros]: "shape kids m \<Longrightarrow> finds kids (some_element m)"
  unfolding finds_def shape_def some_element_def
  by (auto simp del: run_state_bind elim!: run_bindE intro!: found.element)

lemma finds_bind [shape_intros]:
  assumes "quiet m" "\<And>x. finds kids (f x)" shows "finds kids (State_Monad.bind m f)"
  unfolding finds_def
proof (intro allI impI)
  fix p x q
  assume "run_state (State_Monad.bind m f) p = (x, q)"
  then obtain y r where 1: "run_state m p = (y, r)" and 2: "run_state (f y) r = (x, q)"
    by (rule run_bindE)
  have r: "reports p r"
    using 1 assms(1) by blast
  then have s: "shaped kids r e q \<Longrightarrow> shaped kids p e q" for e
    by (auto elim!: shaped.cases simp: reports_def intro: shaped.leaf shaped.node [OF reports_trans] evolves_trans)
  have "found kids r x q"
    using 2 assms(2) by (auto simp: finds_def)
  then show "found kids p x q"
  proof cases
    case nothing
    with r show ?thesis
      by (auto simp: reports_def intro: found.nothing evolves_trans)
  next
    case (element e)
    with s show ?thesis
      by (auto intro: found.element)
  next
    case (passed p' tag cs)
    with r show ?thesis
      by (auto intro: found.passed [OF reports_trans])
  qed
qed

lemma finds_none:
  assumes "evolving m" "gives m (\<lambda>x. x = None)" shows "finds kids m"
  using assms by (auto simp: finds_def gives_def intro!: found.nothing)

lemma finds_leaf:
  assumes "evolving m" "gives m (\<lambda>x. \<exists>e. x = Some e \<and> parts e = [])" shows "finds kids m"
  unfolding finds_def
proof (intro allI impI)
  fix p x q
  assume r: "run_state m p = (x, q)"
  then obtain e where "x = Some e" "parts e = []"
    using assms(2) by (auto simp: gives_def)
  moreover have "evolves p q"
    using r assms(1) by blast
  ultimately show "found kids p x q"
    by (auto intro: found.element shaped.leaf)
qed

lemma finds_if [shape_intros]:
  "(b \<Longrightarrow> finds kids m) \<Longrightarrow> (\<not> b \<Longrightarrow> finds kids n) \<Longrightarrow> finds kids (if b then m else n)"
  by simp

lemma finds_inside [shape_intros]: "shape kids m \<Longrightarrow> finds kids (inside rt code ok s m)"
  using finds_bind [OF quiet_require] finds_element by (fastforce simp: inside_def some_element_def)

lemma finds_passed: "finds kids (do { cs \<leftarrow> kids tag; State_Monad.return (pass_through cs) })"
  unfolding finds_def
  by (auto simp del: run_state_bind elim!: run_bindE intro: found.passed [OF reports_refl])

lemma finds_return_none [shape_intros]: "finds kids (State_Monad.return None)"
  by (rule finds_none) (auto simp: evolving_return gives_def)

lemma finds_at: "finds kids (do { (if sc then State_Monad.return () else skip_until_close rt tag); State_Monad.return None })"
  by (rule finds_none) (intro evolve_intros gives_last gives_return refl)+

lemma finds_on:
  "finds kids (do { (if sc then State_Monad.return ()
         else do { warning_msg rt ''W005'' ''[on] should be self-closing''; skip_until_close rt (lit ''on'') });
        some_element (parse_on rt attrs) })"
proof (rule finds_leaf)
  show "gives (do { (if sc then State_Monad.return ()
         else do { warning_msg rt ''W005'' ''[on] should be self-closing''; skip_until_close rt (lit ''on'') });
        some_element (parse_on rt attrs) }) (\<lambda>x. \<exists>e. x = Some e \<and> parts e = [])"
    unfolding some_element_def by (intro gives_last gives_bind [OF leaves_give(12)] gives_return) auto
qed (auto simp: some_element_def intro!: evolve_intros)

lemma finds_match: "finds kids (match_element rt kids name attrs sc parent)"
  unfolding match_element_def
  by (intro shape_intros evolve_intros finds_at finds_on finds_passed)

section \<open>Sizes\<close>

function nodes :: "Element \<Rightarrow> nat" where
  "nodes e = 1 + sum_list (map nodes (parts e))"
  by pat_completeness auto
termination
  by (relation "measure size") (auto dest: parts_size)

text \<open>Elements that are not just a run of text without style.\<close>

definition is_plain :: "Element \<Rightarrow> bool" where
  "is_plain e = (case plain_child e of Some t \<Rightarrow> t = plain_text (text_content t) | None \<Rightarrow> False)"

function tagged :: "Element \<Rightarrow> nat" where
  "tagged e = (if is_plain e then 0 else 1) + sum_list (map tagged (parts e))"
  by pat_completeness auto
termination
  by (relation "measure size") (auto dest: parts_size)

declare nodes.simps [simp del] tagged.simps [simp del]

fun nested_within :: "nat \<Rightarrow> Element \<Rightarrow> bool" where
  "nested_within 0 e = False"
| "nested_within (Suc k) e = list_all (nested_within k) (parts e)"

lemma sum_list_some_of:
  fixes f :: "'a \<Rightarrow> nat"
  assumes "some_of xs ys" shows "sum_list (map f xs) \<le> sum_list (map f ys)"
proof -
  obtain C where "mset ys = mset xs + C"
    using assms by (auto simp: mset_subset_eq_exists_conv)
  then have "sum_mset (image_mset f (mset ys)) = sum_mset (image_mset f (mset xs)) + sum_mset (image_mset f C)"
    by simp
  then show ?thesis
    by (metis mset_map sum_mset_sum_list le_add1)
qed

definition accepted :: "Parser \<Rightarrow> nat" where
  "accepted p = min MAX_ELEMENTS (element_count p)"

definition sized :: "Parser \<Rightarrow> Element list \<Rightarrow> Parser \<Rightarrow> bool" where
  "sized p cs q \<longleftrightarrow>
     sum_list (map nodes cs) + p_pos p \<le> p_pos q \<and>
     sum_list (map tagged cs) + accepted p \<le> accepted q \<and>
     list_all (nested_within (Suc MAX_DEPTH - p_depth p)) cs"

definition sized_kids :: "kids \<Rightarrow> bool" where
  "sized_kids kids \<longleftrightarrow>
     (\<forall>tag p cs q. p_depth p \<le> MAX_DEPTH \<longrightarrow> run_state (kids tag) p = (cs, q) \<longrightarrow> sized p cs q)"

lemma evolves_accepted: "evolves p q \<Longrightarrow> accepted p \<le> accepted q \<and> p_pos p \<le> p_pos q"
  by (auto simp: evolves_def accepted_def)

lemma list_all_some_of: "some_of xs ys \<Longrightarrow> list_all P ys \<Longrightarrow> list_all P xs"
  by (auto simp: list_all_iff dest: mset_subset_eqD)

text \<open>An element adds one to what its children amount to.\<close>

definition sized_element :: "Parser \<Rightarrow> Element \<Rightarrow> Parser \<Rightarrow> bool" where
  "sized_element p e q \<longleftrightarrow>
     nodes e + p_pos p \<le> p_pos q + 1 \<and> tagged e + accepted p \<le> accepted q + 1 \<and>
     nested_within (Suc (Suc MAX_DEPTH - p_depth p)) e"

lemma shaped_sized:
  assumes "sized_kids kids" "p_depth p \<le> MAX_DEPTH" "shaped kids p e q"
  shows "sized_element p e q"
  using assms(3)
proof cases
  case leaf
  then show ?thesis
    using evolves_accepted [of p q] by (auto simp: sized_element_def nodes.simps tagged.simps)
next
  case (node p' tag cs q')
  have "sized p' cs q'"
    using node(1,2) assms(1,2) by (auto simp: sized_kids_def reports_def evolves_def)
  moreover have "p_pos p' = p_pos p" "accepted p' = accepted p" "p_depth p' = p_depth p"
      "p_pos q = p_pos q'" "accepted q = accepted q'"
    using node(1,3) by (auto simp: reports_def evolves_def accepted_def)
  ultimately show ?thesis
    using sum_list_some_of [OF node(4), of nodes] sum_list_some_of [OF node(4), of tagged]
      list_all_some_of [OF node(4)]
    by (auto simp: sized_element_def sized_def nodes.simps [of e] tagged.simps [of e])
qed

lemma nested_within_mono: "nested_within k e \<Longrightarrow> k \<le> m \<Longrightarrow> nested_within m e"
proof (induction k arbitrary: m e)
  case (Suc k)
  then show ?case
    by (cases m) (auto simp: list_all_iff)
qed simp

lemma pass_through_sized:
  assumes "sized p cs q" "pass_through cs = Some e" "p_depth p \<le> MAX_DEPTH"
  shows "sized_element p e q"
proof -
  consider "cs = [e]" | "length cs \<ge> 2" "e = BodyE no_sticky cs"
    using assms(2) by (auto simp: pass_through_def split: list.splits)
  then show ?thesis
  proof cases
    case 1
    then show ?thesis
      using assms(1) nested_within_mono [of "Suc MAX_DEPTH - p_depth p" e]
      by (auto simp: sized_def sized_element_def simp del: nested_within.simps)
  next
    case 2
    then show ?thesis
      using assms(1) by (simp add: sized_def sized_element_def nodes.simps [of "BodyE no_sticky cs"]
          tagged.simps [of "BodyE no_sticky cs"])
  qed
qed

lemma found_sized:
  assumes "sized_kids kids" "p_depth p \<le> MAX_DEPTH" "found kids p (Some e) q"
  shows "sized_element p e q"
  using assms(3)
proof cases
  case element
  then show ?thesis
    using shaped_sized assms(1,2) by blast
next
  case (passed p' tag cs)
  have s: "sized p' cs q"
    using passed(2,3) assms(1,2) by (auto simp: sized_kids_def reports_def evolves_def)
  have "p_depth p' = p_depth p" "p_pos p' = p_pos p" "accepted p' = accepted p"
    using passed(2) by (auto simp: reports_def evolves_def accepted_def)
  then show ?thesis
    using pass_through_sized [OF s passed(1) [symmetric]] assms(2) by (simp add: sized_element_def)
qed

lemma parse_element_sized:
  assumes "\<And>tag. evolving (kids tag)" "sized_kids kids" "p_depth p \<le> MAX_DEPTH"
    and "run_state (parse_element rt kids name attrs sc parent) p = (Some e, q)"
  shows "nodes e + p_pos p \<le> p_pos q + 1 \<and> tagged e + accepted p \<le> accepted q + 1 \<and>
    nested_within (Suc MAX_DEPTH - p_depth p) e"
  using assms(4)
proof (cases rule: parse_element_run)
  case (2 r r')
  have r: "p_depth r = Suc (p_depth p)" "p_pos r = p_pos p" "accepted r = accepted p"
    using 2(1) quiet_depth_limit [of rt] by (auto dest!: state_io_relD simp: reports_def evolves_def accepted_def)
  have "found kids r (Some e) r'"
    using finds_match 2(3) by (auto simp: finds_def)
  then have "sized_element r e r'"
    using found_sized assms(2) r(1) 2(2) by simp
  moreover have "p_pos q = p_pos r'" "accepted q = accepted r'"
    using 2(4) by (simp_all add: accepted_def)
  moreover have "Suc (Suc MAX_DEPTH - p_depth r) = Suc MAX_DEPTH - p_depth p"
    using r(1) 2(2) by simp
  ultimately show ?thesis
    using r unfolding sized_element_def by (metis (no_types, lifting))
qed simp_all

lemma sized_push:
  assumes "sized p cs q" "some_of cs' (cs @ [e])" "evolves q q'"
    and "nodes e + p_pos q \<le> p_pos q'" "tagged e + accepted q \<le> accepted q'"
    and "nested_within (Suc MAX_DEPTH - p_depth p) e"
  shows "sized p cs' q'"
  using assms(1,4-6) sum_list_some_of [OF assms(2), of nodes] sum_list_some_of [OF assms(2), of tagged]
    list_all_some_of [OF assms(2)]
  by (auto simp: sized_def)

lemma sized_evolves: "sized p cs q \<Longrightarrow> evolves q q' \<Longrightarrow> sized p cs q'"
  using evolves_accepted [of q q'] by (auto simp: sized_def)

text \<open>One turn keeps the bounds, whatever the token.\<close>

lemma run_advance:
  "run_state advance p = ((), if p_pos p < length (p_tokens p) then p\<lparr>p_pos := p_pos p + 1\<rparr> else p)"
  by (simp add: advance_def State_Monad.update_def)

lemma tagged_plain [simp]: "tagged (TextE (plain_text s) []) = 0" "nodes (TextE (plain_text s) []) = 1"
  by (simp_all add: tagged.simps nodes.simps is_plain_def plain_child_def plain_text_def)

lemma push_run_sized:
  assumes "run_state (try_push rt cs e) q = (cs', q')" "sized p cs r" "evolves r q"
    and "nodes e + p_pos r \<le> p_pos q" "tagged e + accepted r \<le> accepted q"
    and "nested_within (Suc MAX_DEPTH - p_depth p) e"
  shows "sized p cs' q'"
proof -
  have "reports q q'"
    using assms(1) quiet_push [of rt cs e] by blast
  then have "evolves r q'" "p_pos q' = p_pos q" "accepted q' = accepted q"
    using assms(3) by (auto simp: reports_def accepted_def intro: evolves_trans)
  moreover have "some_of cs' (cs @ [e])"
    using assms(1) gives_push [of rt cs e] by (auto simp: gives_def)
  ultimately show ?thesis
    using sized_push [OF assms(2)] assms(4-6) by simp
qed

lemma element_limit_run:
  assumes "run_state (check_element_limit rt) p = (True, q)"
  shows "accepted q = accepted p + 1" "p_pos q = p_pos p" "p_depth q = p_depth p" "evolves p q"
proof -
  show "evolves p q"
    using assms evolving_element_limit by blast
  show "accepted q = accepted p + 1" "p_pos q = p_pos p" "p_depth q = p_depth p"
    using assms by (auto simp: check_element_limit_def accepted_def State_Monad.update_def split: if_splits prod.splits)
qed

lemma children_turn_sized:
  assumes kids: "\<And>tag. evolving (kids tag)" "sized_kids kids"
    and d: "p_depth p \<le> MAX_DEPTH" and r: "evolves p r" "sized p cs r" "p_pos r < length (p_tokens r) \<or> t = Eof"
    and run: "run_state (children_turn rt kids parent cs t) r = ((cs', go), q)"
  shows "sized p cs' q"
proof (cases t)
  case (TextToken s)
  define r1 where "r1 = r\<lparr>p_pos := p_pos r + 1\<rparr>"
  have a: "run_state advance r = ((), r1)" "evolves r r1" "p_pos r1 = p_pos r + 1" "accepted r1 = accepted r"
    using r(3) TextToken by (auto simp: run_advance r1_def evolves_def accepted_def)
  obtain k where k: "Suc MAX_DEPTH - p_depth p = Suc k"
    using d by (metis Suc_diff_le)
  show ?thesis
    using run a sized_evolves [OF r(2) a(2)] push_run_sized [OF _ r(2) a(2), of rt "TextE (plain_text s) []"]
    by (auto simp: children_turn_def TextToken go_on_def k split: if_splits prod.splits)
next
  case (OpenTag name attrs sc)
  define r1 where "r1 = r\<lparr>p_pos := p_pos r + 1\<rparr>"
  have a: "run_state advance r = ((), r1)" "evolves r r1" "p_pos r1 = p_pos r + 1" "accepted r1 = accepted r"
    using r(3) OpenTag by (auto simp: run_advance r1_def evolves_def accepted_def)
  obtain ok r2 where l: "run_state (check_element_limit rt) r1 = (ok, r2)"
    by (metis surj_pair)
  have e2: "evolves r r2"
    using l a(2) evolving_element_limit by (blast intro: evolves_trans)
  show ?thesis
  proof (cases ok)
    case False
    then show ?thesis
      using run a l sized_evolves [OF r(2) e2] by (simp add: children_turn_def OpenTag break_def)
  next
    case True
    obtain x r3 where x: "run_state (parse_element rt kids name attrs sc parent) r2 = (x, r3)"
      by (metis surj_pair)
    have e3: "evolves r2 r3"
      using x evolving_parse_element [of kids, OF kids(1)] by blast
    have r2: "accepted r2 = accepted r + 1" "p_pos r2 = p_pos r + 1" "p_depth r2 = p_depth p"
      using element_limit_run [of rt r1 r2] l True a r(1) e2 by (auto simp: evolves_def)
    show ?thesis
    proof (cases x)
      case None
      then show ?thesis
        using run a l True x sized_evolves [OF r(2) evolves_trans [OF e2 e3]]
        by (simp add: children_turn_def OpenTag go_on_def)
    next
      case (Some e)
      have s: "nodes e + p_pos r2 \<le> p_pos r3 + 1 \<and> tagged e + accepted r2 \<le> accepted r3 + 1 \<and>
          nested_within (Suc MAX_DEPTH - p_depth r2) e"
        using parse_element_sized [OF kids, of r2] d r2(3) x Some by simp
      obtain cs2 r4 where c: "run_state (try_push rt cs e) r3 = (cs2, r4)"
        by (metis surj_pair)
      have "sized p cs2 r4"
        using push_run_sized [OF c r(2) evolves_trans [OF e2 e3]] s r2 by simp
      then show ?thesis
        using run a l True x Some c by (simp add: children_turn_def OpenTag go_on_def)
    qed
  qed
next
  case Eof
  have "evolves r q"
    using run evolving_children_turn [of kids, OF kids(1)] by blast
  then show ?thesis
    using run sized_evolves [OF r(2)]
    by (auto simp: children_turn_def Eof break_def split: if_splits prod.splits)
next
  case (CloseTag n)
  have "evolves r q"
    using run evolving_children_turn [of kids, OF kids(1)] by blast
  then show ?thesis
    using run sized_evolves [OF r(2)]
    by (auto simp: children_turn_def CloseTag break_def go_on_def split: if_splits prod.splits)
qed

lemma sized_children_at: "sized_kids (children_at rt k)"
proof (induction k)
  case 0
  then show ?case
    by (simp add: sized_kids_def sized_def)
next
  case (Suc k)
  note kids = evolving_children_at [of rt k] Suc
  show ?case
    unfolding sized_kids_def children_at.simps children_loop_def
  proof (intro allI impI)
    fix tag p cs q
    assume d: "p_depth p \<le> MAX_DEPTH"
      and run: "run_state (loop_tokens rt (children_turn rt (children_at rt k) tag) []) p = (cs, q)"
    have "evolves p q \<and> sized p cs q"
    proof (rule loop_invariant [OF _ _ run, where I = "\<lambda>cs q. evolves p q \<and> sized p cs q"])
      fix cs r cs' go q
      assume I: "evolves p r \<and> sized p cs r"
        and t: "run_state (turn rt (children_turn rt (children_at rt k) tag) cs) r = ((cs', go), q)"
      from t obtain tok r1 where c: "run_state (current_owned rt) r = (tok, r1)"
        and b: "run_state (children_turn rt (children_at rt k) tag cs tok) r1 = ((cs', go), q)"
        unfolding turn_def by (rule run_bindE)
      have e: "evolves r r1"
        using c quiet_evolving [OF quiet_current_owned] by blast
      have "p_pos r1 < length (p_tokens r1) \<or> tok = Eof"
        using current_owned_run [OF c] by auto
      then have "sized p cs' q"
        using children_turn_sized [OF kids d _ _ _ b] I e sized_evolves evolves_trans by blast
      moreover have "evolves r1 q"
        using b evolving_children_turn [of "children_at rt k", OF kids(1)] by blast
      ultimately show "evolves p q \<and> sized p cs' q"
        using I e by (blast intro: evolves_trans)
    qed (simp add: sized_def)
    then show "sized p cs q" ..
  qed
qed

text \<open>Where the children of a published document come from.\<close>

lemma parse_page_run:
  assumes "run_state (parse_page rt kids attrs) p = (page, q)"
  obtains r where "reports p r" "run_state (kids (lit ''page'')) r = (page_children page, q)"
proof -
  from assms obtain x r where 1: "run_state (foreach (page_attr rt)
       \<lparr>pf_mode = DocumentMode, pf_title = None, pf_cols = None, pf_rows = None, pf_transition = None,
        pf_duration = 300\<rparr> attrs) p = (x, r)"
    and 2: "run_state (do { cs \<leftarrow> kids (lit ''page'');
     State_Monad.return
       \<lparr>page_mode = (if screen_mode attrs then ScreenMode (pf_cols x) (pf_rows x) else pf_mode x),
        page_title = pf_title x, page_transition = pf_transition x,
        page_transition_duration_ms = pf_duration x, page_children = cs\<rparr> }) r = (page, q)"
    unfolding parse_page_def by (rule run_bindE)
  from 2 have "run_state (kids (lit ''page'')) r = (page_children page, q)"
    by (auto split: prod.splits)
  moreover have "reports p r"
    using 1 quiet_foreach [of "page_attr rt", OF quiet_attrs(27)] by blast
  ultimately show thesis
    using that by blast
qed

lemma match_root_run:
  assumes "run_state (match_root rt kids t) p = (Some page, q)"
  obtains r where "evolves p r" "run_state (kids (lit ''page'')) r = (page_children page, q)"
proof -
  from assms obtain name attrs sc where t: "t = OpenTag name attrs sc"
    by (cases t) (auto simp: match_root_def split: prod.splits)
  from assms obtain p1 where 1: "run_state advance p = ((), p1)" and 2: "run_state (parse_page rt kids attrs) p1 = (page, q)"
    by (auto simp: match_root_def t split: if_splits prod.splits)
  obtain r where r: "reports p1 r" "run_state (kids (lit ''page'')) r = (page_children page, q)"
    using parse_page_run [OF 2] by blast
  have "evolves p r"
    using 1 r(1) evolving_advance by (auto simp: reports_def intro: evolves_trans)
  with r(2) that show thesis by blast
qed

lemma parse_root_run:
  assumes "run_state (parse_root rt kids) p = (Some page, q)"
  obtains r where "evolves p r" "run_state (kids (lit ''page'')) r = (page_children page, q)"
proof -
  obtain u p1 where 1: "run_state (skip_text rt) p = (u, p1)"
    by (metis surj_pair)
  obtain t p2 where 2: "run_state (current_owned rt) p1 = (t, p2)"
    by (metis surj_pair)
  have "evolves p p2"
    using 1 2 evolving_skip_text [of rt] quiet_evolving [OF quiet_current_owned [of rt]]
    by (blast intro: evolves_trans)
  moreover have "run_state (match_root rt kids t) p2 = (Some page, q)"
    using assms 1 2 by (simp add: parse_root_def)
  ultimately show thesis
    using that by (blast elim: match_root_run intro: evolves_trans)
qed

lemma document_run:
  assumes "run_state (parse_document rt) p = (res, q)" "pr_document res = Some page"
  obtains r r' where "evolves p r" "run_state (parse_children rt (lit ''page'')) r = (page_children page, r')"
    "evolves r' q" "\<not> allocation_failed q" "pr_diagnostics res = diagnostics q"
proof -
  obtain doc p1 where 1: "run_state (parse_root rt (parse_children rt)) p = (doc, p1)"
    by (metis surj_pair)
  obtain u p2 where 2: "run_state (if doc \<noteq> None then check_trailing rt else State_Monad.return ()) p1 = (u, p2)"
    by (metis surj_pair)
  have res: "res = publish doc p2" "q = p2"
    using assms(1) 1 2 by (auto simp: parse_document_def)
  have "evolving (check_trailing rt)"
    unfolding check_trailing_def by (intro evolve_intros)
  then have e: "evolves p1 q"
    using 2 res(2) by (auto split: if_splits)
  have doc: "doc = Some page" "\<not> allocation_failed q" "pr_diagnostics res = diagnostics q"
    using res assms(2) by (auto simp: publish_def split: if_splits)
  obtain r where "evolves p r" "run_state (parse_children rt (lit ''page'')) r = (page_children page, p1)"
    using parse_root_run [OF 1 [unfolded doc(1)]] by blast
  then show thesis
    using that e doc(2,3) by blast
qed

text \<open>
  C14: however hostile the tokens, a parsed document nests at most 33 levels below its page, has
  at most 10,000 elements beside plain runs of text, and has at most as many elements as the
  parser was given tokens.
\<close>

theorem document_bounded:
  assumes "pr_document (fst (run_state (parse_document rt) (Parser_new tokens))) = Some page"
  shows "list_all (nested_within (MAX_DEPTH + 1)) (page_children page) \<and>
    sum_list (map tagged (page_children page)) \<le> MAX_ELEMENTS \<and>
    sum_list (map nodes (page_children page)) \<le> length tokens"
proof -
  obtain res q where run: "run_state (parse_document rt) (Parser_new tokens) = (res, q)"
    by (metis surj_pair)
  with assms have "pr_document res = Some page"
    by simp
  from document_run [OF run this] obtain r r' where r: "evolves (Parser_new tokens) r" "evolves r' q"
    and c: "run_state (parse_children rt (lit ''page'')) r = (page_children page, r')"
    by blast
  have "evolves r r'"
    using c evolving_parse_children by blast
  then have "p_pos r' \<le> length tokens" "p_depth r = 0"
    using r by (auto simp: evolves_def Parser_new_def)
  moreover have "sized r (page_children page) r'"
    using sized_children_at [of rt "MAX_DEPTH + 1"] c \<open>p_depth r = 0\<close>
    unfolding sized_kids_def parse_children_def by (metis le0)
  ultimately show ?thesis
    by (auto simp: sized_def accepted_def)
qed

end
