(* ===== verification/Parser_Valid.thy ===== *)
theory Parser_Valid
  imports Parser_Bounds
begin

text \<open>
  What a document without errors guarantees. Consumers read a document only when parsing reported
  no error; then every element stands where it may, has the attributes it needs, and its numbers
  are within the limits of the layout.
\<close>

section \<open>Valid documents\<close>

text \<open>The tag under which an element's children are read.\<close>

definition tag_of :: "Element \<Rightarrow> ustr" where
  "tag_of e = (case e of
       BoxE _ _ \<Rightarrow> lit ''box'' | RowE _ _ \<Rightarrow> lit ''row'' | ColE _ _ \<Rightarrow> lit ''col''
     | HeaderE _ _ \<Rightarrow> lit ''header'' | BodyE _ _ \<Rightarrow> lit ''body'' | FooterE _ _ \<Rightarrow> lit ''footer''
     | NavE _ _ \<Rightarrow> lit ''nav'' | TextE _ _ \<Rightarrow> lit ''text'' | HeadingE _ _ \<Rightarrow> lit ''heading''
     | ListE _ _ \<Rightarrow> lit ''list'' | ItemE _ \<Rightarrow> lit ''item'' | LinkE _ _ \<Rightarrow> lit ''link''
     | SelectE _ _ \<Rightarrow> lit ''select'' | FormE _ _ \<Rightarrow> lit ''form'' | TableE _ _ \<Rightarrow> lit ''table''
     | TheadE _ _ \<Rightarrow> lit ''thead'' | TbodyE _ _ \<Rightarrow> lit ''tbody'' | TrE _ \<Rightarrow> lit ''tr''
     | ThE _ _ \<Rightarrow> lit ''th'' | TdE _ _ \<Rightarrow> lit ''td'' | AnimateE _ _ \<Rightarrow> lit ''animate''
     | FrameE _ \<Rightarrow> lit ''frame'' | LiveE _ _ \<Rightarrow> lit ''live'' | PanelE _ _ \<Rightarrow> lit ''panel''
     | StateE _ _ \<Rightarrow> lit ''state'' | DetailsE _ _ _ \<Rightarrow> lit ''details''
     | PaginationE _ _ \<Rightarrow> lit ''pagination'' | _ \<Rightarrow> [])"

text \<open>Elements that may only stand in certain parents.\<close>

definition belongs :: "ustr \<Rightarrow> Element \<Rightarrow> bool" where
  "belongs parent e = (case e of
       ColE _ _ \<Rightarrow> parent = lit ''row''
     | ItemE _ \<Rightarrow> parent = lit ''list''
     | OptionE _ \<Rightarrow> parent = lit ''select''
     | TrE _ \<Rightarrow> parent \<in> {lit ''thead'', lit ''tbody'', lit ''table''}
     | ThE _ _ \<Rightarrow> parent = lit ''tr''
     | TdE _ _ \<Rightarrow> parent = lit ''tr''
     | FrameE _ \<Rightarrow> parent = lit ''animate''
     | StateE _ _ \<Rightarrow> parent = lit ''panel''
     | _ \<Rightarrow> True)"

text \<open>What an element must say.\<close>

definition state_names :: "Element list \<Rightarrow> ustr list" where
  "state_names cs = map state_name (List.map_filter state_of cs)"

definition complete :: "Element \<Rightarrow> bool" where
  "complete e = (case e of
       LinkE l _ \<Rightarrow> link_href l \<noteq> []
     | InputE i \<Rightarrow> input_name i \<noteq> []
     | SelectE s cs \<Rightarrow> select_name s \<noteq> [] \<and> list_ex is_option cs \<and> length (filter is_selected cs) \<le> 1
     | ButtonE b \<Rightarrow>
         (button_action b = ToggleButton \<longrightarrow> (case button_states b of Some xs \<Rightarrow> length xs \<ge> 2 | None \<Rightarrow> False)) \<and>
         (button_action b = SetButton \<longrightarrow> button_to b \<noteq> None)
     | FormE f _ \<Rightarrow> form_action f \<noteq> []
     | TweenE t \<Rightarrow> tween_target t \<noteq> []
     | IncludeE i \<Rightarrow> include_name i \<noteq> []
     | LiveE l _ \<Rightarrow> live_id l \<noteq> [] \<and> live_endpoint l \<noteq> []
     | PanelE p cs \<Rightarrow> panel_id p \<noteq> [] \<and> panel_initial_state p \<noteq> [] \<and> distinct (state_names cs) \<and>
         (state_names cs \<noteq> [] \<longrightarrow> panel_initial_state p \<in> set (state_names cs))
     | StateE s _ \<Rightarrow> state_name s \<noteq> []
     | OnE b \<Rightarrow> on_target b \<noteq> [] \<and> (on_event b = AnimationEndEvent \<longrightarrow> on_source b \<noteq> None)
     | DetailsE d sc _ \<Rightarrow> details_summary d \<noteq> [] \<or> sc \<noteq> []
     | _ \<Rightarrow> True)"

text \<open>The limits of the numbers.\<close>

definition fits :: "nat option \<Rightarrow> bool" where
  "fits x = (case x of Some n \<Rightarrow> n \<le> MAX_ELEMENT_DIMENSION | None \<Rightarrow> True)"

definition fits_dim :: "Dimension \<Rightarrow> bool" where
  "fits_dim d = (case d of Fixed n \<Rightarrow> n \<le> MAX_ELEMENT_DIMENSION | _ \<Rightarrow> True)"

definition box_fits :: "BoxElement \<Rightarrow> bool" where
  "box_fits b \<longleftrightarrow> fits (box_x b) \<and> fits (box_y b) \<and> fits_dim (box_w b) \<and> fits_dim (box_h b) \<and>
     box_padding b \<le> MAX_ELEMENT_DIMENSION \<and> fits (box_join_top b) \<and> fits (box_join_bottom b) \<and>
     fits (box_join_left b) \<and> fits (box_join_right b)"

definition animate_fits :: "AnimateElement \<Rightarrow> bool" where
  "animate_fits a \<longleftrightarrow> 1 \<le> animate_fps a \<and> animate_fps a \<le> 30 \<and> fits (animate_x a) \<and> fits (animate_y a) \<and>
     fits (animate_w a) \<and> fits (animate_h a)"

definition state_fits :: "StateElement \<Rightarrow> bool" where
  "state_fits s \<longleftrightarrow> fits (state_x s) \<and> fits (state_y s) \<and>
     (case state_w s of Some d \<Rightarrow> fits_dim d | None \<Rightarrow> True) \<and> (case state_h s of Some d \<Rightarrow> fits_dim d | None \<Rightarrow> True)"

definition in_range :: "Element \<Rightarrow> bool" where
  "in_range e = (case e of
       BoxE b _ \<Rightarrow> box_fits b
     | RowE r _ \<Rightarrow> row_gap r \<le> MAX_ELEMENT_DIMENSION
     | ColE c _ \<Rightarrow> fits_dim (col_w c)
     | SpacerE s \<Rightarrow> spacer_lines s \<le> MAX_ELEMENT_DIMENSION
     | HeadingE h _ \<Rightarrow> 1 \<le> heading_level h \<and> heading_level h \<le> 6
     | InputE i \<Rightarrow> input_rows i \<le> MAX_ELEMENT_DIMENSION
     | ArtE a \<Rightarrow> fits (art_width a) \<and> fits (art_height a)
     | AnimateE a _ \<Rightarrow> animate_fits a
     | ElementDefE d \<Rightarrow> fits (element_def_x d) \<and> fits (element_def_y d)
     | LiveE l _ \<Rightarrow> fits_dim (live_height l)
     | StateE s _ \<Rightarrow> state_fits s
     | _ \<Rightarrow> True)"

function valid :: "ustr \<Rightarrow> Element \<Rightarrow> bool" where
  "valid parent e \<longleftrightarrow> belongs parent e \<and> complete e \<and> in_range e \<and> list_all (valid (tag_of e)) (parts e)"
  by pat_completeness auto
termination
  by (relation "measure (\<lambda>(_, e). size e)") (auto dest: parts_size)

declare valid.simps [simp del]

section \<open>Runs without errors\<close>

lemma clean_evolves: "evolves p q \<Longrightarrow> clean_report q \<Longrightarrow> clean_report p"
  by (auto simp: evolves_def clean_report_def has_errors_def)

lemma evolving_faults: "evolving m \<Longrightarrow> faults_stay m"
  unfolding state_io_rel_def using clean_evolves by metis

lemma yields_bind:
  assumes "yields m A" "\<And>x. A x \<Longrightarrow> yields (f x) P" "\<And>x. evolving (f x)"
  shows "yields (State_Monad.bind m f) P"
  using assms by (intro yields_then [of m A] evolving_faults)

lemma gives_yields: "gives m P \<Longrightarrow> yields m P"
  by (auto simp: gives_def yields_def)

lemma yields_require: "yields (require rt code ok s) (\<lambda>_. ok)"
  using yields_error_msg [of rt code s] by (auto simp: require_def yields_def)

lemma gives_foreach:
  assumes "P a" "\<And>a x. P a \<Longrightarrow> gives (f a x) P" shows "gives (foreach f a xs) P"
  using assms(1) by (induction xs arbitrary: a) (auto intro!: gives_return gives_bind assms(2))

section \<open>Attributes keep the limits\<close>

lemma gives_sum:
  "(\<And>e. x = Inl e \<Longrightarrow> gives (f e) P) \<Longrightarrow> (\<And>y. x = Inr y \<Longrightarrow> gives (g y) P) \<Longrightarrow>
   gives (case x of Inl e \<Rightarrow> f e | Inr y \<Rightarrow> g y) P"
  by (cases x) simp_all

lemma gives_Let: "gives (f x) P \<Longrightarrow> gives (let y = x in f y) P"
  by simp

lemmas gives_intros = gives_if gives_sum gives_option gives_return gives_last gives_Let

lemma parse_u16_fits [simp]: "fits (parse_u16_attr v)"
  by (simp add: fits_def parse_u16_attr_def split: option.split)

lemma parse_u16_Some: "parse_u16_attr v = Some n \<Longrightarrow> n \<le> MAX_ELEMENT_DIMENSION"
  by (auto simp: parse_u16_attr_def split: option.splits if_splits)

lemma parse_dimension_fits: "parse_dimension rt s = Inr d \<Longrightarrow> fits_dim d"
  by (cases d) (auto simp: fits_dim_def dest: parse_dimension_bounded)

lemma ok_else_fits: "fits_dim d \<Longrightarrow> fits_dim (ok_else (parse_dimension rt s) d)"
  by (auto simp: ok_else_def parse_dimension_fits split: sum.split)

lemma one_fits [simp]: "Suc 0 \<le> MAX_ELEMENT_DIMENSION" "1 \<le> MAX_ELEMENT_DIMENSION"
  by (simp_all add: MAX_ELEMENT_DIMENSION_def)

lemmas range_defs = fits_def fits_dim_def box_fits_def animate_fits_def state_fits_def

lemma box_attr_fits: "box_fits e \<Longrightarrow> gives (box_attr rt e a) box_fits"
  unfolding box_attr_def by (intro gives_intros)
    (auto simp: box_fits_def parse_dimension_fits dest: parse_u16_Some split: option.splits)

lemma row_attr_fits:
  "row_gap e \<le> MAX_ELEMENT_DIMENSION \<Longrightarrow> gives (row_attr rt e a) (\<lambda>e. row_gap e \<le> MAX_ELEMENT_DIMENSION)"
  unfolding row_attr_def by (intro gives_intros) (auto dest: parse_u16_Some split: option.splits)

lemma col_attr_fits: "fits_dim (col_w e) \<Longrightarrow> gives (col_attr rt e a) (\<lambda>e. fits_dim (col_w e))"
  unfolding col_attr_def by (intro gives_intros) (auto simp: ok_else_fits)

lemma spacer_attr_fits:
  "spacer_lines e \<le> MAX_ELEMENT_DIMENSION \<Longrightarrow> gives (spacer_attr rt e a) (\<lambda>e. spacer_lines e \<le> MAX_ELEMENT_DIMENSION)"
  unfolding spacer_attr_def by (intro gives_intros) auto

lemma heading_attr_fits:
  "1 \<le> heading_level e \<and> heading_level e \<le> 6 \<Longrightarrow>
   gives (heading_attr rt e a) (\<lambda>e. 1 \<le> heading_level e \<and> heading_level e \<le> 6)"
  unfolding heading_attr_def by (intro gives_intros) auto

lemma input_attr_fits:
  "input_rows e \<le> MAX_ELEMENT_DIMENSION \<Longrightarrow> gives (input_attr rt e a) (\<lambda>e. input_rows e \<le> MAX_ELEMENT_DIMENSION)"
  unfolding input_attr_def by (intro gives_intros) (auto split: option.splits)

lemma art_attr_fits:
  "fits (art_width e) \<and> fits (art_height e) \<Longrightarrow> gives (art_attr rt e a) (\<lambda>e. fits (art_width e) \<and> fits (art_height e))"
  unfolding art_attr_def by (intro gives_intros) auto

lemma animate_attr_fits: "animate_fits e \<Longrightarrow> gives (animate_attr rt e a) animate_fits"
  unfolding animate_attr_def by (intro gives_intros) (auto simp: animate_fits_def)

lemma element_def_attr_fits:
  "fits (element_def_x e) \<and> fits (element_def_y e) \<Longrightarrow>
   gives (element_def_attr rt e a) (\<lambda>e. fits (element_def_x e) \<and> fits (element_def_y e))"
  unfolding element_def_attr_def by (intro gives_intros) auto

lemma live_attr_fits: "fits_dim (live_height e) \<Longrightarrow> gives (live_attr rt e a) (\<lambda>e. fits_dim (live_height e))"
  unfolding live_attr_def by (intro gives_intros) (auto simp: ok_else_fits)

lemma state_attr_fits: "state_fits e \<Longrightarrow> gives (state_attr rt e a) state_fits"
  unfolding state_attr_def by (intro gives_intros)
    (auto simp: state_fits_def ok_else_fits intro!: ok_else_fits, auto simp: fits_dim_def)

section \<open>Elements\<close>

definition solid :: "Element \<Rightarrow> bool" where
  "solid e \<longleftrightarrow> complete e \<and> in_range e \<and> list_all (valid (tag_of e)) (parts e)"

definition free :: "Element \<Rightarrow> bool" where
  "free e \<longleftrightarrow> (\<forall>parent. belongs parent e)"

lemmas element_defs = solid_def free_def complete_def in_range_def belongs_def tag_of_def

lemma valid_iff: "valid parent e \<longleftrightarrow> belongs parent e \<and> solid e"
  by (simp add: valid.simps [of parent e] solid_def)

lemma leaf_solid:
  "yields (parse_hr rt attrs) (\<lambda>e. solid e \<and> free e)"
  "yields (parse_spacer rt attrs) (\<lambda>e. solid e \<and> free e)"
  "yields (parse_pre rt attrs sc) (\<lambda>e. solid e \<and> free e)"
  "yields (parse_input rt attrs) (\<lambda>e. solid e \<and> free e)"
  "yields (parse_option rt attrs sc) (\<lambda>e. solid e \<and> belongs (lit ''select'') e)"
  "yields (parse_art rt attrs sc) (\<lambda>e. solid e \<and> free e)"
  "yields (parse_element_def rt attrs sc) (\<lambda>e. solid e \<and> free e)"
  "yields (parse_tween rt attrs sc) (\<lambda>e. solid e \<and> free e)"
  "yields (parse_text_animate rt attrs sc) (\<lambda>e. solid e \<and> free e)"
  "yields (parse_include rt attrs) (\<lambda>e. solid e \<and> free e)"
proof -
  show "yields (parse_hr rt attrs) (\<lambda>e. solid e \<and> free e)"
    "yields (parse_pre rt attrs sc) (\<lambda>e. solid e \<and> free e)"
    "yields (parse_option rt attrs sc) (\<lambda>e. solid e \<and> belongs (lit ''select'') e)"
    "yields (parse_text_animate rt attrs sc) (\<lambda>e. solid e \<and> free e)"
    unfolding parse_hr_def parse_pre_def parse_option_def parse_text_animate_def
    by (intro yields_last yields_return; simp add: element_defs)+
  show "yields (parse_spacer rt attrs) (\<lambda>e. solid e \<and> free e)"
    unfolding parse_spacer_def
    by (rule yields_bind [OF gives_yields [OF gives_foreach [OF _ spacer_attr_fits]]])
      (auto intro!: yields_return evolve_intros simp: element_defs)
  show "yields (parse_art rt attrs sc) (\<lambda>e. solid e \<and> free e)"
    unfolding parse_art_def
    by (rule yields_bind [OF gives_yields [OF gives_foreach [OF _ art_attr_fits]]])
      (auto intro!: yields_last yields_return evolve_intros simp: element_defs fits_def)
  show "yields (parse_element_def rt attrs sc) (\<lambda>e. solid e \<and> free e)"
    unfolding parse_element_def_def
    by (rule yields_bind [OF gives_yields [OF gives_foreach [OF _ element_def_attr_fits]]])
      (auto intro!: yields_last yields_return evolve_intros simp: element_defs fits_def)
  show "yields (parse_input rt attrs) (\<lambda>e. solid e \<and> free e)"
    unfolding parse_input_def
    by (rule yields_bind [OF gives_yields [OF gives_foreach [OF _ input_attr_fits]]])
      (auto intro!: yields_last [OF yields_bind [OF yields_require]] yields_return evolve_intros
        simp: element_defs input_default_def)
  show "yields (parse_tween rt attrs sc) (\<lambda>e. solid e \<and> free e)"
    unfolding parse_tween_def
    by (rule yields_last, rule yields_bind [OF yields_require])
      (auto intro!: yields_last yields_return evolve_intros simp: element_defs)
  show "yields (parse_include rt attrs) (\<lambda>e. solid e \<and> free e)"
    unfolding parse_include_def
    by (rule yields_last, rule yields_bind [OF yields_require])
      (auto intro!: yields_return evolve_intros simp: element_defs)
qed

lemma button_solid: "yields (parse_button rt attrs sc) (\<lambda>e. solid e \<and> free e)"
proof -
  have toggle: "yields (if button_action e = ToggleButton then
        case button_states e of
          Some xs \<Rightarrow> require rt ''E023'' (length xs \<ge> 2) ''toggle requires at least 2 states''
        | None \<Rightarrow> error_msg rt ''E023'' ''toggle requires states attribute''
      else State_Monad.return ())
    (\<lambda>_. button_action e = ToggleButton \<longrightarrow> (case button_states e of Some xs \<Rightarrow> length xs \<ge> 2 | None \<Rightarrow> False))" for e
    by (cases "button_states e") (auto intro!: yields_return yields_require yields_error_msg)
  show ?thesis
    unfolding parse_button_def
    by (rule yields_last, rule yields_last, rule yields_bind [OF toggle], rule yields_bind [OF yields_require])
      (auto intro!: yields_last yields_return evolve_intros simp: element_defs)
qed

lemma on_solid: "yields (parse_on rt attrs) (\<lambda>e. solid e \<and> free e)"
  unfolding parse_on_def
  by (rule yields_last, rule yields_bind [OF yields_require], rule yields_bind [OF yields_require],
      rule yields_bind [OF yields_require], rule yields_bind [OF yields_require])
    (auto intro!: yields_return evolve_intros simp: element_defs)

section \<open>Panels\<close>

lemma yields_foreach:
  assumes "\<And>x. yields (f () x) (\<lambda>_. P x)" "\<And>a x. evolving (f a x)"
  shows "yields (foreach f () xs) (\<lambda>_. list_all P xs)"
proof (induction xs)
  case (Cons x xs)
  then show ?case
    by (auto intro!: yields_bind [OF assms(1)] evolving_foreach assms(2))
qed (simp add: yields_return)

definition new_name :: "Element list \<Rightarrow> nat \<Rightarrow> bool" where
  "new_name cs i = (case state_of (cs ! i) of
       Some s \<Rightarrow> \<not> list_ex (names_state (state_name s)) (take i cs) | None \<Rightarrow> True)"

lemma yields_state_name: "yields (check_state_name rt panel cs () i) (\<lambda>_. new_name cs i)"
  using yields_error by (cases "state_of (cs ! i)") (auto simp: check_state_name_def new_name_def intro!: yields_return)

lemma quiet_state_name: "quiet (check_state_name rt panel cs u i)"
  unfolding check_state_name_def by (intro evolve_intros)

lemma names_state_iff: "list_ex (names_state n) cs \<longleftrightarrow> n \<in> set (state_names cs)"
  by (induction cs) (auto simp: state_names_def names_state_def List.map_filter_def split: option.splits)

lemma state_names_append: "state_names (cs @ [c]) = state_names cs @ (case state_of c of Some s \<Rightarrow> [state_name s] | None \<Rightarrow> [])"
  by (simp add: state_names_def List.map_filter_def split: option.split)

lemma new_name_append: "i < length cs \<Longrightarrow> new_name (cs @ [c]) i = new_name cs i"
  by (simp add: new_name_def nth_append split: option.split)

lemma yields_state_names:
  "yields (foreach (check_state_name rt panel cs) () xs) (\<lambda>_. list_all (new_name cs) xs)"
  by (rule yields_foreach) (rule yields_state_name quiet_evolving quiet_state_name)+

lemma new_names_distinct: "list_all (new_name cs) [0..<length cs] \<Longrightarrow> distinct (state_names cs)"
proof (induction cs rule: rev_induct)
  case (snoc c cs)
  have "list_all (new_name cs) [0..<length cs]"
    using snoc.prems by (auto simp: list_all_iff new_name_append)
  moreover have "new_name (cs @ [c]) (length cs)"
    using snoc.prems by simp
  ultimately show ?case
    using snoc.IH
    by (cases "state_of c") (auto simp: state_names_append new_name_def [of "cs @ [c]"] names_state_iff)
qed (simp add: state_names_def List.map_filter_def)

lemma filter_states: "filter (\<lambda>c. state_of c \<noteq> None) cs = [] \<longleftrightarrow> state_names cs = []"
  by (induction cs) (auto simp: state_names_def List.map_filter_def)

lemma yields_check_states:
  "yields (check_states rt e cs sc) (\<lambda>_. distinct (state_names cs) \<and>
     (panel_initial_state e \<noteq> [] \<longrightarrow> state_names cs \<noteq> [] \<longrightarrow> panel_initial_state e \<in> set (state_names cs)))"
  unfolding check_states_def
  by (rule yields_last, rule yields_bind [OF yields_state_names])
    (auto intro!: yields_if yields_return yields_mono [OF yields_error] evolve_intros
      simp: names_state_iff filter_states simp del: not_None_eq dest: new_names_distinct)

section \<open>Element parsers over valid children\<close>

definition special_tags :: "ustr list" where
  "special_tags = map lit [''row'', ''list'', ''select'', ''thead'', ''tbody'', ''table'', ''tr'', ''animate'', ''panel'']"

lemma belongs_free: "belongs tag e \<Longrightarrow> tag \<notin> set special_tags \<Longrightarrow> free e"
  by (cases e) (auto simp: belongs_def free_def special_tags_def)

lemma free_valid: "free e \<Longrightarrow> valid tag e \<Longrightarrow> valid parent e"
  by (simp add: valid_iff free_def)

definition places :: "ustr \<Rightarrow> Element option \<Rightarrow> bool" where
  "places parent x = (case x of Some e \<Rightarrow> valid parent e | None \<Rightarrow> True)"

text \<open>
  What an element parser relies on: the parser of its children reads on, and what it gives without
  errors is valid under the tag it was called for.
\<close>

locale valid_children =
  fixes kids :: kids
  assumes kids_evolve: "evolving (kids tag)"
    and kids_valid: "yields (kids tag) (list_all (valid tag))"
begin

lemma with_children_valid: "yields (with_children kids tag sc) (list_all (valid (lit tag)))"
  unfolding with_children_def by (auto intro!: yields_return kids_valid)

lemma named_children_valid: "yields (if sc then State_Monad.return [] else kids tag) (list_all (valid tag))"
  by (auto intro!: yields_return kids_valid)

lemmas kid_intros = evolve_intros evolving_with_children kids_evolve

lemma plain_nodes:
  "yields (parse_nav rt kids attrs sc) (\<lambda>e. solid e \<and> free e)"
  "yields (parse_table rt kids attrs sc) (\<lambda>e. solid e \<and> free e)"
  "yields (parse_item kids sc) (\<lambda>e. solid e \<and> belongs (lit ''list'') e)"
  "yields (parse_tr kids sc) (\<lambda>e. solid e \<and> belongs (lit ''table'') e \<and> belongs (lit ''thead'') e \<and> belongs (lit ''tbody'') e)"
  "yields (parse_frame kids sc) (\<lambda>e. solid e \<and> belongs (lit ''animate'') e)"
  unfolding parse_nav_def parse_table_def parse_item_def parse_tr_def parse_frame_def
  by (rule yields_bind [OF with_children_valid], auto intro!: yields_return evolve_intros simp: element_defs)+

lemma list_solid: "yields (parse_list rt kids attrs sc) (\<lambda>e. solid e \<and> free e)"
  unfolding parse_list_def
  by (rule yields_last, rule yields_bind [OF with_children_valid])
    (auto intro!: yields_return evolve_intros simp: element_defs)

lemma sized_nodes:
  "yields (parse_box rt kids attrs sc) (\<lambda>e. solid e \<and> free e)"
  "yields (parse_row rt kids attrs sc) (\<lambda>e. solid e \<and> free e)"
  "yields (parse_col rt kids attrs sc) (\<lambda>e. solid e \<and> belongs (lit ''row'') e)"
  "yields (parse_animate rt kids attrs sc) (\<lambda>e. solid e \<and> free e)"
  unfolding parse_box_def parse_row_def parse_col_def parse_animate_def
  subgoal
    by (rule yields_bind [OF gives_yields [OF gives_foreach [OF _ box_attr_fits]] yields_bind [OF with_children_valid]])
      (auto intro!: yields_return kid_intros simp: element_defs box_default_def box_fits_def fits_def fits_dim_def)
  subgoal
    by (rule yields_bind [OF gives_yields [OF gives_foreach [OF _ row_attr_fits]] yields_bind [OF with_children_valid]])
      (auto intro!: yields_return kid_intros simp: element_defs)
  subgoal
    by (rule yields_bind [OF gives_yields [OF gives_foreach [OF _ col_attr_fits]] yields_bind [OF with_children_valid]])
      (auto intro!: yields_return kid_intros simp: element_defs fits_dim_def)
  subgoal
    by (rule yields_bind [OF gives_yields [OF gives_foreach [OF _ animate_attr_fits]] yields_bind [OF with_children_valid]])
      (auto intro!: yields_return kid_intros simp: element_defs animate_default_def animate_fits_def fits_def)
  done

lemma container_solid:
  assumes "name \<in> lit ` {''header'', ''body'', ''footer'', ''thead'', ''tbody'', ''pagination''}"
  shows "yields (parse_container rt kids name attrs sc) (\<lambda>e. solid e \<and> free e)"
  unfolding parse_container_def
  by (rule yields_bind [OF named_children_valid])
    (use assms in \<open>auto intro!: yields_return evolve_intros simp: element_defs container_of_def\<close>)

lemma cell_solid:
  assumes "name = lit ''td'' \<or> name = lit ''th''"
  shows "yields (parse_cell rt kids name attrs sc) (\<lambda>e. solid e \<and> belongs (lit ''tr'') e)"
  unfolding parse_cell_def
  by (rule yields_last, rule yields_bind [OF named_children_valid])
    (use assms in \<open>auto intro!: yields_return evolve_intros simp: element_defs\<close>)

lemma list_all_parts: "some_of (parts e) cs \<Longrightarrow> list_all P cs \<Longrightarrow> list_all P (parts e)"
  by (rule list_all_some_of)

lemma text_solid: "yields (parse_text rt kids attrs sc) (\<lambda>e. solid e \<and> free e)"
proof -
  have "solid (text_with e cs) \<and> free (text_with e cs)" if "list_all (valid (lit ''text'')) cs" for e cs
    using that by (auto simp: text_with_def element_defs split: option.split)
  then show ?thesis
    unfolding parse_text_def
    by (intro yields_last yields_if yields_bind [OF kids_valid] yields_return evolve_intros)
      (auto simp: element_defs)
qed

lemma heading_solid: "yields (parse_heading rt kids attrs sc) (\<lambda>e. solid e \<and> free e)"
proof -
  have "yields (do { (content, cs) \<leftarrow> foreach (heading_child rt) ([], []) all;
      State_Monad.return (HeadingE (e\<lparr>heading_content := content\<rparr>) cs) }) (\<lambda>e. solid e \<and> free e)"
    if "1 \<le> heading_level e \<and> heading_level e \<le> 6" "list_all (valid (lit ''heading'')) all" for e all
    by (rule yields_bind [OF gives_yields [OF foreach_some_of [of "heading_child rt" snd, OF gives_heading_child]]])
      (use that in \<open>auto intro!: yields_return evolve_intros simp: element_defs dest: list_all_some_of\<close>)
  then show ?thesis
    unfolding parse_heading_def
    by (intro yields_bind [OF gives_yields [OF gives_foreach [OF _ heading_attr_fits]] yields_bind [OF with_children_valid]])
      (auto intro!: kid_intros)
qed

lemma link_solid: "yields (parse_link rt kids attrs sc) (\<lambda>e. solid e \<and> free e)"
  unfolding parse_link_def
  by (rule yields_last, rule yields_last, rule yields_bind [OF yields_require], rule yields_bind [OF with_children_valid])
    (auto intro!: yields_return kid_intros simp: element_defs)

lemma select_solid: "yields (parse_select rt kids attrs sc) (\<lambda>e. solid e \<and> free e)"
  unfolding parse_select_def
  by (rule yields_last, rule yields_bind [OF yields_require], rule yields_bind [OF with_children_valid],
      rule yields_bind [OF yields_require], rule yields_bind [OF yields_require])
    (auto intro!: yields_return kid_intros simp: element_defs filter_empty_conv list_ex_iff)

lemma form_solid: "yields (parse_form rt kids attrs sc) (\<lambda>e. solid e \<and> free e)"
  unfolding parse_form_def
  by (rule yields_last, rule yields_bind [OF with_children_valid], rule yields_bind [OF yields_require])
    (auto intro!: yields_return kid_intros simp: element_defs)

lemma live_solid: "yields (parse_live rt kids attrs sc) (\<lambda>e. solid e \<and> free e)"
  unfolding parse_live_def
  by (rule yields_bind [OF gives_yields [OF gives_foreach [OF _ live_attr_fits]]], simp add: fits_dim_def, assumption,
      rule yields_bind [OF yields_require], rule yields_bind [OF yields_require], rule yields_bind [OF with_children_valid])
    (auto intro!: yields_return kid_intros simp: element_defs)

lemma state_solid: "yields (parse_state rt kids attrs sc) (\<lambda>e. solid e \<and> belongs (lit ''panel'') e)"
  unfolding parse_state_def
  by (rule yields_bind [OF gives_yields [OF gives_foreach [OF _ state_attr_fits]]], simp add: state_fits_def fits_def, assumption,
      rule yields_bind [OF yields_require], rule yields_bind [OF with_children_valid])
    (auto intro!: yields_return kid_intros simp: element_defs)

lemma panel_solid: "yields (parse_panel rt kids attrs sc) (\<lambda>e. solid e \<and> free e)"
  unfolding parse_panel_def
  by (rule yields_last, rule yields_bind [OF yields_require], rule yields_bind [OF yields_require],
      rule yields_bind [OF with_children_valid], rule yields_bind [OF yields_check_states])
    (auto intro!: yields_return kid_intros simp: element_defs)

lemma details_solid: "yields (parse_details rt kids attrs sc) (\<lambda>e. solid e \<and> free e)"
proof -
  have body: "yields (do {
      (summary, sc, bc) \<leftarrow> split_first rt s all;
      bc \<leftarrow> foreach (try_push rt) bc (tl all);
      require rt ''E011'' (\<not> (summary = [] \<and> sc = [])) ''details element requires summary attribute or text content'';
      State_Monad.return (DetailsE (e\<lparr>details_summary := summary\<rparr>) sc bc) }) (\<lambda>e. solid e \<and> free e)"
    (is "yields ?m _") if all: "list_all (valid (lit ''details'')) all" for s all and e :: DetailsElement
  proof -
    have "yields ?m (\<lambda>e. complete e \<and> in_range e \<and> free e \<and> tag_of e = lit ''details'')"
      by (rule yields_last, clarify, rule yields_last, rule yields_bind [OF yields_require])
        (auto intro!: yields_return evolve_intros simp: element_defs)
    moreover have "gives ?m (\<lambda>e. some_of (parts e) all)"
      using wraps_details [of all rt s e] unfolding wraps_def gives_def by blast
    ultimately show ?thesis
      using list_all_parts [OF _ all] by (fastforce simp: yields_def gives_def solid_def)
  qed
  show ?thesis
    unfolding parse_details_def
    by (rule yields_last, rule yields_bind [OF with_children_valid], erule body, intro evolve_intros)
qed

lemmas node_solid = plain_nodes list_solid sized_nodes text_solid heading_solid link_solid select_solid form_solid
  live_solid state_solid panel_solid details_solid leaf_solid button_solid on_solid

lemma free_element:
  "yields m (\<lambda>e. solid e \<and> free e) \<Longrightarrow> yields (some_element m) (places parent)"
  unfolding some_element_def
  by (erule yields_bind) (auto intro!: yields_return evolve_intros simp: valid_iff free_def places_def)

lemma placed_element:
  assumes "yields m (\<lambda>e. solid e \<and> Q e)" "\<And>e. ok \<Longrightarrow> Q e \<Longrightarrow> belongs parent e" "evolving m"
  shows "yields (inside rt code ok s m) (places parent)"
  unfolding inside_def
  by (rule yields_bind [OF yields_require], rule yields_bind [OF assms(1)])
    (auto intro!: yields_return evolve_intros assms(2,3) simp: valid_iff places_def)

lemma cell_element:
  assumes "name = lit ''td'' \<or> name = lit ''th''"
  shows "yields (do {
        (if parent = lit ''tr'' then State_Monad.return ()
         else error_fmt rt ''E006'' [lit ''['', name, lit ''] must be inside [tr]'']);
        some_element (parse_cell rt kids name attrs sc) }) (places parent)"
proof -
  have "yields (if parent = lit ''tr'' then State_Monad.return ()
         else error_fmt rt ''E006'' [lit ''['', name, lit ''] must be inside [tr]'']) (\<lambda>_. parent = lit ''tr'')"
    by (auto intro!: yields_return yields_mono [OF yields_error])
  then show ?thesis
    unfolding some_element_def
    by (rule yields_bind, intro yields_bind [OF cell_solid [OF assms]])
      (auto intro!: yields_return evolve_intros evolving_nodes kids_evolve simp: valid_iff places_def)
qed

lemma passed_element:
  assumes "name \<notin> set special_tags"
  shows "yields (do { cs \<leftarrow> kids name; State_Monad.return (pass_through cs) }) (places parent)"
proof -
  have "places parent (pass_through cs)" if cs: "list_all (valid name) cs" for cs
  proof -
    have f: "free e" if "e \<in> set cs" for e
      using cs that belongs_free assms by (auto simp: list_all_iff valid_iff)
    then have "list_all (valid (lit ''body'')) cs"
      using cs free_valid by (auto simp: list_all_iff)
    then have "valid parent (BodyE no_sticky cs)"
      by (simp add: valid_iff element_defs)
    with f cs free_valid show ?thesis
      by (auto simp: places_def pass_through_def list_all_iff split: list.split)
  qed
  then show ?thesis
    by (intro yields_bind [OF kids_valid]) (auto intro!: yields_return evolve_intros)
qed

lemma match_element_valid: "yields (match_element rt kids name attrs sc parent) (places parent)"
  unfolding match_element_def
  by (intro yields_if free_element node_solid container_solid cell_element passed_element
      placed_element [OF plain_nodes(3)] placed_element [OF plain_nodes(4)] placed_element [OF plain_nodes(5)]
      placed_element [OF sized_nodes(3)] placed_element [OF state_solid] placed_element [OF leaf_solid(5)]
      yields_last yields_return evolving_nodes kids_evolve evolving_leaves)
    (auto simp: special_tags_def places_def)

lemma parse_element_valid: "yields (parse_element rt kids name attrs sc parent) (places parent)"
  unfolding yields_def
proof (intro allI impI)
  fix p x q
  assume run: "run_state (parse_element rt kids name attrs sc parent) p = (x, q)" and q: "clean_report q"
  from run show "places parent x"
  proof (cases rule: parse_element_run)
    case 1
    then show ?thesis by (simp add: places_def)
  next
    case (2 r r')
    then have "clean_report r'"
      using q by (simp add: clean_report_def)
    with 2(3) match_element_valid show ?thesis
      unfolding yields_def by blast
  qed
qed

lemma children_turn_valid:
  assumes "list_all (valid parent) cs"
  shows "yields (children_turn rt kids parent cs t) (\<lambda>(cs', _). list_all (valid parent) cs')"
proof -
  have plain: "valid parent (TextE (plain_text s) [])" for s
    by (simp add: valid_iff element_defs)
  have push: "yields (do { cs \<leftarrow> try_push rt cs e; go_on cs }) (\<lambda>(cs', _). list_all (valid parent) cs')"
    if "valid parent e" for e
    by (rule yields_bind [OF yields_push]) (use assms that in \<open>auto simp: go_on_def intro!: yields_return evolve_intros\<close>)
  have "yields (case x of Some e \<Rightarrow> do { cs \<leftarrow> try_push rt cs e; go_on cs } | None \<Rightarrow> go_on cs)
      (\<lambda>(cs', _). list_all (valid parent) cs')" if "places parent x" for x
  proof (cases x)
    case None
    then show ?thesis
      using assms by (simp add: go_on_def yields_return)
  next
    case (Some e)
    then show ?thesis
      using that push by (simp add: places_def)
  qed
  then have elem: "yields (do { e \<leftarrow> parse_element rt kids name attrs sc parent;
      case e of Some e \<Rightarrow> do { cs \<leftarrow> try_push rt cs e; go_on cs } | None \<Rightarrow> go_on cs })
      (\<lambda>(cs', _). list_all (valid parent) cs')" for name attrs sc
    by (rule yields_bind [OF parse_element_valid]) (assumption, intro evolve_intros)
  have stay: "yields (go_on cs) (\<lambda>(cs', _). list_all (valid parent) cs')"
    "yields (break cs) (\<lambda>(cs', _). list_all (valid parent) cs')"
    using assms by (simp_all add: go_on_def break_def yields_return)
  show ?thesis
  proof (cases t)
    case (OpenTag name attrs sc)
    show ?thesis
      unfolding children_turn_def OpenTag Token.case
      by (rule yields_last, rule yields_last, rule yields_if, rule stay, rule elem)
  next
    case (CloseTag name)
    show ?thesis
      unfolding children_turn_def CloseTag Token.case
      by (rule yields_if, rule yields_last, rule stay, rule yields_last, rule yields_last, rule stay)
  next
    case (TextToken s)
    show ?thesis
      unfolding children_turn_def TextToken Token.case
      by (rule yields_last, rule yields_if, rule push [OF plain], rule stay)
  next
    case Eof
    show ?thesis
      unfolding children_turn_def Eof Token.case by (rule yields_last, rule stay)
  qed
qed

lemma children_loop_valid: "yields (children_loop rt kids tag) (list_all (valid tag))"
  unfolding yields_def children_loop_def
proof (intro allI impI)
  fix p cs q
  assume run: "run_state (loop_tokens rt (children_turn rt kids tag) []) p = (cs, q)" and q: "clean_report q"
  have "clean_report q \<longrightarrow> list_all (valid tag) cs"
  proof (rule loop_invariant [OF _ _ run, where I = "\<lambda>cs q. clean_report q \<longrightarrow> list_all (valid tag) cs"])
    fix cs r cs' go q
    assume I: "clean_report r \<longrightarrow> list_all (valid tag) cs"
      and "run_state (turn rt (children_turn rt kids tag) cs) r = ((cs', go), q)"
    then obtain t r1 where 1: "run_state (current_owned rt) r = (t, r1)"
      and 2: "run_state (children_turn rt kids tag cs t) r1 = ((cs', go), q)"
      unfolding turn_def by (metis run_bindE)
    have "evolves r r1" "evolves r1 q"
      using 1 2 quiet_evolving [OF quiet_current_owned [of rt]] evolving_children_turn [of kids, OF kids_evolve] by blast+
    then show "clean_report q \<longrightarrow> list_all (valid tag) cs'"
      using I 2 children_turn_valid [of tag cs rt t] clean_evolves unfolding yields_def by fastforce
  qed simp
  with q show "list_all (valid tag) cs" by blast
qed

lemma children_loop_children: "valid_children (children_loop rt kids)"
  by unfold_locales (auto simp: children_loop_def
      intro!: evolving_loop evolving_children_turn kids_evolve children_loop_valid [unfolded children_loop_def])

end

lemma valid_children_at: "valid_children (children_at rt k)"
proof (induction k)
  case 0
  then show ?case
    by unfold_locales (auto intro!: yields_return evolve_intros)
next
  case (Suc k)
  then show ?case
    by (simp add: valid_children.children_loop_children)
qed

interpretation parsed: valid_children "parse_children rt" for rt
  unfolding parse_children_def by (rule valid_children_at)

text \<open>
  C13: a document that was parsed without errors is valid: columns stand in rows, items in lists,
  options in selects, rows and cells in tables, frames in animations, states in panels; links,
  inputs, selects, forms, buttons, tweens, placeholders, live regions, panels, states, bindings
  and details say what they must, panels with distinct states among which is the initial one; and
  every size, level and rate is within its limit.
\<close>

theorem clean_document_valid:
  assumes "run_state (parse_document rt) (Parser_new tokens) = (res, q)"
    and "pr_document res = Some page" and "\<not> has_errors (pr_diagnostics res)"
  shows "list_all (valid (lit ''page'')) (page_children page)"
proof -
  obtain r r' where c: "run_state (parse_children rt (lit ''page'')) r = (page_children page, r')"
    and e: "evolves r' q" and f: "\<not> allocation_failed q" and d: "pr_diagnostics res = diagnostics q"
    using document_run [OF assms(1,2)] by blast
  have "clean_report q"
    using f d assms(3) by (simp add: clean_report_def)
  with e have "clean_report r'"
    by (rule clean_evolves)
  with c parsed.kids_valid show ?thesis
    unfolding yields_def by blast
qed

end
