(* ===== verification/Components.thy ===== *)
theory Components
  imports Report "HOL-Library.AList"
begin

text \<open>
  \<open>parser/components.rs\<close>: the components of a document, macros that are expanded in the token
  stream before parsing. The loops over an index into the tokens are recursions on the tokens
  that are left; the source decides on the original tokens where a block ends, so the blocks are
  cut out first and then copied. Hash maps are association lists. Whether a character is
  alphanumeric in Unicode (\<open>char::is_alphanumeric\<close>) is the parameter \<open>alnum\<close>.
\<close>

section \<open>Definitions of components\<close>

definition MAX_DEFS :: nat where "MAX_DEFS = 32"
definition MAX_USAGES_PER :: nat where "MAX_USAGES_PER = 64"
definition MAX_TOTAL_USAGES :: nat where "MAX_TOTAL_USAGES = 256"
definition MAX_EXPANDED_TOKENS :: nat where "MAX_EXPANDED_TOKENS = 100000"

record ComponentDef =
  cd_name :: ustr
  cd_attrs :: "(ustr \<times> ustr option) list"
  cd_slots :: "ustr list"
  cd_body :: "Token list"

definition BUILTIN_ELEMENTS :: "string list" where
  "BUILTIN_ELEMENTS =
     [''page'', ''meta'', ''style'', ''box'', ''row'', ''col'', ''hr'', ''divider'', ''spacer'', ''header'',
      ''body'', ''footer'', ''nav'', ''text'', ''pre'', ''heading'', ''list'', ''item'', ''link'', ''input'',
      ''select'', ''option'', ''button'', ''form'', ''art'', ''table'', ''thead'', ''tbody'', ''tr'', ''td'',
      ''th'', ''animate'', ''frame'', ''element'', ''tween'', ''at'', ''text-animate'', ''live'', ''panel'',
      ''state'', ''pagination'', ''def'', ''slot'', ''slot-content'', ''br'', ''include'']"

definition push_clone :: "runtime \<Rightarrow> Token list \<Rightarrow> Token \<Rightarrow> Token list reporter" where
  "push_clone rt acc t = do { t \<leftarrow> try_clone_token rt t; try_push rt acc t }"

text \<open>
  The tokens up to the closing tag that belongs to an opening tag of that name, and the tokens
  after it: every further opening tag of the name adds a level, self-closing or not.
\<close>

fun split_nested :: "ustr \<Rightarrow> nat \<Rightarrow> Token list \<Rightarrow> Token list \<times> Token list" where
  "split_nested tag depth [] = ([], [])"
| "split_nested tag depth (t # ts) =
     (case t of
        CloseTag name \<Rightarrow>
          if name = tag then
            if depth - 1 = 0 then ([], ts)
            else (case split_nested tag (depth - 1) ts of (inner, rest) \<Rightarrow> (t # inner, rest))
          else (case split_nested tag depth ts of (inner, rest) \<Rightarrow> (t # inner, rest))
      | OpenTag name _ _ \<Rightarrow>
          (case split_nested tag (if name = tag then depth + 1 else depth) ts of (inner, rest) \<Rightarrow> (t # inner, rest))
      | _ \<Rightarrow> (case split_nested tag depth ts of (inner, rest) \<Rightarrow> (t # inner, rest)))"

lemma split_nested_length: "length (snd (split_nested tag d ts)) \<le> length ts"
  by (induction tag d ts rule: split_nested.induct) (auto split: Token.splits prod.splits)

text \<open>\<open>str::split(',')\<close>, trimmed, without the empty pieces.\<close>

definition comma_list :: "ustr \<Rightarrow> ustr list" where
  "comma_list s = filter (\<lambda>x. x \<noteq> []) (map trim (split_char (uc CHR '','') s))"

definition def_attr :: "runtime \<Rightarrow> (ustr \<times> ustr option) list \<Rightarrow> ustr \<Rightarrow> (ustr \<times> ustr option) list reporter" where
  "def_attr rt acc attr = do {
     parsed \<leftarrow> (case split_once (lit ''='') attr of
         Some (name, dflt) \<Rightarrow> do {
           name \<leftarrow> try_copy_string rt (trim name);
           dflt \<leftarrow> try_copy_string rt (trim dflt);
           State_Monad.return (name, Some dflt) }
       | None \<Rightarrow> do { name \<leftarrow> try_copy_string rt attr; State_Monad.return (name, None) });
     try_push rt acc parsed
   }"

definition parse_def_attrs :: "runtime \<Rightarrow> ustr \<Rightarrow> (ustr \<times> ustr option) list reporter" where
  "parse_def_attrs rt s = (if s = [] then State_Monad.return [] else foreach (def_attr rt) [] (comma_list s))"

definition push_copy :: "runtime \<Rightarrow> ustr list \<Rightarrow> ustr \<Rightarrow> ustr list reporter" where
  "push_copy rt acc s = do { s \<leftarrow> try_copy_string rt s; try_push rt acc s }"

record def_fields =
  df_name :: ustr
  df_attrs :: ustr
  df_slots :: ustr

definition def_field :: "runtime \<Rightarrow> def_fields \<Rightarrow> Attribute \<Rightarrow> def_fields reporter" where
  "def_field rt f a =
     (if attr_name a = lit ''name'' then do {
        s \<leftarrow> try_copy_string rt (attr_val a); State_Monad.return (f\<lparr>df_name := s\<rparr>) }
      else if attr_name a = lit ''attrs'' then do {
        s \<leftarrow> try_copy_string rt (attr_val a); State_Monad.return (f\<lparr>df_attrs := s\<rparr>) }
      else if attr_name a = lit ''slots'' then do {
        s \<leftarrow> try_copy_string rt (attr_val a); State_Monad.return (f\<lparr>df_slots := s\<rparr>) }
      else State_Monad.return f)"

definition check_def_name :: "runtime \<Rightarrow> ComponentDef list \<Rightarrow> ustr \<Rightarrow> unit reporter" where
  "check_def_name rt defs name = do {
     report_if (list_ex (\<lambda>b. name = lit b) BUILTIN_ELEMENTS) rt ''E037''
       [lit ''component name \"'', name, lit ''\" conflicts with built-in element''];
     report_if (list_ex (\<lambda>d. cd_name d = name) defs) rt ''E036''
       [lit ''duplicate component name \"'', name, lit ''\"''];
     report_if (length defs \<ge> MAX_DEFS) rt ''E038''
       [lit ''maximum component definitions exceeded ('', show_nat MAX_DEFS, lit '')'']
   }"

definition check_body_token :: "runtime \<Rightarrow> ComponentDef list \<Rightarrow> ustr \<Rightarrow> unit \<Rightarrow> Token \<Rightarrow> unit reporter" where
  "check_body_token rt defs cname u t = (case t of
       OpenTag name _ _ \<Rightarrow> do {
         report_if (name = cname) rt ''E031'' [lit ''component \"'', cname, lit ''\" references itself (recursive)''];
         report_if (name = lit ''include'') rt ''E052''
           [lit ''component \"'', cname,
            lit ''\" contains [include]; server-resolved content cannot appear in a [def] body''];
         report_if (list_ex (\<lambda>d. cd_name d = name) defs) rt ''E030''
           [lit ''component \"'', cname, lit ''\" references another component \"'', name, lit ''\"'']
       }
     | _ \<Rightarrow> State_Monad.return ())"

text \<open>A definition: its attributes are known, the tokens follow the opening tag.\<close>

definition define_component ::
  "runtime \<Rightarrow> ComponentDef list \<Rightarrow> def_fields \<Rightarrow> Token list \<Rightarrow> ComponentDef list reporter" where
  "define_component rt defs f inner = do {
     check_def_name rt defs (df_name f);
     attrs \<leftarrow> parse_def_attrs rt (df_attrs f);
     slots \<leftarrow> foreach (push_copy rt) [] (comma_list (df_slots f));
     body \<leftarrow> foreach (push_clone rt) [] inner;
     foreach (check_body_token rt defs (df_name f)) () body;
     try_push rt defs \<lparr>cd_name = df_name f, cd_attrs = attrs, cd_slots = slots, cd_body = body\<rparr>
   }"

definition closes :: "ustr \<Rightarrow> Token \<Rightarrow> bool" where
  "closes tag t = (case t of CloseTag name \<Rightarrow> name = tag | _ \<Rightarrow> False)"

definition skip_def :: "Token list \<Rightarrow> Token list" where
  "skip_def ts = drop 1 (dropWhile (\<lambda>t. \<not> closes (lit ''def'') t) ts)"

lemma skip_def_length: "length (skip_def ts) \<le> length ts"
  using length_dropWhile_le [of "\<lambda>t. \<not> closes (lit ''def'') t" ts] unfolding skip_def_def by simp

function extract_loop ::
  "runtime \<Rightarrow> ComponentDef list \<Rightarrow> Token list \<Rightarrow> Token list \<Rightarrow> (ComponentDef list \<times> Token list) reporter" where
  "extract_loop rt defs kept [] = State_Monad.return (defs, kept)"
| "extract_loop rt defs kept (t # ts) =
     (case t of
        OpenTag name attributes self_closing \<Rightarrow>
          if name = lit ''def'' then
            if self_closing then do {
              warning_msg rt ''W001'' ''[def] cannot be self-closing'';
              extract_loop rt defs kept ts
            } else do {
              f \<leftarrow> foreach (def_field rt) \<lparr>df_name = [], df_attrs = [], df_slots = []\<rparr> attributes;
              if df_name f = [] then do {
                error_msg rt ''E011'' ''[def] requires name attribute'';
                extract_loop rt defs kept (skip_def ts)
              } else do {
                defs \<leftarrow> define_component rt defs f (fst (split_nested (lit ''def'') 1 ts));
                extract_loop rt defs kept (snd (split_nested (lit ''def'') 1 ts))
              }
            }
          else do { kept \<leftarrow> push_clone rt kept t; extract_loop rt defs kept ts }
      | _ \<Rightarrow> do { kept \<leftarrow> push_clone rt kept t; extract_loop rt defs kept ts })"
  by pat_completeness auto
termination
  by (relation "measure (\<lambda>(_, _, _, ts). length ts)")
    (auto simp: less_Suc_eq_le skip_def_length split_nested_length)

definition extract_definitions :: "runtime \<Rightarrow> Token list \<Rightarrow> (ComponentDef list \<times> Token list) reporter" where
  "extract_definitions rt tokens = extract_loop rt [] [] tokens"

section \<open>Expansion of one usage\<close>

definition insert_default ::
  "runtime \<Rightarrow> (ustr \<times> ustr) list \<Rightarrow> ustr \<times> ustr option \<Rightarrow> (ustr \<times> ustr) list reporter" where
  "insert_default rt m = (\<lambda>(name, dflt).
     case dflt of
       Some val \<Rightarrow> do {
         name \<leftarrow> try_copy_string rt name;
         val \<leftarrow> try_copy_string rt val;
         State_Monad.return (AList.update name val m) }
     | None \<Rightarrow> State_Monad.return m)"

definition insert_given ::
  "runtime \<Rightarrow> ComponentDef \<Rightarrow> (ustr \<times> ustr) list \<Rightarrow> Attribute \<Rightarrow> (ustr \<times> ustr) list reporter" where
  "insert_given rt def m a =
     (if list_ex (\<lambda>(n, _). n = attr_name a) (cd_attrs def) then do {
        name \<leftarrow> try_copy_string rt (attr_name a);
        val \<leftarrow> try_copy_string rt (attr_val a);
        State_Monad.return (AList.update name val m)
      } else do {
        error_fmt rt ''E034'' [lit ''unknown attribute \"'', attr_name a, lit ''\" on component ['', cd_name def, lit '']''];
        State_Monad.return m
      })"

definition check_given ::
  "runtime \<Rightarrow> ComponentDef \<Rightarrow> (ustr \<times> ustr) list \<Rightarrow> unit \<Rightarrow> ustr \<times> ustr option \<Rightarrow> unit reporter" where
  "check_given rt def m u = (\<lambda>(name, dflt).
     report_if (dflt = None \<and> map_of m name = None) rt ''E033''
       [lit ''required attribute \"'', name, lit ''\" missing on component ['', cd_name def, lit '']''])"

definition build_attr_map :: "runtime \<Rightarrow> ComponentDef \<Rightarrow> Attribute list \<Rightarrow> (ustr \<times> ustr) list reporter" where
  "build_attr_map rt def usage_attrs =
     (if \<not> try_reserve rt (length (cd_attrs def) * size_of rt ''(String, String)'')
      then do { mark_allocation_failure (); State_Monad.return [] }
      else do {
        m \<leftarrow> foreach (insert_default rt) [] (cd_attrs def);
        m \<leftarrow> foreach (insert_given rt def) m usage_attrs;
        foreach (check_given rt def m) () (cd_attrs def);
        State_Monad.return m
      })"

text \<open>
  What the caller writes between the tags of a usage, in order: blocks for named slots, and other
  tokens; then what follows the closing tag. A self-closing \<open>[slot-content/]\<close> is dropped.
\<close>

datatype piece = SlotPiece ustr "Token list" | PlainPiece Token

definition name_attribute :: "Attribute list \<Rightarrow> ustr" where
  "name_attribute attributes =
     (case find (\<lambda>a. attr_name a = lit ''name'') attributes of Some a \<Rightarrow> attr_val a | None \<Rightarrow> [])"

function caller_pieces :: "ustr \<Rightarrow> Token list \<Rightarrow> piece list \<times> Token list" where
  "caller_pieces close [] = ([], [])"
| "caller_pieces close (t # ts) =
     (if closes close t then ([], ts)
      else case t of
        OpenTag name attributes self_closing \<Rightarrow>
          if name = lit ''slot-content'' then
            if self_closing then caller_pieces close ts
            else (case caller_pieces close (snd (split_nested (lit ''slot-content'') 1 ts)) of (ps, rest) \<Rightarrow>
              (SlotPiece (name_attribute attributes) (fst (split_nested (lit ''slot-content'') 1 ts)) # ps, rest))
          else (case caller_pieces close ts of (ps, rest) \<Rightarrow> (PlainPiece t # ps, rest))
      | _ \<Rightarrow> (case caller_pieces close ts of (ps, rest) \<Rightarrow> (PlainPiece t # ps, rest)))"
  by pat_completeness auto
termination
  by (relation "measure (\<lambda>(_, ts). length ts)") (auto simp: less_Suc_eq_le split_nested_length)

definition insert_slot ::
  "runtime \<Rightarrow> (ustr \<times> Token list) list \<Rightarrow> ustr \<Rightarrow> Token list \<Rightarrow> (ustr \<times> Token list) list reporter" where
  "insert_slot rt slots name content =
     (if map_of slots name \<noteq> None then State_Monad.return (AList.update name content slots)
      else if \<not> grows rt (length slots) then do { mark_allocation_failure (); State_Monad.return slots }
      else State_Monad.return (AList.update name content slots))"

definition collect_piece ::
  "runtime \<Rightarrow> (ustr \<times> Token list) list \<times> Token list \<Rightarrow> piece \<Rightarrow> ((ustr \<times> Token list) list \<times> Token list) reporter" where
  "collect_piece rt acc piece = (case acc of (slots, dflt) \<Rightarrow>
     (case piece of
        SlotPiece name inner \<Rightarrow> do {
          content \<leftarrow> foreach (push_clone rt) [] inner;
          name \<leftarrow> try_copy_string rt name;
          slots \<leftarrow> insert_slot rt slots name content;
          State_Monad.return (slots, dflt) }
      | PlainPiece t \<Rightarrow> do { dflt \<leftarrow> push_clone rt dflt t; State_Monad.return (slots, dflt) }))"

definition meaningful :: "Token \<Rightarrow> bool" where
  "meaningful t = (case t of TextToken s \<Rightarrow> trim s \<noteq> [] | _ \<Rightarrow> True)"

definition slots_reserved :: "runtime \<Rightarrow> ustr list \<Rightarrow> bool" where
  "slots_reserved rt slot_names = try_reserve rt (length slot_names * size_of rt ''(String, Vec<Token>)'')"

text \<open>The tokens left afterwards: the caller's content is not read when the map cannot be reserved.\<close>

definition after_content :: "runtime \<Rightarrow> ustr list \<Rightarrow> ustr \<Rightarrow> Token list \<Rightarrow> Token list" where
  "after_content rt slot_names close ts =
     (if slots_reserved rt slot_names then snd (caller_pieces close ts) else ts)"

definition collect_slot_content ::
  "runtime \<Rightarrow> Token list \<Rightarrow> ustr \<Rightarrow> ustr list \<Rightarrow> (ustr \<times> Token list) list reporter" where
  "collect_slot_content rt ts close slot_names =
     (if \<not> slots_reserved rt slot_names
      then do { mark_allocation_failure (); State_Monad.return [] }
      else do {
        (slots, dflt) \<leftarrow> foreach (collect_piece rt) ([], []) (fst (caller_pieces close ts));
        (case slot_names of
           first # _ \<Rightarrow>
             if list_ex meaningful dflt then do {
               name \<leftarrow> try_copy_string rt first;
               if map_of slots name = None then insert_slot rt slots name dflt else State_Monad.return slots
             } else State_Monad.return slots
         | [] \<Rightarrow> State_Monad.return slots)
      })"

section \<open>Substitution\<close>

definition append_substitution :: "runtime \<Rightarrow> ustr \<Rightarrow> ustr \<Rightarrow> ustr option" where
  "append_substitution rt output s =
     (if s = [] then Some output
      else if try_reserve rt (len output + len s) then Some (output @ s) else None)"

definition try_append_substitution :: "runtime \<Rightarrow> ustr \<Rightarrow> ustr \<Rightarrow> (ustr \<times> bool) reporter" where
  "try_append_substitution rt output s =
     (case append_substitution rt output s of
        Some output \<Rightarrow> State_Monad.return (output, True)
      | None \<Rightarrow> do { mark_allocation_failure (); State_Monad.return (output, False) })"

definition var_char :: "(uchar \<Rightarrow> bool) \<Rightarrow> uchar \<Rightarrow> bool" where
  "var_char alnum c \<longleftrightarrow> alnum c \<or> c = uc CHR ''-'' \<or> c = uc CHR ''_''"

text \<open>The text a dollar sign and the characters after it stand for, and how many characters that takes.\<close>

definition dollar_value :: "(uchar \<Rightarrow> bool) \<Rightarrow> (ustr \<times> ustr) list \<Rightarrow> ustr \<Rightarrow> ustr list \<times> nat" where
  "dollar_value alnum attrs after =
     (if starts_with (lit ''$'') after then ([lit ''$''], 1)
      else let name = takeWhile (var_char alnum) after
           in case map_of attrs name of
                Some val \<Rightarrow> ([val], length name)
              | None \<Rightarrow> ([lit ''$'', name], length name))"

fun append_all :: "runtime \<Rightarrow> ustr \<Rightarrow> ustr list \<Rightarrow> (ustr \<times> bool) reporter" where
  "append_all rt output [] = State_Monad.return (output, True)"
| "append_all rt output (s # ss) = do {
     (output, ok) \<leftarrow> try_append_substitution rt output s;
     if ok then append_all rt output ss else State_Monad.return (output, False)
   }"

function substitute_loop :: "runtime \<Rightarrow> (uchar \<Rightarrow> bool) \<Rightarrow> (ustr \<times> ustr) list \<Rightarrow> ustr \<Rightarrow> ustr \<Rightarrow> ustr reporter" where
  "substitute_loop rt alnum attrs result s =
     (case find_char (\<lambda>c. c = uc CHR ''$'') s of
        None \<Rightarrow> do { (result, ok) \<leftarrow> try_append_substitution rt result s; State_Monad.return result }
      | Some k \<Rightarrow> do {
          (result, ok) \<leftarrow> append_all rt result (take k s # fst (dollar_value alnum attrs (drop (k + 1) s)));
          if ok then substitute_loop rt alnum attrs result (drop (k + 1 + snd (dollar_value alnum attrs (drop (k + 1) s))) s)
          else State_Monad.return result
        })"
  by pat_completeness auto
termination
  by (relation "measure (\<lambda>(_, _, _, _, s). length s)") (auto simp: find_char_Some)

declare substitute_loop.simps [simp del]

definition substitute_attrs :: "runtime \<Rightarrow> (uchar \<Rightarrow> bool) \<Rightarrow> (ustr \<times> ustr) list \<Rightarrow> ustr \<Rightarrow> ustr reporter" where
  "substitute_attrs rt alnum attrs s = substitute_loop rt alnum attrs [] s"

definition substitute_attr ::
  "runtime \<Rightarrow> (uchar \<Rightarrow> bool) \<Rightarrow> (ustr \<times> ustr) list \<Rightarrow> Attribute \<Rightarrow> Attribute reporter" where
  "substitute_attr rt alnum attrs a = do {
     name \<leftarrow> try_copy_string rt (attr_name a);
     val \<leftarrow> (case attr_value a of
         AString s \<Rightarrow> do { s \<leftarrow> substitute_attrs rt alnum attrs s; State_Monad.return (AString s) }
       | AIdent s \<Rightarrow> do { s \<leftarrow> substitute_attrs rt alnum attrs s; State_Monad.return (AIdent s) }
       | AFlag \<Rightarrow> State_Monad.return AFlag);
     State_Monad.return \<lparr>attr_name = name, attr_value = val\<rparr>
   }"

function expand_body ::
  "runtime \<Rightarrow> (uchar \<Rightarrow> bool) \<Rightarrow> (ustr \<times> ustr) list \<Rightarrow> (ustr \<times> Token list) list \<Rightarrow> Token list \<Rightarrow> Token list \<Rightarrow>
   Token list reporter" where
  "expand_body rt alnum attrs slots output [] = State_Monad.return output"
| "expand_body rt alnum attrs slots output (t # ts) =
     (case t of
        OpenTag name attributes self_closing \<Rightarrow>
          if name = lit ''slot'' then
            (case map_of slots (name_attribute attributes) of
               Some content \<Rightarrow> do {
                 output \<leftarrow> foreach (push_clone rt) output content;
                 expand_body rt alnum attrs slots output ts }
             | None \<Rightarrow>
                 if self_closing then expand_body rt alnum attrs slots output ts
                 else do {
                   dflt \<leftarrow> foreach (push_clone rt) [] (fst (split_nested (lit ''slot'') 1 ts));
                   output \<leftarrow> (if reserves rt ''Token'' (length output) (length dflt)
                              then State_Monad.return (output @ dflt)
                              else do { mark_allocation_failure (); State_Monad.return output });
                   expand_body rt alnum attrs slots output (snd (split_nested (lit ''slot'') 1 ts)) })
          else do {
            new_attrs \<leftarrow> (if try_reserve rt (length attributes * size_of rt ''Attribute'')
                          then State_Monad.traverse_list (substitute_attr rt alnum attrs) attributes
                          else do { mark_allocation_failure (); State_Monad.return [] });
            name \<leftarrow> try_copy_string rt name;
            output \<leftarrow> try_push rt output (OpenTag name new_attrs self_closing);
            expand_body rt alnum attrs slots output ts }
      | CloseTag name \<Rightarrow>
          if name = lit ''slot'' then expand_body rt alnum attrs slots output ts
          else do { output \<leftarrow> push_clone rt output t; expand_body rt alnum attrs slots output ts }
      | TextToken s \<Rightarrow> do {
          s \<leftarrow> substitute_attrs rt alnum attrs s;
          output \<leftarrow> try_push rt output (TextToken s);
          expand_body rt alnum attrs slots output ts }
      | Eof \<Rightarrow> do { output \<leftarrow> push_clone rt output t; expand_body rt alnum attrs slots output ts })"
  by pat_completeness auto
termination
  by (relation "measure (\<lambda>(_, _, _, _, _, ts). length ts)") (auto simp: less_Suc_eq_le split_nested_length)

section \<open>Expansion of all usages\<close>

definition def_index :: "ComponentDef list \<Rightarrow> ustr \<Rightarrow> nat option" where
  "def_index defs name =
     (if list_ex (\<lambda>d. cd_name d = name) defs then Some (length (takeWhile (\<lambda>d. cd_name d \<noteq> name) defs)) else None)"

lemma def_index_Some: "def_index defs name = Some i \<Longrightarrow> i < length defs"
proof (induction defs arbitrary: i)
  case (Cons d ds)
  then show ?case
    by (cases "cd_name d = name"; cases "def_index ds name") (auto simp: def_index_def split: if_splits)
qed (simp add: def_index_def)

text \<open>One usage: the tokens it expands to.\<close>

definition expand_usage ::
  "runtime \<Rightarrow> (uchar \<Rightarrow> bool) \<Rightarrow> ComponentDef \<Rightarrow> ustr \<Rightarrow> Attribute list \<Rightarrow> bool \<Rightarrow> Token list \<Rightarrow> Token list reporter" where
  "expand_usage rt alnum def name attributes self_closing ts = do {
     attr_map \<leftarrow> build_attr_map rt def attributes;
     slots \<leftarrow> (if self_closing then State_Monad.return [] else collect_slot_content rt ts name (cd_slots def));
     expand_body rt alnum attr_map slots [] (cd_body def)
   }"

lemma caller_pieces_length: "length (snd (caller_pieces close ts)) \<le> length ts"
proof (induction ts rule: length_induct)
  case (1 ts)
  show ?case
  proof (cases ts)
    case (Cons t us)
    have shorter: "length (snd (caller_pieces close vs)) \<le> length vs" if "length vs \<le> length us" for vs
      using 1 Cons that by simp
    have "length (snd (caller_pieces close (snd (split_nested (lit ''slot-content'') 1 us)))) \<le> length us"
      using shorter [OF split_nested_length] split_nested_length by (rule order_trans)
    with shorter [OF order_refl] show ?thesis
      using Cons by (cases t) (auto split: prod.splits)
  qed simp
qed

definition after_usage :: "runtime \<Rightarrow> ComponentDef \<Rightarrow> ustr \<Rightarrow> bool \<Rightarrow> Token list \<Rightarrow> Token list" where
  "after_usage rt def name self_closing ts =
     (if self_closing then ts else after_content rt (cd_slots def) name ts)"

lemma after_usage_length: "length (after_usage rt def name sc ts) \<le> length ts"
  by (simp add: after_usage_def after_content_def caller_pieces_length)

function expand_loop ::
  "runtime \<Rightarrow> (uchar \<Rightarrow> bool) \<Rightarrow> ComponentDef list \<Rightarrow> nat list \<Rightarrow> nat \<Rightarrow> Token list \<Rightarrow> Token list \<Rightarrow> Token list reporter" where
  "expand_loop rt alnum defs counts uses output [] = State_Monad.return output"
| "expand_loop rt alnum defs counts uses output (t # ts) =
     (case t of
        OpenTag name attributes self_closing \<Rightarrow>
          (case def_index defs name of
             None \<Rightarrow> do { output \<leftarrow> push_clone rt output t; expand_loop rt alnum defs counts uses output ts }
           | Some idx \<Rightarrow>
               if counts ! idx + 1 > MAX_USAGES_PER then do {
                 error_fmt rt ''E039'' [lit ''max usages for component \"'', name, lit ''\" exceeded ('',
                   show_nat MAX_USAGES_PER, lit '')''];
                 State_Monad.return output
               } else if uses + 1 > MAX_TOTAL_USAGES then do {
                 error_fmt rt ''E040'' [lit ''max total component usages exceeded ('', show_nat MAX_TOTAL_USAGES, lit '')''];
                 State_Monad.return output
               } else do {
                 expanded \<leftarrow> expand_usage rt alnum (defs ! idx) name attributes self_closing ts;
                 if length output + length expanded > MAX_EXPANDED_TOKENS then do {
                   error_fmt rt ''E041'' [lit ''expanded component output exceeds token limit ('',
                     show_nat MAX_EXPANDED_TOKENS, lit '')''];
                   State_Monad.return output
                 } else if \<not> reserves rt ''Token'' (length output) (length expanded) then do {
                   mark_allocation_failure ();
                   State_Monad.return output
                 } else expand_loop rt alnum defs (counts[idx := counts ! idx + 1]) (uses + 1) (output @ expanded)
                     (after_usage rt (defs ! idx) name self_closing ts)
               })
      | CloseTag name \<Rightarrow>
          if list_ex (\<lambda>d. cd_name d = name) defs then expand_loop rt alnum defs counts uses output ts
          else do { output \<leftarrow> push_clone rt output t; expand_loop rt alnum defs counts uses output ts }
      | _ \<Rightarrow> do { output \<leftarrow> push_clone rt output t; expand_loop rt alnum defs counts uses output ts })"
  by pat_completeness auto
termination
  by (relation "measure (\<lambda>(_, _, _, _, _, _, ts). length ts)") (auto simp: less_Suc_eq_le after_usage_length)

definition expand_usages_once :: "runtime \<Rightarrow> (uchar \<Rightarrow> bool) \<Rightarrow> ComponentDef list \<Rightarrow> Token list \<Rightarrow> Token list reporter" where
  "expand_usages_once rt alnum defs tokens =
     (if \<not> try_reserve rt (length defs * size_of rt ''usize'')
      then do { mark_allocation_failure (); State_Monad.return [] }
      else expand_loop rt alnum defs (replicate (length defs) 0) 0 [] tokens)"

definition has_component :: "ComponentDef list \<Rightarrow> Token list \<Rightarrow> bool" where
  "has_component defs tokens =
     list_ex (\<lambda>t. case t of OpenTag name _ _ \<Rightarrow> list_ex (\<lambda>d. cd_name d = name) defs | _ \<Rightarrow> False) tokens"

fun expand_passes :: "runtime \<Rightarrow> (uchar \<Rightarrow> bool) \<Rightarrow> ComponentDef list \<Rightarrow> nat \<Rightarrow> Token list \<Rightarrow> Token list reporter" where
  "expand_passes rt alnum defs 0 tokens = State_Monad.return tokens"
| "expand_passes rt alnum defs (Suc k) tokens =
     (if \<not> has_component defs tokens then State_Monad.return tokens
      else if length tokens > MAX_EXPANDED_TOKENS then State_Monad.return tokens
      else do {
        tokens \<leftarrow> expand_usages_once rt alnum defs tokens;
        expand_passes rt alnum defs k tokens
      })"

definition expand_usages :: "runtime \<Rightarrow> (uchar \<Rightarrow> bool) \<Rightarrow> ComponentDef list \<Rightarrow> Token list \<Rightarrow> Token list reporter" where
  "expand_usages rt alnum defs tokens = expand_passes rt alnum defs 4 tokens"

definition expand_components :: "runtime \<Rightarrow> (uchar \<Rightarrow> bool) \<Rightarrow> Token list \<Rightarrow> Token list reporter" where
  "expand_components rt alnum tokens = do {
     (defs, kept) \<leftarrow> extract_definitions rt tokens;
     if defs = [] then State_Monad.return kept else expand_usages rt alnum defs kept
   }"

end
