(* ===== verification/Validate.thy ===== *)
theory Validate
  imports Parser "HOL-Library.AList"
begin

text \<open>
  \<open>parser/validate.rs\<close>: what is checked of a parsed document as a whole, that the references
  between its elements lead somewhere and that it keeps the limits per page. The validators
  descend by \<open>children\<close>. Hash maps are association lists and hash sets are lists without
  duplicates.
\<close>

section \<open>Descending into a document\<close>

definition MAX_ANIMATE_REGIONS :: nat where "MAX_ANIMATE_REGIONS = 1024"
definition MAX_WASM_INSTANCES :: nat where "MAX_WASM_INSTANCES = 16"
definition MAX_ANIMATION_FRAMES :: nat where "MAX_ANIMATION_FRAMES = 256"
definition MAX_ON_BINDINGS :: nat where "MAX_ON_BINDINGS = 32"
definition MAX_CASCADE_DEPTH :: nat where "MAX_CASCADE_DEPTH = 4"

lemma children_size [termination_simp]: "size_list size (children e) \<le> size e"
  by (cases e) (simp_all add: children_def)

text \<open>
  \<open>for element in elements { \<dots>; recurse(element.children()) }\<close> with an accumulator.
\<close>

function walk :: "('a \<Rightarrow> Element \<Rightarrow> ('s, 'a) state) \<Rightarrow> 'a \<Rightarrow> Element list \<Rightarrow> ('s, 'a) state" where
  "walk f a [] = State_Monad.return a"
| "walk f a (e # es) = do { a \<leftarrow> f a e; a \<leftarrow> walk f a (children e); walk f a es }"
  by pat_completeness auto
termination
  by (relation "measure (\<lambda>(_, _, es). size_list size es)") (auto simp: less_Suc_eq_le children_size trans_le_add1)

definition insert_name :: "runtime \<Rightarrow> ustr list \<Rightarrow> ustr \<Rightarrow> ustr list reporter" where
  "insert_name rt names s =
     (if grows rt (length names) then State_Monad.return (List.insert s names)
      else do { mark_allocation_failure (); State_Monad.return names })"

section \<open>Limits\<close>

fun count_one :: "Element \<Rightarrow> nat \<times> nat \<times> nat \<Rightarrow> nat \<times> nat \<times> nat" where
  "count_one (AnimateE a _) (regions, wasm_instances, frames) =
     (regions + 1, if animate_src a \<noteq> None then wasm_instances + 1 else wasm_instances, frames)"
| "count_one (FrameE _) (regions, wasm_instances, frames) = (regions, wasm_instances, frames + 1)"
| "count_one _ counts = counts"

function count_elements :: "Element list \<Rightarrow> nat \<times> nat \<times> nat \<Rightarrow> nat \<times> nat \<times> nat" where
  "count_elements [] counts = counts"
| "count_elements (e # es) counts = count_elements es (count_elements (children e) (count_one e counts))"
  by pat_completeness auto
termination
  by (relation "measure (\<lambda>(es, _). size_list size es)") (auto simp: less_Suc_eq_le children_size trans_le_add1)

definition validate_animation_limits :: "runtime \<Rightarrow> Page \<Rightarrow> unit reporter" where
  "validate_animation_limits rt page =
     (case count_elements (page_children page) (0, 0, 0) of (regions, wasm_instances, frames) \<Rightarrow> do {
        report_if (regions > MAX_ANIMATE_REGIONS) rt ''E049''
          [lit ''maximum '', show_nat MAX_ANIMATE_REGIONS, lit '' animation regions per page, found '', show_nat regions];
        report_if (wasm_instances > MAX_WASM_INSTANCES) rt ''E051''
          [lit ''maximum '', show_nat MAX_WASM_INSTANCES, lit '' WASM instances per page, found '', show_nat wasm_instances];
        report_if (frames > MAX_ANIMATION_FRAMES) rt ''E050''
          [lit ''maximum '', show_nat MAX_ANIMATION_FRAMES, lit '' animation frames per page, found '', show_nat frames]
      })"

section \<open>Panels, animations, identifiers and bindings\<close>

definition insert_state_of :: "runtime \<Rightarrow> ustr list \<Rightarrow> Element \<Rightarrow> ustr list reporter" where
  "insert_state_of rt states e = (case e of StateE s _ \<Rightarrow> insert_name rt states (state_name s) | _ \<Rightarrow> State_Monad.return states)"

definition collect_panel :: "runtime \<Rightarrow> (ustr \<times> ustr list) list \<Rightarrow> Element \<Rightarrow> (ustr \<times> ustr list) list reporter" where
  "collect_panel rt panels e = (case e of
       PanelE p cs \<Rightarrow> do {
         states \<leftarrow> foreach (insert_state_of rt) [] cs;
         if grows rt (length panels) then State_Monad.return (AList.update (panel_id p) states panels)
         else do { mark_allocation_failure (); State_Monad.return panels }
       }
     | _ \<Rightarrow> State_Monad.return panels)"

definition collect_panels :: "runtime \<Rightarrow> Element list \<Rightarrow> (ustr \<times> ustr list) list reporter" where
  "collect_panels rt es = walk (collect_panel rt) [] es"

function collect_animation_ids :: "runtime \<Rightarrow> ustr list \<Rightarrow> Element list \<Rightarrow> ustr list reporter" where
  "collect_animation_ids rt ids [] = State_Monad.return ids"
| "collect_animation_ids rt ids (e # es) = do {
     ids \<leftarrow> (case e of AnimateE a _ \<Rightarrow> insert_name rt ids (animate_id a) | _ \<Rightarrow> State_Monad.return ids);
     nested \<leftarrow> collect_animation_ids rt [] (children e);
     ids \<leftarrow> (if reserves rt ''&str'' (length ids) (length nested) then State_Monad.return (List.union nested ids)
            else do { mark_allocation_failure (); State_Monad.return ids });
     collect_animation_ids rt ids es
   }"
  by pat_completeness auto
termination
  by (relation "measure (\<lambda>(_, _, es). size_list size es)") (auto simp: less_Suc_eq_le children_size trans_le_add1)

definition element_id :: "Element \<Rightarrow> ustr option" where
  "element_id e = (case e of
       AnimateE a _ \<Rightarrow> Some (animate_id a)
     | PanelE p _ \<Rightarrow> Some (panel_id p)
     | LiveE l _ \<Rightarrow> Some (live_id l)
     | ElementDefE d \<Rightarrow> Some (element_def_id d)
     | LinkE l _ \<Rightarrow> link_id l
     | InputE i \<Rightarrow> input_id i
     | _ \<Rightarrow> None)"

definition collect_element_id :: "runtime \<Rightarrow> ustr list \<Rightarrow> Element \<Rightarrow> ustr list reporter" where
  "collect_element_id rt ids e = (case element_id e of
       Some s \<Rightarrow> if s \<noteq> [] then insert_name rt ids s else State_Monad.return ids
     | None \<Rightarrow> State_Monad.return ids)"

definition collect_element_ids :: "runtime \<Rightarrow> Element list \<Rightarrow> ustr list reporter" where
  "collect_element_ids rt es = walk (collect_element_id rt) [] es"

definition collect_on_binding :: "runtime \<Rightarrow> OnElement list \<Rightarrow> Element \<Rightarrow> OnElement list reporter" where
  "collect_on_binding rt bindings e = (case e of OnE b \<Rightarrow> try_push rt bindings b | _ \<Rightarrow> State_Monad.return bindings)"

definition collect_on_bindings :: "runtime \<Rightarrow> Element list \<Rightarrow> OnElement list reporter" where
  "collect_on_bindings rt es = walk (collect_on_binding rt) [] es"

section \<open>Triggers\<close>

definition check_button_target ::
  "runtime \<Rightarrow> (ustr \<times> ustr list) list \<Rightarrow> ButtonElement \<Rightarrow> unit reporter" where
  "check_button_target rt panels b =
     (case (button_action b \<in> {ToggleButton, SetButton}, button_target b) of
        (True, Some target) \<Rightarrow>
          (case map_of panels target of
             Some panel_states \<Rightarrow> do {
               (case button_states b of
                  Some states \<Rightarrow> foreach (\<lambda>u s. report_if (s \<notin> set panel_states) rt ''E022''
                    [lit ''state \"'', s, lit ''\" not found on panel \"'', target, lit ''\"'']) () states
                | None \<Rightarrow> State_Monad.return ());
               (case button_to b of
                  Some dest \<Rightarrow> report_if (dest \<notin> set panel_states) rt ''E021''
                    [lit ''state \"'', dest, lit ''\" not found on panel \"'', target, lit ''\"'']
                | None \<Rightarrow> State_Monad.return ())
             }
           | None \<Rightarrow> error_fmt rt ''E020'' [lit ''trigger target panel \"'', target, lit ''\" not found''])
      | _ \<Rightarrow> State_Monad.return ())"

definition check_trigger ::
  "runtime \<Rightarrow> (ustr \<times> ustr list) list \<Rightarrow> unit \<Rightarrow> string \<times> TriggerRef option \<Rightarrow> unit reporter" where
  "check_trigger rt panels u = (\<lambda>(label, r). case r of
       None \<Rightarrow> State_Monad.return ()
     | Some tr \<Rightarrow>
         (case map_of panels (ref_panel_id tr) of
            Some panel_states \<Rightarrow> report_if (ref_state_name tr \<notin> set panel_states) rt ''E021''
              [lit label, lit '': state \"'', ref_state_name tr, lit ''\" not found on panel \"'', ref_panel_id tr, lit ''\"'']
          | None \<Rightarrow> error_fmt rt ''E020'' [lit label, lit '': target panel \"'', ref_panel_id tr, lit ''\" not found'']))"

definition validate_trigger_attrs ::
  "runtime \<Rightarrow> (ustr \<times> ustr list) list \<Rightarrow> TriggerAttrs \<Rightarrow> unit reporter" where
  "validate_trigger_attrs rt panels triggers =
     foreach (check_trigger rt panels) ()
       [(''trigger-focus'', trigger_focus triggers), (''trigger-blur'', trigger_blur triggers),
        (''trigger-hover'', trigger_hover triggers), (''trigger-unhover'', trigger_unhover triggers)]"

definition validate_element ::
  "runtime \<Rightarrow> (ustr \<times> ustr list) list \<Rightarrow> ustr list \<Rightarrow> unit \<Rightarrow> Element \<Rightarrow> unit reporter" where
  "validate_element rt panels animations u e = (case e of
       ButtonE b \<Rightarrow> do {
         check_button_target rt panels b;
         validate_trigger_attrs rt panels (button_triggers b) }
     | InputE i \<Rightarrow> validate_trigger_attrs rt panels (input_triggers i)
     | LinkE l _ \<Rightarrow> do {
         validate_trigger_attrs rt panels (link_triggers l);
         (case link_defer_animation l of
            Some a \<Rightarrow> report_if (a \<notin> set animations) rt ''E048''
              [lit ''deferred navigation animation \"'', a, lit ''\" not found'']
          | None \<Rightarrow> State_Monad.return ()) }
     | _ \<Rightarrow> State_Monad.return ())"

definition validate_element_triggers ::
  "runtime \<Rightarrow> (ustr \<times> ustr list) list \<Rightarrow> ustr list \<Rightarrow> Element list \<Rightarrow> unit reporter" where
  "validate_element_triggers rt panels animations es = walk (validate_element rt panels animations) () es"

section \<open>Bindings\<close>

text \<open>
  The depth-first search over chains of \<open>animation-end\<close> bindings: \<open>visited\<close> holds the bindings
  of the chain that is followed.
\<close>

definition follows :: "OnElement list \<Rightarrow> ustr \<Rightarrow> nat list \<Rightarrow> nat \<Rightarrow> bool" where
  "follows bindings node visited i \<longleftrightarrow>
     i \<notin> set visited \<and> on_event (bindings ! i) = AnimationEndEvent \<and> on_action (bindings ! i) = AnimateAction \<and>
     on_source (bindings ! i) = Some node"

definition next_bindings :: "OnElement list \<Rightarrow> ustr \<Rightarrow> nat list \<Rightarrow> nat list" where
  "next_bindings bindings node visited = filter (follows bindings node visited) [0..<length bindings]"

lemma follow_measure:
  assumes "i \<in> set (next_bindings bindings node visited)"
  shows "card ({..<length bindings} - set (i # visited)) < card ({..<length bindings} - set visited)"
  using assms by (intro psubset_card_mono) (auto simp: next_bindings_def follows_def)

function dfs :: "OnElement list \<Rightarrow> ustr \<Rightarrow> nat list \<Rightarrow> nat" where
  "dfs bindings node visited =
     foldl max 0 (map (\<lambda>i. 1 + dfs bindings (on_target (bindings ! i)) (i # visited)) (next_bindings bindings node visited))"
  by pat_completeness auto
termination
  by (relation "measure (\<lambda>(bindings, _, visited). card ({..<length bindings} - set visited))")
    (use follow_measure in auto)

declare dfs.simps [simp del]

definition cascade_depth :: "OnElement list \<Rightarrow> nat" where
  "cascade_depth bindings = foldl max 0 (map (\<lambda>s. dfs bindings s []) (List.map_filter on_source bindings))"

definition compute_cascade_depth :: "runtime \<Rightarrow> OnElement list \<Rightarrow> nat reporter" where
  "compute_cascade_depth rt bindings =
     (if try_reserve rt (length bindings * size_of rt ''usize'') then State_Monad.return (cascade_depth bindings)
      else do { mark_allocation_failure (); State_Monad.return 0 })"

definition check_binding ::
  "runtime \<Rightarrow> (ustr \<times> ustr list) list \<Rightarrow> ustr list \<Rightarrow> unit \<Rightarrow> OnElement \<Rightarrow> unit reporter" where
  "check_binding rt panels ids u b = do {
     (case on_source b of
        Some s \<Rightarrow> report_if (s \<notin> set ids) rt ''E045'' [lit ''[on] source \"'', s, lit ''\" not found'']
      | None \<Rightarrow> State_Monad.return ());
     report_if (on_target b \<noteq> [] \<and> on_target b \<notin> set ids) rt ''E046''
       [lit ''[on] target \"'', on_target b, lit ''\" not found''];
     (case (on_action b = SetAction, on_to b, map_of panels (on_target b)) of
        (True, Some dest, Some panel_states) \<Rightarrow> report_if (dest \<notin> set panel_states) rt ''E021''
          [lit ''[on] set: state \"'', dest, lit ''\" not found on panel \"'', on_target b, lit ''\"'']
      | _ \<Rightarrow> State_Monad.return ())
   }"

definition validate_on_bindings :: "runtime \<Rightarrow> Element list \<Rightarrow> (ustr \<times> ustr list) list \<Rightarrow> unit reporter" where
  "validate_on_bindings rt es panels = do {
     ids \<leftarrow> collect_element_ids rt es;
     bindings \<leftarrow> collect_on_bindings rt es;
     report_if (length bindings > MAX_ON_BINDINGS) rt ''E044''
       [lit ''maximum '', show_nat MAX_ON_BINDINGS, lit '' [on] bindings per page, found '', show_nat (length bindings)];
     foreach (check_binding rt panels ids) () bindings;
     depth \<leftarrow> compute_cascade_depth rt bindings;
     if depth > MAX_CASCADE_DEPTH then
       warning_fmt rt ''W010'' [lit ''event cascade depth '', show_nat depth, lit '' exceeds maximum of '',
         show_nat MAX_CASCADE_DEPTH]
     else State_Monad.return ()
   }"

section \<open>Risks of visual transitions\<close>

fun contains_background_animation :: "Element list \<Rightarrow> bool" where
  "contains_background_animation [] = False"
| "contains_background_animation (e # es) \<longleftrightarrow>
     (case e of AnimateE a _ \<Rightarrow> animate_background a | _ \<Rightarrow> False) \<or>
     contains_background_animation (children e) \<or> contains_background_animation es"

function collect_panel_elements ::
  "runtime \<Rightarrow> (PanelElement \<times> Element list) list \<Rightarrow> Element list \<Rightarrow> (PanelElement \<times> Element list) list reporter" where
  "collect_panel_elements rt panels [] = State_Monad.return panels"
| "collect_panel_elements rt panels (e # es) = do {
     panels \<leftarrow> (case e of PanelE p cs \<Rightarrow> try_push rt panels (p, cs) | _ \<Rightarrow> State_Monad.return panels);
     nested \<leftarrow> collect_panel_elements rt [] (children e);
     panels \<leftarrow> (if reserves rt ''&PanelElement'' (length panels) (length nested) then State_Monad.return (panels @ nested)
               else do { mark_allocation_failure (); State_Monad.return panels });
     collect_panel_elements rt panels es
   }"
  by pat_completeness auto
termination
  by (relation "measure (\<lambda>(_, _, es). size_list size es)") (auto simp: less_Suc_eq_le children_size trans_le_add1)

definition is_fixed :: "Dimension \<Rightarrow> bool" where
  "is_fixed d = (case d of Fixed _ \<Rightarrow> True | _ \<Rightarrow> False)"

definition is_transparent_fixed_placeholder :: "Element list \<Rightarrow> bool" where
  "is_transparent_fixed_placeholder cs = (case cs of
       [BoxE b es] \<Rightarrow> is_fixed (box_w b) \<and> is_fixed (box_h b) \<and> box_border b = BorderNone \<and> box_bg b = None \<and> es = []
     | _ \<Rightarrow> False)"

definition collect_wasm_id :: "runtime \<Rightarrow> ustr list \<Rightarrow> Element \<Rightarrow> ustr list reporter" where
  "collect_wasm_id rt ids e = (case e of
       AnimateE a _ \<Rightarrow> if animate_src a \<noteq> None then try_push rt ids (animate_id a) else State_Monad.return ids
     | _ \<Rightarrow> State_Monad.return ids)"

definition collect_wasm_animation_ids :: "runtime \<Rightarrow> Element list \<Rightarrow> ustr list reporter" where
  "collect_wasm_animation_ids rt es = walk (collect_wasm_id rt) [] es"

fun find_state :: "ustr \<Rightarrow> Element list \<Rightarrow> (StateElement \<times> Element list) option" where
  "find_state s [] = None"
| "find_state s (e # es) =
     (case e of
        StateE st cs \<Rightarrow> if state_name st = s then Some (st, cs) else find_state s es
      | _ \<Rightarrow> find_state s es)"

definition warn_wasm ::
  "runtime \<Rightarrow> PanelElement \<Rightarrow> StateElement \<Rightarrow> ustr list \<Rightarrow> ustr list \<Rightarrow> ustr \<Rightarrow> ustr list reporter" where
  "warn_wasm rt p st initial_ids warned s =
     (if s \<in> set initial_ids \<or> s \<in> set warned then State_Monad.return warned
      else do {
        warned \<leftarrow> try_push rt warned s;
        warning_fmt rt ''W013'' [lit ''WASM animation \"'', s, lit ''\" exists only in non-initial state \"'', state_name st,
          lit ''\" of panel \"'', panel_id p, lit ''\"; it must be created during panel relayout''];
        State_Monad.return warned
      })"

definition check_state_wasm ::
  "runtime \<Rightarrow> PanelElement \<Rightarrow> ustr list \<Rightarrow> ustr list \<Rightarrow> Element \<Rightarrow> ustr list reporter" where
  "check_state_wasm rt p initial_ids warned e = (case e of
       StateE st cs \<Rightarrow>
         if state_name st = panel_initial_state p then State_Monad.return warned
         else do {
           ids \<leftarrow> collect_wasm_animation_ids rt cs;
           foreach (warn_wasm rt p st initial_ids) warned ids
         }
     | _ \<Rightarrow> State_Monad.return warned)"

definition check_panel_risks ::
  "runtime \<Rightarrow> Page \<Rightarrow> unit \<Rightarrow> PanelElement \<times> Element list \<Rightarrow> unit reporter" where
  "check_panel_risks rt page u = (\<lambda>(p, cs). case find_state (panel_initial_state p) cs of
       None \<Rightarrow> State_Monad.return ()
     | Some (_, initial_children) \<Rightarrow> do {
         (if page_transition page \<noteq> None \<and> contains_background_animation (page_children page) \<and>
             is_transparent_fixed_placeholder initial_children
          then warning_fmt rt ''W011'' [lit ''panel \"'', panel_id p, lit ''\" starts as a transparent fixed-size placeholder over an animated background; render an opaque structural surface in the initial frame'']
          else State_Monad.return ());
         initial_ids \<leftarrow> collect_wasm_animation_ids rt initial_children;
         foreach (check_state_wasm rt p initial_ids) [] cs;
         State_Monad.return ()
       })"

definition has_transition :: "ustr \<Rightarrow> Element list \<Rightarrow> bool" where
  "has_transition destination cs =
     list_ex (\<lambda>e. case e of StateE st _ \<Rightarrow> state_name st = destination \<and> state_transition st \<noteq> None | _ \<Rightarrow> False) cs"

definition check_entrance ::
  "runtime \<Rightarrow> (PanelElement \<times> Element list) list \<Rightarrow> unit \<Rightarrow> OnElement \<Rightarrow> unit reporter" where
  "check_entrance rt panels u b =
     (if on_event b \<noteq> PageLoadEvent \<or> on_action b \<noteq> SetAction \<or> on_delay_ms b = 0 then State_Monad.return ()
      else case (on_to b, find (\<lambda>(p, _). panel_id p = on_target b) panels) of
        (Some destination, Some (p, cs)) \<Rightarrow>
          if has_transition destination cs then
            warning_fmt rt ''W012'' [lit ''page transition overlaps delayed entrance of panel \"'', panel_id p,
              lit ''\"; transparent cells can expose the previous terminal frame'']
          else State_Monad.return ()
      | _ \<Rightarrow> State_Monad.return ())"

definition validate_visual_transition_risks :: "runtime \<Rightarrow> Page \<Rightarrow> unit reporter" where
  "validate_visual_transition_risks rt page = do {
     panels \<leftarrow> collect_panel_elements rt [] (page_children page);
     foreach (check_panel_risks rt page) () panels;
     if page_transition page \<noteq> None then do {
       bindings \<leftarrow> collect_on_bindings rt (page_children page);
       foreach (check_entrance rt panels) () bindings
     } else State_Monad.return ()
   }"

definition validate_triggers :: "runtime \<Rightarrow> Page \<Rightarrow> unit reporter" where
  "validate_triggers rt page = do {
     panels \<leftarrow> collect_panels rt (page_children page);
     animations \<leftarrow> collect_animation_ids rt [] (page_children page);
     validate_element_triggers rt panels animations (page_children page);
     validate_on_bindings rt (page_children page) panels;
     validate_visual_transition_risks rt page;
     validate_animation_limits rt page
   }"

end
