(* ===== verification/Validate_Laws.thy ===== *)
theory Validate_Laws
  imports Validate Parser_Valid
begin

text \<open>
  What the validators establish: a document they accept has its references resolved and keeps the
  limits per page; and what the depth-first search over bindings computes, and at which cost.
\<close>

section \<open>All elements of a document\<close>

fun descendants :: "Element list \<Rightarrow> Element list" where
  "descendants [] = []"
| "descendants (e # es) = e # descendants (children e) @ descendants es"

lemma foreach_append: "foreach f a (xs @ ys) = do { a \<leftarrow> foreach f a xs; foreach f a ys }"
  by (induction xs arbitrary: a) simp_all

lemma walk_foreach: "walk f a es = foreach f a (descendants es)"
  by (induction f a es rule: walk.induct) (simp_all add: foreach_append)

lemma count_fold: "count_elements es counts = fold count_one (descendants es) counts"
  by (induction es counts rule: count_elements.induct) simp_all

section \<open>Chains of bindings\<close>

fun linked :: "OnElement list \<Rightarrow> ustr \<Rightarrow> nat list \<Rightarrow> bool" where
  "linked bindings node [] = True"
| "linked bindings node (i # chain) \<longleftrightarrow>
     i < length bindings \<and> on_event (bindings ! i) = AnimationEndEvent \<and> on_action (bindings ! i) = AnimateAction \<and>
     on_source (bindings ! i) = Some node \<and> linked bindings (on_target (bindings ! i)) chain"

lemma le_foldl_max: "(k::nat) \<le> foldl max m xs \<longleftrightarrow> k \<le> m \<or> list_ex (\<lambda>x. k \<le> x) xs"
  by (induction xs arbitrary: m) (simp_all add: le_max_iff_disj)

lemma le_dfs:
  "k \<le> dfs bindings node visited \<longleftrightarrow>
     (\<exists>chain. linked bindings node chain \<and> distinct chain \<and> set chain \<inter> set visited = {} \<and> length chain = k)"
proof (induction bindings node visited arbitrary: k rule: dfs.induct)
  case (1 bindings node visited)
  let ?next = "next_bindings bindings node visited"
  show ?case
  proof (cases k)
    case 0
    then show ?thesis by (auto intro: exI [of _ "[]"])
  next
    case (Suc j)
    have "k \<le> dfs bindings node visited \<longleftrightarrow>
        (\<exists>i\<in>set ?next. j \<le> dfs bindings (on_target (bindings ! i)) (i # visited))"
      by (subst dfs.simps) (simp add: le_foldl_max list_ex_iff Suc)
    also have "\<dots> \<longleftrightarrow> (\<exists>i\<in>set ?next. \<exists>chain. linked bindings (on_target (bindings ! i)) chain \<and> distinct chain \<and>
        set chain \<inter> set (i # visited) = {} \<and> length chain = j)"
      using 1 by simp
    also have "\<dots> \<longleftrightarrow> (\<exists>i chain. linked bindings node (i # chain) \<and> distinct (i # chain) \<and>
        set (i # chain) \<inter> set visited = {} \<and> length (i # chain) = k)"
      by (auto simp: next_bindings_def follows_def Suc)
    also have "\<dots> \<longleftrightarrow> (\<exists>chain. linked bindings node chain \<and> distinct chain \<and> set chain \<inter> set visited = {} \<and> length chain = k)"
      by (metis Suc length_Suc_conv)
    finally show ?thesis .
  qed
qed

text \<open>
  C17: the depth of a cascade is the length of the longest chain of different bindings in which
  the end of one animation starts the next.
\<close>

theorem cascade_depth_longest:
  "k \<le> cascade_depth bindings \<longleftrightarrow>
     (\<exists>node chain. linked bindings node chain \<and> distinct chain \<and> length chain = k)"
proof (cases k)
  case 0
  then show ?thesis by (auto intro: exI [of _ "[]"])
next
  case (Suc j)
  have "k \<le> cascade_depth bindings \<longleftrightarrow> (\<exists>b\<in>set bindings. \<exists>s. on_source b = Some s \<and> k \<le> dfs bindings s [])"
    by (simp add: cascade_depth_def le_foldl_max list_ex_iff Suc map_filter_def) force
  also have "\<dots> \<longleftrightarrow> (\<exists>node chain. linked bindings node chain \<and> distinct chain \<and> length chain = k)"
  proof
    assume "\<exists>b\<in>set bindings. \<exists>s. on_source b = Some s \<and> k \<le> dfs bindings s []"
    then show "\<exists>node chain. linked bindings node chain \<and> distinct chain \<and> length chain = k"
      unfolding le_dfs by auto
  next
    assume "\<exists>node chain. linked bindings node chain \<and> distinct chain \<and> length chain = k"
    then obtain node i chain where c: "linked bindings node (i # chain)" "distinct (i # chain)" "length (i # chain) = k"
      by (metis Suc length_Suc_conv)
    then have "k \<le> dfs bindings node []"
      unfolding le_dfs by (metis empty_set inf_bot_right)
    then show "\<exists>b\<in>set bindings. \<exists>s. on_source b = Some s \<and> k \<le> dfs bindings s []"
      using c(1) by (metis linked.simps(2) nth_mem)
  qed
  finally show ?thesis .
qed

text \<open>The calls of \<open>dfs\<close> that a call makes, itself included.\<close>

function dfs_calls :: "OnElement list \<Rightarrow> ustr \<Rightarrow> nat list \<Rightarrow> nat" where
  "dfs_calls bindings node visited =
     1 + sum_list (map (\<lambda>i. dfs_calls bindings (on_target (bindings ! i)) (i # visited)) (next_bindings bindings node visited))"
  by pat_completeness auto
termination
  by (relation "measure (\<lambda>(bindings, _, visited). card ({..<length bindings} - set visited))")
    (use follow_measure in auto)

declare dfs_calls.simps [simp del]

definition self_loop :: OnElement where
  "self_loop = \<lparr>on_event = AnimationEndEvent, on_source = Some (lit ''a''), on_action = AnimateAction,
     on_target = lit ''a'', on_to = None, on_delay_ms = 0\<rparr>"

lemma loop_calls:
  assumes "distinct visited" "set visited \<subseteq> {..<n}"
  shows "fact (n - length visited) \<le> dfs_calls (replicate n self_loop) (lit ''a'') visited"
  using assms
proof (induction "n - length visited" arbitrary: visited)
  case 0
  then show ?case by (subst dfs_calls.simps) simp
next
  case (Suc m)
  let ?bs = "replicate n self_loop"
  have nexts: "set (next_bindings ?bs (lit ''a'') visited) = {..<n} - set visited"
    by (auto simp: next_bindings_def follows_def self_loop_def)
  have "distinct (next_bindings ?bs (lit ''a'') visited)"
    by (simp add: next_bindings_def)
  with nexts have l: "length (next_bindings ?bs (lit ''a'') visited) = Suc m"
    using Suc(2,3,4) by (metis card_Diff_subset card_lessThan distinct_card finite_set)
  have each: "fact m \<le> dfs_calls ?bs (on_target (?bs ! i)) (i # visited)"
    if "i \<in> set (next_bindings ?bs (lit ''a'') visited)" for i
  proof -
    have i: "i < n" "i \<notin> set visited"
      using that nexts by auto
    then have "m = n - length (i # visited)"
      using Suc(2) by simp
    from Suc(1) [OF this] i Suc(3,4) show ?thesis
      using \<open>m = n - length (i # visited)\<close> by (simp add: self_loop_def)
  qed
  have "Suc m * fact m = sum_list (map (\<lambda>i. fact m) (next_bindings ?bs (lit ''a'') visited))"
    by (simp add: l sum_list_triv)
  also have "\<dots> \<le> sum_list (map (\<lambda>i. dfs_calls ?bs (on_target (?bs ! i)) (i # visited)) (next_bindings ?bs (lit ''a'') visited))"
    by (rule sum_list_mono) (rule each)
  finally have "Suc m * fact m < dfs_calls ?bs (lit ''a'') visited"
    by (subst dfs_calls.simps) linarith
  moreover have "fact (n - length visited) = Suc m * (fact m :: nat)"
    unfolding Suc(2) [symmetric] by simp
  ultimately show ?case
    by linarith
qed

text \<open>
  C18: the search tries every order of the bindings: on n bindings that restart one animation at
  its end it makes at least n factorial calls, and the number of bindings is no reason to stop.
\<close>

theorem cascade_search_factorial:
  "fact n \<le> dfs_calls (replicate n self_loop) (lit ''a'') []"
  using loop_calls [of "[]" n] by simp

section \<open>References\<close>

abbreviation given :: "'a option list \<Rightarrow> 'a list" where
  "given \<equiv> List.map_filter (\<lambda>x. x)"

text \<open>A panel of that identifier has the states.\<close>

definition has_states :: "Element list \<Rightarrow> ustr \<Rightarrow> ustr list \<Rightarrow> bool" where
  "has_states es target states \<longleftrightarrow>
     list_ex (\<lambda>e. case e of
        PanelE p cs \<Rightarrow> panel_id p = target \<and> list_all (\<lambda>s. s \<in> set (state_names cs)) states
      | _ \<Rightarrow> False) (descendants es)"

definition trigger_resolved :: "Element list \<Rightarrow> TriggerRef option \<Rightarrow> bool" where
  "trigger_resolved es r = (case r of None \<Rightarrow> True | Some tr \<Rightarrow> has_states es (ref_panel_id tr) [ref_state_name tr])"

definition triggers_resolved :: "Element list \<Rightarrow> TriggerAttrs \<Rightarrow> bool" where
  "triggers_resolved es t \<longleftrightarrow> list_all (trigger_resolved es)
     [trigger_focus t, trigger_blur t, trigger_hover t, trigger_unhover t]"

definition names_element :: "Element list \<Rightarrow> ustr \<Rightarrow> bool" where
  "names_element es s \<longleftrightarrow> list_ex (\<lambda>e. element_id e = Some s) (descendants es)"

definition names_animation :: "Element list \<Rightarrow> ustr \<Rightarrow> bool" where
  "names_animation es s \<longleftrightarrow>
     list_ex (\<lambda>e. case e of AnimateE a _ \<Rightarrow> animate_id a = s | _ \<Rightarrow> False) (descendants es)"

definition resolved :: "Element list \<Rightarrow> Element \<Rightarrow> bool" where
  "resolved es e = (case e of
       ButtonE b \<Rightarrow> triggers_resolved es (button_triggers b) \<and>
         (case (button_action b \<in> {ToggleButton, SetButton}, button_target b) of
            (True, Some target) \<Rightarrow> has_states es target (given [button_to b] @ concat (given [button_states b]))
          | _ \<Rightarrow> True)
     | InputE i \<Rightarrow> triggers_resolved es (input_triggers i)
     | LinkE l _ \<Rightarrow> triggers_resolved es (link_triggers l) \<and> list_all (names_animation es) (given [link_defer_animation l])
     | OnE b \<Rightarrow> list_all (names_element es) (given [on_source b]) \<and> (on_target b = [] \<or> names_element es (on_target b)) \<and>
         (on_action b \<noteq> SetAction \<or> \<not> has_states es (on_target b) [] \<or> has_states es (on_target b) (given [on_to b]))
     | _ \<Rightarrow> True)"

subsection \<open>What is collected\<close>

lemma yields_insert_name: "yields (insert_name rt names s) (\<lambda>ns. ns = List.insert s names)"
  by (auto simp: insert_name_def intro!: yields_return yields_fail [OF yields_mark] fault_intros)

lemma faults_insert_name [fault_intros]: "faults_stay (insert_name rt names s)"
  unfolding insert_name_def by (intro fault_intros)

text \<open>The tests for a constructor as options, so that proofs split two cases and not thirty-nine.\<close>

definition panel_of :: "Element \<Rightarrow> (PanelElement \<times> Element list) option" where
  "panel_of e = (case e of PanelE p cs \<Rightarrow> Some (p, cs) | _ \<Rightarrow> None)"

definition animation_of :: "Element \<Rightarrow> AnimateElement option" where
  "animation_of e = (case e of AnimateE a _ \<Rightarrow> Some a | _ \<Rightarrow> None)"

definition binding_of :: "Element \<Rightarrow> OnElement option" where
  "binding_of e = (case e of OnE b \<Rightarrow> Some b | _ \<Rightarrow> None)"

lemma insert_state_of_alt:
  "insert_state_of rt states e = (case state_of e of Some s \<Rightarrow> insert_name rt states (state_name s) | None \<Rightarrow> State_Monad.return states)"
  by (cases e) (simp_all add: insert_state_of_def state_of_def)

lemma collect_panel_alt:
  "collect_panel rt panels e = (case panel_of e of
       Some (p, cs) \<Rightarrow> do {
         states \<leftarrow> foreach (insert_state_of rt) [] cs;
         if grows rt (length panels) then State_Monad.return (AList.update (panel_id p) states panels)
         else do { mark_allocation_failure (); State_Monad.return panels } }
     | None \<Rightarrow> State_Monad.return panels)"
  by (cases e) (simp_all add: collect_panel_def panel_of_def)

lemma collect_on_binding_alt:
  "collect_on_binding rt bindings e = (case binding_of e of Some b \<Rightarrow> try_push rt bindings b | None \<Rightarrow> State_Monad.return bindings)"
  by (cases e) (simp_all add: collect_on_binding_def binding_of_def)

lemma insert_animation_alt:
  "(case e of AnimateE a _ \<Rightarrow> insert_name rt ids (animate_id a) | _ \<Rightarrow> State_Monad.return ids) =
   (case animation_of e of Some a \<Rightarrow> insert_name rt ids (animate_id a) | None \<Rightarrow> State_Monad.return ids)"
  by (cases e) (simp_all add: animation_of_def)

lemma has_states_alt:
  "has_states es target states \<longleftrightarrow> (\<exists>e\<in>set (descendants es). \<exists>p cs. panel_of e = Some (p, cs) \<and>
     panel_id p = target \<and> set states \<subseteq> set (state_names cs))"
proof -
  have "(case e of PanelE p cs \<Rightarrow> panel_id p = target \<and> list_all (\<lambda>s. s \<in> set (state_names cs)) states | _ \<Rightarrow> False) \<longleftrightarrow>
      (\<exists>p cs. panel_of e = Some (p, cs) \<and> panel_id p = target \<and> set states \<subseteq> set (state_names cs))" for e
    by (cases e) (auto simp: panel_of_def list_all_iff)
  then show ?thesis
    by (simp add: has_states_def list_ex_iff)
qed

lemma names_animation_alt:
  "names_animation es s \<longleftrightarrow> (\<exists>e\<in>set (descendants es). \<exists>a. animation_of e = Some a \<and> animate_id a = s)"
proof -
  have "(case e of AnimateE a _ \<Rightarrow> animate_id a = s | _ \<Rightarrow> False) \<longleftrightarrow> (\<exists>a. animation_of e = Some a \<and> animate_id a = s)" for e
    by (cases e) (auto simp: animation_of_def)
  then show ?thesis
    by (simp add: names_animation_def list_ex_iff)
qed

lemma state_names_member: "s \<in> set (state_names cs) \<longleftrightarrow> (\<exists>e\<in>set cs. \<exists>st. state_of e = Some st \<and> state_name st = s)"
  by (force simp: state_names_def map_filter_def)

lemma faults_insert_state [fault_intros]: "faults_stay (insert_state_of rt states e)"
  by (auto simp: insert_state_of_alt intro!: fault_intros split: option.split)

lemma faults_collect_panel [fault_intros]: "faults_stay (collect_panel rt panels e)"
  by (auto simp: collect_panel_alt intro!: fault_intros split: option.split)

lemma faults_animation_ids [fault_intros]: "faults_stay (collect_animation_ids rt ids es)"
proof (induction rt ids es rule: collect_animation_ids.induct)
  case (2 rt ids e es)
  then show ?case
    unfolding collect_animation_ids.simps insert_animation_alt by (cases "animation_of e") (auto intro!: fault_intros)
qed (simp add: faults_return)

lemma faults_collect_id [fault_intros]: "faults_stay (collect_element_id rt ids e)"
  by (auto simp: collect_element_id_def intro!: fault_intros split: option.split)

lemma faults_collect_binding [fault_intros]: "faults_stay (collect_on_binding rt bs e)"
  by (auto simp: collect_on_binding_alt intro!: fault_intros split: option.split)

lemma yields_states_of:
  "yields (foreach (insert_state_of rt) [] cs) (\<lambda>states. set states \<subseteq> set (state_names cs))"
proof (rule yields_invariant)
  fix states e
  assume e: "e \<in> set cs" and s: "set states \<subseteq> set (state_names cs)"
  have "state_name st \<in> set (state_names cs)" if "state_of e = Some st" for st
    using e that unfolding state_names_member by blast
  with s show "yields (insert_state_of rt states e) (\<lambda>states. set states \<subseteq> set (state_names cs))"
    by (auto simp: insert_state_of_alt split: option.split intro!: yields_return yields_mono [OF yields_insert_name])
qed (auto intro: fault_intros)

lemma yields_collect_panel:
  assumes "e \<in> set (descendants es)" "\<And>i states. map_of panels i = Some states \<Longrightarrow> has_states es i states"
  shows "yields (collect_panel rt panels e)
    (\<lambda>ps. (\<forall>i states. map_of ps i = Some states \<longrightarrow> has_states es i states) \<and>
      (\<forall>p cs. panel_of e = Some (p, cs) \<longrightarrow> map_of ps (panel_id p) \<noteq> None) \<and>
      (\<forall>i. map_of panels i \<noteq> None \<longrightarrow> map_of ps i \<noteq> None))"
proof (cases "panel_of e")
  case None
  with assms show ?thesis
    by (auto simp: collect_panel_alt intro: yields_return)
next
  case (Some pc)
  then obtain p cs where p: "panel_of e = Some (p, cs)"
    by (cases pc) auto
  have "has_states es (panel_id p) states" if "set states \<subseteq> set (state_names cs)" for states
    using assms(1) p that unfolding has_states_alt by blast
  with assms(2) have "(if i = panel_id p then Some states else map_of panels i) = Some states' \<longrightarrow> has_states es i states'"
    if "set states \<subseteq> set (state_names cs)" for i states states'
    using that by auto
  with p show ?thesis
    by (auto simp: collect_panel_alt update_conv' intro!: yields_then [OF yields_states_of] yields_return
        yields_fail [OF yields_mark] fault_intros)
qed

lemma yields_each_of:
  assumes "\<And>a x. x \<in> set xs \<Longrightarrow> I a \<Longrightarrow> yields (f a x) (\<lambda>b. I b \<and> Q b x \<and> (\<forall>y. Q a y \<longrightarrow> Q b y))"
    "\<And>a x. faults_stay (f a x)" "I a"
  shows "yields (foreach f a xs) (\<lambda>b. I b \<and> list_all (Q b) xs \<and> (\<forall>y. Q a y \<longrightarrow> Q b y))"
  using assms(1,3)
proof (induction xs arbitrary: a)
  case (Cons x xs)
  have "yields (foreach f b xs) (\<lambda>c. I c \<and> list_all (Q c) (x # xs) \<and> (\<forall>y. Q a y \<longrightarrow> Q c y))"
    if "I b \<and> Q b x \<and> (\<forall>y. Q a y \<longrightarrow> Q b y)" for b
    using that by (intro yields_mono [OF Cons.IH]) (auto intro: Cons.prems)
  then show ?case
    by (auto intro!: yields_then [OF Cons.prems(1)] faults_foreach assms(2) Cons.prems(2))
qed (simp add: yields_return)

lemma yields_collect_panels:
  "yields (collect_panels rt es)
    (\<lambda>ps. (\<forall>i states. map_of ps i = Some states \<longrightarrow> has_states es i states) \<and>
      (\<forall>i. has_states es i [] \<longrightarrow> map_of ps i \<noteq> None))"
proof -
  let ?known = "\<lambda>(ps :: (ustr \<times> ustr list) list) e. \<forall>p cs. panel_of e = Some (p, cs) \<longrightarrow> map_of ps (panel_id p) \<noteq> None"
  have "yields (foreach (collect_panel rt) [] (descendants es))
    (\<lambda>ps. (\<forall>i states. map_of ps i = Some states \<longrightarrow> has_states es i states) \<and>
      list_all (?known ps) (descendants es) \<and> (\<forall>e. ?known [] e \<longrightarrow> ?known ps e))"
    by (rule yields_each_of [where Q = ?known and I = "\<lambda>ps. \<forall>i states. map_of ps i = Some states \<longrightarrow> has_states es i states"])
      (fastforce intro!: yields_mono [OF yields_collect_panel] fault_intros)+
  then show ?thesis
    unfolding collect_panels_def walk_foreach
    by (rule yields_mono) (fastforce simp: has_states_alt list_all_iff)
qed

lemma names_animation_Cons:
  "names_animation (e # es) s \<longleftrightarrow>
     (case animation_of e of Some a \<Rightarrow> animate_id a = s | None \<Rightarrow> False) \<or> names_animation (children e) s \<or> names_animation es s"
  by (auto simp: names_animation_alt split: option.split)

lemma yields_animation_ids:
  "yields (collect_animation_ids rt ids es) (\<lambda>r. list_all (\<lambda>s. s \<in> set ids \<or> names_animation es s) r)"
proof (induction rt ids es rule: collect_animation_ids.induct)
  case (1 rt ids)
  then show ?case by (simp add: yields_return list_all_iff)
next
  case (2 rt ids e es)
  let ?I = "\<lambda>r. list_all (\<lambda>s. s \<in> set ids \<or> names_animation (e # es) s) r"
  have own: "yields (case e of AnimateE a _ \<Rightarrow> insert_name rt ids (animate_id a) | _ \<Rightarrow> State_Monad.return ids) ?I"
    unfolding insert_animation_alt
    by (auto simp: names_animation_Cons list_all_iff split: option.split
        intro!: yields_return yields_mono [OF yields_insert_name])
  have rest: "yields (collect_animation_ids rt js es) ?I" if "?I js" for js
    using that by (intro yields_mono [OF 2(2)]) (auto simp: names_animation_Cons list_all_iff)
  show ?case
    unfolding collect_animation_ids.simps
    by (rule yields_then [OF own], rule yields_then [OF 2(1)], rule yields_then [where A = ?I])
      (auto intro!: rest [unfolded list_all_iff names_animation_Cons] fault_intros yields_return yields_fail [OF yields_mark] faults_animation_ids
        simp: list_all_iff names_animation_Cons)
qed

lemma yields_element_ids: "yields (collect_element_ids rt es) (\<lambda>ids. list_all (names_element es) ids)"
  unfolding collect_element_ids_def walk_foreach
proof (rule yields_invariant)
  fix ids e
  assume e: "e \<in> set (descendants es)" and ids: "list_all (names_element es) ids"
  have "names_element es s" if "element_id e = Some s" for s
    using e that by (auto simp: names_element_def list_ex_iff)
  with ids show "yields (collect_element_id rt ids e) (list_all (names_element es))"
    by (auto simp: collect_element_id_def list_all_iff split: option.split
        intro!: yields_return yields_mono [OF yields_insert_name])
qed (auto intro: fault_intros)

lemma yields_on_bindings:
  "yields (collect_on_bindings rt es) (\<lambda>bs. bs = List.map_filter binding_of (descendants es))"
proof -
  let ?add = "\<lambda>bs e. case binding_of e of Some b \<Rightarrow> bs @ [b] | None \<Rightarrow> bs"
  have "foldl ?add acc xs = acc @ List.map_filter binding_of xs" for acc xs
    by (induction xs arbitrary: acc) (simp_all add: map_filter_def split: option.split)
  moreover have "yields (collect_on_binding rt bs e) (\<lambda>r. r = ?add bs e)" for bs e
    by (simp add: collect_on_binding_alt yields_push yields_return split: option.split)
  from yields_fold [OF this faults_collect_binding]
  have "yields (foreach (collect_on_binding rt) [] (descendants es)) (\<lambda>r. r = foldl ?add [] (descendants es))" .
  ultimately show ?thesis
    unfolding collect_on_bindings_def walk_foreach by simp
qed

section \<open>What is checked\<close>

lemma faults_button_target [fault_intros]: "faults_stay (check_button_target rt panels b)"
  by (auto simp: check_button_target_def intro!: fault_intros split: option.split bool.split)

lemma yields_known:
  "yields (foreach (\<lambda>u s. report_if (s \<notin> set states) rt code (m s)) () xs) (\<lambda>_. list_all (\<lambda>s. s \<in> set states) xs)"
  by (rule yields_all) (auto intro: yields_mono [OF yields_report_if] faults_report_if)

lemma yields_button_target:
  assumes "\<And>i states. map_of panels i = Some states \<Longrightarrow> has_states es i states"
  shows "yields (check_button_target rt panels b) (\<lambda>_.
     case (button_action b \<in> {ToggleButton, SetButton}, button_target b) of
       (True, Some target) \<Rightarrow> has_states es target (given [button_to b] @ concat (given [button_states b]))
     | _ \<Rightarrow> True)"
proof (cases "button_action b \<in> {ToggleButton, SetButton} \<and> button_target b \<noteq> None")
  case True
  then obtain target where t: "(button_action b \<in> {ToggleButton, SetButton}) = True" "button_target b = Some target"
    by auto
  show ?thesis
  proof (cases "map_of panels target")
    case None
    with t show ?thesis
      by (simp add: check_button_target_def yields_never [OF yields_error])
  next
    case (Some states)
    have ok: "has_states es target xs" if "list_all (\<lambda>s. s \<in> set states) xs" for xs
      using assms [OF Some] that unfolding has_states_alt list_all_iff by (meson subset_eq)
    show ?thesis
      unfolding check_button_target_def t Some prod.case bool.case option.case
      by (cases "button_states b"; cases "button_to b")
        (auto simp: map_filter_def intro!: yields_then [OF yields_known] yields_mono [OF yields_known]
          yields_mono [OF yields_report_if] yields_return ok fault_intros)
  qed
qed (auto simp: check_button_target_def intro!: yields_return split: option.split bool.split)

lemma faults_trigger [fault_intros]: "faults_stay (check_trigger rt panels u lr)"
  by (auto simp: check_trigger_def intro!: fault_intros split: prod.split option.split)

lemma faults_trigger_attrs [fault_intros]: "faults_stay (validate_trigger_attrs rt panels t)"
  unfolding validate_trigger_attrs_def by (intro fault_intros)

lemma yields_trigger_attrs:
  assumes "\<And>i states. map_of panels i = Some states \<Longrightarrow> has_states es i states"
  shows "yields (validate_trigger_attrs rt panels t) (\<lambda>_. triggers_resolved es t)"
proof -
  have ok: "has_states es i [s]" if "map_of panels i = Some states" "s \<in> set states" for i s states
    using assms [OF that(1)] that(2) unfolding has_states_alt by fastforce
  have "yields (check_trigger rt panels () lr) (\<lambda>_. trigger_resolved es (snd lr))" for lr
    by (cases lr) (auto simp: check_trigger_def trigger_resolved_def split: option.split
        intro!: yields_return yields_never [OF yields_error] yields_mono [OF yields_report_if] ok)
  from yields_all [where f = "check_trigger rt panels" and P = "\<lambda>lr. trigger_resolved es (snd lr)", OF this faults_trigger]
  show ?thesis
    unfolding validate_trigger_attrs_def triggers_resolved_def by (rule yields_mono) simp
qed

lemma faults_validate_element [fault_intros]: "faults_stay (validate_element rt panels animations u e)"
  by (cases e) (auto simp: validate_element_def intro!: fault_intros split: option.split)

lemma yields_element:
  assumes "\<And>i states. map_of panels i = Some states \<Longrightarrow> has_states es i states"
    and "list_all (names_animation es) animations"
  shows "yields (validate_element rt panels animations () e) (\<lambda>_. binding_of e = None \<longrightarrow> resolved es e)"
proof (cases e)
  case (ButtonE b)
  then show ?thesis
    by (auto simp: validate_element_def resolved_def
        intro!: yields_then [OF yields_button_target] yields_mono [OF yields_trigger_attrs] assms fault_intros)
next
  case (InputE i)
  then show ?thesis
    by (auto simp: validate_element_def resolved_def intro!: yields_mono [OF yields_trigger_attrs] assms)
next
  case (LinkE l cs)
  then show ?thesis
    using assms(2)
    by (auto simp: validate_element_def resolved_def map_filter_def list_all_iff split: option.split
        intro!: yields_then [OF yields_trigger_attrs] yields_mono [OF yields_trigger_attrs] yields_mono [OF yields_report_if]
          yields_return assms(1) fault_intros)
qed (simp_all add: validate_element_def resolved_def binding_of_def yields_return)

lemma faults_check_binding [fault_intros]: "faults_stay (check_binding rt panels ids u b)"
  by (auto simp: check_binding_def intro!: fault_intros split: option.split bool.split)

definition binding_resolved :: "Element list \<Rightarrow> OnElement \<Rightarrow> bool" where
  "binding_resolved es b \<longleftrightarrow> list_all (names_element es) (given [on_source b]) \<and>
     (on_target b = [] \<or> names_element es (on_target b)) \<and>
     (on_action b \<noteq> SetAction \<or> \<not> has_states es (on_target b) [] \<or> has_states es (on_target b) (given [on_to b]))"

lemma yields_check_binding:
  assumes "\<And>i states. map_of panels i = Some states \<Longrightarrow> has_states es i states"
    and "\<And>i. has_states es i [] \<Longrightarrow> map_of panels i \<noteq> None" and "list_all (names_element es) ids"
  shows "yields (check_binding rt panels ids () b) (\<lambda>_. binding_resolved es b)"
proof -
  have ok: "has_states es i [s]" if "map_of panels i = Some states" "s \<in> set states" for i s states
    using assms(1) [OF that(1)] that(2) unfolding has_states_alt by fastforce
  have 1: "yields (case on_source b of
      Some s \<Rightarrow> report_if (s \<notin> set ids) rt code (m s) | None \<Rightarrow> State_Monad.return ())
      (\<lambda>_. list_all (names_element es) (given [on_source b]))" for code m
    using assms(3) by (auto simp: map_filter_def list_all_iff split: option.split
        intro!: yields_return yields_mono [OF yields_report_if])
  have 2: "yields (report_if (on_target b \<noteq> [] \<and> on_target b \<notin> set ids) rt code args)
      (\<lambda>_. on_target b = [] \<or> names_element es (on_target b))" for code args
    using assms(3) by (auto simp: list_all_iff intro!: yields_mono [OF yields_report_if])
  have 3: "yields (case (on_action b = SetAction, on_to b, map_of panels (on_target b)) of
      (True, Some dest, Some states) \<Rightarrow> report_if (dest \<notin> set states) rt code (m dest)
    | _ \<Rightarrow> State_Monad.return ())
    (\<lambda>_. on_action b \<noteq> SetAction \<or> \<not> has_states es (on_target b) [] \<or> has_states es (on_target b) (given [on_to b]))" for code m
    using assms(2) [of "on_target b"]
    by (cases "on_to b"; cases "map_of panels (on_target b)"; cases "on_action b = SetAction")
      (auto simp: map_filter_def intro!: yields_return yields_mono [OF yields_report_if] ok)
  show ?thesis
    unfolding check_binding_def
    by (rule yields_then [OF 1], rule yields_then [OF 2], rule yields_mono [OF 3])
      (auto simp: binding_resolved_def intro!: fault_intros split: option.split bool.split)
qed

lemma faults_cascade [fault_intros]: "faults_stay (compute_cascade_depth rt bs)"
  unfolding compute_cascade_depth_def by (intro fault_intros)

lemma faults_on_bindings [fault_intros]: "faults_stay (validate_on_bindings rt es panels)"
  unfolding validate_on_bindings_def collect_element_ids_def collect_on_bindings_def walk_foreach
  by (intro fault_intros)

lemma yields_validate_bindings:
  assumes "\<And>i states. map_of panels i = Some states \<Longrightarrow> has_states es i states"
    and "\<And>i. has_states es i [] \<Longrightarrow> map_of panels i \<noteq> None"
  shows "yields (validate_on_bindings rt es panels)
    (\<lambda>_. list_all (binding_resolved es) (List.map_filter binding_of (descendants es)) \<and>
      length (List.map_filter binding_of (descendants es)) \<le> MAX_ON_BINDINGS)"
proof -
  have loop: "yields (foreach (check_binding rt panels ids) () bs) (\<lambda>_. list_all (binding_resolved es) bs)"
    if "list_all (names_element es) ids" for ids bs
    using yields_check_binding [OF assms that] by (intro yields_all fault_intros)
  show ?thesis
    unfolding validate_on_bindings_def
    by (rule yields_then [OF yields_element_ids], rule yields_then [OF yields_on_bindings],
        rule yields_then [OF yields_report_if], rule yields_then [OF loop], assumption, rule yields_const, simp)
      (unfold collect_on_bindings_def walk_foreach, (intro fault_intros)+)
qed

section \<open>Limits\<close>

definition is_frame :: "Element \<Rightarrow> bool" where
  "is_frame e = (case e of FrameE _ \<Rightarrow> True | _ \<Rightarrow> False)"

definition within_limits :: "Element list \<Rightarrow> bool" where
  "within_limits es \<longleftrightarrow>
     length (List.map_filter animation_of (descendants es)) \<le> MAX_ANIMATE_REGIONS \<and>
     length (filter (\<lambda>a. animate_src a \<noteq> None) (List.map_filter animation_of (descendants es))) \<le> MAX_WASM_INSTANCES \<and>
     length (filter is_frame (descendants es)) \<le> MAX_ANIMATION_FRAMES \<and>
     length (List.map_filter binding_of (descendants es)) \<le> MAX_ON_BINDINGS"

lemma count_one_alt:
  "count_one e (r, w, f) =
     (r + length (List.map_filter animation_of [e]),
      w + length (filter (\<lambda>a. animate_src a \<noteq> None) (List.map_filter animation_of [e])),
      f + length (filter is_frame [e]))"
  by (cases e) (simp_all add: animation_of_def is_frame_def map_filter_def)

lemma fold_counts:
  "fold count_one xs (r, w, f) =
     (r + length (List.map_filter animation_of xs),
      w + length (filter (\<lambda>a. animate_src a \<noteq> None) (List.map_filter animation_of xs)),
      f + length (filter is_frame xs))"
  by (induction xs arbitrary: r w f) (simp_all add: count_one_alt map_filter_def)

lemma faults_limits [fault_intros]: "faults_stay (validate_animation_limits rt page)"
  by (auto simp: validate_animation_limits_def intro!: fault_intros split: prod.split)

lemma yields_limits:
  "yields (validate_animation_limits rt page) (\<lambda>_.
     length (List.map_filter animation_of (descendants (page_children page))) \<le> MAX_ANIMATE_REGIONS \<and>
     length (filter (\<lambda>a. animate_src a \<noteq> None) (List.map_filter animation_of (descendants (page_children page)))) \<le> MAX_WASM_INSTANCES \<and>
     length (filter is_frame (descendants (page_children page))) \<le> MAX_ANIMATION_FRAMES)"
  unfolding validate_animation_limits_def count_fold fold_counts prod.case
  by (rule yields_then [OF yields_report_if], rule yields_then [OF yields_report_if], rule yields_mono [OF yields_report_if])
    (simp_all add: fault_intros)

section \<open>Acceptance\<close>

lemma faults_triggers [fault_intros]: "faults_stay (validate_element_triggers rt panels animations es)"
  unfolding validate_element_triggers_def walk_foreach by (intro fault_intros)

lemma faults_panel_elements [fault_intros]: "faults_stay (collect_panel_elements rt panels es)"
proof (induction rt panels es rule: collect_panel_elements.induct)
  case (2 rt panels e es)
  have "faults_stay (case e of PanelE p cs \<Rightarrow> try_push rt panels (p, cs) | _ \<Rightarrow> State_Monad.return panels)"
    by (cases e) (simp_all add: fault_intros)
  with 2 show ?case
    by (auto intro!: fault_intros)
qed (simp add: faults_return)

lemma faults_wasm_ids [fault_intros]: "faults_stay (collect_wasm_animation_ids rt es)"
proof -
  have "faults_stay (collect_wasm_id rt ids e)" for ids e
    by (cases e) (simp_all add: collect_wasm_id_def fault_intros)
  then show ?thesis
    unfolding collect_wasm_animation_ids_def walk_foreach by (intro fault_intros)
qed

lemma faults_panel_risks [fault_intros]: "faults_stay (check_panel_risks rt page u pc)"
proof -
  have "faults_stay (check_state_wasm rt p ids warned e)" for p ids warned e
    by (cases e) (auto simp: check_state_wasm_def warn_wasm_def intro!: fault_intros)
  then show ?thesis
    by (auto simp: check_panel_risks_def intro!: fault_intros split: prod.split option.split)
qed

lemma faults_entrance [fault_intros]: "faults_stay (check_entrance rt panels u b)"
  by (auto simp: check_entrance_def intro!: fault_intros split: prod.split option.split)

lemma faults_visual_risks [fault_intros]: "faults_stay (validate_visual_transition_risks rt page)"
  unfolding validate_visual_transition_risks_def collect_on_bindings_def walk_foreach by (intro fault_intros)

lemma resolved_alt: "resolved es e \<longleftrightarrow> (case binding_of e of Some b \<Rightarrow> binding_resolved es b | None \<Rightarrow> resolved es e)"
  by (cases e) (simp_all add: resolved_def binding_of_def binding_resolved_def)

lemma yields_element_triggers:
  assumes "\<And>i states. map_of panels i = Some states \<Longrightarrow> has_states es i states"
    and "list_all (names_animation es) animations"
  shows "yields (validate_element_triggers rt panels animations es)
    (\<lambda>_. list_all (\<lambda>e. binding_of e = None \<longrightarrow> resolved es e) (descendants es))"
  unfolding validate_element_triggers_def walk_foreach
  by (rule yields_all) (rule yields_element assms faults_validate_element | assumption)+

text \<open>A clean validation: the references of every element are resolved and the limits hold.\<close>

lemma yields_validate:
  "yields (validate_triggers rt page)
    (\<lambda>_. list_all (resolved (page_children page)) (descendants (page_children page)) \<and> within_limits (page_children page))"
proof -
  let ?es = "page_children page"
  have "yields (do {
      validate_element_triggers rt panels animations ?es;
      validate_on_bindings rt ?es panels;
      validate_visual_transition_risks rt page;
      validate_animation_limits rt page })
    (\<lambda>_. list_all (resolved ?es) (descendants ?es) \<and> within_limits ?es)"
    if p: "(\<forall>i states. map_of panels i = Some states \<longrightarrow> has_states ?es i states) \<and>
      (\<forall>i. has_states ?es i [] \<longrightarrow> map_of panels i \<noteq> None)"
      and a: "list_all (\<lambda>s. s \<in> set [] \<or> names_animation ?es s) animations" for panels animations
  proof -
    have "list_all (resolved ?es) (descendants ?es)"
      if "list_all (\<lambda>e. binding_of e = None \<longrightarrow> resolved ?es e) (descendants ?es)"
        "list_all (binding_resolved ?es) (List.map_filter binding_of (descendants ?es))"
      using that resolved_alt [of ?es] by (fastforce simp: list_all_iff map_filter_def split: option.splits)
    then show ?thesis
      using p a
      by (intro yields_then [OF yields_element_triggers] yields_then [OF yields_validate_bindings] yields_last
          yields_mono [OF yields_limits] fault_intros) (auto simp: within_limits_def)
  qed
  then show ?thesis
    unfolding validate_triggers_def
    by (intro yields_then [OF yields_collect_panels] yields_then [OF yields_animation_ids] fault_intros) auto
qed

end
