(* ===== verification/Documents.thy ===== *)
theory Documents
  imports Parser_Valid Components Validate_Laws
begin

text \<open>
  \<open>parser::parse\<close>, the front end as a whole: components are expanded, the expanded tokens are
  parsed, and the document is validated. What it accepts without an error satisfies what the
  parser and the validators establish.
\<close>

definition merge_components :: "runtime \<Rightarrow> Report \<Rightarrow> ParseResult \<Rightarrow> ParseResult" where
  "merge_components rt cr r =
     (let exhausted = resource_exhausted r \<or> allocation_failed cr
      in if reserves rt ''Diagnostic'' (length (diagnostics cr)) (length (pr_diagnostics r))
         then \<lparr>pr_document = (if exhausted then None else pr_document r),
               pr_diagnostics = diagnostics cr @ pr_diagnostics r, resource_exhausted = exhausted\<rparr>
         else \<lparr>pr_document = None, pr_diagnostics = pr_diagnostics r, resource_exhausted = True\<rparr>)"

definition merge_validation :: "runtime \<Rightarrow> Report \<Rightarrow> ParseResult \<Rightarrow> ParseResult" where
  "merge_validation rt vr r =
     (let fits = reserves rt ''Diagnostic'' (length (pr_diagnostics r)) (length (diagnostics vr));
          failed = allocation_failed vr \<or> \<not> fits
      in \<lparr>pr_document = (if failed then None else pr_document r),
          pr_diagnostics = (if fits then pr_diagnostics r @ diagnostics vr else pr_diagnostics r),
          resource_exhausted = resource_exhausted r \<or> failed\<rparr>)"

definition parse :: "runtime \<Rightarrow> (uchar \<Rightarrow> bool) \<Rightarrow> Token list \<Rightarrow> ParseResult" where
  "parse rt alnum tokens =
     (case run_state (expand_components rt alnum tokens) empty_report of (expanded, cr) \<Rightarrow>
        let r = merge_components rt cr (fst (run_state (parse_document rt) (Parser_new expanded)))
        in case pr_document r of
             None \<Rightarrow> r
           | Some page \<Rightarrow> merge_validation rt (snd (run_state (validate_triggers rt page) empty_report)) r)"

lemma parsed_run:
  assumes "pr_document (parse rt alnum tokens) = Some page" "\<not> has_errors (pr_diagnostics (parse rt alnum tokens))"
  obtains expanded q vr where
    "run_state (parse_document rt) (Parser_new expanded) = (fst (run_state (parse_document rt) (Parser_new expanded)), q)"
    "pr_document (fst (run_state (parse_document rt) (Parser_new expanded))) = Some page"
    "\<not> has_errors (pr_diagnostics (fst (run_state (parse_document rt) (Parser_new expanded))))"
    "run_state (validate_triggers rt page) empty_report = ((), vr)" "clean_report vr"
proof -
  obtain expanded cr where c: "run_state (expand_components rt alnum tokens) empty_report = (expanded, cr)"
    by (metis surj_pair)
  let ?r = "fst (run_state (parse_document rt) (Parser_new expanded))"
  obtain vr where v: "run_state (validate_triggers rt page) empty_report = ((), vr)"
    by (metis surj_pair old.unit.exhaust)
  have m: "pr_document (merge_components rt cr ?r) = Some page"
    using assms(1) c by (auto simp: parse_def Let_def merge_validation_def split: option.splits if_splits)
  then have r: "pr_document ?r = Some page" "pr_diagnostics (merge_components rt cr ?r) = diagnostics cr @ pr_diagnostics ?r"
    by (auto simp: merge_components_def Let_def split: if_splits)
  have p: "parse rt alnum tokens = merge_validation rt vr (merge_components rt cr ?r)"
    using c m v by (simp add: parse_def)
  then have "\<not> allocation_failed vr" "pr_diagnostics (parse rt alnum tokens) = diagnostics cr @ pr_diagnostics ?r @ diagnostics vr"
    using assms(1) r(2) by (auto simp: merge_validation_def Let_def split: if_splits)
  then have "clean_report vr" "\<not> has_errors (pr_diagnostics ?r)"
    using assms(2) by (auto simp: clean_report_def has_errors_def)
  with r(1) v show thesis
    using that [of expanded "snd (run_state (parse_document rt) (Parser_new expanded))" vr] by simp
qed

text \<open>
  C12: the references that validation checks lead somewhere in a document accepted without errors.
  Among the elements reached by \<open>children\<close> (which leaves out the summaries of [details]): a
  toggle or set button with a target names a panel that has the states it lists, the focus, blur,
  hover and unhover triggers of buttons, inputs and links name a state of a panel, the deferred
  animation of a link is an [animate] element, the source and target of an [on] binding, where
  given, are identifiers of elements, and a binding that sets the state of a panel names one of its
  states. Counted over the same elements, the limits on animations, WebAssembly instances, frames
  and bindings per page hold. The references of \<open>after\<close> and of tweens are not checked by
  the code and not part of this.
\<close>

theorem accepted_document:
  assumes "pr_document (parse rt alnum tokens) = Some page" "\<not> has_errors (pr_diagnostics (parse rt alnum tokens))"
  shows "list_all (resolved (page_children page)) (descendants (page_children page)) \<and> within_limits (page_children page)"
  using parsed_run [OF assms] yields_validate [of rt page] unfolding yields_def by metis

end
