(* ===== verification/Components_Laws.thy ===== *)
theory Components_Laws
  imports Components
begin

text \<open>What expansion guarantees: its output is bounded, and it is the identity without definitions.\<close>

section \<open>The size of the output\<close>

lemma push_length: "length (fst (run_state (try_push rt xs x) r)) \<le> Suc (length xs)"
  by (simp add: try_push_def split: prod.split)

lemma push_clone_length: "length (fst (run_state (push_clone rt xs t) r)) \<le> Suc (length xs)"
  using push_length by (auto simp: push_clone_def split: prod.split)

lemma push_then:
  assumes "\<And>k r. length k \<le> Suc (length xs) \<Longrightarrow> P (fst (run_state (f k) r))"
  shows "P (fst (run_state (push_clone rt xs t \<bind> f) r))"
  using push_clone_length [of rt xs t r] assms by (auto split: prod.split)

lemma extract_loop_length:
  "length (snd (fst (run_state (extract_loop rt defs kept ts) r))) \<le> length kept + length ts"
proof (induction "length ts" arbitrary: rt defs kept ts r rule: less_induct)
  case less
  have pushed: "length (snd (fst (run_state (push_clone rt kept t \<bind> (\<lambda>k. extract_loop rt defs k us)) r)))
      \<le> length kept + length (t # us)" if "ts = t # us" for t us r
  proof (rule push_then)
    fix k :: "Token list" and r'
    assume "length k \<le> Suc (length kept)"
    with less [of us rt defs k r'] that
    show "length (snd (fst (run_state (extract_loop rt defs k us) r'))) \<le> length kept + length (t # us)"
      by simp
  qed
  show ?case
  proof (cases ts)
    case (Cons t us)
    have skip: "length (snd (fst (run_state (extract_loop rt ds kept vs) r'))) \<le> length kept + length ts"
      if "length vs \<le> length us" for ds vs r'
      using less [of vs rt ds kept r'] that Cons by simp
    show ?thesis
    proof (cases t)
      case (OpenTag name attributes self_closing)
      then show ?thesis
        using pushed [OF Cons] skip split_nested_length [of "lit ''def''" 1 us] skip_def_length [of us]
        by (simp add: Cons split: prod.split)
    qed (use pushed [OF Cons] Cons in simp_all)
  qed simp
qed

lemma expand_loop_length:
  "length (fst (run_state (expand_loop rt alnum defs counts n out ts) r))
     \<le> max (length out) MAX_EXPANDED_TOKENS + length ts"
proof (induction "length ts" arbitrary: counts n out ts r rule: less_induct)
  case less
  show ?case
  proof (cases ts)
    case (Cons t us)
    have pushed: "length (fst (run_state (push_clone rt out t \<bind> (\<lambda>k. expand_loop rt alnum defs counts n k us)) r))
        \<le> max (length out) MAX_EXPANDED_TOKENS + length ts"
    proof (rule push_then)
      fix k :: "Token list" and r'
      assume "length k \<le> Suc (length out)"
      with less [of us counts n k r'] Cons
      show "length (fst (run_state (expand_loop rt alnum defs counts n k us) r')) \<le> max (length out) MAX_EXPANDED_TOKENS + length ts"
        by simp
    qed
    have shorter: "length (fst (run_state (expand_loop rt alnum defs c u out2 vs) r'))
        \<le> max (length out) MAX_EXPANDED_TOKENS + length ts"
      if "length vs \<le> length us" "length out2 \<le> max (length out) MAX_EXPANDED_TOKENS" for c u out2 vs r'
      using less [of vs c u out2 r'] that Cons by simp
    show ?thesis
    proof (cases t)
      case (OpenTag name attributes self_closing)
      show ?thesis
      proof (cases "def_index defs name")
        case None
        with OpenTag pushed Cons show ?thesis by simp
      next
        case (Some i)
        then show ?thesis
          using shorter OpenTag Cons after_usage_length
          by (auto simp: error_fmt_def split: prod.split)
      qed
    next
      case (CloseTag name)
      then show ?thesis
        using pushed shorter [of us out] Cons by simp
    qed (use pushed Cons in simp_all)
  qed simp
qed

lemma expand_once_length:
  "length (fst (run_state (expand_usages_once rt alnum defs tokens) r)) \<le> MAX_EXPANDED_TOKENS + length tokens"
  using expand_loop_length [of rt alnum defs _ 0 "[]" tokens r]
  by (auto simp: expand_usages_once_def split: prod.split)

lemma expand_passes_length:
  "length (fst (run_state (expand_passes rt alnum defs k tokens) r)) \<le> max (length tokens) (2 * MAX_EXPANDED_TOKENS)"
proof (induction k arbitrary: tokens r)
  case (Suc k)
  have "length (fst (run_state (expand_usages_once rt alnum defs tokens \<bind> expand_passes rt alnum defs k) r)) \<le> 2 * MAX_EXPANDED_TOKENS"
    if "length tokens \<le> MAX_EXPANDED_TOKENS"
  proof -
    obtain ts r' where ts: "run_state (expand_usages_once rt alnum defs tokens) r = (ts, r')"
      by (metis surj_pair)
    then have "length ts \<le> 2 * MAX_EXPANDED_TOKENS"
      using expand_once_length [of rt alnum defs tokens r] that by simp
    then show ?thesis
      using Suc [of ts r'] ts by simp
  qed
  then show ?case
    by auto
qed simp

text \<open>
  C16: however components multiply each other, the expanded document has at most twice the
  100,000 tokens of the limit, or no more tokens than were given: a pass starts only below the
  limit and copies, beside the usages, each token once.
\<close>

theorem expansion_bounded:
  "length (fst (run_state (expand_components rt alnum tokens) r)) \<le> max (length tokens) (2 * MAX_EXPANDED_TOKENS)"
proof -
  obtain defs kept r' where e: "run_state (extract_definitions rt tokens) r = ((defs, kept), r')"
    by (metis surj_pair)
  then have "length kept \<le> length tokens"
    using extract_loop_length [of rt "[]" "[]" tokens r] by (simp add: extract_definitions_def)
  then show ?thesis
    using e expand_passes_length [of rt alnum defs 4 kept r']
    by (auto simp: expand_components_def expand_usages_def)
qed

section \<open>Documents without definitions\<close>

definition opens_def :: "Token \<Rightarrow> bool" where
  "opens_def t = (case t of OpenTag name _ _ \<Rightarrow> name = lit ''def'' | _ \<Rightarrow> False)"

lemma yields_push_clone: "yields (push_clone rt xs t) (\<lambda>ys. ys = xs @ [t])"
  unfolding push_clone_def by (rule yields_then [OF yields_clone_token]) (simp_all add: yields_push faults_push)

lemma faults_push_clone [fault_intros]: "faults_stay (push_clone rt xs t)"
  unfolding push_clone_def by (intro fault_intros)

lemma faults_def_field [fault_intros]: "faults_stay (def_field rt f a)"
  unfolding def_field_def by (intro fault_intros)

lemma faults_define [fault_intros]: "faults_stay (define_component rt defs f inner)"
  by (auto simp: define_component_def check_def_name_def parse_def_attrs_def def_attr_def push_copy_def
      check_body_token_def intro!: fault_intros split: option.split prod.split Token.split)

lemma faults_warning_msg [fault_intros]: "faults_stay (warning_msg rt code s)"
  by (simp add: warning_msg_def faults_warning_fmt)

lemma faults_error_msg [fault_intros]: "faults_stay (error_msg rt code s)"
  by (simp add: error_msg_def faults_error_fmt)

lemma faults_extract [fault_intros]: "faults_stay (extract_loop rt defs kept ts)"
proof (induction rt defs kept ts rule: extract_loop.induct)
  case (2 rt defs kept t ts)
  then show ?case
    by (cases t) (auto intro!: fault_intros)
qed (simp add: faults_return)

lemma faults_attr_map [fault_intros]: "faults_stay (build_attr_map rt def as)"
  by (auto simp: build_attr_map_def insert_default_def insert_given_def check_given_def
      intro!: fault_intros split: prod.split option.split)

lemma faults_insert_slot [fault_intros]: "faults_stay (insert_slot rt slots name content)"
  unfolding insert_slot_def by (intro fault_intros)

lemma faults_slot_content [fault_intros]: "faults_stay (collect_slot_content rt ts close names)"
  by (auto simp: collect_slot_content_def collect_piece_def intro!: fault_intros split: prod.split list.split piece.split)

lemma faults_append [fault_intros]: "faults_stay (try_append_substitution rt s t)"
  by (auto simp: try_append_substitution_def intro!: fault_intros split: option.split)

lemma faults_append_all [fault_intros]: "faults_stay (append_all rt s ts)"
  by (induction rt s ts rule: append_all.induct) (auto intro!: fault_intros split: prod.split)

lemma faults_substitute [fault_intros]: "faults_stay (substitute_loop rt alnum attrs result s)"
proof (induction rt alnum attrs result s rule: substitute_loop.induct)
  case (1 rt alnum attrs result s)
  show ?case
    by (subst substitute_loop.simps) (auto intro!: fault_intros 1 split: option.split prod.split)
qed

lemma faults_substitute_attr [fault_intros]: "faults_stay (substitute_attr rt alnum attrs a)"
  by (auto simp: substitute_attr_def substitute_attrs_def intro!: fault_intros split: AttributeValue.split)

lemma faults_body [fault_intros]: "faults_stay (expand_body rt alnum attrs slots out body)"
proof (induction rt alnum attrs slots out body rule: expand_body.induct)
  case (2 rt alnum attrs slots out t ts)
  then show ?case
    by (cases t) (auto simp: substitute_attrs_def intro!: fault_intros split: option.split)
qed (simp add: faults_return)

lemma faults_usage [fault_intros]: "faults_stay (expand_usage rt alnum def name as sc ts)"
  unfolding expand_usage_def by (intro fault_intros)

lemma faults_expand_loop [fault_intros]: "faults_stay (expand_loop rt alnum defs counts n out ts)"
proof (induction rt alnum defs counts n out ts rule: expand_loop.induct)
  case (2 rt alnum defs counts n out t ts)
  then show ?case
    by (cases t) (auto intro!: fault_intros split: option.split)
qed (simp add: faults_return)

lemma faults_expand_usages [fault_intros]: "faults_stay (expand_usages rt alnum defs tokens)"
proof -
  have "faults_stay (expand_passes rt alnum defs k ts)" for k ts
    by (induction k arbitrary: ts) (auto simp: expand_usages_once_def intro!: fault_intros)
  then show ?thesis
    by (simp add: expand_usages_def)
qed

lemma yields_extract_nothing:
  "list_all (\<lambda>t. \<not> opens_def t) ts \<Longrightarrow> yields (extract_loop rt defs kept ts) (\<lambda>dk. dk = (defs, kept @ ts))"
proof (induction ts arbitrary: kept)
  case (Cons t ts)
  then have "extract_loop rt defs kept (t # ts) = do { k \<leftarrow> push_clone rt kept t; extract_loop rt defs k ts }"
    by (cases t) (simp_all add: opens_def_def)
  moreover have "yields (extract_loop rt defs (kept @ [t]) ts) (\<lambda>dk. dk = (defs, kept @ t # ts))"
    using Cons.IH [of "kept @ [t]"] Cons.prems by simp
  ultimately show ?case
    by (simp only:) (auto intro!: yields_then [OF yields_push_clone] faults_extract)
qed (simp add: yields_return)

text \<open>
  A document without \<open>[def]\<close> is left as it is, unless an allocation fails.
\<close>

theorem expansion_identity:
  assumes "list_all (\<lambda>t. \<not> opens_def t) tokens" "run_state (expand_components rt alnum tokens) r = (ts, q)"
    "clean_report q"
  shows "ts = tokens"
proof -
  have "yields (expand_components rt alnum tokens) (\<lambda>ts. ts = tokens)"
    unfolding expand_components_def extract_definitions_def
    by (rule yields_then [OF yields_extract_nothing [OF assms(1)]]) (auto intro!: yields_return fault_intros split: prod.split)
  with assms(2,3) show ?thesis
    by (auto simp: yields_def)
qed

end
