(* ===== verification/Parser_Demo.thy ===== *)
theory Parser_Demo
  imports Documents Components_Laws
begin

text \<open>Documents that are parsed: the hypotheses of the properties of the parser hold on them.\<close>

definition sample_document :: "Token list" where
  "sample_document =
     [OpenTag (lit ''page'') [] False, OpenTag (lit ''list'') [] False, OpenTag (lit ''item'') [] False,
      TextToken (lit ''hi''), CloseTag (lit ''item''), CloseTag (lit ''list''), CloseTag (lit ''page''), Eof]"

lemma roomy_reserve [simp]: "n \<le> 1000 \<Longrightarrow> try_reserve roomy_runtime n"
  by (simp add: try_reserve_def isize_max_def)

lemma roomy_size_of [simp]: "size_of roomy_runtime ty = 64"
  by (simp add: roomy_runtime_def)

lemma loop_tokens_step:
  "run_state (loop_tokens rt body a) p =
     (case run_state (do { t \<leftarrow> current_owned rt; body a t }) p of
        ((a', go), q) \<Rightarrow> if go \<and> left q < left p then run_state (loop_tokens rt body a') q else (a', q))"
  unfolding loop_tokens_def by (simp add: token_loop.simps [of rt body a p] split: prod.split)

lemma children_at_numeral:
  "children_at rt (numeral n) = children_loop rt (children_at rt (pred_numeral n))"
  by (simp add: numeral_eq_Suc)

lemmas token_run = loop_tokens_step break_def go_on_def current_owned_def current_def left_def advance_def
  try_clone_token_def try_copy_string_def try_push_def len_utf8_def State_Monad.update_def lit_def

lemmas document_run_simps = token_run skip_text_def skip_text_turn_def
  parse_document_def parse_root_def match_root_def parse_page_def parse_children_def MAX_DEPTH_def
  children_at_numeral children_loop_def children_turn_def check_element_limit_def MAX_ELEMENTS_def
  parse_element_def change_depth_def check_depth_limit_def match_element_def
  check_trailing_def publish_def has_errors_def screen_mode_def keeps_text_def

lemma sample_parsed:
  "\<exists>page q. run_state (parse_document roomy_runtime) (Parser_new sample_document) =
     (\<lparr>pr_document = Some page, pr_diagnostics = [], resource_exhausted = False\<rparr>, q)"
  unfolding Parser_new_def sample_document_def
  by (simp add: document_run_simps some_element_def inside_def require_def parse_list_def parse_item_def with_children_def)

theorem document_bounded_witness:
  "\<exists>page. pr_document (fst (run_state (parse_document roomy_runtime) (Parser_new sample_document))) = Some page \<and>
     list_all (nested_within (MAX_DEPTH + 1)) (page_children page) \<and>
     sum_list (map tagged (page_children page)) \<le> MAX_ELEMENTS \<and>
     sum_list (map nodes (page_children page)) \<le> length sample_document"
proof -
  obtain page where "pr_document (fst (run_state (parse_document roomy_runtime) (Parser_new sample_document))) = Some page"
    using sample_parsed by force
  then show ?thesis
    using document_bounded by blast
qed

theorem clean_document_valid_witness:
  "\<exists>page. pr_document (fst (run_state (parse_document roomy_runtime) (Parser_new sample_document))) = Some page \<and>
     list_all (valid (lit ''page'')) (page_children page)"
proof -
  obtain page q where "run_state (parse_document roomy_runtime) (Parser_new sample_document) =
      (\<lparr>pr_document = Some page, pr_diagnostics = [], resource_exhausted = False\<rparr>, q)"
    using sample_parsed by blast
  from clean_document_valid [OF this] this show ?thesis
    by (simp add: has_errors_def)
qed

section \<open>A panel and a button that sets its state\<close>

definition attr :: "string \<Rightarrow> string \<Rightarrow> Attribute" where
  "attr n v = \<lparr>attr_name = lit n, attr_value = AString (lit v)\<rparr>"

definition panel_document :: "Token list" where
  "panel_document =
     [OpenTag (lit ''page'') [] False,
      OpenTag (lit ''panel'') [attr ''id'' ''p'', attr ''state'' ''a''] False,
      OpenTag (lit ''state'') [attr ''name'' ''a''] True, CloseTag (lit ''panel''),
      OpenTag (lit ''button'') [attr ''action'' ''set'', attr ''target'' ''p'', attr ''to'' ''a''] True,
      CloseTag (lit ''page''), Eof]"

lemmas clone_run = try_clone_attribute_def attr_str_value_def attr_def

lemma panel_expanded:
  "run_state (expand_components roomy_runtime alnum panel_document) empty_report = (panel_document, empty_report)"
  by (simp add: expand_components_def extract_definitions_def panel_document_def push_clone_def clone_run token_run)

lemma panel_parsed:
  "\<exists>page q. run_state (parse_document roomy_runtime) (Parser_new panel_document) =
     (\<lparr>pr_document = Some page, pr_diagnostics = [], resource_exhausted = False\<rparr>, q) \<and>
     run_state (validate_triggers roomy_runtime page) empty_report = ((), empty_report)"
  unfolding Parser_new_def panel_document_def
  by (simp add: document_run_simps some_element_def inside_def require_def with_children_def clone_run
      parse_panel_def panel_attr_def check_states_def check_state_name_def state_of_def names_state_def
      parse_state_def state_attr_def parse_button_def button_attr_def button_default_def parse_triggers_def
      trigger_attr_def no_triggers_def ok_else_def parse_button_action_def parse_keyword_def
      eq_ignore_ascii_case_def to_ascii_lowercase_def
      validate_triggers_def collect_panels_def children_def collect_panel_def insert_state_of_def insert_name_def
      validate_element_triggers_def validate_element_def check_button_target_def report_if_def
      validate_trigger_attrs_def check_trigger_def validate_on_bindings_def collect_element_ids_def
      collect_element_id_def element_id_def collect_on_bindings_def collect_on_binding_def MAX_ON_BINDINGS_def
      compute_cascade_depth_def cascade_depth_def map_filter_def validate_visual_transition_risks_def
      check_panel_risks_def collect_wasm_animation_ids_def check_state_wasm_def validate_animation_limits_def
      MAX_ANIMATE_REGIONS_def MAX_WASM_INSTANCES_def MAX_ANIMATION_FRAMES_def reserves_def List.union_def)

lemma empty_report_simps [simp]: "diagnostics empty_report = []" "\<not> allocation_failed empty_report"
  by (simp_all add: empty_report_def)

lemma panel_accepted:
  "\<exists>page. parse roomy_runtime alnum panel_document =
     \<lparr>pr_document = Some page, pr_diagnostics = [], resource_exhausted = False\<rparr>"
proof -
  obtain page q where "run_state (parse_document roomy_runtime) (Parser_new panel_document) =
      (\<lparr>pr_document = Some page, pr_diagnostics = [], resource_exhausted = False\<rparr>, q)"
    "run_state (validate_triggers roomy_runtime page) empty_report = ((), empty_report)"
    using panel_parsed by blast
  then show ?thesis
    by (simp add: parse_def panel_expanded merge_components_def merge_validation_def reserves_def)
qed

theorem accepted_document_witness:
  "\<exists>page. pr_document (parse roomy_runtime (\<lambda>_. True) panel_document) = Some page \<and>
     list_all (resolved (page_children page)) (descendants (page_children page)) \<and> within_limits (page_children page)"
proof -
  obtain page where "parse roomy_runtime (\<lambda>_. True) panel_document =
      \<lparr>pr_document = Some page, pr_diagnostics = [], resource_exhausted = False\<rparr>"
    using panel_accepted by blast
  then show ?thesis
    using accepted_document [of roomy_runtime "\<lambda>_. True" panel_document page] by (simp add: has_errors_def)
qed

theorem expansion_identity_witness:
  "fst (run_state (expand_components roomy_runtime (\<lambda>_. True) panel_document) empty_report) = panel_document"
proof (rule expansion_identity)
  show "list_all (\<lambda>t. \<not> opens_def t) panel_document"
    by (simp add: panel_document_def opens_def_def lit_def)
  show "run_state (expand_components roomy_runtime (\<lambda>_. True) panel_document) empty_report =
      (fst (run_state (expand_components roomy_runtime (\<lambda>_. True) panel_document) empty_report), empty_report)"
    by (simp add: panel_expanded)
  show "clean_report empty_report"
    by (simp add: clean_report_def has_errors_def)
qed

section \<open>Default content\<close>

text \<open>
  The body of \<open>[def name="c" slots="s"]\<close> that holds \<open>[slot name="s"]d[/slot]\<close>: a caller who
  provides content for the slot gets the default content as well.
\<close>

lemma default_content_kept:
  "fst (run_state (expand_body roomy_runtime alnum [] [(lit ''s'', [TextToken (lit ''g'')])] []
     [OpenTag (lit ''slot'') [attr ''name'' ''s''] False, TextToken (lit ''d''), CloseTag (lit ''slot'')]) r) =
   [TextToken (lit ''g''), TextToken (lit ''d'')]"
  by (simp add: name_attribute_def clone_run token_run push_clone_def substitute_attrs_def
      substitute_loop.simps [where s = "_ # []"] try_append_substitution_def append_substitution_def)

section \<open>A style that is lost\<close>

text \<open>In \<open>[text][text bold]x[/text][/text]\<close> the inner element is absorbed and its style with it.\<close>

lemma nested_style_lost:
  "\<exists>p. run_state (parse_text roomy_runtime (parse_children roomy_runtime) [] False)
     (Parser_new [OpenTag (lit ''text'') [\<lparr>attr_name = lit ''bold'', attr_value = AFlag\<rparr>] False,
        TextToken (lit ''x''), CloseTag (lit ''text''), CloseTag (lit ''text''), Eof]) =
     (TextE (plain_text (lit ''x'')) [], p)"
  unfolding Parser_new_def
  by (simp add: document_run_simps some_element_def clone_run parse_text_def text_attr_def plain_text_def
      text_with_def plain_child_def)

end
