(* ===== verification/Governor.thy ===== *)
theory Governor
  imports Validate Session "HOL-Library.Multiset"
begin

text \<open>
  \<open>resource.rs\<close> of the client: the budget shared by everything a remote page makes the client
  allocate. The governor's state is its \<open>Usage\<close>, behind a lock, so each operation is one step; a
  lease is the receipt of a reservation, given back when its owner is dropped. The amounts are
  naturals: all are bounded by the limits, far below \<open>usize::MAX\<close>.
\<close>

section \<open>Categories\<close>

datatype ResourceCategory = AstStrings | SceneCells | CompositorCells | ResourceCache | PendingUpdates
  | History | Wasm | AnimationRegions | AuthoredFrames | RemoteCollections | Sessions

definition MAX_SCENE_CELLS :: nat where "MAX_SCENE_CELLS = 1048576"
definition MAX_REMOTE_MEMORY :: nat where "MAX_REMOTE_MEMORY = 128 * 1024 * 1024"
definition MAX_WASM_GUEST_BYTES :: nat where "MAX_WASM_GUEST_BYTES = 4 * 1024 * 1024"
definition MAX_WASM_GUESTS :: nat where "MAX_WASM_GUESTS = MAX_WASM_INSTANCES * 2"
definition MAX_WASM_BYTES :: nat where "MAX_WASM_BYTES = 64 * 1024 * 1024"

definition MAX_SESSION_CANDIDATE_BYTES :: "runtime \<Rightarrow> nat" where
  "MAX_SESSION_CANDIDATE_BYTES rt =
     MAX_TOTAL_SESSIONS * (size_of rt ''(Origin, SiteSessionStore)'' + MAX_URI_LEN +
       MAX_SESSIONS_PER_SITE * size_of rt ''SessionToken'' + MAX_TOKEN_LEN + MAX_SCOPE_LEN) +
     MAX_TOKEN_LEN + MAX_SCOPE_LEN + MAX_URI_LEN"

fun byte_limit :: "runtime \<Rightarrow> ResourceCategory \<Rightarrow> nat" where
  "byte_limit rt SceneCells = MAX_SCENE_CELLS"
| "byte_limit rt ResourceCache = 8 * 1024 * 1024"
| "byte_limit rt PendingUpdates = 8 * 1024 * 1024"
| "byte_limit rt History = 16 * 1024 * 1024"
| "byte_limit rt Wasm = MAX_WASM_BYTES"
| "byte_limit rt AnimationRegions = 1024"
| "byte_limit rt AuthoredFrames = 256"
| "byte_limit rt AstStrings = MAX_REMOTE_MEMORY"
| "byte_limit rt CompositorCells = MAX_REMOTE_MEMORY"
| "byte_limit rt RemoteCollections = MAX_REMOTE_MEMORY"
| "byte_limit rt Sessions = MAX_SESSION_CANDIDATE_BYTES rt * 2"

fun owner_limit :: "ResourceCategory \<Rightarrow> nat option" where
  "owner_limit Wasm = Some MAX_WASM_GUEST_BYTES"
| "owner_limit _ = None"

fun count_limit :: "ResourceCategory \<Rightarrow> nat option" where
  "count_limit ResourceCache = Some 32"
| "count_limit PendingUpdates = Some 64"
| "count_limit History = Some 128"
| "count_limit Wasm = Some MAX_WASM_GUESTS"
| "count_limit _ = None"

datatype BudgetError =
    CategoryExhausted ResourceCategory nat nat
  | AggregateExhausted nat nat
  | OwnerTooLarge ResourceCategory nat nat
  | CountExhausted ResourceCategory nat

section \<open>State and operations\<close>

record Usage =
  usage_bytes :: nat
  usage_categories :: "ResourceCategory \<Rightarrow> nat"
  usage_counts :: "ResourceCategory \<Rightarrow> nat"

record BudgetLease =
  lease_category :: ResourceCategory
  lease_amount :: nat
  lease_byte_cost :: nat

definition governor_new :: Usage where
  "governor_new = \<lparr>usage_bytes = 0, usage_categories = (\<lambda>_. 0), usage_counts = (\<lambda>_. 0)\<rparr>"

definition exceeds :: "nat \<Rightarrow> nat option \<Rightarrow> bool" where
  "exceeds n limit \<longleftrightarrow> (case limit of Some m \<Rightarrow> n > m | None \<Rightarrow> False)"

definition reserve_with_cost ::
  "runtime \<Rightarrow> ResourceCategory \<Rightarrow> nat \<Rightarrow> nat \<Rightarrow> Usage \<Rightarrow> (BudgetError, BudgetLease \<times> Usage) result" where
  "reserve_with_cost rt category amount byte_cost u =
     (if exceeds amount (owner_limit category)
      then Inl (OwnerTooLarge category amount (the (owner_limit category)))
      else if exceeds (usage_counts u category + 1) (count_limit category)
      then Inl (CountExhausted category (the (count_limit category)))
      else let current = usage_categories u category; available = byte_limit rt category - current
           in if amount > available then Inl (CategoryExhausted category amount available)
              else let aggregate_available = MAX_REMOTE_MEMORY - usage_bytes u
                   in if byte_cost > aggregate_available then Inl (AggregateExhausted byte_cost aggregate_available)
                      else Inr (\<lparr>lease_category = category, lease_amount = amount, lease_byte_cost = byte_cost\<rparr>,
                        u\<lparr>usage_categories := (usage_categories u)(category := current + amount),
                          usage_counts := (usage_counts u)(category := usage_counts u category + 1),
                          usage_bytes := usage_bytes u + byte_cost\<rparr>))"

definition governor_reserve :: "runtime \<Rightarrow> ResourceCategory \<Rightarrow> nat \<Rightarrow> Usage \<Rightarrow> (BudgetError, BudgetLease \<times> Usage) result" where
  "governor_reserve rt category amount u = reserve_with_cost rt category amount amount u"

definition try_resize_with_cost ::
  "runtime \<Rightarrow> nat \<Rightarrow> nat \<Rightarrow> BudgetLease \<Rightarrow> Usage \<Rightarrow> (BudgetError, BudgetLease \<times> Usage) result" where
  "try_resize_with_cost rt new_amount new_byte_cost l u =
     (let category = lease_category l in
      if exceeds new_amount (owner_limit category)
      then Inl (OwnerTooLarge category new_amount (the (owner_limit category)))
      else let without_self = usage_categories u category - lease_amount l;
               available = byte_limit rt category - without_self
           in if new_amount > available then Inl (CategoryExhausted category new_amount available)
              else let aggregate_without_self = usage_bytes u - lease_byte_cost l;
                       aggregate_available = MAX_REMOTE_MEMORY - aggregate_without_self
                   in if new_byte_cost > aggregate_available
                      then Inl (AggregateExhausted new_byte_cost aggregate_available)
                      else Inr (l\<lparr>lease_amount := new_amount, lease_byte_cost := new_byte_cost\<rparr>,
                        u\<lparr>usage_categories := (usage_categories u)(category := without_self + new_amount),
                          usage_bytes := aggregate_without_self + new_byte_cost\<rparr>))"

text \<open>\<open>try_grow rt\<close> asserts that the lease charges bytes for bytes; \<open>None\<close> is the panic.\<close>

definition try_grow ::
  "runtime \<Rightarrow> nat \<Rightarrow> BudgetLease \<Rightarrow> Usage \<Rightarrow> (BudgetError, BudgetLease \<times> Usage) result option" where
  "try_grow rt new_amount l u =
     (if new_amount \<le> lease_amount l then Some (Inr (l, u))
      else if lease_amount l \<noteq> lease_byte_cost l then None
      else Some (try_resize_with_cost rt new_amount new_amount l u))"

definition governor_shrink_to :: "runtime \<Rightarrow> nat \<Rightarrow> BudgetLease \<Rightarrow> Usage \<Rightarrow> BudgetLease \<times> Usage" where
  "governor_shrink_to rt new_amount l u =
     (let n = min new_amount (lease_amount l)
      in case try_resize_with_cost rt n n l u of Inr r \<Rightarrow> r | Inl _ \<Rightarrow> (l, u))"

definition governor_drop :: "BudgetLease \<Rightarrow> Usage \<Rightarrow> Usage" where
  "governor_drop l u =
     u\<lparr>usage_categories := (usage_categories u)(lease_category l := usage_categories u (lease_category l) - lease_amount l),
       usage_counts := (usage_counts u)(lease_category l := usage_counts u (lease_category l) - 1),
       usage_bytes := usage_bytes u - lease_byte_cost l\<rparr>"

section \<open>The accounting is exact\<close>

text \<open>
  The specification is the collection of the leases alive: the usage is what they add up to, and
  stays within every limit.
\<close>

definition in_category :: "ResourceCategory \<Rightarrow> BudgetLease multiset \<Rightarrow> BudgetLease multiset" where
  "in_category c ls = filter_mset (\<lambda>l. lease_category l = c) ls"

definition accounts :: "BudgetLease multiset \<Rightarrow> Usage" where
  "accounts ls = \<lparr>usage_bytes = sum_mset (image_mset lease_byte_cost ls),
     usage_categories = (\<lambda>c. sum_mset (image_mset lease_amount (in_category c ls))),
     usage_counts = (\<lambda>c. size (in_category c ls))\<rparr>"

definition within_budget :: "runtime \<Rightarrow> BudgetLease multiset \<Rightarrow> bool" where
  "within_budget rt ls \<longleftrightarrow>
     sum_mset (image_mset lease_byte_cost ls) \<le> MAX_REMOTE_MEMORY \<and>
     (\<forall>c. sum_mset (image_mset lease_amount (in_category c ls)) \<le> byte_limit rt c) \<and>
     (\<forall>c. \<not> exceeds (size (in_category c ls)) (count_limit c)) \<and>
     (\<forall>l \<in># ls. \<not> exceeds (lease_amount l) (owner_limit (lease_category l)))"

text \<open>One step of any owner: a reservation, a resize, a drop. A refusal changes nothing.\<close>

inductive governor_step ::
  "runtime \<Rightarrow> BudgetLease multiset \<times> Usage \<Rightarrow> BudgetLease multiset \<times> Usage \<Rightarrow> bool" for rt where
  reserves: "reserve_with_cost rt c n b u = Inr (l, u') \<Longrightarrow> governor_step rt (ls, u) (add_mset l ls, u')"
| resizes: "l \<in># ls \<Longrightarrow> try_resize_with_cost rt n b l u = Inr (l', u') \<Longrightarrow>
    governor_step rt (ls, u) (add_mset l' (ls - {#l#}), u')"
| shrinks: "l \<in># ls \<Longrightarrow> governor_shrink_to rt n l u = (l', u') \<Longrightarrow> governor_step rt (ls, u) (add_mset l' (ls - {#l#}), u')"
| drops: "l \<in># ls \<Longrightarrow> governor_step rt (ls, u) (ls - {#l#}, governor_drop l u)"

lemma in_category_add [simp]:
  "in_category c (add_mset l ls) = (if lease_category l = c then add_mset l (in_category c ls) else in_category c ls)"
  by (simp add: in_category_def)

lemma accounts_add:
  "accounts (add_mset l ls) = (accounts ls)
     \<lparr>usage_bytes := usage_bytes (accounts ls) + lease_byte_cost l,
      usage_categories := (usage_categories (accounts ls))
        (lease_category l := usage_categories (accounts ls) (lease_category l) + lease_amount l),
      usage_counts := (usage_counts (accounts ls))(lease_category l := usage_counts (accounts ls) (lease_category l) + 1)\<rparr>"
  by (auto simp: accounts_def fun_eq_iff)

lemma within_budgetI:
  assumes "sum_mset (image_mset lease_byte_cost ls) \<le> MAX_REMOTE_MEMORY"
    and "\<And>c. sum_mset (image_mset lease_amount (in_category c ls)) \<le> byte_limit rt c"
    and "\<And>c. \<not> exceeds (size (in_category c ls)) (count_limit c)"
    and "\<And>l. l \<in># ls \<Longrightarrow> \<not> exceeds (lease_amount l) (owner_limit (lease_category l))"
  shows "within_budget rt ls"
  using assms by (simp add: within_budget_def)

lemma within_budgetD:
  assumes "within_budget rt ls"
  shows "sum_mset (image_mset lease_byte_cost ls) \<le> MAX_REMOTE_MEMORY"
    and "sum_mset (image_mset lease_amount (in_category c ls)) \<le> byte_limit rt c"
    and "\<not> exceeds (size (in_category c ls)) (count_limit c)"
    and "l \<in># ls \<Longrightarrow> \<not> exceeds (lease_amount l) (owner_limit (lease_category l))"
  using assms by (simp_all add: within_budget_def)

lemma within_budget_less:
  assumes "within_budget rt (add_mset l ls)"
  shows "within_budget rt ls"
proof (rule within_budgetI)
  fix c
  show "sum_mset (image_mset lease_amount (in_category c ls)) \<le> byte_limit rt c"
    using within_budgetD(2)[OF assms, of c] by (simp split: if_splits)
  show "\<not> exceeds (size (in_category c ls)) (count_limit c)"
    using within_budgetD(3)[OF assms, of c] by (auto simp: exceeds_def split: if_splits option.splits)
qed (use within_budgetD(1,4)[OF assms] in auto)

lemma reservation_accounts:
  assumes "reserve_with_cost rt c n b (accounts ls) = Inr (l, u')" "within_budget rt ls"
  shows "u' = accounts (add_mset l ls)" "within_budget rt (add_mset l ls)"
proof -
  have l: "l = \<lparr>lease_category = c, lease_amount = n, lease_byte_cost = b\<rparr>"
    using assms(1) by (auto simp: reserve_with_cost_def Let_def split: if_splits)
  have ok: "\<not> exceeds n (owner_limit c)" "\<not> exceeds (usage_counts (accounts ls) c + 1) (count_limit c)"
    "n \<le> byte_limit rt c - usage_categories (accounts ls) c" "b \<le> MAX_REMOTE_MEMORY - usage_bytes (accounts ls)"
    using assms(1) by (auto simp: reserve_with_cost_def Let_def split: if_splits)
  show "u' = accounts (add_mset l ls)"
    using assms(1) by (auto simp: accounts_add reserve_with_cost_def Let_def split: if_splits)
  show "within_budget rt (add_mset l ls)"
  proof (rule within_budgetI)
    fix c'
    show "sum_mset (image_mset lease_amount (in_category c' (add_mset l ls))) \<le> byte_limit rt c'"
      using within_budgetD(2)[OF assms(2), of c'] ok by (auto simp: l accounts_def)
    show "\<not> exceeds (size (in_category c' (add_mset l ls))) (count_limit c')"
      using within_budgetD(3)[OF assms(2), of c'] ok by (auto simp: l accounts_def)
  qed (use within_budgetD(1,4)[OF assms(2)] ok in \<open>auto simp: l accounts_def\<close>)
qed

lemma resize_accounts:
  assumes "try_resize_with_cost rt n b l (accounts (add_mset l ls)) = Inr (l', u')"
    and "within_budget rt (add_mset l ls)"
  shows "u' = accounts (add_mset l' ls)" "within_budget rt (add_mset l' ls)"
proof -
  let ?c = "lease_category l"
  have l': "l' = l\<lparr>lease_amount := n, lease_byte_cost := b\<rparr>"
    using assms(1) by (auto simp: try_resize_with_cost_def Let_def split: if_splits)
  have self: "usage_categories (accounts (add_mset l ls)) ?c - lease_amount l = usage_categories (accounts ls) ?c"
    "usage_bytes (accounts (add_mset l ls)) - lease_byte_cost l = usage_bytes (accounts ls)"
    by (simp_all add: accounts_add)
  have ok: "\<not> exceeds n (owner_limit ?c)" "n \<le> byte_limit rt ?c - usage_categories (accounts ls) ?c"
    "b \<le> MAX_REMOTE_MEMORY - usage_bytes (accounts ls)"
    using assms(1) by (auto simp: try_resize_with_cost_def Let_def self split: if_splits)
  show "u' = accounts (add_mset l' ls)"
    using assms(1) by (auto simp: accounts_add l' try_resize_with_cost_def Let_def fun_eq_iff split: if_splits)
  note less = within_budget_less[OF assms(2)]
  show "within_budget rt (add_mset l' ls)"
  proof (rule within_budgetI)
    fix c'
    show "sum_mset (image_mset lease_amount (in_category c' (add_mset l' ls))) \<le> byte_limit rt c'"
      using within_budgetD(2)[OF less, of c'] ok by (auto simp: l' accounts_def)
    show "\<not> exceeds (size (in_category c' (add_mset l' ls))) (count_limit c')"
      using within_budgetD(3)[OF assms(2), of c'] by (auto simp: l')
  qed (use within_budgetD(1,4)[OF less] ok in \<open>auto simp: l' accounts_def\<close>)
qed

lemma governor_drop_accounts: "governor_drop l (accounts (add_mset l ls)) = accounts ls"
  by (simp add: accounts_add governor_drop_def fun_upd_idem)

text \<open>A shrinking resize is never refused, so \<open>governor_shrink_to rt\<close> loses nothing by ignoring the answer.\<close>

lemma shrink_succeeds:
  assumes "within_budget rt (add_mset l ls)" "n \<le> lease_amount l" "b \<le> lease_byte_cost l"
  shows "\<exists>r. try_resize_with_cost rt n b l (accounts (add_mset l ls)) = Inr r"
proof -
  have "\<not> exceeds n (owner_limit (lease_category l))"
    using assms(2) within_budgetD(4)[OF assms(1), of l] by (auto simp: exceeds_def split: option.splits)
  moreover have "n + sum_mset (image_mset lease_amount (in_category (lease_category l) ls)) \<le> byte_limit rt (lease_category l)"
    using assms(2) within_budgetD(2)[OF assms(1), of "lease_category l"] by simp
  moreover have "b + sum_mset (image_mset lease_byte_cost ls) \<le> MAX_REMOTE_MEMORY"
    using assms(3) within_budgetD(1)[OF assms(1)] by simp
  ultimately show ?thesis
    by (auto simp: try_resize_with_cost_def accounts_add Let_def accounts_def)
qed

lemma governor_step_exact:
  assumes "governor_step rt (ls, u) (ls', u')" "u = accounts ls" "within_budget rt ls"
  shows "u' = accounts ls' \<and> within_budget rt ls'"
  using assms(1)
proof cases
  case (reserves c n b l)
  then show ?thesis
    using reservation_accounts assms by blast
next
  case (resizes l n b l')
  then have "ls = add_mset l (ls - {#l#})"
    by simp
  with resizes show ?thesis
    using resize_accounts[of rt n b l "ls - {#l#}" l' u'] assms by simp
next
  case (shrinks l n l')
  then have ls: "ls = add_mset l (ls - {#l#})"
    by simp
  show ?thesis
  proof (cases "try_resize_with_cost rt (min n (lease_amount l)) (min n (lease_amount l)) l u")
    case (Inl e)
    with shrinks ls assms show ?thesis
      by (simp add: governor_shrink_to_def)
  next
    case (Inr r)
    with shrinks have "try_resize_with_cost rt (min n (lease_amount l)) (min n (lease_amount l)) l
        (accounts (add_mset l (ls - {#l#}))) = Inr (l', u')"
      using ls assms by (simp add: governor_shrink_to_def)
    from resize_accounts[OF this] shrinks ls assms show ?thesis
      by simp
  qed
next
  case (drops l)
  then have ls: "ls = add_mset l (ls - {#l#})"
    by simp
  with drops show ?thesis
    using governor_drop_accounts[of l "ls - {#l#}"] within_budget_less[of rt l "ls - {#l#}"] assms by simp
qed

lemma governor_run_exact:
  assumes "(governor_step rt)\<^sup>*\<^sup>* ({#}, governor_new) (ls, u)"
  shows "u = accounts ls \<and> within_budget rt ls"
  using assms
proof (induction "({#} :: BudgetLease multiset, governor_new)" "(ls, u)" arbitrary: ls u rule: rtranclp.induct)
  case rtrancl_refl
  then show ?case
    by (auto simp: accounts_def governor_new_def within_budget_def in_category_def exceeds_def split: option.splits)
next
  case (rtrancl_into_rtrancl b)
  then show ?case
    using governor_step_exact by (cases b) blast
qed

end
