(* ===== verification/Cells.thy ===== *)
theory Cells
  imports Governor Ast
begin

text \<open>
  \<open>compositor/layout/rect.rs\<close> and \<open>compositor/layout/cell.rs\<close>: rectangles of cells and the grid of
  styled cells between layout and terminal. Coordinates are natural numbers with the bound of
  \<open>u16\<close> written out. The crates that split a string into graphemes and measure them are the
  parameters \<open>graphemes\<close> and \<open>width\<close>. A buffer of a remote page holds a lease of a category on the
  resource governor, whose answer to a reservation of units and bytes is the parameter \<open>admit\<close>;
  \<open>Governor\<close> models the governor itself.
\<close>

type_synonym admission = "ResourceCategory \<Rightarrow> nat \<Rightarrow> nat \<Rightarrow> bool"

section \<open>Rectangles\<close>

definition saturating_add16 :: "nat \<Rightarrow> nat \<Rightarrow> nat" where
  "saturating_add16 a b = min (a + b) u16_max"

record Rect =
  rect_x :: nat
  rect_y :: nat
  rect_w :: nat
  rect_h :: nat

definition rect_is_empty :: "Rect \<Rightarrow> bool" where
  "rect_is_empty r \<longleftrightarrow> rect_w r = 0 \<or> rect_h r = 0"

definition rect_right :: "Rect \<Rightarrow> nat" where
  "rect_right r = saturating_add16 (rect_x r) (rect_w r)"

definition rect_bottom :: "Rect \<Rightarrow> nat" where
  "rect_bottom r = saturating_add16 (rect_y r) (rect_h r)"

definition rect_union :: "Rect \<Rightarrow> Rect \<Rightarrow> Rect" where
  "rect_union a b =
     (if rect_is_empty a then b
      else if rect_is_empty b then a
      else let x = min (rect_x a) (rect_x b); y = min (rect_y a) (rect_y b);
               right = max (rect_right a) (rect_right b); bottom = max (rect_bottom a) (rect_bottom b)
           in \<lparr>rect_x = x, rect_y = y, rect_w = right - x, rect_h = bottom - y\<rparr>)"

definition rect_intersect :: "Rect \<Rightarrow> Rect \<Rightarrow> Rect option" where
  "rect_intersect a b =
     (if rect_is_empty a \<or> rect_is_empty b then None
      else let x = max (rect_x a) (rect_x b); y = max (rect_y a) (rect_y b);
               right = min (rect_right a) (rect_right b); bottom = min (rect_bottom a) (rect_bottom b)
           in if right \<le> x \<or> bottom \<le> y then None
              else Some \<lparr>rect_x = x, rect_y = y, rect_w = right - x, rect_h = bottom - y\<rparr>)"

definition clamp16 :: "int \<Rightarrow> nat" where
  "clamp16 i = nat (min (max i 0) (int u16_max))"

definition rect_translate :: "int \<Rightarrow> int \<Rightarrow> Rect \<Rightarrow> Rect" where
  "rect_translate dx dy r = r\<lparr>rect_x := clamp16 (int (rect_x r) + dx), rect_y := clamp16 (int (rect_y r) + dy)\<rparr>"

definition contains_point :: "Rect \<Rightarrow> nat \<Rightarrow> nat \<Rightarrow> bool" where
  "contains_point r x y \<longleftrightarrow> \<not> rect_is_empty r \<and> rect_x r \<le> x \<and> x < rect_right r \<and> rect_y r \<le> y \<and> y < rect_bottom r"

section \<open>Cells\<close>

definition MAX_BUFFER_CELLS :: nat where "MAX_BUFFER_CELLS = 1048576"

record CellStyle =
  style_fg :: "ResolvedColor option"
  style_bg :: "ResolvedColor option"
  style_bold :: bool
  style_italic :: bool
  style_underline :: bool
  style_strikethrough :: bool
  style_dim :: bool
  style_blink :: bool

definition default_style :: CellStyle where
  "default_style = \<lparr>style_fg = None, style_bg = None, style_bold = False, style_italic = False,
     style_underline = False, style_strikethrough = False, style_dim = False, style_blink = False\<rparr>"

record Cell =
  cell_ch :: uchar
  cell_grapheme :: "ustr option"
  cell_style :: CellStyle

definition Cell_new :: "uchar \<Rightarrow> CellStyle \<Rightarrow> Cell" where
  "Cell_new c style = \<lparr>cell_ch = c, cell_grapheme = None, cell_style = style\<rparr>"

definition Cell_empty :: Cell where
  "Cell_empty = Cell_new (uc CHR '' '') default_style"

definition glyph :: "Cell \<Rightarrow> ustr" where
  "glyph c = (case cell_grapheme c of Some g \<Rightarrow> g | None \<Rightarrow> [cell_ch c])"

definition is_transparent :: "Cell \<Rightarrow> bool" where
  "is_transparent c \<longleftrightarrow> cell_ch c = uc CHR '' '' \<and> style_bg (cell_style c) = None \<and>
     \<not> style_underline (cell_style c) \<and> \<not> style_strikethrough (cell_style c)"

section \<open>Buffers\<close>

record CellBuffer =
  buf_width :: nat
  buf_height :: nat
  buf_cells :: "Cell list"
  buf_failed :: bool
  buf_lease :: "ResourceCategory option"

definition checked_size :: "nat \<Rightarrow> nat \<Rightarrow> nat option" where
  "checked_size w h =
     (if w > MAX_LAYOUT_COLUMNS \<or> h > MAX_LAYOUT_ROWS then None
      else if w * h > MAX_BUFFER_CELLS then None
      else Some (w * h))"

definition filled_buffer :: "runtime \<Rightarrow> Cell \<Rightarrow> nat \<Rightarrow> nat \<Rightarrow> CellBuffer option" where
  "filled_buffer rt c w h =
     (case checked_size w h of
        None \<Rightarrow> None
      | Some n \<Rightarrow>
          if try_reserve rt (n * size_of rt ''Cell'')
          then Some \<lparr>buf_width = w, buf_height = h, buf_cells = replicate n c, buf_failed = False, buf_lease = None\<rparr>
          else None)"

definition buffer_new :: "runtime \<Rightarrow> nat \<Rightarrow> nat \<Rightarrow> CellBuffer option" where
  "buffer_new rt w h = filled_buffer rt Cell_empty w h"

definition buffer_new_opaque :: "runtime \<Rightarrow> nat \<Rightarrow> nat \<Rightarrow> CellBuffer option" where
  "buffer_new_opaque rt w h =
     filled_buffer rt (Cell_new (uc CHR '' '') (default_style\<lparr>style_bg := Some (RRgb 0 0 0)\<rparr>)) w h"

definition governed_amount :: "ResourceCategory \<Rightarrow> nat \<Rightarrow> nat \<Rightarrow> nat" where
  "governed_amount category cells bytes = (if category = SceneCells then cells else bytes)"

text \<open>The reservation comes first, then the allocation; the buffer keeps the lease.\<close>

definition governed_buffer ::
  "runtime \<Rightarrow> admission \<Rightarrow> ResourceCategory \<Rightarrow> nat \<Rightarrow> nat \<Rightarrow> CellBuffer option \<Rightarrow> CellBuffer option" where
  "governed_buffer rt admit category w h b =
     (case checked_size w h of
        None \<Rightarrow> None
      | Some n \<Rightarrow>
          let bytes = n * size_of rt ''Cell''
          in if bytes > usize_max \<or> \<not> admit category (governed_amount category n bytes) bytes then None
             else map_option (\<lambda>b. b\<lparr>buf_lease := Some category\<rparr>) b)"

definition buffer_new_governed ::
  "runtime \<Rightarrow> admission \<Rightarrow> ResourceCategory \<Rightarrow> nat \<Rightarrow> nat \<Rightarrow> CellBuffer option" where
  "buffer_new_governed rt admit category w h = governed_buffer rt admit category w h (buffer_new rt w h)"

definition buffer_new_opaque_governed ::
  "runtime \<Rightarrow> admission \<Rightarrow> ResourceCategory \<Rightarrow> nat \<Rightarrow> nat \<Rightarrow> CellBuffer option" where
  "buffer_new_opaque_governed rt admit category w h =
     governed_buffer rt admit category w h (buffer_new_opaque rt w h)"

definition copy_cells :: "CellBuffer \<Rightarrow> CellBuffer \<Rightarrow> CellBuffer" where
  "copy_cells b r = r\<lparr>buf_cells := buf_cells b, buf_failed := buf_failed b\<rparr>"

definition buffer_clone_governed ::
  "runtime \<Rightarrow> admission \<Rightarrow> ResourceCategory \<Rightarrow> CellBuffer \<Rightarrow> CellBuffer option" where
  "buffer_clone_governed rt admit category b =
     map_option (copy_cells b) (buffer_new_governed rt admit category (buf_width b) (buf_height b))"

definition buffer_clone :: "runtime \<Rightarrow> CellBuffer \<Rightarrow> CellBuffer option" where
  "buffer_clone rt b = map_option (copy_cells b) (buffer_new rt (buf_width b) (buf_height b))"

definition clear_transparent :: "CellBuffer \<Rightarrow> CellBuffer" where
  "clear_transparent b = b\<lparr>buf_cells := replicate (length (buf_cells b)) Cell_empty\<rparr>"

definition cell_index :: "CellBuffer \<Rightarrow> nat \<Rightarrow> nat \<Rightarrow> nat option" where
  "cell_index b x y =
     (if x \<ge> buf_width b \<or> y \<ge> buf_height b then None
      else if y * buf_width b + x < length (buf_cells b) then Some (y * buf_width b + x) else None)"

definition cell_get :: "CellBuffer \<Rightarrow> nat \<Rightarrow> nat \<Rightarrow> Cell option" where
  "cell_get b x y = map_option (\<lambda>i. buf_cells b ! i) (cell_index b x y)"

definition cell_set :: "nat \<Rightarrow> nat \<Rightarrow> Cell \<Rightarrow> CellBuffer \<Rightarrow> CellBuffer" where
  "cell_set x y c b = (case cell_index b x y of Some i \<Rightarrow> b\<lparr>buf_cells := (buf_cells b)[i := c]\<rparr> | None \<Rightarrow> b)"

definition put_char :: "nat \<Rightarrow> nat \<Rightarrow> uchar \<Rightarrow> CellStyle \<Rightarrow> CellBuffer \<Rightarrow> CellBuffer" where
  "put_char x y c style b = cell_set x y (Cell_new c style) b"

definition put_grapheme ::
  "runtime \<Rightarrow> admission \<Rightarrow> nat \<Rightarrow> nat \<Rightarrow> ustr \<Rightarrow> CellStyle \<Rightarrow> CellBuffer \<Rightarrow> bool \<times> CellBuffer" where
  "put_grapheme rt admit x y g style b =
     (if x \<ge> buf_width b \<or> y \<ge> buf_height b then (False, b)
      else case g of
        [] \<Rightarrow> (False, b)
      | c # _ \<Rightarrow>
          if length g > 1 then
            if (buf_lease b = None \<or> admit RemoteCollections (len g) (len g)) \<and> try_reserve rt (len g)
            then (True, cell_set x y \<lparr>cell_ch = c, cell_grapheme = Some g, cell_style = style\<rparr> b)
            else (False, b\<lparr>buf_failed := True\<rparr>)
          else (True, cell_set x y (Cell_new c style) b))"

definition to_u16 :: "nat \<Rightarrow> nat" where
  "to_u16 n = n mod 65536"

fun put_graphemes ::
  "runtime \<Rightarrow> admission \<Rightarrow> (ustr \<Rightarrow> nat) \<Rightarrow> nat \<Rightarrow> ustr list \<Rightarrow> CellStyle \<Rightarrow> nat \<Rightarrow> CellBuffer \<Rightarrow> nat \<times> CellBuffer" where
  "put_graphemes rt admit width y [] style col b = (col, b)"
| "put_graphemes rt admit width y (g # gs) style col b =
     (let w = to_u16 (width g)
      in if w = 0 then put_graphemes rt admit width y gs style col b
         else if saturating_add16 col w > buf_width b then (col, b)
         else (case put_grapheme rt admit col y g style b of
             (False, b) \<Rightarrow> (col, b)
           | (True, b) \<Rightarrow>
               put_graphemes rt admit width y gs style (saturating_add16 col w)
                 (if w = 2 then put_char (saturating_add16 col 1) y 0 style b else b)))"

definition put_str ::
  "runtime \<Rightarrow> admission \<Rightarrow> (ustr \<Rightarrow> ustr list) \<Rightarrow> (ustr \<Rightarrow> nat) \<Rightarrow> nat \<Rightarrow> nat \<Rightarrow> ustr \<Rightarrow> CellStyle \<Rightarrow>
   CellBuffer \<Rightarrow> nat \<times> CellBuffer" where
  "put_str rt admit graphemes width x y s style b =
     (case put_graphemes rt admit width y (graphemes s) style x b of (col, b) \<Rightarrow> (col - x, b))"

definition fill_rect :: "nat \<Rightarrow> nat \<Rightarrow> nat \<Rightarrow> nat \<Rightarrow> uchar \<Rightarrow> CellStyle \<Rightarrow> CellBuffer \<Rightarrow> CellBuffer" where
  "fill_rect x y w h c style b =
     (let x_end = min (saturating_add16 x w) (buf_width b); y_end = min (saturating_add16 y h) (buf_height b);
          x_start = min x (buf_width b); y_start = min y (buf_height b)
      in fold (\<lambda>row. fold (\<lambda>col. put_char col row c style) [x_start..<x_end]) [y_start..<y_end] b)"

text \<open>
  A resize builds a new buffer and copies what both sizes share; the new buffer starts without the
  flag of a failed allocation. While both are alive the lease is charged for both.
\<close>

definition admits_resize :: "runtime \<Rightarrow> admission \<Rightarrow> nat \<Rightarrow> CellBuffer \<Rightarrow> bool" where
  "admits_resize rt admit new_cells b =
     (case buf_lease b of
        None \<Rightarrow> True
      | Some category \<Rightarrow>
          let cell = size_of rt ''Cell''; old_cells = length (buf_cells b)
          in admit category
               (saturating_add (governed_amount category old_cells (old_cells * cell))
                 (governed_amount category new_cells (new_cells * cell)))
               (saturating_add (old_cells * cell) (new_cells * cell)))"

definition resize_preserving :: "runtime \<Rightarrow> admission \<Rightarrow> nat \<Rightarrow> nat \<Rightarrow> CellBuffer \<Rightarrow> CellBuffer option" where
  "resize_preserving rt admit w h b =
     (if w = buf_width b \<and> h = buf_height b then Some b
      else case checked_size w h of
        None \<Rightarrow> None
      | Some n \<Rightarrow>
          if n * size_of rt ''Cell'' > usize_max \<or> \<not> admits_resize rt admit n b then None
          else case buffer_new rt w h of
            None \<Rightarrow> None
          | Some r \<Rightarrow>
              let r = fold (\<lambda>y. fold (\<lambda>x r. case cell_get b x y of Some c \<Rightarrow> cell_set x y c r | None \<Rightarrow> r)
                    [0..<min (buf_width b) w]) [0..<min (buf_height b) h] r
              in Some (r\<lparr>buf_lease := buf_lease b\<rparr>))"

definition ensure_height :: "runtime \<Rightarrow> admission \<Rightarrow> nat \<Rightarrow> CellBuffer \<Rightarrow> CellBuffer" where
  "ensure_height rt admit min_height b =
     (let cell_limited = (if buf_width b = 0 then 0 else min (MAX_BUFFER_CELLS div buf_width b) u16_max);
          h = min (min min_height MAX_LAYOUT_ROWS) cell_limited;
          new_cells = (h - buf_height b) * buf_width b
      in if h > buf_height b then
           if buf_lease b \<noteq> None then
             (case resize_preserving rt admit (buf_width b) h b of
                None \<Rightarrow> b\<lparr>buf_failed := True\<rparr>
              | Some r \<Rightarrow> r)
           else if \<not> reserves rt ''Cell'' (length (buf_cells b)) new_cells then b\<lparr>buf_failed := True\<rparr>
           else b\<lparr>buf_cells := buf_cells b @ replicate new_cells Cell_empty, buf_height := h\<rparr>
         else b)"

definition buf_row :: "CellBuffer \<Rightarrow> nat \<Rightarrow> Cell list option" where
  "buf_row b y =
     (if y \<ge> buf_height b then None
      else if y * buf_width b + buf_width b \<le> length (buf_cells b)
           then Some (take (buf_width b) (drop (y * buf_width b) (buf_cells b))) else None)"

definition has_content :: "Cell \<Rightarrow> bool" where
  "has_content c \<longleftrightarrow> cell_ch c \<noteq> uc CHR '' '' \<or> style_bg (cell_style c) \<noteq> None"

definition content_height :: "CellBuffer \<Rightarrow> nat" where
  "content_height b =
     (case find (\<lambda>y. case buf_row b y of Some cs \<Rightarrow> list_ex has_content cs | None \<Rightarrow> False) (rev [0..<buf_height b]) of
        Some y \<Rightarrow> y + 1 | None \<Rightarrow> 0)"

definition buffer_diff :: "runtime \<Rightarrow> CellBuffer \<Rightarrow> CellBuffer \<Rightarrow> (nat \<times> nat) list option" where
  "buffer_diff rt b other =
     (let changed = filter (\<lambda>(x, y). cell_get b x y \<noteq> cell_get other x y)
            (concat (map (\<lambda>y. map (\<lambda>x. (x, y)) [0..<min (buf_width b) (buf_width other)])
              [0..<min (buf_height b) (buf_height other)]))
      in if try_reserve rt (length changed * size_of rt ''(u16, u16)'') then Some changed else None)"

section \<open>Reading what was written\<close>

lemma cell_index_inj:
  assumes "cell_index b x y = Some i" "cell_index b x' y' = Some i"
  shows "x' = x \<and> y' = y"
proof -
  have i: "i = x + y * buf_width b" "x < buf_width b" "i = x' + y' * buf_width b" "x' < buf_width b"
    using assms by (auto simp: cell_index_def split: if_splits)
  then have "(x + y * buf_width b) mod buf_width b = (x' + y' * buf_width b) mod buf_width b"
    "(x + y * buf_width b) div buf_width b = (x' + y' * buf_width b) div buf_width b"
    by simp_all
  with i(2,4) show ?thesis by simp
qed

lemma buffer_set_fields [simp]:
  "buf_width (cell_set x y c b) = buf_width b" "buf_height (cell_set x y c b) = buf_height b"
  "length (buf_cells (cell_set x y c b)) = length (buf_cells b)" "buf_lease (cell_set x y c b) = buf_lease b"
  by (simp_all add: cell_set_def split: option.splits)

lemma cell_index_set [simp]: "cell_index (cell_set x y c b) = cell_index b"
  by (simp add: cell_index_def fun_eq_iff)

lemma cell_get_set:
  "cell_get (cell_set x y c b) x' y' = (if x' = x \<and> y' = y then map_option (\<lambda>_. c) (cell_get b x y) else cell_get b x' y')"
proof (cases "cell_index b x y")
  case None
  then show ?thesis by (auto simp: cell_get_def cell_set_def)
next
  case (Some i)
  have len: "i < length (buf_cells b)"
    using Some by (auto simp: cell_index_def split: if_splits)
  then have b': "cell_set x y c b = b\<lparr>buf_cells := (buf_cells b)[i := c]\<rparr>"
    "cell_index (b\<lparr>buf_cells := (buf_cells b)[i := c]\<rparr>) = cell_index b"
    using Some by (simp_all add: cell_set_def cell_index_def fun_eq_iff)
  show ?thesis
  proof (cases "cell_index b x' y'")
    case None
    then show ?thesis using Some by (auto simp: cell_get_def b')
  next
    case (Some j)
    with \<open>cell_index b x y = Some i\<close> len cell_index_inj [of b x y i x' y'] show ?thesis
      by (cases "j = i") (auto simp: cell_get_def b')
  qed
qed

text \<open>A nested loop that rewrites each cell of a rectangle at the origin.\<close>

definition rewrite_cell :: "(nat \<Rightarrow> nat \<Rightarrow> Cell \<Rightarrow> Cell) \<Rightarrow> nat \<Rightarrow> nat \<Rightarrow> CellBuffer \<Rightarrow> CellBuffer" where
  "rewrite_cell f x y b = (case cell_get b x y of Some c \<Rightarrow> cell_set x y (f x y c) b | None \<Rightarrow> b)"

lemma get_rewrite: "cell_get (rewrite_cell f x y b) x' y' =
    (if x' = x \<and> y' = y then map_option (f x y) (cell_get b x y) else cell_get b x' y')"
  by (auto simp: rewrite_cell_def cell_get_set split: option.splits)

lemma get_rewrite_row: "cell_get (fold (\<lambda>x. rewrite_cell f x y) [0..<w] b) x' y' =
    (if x' < w \<and> y' = y then map_option (f x' y) (cell_get b x' y) else cell_get b x' y')"
  by (induction w) (auto simp: get_rewrite less_Suc_eq)

lemma get_rewrite_grid: "cell_get (fold (\<lambda>y. fold (\<lambda>x. rewrite_cell f x y) [0..<w]) [0..<h] b) x' y' =
    (if x' < w \<and> y' < h then map_option (f x' y') (cell_get b x' y') else cell_get b x' y')"
  by (induction h) (auto simp: get_rewrite_row less_Suc_eq)

lemma set_rewrites: "cell_set x y c b = rewrite_cell (\<lambda>_ _ _. c) x y b"
  by (auto simp: rewrite_cell_def cell_set_def cell_get_def split: option.splits)

end
