(* ===== verification/Present.thy ===== *)
theory Present
  imports Cells
begin

text \<open>
  The last pass of the client's pipeline, \<open>compositor/present/mod.rs\<close> and
  \<open>compositor/present/ansi.rs\<close>: a buffer of cells becomes control sequences on the terminal's
  output. The output is the list of the sequences the code writes, in order; \<open>cmd_text\<close> is the text
  of each. The writer is one that does not fail.
\<close>

section \<open>Control sequences\<close>

datatype Cmd = Reset | Sgr "ustr list" | Cursor nat nat | ClearScreen | Glyph ustr

definition ESC_BRACKET :: ustr where "ESC_BRACKET = 27 # lit ''[''"

fun cmd_text :: "Cmd \<Rightarrow> ustr" where
  "cmd_text Reset = ESC_BRACKET @ lit ''0m''"
| "cmd_text (Sgr params) = ESC_BRACKET @ join_char (uc CHR '';'') params @ lit ''m''"
| "cmd_text (Cursor row col) =
     ESC_BRACKET @ show_nat (row + 1) @ lit '';'' @ show_nat (col + 1) @ lit ''H''"
| "cmd_text ClearScreen = ESC_BRACKET @ lit ''2J''"
| "cmd_text (Glyph g) = g"

definition output_text :: "Cmd list \<Rightarrow> ustr" where
  "output_text cmds = concat (map cmd_text cmds)"

definition show_u8 :: "u8 \<Rightarrow> ustr" where
  "show_u8 b = show_nat (unat b)"

fun fg_param :: "ResolvedColor option \<Rightarrow> ustr" where
  "fg_param (Some (RNamed Black)) = lit ''38;2;0;0;0''"
| "fg_param (Some (RNamed n)) = show_u8 (fg_sgr n)"
| "fg_param (Some (RPalette i)) = lit ''38;5;'' @ show_u8 i"
| "fg_param (Some (RRgb r g b)) = lit ''38;2;'' @ show_u8 r @ lit '';'' @ show_u8 g @ lit '';'' @ show_u8 b"
| "fg_param None = lit ''38;2;255;255;255''"

fun bg_param :: "ResolvedColor option \<Rightarrow> ustr" where
  "bg_param (Some (RNamed Black)) = lit ''48;2;0;0;0''"
| "bg_param (Some (RNamed n)) = show_u8 (bg_sgr n)"
| "bg_param (Some (RPalette i)) = lit ''48;5;'' @ show_u8 i"
| "bg_param (Some (RRgb r g b)) = lit ''48;2;'' @ show_u8 r @ lit '';'' @ show_u8 g @ lit '';'' @ show_u8 b"
| "bg_param None = lit ''48;2;0;0;0''"

definition style_params :: "CellStyle \<Rightarrow> ustr list" where
  "style_params s =
     (if style_bold s then [lit ''1''] else []) @
     (if style_dim s then [lit ''2''] else []) @
     (if style_italic s then [lit ''3''] else []) @
     (if style_underline s then [lit ''4''] else []) @
     (if style_blink s then [lit ''5''] else []) @
     (if style_strikethrough s then [lit ''9''] else []) @
     [fg_param (style_fg s), bg_param (style_bg s)]"

definition style_to_sgr :: "CellStyle \<Rightarrow> ustr" where
  "style_to_sgr s = ESC_BRACKET @ join_char (uc CHR '';'') (style_params s) @ lit ''m''"

text \<open>The streaming writer: each parameter is preceded by a semicolon unless it is the first.\<close>

definition write_param :: "bool \<Rightarrow> ustr \<Rightarrow> bool \<times> ustr \<Rightarrow> bool \<times> ustr" where
  "write_param wanted p st =
     (case st of (first, out) \<Rightarrow>
        if wanted then (False, (if first then out else out @ lit '';'') @ p) else (first, out))"

definition write_style_sgr :: "CellStyle \<Rightarrow> ustr" where
  "write_style_sgr s =
     (let st = (True, ESC_BRACKET);
          st = write_param (style_bold s) (lit ''1'') st;
          st = write_param (style_dim s) (lit ''2'') st;
          st = write_param (style_italic s) (lit ''3'') st;
          st = write_param (style_underline s) (lit ''4'') st;
          st = write_param (style_blink s) (lit ''5'') st;
          st = write_param (style_strikethrough s) (lit ''9'') st;
          st = write_param True (fg_param (style_fg s)) st;
          st = write_param True (bg_param (style_bg s)) st
      in snd st @ lit ''m'')"

definition TERMINAL_DEFAULT_SGR :: Cmd where
  "TERMINAL_DEFAULT_SGR = Sgr [lit ''38;2;255;255;255'', lit ''48;2;0;0;0'']"

section \<open>Full render\<close>

text \<open>What a render writes so far, with the style in force and the flag that a reset is due.\<close>

record Emitter =
  em_out :: "Cmd list"
  em_last_style :: CellStyle
  em_needs_reset :: bool

definition write_cmds :: "Cmd list \<Rightarrow> Emitter \<Rightarrow> Emitter" where
  "write_cmds cmds e = e\<lparr>em_out := em_out e @ cmds\<rparr>"

definition emit_cell :: "Cell \<Rightarrow> Emitter \<Rightarrow> Emitter" where
  "emit_cell c e =
     (if cell_ch c = 0 then e
      else let e = (if cell_style c \<noteq> em_last_style e
                    then (write_cmds ((if em_needs_reset e then [Reset] else []) @ [Sgr (style_params (cell_style c))]) e)
                           \<lparr>em_needs_reset := True, em_last_style := cell_style c\<rparr>
                    else e)
           in write_cmds [Glyph (glyph c)] e)"

definition wrapping_add16 :: "nat \<Rightarrow> nat \<Rightarrow> nat" where
  "wrapping_add16 a b = (a + b) mod 65536"

definition emit_screen_row :: "CellBuffer \<Rightarrow> nat \<Rightarrow> nat \<Rightarrow> Emitter \<Rightarrow> Emitter" where
  "emit_screen_row b start_row screen_y e =
     (let buf_y = wrapping_add16 start_row screen_y;
          e = write_cmds [Cursor screen_y 0] e
      in case buf_row b buf_y of
           Some cells \<Rightarrow> fold emit_cell cells e
         | None \<Rightarrow>
             let e = (if em_needs_reset e
                      then (write_cmds [Reset, TERMINAL_DEFAULT_SGR] e)
                             \<lparr>em_needs_reset := True, em_last_style := default_style\<rparr>
                      else e)
             in write_cmds (replicate (buf_width b) (Glyph (lit '' ''))) e)"

definition final_reset :: "Emitter \<Rightarrow> Cmd list" where
  "final_reset e = em_out e @ (if em_needs_reset e then [Reset] else [])"

definition render_full :: "CellBuffer \<Rightarrow> nat \<Rightarrow> nat \<Rightarrow> Cmd list" where
  "render_full b viewport_offset viewport_height =
     final_reset
       (fold (emit_screen_row b viewport_offset) [0..<viewport_height]
         \<lparr>em_out = [Reset, TERMINAL_DEFAULT_SGR, ClearScreen], em_last_style = default_style, em_needs_reset = True\<rparr>)"

definition emit_sticky_row :: "CellBuffer \<Rightarrow> nat \<Rightarrow> nat \<Rightarrow> Emitter \<Rightarrow> Emitter" where
  "emit_sticky_row b screen_start buf_y e =
     (let e = write_cmds [Cursor (wrapping_add16 screen_start buf_y) 0] e
      in case buf_row b buf_y of Some cells \<Rightarrow> fold emit_cell cells e | None \<Rightarrow> e)"

definition render_at_offset :: "CellBuffer \<Rightarrow> nat \<Rightarrow> Cmd list" where
  "render_at_offset b screen_start =
     final_reset
       (fold (emit_sticky_row b screen_start) [0..<buf_height b]
         \<lparr>em_out = [TERMINAL_DEFAULT_SGR], em_last_style = default_style, em_needs_reset = True\<rparr>)"

section \<open>Differences\<close>

definition emit_cell_diff :: "CellBuffer \<Rightarrow> CellBuffer \<Rightarrow> nat \<Rightarrow> nat \<Rightarrow> nat \<Rightarrow> Cmd list" where
  "emit_cell_diff prev cur viewport_offset buf_y x =
     (case cell_get cur x buf_y of
        None \<Rightarrow> []
      | Some c \<Rightarrow>
          if cell_ch c = 0 then []
          else if (case cell_get prev x buf_y of Some p \<Rightarrow> p \<noteq> c | None \<Rightarrow> True)
               then [Cursor (buf_y - viewport_offset) x, Reset, Sgr (style_params (cell_style c)), Glyph (glyph c), Reset]
               else [])"

definition emit_row_diff :: "CellBuffer \<Rightarrow> CellBuffer \<Rightarrow> nat \<Rightarrow> nat \<Rightarrow> nat \<Rightarrow> nat \<Rightarrow> Cmd list" where
  "emit_row_diff prev cur buf_y x_start x_end viewport_offset =
     concat (map (emit_cell_diff prev cur viewport_offset buf_y) [x_start..<x_end])"

definition emit_rect_diff :: "CellBuffer \<Rightarrow> CellBuffer \<Rightarrow> nat \<Rightarrow> nat \<Rightarrow> nat \<Rightarrow> Rect \<Rightarrow> Cmd list" where
  "emit_rect_diff prev cur start_row end_row vx_end r =
     (let y0 = max (rect_y r) start_row; y1 = min (saturating_add16 (rect_y r) (rect_h r)) end_row
      in if y1 \<le> y0 then []
         else let x0 = min (rect_x r) vx_end; x1 = min (saturating_add16 (rect_x r) (rect_w r)) vx_end
              in if x1 \<le> x0 then []
                 else concat (map (\<lambda>y. emit_row_diff prev cur y x0 x1 start_row) [y0..<y1]))"

definition render_diff :: "CellBuffer \<Rightarrow> CellBuffer \<Rightarrow> nat \<Rightarrow> nat \<Rightarrow> Rect list option \<Rightarrow> Cmd list" where
  "render_diff prev cur viewport_offset viewport_height dirty =
     (let start_row = viewport_offset;
          end_row = min (wrapping_add16 viewport_offset viewport_height) (buf_height cur);
          vx_end = buf_width cur
      in case dirty of
           None \<Rightarrow> concat (map (\<lambda>y. emit_row_diff prev cur y 0 vx_end start_row) [start_row..<end_row])
         | Some rects \<Rightarrow> concat (map (emit_rect_diff prev cur start_row end_row vx_end) rects))"

section \<open>Plain text\<close>

definition trim_row :: "ustr \<Rightarrow> ustr" where
  "trim_row out = rev (dropWhile (\<lambda>c. c = uc CHR '' '') (rev out))"

fun drop_blank_lines :: "ustr \<Rightarrow> ustr" where
  "drop_blank_lines (c # d # rest) = (if c = LF \<and> d = LF then drop_blank_lines (d # rest) else c # d # rest)"
| "drop_blank_lines out = out"

definition string_cell :: "Cell \<Rightarrow> ustr" where
  "string_cell c = (if cell_ch c = 0 then lit '' '' else glyph c)"

definition string_row :: "CellBuffer \<Rightarrow> nat \<Rightarrow> ustr \<Rightarrow> ustr" where
  "string_row b y out =
     (case buf_row b y of
        Some cells \<Rightarrow> trim_row (out @ concat (map string_cell cells)) @ [LF]
      | None \<Rightarrow> out)"

definition render_to_string :: "CellBuffer \<Rightarrow> ustr" where
  "render_to_string b = rev (drop_blank_lines (rev (fold (string_row b) [0..<buf_height b] [])))"

section \<open>The streaming style writer\<close>

definition written :: "ustr list \<Rightarrow> bool \<times> ustr" where
  "written ps = (ps = [], ESC_BRACKET @ join_char (uc CHR '';'') ps)"

lemma write_param_written: "write_param wanted p (written ps) = written (ps @ (if wanted then [p] else []))"
  by (auto simp: written_def write_param_def join_char_snoc lit_def)

lemma write_style_sgr_is_style_to_sgr: "write_style_sgr s = style_to_sgr s"
proof -
  have start: "(True, ESC_BRACKET) = written []"
    by (simp add: written_def)
  have join: "snd (written ps) = ESC_BRACKET @ join_char (uc CHR '';'') ps" for ps
    by (simp add: written_def)
  show ?thesis
    by (simp add: write_style_sgr_def style_to_sgr_def style_params_def Let_def start write_param_written join)
qed

end
