(* ===== verification/Terminal.thy ===== *)
theory Terminal
  imports Present
begin

text \<open>
  What the sequences of \<open>Present\<close> do to a terminal. The terminal is not part of the repository: it is
  a record of its size, its measure of glyphs, its reaction to a sequence and what it lets one
  observe (the cursor, the rendition in force, the content of each cell). \<open>ansi_terminal\<close> states the
  behaviour the code relies on, which ECMA-48 and the common emulators document: a glyph is painted
  at the cursor in the current rendition, a wide one takes two cells, and overwriting one half of a
  wide glyph blanks the other half. The results say that a full render shows the buffer, and that a
  difference render takes a screen showing the previous frame to one showing the current frame.
\<close>

section \<open>The terminal\<close>

datatype Shown = Blank | Painted ustr "ustr list list" | Tail

record 's terminal =
  term_rows :: nat
  term_cols :: nat
  glyph_width :: "ustr \<Rightarrow> nat"
  term_step :: "Cmd \<Rightarrow> 's \<Rightarrow> 's"
  term_cursor :: "'s \<Rightarrow> nat \<times> nat"
  term_pen :: "'s \<Rightarrow> ustr list list"
  term_cell :: "'s \<Rightarrow> nat \<Rightarrow> nat \<Rightarrow> Shown"

fun wide :: "'s terminal \<Rightarrow> Shown \<Rightarrow> bool" where
  "wide t (Painted g p) \<longleftrightarrow> glyph_width t g = 2"
| "wide t Blank \<longleftrightarrow> False"
| "wide t Tail \<longleftrightarrow> False"

text \<open>What painting a glyph of width \<open>w\<close> at \<open>(r, c)\<close> leaves in the cell \<open>(r', c')\<close>.\<close>

definition painted_cell ::
  "(nat \<Rightarrow> nat \<Rightarrow> Shown) \<Rightarrow> ustr \<Rightarrow> ustr list list \<Rightarrow> nat \<Rightarrow> nat \<Rightarrow> nat \<Rightarrow> nat \<Rightarrow> nat \<Rightarrow> Shown" where
  "painted_cell cell g pen w r c r' c' =
     (if r' \<noteq> r then cell r' c'
      else if c' = c then Painted g pen
      else if w = 2 \<and> c' = c + 1 then Tail
      else if c' + 1 = c \<and> cell r c = Tail then Blank
      else if c' = c + w \<and> cell r c' = Tail then Blank
      else cell r' c')"

definition ansi_terminal :: "'s terminal \<Rightarrow> bool" where
  "ansi_terminal t \<longleftrightarrow>
     glyph_width t (lit '' '') = 1 \<and>
     (\<forall>s. term_cursor t (term_step t Reset s) = term_cursor t s \<and> term_pen t (term_step t Reset s) = [] \<and>
          term_cell t (term_step t Reset s) = term_cell t s) \<and>
     (\<forall>s p. term_cursor t (term_step t (Sgr p) s) = term_cursor t s \<and>
            term_pen t (term_step t (Sgr p) s) = term_pen t s @ [p] \<and>
            term_cell t (term_step t (Sgr p) s) = term_cell t s) \<and>
     (\<forall>s. term_pen t (term_step t ClearScreen s) = term_pen t s \<and>
          term_cell t (term_step t ClearScreen s) = (\<lambda>_ _. Blank)) \<and>
     (\<forall>s r c. r < term_rows t \<longrightarrow> c < term_cols t \<longrightarrow>
        term_cursor t (term_step t (Cursor r c) s) = (r, c) \<and>
        term_pen t (term_step t (Cursor r c) s) = term_pen t s \<and>
        term_cell t (term_step t (Cursor r c) s) = term_cell t s) \<and>
     (\<forall>s g r c. term_cursor t s = (r, c) \<longrightarrow> r < term_rows t \<longrightarrow>
        glyph_width t g = 1 \<or> glyph_width t g = 2 \<longrightarrow> c + glyph_width t g \<le> term_cols t \<longrightarrow>
        term_cursor t (term_step t (Glyph g) s) = (r, c + glyph_width t g) \<and>
        term_pen t (term_step t (Glyph g) s) = term_pen t s \<and>
        term_cell t (term_step t (Glyph g) s)
          = painted_cell (term_cell t s) g (term_pen t s) (glyph_width t g) r c)"

definition run :: "'s terminal \<Rightarrow> Cmd list \<Rightarrow> 's \<Rightarrow> 's" where
  "run t cmds s = fold (term_step t) cmds s"

text \<open>Each second half on the screen belongs to the wide glyph on its left, and each wide glyph has one.\<close>

definition whole :: "'s terminal \<Rightarrow> 's \<Rightarrow> bool" where
  "whole t s \<longleftrightarrow> (\<forall>r c. term_cell t s r c = Tail \<longleftrightarrow> (\<exists>c0. c = Suc c0 \<and> wide t (term_cell t s r c0)))"

section \<open>What a buffer looks like\<close>

definition picture :: "Cell option \<Rightarrow> Shown" where
  "picture c = (case c of
       None \<Rightarrow> Painted (lit '' '') [style_params default_style]
     | Some c \<Rightarrow> if cell_ch c = 0 then Tail else Painted (glyph c) [style_params (cell_style c)])"

definition displays :: "'s terminal \<Rightarrow> 's \<Rightarrow> CellBuffer \<Rightarrow> nat \<Rightarrow> nat \<Rightarrow> bool" where
  "displays t s b viewport_offset viewport_height \<longleftrightarrow>
     (\<forall>y < viewport_height. \<forall>x < buf_width b.
        term_cell t s y x = picture (cell_get b x (viewport_offset + y)))"

text \<open>
  A tidy buffer holds a continuation cell exactly behind each wide glyph, which is what
  \<open>put_str\<close> writes on a fresh buffer.
\<close>

fun tidy_row :: "(ustr \<Rightarrow> nat) \<Rightarrow> Cell list \<Rightarrow> bool" where
  "tidy_row width [] \<longleftrightarrow> True"
| "tidy_row width [c] \<longleftrightarrow> cell_ch c \<noteq> 0 \<and> width (glyph c) = 1"
| "tidy_row width (c # d # cells) \<longleftrightarrow> cell_ch c \<noteq> 0 \<and>
     (if cell_ch d = 0 then width (glyph c) = 2 \<and> tidy_row width cells
      else width (glyph c) = 1 \<and> tidy_row width (d # cells))"

definition tidy :: "(ustr \<Rightarrow> nat) \<Rightarrow> CellBuffer \<Rightarrow> bool" where
  "tidy width b \<longleftrightarrow>
     list_all (\<lambda>y. case buf_row b y of Some cells \<Rightarrow> tidy_row width cells | None \<Rightarrow> False) [0..<buf_height b]"

section \<open>Single sequences\<close>

lemma run_simps [simp]:
  "run t [] s = s"
  "run t (c # cs) s = run t cs (term_step t c s)"
  "run t (cs @ ds) s = run t ds (run t cs s)"
  by (simp_all add: run_def)

lemma terminal_reset [simp]:
  assumes "ansi_terminal t"
  shows "term_cursor t (term_step t Reset s) = term_cursor t s"
    and "term_pen t (term_step t Reset s) = []"
    and "term_cell t (term_step t Reset s) = term_cell t s"
  using assms unfolding ansi_terminal_def by blast+

lemma terminal_sgr [simp]:
  assumes "ansi_terminal t"
  shows "term_cursor t (term_step t (Sgr p) s) = term_cursor t s"
    and "term_pen t (term_step t (Sgr p) s) = term_pen t s @ [p]"
    and "term_cell t (term_step t (Sgr p) s) = term_cell t s"
  using assms unfolding ansi_terminal_def by blast+

lemma terminal_clear [simp]:
  assumes "ansi_terminal t"
  shows "term_pen t (term_step t ClearScreen s) = term_pen t s"
    and "term_cell t (term_step t ClearScreen s) = (\<lambda>_ _. Blank)"
  using assms unfolding ansi_terminal_def by blast+

lemma terminal_cursor [simp]:
  assumes "ansi_terminal t" "r < term_rows t" "c < term_cols t"
  shows "term_cursor t (term_step t (Cursor r c) s) = (r, c)"
    and "term_pen t (term_step t (Cursor r c) s) = term_pen t s"
    and "term_cell t (term_step t (Cursor r c) s) = term_cell t s"
  using assms unfolding ansi_terminal_def by blast+

lemma terminal_glyph:
  assumes "ansi_terminal t" "term_cursor t s = (r, c)" "r < term_rows t"
    and "glyph_width t g = 1 \<or> glyph_width t g = 2" "c + glyph_width t g \<le> term_cols t"
  shows "term_cursor t (term_step t (Glyph g) s) = (r, c + glyph_width t g)"
    and "term_pen t (term_step t (Glyph g) s) = term_pen t s"
    and "term_cell t (term_step t (Glyph g) s)
         = painted_cell (term_cell t s) g (term_pen t s) (glyph_width t g) r c"
  using assms unfolding ansi_terminal_def by blast+

lemma space_width [simp]: "ansi_terminal t \<Longrightarrow> glyph_width t (lit '' '') = 1"
  unfolding ansi_terminal_def by blast

lemma whole_cong: "term_cell t s' = term_cell t s \<Longrightarrow> whole t s' = whole t s"
  by (simp add: whole_def)

lemma whole_tail: "whole t s \<Longrightarrow> term_cell t s r (Suc c) = Tail \<longleftrightarrow> wide t (term_cell t s r c)"
  by (auto simp: whole_def)

lemma whole_no_tail: "whole t s \<Longrightarrow> term_cell t s r 0 \<noteq> Tail"
  by (simp add: whole_def)

lemma wide_not_tail: "wide t x \<Longrightarrow> x \<noteq> Tail"
  by auto

lemma whole_glyph:
  assumes "ansi_terminal t" "whole t s" "term_cursor t s = (r, c)" "r < term_rows t"
    and "glyph_width t g = 1 \<or> glyph_width t g = 2" "c + glyph_width t g \<le> term_cols t"
  shows "whole t (term_step t (Glyph g) s)"
proof -
  have cell: "term_cell t (term_step t (Glyph g) s)
      = painted_cell (term_cell t s) g (term_pen t s) (glyph_width t g) r c"
    using assms by (intro terminal_glyph)
  have tail: "term_cell t s r (Suc x) = Tail \<longleftrightarrow> wide t (term_cell t s r x)" for r x
    by (rule whole_tail[OF assms(2)])
  have none: "term_cell t s r 0 \<noteq> Tail" for r
    by (rule whole_no_tail[OF assms(2)])
  have alone: "wide t (term_cell t s r x) \<Longrightarrow> \<not> wide t (term_cell t s r (Suc x))" for r x
    using tail[of r x] by auto
  have "term_cell t (term_step t (Glyph g) s) r' c' = Tail
      \<longleftrightarrow> (\<exists>c0. c' = Suc c0 \<and> wide t (term_cell t (term_step t (Glyph g) s) r' c0))" for r' c'
  proof (cases c')
    case 0
    then show ?thesis
      by (auto simp: cell painted_cell_def none)
  next
    case (Suc x)
    show ?thesis
      using assms(5)
      by (cases c) (auto simp: cell painted_cell_def Suc none tail dest: alone)
  qed
  then show ?thesis
    by (simp add: whole_def)
qed


section \<open>Full render\<close>

abbreviation drawn :: "'s terminal \<Rightarrow> 's \<Rightarrow> Emitter \<Rightarrow> 's" where
  "drawn t s e \<equiv> run t (em_out e) s"

lemma drawn_write [simp]: "drawn t s (write_cmds cmds e) = run t cmds (drawn t s e)"
  by (simp add: write_cmds_def)

lemma write_cmds_fields [simp]:
  "em_last_style (write_cmds cmds e) = em_last_style e"
  "em_needs_reset (write_cmds cmds e) = em_needs_reset e"
  by (simp_all add: write_cmds_def)

text \<open>The emitter and the screen agree: the rendition in force is the last style.\<close>

definition in_step :: "'s terminal \<Rightarrow> 's \<Rightarrow> Emitter \<Rightarrow> bool" where
  "in_step t s e \<longleftrightarrow> em_needs_reset e \<and> whole t (drawn t s e) \<and>
     term_pen t (drawn t s e) = [style_params (em_last_style e)]"

text \<open>Nothing on the screen has changed but row \<open>y\<close> from column \<open>x\<close> on.\<close>

definition only_from :: "'s terminal \<Rightarrow> nat \<Rightarrow> nat \<Rightarrow> 's \<Rightarrow> 's \<Rightarrow> bool" where
  "only_from t y x s s' \<longleftrightarrow> (\<forall>r c. (r \<noteq> y \<or> c < x) \<longrightarrow> term_cell t s' r c = term_cell t s r c)"

lemma only_from_trans:
  "only_from t y x s s' \<Longrightarrow> only_from t y x' s' s'' \<Longrightarrow> x \<le> x' \<Longrightarrow> only_from t y x s s''"
  by (auto simp: only_from_def)

lemma emit_cell_drawn:
  assumes t: "ansi_terminal t" and e: "in_step t s e" and c: "cell_ch c \<noteq> 0"
    and at: "term_cursor t (drawn t s e) = (y, x)" "y < term_rows t"
    and w: "glyph_width t (glyph c) = 1 \<or> glyph_width t (glyph c) = 2"
      "x + glyph_width t (glyph c) \<le> term_cols t"
    and free: "term_cell t (drawn t s e) y x \<noteq> Tail"
  shows "in_step t s (emit_cell c e)"
    and "term_cursor t (drawn t s (emit_cell c e)) = (y, x + glyph_width t (glyph c))"
    and "only_from t y x (drawn t s e) (drawn t s (emit_cell c e))"
    and "term_cell t (drawn t s (emit_cell c e)) y x = picture (Some c)"
proof -
  define e1 where "e1 = (if cell_style c \<noteq> em_last_style e
      then (write_cmds ((if em_needs_reset e then [Reset] else []) @ [Sgr (style_params (cell_style c))]) e)
             \<lparr>em_needs_reset := True, em_last_style := cell_style c\<rparr> else e)"
  have emit: "emit_cell c e = write_cmds [Glyph (glyph c)] e1"
    using c by (simp add: emit_cell_def e1_def Let_def)
  have s1: "term_cell t (drawn t s e1) = term_cell t (drawn t s e)"
    "term_cursor t (drawn t s e1) = (y, x)"
    "term_pen t (drawn t s e1) = [style_params (cell_style c)]"
    "em_needs_reset e1" "em_last_style e1 = cell_style c"
    using e at t by (auto simp: e1_def in_step_def write_cmds_def)
  have w1: "whole t (drawn t s e1)"
    using e whole_cong[OF s1(1)] by (simp add: in_step_def)
  note step = terminal_glyph[OF t s1(2) at(2) w]
  show "in_step t s (emit_cell c e)"
    using s1 step(2) whole_glyph[OF t w1 s1(2) at(2) w] by (simp add: in_step_def emit)
  show "term_cursor t (drawn t s (emit_cell c e)) = (y, x + glyph_width t (glyph c))"
    using step(1) by (simp add: emit)
  show "only_from t y x (drawn t s e) (drawn t s (emit_cell c e))"
    using step(3) s1(1) free w by (auto simp: only_from_def emit painted_cell_def)
  show "term_cell t (drawn t s (emit_cell c e)) y x = picture (Some c)"
    using step(3) s1 c by (simp add: emit painted_cell_def picture_def)
qed

lemma next_free:
  assumes "whole t s" "term_cell t s y x = picture (Some c)" "cell_ch c \<noteq> 0"
  shows "term_cell t s y (Suc x) = Tail \<longleftrightarrow> glyph_width t (glyph c) = 2"
  using assms by (simp add: whole_tail picture_def)

lemma emit_cells_drawn:
  assumes "ansi_terminal t" "tidy_row (glyph_width t) cells" "in_step t s e"
    and "term_cursor t (drawn t s e) = (y, x)" "y < term_rows t" "x + length cells \<le> term_cols t"
    and "term_cell t (drawn t s e) y x \<noteq> Tail"
  shows "in_step t s (fold emit_cell cells e) \<and>
    only_from t y x (drawn t s e) (drawn t s (fold emit_cell cells e)) \<and>
    (\<forall>i < length cells. term_cell t (drawn t s (fold emit_cell cells e)) y (x + i) = picture (Some (cells ! i)))"
  using assms
proof (induction "glyph_width t" cells arbitrary: e x rule: tidy_row.induct)
  case 1
  then show ?case
    by (simp add: only_from_def)
next
  case (2 c)
  then show ?case
    using emit_cell_drawn[of t s e c y x] by auto
next
  case (3 c d cells)
  let ?e = "emit_cell c e"
  have c: "cell_ch c \<noteq> 0" "glyph_width t (glyph c) = (if cell_ch d = 0 then 2 else 1)"
    using 3 by (auto split: if_splits)
  have room: "x + glyph_width t (glyph c) \<le> term_cols t"
    using 3 c by simp
  note one = emit_cell_drawn[OF 3(3) 3(5) c(1) 3(6) 3(7) _ room 3(9)]
  have s1: "in_step t s ?e" "term_cursor t (drawn t s ?e) = (y, x + glyph_width t (glyph c))"
    "only_from t y x (drawn t s e) (drawn t s ?e)" "term_cell t (drawn t s ?e) y x = picture (Some c)"
    using one c by auto
  have w1: "whole t (drawn t s ?e)"
    using s1 by (simp add: in_step_def)
  show ?case
  proof (cases "cell_ch d = 0")
    case True
    have tail: "term_cell t (drawn t s ?e) y (Suc x) = Tail"
      using next_free[OF w1 s1(4) c(1)] c True by simp
    have free: "term_cell t (drawn t s ?e) y (x + 2) \<noteq> Tail"
      using whole_tail[OF w1, of y "Suc x"] tail by simp
    have d: "emit_cell d ?e = ?e"
      using True by (simp add: emit_cell_def)
    have IH: "in_step t s (fold emit_cell cells ?e) \<and>
        only_from t y (x + 2) (drawn t s ?e) (drawn t s (fold emit_cell cells ?e)) \<and>
        (\<forall>i < length cells. term_cell t (drawn t s (fold emit_cell cells ?e)) y (x + 2 + i) = picture (Some (cells ! i)))"
      using 3(1)[of ?e "x + 2"] 3 s1 True c free by auto
    have keep: "term_cell t (drawn t s (fold emit_cell cells ?e)) y x' = term_cell t (drawn t s ?e) y x'"
      if "x' < x + 2" for x'
      using IH that by (simp add: only_from_def)
    have pics: "term_cell t (drawn t s (fold emit_cell cells ?e)) y (x + i) = picture (Some ((c # d # cells) ! i))"
      if i: "i < Suc (Suc (length cells))" for i
    proof -
      consider "i = 0" | "i = 1" | j where "i = Suc (Suc j)" "j < length cells"
        using i by (auto simp: less_Suc_eq_0_disj)
      then show ?thesis
        using IH keep[of x] keep[of "Suc x"] s1(4) tail True
        by cases (auto simp: picture_def add.commute add.left_commute)
    qed
    show ?thesis
      using IH pics only_from_trans[OF s1(3), of "x + 2"] by (simp add: d)
  next
    case False
    have free: "term_cell t (drawn t s ?e) y (x + 1) \<noteq> Tail"
      using next_free[OF w1 s1(4) c(1)] c False by simp
    have IH: "in_step t s (fold emit_cell (d # cells) ?e) \<and>
        only_from t y (x + 1) (drawn t s ?e) (drawn t s (fold emit_cell (d # cells) ?e)) \<and>
        (\<forall>i < length (d # cells). term_cell t (drawn t s (fold emit_cell (d # cells) ?e)) y (x + 1 + i)
           = picture (Some ((d # cells) ! i)))"
      using 3(2)[of ?e "x + 1"] 3 s1 False c free by auto
    have keep: "term_cell t (drawn t s (fold emit_cell (d # cells) ?e)) y x = term_cell t (drawn t s ?e) y x"
      using IH by (simp add: only_from_def)
    have pics: "term_cell t (drawn t s (fold emit_cell (d # cells) ?e)) y (x + i) = picture (Some ((c # d # cells) ! i))"
      if "i < Suc (Suc (length cells))" for i
      using that IH keep s1(4) by (cases i) auto
    show ?thesis
      using IH pics only_from_trans[OF s1(3), of "x + 1"] by simp
  qed
qed


lemma default_sgr: "TERMINAL_DEFAULT_SGR = Sgr (style_params default_style)"
  by (simp add: TERMINAL_DEFAULT_SGR_def style_params_def default_style_def)

lemma emit_blanks:
  "em_last_style e = default_style \<Longrightarrow>
   write_cmds (replicate n (Glyph (lit '' ''))) e = fold emit_cell (replicate n Cell_empty) e"
proof (induction n arbitrary: e)
  case (Suc n)
  have "emit_cell Cell_empty e = write_cmds [Glyph (lit '' '')] e"
    using Suc(2) by (simp add: emit_cell_def Cell_empty_def Cell_new_def glyph_def lit_def)
  with Suc show ?case
    using Suc(1)[of "write_cmds [Glyph (lit '' '')] e"] by (simp add: write_cmds_def)
qed (simp add: write_cmds_def)

lemma tidy_blanks: "width (lit '' '') = 1 \<Longrightarrow> tidy_row width (replicate n Cell_empty)"
proof (induction n)
  case (Suc n)
  then show ?case
    by (cases n) (simp_all add: Cell_empty_def Cell_new_def glyph_def lit_def)
qed simp

lemma picture_blank: "picture (Some Cell_empty) = picture None"
  by (simp add: picture_def Cell_empty_def Cell_new_def glyph_def lit_def)

lemma buf_row_get:
  assumes "buf_row b y = Some cells"
  shows "length cells = buf_width b" "y < buf_height b" "x < buf_width b \<Longrightarrow> cell_get b x y = Some (cells ! x)"
  using assms by (auto simp: buf_row_def cell_get_def cell_index_def split: if_splits)

lemma tidy_buf_row:
  assumes "tidy width b" "y < buf_height b"
  obtains cells where "buf_row b y = Some cells" "tidy_row width cells"
proof -
  from assms have "case buf_row b y of Some cells \<Rightarrow> tidy_row width cells | None \<Rightarrow> False"
    by (simp add: tidy_def list_all_iff)
  then show ?thesis
    using that by (cases "buf_row b y") auto
qed

lemma emit_screen_row_drawn:
  assumes t: "ansi_terminal t" "0 < term_cols t" "buf_width b \<le> term_cols t" "y < term_rows t"
    and b: "tidy (glyph_width t) b" "vo + y < 65536" and e: "in_step t s e"
  shows "in_step t s (emit_screen_row b vo y e) \<and>
    only_from t y 0 (drawn t s e) (drawn t s (emit_screen_row b vo y e)) \<and>
    (\<forall>x < buf_width b. term_cell t (drawn t s (emit_screen_row b vo y e)) y x = picture (cell_get b x (vo + y)))"
proof -
  have row: "wrapping_add16 vo y = vo + y"
    using b by (simp add: wrapping_add16_def)
  have from0: "only_from t y 0 (drawn t s e) s' \<longleftrightarrow> only_from t y 0 s'' s'"
    if "term_cell t s'' = term_cell t (drawn t s e)" for s' s''
    using that by (simp add: only_from_def)
  let ?e1 = "write_cmds [Cursor y 0] e"
  have e1: "in_step t s ?e1" "term_cursor t (drawn t s ?e1) = (y, 0)"
    "term_cell t (drawn t s ?e1) = term_cell t (drawn t s e)"
    using e t whole_cong[of t "drawn t s ?e1" "drawn t s e"] by (auto simp: in_step_def)
  have free: "term_cell t (drawn t s e) y 0 \<noteq> Tail"
    using e whole_no_tail[of t "drawn t s e"] by (simp add: in_step_def)
  show ?thesis
  proof (cases "buf_row b (vo + y)")
    case (Some cells)
    have "tidy_row (glyph_width t) cells"
      using tidy_buf_row[OF b(1), of "vo + y"] buf_row_get[OF Some] Some by auto
    from emit_cells_drawn[OF t(1) this e1(1,2) t(4)] buf_row_get[OF Some] t e1 free
    show ?thesis
      by (simp add: emit_screen_row_def row Some from0[OF e1(3)])
  next
    case None
    let ?e2 = "(write_cmds [Reset, TERMINAL_DEFAULT_SGR] ?e1)\<lparr>em_needs_reset := True, em_last_style := default_style\<rparr>"
    have e2: "in_step t s ?e2" "term_cursor t (drawn t s ?e2) = (y, 0)"
      "term_cell t (drawn t s ?e2) = term_cell t (drawn t s e)"
      using e1 t whole_cong[of t "drawn t s ?e2" "drawn t s e"] e
      by (auto simp: in_step_def write_cmds_def default_sgr)
    have none: "cell_get b x (vo + y) = None" for x
      using None tidy_buf_row[OF b(1), of "vo + y"] by (cases "vo + y < buf_height b") (auto simp: cell_get_def cell_index_def)
    have emit: "emit_screen_row b vo y e = fold emit_cell (replicate (buf_width b) Cell_empty) ?e2"
      using e by (simp add: emit_screen_row_def row None Let_def emit_blanks in_step_def)
    have tidy: "tidy_row (glyph_width t) (replicate (buf_width b) Cell_empty)"
      using t by (intro tidy_blanks) simp
    from emit_cells_drawn[OF t(1) tidy e2(1,2) t(4)] t e2 free
    show ?thesis
      by (simp add: emit from0[OF e2(3)] none picture_blank)
  qed
qed

lemma render_rows_drawn:
  assumes t: "ansi_terminal t" "0 < term_cols t" "buf_width b \<le> term_cols t" "n \<le> term_rows t"
    and b: "tidy (glyph_width t) b" "vo + n \<le> 65536" and e: "in_step t s e"
  shows "in_step t s (fold (emit_screen_row b vo) [0..<n] e) \<and>
    (\<forall>y < n. \<forall>x < buf_width b.
       term_cell t (drawn t s (fold (emit_screen_row b vo) [0..<n] e)) y x = picture (cell_get b x (vo + y)))"
  using t(4) b(2)
proof (induction n)
  case (Suc n)
  let ?e = "fold (emit_screen_row b vo) [0..<n] e"
  have IH: "in_step t s ?e" "\<forall>y < n. \<forall>x < buf_width b. term_cell t (drawn t s ?e) y x = picture (cell_get b x (vo + y))"
    using Suc by auto
  have "in_step t s (emit_screen_row b vo n ?e) \<and>
    only_from t n 0 (drawn t s ?e) (drawn t s (emit_screen_row b vo n ?e)) \<and>
    (\<forall>x < buf_width b. term_cell t (drawn t s (emit_screen_row b vo n ?e)) n x = picture (cell_get b x (vo + n)))"
    using Suc IH t b by (intro emit_screen_row_drawn) auto
  then show ?case
    using IH by (auto simp: only_from_def less_Suc_eq)
qed (simp add: e)

lemma render_full_drawn:
  assumes t: "ansi_terminal t" "0 < term_cols t" "buf_width b \<le> term_cols t" "vh \<le> term_rows t"
    and b: "tidy (glyph_width t) b" "vo + vh \<le> 65536"
  shows "displays t (run t (render_full b vo vh) s) b vo vh"
    and "whole t (run t (render_full b vo vh) s)"
    and "term_pen t (run t (render_full b vo vh) s) = []"
proof -
  let ?e = "\<lparr>em_out = [Reset, TERMINAL_DEFAULT_SGR, ClearScreen], em_last_style = default_style, em_needs_reset = True\<rparr>"
  have "in_step t s ?e"
    using t by (simp add: in_step_def default_sgr whole_def)
  note rows = render_rows_drawn[OF t b this]
  let ?e' = "fold (emit_screen_row b vo) [0..<vh] ?e"
  have out: "run t (render_full b vo vh) s = term_step t Reset (drawn t s ?e')"
    using rows by (simp add: render_full_def final_reset_def in_step_def)
  have cells: "term_cell t (run t (render_full b vo vh) s) = term_cell t (drawn t s ?e')"
    using t by (simp add: out)
  show "displays t (run t (render_full b vo vh) s) b vo vh"
    using rows by (simp add: displays_def cells)
  show "whole t (run t (render_full b vo vh) s)"
    using rows whole_cong[OF cells] by (simp add: in_step_def)
  show "term_pen t (run t (render_full b vo vh) s) = []"
    using t by (simp add: out)
qed


section \<open>Difference render\<close>

text \<open>The cells a difference render visits, in order.\<close>

definition row_visits :: "nat \<Rightarrow> nat \<Rightarrow> nat \<Rightarrow> (nat \<times> nat) list" where
  "row_visits x0 x1 y = map (\<lambda>x. (y, x)) [x0..<x1]"

definition rect_visits :: "nat \<Rightarrow> nat \<Rightarrow> nat \<Rightarrow> Rect \<Rightarrow> (nat \<times> nat) list" where
  "rect_visits start_row end_row vx_end r =
     concat (map (row_visits (min (rect_x r) vx_end) (min (saturating_add16 (rect_x r) (rect_w r)) vx_end))
       [max (rect_y r) start_row..<min (saturating_add16 (rect_y r) (rect_h r)) end_row])"

definition diff_visits :: "nat \<Rightarrow> nat \<Rightarrow> nat \<Rightarrow> Rect list option \<Rightarrow> (nat \<times> nat) list" where
  "diff_visits start_row end_row vx_end dirty =
     (case dirty of
        None \<Rightarrow> concat (map (row_visits 0 vx_end) [start_row..<end_row])
      | Some rects \<Rightarrow> concat (map (rect_visits start_row end_row vx_end) rects))"

lemma concat_map_concat: "concat (map f (concat xss)) = concat (map (\<lambda>xs. concat (map f xs)) xss)"
  by (induction xss) simp_all

lemma emit_row_diff_visits:
  "emit_row_diff prev cur y x0 x1 vo
   = concat (map (\<lambda>(y, x). emit_cell_diff prev cur vo y x) (row_visits x0 x1 y))"
  by (simp add: emit_row_diff_def row_visits_def comp_def)

lemma emit_rect_diff_visits:
  "emit_rect_diff prev cur start_row end_row vx_end r
   = concat (map (\<lambda>(y, x). emit_cell_diff prev cur start_row y x) (rect_visits start_row end_row vx_end r))"
proof (cases "min (saturating_add16 (rect_x r) (rect_w r)) vx_end \<le> min (rect_x r) vx_end")
  case True
  then have "row_visits (min (rect_x r) vx_end) (min (saturating_add16 (rect_x r) (rect_w r)) vx_end) y = []" for y
    by (simp add: row_visits_def)
  with True show ?thesis
    by (simp add: emit_rect_diff_def rect_visits_def concat_map_concat comp_def Let_def)
next
  case False
  then show ?thesis
    by (simp add: emit_rect_diff_def rect_visits_def concat_map_concat comp_def Let_def emit_row_diff_visits)
qed

lemma render_diff_visits:
  assumes "vo + vh < 65536"
  shows "render_diff prev cur vo vh dirty
    = concat (map (\<lambda>(y, x). emit_cell_diff prev cur vo y x)
        (diff_visits vo (min (vo + vh) (buf_height cur)) (buf_width cur) dirty))"
proof -
  have rect: "emit_rect_diff prev cur start_row end_row vx_end
    = (\<lambda>r. concat (map (\<lambda>(y, x). emit_cell_diff prev cur start_row y x) (rect_visits start_row end_row vx_end r)))"
    for start_row end_row vx_end
    by (rule ext) (rule emit_rect_diff_visits)
  show ?thesis
    using assms
    by (simp add: render_diff_def diff_visits_def wrapping_add16_def Let_def concat_map_concat comp_def
        emit_row_diff_visits rect split: option.split)
qed

lemma row_visits_set: "(y', x) \<in> set (row_visits x0 x1 y) \<longleftrightarrow> y' = y \<and> x0 \<le> x \<and> x < x1"
  by (auto simp: row_visits_def)

lemma diff_visits_range:
  "(y, x) \<in> set (diff_visits start_row end_row vx_end dirty) \<Longrightarrow> start_row \<le> y \<and> y < end_row"
  by (auto simp: diff_visits_def rect_visits_def row_visits_set split: option.splits)

lemma diff_visits_covers:
  assumes "start_row \<le> y" "y < end_row" "x < vx_end"
    and "case dirty of None \<Rightarrow> True | Some rects \<Rightarrow> \<exists>r \<in> set rects. contains_point r x y"
  shows "(y, x) \<in> set (diff_visits start_row end_row vx_end dirty)"
  using assms
  by (auto simp: diff_visits_def rect_visits_def row_visits_set contains_point_def rect_right_def rect_bottom_def
      split: option.splits intro!: bexI)

text \<open>Facts about the cells of a tidy buffer.\<close>

lemma tidy_row_nth:
  assumes "tidy_row width cells" "i < length cells"
  shows "if cell_ch (cells ! i) = 0
         then \<exists>j. i = Suc j \<and> cell_ch (cells ! j) \<noteq> 0 \<and> width (glyph (cells ! j)) = 2
         else width (glyph (cells ! i)) = (if Suc i < length cells \<and> cell_ch (cells ! Suc i) = 0 then 2 else 1)"
  using assms
proof (induction width cells arbitrary: i rule: tidy_row.induct)
  case (3 width c d cells)
  show ?case
  proof (cases "cell_ch d = 0")
    case True
    have start: "cells \<noteq> [] \<Longrightarrow> cell_ch (cells ! 0) \<noteq> 0"
      using 3 True by (cases cells; cases "tl cells") (auto split: if_splits)
    consider "i = 0" | "i = 1" | j where "i = Suc (Suc j)" "j < length cells"
      using 3(4) by (auto simp: less_Suc_eq_0_disj)
    then show ?thesis
    proof cases
      case 3
      with "3.IH"(1)[of j] "3.prems" True start show ?thesis
        by (auto split: if_splits)
    qed (use "3.prems" True in auto)
  next
    case False
    show ?thesis
    proof (cases i)
      case 0
      with 3 False show ?thesis
        by auto
    next
      case (Suc j)
      with "3.IH"(2)[of j] "3.prems" False show ?thesis
        by (auto split: if_splits)
    qed
  qed
qed auto

lemma get_in_range: "cell_get b x y = Some c \<Longrightarrow> x < buf_width b \<and> y < buf_height b"
  by (auto simp: cell_get_def cell_index_def split: if_splits)

lemma tidy_get:
  assumes "tidy width b" "x < buf_width b" "y < buf_height b"
  obtains c where "cell_get b x y = Some c"
    "cell_ch c = 0 \<Longrightarrow> \<exists>x' d. x = Suc x' \<and> cell_get b x' y = Some d \<and> cell_ch d \<noteq> 0 \<and> width (glyph d) = 2"
    "cell_ch c \<noteq> 0 \<Longrightarrow> width (glyph c) = 1 \<or> width (glyph c) = 2"
    "cell_ch c \<noteq> 0 \<Longrightarrow> width (glyph c) = 2 \<longleftrightarrow> (\<exists>d. cell_get b (Suc x) y = Some d \<and> cell_ch d = 0)"
proof -
  obtain cells where row: "buf_row b y = Some cells" "tidy_row width cells"
    using tidy_buf_row[OF assms(1,3)] .
  have len: "length cells = buf_width b"
    using buf_row_get(1)[OF row(1)] .
  have get: "cell_get b i y = Some (cells ! i)" if "i < buf_width b" for i
    using buf_row_get(3)[OF row(1) that] .
  have out: "cell_get b i y = None" if "\<not> i < buf_width b" for i
    using that by (simp add: cell_get_def cell_index_def)
  note nth = tidy_row_nth[OF row(2), of x, unfolded len, OF assms(2)]
  show ?thesis
  proof (rule that)
    show "cell_get b x y = Some (cells ! x)"
      using get assms by simp
    show "\<exists>x' d. x = Suc x' \<and> cell_get b x' y = Some d \<and> cell_ch d \<noteq> 0 \<and> width (glyph d) = 2"
      if "cell_ch (cells ! x) = 0"
      using nth that get assms by auto
    show "width (glyph (cells ! x)) = 1 \<or> width (glyph (cells ! x)) = 2" if "cell_ch (cells ! x) \<noteq> 0"
      using nth that by (auto split: if_splits)
    show "width (glyph (cells ! x)) = 2 \<longleftrightarrow> (\<exists>d. cell_get b (Suc x) y = Some d \<and> cell_ch d = 0)"
      if "cell_ch (cells ! x) \<noteq> 0"
      using nth that get[of "Suc x"] out[of "Suc x"] by (cases "Suc x < buf_width b") (auto split: if_splits)
  qed
qed


text \<open>
  The invariant of a difference render: every cell that carries a glyph, and is unchanged or already
  visited, is on the screen; rows below the buffer are untouched.
\<close>

definition settled ::
  "'s terminal \<Rightarrow> 's \<Rightarrow> CellBuffer \<Rightarrow> CellBuffer \<Rightarrow> nat \<Rightarrow> nat \<Rightarrow> (nat \<times> nat) set \<Rightarrow> 's \<Rightarrow> bool" where
  "settled t s0 prev cur vo vh seen s \<longleftrightarrow>
     whole t s \<and>
     (\<forall>r c. buf_height cur \<le> vo + r \<longrightarrow> term_cell t s r c = term_cell t s0 r c) \<and>
     (\<forall>r x c. r < vh \<longrightarrow> cell_get cur x (vo + r) = Some c \<longrightarrow> cell_ch c \<noteq> 0 \<longrightarrow>
        cell_get prev x (vo + r) = Some c \<or> (vo + r, x) \<in> seen \<longrightarrow>
        term_cell t s r x = picture (Some c))"

lemma settled_visit:
  assumes t: "ansi_terminal t" "buf_width cur \<le> term_cols t" "vh \<le> term_rows t"
    and tidy: "tidy (glyph_width t) cur" and s: "settled t s0 prev cur vo vh seen s" and r: "r < vh"
  shows "settled t s0 prev cur vo vh (insert (vo + r, x) seen) (run t (emit_cell_diff prev cur vo (vo + r) x) s)"
proof (cases "\<exists>c. cell_get cur x (vo + r) = Some c \<and> cell_ch c \<noteq> 0 \<and> cell_get prev x (vo + r) \<noteq> Some c")
  case False
  then have "emit_cell_diff prev cur vo (vo + r) x = []"
    by (auto simp: emit_cell_diff_def split: option.splits)
  with False s show ?thesis
    by (auto simp: settled_def)
next
  case True
  then obtain c where c: "cell_get cur x (vo + r) = Some c" "cell_ch c \<noteq> 0" "cell_get prev x (vo + r) \<noteq> Some c"
    by blast
  have range: "x < buf_width cur" "vo + r < buf_height cur"
    using get_in_range[OF c(1)] by auto
  obtain w: "glyph_width t (glyph c) = 1 \<or> glyph_width t (glyph c) = 2"
    "glyph_width t (glyph c) = 2 \<longleftrightarrow> (\<exists>d. cell_get cur (Suc x) (vo + r) = Some d \<and> cell_ch d = 0)"
    using tidy_get[OF tidy range] c(1,2) by (metis option.inject)
  have room: "x + glyph_width t (glyph c) \<le> term_cols t"
    using w range t get_in_range[of cur "Suc x" "vo + r"] by fastforce
  define s1 where "s1 = term_step t (Sgr (style_params (cell_style c))) (term_step t Reset (term_step t (Cursor r x) s))"
  have s1: "term_cursor t s1 = (r, x)" "term_pen t s1 = [style_params (cell_style c)]" "term_cell t s1 = term_cell t s"
    using t r range by (simp_all add: s1_def)
  have emit: "run t (emit_cell_diff prev cur vo (vo + r) x) s = term_step t Reset (term_step t (Glyph (glyph c)) s1)"
    using c by (simp add: emit_cell_diff_def s1_def split: option.split)
  have r': "r < term_rows t"
    using r t by simp
  have whole: "whole t s" "whole t s1"
    using s s1 whole_cong[OF s1(3)] by (simp_all add: settled_def)
  have cell: "term_cell t (run t (emit_cell_diff prev cur vo (vo + r) x) s)
      = painted_cell (term_cell t s) (glyph c) [style_params (cell_style c)] (glyph_width t (glyph c)) r x"
    using terminal_glyph(3)[OF t(1) s1(1) r' w(1) room] s1 t by (simp add: emit)
  have whole': "whole t (run t (emit_cell_diff prev cur vo (vo + r) x) s)"
    using whole_glyph[OF t(1) whole(2) s1(1) r' w(1) room]
      whole_cong[of t "term_step t Reset (term_step t (Glyph (glyph c)) s1)" "term_step t (Glyph (glyph c)) s1"] t
    by (simp add: emit)
  have keep: "term_cell t (run t (emit_cell_diff prev cur vo (vo + r) x) s) r2 x2 = picture (Some c2)"
    if r2: "r2 < vh" and c2: "cell_get cur x2 (vo + r2) = Some c2" "cell_ch c2 \<noteq> 0"
      and known: "cell_get prev x2 (vo + r2) = Some c2 \<or> (vo + r2, x2) \<in> insert (vo + r, x) seen" for r2 x2 c2
  proof (cases "r2 = r \<and> x2 = x")
    case True
    with c c2 show ?thesis
      by (simp add: cell painted_cell_def picture_def)
  next
    case False
    then have old: "term_cell t s r2 x2 = picture (Some c2)"
      using s r2 c2 known by (auto simp: settled_def)
    then have notail: "term_cell t s r2 x2 \<noteq> Tail"
      using c2 by (simp add: picture_def)
    have range2: "x2 < buf_width cur" "vo + r2 < buf_height cur"
      using get_in_range[OF c2(1)] by auto
    have left: "\<not> (r2 = r \<and> Suc x2 = x \<and> term_cell t s r x = Tail)"
    proof
      assume h: "r2 = r \<and> Suc x2 = x \<and> term_cell t s r x = Tail"
      then have "glyph_width t (glyph c2) = 2"
        using whole_tail[OF whole(1), of r x2] old c2 by (auto simp: picture_def)
      then have "\<exists>d. cell_get cur (Suc x2) (vo + r2) = Some d \<and> cell_ch d = 0"
        using tidy_get[OF tidy range2] c2 by (metis option.inject)
      with h c show False
        by auto
    qed
    have right: "\<not> (r2 = r \<and> x2 = Suc x \<and> glyph_width t (glyph c) = 2)"
      using w c2 by auto
    show ?thesis
      using False old notail left right by (auto simp: cell painted_cell_def)
  qed
  have below: "term_cell t (run t (emit_cell_diff prev cur vo (vo + r) x) s) r2 x2 = term_cell t s0 r2 x2"
    if "buf_height cur \<le> vo + r2" for r2 x2
    using that s range by (auto simp: settled_def cell painted_cell_def)
  show ?thesis
    using whole' keep below by (simp add: settled_def)
qed

lemma settled_visits:
  assumes t: "ansi_terminal t" "buf_width cur \<le> term_cols t" "vh \<le> term_rows t"
    and tidy: "tidy (glyph_width t) cur" and s: "settled t s0 prev cur vo vh seen s"
    and visits: "\<And>y x. (y, x) \<in> set visits \<Longrightarrow> vo \<le> y \<and> y < vo + vh"
  shows "settled t s0 prev cur vo vh (seen \<union> set visits)
           (run t (concat (map (\<lambda>(y, x). emit_cell_diff prev cur vo y x) visits)) s)"
  using s visits
proof (induction visits arbitrary: s "seen")
  case (Cons v visits)
  obtain y x where v: "v = (y, x)"
    by (cases v)
  obtain r where r: "y = vo + r" "r < vh"
    using Cons(3)[of y x] v by (metis le_add_diff_inverse less_diff_conv2 list.set_intros(1) add.commute)
  have "settled t s0 prev cur vo vh (insert v seen) (run t (emit_cell_diff prev cur vo y x) s)"
    using settled_visit[OF t tidy Cons(2) r(2)] by (simp add: v r)
  from Cons(1)[OF this] Cons(3) show ?case
    by (auto simp: v)
qed simp

text \<open>What the caller owes a dirty scope: every changed cell of the viewport lies in one of its rectangles.\<close>

definition scope_covers :: "Rect list option \<Rightarrow> CellBuffer \<Rightarrow> CellBuffer \<Rightarrow> nat \<Rightarrow> nat \<Rightarrow> bool" where
  "scope_covers dirty prev cur vo vh \<longleftrightarrow>
     (\<forall>y \<in> set [vo..<vo + vh]. \<forall>x \<in> set [0..<buf_width cur].
        cell_get prev x y = cell_get cur x y \<or>
        (case dirty of None \<Rightarrow> True | Some rects \<Rightarrow> list_ex (\<lambda>r. contains_point r x y) rects))"

lemma render_diff_drawn:
  assumes t: "ansi_terminal t" "buf_width cur \<le> term_cols t" "vh \<le> term_rows t" "vo + vh < 65536"
    and tidy: "tidy (glyph_width t) cur"
    and size: "buf_width prev = buf_width cur" "buf_height prev = buf_height cur"
    and s: "displays t s prev vo vh" "whole t s" and scope: "scope_covers dirty prev cur vo vh"
  shows "displays t (run t (render_diff prev cur vo vh dirty) s) cur vo vh"
    and "whole t (run t (render_diff prev cur vo vh dirty) s)"
proof -
  let ?s = "run t (render_diff prev cur vo vh dirty) s"
  let ?visits = "diff_visits vo (min (vo + vh) (buf_height cur)) (buf_width cur) dirty"
  have start: "settled t s prev cur vo vh {} s"
    using s get_in_range[of cur] by (auto simp: settled_def displays_def size)
  have "settled t s prev cur vo vh ({} \<union> set ?visits)
          (run t (concat (map (\<lambda>(y, x). emit_cell_diff prev cur vo y x) ?visits)) s)"
    by (rule settled_visits[OF t(1-3) tidy start]) (auto dest: diff_visits_range)
  then have final: "settled t s prev cur vo vh (set ?visits) ?s"
    using t(4) by (simp add: render_diff_visits)
  then show whole: "whole t ?s"
    by (simp add: settled_def)
  have glyphs: "term_cell t ?s r x = picture (Some c)"
    if "r < vh" "cell_get cur x (vo + r) = Some c" "cell_ch c \<noteq> 0" for r x c
  proof -
    have "cell_get prev x (vo + r) = Some c \<or> (vo + r, x) \<in> set ?visits"
    proof (rule disjCI)
      assume "(vo + r, x) \<notin> set ?visits"
      moreover have range: "x < buf_width cur" "vo + r < buf_height cur"
        using get_in_range[OF that(2)] by auto
      moreover have "cell_get prev x (vo + r) = cell_get cur x (vo + r) \<or>
          (case dirty of None \<Rightarrow> True | Some rects \<Rightarrow> list_ex (\<lambda>r'. contains_point r' x (vo + r)) rects)"
        using scope[unfolded scope_covers_def, THEN bspec, THEN bspec, of "vo + r" x] that(1) range by simp
      ultimately show "cell_get prev x (vo + r) = Some c"
        using that diff_visits_covers[of vo "vo + r" "min (vo + vh) (buf_height cur)" x "buf_width cur" dirty]
        by (cases dirty) (auto simp: list_ex_iff)
    qed
    with final that show ?thesis
      unfolding settled_def by blast
  qed
  show "displays t ?s cur vo vh"
    unfolding displays_def
  proof (intro allI impI)
    fix r x assume r: "r < vh" and x: "x < buf_width cur"
    show "term_cell t ?s r x = picture (cell_get cur x (vo + r))"
    proof (cases "vo + r < buf_height cur")
      case False
      then have "cell_get prev x (vo + r) = None" "cell_get cur x (vo + r) = None"
        by (simp_all add: cell_get_def cell_index_def size)
      moreover have "term_cell t ?s r x = term_cell t s r x"
        using final False by (simp add: settled_def)
      ultimately show ?thesis
        using s r x by (simp add: displays_def size)
    next
      case True
      obtain c where c: "cell_get cur x (vo + r) = Some c"
        "cell_ch c = 0 \<Longrightarrow> \<exists>x' d. x = Suc x' \<and> cell_get cur x' (vo + r) = Some d \<and> cell_ch d \<noteq> 0 \<and> glyph_width t (glyph d) = 2"
        using tidy_get[OF tidy x True] by metis
      show ?thesis
      proof (cases "cell_ch c = 0")
        case True
        with c obtain x' d where d: "x = Suc x'" "cell_get cur x' (vo + r) = Some d" "cell_ch d \<noteq> 0"
          "glyph_width t (glyph d) = 2"
          by blast
        have "term_cell t ?s r x = Tail"
          using whole_tail[OF whole, of r x'] glyphs[OF r d(2,3)] d by (simp add: picture_def)
        with True c show ?thesis
          by (simp add: picture_def)
      qed (use glyphs[OF r c(1)] c in simp)
    qed
  qed
qed

section \<open>A terminal\<close>

text \<open>A grid that does what is documented: the behaviour relied on can be had.\<close>

record Grid =
  grid_cursor :: "nat \<times> nat"
  grid_pen :: "ustr list list"
  grid_cells :: "nat \<Rightarrow> nat \<Rightarrow> Shown"

fun grid_step :: "(ustr \<Rightarrow> nat) \<Rightarrow> Cmd \<Rightarrow> Grid \<Rightarrow> Grid" where
  "grid_step width Reset s = s\<lparr>grid_pen := []\<rparr>"
| "grid_step width (Sgr p) s = s\<lparr>grid_pen := grid_pen s @ [p]\<rparr>"
| "grid_step width (Cursor r c) s = s\<lparr>grid_cursor := (r, c)\<rparr>"
| "grid_step width ClearScreen s = s\<lparr>grid_cells := (\<lambda>_ _. Blank)\<rparr>"
| "grid_step width (Glyph g) s =
     (case grid_cursor s of
        (r, c) \<Rightarrow> s\<lparr>grid_cursor := (r, c + width g),
          grid_cells := painted_cell (grid_cells s) g (grid_pen s) (width g) r c\<rparr>)"

definition grid :: "nat \<Rightarrow> nat \<Rightarrow> (ustr \<Rightarrow> nat) \<Rightarrow> Grid terminal" where
  "grid rows cols width = \<lparr>term_rows = rows, term_cols = cols, glyph_width = width, term_step = grid_step width,
     term_cursor = grid_cursor, term_pen = grid_pen, term_cell = grid_cells\<rparr>"

lemma ansi_grid: "width (lit '' '') = 1 \<Longrightarrow> ansi_terminal (grid rows cols width)"
  by (simp add: ansi_terminal_def grid_def)

end
