(* ===== verification/Scene_Node.thy ===== *)
theory Scene_Node
  imports Cells
begin

text \<open>
  \<open>compositor/scene/node.rs\<close>: the nodes of the scene a page is displayed from. A \<open>NodeId\<close> is the
  index and the version of an arena slot. The variants of \<open>NodeKind\<close> carry the record of their data;
  \<open>retained_string_capacity\<close>, which only measures allocations, is left out.
\<close>

section \<open>Identifiers and geometry\<close>

type_synonym NodeId = "nat \<times> u32"

text \<open>\<open>NodeId::default()\<close>, the null key of the slot map crate.\<close>

definition null_id :: NodeId where "null_id = (4294967295, 1)"

record Placement =
  place_rect :: Rect
  place_flow_advance :: nat
  place_bbox :: Rect

definition empty_at :: "nat \<Rightarrow> nat \<Rightarrow> Placement" where
  "empty_at x y =
     (let r = \<lparr>rect_x = x, rect_y = y, rect_w = 0, rect_h = 0\<rparr>
      in \<lparr>place_rect = r, place_flow_advance = 0, place_bbox = r\<rparr>)"

record Transform =
  trans_dx :: int
  trans_dy :: int

definition IDENTITY :: Transform where "IDENTITY = \<lparr>trans_dx = 0, trans_dy = 0\<rparr>"

definition is_identity :: "Transform \<Rightarrow> bool" where
  "is_identity t \<longleftrightarrow> trans_dx t = 0 \<and> trans_dy t = 0"

section \<open>Data of the kinds\<close>

datatype FlowSource = FBox | FCol | FHeader | FBody | FFooter | FNav | FThead | FTbody | FPagination
  | FList | FItem | FFrame | FDetails | FState | FForm

datatype TextSource = TText | TPre | THeading nat | TArt | TElementDef | TTextAnimate

datatype OverlaySource = PageTransition

datatype KindTag = TagRoot | TagFlow | TagRow | TagAbsolute | TagText | TagInput | TagSelect
  | TagOptionLeaf | TagButton | TagHr | TagSpacer | TagPanel | TagAnimation | TagLiveRegion
  | TagTable | TagTr | TagTh | TagTd | TagLink | TagOverlay

record FlowData =
  fd_source :: FlowSource
  fd_border :: BorderStyle
  fd_title :: "ustr option"
  fd_join_top :: "nat option"
  fd_join_bottom :: "nat option"
  fd_join_left :: "nat option"
  fd_join_right :: "nat option"
  fd_padding :: nat
  fd_width :: "Dimension option"
  fd_height :: "Dimension option"
  fd_fg :: "Color option"
  fd_bg :: "Color option"
  fd_align :: Alignment
  fd_sticky :: "StickyPosition option"
  fd_form_action :: "ustr option"
  fd_list_style :: "ListStyle option"
  fd_list_bullet_char :: "uchar option"
  fd_state_name :: "ustr option"
  fd_state_transition :: "TransitionKind option"
  fd_state_transition_duration_ms :: nat
  fd_details_summary_count :: nat
  fd_details_summary :: "ustr option"
  fd_details_open :: bool

definition flow_default :: "FlowSource \<Rightarrow> FlowData" where
  "flow_default source = \<lparr>fd_source = source, fd_border = BorderNone, fd_title = None, fd_join_top = None,
     fd_join_bottom = None, fd_join_left = None, fd_join_right = None, fd_padding = 0, fd_width = None,
     fd_height = None, fd_fg = None, fd_bg = None, fd_align = AlignLeft, fd_sticky = None,
     fd_form_action = None, fd_list_style = None, fd_list_bullet_char = None, fd_state_name = None,
     fd_state_transition = None, fd_state_transition_duration_ms = 0, fd_details_summary_count = 0,
     fd_details_summary = None, fd_details_open = False\<rparr>"

record RowData =
  rd_gap :: nat
  rd_align :: VerticalAlignment

record AbsoluteData =
  ad_x :: "nat option"
  ad_y :: "nat option"
  ad_w :: Dimension
  ad_h :: Dimension
  ad_border :: BorderStyle
  ad_title :: "ustr option"
  ad_join_top :: "nat option"
  ad_join_bottom :: "nat option"
  ad_join_left :: "nat option"
  ad_join_right :: "nat option"
  ad_padding :: nat
  ad_fg :: "Color option"
  ad_bg :: "Color option"
  ad_align :: Alignment

record TextRun =
  tr_text :: ustr
  tr_bold :: bool
  tr_italic :: bool
  tr_underline :: bool
  tr_strikethrough :: bool
  tr_dim :: bool
  tr_blink :: bool
  tr_fg :: "Color option"
  tr_bg :: "Color option"

definition plain_run :: "ustr \<Rightarrow> TextRun" where
  "plain_run s = \<lparr>tr_text = s, tr_bold = False, tr_italic = False, tr_underline = False,
     tr_strikethrough = False, tr_dim = False, tr_blink = False, tr_fg = None, tr_bg = None\<rparr>"

record TextContent =
  tc_runs :: "TextRun list"
  tc_align :: Alignment
  tc_source :: TextSource

record InputData =
  id_name :: ustr
  id_maxlen :: nat
  id_placeholder :: "ustr option"
  id_multiline :: bool
  id_rows :: nat
  id_password :: bool
  id_value :: "ustr option"

record SelectData =
  sd_name :: ustr
  sd_label :: "ustr option"
  sd_selected_index :: nat

record OptionData =
  od_value :: ustr
  od_selected :: bool
  od_label :: ustr

record ButtonData =
  bd_label :: ustr
  bd_key :: "uchar option"
  bd_action :: ButtonAction
  bd_target :: "ustr option"
  bd_states :: "ustr list option"
  bd_to :: "ustr option"
  bd_href :: "ustr option"
  bd_transition :: "TransitionKind option"
  bd_transition_duration_ms :: nat

record HrData =
  hd_fg :: "Color option"
  hd_style :: HrStyle

record AnimationData =
  an_fps :: nat
  an_autoplay :: bool
  an_loop_behavior :: LoopBehavior
  an_loop :: bool
  an_background :: bool
  an_src :: "ustr option"
  an_frames :: "NodeId list"
  an_delay_ms :: nat
  an_after :: "ustr option"
  an_x :: "nat option"
  an_y :: "nat option"
  an_w :: "nat option"
  an_h :: "nat option"

record LiveData =
  lv_endpoint :: ustr
  lv_height :: Dimension
  lv_scroll :: LiveScroll
  lv_buffer :: nat
  lv_delta :: bool

record LinkData =
  ln_href :: ustr
  ln_key :: "uchar option"
  ln_prefetch :: bool
  ln_transition :: "TransitionKind option"
  ln_transition_duration_ms :: nat
  ln_defer_animation :: "ustr option"

record PanelData =
  pn_states :: "NodeId list"
  pn_active :: NodeId
  pn_initial_state :: ustr

datatype NodeKind =
    RootK
  | FlowK FlowData
  | RowK RowData
  | AbsoluteK AbsoluteData
  | TextK TextContent
  | InputK InputData
  | SelectK SelectData
  | OptionLeafK OptionData
  | ButtonK ButtonData
  | HrK HrData
  | SpacerK nat
  | PanelK PanelData
  | AnimationK AnimationData
  | LiveRegionK LiveData
  | TableK
  | TrK
  | ThK "Color option"
  | TdK "Color option"
  | LinkK LinkData
  | OverlayK OverlaySource

fun kind_tag :: "NodeKind \<Rightarrow> KindTag" where
  "kind_tag RootK = TagRoot"
| "kind_tag (FlowK _) = TagFlow"
| "kind_tag (RowK _) = TagRow"
| "kind_tag (AbsoluteK _) = TagAbsolute"
| "kind_tag (TextK _) = TagText"
| "kind_tag (InputK _) = TagInput"
| "kind_tag (SelectK _) = TagSelect"
| "kind_tag (OptionLeafK _) = TagOptionLeaf"
| "kind_tag (ButtonK _) = TagButton"
| "kind_tag (HrK _) = TagHr"
| "kind_tag (SpacerK _) = TagSpacer"
| "kind_tag (PanelK _) = TagPanel"
| "kind_tag (AnimationK _) = TagAnimation"
| "kind_tag (LiveRegionK _) = TagLiveRegion"
| "kind_tag TableK = TagTable"
| "kind_tag TrK = TagTr"
| "kind_tag (ThK _) = TagTh"
| "kind_tag (TdK _) = TagTd"
| "kind_tag (LinkK _) = TagLink"
| "kind_tag (OverlayK _) = TagOverlay"

datatype Action =
    NavigateTo ustr "TransitionKind option" nat "ustr option"
  | SetPanelState ustr ustr
  | TogglePanel ustr "ustr list"
  | SubmitForm ustr
  | FireTrigger ustr "ustr option"
  | ToggleDetailsAction ustr

section \<open>Nodes\<close>

record MeasureMemo =
  memo_pass :: u64
  memo_width :: nat
  memo_height :: nat

text \<open>
  \<open>node_child_room\<close> is the capacity of the vector of children, which bounds the growth of a governed
  scene.
\<close>

record Node =
  node_id :: NodeId
  node_kind :: NodeKind
  node_parent :: "NodeId option"
  node_children :: "NodeId list"
  node_child_room :: nat
  node_placement :: Placement
  node_focusable_rect :: "Rect option"
  node_buffer :: "CellBuffer option"
  node_z_index :: int
  node_transform :: Transform
  node_visible :: bool
  node_focusable :: bool
  node_hit_target :: "Action option"
  node_aml_id :: "ustr option"
  node_measured :: "MeasureMemo option"

record NodeBuilder =
  nb_kind :: NodeKind
  nb_aml_id :: "ustr option"
  nb_focusable :: bool
  nb_hit_target :: "Action option"

definition builder :: "NodeKind \<Rightarrow> NodeBuilder" where
  "builder kind = \<lparr>nb_kind = kind, nb_aml_id = None, nb_focusable = False, nb_hit_target = None\<rparr>"

definition finish :: "NodeBuilder \<Rightarrow> NodeId \<Rightarrow> Node" where
  "finish b nid = \<lparr>node_id = nid, node_kind = nb_kind b, node_parent = None, node_children = [],
     node_child_room = 0, node_placement = empty_at 0 0, node_focusable_rect = None, node_buffer = None,
     node_z_index = 0, node_transform = IDENTITY, node_visible = True, node_focusable = nb_focusable b,
     node_hit_target = nb_hit_target b, node_aml_id = nb_aml_id b, node_measured = None\<rparr>"

text \<open>The kinds of node whose buffer each subsystem may write.\<close>

fun layout_owned :: "NodeKind \<Rightarrow> bool" where
  "layout_owned RootK \<longleftrightarrow> False"
| "layout_owned (PanelK _) \<longleftrightarrow> False"
| "layout_owned (AnimationK _) \<longleftrightarrow> False"
| "layout_owned (LiveRegionK _) \<longleftrightarrow> False"
| "layout_owned (OverlayK _) \<longleftrightarrow> False"
| "layout_owned _ \<longleftrightarrow> True"

definition wasm_owned :: "NodeKind \<Rightarrow> bool" where
  "wasm_owned k \<longleftrightarrow> (case k of AnimationK _ \<Rightarrow> True | _ \<Rightarrow> False)"

definition live_owned :: "NodeKind \<Rightarrow> bool" where
  "live_owned k \<longleftrightarrow> (case k of LiveRegionK _ \<Rightarrow> True | _ \<Rightarrow> False)"

definition panel_owned :: "NodeKind \<Rightarrow> bool" where
  "panel_owned k \<longleftrightarrow> (case k of PanelK _ \<Rightarrow> True | _ \<Rightarrow> False)"

definition overlay_owned :: "NodeKind \<Rightarrow> bool" where
  "overlay_owned k \<longleftrightarrow> (case k of OverlayK _ \<Rightarrow> True | _ \<Rightarrow> False)"

end
