(* ===== verification/Scene.thy ===== *)
theory Scene
  imports Scene_Node
begin

text \<open>
  \<open>compositor/scene/invalidation.rs\<close> and \<open>compositor/scene/tree.rs\<close>: the arena of nodes with
  generational keys, the dirty regions, and the scene with its transactions, buffers and overlays.
  What the resource governor answers to a reservation is the parameter \<open>admit\<close> (category, units,
  bytes): \<open>Governor\<close> models it. Vectors are granted exactly the room they ask for.
\<close>

section \<open>Dirty regions\<close>

type_synonym DirtyRegions = "Rect option"

definition dirty_add :: "Rect \<Rightarrow> DirtyRegions \<Rightarrow> DirtyRegions" where
  "dirty_add r d =
     (if rect_is_empty r then d else Some (case d of None \<Rightarrow> r | Some old \<Rightarrow> rect_union old r))"

definition dirty_add_bounded :: "Rect \<Rightarrow> DirtyRegions \<Rightarrow> DirtyRegions" where
  "dirty_add_bounded r d =
     (case (d, rect_is_empty r) of
        (Some old, False) \<Rightarrow> Some (rect_union old r)
      | (Some old, True) \<Rightarrow> Some old
      | (None, False) \<Rightarrow> Some r
      | (None, True) \<Rightarrow> None)"

text \<open>The node list of \<open>layout\<close> never outgrows the room reserved for it.\<close>

record Invalidation =
  inv_composite :: DirtyRegions
  inv_layout :: "NodeId list"
  inv_layout_room :: nat
  inv_present :: DirtyRegions

definition invalidation_default :: Invalidation where
  "invalidation_default = \<lparr>inv_composite = None, inv_layout = [], inv_layout_room = 0, inv_present = None\<rparr>"

definition invalidation_for_nodes ::
  "runtime \<Rightarrow> admission \<Rightarrow> bool \<Rightarrow> nat \<Rightarrow> Invalidation option" where
  "invalidation_for_nodes rt admit governed nodes =
     (let bytes = nodes * size_of rt ''NodeId''
      in if bytes > usize_max \<or> (governed \<and> bytes \<noteq> 0 \<and> \<not> admit RemoteCollections bytes bytes) \<or> \<not> try_reserve rt bytes
         then None
         else Some \<lparr>inv_composite = None, inv_layout = [], inv_layout_room = nodes, inv_present = None\<rparr>)"

definition invalidation_clear :: "Invalidation \<Rightarrow> Invalidation" where
  "invalidation_clear i = i\<lparr>inv_composite := None, inv_layout := [], inv_present := None\<rparr>"

definition invalidation_is_empty :: "Invalidation \<Rightarrow> bool" where
  "invalidation_is_empty i \<longleftrightarrow> inv_composite i = None \<and> inv_layout i = [] \<and> inv_present i = None"

definition mark_composite :: "Rect \<Rightarrow> Invalidation \<Rightarrow> Invalidation" where
  "mark_composite r i = i\<lparr>inv_composite := dirty_add r (inv_composite i), inv_present := dirty_add r (inv_present i)\<rparr>"

definition mark_composite_bounded :: "Rect \<Rightarrow> Invalidation \<Rightarrow> Invalidation" where
  "mark_composite_bounded r i =
     i\<lparr>inv_composite := dirty_add_bounded r (inv_composite i), inv_present := dirty_add_bounded r (inv_present i)\<rparr>"

definition layout_insert :: "NodeId \<Rightarrow> Invalidation \<Rightarrow> bool \<times> Invalidation" where
  "layout_insert nid i =
     (if nid \<in> set (inv_layout i) then (True, i)
      else if length (inv_layout i) = inv_layout_room i then (False, i)
      else (True, i\<lparr>inv_layout := inv_layout i @ [nid]\<rparr>))"

fun layout_extend :: "NodeId list \<Rightarrow> Invalidation \<Rightarrow> bool \<times> Invalidation" where
  "layout_extend [] i = (True, i)"
| "layout_extend (nid # ids) i =
     (if nid \<in> set (inv_layout i) then layout_extend ids i
      else if length (inv_layout i) = inv_layout_room i then (False, i)
      else layout_extend ids (i\<lparr>inv_layout := inv_layout i @ [nid]\<rparr>))"

section \<open>The arena\<close>

record Slot =
  slot_version :: u32
  slot_node :: "Node option"

text \<open>\<open>free\<close> is a stack whose top is its last element.\<close>

record SceneNodes =
  slots :: "Slot list"
  free :: "nat list"
  limit :: nat
  len_nodes :: nat

definition nodes_default :: SceneNodes where
  "nodes_default = \<lparr>slots = [], free = [], limit = 0, len_nodes = 0\<rparr>"

definition requested_bytes :: "runtime \<Rightarrow> nat \<Rightarrow> nat option" where
  "requested_bytes rt capacity =
     (if capacity * size_of rt ''SceneNodeSlot'' > usize_max \<or> capacity * size_of rt ''u32'' > usize_max
      then None else checked_add (capacity * size_of rt ''SceneNodeSlot'') (capacity * size_of rt ''u32''))"

definition nodes_with_capacity :: "runtime \<Rightarrow> nat \<Rightarrow> SceneNodes option" where
  "nodes_with_capacity rt capacity =
     (if try_reserve rt (capacity * size_of rt ''SceneNodeSlot'') \<and> try_reserve rt (capacity * size_of rt ''u32'')
      then Some \<lparr>slots = [], free = [], limit = capacity, len_nodes = 0\<rparr> else None)"

definition insert_with_key :: "(NodeId \<Rightarrow> Node) \<Rightarrow> SceneNodes \<Rightarrow> NodeId option \<times> SceneNodes" where
  "insert_with_key build ns =
     (let place = (\<lambda>index ns.
            let nid = (index, slot_version (slots ns ! index))
            in (Some nid, ns\<lparr>slots := (slots ns)[index := (slots ns ! index)\<lparr>slot_node := Some (build nid)\<rparr>],
                            len_nodes := len_nodes ns + 1\<rparr>))
      in if free ns \<noteq> [] then
           let index = last (free ns); ns = ns\<lparr>free := butlast (free ns)\<rparr>
           in if index < length (slots ns) then place index ns else (None, ns)
         else if length (slots ns) = limit ns then (None, ns)
         else place (length (slots ns)) (ns\<lparr>slots := slots ns @ [\<lparr>slot_version = 1, slot_node = None\<rparr>]\<rparr>))"

definition nodes_get :: "SceneNodes \<Rightarrow> NodeId \<Rightarrow> Node option" where
  "nodes_get ns nid =
     (case nid of (index, version) \<Rightarrow>
        if index < length (slots ns) \<and> slot_version (slots ns ! index) = version
        then slot_node (slots ns ! index) else None)"

definition contains_key :: "SceneNodes \<Rightarrow> NodeId \<Rightarrow> bool" where
  "contains_key ns nid \<longleftrightarrow> nodes_get ns nid \<noteq> None"

text \<open>Writing through \<open>get_mut\<close>.\<close>

definition nodes_modify :: "NodeId \<Rightarrow> (Node \<Rightarrow> Node) \<Rightarrow> SceneNodes \<Rightarrow> SceneNodes" where
  "nodes_modify nid f ns =
     (case nodes_get ns nid of
        None \<Rightarrow> ns
      | Some n \<Rightarrow> ns\<lparr>slots := (slots ns)[fst nid := (slots ns ! fst nid)\<lparr>slot_node := Some (f n)\<rparr>]\<rparr>)"

definition has_spare_capacity :: "SceneNodes \<Rightarrow> bool" where
  "has_spare_capacity ns \<longleftrightarrow> free ns \<noteq> [] \<or> length (slots ns) < limit ns"

definition nodes_try_reserve :: "runtime \<Rightarrow> nat \<Rightarrow> SceneNodes \<Rightarrow> bool \<times> SceneNodes" where
  "nodes_try_reserve rt additional ns =
     (let needed_new = additional - length (free ns)
      in case checked_add (length (slots ns)) needed_new of
           None \<Rightarrow> (False, ns)
         | Some required_limit \<Rightarrow>
             if reserves rt ''SceneNodeSlot'' (length (slots ns)) needed_new \<and>
                reserves rt ''u32'' (length (free ns)) (required_limit - length (free ns))
             then (True, ns\<lparr>limit := max (limit ns) required_limit\<rparr>) else (False, ns))"

definition nodes_remove :: "NodeId \<Rightarrow> SceneNodes \<Rightarrow> Node option \<times> SceneNodes" where
  "nodes_remove nid ns =
     (case nodes_get ns nid of
        None \<Rightarrow> (None, ns)
      | Some n \<Rightarrow> (Some n,
          ns\<lparr>slots := (slots ns)[fst nid := \<lparr>slot_version = (slot_version (slots ns ! fst nid) + 2) OR 1, slot_node = None\<rparr>],
             free := free ns @ [fst nid], len_nodes := len_nodes ns - 1\<rparr>))"

definition nodes_values :: "SceneNodes \<Rightarrow> Node list" where
  "nodes_values ns = List.map_filter slot_node (slots ns)"

section \<open>The scene\<close>

record EventBinding =
  bind_event :: EventKind
  bind_source :: "ustr option"
  bind_action :: ActionKind
  bind_target :: ustr
  bind_to :: "ustr option"
  bind_delay_ms :: nat

record RelayoutJournal =
  jr_layouts :: "(NodeId \<times> Placement \<times> Rect option) list"
  jr_buffers :: "(NodeId \<times> CellBuffer option) list"
  jr_layout :: "NodeId list"
  jr_composite :: "Rect list"
  jr_present :: "Rect list"
  jr_resource_error :: bool

text \<open>
  The leases, the governor's handle and the default colours of the page are left out; \<open>scene_governed_nodes\<close> and
  \<open>scene_governed_relations\<close> tell whether the arena's and the relations' lease are held.
\<close>

record Scene =
  scene_root :: NodeId
  scene_nodes :: SceneNodes
  scene_aml_index :: "NodeId list"
  scene_aml_room :: nat
  scene_inv :: Invalidation
  scene_focus :: "NodeId option"
  scene_scroll :: nat
  scene_bindings :: "EventBinding list"
  scene_page_mode :: PageMode
  scene_transition :: "TransitionKind option"
  scene_transition_duration_ms :: nat
  scene_title :: "ustr option"
  scene_resource_error :: bool
  scene_journal :: "RelayoutJournal option"
  scene_overlay_slot :: "NodeId option"
  scene_governed :: bool
  scene_governed_nodes :: bool
  scene_governed_relations :: bool
  scene_layout_pass :: u64

definition scene_get :: "Scene \<Rightarrow> NodeId \<Rightarrow> Node option" where
  "scene_get sc = nodes_get (scene_nodes sc)"

definition modify_node :: "NodeId \<Rightarrow> (Node \<Rightarrow> Node) \<Rightarrow> Scene \<Rightarrow> Scene" where
  "modify_node nid f sc = sc\<lparr>scene_nodes := nodes_modify nid f (scene_nodes sc)\<rparr>"

definition modify_inv :: "(Invalidation \<Rightarrow> Invalidation) \<Rightarrow> Scene \<Rightarrow> Scene" where
  "modify_inv f sc = sc\<lparr>scene_inv := f (scene_inv sc)\<rparr>"

definition record_resource_error :: "Scene \<Rightarrow> Scene" where
  "record_resource_error sc = sc\<lparr>scene_resource_error := True\<rparr>"

text \<open>The loop over the ancestors; \<open>None\<close> when it would not end within the fuel.\<close>

fun in_active_panel :: "nat \<Rightarrow> Scene \<Rightarrow> NodeId \<Rightarrow> bool option" where
  "in_active_panel 0 sc child = None"
| "in_active_panel (Suc fuel) sc child =
     (case Option.bind (scene_get sc child) node_parent of
        None \<Rightarrow> Some True
      | Some parent \<Rightarrow>
          (case map_option node_kind (scene_get sc parent) of
             Some (PanelK p) \<Rightarrow> if pn_active p \<noteq> child then Some False else in_active_panel fuel sc parent
           | _ \<Rightarrow> in_active_panel fuel sc parent))"

section \<open>Buffers\<close>

definition buffer_cell_count :: "Scene \<Rightarrow> nat" where
  "buffer_cell_count sc =
     sum_list (map (\<lambda>b. length (buf_cells b)) (List.map_filter node_buffer (nodes_values (scene_nodes sc))))"

definition cells_of :: "Scene \<Rightarrow> NodeId \<Rightarrow> nat" where
  "cells_of sc nid = (case Option.bind (scene_get sc nid) node_buffer of Some b \<Rightarrow> length (buf_cells b) | None \<Rightarrow> 0)"

definition can_replace_buffer :: "NodeId \<Rightarrow> nat \<Rightarrow> Scene \<Rightarrow> bool" where
  "can_replace_buffer nid new_cells sc \<longleftrightarrow> buffer_cell_count sc - cells_of sc nid + new_cells \<le> MAX_SCENE_CELLS"

definition update_buffer :: "(NodeKind \<Rightarrow> bool) \<Rightarrow> NodeId \<Rightarrow> (CellBuffer \<Rightarrow> CellBuffer) \<Rightarrow> Scene \<Rightarrow> Scene" where
  "update_buffer may nid f sc =
     modify_node nid (\<lambda>n. if may (node_kind n) then n\<lparr>node_buffer := map_option f (node_buffer n)\<rparr> else n) sc"

definition layout_buffer_mut :: "NodeId \<Rightarrow> (CellBuffer \<Rightarrow> CellBuffer) \<Rightarrow> Scene \<Rightarrow> Scene" where
  "layout_buffer_mut = update_buffer layout_owned"

definition wasm_buffer_mut :: "NodeId \<Rightarrow> (CellBuffer \<Rightarrow> CellBuffer) \<Rightarrow> Scene \<Rightarrow> Scene" where
  "wasm_buffer_mut = update_buffer wasm_owned"

definition live_buffer_mut :: "NodeId \<Rightarrow> (CellBuffer \<Rightarrow> CellBuffer) \<Rightarrow> Scene \<Rightarrow> Scene" where
  "live_buffer_mut = update_buffer live_owned"

definition panel_buffer_mut :: "NodeId \<Rightarrow> (CellBuffer \<Rightarrow> CellBuffer) \<Rightarrow> Scene \<Rightarrow> Scene" where
  "panel_buffer_mut = update_buffer panel_owned"

definition overlay_buffer_mut :: "NodeId \<Rightarrow> (CellBuffer \<Rightarrow> CellBuffer) \<Rightarrow> Scene \<Rightarrow> Scene" where
  "overlay_buffer_mut = update_buffer overlay_owned"

section \<open>Relayout transactions\<close>

definition rect_slice :: "DirtyRegions \<Rightarrow> Rect list" where
  "rect_slice d = (case d of Some r \<Rightarrow> [r] | None \<Rightarrow> [])"

definition journal_bytes :: "runtime \<Rightarrow> Scene \<Rightarrow> nat" where
  "journal_bytes rt sc =
     len_nodes (scene_nodes sc) * size_of rt ''NodeLayoutCheckpoint'' +
     len_nodes (scene_nodes sc) * size_of rt ''NodeBufferCheckpoint'' +
     length (inv_layout (scene_inv sc)) * size_of rt ''NodeId'' +
     length (rect_slice (inv_composite (scene_inv sc))) * size_of rt ''Rect'' +
     length (rect_slice (inv_present (scene_inv sc))) * size_of rt ''Rect''"

definition journal_reserves :: "runtime \<Rightarrow> Scene \<Rightarrow> bool" where
  "journal_reserves rt sc \<longleftrightarrow>
     try_reserve rt (len_nodes (scene_nodes sc) * size_of rt ''NodeLayoutCheckpoint'') \<and>
     try_reserve rt (len_nodes (scene_nodes sc) * size_of rt ''NodeBufferCheckpoint'') \<and>
     try_reserve rt (length (inv_layout (scene_inv sc)) * size_of rt ''NodeId'') \<and>
     try_reserve rt (length (rect_slice (inv_composite (scene_inv sc))) * size_of rt ''Rect'') \<and>
     try_reserve rt (length (rect_slice (inv_present (scene_inv sc))) * size_of rt ''Rect'')"

definition begin_relayout_transaction ::
  "runtime \<Rightarrow> admission \<Rightarrow> Scene \<Rightarrow> bool \<times> Scene" where
  "begin_relayout_transaction rt admit sc =
     (let bytes = journal_bytes rt sc
      in if scene_journal sc \<noteq> None \<or> bytes > usize_max \<or>
            (scene_governed sc \<and> bytes \<noteq> 0 \<and> \<not> admit RemoteCollections bytes bytes) \<or> \<not> journal_reserves rt sc
         then (False, sc)
         else (True, sc\<lparr>scene_journal := Some \<lparr>jr_layouts = [], jr_buffers = [], jr_layout = inv_layout (scene_inv sc),
            jr_composite = rect_slice (inv_composite (scene_inv sc)), jr_present = rect_slice (inv_present (scene_inv sc)),
            jr_resource_error = scene_resource_error sc\<rparr>\<rparr>))"

definition commit_relayout_transaction :: "Scene \<Rightarrow> Scene" where
  "commit_relayout_transaction sc = sc\<lparr>scene_journal := None\<rparr>"

definition restore_buffer :: "NodeId \<times> CellBuffer option \<Rightarrow> Scene \<Rightarrow> Scene" where
  "restore_buffer c sc = (case c of (nid, b) \<Rightarrow> modify_node nid (\<lambda>n. n\<lparr>node_buffer := b\<rparr>) sc)"

definition restore_layout :: "NodeId \<times> Placement \<times> Rect option \<Rightarrow> Scene \<Rightarrow> Scene" where
  "restore_layout c sc =
     (case c of (nid, p, r) \<Rightarrow> modify_node nid (\<lambda>n. n\<lparr>node_placement := p, node_focusable_rect := r\<rparr>) sc)"

definition rollback_relayout_transaction :: "Scene \<Rightarrow> Scene" where
  "rollback_relayout_transaction sc =
     (case scene_journal sc of
        None \<Rightarrow> sc
      | Some j \<Rightarrow>
          let sc = sc\<lparr>scene_journal := None\<rparr>;
              sc = fold restore_buffer (jr_buffers j) sc;
              sc = fold restore_layout (jr_layouts j) sc;
              inv = invalidation_clear (scene_inv sc);
              (restored_layout, inv) = layout_extend (jr_layout j) inv;
              inv = inv\<lparr>inv_composite := fold dirty_add (jr_composite j) (inv_composite inv),
                        inv_present := fold dirty_add (jr_present j) (inv_present inv)\<rparr>
          in sc\<lparr>scene_inv := inv, scene_resource_error := jr_resource_error j \<or> \<not> restored_layout\<rparr>)"

definition checkpoint_layout :: "NodeId \<Rightarrow> Scene \<Rightarrow> Scene" where
  "checkpoint_layout nid sc =
     (case scene_journal sc of
        None \<Rightarrow> sc
      | Some j \<Rightarrow>
          if nid \<in> set (map fst (jr_layouts j)) then sc
          else case scene_get sc nid of
            None \<Rightarrow> sc
          | Some n \<Rightarrow> sc\<lparr>scene_journal := Some (j\<lparr>jr_layouts := jr_layouts j @
              [(nid, node_placement n, node_focusable_rect n)]\<rparr>)\<rparr>)"

definition checkpoint_buffer :: "NodeId \<Rightarrow> Scene \<Rightarrow> Scene" where
  "checkpoint_buffer nid sc =
     (case scene_get sc nid of
        None \<Rightarrow> sc
      | Some n \<Rightarrow>
          (case scene_journal sc of
             None \<Rightarrow> sc
           | Some j \<Rightarrow>
               if nid \<in> set (map fst (jr_buffers j)) then sc
               else (modify_node nid (\<lambda>n. n\<lparr>node_buffer := None\<rparr>) sc)
                      \<lparr>scene_journal := Some (j\<lparr>jr_buffers := jr_buffers j @ [(nid, node_buffer n)]\<rparr>)\<rparr>))"

text \<open>A buffer of the scene, on the governor's budget when the scene has a governor.\<close>

definition scene_buffer :: "runtime \<Rightarrow> admission \<Rightarrow> nat \<Rightarrow> nat \<Rightarrow> Scene \<Rightarrow> CellBuffer option" where
  "scene_buffer rt admit w h sc =
     (if scene_governed sc then buffer_new_governed rt admit SceneCells w h else buffer_new rt w h)"

definition scene_clone :: "runtime \<Rightarrow> admission \<Rightarrow> CellBuffer \<Rightarrow> Scene \<Rightarrow> CellBuffer option" where
  "scene_clone rt admit b sc =
     (if scene_governed sc then buffer_clone_governed rt admit SceneCells b else buffer_clone rt b)"

definition stage_buffer_for_relayout ::
  "runtime \<Rightarrow> admission \<Rightarrow> NodeId \<Rightarrow> Scene \<Rightarrow> bool \<times> Scene" where
  "stage_buffer_for_relayout rt admit nid sc =
     (case scene_journal sc of
        None \<Rightarrow> (True, sc)
      | Some j \<Rightarrow>
          if nid \<in> set (map fst (jr_buffers j)) then (True, sc)
          else let live = Option.bind (scene_get sc nid) node_buffer;
                   candidate = Option.bind live (\<lambda>b. scene_clone rt admit b sc)
               in if live \<noteq> None \<and> candidate = None then (False, record_resource_error sc)
                  else let sc = checkpoint_buffer nid sc
                       in (True, if candidate = None then sc else modify_node nid (\<lambda>n. n\<lparr>node_buffer := candidate\<rparr>) sc))"

definition allocate_buffer ::
  "runtime \<Rightarrow> admission \<Rightarrow> NodeId \<Rightarrow> nat \<Rightarrow> nat \<Rightarrow> Scene \<Rightarrow> Scene" where
  "allocate_buffer rt admit nid width height sc =
     (let w = max width 1; h = max height 1; sc = checkpoint_buffer nid sc
      in case scene_buffer rt admit w h sc of
           None \<Rightarrow> record_resource_error sc
         | Some b \<Rightarrow>
             if \<not> can_replace_buffer nid (length (buf_cells b)) sc then record_resource_error sc
             else modify_node nid (\<lambda>n. n\<lparr>node_buffer := Some b\<rparr>) sc)"

definition ensure_buffer ::
  "runtime \<Rightarrow> admission \<Rightarrow> NodeId \<Rightarrow> nat \<Rightarrow> nat \<Rightarrow> Scene \<Rightarrow> Scene" where
  "ensure_buffer rt admit nid width height sc =
     (let w = max width 1; h = max height 1;
          needs_resize = (case Option.bind (scene_get sc nid) node_buffer of
              Some b \<Rightarrow> buf_width b \<noteq> w \<or> buf_height b \<noteq> h | None \<Rightarrow> True)
      in if \<not> needs_resize then sc
         else case checked_size w h of
           None \<Rightarrow> record_resource_error sc
         | Some new_cells \<Rightarrow>
             if \<not> can_replace_buffer nid new_cells sc then record_resource_error sc
             else case stage_buffer_for_relayout rt admit nid sc of
               (False, sc) \<Rightarrow> sc
             | (True, sc) \<Rightarrow>
                 (case Option.bind (scene_get sc nid) node_buffer of
                    None \<Rightarrow> allocate_buffer rt admit nid w h sc
                  | Some b \<Rightarrow>
                      (case resize_preserving rt admit w h b of
                         None \<Rightarrow> record_resource_error sc
                       | Some b \<Rightarrow> modify_node nid (\<lambda>n. n\<lparr>node_buffer := Some b\<rparr>) sc)))"

section \<open>Measures, placements and the index of identifiers\<close>

definition begin_layout_pass :: "Scene \<Rightarrow> Scene" where
  "begin_layout_pass sc = sc\<lparr>scene_layout_pass := scene_layout_pass sc + 1\<rparr>"

definition cached_measure :: "Scene \<Rightarrow> NodeId \<Rightarrow> nat \<Rightarrow> nat option" where
  "cached_measure sc nid width =
     (case Option.bind (scene_get sc nid) node_measured of
        Some m \<Rightarrow> if memo_pass m = scene_layout_pass sc \<and> memo_width m = width then Some (memo_height m) else None
      | None \<Rightarrow> None)"

definition set_cached_measure :: "NodeId \<Rightarrow> nat \<Rightarrow> nat \<Rightarrow> Scene \<Rightarrow> Scene" where
  "set_cached_measure nid width height sc =
     modify_node nid (\<lambda>n. n\<lparr>node_measured :=
       Some \<lparr>memo_pass = scene_layout_pass sc, memo_width = width, memo_height = height\<rparr>\<rparr>) sc"

definition update_placement :: "NodeId \<Rightarrow> Placement \<Rightarrow> Scene \<Rightarrow> Scene" where
  "update_placement nid p sc =
     (case scene_get sc nid of
        None \<Rightarrow> sc
      | Some n \<Rightarrow>
          if node_placement n = p then sc
          else modify_inv (mark_composite (place_bbox p) \<circ> mark_composite (place_bbox (node_placement n)))
                 (modify_node nid (\<lambda>n. n\<lparr>node_placement := p\<rparr>) (checkpoint_layout nid sc)))"

definition update_focusable_rect :: "NodeId \<Rightarrow> Rect \<Rightarrow> Scene \<Rightarrow> Scene" where
  "update_focusable_rect nid r sc =
     modify_node nid (\<lambda>n. n\<lparr>node_focusable_rect := Some r\<rparr>) (checkpoint_layout nid sc)"

definition find_by_aml_id :: "Scene \<Rightarrow> ustr \<Rightarrow> NodeId option" where
  "find_by_aml_id sc aml_id =
     find (\<lambda>nid. case scene_get sc nid of Some n \<Rightarrow> node_aml_id n = Some aml_id | None \<Rightarrow> False)
       (rev (scene_aml_index sc))"

section \<open>Tree order\<close>

text \<open>
  The depth-first iterator with its stack, the top first. It stops at the first key that is not
  live; \<open>None\<close> when the nodes outnumber the fuel.
\<close>

fun tree_order_iter :: "nat \<Rightarrow> SceneNodes \<Rightarrow> NodeId list \<Rightarrow> Node list option" where
  "tree_order_iter 0 ns stack = None"
| "tree_order_iter (Suc fuel) ns [] = Some []"
| "tree_order_iter (Suc fuel) ns (nid # stack) =
     (case nodes_get ns nid of
        None \<Rightarrow> Some []
      | Some n \<Rightarrow> map_option ((#) n) (tree_order_iter fuel ns (node_children n @ stack)))"

definition iter_tree_order :: "nat \<Rightarrow> Scene \<Rightarrow> Node list option" where
  "iter_tree_order fuel sc = tree_order_iter fuel (scene_nodes sc) [scene_root sc]"

definition find_details_by_index :: "nat \<Rightarrow> Scene \<Rightarrow> nat \<Rightarrow> NodeId option option" where
  "find_details_by_index fuel sc index =
     map_option (\<lambda>ns.
       let ds = filter (\<lambda>n. case node_kind n of FlowK d \<Rightarrow> fd_source d = FDetails | _ \<Rightarrow> False) ns
       in if index < length ds then Some (node_id (ds ! index)) else None) (iter_tree_order fuel sc)"

datatype PlacedKind = PlacedPanel | PlacedAnimation bool | PlacedLive ustr LiveScroll nat bool

fun placed_kind :: "NodeKind \<Rightarrow> PlacedKind option" where
  "placed_kind (PanelK _) = Some PlacedPanel"
| "placed_kind (AnimationK d) = Some (PlacedAnimation (an_background d))"
| "placed_kind (LiveRegionK d) = Some (PlacedLive (lv_endpoint d) (lv_scroll d) (lv_buffer d) (lv_delta d))"
| "placed_kind _ = None"

definition iter_placed :: "nat \<Rightarrow> Scene \<Rightarrow> (ustr \<times> PlacedKind \<times> Rect) list option" where
  "iter_placed fuel sc =
     map_option (List.map_filter (\<lambda>n.
       let r = place_rect (node_placement n)
       in if rect_is_empty r then None
          else map_option (\<lambda>k. (case node_aml_id n of Some s \<Rightarrow> s | None \<Rightarrow> [], k, r)) (placed_kind (node_kind n))))
     (iter_tree_order fuel sc)"

definition iter_sticky :: "nat \<Rightarrow> Scene \<Rightarrow> (StickyPosition \<times> nat \<times> nat) list option" where
  "iter_sticky fuel sc =
     map_option (List.map_filter (\<lambda>n.
       case node_kind n of
         FlowK d \<Rightarrow> (case fd_sticky d of
             Some pos \<Rightarrow> let r = place_rect (node_placement n) in if rect_h r > 0 then Some (pos, rect_y r, rect_h r) else None
           | None \<Rightarrow> None)
       | _ \<Rightarrow> None)) (iter_tree_order fuel sc)"

definition iter_focusable_rects :: "nat \<Rightarrow> Scene \<Rightarrow> (NodeId \<times> Rect) list option" where
  "iter_focusable_rects fuel sc =
     map_option (List.map_filter (\<lambda>n.
       if node_focusable n then map_option (Pair (node_id n)) (node_focusable_rect n) else None))
     (iter_tree_order fuel sc)"

section \<open>Overlays\<close>

definition push_child :: "NodeId \<Rightarrow> Node \<Rightarrow> Node" where
  "push_child nid n = n\<lparr>node_children := node_children n @ [nid],
     node_child_room := max (node_child_room n) (length (node_children n) + 1)\<rparr>"

definition children_full :: "Scene \<Rightarrow> NodeId \<Rightarrow> bool" where
  "children_full sc nid \<longleftrightarrow>
     (case scene_get sc nid of Some n \<Rightarrow> length (node_children n) = node_child_room n | None \<Rightarrow> True)"

definition insert_overlay ::
  "runtime \<Rightarrow> admission \<Rightarrow> int \<Rightarrow> OverlaySource \<Rightarrow> Rect \<Rightarrow> Scene \<Rightarrow> NodeId \<times> Scene" where
  "insert_overlay rt admit z source r sc =
     (let grown = (if \<not> has_spare_capacity (scene_nodes sc) \<and> \<not> scene_governed_nodes sc
                   then nodes_try_reserve rt 1 (scene_nodes sc) else (True, scene_nodes sc));
          sc' = sc\<lparr>scene_nodes := snd grown\<rparr>
      in if \<not> fst grown then (null_id, record_resource_error sc)
         else if \<not> has_spare_capacity (scene_nodes sc') \<or> (scene_governed_relations sc' \<and> children_full sc' (scene_root sc'))
         then (null_id, record_resource_error sc')
         else case insert_with_key (finish (builder (OverlayK source))) (scene_nodes sc') of
           (None, ns) \<Rightarrow> (null_id, record_resource_error (sc'\<lparr>scene_nodes := ns\<rparr>))
         | (Some nid, ns) \<Rightarrow>
             let sc = sc'\<lparr>scene_nodes := ns\<rparr>; w = max (rect_w r) 1; h = max (rect_h r) 1;
                 buffer = (if scene_governed sc then buffer_new_opaque_governed rt admit SceneCells w h
                           else buffer_new_opaque rt w h);
                 cells = (case buffer of Some b \<Rightarrow> length (buf_cells b) | None \<Rightarrow> 0);
                 sc = (if buffer = None \<or> \<not> can_replace_buffer nid cells sc then record_resource_error sc else sc);
                 sc = modify_node nid (\<lambda>n. n\<lparr>node_placement := \<lparr>place_rect = r, place_flow_advance = 0, place_bbox = r\<rparr>,
                        node_z_index := z, node_buffer := buffer, node_parent := Some (scene_root sc)\<rparr>) sc;
                 sc = modify_node (scene_root sc) (push_child nid) sc
             in (nid, modify_inv (mark_composite r) sc))"

definition prepare_page_transition_overlay :: "Scene \<Rightarrow> bool \<times> Scene" where
  "prepare_page_transition_overlay sc =
     (if scene_overlay_slot sc \<noteq> None then (True, sc)
      else if children_full sc (scene_root sc) \<or> \<not> has_spare_capacity (scene_nodes sc) then (False, sc)
      else case insert_with_key (finish (builder (OverlayK PageTransition))) (scene_nodes sc) of
        (None, ns) \<Rightarrow> (False, sc\<lparr>scene_nodes := ns\<rparr>)
      | (Some nid, ns) \<Rightarrow>
          let sc = sc\<lparr>scene_nodes := ns\<rparr>;
              sc = modify_node nid (\<lambda>n. n\<lparr>node_parent := Some (scene_root sc), node_visible := False\<rparr>) sc
          in if scene_get sc (scene_root sc) = None then (False, sc)
             else (True, (modify_node (scene_root sc) (push_child nid) sc)\<lparr>scene_overlay_slot := Some nid\<rparr>))"

definition can_activate_page_transition_overlay :: "nat \<Rightarrow> Scene \<Rightarrow> bool" where
  "can_activate_page_transition_overlay cells sc \<longleftrightarrow>
     (case scene_overlay_slot sc of
        None \<Rightarrow> False
      | Some nid \<Rightarrow>
          (case scene_get sc nid of
             None \<Rightarrow> False
           | Some n \<Rightarrow> node_buffer n = None \<and> can_replace_buffer nid cells sc))"

definition i16_max :: int where "i16_max = 32767"

definition activate_page_transition_overlay :: "Rect \<Rightarrow> CellBuffer \<Rightarrow> Scene \<Rightarrow> NodeId option \<times> Scene" where
  "activate_page_transition_overlay r b sc =
     (case scene_overlay_slot sc of
        None \<Rightarrow> (None, sc)
      | Some nid \<Rightarrow>
          if \<not> can_activate_page_transition_overlay (length (buf_cells b)) sc then (None, sc)
          else (Some nid, modify_inv (mark_composite_bounded r)
            (modify_node nid (\<lambda>n. n\<lparr>node_placement := \<lparr>place_rect = r, place_flow_advance = 0, place_bbox = r\<rparr>,
               node_z_index := i16_max, node_buffer := Some b, node_visible := True\<rparr>) sc)))"

definition remove_overlay :: "NodeId \<Rightarrow> Scene \<Rightarrow> Scene" where
  "remove_overlay nid sc =
     (case scene_get sc nid of
        None \<Rightarrow> sc
      | Some n \<Rightarrow>
          if \<not> overlay_owned (node_kind n) then sc
          else let sc = (case node_parent n of
                     Some pid \<Rightarrow> modify_node pid (\<lambda>p. p\<lparr>node_children := filter (\<lambda>c. c \<noteq> nid) (node_children p)\<rparr>) sc
                   | None \<Rightarrow> sc);
                   sc = sc\<lparr>scene_nodes := snd (nodes_remove nid (scene_nodes sc))\<rparr>
               in modify_inv (mark_composite (place_rect (node_placement n))) sc)"

definition page_transition_overlay :: "Scene \<Rightarrow> NodeId option" where
  "page_transition_overlay sc =
     (case scene_overlay_slot sc of
        Some nid \<Rightarrow> (case scene_get sc nid of
            Some n \<Rightarrow> if node_visible n \<and> node_buffer n \<noteq> None then Some nid else None
          | None \<Rightarrow> None)
      | None \<Rightarrow> None)"

definition default_placement :: Placement where "default_placement = empty_at 0 0"

definition remove_page_transition_overlay :: "NodeId \<Rightarrow> Scene \<Rightarrow> Scene" where
  "remove_page_transition_overlay nid sc =
     (if scene_overlay_slot sc \<noteq> Some nid then sc
      else case scene_get sc nid of
        None \<Rightarrow> sc
      | Some n \<Rightarrow> modify_inv (mark_composite_bounded (place_rect (node_placement n)))
          (modify_node nid (\<lambda>n. n\<lparr>node_buffer := None, node_visible := False, node_z_index := 0,
             node_placement := default_placement\<rparr>) sc))"

definition clear_buffer :: "NodeId \<Rightarrow> Scene \<Rightarrow> Scene" where
  "clear_buffer nid sc = modify_node nid (\<lambda>n. n\<lparr>node_buffer := None\<rparr>) sc"

end
