(* ===== verification/Patch.thy ===== *)
theory Patch
  imports Scene
begin

text \<open>
  \<open>compositor/scene/patch.rs\<close>: the patches, the only way the rest of the client changes the structure
  and the properties of a scene, and how each is applied.
\<close>

section \<open>Patches\<close>

record NodeTemplate =
  tpl_kind :: NodeKind
  tpl_aml_id :: "ustr option"
  tpl_focusable :: bool
  tpl_hit_target :: "Action option"

datatype Patch =
    InsertNode NodeId "NodeId option" NodeTemplate
  | RemoveNode NodeId
  | ReplaceChildren NodeId "NodeId list"
  | SetPlacement NodeId Placement
  | SetTransform NodeId Transform
  | SetVisible NodeId bool
  | SetZIndex NodeId int
  | SetPanelActive NodeId NodeId
  | ToggleDetails NodeId
  | SetInputValue NodeId ustr
  | SetSelectIndex NodeId nat
  | SetFocus "NodeId option"
  | SetScroll nat

section \<open>Helpers\<close>

definition subtree_bbox :: "Scene \<Rightarrow> NodeId \<Rightarrow> Rect option" where
  "subtree_bbox sc nid = map_option (\<lambda>n. place_bbox (node_placement n)) (scene_get sc nid)"

definition effective_rect :: "Node \<Rightarrow> Rect" where
  "effective_rect n =
     (if is_identity (node_transform n) then place_bbox (node_placement n)
      else rect_translate (trans_dx (node_transform n)) (trans_dy (node_transform n)) (place_bbox (node_placement n)))"

definition mark_layout :: "NodeId \<Rightarrow> Scene \<Rightarrow> Scene" where
  "mark_layout nid sc =
     (case layout_insert nid (scene_inv sc) of
        (True, iv) \<Rightarrow> sc\<lparr>scene_inv := iv\<rparr>
      | (False, iv) \<Rightarrow> record_resource_error (sc\<lparr>scene_inv := iv\<rparr>))"

definition mark_rect :: "Rect option \<Rightarrow> Scene \<Rightarrow> Scene" where
  "mark_rect r sc = (case r of Some r \<Rightarrow> modify_inv (mark_composite r) sc | None \<Rightarrow> sc)"

section \<open>Handlers\<close>

definition apply_set_input_value :: "NodeId \<Rightarrow> ustr \<Rightarrow> Scene \<Rightarrow> Scene" where
  "apply_set_input_value nid val sc =
     (case scene_get sc nid of
        None \<Rightarrow> sc
      | Some n \<Rightarrow>
          (case node_kind n of
             InputK d \<Rightarrow>
               mark_rect (Some (place_rect (node_placement n)))
                 (mark_layout nid (modify_node nid (\<lambda>n. n\<lparr>node_kind := InputK (d\<lparr>id_value := Some val\<rparr>)\<rparr>) sc))
           | _ \<Rightarrow> sc))"

definition apply_set_select_index :: "NodeId \<Rightarrow> nat \<Rightarrow> Scene \<Rightarrow> Scene" where
  "apply_set_select_index nid index sc =
     (case scene_get sc nid of
        None \<Rightarrow> sc
      | Some n \<Rightarrow>
          (case node_kind n of
             SelectK d \<Rightarrow>
               mark_rect (Some (place_rect (node_placement n)))
                 (mark_layout nid (modify_node nid (\<lambda>n. n\<lparr>node_kind := SelectK (d\<lparr>sd_selected_index := index\<rparr>)\<rparr>) sc))
           | _ \<Rightarrow> sc))"

definition template_node :: "NodeTemplate \<Rightarrow> NodeId \<Rightarrow> NodeId \<Rightarrow> Node" where
  "template_node tpl parent nid =
     (finish \<lparr>nb_kind = tpl_kind tpl, nb_aml_id = tpl_aml_id tpl, nb_focusable = tpl_focusable tpl,
        nb_hit_target = tpl_hit_target tpl\<rparr> nid)\<lparr>node_parent := Some parent\<rparr>"

definition insert_before :: "NodeId option \<Rightarrow> NodeId \<Rightarrow> NodeId list \<Rightarrow> NodeId list" where
  "insert_before before nid cs =
     (case before of
        Some b \<Rightarrow> if b \<in> set cs then takeWhile (\<lambda>c. c \<noteq> b) cs @ nid # dropWhile (\<lambda>c. c \<noteq> b) cs else cs @ [nid]
      | None \<Rightarrow> cs @ [nid])"

definition apply_insert :: "runtime \<Rightarrow> NodeId \<Rightarrow> NodeId option \<Rightarrow> NodeTemplate \<Rightarrow> Scene \<Rightarrow> Scene" where
  "apply_insert rt parent before tpl sc =
     (let grown = (if \<not> has_spare_capacity (scene_nodes sc) \<and> \<not> scene_governed_nodes sc
                   then nodes_try_reserve rt 1 (scene_nodes sc) else (True, scene_nodes sc));
          sc' = sc\<lparr>scene_nodes := snd grown\<rparr>
      in if \<not> fst grown then record_resource_error sc
         else if \<not> has_spare_capacity (scene_nodes sc') \<or>
                 (scene_governed_relations sc' \<and>
                  (children_full sc' parent \<or> (tpl_aml_id tpl \<noteq> None \<and> length (scene_aml_index sc') = scene_aml_room sc')))
         then record_resource_error sc'
         else case insert_with_key (template_node tpl parent) (scene_nodes sc') of
           (None, ns) \<Rightarrow> record_resource_error (sc'\<lparr>scene_nodes := ns\<rparr>)
         | (Some nid, ns) \<Rightarrow>
             let sc = sc'\<lparr>scene_nodes := ns\<rparr>;
                 sc = (if tpl_aml_id tpl \<noteq> None
                       then sc\<lparr>scene_aml_index := scene_aml_index sc @ [nid],
                               scene_aml_room := max (scene_aml_room sc) (length (scene_aml_index sc) + 1)\<rparr> else sc);
                 sc = modify_node parent (\<lambda>p. p\<lparr>node_children := insert_before before nid (node_children p),
                        node_child_room := max (node_child_room p) (length (node_children p) + 1)\<rparr>) sc;
                 sc = mark_layout parent sc
             in mark_rect (subtree_bbox sc parent) sc)"

text \<open>
  The breadth-first collection of a subtree: the list grows while it is read. \<open>None\<close> when it would
  not end within the fuel.
\<close>

fun collect_subtree :: "nat \<Rightarrow> SceneNodes \<Rightarrow> NodeId list \<Rightarrow> NodeId list option" where
  "collect_subtree 0 ns queue = None"
| "collect_subtree (Suc fuel) ns [] = Some []"
| "collect_subtree (Suc fuel) ns (nid # queue) =
     (let more = (case nodes_get ns nid of Some n \<Rightarrow> node_children n | None \<Rightarrow> [])
      in map_option ((#) nid) (collect_subtree fuel ns (queue @ more)))"

definition remove_one :: "NodeId \<Rightarrow> Scene \<Rightarrow> Scene" where
  "remove_one nid sc =
     (let aml_id = Option.bind (scene_get sc nid) node_aml_id;
          index = (case aml_id of
              Some s \<Rightarrow>
                if find_by_aml_id sc s = Some nid
                then filter (\<lambda>i. case scene_get sc i of Some n \<Rightarrow> node_aml_id n \<noteq> Some s | None \<Rightarrow> True) (scene_aml_index sc)
                else filter (\<lambda>i. i \<noteq> nid) (scene_aml_index sc)
            | None \<Rightarrow> filter (\<lambda>i. i \<noteq> nid) (scene_aml_index sc))
      in sc\<lparr>scene_aml_index := index, scene_nodes := snd (nodes_remove nid (scene_nodes sc))\<rparr>)"

text \<open>Shrinking the relations' lease to what they retain is not refused.\<close>

definition apply_remove :: "runtime \<Rightarrow> admission \<Rightarrow> nat \<Rightarrow> NodeId \<Rightarrow> Scene \<Rightarrow> Scene option" where
  "apply_remove rt admit fuel nid sc =
     (case scene_get sc nid of
        None \<Rightarrow> Some sc
      | Some victim \<Rightarrow>
          let bytes = len_nodes (scene_nodes sc) * size_of rt ''NodeId''
          in if bytes > usize_max \<or> (scene_governed sc \<and> \<not> admit RemoteCollections bytes bytes) \<or> \<not> try_reserve rt bytes
             then Some (record_resource_error sc)
             else map_option (\<lambda>to_remove.
               let sc = mark_rect (subtree_bbox sc nid) sc;
                   sc = fold remove_one to_remove sc
               in case node_parent victim of
                    None \<Rightarrow> sc
                  | Some parent \<Rightarrow>
                      mark_layout parent
                        (modify_node parent (\<lambda>p. p\<lparr>node_children := filter (\<lambda>c. c \<noteq> nid) (node_children p)\<rparr>) sc))
               (collect_subtree fuel (scene_nodes sc) [nid]))"

definition apply_replace_children :: "NodeId \<Rightarrow> NodeId list \<Rightarrow> Scene \<Rightarrow> Scene" where
  "apply_replace_children parent cs sc =
     (if scene_governed_relations sc \<and>
         (case scene_get sc parent of Some n \<Rightarrow> length cs > node_child_room n | None \<Rightarrow> True)
      then record_resource_error sc
      else let sc = fold (\<lambda>c. modify_node c (\<lambda>n. n\<lparr>node_parent := Some parent\<rparr>)) cs sc;
               sc = modify_node parent (\<lambda>p. p\<lparr>node_children := cs,
                      node_child_room := (if scene_governed_relations sc then node_child_room p else length cs)\<rparr>) sc;
               sc = mark_layout parent sc
           in mark_rect (subtree_bbox sc parent) sc)"

definition apply_set_placement :: "NodeId \<Rightarrow> Placement \<Rightarrow> Scene \<Rightarrow> Scene" where
  "apply_set_placement nid p sc =
     (let old_bbox = subtree_bbox sc nid;
          sc = modify_node nid (\<lambda>n. n\<lparr>node_placement := p\<rparr>) sc;
          sc = mark_layout nid sc
      in mark_rect (Some (place_bbox p)) (mark_rect old_bbox sc))"

definition apply_set_transform :: "NodeId \<Rightarrow> Transform \<Rightarrow> Scene \<Rightarrow> Scene" where
  "apply_set_transform nid t sc =
     (let old_rect = map_option effective_rect (scene_get sc nid);
          sc = modify_node nid (\<lambda>n. n\<lparr>node_transform := t\<rparr>) sc;
          sc = mark_rect old_rect sc
      in mark_rect (map_option effective_rect (scene_get sc nid)) sc)"

definition apply_set_visible :: "NodeId \<Rightarrow> bool \<Rightarrow> Scene \<Rightarrow> Scene" where
  "apply_set_visible nid visible sc =
     mark_rect (subtree_bbox sc nid) (modify_node nid (\<lambda>n. n\<lparr>node_visible := visible\<rparr>) sc)"

definition apply_set_z_index :: "NodeId \<Rightarrow> int \<Rightarrow> Scene \<Rightarrow> Scene" where
  "apply_set_z_index nid z sc =
     mark_rect (subtree_bbox sc nid) (modify_node nid (\<lambda>n. n\<lparr>node_z_index := z\<rparr>) sc)"

definition apply_set_panel_active :: "NodeId \<Rightarrow> NodeId \<Rightarrow> Scene \<Rightarrow> Scene" where
  "apply_set_panel_active panel active sc =
     (case map_option node_kind (scene_get sc panel) of
        Some (PanelK p) \<Rightarrow>
          if active \<notin> set (pn_states p) then sc
          else let panel_rect = subtree_bbox sc panel; new_state_rect = subtree_bbox sc active;
                   sc = modify_node panel (\<lambda>n. n\<lparr>node_kind := PanelK (p\<lparr>pn_active := active\<rparr>)\<rparr>) sc;
                   sc = mark_layout panel sc
               in mark_rect new_state_rect (mark_rect panel_rect sc)
      | _ \<Rightarrow> sc)"

definition apply_toggle_details :: "NodeId \<Rightarrow> Scene \<Rightarrow> Scene" where
  "apply_toggle_details nid sc =
     (case scene_get sc nid of
        None \<Rightarrow> sc
      | Some n \<Rightarrow>
          (case node_kind n of
             FlowK d \<Rightarrow>
               if fd_source d = FDetails
               then mark_rect (Some (place_bbox (node_placement n)))
                      (mark_layout nid (modify_node nid
                        (\<lambda>n. n\<lparr>node_kind := FlowK (d\<lparr>fd_details_open := \<not> fd_details_open d\<rparr>)\<rparr>) sc))
               else sc
           | _ \<Rightarrow> sc))"

definition apply_set_focus :: "NodeId option \<Rightarrow> Scene \<Rightarrow> Scene" where
  "apply_set_focus nid sc =
     (let old_rect = Option.bind (scene_focus sc) (subtree_bbox sc); new_rect = Option.bind nid (subtree_bbox sc)
      in mark_rect new_rect (mark_rect old_rect (sc\<lparr>scene_focus := nid\<rparr>)))"

definition apply_set_scroll :: "nat \<Rightarrow> Scene \<Rightarrow> Scene" where
  "apply_set_scroll offset sc = mark_rect (subtree_bbox sc (scene_root sc)) (sc\<lparr>scene_scroll := offset\<rparr>)"

fun apply_patch :: "runtime \<Rightarrow> admission \<Rightarrow> nat \<Rightarrow> Patch \<Rightarrow> Scene \<Rightarrow> Scene option" where
  "apply_patch rt admit fuel (InsertNode parent before tpl) sc = Some (apply_insert rt parent before tpl sc)"
| "apply_patch rt admit fuel (RemoveNode nid) sc = apply_remove rt admit fuel nid sc"
| "apply_patch rt admit fuel (ReplaceChildren parent cs) sc = Some (apply_replace_children parent cs sc)"
| "apply_patch rt admit fuel (SetPlacement nid p) sc = Some (apply_set_placement nid p sc)"
| "apply_patch rt admit fuel (SetTransform nid t) sc = Some (apply_set_transform nid t sc)"
| "apply_patch rt admit fuel (SetVisible nid v) sc = Some (apply_set_visible nid v sc)"
| "apply_patch rt admit fuel (SetZIndex nid z) sc = Some (apply_set_z_index nid z sc)"
| "apply_patch rt admit fuel (SetPanelActive panel active) sc = Some (apply_set_panel_active panel active sc)"
| "apply_patch rt admit fuel (ToggleDetails nid) sc = Some (apply_toggle_details nid sc)"
| "apply_patch rt admit fuel (SetInputValue nid val) sc = Some (apply_set_input_value nid val sc)"
| "apply_patch rt admit fuel (SetSelectIndex nid index) sc = Some (apply_set_select_index nid index sc)"
| "apply_patch rt admit fuel (SetFocus nid) sc = Some (apply_set_focus nid sc)"
| "apply_patch rt admit fuel (SetScroll offset) sc = Some (apply_set_scroll offset sc)"

fun apply_all :: "runtime \<Rightarrow> admission \<Rightarrow> nat \<Rightarrow> Patch list \<Rightarrow> Scene \<Rightarrow> Scene option" where
  "apply_all rt admit fuel [] sc = Some sc"
| "apply_all rt admit fuel (p # ps) sc = Option.bind (apply_patch rt admit fuel p sc) (apply_all rt admit fuel ps)"

end
