(* ===== verification/Arena_Laws.thy ===== *)
theory Arena_Laws
  imports Patch
begin

text \<open>
  The arena of scene nodes: the free list names exactly the empty slots, an insertion hands out a key
  that is not in use, and a key that was removed stays dead.
\<close>

section \<open>Well-formedness\<close>

definition arena_ok :: "SceneNodes \<Rightarrow> bool" where
  "arena_ok ns \<longleftrightarrow>
     distinct (free ns) \<and>
     set (free ns) = {i. i < length (slots ns) \<and> slot_node (slots ns ! i) = None} \<and>
     len_nodes ns + length (free ns) = length (slots ns) \<and>
     length (slots ns) \<le> limit ns \<and>
     (\<forall>s \<in> set (slots ns). odd (slot_version s))"

lemma nodes_get_some: "nodes_get ns (i, v) = Some n \<longleftrightarrow>
    i < length (slots ns) \<and> slot_version (slots ns ! i) = v \<and> slot_node (slots ns ! i) = Some n"
  by (auto simp: nodes_get_def)

lemma arena_ok_default: "arena_ok nodes_default"
  by (simp add: arena_ok_def nodes_default_def)

lemma arena_ok_capacity: "nodes_with_capacity rt n = Some ns \<Longrightarrow> arena_ok ns"
  by (auto simp: arena_ok_def nodes_with_capacity_def split: if_splits)

lemma odd_version: "arena_ok ns \<Longrightarrow> i < length (slots ns) \<Longrightarrow> odd (slot_version (slots ns ! i))"
  by (auto simp: arena_ok_def)

lemma next_version: "odd (v :: u32) \<Longrightarrow> (v + 2) OR 1 = v + 2"
  by (simp add: or_one_eq)

section \<open>Insertion\<close>

lemma insert_with_key_cases:
  assumes ok: "arena_ok ns" and ins: "insert_with_key build ns = (r, ns')"
  shows "case r of
      None \<Rightarrow> \<not> has_spare_capacity ns \<and> ns' = ns
    | Some nid \<Rightarrow> has_spare_capacity ns \<and> nodes_get ns nid = None \<and> nodes_get ns' nid = Some (build nid) \<and>
        (\<forall>k. k \<noteq> nid \<longrightarrow> nodes_get ns' k = nodes_get ns k) \<and> arena_ok ns'"
proof (cases "free ns = []")
  case True
  show ?thesis
  proof (cases "length (slots ns) = limit ns")
    case full: True
    with True ins show ?thesis
      by (auto simp: insert_with_key_def has_spare_capacity_def)
  next
    case False
    let ?i = "length (slots ns)"
    have r: "r = Some (?i, 1)" "ns' = ns\<lparr>slots := slots ns @ [\<lparr>slot_version = 1, slot_node = Some (build (?i, 1))\<rparr>],
        len_nodes := len_nodes ns + 1\<rparr>"
      using ins True False by (auto simp: insert_with_key_def Let_def)
    have spare: "has_spare_capacity ns"
      using ok False by (simp add: has_spare_capacity_def arena_ok_def)
    have "nodes_get ns (?i, 1) = None" "nodes_get ns' (?i, 1) = Some (build (?i, 1))"
      by (auto simp: nodes_get_def r)
    moreover have "nodes_get ns' k = nodes_get ns k" if "k \<noteq> (?i, 1)" for k
      using that by (cases k) (auto simp: nodes_get_def r nth_append)
    moreover have "arena_ok ns'"
      using ok True False by (auto simp: arena_ok_def r nth_append less_Suc_eq)
    ultimately show ?thesis
      using spare by (simp add: r)
  qed
next
  case False
  define i where "i = last (free ns)"
  have i: "i < length (slots ns)" "slot_node (slots ns ! i) = None"
    using ok False last_in_set[OF False] by (auto simp: arena_ok_def i_def)
  let ?nid = "(i, slot_version (slots ns ! i))"
  have r: "r = Some ?nid" "ns' = ns\<lparr>free := butlast (free ns),
      slots := (slots ns)[i := (slots ns ! i)\<lparr>slot_node := Some (build ?nid)\<rparr>], len_nodes := len_nodes ns + 1\<rparr>"
    using ins False i by (auto simp: insert_with_key_def Let_def i_def)
  obtain rest where rest: "free ns = rest @ [i]"
    using False by (metis append_butlast_last_id i_def)
  have "nodes_get ns ?nid = None" "nodes_get ns' ?nid = Some (build ?nid)"
    using i by (auto simp: nodes_get_def r)
  moreover have "nodes_get ns' k = nodes_get ns k" if "k \<noteq> ?nid" for k
    using that i by (cases k) (auto simp: nodes_get_def r nth_list_update)
  moreover have "arena_ok ns'"
  proof -
    have version: "odd (slot_version (slots ns ! i))"
      using odd_version[OF ok i(1)] .
    have "set (slots ns') \<subseteq> insert ((slots ns ! i)\<lparr>slot_node := Some (build ?nid)\<rparr>) (set (slots ns))"
      by (simp add: r set_update_subset_insert)
    with version ok have "\<forall>s \<in> set (slots ns'). odd (slot_version s)"
      by (auto simp: arena_ok_def)
    with ok i rest show ?thesis
      by (auto simp: arena_ok_def r nth_list_update)
  qed
  ultimately show ?thesis
    using False by (simp add: r has_spare_capacity_def)
qed


section \<open>Modification and removal\<close>

lemma nodes_get_modify:
  "nodes_get (nodes_modify nid f ns) k = (if k = nid then map_option f (nodes_get ns k) else nodes_get ns k)"
proof (cases nid)
  case (Pair i v)
  show ?thesis
  proof (cases "nodes_get ns (i, v)")
    case (Some n)
    then show ?thesis
      using Pair by (cases k) (auto simp: nodes_modify_def nodes_get_def nth_list_update split: if_splits)
  qed (use Pair in \<open>auto simp: nodes_modify_def\<close>)
qed

lemma modify_fields [simp]:
  "free (nodes_modify nid f ns) = free ns"
  "limit (nodes_modify nid f ns) = limit ns"
  "len_nodes (nodes_modify nid f ns) = len_nodes ns"
  "length (slots (nodes_modify nid f ns)) = length (slots ns)"
  by (auto simp: nodes_modify_def split: option.splits)

lemma modify_slot:
  assumes "i < length (slots ns)"
  shows "slot_version (slots (nodes_modify nid f ns) ! i) = slot_version (slots ns ! i)"
    and "slot_node (slots (nodes_modify nid f ns) ! i) = None \<longleftrightarrow> slot_node (slots ns ! i) = None"
  using assms by (cases nid; auto simp: nodes_modify_def nodes_get_def nth_list_update split: option.splits if_splits)+

lemma modify_ok: "arena_ok ns \<Longrightarrow> arena_ok (nodes_modify nid f ns)"
  by (auto simp: arena_ok_def modify_slot all_set_conv_all_nth)

lemma nodes_get_remove:
  "nodes_get (snd (nodes_remove nid ns)) k = (if k = nid then None else nodes_get ns k)"
proof (cases "nodes_get ns nid")
  case None
  then show ?thesis
    by (auto simp: nodes_remove_def)
next
  case (Some n)
  obtain i v where nid: "nid = (i, v)"
    by (cases nid)
  have i: "i < length (slots ns)" "slot_version (slots ns ! i) = v"
    using Some by (simp_all add: nid nodes_get_some)
  show ?thesis
  proof (cases "fst k = i")
    case True
    then show ?thesis
      using Some i by (cases k) (simp add: nodes_remove_def nid nodes_get_def)
  next
    case False
    then show ?thesis
      using Some by (cases k) (auto simp: nodes_remove_def nid nodes_get_def)
  qed
qed

lemma remove_cases:
  assumes ok: "arena_ok ns" and rem: "nodes_remove nid ns = (r, ns')"
  shows "r = nodes_get ns nid" "nodes_get ns' nid = None" "k \<noteq> nid \<Longrightarrow> nodes_get ns' k = nodes_get ns k"
    and "arena_ok ns'"
proof -
  obtain i v where nid: "nid = (i, v)"
    by (cases nid)
  show "r = nodes_get ns nid"
    using rem by (auto simp: nodes_remove_def split: option.splits)
  show "nodes_get ns' nid = None" "k \<noteq> nid \<Longrightarrow> nodes_get ns' k = nodes_get ns k" for k
    using nodes_get_remove[of nid ns] rem by simp_all
  show "arena_ok ns'"
  proof (cases "nodes_get ns nid")
    case None
    with rem ok show ?thesis
      by (simp add: nodes_remove_def)
  next
    case (Some n)
    then have i: "i < length (slots ns)" "slot_version (slots ns ! i) = v" "slot_node (slots ns ! i) = Some n"
      by (auto simp: nid nodes_get_some)
    have ns': "ns' = ns\<lparr>slots := (slots ns)[i := \<lparr>slot_version = (v + 2) OR 1, slot_node = None\<rparr>],
        free := free ns @ [i], len_nodes := len_nodes ns - 1\<rparr>"
      using rem Some i by (simp add: nodes_remove_def nid)
    have "set (slots ns') \<subseteq> insert \<lparr>slot_version = (v + 2) OR 1, slot_node = None\<rparr> (set (slots ns))"
      by (simp add: ns' set_update_subset_insert)
    moreover have "odd ((v + 2) OR 1)"
      using odd_version[OF ok i(1)] by (simp add: i next_version)
    ultimately have "\<forall>s \<in> set (slots ns'). odd (slot_version s)"
      using ok by (auto simp: arena_ok_def)
    moreover have "len_nodes ns \<noteq> 0"
    proof
      assume "len_nodes ns = 0"
      with ok have "card (set (free ns)) = length (slots ns)" "set (free ns) \<subseteq> {..<length (slots ns)}"
        using distinct_card[of "free ns"] by (auto simp: arena_ok_def)
      then have "set (free ns) = {..<length (slots ns)}"
        by (intro card_subset_eq) auto
      then have "i \<in> set (free ns)"
        using i by simp
      with i ok show False
        by (simp add: arena_ok_def)
    qed
    moreover have "set (free ns') = {k. k < length (slots ns') \<and> slot_node (slots ns' ! k) = None}"
      using ok i by (auto simp: arena_ok_def ns' nth_list_update)
    moreover have "distinct (free ns')"
      using ok i by (simp add: arena_ok_def ns')
    moreover have "len_nodes ns + length (free ns) = length (slots ns)" "length (slots ns) \<le> limit ns"
      using ok by (simp_all add: arena_ok_def)
    ultimately show ?thesis
      unfolding arena_ok_def by (auto simp: ns')
  qed
qed

section \<open>Keys stay dead\<close>

inductive arena_step :: "SceneNodes \<Rightarrow> SceneNodes \<Rightarrow> bool" where
  inserts: "arena_step ns (snd (insert_with_key build ns))"
| modifies: "arena_step ns (nodes_modify nid f ns)"
| removes: "arena_step ns (snd (nodes_remove nid ns))"

text \<open>How often the version of slot \<open>i\<close> has slot_moved on.\<close>

definition slot_moved :: "nat \<Rightarrow> nat \<Rightarrow> SceneNodes \<Rightarrow> SceneNodes \<Rightarrow> bool" where
  "slot_moved i n ns ns' \<longleftrightarrow> i < length (slots ns') \<and>
     (\<exists>j \<le> n. slot_version (slots ns' ! i) = slot_version (slots ns ! i) + 2 * of_nat j)"

lemma arena_step_slot:
  assumes ok: "arena_ok ns" and step: "arena_step ns ns'" and i: "i < length (slots ns)"
  shows "arena_ok ns'" "slot_moved i 1 ns ns'"
proof -
  show "arena_ok ns'"
    using step
  proof cases
    case (inserts build)
    obtain r where "insert_with_key build ns = (r, ns')"
      using inserts by (cases "insert_with_key build ns") auto
    with insert_with_key_cases[OF ok this] ok show ?thesis
      by (auto split: option.splits)
  next
    case (removes nid)
    then show ?thesis
      using remove_cases(4)[OF ok, of nid "fst (nodes_remove nid ns)" ns'] by simp
  qed (simp add: modify_ok ok)
  show "slot_moved i 1 ns ns'"
    using step
  proof cases
    case (inserts build)
    have "slot_version (slots ns' ! i) = slot_version (slots ns ! i) \<and> i < length (slots ns')"
      using i by (auto simp: inserts insert_with_key_def Let_def nth_append nth_list_update)
    then show ?thesis
      by (auto simp: slot_moved_def intro!: exI[of _ 0])
  next
    case (modifies nid f)
    then show ?thesis
      using i by (auto simp: slot_moved_def modify_slot intro!: exI[of _ 0])
  next
    case (removes nid)
    show ?thesis
    proof (cases "nodes_get ns nid \<noteq> None \<and> fst nid = i")
      case True
      with i odd_version[OF ok i] show ?thesis
        by (auto simp: slot_moved_def removes nodes_remove_def next_version intro!: exI[of _ 1])
    next
      case False
      with i show ?thesis
        by (auto simp: slot_moved_def removes nodes_remove_def nth_list_update intro!: exI[of _ 0] split: option.splits)
    qed
  qed
qed

lemma arena_run_slot:
  "(arena_step ^^ n) ns ns' \<Longrightarrow> arena_ok ns \<Longrightarrow> i < length (slots ns) \<Longrightarrow> arena_ok ns' \<and> slot_moved i n ns ns'"
proof (induction n arbitrary: ns')
  case 0
  then show ?case
    by (simp add: slot_moved_def)
next
  case (Suc n)
  then obtain m where m: "(arena_step ^^ n) ns m" "arena_step m ns'"
    by auto
  with Suc have IH: "arena_ok m" "slot_moved i n ns m"
    by auto
  then have step: "arena_ok ns'" "slot_moved i 1 m ns'"
    using arena_step_slot[OF IH(1) m(2), of i] by (auto simp: slot_moved_def)
  then obtain j j' where "j \<le> n" "j' \<le> 1" "i < length (slots ns')"
    "slot_version (slots m ! i) = slot_version (slots ns ! i) + 2 * of_nat j"
    "slot_version (slots ns' ! i) = slot_version (slots m ! i) + 2 * of_nat j'"
    using IH by (auto simp: slot_moved_def)
  then have "slot_moved i (Suc n) ns ns'"
    by (auto simp: slot_moved_def algebra_simps intro!: exI[of _ "j + j'"])
  with step show ?case
    by simp
qed

lemma version_gap:
  assumes "j < 2 ^ 31 - 1"
  shows "(v :: u32) + 2 + 2 * of_nat j \<noteq> v"
proof
  assume "v + 2 + 2 * of_nat j = v"
  then have "(of_nat (2 * (j + 1)) :: u32) = 0"
    by (simp add: algebra_simps)
  then have "2 ^ 32 dvd 2 * (j + 1)"
    unfolding word_of_nat_eq_0_iff by simp
  then show False
    using assms by (auto dest!: dvd_imp_le)
qed

lemma removed_key_stays_dead:
  assumes ok: "arena_ok ns" and live: "nodes_get ns nid \<noteq> None"
    and run: "(arena_step ^^ n) (snd (nodes_remove nid ns)) ns'" and n: "n < 2 ^ 31 - 1"
  shows "nodes_get ns' nid = None"
proof -
  obtain i v where nid: "nid = (i, v)"
    by (cases nid)
  let ?ns = "snd (nodes_remove nid ns)"
  have i: "i < length (slots ns)" "slot_version (slots ns ! i) = v"
    using live by (auto simp: nid nodes_get_def split: if_splits)
  have rem: "i < length (slots ?ns)" "slot_version (slots ?ns ! i) = v + 2"
    using live i odd_version[OF ok i(1)] by (auto simp: nodes_remove_def nid next_version)
  have "arena_ok ?ns"
    using remove_cases(4)[OF ok, of nid "fst (nodes_remove nid ns)" ?ns] by simp
  from arena_run_slot[OF run this rem(1)] obtain j where
    "j \<le> n" "slot_version (slots ns' ! i) = v + 2 + 2 * of_nat j"
    by (auto simp: slot_moved_def rem)
  then have "slot_version (slots ns' ! i) \<noteq> v"
    using n version_gap[of j v] by auto
  then show ?thesis
    by (simp add: nodes_get_def nid)
qed

end
