(* ===== verification/Relayout.thy ===== *)
theory Relayout
  imports Arena_Laws
begin

text \<open>
  Relayout transactions: whatever layout writes between \<open>begin_relayout_transaction\<close> and
  \<open>rollback_relayout_transaction\<close>, the rollback restores every node's buffer, placement and focusable
  rectangle, the dirty regions and the error flag.
\<close>

section \<open>What layout does inside a transaction\<close>

text \<open>
  The operations of the layout pass. Buffers are written in place only when they are staged, that is
  when the live buffer is already in the journal.
\<close>

definition staged :: "NodeId \<Rightarrow> Scene \<Rightarrow> bool" where
  "staged nid sc \<longleftrightarrow> (case scene_journal sc of Some j \<Rightarrow> nid \<in> set (map fst (jr_buffers j)) | None \<Rightarrow> False)"

inductive layout_step :: "runtime \<Rightarrow> admission \<Rightarrow> Scene \<Rightarrow> Scene \<Rightarrow> bool" for rt admit where
  places: "layout_step rt admit sc (update_placement nid p sc)"
| focuses: "layout_step rt admit sc (update_focusable_rect nid r sc)"
| allocates: "layout_step rt admit sc (allocate_buffer rt admit nid w h sc)"
| ensures: "layout_step rt admit sc (ensure_buffer rt admit nid w h sc)"
| stages: "layout_step rt admit sc (snd (stage_buffer_for_relayout rt admit nid sc))"
| paints: "staged nid sc \<Longrightarrow> layout_step rt admit sc (update_buffer may nid f sc)"
| marks: "layout_step rt admit sc (modify_inv (mark_composite r) sc)"
| bounds: "layout_step rt admit sc (modify_inv (mark_composite_bounded r) sc)"
| relayouts: "layout_step rt admit sc (mark_layout nid sc)"
| drains: "layout_step rt admit sc (modify_inv (\<lambda>i. i\<lparr>inv_layout := []\<rparr>) sc)"
| fails: "layout_step rt admit sc (record_resource_error sc)"
| measures: "layout_step rt admit sc (set_cached_measure nid w h sc)"
| passes: "layout_step rt admit sc (begin_layout_pass sc)"

section \<open>The journal undoes it\<close>

definition unmeasured :: "Node \<Rightarrow> Node" where
  "unmeasured n = n\<lparr>node_measured := None\<rparr>"

definition undo_buffer :: "RelayoutJournal \<Rightarrow> NodeId \<Rightarrow> Node \<Rightarrow> Node" where
  "undo_buffer j k n = (case map_of (jr_buffers j) k of Some b \<Rightarrow> n\<lparr>node_buffer := b\<rparr> | None \<Rightarrow> n)"

definition undo_layout :: "RelayoutJournal \<Rightarrow> NodeId \<Rightarrow> Node \<Rightarrow> Node" where
  "undo_layout j k n =
     (case map_of (jr_layouts j) k of Some (p, r) \<Rightarrow> n\<lparr>node_placement := p, node_focusable_rect := r\<rparr> | None \<Rightarrow> n)"

abbreviation undo :: "RelayoutJournal \<Rightarrow> NodeId \<Rightarrow> Node \<Rightarrow> Node" where
  "undo j k n \<equiv> unmeasured (undo_layout j k (undo_buffer j k n))"

text \<open>Everything of a scene but its nodes, dirty regions, error flag, journal and pass counter.\<close>

definition frame :: "Scene \<Rightarrow> Scene" where
  "frame sc = sc\<lparr>scene_nodes := nodes_default, scene_inv := invalidation_default, scene_resource_error := False,
     scene_journal := None, scene_layout_pass := 0\<rparr>"

definition journaled :: "Scene \<Rightarrow> Scene \<Rightarrow> bool" where
  "journaled sc0 sc \<longleftrightarrow>
     frame sc = frame sc0 \<and> inv_layout_room (scene_inv sc) = inv_layout_room (scene_inv sc0) \<and>
     (\<exists>j. scene_journal sc = Some j \<and>
        distinct (map fst (jr_buffers j)) \<and> distinct (map fst (jr_layouts j)) \<and>
        jr_layout j = inv_layout (scene_inv sc0) \<and> jr_composite j = rect_slice (inv_composite (scene_inv sc0)) \<and>
        jr_present j = rect_slice (inv_present (scene_inv sc0)) \<and> jr_resource_error j = scene_resource_error sc0 \<and>
        (\<forall>k. map_option (undo j k) (scene_get sc k) = map_option unmeasured (scene_get sc0 k)))"

lemma scene_get_modify:
  "scene_get (modify_node nid f sc) k = (if k = nid then map_option f (scene_get sc k) else scene_get sc k)"
  by (simp add: scene_get_def modify_node_def nodes_get_modify)

lemma frame_simps [simp]:
  "frame (modify_node nid f sc) = frame sc"
  "frame (modify_inv g sc) = frame sc"
  "frame (record_resource_error sc) = frame sc"
  "frame (sc\<lparr>scene_journal := x\<rparr>) = frame sc"
  "frame (sc\<lparr>scene_inv := i\<rparr>) = frame sc"
  "frame (sc\<lparr>scene_layout_pass := p\<rparr>) = frame sc"
  by (simp_all add: frame_def modify_node_def modify_inv_def record_resource_error_def)

lemma scene_get_simps [simp]:
  "scene_get (modify_inv g sc) = scene_get sc"
  "scene_get (record_resource_error sc) = scene_get sc"
  "scene_get (sc\<lparr>scene_journal := x\<rparr>) = scene_get sc"
  "scene_get (sc\<lparr>scene_inv := i\<rparr>) = scene_get sc"
  "scene_get (sc\<lparr>scene_layout_pass := p\<rparr>) = scene_get sc"
  by (simp_all add: scene_get_def modify_inv_def record_resource_error_def)

lemma journal_simps [simp]:
  "scene_journal (modify_node nid f sc) = scene_journal sc"
  "scene_journal (modify_inv g sc) = scene_journal sc"
  "scene_journal (record_resource_error sc) = scene_journal sc"
  by (simp_all add: modify_node_def modify_inv_def record_resource_error_def)

lemma inv_simps [simp]:
  "scene_inv (modify_node nid f sc) = scene_inv sc"
  "scene_inv (modify_inv g sc) = g (scene_inv sc)"
  "scene_inv (record_resource_error sc) = scene_inv sc"
  by (simp_all add: modify_node_def modify_inv_def record_resource_error_def)

text \<open>The generic step: the other fields stay, and the journal still undoes the change.\<close>

lemma journaled_same:
  assumes "journaled sc0 sc" "frame sc' = frame sc" "scene_journal sc' = scene_journal sc"
    and "inv_layout_room (scene_inv sc') = inv_layout_room (scene_inv sc)"
    and "\<And>j k. scene_journal sc = Some j \<Longrightarrow>
      map_option (undo j k) (scene_get sc' k) = map_option (undo j k) (scene_get sc k)"
  shows "journaled sc0 sc'"
proof -
  obtain j where j: "scene_journal sc = Some j"
    "distinct (map fst (jr_buffers j)) \<and> distinct (map fst (jr_layouts j)) \<and>
     jr_layout j = inv_layout (scene_inv sc0) \<and> jr_composite j = rect_slice (inv_composite (scene_inv sc0)) \<and>
     jr_present j = rect_slice (inv_present (scene_inv sc0)) \<and> jr_resource_error j = scene_resource_error sc0"
    "\<And>k. map_option (undo j k) (scene_get sc k) = map_option unmeasured (scene_get sc0 k)"
    using assms(1) by (auto simp: journaled_def)
  have "\<And>k. map_option (undo j k) (scene_get sc' k) = map_option unmeasured (scene_get sc0 k)"
    using assms(5)[OF j(1)] j(3) by simp
  then show ?thesis
    using assms(1-4) j(1,2) by (simp add: journaled_def)
qed

lemma undo_buffer_snoc:
  assumes "map_of (jr_buffers j) a = None"
  shows "undo_buffer (j\<lparr>jr_buffers := jr_buffers j @ [(a, b)]\<rparr>) k n
    = (if k = a then n\<lparr>node_buffer := b\<rparr> else undo_buffer j k n)"
  using assms by (simp add: undo_buffer_def map_add_def split: option.split)

lemma undo_layout_snoc:
  assumes "map_of (jr_layouts j) a = None"
  shows "undo_layout (j\<lparr>jr_layouts := jr_layouts j @ [(a, p, r)]\<rparr>) k n
    = (if k = a then n\<lparr>node_placement := p, node_focusable_rect := r\<rparr> else undo_layout j k n)"
  using assms by (simp add: undo_layout_def map_add_def split: option.split)

lemma undo_other [simp]:
  "undo_buffer (j\<lparr>jr_layouts := xs\<rparr>) = undo_buffer j"
  "undo_layout (j\<lparr>jr_buffers := ys\<rparr>) = undo_layout j"
  by (simp_all add: undo_buffer_def undo_layout_def fun_eq_iff)

lemma undo_none:
  "map_of (jr_buffers j) k = None \<Longrightarrow> undo_buffer j k n = n"
  "map_of (jr_layouts j) k = None \<Longrightarrow> undo_layout j k n = n"
  by (simp_all add: undo_buffer_def undo_layout_def)

lemma undo_buffer_self [simp]:
  "undo_buffer j k n\<lparr>node_placement := node_placement n, node_focusable_rect := node_focusable_rect n\<rparr> = undo_buffer j k n"
  by (cases n) (simp add: undo_buffer_def split: option.split)

lemma journaled_checkpoint_layout:
  assumes "journaled sc0 sc"
  shows "journaled sc0 (checkpoint_layout nid sc)"
    and "scene_get (checkpoint_layout nid sc) = scene_get sc"
    and "scene_get sc nid \<noteq> None \<Longrightarrow>
      \<exists>j. scene_journal (checkpoint_layout nid sc) = Some j \<and> nid \<in> set (map fst (jr_layouts j))"
proof -
  obtain j where j: "scene_journal sc = Some j"
    "distinct (map fst (jr_buffers j))" "distinct (map fst (jr_layouts j))"
    "jr_layout j = inv_layout (scene_inv sc0)" "jr_composite j = rect_slice (inv_composite (scene_inv sc0))"
    "jr_present j = rect_slice (inv_present (scene_inv sc0))" "jr_resource_error j = scene_resource_error sc0"
    "\<And>k. map_option (undo j k) (scene_get sc k) = map_option unmeasured (scene_get sc0 k)"
    using assms by (auto simp: journaled_def)
  show "scene_get (checkpoint_layout nid sc) = scene_get sc"
    by (simp add: checkpoint_layout_def split: option.split)
  show "\<exists>j. scene_journal (checkpoint_layout nid sc) = Some j \<and> nid \<in> set (map fst (jr_layouts j))"
    if "scene_get sc nid \<noteq> None"
    using that j(1) by (auto simp: checkpoint_layout_def split: option.split)
  show "journaled sc0 (checkpoint_layout nid sc)"
  proof (cases "nid \<in> set (map fst (jr_layouts j)) \<or> scene_get sc nid = None")
    case True
    with assms j show ?thesis
      by (auto simp: checkpoint_layout_def split: option.split)
  next
    case False
    then obtain n where n: "scene_get sc nid = Some n" "nid \<notin> set (map fst (jr_layouts j))"
      by auto
    let ?j = "j\<lparr>jr_layouts := jr_layouts j @ [(nid, node_placement n, node_focusable_rect n)]\<rparr>"
    have none: "map_of (jr_layouts j) nid = None"
      using n by (simp add: map_of_eq_None_iff)
    have "map_option (undo ?j k) (scene_get sc k) = map_option (undo j k) (scene_get sc k)" for k
      using n none by (cases "k = nid") (simp_all add: undo_layout_snoc undo_none)
    then show ?thesis
      using assms j n by (auto simp: checkpoint_layout_def journaled_def)
  qed
qed

lemma journaled_checkpoint_buffer:
  assumes "journaled sc0 sc"
  shows "journaled sc0 (checkpoint_buffer nid sc)"
    and "scene_get sc nid \<noteq> None \<Longrightarrow> staged nid (checkpoint_buffer nid sc)"
    and "scene_get (checkpoint_buffer nid sc) nid = None \<longleftrightarrow> scene_get sc nid = None"
proof -
  obtain j where j: "scene_journal sc = Some j"
    "distinct (map fst (jr_buffers j))" "distinct (map fst (jr_layouts j))"
    "jr_layout j = inv_layout (scene_inv sc0)" "jr_composite j = rect_slice (inv_composite (scene_inv sc0))"
    "jr_present j = rect_slice (inv_present (scene_inv sc0))" "jr_resource_error j = scene_resource_error sc0"
    "\<And>k. map_option (undo j k) (scene_get sc k) = map_option unmeasured (scene_get sc0 k)"
    using assms by (auto simp: journaled_def)
  show "staged nid (checkpoint_buffer nid sc)" if "scene_get sc nid \<noteq> None"
    using that j(1) by (auto simp: checkpoint_buffer_def staged_def split: option.split)
  show "scene_get (checkpoint_buffer nid sc) nid = None \<longleftrightarrow> scene_get sc nid = None"
    by (auto simp: checkpoint_buffer_def scene_get_modify split: option.split)
  show "journaled sc0 (checkpoint_buffer nid sc)"
  proof (cases "nid \<in> set (map fst (jr_buffers j)) \<or> scene_get sc nid = None")
    case True
    with assms j show ?thesis
      by (auto simp: checkpoint_buffer_def split: option.split)
  next
    case False
    then obtain n where n: "scene_get sc nid = Some n" "nid \<notin> set (map fst (jr_buffers j))"
      by auto
    let ?j = "j\<lparr>jr_buffers := jr_buffers j @ [(nid, node_buffer n)]\<rparr>"
    let ?sc = "modify_node nid (\<lambda>n. n\<lparr>node_buffer := None\<rparr>) sc"
    have none: "map_of (jr_buffers j) nid = None"
      using n by (simp add: map_of_eq_None_iff)
    have "map_option (undo ?j k) (scene_get ?sc k) = map_option (undo j k) (scene_get sc k)" for k
      using n none
      by (cases "k = nid") (simp_all add: undo_buffer_snoc undo_none scene_get_modify)
    then show ?thesis
      using assms j n by (auto simp: checkpoint_buffer_def journaled_def)
  qed
qed

text \<open>Changes to a journaled field are undone.\<close>

lemma journaled_modify_buffer:
  assumes "journaled sc0 sc" "staged nid sc \<or> scene_get sc nid = None"
    and "\<And>n. \<exists>b. f n = n\<lparr>node_buffer := b\<rparr>"
  shows "journaled sc0 (modify_node nid f sc)"
proof (rule journaled_same[OF assms(1)])
  fix j k assume j: "scene_journal sc = Some j"
  have "undo j nid (f n) = undo j nid n" if nid: "staged nid sc" for n
  proof -
    obtain b where "map_of (jr_buffers j) nid = Some b"
      using nid j by (cases "map_of (jr_buffers j) nid") (simp_all add: staged_def map_of_eq_None_iff)
    moreover obtain b' where "f n = n\<lparr>node_buffer := b'\<rparr>"
      using assms(3) by blast
    ultimately show ?thesis
      by (simp add: undo_buffer_def)
  qed
  then show "map_option (undo j k) (scene_get (modify_node nid f sc) k) = map_option (undo j k) (scene_get sc k)"
    using assms(2) by (auto simp: scene_get_modify option.map_comp comp_def)
qed simp_all

lemma journaled_modify_layout:
  assumes "journaled sc0 sc"
    and "\<And>n. \<exists>p r. f n = n\<lparr>node_placement := p, node_focusable_rect := r\<rparr>"
  shows "journaled sc0 (modify_node nid f (checkpoint_layout nid sc))"
proof (rule journaled_same[OF journaled_checkpoint_layout(1)[OF assms(1)]])
  let ?sc = "checkpoint_layout nid sc"
  fix j k assume j: "scene_journal ?sc = Some j"
  have "undo j nid (f n) = undo j nid n" if "scene_get ?sc nid \<noteq> None" for n
  proof -
    have "nid \<in> set (map fst (jr_layouts j))"
      using journaled_checkpoint_layout(2,3)[OF assms(1), of nid] that j by auto
    then obtain p r where "map_of (jr_layouts j) nid = Some (p, r)"
      by (cases "map_of (jr_layouts j) nid") (auto simp: map_of_eq_None_iff)
    moreover obtain p' r' where "f n = n\<lparr>node_placement := p', node_focusable_rect := r'\<rparr>"
      using assms(2) by blast
    ultimately show ?thesis
      by (simp add: undo_buffer_def undo_layout_def split: option.split)
  qed
  then show "map_option (undo j k) (scene_get (modify_node nid f ?sc) k) = map_option (undo j k) (scene_get ?sc k)"
    by (cases "scene_get ?sc nid") (auto simp: scene_get_modify)
qed simp_all

lemma journaled_modify_measured:
  assumes "journaled sc0 sc"
  shows "journaled sc0 (modify_node nid (\<lambda>n. n\<lparr>node_measured := m\<rparr>) sc)"
proof (rule journaled_same[OF assms])
  fix j k
  have "undo j nid (n\<lparr>node_measured := m\<rparr>) = undo j nid n" for n
    by (simp add: undo_layout_def undo_buffer_def unmeasured_def option.case_eq_if case_prod_beta)
  then show "map_option (undo j k) (scene_get (modify_node nid (\<lambda>n. n\<lparr>node_measured := m\<rparr>) sc) k)
      = map_option (undo j k) (scene_get sc k)"
    by (simp add: scene_get_modify option.map_comp comp_def)
qed simp_all

lemma journaled_modify_inv:
  assumes "journaled sc0 sc" "\<And>i. inv_layout_room (g i) = inv_layout_room i"
  shows "journaled sc0 (modify_inv g sc)"
  by (rule journaled_same[OF assms(1)]) (simp_all add: assms(2))

lemma journaled_error: "journaled sc0 sc \<Longrightarrow> journaled sc0 (record_resource_error sc)"
  by (rule journaled_same) simp_all


section \<open>Every layout step is journaled\<close>

lemma journaled_scene: "journaled sc0 sc \<Longrightarrow> scene_journal sc \<noteq> None"
  by (auto simp: journaled_def)

lemma journaled_allocate:
  assumes "journaled sc0 sc"
  shows "journaled sc0 (allocate_buffer rt admit nid w h sc)"
proof -
  note cp = journaled_checkpoint_buffer[OF assms, of nid]
  have "journaled sc0 (modify_node nid (\<lambda>n. n\<lparr>node_buffer := b\<rparr>) (checkpoint_buffer nid sc))" for b
    using cp by (intro journaled_modify_buffer) auto
  then show ?thesis
    using cp(1) by (simp add: allocate_buffer_def Let_def journaled_error split: option.split)
qed

lemma journaled_stage:
  assumes "journaled sc0 sc" "stage_buffer_for_relayout rt admit nid sc = (ok, sc')"
  shows "journaled sc0 sc'" "ok \<Longrightarrow> staged nid sc' \<or> scene_get sc' nid = None"
proof -
  obtain j where j: "scene_journal sc = Some j"
    using journaled_scene[OF assms(1)] by auto
  note cp = journaled_checkpoint_buffer[OF assms(1), of nid]
  have mod: "journaled sc0 (modify_node nid (\<lambda>n. n\<lparr>node_buffer := b\<rparr>) (checkpoint_buffer nid sc))" for b
    using cp by (intro journaled_modify_buffer) auto
  have staged_mod: "staged nid (modify_node nid f sc) = staged nid sc" for f sc
    by (simp add: staged_def)
  show "journaled sc0 sc'"
    using assms cp(1) mod j by (auto simp: stage_buffer_for_relayout_def Let_def journaled_error split: if_splits)
  show "staged nid sc' \<or> scene_get sc' nid = None" if "ok"
  proof (cases "nid \<in> set (map fst (jr_buffers j))")
    case True
    with assms(2) j show ?thesis
      by (simp add: stage_buffer_for_relayout_def staged_def)
  next
    case False
    have "staged nid (checkpoint_buffer nid sc) \<or> scene_get (checkpoint_buffer nid sc) nid = None"
      using cp(2,3) by (cases "scene_get sc nid") auto
    with False assms(2) j that show ?thesis
      by (auto simp: stage_buffer_for_relayout_def Let_def staged_mod scene_get_modify split: if_splits)
  qed
qed

lemma journaled_ensure:
  assumes "journaled sc0 sc"
  shows "journaled sc0 (ensure_buffer rt admit nid w h sc)"
proof -
  obtain ok sc' where st: "stage_buffer_for_relayout rt admit nid sc = (ok, sc')"
    by (cases "stage_buffer_for_relayout rt admit nid sc")
  note s = journaled_stage[OF assms st]
  have mod: "ok \<Longrightarrow> journaled sc0 (modify_node nid (\<lambda>n. n\<lparr>node_buffer := b\<rparr>) sc')" for b
    using s by (intro journaled_modify_buffer) auto
  show ?thesis
    using s(1) mod journaled_allocate[OF s(1)] assms st
    by (auto simp: ensure_buffer_def Let_def journaled_error split: option.split bool.split)
qed

lemma journaled_step:
  assumes "journaled sc0 sc" "layout_step rt admit sc sc'"
  shows "journaled sc0 sc'"
  using assms(2)
proof cases
  case (places nid p)
  have "journaled sc0 (modify_node nid (\<lambda>n. n\<lparr>node_placement := p\<rparr>) (checkpoint_layout nid sc))"
  proof (rule journaled_modify_layout[OF assms(1)])
    show "\<exists>p' r. n\<lparr>node_placement := p\<rparr> = n\<lparr>node_placement := p', node_focusable_rect := r\<rparr>" for n
      by (rule exI[of _ p], rule exI[of _ "node_focusable_rect n"], cases n) simp
  qed
  from journaled_modify_inv[OF this] assms(1) show ?thesis
    by (auto simp: places update_placement_def mark_composite_def split: option.split)
next
  case (focuses nid r)
  show ?thesis
    unfolding focuses update_focusable_rect_def
  proof (rule journaled_modify_layout[OF assms(1)])
    show "\<exists>p r'. n\<lparr>node_focusable_rect := Some r\<rparr> = n\<lparr>node_placement := p, node_focusable_rect := r'\<rparr>" for n
      by (rule exI[of _ "node_placement n"], rule exI[of _ "Some r"], cases n) simp
  qed
next
  case (allocates nid w h)
  then show ?thesis
    by (simp add: journaled_allocate assms)
next
  case (ensures nid w h)
  then show ?thesis
    by (simp add: journaled_ensure assms)
next
  case (stages nid)
  then show ?thesis
    using journaled_stage(1)[OF assms(1), of rt admit nid] by (cases "stage_buffer_for_relayout rt admit nid sc") auto
next
  case (paints nid may f)
  show ?thesis
    unfolding paints(1) update_buffer_def
  proof (rule journaled_modify_buffer[OF assms(1)])
    show "staged nid sc \<or> scene_get sc nid = None"
      using paints by simp
    show "\<exists>b. (if may (node_kind n) then n\<lparr>node_buffer := map_option f (node_buffer n)\<rparr> else n) = n\<lparr>node_buffer := b\<rparr>" for n
      by (rule exI[of _ "if may (node_kind n) then map_option f (node_buffer n) else node_buffer n"], cases n) simp
  qed
next
  case (marks r)
  then show ?thesis
    using journaled_modify_inv[OF assms(1), of "mark_composite r"] by (simp add: mark_composite_def)
next
  case (bounds r)
  then show ?thesis
    using journaled_modify_inv[OF assms(1), of "mark_composite_bounded r"] by (simp add: mark_composite_bounded_def)
next
  case (relayouts nid)
  have room: "inv_layout_room (snd (layout_insert nid i)) = inv_layout_room i" for i
    by (simp add: layout_insert_def)
  have eq: "sc' = (if fst (layout_insert nid (scene_inv sc)) then modify_inv (\<lambda>i. snd (layout_insert nid i)) sc
      else record_resource_error (modify_inv (\<lambda>i. snd (layout_insert nid i)) sc))"
    by (cases "layout_insert nid (scene_inv sc)") (auto simp: relayouts mark_layout_def modify_inv_def)
  show ?thesis
    using journaled_modify_inv[OF assms(1), of "\<lambda>i. snd (layout_insert nid i)"] room by (simp add: eq journaled_error)
next
  case drains
  then show ?thesis
    using journaled_modify_inv[OF assms(1), of "\<lambda>i. i\<lparr>inv_layout := []\<rparr>"] by simp
next
  case fails
  then show ?thesis
    by (simp add: journaled_error assms)
next
  case (measures nid w h)
  then show ?thesis
    by (simp add: set_cached_measure_def journaled_modify_measured assms)
next
  case passes
  show ?thesis
    by (rule journaled_same[OF assms(1)]) (simp_all add: passes begin_layout_pass_def)
qed

section \<open>Rollback\<close>

lemma begin_journaled:
  assumes "begin_relayout_transaction rt admit sc0 = (True, sc)"
  shows "journaled sc0 sc"
  using assms
  by (auto simp: begin_relayout_transaction_def Let_def journaled_def undo_buffer_def undo_layout_def split: if_splits)

lemma restore_buffers:
  assumes "distinct (map fst cs)"
  shows "scene_get (fold restore_buffer cs sc) k
    = map_option (\<lambda>n. case map_of cs k of Some b \<Rightarrow> n\<lparr>node_buffer := b\<rparr> | None \<Rightarrow> n) (scene_get sc k)"
  using assms
proof (induction cs arbitrary: sc)
  case (Cons c cs)
  obtain nid b where c: "c = (nid, b)"
    by (cases c)
  have "map_of cs nid = None"
    using Cons(2) by (simp add: c map_of_eq_None_iff)
  with Cons show ?case
    by (cases "k = nid") (auto simp: c restore_buffer_def scene_get_modify option.map_comp comp_def)
qed (simp add: option.map_ident)

lemma restore_layouts:
  assumes "distinct (map fst cs)"
  shows "scene_get (fold restore_layout cs sc) k
    = map_option (\<lambda>n. case map_of cs k of Some (p, r) \<Rightarrow> n\<lparr>node_placement := p, node_focusable_rect := r\<rparr> | None \<Rightarrow> n)
        (scene_get sc k)"
  using assms
proof (induction cs arbitrary: sc)
  case (Cons c cs)
  obtain nid p r where c: "c = (nid, p, r)"
    by (cases c)
  have "map_of cs nid = None"
    using Cons(2) by (simp add: c map_of_eq_None_iff)
  with Cons show ?case
    by (cases "k = nid") (auto simp: c restore_layout_def scene_get_modify option.map_comp comp_def)
qed (simp add: option.map_ident)

lemma restore_frame [simp]:
  "frame (fold restore_buffer bs sc) = frame sc"
  "frame (fold restore_layout ls sc) = frame sc"
  "scene_inv (fold restore_buffer bs sc) = scene_inv sc"
  "scene_inv (fold restore_layout ls sc) = scene_inv sc"
proof -
  show "frame (fold restore_buffer bs sc) = frame sc" "scene_inv (fold restore_buffer bs sc) = scene_inv sc"
    by (induction bs arbitrary: sc; simp add: restore_buffer_def case_prod_beta)+
  show "frame (fold restore_layout ls sc) = frame sc" "scene_inv (fold restore_layout ls sc) = scene_inv sc"
    by (induction ls arbitrary: sc; simp add: restore_layout_def case_prod_beta)+
qed

lemma layout_extend_fresh:
  "distinct ids \<Longrightarrow> set ids \<inter> set (inv_layout i) = {} \<Longrightarrow> length (inv_layout i) + length ids \<le> inv_layout_room i \<Longrightarrow>
   layout_extend ids i = (True, i\<lparr>inv_layout := inv_layout i @ ids\<rparr>)"
  by (induction ids arbitrary: i) auto

text \<open>The dirty regions a scene starts a transaction with.\<close>

definition inv_ok :: "Invalidation \<Rightarrow> bool" where
  "inv_ok i \<longleftrightarrow> distinct (inv_layout i) \<and> length (inv_layout i) \<le> inv_layout_room i \<and>
     (case inv_composite i of Some r \<Rightarrow> \<not> rect_is_empty r | None \<Rightarrow> True) \<and>
     (case inv_present i of Some r \<Rightarrow> \<not> rect_is_empty r | None \<Rightarrow> True)"

lemma restore_slice:
  "(case d of Some r \<Rightarrow> \<not> rect_is_empty r | None \<Rightarrow> True) \<Longrightarrow> fold dirty_add (rect_slice d) None = d"
  by (cases d) (simp_all add: rect_slice_def dirty_add_def)

lemma rollback_restores:
  assumes "journaled sc0 sc" "inv_ok (scene_inv sc0)"
  shows "frame (rollback_relayout_transaction sc) = frame sc0"
    and "scene_inv (rollback_relayout_transaction sc) = scene_inv sc0"
    and "scene_resource_error (rollback_relayout_transaction sc) = scene_resource_error sc0"
    and "map_option unmeasured (scene_get (rollback_relayout_transaction sc) k) = map_option unmeasured (scene_get sc0 k)"
proof -
  obtain j where j: "scene_journal sc = Some j"
    "distinct (map fst (jr_buffers j))" "distinct (map fst (jr_layouts j))"
    "jr_layout j = inv_layout (scene_inv sc0)" "jr_composite j = rect_slice (inv_composite (scene_inv sc0))"
    "jr_present j = rect_slice (inv_present (scene_inv sc0))" "jr_resource_error j = scene_resource_error sc0"
    "\<And>k. map_option (undo j k) (scene_get sc k) = map_option unmeasured (scene_get sc0 k)"
    and fr: "frame sc = frame sc0" "inv_layout_room (scene_inv sc) = inv_layout_room (scene_inv sc0)"
    using assms(1) by (auto simp: journaled_def)
  let ?sc = "fold restore_layout (jr_layouts j) (fold restore_buffer (jr_buffers j) (sc\<lparr>scene_journal := None\<rparr>))"
  let ?inv = "invalidation_clear (scene_inv sc)"
  have ext: "layout_extend (jr_layout j) ?inv = (True, ?inv\<lparr>inv_layout := jr_layout j\<rparr>)"
    using assms(2) layout_extend_fresh[of "jr_layout j" ?inv] j fr
    by (simp add: inv_ok_def invalidation_clear_def)
  have undone: "rollback_relayout_transaction sc = ?sc\<lparr>scene_inv :=
      ?inv\<lparr>inv_layout := jr_layout j, inv_composite := inv_composite (scene_inv sc0), inv_present := inv_present (scene_inv sc0)\<rparr>,
      scene_resource_error := scene_resource_error sc0\<rparr>"
    using ext j assms(2) restore_slice[of "inv_composite (scene_inv sc0)"] restore_slice[of "inv_present (scene_inv sc0)"]
    by (simp add: rollback_relayout_transaction_def Let_def invalidation_clear_def inv_ok_def)
  have frame_error: "frame (x\<lparr>scene_inv := i, scene_resource_error := e\<rparr>) = frame x" for x i e
    by (simp add: frame_def)
  show "frame (rollback_relayout_transaction sc) = frame sc0"
    by (simp add: undone frame_error fr)
  show "scene_inv (rollback_relayout_transaction sc) = scene_inv sc0"
    using fr j by (simp add: undone invalidation_clear_def)
  show "scene_resource_error (rollback_relayout_transaction sc) = scene_resource_error sc0"
    by (simp add: undone)
  have get: "scene_get (x\<lparr>scene_inv := i, scene_resource_error := e\<rparr>) = scene_get x" for x i e
    by (simp add: scene_get_def)
  have "map_option unmeasured (scene_get ?sc k) = map_option (undo j k) (scene_get sc k)"
    using j by (simp add: restore_layouts restore_buffers option.map_comp comp_def undo_buffer_def undo_layout_def)
  then show "map_option unmeasured (scene_get (rollback_relayout_transaction sc) k) = map_option unmeasured (scene_get sc0 k)"
    using j(8)[of k] by (simp add: undone get)
qed

lemma relayout_rolls_back:
  assumes "begin_relayout_transaction rt admit sc0 = (True, sc)" "inv_ok (scene_inv sc0)"
    and "(layout_step rt admit)\<^sup>*\<^sup>* sc sc'"
  shows "frame (rollback_relayout_transaction sc') = frame sc0 \<and>
    scene_inv (rollback_relayout_transaction sc') = scene_inv sc0 \<and>
    scene_resource_error (rollback_relayout_transaction sc') = scene_resource_error sc0 \<and>
    (\<forall>k. map_option unmeasured (scene_get (rollback_relayout_transaction sc') k)
         = map_option unmeasured (scene_get sc0 k))"
proof -
  have "journaled sc0 sc'"
    using assms(3) begin_journaled[OF assms(1)] by (induction rule: rtranclp_induct) (auto intro: journaled_step)
  with rollback_restores assms(2) show ?thesis
    by blast
qed

end
