(* ===== verification/Scene_Build.thy ===== *)
theory Scene_Build
  imports Patch
begin

text \<open>
  \<open>compositor/scene/build.rs\<close>: the scene of a parsed document. The builder threads the arena, the
  index of identifiers and the flag that some allocation failed; vectors of strings and attributes
  are copied infallibly, as the code does. Reconciling a lease with what was retained only shrinks
  it and is not refused.
\<close>

section \<open>Categories of elements\<close>

datatype Category = NodeBearing | Ancillary | Inline

definition classify :: "Element \<Rightarrow> Category" where
  "classify e = (case e of TweenE _ \<Rightarrow> Ancillary | OnE _ \<Rightarrow> Ancillary | IncludeE _ \<Rightarrow> Ancillary | _ \<Rightarrow> NodeBearing)"

abbreviation node_bearing :: "Element \<Rightarrow> bool" where
  "node_bearing e \<equiv> classify e = NodeBearing"

definition text_element :: "Element \<Rightarrow> bool" where
  "text_element e = (case e of TextE _ _ \<Rightarrow> True | _ \<Rightarrow> False)"

definition is_state :: "Element \<Rightarrow> bool" where
  "is_state e = (case e of StateE _ _ \<Rightarrow> True | _ \<Rightarrow> False)"

definition frame_element :: "Element \<Rightarrow> bool" where
  "frame_element e = (case e of FrameE _ \<Rightarrow> True | _ \<Rightarrow> False)"

definition option_element :: "Element \<Rightarrow> OptionElement option" where
  "option_element e = (case e of OptionE opt \<Rightarrow> Some opt | _ \<Rightarrow> None)"

section \<open>Event bindings and counts\<close>

definition summary_of :: "Element \<Rightarrow> Element list" where
  "summary_of e = (case e of DetailsE _ summary _ \<Rightarrow> summary | _ \<Rightarrow> [])"

lemma children_summary_size [termination_simp]:
  "size_list size (children e) + size_list size (summary_of e) \<le> size e"
  by (cases e) (simp_all add: children_def summary_of_def)

lemma summary_size [termination_simp]: "size_list size (summary_of e) \<le> size e"
  using children_summary_size[of e] by simp

fun count_elements :: "Element list \<Rightarrow> nat" where
  "count_elements [] = 0"
| "count_elements (e # es) = 1 + count_elements (children e) + count_elements (summary_of e) + count_elements es"

definition MAX_EVENT_BINDINGS :: nat where "MAX_EVENT_BINDINGS = MAX_ON_BINDINGS"

definition reserve_opt :: "runtime \<Rightarrow> ustr option \<Rightarrow> bool" where
  "reserve_opt rt s = (case s of Some s \<Rightarrow> try_reserve rt (len s) | None \<Rightarrow> True)"

definition push_binding :: "runtime \<Rightarrow> OnElement \<Rightarrow> EventBinding list \<Rightarrow> EventBinding list option" where
  "push_binding rt b out =
     (if reserve_opt rt (on_source b) \<and> try_reserve rt (len (on_target b)) \<and> reserve_opt rt (on_to b) \<and>
         length out < MAX_EVENT_BINDINGS
      then Some (out @ [\<lparr>bind_event = on_event b, bind_source = on_source b, bind_action = on_action b,
             bind_target = on_target b, bind_to = on_to b, bind_delay_ms = on_delay_ms b\<rparr>])
      else None)"

function walk_for_on :: "runtime \<Rightarrow> Element list \<Rightarrow> EventBinding list \<Rightarrow> EventBinding list option" where
  "walk_for_on rt [] out = Some out"
| "walk_for_on rt (e # es) out =
     Option.bind (case e of OnE b \<Rightarrow> push_binding rt b out | _ \<Rightarrow> walk_for_on rt (children e) out) (walk_for_on rt es)"
  by pat_completeness auto
termination
  by (relation "measure (\<lambda>(_, es, _). size_list size es)") (auto simp: less_Suc_eq_le children_def)

section \<open>The builder's state\<close>

record Build =
  bx_nodes :: SceneNodes
  bx_index :: "NodeId list"
  bx_room :: nat
  bx_failed :: bool

definition fail :: "Build \<Rightarrow> Build" where "fail bx = bx\<lparr>bx_failed := True\<rparr>"

definition fail_unless :: "bool \<Rightarrow> Build \<Rightarrow> Build" where
  "fail_unless ok bx = (if ok then bx else fail bx)"

definition try_clone_aml_id :: "runtime \<Rightarrow> ustr option \<Rightarrow> Build \<Rightarrow> ustr option \<times> Build" where
  "try_clone_aml_id rt val bx =
     (case val of
        None \<Rightarrow> (None, bx)
      | Some s \<Rightarrow> if try_reserve rt (len s) then (Some s, bx) else (None, fail bx))"

definition insert_node :: "NodeBuilder \<Rightarrow> Build \<Rightarrow> NodeId \<times> Build" where
  "insert_node b bx =
     (case insert_with_key (finish b) (bx_nodes bx) of
        (None, ns) \<Rightarrow> (null_id, fail (bx\<lparr>bx_nodes := ns\<rparr>))
      | (Some nid, ns) \<Rightarrow>
          let bx = bx\<lparr>bx_nodes := ns\<rparr>
          in (nid, if nb_aml_id b = None then bx
                   else if length (bx_index bx) < bx_room bx then bx\<lparr>bx_index := bx_index bx @ [nid]\<rparr>
                   else fail bx))"

definition attach_child :: "runtime \<Rightarrow> NodeId \<Rightarrow> NodeId \<Rightarrow> Build \<Rightarrow> Build" where
  "attach_child rt parent child bx =
     (if bx_failed bx then bx
      else case nodes_get (bx_nodes bx) parent of
        None \<Rightarrow> fail bx
      | Some p \<Rightarrow>
          if length (node_children p) = node_child_room p \<and> \<not> reserves rt ''NodeId'' (length (node_children p)) 1
          then fail bx
          else bx\<lparr>bx_nodes := nodes_modify parent (push_child child)
                 (nodes_modify child (\<lambda>c. c\<lparr>node_parent := Some parent\<rparr>) (bx_nodes bx))\<rparr>)"

section \<open>Inline text\<close>

definition merge_style :: "TextRun \<Rightarrow> TextElement \<Rightarrow> TextRun" where
  "merge_style p t = \<lparr>tr_text = [], tr_bold = (tr_bold p \<or> text_bold t), tr_italic = (tr_italic p \<or> text_italic t),
     tr_underline = (tr_underline p \<or> text_underline t),
     tr_strikethrough = (tr_strikethrough p \<or> text_strikethrough t), tr_dim = (tr_dim p \<or> text_dim t),
     tr_blink = (tr_blink p \<or> text_blink t),
     tr_fg = (case text_fg t of Some c \<Rightarrow> Some c | None \<Rightarrow> tr_fg p),
     tr_bg = (case text_bg t of Some c \<Rightarrow> Some c | None \<Rightarrow> tr_bg p)\<rparr>"

definition content_run :: "TextRun \<Rightarrow> ustr \<Rightarrow> TextRun list" where
  "content_run style content = (if content = [] then [] else [style\<lparr>tr_text := content\<rparr>])"

text \<open>\<open>flatten_inline_text\<close> of each \<open>[text]\<close> of a list; every other element is passed over.\<close>

fun flatten_inline_text :: "TextRun \<Rightarrow> Element list \<Rightarrow> TextRun list" where
  "flatten_inline_text p [] = []"
| "flatten_inline_text p (e # es) =
     (case e of
        TextE t ts \<Rightarrow> let m = merge_style p t in content_run m (text_content t) @ flatten_inline_text m ts
      | _ \<Rightarrow> []) @ flatten_inline_text p es"

fun count_flattened_runs :: "Element list \<Rightarrow> nat" where
  "count_flattened_runs [] = 0"
| "count_flattened_runs (e # es) =
     (case e of TextE t ts \<Rightarrow> of_bool (text_content t \<noteq> []) + count_flattened_runs ts | _ \<Rightarrow> 0) + count_flattened_runs es"

definition count_text_runs :: "TextElement \<Rightarrow> Element list \<Rightarrow> nat" where
  "count_text_runs t es = of_bool (text_content t \<noteq> []) + count_flattened_runs es"

definition text_style :: "TextElement \<Rightarrow> TextRun" where
  "text_style t = \<lparr>tr_text = [], tr_bold = text_bold t, tr_italic = text_italic t, tr_underline = text_underline t,
     tr_strikethrough = text_strikethrough t, tr_dim = text_dim t, tr_blink = text_blink t,
     tr_fg = text_fg t, tr_bg = text_bg t\<rparr>"

definition has_node_bearing_inline :: "Element list \<Rightarrow> bool" where
  "has_node_bearing_inline es = list_ex (\<lambda>c. \<not> text_element c \<and> node_bearing c) es"

definition reserves_runs :: "runtime \<Rightarrow> nat \<Rightarrow> bool" where
  "reserves_runs rt n = try_reserve rt (n * size_of rt ''TextRun'')"

section \<open>The nodes of elements\<close>

definition text_kind :: "TextRun list \<Rightarrow> Alignment \<Rightarrow> TextSource \<Rightarrow> NodeKind" where
  "text_kind runs align source = TextK \<lparr>tc_runs = runs, tc_align = align, tc_source = source\<rparr>"

definition button_action :: "ButtonElement \<Rightarrow> Action" where
  "button_action b =
     (let or_empty = case_option [] id in
      case Ast.button_action b of
        Navigate \<Rightarrow> NavigateTo (or_empty (button_href b)) (button_transition b) (button_transition_duration_ms b) None
      | ToggleButton \<Rightarrow> TogglePanel (or_empty (button_target b)) (case_option [] id (button_states b))
      | SetButton \<Rightarrow> SetPanelState (or_empty (button_target b)) (or_empty (button_to b))
      | Submit \<Rightarrow> SubmitForm (or_empty (button_target b)))"

definition box_kind :: "BoxElement \<Rightarrow> NodeKind" where
  "box_kind b =
     (if box_x b \<noteq> None \<or> box_y b \<noteq> None
      then AbsoluteK \<lparr>ad_x = box_x b, ad_y = box_y b, ad_w = box_w b, ad_h = box_h b, ad_border = box_border b,
        ad_title = box_title b, ad_join_top = box_join_top b, ad_join_bottom = box_join_bottom b,
        ad_join_left = box_join_left b, ad_join_right = box_join_right b, ad_padding = box_padding b,
        ad_fg = box_fg b, ad_bg = box_bg b, ad_align = box_align b\<rparr>
      else FlowK ((flow_default FBox)\<lparr>fd_border := box_border b, fd_title := box_title b,
        fd_join_top := box_join_top b, fd_join_bottom := box_join_bottom b, fd_join_left := box_join_left b,
        fd_join_right := box_join_right b, fd_padding := box_padding b, fd_width := Some (box_w b),
        fd_height := Some (box_h b), fd_fg := box_fg b, fd_bg := box_bg b, fd_align := box_align b,
        fd_sticky := box_sticky b\<rparr>))"

definition pre_run :: "PreElement \<Rightarrow> PreRun \<Rightarrow> TextRun" where
  "pre_run p r = \<lparr>tr_text = run_text r, tr_bold = run_bold r, tr_italic = run_italic r, tr_underline = run_underline r,
     tr_strikethrough = run_strikethrough r, tr_dim = run_dim r, tr_blink = run_blink r,
     tr_fg = (case run_fg r of Some c \<Rightarrow> Some c | None \<Rightarrow> pre_fg p),
     tr_bg = (case run_bg r of Some c \<Rightarrow> Some c | None \<Rightarrow> pre_bg p)\<rparr>"

definition link_builder :: "LinkElement \<Rightarrow> ustr option \<Rightarrow> NodeBuilder" where
  "link_builder l aml_id = \<lparr>nb_kind = LinkK \<lparr>ln_href = link_href l, ln_key = link_key l, ln_prefetch = link_prefetch l,
       ln_transition = link_transition l, ln_transition_duration_ms = link_transition_duration_ms l,
       ln_defer_animation = link_defer_animation l\<rparr>,
     nb_aml_id = aml_id, nb_focusable = True,
     nb_hit_target = Some (NavigateTo (link_href l) (link_transition l) (link_transition_duration_ms l)
       (link_defer_animation l))\<rparr>"

definition input_builder :: "InputElement \<Rightarrow> ustr option \<Rightarrow> NodeBuilder" where
  "input_builder i aml_id = (builder (InputK \<lparr>id_name = input_name i, id_maxlen = input_maxlen i,
       id_placeholder = input_placeholder i, id_multiline = input_multiline i, id_rows = input_rows i,
       id_password = input_password i, id_value = input_value i\<rparr>))\<lparr>nb_aml_id := aml_id, nb_focusable := True\<rparr>"

definition button_builder :: "ButtonElement \<Rightarrow> NodeBuilder" where
  "button_builder b = (builder (ButtonK \<lparr>bd_label = button_label b, bd_key = button_key b,
       bd_action = Ast.button_action b, bd_target = button_target b, bd_states = button_states b, bd_to = button_to b,
       bd_href = button_href b, bd_transition = button_transition b,
       bd_transition_duration_ms = button_transition_duration_ms b\<rparr>))
     \<lparr>nb_focusable := True, nb_hit_target := Some (button_action b)\<rparr>"

definition live_kind :: "LiveElement \<Rightarrow> NodeKind" where
  "live_kind l = LiveRegionK \<lparr>lv_endpoint = live_endpoint l, lv_height = live_height l, lv_scroll = live_scroll l,
     lv_buffer = live_buffer l, lv_delta = live_delta l\<rparr>"

definition animation_kind :: "AnimateElement \<Rightarrow> NodeId list \<Rightarrow> NodeKind" where
  "animation_kind a frames = AnimationK \<lparr>an_fps = to_u16 (animate_fps a), an_autoplay = animate_autoplay a,
     an_loop_behavior = animate_loop_behavior a, an_loop = (animate_loop_behavior a \<noteq> LoopNone),
     an_background = animate_background a, an_src = animate_src a, an_frames = frames,
     an_delay_ms = animate_delay_ms a, an_after = animate_after a, an_x = animate_x a, an_y = animate_y a,
     an_w = animate_w a, an_h = animate_h a\<rparr>"

definition state_flow :: "StateElement \<Rightarrow> FlowData" where
  "state_flow s = (flow_default FState)\<lparr>fd_state_name := Some (state_name s),
     fd_state_transition := Option.bind (state_transition s) parse_transition_kind,
     fd_state_transition_duration_ms := state_duration_ms s\<rparr>"

definition details_flow :: "DetailsElement \<Rightarrow> Element list \<Rightarrow> FlowData" where
  "details_flow d summary = (flow_default FDetails)\<lparr>fd_details_open := details_open d,
     fd_details_summary := (if summary = [] then Some (details_summary d) else None)\<rparr>"

definition selected_option :: "Element list \<Rightarrow> nat" where
  "selected_option es =
     (let os = List.map_filter option_element es
      in if list_ex option_selected os then length (takeWhile (\<lambda>opt. \<not> option_selected opt) os) else 0)"

text \<open>The node of an element whose children are all attached in order.\<close>

definition element_builder :: "runtime \<Rightarrow> Element \<Rightarrow> Build \<Rightarrow> NodeBuilder \<times> Build" where
  "element_builder rt e bx =
     (let plain = (\<lambda>k. (builder k, bx));
          named = (\<lambda>name b. let (aml_id, bx) = try_clone_aml_id rt name bx in (b aml_id, bx))
      in case e of
        BoxE b _ \<Rightarrow> plain (box_kind b)
      | RowE r _ \<Rightarrow> plain (RowK \<lparr>rd_gap = row_gap r, rd_align = row_align r\<rparr>)
      | ColE c _ \<Rightarrow> plain (FlowK ((flow_default FCol)\<lparr>fd_width := Some (col_w c), fd_align := col_align c\<rparr>))
      | HrE h \<Rightarrow> plain (HrK \<lparr>hd_fg = hr_fg h, hd_style = hr_style h\<rparr>)
      | SpacerE s \<Rightarrow> plain (SpacerK (spacer_lines s))
      | HeaderE _ _ \<Rightarrow> plain (FlowK (flow_default FHeader))
      | BodyE _ _ \<Rightarrow> plain (FlowK (flow_default FBody))
      | FooterE _ _ \<Rightarrow> plain (FlowK (flow_default FFooter))
      | NavE n _ \<Rightarrow> plain (FlowK ((flow_default FNav)\<lparr>fd_sticky := nav_sticky n\<rparr>))
      | TheadE _ _ \<Rightarrow> plain (FlowK (flow_default FThead))
      | TbodyE _ _ \<Rightarrow> plain (FlowK (flow_default FTbody))
      | PaginationE _ _ \<Rightarrow> plain (FlowK (flow_default FPagination))
      | ListE l _ \<Rightarrow> plain (FlowK ((flow_default FList)\<lparr>fd_list_style := Some (list_style l),
          fd_list_bullet_char := list_bullet_char l\<rparr>))
      | ItemE _ \<Rightarrow> plain (FlowK (flow_default FItem))
      | FormE f _ \<Rightarrow> plain (FlowK ((flow_default FForm)\<lparr>fd_form_action := Some (form_action f)\<rparr>))
      | PreE p \<Rightarrow>
          let bx = fail_unless (reserves_runs rt (length (pre_runs p))) bx
          in (builder (text_kind (if bx_failed bx then [] else map (pre_run p) (pre_runs p)) (pre_align p) TPre), bx)
      | HeadingE h _ \<Rightarrow> plain (text_kind [(plain_run (heading_content h))\<lparr>tr_fg := heading_fg h, tr_bold := True\<rparr>]
          AlignLeft (THeading (heading_level h)))
      | ArtE a \<Rightarrow> plain (text_kind [plain_run (art_content a)] AlignLeft TArt)
      | ElementDefE d \<Rightarrow> named (Some (element_def_id d)) (\<lambda>aml_id.
          (builder (text_kind [(plain_run (trim (element_def_content d)))\<lparr>tr_fg := element_def_fg d\<rparr>] AlignLeft TElementDef))
            \<lparr>nb_aml_id := aml_id\<rparr>)
      | TextAnimateE a \<Rightarrow> plain (text_kind [plain_run (text_animate_content a)] AlignLeft TTextAnimate)
      | LinkE l _ \<Rightarrow> named (link_id l) (link_builder l)
      | InputE i \<Rightarrow> named (input_id i) (input_builder i)
      | OptionE opt \<Rightarrow> plain (OptionLeafK \<lparr>od_value = option_value opt, od_selected = option_selected opt,
          od_label = option_label opt\<rparr>)
      | ButtonE b \<Rightarrow> (button_builder b, bx)
      | TableE _ _ \<Rightarrow> plain TableK
      | TrE _ \<Rightarrow> plain TrK
      | ThE c _ \<Rightarrow> plain (ThK (cell_fg c))
      | TdE c _ \<Rightarrow> plain (TdK (cell_fg c))
      | FrameE _ \<Rightarrow> plain (FlowK (flow_default FFrame))
      | LiveE l _ \<Rightarrow> named (Some (live_id l)) (\<lambda>aml_id. (builder (live_kind l))\<lparr>nb_aml_id := aml_id\<rparr>)
      | StateE s _ \<Rightarrow> named (Some (state_name s)) (\<lambda>aml_id. (builder (FlowK (state_flow s)))\<lparr>nb_aml_id := aml_id\<rparr>)
      | _ \<Rightarrow> plain RootK)"

definition is_panel_state :: "SceneNodes \<Rightarrow> ustr \<Rightarrow> NodeId \<Rightarrow> bool" where
  "is_panel_state ns name nid =
     (case nodes_get ns nid of
        Some n \<Rightarrow> (case node_kind n of FlowK d \<Rightarrow> fd_source d = FState \<and> node_aml_id n = Some name | _ \<Rightarrow> False)
      | None \<Rightarrow> False)"

definition panel_active :: "SceneNodes \<Rightarrow> ustr \<Rightarrow> NodeId list \<Rightarrow> NodeId" where
  "panel_active ns name ids =
     (case find (is_panel_state ns name) ids of
        Some nid \<Rightarrow> nid
      | None \<Rightarrow> (case ids of nid # _ \<Rightarrow> nid | [] \<Rightarrow> null_id))"

definition attach_all :: "runtime \<Rightarrow> NodeId \<Rightarrow> NodeId list \<Rightarrow> Build \<Rightarrow> Build" where
  "attach_all rt parent ids bx = fold (attach_child rt parent) ids bx"

section \<open>The tree\<close>

text \<open>
  \<open>build_many\<close> is the loop over the children that satisfy \<open>keep\<close>, which attaches each to \<open>parent\<close>
  when there is one; \<open>build_inline\<close> is the loop over the children of a text that holds links and
  buttons. Both return the nodes, the first with their elements.
\<close>

function build_element :: "runtime \<Rightarrow> Element \<Rightarrow> Build \<Rightarrow> NodeId option \<times> Build"
  and build_many :: "runtime \<Rightarrow> (Element \<Rightarrow> bool) \<Rightarrow> NodeId option \<Rightarrow> Element list \<Rightarrow> Build \<Rightarrow>
    (Element \<times> NodeId) list \<times> Build"
  and build_inline :: "runtime \<Rightarrow> TextRun \<Rightarrow> Element list \<Rightarrow> Build \<Rightarrow> NodeId list \<times> Build"
where
  "build_element rt e bx =
     (if \<not> node_bearing e then (None, bx)
      else case e of
        TextE t es \<Rightarrow>
          let style = text_style t;
              mixed = has_node_bearing_inline es;
              bx = fail_unless (reserves_runs rt (if mixed then of_bool (text_content t \<noteq> []) else count_text_runs t es)) bx;
              runs = (if bx_failed bx then [] else content_run style (text_content t));
              bx = (if mixed \<and> \<not> bx_failed bx then fail_unless (try_reserve rt (length es * size_of rt ''NodeId'')) bx else bx);
              (ids, bx) = (if mixed \<and> \<not> bx_failed bx then build_inline rt style es bx else ([], bx));
              runs = (if \<not> mixed \<and> \<not> bx_failed bx then runs @ flatten_inline_text style es else runs);
              (nid, bx) = insert_node (builder (text_kind runs (text_align t) TText)) bx
          in (Some nid, attach_all rt nid ids bx)
      | SelectE s es \<Rightarrow>
          let (nid, bx) = insert_node ((builder (SelectK \<lparr>sd_name = select_name s, sd_label = select_label s,
                sd_selected_index = selected_option es\<rparr>))\<lparr>nb_focusable := True\<rparr>) bx;
              (_, bx) = build_many rt (\<lambda>c. option_element c \<noteq> None) (Some nid) es bx
          in (Some nid, bx)
      | PanelE p es \<Rightarrow>
          let bx = fail_unless (try_reserve rt (length (filter is_state es) * size_of rt ''NodeId'')) bx;
              (states, bx) = build_many rt is_state None es bx;
              ids = map snd states;
              kind = PanelK \<lparr>pn_states = ids, pn_active = panel_active (bx_nodes bx) (panel_initial_state p) ids,
                pn_initial_state = panel_initial_state p\<rparr>;
              (aml_id, bx) = try_clone_aml_id rt (Some (panel_id p)) bx;
              (nid, bx) = insert_node ((builder kind)\<lparr>nb_aml_id := aml_id\<rparr>) bx
          in (Some nid, attach_all rt nid ids bx)
      | AnimateE a es \<Rightarrow>
          let bx = fail_unless (try_reserve rt (length (filter frame_element es) * size_of rt ''NodeId'')) bx;
              (aml_id, bx) = try_clone_aml_id rt (Some (animate_id a)) bx;
              (nid, bx) = insert_node ((builder (animation_kind a []))\<lparr>nb_aml_id := aml_id\<rparr>) bx;
              (ids, bx) = build_many rt node_bearing (Some nid) es bx;
              frames = map snd (filter (frame_element \<circ> fst) ids)
          in (Some nid, bx\<lparr>bx_nodes := nodes_modify nid (\<lambda>n. case node_kind n of
               AnimationK d \<Rightarrow> n\<lparr>node_kind := AnimationK (d\<lparr>an_frames := frames\<rparr>)\<rparr> | _ \<Rightarrow> n) (bx_nodes bx)\<rparr>)
      | DetailsE d summary es \<Rightarrow>
          let (nid, bx) = insert_node (builder (FlowK (details_flow d summary))) bx;
              (heads, bx) = build_many rt node_bearing (Some nid) summary bx;
              (_, bx) = (if details_open d then build_many rt node_bearing (Some nid) es bx else ([], bx))
          in (Some nid, bx\<lparr>bx_nodes := nodes_modify nid (\<lambda>n. case node_kind n of
               FlowK f \<Rightarrow> n\<lparr>node_kind := FlowK (f\<lparr>fd_details_summary_count := min (length heads) u16_max\<rparr>)\<rparr> | _ \<Rightarrow> n)
               (bx_nodes bx)\<rparr>)
      | _ \<Rightarrow>
          let (b, bx) = element_builder rt e bx;
              (nid, bx) = insert_node b bx;
              (_, bx) = build_many rt node_bearing (Some nid) (children e) bx
          in (Some nid, bx))"
| "build_many rt keep parent [] bx = ([], bx)"
| "build_many rt keep parent (e # es) bx =
     (if \<not> keep e then build_many rt keep parent es bx
      else case build_element rt e bx of
        (None, bx) \<Rightarrow> build_many rt keep parent es bx
      | (Some nid, bx) \<Rightarrow>
          let bx = (case parent of Some p \<Rightarrow> attach_child rt p nid bx | None \<Rightarrow> bx);
              (ids, bx) = build_many rt keep parent es bx
          in ((e, nid) # ids, bx))"
| "build_inline rt style [] bx = ([], bx)"
| "build_inline rt style (e # es) bx =
     (let (mid, bx) =
            (case e of
               TextE t ts \<Rightarrow>
                 let ok = reserves_runs rt (count_flattened_runs [e]);
                     bx = fail_unless ok bx;
                     runs = (if ok then flatten_inline_text style [e] else [])
                 in if runs = [] then (None, bx)
                    else let (nid, bx) = insert_node (builder (text_kind runs (text_align t) TText)) bx in (Some nid, bx)
             | _ \<Rightarrow> build_element rt e bx);
          (ids, bx) = build_inline rt style es bx
      in (case mid of Some nid \<Rightarrow> nid # ids | None \<Rightarrow> ids, bx))"
  by pat_completeness auto

termination
proof (relation "measure (\<lambda>x. case x of Inl (rt, e, bx) \<Rightarrow> 2 * size e + 1
    | Inr (Inl (rt, keep, parent, es, bx)) \<Rightarrow> 2 * size_list size es
    | Inr (Inr (rt, style, es, bx)) \<Rightarrow> 2 * size_list size es)")
qed (auto simp: less_Suc_eq_le children_def)

section \<open>The scene of a document\<close>

definition clear_relations :: "SceneNodes \<Rightarrow> SceneNodes" where
  "clear_relations ns = ns\<lparr>slots := map (\<lambda>s. s\<lparr>slot_node :=
     map_option (\<lambda>n. n\<lparr>node_children := [], node_child_room := 0, node_parent := None\<rparr>) (slot_node s)\<rparr>) (slots ns)\<rparr>"

text \<open>The arena for the elements, the root and the page transition, and whether it was refused.\<close>

definition arena_for :: "runtime \<Rightarrow> admission \<Rightarrow> bool \<Rightarrow> nat \<Rightarrow> SceneNodes option" where
  "arena_for rt admit governed element_bound =
     (case requested_bytes rt (element_bound + 2) of
        None \<Rightarrow> None
      | Some bytes \<Rightarrow>
          if governed \<and> \<not> admit RemoteCollections bytes bytes then None
          else nodes_with_capacity rt (element_bound + 2))"

definition relations_admitted :: "runtime \<Rightarrow> admission \<Rightarrow> bool \<Rightarrow> nat \<Rightarrow> bool" where
  "relations_admitted rt admit governed element_bound =
     (let bytes = (element_bound * 2 + 1) * size_of rt ''NodeId''
      in bytes \<le> usize_max \<and> (\<not> governed \<or> admit RemoteCollections bytes bytes) \<and>
         try_reserve rt (element_bound * size_of rt ''NodeId''))"

definition build_root :: "runtime \<Rightarrow> Element list \<Rightarrow> Build \<Rightarrow> NodeId \<times> Build" where
  "build_root rt es bx =
     (case insert_with_key (finish (builder RootK)) (bx_nodes bx) of
        (None, ns) \<Rightarrow> (null_id, bx\<lparr>bx_nodes := ns\<rparr>)
      | (Some root, ns) \<Rightarrow> (root, snd (build_many rt (\<lambda>_. True) (Some root) es (bx\<lparr>bx_nodes := ns\<rparr>))))"

text \<open>Room for one more child of the root, the overlay of a page transition.\<close>

definition reserve_overlay_edge :: "runtime \<Rightarrow> NodeId \<Rightarrow> Build \<Rightarrow> Build" where
  "reserve_overlay_edge rt root bx =
     (if bx_failed bx then bx
      else case nodes_get (bx_nodes bx) root of
        None \<Rightarrow> fail bx
      | Some r \<Rightarrow>
          if reserves rt ''NodeId'' (length (node_children r)) 1
          then bx\<lparr>bx_nodes := nodes_modify root (\<lambda>r. r\<lparr>node_child_room := length (node_children r) + 1\<rparr>) (bx_nodes bx)\<rparr>
          else fail bx)"

definition from_document_with_governor :: "runtime \<Rightarrow> admission \<Rightarrow> bool \<Rightarrow> Page \<Rightarrow> Scene" where
  "from_document_with_governor rt admit governed page =
     (let es = page_children page;
          bound = count_elements es;
          arena = arena_for rt admit governed bound;
          node_failed = (arena = None);
          relations = relations_admitted rt admit governed bound;
          bx = \<lparr>bx_nodes = case_option nodes_default id arena, bx_index = [],
                bx_room = (if relations then bound else 0), bx_failed = \<not> relations\<rparr>;
          (root, bx) = (if node_failed then (null_id, bx) else build_root rt es bx);
          bx = reserve_overlay_edge rt root bx;
          failed = bx_failed bx;
          nodes = (if failed then clear_relations (bx_nodes bx) else bx_nodes bx);
          bindings = walk_for_on rt es [];
          invalidation = invalidation_for_nodes rt admit governed (len_nodes nodes)
      in \<lparr>scene_root = root, scene_nodes = nodes, scene_aml_index = (if failed then [] else bx_index bx),
          scene_aml_room = (if failed then 0 else bx_room bx),
          scene_inv = case_option invalidation_default id invalidation, scene_focus = None, scene_scroll = 0,
          scene_bindings = case_option [] id bindings, scene_page_mode = page_mode page,
          scene_transition = page_transition page, scene_transition_duration_ms = page_transition_duration_ms page,
          scene_title = page_title page,
          scene_resource_error = (node_failed \<or> failed \<or> invalidation = None \<or> bindings = None),
          scene_journal = None, scene_overlay_slot = None, scene_governed = governed,
          scene_governed_nodes = (governed \<and> \<not> node_failed),
          scene_governed_relations = (governed \<and> \<not> failed), scene_layout_pass = 0\<rparr>)"

definition from_document :: "runtime \<Rightarrow> Page \<Rightarrow> Scene" where
  "from_document rt page = from_document_with_governor rt (\<lambda>_ _ _. True) False page"

definition from_document_governed :: "runtime \<Rightarrow> admission \<Rightarrow> Page \<Rightarrow> Scene" where
  "from_document_governed rt admit page = from_document_with_governor rt admit True page"

end
