(* ===== verification/Live_Region.thy ===== *)
theory Live_Region
  imports Live Scene
begin

text \<open>
  The live regions of the client, from \<open>compositor/terminal/runner.rs\<close>: the buffer of rows each
  region keeps, the table of these buffers, and \<open>apply_live_update\<close>. Rendering the text of an
  update (parsing it as a page, building, laying out and composing its scene at the size of the
  region) is the parameter \<open>draw\<close>: its answer may be anything. What the resource governor answers
  is the parameter \<open>admit\<close>; vectors are granted exactly the room they ask for, so resizing the
  lease of a new buffer to its capacity changes nothing.
\<close>

section \<open>The rows of a region\<close>

record RegionBuffer =
  rb_rows :: "Cell list"
  rb_row_count :: nat
  rb_width :: nat
  rb_visible_height :: nat
  rb_buffer_limit :: nat
  rb_cell_lease :: bool

datatype RegionBufferUpdate = ReplaceRows | AppendRows | PrependRows

datatype RegionRowSource = Existing nat | Incoming nat

definition region_new :: "nat \<Rightarrow> nat \<Rightarrow> nat \<Rightarrow> RegionBuffer" where
  "region_new width visible_height buffer_limit =
     \<lparr>rb_rows = [], rb_row_count = 0, rb_width = width, rb_visible_height = visible_height,
      rb_buffer_limit = max buffer_limit visible_height, rb_cell_lease = False\<rparr>"

definition row_source :: "RegionBufferUpdate \<Rightarrow> nat \<Rightarrow> nat \<Rightarrow> nat \<Rightarrow> RegionRowSource" where
  "row_source update old_len incoming_len logical =
     (case update of
        ReplaceRows \<Rightarrow> Incoming logical
      | AppendRows \<Rightarrow> if logical < old_len then Existing logical else Incoming (logical - old_len)
      | PrependRows \<Rightarrow> if logical < incoming_len then Incoming logical else Existing (logical - incoming_len))"

definition source_row :: "RegionBuffer \<Rightarrow> CellBuffer \<Rightarrow> RegionRowSource \<Rightarrow> Cell list option" where
  "source_row b mini source =
     (case source of
        Existing index \<Rightarrow>
          (let start = index * rb_width b
           in if start + rb_width b \<le> length (rb_rows b) then Some (take (rb_width b) (drop start (rb_rows b))) else None)
      | Incoming y \<Rightarrow>
          if y > u16_max then None
          else Some (map (\<lambda>x. case cell_get mini x y of Some c \<Rightarrow> c | None \<Rightarrow> Cell_empty) [0..<rb_width b]))"

text \<open>\<open>None\<close> is the answer \<open>false\<close>, which leaves the buffer as it was.\<close>

definition rebuild ::
  "runtime \<Rightarrow> admission \<Rightarrow> CellBuffer \<Rightarrow> RegionBufferUpdate \<Rightarrow> RegionBuffer \<Rightarrow> RegionBuffer option" where
  "rebuild rt admit mini update b =
     (let old_len = rb_row_count b;
          incoming_len = content_height mini;
          total = (if update = ReplaceRows then incoming_len else saturating_add old_len incoming_len);
          final_len = (if rb_width b = 0 then 0 else min total (rb_buffer_limit b));
          start = (if update = AppendRows then total - final_len else 0);
          final_cells = final_len * rb_width b;
          cell_bytes = final_cells * size_of rt ''Cell''
      in if final_cells > usize_max \<or> cell_bytes > usize_max then None
         else if final_cells \<noteq> 0 \<and> \<not> admit SceneCells final_cells cell_bytes then None
         else if \<not> try_reserve rt cell_bytes then None
         else map_option (\<lambda>rows. b\<lparr>rb_rows := concat rows, rb_row_count := final_len, rb_cell_lease := final_cells \<noteq> 0\<rparr>)
           (those (map (\<lambda>logical. source_row b mini (row_source update old_len incoming_len logical))
             [start..<start + final_len])))"

definition copy_visible_to :: "RegionBuffer \<Rightarrow> nat \<Rightarrow> nat \<Rightarrow> LiveScroll \<Rightarrow> CellBuffer \<Rightarrow> CellBuffer" where
  "copy_visible_to b x y scroll buf =
     (let total = rb_row_count b; vis = rb_visible_height b;
          start = (if scroll \<in> {ScrollTail, ScrollManual} then total - vis else 0);
          buf = fold (\<lambda>ry. fold (\<lambda>rx. cell_set (saturating_add16 x rx) (saturating_add16 y ry) Cell_empty)
            [0..<rb_width b]) [0..<vis] buf
      in fold (\<lambda>(ry, row). fold (\<lambda>rx buf.
             let index = row * rb_width b + rx
             in if index < length (rb_rows b)
                then cell_set (saturating_add16 x rx) (saturating_add16 y (to_u16 ry)) (rb_rows b ! index) buf else buf)
           [0..<rb_width b]) (enumerate 0 (take vis [start..<total])) buf)"

section \<open>The table of regions\<close>

text \<open>A region is known by its place among the placed elements; there are 16 slots.\<close>

type_synonym RegionBuffers = "(nat \<times> RegionBuffer) option list"

definition MAX_ACTIVE_SUBSCRIPTIONS :: nat where "MAX_ACTIVE_SUBSCRIPTIONS = 16"

definition regions_new :: RegionBuffers where
  "regions_new = replicate MAX_ACTIVE_SUBSCRIPTIONS None"

definition holds_key :: "nat \<Rightarrow> (nat \<times> RegionBuffer) option \<Rightarrow> bool" where
  "holds_key key slot \<longleftrightarrow> (case slot of Some (k, _) \<Rightarrow> k = key | None \<Rightarrow> False)"

fun position :: "('a \<Rightarrow> bool) \<Rightarrow> 'a list \<Rightarrow> nat option" where
  "position p [] = None"
| "position p (x # xs) = (if p x then Some 0 else map_option Suc (position p xs))"

definition regions_get :: "RegionBuffers \<Rightarrow> nat \<Rightarrow> RegionBuffer option" where
  "regions_get table key =
     (case position (holds_key key) table of Some i \<Rightarrow> map_option snd (table ! i) | None \<Rightarrow> None)"

definition regions_update ::
  "runtime \<Rightarrow> admission \<Rightarrow> nat \<Rightarrow> nat \<Rightarrow> nat \<Rightarrow> nat \<Rightarrow> CellBuffer \<Rightarrow> RegionBufferUpdate \<Rightarrow> RegionBuffers \<Rightarrow> RegionBuffers option" where
  "regions_update rt admit key width visible_height buffer_limit mini update table =
     (let fresh = region_new width visible_height buffer_limit in
      case position (holds_key key) table of
        Some i \<Rightarrow>
          (case table ! i of
             None \<Rightarrow> None
           | Some (_, b) \<Rightarrow>
               let b = (if rb_width b = width \<and> rb_visible_height b = visible_height
                           \<and> rb_buffer_limit b = max buffer_limit visible_height then b else fresh)
               in map_option (\<lambda>b. table[i := Some (key, b)]) (rebuild rt admit mini update b))
      | None \<Rightarrow>
          (case position (\<lambda>slot. slot = None) table of
             None \<Rightarrow> None
           | Some i \<Rightarrow> map_option (\<lambda>b. table[i := Some (key, b)]) (rebuild rt admit mini update fresh)))"

definition regions_clear :: "RegionBuffers \<Rightarrow> RegionBuffers" where
  "regions_clear table = map (\<lambda>_. None) table"

section \<open>Applying an update\<close>

datatype rendering = Unparsed | Refused | Drawn CellBuffer

definition wrap_update :: "ustr \<Rightarrow> ustr" where
  "wrap_update content = lit ''[page mode=document]'' @ content @ lit ''[/page]''"

definition live_region :: "(ustr \<times> PlacedKind \<times> Rect) list \<Rightarrow> nat \<Rightarrow> ustr \<Rightarrow> (ustr \<times> LiveScroll \<times> nat \<times> Rect) option" where
  "live_region placed key region =
     (if key < length placed then
        (case placed ! key of
           (aml_id, PlacedLive _ scroll buffer _, r) \<Rightarrow>
             if aml_id = region then Some (aml_id, scroll, buffer, r) else None
         | _ \<Rightarrow> None)
      else None)"

text \<open>The loop over the ancestors; \<open>None\<close> when it would not end within the fuel.\<close>

fun background_above :: "nat \<Rightarrow> Scene \<Rightarrow> Rect \<Rightarrow> NodeId option \<Rightarrow> ResolvedColor option option" where
  "background_above fuel sc origin None = Some None"
| "background_above 0 sc origin (Some parent_id) = None"
| "background_above (Suc fuel) sc origin (Some parent_id) =
     (case scene_get sc parent_id of
        None \<Rightarrow> Some None
      | Some ancestor \<Rightarrow>
          (let r = place_rect (node_placement ancestor);
               bg = (case node_buffer ancestor of
                   Some b \<Rightarrow>
                     if rect_x origin \<ge> rect_x r \<and> rect_y origin \<ge> rect_y r
                     then Option.bind (cell_get b (rect_x origin - rect_x r) (rect_y origin - rect_y r))
                       (\<lambda>c. style_bg (cell_style c))
                     else None
                 | None \<Rightarrow> None)
           in case bg of Some c \<Rightarrow> Some (Some c) | None \<Rightarrow> background_above fuel sc origin (node_parent ancestor)))"

definition inherited_background :: "nat \<Rightarrow> Scene \<Rightarrow> NodeId \<Rightarrow> ResolvedColor option option" where
  "inherited_background fuel sc nid =
     (case scene_get sc nid of
        None \<Rightarrow> Some None
      | Some n \<Rightarrow> background_above fuel sc (place_rect (node_placement n)) (node_parent n))"

definition inherit_background :: "ResolvedColor option \<Rightarrow> CellBuffer \<Rightarrow> CellBuffer" where
  "inherit_background bg mini =
     (case bg of
        None \<Rightarrow> mini
      | Some c \<Rightarrow>
          fold (\<lambda>y. fold (\<lambda>x b.
              case cell_get b x y of
                Some cell \<Rightarrow>
                  if style_bg (cell_style cell) = None
                  then cell_set x y (cell\<lparr>cell_style := (cell_style cell)\<lparr>style_bg := Some c\<rparr>\<rparr>) b else b
              | None \<Rightarrow> b) [0..<buf_width mini]) [0..<buf_height mini] mini)"

definition live_buffer :: "Scene \<Rightarrow> NodeId \<Rightarrow> CellBuffer option" where
  "live_buffer sc nid =
     (case scene_get sc nid of Some n \<Rightarrow> if live_owned (node_kind n) then node_buffer n else None | None \<Rightarrow> None)"

definition replace_frame :: "Rect \<Rightarrow> CellBuffer \<Rightarrow> CellBuffer \<Rightarrow> CellBuffer" where
  "replace_frame r mini buf =
     (let buf = fold (\<lambda>y. fold (\<lambda>x. cell_set x y Cell_empty) [0..<buf_width buf]) [0..<buf_height buf] buf
      in fold (\<lambda>y. fold (\<lambda>x buf. case cell_get mini x y of Some c \<Rightarrow> cell_set x y c buf | None \<Rightarrow> buf)
           [0..<min (buf_width mini) (rect_w r)]) [0..<min (buf_height mini) (rect_h r)] buf)"

text \<open>The scroll mode decides what a delta does. The new contents of the node's buffer, and of the table.\<close>

definition show_update ::
  "runtime \<Rightarrow> admission \<Rightarrow> nat \<Rightarrow> LiveScroll \<Rightarrow> nat \<Rightarrow> Rect \<Rightarrow> bool \<Rightarrow> CellBuffer \<Rightarrow> CellBuffer \<Rightarrow> RegionBuffers \<Rightarrow>
   (CellBuffer \<times> RegionBuffers) option" where
  "show_update rt admit key scroll buffer r delta mini buf table =
     (if scroll = ScrollNone then Some (replace_frame r mini buf, table)
      else
        let update = (if \<not> delta then ReplaceRows else if scroll = ScrollPrepend then PrependRows else AppendRows) in
        case regions_update rt admit key (rect_w r) (rect_h r) buffer mini update table of
          None \<Rightarrow> None
        | Some table \<Rightarrow>
            (case regions_get table key of
               None \<Rightarrow> None
             | Some installed \<Rightarrow> Some (copy_visible_to installed 0 0 scroll buf, table)))"

text \<open>
  The answer with the scene and the table; \<open>None\<close> only when the ancestors outnumber the fuel.
\<close>

definition apply_live_update ::
  "runtime \<Rightarrow> admission \<Rightarrow> (nat \<Rightarrow> nat \<Rightarrow> ustr \<Rightarrow> rendering) \<Rightarrow> nat \<Rightarrow> UpdateMessage \<Rightarrow> nat \<Rightarrow> (ustr \<times> PlacedKind \<times> Rect) list \<Rightarrow>
   Scene \<Rightarrow> RegionBuffers \<Rightarrow> (bool \<times> Scene \<times> RegionBuffers) option" where
  "apply_live_update rt admit draw fuel u key placed sc table =
     (case live_region placed key (upd_region u) of
        None \<Rightarrow> Some (True, sc, table)
      | Some (aml_id, scroll, buffer, r) \<Rightarrow>
          let aml = wrap_update (upd_content u) in
          if len aml > usize_max \<or> \<not> try_reserve rt (len aml) then Some (False, sc, table)
          else case draw (rect_w r) (rect_h r) aml of
            Unparsed \<Rightarrow> Some (True, sc, table)
          | Refused \<Rightarrow> Some (False, sc, table)
          | Drawn mini \<Rightarrow>
              (case find_by_aml_id sc aml_id of
                 None \<Rightarrow> Some (True, sc, table)
               | Some nid \<Rightarrow>
                   map_option (\<lambda>bg.
                     case live_buffer sc nid of
                       None \<Rightarrow> (True, sc, table)
                     | Some buf \<Rightarrow>
                         (case show_update rt admit key scroll buffer r (delta_flag (upd_flags u))
                                 (inherit_background bg mini) buf table of
                            None \<Rightarrow> (False, sc, table)
                          | Some (buf, table) \<Rightarrow>
                              let sc = live_buffer_mut nid (\<lambda>_. buf) sc
                              in (True, case scene_get sc nid of
                                   Some n \<Rightarrow> modify_inv (mark_composite (place_rect (node_placement n))) sc
                                 | None \<Rightarrow> sc, table)))
                   (inherited_background fuel sc nid)))"

section \<open>What a buffer keeps\<close>

text \<open>The rows a drawn update has: up to the last that shows anything, cut to the width of the region.\<close>

definition drawn_rows :: "nat \<Rightarrow> CellBuffer \<Rightarrow> Cell list list" where
  "drawn_rows w mini =
     map (\<lambda>y. map (\<lambda>x. case cell_get mini x y of Some c \<Rightarrow> c | None \<Rightarrow> Cell_empty) [0..<w]) [0..<content_height mini]"

definition nth_row :: "RegionBuffer \<Rightarrow> nat \<Rightarrow> Cell list" where
  "nth_row b i = take (rb_width b) (drop (i * rb_width b) (rb_rows b))"

definition region_rows :: "RegionBuffer \<Rightarrow> Cell list list" where
  "region_rows b = map (nth_row b) [0..<rb_row_count b]"

definition wf_region :: "RegionBuffer \<Rightarrow> bool" where
  "wf_region b \<longleftrightarrow> length (rb_rows b) = rb_row_count b * rb_width b \<and> rb_row_count b \<le> rb_buffer_limit b \<and> 0 < rb_width b
     \<and> rb_buffer_limit b \<le> u32_max"

definition last_rows :: "nat \<Rightarrow> 'a list \<Rightarrow> 'a list" where
  "last_rows n xs = drop (length xs - n) xs"

lemma last_rows_last_rows [simp]: "last_rows n (last_rows n xs @ ys) = last_rows n (xs @ ys)"
  by (cases "n \<le> length xs") (simp_all add: last_rows_def drop_append add.commute)

lemma last_rows_short [simp]: "length xs \<le> n \<Longrightarrow> last_rows n xs = xs"
  by (simp add: last_rows_def)

lemma take_take_append [simp]: "take n (ys @ take n xs) = take n (ys @ xs)"
  by (cases "n \<le> length ys") (simp_all add: min_def)

lemma those_map_Some: "(\<And>x. x \<in> set xs \<Longrightarrow> f x = Some (g x)) \<Longrightarrow> those (map f xs) = Some (map g xs)"
  by (induction xs) auto

lemma map_nth_range: "s + n \<le> length xs \<Longrightarrow> map (\<lambda>i. xs ! i) [s..<s + n] = take n (drop s xs)"
  by (rule nth_equalityI) auto

lemma content_height_le: "content_height mini \<le> buf_height mini"
  by (auto simp: content_height_def find_Some_iff split: option.splits dest!: nth_mem)
    (metis Suc_leI atLeastLessThan_iff length_rev length_upt minus_nat.diff_0 nth_mem set_rev set_upt)

lemma concat_rows:
  assumes "\<forall>r \<in> set rows. length r = w"
  shows "length (concat rows) = length rows * w"
    and "i < length rows \<Longrightarrow> take w (drop (i * w) (concat rows)) = rows ! i"
proof -
  show l: "length (concat rows) = length rows * w"
    using assms by (induction rows) auto
  show "i < length rows \<Longrightarrow> take w (drop (i * w) (concat rows)) = rows ! i"
    using assms by (induction rows arbitrary: i) (auto simp: nth_Cons split: nat.splits)
qed

lemma region_rows_new: "region_rows (region_new w h n) = []"
  by (simp add: region_rows_def region_new_def)

lemma wf_region_new: "0 < w \<Longrightarrow> n \<le> u32_max \<Longrightarrow> h \<le> u32_max \<Longrightarrow> wf_region (region_new w h n)"
  by (simp add: wf_region_def region_new_def)

lemma rebuild_rows:
  assumes "rebuild rt admit mini update b = Some b'" "wf_region b" "buf_height mini \<le> u16_max"
  shows "region_rows b' = (case update of
      ReplaceRows \<Rightarrow> take (rb_buffer_limit b) (drawn_rows (rb_width b) mini)
    | AppendRows \<Rightarrow> last_rows (rb_buffer_limit b) (region_rows b @ drawn_rows (rb_width b) mini)
    | PrependRows \<Rightarrow> take (rb_buffer_limit b) (drawn_rows (rb_width b) mini @ region_rows b))" (is "_ = ?kept")
    and "wf_region b'" "rb_width b' = rb_width b" "rb_visible_height b' = rb_visible_height b"
    "rb_buffer_limit b' = rb_buffer_limit b"
proof -
  let ?w = "rb_width b" and ?n = "rb_row_count b" and ?h = "content_height mini"
  let ?total = "if update = ReplaceRows then ?h else ?n + ?h"
  let ?final = "min ?total (rb_buffer_limit b)"
  let ?start = "if update = AppendRows then ?total - ?final else 0"
  let ?row = "\<lambda>l. source_row b mini (row_source update ?n ?h l)"
  have small: "?h \<le> u16_max" "?n \<le> u32_max" "0 < ?w"
    using content_height_le [of mini] assms(2,3) by (auto simp: wf_region_def)
  then have sum: "saturating_add ?n ?h = ?n + ?h"
    by (simp add: saturating_add_def usize_max_def u32_max_def u16_max_def)
  obtain rows where rows: "those (map ?row [?start..<?start + ?final]) = Some rows"
    "b' = b\<lparr>rb_rows := concat rows, rb_row_count := ?final, rb_cell_lease := ?final * ?w \<noteq> 0\<rparr>"
    using assms(1) small(3) by (auto simp: rebuild_def Let_def sum split: if_splits)
  show dims: "rb_width b' = rb_width b" "rb_visible_height b' = rb_visible_height b" "rb_buffer_limit b' = rb_buffer_limit b"
    by (simp_all add: rows(2))
  define X where "X = (case update of
      ReplaceRows \<Rightarrow> drawn_rows ?w mini | AppendRows \<Rightarrow> region_rows b @ drawn_rows ?w mini
    | PrependRows \<Rightarrow> drawn_rows ?w mini @ region_rows b)"
  have l: "length (region_rows b) = ?n" "length (drawn_rows ?w mini) = ?h"
    by (simp_all add: region_rows_def drawn_rows_def)
  then have X: "length X = ?total"
    by (simp add: X_def split: RegionBufferUpdate.splits)
  have old: "source_row b mini (Existing i) = Some (region_rows b ! i)" "length (region_rows b ! i) = ?w" if "i < ?n" for i
  proof -
    have "i * ?w + ?w \<le> ?n * ?w"
      using that by (metis Suc_leI add.commute mult_Suc mult_le_mono1)
    then show "source_row b mini (Existing i) = Some (region_rows b ! i)" "length (region_rows b ! i) = ?w"
      using assms(2) that by (simp_all add: source_row_def region_rows_def nth_row_def wf_region_def Let_def)
  qed
  have new: "source_row b mini (Incoming y) = Some (drawn_rows ?w mini ! y)" "length (drawn_rows ?w mini ! y) = ?w"
    if "y < ?h" for y
    using that small(1) by (simp_all add: source_row_def drawn_rows_def)
  have row: "?row i = Some (X ! i)" "length (X ! i) = ?w" if "i < ?total" for i
    using that old new by (cases update; simp add: X_def row_source_def nth_append l; fail)+
  have "rows = take ?final (drop ?start X)"
    using rows(1) row(1) X map_nth_range [of ?start ?final X]
      those_map_Some [of "[?start..<?start + ?final]" ?row "\<lambda>i. X ! i"] by (simp split: if_splits)
  moreover from this have n: "length rows = ?final"
    using X by simp
  moreover have "\<forall>r \<in> set X. length r = ?w"
    using row(2) X by (auto simp: in_set_conv_nth)
  ultimately have w: "\<forall>r \<in> set rows. length r = ?w"
    by (meson in_set_dropD in_set_takeD)
  show "wf_region b'"
    using assms(2) concat_rows(1) [OF w] n by (simp add: rows(2) wf_region_def)
  have "region_rows b' = rows"
    using concat_rows(2) [OF w] n by (intro nth_equalityI) (simp_all add: rows(2) region_rows_def nth_row_def)
  also have "\<dots> = ?kept"
    unfolding \<open>rows = take ?final (drop ?start X)\<close>
    using l by (cases update) (auto simp: X_def last_rows_def min_def)
  finally show "region_rows b' = ?kept" .
qed

section \<open>What an update does to the table\<close>

lemma position_Some: "position p xs = Some i \<Longrightarrow> i < length xs \<and> p (xs ! i) \<and> (\<forall>j < i. \<not> p (xs ! j))"
  by (induction xs arbitrary: i) (auto simp: nth_Cons split: if_splits nat.splits)

lemma position_None: "position p xs = None \<longleftrightarrow> (\<forall>x \<in> set xs. \<not> p x)"
  by (induction xs) auto

lemma position_first: "i < length xs \<Longrightarrow> p (xs ! i) \<Longrightarrow> \<forall>j < i. \<not> p (xs ! j) \<Longrightarrow> position p xs = Some i"
proof (induction xs arbitrary: i)
  case (Cons x xs)
  then show ?case by (cases i) force+
qed simp

lemma regions_get_set:
  "i < length table \<Longrightarrow> \<forall>j < i. \<not> holds_key key (table ! j) \<Longrightarrow> regions_get (table[i := Some (key, b)]) key = Some b"
  by (simp add: regions_get_def position_first [of i] holds_key_def)

lemma regions_get_Some:
  assumes "position (holds_key key) table = Some i"
  shows "\<exists>b. table ! i = Some (key, b) \<and> regions_get table key = Some b"
  using position_Some [OF assms] assms by (auto simp: regions_get_def holds_key_def split: option.splits)

lemma regions_update_get:
  assumes "regions_update rt admit key w h n mini update table = Some table'"
  shows "\<exists>b b'. rebuild rt admit mini update b = Some b' \<and> regions_get table' key = Some b'
    \<and> b = (case regions_get table key of
        Some b \<Rightarrow> if rb_width b = w \<and> rb_visible_height b = h \<and> rb_buffer_limit b = max n h then b else region_new w h n
      | None \<Rightarrow> region_new w h n)"
proof (cases "position (holds_key key) table")
  case (Some i)
  obtain b0 where b0: "table ! i = Some (key, b0)" "regions_get table key = Some b0"
    using regions_get_Some [OF Some] by blast
  let ?b = "if rb_width b0 = w \<and> rb_visible_height b0 = h \<and> rb_buffer_limit b0 = max n h then b0 else region_new w h n"
  obtain b' where b': "rebuild rt admit mini update ?b = Some b'" "table' = table[i := Some (key, b')]"
    using assms by (auto simp: regions_update_def Some b0(1) Let_def)
  show ?thesis
    using b' regions_get_set [of i table key b'] position_Some [OF Some] by (intro exI [of _ ?b] exI [of _ b']) (simp add: b0)
next
  case None
  obtain i b' where i: "position (\<lambda>slot. slot = None) table = Some i" "table' = table[i := Some (key, b')]"
    "rebuild rt admit mini update (region_new w h n) = Some b'"
    using assms by (auto simp: regions_update_def None Let_def split: option.splits)
  have "regions_get table' key = Some b'"
    using regions_get_set [of i table key b'] position_Some [OF i(1)] None by (auto simp: i(2) position_None)
  moreover have "regions_get table key = None"
    by (simp add: regions_get_def None)
  ultimately show ?thesis using i(3) by auto
qed

text \<open>What a region keeps of a list of drawn updates, the first of which is complete.\<close>

definition kept_rows :: "LiveScroll \<Rightarrow> nat \<Rightarrow> nat \<Rightarrow> CellBuffer list \<Rightarrow> Cell list list" where
  "kept_rows scroll n w minis =
     (case minis of
        [] \<Rightarrow> []
      | m # ms \<Rightarrow>
          if scroll = ScrollPrepend then take n (concat (rev (map (drawn_rows w) (m # ms))))
          else last_rows n (take n (drawn_rows w m) @ concat (map (drawn_rows w) ms)))"

lemma kept_rows_first: "kept_rows scroll n w [m] = take n (drawn_rows w m)"
  by (simp add: kept_rows_def)

lemma kept_rows_next:
  assumes "ms \<noteq> []"
  shows "kept_rows scroll n w (ms @ [m]) =
    (if scroll = ScrollPrepend then take n (drawn_rows w m @ kept_rows scroll n w ms)
     else last_rows n (kept_rows scroll n w ms @ drawn_rows w m))"
  using assms by (cases ms) (simp_all add: kept_rows_def del: take_append flip: append_assoc)

text \<open>A region buffer that keeps the updates drawn for a region.\<close>

definition keeps :: "LiveScroll \<Rightarrow> nat \<Rightarrow> Rect \<Rightarrow> CellBuffer list \<Rightarrow> RegionBuffer \<Rightarrow> bool" where
  "keeps scroll n r minis b \<longleftrightarrow> wf_region b \<and> rb_width b = rect_w r \<and> rb_visible_height b = rect_h r
     \<and> rb_buffer_limit b = max n (rect_h r) \<and> region_rows b = kept_rows scroll (max n (rect_h r)) (rect_w r) minis"

lemma show_update_keeps:
  assumes "show_update rt admit key scroll n r delta mini buf table = Some (buf', table')" "scroll \<noteq> ScrollNone"
    and "buf_height mini \<le> u16_max" "0 < rect_w r" "n \<le> u32_max" "rect_h r \<le> u16_max"
    and "delta \<longrightarrow> ms \<noteq> [] \<and> (\<exists>b. regions_get table key = Some b \<and> keeps scroll n r ms b)"
    and "\<And>b. regions_get table key = Some b \<Longrightarrow> wf_region b"
  shows "\<exists>b. regions_get table' key = Some b \<and> keeps scroll n r ((if delta then ms else []) @ [mini]) b
    \<and> buf' = copy_visible_to b 0 0 scroll buf"
proof -
  let ?u = "if \<not> delta then ReplaceRows else if scroll = ScrollPrepend then PrependRows else AppendRows"
  obtain b' where u: "regions_update rt admit key (rect_w r) (rect_h r) n mini ?u table = Some table'"
    "regions_get table' key = Some b'" "buf' = copy_visible_to b' 0 0 scroll buf"
    using assms(1,2) by (auto simp: show_update_def Let_def split: option.splits)
  obtain b where b: "rebuild rt admit mini ?u b = Some b'"
    "b = (case regions_get table key of
        Some b \<Rightarrow> if rb_width b = rect_w r \<and> rb_visible_height b = rect_h r \<and> rb_buffer_limit b = max n (rect_h r) then b
          else region_new (rect_w r) (rect_h r) n
      | None \<Rightarrow> region_new (rect_w r) (rect_h r) n)"
    using regions_update_get [OF u(1)] u(2) by auto
  have new: "wf_region (region_new (rect_w r) (rect_h r) n)"
    using assms(4-6) by (intro wf_region_new) (simp_all add: u16_max_def u32_max_def)
  then have base: "wf_region b" "rb_width b = rect_w r" "rb_visible_height b = rect_h r" "rb_buffer_limit b = max n (rect_h r)"
    using assms(8) by (auto simp: b(2) region_new_def split: option.splits)
  have old: "region_rows b = kept_rows scroll (max n (rect_h r)) (rect_w r) ms" if delta
    using assms(7) that by (auto simp: b(2) keeps_def)
  note k = rebuild_rows [OF b(1) base(1) assms(3)]
  have "keeps scroll n r ((if delta then ms else []) @ [mini]) b'"
    using k base old assms(7) by (simp add: keeps_def kept_rows_first kept_rows_next)
  with u show ?thesis by blast
qed

section \<open>What a region displays\<close>

lemma fold_rewrites:
  assumes "\<And>x y b. x < w \<Longrightarrow> y < h \<Longrightarrow> g y x b = rewrite_cell f x y b"
  shows "fold (\<lambda>y. fold (g y) [0..<w]) [0..<h] b = fold (\<lambda>y. fold (\<lambda>x. rewrite_cell f x y) [0..<w]) [0..<h] b"
  using assms by (intro fold_cong refl ext) (auto intro!: fold_cong)

lemma enumerate_range: "enumerate 0 (take n [s..<t]) = map (\<lambda>i. (i, s + i)) [0..<min n (t - s)]"
  by (rule nth_equalityI) (auto simp: nth_enumerate_eq)

text \<open>
  A region shows the last rows it keeps (tail, manual) or the first (prepend), and blanks below them.
\<close>

lemma region_displays:
  assumes "wf_region b" "rb_width b \<le> u16_max" "rb_visible_height b \<le> u16_max"
    and "x < rb_width b" "y < rb_visible_height b" "cell_get buf x y \<noteq> None"
  shows "cell_get (copy_visible_to b 0 0 scroll buf) x y = Some
    (let shown_rows = (if scroll \<in> {ScrollTail, ScrollManual} then last_rows (rb_visible_height b) (region_rows b) else region_rows b)
     in if y < length shown_rows then shown_rows ! y ! x else Cell_empty)"
proof -
  let ?w = "rb_width b" and ?h = "rb_visible_height b" and ?total = "rb_row_count b"
  define start where "start = (if scroll \<in> {ScrollTail, ScrollManual} then ?total - ?h else 0)"
  let ?n = "min ?h (?total - start)"
  let ?index = "\<lambda>ry rx. (start + ry) * ?w + rx"
  have sat: "saturating_add16 0 i = i" if "i \<le> u16_max" for i
    using that by (simp add: saturating_add16_def)
  have le: "?index ry rx < length (rb_rows b)" if "rx < ?w" "ry < ?n" for rx ry
  proof -
    have "Suc (start + ry) * ?w \<le> ?total * ?w"
      using that(2) by (intro mult_le_mono1) auto
    with that(1) show ?thesis using assms(1) by (simp add: wf_region_def)
  qed
  let ?blank = "\<lambda>ry. fold (\<lambda>rx. cell_set (saturating_add16 0 rx) (saturating_add16 0 ry) Cell_empty) [0..<?w]"
  let ?copy = "\<lambda>ry. fold (\<lambda>rx buf. if ?index ry rx < length (rb_rows b)
      then cell_set (saturating_add16 0 rx) (saturating_add16 0 (to_u16 ry)) (rb_rows b ! ?index ry rx) buf else buf) [0..<?w]"
  have "copy_visible_to b 0 0 scroll buf = fold ?copy [0..<?n] (fold ?blank [0..<?h] buf)"
    unfolding copy_visible_to_def Let_def start_def [symmetric] by (simp add: enumerate_range fold_map comp_def)
  also have "fold ?blank [0..<?h] buf = fold (\<lambda>ry. fold (\<lambda>rx. rewrite_cell (\<lambda>_ _ _. Cell_empty) rx ry) [0..<?w]) [0..<?h] buf"
    using assms(2,3) by (intro fold_rewrites) (simp add: sat set_rewrites)
  also have "fold ?copy [0..<?n] b' =
      fold (\<lambda>ry. fold (\<lambda>rx. rewrite_cell (\<lambda>rx ry _. rb_rows b ! ?index ry rx) rx ry) [0..<?w]) [0..<?n] b'" for b'
    using assms(2,3) le
    by (intro fold_rewrites) (simp add: sat set_rewrites to_u16_def u16_max_def rewrite_cell_def)
  finally have "cell_get (copy_visible_to b 0 0 scroll buf) x y =
      (if y < ?n then Some (rb_rows b ! ?index y x) else Some Cell_empty)"
    using assms(4-6) by (auto simp: get_rewrite_grid)
  moreover have "region_rows b ! (start + y) ! x = rb_rows b ! ?index y x" if "y < ?n"
    using that assms(4) le [of x y] less_diff_conv [of y ?total start] by (simp add: region_rows_def nth_row_def add.commute)
  moreover have "length (region_rows b) = ?total"
    by (simp add: region_rows_def)
  ultimately show ?thesis
    using assms(5) by (auto simp: last_rows_def start_def)
qed

lemma fold_shape:
  assumes "\<And>x b. x \<in> set xs \<Longrightarrow> buf_width (f x b) = buf_width b \<and> buf_height (f x b) = buf_height b
      \<and> length (buf_cells (f x b)) = length (buf_cells b)"
  shows "buf_width (fold f xs b) = buf_width b \<and> buf_height (fold f xs b) = buf_height b
      \<and> length (buf_cells (fold f xs b)) = length (buf_cells b)"
  using assms by (induction xs arbitrary: b) simp_all

lemma shape_inherit [simp]:
  "buf_width (inherit_background bg m) = buf_width m \<and> buf_height (inherit_background bg m) = buf_height m
    \<and> length (buf_cells (inherit_background bg m)) = length (buf_cells m)"
proof (cases bg)
  case (Some c)
  then show ?thesis
    unfolding inherit_background_def option.case Some by (intro fold_shape) (simp split: option.splits)
qed (simp add: inherit_background_def)

text \<open>
  Inside a box with a background every row of an update counts as content, blank or not: each delta
  of such a region takes as many rows as the region is high.
\<close>

lemma background_pads_update:
  assumes "length (buf_cells m) = buf_width m * buf_height m" "0 < buf_width m"
  shows "content_height (inherit_background (Some c) m) = buf_height m"
proof (cases "buf_height m")
  case 0
  then show ?thesis using content_height_le [of "inherit_background (Some c) m"] by simp
next
  case (Suc h)
  let ?f = "\<lambda>(x::nat) (y::nat) cell. if style_bg (cell_style cell) = None
    then cell\<lparr>cell_style := (cell_style cell)\<lparr>style_bg := Some c\<rparr>\<rparr> else cell"
  let ?m = "inherit_background (Some c) m"
  have same: "cell_set x y cell b = b" if "cell_get b x y = Some cell" for x y cell b
    using that by (auto simp: cell_get_def cell_set_def split: option.splits)
  have m: "?m = fold (\<lambda>y. fold (\<lambda>x. rewrite_cell ?f x y) [0..<buf_width m]) [0..<buf_height m] m"
    unfolding inherit_background_def option.case
    by (rule fold_rewrites) (auto simp: rewrite_cell_def same split: option.splits)
  have "cell_get m 0 h = Some (buf_cells m ! (h * buf_width m))"
    using assms Suc by (simp add: cell_get_def cell_index_def)
  then have "cell_get ?m 0 h = Some (?f 0 h (buf_cells m ! (h * buf_width m)))"
    using assms(2) Suc unfolding m get_rewrite_grid by simp
  then obtain cell where cell: "cell_get ?m 0 h = Some cell" "style_bg (cell_style cell) \<noteq> None"
    by fastforce
  have n: "Suc h * buf_width m \<le> length (buf_cells ?m)"
    using assms(1) Suc by (simp add: mult.commute)
  then have r: "buf_row ?m h = Some (take (buf_width m) (drop (h * buf_width m) (buf_cells ?m)))"
    using Suc by (simp add: buf_row_def add.commute)
  moreover have "cell = take (buf_width m) (drop (h * buf_width m) (buf_cells ?m)) ! 0"
    using cell(1) assms(2) n by (auto simp: cell_get_def cell_index_def split: if_splits)
  ultimately have "case buf_row ?m h of Some cs \<Rightarrow> list_ex has_content cs | None \<Rightarrow> False"
    using cell(2) assms(2) n by (auto simp: list_ex_length has_content_def intro!: exI [of _ 0])
  then show ?thesis
    by (simp add: content_height_def Suc)
qed

section \<open>A subscription and the region that shows it\<close>

text \<open>
  The subscription on the server, its connection, what the client has drawn for it since the last
  complete update (each content with its drawing), and the client's scene and table.
\<close>

record live =
  ls_sub :: StaticSubscription
  ls_conn :: Connection
  ls_pieces :: "(ustr \<times> CellBuffer) list"
  ls_scene :: Scene
  ls_table :: RegionBuffers

text \<open>The update was rendered as \<open>mini\<close> for the live node of the region.\<close>

definition drawn_as ::
  "(nat \<Rightarrow> nat \<Rightarrow> ustr \<Rightarrow> rendering) \<Rightarrow> nat \<Rightarrow> nat \<Rightarrow> (ustr \<times> PlacedKind \<times> Rect) list \<Rightarrow> Scene \<Rightarrow> ustr \<Rightarrow> ustr \<Rightarrow> CellBuffer \<Rightarrow> bool" where
  "drawn_as draw fuel key placed sc region content mini \<longleftrightarrow>
     (\<exists>aml_id scroll buffer r m nid bg buf. live_region placed key region = Some (aml_id, scroll, buffer, r)
        \<and> draw (rect_w r) (rect_h r) (wrap_update content) = Drawn m \<and> buf_height m \<le> u16_max
        \<and> find_by_aml_id sc aml_id = Some nid \<and> inherited_background fuel sc nid = Some bg
        \<and> live_buffer sc nid = Some buf \<and> mini = inherit_background bg m)"

text \<open>The client receives what was sent and shows it: it renders it, and does not run out of budget.\<close>

definition shown ::
  "runtime \<Rightarrow> nat \<Rightarrow> nat \<Rightarrow> (ustr \<times> PlacedKind \<times> Rect) list \<Rightarrow> ustr \<Rightarrow> (ustr \<times> bool) option \<Rightarrow>
   (ustr \<times> CellBuffer) list \<times> Scene \<times> RegionBuffers \<Rightarrow> (ustr \<times> CellBuffer) list \<times> Scene \<times> RegionBuffers \<Rightarrow> bool" where
  "shown rt fuel key placed region u old new \<longleftrightarrow>
     (case (u, old, new) of
        (None, _, _) \<Rightarrow> new = old
      | (Some (content, delta), (ps, sc, table), (ps', sc', table')) \<Rightarrow>
          \<exists>admit draw mini. drawn_as draw fuel key placed sc region content mini
            \<and> apply_live_update rt admit draw fuel
                \<lparr>upd_region = region, upd_content = content, upd_flags = \<lparr>delta_flag = delta\<rparr>\<rparr> key placed sc table =
              Some (True, sc', table')
            \<and> ps' = (if delta then ps else []) @ [(content, mini)])"

text \<open>
  The registry publishes generations, the connection flushes when it is woken and the client shows
  what it receives; in between the connection serves other requests, and the scene and the other
  regions change. Identity stands for sharing: a generation with the identity of the baseline is the
  baseline.
\<close>

inductive live_step ::
  "runtime \<Rightarrow> nat \<Rightarrow> nat \<Rightarrow> (ustr \<times> PlacedKind \<times> Rect) list \<Rightarrow> live \<Rightarrow> live \<Rightarrow> bool" for rt fuel key placed where
  published: "valid_str (gen_text g) \<Longrightarrow> fits (sub_of_region (ls_sub s)) g \<Longrightarrow>
    (gen_id g = gen_id (baseline (ls_sub s)) \<Longrightarrow> g = baseline (ls_sub s)) \<Longrightarrow>
    live_step rt fuel key placed s (s\<lparr>ls_sub := (ls_sub s)\<lparr>updates := g\<rparr>\<rparr>)"
| flushed: "flush_subscription rt (ls_sub s) (ls_conn s) = (Inr sub', c') \<Longrightarrow>
    tx (transport c') = tx (transport (ls_conn s)) @ bytes \<Longrightarrow>
    sends (sub_of_region (ls_sub s)) bytes u \<Longrightarrow>
    shown rt fuel key placed (sub_of_region (ls_sub s)) u (ls_pieces s, ls_scene s, ls_table s) (ps, sc, table) \<Longrightarrow>
    live_step rt fuel key placed s \<lparr>ls_sub = sub', ls_conn = c', ls_pieces = ps, ls_scene = sc, ls_table = table\<rparr>"
| other: "regions_get table key = regions_get (ls_table s) key \<Longrightarrow>
    live_step rt fuel key placed s (s\<lparr>ls_conn := c, ls_scene := sc, ls_table := table\<rparr>)"

inductive live_reachable ::
  "runtime \<Rightarrow> nat \<Rightarrow> nat \<Rightarrow> (ustr \<times> PlacedKind \<times> Rect) list \<Rightarrow> live \<Rightarrow> bool" for rt fuel key placed where
  subscribed: "valid_str region \<Longrightarrow> valid_str (gen_text g) \<Longrightarrow>
    server_send_update_parts rt region (gen_text g) False c = (Inr (), c') \<Longrightarrow> regions_get table key = None \<Longrightarrow>
    shown rt fuel key placed region (Some (gen_text g, False)) ([], sc, table) (ps, sc', table') \<Longrightarrow>
    live_reachable rt fuel key placed
      \<lparr>ls_sub = \<lparr>sub_of_region = region, sub_in_mode = m, baseline = g, updates = g, metadata_lease = n\<rparr>,
       ls_conn = c', ls_pieces = ps, ls_scene = sc', ls_table = table'\<rparr>"
| step: "live_reachable rt fuel key placed s \<Longrightarrow> live_step rt fuel key placed s s' \<Longrightarrow> live_reachable rt fuel key placed s'"

lemma shown_update:
  assumes "shown rt fuel key placed region (Some (content, delta)) (ps, sc, table) (ps', sc', table')"
    and "live_region placed key region = Some (aml_id, scroll, n, r)" "scroll \<noteq> ScrollNone"
    and "0 < rect_w r" "n \<le> u32_max" "rect_h r \<le> u16_max"
    and "delta \<longrightarrow> ps \<noteq> [] \<and> (\<exists>b. regions_get table key = Some b \<and> keeps scroll n r (map snd ps) b)"
    and "\<And>b. regions_get table key = Some b \<Longrightarrow> wf_region b"
  shows "map fst ps' = pieces_after (Some (content, delta)) (map fst ps)" "ps' \<noteq> []"
    "\<exists>b. regions_get table' key = Some b \<and> keeps scroll n r (map snd ps') b"
proof -
  obtain admit draw mini where s: "drawn_as draw fuel key placed sc region content mini"
    "apply_live_update rt admit draw fuel
       \<lparr>upd_region = region, upd_content = content, upd_flags = \<lparr>delta_flag = delta\<rparr>\<rparr> key placed sc table =
     Some (True, sc', table')"
    "ps' = (if delta then ps else []) @ [(content, mini)]"
    using assms(1) by (auto simp: shown_def)
  obtain m nid bg buf where d: "draw (rect_w r) (rect_h r) (wrap_update content) = Drawn m" "buf_height m \<le> u16_max"
    "find_by_aml_id sc aml_id = Some nid" "inherited_background fuel sc nid = Some bg" "live_buffer sc nid = Some buf"
    "mini = inherit_background bg m"
    using s(1) assms(2) by (auto simp: drawn_as_def)
  obtain buf' where u: "show_update rt admit key scroll n r delta mini buf table = Some (buf', table')"
    using s(2) d assms(2) by (auto simp: apply_live_update_def Let_def split: if_splits option.splits)
  show "map fst ps' = pieces_after (Some (content, delta)) (map fst ps)" "ps' \<noteq> []"
    by (simp_all add: s(3) pieces_after_def)
  have "buf_height mini \<le> u16_max"
    using d(2,6) by simp
  from show_update_keeps [OF u assms(3) this assms(4-6), of "map snd ps"] assms(7,8)
  show "\<exists>b. regions_get table' key = Some b \<and> keeps scroll n r (map snd ps') b"
    by (auto simp: s(3))
qed

definition live_inv :: "runtime \<Rightarrow> nat \<Rightarrow> LiveScroll \<Rightarrow> nat \<Rightarrow> Rect \<Rightarrow> live \<Rightarrow> bool" where
  "live_inv rt key scroll n r s \<longleftrightarrow>
     sub_inv rt (ls_sub s) (map fst (ls_pieces s)) \<and> ls_pieces s \<noteq> []
     \<and> (\<exists>b. regions_get (ls_table s) key = Some b \<and> keeps scroll n r (map snd (ls_pieces s)) b)"

lemma live_inv_step:
  assumes "ample rt" "live_inv rt key scroll n r s" "live_step rt fuel key placed s s'"
    and region: "live_region placed key (sub_of_region (ls_sub s)) = Some (aml_id, scroll, n, r)" "scroll \<noteq> ScrollNone"
    and sizes: "0 < rect_w r" "n \<le> u32_max" "rect_h r \<le> u16_max"
  shows "live_inv rt key scroll n r s'"
  using assms(3)
proof cases
  case (published g)
  then show ?thesis
    using assms(2) by (auto simp: live_inv_def sub_inv_def)
next
  case (flushed sub' c' bytes u ps sc table)
  have i: "sub_inv rt (ls_sub s) (map fst (ls_pieces s))" "ls_pieces s \<noteq> []"
    "\<exists>b. regions_get (ls_table s) key = Some b \<and> keeps scroll n r (map snd (ls_pieces s)) b"
    using assms(2) by (simp_all add: live_inv_def)
  have "map fst ps = pieces_after u (map fst (ls_pieces s)) \<and> ps \<noteq> []
      \<and> (\<exists>b. regions_get table key = Some b \<and> keeps scroll n r (map snd ps) b)"
  proof (cases u)
    case None
    with flushed(5) i show ?thesis by (simp add: shown_def pieces_after_def)
  next
    case (Some v)
    then have u: "u = Some (fst v, snd v)" by simp
    have "regions_get (ls_table s) key = Some b \<Longrightarrow> wf_region b" for b
      using i(3) by (auto simp: keeps_def)
    from shown_update [OF flushed(5) [unfolded u] region sizes _ this] i(2,3) show ?thesis
      unfolding u by blast
  qed
  then show ?thesis
    using flush_inv [OF assms(1) i(1) flushed(2-4)] by (simp add: live_inv_def flushed(1))
next
  case (other table c sc)
  then show ?thesis
    using assms(2) by (simp add: live_inv_def)
qed

lemma live_reachable_inv:
  assumes "ample rt" "live_reachable rt fuel key placed s"
    and "live_region placed key (sub_of_region (ls_sub s)) = Some (aml_id, scroll, n, r)" "scroll \<noteq> ScrollNone"
    and "0 < rect_w r" "n \<le> u32_max" "rect_h r \<le> u16_max"
  shows "live_inv rt key scroll n r s"
  using assms(2,3)
proof induction
  case (subscribed region g c c' table sc ps sc' table' m k)
  have "validate_update_parts rt region (len (gen_text g)) = Inr ()"
    using update_sent(2) [OF assms(1) subscribed(1-3)] .
  from parts_fit [OF this] have "sub_inv rt \<lparr>sub_of_region = region, sub_in_mode = m, baseline = g, updates = g,
      metadata_lease = k\<rparr> [gen_text g]"
    using subscribed(1,2) by (simp add: sub_inv_def fits_def)
  moreover have "map fst ps = [gen_text g]" "ps \<noteq> []"
    "\<exists>b. regions_get table' key = Some b \<and> keeps scroll n r (map snd ps) b"
    using shown_update [OF subscribed(5) _ assms(4-7)] subscribed(4,6) by (simp_all add: pieces_after_def)
  ultimately show ?case
    by (simp add: live_inv_def)
next
  case (step s s')
  have "sub_of_region (ls_sub s') = sub_of_region (ls_sub s)"
    using step.hyps(2)
  proof cases
    case (flushed sub' c' bytes u ps sc table)
    then show ?thesis
      by (auto simp: flush_subscription_def lift_def bind_Inr Let_def split: if_splits prod.splits)
  qed simp_all
  with step live_inv_step [OF assms(1) _ step.hyps(2) _ assms(4-7)] show ?case
    by simp
qed


section \<open>What goes wrong\<close>

text \<open>
  A region that does not accumulate shows each update in place of the one before, delta or not:
  with a subscription in delta mode it shows the last suffix only.
\<close>

lemma none_ignores_delta:
  "show_update rt admit key ScrollNone n r True mini buf table = show_update rt admit key ScrollNone n r False mini buf table"
  by (simp add: show_update_def)

text \<open>
  A region whose size has changed forgets what it showed: the next delta is all that is left.
\<close>

lemma resized_region_forgets:
  assumes "regions_update rt admit key w h n mini AppendRows table = Some table'" "regions_get table key = Some b"
    and "rb_width b \<noteq> w \<or> rb_visible_height b \<noteq> h" "buf_height mini \<le> u16_max" "0 < w" "n \<le> u32_max" "h \<le> u16_max"
  shows "\<exists>b'. regions_get table' key = Some b' \<and> region_rows b' = last_rows (max n h) (drawn_rows w mini)"
proof -
  obtain b' where b': "rebuild rt admit mini AppendRows (region_new w h n) = Some b'" "regions_get table' key = Some b'"
    using regions_update_get [OF assms(1)] assms(2,3) by (auto split: if_splits)
  have "wf_region (region_new w h n)"
    using assms(5-7) by (intro wf_region_new) (simp_all add: u16_max_def u32_max_def)
  from rebuild_rows(1) [OF b'(1) this assms(4)] show ?thesis
    using b'(2) by (simp add: region_rows_new) (simp add: region_new_def)
qed

end
