(* ===== verification/Live_Demo.thy ===== *)
theory Live_Demo
  imports Live_Region
begin

text \<open>A concrete live region: the property of \<open>Live_Region\<close> at work.\<close>

section \<open>A region of one cell\<close>

definition demo_placed :: "(ustr \<times> PlacedKind \<times> Rect) list" where
  "demo_placed = [(lit ''rs'', PlacedLive (lit ''/'') ScrollTail 10 True, \<lparr>rect_x = 0, rect_y = 0, rect_w = 1, rect_h = 1\<rparr>)]"

definition demo_mini :: CellBuffer where
  "demo_mini = \<lparr>buf_width = 1, buf_height = 1, buf_cells = [Cell_new 120 default_style], buf_failed = False, buf_lease = None\<rparr>"

definition demo_node :: Node where
  "demo_node = \<lparr>node_id = (0, 1),
     node_kind = LiveRegionK \<lparr>lv_endpoint = lit ''/'', lv_height = Fixed 1, lv_scroll = ScrollTail, lv_buffer = 10, lv_delta = True\<rparr>,
     node_parent = None, node_children = [], node_child_room = 0, node_placement = empty_at 0 0, node_focusable_rect = None,
     node_buffer = Some demo_mini, node_z_index = 0, node_transform = IDENTITY, node_visible = True, node_focusable = False,
     node_hit_target = None, node_aml_id = Some (lit ''rs''), node_measured = None\<rparr>"

definition demo_scene :: Scene where
  "demo_scene = \<lparr>scene_root = (0, 1),
     scene_nodes = \<lparr>slots = [\<lparr>slot_version = 1, slot_node = Some demo_node\<rparr>], free = [], limit = 1, len_nodes = 1\<rparr>,
     scene_aml_index = [(0, 1)], scene_aml_room = 1, scene_inv = invalidation_default, scene_focus = None, scene_scroll = 0,
     scene_bindings = [], scene_page_mode = DocumentMode, scene_transition = None, scene_transition_duration_ms = 0,
     scene_title = None, scene_resource_error = False, scene_journal = None, scene_overlay_slot = None,
     scene_governed = False, scene_governed_nodes = False, scene_governed_relations = False, scene_layout_pass = 0\<rparr>"

lemma demo_region: "live_region demo_placed 0 (lit ''rs'') =
    Some (lit ''rs'', ScrollTail, 10, \<lparr>rect_x = 0, rect_y = 0, rect_w = 1, rect_h = 1\<rparr>)"
  by (simp add: live_region_def demo_placed_def)

lemma demo_get: "scene_get demo_scene (0, 1) = Some demo_node"
  by (simp add: scene_get_def nodes_get_def demo_scene_def)

lemma demo_found: "find_by_aml_id demo_scene (lit ''rs'') = Some (0, 1)"
proof -
  have "scene_aml_index demo_scene = [(0, 1)]" "node_aml_id demo_node = Some (lit ''rs'')"
    by (simp_all add: demo_scene_def demo_node_def)
  then show ?thesis
    using demo_get by (simp add: find_by_aml_id_def)
qed

lemma demo_alone: "inherited_background 0 demo_scene (0, 1) = Some None"
  by (simp add: inherited_background_def demo_get demo_node_def)

lemma demo_live: "live_buffer demo_scene (0, 1) = Some demo_mini"
  by (simp add: live_buffer_def demo_get live_owned_def) (simp add: demo_node_def)

lemma demo_height: "content_height demo_mini = 1"
  by (simp add: content_height_def demo_mini_def buf_row_def has_content_def Cell_new_def)

lemma demo_rebuilt:
  "\<exists>b. rebuild roomy_runtime (\<lambda>_ _ _. True) demo_mini ReplaceRows (region_new 1 1 10) = Some b"
  by (simp add: rebuild_def demo_height region_new_def row_source_def source_row_def roomy_runtime_def usize_max_def
      try_reserve_def isize_max_def)

lemma demo_applied:
  "\<exists>sc' table'. apply_live_update roomy_runtime (\<lambda>_ _ _. True) (\<lambda>_ _ _. Drawn demo_mini) 0
      \<lparr>upd_region = lit ''rs'', upd_content = lit ''x'', upd_flags = \<lparr>delta_flag = False\<rparr>\<rparr> 0 demo_placed demo_scene regions_new =
    Some (True, sc', table')"
proof -
  have "position (holds_key 0) regions_new = None"
    by (simp add: position_None regions_new_def holds_key_def)
  moreover have "position (\<lambda>slot. slot = None) regions_new = Some 0"
    by (simp add: regions_new_def MAX_ACTIVE_SUBSCRIPTIONS_def numeral_eq_Suc)
  ultimately obtain table' where u: "regions_update roomy_runtime (\<lambda>_ _ _. True) 0 1 1 10 demo_mini ReplaceRows regions_new = Some table'"
    using demo_rebuilt by (auto simp: regions_update_def Let_def)
  then obtain b where "regions_get table' 0 = Some b"
    using regions_update_get by blast
  with u obtain buf where "show_update roomy_runtime (\<lambda>_ _ _. True) 0 ScrollTail 10 \<lparr>rect_x = 0, rect_y = 0, rect_w = 1, rect_h = 1\<rparr>
      False demo_mini demo_mini regions_new = Some (buf, table')"
    by (simp add: show_update_def)
  moreover have "len (wrap_update (lit ''x'')) \<le> isize_max"
    by (simp add: wrap_update_def lit_def len_utf8_def isize_max_def)
  moreover from this have "try_reserve roomy_runtime (len (wrap_update (lit ''x'')))"
    by (rule ample_try_reserve [OF ample_roomy])
  ultimately show ?thesis
    by (simp add: apply_live_update_def demo_region demo_found demo_alone demo_live inherit_background_def isize_max_def
        usize_max_def Let_def)
qed


end
