(* ===== verification/Spec2Isabelle.thy ===== *)
theory Spec2Isabelle
  imports Wire_System Status_Address Origin Include Forms Server_Demo Parser_Demo Terminal Relayout Scene_Build Live_Demo
begin

text \<open>
  A verification of the protocol and markup core of dustnet, a terminal browser and server for
  ANSI art pages over the text protocol ATP. The sources are under \<open>src/crates\<close>.

  \<^bold>\<open>The program.\<close> \<open>dustnet-core\<close> holds what client and server share: the ATP protocol
  (\<open>protocol/\<close>: limits and errors, frames, the connection state machine, messages, URIs,
  origins), session tokens (\<open>session.rs\<close>), and the AML markup (\<open>scanner/\<close>: the filter between
  remote text and the terminal, and the tokenizer; \<open>serialize.rs\<close>: tokens back to text;
  \<open>parser/\<close>, \<open>color/\<close>). \<open>dustnet-client\<close> and \<open>dustnet-server\<close> put these on a TCP or TLS
  stream (\<open>transport.rs\<close> of each crate) and build a browser and a page server on top. A client
  connects, exchanges HELLO and WELCOME, sends requests (GET, INPUT, SUBSCRIBE, PING) and
  receives PAGE, REDIRECT, ERROR, UPDATE; the bodies of pages are AML, which the server may
  complete (\<open>include.rs\<close>) and the client scans, parses and renders.

  \<^bold>\<open>Language and runtime.\<close> \<open>Prelude\<close> has the result type (\<open>Inl\<close> the error), the early-return
  operator \<open>and_then\<close>, machine integers with their checked operations, and the record
  \<open>runtime\<close>: whether the allocator grants a reservation and how large a structure is. The code
  reserves all remotely sized memory fallibly, so every definition that allocates takes a
  runtime; \<open>ample\<close> is the case in which only the code's own limits decide. \<open>Rust_Str\<close> models
  \<open>char\<close> and \<open>str\<close> (code points as naturals) with the operations the code uses, \<open>Utf8\<close> the
  encoding and \<open>from_utf8\<close>, \<open>Rust_Net\<close> the parsing and printing of IP addresses.

  \<^bold>\<open>Protocol.\<close>
  \<^item> \<open>Protocol\<close> (\<open>protocol/mod.rs\<close>): limits, \<open>ProtocolError\<close>, the bounded diagnostic writer,
    versions and capability negotiation. Diagnostics are bounded prefixes; a version is accepted
    exactly in its canonical spelling; a capability is on exactly when both peers named it.
  \<^item> \<open>Frame\<close> (\<open>protocol/frame.rs\<close>): message codes, frame encoding, header decoding, with their
    round trip.
  \<^item> \<open>Conn_State\<close>, \<open>Conn_System\<close> (\<open>protocol/state.rs\<close>): the validator each end runs, and two of
    them joined by FIFO queues as a step relation; in every interleaving no delivered message is
    refused before shutdown starts.
  \<^item> \<open>Message\<close>, \<open>Message_Laws\<close>, \<open>Message_Codec\<close>, \<open>Page\<close>, \<open>Page_Laws\<close>, \<open>Page_Codec\<close>,
    \<open>Frame_Bodies\<close> (\<open>protocol/message.rs\<close>): every message with its parser, its serializer and
    its allocation-free validator. A locale states what a codec promises and is interpreted for
    each message; the properties are the round trips, the agreement of validators with parsers,
    and that a serialized message passes the frame check of its type.
  \<^item> \<open>Uri\<close>, \<open>Uri_Laws\<close>, \<open>Origin\<close> (\<open>protocol/uri.rs\<close>, \<open>protocol/origin.rs\<close>): parsing, resolution
    and display of URIs, path normalisation as a refinement of a stack of segments, origins and
    their storage keys. The idna crate is a parameter.
  \<^item> \<open>Session\<close>, \<open>Session_Laws\<close> (\<open>session.rs\<close>): directives and the token stores; tokens only come
    back to the origin that set them, rejected directives change nothing, the store stays
    within its bounds.

  \<^bold>\<open>Connections.\<close>
  \<^item> \<open>Transport\<close>, \<open>Transport_Laws\<close> (\<open>transport.rs\<close> of client and server): the framed connection
    over a byte stream. The stream is the parameter: the bytes the peer will deliver and the
    error after them, and the bytes accepted and the error after those. The checks of a frame,
    the poisoning of a connection after an error, and the streamed UPDATE.
  \<^item> \<open>Wire_System\<close>: two connections joined by their byte streams, as a step relation over
    sends and receives in any order. It refines \<open>Conn_System\<close> (each end has received a prefix
    of what the other sent, the streams hold exactly the frames in flight), the next frame in
    flight is always received, both ends agree on what was negotiated, and the handshake
    completes.

  \<^bold>\<open>Markup.\<close>
  \<^item> \<open>Escape\<close> (\<open>scanner/escape.rs\<close>): the filter; only safe characters pass, safe text is
    unchanged.
  \<^item> \<open>Scanner\<close>, \<open>Scanner_Laws\<close> (\<open>scanner/mod.rs\<close>): the tokenizer as functions of the characters
    that remain, total by the progress of every step; what it returns is bounded, printable and
    canonical.
  \<^item> \<open>Serialize\<close> (\<open>serialize.rs\<close>): the serializer and its round trip with the scanner, and the
    control character for which the round trip fails.
  \<^item> \<open>Rust_Float\<close>: \<open>f32\<close> and \<open>f64\<close> as far as the parser uses them (parsing, one product, the
    saturating cast). \<open>Color\<close> (\<open>color/\<close>): colours, their parsing and their mapping to smaller
    palettes, which picks an entry at the least distance.
  \<^item> \<open>Ast\<close> (\<open>parser/ast.rs\<close>): the syntax tree of 39 elements and the value parsers. \<open>Report\<close>:
    diagnostics and fallible allocation, as a state monad that parser, components and validator
    share, and what a run without errors yields.
  \<^item> \<open>Parser\<close>, \<open>Parser_Elements\<close> (\<open>parser/mod.rs\<close>): the parser, one definition per method, in the
    same monad over its tokens, position, element count and depth. A loop over the tokens is
    \<open>token_loop\<close>, total because a turn that goes on has read a token; the methods get
    \<open>parse_children\<close> as an argument, and \<open>children_at\<close> closes the recursion with one level more than
    the nesting limit. \<open>Parser_Laws\<close>: no method goes back, and the recursive equation of the source
    holds, so the levels are enough. \<open>Parser_Bounds\<close>: depth and size of every document.
    \<open>Parser_Valid\<close>: a document parsed without errors is well formed; a locale states what
    \<open>parse_children\<close> promises the element parsers.
  \<^item> \<open>Components\<close>, \<open>Components_Laws\<close> (\<open>parser/components.rs\<close>): the extraction of components and
    their expansion in the token stream; the output is bounded. \<open>Validate\<close>, \<open>Validate_Laws\<close>
    (\<open>parser/validate.rs\<close>): the checks of a whole document, what they establish, what the search
    for cascades computes, and that its cost is factorial. \<open>Documents\<close> (\<open>parser::parse\<close>) composes
    the three. \<open>Parser_Demo\<close> runs them on small documents.
  \<^item> \<open>Include\<close> (\<open>dustnet-server/src/include.rs\<close>): replacing placeholders by a resolver's tokens;
    the resolver is a parameter.

  \<^bold>\<open>Server.\<close>
  \<^item> \<open>Forms\<close> (\<open>input.rs\<close>, \<open>runner.rs\<close>): the client's encoding of a form and the server's decoding.
  \<^item> \<open>Site\<close> (\<open>lib.rs\<close>): from the path of a request to the bytes of a file, over a file system that
    is a parameter.
  \<^item> \<open>Live\<close> (\<open>lib.rs\<close>, \<open>live_watch.rs\<close>): the byte budget of subscriptions and the updates a
    subscriber is sent; the contents sent since the last complete one add up to its baseline, unless
    a generation is too long to be sent.
  \<^item> \<open>Server\<close>, \<open>Server_Laws\<close>, \<open>Server_Runs\<close>, \<open>Server_Demo\<close> (\<open>lib.rs\<close>, \<open>session.rs\<close>): one connection
    from its HELLO to its end, as a function of the events of its select loop; the hooks of the
    site are parameters. Every request received is answered, only files of the site are served,
    budgets are returned, and the runs in which the code loses a frame or answers for a revoked
    identity.

  \<^bold>\<open>Client.\<close>
  \<^item> \<open>Status_Address\<close> (\<open>compositor/terminal/rendering.rs\<close>): the address the status bar shows for a
    link, which has its own resolution, against the URI that following the link requests.
  \<^item> \<open>Governor\<close> (\<open>resource.rs\<close>): the budget of everything a page makes the client allocate; its
    account is the multiset of the leases alive. The other theories take the governor's answer to a
    reservation as a parameter.
  \<^item> \<open>Cells\<close> (\<open>compositor/layout/rect.rs\<close>, \<open>cell.rs\<close>): rectangles and buffers of styled cells.
    \<open>Present\<close>, \<open>Terminal\<close> (\<open>compositor/present\<close>): from a buffer to control sequences; on a terminal
    with the documented behaviour, stated as a predicate and held by a grid, a full render shows the
    buffer and a difference render takes the screen from one frame to the next.
  \<^item> \<open>Scene_Node\<close>, \<open>Scene\<close>, \<open>Patch\<close>, \<open>Arena_Laws\<close>, \<open>Relayout\<close>, \<open>Scene_Build\<close>
    (\<open>compositor/scene\<close>): the arena of nodes, the scene with its dirty regions, relayout
    transactions and overlays, patches, and the scene of a document. The key of a removed node stays
    dead, and a rollback undoes whatever layout did.
  \<^item> \<open>Live_Region\<close>, \<open>Live_Demo\<close> (\<open>compositor/terminal/runner.rs\<close>): the rows a live region keeps,
    and an update applied to it. A subscription joined with the region that shows it is a step
    relation: the region holds the rows drawn for what was published.

  \<^bold>\<open>Bounds and fuel.\<close> Walks over the ancestors or the tree of a scene take fuel and give \<open>None\<close>
  when it runs out, for nothing in an arena forbids a cycle; the properties hold for every fuel.
  No other definition uses fuel: loops are recursions on the text, the tokens or the
  characters left, with termination proofs; the levels of \<open>children_at\<close> are the nesting limit and
  its theorem shows that no call needs more. \<open>usize\<close> values are naturals with the 64-bit bound
  written out at every checked operation; 8, 16, 32 and 64-bit fields are words.

  \<^bold>\<open>Not modelled.\<close> Of the client: the layout engine, the composition of buffers, animation and WASM
  effects, the viewer's navigation and its input handling; a drawn update is a parameter of
  \<open>Live_Region\<close>. Of the server: the accept loop and the task that watches files for live regions,
  tokio and file-system code around the operations modelled here, whose answers are parameters.
  TLS, certificates and the verifiers handed to rustls; \<open>Display\<close> instances that only humans read;
  the accounting of retained capacities, which are the allocator's; the hooks by which tests inject
  allocation failures, which the runtime parameter covers.
\<close>

end
